(* ===== verification/Prelude.thy ===== *)
theory Prelude
  imports Main "HOL-Library.Word" "HOL-Library.AList" "HOL-Library.Multiset"
    "HOL-Library.Monad_Syntax"
begin

text \<open>
  Shared vocabulary of the development.

  \<^item> Go's fixed-width integers are words: \<open>u8\<close>, \<open>u32\<close>, \<open>u64\<close>; \<open>*big.Int\<close> is \<open>int\<close>;
    \<open>common.Hash\<close> and \<open>common.Address\<close> are 256-bit and 160-bit words; \<open>[]byte\<close> is a list
    of \<open>u8\<close>.
  \<^item> A Go map is an association list (\<open>gm_get\<close>, \<open>gm_set\<close>, \<open>gm_del\<close>); \<open>range\<close> visits it in
    list order. Go leaves the order open, and every theorem is about an arbitrary list, so it
    covers every order.
  \<^item> A call that may panic (nil dereference, index out of range) has an \<open>option\<close> result, with
    \<open>None\<close> for the panic; a call that returns an \<open>error\<close> has a sum result, with \<open>Inl\<close> for
    the error.
  \<^item> \<open>sort_Search\<close> is the binary search of Go's package \<open>sort\<close>.
\<close>

section \<open>Types\<close>

type_synonym u8 = "8 word"
type_synonym u32 = "32 word"
type_synonym u64 = "64 word"
type_synonym hash = "256 word"
type_synonym address = "160 word"
type_synonym bytes = "u8 list"

type_synonym ('k, 'v) gomap = "('k \<times> 'v) list"

section \<open>Collections of facts\<close>

named_theorems gomap_simps "lookups after the operations on Go maps"
named_theorems inv_intros "operations keep their component's invariant"
named_theorems frame_simps "fields an operation leaves alone"

declare Let_def [simp]

section \<open>Go maps\<close>

definition gm_get :: "('k, 'v) gomap \<Rightarrow> 'k \<Rightarrow> 'v option" where
  "gm_get m k = map_of m k"

definition gm_set :: "'k \<Rightarrow> 'v \<Rightarrow> ('k, 'v) gomap \<Rightarrow> ('k, 'v) gomap" where
  "gm_set k v m = AList.update k v m"

definition gm_del :: "'k \<Rightarrow> ('k, 'v) gomap \<Rightarrow> ('k, 'v) gomap" where
  "gm_del k m = AList.delete k m"

definition gm_wf :: "('k, 'v) gomap \<Rightarrow> bool" where
  "gm_wf m \<longleftrightarrow> distinct (map fst m)"

text \<open>
  The contract of a finite map, as its clients use it: lookups after a store and a removal,
  the pairs a \<open>range\<close> visits, and the representation invariant.
\<close>

locale finite_map =
  fixes get :: "'m \<Rightarrow> 'k \<Rightarrow> 'v option"
    and put :: "'k \<Rightarrow> 'v \<Rightarrow> 'm \<Rightarrow> 'm"
    and del :: "'k \<Rightarrow> 'm \<Rightarrow> 'm"
    and pairs :: "'m \<Rightarrow> ('k \<times> 'v) set"
    and wf :: "'m \<Rightarrow> bool"
  assumes get_put: "get (put k v m) k' = (if k' = k then Some v else get m k')"
    and get_del: "get (del k m) k' = (if k' = k then None else get m k')"
    and pairs_get: "wf m \<Longrightarrow> (k, v) \<in> pairs m \<longleftrightarrow> get m k = Some v"
    and wf_put: "wf m \<Longrightarrow> wf (put k v m)"
    and wf_del: "wf m \<Longrightarrow> wf (del k m)"
begin

lemma pairs_put: "wf m \<Longrightarrow> pairs (put k v m) = insert (k, v) {p \<in> pairs m. fst p \<noteq> k}"
proof (intro equalityI subsetI)
  fix p assume "wf m" "p \<in> pairs (put k v m)"
  then show "p \<in> insert (k, v) {p \<in> pairs m. fst p \<noteq> k}"
    by (cases p) (auto simp: pairs_get wf_put get_put split: if_splits)
next
  fix p assume "wf m" "p \<in> insert (k, v) {p \<in> pairs m. fst p \<noteq> k}"
  then show "p \<in> pairs (put k v m)"
    by (cases p) (auto simp: pairs_get wf_put get_put split: if_splits)
qed

lemma pairs_del: "wf m \<Longrightarrow> pairs (del k m) = {p \<in> pairs m. fst p \<noteq> k}"
proof (intro equalityI subsetI)
  fix p assume "wf m" "p \<in> pairs (del k m)"
  then show "p \<in> {p \<in> pairs m. fst p \<noteq> k}"
    by (cases p) (auto simp: pairs_get wf_del get_del split: if_splits)
next
  fix p assume "wf m" "p \<in> {p \<in> pairs m. fst p \<noteq> k}"
  then show "p \<in> pairs (del k m)"
    by (cases p) (auto simp: pairs_get wf_del get_del split: if_splits)
qed

lemma pairs_functional: "wf m \<Longrightarrow> (k, v) \<in> pairs m \<Longrightarrow> (k, w) \<in> pairs m \<Longrightarrow> v = w"
  by (simp add: pairs_get)

end

interpretation gm: finite_map gm_get gm_set gm_del set gm_wf
proof unfold_locales
  show "gm_get (gm_set k v m) k' = (if k' = k then Some v else gm_get m k')"
    for k k' and v :: 'v and m
    by (simp add: gm_get_def gm_set_def update_conv')
  show "gm_get (gm_del k m) k' = (if k' = k then None else gm_get m k')"
    for k k' and m :: "('k \<times> 'v) list"
    by (simp add: gm_get_def gm_del_def delete_conv')
  show "gm_wf m \<Longrightarrow> (k, v) \<in> set m \<longleftrightarrow> gm_get m k = Some v" for m k and v :: 'v
    by (simp add: gm_wf_def gm_get_def)
  show "gm_wf m \<Longrightarrow> gm_wf (gm_set k v m)" for m k and v :: 'v
    by (simp add: gm_wf_def gm_set_def distinct_update)
  show "gm_wf m \<Longrightarrow> gm_wf (gm_del k m)" for k and m :: "('k \<times> 'v) list"
    by (simp add: gm_wf_def gm_del_def distinct_delete)
qed

lemmas [gomap_simps] = gm.get_put gm.get_del gm.pairs_put gm.pairs_del gm.wf_put gm.wf_del

lemma gm_wf_Nil [simp]: "gm_wf []"
  by (simp add: gm_wf_def)

lemma gm_get_Nil [simp]: "gm_get [] k = None"
  by (simp add: gm_get_def)

lemma gm_get_Cons [simp]: "gm_get ((k, v) # m) k' = (if k' = k then Some v else gm_get m k')"
  by (simp add: gm_get_def)

lemma gm_wf_filter: "gm_wf m \<Longrightarrow> gm_wf (filter P m)"
  by (induction m) (auto simp: gm_wf_def)

lemma gm_get_filter:
  "gm_wf m \<Longrightarrow> gm_get (filter P m) k =
     (case gm_get m k of None \<Rightarrow> None | Some v \<Rightarrow> if P (k, v) then Some v else None)"
proof (induction m)
  case (Cons p m)
  obtain j w where p: "p = (j, w)" by (cases p)
  have "gm_get (filter P m) j = None" if "gm_wf ((j, w) # m)"
    using that by (auto simp: gm_wf_def gm_get_def map_of_eq_None_iff)
  with Cons show ?case by (auto simp: p gm_wf_def)
qed simp

lemma gm_get_SomeD: "gm_get m k = Some v \<Longrightarrow> (k, v) \<in> set m"
  by (simp add: gm_get_def map_of_SomeD)

text \<open>
  \<open>for k, v := range m { body }\<close>, where the body may change the map it ranges over: the keys
  are visited in some order \<open>ks\<close>, and one that was deleted before it is reached is skipped.
  \<open>mp\<close> reads the map off the loop's state.
\<close>

fun go_range :: "('s \<Rightarrow> ('k, 'v) gomap) \<Rightarrow> ('k \<Rightarrow> 'v \<Rightarrow> 's \<Rightarrow> 's) \<Rightarrow> 'k list \<Rightarrow> 's \<Rightarrow> 's" where
  "go_range mp body [] s = s"
| "go_range mp body (k # ks) s =
     (case gm_get (mp s) k of
        None \<Rightarrow> go_range mp body ks s
      | Some v \<Rightarrow> go_range mp body ks (body k v s))"

lemma go_range_invariant:
  assumes "I s" "\<And>k v s. I s \<Longrightarrow> gm_get (mp s) k = Some v \<Longrightarrow> I (body k v s)"
  shows "I (go_range mp body ks s)"
  using assms by (induction ks arbitrary: s) (auto split: option.splits)

text \<open>The same with the keys still to visit in the invariant.\<close>

lemma go_range_invariant_rest:
  assumes "I ks s"
    and "\<And>k ks v s. I (k # ks) s \<Longrightarrow> gm_get (mp s) k = Some v \<Longrightarrow> I ks (body k v s)"
    and "\<And>k ks s. I (k # ks) s \<Longrightarrow> gm_get (mp s) k = None \<Longrightarrow> I ks s"
  shows "I [] (go_range mp body ks s)"
  using assms by (induction ks arbitrary: s) (auto split: option.splits)

lemma gm_del_split: "gm_wf (m1 @ (k, v) # m2) \<Longrightarrow> gm_del k (m1 @ (k, v) # m2) = m1 @ m2"
  by (simp add: gm_wf_def gm_del_def AList.delete_eq)
    (intro arg_cong2 [where f = append] filter_True, auto simp: image_iff)

lemma gm_get_split: "gm_wf (m1 @ (k, v) # m2) \<Longrightarrow> gm_get (m1 @ (k, v) # m2) k = Some v"
  by (subst gm.pairs_get [symmetric]) auto

text \<open>A loop that deletes the entries it selects is a filter.\<close>

lemma go_range_filter_aux:
  assumes "gm_wf (m1 @ m2)"
    and "\<And>k v m. (k, v) \<in> set m2 \<Longrightarrow> body k v m = (if P k v then gm_del k m else m)"
  shows "go_range (\<lambda>m. m) body (map fst m2) (m1 @ m2) = m1 @ filter (\<lambda>(k, v). \<not> P k v) m2"
  using assms
proof (induction m2 arbitrary: m1)
  case (Cons p m2)
  obtain k v where p: "p = (k, v)" by (cases p)
  have get: "gm_get (m1 @ (k, v) # m2) k = Some v"
    using Cons.prems(1) by (simp add: p gm_get_split)
  have body: "body k v m = (if P k v then gm_del k m else m)" for m
    using Cons.prems(2) [of k v m] by (simp add: p)
  have IH: "go_range (\<lambda>m. m) body (map fst m2) (m1' @ m2) = m1' @ filter (\<lambda>(k, v). \<not> P k v) m2"
    if "gm_wf (m1' @ m2)" for m1'
    by (rule Cons.IH [OF that]) (simp add: Cons.prems(2))
  show ?case
  proof (cases "P k v")
    case True
    have "gm_wf (m1 @ m2)" using Cons.prems(1) by (auto simp: gm_wf_def p)
    with True get body IH [of m1] show ?thesis
      using gm_del_split [of m1 k v m2] Cons.prems(1) by (simp add: p)
  next
    case False
    with get body IH [of "m1 @ [p]"] Cons.prems(1) show ?thesis by (simp add: p)
  qed
qed simp

lemma go_range_filter:
  assumes "gm_wf m" "\<And>k v m'. (k, v) \<in> set m \<Longrightarrow> body k v m' = (if P k v then gm_del k m' else m')"
  shows "go_range (\<lambda>m. m) body (map fst m) m = filter (\<lambda>(k, v). \<not> P k v) m"
  using go_range_filter_aux [of "[]" m body P] assms by simp

section \<open>Binary search, as package sort has it\<close>

text \<open>
  \<open>sort.Search(n, f)\<close> keeps \<open>f(i-1) == false\<close> and \<open>f(j) == true\<close>, halving \<open>[i, j)\<close>. The
  predicate may panic, hence its option type.
\<close>

function sort_Search_loop :: "(nat \<Rightarrow> bool option) \<Rightarrow> nat \<Rightarrow> nat \<Rightarrow> nat option" where
  "sort_Search_loop f i j =
     (if i < j then
        (let h = (i + j) div 2 in
         case f h of
           None \<Rightarrow> None
         | Some b \<Rightarrow> if \<not> b then sort_Search_loop f (h + 1) j else sort_Search_loop f i h)
      else Some i)"
  by pat_completeness auto
termination
  by (relation "measure (\<lambda>(f, i, j). j - i)") auto

declare sort_Search_loop.simps [simp del]

definition sort_Search :: "nat \<Rightarrow> (nat \<Rightarrow> bool option) \<Rightarrow> nat option" where
  "sort_Search n f = sort_Search_loop f 0 n"

lemma sort_Search_loop_correct:
  assumes "i \<le> j" "j \<le> n"
    and "\<And>k. k < n \<Longrightarrow> f k = Some (p k)"
    and "\<And>k l. k \<le> l \<Longrightarrow> l < n \<Longrightarrow> p k \<Longrightarrow> p l"
    and "\<And>k. k < i \<Longrightarrow> \<not> p k"
    and "\<And>k. j \<le> k \<Longrightarrow> k < n \<Longrightarrow> p k"
  shows "\<exists>r \<le> n. sort_Search_loop f i j = Some r \<and> (\<forall>k < r. \<not> p k) \<and> (\<forall>k. r \<le> k \<and> k < n \<longrightarrow> p k)"
  using assms
proof (induction f i j rule: sort_Search_loop.induct)
  case (1 f i j)
  show ?case
  proof (cases "i < j")
    case False
    with "1.prems" have "i = j" by simp
    with "1.prems" show ?thesis
      by (intro exI [of _ i]) (auto simp: sort_Search_loop.simps)
  next
    case True
    define h where "h = (i + j) div 2"
    have h: "i \<le> h" "h < j" using True by (auto simp: h_def)
    with "1.prems" have fh: "f h = Some (p h)" by simp
    show ?thesis
    proof (cases "p h")
      case False
      have lo: "\<not> p k" if "k < h + 1" for k
        using that False "1.prems"(4) [of k h] h "1.prems"(2) by auto
      have "\<exists>r \<le> n. sort_Search_loop f (h + 1) j = Some r \<and> (\<forall>k < r. \<not> p k) \<and>
              (\<forall>k. r \<le> k \<and> k < n \<longrightarrow> p k)"
        by (rule "1.IH"(1) [OF True h_def fh]) (use False h "1.prems" lo in auto)
      with True fh False show ?thesis
        by (subst sort_Search_loop.simps) (simp add: h_def [symmetric] Let_def)
    next
      case ph: True
      have hi: "p k" if "h \<le> k" "k < n" for k
        using that ph "1.prems"(4) by blast
      have "\<exists>r \<le> n. sort_Search_loop f i h = Some r \<and> (\<forall>k < r. \<not> p k) \<and>
              (\<forall>k. r \<le> k \<and> k < n \<longrightarrow> p k)"
        by (rule "1.IH"(2) [OF True h_def fh]) (use ph h "1.prems" hi in auto)
      with True fh ph show ?thesis
        by (subst sort_Search_loop.simps) (simp add: h_def [symmetric] Let_def)
    qed
  qed
qed

lemma sort_Search_correct:
  assumes "\<And>k. k < n \<Longrightarrow> f k = Some (p k)"
    and "\<And>k l. k \<le> l \<Longrightarrow> l < n \<Longrightarrow> p k \<Longrightarrow> p l"
  obtains r where "r \<le> n" "sort_Search n f = Some r" "\<And>k. k < r \<Longrightarrow> \<not> p k"
    "\<And>k. r \<le> k \<Longrightarrow> k < n \<Longrightarrow> p k"
  using sort_Search_loop_correct [of 0 n n f p] assms by (auto simp: sort_Search_def)

section \<open>Lists\<close>

text \<open>A list split at the threshold of a predicate that is monotone along it.\<close>

lemma take_filter_threshold:
  assumes "r \<le> length xs" "\<And>k. k < r \<Longrightarrow> \<not> P (xs ! k)"
    "\<And>k. r \<le> k \<Longrightarrow> k < length xs \<Longrightarrow> P (xs ! k)"
  shows "take r xs = filter (\<lambda>x. \<not> P x) xs" "drop r xs = filter P xs"
proof -
  have tk: "\<forall>x \<in> set (take r xs). \<not> P x"
    using assms(1,2) by (auto simp: in_set_conv_nth)
  have dr: "\<forall>x \<in> set (drop r xs). P x"
  proof
    fix x assume "x \<in> set (drop r xs)"
    then obtain k where "k < length xs - r" "x = xs ! (r + k)"
      using assms(1) by (auto simp: in_set_conv_nth)
    then show "P x" using assms(3) [of "r + k"] by simp
  qed
  have xs: "xs = take r xs @ drop r xs" by simp
  show "take r xs = filter (\<lambda>x. \<not> P x) xs"
    by (subst (2) xs, subst filter_append) (use tk dr in \<open>simp add: filter_id_conv filter_empty_conv\<close>)
  show "drop r xs = filter P xs"
    by (subst (2) xs, subst filter_append) (use tk dr in \<open>simp add: filter_id_conv filter_empty_conv\<close>)
qed

section \<open>Decimal strings\<close>

text \<open>\<open>%d\<close> of a natural number.\<close>

fun go_itoa :: "nat \<Rightarrow> string" where
  "go_itoa n = (if n < 10 then [char_of (48 + n)] else go_itoa (n div 10) @ [char_of (48 + n mod 10)])"

declare go_itoa.simps [simp del]

end
