(* ===== verification/Resources.thy ===== *)
theory Resources
  imports Prelude
begin

text \<open>
  The resources of a batch: \<open>ZKCounters\<close>, \<open>BatchResources\<close> and their operations
  (\<open>state/types.go\<close>), the errors they return (\<open>state/errors.go\<close>) and the batch constraints
  (\<open>state/config.go\<close>). Each counter keeps its width; addition wraps as in Go. The locale
  \<open>resource_budget\<close> is what the sequencer relies on: a subtraction that succeeds exactly when
  the request fits, and is exact when it succeeds. Both \<open>Sub\<close> operations provide it.
\<close>

section \<open>Data\<close>

record ZKCounters =
  CumulativeGasUsed :: u64
  UsedKeccakHashes :: u32
  UsedPoseidonHashes :: u32
  UsedPoseidonPaddings :: u32
  UsedMemAligns :: u32
  UsedArithmetics :: u32
  UsedBinaries :: u32
  UsedSteps :: u32

record BatchResources =
  ZKCountersF :: ZKCounters
  Bytes :: u64

record BatchConstraintsCfg =
  MaxTxsPerBatch :: u64
  MaxBatchBytesSize :: u64
  MaxCumulativeGasUsed :: u64
  MaxKeccakHashes :: u32
  MaxPoseidonHashes :: u32
  MaxPoseidonPaddings :: u32
  MaxMemAligns :: u32
  MaxArithmetics :: u32
  MaxBinaries :: u32
  MaxSteps :: u32

datatype go_error =
    ErrorString string
  | BatchRemainingResourcesUnderflowError string int "go_error option" string

definition zkCounterErrPrefix :: string where
  "zkCounterErrPrefix = ''ZKCounter: ''"

definition GetZKCounterError :: "string \<Rightarrow> go_error" where
  "GetZKCounterError name = ErrorString (zkCounterErrPrefix @ name)"

definition constructErrorMsg :: "string \<Rightarrow> string" where
  "constructErrorMsg resourceName =
     ''underflow of remaining resources for current batch. Resource '' @ resourceName"

definition NewBatchRemainingResourcesUnderflowError :: "go_error option \<Rightarrow> string \<Rightarrow> go_error" where
  "NewBatchRemainingResourcesUnderflowError err resourceName =
     BatchRemainingResourcesUnderflowError (constructErrorMsg resourceName) 1 err resourceName"

definition ErrBatchResourceBytesUnderflow :: go_error where
  "ErrBatchResourceBytesUnderflow = NewBatchRemainingResourcesUnderflowError None ''Bytes''"

text \<open>The method \<open>Error() string\<close> of both kinds of error.\<close>

fun go_error_Error :: "go_error \<Rightarrow> string" where
  "go_error_Error (ErrorString s) = s"
| "go_error_Error (BatchRemainingResourcesUnderflowError Message Code Err ResourceName) =
     constructErrorMsg ResourceName"

section \<open>Operations\<close>

text \<open>
  The methods have a pointer receiver: they return the new value of the receiver. \<open>Sub\<close>
  returns the error, if any, and the receiver as it is left.
\<close>

definition ZKCounters_SumUp :: "ZKCounters \<Rightarrow> ZKCounters \<Rightarrow> ZKCounters" where
  "ZKCounters_SumUp z other = z\<lparr>
     CumulativeGasUsed := CumulativeGasUsed z + CumulativeGasUsed other,
     UsedKeccakHashes := UsedKeccakHashes z + UsedKeccakHashes other,
     UsedPoseidonHashes := UsedPoseidonHashes z + UsedPoseidonHashes other,
     UsedPoseidonPaddings := UsedPoseidonPaddings z + UsedPoseidonPaddings other,
     UsedMemAligns := UsedMemAligns z + UsedMemAligns other,
     UsedArithmetics := UsedArithmetics z + UsedArithmetics other,
     UsedBinaries := UsedBinaries z + UsedBinaries other,
     UsedSteps := UsedSteps z + UsedSteps other\<rparr>"

definition ZKCounters_Sub :: "ZKCounters \<Rightarrow> ZKCounters \<Rightarrow> go_error option \<times> ZKCounters" where
  "ZKCounters_Sub z other =
    (if CumulativeGasUsed other > CumulativeGasUsed z
     then (Some (GetZKCounterError ''CumulativeGasUsed''), z)
     else if UsedKeccakHashes other > UsedKeccakHashes z
     then (Some (GetZKCounterError ''UsedKeccakHashes''), z)
     else if UsedPoseidonHashes other > UsedPoseidonHashes z
     then (Some (GetZKCounterError ''UsedPoseidonHashes''), z)
     else if UsedPoseidonPaddings other > UsedPoseidonPaddings z
     then (Some (ErrorString ''underflow ZKCounter: UsedPoseidonPaddings''), z)
     else if UsedMemAligns other > UsedMemAligns z
     then (Some (GetZKCounterError ''UsedMemAligns''), z)
     else if UsedArithmetics other > UsedArithmetics z
     then (Some (GetZKCounterError ''UsedArithmetics''), z)
     else if UsedBinaries other > UsedBinaries z
     then (Some (GetZKCounterError ''UsedBinaries''), z)
     else if UsedSteps other > UsedSteps z
     then (Some (GetZKCounterError ''UsedSteps''), z)
     else (None, z\<lparr>
       CumulativeGasUsed := CumulativeGasUsed z - CumulativeGasUsed other,
       UsedKeccakHashes := UsedKeccakHashes z - UsedKeccakHashes other,
       UsedPoseidonHashes := UsedPoseidonHashes z - UsedPoseidonHashes other,
       UsedPoseidonPaddings := UsedPoseidonPaddings z - UsedPoseidonPaddings other,
       UsedMemAligns := UsedMemAligns z - UsedMemAligns other,
       UsedArithmetics := UsedArithmetics z - UsedArithmetics other,
       UsedBinaries := UsedBinaries z - UsedBinaries other,
       UsedSteps := UsedSteps z - UsedSteps other\<rparr>))"

definition BatchResources_Sub ::
    "BatchResources \<Rightarrow> BatchResources \<Rightarrow> go_error option \<times> BatchResources" where
  "BatchResources_Sub r other =
    (if Bytes other > Bytes r then (Some ErrBatchResourceBytesUnderflow, r)
     else
       (let bytesBackup = Bytes r;
            r1 = r\<lparr>Bytes := Bytes r - Bytes other\<rparr>;
            (err, z) = ZKCounters_Sub (ZKCountersF r1) (ZKCountersF other);
            r2 = r1\<lparr>ZKCountersF := z\<rparr>
        in case err of
             Some e \<Rightarrow>
               (Some (NewBatchRemainingResourcesUnderflowError (Some e) (go_error_Error e)),
                r2\<lparr>Bytes := bytesBackup\<rparr>)
           | None \<Rightarrow> (None, r2)))"

definition IsWithinConstraints :: "BatchConstraintsCfg \<Rightarrow> ZKCounters \<Rightarrow> bool" where
  "IsWithinConstraints c counters \<longleftrightarrow>
     CumulativeGasUsed counters \<le> MaxCumulativeGasUsed c \<and>
     UsedKeccakHashes counters \<le> MaxKeccakHashes c \<and>
     UsedPoseidonHashes counters \<le> MaxPoseidonHashes c \<and>
     UsedPoseidonPaddings counters \<le> MaxPoseidonPaddings c \<and>
     UsedMemAligns counters \<le> MaxMemAligns c \<and>
     UsedArithmetics counters \<le> MaxArithmetics c \<and>
     UsedBinaries counters \<le> MaxBinaries c \<and>
     UsedSteps counters \<le> MaxSteps c"

section \<open>Budgets\<close>

text \<open>
  The dimensions of a resource, read as natural numbers, and the order they induce.
\<close>

definition zk_dims :: "(ZKCounters \<Rightarrow> nat) list" where
  "zk_dims = [\<lambda>z. unat (CumulativeGasUsed z), \<lambda>z. unat (UsedKeccakHashes z),
     \<lambda>z. unat (UsedPoseidonHashes z), \<lambda>z. unat (UsedPoseidonPaddings z),
     \<lambda>z. unat (UsedMemAligns z), \<lambda>z. unat (UsedArithmetics z),
     \<lambda>z. unat (UsedBinaries z), \<lambda>z. unat (UsedSteps z)]"

definition br_dims :: "(BatchResources \<Rightarrow> nat) list" where
  "br_dims = (\<lambda>r. unat (Bytes r)) # map (\<lambda>d r. d (ZKCountersF r)) zk_dims"

definition fits_in :: "('r \<Rightarrow> nat) list \<Rightarrow> 'r \<Rightarrow> 'r \<Rightarrow> bool" where
  "fits_in dims request budget \<longleftrightarrow> list_all (\<lambda>d. d request \<le> d budget) dims"

text \<open>Requests taken from a budget one after the other, until one does not fit.\<close>

fun consume_all :: "('r \<Rightarrow> 'r \<Rightarrow> 'e option \<times> 'r) \<Rightarrow> 'r \<Rightarrow> 'r list \<Rightarrow> 'r option" where
  "consume_all sub r [] = Some r"
| "consume_all sub r (x # xs) =
     (case sub r x of (Some e, r') \<Rightarrow> None | (None, r') \<Rightarrow> consume_all sub r' xs)"

locale resource_budget =
  fixes sub :: "'r \<Rightarrow> 'r \<Rightarrow> 'e option \<times> 'r"
    and dims :: "('r \<Rightarrow> nat) list"
  assumes sub_ok_iff: "fst (sub r x) = None \<longleftrightarrow> fits_in dims x r"
    and sub_error_keeps: "fst (sub r x) = Some e \<Longrightarrow> snd (sub r x) = r"
    and sub_exact: "fst (sub r x) = None \<Longrightarrow> d \<in> set dims \<Longrightarrow> d (snd (sub r x)) + d x = d r"
begin

text \<open>Nothing is created or lost over a run of subtractions, in any dimension.\<close>

lemma consume_all_exact:
  "consume_all sub r xs = Some r' \<Longrightarrow> d \<in> set dims \<Longrightarrow> d r' + sum_list (map d xs) = d r"
proof (induction xs arbitrary: r)
  case (Cons x xs)
  then obtain q where q: "sub r x = (None, q)" "consume_all sub q xs = Some r'"
    by (auto split: prod.splits option.splits)
  have "d q + d x = d r" using sub_exact [of r x d] q Cons.prems(2) by simp
  moreover have "d r' + sum_list (map d xs) = d q" by (rule Cons.IH [OF q(2) Cons.prems(2)])
  ultimately show ?case by simp
qed simp

lemma consume_all_Some_iff:
  "(\<exists>r'. consume_all sub r xs = Some r') \<longleftrightarrow> list_all (\<lambda>d. sum_list (map d xs) \<le> d r) dims"
proof (induction xs arbitrary: r)
  case (Cons x xs)
  show ?case
  proof (cases "fst (sub r x)")
    case None
    then obtain q where q: "sub r x = (None, q)" by (cases "sub r x") auto
    have "d q + d x = d r" if "d \<in> set dims" for d
      using sub_exact [of r x d] q that by simp
    then have "list_all (\<lambda>d. sum_list (map d xs) \<le> d q) dims \<longleftrightarrow>
        list_all (\<lambda>d. d x + sum_list (map d xs) \<le> d r) dims"
      by (force simp: list_all_iff)
    with Cons.IH [of q] q show ?thesis by simp
  next
    case (Some e)
    then have "\<not> fits_in dims x r" using sub_ok_iff [of r x] by simp
    then have "\<not> list_all (\<lambda>d. d x + sum_list (map d xs) \<le> d r) dims"
      by (force simp: fits_in_def list_all_iff)
    with Some show ?thesis by (cases "sub r x") simp
  qed
qed (simp add: list_all_iff)

end

lemma le_add_no_wrap: "unat (a + b) = unat a + unat b \<Longrightarrow> b \<le> a + b" for a b :: "'a::len word"
  by (simp add: word_le_nat_alt)

lemma unat_sub_exact: "b \<le> a \<Longrightarrow> unat (a - b) + unat b = unat a" for a b :: "'a::len word"
  by (simp add: unat_sub word_le_nat_alt)

lemma ZKCounters_Sub_ok_iff: "fst (ZKCounters_Sub z x) = None \<longleftrightarrow> fits_in zk_dims x z"
  by (simp add: ZKCounters_Sub_def fits_in_def zk_dims_def word_less_nat_alt)

lemma ZKCounters_Sub_ok:
  assumes "fits_in zk_dims x z"
  shows "ZKCounters_Sub z x = (None, z\<lparr>
       CumulativeGasUsed := CumulativeGasUsed z - CumulativeGasUsed x,
       UsedKeccakHashes := UsedKeccakHashes z - UsedKeccakHashes x,
       UsedPoseidonHashes := UsedPoseidonHashes z - UsedPoseidonHashes x,
       UsedPoseidonPaddings := UsedPoseidonPaddings z - UsedPoseidonPaddings x,
       UsedMemAligns := UsedMemAligns z - UsedMemAligns x,
       UsedArithmetics := UsedArithmetics z - UsedArithmetics x,
       UsedBinaries := UsedBinaries z - UsedBinaries x,
       UsedSteps := UsedSteps z - UsedSteps x\<rparr>)"
  using assms by (simp add: ZKCounters_Sub_def fits_in_def zk_dims_def word_less_nat_alt)

interpretation zk: resource_budget ZKCounters_Sub zk_dims
proof unfold_locales
  show "(fst (ZKCounters_Sub r x) = None) = fits_in zk_dims x r" for r x
    by (rule ZKCounters_Sub_ok_iff)
  show "fst (ZKCounters_Sub r x) = Some e \<Longrightarrow> snd (ZKCounters_Sub r x) = r" for r x e
    by (auto simp: ZKCounters_Sub_def split: if_splits)
  show "fst (ZKCounters_Sub r x) = None \<Longrightarrow> d \<in> set zk_dims \<Longrightarrow>
      d (snd (ZKCounters_Sub r x)) + d x = d r" for r x d
    unfolding ZKCounters_Sub_ok_iff
    by (auto simp: ZKCounters_Sub_ok)
      (auto simp: zk_dims_def fits_in_def word_le_nat_alt [symmetric] unat_sub_exact)
qed

lemma BatchResources_Sub_cases:
  "BatchResources_Sub r x =
     (if Bytes x > Bytes r then (Some ErrBatchResourceBytesUnderflow, r)
      else case ZKCounters_Sub (ZKCountersF r) (ZKCountersF x) of
        (Some e, z) \<Rightarrow>
          (Some (NewBatchRemainingResourcesUnderflowError (Some e) (go_error_Error e)), r)
      | (None, z) \<Rightarrow> (None, r\<lparr>ZKCountersF := z, Bytes := Bytes r - Bytes x\<rparr>))"
proof -
  have "z = ZKCountersF r" if "ZKCounters_Sub (ZKCountersF r) (ZKCountersF x) = (Some e, z)" for e z
    using zk.sub_error_keeps [of "ZKCountersF r" "ZKCountersF x"] that by simp
  then show ?thesis
    by (auto simp: BatchResources_Sub_def Let_def split: prod.splits option.splits)
qed

interpretation br: resource_budget BatchResources_Sub br_dims
proof unfold_locales
  show "(fst (BatchResources_Sub r x) = None) = fits_in br_dims x r" for r x
    using zk.sub_ok_iff [of "ZKCountersF r" "ZKCountersF x"]
    by (auto simp: BatchResources_Sub_cases fits_in_def br_dims_def list_all_iff word_less_nat_alt
        split: prod.splits option.splits)
  show "fst (BatchResources_Sub r x) = Some e \<Longrightarrow> snd (BatchResources_Sub r x) = r" for r x e
    by (auto simp: BatchResources_Sub_cases split: if_splits prod.splits option.splits)
  show "fst (BatchResources_Sub r x) = None \<Longrightarrow> d \<in> set br_dims \<Longrightarrow>
      d (snd (BatchResources_Sub r x)) + d x = d r" for r x d
    using zk.sub_exact [of "ZKCountersF r" "ZKCountersF x"]
    by (auto simp: BatchResources_Sub_cases br_dims_def not_less unat_sub_exact
        split: if_splits prod.splits option.splits)
qed

text \<open>Without overflow, \<open>Sub\<close> undoes \<open>SumUp\<close>; with it, the counters wrap.\<close>

lemma ZKCounters_Sub_SumUp:
  assumes "list_all (\<lambda>d. d (ZKCounters_SumUp z x) = d z + d x) zk_dims"
  shows "ZKCounters_Sub (ZKCounters_SumUp z x) x = (None, z)"
  using assms by (simp add: ZKCounters_Sub_def ZKCounters_SumUp_def zk_dims_def not_less le_add_no_wrap)

section \<open>Properties\<close>

text \<open>
  A batch never spends more than it has. When a sequence of requests is taken from the
  remaining resources, what is left plus the total is what there was, in bytes and in each of
  the eight counters, with no wrap-around; the sequence is refused exactly when its total does
  not fit; and a single request that is refused leaves what remained untouched.
\<close>

theorem BatchResources_budget:
  "(case consume_all BatchResources_Sub r xs of
      Some r' \<Rightarrow> list_all (\<lambda>d. d r' + sum_list (map d xs) = d r) br_dims
    | None \<Rightarrow> \<not> list_all (\<lambda>d. sum_list (map d xs) \<le> d r) br_dims) \<and>
   (fst (BatchResources_Sub r x) = None) = fits_in br_dims x r \<and>
   (fits_in br_dims x r \<or> snd (BatchResources_Sub r x) = r)"
proof (intro conjI)
  show "case consume_all BatchResources_Sub r xs of
      Some r' \<Rightarrow> list_all (\<lambda>d. d r' + sum_list (map d xs) = d r) br_dims
    | None \<Rightarrow> \<not> list_all (\<lambda>d. sum_list (map d xs) \<le> d r) br_dims"
    using br.consume_all_Some_iff [of r xs] br.consume_all_exact [of r xs]
    by (cases "consume_all BatchResources_Sub r xs") (auto simp: list_all_iff)
  show ok: "(fst (BatchResources_Sub r x) = None) = fits_in br_dims x r" by (rule br.sub_ok_iff)
  show "fits_in br_dims x r \<or> snd (BatchResources_Sub r x) = r"
    using br.sub_error_keeps [of r x] unfolding ok [symmetric]
    by (cases "fst (BatchResources_Sub r x)") simp_all
qed

text \<open>
  \<open>ZKCounters.Sub\<close> undoes \<open>SumUp\<close> whenever no counter of the sum wraps around its
  width.
\<close>

theorem ZKCounters_Sub_undoes_SumUp:
  "list_all (\<lambda>d. d (ZKCounters_SumUp z x) = d z + d x) zk_dims \<Longrightarrow>
     ZKCounters_Sub (ZKCounters_SumUp z x) x = (None, z)"
  by (rule ZKCounters_Sub_SumUp)

definition sample_counters :: "u32 \<Rightarrow> ZKCounters" where
  "sample_counters n = \<lparr>CumulativeGasUsed = 21000, UsedKeccakHashes = n, UsedPoseidonHashes = 2,
     UsedPoseidonPaddings = 3, UsedMemAligns = 4, UsedArithmetics = 5, UsedBinaries = 6, UsedSteps = 7\<rparr>"

theorem ZKCounters_Sub_undoes_SumUp_witness:
  "ZKCounters_Sub (ZKCounters_SumUp (sample_counters 10) (sample_counters 1)) (sample_counters 1) =
     (None, sample_counters 10)"
  by (rule ZKCounters_Sub_undoes_SumUp) (simp add: ZKCounters_SumUp_def sample_counters_def zk_dims_def)

end
