(* ===== verification/TxSortedList.thy ===== *)
theory TxSortedList
  imports Resources
begin

text \<open>
  The sequencer's list of ready transactions, sorted by gas price
  (\<open>sequencer/txsorted_list.go\<close>), and the tracker it holds (\<open>sequencer/txtracker.go\<close>).

  Trackers are shared by pointer between the address queues and this list, and some of their
  fields are updated through one of the pointers, so the model has an explicit store: a
  \<open>txref\<close> is a pointer, a \<open>txheap\<close> maps pointers to trackers. \<open>tsl_inv\<close> is the list's
  invariant, \<open>ready_list\<close> the contract the worker relies on.
\<close>

section \<open>Trackers\<close>

record EffectiveGasPriceLog =
  egp_Enabled :: bool
  ValueFinal :: int
  ValueFirst :: int
  ValueSecond :: int
  FinalDeviation :: int
  MaxDeviation :: int
  GasUsedFirst :: u64
  GasUsedSecond :: u64
  egp_GasPrice :: int
  Percentage :: u8
  Reprocess :: bool
  GasPriceOC :: bool
  BalanceOC :: bool
  egp_L1GasPrice :: u64
  egp_L2GasPrice :: u64
  egp_Error :: string

record TxTracker =
  Hash :: hash
  HashStr :: string
  From :: address
  FromStr :: string
  Nonce :: u64
  Gas :: u64
  GasPrice :: int
  Cost :: int
  BatchResourcesF :: BatchResources
  RawTx :: bytes
  ReceivedAt :: int
  IP :: string
  FailedReason :: "string option"
  EffectiveGasPriceF :: int
  IsLastExecution :: bool
  EGPLog :: EffectiveGasPriceLog
  L1GasPrice :: u64
  L2GasPrice :: u64

type_synonym txref = nat
type_synonym txheap = "txref \<Rightarrow> TxTracker"

definition updateZKCounters :: "ZKCounters \<Rightarrow> TxTracker \<Rightarrow> TxTracker" where
  "updateZKCounters counters tx =
     tx\<lparr>BatchResourcesF := (BatchResourcesF tx)\<lparr>ZKCountersF := counters\<rparr>\<rparr>"

section \<open>The sorted list\<close>

record txSortedList =
  tsl_list :: "(string, txref) gomap"
  tsl_sorted :: "txref list"

definition newTxSortedList :: txSortedList where
  "newTxSortedList = \<lparr>tsl_list = [], tsl_sorted = []\<rparr>"

definition isGreaterThan :: "txheap \<Rightarrow> txref \<Rightarrow> txref \<Rightarrow> bool" where
  "isGreaterThan h tx1 tx2 \<longleftrightarrow> GasPrice (h tx1) > GasPrice (h tx2)"

definition isGreaterOrEqualThan :: "txheap \<Rightarrow> txref \<Rightarrow> txref \<Rightarrow> bool" where
  "isGreaterOrEqualThan h tx1 tx2 \<longleftrightarrow> GasPrice (h tx1) \<ge> GasPrice (h tx2)"

text \<open>
  The comparison both binary searches make at index \<open>i\<close>: the tracker is looked up in the map
  by the hash of the one in the slice; a missing entry is a nil pointer, and comparing with it
  panics.
\<close>

definition cmpAt ::
    "(txheap \<Rightarrow> txref \<Rightarrow> txref \<Rightarrow> bool) \<Rightarrow> txheap \<Rightarrow> txSortedList \<Rightarrow> txref \<Rightarrow> nat \<Rightarrow> bool option" where
  "cmpAt cmp h e tx i =
     map_option (cmp h tx) (gm_get (tsl_list e) (HashStr (h (tsl_sorted e ! i))))"

text \<open>\<open>append\<close>, \<open>copy\<close> and the assignment at \<open>i\<close> shift the tail by one and store \<open>tx\<close>.\<close>

definition addSort :: "txheap \<Rightarrow> txref \<Rightarrow> txSortedList \<Rightarrow> txSortedList option" where
  "addSort h tx e = do {
     i \<leftarrow> sort_Search (length (tsl_sorted e)) (cmpAt isGreaterThan h e tx);
     Some (e\<lparr>tsl_sorted := take i (tsl_sorted e) @ tx # drop i (tsl_sorted e)\<rparr>)
   }"

definition tsl_add :: "txheap \<Rightarrow> txref \<Rightarrow> txSortedList \<Rightarrow> (bool \<times> txSortedList) option" where
  "tsl_add h tx e =
     (case gm_get (tsl_list e) (HashStr (h tx)) of
        None \<Rightarrow> do {
          let e1 = e\<lparr>tsl_list := gm_set (HashStr (h tx)) tx (tsl_list e)\<rparr>;
          e2 \<leftarrow> addSort h tx e1;
          Some (True, e2)
        }
      | Some _ \<Rightarrow> Some (False, e))"

text \<open>
  The walk from index \<open>i\<close> over the transactions of the same gas price: the index of \<open>tx\<close>, or
  \<open>None\<close> for the two logged errors (end of the slice, another gas price).
\<close>

function delete_walk :: "txheap \<Rightarrow> txref list \<Rightarrow> txref \<Rightarrow> nat \<Rightarrow> nat option" where
  "delete_walk h s tx i =
     (if i \<ge> length s then None
      else if GasPrice (h (s ! i)) \<noteq> GasPrice (h tx) then None
      else if HashStr (h (s ! i)) = HashStr (h tx) then Some i
      else delete_walk h s tx (i + 1))"
  by pat_completeness auto
termination
  by (relation "measure (\<lambda>(h, s, tx, i). length s - i)") auto

declare delete_walk.simps [simp del]

definition tsl_delete :: "txheap \<Rightarrow> txref \<Rightarrow> txSortedList \<Rightarrow> (bool \<times> txSortedList) option" where
  "tsl_delete h tx0 e =
     (case gm_get (tsl_list e) (HashStr (h tx0)) of
        Some tx \<Rightarrow> do {
          i \<leftarrow> sort_Search (length (tsl_sorted e)) (cmpAt isGreaterOrEqualThan h e tx);
          (case delete_walk h (tsl_sorted e) tx i of
             None \<Rightarrow> Some (False, e)
           | Some j \<Rightarrow> Some (True,
               e\<lparr>tsl_list := gm_del (HashStr (h tx)) (tsl_list e),
                 tsl_sorted := take j (tsl_sorted e) @ drop (j + 1) (tsl_sorted e)\<rparr>))
        }
      | None \<Rightarrow> Some (False, e))"

definition getByIndex :: "nat \<Rightarrow> txSortedList \<Rightarrow> txref option" where
  "getByIndex i e = (if i < length (tsl_sorted e) then Some (tsl_sorted e ! i) else None)"

definition tsl_len :: "txSortedList \<Rightarrow> nat" where
  "tsl_len e = length (tsl_sorted e)"

definition GetSorted :: "txSortedList \<Rightarrow> txref list" where
  "GetSorted e = tsl_sorted e"

section \<open>Invariant\<close>

text \<open>
  The map and the slice hold the same trackers, each under its own hash; the slice is sorted by
  descending gas price.
\<close>

definition tsl_inv :: "txheap \<Rightarrow> txSortedList \<Rightarrow> bool" where
  "tsl_inv h e \<longleftrightarrow>
     gm_wf (tsl_list e) \<and>
     set (tsl_list e) = (\<lambda>r. (HashStr (h r), r)) ` set (tsl_sorted e) \<and>
     distinct (tsl_sorted e) \<and>
     sorted_wrt (\<lambda>a b. GasPrice (h a) \<ge> GasPrice (h b)) (tsl_sorted e)"

lemma tsl_inv_get:
  assumes "tsl_inv h e"
  shows "gm_get (tsl_list e) k = Some r \<longleftrightarrow> r \<in> set (tsl_sorted e) \<and> HashStr (h r) = k"
  using assms gm.pairs_get [of "tsl_list e" k r] by (auto simp: tsl_inv_def)

lemma tsl_inv_get_None:
  assumes "tsl_inv h e"
  shows "gm_get (tsl_list e) k = None \<longleftrightarrow> (\<forall>r \<in> set (tsl_sorted e). HashStr (h r) \<noteq> k)"
  using tsl_inv_get [OF assms, of k] by (metis not_None_eq)

lemma tsl_inv_hash_inj:
  assumes "tsl_inv h e" "r \<in> set (tsl_sorted e)" "r' \<in> set (tsl_sorted e)"
    "HashStr (h r) = HashStr (h r')"
  shows "r = r'"
  using tsl_inv_get [OF assms(1), of "HashStr (h r)"] assms(2-) by (metis option.inject)

lemma sorted_nth_gas:
  "sorted_wrt (\<lambda>a b. GasPrice (h a) \<ge> GasPrice (h b)) xs \<Longrightarrow> k \<le> l \<Longrightarrow> l < length xs \<Longrightarrow>
     GasPrice (h (xs ! l)) \<le> GasPrice (h (xs ! k))"
  by (cases "k = l") (auto simp: sorted_wrt_iff_nth_less)

text \<open>Both searches find the threshold of the gas price in a list that satisfies the invariant,
  and never panic on it.\<close>

lemma search_greater:
  assumes "gm_wf (tsl_list e)"
    and "\<And>r. r \<in> set (tsl_sorted e) \<Longrightarrow> gm_get (tsl_list e) (HashStr (h r)) = Some r"
    and "sorted_wrt (\<lambda>a b. GasPrice (h a) \<ge> GasPrice (h b)) (tsl_sorted e)"
  obtains i where "sort_Search (length (tsl_sorted e)) (cmpAt isGreaterThan h e tx) = Some i"
    "take i (tsl_sorted e) = filter (\<lambda>r. GasPrice (h r) \<ge> GasPrice (h tx)) (tsl_sorted e)"
    "drop i (tsl_sorted e) = filter (\<lambda>r. GasPrice (h r) < GasPrice (h tx)) (tsl_sorted e)"
proof -
  let ?s = "tsl_sorted e" and ?p = "\<lambda>k. GasPrice (h (tsl_sorted e ! k)) < GasPrice (h tx)"
  have f: "cmpAt isGreaterThan h e tx k = Some (?p k)" if "k < length ?s" for k
    using assms(2) [of "?s ! k"] that by (simp add: cmpAt_def isGreaterThan_def)
  have mono: "?p l" if "k \<le> l" "l < length ?s" "?p k" for k l
    using sorted_nth_gas [OF assms(3) that(1,2)] that(3) by linarith
  obtain i where i: "i \<le> length ?s"
      "sort_Search (length ?s) (cmpAt isGreaterThan h e tx) = Some i"
      "\<And>k. k < i \<Longrightarrow> \<not> ?p k" "\<And>k. i \<le> k \<Longrightarrow> k < length ?s \<Longrightarrow> ?p k"
    by (rule sort_Search_correct [of "length ?s" "cmpAt isGreaterThan h e tx" ?p])
      (use f mono in blast)+
  show ?thesis
    by (rule that [OF i(2)])
      (use take_filter_threshold [of i ?s "\<lambda>r. GasPrice (h r) < GasPrice (h tx)", OF i(1,3,4)]
        in \<open>simp_all add: not_less\<close>)
qed

lemma search_greater_or_equal:
  assumes "tsl_inv h e"
  obtains i where
    "sort_Search (length (tsl_sorted e)) (cmpAt isGreaterOrEqualThan h e tx) = Some i"
    "i \<le> length (tsl_sorted e)"
    "\<And>k. k < i \<Longrightarrow> GasPrice (h tx) < GasPrice (h (tsl_sorted e ! k))"
    "\<And>k. i \<le> k \<Longrightarrow> k < length (tsl_sorted e) \<Longrightarrow>
       GasPrice (h (tsl_sorted e ! k)) \<le> GasPrice (h tx)"
proof -
  let ?s = "tsl_sorted e" and ?p = "\<lambda>k. GasPrice (h (tsl_sorted e ! k)) \<le> GasPrice (h tx)"
  have s: "sorted_wrt (\<lambda>a b. GasPrice (h a) \<ge> GasPrice (h b)) ?s"
    using assms by (simp add: tsl_inv_def)
  have f: "cmpAt isGreaterOrEqualThan h e tx k = Some (?p k)" if "k < length ?s" for k
    using tsl_inv_get [OF assms, of "HashStr (h (?s ! k))" "?s ! k"] that
    by (simp add: cmpAt_def isGreaterOrEqualThan_def)
  have mono: "?p l" if "k \<le> l" "l < length ?s" "?p k" for k l
    using sorted_nth_gas [OF s that(1,2)] that(3) by linarith
  show ?thesis
    by (rule sort_Search_correct [of "length ?s" "cmpAt isGreaterOrEqualThan h e tx" ?p])
      (use f mono that in \<open>auto simp: not_le\<close>)
qed

section \<open>Functional behaviour\<close>

text \<open>
  A new transaction goes behind those of the same or a better gas price and in front of the
  cheaper ones; a known hash leaves the list alone.
\<close>

lemma tsl_add_new:
  assumes inv: "tsl_inv h e" and new: "\<forall>r \<in> set (tsl_sorted e). HashStr (h r) \<noteq> HashStr (h tx)"
  shows "tsl_add h tx e = Some (True,
     \<lparr>tsl_list = gm_set (HashStr (h tx)) tx (tsl_list e),
      tsl_sorted = filter (\<lambda>r. GasPrice (h r) \<ge> GasPrice (h tx)) (tsl_sorted e) @ tx #
                   filter (\<lambda>r. GasPrice (h r) < GasPrice (h tx)) (tsl_sorted e)\<rparr>)"
proof -
  let ?e = "e\<lparr>tsl_list := gm_set (HashStr (h tx)) tx (tsl_list e)\<rparr>"
  have wf: "gm_wf (tsl_list ?e)" using inv by (simp add: tsl_inv_def gomap_simps)
  have get: "gm_get (tsl_list ?e) (HashStr (h r)) = Some r" if "r \<in> set (tsl_sorted ?e)" for r
    using that new tsl_inv_get [OF inv, of "HashStr (h r)" r] by (simp add: gomap_simps)
  have srt: "sorted_wrt (\<lambda>a b. GasPrice (h a) \<ge> GasPrice (h b)) (tsl_sorted ?e)"
    using inv by (simp add: tsl_inv_def)
  obtain i where i: "sort_Search (length (tsl_sorted ?e)) (cmpAt isGreaterThan h ?e tx) = Some i"
    "take i (tsl_sorted ?e) = filter (\<lambda>r. GasPrice (h r) \<ge> GasPrice (h tx)) (tsl_sorted ?e)"
    "drop i (tsl_sorted ?e) = filter (\<lambda>r. GasPrice (h r) < GasPrice (h tx)) (tsl_sorted ?e)"
    by (rule search_greater [OF wf get srt])
  have "gm_get (tsl_list e) (HashStr (h tx)) = None"
    using new by (simp add: tsl_inv_get_None [OF inv])
  with i show ?thesis by (simp add: tsl_add_def addSort_def)
qed

lemma tsl_add_known:
  assumes "tsl_inv h e" "r \<in> set (tsl_sorted e)" "HashStr (h r) = HashStr (h tx)"
  shows "tsl_add h tx e = Some (False, e)"
  using tsl_inv_get [OF assms(1), of "HashStr (h tx)" r] assms(2,3) by (simp add: tsl_add_def)

text \<open>The walk reaches the transaction it looks for, because only transactions of the same gas
  price lie between the threshold and it.\<close>

lemma delete_walk_finds:
  assumes "i \<le> j" "j < length s" "HashStr (h (s ! j)) = HashStr (h tx)"
    and "\<And>k. i \<le> k \<Longrightarrow> k \<le> j \<Longrightarrow> GasPrice (h (s ! k)) = GasPrice (h tx)"
    and "\<And>k. i \<le> k \<Longrightarrow> k < j \<Longrightarrow> HashStr (h (s ! k)) \<noteq> HashStr (h tx)"
  shows "delete_walk h s tx i = Some j"
  using assms
proof (induction h s tx i rule: delete_walk.induct)
  case (1 h s tx i)
  show ?case
  proof (cases "i = j")
    case True
    with "1.prems" show ?thesis by (simp add: delete_walk.simps [of h s tx j])
  next
    case False
    with "1.prems" have "delete_walk h s tx (i + 1) = Some j"
      by (intro "1.IH") auto
    with False "1.prems" show ?thesis by (simp add: delete_walk.simps [of h s tx i])
  qed
qed

lemma take_drop_remove1:
  "distinct xs \<Longrightarrow> j < length xs \<Longrightarrow> take j xs @ drop (Suc j) xs = remove1 (xs ! j) xs"
proof (induction xs arbitrary: j)
  case (Cons x xs)
  then show ?case by (cases j) auto
qed simp

lemma tsl_delete_known:
  assumes inv: "tsl_inv h e" and r: "r \<in> set (tsl_sorted e)" "HashStr (h r) = HashStr (h tx)"
  shows "tsl_delete h tx e = Some (True,
     \<lparr>tsl_list = gm_del (HashStr (h tx)) (tsl_list e), tsl_sorted = remove1 r (tsl_sorted e)\<rparr>)"
proof -
  let ?s = "tsl_sorted e"
  have get: "gm_get (tsl_list e) (HashStr (h tx)) = Some r"
    using tsl_inv_get [OF inv, of "HashStr (h tx)" r] r by simp
  obtain j where j: "j < length ?s" "?s ! j = r" using r(1) by (auto simp: in_set_conv_nth)
  obtain i where i: "sort_Search (length ?s) (cmpAt isGreaterOrEqualThan h e r) = Some i"
    "\<And>k. k < i \<Longrightarrow> GasPrice (h r) < GasPrice (h (?s ! k))"
    "\<And>k. i \<le> k \<Longrightarrow> k < length ?s \<Longrightarrow> GasPrice (h (?s ! k)) \<le> GasPrice (h r)"
    using search_greater_or_equal [OF inv] by metis
  have "i \<le> j" using i(2) [of j] j by (auto simp: not_less [symmetric])
  moreover have "GasPrice (h (?s ! k)) = GasPrice (h r)" if "i \<le> k" "k \<le> j" for k
    using i(3) [of k] that j sorted_nth_gas [of h ?s k j] inv by (force simp: tsl_inv_def)
  moreover have "HashStr (h (?s ! k)) \<noteq> HashStr (h r)" if "k < j" for k
    using tsl_inv_hash_inj [OF inv, of "?s ! k" r] that j r(1) inv
    by (auto simp: tsl_inv_def nth_eq_iff_index_eq)
  ultimately have "delete_walk h ?s r i = Some j"
    using j by (intro delete_walk_finds) auto
  moreover have "take j ?s @ drop (Suc j) ?s = remove1 r ?s"
    using take_drop_remove1 [of ?s j] j inv by (simp add: tsl_inv_def)
  ultimately show ?thesis using get i(1) r(2) by (simp add: tsl_delete_def)
qed

lemma tsl_delete_unknown:
  assumes "tsl_inv h e" "\<forall>r \<in> set (tsl_sorted e). HashStr (h r) \<noteq> HashStr (h tx)"
  shows "tsl_delete h tx e = Some (False, e)"
  using tsl_inv_get_None [OF assms(1), of "HashStr (h tx)"] assms(2) by (simp add: tsl_delete_def)

section \<open>The invariant is kept\<close>

lemma newTxSortedList_inv: "tsl_inv h newTxSortedList"
  by (simp add: tsl_inv_def newTxSortedList_def)

lemma tsl_inv_inserted:
  assumes inv: "tsl_inv h e" and new: "\<forall>r \<in> set (tsl_sorted e). HashStr (h r) \<noteq> HashStr (h tx)"
  shows "tsl_inv h \<lparr>tsl_list = gm_set (HashStr (h tx)) tx (tsl_list e),
      tsl_sorted = filter (\<lambda>r. GasPrice (h r) \<ge> GasPrice (h tx)) (tsl_sorted e) @ tx #
                   filter (\<lambda>r. GasPrice (h r) < GasPrice (h tx)) (tsl_sorted e)\<rparr>"
proof -
  have "{p \<in> set (tsl_list e). fst p \<noteq> HashStr (h tx)} = set (tsl_list e)"
    using inv new by (auto simp: tsl_inv_def)
  moreover have "tx \<notin> set (tsl_sorted e)" using new by auto
  ultimately show ?thesis
    using inv by (auto simp: tsl_inv_def gomap_simps sorted_wrt_append sorted_wrt_filter)
qed

lemma tsl_inv_removed:
  assumes inv: "tsl_inv h e" and r: "r \<in> set (tsl_sorted e)"
  shows "tsl_inv h \<lparr>tsl_list = gm_del (HashStr (h r)) (tsl_list e),
     tsl_sorted = remove1 r (tsl_sorted e)\<rparr>"
proof -
  have "(HashStr (h r') = HashStr (h r)) = (r' = r)" if "r' \<in> set (tsl_sorted e)" for r'
    using tsl_inv_hash_inj [OF inv that r] by auto
  then have "{p \<in> set (tsl_list e). fst p \<noteq> HashStr (h r)} =
      (\<lambda>r. (HashStr (h r), r)) ` (set (tsl_sorted e) - {r})"
    using inv by (auto simp: tsl_inv_def)
  with inv show ?thesis
    by (auto simp: tsl_inv_def gomap_simps distinct_remove1_removeAll removeAll_filter_not_eq
        sorted_wrt_filter)
qed

section \<open>The contract of the ready list\<close>

text \<open>
  What the worker relies on: the list is a set of transactions with distinct hashes; \<open>add\<close>
  inserts one unless its hash is known; \<open>delete\<close> removes the one with the same hash. Neither
  panics.
\<close>

locale ready_list =
  fixes add :: "txheap \<Rightarrow> txref \<Rightarrow> 'l \<Rightarrow> (bool \<times> 'l) option"
    and delete :: "txheap \<Rightarrow> txref \<Rightarrow> 'l \<Rightarrow> (bool \<times> 'l) option"
    and members :: "'l \<Rightarrow> txref set"
    and inv :: "txheap \<Rightarrow> 'l \<Rightarrow> bool"
  assumes add_spec: "inv h l \<Longrightarrow> \<exists>b l'. add h tx l = Some (b, l') \<and> inv h l' \<and>
      b = (\<forall>r \<in> members l. HashStr (h r) \<noteq> HashStr (h tx)) \<and>
      members l' = (if b then insert tx (members l) else members l)"
    and delete_spec: "inv h l \<Longrightarrow> \<exists>b l'. delete h tx l = Some (b, l') \<and> inv h l' \<and>
      b = (\<exists>r \<in> members l. HashStr (h r) = HashStr (h tx)) \<and>
      members l' = {r \<in> members l. HashStr (h r) \<noteq> HashStr (h tx)}"
    and hash_inj: "inv h l \<Longrightarrow> inj_on (\<lambda>r. HashStr (h r)) (members l)"
begin

text \<open>Deleting a member removes just it.\<close>

lemma delete_member:
  assumes "inv h l" "r \<in> members l"
  shows "\<exists>l'. delete h r l = Some (True, l') \<and> inv h l' \<and> members l' = members l - {r}"
proof -
  have "{r' \<in> members l. HashStr (h r') \<noteq> HashStr (h r)} = members l - {r}"
    using hash_inj [OF assms(1)] assms(2) by (auto simp: inj_on_def)
  with delete_spec [OF assms(1), of r] assms(2) show ?thesis by force
qed

text \<open>Adding a transaction whose hash no member has.\<close>

lemma add_fresh:
  assumes "inv h l" "\<forall>r \<in> members l. HashStr (h r) \<noteq> HashStr (h tx)"
  shows "\<exists>l'. add h tx l = Some (True, l') \<and> inv h l' \<and> members l' = insert tx (members l)"
  using add_spec [OF assms(1), of tx] assms(2) by fastforce

end

interpretation tsl: ready_list tsl_add tsl_delete "\<lambda>e. set (tsl_sorted e)" tsl_inv
proof unfold_locales
  fix h e tx assume inv: "tsl_inv h e"
  let ?known = "\<exists>r \<in> set (tsl_sorted e). HashStr (h r) = HashStr (h tx)"
  show "\<exists>b l'. tsl_add h tx e = Some (b, l') \<and> tsl_inv h l' \<and>
      b = (\<forall>r \<in> set (tsl_sorted e). HashStr (h r) \<noteq> HashStr (h tx)) \<and>
      set (tsl_sorted l') = (if b then insert tx (set (tsl_sorted e)) else set (tsl_sorted e))"
  proof (cases ?known)
    case True
    then obtain r where "r \<in> set (tsl_sorted e)" "HashStr (h r) = HashStr (h tx)" by blast
    then have "tsl_add h tx e = Some (False, e)" by (rule tsl_add_known [OF inv])
    with True inv show ?thesis by (intro exI [of _ False] exI [of _ e]) auto
  next
    case False
    then have new: "\<forall>r \<in> set (tsl_sorted e). HashStr (h r) \<noteq> HashStr (h tx)" by blast
    show ?thesis
      unfolding tsl_add_new [OF inv new]
      by (rule exI [of _ True], rule exI, intro conjI, rule refl, rule tsl_inv_inserted [OF inv new])
        (use new in auto)
  qed
  show "\<exists>b l'. tsl_delete h tx e = Some (b, l') \<and> tsl_inv h l' \<and> b = ?known \<and>
      set (tsl_sorted l') = {r \<in> set (tsl_sorted e). HashStr (h r) \<noteq> HashStr (h tx)}"
  proof (cases ?known)
    case True
    then obtain r where r: "r \<in> set (tsl_sorted e)" "HashStr (h r) = HashStr (h tx)" by blast
    have "r' = r" if "r' \<in> set (tsl_sorted e)" "HashStr (h r') = HashStr (h tx)" for r'
      by (rule tsl_inv_hash_inj [OF inv that(1) r(1)]) (simp add: that(2) r(2))
    moreover have "set (remove1 r (tsl_sorted e)) = set (tsl_sorted e) - {r}"
      using inv by (simp add: tsl_inv_def)
    ultimately have eq: "set (remove1 r (tsl_sorted e)) =
        {r \<in> set (tsl_sorted e). HashStr (h r) \<noteq> HashStr (h tx)}"
      using r(2) by blast
    show ?thesis
      unfolding tsl_delete_known [OF inv r]
      by (rule exI [of _ True], rule exI, intro conjI, rule refl,
          rule tsl_inv_removed [OF inv r(1), unfolded r(2)]) (use True eq in auto)
  next
    case False
    then show ?thesis using tsl_delete_unknown [OF inv, of tx] inv by auto
  qed
  show "inj_on (\<lambda>r. HashStr (h r)) (set (tsl_sorted e))"
    by (rule inj_onI) (rule tsl_inv_hash_inj [OF inv])
qed

section \<open>Properties\<close>

text \<open>
  \<open>add\<close> puts a transaction with a new hash after the transactions of at least its gas
  price and before those of less, keeping both groups as they were, and reports true; when the
  hash is known it changes nothing and reports false. The list and the map stay consistent and
  ordered, and neither binary search meets a nil entry.
\<close>

theorem tsl_add_correct:
  assumes "tsl_inv h e"
  shows "\<exists>isnew e'. tsl_add h tx e = Some (isnew, e') \<and> tsl_inv h e' \<and>
    isnew = (\<not> (\<exists>r \<in> set (GetSorted e). HashStr (h r) = HashStr (h tx))) \<and>
    GetSorted e' = (if isnew then filter (\<lambda>r. GasPrice (h r) \<ge> GasPrice (h tx)) (GetSorted e) @ tx #
                   filter (\<lambda>r. GasPrice (h r) < GasPrice (h tx)) (GetSorted e) else GetSorted e)"
proof (cases "\<exists>r \<in> set (tsl_sorted e). HashStr (h r) = HashStr (h tx)")
  case True
  then have "tsl_add h tx e = Some (False, e)" using tsl_add_known [OF assms] by blast
  with assms True show ?thesis by (intro exI [of _ False]) (simp add: GetSorted_def)
next
  case False
  then have new: "\<forall>r \<in> set (tsl_sorted e). HashStr (h r) \<noteq> HashStr (h tx)" by blast
  show ?thesis
    by (intro exI [of _ True] exI conjI, rule tsl_add_new [OF assms new], rule tsl_inv_inserted [OF assms new])
      (use False in \<open>simp_all add: GetSorted_def\<close>)
qed

text \<open>
  \<open>delete\<close> removes exactly the transaction with the given hash, wherever it stands among
  the transactions of its gas price, and reports whether there was one. It never ends in the
  loop's out of range error.
\<close>

theorem tsl_delete_correct:
  assumes "tsl_inv h e"
  shows "\<exists>deleted e'. tsl_delete h tx e = Some (deleted, e') \<and> tsl_inv h e' \<and>
    deleted = (\<exists>r \<in> set (GetSorted e). HashStr (h r) = HashStr (h tx)) \<and>
    GetSorted e' = filter (\<lambda>r. HashStr (h r) \<noteq> HashStr (h tx)) (GetSorted e)"
proof (cases "\<exists>r \<in> set (tsl_sorted e). HashStr (h r) = HashStr (h tx)")
  case True
  then obtain r where r: "r \<in> set (tsl_sorted e)" "HashStr (h r) = HashStr (h tx)" by blast
  have "(HashStr (h r') = HashStr (h tx)) = (r' = r)" if "r' \<in> set (tsl_sorted e)" for r'
    using tsl_inv_hash_inj [OF assms that r(1)] r(2) by auto
  then have "remove1 r (tsl_sorted e) = filter (\<lambda>r. HashStr (h r) \<noteq> HashStr (h tx)) (tsl_sorted e)"
    using assms by (simp add: tsl_inv_def distinct_remove1_removeAll removeAll_filter_not_eq
        cong: filter_cong) (metis (mono_tags, lifting) filter_cong)
  with tsl_delete_known [OF assms r] tsl_inv_removed [OF assms r(1)] True r(2) show ?thesis
    by (intro exI [of _ True]) (simp add: GetSorted_def)
next
  case False
  then have "filter (\<lambda>r. HashStr (h r) \<noteq> HashStr (h tx)) (tsl_sorted e) = tsl_sorted e" by simp
  with tsl_delete_unknown [OF assms, of tx] False assms show ?thesis
    by (intro exI [of _ False]) (simp add: GetSorted_def)
qed

text \<open>Trackers of one sender, for the concrete instances: nonce, gas price and cost by reference.\<close>

definition sample_trackers :: "(nat \<Rightarrow> u64) \<Rightarrow> (nat \<Rightarrow> int) \<Rightarrow> (nat \<Rightarrow> int) \<Rightarrow> txheap" where
  "sample_trackers nonces prices costs r =
     \<lparr>Hash = of_nat r, HashStr = replicate r (CHR ''h''), From = 1, FromStr = ''0x01'',
      Nonce = nonces r, Gas = 21000, GasPrice = prices r, Cost = costs r,
      BatchResourcesF = \<lparr>ZKCountersF = sample_counters (of_nat r), Bytes = 100\<rparr>, RawTx = [],
      ReceivedAt = 0, IP = [], FailedReason = None, EffectiveGasPriceF = 0,
      IsLastExecution = False, EGPLog =
        \<lparr>egp_Enabled = False, ValueFinal = 0, ValueFirst = 0, ValueSecond = 0, FinalDeviation = 0,
         MaxDeviation = 0, GasUsedFirst = 0, GasUsedSecond = 0, egp_GasPrice = 0, Percentage = 0,
         Reprocess = False, GasPriceOC = False, BalanceOC = False, egp_L1GasPrice = 0,
         egp_L2GasPrice = 0, egp_Error = []\<rparr>,
      L1GasPrice = 0, L2GasPrice = 0\<rparr>"

text \<open>Three transactions of gas prices 10, 20 and 10; the first two are in the list.\<close>

definition sample_heap :: txheap where
  "sample_heap = sample_trackers of_nat (\<lambda>r. if r = 1 then 20 else 10) (\<lambda>r. 5)"

definition sample_list :: txSortedList where
  "sample_list = \<lparr>tsl_list = [([], 0), (''h'', 1)], tsl_sorted = [1, 0]\<rparr>"

lemmas sample_simps = sample_heap_def sample_trackers_def sample_list_def

lemma sample_list_inv: "tsl_inv sample_heap sample_list"
  by (auto simp: tsl_inv_def gm_wf_def sample_simps)

theorem tsl_add_correct_witness:
  "\<exists>e'. tsl_add sample_heap 2 sample_list = Some (True, e') \<and> tsl_inv sample_heap e' \<and>
     GetSorted e' = [1, 0, 2]"
  using tsl_add_correct [OF sample_list_inv, of 2] by (auto simp: sample_simps GetSorted_def numeral_2_eq_2)

theorem tsl_delete_correct_witness:
  "\<exists>e'. tsl_delete sample_heap 0 sample_list = Some (True, e') \<and> tsl_inv sample_heap e' \<and>
     GetSorted e' = [1]"
  using tsl_delete_correct [OF sample_list_inv, of 0] by (auto simp: sample_simps GetSorted_def)

end
