(* ===== verification/AddrQueue.thy ===== *)
theory AddrQueue
  imports TxSortedList
begin

text \<open>
  The queue of one sender (\<open>sequencer/addrqueue.go\<close>): at most one ready transaction, whose
  nonce is the account's and whose cost the balance covers, and the not ready ones by nonce.
  \<open>aq_inv\<close> states this; every operation keeps it. \<open>same_core h h'\<close> says that two stores differ
  only in what the queue's operations write through a pointer (the failure reason and the
  counters).
\<close>

section \<open>State\<close>

record addrQueue =
  aq_from :: address
  fromStr :: string
  currentNonce :: u64
  currentBalance :: int
  readyTx :: "txref option"
  notReadyTxs :: "(u64, txref) gomap"
  forcedTxs :: "hash set"
  pendingTxsToStore :: "hash set"

definition ErrDuplicatedNonce :: go_error where
  "ErrDuplicatedNonce = ErrorString ''duplicated nonce''"

definition ErrIntrinsicInvalidNonce :: go_error where
  "ErrIntrinsicInvalidNonce = ErrorString ''nonce intrinsic error''"

text \<open>\<open>astr\<close> and \<open>hstr\<close> are go-ethereum's \<open>Address.String\<close> and \<open>Hash.String\<close>.\<close>

definition newAddrQueue :: "(address \<Rightarrow> string) \<Rightarrow> address \<Rightarrow> u64 \<Rightarrow> int \<Rightarrow> addrQueue" where
  "newAddrQueue astr addr nonce balance =
     \<lparr>aq_from = addr, fromStr = astr addr, currentNonce = nonce, currentBalance = balance,
      readyTx = None, notReadyTxs = [], forcedTxs = {}, pendingTxsToStore = {}\<rparr>"

section \<open>Operations\<close>

text \<open>The results \<open>(newReadyTx, prevReadyTx, replacedTx, dropReason)\<close>, and the queue.\<close>

type_synonym addTx_result = "txref option \<times> txref option \<times> txref option \<times> go_error option"

definition addTx :: "txheap \<Rightarrow> txref \<Rightarrow> addrQueue \<Rightarrow> addTx_result \<times> addrQueue" where
  "addTx h tx a =
    (if currentNonce a = Nonce (h tx) then
       (if readyTx a = None \<or>
           (readyTx a \<noteq> None \<and> GasPrice (h tx) \<ge> GasPrice (h (the (readyTx a)))) then
          (let oldReadyTx = readyTx a;
               repTx = (if oldReadyTx \<noteq> None \<and> HashStr (h (the oldReadyTx)) \<noteq> HashStr (h tx)
                        then oldReadyTx else None)
           in if currentBalance a \<ge> Cost (h tx)
              then ((Some tx, oldReadyTx, repTx, None), a\<lparr>readyTx := Some tx\<rparr>)
              else ((None, oldReadyTx, repTx, None),
                    a\<lparr>readyTx := None, notReadyTxs := gm_set (Nonce (h tx)) tx (notReadyTxs a)\<rparr>))
        else ((None, None, None, Some ErrDuplicatedNonce), a))
     else if currentNonce a > Nonce (h tx)
     then ((None, None, None, Some ErrIntrinsicInvalidNonce), a)
     else
       (case gm_get (notReadyTxs a) (Nonce (h tx)) of
          None \<Rightarrow> ((None, None, None, None),
                  a\<lparr>notReadyTxs := gm_set (Nonce (h tx)) tx (notReadyTxs a)\<rparr>)
        | Some nrTx \<Rightarrow>
            if GasPrice (h tx) \<ge> GasPrice (h nrTx)
            then ((None, None, if HashStr (h nrTx) \<noteq> HashStr (h tx) then Some nrTx else None, None),
                  a\<lparr>notReadyTxs := gm_set (Nonce (h tx)) tx (notReadyTxs a)\<rparr>)
            else ((None, None, None, Some ErrDuplicatedNonce), a)))"

definition addForcedTx :: "hash \<Rightarrow> addrQueue \<Rightarrow> addrQueue" where
  "addForcedTx txHash a = a\<lparr>forcedTxs := insert txHash (forcedTxs a)\<rparr>"

definition aq_addPendingTxToStore :: "hash \<Rightarrow> addrQueue \<Rightarrow> addrQueue" where
  "aq_addPendingTxToStore txHash a =
     a\<lparr>pendingTxsToStore := insert txHash (pendingTxsToStore a)\<rparr>"

text \<open>
  \<open>time.Now()\<close> is read once per visited transaction: \<open>clock i\<close> is the \<open>i\<close>-th reading. The
  loop's state is the number of readings, the map and the expired transactions.
\<close>

definition isExpired :: "txheap \<Rightarrow> int \<Rightarrow> int \<Rightarrow> txref \<Rightarrow> bool" where
  "isExpired h maxTime now tx \<longleftrightarrow> ReceivedAt (h tx) + maxTime < now"

type_synonym expire_state = "nat \<times> (u64, txref) gomap \<times> txref list"

definition expire_body ::
    "txheap \<Rightarrow> (nat \<Rightarrow> int) \<Rightarrow> int \<Rightarrow> u64 \<Rightarrow> txref \<Rightarrow> expire_state \<Rightarrow> expire_state" where
  "expire_body h clock maxTime nonce tx s =
     (case s of (i, m, txs) \<Rightarrow>
        if isExpired h maxTime (clock i) tx
        then (Suc i, gm_del (Nonce (h tx)) m, txs @ [tx])
        else (Suc i, m, txs))"

definition aq_ExpireTransactions ::
    "txheap \<Rightarrow> (nat \<Rightarrow> int) \<Rightarrow> int \<Rightarrow> addrQueue \<Rightarrow> (txref list \<times> txref option) \<times> addrQueue" where
  "aq_ExpireTransactions h clock maxTime a =
     (case go_range (\<lambda>(i, m, txs). m) (expire_body h clock maxTime) (map fst (notReadyTxs a))
             (0, notReadyTxs a, []) of
        (i, m, txs) \<Rightarrow>
          (let a1 = a\<lparr>notReadyTxs := m\<rparr>
           in case readyTx a1 of
                Some r \<Rightarrow>
                  if isExpired h maxTime (clock i) r
                  then ((txs @ [r], Some r), a1\<lparr>readyTx := None\<rparr>)
                  else ((txs, None), a1)
              | None \<Rightarrow> ((txs, None), a1)))"

definition IsEmpty :: "addrQueue \<Rightarrow> bool" where
  "IsEmpty a \<longleftrightarrow>
     readyTx a = None \<and> notReadyTxs a = [] \<and> forcedTxs a = {} \<and> pendingTxsToStore a = {}"

definition deleteTx ::
    "(hash \<Rightarrow> string) \<Rightarrow> txheap \<Rightarrow> hash \<Rightarrow> addrQueue \<Rightarrow> txref option \<times> addrQueue" where
  "deleteTx hstr h txHash a =
     (if readyTx a \<noteq> None \<and> HashStr (h (the (readyTx a))) = hstr txHash
      then (readyTx a, a\<lparr>readyTx := None\<rparr>)
      else (None, a\<lparr>notReadyTxs :=
        go_range (\<lambda>m. m) (\<lambda>nonce tx m. if HashStr (h tx) = hstr txHash then gm_del (Nonce (h tx)) m else m)
          (map fst (notReadyTxs a)) (notReadyTxs a)\<rparr>))"

definition deleteForcedTx :: "hash \<Rightarrow> addrQueue \<Rightarrow> addrQueue" where
  "deleteForcedTx txHash a =
     (if txHash \<in> forcedTxs a then a\<lparr>forcedTxs := forcedTxs a - {txHash}\<rparr> else a)"

definition aq_deletePendingTxToStore :: "hash \<Rightarrow> addrQueue \<Rightarrow> addrQueue" where
  "aq_deletePendingTxToStore txHash a =
     (if txHash \<in> pendingTxsToStore a
      then a\<lparr>pendingTxsToStore := pendingTxsToStore a - {txHash}\<rparr> else a)"

text \<open>
  \<open>updateCurrentNonceBalance\<close> in the order of the code: the balance; the nonce, with the
  collection and then the deletion of the transactions whose nonce is past; the ready
  transaction; its replacement; the old one back among the not ready ones.
\<close>

definition markInvalidNonce :: "txref \<Rightarrow> txheap \<Rightarrow> txheap" where
  "markInvalidNonce tx h =
     h(tx := (h tx)\<lparr>FailedReason := Some (go_error_Error ErrIntrinsicInvalidNonce)\<rparr>)"

definition updateNonce ::
    "txheap \<Rightarrow> u64 \<Rightarrow> addrQueue \<Rightarrow> (txheap \<times> txref list) \<times> addrQueue" where
  "updateNonce h nonce a =
     (if currentNonce a \<noteq> nonce then
        (let a1 = a\<lparr>currentNonce := nonce\<rparr>;
             old = filter (\<lambda>(k, tx). Nonce (h tx) < currentNonce a1) (notReadyTxs a1);
             txsToDelete = map snd old;
             h' = fold markInvalidNonce txsToDelete h;
             m = fold (\<lambda>tx m. gm_del (Nonce (h' tx)) m) txsToDelete (notReadyTxs a1)
         in ((h', txsToDelete), a1\<lparr>notReadyTxs := m\<rparr>))
      else ((h, []), a))"

definition demoteReady :: "txheap \<Rightarrow> addrQueue \<Rightarrow> txref option \<times> addrQueue" where
  "demoteReady h a =
     (case readyTx a of
        Some r \<Rightarrow>
          if Nonce (h r) \<noteq> currentNonce a \<or> currentBalance a < Cost (h r)
          then (Some r, a\<lparr>readyTx := None\<rparr>) else (None, a)
      | None \<Rightarrow> (None, a))"

definition promoteNotReady :: "txheap \<Rightarrow> addrQueue \<Rightarrow> addrQueue" where
  "promoteNotReady h a =
     (if readyTx a = None then
        (case gm_get (notReadyTxs a) (currentNonce a) of
           Some nrTx \<Rightarrow>
             if currentBalance a \<ge> Cost (h nrTx)
             then a\<lparr>readyTx := Some nrTx, notReadyTxs := gm_del (currentNonce a) (notReadyTxs a)\<rparr>
             else a
         | None \<Rightarrow> a)
      else a)"

definition requeueOldReady :: "txheap \<Rightarrow> txref option \<Rightarrow> addrQueue \<Rightarrow> addrQueue" where
  "requeueOldReady h oldReadyTx a =
     (case oldReadyTx of
        Some r \<Rightarrow>
          if Nonce (h r) > currentNonce a
          then a\<lparr>notReadyTxs := gm_set (Nonce (h r)) r (notReadyTxs a)\<rparr> else a
      | None \<Rightarrow> a)"

definition updateCurrentNonceBalance ::
    "txheap \<Rightarrow> u64 option \<Rightarrow> int option \<Rightarrow> addrQueue \<Rightarrow>
     (txheap \<times> txref option \<times> txref option \<times> txref list) \<times> addrQueue" where
  "updateCurrentNonceBalance h nonce balance a =
     (let a1 = (case balance of Some b \<Rightarrow> a\<lparr>currentBalance := b\<rparr> | None \<Rightarrow> a);
          ((h2, txsToDelete), a2) = (case nonce of Some n \<Rightarrow> updateNonce h n a1 | None \<Rightarrow> ((h, []), a1));
          (oldReadyTx, a3) = demoteReady h2 a2;
          a4 = promoteNotReady h2 a3;
          a5 = requeueOldReady h2 oldReadyTx a4
      in ((h2, readyTx a5, oldReadyTx, txsToDelete), a5))"

definition aq_UpdateTxZKCounters ::
    "(hash \<Rightarrow> string) \<Rightarrow> txheap \<Rightarrow> hash \<Rightarrow> ZKCounters \<Rightarrow> addrQueue \<Rightarrow> txheap" where
  "aq_UpdateTxZKCounters hstr h txHash counters a =
     (if readyTx a \<noteq> None \<and> HashStr (h (the (readyTx a))) = hstr txHash
      then h(the (readyTx a) := updateZKCounters counters (h (the (readyTx a))))
      else case find (\<lambda>(k, tx). HashStr (h tx) = hstr txHash) (notReadyTxs a) of
             Some (k, tx) \<Rightarrow> h(tx := updateZKCounters counters (h tx))
           | None \<Rightarrow> h)"

section \<open>Invariant\<close>

definition aq_inv :: "txheap \<Rightarrow> addrQueue \<Rightarrow> bool" where
  "aq_inv h a \<longleftrightarrow>
     gm_wf (notReadyTxs a) \<and>
     (\<forall>(k, r) \<in> set (notReadyTxs a). Nonce (h r) = k \<and> currentNonce a \<le> k) \<and>
     (\<forall>r \<in> set_option (readyTx a). Nonce (h r) = currentNonce a \<and> Cost (h r) \<le> currentBalance a)"

definition aq_txs :: "addrQueue \<Rightarrow> txref set" where
  "aq_txs a = set_option (readyTx a) \<union> snd ` set (notReadyTxs a)"

text \<open>Stores that differ only in the failure reasons and the counters of the trackers.\<close>

definition same_core :: "txheap \<Rightarrow> txheap \<Rightarrow> bool" where
  "same_core h h' \<longleftrightarrow> (\<forall>r. HashStr (h' r) = HashStr (h r) \<and> FromStr (h' r) = FromStr (h r) \<and>
     From (h' r) = From (h r) \<and> Nonce (h' r) = Nonce (h r) \<and> GasPrice (h' r) = GasPrice (h r) \<and> Cost (h' r) = Cost (h r) \<and>
     ReceivedAt (h' r) = ReceivedAt (h r))"

lemma same_core_refl [simp]: "same_core h h"
  by (simp add: same_core_def)

lemma same_core_trans: "same_core h1 h2 \<Longrightarrow> same_core h2 h3 \<Longrightarrow> same_core h1 h3"
  by (simp add: same_core_def)

lemma same_core_upd [simp]:
  "same_core h (h(r := (h r)\<lparr>FailedReason := x\<rparr>))"
  "same_core h (h(r := updateZKCounters c (h r)))"
  by (simp_all add: same_core_def updateZKCounters_def)

lemma same_core_mark: "same_core h (fold markInvalidNonce txs h)"
proof (induction txs arbitrary: h)
  case (Cons x xs)
  have "same_core h (markInvalidNonce x h)" by (simp add: markInvalidNonce_def)
  with Cons.IH [of "markInvalidNonce x h"] show ?case by (auto intro: same_core_trans)
qed simp

lemma aq_inv_cong: "same_core h h' \<Longrightarrow> aq_inv h' a = aq_inv h a"
  by (simp add: aq_inv_def same_core_def)

lemma tsl_inv_cong: "same_core h h' \<Longrightarrow> tsl_inv h' e = tsl_inv h e"
  by (simp add: tsl_inv_def same_core_def)

lemma newAddrQueue_inv: "aq_inv h (newAddrQueue astr addr nonce balance)"
  by (simp add: aq_inv_def newAddrQueue_def)

section \<open>Adding\<close>

text \<open>The four ways \<open>addTx\<close> can end.\<close>

lemma addTx_cases:
  obtains
    (ready) rep where "currentNonce a = Nonce (h tx)" "Cost (h tx) \<le> currentBalance a"
      "addTx h tx a = ((Some tx, readyTx a, rep, None), a\<lparr>readyTx := Some tx\<rparr>)"
      "\<And>r. readyTx a = Some r \<Longrightarrow> GasPrice (h r) \<le> GasPrice (h tx)"
      "rep = (if HashStr (h (the (readyTx a))) \<noteq> HashStr (h tx) then readyTx a else None)"
  | (unaffordable) rep where "currentNonce a = Nonce (h tx)" "currentBalance a < Cost (h tx)"
      "addTx h tx a = ((None, readyTx a, rep, None),
         a\<lparr>readyTx := None, notReadyTxs := gm_set (Nonce (h tx)) tx (notReadyTxs a)\<rparr>)"
      "\<And>r. readyTx a = Some r \<Longrightarrow> GasPrice (h r) \<le> GasPrice (h tx)"
      "rep = (if HashStr (h (the (readyTx a))) \<noteq> HashStr (h tx) then readyTx a else None)"
  | (future) rep where "currentNonce a < Nonce (h tx)"
      "addTx h tx a = ((None, None, rep, None),
         a\<lparr>notReadyTxs := gm_set (Nonce (h tx)) tx (notReadyTxs a)\<rparr>)"
      "\<And>r. gm_get (notReadyTxs a) (Nonce (h tx)) = Some r \<Longrightarrow> GasPrice (h r) \<le> GasPrice (h tx)"
      "rep = (if HashStr (h (the (gm_get (notReadyTxs a) (Nonce (h tx))))) \<noteq> HashStr (h tx)
              then gm_get (notReadyTxs a) (Nonce (h tx)) else None)"
  | (dropped) e where "addTx h tx a = ((None, None, None, Some e), a)"
proof -
  consider (eq) "currentNonce a = Nonce (h tx)" | (gt) "currentNonce a > Nonce (h tx)"
    | (lt) "currentNonce a < Nonce (h tx)" by fastforce
  then show ?thesis
  proof cases
    case eq
    let ?rep = "if HashStr (h (the (readyTx a))) \<noteq> HashStr (h tx) then readyTx a else None"
    show ?thesis
    proof (cases "readyTx a = None \<or> GasPrice (h (the (readyTx a))) \<le> GasPrice (h tx)")
      case better: True
      then have gas: "\<And>r. readyTx a = Some r \<Longrightarrow> GasPrice (h r) \<le> GasPrice (h tx)" by auto
      show ?thesis
      proof (cases "Cost (h tx) \<le> currentBalance a")
        case True
        show ?thesis
          by (rule ready [OF eq True _ gas refl]) (use eq better True in \<open>auto simp: addTx_def Let_def\<close>)
      next
        case False
        then have lt: "currentBalance a < Cost (h tx)" by simp
        show ?thesis
          by (rule unaffordable [OF eq lt _ gas refl])
            (use eq better False in \<open>auto simp: addTx_def Let_def\<close>)
      qed
    next
      case False
      show ?thesis by (rule dropped) (use eq False in \<open>simp add: addTx_def\<close>)
    qed
  next
    case gt
    then have "currentNonce a \<noteq> Nonce (h tx)" by simp
    with gt show ?thesis by - (rule dropped [of ErrIntrinsicInvalidNonce], simp add: addTx_def)
  next
    case lt
    then have ne: "currentNonce a \<noteq> Nonce (h tx)" "\<not> Nonce (h tx) < currentNonce a" by simp_all
    show ?thesis
    proof (cases "gm_get (notReadyTxs a) (Nonce (h tx))")
      case None
      show ?thesis by (rule future [OF lt _ _ refl]) (use ne None in \<open>simp_all add: addTx_def\<close>)
    next
      case (Some r)
      show ?thesis
      proof (cases "GasPrice (h r) \<le> GasPrice (h tx)")
        case True
        show ?thesis
          by (rule future [OF lt _ _ refl]) (use ne Some True in \<open>simp_all add: addTx_def\<close>)
      next
        case False
        show ?thesis by (rule dropped) (use ne Some False in \<open>simp add: addTx_def\<close>)
      qed
    qed
  qed
qed

lemma aq_inv_set_notReady:
  "aq_inv h a \<Longrightarrow> currentNonce a \<le> Nonce (h tx) \<Longrightarrow>
     aq_inv h (a\<lparr>notReadyTxs := gm_set (Nonce (h tx)) tx (notReadyTxs a)\<rparr>)"
  by (auto simp: aq_inv_def gomap_simps)

lemma aq_inv_no_ready: "aq_inv h a \<Longrightarrow> aq_inv h (a\<lparr>readyTx := None\<rparr>)"
  by (simp add: aq_inv_def)

lemma addTx_inv [inv_intros]: "aq_inv h a \<Longrightarrow> aq_inv h (snd (addTx h tx a))"
proof (cases rule: addTx_cases [of a h tx])
  case (ready rep)
  then show "aq_inv h a \<Longrightarrow> ?thesis" by (simp add: aq_inv_def)
next
  case (unaffordable rep)
  moreover assume "aq_inv h a"
  ultimately show ?thesis
    using aq_inv_set_notReady [OF aq_inv_no_ready, of h a tx] by simp
next
  case (future rep)
  then show "aq_inv h a \<Longrightarrow> ?thesis" using aq_inv_set_notReady [of h a tx] by simp
next
  case (dropped e)
  then show "aq_inv h a \<Longrightarrow> ?thesis" by simp
qed

lemma addTx_frame [frame_simps]:
  "currentNonce (snd (addTx h tx a)) = currentNonce a"
  "currentBalance (snd (addTx h tx a)) = currentBalance a"
  "fromStr (snd (addTx h tx a)) = fromStr a"
  "forcedTxs (snd (addTx h tx a)) = forcedTxs a"
  "pendingTxsToStore (snd (addTx h tx a)) = pendingTxsToStore a"
  by (cases rule: addTx_cases [of a h tx]; simp)+

lemma addTx_txs:
  assumes inv: "aq_inv h a" and ok: "fst (addTx h tx a) = (n, p, r, None)"
  shows "tx \<in> aq_txs (snd (addTx h tx a)) \<and> aq_txs (snd (addTx h tx a)) \<subseteq> insert tx (aq_txs a) \<and>
    (\<forall>x \<in> aq_txs a - aq_txs (snd (addTx h tx a)). Nonce (h x) = Nonce (h tx))"
  using inv ok
  by (cases rule: addTx_cases [of a h tx])
    (force simp: aq_txs_def aq_inv_def gomap_simps image_iff)+

section \<open>Deleting and expiring\<close>

lemma deleteTx_notReady:
  assumes "aq_inv h a"
  shows "go_range (\<lambda>m. m) (\<lambda>nonce tx m. if HashStr (h tx) = s then gm_del (Nonce (h tx)) m else m)
      (map fst (notReadyTxs a)) (notReadyTxs a) =
    filter (\<lambda>(k, tx). HashStr (h tx) \<noteq> s) (notReadyTxs a)"
  by (rule go_range_filter) (use assms in \<open>auto simp: aq_inv_def\<close>)

lemma aq_inv_filter:
  "aq_inv h a \<Longrightarrow> aq_inv h (a\<lparr>notReadyTxs := filter P (notReadyTxs a)\<rparr>)"
  by (auto simp: aq_inv_def gm_wf_filter)

lemma deleteTx_inv [inv_intros]: "aq_inv h a \<Longrightarrow> aq_inv h (snd (deleteTx hstr h txHash a))"
  by (simp add: deleteTx_def deleteTx_notReady aq_inv_filter aq_inv_no_ready)

text \<open>
  The expiry loop: what it drops had expired at one of the readings it made, what it keeps of
  the visited keys had not at one of them.
\<close>

lemma expire_loop:
  assumes "gm_wf m" "\<forall>(k, r) \<in> set m. Nonce (h r) = k"
    and "go_range (\<lambda>(i, m, txs). m) (expire_body h clock maxTime) ks (i, m, txs) = (i', m', txs')"
  shows "i \<le> i' \<and> gm_wf m' \<and> set m' \<subseteq> set m \<and> set txs' = set txs \<union> snd ` (set m - set m') \<and>
    (\<forall>(k, r) \<in> set m - set m'. \<exists>j \<in> {i..<i'}. isExpired h maxTime (clock j) r) \<and>
    (\<forall>(k, r) \<in> set m'. k \<in> set ks \<longrightarrow> (\<exists>j \<in> {i..<i'}. \<not> isExpired h maxTime (clock j) r))"
  using assms
proof (induction ks arbitrary: i m txs)
  case (Cons k ks)
  have sub: "{Suc i..<i'} \<subseteq> {i..<i'}" by auto
  show ?case
  proof (cases "gm_get m k")
    case None
    then have "(k, r) \<notin> set m" for r using gm.pairs_get [OF Cons.prems(1), of k r] by simp
    with None Cons.IH [OF Cons.prems(1,2), of i txs] Cons.prems(3) show ?thesis by fastforce
  next
    case (Some r)
    then have kr: "(k, r) \<in> set m" by (rule gm_get_SomeD)
    with Cons.prems(2) have n: "Nonce (h r) = k" by blast
    have uniq: "r' = r" if "(k, r') \<in> set m" for r'
      using gm.pairs_functional [OF Cons.prems(1) that kr] .
    show ?thesis
    proof (cases "isExpired h maxTime (clock i) r")
      case True
      let ?m = "gm_del k m"
      have m: "gm_wf ?m" "\<forall>(k, r) \<in> set ?m. Nonce (h r) = k" "set ?m = {p \<in> set m. fst p \<noteq> k}"
        using Cons.prems(1,2) by (auto simp: gomap_simps)
      have d: "set m - set m' = insert (k, r) (set ?m - set m')" if "set m' \<subseteq> set ?m"
        using that kr unfolding m(3) by (auto dest: uniq)
      have "expire_body h clock maxTime k r (i, m, txs) = (Suc i, ?m, txs @ [r])"
        using True n by (simp add: expire_body_def)
      with Cons.prems(3) Some
      have "go_range (\<lambda>(i, m, txs). m) (expire_body h clock maxTime) ks (Suc i, ?m, txs @ [r]) =
          (i', m', txs')" by simp
      from Cons.IH [OF m(1,2) this] have IH: "Suc i \<le> i'" "gm_wf m'" "set m' \<subseteq> set ?m"
        "set txs' = set (txs @ [r]) \<union> snd ` (set ?m - set m')"
        "\<forall>(k, r) \<in> set ?m - set m'. \<exists>j \<in> {Suc i..<i'}. isExpired h maxTime (clock j) r"
        "\<forall>(k, r) \<in> set m'. k \<in> set ks \<longrightarrow>
           (\<exists>j \<in> {Suc i..<i'}. \<not> isExpired h maxTime (clock j) r)"
        by blast+
      have r: "\<exists>j \<in> {i..<i'}. isExpired h maxTime (clock j) r" using IH(1) True by auto
      have k: "fst p \<noteq> k" if "p \<in> set m'" for p using IH(3) m(3) that by auto
      have dd: "set m - set m' = insert (k, r) (set ?m - set m')" by (rule d [OF IH(3)])
      show ?thesis
      proof (intro conjI)
        show "\<forall>(k, r) \<in> set m - set m'. \<exists>j \<in> {i..<i'}. isExpired h maxTime (clock j) r"
          unfolding dd using IH(5) r sub by fast
        show "\<forall>(k', r) \<in> set m'. k' \<in> set (k # ks) \<longrightarrow>
            (\<exists>j \<in> {i..<i'}. \<not> isExpired h maxTime (clock j) r)"
        proof clarify
          fix k' r' assume kr': "(k', r') \<in> set m'" and "k' \<in> set (k # ks)"
          with k [OF kr'] have "k' \<in> set ks" by auto
          with kr' IH(6) sub show "\<exists>j \<in> {i..<i'}. \<not> isExpired h maxTime (clock j) r'" by fast
        qed
      qed (use IH(1-4) dd m(3) in auto)
    next
      case False
      have "expire_body h clock maxTime k r (i, m, txs) = (Suc i, m, txs)"
        using False by (simp add: expire_body_def)
      with Cons.prems(3) Some
      have "go_range (\<lambda>(i, m, txs). m) (expire_body h clock maxTime) ks (Suc i, m, txs) =
          (i', m', txs')" by simp
      from Cons.IH [OF Cons.prems(1,2) this] have IH: "Suc i \<le> i'" "gm_wf m'" "set m' \<subseteq> set m"
        "set txs' = set txs \<union> snd ` (set m - set m')"
        "\<forall>(k, r) \<in> set m - set m'. \<exists>j \<in> {Suc i..<i'}. isExpired h maxTime (clock j) r"
        "\<forall>(k, r) \<in> set m'. k \<in> set ks \<longrightarrow>
           (\<exists>j \<in> {Suc i..<i'}. \<not> isExpired h maxTime (clock j) r)"
        by blast+
      have r: "\<exists>j \<in> {i..<i'}. \<not> isExpired h maxTime (clock j) r" using IH(1) False by auto
      show ?thesis
      proof (intro conjI)
        show "\<forall>(k, r) \<in> set m - set m'. \<exists>j \<in> {i..<i'}. isExpired h maxTime (clock j) r"
          using IH(5) sub by fast
        show "\<forall>(k', r) \<in> set m'. k' \<in> set (k # ks) \<longrightarrow>
            (\<exists>j \<in> {i..<i'}. \<not> isExpired h maxTime (clock j) r)"
        proof clarify
          fix k' r' assume kr': "(k', r') \<in> set m'" and "k' \<in> set (k # ks)"
          then consider "k' = k" | "k' \<in> set ks" by auto
          then show "\<exists>j \<in> {i..<i'}. \<not> isExpired h maxTime (clock j) r'"
          proof cases
            case 1
            with kr' IH(3) have "r' = r" by (intro uniq) auto
            with r show ?thesis by simp
          next
            case 2
            with kr' IH(6) sub show ?thesis by fast
          qed
        qed
      qed (use IH(1-4) in auto)
    qed
  qed
qed simp

text \<open>Both kinds of expiry together, for the whole queue.\<close>

lemma aq_ExpireTransactions_spec:
  assumes inv: "aq_inv h a" and eq: "aq_ExpireTransactions h clock maxTime a = ((txs, prev), a')"
  shows "aq_inv h a'" and "aq_txs a = aq_txs a' \<union> set txs"
    and "\<forall>r \<in> set txs. \<exists>j. isExpired h maxTime (clock j) r"
    and "\<forall>r \<in> aq_txs a'. \<exists>j. \<not> isExpired h maxTime (clock j) r"
    and "prev = (if readyTx a' = None then readyTx a else None)"
    and "readyTx a' = None \<or> readyTx a' = readyTx a"
    and "fromStr a' = fromStr a"
proof -
  obtain i m ts where l: "go_range (\<lambda>(i, m, txs). m) (expire_body h clock maxTime)
      (map fst (notReadyTxs a)) (0, notReadyTxs a, []) = (i, m, ts)" by (metis prod_cases3)
  have keys: "\<forall>(k, r) \<in> set (notReadyTxs a). Nonce (h r) = k" and wf: "gm_wf (notReadyTxs a)"
    using inv by (auto simp: aq_inv_def)
  note L = expire_loop [OF wf keys l]
  have sub: "set m \<subseteq> set (notReadyTxs a)" and wfm: "gm_wf m"
    and ts: "set ts = snd ` (set (notReadyTxs a) - set m)" using L by auto
  have gone: "\<exists>j. isExpired h maxTime (clock j) r" if "r \<in> set ts" for r
  proof -
    from that obtain k where "(k, r) \<in> set (notReadyTxs a) - set m" using ts by auto
    with L show ?thesis by blast
  qed
  have kept: "\<exists>j. \<not> isExpired h maxTime (clock j) r" if "(k, r) \<in> set m" for k r
  proof -
    have "k \<in> set (map fst (notReadyTxs a))" using that sub by force
    with L that show ?thesis by blast
  qed
  have inv1: "aq_inv h (a\<lparr>notReadyTxs := m\<rparr>)" using inv sub wfm by (auto simp: aq_inv_def)
  have nr: "snd ` set (notReadyTxs a) = snd ` set m \<union> set ts" using sub ts by auto
  have cases: "(readyTx a = None \<and> txs = ts \<and> prev = None \<and> a' = a\<lparr>notReadyTxs := m\<rparr>) \<or>
     (\<exists>r. readyTx a = Some r \<and> isExpired h maxTime (clock i) r \<and> txs = ts @ [r] \<and> prev = Some r \<and>
        a' = a\<lparr>notReadyTxs := m, readyTx := None\<rparr>) \<or>
     (\<exists>r. readyTx a = Some r \<and> \<not> isExpired h maxTime (clock i) r \<and> txs = ts \<and> prev = None \<and>
        a' = a\<lparr>notReadyTxs := m\<rparr>)"
    using eq l by (auto simp: aq_ExpireTransactions_def split: option.splits if_splits)
  show "aq_inv h a'" using cases inv1 aq_inv_no_ready [OF inv1] by auto
  show "aq_txs a = aq_txs a' \<union> set txs" using cases nr by (auto simp: aq_txs_def)
  show "\<forall>r \<in> set txs. \<exists>j. isExpired h maxTime (clock j) r" using cases gone by auto
  show "\<forall>r \<in> aq_txs a'. \<exists>j. \<not> isExpired h maxTime (clock j) r"
    using cases kept by (auto simp: aq_txs_def)
  show "prev = (if readyTx a' = None then readyTx a else None)" using cases by auto
  show "readyTx a' = None \<or> readyTx a' = readyTx a" using cases by auto
  show "fromStr a' = fromStr a" using cases by auto
qed

section \<open>Updating nonce and balance\<close>

definition nr_inv :: "txheap \<Rightarrow> addrQueue \<Rightarrow> bool" where
  "nr_inv h a \<longleftrightarrow> gm_wf (notReadyTxs a) \<and>
     (\<forall>(k, r) \<in> set (notReadyTxs a). Nonce (h r) = k \<and> currentNonce a \<le> k)"

lemma aq_inv_nr: "aq_inv h a \<longleftrightarrow> nr_inv h a \<and>
   (\<forall>r \<in> set_option (readyTx a). Nonce (h r) = currentNonce a \<and> Cost (h r) \<le> currentBalance a)"
  by (simp add: aq_inv_def nr_inv_def)

lemma fold_gm_del: "fold (\<lambda>x m. gm_del (f x) m) xs m = filter (\<lambda>(k, v). k \<notin> f ` set xs) m"
  by (induction xs arbitrary: m) (auto simp: gm_del_def AList.delete_eq intro!: filter_cong)

lemma updateNonce_eq:
  assumes "nr_inv h a"
  shows "\<exists>h'. same_core h h' \<and> updateNonce h n a =
    ((h', map snd (filter (\<lambda>(k, r). k < n) (notReadyTxs a))),
     a\<lparr>currentNonce := n, notReadyTxs := filter (\<lambda>(k, r). n \<le> k) (notReadyTxs a)\<rparr>)"
proof (cases "currentNonce a = n")
  case True
  then have "filter (\<lambda>(k, r). k < n) (notReadyTxs a) = []"
    "filter (\<lambda>(k, r). n \<le> k) (notReadyTxs a) = notReadyTxs a"
    using assms by (auto simp: nr_inv_def filter_id_conv filter_empty_conv)
  with True show ?thesis by (auto simp: updateNonce_def)
next
  case False
  let ?old = "filter (\<lambda>(k, tx). Nonce (h tx) < n) (notReadyTxs a)"
  define h' where "h' = fold markInvalidNonce (map snd ?old) h"
  have core: "same_core h h'" unfolding h'_def by (rule same_core_mark)
  then have nonce: "Nonce (h' r) = Nonce (h r)" for r by (simp add: same_core_def)
  have keys: "Nonce (h r) = k" if "(k, r) \<in> set (notReadyTxs a)" for k r
    using assms that by (auto simp: nr_inv_def)
  have old: "?old = filter (\<lambda>(k, r). k < n) (notReadyTxs a)"
    by (rule filter_cong) (auto dest: keys)
  have "filter (\<lambda>(k, v). k \<notin> (\<lambda>tx. Nonce (h' tx)) ` set (map snd ?old)) (notReadyTxs a) =
      filter (\<lambda>(k, r). n \<le> k) (notReadyTxs a)"
  proof (rule filter_cong [OF refl], clarify)
    fix k r assume kr: "(k, r) \<in> set (notReadyTxs a)"
    have "k \<in> (\<lambda>tx. Nonce (h' tx)) ` set (map snd ?old) \<longleftrightarrow> k < n"
      using kr keys [OF kr] unfolding old by (force simp: nonce dest: keys)
    then show "k \<notin> (\<lambda>tx. Nonce (h' tx)) ` set (map snd ?old) \<longleftrightarrow> n \<le> k" by (simp add: not_less)
  qed
  then have del: "fold (\<lambda>tx m. gm_del (Nonce (h' tx)) m) (map snd ?old) (notReadyTxs a) =
      filter (\<lambda>(k, r). n \<le> k) (notReadyTxs a)"
    by (simp only: fold_gm_del)
  show ?thesis
    by (rule exI [of _ h']) (use False core del old in \<open>simp add: updateNonce_def Let_def h'_def\<close>)
qed

lemma nr_inv_updateNonce:
  "nr_inv h a \<Longrightarrow>
     nr_inv h (a\<lparr>currentNonce := n, notReadyTxs := filter (\<lambda>(k, r). n \<le> k) (notReadyTxs a)\<rparr>)"
  by (auto simp: nr_inv_def gm_wf_filter)

text \<open>The whole operation, in terms of the values before it.\<close>

definition new_nonce :: "u64 option \<Rightarrow> addrQueue \<Rightarrow> u64" where
  "new_nonce nonce a = (case nonce of Some n \<Rightarrow> n | None \<Rightarrow> currentNonce a)"

definition new_balance :: "int option \<Rightarrow> addrQueue \<Rightarrow> int" where
  "new_balance balance a = (case balance of Some b \<Rightarrow> b | None \<Rightarrow> currentBalance a)"

lemma updateCurrentNonceBalance_eq:
  assumes "aq_inv h a"
  shows "\<exists>h'. same_core h h' \<and> updateCurrentNonceBalance h nonce balance a =
    (let n = new_nonce nonce a; b = new_balance balance a;
         a2 = a\<lparr>currentBalance := b, currentNonce := n,
                notReadyTxs := filter (\<lambda>(k, r). n \<le> k) (notReadyTxs a)\<rparr>;
         (old, a3) = demoteReady h a2;
         a5 = requeueOldReady h old (promoteNotReady h a3)
     in ((h', readyTx a5, old, map snd (filter (\<lambda>(k, r). k < n) (notReadyTxs a))), a5))"
proof -
  let ?n = "new_nonce nonce a" and ?b = "new_balance balance a"
  let ?a1 = "a\<lparr>currentBalance := ?b\<rparr>"
  have nr: "nr_inv h ?a1" using assms by (auto simp: aq_inv_nr nr_inv_def)
  have a1: "(case balance of Some b \<Rightarrow> a\<lparr>currentBalance := b\<rparr> | None \<Rightarrow> a) = ?a1"
    by (cases balance) (simp_all add: new_balance_def)
  obtain h' where core: "same_core h h'" and u: "updateNonce h ?n ?a1 =
     ((h', map snd (filter (\<lambda>(k, r). k < ?n) (notReadyTxs ?a1))),
      ?a1\<lparr>currentNonce := ?n, notReadyTxs := filter (\<lambda>(k, r). ?n \<le> k) (notReadyTxs ?a1)\<rparr>)"
    using updateNonce_eq [OF nr] by blast
  have "updateNonce h (currentNonce a) ?a1 = ((h, []), ?a1)" by (simp add: updateNonce_def)
  then have a2: "\<exists>h'. same_core h h' \<and>
      (case nonce of Some n \<Rightarrow> updateNonce h n ?a1 | None \<Rightarrow> ((h, []), ?a1)) =
      ((h', map snd (filter (\<lambda>(k, r). k < ?n) (notReadyTxs a))),
       ?a1\<lparr>currentNonce := ?n, notReadyTxs := filter (\<lambda>(k, r). ?n \<le> k) (notReadyTxs a)\<rparr>)"
    using core u by (cases nonce) (auto simp: new_nonce_def)
  have dem: "demoteReady h' x = demoteReady h x" and pro: "promoteNotReady h' x = promoteNotReady h x"
    and req: "requeueOldReady h' old x = requeueOldReady h old x" if "same_core h h'" for h' old x
    using that by (auto simp: demoteReady_def promoteNotReady_def requeueOldReady_def same_core_def
        split: option.splits)
  from a2 obtain h2 where h2: "same_core h h2"
    "(case nonce of Some n \<Rightarrow> updateNonce h n ?a1 | None \<Rightarrow> ((h, []), ?a1)) =
      ((h2, map snd (filter (\<lambda>(k, r). k < ?n) (notReadyTxs a))),
       ?a1\<lparr>currentNonce := ?n, notReadyTxs := filter (\<lambda>(k, r). ?n \<le> k) (notReadyTxs a)\<rparr>)"
    by blast
  show ?thesis
    by (rule exI [of _ h2])
      (use h2 in \<open>simp add: updateCurrentNonceBalance_def a1 dem [OF h2(1)] pro [OF h2(1)]
        req [OF h2(1)] split: prod.splits\<close>)
qed

lemma demoteReady_inv:
  "nr_inv h a \<Longrightarrow> demoteReady h a = (old, a') \<Longrightarrow> aq_inv h a' \<and> currentNonce a' = currentNonce a \<and>
     currentBalance a' = currentBalance a \<and> notReadyTxs a' = notReadyTxs a \<and>
     fromStr a' = fromStr a \<and>
     (case readyTx a of
        None \<Rightarrow> old = None \<and> readyTx a' = None
      | Some r \<Rightarrow> if Nonce (h r) = currentNonce a \<and> Cost (h r) \<le> currentBalance a
                  then old = None \<and> readyTx a' = Some r else old = Some r \<and> readyTx a' = None)"
  by (auto simp: demoteReady_def aq_inv_def nr_inv_def split: option.splits if_splits)

lemma promoteNotReady_inv:
  assumes "aq_inv h a"
  shows "aq_inv h (promoteNotReady h a)" and "aq_txs (promoteNotReady h a) = aq_txs a"
    and "currentNonce (promoteNotReady h a) = currentNonce a"
    and "currentBalance (promoteNotReady h a) = currentBalance a"
    and "fromStr (promoteNotReady h a) = fromStr a"
    and "\<And>r. readyTx a = Some r \<Longrightarrow> readyTx (promoteNotReady h a) = Some r"
    and "set (notReadyTxs (promoteNotReady h a)) \<subseteq> set (notReadyTxs a)"
proof -
  have nr: "(k, r) \<in> set (notReadyTxs a) \<longleftrightarrow> gm_get (notReadyTxs a) k = Some r" for k r
    by (rule gm.pairs_get) (use assms in \<open>simp add: aq_inv_def\<close>)
  have keys: "Nonce (h r) = k" if "gm_get (notReadyTxs a) k = Some r" for k r
    using assms gm_get_SomeD [OF that] by (auto simp: aq_inv_def)
  show "aq_inv h (promoteNotReady h a)"
    using assms keys by (auto simp: promoteNotReady_def aq_inv_def gomap_simps split: option.splits)
  have "insert r (snd ` {p \<in> set (notReadyTxs a). fst p \<noteq> currentNonce a}) =
      snd ` set (notReadyTxs a)" if "gm_get (notReadyTxs a) (currentNonce a) = Some r" for r
    using that nr by (force simp: image_iff)
  then show "aq_txs (promoteNotReady h a) = aq_txs a"
    using assms by (auto simp: promoteNotReady_def aq_txs_def aq_inv_def gomap_simps split: option.splits)
  show "currentNonce (promoteNotReady h a) = currentNonce a"
    "currentBalance (promoteNotReady h a) = currentBalance a"
    "fromStr (promoteNotReady h a) = fromStr a"
    "\<And>r. readyTx a = Some r \<Longrightarrow> readyTx (promoteNotReady h a) = Some r"
    by (auto simp: promoteNotReady_def split: option.splits)
  show "set (notReadyTxs (promoteNotReady h a)) \<subseteq> set (notReadyTxs a)"
    using assms by (auto simp: promoteNotReady_def aq_inv_def gomap_simps split: option.splits)
qed

lemma requeueOldReady_inv:
  assumes "aq_inv h a"
  shows "aq_inv h (requeueOldReady h old a)"
    and "readyTx (requeueOldReady h old a) = readyTx a"
    and "currentNonce (requeueOldReady h old a) = currentNonce a"
    and "currentBalance (requeueOldReady h old a) = currentBalance a"
    and "fromStr (requeueOldReady h old a) = fromStr a"
    and "aq_txs (requeueOldReady h old a) \<subseteq> aq_txs a \<union> {r. old = Some r \<and> currentNonce a < Nonce (h r)}"
    and "old = Some r \<Longrightarrow> currentNonce a < Nonce (h r) \<Longrightarrow> r \<in> aq_txs (requeueOldReady h old a)"
    and "x \<in> aq_txs a \<Longrightarrow> \<forall>r. old = Some r \<longrightarrow> Nonce (h x) \<noteq> Nonce (h r) \<Longrightarrow>
      x \<in> aq_txs (requeueOldReady h old a)"
proof -
  show "aq_inv h (requeueOldReady h old a)"
    using assms by (auto simp: requeueOldReady_def aq_inv_def gomap_simps split: option.splits)
  show "readyTx (requeueOldReady h old a) = readyTx a"
    "currentNonce (requeueOldReady h old a) = currentNonce a"
    "currentBalance (requeueOldReady h old a) = currentBalance a"
    "fromStr (requeueOldReady h old a) = fromStr a"
    by (auto simp: requeueOldReady_def split: option.splits)
  show "aq_txs (requeueOldReady h old a) \<subseteq> aq_txs a \<union> {r. old = Some r \<and> currentNonce a < Nonce (h r)}"
    "old = Some r \<Longrightarrow> currentNonce a < Nonce (h r) \<Longrightarrow> r \<in> aq_txs (requeueOldReady h old a)"
    using assms
    by (auto simp: requeueOldReady_def aq_txs_def aq_inv_def gomap_simps split: option.splits)
  show "x \<in> aq_txs (requeueOldReady h old a)"
    if "x \<in> aq_txs a" "\<forall>r. old = Some r \<longrightarrow> Nonce (h x) \<noteq> Nonce (h r)"
    using assms that
    by (force simp: requeueOldReady_def aq_txs_def aq_inv_def gomap_simps split: option.splits)
qed

definition stays_ready :: "txheap \<Rightarrow> u64 \<Rightarrow> int \<Rightarrow> txref \<Rightarrow> bool" where
  "stays_ready h n b r \<longleftrightarrow> Nonce (h r) = n \<and> Cost (h r) \<le> b"

lemma updateCurrentNonceBalance_spec:
  assumes inv: "aq_inv h a"
    and eq: "updateCurrentNonceBalance h nonce balance a = ((h', newR, prevR, del), a')"
  defines "n \<equiv> new_nonce nonce a" and "b \<equiv> new_balance balance a"
  shows "same_core h h'" and "aq_inv h a'" and "newR = readyTx a'"
    and "currentNonce a' = n" and "currentBalance a' = b" and "fromStr a' = fromStr a"
    and "prevR = (case readyTx a of None \<Rightarrow> None | Some r \<Rightarrow> if stays_ready h n b r then None else Some r)"
    and "prevR = None \<Longrightarrow> readyTx a = Some r \<Longrightarrow> readyTx a' = Some r"
    and "del = map snd (filter (\<lambda>(k, r). k < n) (notReadyTxs a))"
    and "aq_txs a' \<subseteq> {r \<in> aq_txs a. n \<le> Nonce (h r)}"
    and "\<And>r. prevR = Some r \<Longrightarrow> n < Nonce (h r) \<Longrightarrow> r \<in> aq_txs a'"
    and "\<And>k r. (k, r) \<in> set (notReadyTxs a) \<Longrightarrow> n \<le> k \<Longrightarrow>
           \<forall>p. prevR = Some p \<longrightarrow> Nonce (h p) \<noteq> k \<Longrightarrow> r \<in> aq_txs a'"
    and "\<And>r. prevR = Some r \<Longrightarrow> Nonce (h r) \<le> n \<Longrightarrow> r \<notin> snd ` set (notReadyTxs a) \<Longrightarrow> r \<notin> aq_txs a'"
proof -
  define a2 where "a2 = a\<lparr>currentBalance := b, currentNonce := n,
                notReadyTxs := filter (\<lambda>(k, r). n \<le> k) (notReadyTxs a)\<rparr>"
  obtain old a3 where d: "demoteReady h a2 = (old, a3)" by fastforce
  define a4 where "a4 = promoteNotReady h a3"
  define a5 where "a5 = requeueOldReady h old a4"
  obtain h2 where h2: "same_core h h2" "updateCurrentNonceBalance h nonce balance a =
      ((h2, readyTx a5, old, map snd (filter (\<lambda>(k, r). k < n) (notReadyTxs a))), a5)"
    using updateCurrentNonceBalance_eq [OF inv, of nonce balance] d
    by (auto simp: n_def [symmetric] b_def [symmetric] a2_def [symmetric] a4_def a5_def)
  with eq have r: "h' = h2" "newR = readyTx a5" "prevR = old" "a' = a5"
    and del: "del = map snd (filter (\<lambda>(k, r). k < n) (notReadyTxs a))" by auto
  have nr2: "nr_inv h a2" using inv by (auto simp: a2_def aq_inv_nr nr_inv_def gm_wf_filter)
  note D = demoteReady_inv [OF nr2 d]
  then have i3: "aq_inv h a3" by simp
  note P = promoteNotReady_inv [OF i3, folded a4_def]
  note R = requeueOldReady_inv [OF P(1), where old = old, folded a5_def]
  have n2: "currentNonce a2 = n" "currentBalance a2 = b" "readyTx a2 = readyTx a"
    "notReadyTxs a2 = filter (\<lambda>(k, r). n \<le> k) (notReadyTxs a)" by (simp_all add: a2_def)
  have n4: "currentNonce a4 = n" using D P n2 by simp
  show "same_core h h'" "newR = readyTx a'" using h2(1) r by simp_all
  show "aq_inv h a'" using R r by simp
  show "currentNonce a' = n" "currentBalance a' = b" "fromStr a' = fromStr a"
    using R P D n2 r by (simp_all add: a2_def)
  show old: "prevR = (case readyTx a of None \<Rightarrow> None | Some r \<Rightarrow> if stays_ready h n b r then None else Some r)"
    using D r n2 by (auto simp: stays_ready_def split: option.splits if_splits)
  show "readyTx a' = Some r" if "prevR = None" "readyTx a = Some r"
    using that D r n2 R(2) P(6) [of r] by (auto split: if_splits)
  show "del = map snd (filter (\<lambda>(k, r). k < n) (notReadyTxs a))" by (rule del)
  have keys: "Nonce (h r) = k" if "(k, r) \<in> set (notReadyTxs a)" for k r
    using inv that by (auto simp: aq_inv_def)
  have t3: "aq_txs a3 = {r. readyTx a = Some r \<and> stays_ready h n b r} \<union>
      snd ` {(k, r) \<in> set (notReadyTxs a). n \<le> k}"
    using D n2 by (auto simp: aq_txs_def stays_ready_def image_iff split: option.splits if_splits)
  have sub: "aq_txs a' \<subseteq> aq_txs a3 \<union> {r. prevR = Some r \<and> n < Nonce (h r)}"
    using R(6) P(2) n4 r by simp
  show "aq_txs a' \<subseteq> {r \<in> aq_txs a. n \<le> Nonce (h r)}"
  proof
    fix x assume "x \<in> aq_txs a'"
    with sub consider "x \<in> aq_txs a3" | "prevR = Some x" "n < Nonce (h x)" by blast
    then show "x \<in> {r \<in> aq_txs a. n \<le> Nonce (h r)}"
    proof cases
      case 1
      then show ?thesis unfolding t3 by (force simp: aq_txs_def stays_ready_def dest: keys)
    next
      case 2
      then have "readyTx a = Some x" using old by (auto split: option.splits if_splits)
      with 2 show ?thesis by (simp add: aq_txs_def)
    qed
  qed
  show "r \<in> aq_txs a'" if "prevR = Some r" "n < Nonce (h r)" for r
    using R(7) that r n4 by simp
  show "x \<in> aq_txs a'"
    if "(k, x) \<in> set (notReadyTxs a)" "n \<le> k" "\<forall>p. prevR = Some p \<longrightarrow> Nonce (h p) \<noteq> k" for k x
  proof -
    have "x \<in> aq_txs a3" unfolding t3 using that(1,2) by (auto simp: image_iff)
    then have "x \<in> aq_txs a4" using P(2) by simp
    moreover have "\<forall>p. old = Some p \<longrightarrow> Nonce (h x) \<noteq> Nonce (h p)"
      using that(3) keys [OF that(1)] r by fastforce
    ultimately show ?thesis unfolding r by (rule R(8))
  qed
  show "x \<notin> aq_txs a'" if "prevR = Some x" "Nonce (h x) \<le> n" "x \<notin> snd ` set (notReadyTxs a)" for x
  proof
    assume "x \<in> aq_txs a'"
    with sub that(2) have "x \<in> aq_txs a3" by auto
    then have "readyTx a = Some x \<and> stays_ready h n b x" using that(3) unfolding t3 by force
    then show False using old that(1) by simp
  qed
qed

lemma aq_UpdateTxZKCounters_core [simp]: "same_core h (aq_UpdateTxZKCounters hstr h txHash c a)"
  by (auto simp: aq_UpdateTxZKCounters_def split: option.splits)

lemma deleteTx_txs:
  assumes "aq_inv h a" "deleteTx hstr h txHash a = (d, a')"
  shows "aq_inv h a'" and "aq_txs a' \<subseteq> aq_txs a" and "fromStr a' = fromStr a"
    and "d = (case readyTx a of None \<Rightarrow> None | Some r \<Rightarrow> if HashStr (h r) = hstr txHash then Some r else None)"
    and "readyTx a' = (if d = None then readyTx a else None)"
    and "d = None \<Longrightarrow> \<forall>r \<in> aq_txs a'. HashStr (h r) \<noteq> hstr txHash"
    and "\<forall>r \<in> aq_txs a. HashStr (h r) \<noteq> hstr txHash \<longrightarrow> r \<in> aq_txs a'"
proof -
  have "aq_inv h (snd (deleteTx hstr h txHash a))" using assms(1) by (rule inv_intros)
  then show "aq_inv h a'" by (simp add: assms(2))
  show "aq_txs a' \<subseteq> aq_txs a" "fromStr a' = fromStr a"
    "d = (case readyTx a of None \<Rightarrow> None | Some r \<Rightarrow> if HashStr (h r) = hstr txHash then Some r else None)"
    "readyTx a' = (if d = None then readyTx a else None)"
    "d = None \<Longrightarrow> \<forall>r \<in> aq_txs a'. HashStr (h r) \<noteq> hstr txHash"
    "\<forall>r \<in> aq_txs a. HashStr (h r) \<noteq> hstr txHash \<longrightarrow> r \<in> aq_txs a'"
    using assms(2) by (auto simp: deleteTx_def deleteTx_notReady [OF assms(1)] aq_txs_def image_iff
        split: option.splits if_splits)
qed

section \<open>Properties\<close>

text \<open>The transaction \<open>addTx\<close> compares the new one with.\<close>

definition addTx_rival :: "txheap \<Rightarrow> txref \<Rightarrow> addrQueue \<Rightarrow> txref option" where
  "addTx_rival h tx a =
     (if Nonce (h tx) = currentNonce a then readyTx a else gm_get (notReadyTxs a) (Nonce (h tx)))"

text \<open>
  C24. What \<open>addTx\<close> does with a transaction. A nonce below the account's is refused with the
  nonce error; a transaction that pays less than the one of its nonce that \<open>addTx\<close> compares it
  with (the ready one for the account's nonce, the not ready one for a later nonce) is refused
  as a duplicate; a refusal leaves the queue as it was. Otherwise the transaction is in the
  queue afterwards: ready if its nonce is the account's and the balance covers its cost, not
  ready else; and only transactions of its nonce can have left.
\<close>

theorem addTx_correct:
  assumes "aq_inv h a" "addTx h tx a = ((newReady, prevReady, replaced, dropReason), a')"
  shows "aq_inv h a' \<and>
    dropReason =
      (if Nonce (h tx) < currentNonce a then Some ErrIntrinsicInvalidNonce
       else if \<exists>r. addTx_rival h tx a = Some r \<and> GasPrice (h tx) < GasPrice (h r)
       then Some ErrDuplicatedNonce else None) \<and>
    (if dropReason \<noteq> None then a' = a \<and> newReady = None \<and> prevReady = None
     else tx \<in> aq_txs a' \<and> aq_txs a' \<subseteq> insert tx (aq_txs a) \<and>
       (readyTx a' = Some tx) = (Nonce (h tx) = currentNonce a \<and> Cost (h tx) \<le> currentBalance a \<or>
          readyTx a = Some tx \<and> Nonce (h tx) \<noteq> currentNonce a) \<and>
       (\<forall>x \<in> aq_txs a - aq_txs a'. Nonce (h x) = Nonce (h tx)))"
proof -
  have inv': "aq_inv h a'" using addTx_inv [OF assms(1), of tx] assms(2) by simp
  have drop: "dropReason =
      (if Nonce (h tx) < currentNonce a then Some ErrIntrinsicInvalidNonce
       else if \<exists>r. addTx_rival h tx a = Some r \<and> GasPrice (h tx) < GasPrice (h r)
       then Some ErrDuplicatedNonce else None)"
    using assms(2)
    by (cases "readyTx a"; cases "gm_get (notReadyTxs a) (Nonce (h tx))"; cases "currentNonce a = Nonce (h tx)")
      (simp_all add: addTx_def addTx_rival_def not_le split: if_splits)
  have err: "a' = a \<and> newReady = None \<and> prevReady = None" if "dropReason \<noteq> None"
    using that assms(2) by (cases rule: addTx_cases [of a h tx]) auto
  have ok: "tx \<in> aq_txs a' \<and> aq_txs a' \<subseteq> insert tx (aq_txs a) \<and>
      (\<forall>x \<in> aq_txs a - aq_txs a'. Nonce (h x) = Nonce (h tx))" if "dropReason = None"
    using addTx_txs [OF assms(1), of tx] assms(2) that by auto
  have ready: "(readyTx a' = Some tx) = (Nonce (h tx) = currentNonce a \<and> Cost (h tx) \<le> currentBalance a \<or>
          readyTx a = Some tx \<and> Nonce (h tx) \<noteq> currentNonce a)" if "dropReason = None"
    using that assms(2) by (cases rule: addTx_cases [of a h tx]) auto
  show ?thesis
  proof (cases "dropReason = None")
    case True
    show ?thesis using inv' drop ok [OF True] ready [OF True]
      by (simp only: True simp_thms if_False) blast
  next
    case False
    show ?thesis using inv' drop err [OF False] unfolding if_P [OF False] by blast
  qed
qed

text \<open>
  What an execution leaves in the queue, from the queue before it and the new nonce and balance.
  Ready is the transaction that was, when it has the new nonce and the balance covers it, and
  otherwise the waiting one of the new nonce, when the balance covers that one. Not ready under a
  nonce is what was, without the nonces below the new one and the promoted transaction, and with
  the old ready transaction when its nonce lies above the new one.
\<close>

definition kept_ready :: "txheap \<Rightarrow> u64 \<Rightarrow> int \<Rightarrow> addrQueue \<Rightarrow> txref option" where
  "kept_ready h n b a =
     (case readyTx a of Some r \<Rightarrow> if stays_ready h n b r then Some r else None | None \<Rightarrow> None)"

definition ready_after :: "txheap \<Rightarrow> u64 \<Rightarrow> int \<Rightarrow> addrQueue \<Rightarrow> txref option" where
  "ready_after h n b a =
     (if kept_ready h n b a \<noteq> None then readyTx a
      else case gm_get (notReadyTxs a) n of
             Some r \<Rightarrow> if Cost (h r) \<le> b then Some r else None
           | None \<Rightarrow> None)"

definition not_ready_after :: "txheap \<Rightarrow> u64 \<Rightarrow> int \<Rightarrow> addrQueue \<Rightarrow> u64 \<Rightarrow> txref option" where
  "not_ready_after h n b a k =
     (if k < n then None
      else if k = n then
        (if kept_ready h n b a = None \<and> ready_after h n b a \<noteq> None then None
         else gm_get (notReadyTxs a) k)
      else case readyTx a of
             Some r \<Rightarrow> if Nonce (h r) = k then Some r else gm_get (notReadyTxs a) k
           | None \<Rightarrow> gm_get (notReadyTxs a) k)"

lemma gm_get_filter_keys: "gm_get (filter (\<lambda>(k, v). P k) m) k = (if P k then gm_get m k else None)"
  by (induction m) (auto simp: gm_get_def)

lemma updateCurrentNonceBalance_places:
  assumes inv: "aq_inv h a"
    and eq: "updateCurrentNonceBalance h nonce balance a = ((h', newR, prevR, del), a')"
  defines "n \<equiv> new_nonce nonce a" and "b \<equiv> new_balance balance a"
  shows "readyTx a' = ready_after h n b a" and "gm_get (notReadyTxs a') k = not_ready_after h n b a k"
proof -
  let ?m = "filter (\<lambda>(k, r). n \<le> k) (notReadyTxs a)"
  define a2 where "a2 = a\<lparr>currentBalance := b, currentNonce := n, notReadyTxs := ?m\<rparr>"
  obtain old a3 where d: "demoteReady h a2 = (old, a3)" by fastforce
  have a': "a' = requeueOldReady h old (promoteNotReady h a3)"
    using updateCurrentNonceBalance_eq [OF inv, of nonce balance] d eq
    by (auto simp: n_def [symmetric] b_def [symmetric] a2_def [symmetric])
  have a2: "currentNonce a2 = n" "currentBalance a2 = b" "readyTx a2 = readyTx a" "notReadyTxs a2 = ?m"
    by (simp_all add: a2_def)
  have a3: "currentNonce a3 = n" "currentBalance a3 = b" "notReadyTxs a3 = ?m" "readyTx a3 = kept_ready h n b a"
    and old: "old = (if kept_ready h n b a = None then readyTx a else None)"
    using d a2 by (auto simp: demoteReady_def kept_ready_def stays_ready_def split: option.splits if_splits)
  let ?a4 = "promoteNotReady h a3"
  have a4: "currentNonce ?a4 = n" "readyTx ?a4 = ready_after h n b a"
    "gm_get (notReadyTxs ?a4) k = (if k < n then None
       else if k = n \<and> kept_ready h n b a = None \<and> ready_after h n b a \<noteq> None then None
       else gm_get (notReadyTxs a) k)"
    using a3 by (auto simp: promoteNotReady_def ready_after_def kept_ready_def gm_get_filter_keys gomap_simps
        split: option.splits if_splits)
  show "readyTx a' = ready_after h n b a"
    using a4(2) by (auto simp: a' requeueOldReady_def split: option.splits)
  have "kept_ready h n b a = None" if "readyTx a = Some r" "Nonce (h r) \<noteq> n" for r
    using that by (simp add: kept_ready_def stays_ready_def)
  then show "gm_get (notReadyTxs a') k = not_ready_after h n b a k"
    using a4 by (cases "readyTx a") (auto simp: a' old requeueOldReady_def not_ready_after_def gomap_simps)
qed

text \<open>
  C27. What an execution does to the sender's queue, completely. The account gets the new nonce
  and balance. The ready transaction keeps its place exactly when it has the new nonce and the new
  balance covers its cost; else it is reported as the previous one, and the waiting transaction of
  the new nonce takes its place if the balance covers that one; else none is ready. The new ready
  transaction is reported. Of the waiting transactions exactly those below the new nonce are
  returned for deletion and leave, the promoted one leaves, every other stays under its nonce,
  except that the old ready transaction takes its nonce back when that lies above the new one.
  The invariant holds afterwards, so what is ready is executable.
\<close>

theorem updateCurrentNonceBalance_correct:
  assumes "aq_inv h a"
    and "updateCurrentNonceBalance h nonce balance a = ((h', newReady, prevReady, txsToDelete), a')"
  shows "aq_inv h a' \<and> currentNonce a' = new_nonce nonce a \<and> currentBalance a' = new_balance balance a \<and>
    readyTx a' = ready_after h (new_nonce nonce a) (new_balance balance a) a \<and> newReady = readyTx a' \<and>
    prevReady = (if kept_ready h (new_nonce nonce a) (new_balance balance a) a = None then readyTx a else None) \<and>
    txsToDelete = map snd (filter (\<lambda>(k, r). k < new_nonce nonce a) (notReadyTxs a)) \<and>
    (\<forall>k. gm_get (notReadyTxs a') k = not_ready_after h (new_nonce nonce a) (new_balance balance a) a k)"
proof -
  note S = updateCurrentNonceBalance_spec [OF assms] and P = updateCurrentNonceBalance_places [OF assms]
  have "prevReady = (if kept_ready h (new_nonce nonce a) (new_balance balance a) a = None then readyTx a else None)"
    using S(7) by (auto simp: kept_ready_def split: option.splits)
  with S(2-5,9) P show ?thesis by (intro conjI allI) assumption+
qed

text \<open>
  Expiry of a queue: what is returned had expired at one of the clock readings made, what
  stays had not at one of them, nothing else is lost, and a ready transaction that expires is
  reported so that the worker can take it out of the sorted list.
\<close>

theorem aq_ExpireTransactions_correct:
  assumes "aq_inv h a" "aq_ExpireTransactions h clock maxTime a = ((txs, prevReady), a')"
  shows "aq_inv h a' \<and> aq_txs a = aq_txs a' \<union> set txs \<and>
    (\<forall>r \<in> set txs. \<exists>j. isExpired h maxTime (clock j) r) \<and>
    (\<forall>r \<in> aq_txs a'. \<exists>j. \<not> isExpired h maxTime (clock j) r) \<and>
    prevReady = (if readyTx a' = None then readyTx a else None)"
  using aq_ExpireTransactions_spec [OF assms] by (intro conjI)

text \<open>
  A ready transaction whose sender's balance drops below its cost is lost: it is neither
  ready, nor put back among the not ready ones (its nonce is the account's, not above it), nor
  returned for deletion.
\<close>

theorem unaffordable_ready_is_lost:
  assumes "aq_inv h a" "readyTx a = Some r" "r \<notin> snd ` set (notReadyTxs a)" "b < Cost (h r)"
    and "updateCurrentNonceBalance h None (Some b) a = ((h', newReady, prevReady, txsToDelete), a')"
  shows "prevReady = Some r \<and> r \<notin> aq_txs a' \<and> r \<notin> set txsToDelete"
proof -
  note S = updateCurrentNonceBalance_spec [OF assms(1,5)]
  have n: "Nonce (h r) = currentNonce a" using assms(1,2) by (simp add: aq_inv_def)
  then have "prevReady = Some r"
    using S(7) assms(2,4) by (simp add: stays_ready_def new_balance_def)
  with S(9,13) n assms(3) show ?thesis by (force simp: new_nonce_def)
qed

text \<open>
  A transaction for the account's nonce that the balance does not cover replaces the not
  ready transaction of that nonce whatever the gas prices, and the replaced one is not
  reported.
\<close>

theorem unaffordable_overwrites_silently:
  assumes "aq_inv h a" "readyTx a = None" "gm_get (notReadyTxs a) (currentNonce a) = Some old"
    and "Nonce (h tx) = currentNonce a" "currentBalance a < Cost (h tx)" "old \<noteq> tx"
  shows "\<exists>a'. addTx h tx a = ((None, None, None, None), a') \<and>
    gm_get (notReadyTxs a') (currentNonce a) = Some tx \<and> old \<notin> aq_txs a'"
proof -
  have inv: "gm_wf (notReadyTxs a)" "\<And>k r. (k, r) \<in> set (notReadyTxs a) \<Longrightarrow> Nonce (h r) = k"
    using assms(1) by (auto simp: aq_inv_def)
  have "r \<noteq> old" if "(k, r) \<in> set (gm_set (currentNonce a) tx (notReadyTxs a))" for k r
    using that assms(6) inv(2) [of k r] inv(2) [OF gm_get_SomeD [OF assms(3)]]
    by (auto simp: gomap_simps inv(1))
  then show ?thesis
    using assms by (force simp: addTx_def aq_txs_def aq_inv_def gomap_simps)
qed

text \<open>A queue with a ready transaction and a later one, and one that waits for funds.\<close>

definition sample_queue :: addrQueue where
  "sample_queue = \<lparr>aq_from = 1, fromStr = ''0x01'', currentNonce = 0, currentBalance = 7,
     readyTx = Some 0, notReadyTxs = [(1, 1)], forcedTxs = {}, pendingTxsToStore = {}\<rparr>"

definition sample_waiting :: addrQueue where
  "sample_waiting = \<lparr>aq_from = 1, fromStr = ''0x01'', currentNonce = 0, currentBalance = 3,
     readyTx = None, notReadyTxs = [(0, 0)], forcedTxs = {}, pendingTxsToStore = {}\<rparr>"

lemma sample_queue_inv: "aq_inv sample_heap sample_queue"
  by (simp add: aq_inv_def sample_queue_def gm_wf_def sample_simps)

lemma sample_waiting_inv: "aq_inv (sample_trackers (\<lambda>r. 0) (\<lambda>r. 9 - int r) (\<lambda>r. 5)) sample_waiting"
  by (simp add: aq_inv_def sample_waiting_def gm_wf_def sample_simps)

theorem addTx_correct_witness:
  "\<exists>a'. addTx sample_heap 2 sample_queue = ((None, None, None, None), a') \<and>
     aq_inv sample_heap a' \<and> 2 \<in> aq_txs a'"
proof -
  obtain n p r d a' where eq: "addTx sample_heap 2 sample_queue = ((n, p, r, d), a')"
    by (metis prod_cases5 prod.exhaust)
  then have "n = None \<and> p = None \<and> r = None \<and> d = None"
    by (simp add: addTx_def sample_queue_def sample_simps)
  with addTx_correct [OF sample_queue_inv eq] eq show ?thesis by simp
qed

theorem updateCurrentNonceBalance_correct_witness:
  "\<exists>h' a'. updateCurrentNonceBalance sample_heap (Some 1) (Some 9) sample_queue =
       ((h', Some 1, Some 0, []), a') \<and> aq_inv sample_heap a' \<and> currentNonce a' = 1"
proof -
  obtain h' n p d a' where eq:
      "updateCurrentNonceBalance sample_heap (Some 1) (Some 9) sample_queue = ((h', n, p, d), a')"
    by (metis prod_cases5 prod.exhaust)
  have q: "new_nonce (Some 1) sample_queue = 1" "new_balance (Some 9) sample_queue = 9"
      "kept_ready sample_heap 1 9 sample_queue = None" "ready_after sample_heap 1 9 sample_queue = Some 1"
      "readyTx sample_queue = Some 0" "notReadyTxs sample_queue = [(1, 1)]"
    by (simp_all add: sample_queue_def new_nonce_def new_balance_def kept_ready_def ready_after_def
        stays_ready_def gm_get_def sample_simps)
  from updateCurrentNonceBalance_correct [OF sample_queue_inv eq] eq show ?thesis by (simp add: q)
qed

theorem aq_ExpireTransactions_correct_witness:
  "\<exists>txs a'. aq_ExpireTransactions sample_heap (\<lambda>i. 10) 5 sample_queue = ((txs, Some 0), a') \<and>
     aq_txs a' \<union> set txs = {0, 1} \<and> aq_txs a' = {}"
proof -
  obtain txs p a' where eq: "aq_ExpireTransactions sample_heap (\<lambda>i. 10) 5 sample_queue = ((txs, p), a')"
    by (metis prod.exhaust)
  note C = aq_ExpireTransactions_correct [OF sample_queue_inv eq]
  have "aq_txs a' = {}" using C by (auto simp: isExpired_def sample_simps)
  moreover from this have "readyTx a' = None" by (simp add: aq_txs_def)
  ultimately show ?thesis using C eq by (auto simp: sample_queue_def aq_txs_def)
qed

theorem unaffordable_ready_is_lost_witness:
  "\<exists>h' n d a'. updateCurrentNonceBalance sample_heap None (Some 3) sample_queue = ((h', n, Some 0, d), a') \<and>
     0 \<notin> aq_txs a' \<and> 0 \<notin> set d"
proof -
  obtain h' n p d a' where eq:
      "updateCurrentNonceBalance sample_heap None (Some 3) sample_queue = ((h', n, p, d), a')"
    by (metis prod_cases5 prod.exhaust)
  have "p = Some 0 \<and> 0 \<notin> aq_txs a' \<and> 0 \<notin> set d"
    by (rule unaffordable_ready_is_lost [OF sample_queue_inv _ _ _ eq])
      (simp_all add: sample_queue_def sample_simps)
  with eq show ?thesis by blast
qed

theorem unaffordable_overwrites_silently_witness:
  "\<exists>a'. addTx (sample_trackers (\<lambda>r. 0) (\<lambda>r. 9 - int r) (\<lambda>r. 5)) 1 sample_waiting =
       ((None, None, None, None), a') \<and> 0 \<notin> aq_txs a'"
  using unaffordable_overwrites_silently [OF sample_waiting_inv, of 0 1]
  by (force simp: sample_waiting_def sample_simps)

end
