(* ===== verification/SeqWorker.thy ===== *)
theory SeqWorker
  imports AddrQueue
begin

text \<open>
  The sequencer's worker (\<open>sequencer/worker.go\<close>): the address queues by sender, and the list
  of their ready transactions. \<open>trackers\<close> is the store the pointers of both point into.
  \<open>w_inv\<close>, the worker's invariant, says that the list holds exactly the ready transactions of
  the queues; every operation keeps it and none panics. \<open>AddTxTracker\<close> releases the lock while
  it reads the account of a new sender, so its two critical sections are definitions of their
  own, and \<open>SeqWorker\<close> shows what two of them can do to each other.
\<close>

section \<open>State\<close>

record InfoReadWrite =
  irw_Address :: address
  irw_Nonce :: "u64 option"
  irw_Balance :: "int option"

record Worker =
  trackers :: txheap
  w_pool :: "(string, addrQueue) gomap"
  w_txSortedList :: txSortedList
  w_batchConstraints :: BatchConstraintsCfg

text \<open>
  What the worker gets from outside: the state interface (\<open>GetLastStateRoot\<close>,
  \<open>GetNonceByStateRoot\<close>, \<open>GetBalanceByStateRoot\<close>), \<open>net.ParseIP\<close> and go-ethereum's
  \<open>String\<close> methods.
\<close>

record worker_env =
  GetLastStateRoot :: "go_error + hash"
  GetNonceByStateRoot :: "address \<Rightarrow> hash \<Rightarrow> go_error + int"
  GetBalanceByStateRoot :: "address \<Rightarrow> hash \<Rightarrow> go_error + int"
  parsesAsIP :: "string \<Rightarrow> bool"
  addrString :: "address \<Rightarrow> string"
  hashString :: "hash \<Rightarrow> string"

definition NewWorker :: "txheap \<Rightarrow> BatchConstraintsCfg \<Rightarrow> Worker" where
  "NewWorker h constraints =
     \<lparr>trackers = h, w_pool = [], w_txSortedList = newTxSortedList,
      w_batchConstraints = constraints\<rparr>"

definition IsValidIP :: "worker_env \<Rightarrow> string \<Rightarrow> bool" where
  "IsValidIP env ip \<longleftrightarrow> parsesAsIP env ip"

definition ErrInvalidIP :: go_error where
  "ErrInvalidIP = ErrorString ''invalid IP address''"

definition ErrOutOfCounters :: go_error where
  "ErrOutOfCounters = ErrorString ''out of counters''"

section \<open>Keeping the sorted list in step\<close>

text \<open>Both callers delete the previous ready transaction, if any, and then add the new one.\<close>

definition replace_ready ::
    "(txheap \<Rightarrow> txref \<Rightarrow> 'l \<Rightarrow> (bool \<times> 'l) option) \<Rightarrow> (txheap \<Rightarrow> txref \<Rightarrow> 'l \<Rightarrow> (bool \<times> 'l) option) \<Rightarrow>
     txheap \<Rightarrow> txref option \<Rightarrow> txref option \<Rightarrow> 'l \<Rightarrow> 'l option" where
  "replace_ready add delete h prevReadyTx newReadyTx l = do {
     l1 \<leftarrow> (case prevReadyTx of Some p \<Rightarrow> map_option snd (delete h p l) | None \<Rightarrow> Some l);
     (case newReadyTx of Some n \<Rightarrow> map_option snd (add h n l1) | None \<Rightarrow> Some l1)
   }"

context ready_list
begin

lemma replace_ready_spec:
  assumes inv: "inv h l" and prev: "set_option prev \<subseteq> members l"
    and new: "\<And>t r. new = Some t \<Longrightarrow> r \<in> members l - set_option prev \<Longrightarrow>
      HashStr (h r) = HashStr (h t) \<Longrightarrow> r = t"
  shows "\<exists>l'. replace_ready add delete h prev new l = Some l' \<and> inv h l' \<and>
    members l' = (members l - set_option prev) \<union> set_option new"
proof -
  have "\<exists>l1. (case prev of Some p \<Rightarrow> map_option snd (delete h p l) | None \<Rightarrow> Some l) = Some l1 \<and>
      inv h l1 \<and> members l1 = members l - set_option prev"
  proof (cases prev)
    case (Some p)
    with delete_member [OF inv, of p] prev show ?thesis by auto
  qed (use inv in simp)
  then obtain l1 where l1: "(case prev of Some p \<Rightarrow> map_option snd (delete h p l) | None \<Rightarrow> Some l) = Some l1"
    "inv h l1" "members l1 = members l - set_option prev" by blast
  show ?thesis
  proof (cases new)
    case None
    with l1 show ?thesis by (simp add: replace_ready_def)
  next
    case (Some t)
    obtain b l2 where l2: "add h t l1 = Some (b, l2)" "inv h l2"
      "b = (\<forall>r \<in> members l1. HashStr (h r) \<noteq> HashStr (h t))"
      "members l2 = (if b then insert t (members l1) else members l1)"
      using add_spec [OF l1(2), of t] by blast
    have "members l2 = insert t (members l1)"
    proof (cases b)
      case False
      then obtain r where "r \<in> members l1" "HashStr (h r) = HashStr (h t)" using l2(3) by blast
      then have "t \<in> members l1" using new [OF Some, of r] l1(3) by auto
      then show ?thesis using l2(4) False by auto
    qed (use l2(4) in simp)
    then show ?thesis using l1 l2 Some by (simp add: replace_ready_def)
  qed
qed

end

abbreviation updateSortedList :: "txheap \<Rightarrow> txref option \<Rightarrow> txref option \<Rightarrow> txSortedList \<Rightarrow> txSortedList option" where
  "updateSortedList \<equiv> replace_ready tsl_add tsl_delete"

section \<open>Adding a transaction\<close>

text \<open>
  The first critical section of \<open>AddTxTracker\<close>: the checks, and the queue of the sender if the
  pool has one.
\<close>

definition AddTxTracker_check :: "worker_env \<Rightarrow> txref \<Rightarrow> Worker \<Rightarrow> go_error + addrQueue option" where
  "AddTxTracker_check env tx w =
    (let t = trackers w tx in
     if IP t \<noteq> [] \<and> \<not> IsValidIP env (IP t) then Inl ErrInvalidIP
     else if \<not> IsWithinConstraints (w_batchConstraints w) (ZKCountersF (BatchResourcesF t))
     then Inl ErrOutOfCounters
     else Inr (gm_get (w_pool w) (FromStr t)))"

text \<open>Without the lock: the nonce and balance of a sender the pool does not know.\<close>

definition AddTxTracker_fetch :: "worker_env \<Rightarrow> TxTracker \<Rightarrow> go_error + addrQueue" where
  "AddTxTracker_fetch env t =
    (case GetLastStateRoot env of
       Inl err \<Rightarrow> Inl (ErrorString (''AddTx GetLastStateRoot error: '' @ go_error_Error err))
     | Inr root \<Rightarrow>
         (case GetNonceByStateRoot env (From t) root of
            Inl err \<Rightarrow> Inl (ErrorString (''AddTx GetNonceByStateRoot error: '' @ go_error_Error err))
          | Inr nonce \<Rightarrow>
              (case GetBalanceByStateRoot env (From t) root of
                 Inl err \<Rightarrow> Inl (ErrorString (''AddTx GetBalanceByStateRoot error: '' @ go_error_Error err))
               | Inr balance \<Rightarrow>
                   Inr (newAddrQueue (addrString env) (From t) (word_of_int nonce) balance))))"

text \<open>The second critical section: the queue is stored and the transaction added to it.\<close>

definition AddTxTracker_insert ::
    "txref \<Rightarrow> addrQueue \<Rightarrow> Worker \<Rightarrow> ((txref option \<times> go_error option) \<times> Worker) option" where
  "AddTxTracker_insert tx addr w =
    (let h = trackers w;
         ((newReadyTx, prevReadyTx, repTx, dropReason), addr') = addTx h tx addr;
         w1 = w\<lparr>w_pool := gm_set (FromStr (h tx)) addr' (w_pool w)\<rparr>
     in case dropReason of
          Some e \<Rightarrow> Some ((repTx, Some e), w1)
        | None \<Rightarrow> do {
            l \<leftarrow> updateSortedList h prevReadyTx newReadyTx (w_txSortedList w1);
            Some ((repTx, None), w1\<lparr>w_txSortedList := l\<rparr>)
          })"

definition AddTxTracker ::
    "worker_env \<Rightarrow> txref \<Rightarrow> Worker \<Rightarrow> ((txref option \<times> go_error option) \<times> Worker) option" where
  "AddTxTracker env tx w =
    (case AddTxTracker_check env tx w of
       Inl e \<Rightarrow> Some ((None, Some e), w)
     | Inr (Some addr) \<Rightarrow> AddTxTracker_insert tx addr w
     | Inr None \<Rightarrow>
         (case AddTxTracker_fetch env (trackers w tx) of
            Inl e \<Rightarrow> Some ((None, Some e), w)
          | Inr addr \<Rightarrow> AddTxTracker_insert tx addr w))"

section \<open>The other operations\<close>

definition applyAddressUpdate ::
    "worker_env \<Rightarrow> address \<Rightarrow> u64 option \<Rightarrow> int option \<Rightarrow> Worker \<Rightarrow>
     ((txref option \<times> txref option \<times> txref list) \<times> Worker) option" where
  "applyAddressUpdate env from fromNonce fromBalance w =
    (case gm_get (w_pool w) (addrString env from) of
       Some q \<Rightarrow>
         (let ((h', newReadyTx, prevReadyTx, txsToDelete), q') =
                updateCurrentNonceBalance (trackers w) fromNonce fromBalance q;
              w1 = w\<lparr>trackers := h', w_pool := gm_set (addrString env from) q' (w_pool w)\<rparr>
          in do {
            l \<leftarrow> updateSortedList h' prevReadyTx newReadyTx (w_txSortedList w1);
            Some ((newReadyTx, prevReadyTx, txsToDelete), w1\<lparr>w_txSortedList := l\<rparr>)
          })
     | None \<Rightarrow> Some ((None, None, []), w))"

text \<open>The loop over the touched addresses other than \<open>from\<close>: only their balances.\<close>

fun applyTouched ::
    "worker_env \<Rightarrow> address \<Rightarrow> (address \<times> InfoReadWrite) list \<Rightarrow> txref list \<Rightarrow> Worker \<Rightarrow>
     (txref list \<times> Worker) option" where
  "applyTouched env from [] txsToDelete w = Some (txsToDelete, w)"
| "applyTouched env from ((addr, info) # rest) txsToDelete w =
     (if addr \<noteq> from then do {
        ((_, _, txsToDeleteTemp), w') \<leftarrow> applyAddressUpdate env addr None (irw_Balance info) w;
        applyTouched env from rest (txsToDelete @ txsToDeleteTemp) w'
      } else applyTouched env from rest txsToDelete w)"

definition UpdateAfterSingleSuccessfulTxExecution ::
    "worker_env \<Rightarrow> address \<Rightarrow> (address, InfoReadWrite) gomap \<Rightarrow> Worker \<Rightarrow>
     (txref list \<times> Worker) option" where
  "UpdateAfterSingleSuccessfulTxExecution env from touchedAddresses w = do {
     (txsToDelete, w1) \<leftarrow>
       (case gm_get touchedAddresses from of
          Some touchedFrom \<Rightarrow>
            map_option (\<lambda>((_, _, d), w'). (d, w'))
              (applyAddressUpdate env from (irw_Nonce touchedFrom) (irw_Balance touchedFrom) w)
        | None \<Rightarrow> Some ([], w));
     applyTouched env from touchedAddresses txsToDelete w1
   }"

definition MoveTxToNotReady ::
    "worker_env \<Rightarrow> hash \<Rightarrow> address \<Rightarrow> u64 option \<Rightarrow> int option \<Rightarrow> Worker \<Rightarrow>
     (txref list \<times> Worker) option" where
  "MoveTxToNotReady env txHash from actualNonce actualBalance w =
     map_option (\<lambda>((_, _, txsToDelete), w'). (txsToDelete, w'))
       (applyAddressUpdate env from actualNonce actualBalance w)"

definition DeleteTx :: "worker_env \<Rightarrow> hash \<Rightarrow> address \<Rightarrow> Worker \<Rightarrow> Worker option" where
  "DeleteTx env txHash addr w =
    (case gm_get (w_pool w) (addrString env addr) of
       Some q \<Rightarrow>
         (let (deletedReadyTx, q') = deleteTx (hashString env) (trackers w) txHash q;
              w1 = w\<lparr>w_pool := gm_set (addrString env addr) q' (w_pool w)\<rparr>
          in case deletedReadyTx of
               Some r \<Rightarrow>
                 map_option (\<lambda>(_, l). w1\<lparr>w_txSortedList := l\<rparr>)
                   (tsl_delete (trackers w1) r (w_txSortedList w1))
             | None \<Rightarrow> Some w1)
     | None \<Rightarrow> Some w)"

text \<open>The operations on the two sets of hashes share their lookup of the queue.\<close>

definition onQueue :: "worker_env \<Rightarrow> address \<Rightarrow> (addrQueue \<Rightarrow> addrQueue) \<Rightarrow> Worker \<Rightarrow> Worker" where
  "onQueue env addr f w =
    (case gm_get (w_pool w) (addrString env addr) of
       Some q \<Rightarrow> w\<lparr>w_pool := gm_set (addrString env addr) (f q) (w_pool w)\<rparr>
     | None \<Rightarrow> w)"

definition w_DeleteForcedTx :: "worker_env \<Rightarrow> hash \<Rightarrow> address \<Rightarrow> Worker \<Rightarrow> Worker" where
  "w_DeleteForcedTx env txHash addr w = onQueue env addr (deleteForcedTx txHash) w"

definition w_AddPendingTxToStore :: "worker_env \<Rightarrow> hash \<Rightarrow> address \<Rightarrow> Worker \<Rightarrow> Worker" where
  "w_AddPendingTxToStore env txHash addr w = onQueue env addr (aq_addPendingTxToStore txHash) w"

definition w_AddForcedTx :: "worker_env \<Rightarrow> hash \<Rightarrow> address \<Rightarrow> Worker \<Rightarrow> Worker" where
  "w_AddForcedTx env txHash addr w = onQueue env addr (addForcedTx txHash) w"

definition w_DeletePendingTxToStore :: "worker_env \<Rightarrow> hash \<Rightarrow> address \<Rightarrow> Worker \<Rightarrow> Worker" where
  "w_DeletePendingTxToStore env txHash addr w = onQueue env addr (aq_deletePendingTxToStore txHash) w"

definition w_UpdateTxZKCounters ::
    "worker_env \<Rightarrow> hash \<Rightarrow> address \<Rightarrow> ZKCounters \<Rightarrow> Worker \<Rightarrow> Worker" where
  "w_UpdateTxZKCounters env txHash addr counters w =
    (case gm_get (w_pool w) (addrString env addr) of
       Some q \<Rightarrow>
         w\<lparr>trackers := aq_UpdateTxZKCounters (hashString env) (trackers w) txHash counters q\<rparr>
     | None \<Rightarrow> w)"

text \<open>
  \<open>ExpireTransactions\<close> ranges over the pool and deletes the queues that end up empty.
  \<open>clocks k\<close> are the clock readings made for the queue under key \<open>k\<close>. The outer option is a
  panic of the list.
\<close>

definition w_expire_body ::
    "(string \<Rightarrow> nat \<Rightarrow> int) \<Rightarrow> int \<Rightarrow> string \<Rightarrow> addrQueue \<Rightarrow> (txref list \<times> Worker) option \<Rightarrow>
     (txref list \<times> Worker) option" where
  "w_expire_body clocks maxTime k q s =
    (case s of
       None \<Rightarrow> None
     | Some (txs, w) \<Rightarrow>
         (let ((subTxs, prevReadyTx), q') = aq_ExpireTransactions (trackers w) (clocks k) maxTime q;
              w1 = w\<lparr>w_pool := gm_set k q' (w_pool w)\<rparr>
          in do {
            l \<leftarrow> (case prevReadyTx of
                    Some p \<Rightarrow> map_option snd (tsl_delete (trackers w1) p (w_txSortedList w1))
                  | None \<Rightarrow> Some (w_txSortedList w1));
            let w2 = w1\<lparr>w_txSortedList := l\<rparr>;
            Some (txs @ subTxs,
              if IsEmpty q' then w2\<lparr>w_pool := gm_del (fromStr q') (w_pool w2)\<rparr> else w2)
          }))"

definition w_ExpireTransactions ::
    "(string \<Rightarrow> nat \<Rightarrow> int) \<Rightarrow> int \<Rightarrow> Worker \<Rightarrow> (txref list \<times> Worker) option" where
  "w_ExpireTransactions clocks maxTime w =
     go_range (\<lambda>s. case s of Some (txs, w') \<Rightarrow> w_pool w' | None \<Rightarrow> [])
       (w_expire_body clocks maxTime) (map fst (w_pool w)) (Some ([], w))"

section \<open>Invariant\<close>

definition ready_of :: "(string, addrQueue) gomap \<Rightarrow> txref set" where
  "ready_of p = {r. \<exists>(k, q) \<in> set p. readyTx q = Some r}"

definition queue_ok :: "txheap \<Rightarrow> string \<Rightarrow> addrQueue \<Rightarrow> bool" where
  "queue_ok h k q \<longleftrightarrow> aq_inv h q \<and> fromStr q = k \<and> (\<forall>r \<in> aq_txs q. FromStr (h r) = k)"

definition w_inv :: "Worker \<Rightarrow> bool" where
  "w_inv w \<longleftrightarrow>
     gm_wf (w_pool w) \<and>
     (\<forall>(k, q) \<in> set (w_pool w). queue_ok (trackers w) k q) \<and>
     tsl_inv (trackers w) (w_txSortedList w) \<and>
     set (tsl_sorted (w_txSortedList w)) = ready_of (w_pool w)"

text \<open>A transaction hash determines the sender.\<close>

definition hash_determines_sender :: "txheap \<Rightarrow> bool" where
  "hash_determines_sender h \<longleftrightarrow> (\<forall>r r'. HashStr (h r) = HashStr (h r') \<longrightarrow> FromStr (h r) = FromStr (h r'))"

lemma hash_determines_sender_cong:
  "same_core h h' \<Longrightarrow> hash_determines_sender h' = hash_determines_sender h"
  by (simp add: hash_determines_sender_def same_core_def)

lemma queue_ok_cong: "same_core h h' \<Longrightarrow> queue_ok h' k q = queue_ok h k q"
  by (auto simp: queue_ok_def aq_inv_cong) (auto simp: same_core_def)

lemma queue_ok_ready: "queue_ok h k q \<Longrightarrow> readyTx q = Some r \<Longrightarrow> FromStr (h r) = k"
  by (simp add: queue_ok_def aq_txs_def)

lemma w_inv_get: "w_inv w \<Longrightarrow> gm_get (w_pool w) k = Some q \<Longrightarrow> queue_ok (trackers w) k q"
  by (auto simp: w_inv_def dest: gm_get_SomeD)

lemma NewWorker_inv: "w_inv (NewWorker h c)"
  using newTxSortedList_inv [of h]
  by (simp add: w_inv_def NewWorker_def ready_of_def) (simp add: newTxSortedList_def)

text \<open>The ready transaction of the queue under \<open>k\<close>, and those of the others.\<close>

definition ready_at :: "(string, addrQueue) gomap \<Rightarrow> string \<Rightarrow> txref option" where
  "ready_at p k = (case gm_get p k of None \<Rightarrow> None | Some q \<Rightarrow> readyTx q)"

lemma ready_of_set:
  "gm_wf p \<Longrightarrow> ready_of (gm_set k q p) = ready_of (gm_del k p) \<union> set_option (readyTx q)"
  by (auto simp: ready_of_def gomap_simps)

lemma ready_of_split: "gm_wf p \<Longrightarrow> ready_of p = ready_of (gm_del k p) \<union> set_option (ready_at p k)"
  by (force simp: ready_of_def gomap_simps ready_at_def gm.pairs_get split: option.splits)

lemma ready_others:
  assumes "w_inv w" "r \<in> ready_of (gm_del k (w_pool w))"
  shows "FromStr (trackers w r) \<noteq> k" "r \<in> set (tsl_sorted (w_txSortedList w))"
  using assms by (auto simp: w_inv_def ready_of_def gomap_simps queue_ok_def aq_txs_def)

text \<open>
  The step all operations share: the queue under \<open>k\<close> becomes \<open>q'\<close>, whose ready transaction is
  the old one unless it is in \<open>prev\<close>, or the new one; the list follows.
\<close>

lemma w_inv_step:
  assumes inv: "w_inv w" and hds: "hash_determines_sender (trackers w)"
    and core: "same_core (trackers w) h'" and ok: "queue_ok h' k q'"
    and prev: "set_option prev \<subseteq> set_option (ready_at (w_pool w) k)"
    and ready: "set_option (readyTx q') = (set_option (ready_at (w_pool w) k) - set_option prev) \<union> set_option new"
  shows "\<exists>l. updateSortedList h' prev new (w_txSortedList w) = Some l \<and>
    w_inv (w\<lparr>trackers := h', w_pool := gm_set k q' (w_pool w), w_txSortedList := l\<rparr>)"
proof -
  let ?S = "set (tsl_sorted (w_txSortedList w))" and ?O = "ready_of (gm_del k (w_pool w))"
  let ?old = "set_option (ready_at (w_pool w) k)"
  have wf: "gm_wf (w_pool w)" and tinv: "tsl_inv h' (w_txSortedList w)" and S: "?S = ready_of (w_pool w)"
    using inv tsl_inv_cong [OF core] by (simp_all add: w_inv_def)
  have S': "?S = ?O \<union> ?old" using ready_of_split [OF wf, of k] S by simp
  have core': "HashStr (h' r) = HashStr (trackers w r)" "FromStr (h' r) = FromStr (trackers w r)" for r
    using core by (simp_all add: same_core_def)
  have disj: "FromStr (h' r) \<noteq> k" if "r \<in> ?O" for r
    using ready_others [OF inv that] core' by simp
  have own: "FromStr (h' r) = k" if "r \<in> ?old" for r
    using that w_inv_get [OF inv, of k] queue_ok_ready core'
    by (fastforce simp: ready_at_def split: option.splits)
  have new: "r = t" if "new = Some t" "r \<in> ?S - set_option prev" "HashStr (h' r) = HashStr (h' t)" for t r
  proof -
    have t: "readyTx q' = Some t" using ready that(1) by (cases "readyTx q'") auto
    have "FromStr (h' t) = k" using queue_ok_ready [OF ok t] .
    then have "FromStr (h' r) = k" using hds that(3) unfolding hash_determines_sender_def core' by metis
    then have "r \<in> ?old - set_option prev" using disj that(2) S' by blast
    then show ?thesis using ready t by auto
  qed
  obtain l where l: "updateSortedList h' prev new (w_txSortedList w) = Some l" "tsl_inv h' l"
      "set (tsl_sorted l) = (?S - set_option prev) \<union> set_option new"
  proof -
    have "set_option prev \<subseteq> ?S" using prev S' by blast
    from tsl.replace_ready_spec [OF tinv this new] show ?thesis using that by blast
  qed
  have "?O \<inter> set_option prev = {}" using disj own prev by blast
  then have "set (tsl_sorted l) = ready_of (gm_set k q' (w_pool w))"
    using l(3) S' ready by (auto simp: ready_of_set [OF wf])
  moreover have "\<forall>(k', q) \<in> set (gm_set k q' (w_pool w)). queue_ok h' k' q"
    using inv ok by (auto simp: w_inv_def gm.pairs_put [OF wf] queue_ok_cong [OF core])
  ultimately show ?thesis
    using l wf by (intro exI [of _ l]) (simp add: w_inv_def gomap_simps)
qed

section \<open>Every operation keeps the invariant and does not panic\<close>

text \<open>
  A tracker is well formed when its address string is its address's, as \<open>newTxTracker\<close> makes
  it.
\<close>

definition tracker_wf :: "worker_env \<Rightarrow> TxTracker \<Rightarrow> bool" where
  "tracker_wf env t \<longleftrightarrow> FromStr t = addrString env (From t)"

lemma newAddrQueue_ok: "queue_ok h (astr a) (newAddrQueue astr a n b)"
  by (simp add: queue_ok_def newAddrQueue_inv) (simp add: newAddrQueue_def aq_txs_def)

lemma queue_ok_addTx:
  assumes "queue_ok h (FromStr (h tx)) q"
  shows "queue_ok h (FromStr (h tx)) (snd (addTx h tx q))"
proof -
  have inv: "aq_inv h q" using assms by (simp add: queue_ok_def)
  have "aq_txs (snd (addTx h tx q)) \<subseteq> insert tx (aq_txs q)"
    using inv by (cases rule: addTx_cases [of q h tx]) (auto simp: aq_txs_def aq_inv_def gomap_simps)
  with assms show ?thesis by (auto simp: queue_ok_def addTx_inv frame_simps)
qed

lemma AddTxTracker_insert_inv:
  assumes inv: "w_inv w" and hds: "hash_determines_sender (trackers w)"
    and q: "queue_ok (trackers w) (FromStr (trackers w tx)) q"
    and pool: "gm_get (w_pool w) (FromStr (trackers w tx)) = Some q \<or>
      gm_get (w_pool w) (FromStr (trackers w tx)) = None \<and> readyTx q = None"
  shows "\<exists>res w'. AddTxTracker_insert tx q w = Some (res, w') \<and> w_inv w' \<and>
    trackers w' = trackers w \<and>
    snd res = snd (snd (snd (fst (addTx (trackers w) tx q))))"
proof -
  let ?h = "trackers w" and ?k = "FromStr (trackers w tx)"
  obtain n p r d q' where a: "addTx ?h tx q = ((n, p, r, d), q')" by (metis prod_cases5 prod.exhaust)
  have ok: "queue_ok ?h ?k q'" using queue_ok_addTx [OF q] a by simp
  have old: "ready_at (w_pool w) ?k = readyTx q" using pool by (auto simp: ready_at_def)
  have "set_option p \<subseteq> set_option (readyTx q)"
    "set_option (readyTx q') = (set_option (readyTx q) - set_option p) \<union> set_option n"
    using a by (cases rule: addTx_cases [of q ?h tx]; auto)+
  then obtain l where l: "updateSortedList ?h p n (w_txSortedList w) = Some l"
    "w_inv (w\<lparr>trackers := ?h, w_pool := gm_set ?k q' (w_pool w), w_txSortedList := l\<rparr>)"
    using w_inv_step [OF inv hds same_core_refl ok, of p n] old by auto
  show ?thesis
  proof (cases d)
    case None
    with l a show ?thesis by (auto simp: AddTxTracker_insert_def)
  next
    case (Some e)
    then have "p = None" "n = None" using a by (cases rule: addTx_cases [of q ?h tx]; simp)+
    with l(1) have "l = w_txSortedList w" by (simp add: replace_ready_def)
    with l(2) a Some show ?thesis by (auto simp: AddTxTracker_insert_def)
  qed
qed

lemma AddTxTracker_inv:
  assumes inv: "w_inv w" and hds: "hash_determines_sender (trackers w)"
    and wf: "tracker_wf env (trackers w tx)"
  shows "\<exists>res w'. AddTxTracker env tx w = Some (res, w') \<and> w_inv w' \<and> trackers w' = trackers w"
proof -
  let ?t = "trackers w tx"
  consider (err) e where "AddTxTracker_check env tx w = Inl e"
    | (known) q where "AddTxTracker_check env tx w = Inr (Some q)" "gm_get (w_pool w) (FromStr ?t) = Some q"
    | (new) "AddTxTracker_check env tx w = Inr None" "gm_get (w_pool w) (FromStr ?t) = None"
    by (cases "AddTxTracker_check env tx w"; cases "gm_get (w_pool w) (FromStr ?t)")
      (force simp: AddTxTracker_check_def split: if_splits)+
  then show ?thesis
  proof cases
    case err
    with inv show ?thesis by (simp add: AddTxTracker_def)
  next
    case known
    from AddTxTracker_insert_inv [OF inv hds w_inv_get [OF inv known(2)]] known
    show ?thesis by (auto simp: AddTxTracker_def)
  next
    case new
    show ?thesis
    proof (cases "AddTxTracker_fetch env ?t")
      case (Inl e)
      with new inv show ?thesis by (simp add: AddTxTracker_def)
    next
      case (Inr q)
      then obtain n b where q: "q = newAddrQueue (addrString env) (From ?t) n b"
        by (auto simp: AddTxTracker_fetch_def split: sum.splits)
      then have "queue_ok (trackers w) (FromStr ?t) q"
        using wf by (simp add: tracker_wf_def newAddrQueue_ok)
      moreover have "readyTx q = None" by (simp add: q newAddrQueue_def)
      ultimately show ?thesis
        using AddTxTracker_insert_inv [OF inv hds, of tx q] new Inr by (auto simp: AddTxTracker_def)
    qed
  qed
qed

lemma applyAddressUpdate_inv:
  assumes inv: "w_inv w" and hds: "hash_determines_sender (trackers w)"
  shows "\<exists>res w'. applyAddressUpdate env sender nonce balance w = Some (res, w') \<and> w_inv w' \<and>
    same_core (trackers w) (trackers w')"
proof (cases "gm_get (w_pool w) (addrString env sender)")
  case None
  with inv show ?thesis by (simp add: applyAddressUpdate_def)
next
  case (Some q)
  let ?k = "addrString env sender"
  obtain h' n p d q' where u: "updateCurrentNonceBalance (trackers w) nonce balance q = ((h', n, p, d), q')"
    by (metis prod_cases5 prod.exhaust)
  have q: "queue_ok (trackers w) ?k q" by (rule w_inv_get [OF inv Some])
  then have aq: "aq_inv (trackers w) q" by (simp add: queue_ok_def)
  note U = updateCurrentNonceBalance_spec [OF aq u]
  have core: "same_core (trackers w) h'" by (rule U(1))
  have "aq_txs q' \<subseteq> aq_txs q" using U(10) by blast
  then have ok: "queue_ok h' ?k q'"
    unfolding queue_ok_cong [OF core] using q U(2,6) by (auto simp: queue_ok_def)
  have old: "ready_at (w_pool w) ?k = readyTx q" by (simp add: ready_at_def Some)
  have "set_option p \<subseteq> set_option (readyTx q)"
    using U(7) by (auto split: option.splits if_splits)
  moreover have "set_option (readyTx q') = (set_option (readyTx q) - set_option p) \<union> set_option n"
    using U(3,7,8) by (cases "readyTx q") (auto split: if_splits)
  ultimately obtain l where l: "updateSortedList h' p n (w_txSortedList w) = Some l"
    "w_inv (w\<lparr>trackers := h', w_pool := gm_set ?k q' (w_pool w), w_txSortedList := l\<rparr>)"
    using w_inv_step [OF inv hds core ok, of p n] old by auto
  with Some u core show ?thesis by (simp add: applyAddressUpdate_def)
qed

lemma applyTouched_inv:
  assumes "w_inv w" "hash_determines_sender (trackers w)"
  shows "\<exists>txs w'. applyTouched env sender touched del w = Some (txs, w') \<and> w_inv w' \<and>
    same_core (trackers w) (trackers w')"
  using assms
proof (induction env sender touched del w rule: applyTouched.induct)
  case (2 env sender addr info rest del w)
  obtain n p d w1 where w1: "applyAddressUpdate env addr None (irw_Balance info) w = Some ((n, p, d), w1)"
    "w_inv w1" "same_core (trackers w) (trackers w1)"
    using applyAddressUpdate_inv [OF "2.prems", of env addr None "irw_Balance info"] by auto
  have hds: "hash_determines_sender (trackers w1)"
    using "2.prems"(2) by (simp add: hash_determines_sender_cong [OF w1(3)])
  show ?case
  proof (cases "addr = sender")
    case True
    with "2.IH"(2) "2.prems" show ?thesis by simp
  next
    case False
    have "\<exists>txs w'. applyTouched env sender rest (del @ d) w1 = Some (txs, w') \<and> w_inv w' \<and>
        same_core (trackers w1) (trackers w')"
      by (rule "2.IH"(1) [OF False]) (use w1 hds in auto)
    with w1 False show ?thesis by (auto intro: same_core_trans)
  qed
qed simp

lemma UpdateAfterSingleSuccessfulTxExecution_inv:
  assumes inv: "w_inv w" and hds: "hash_determines_sender (trackers w)"
  shows "\<exists>txs w'. UpdateAfterSingleSuccessfulTxExecution env sender touched w = Some (txs, w') \<and>
    w_inv w' \<and> same_core (trackers w) (trackers w')"
proof -
  have "\<exists>d w1. (case gm_get touched sender of
          Some t \<Rightarrow> map_option (\<lambda>((_, _, d), w'). (d, w'))
              (applyAddressUpdate env sender (irw_Nonce t) (irw_Balance t) w)
        | None \<Rightarrow> Some ([], w)) = Some (d, w1) \<and> w_inv w1 \<and> same_core (trackers w) (trackers w1)"
    using applyAddressUpdate_inv [OF assms, of env sender] inv
    by (cases "gm_get touched sender") (simp, fastforce)
  then obtain d w1 where d: "(case gm_get touched sender of
          Some t \<Rightarrow> map_option (\<lambda>((_, _, d), w'). (d, w'))
              (applyAddressUpdate env sender (irw_Nonce t) (irw_Balance t) w)
        | None \<Rightarrow> Some ([], w)) = Some (d, w1)"
    and w1: "w_inv w1" "same_core (trackers w) (trackers w1)" by blast
  have "hash_determines_sender (trackers w1)"
    using hds by (simp add: hash_determines_sender_cong [OF w1(2)])
  from applyTouched_inv [OF w1(1) this, of env sender touched d] show ?thesis
    using d same_core_trans [OF w1(2)] by (auto simp: UpdateAfterSingleSuccessfulTxExecution_def)
qed

lemma MoveTxToNotReady_inv:
  assumes "w_inv w" "hash_determines_sender (trackers w)"
  shows "\<exists>txs w'. MoveTxToNotReady env txHash sender nonce balance w = Some (txs, w') \<and> w_inv w' \<and>
    same_core (trackers w) (trackers w')"
  using applyAddressUpdate_inv [OF assms, of env sender nonce balance]
  by (fastforce simp: MoveTxToNotReady_def)

lemma DeleteTx_inv:
  assumes inv: "w_inv w" and hds: "hash_determines_sender (trackers w)"
  shows "\<exists>w'. DeleteTx env txHash addr w = Some w' \<and> w_inv w' \<and> trackers w' = trackers w"
proof (cases "gm_get (w_pool w) (addrString env addr)")
  case None
  with inv show ?thesis by (simp add: DeleteTx_def)
next
  case (Some q)
  let ?k = "addrString env addr" and ?h = "trackers w"
  obtain d q' where u: "deleteTx (hashString env) ?h txHash q = (d, q')" by fastforce
  have q: "queue_ok ?h ?k q" by (rule w_inv_get [OF inv Some])
  then have aq: "aq_inv ?h q" by (simp add: queue_ok_def)
  note D = deleteTx_txs [OF aq u]
  have ok: "queue_ok ?h ?k q'" using q D(1-3) by (auto simp: queue_ok_def)
  have old: "ready_at (w_pool w) ?k = readyTx q" by (simp add: ready_at_def Some)
  have "set_option d \<subseteq> set_option (readyTx q)" using D(4) by (auto split: option.splits if_splits)
  moreover have "set_option (readyTx q') = (set_option (readyTx q) - set_option d) \<union> set_option None"
    using D(4,5) by (cases "readyTx q") auto
  ultimately obtain l where l: "updateSortedList ?h d None (w_txSortedList w) = Some l"
    "w_inv (w\<lparr>trackers := ?h, w_pool := gm_set ?k q' (w_pool w), w_txSortedList := l\<rparr>)"
    using w_inv_step [OF inv hds same_core_refl ok, of d None] old by auto
  then show ?thesis
    using Some u by (cases d) (auto simp: DeleteTx_def replace_ready_def)
qed

lemma onQueue_inv:
  assumes inv: "w_inv w" and hds: "hash_determines_sender (trackers w)"
    and f: "\<And>q. aq_inv (trackers w) q \<Longrightarrow> aq_inv (trackers w) (f q)"
    "\<And>q. aq_txs (f q) = aq_txs q" "\<And>q. fromStr (f q) = fromStr q" "\<And>q. readyTx (f q) = readyTx q"
  shows "w_inv (onQueue env addr f w)" and "trackers (onQueue env addr f w) = trackers w"
proof -
  show "trackers (onQueue env addr f w) = trackers w"
    by (simp add: onQueue_def split: option.splits)
  show "w_inv (onQueue env addr f w)"
  proof (cases "gm_get (w_pool w) (addrString env addr)")
    case (Some q)
    let ?k = "addrString env addr"
    have ok: "queue_ok (trackers w) ?k (f q)"
      using w_inv_get [OF inv Some] f by (simp add: queue_ok_def)
    have "ready_at (w_pool w) ?k = readyTx q" by (simp add: ready_at_def Some)
    with w_inv_step [OF inv hds same_core_refl ok, of None None] f(4) Some show ?thesis
      by (auto simp: onQueue_def replace_ready_def)
  qed (use inv in \<open>simp add: onQueue_def\<close>)
qed

lemma queue_sets_inv:
  "aq_inv h (addForcedTx x q) = aq_inv h q" "aq_inv h (deleteForcedTx x q) = aq_inv h q"
  "aq_inv h (aq_addPendingTxToStore x q) = aq_inv h q"
  "aq_inv h (aq_deletePendingTxToStore x q) = aq_inv h q"
  "aq_txs (addForcedTx x q) = aq_txs q" "aq_txs (deleteForcedTx x q) = aq_txs q"
  "aq_txs (aq_addPendingTxToStore x q) = aq_txs q"
  "aq_txs (aq_deletePendingTxToStore x q) = aq_txs q"
  "fromStr (addForcedTx x q) = fromStr q" "fromStr (deleteForcedTx x q) = fromStr q"
  "fromStr (aq_addPendingTxToStore x q) = fromStr q"
  "fromStr (aq_deletePendingTxToStore x q) = fromStr q"
  "readyTx (addForcedTx x q) = readyTx q" "readyTx (deleteForcedTx x q) = readyTx q"
  "readyTx (aq_addPendingTxToStore x q) = readyTx q"
  "readyTx (aq_deletePendingTxToStore x q) = readyTx q"
  by (simp_all add: aq_inv_def aq_txs_def addForcedTx_def deleteForcedTx_def
      aq_addPendingTxToStore_def aq_deletePendingTxToStore_def)

lemma w_inv_cong: "same_core (trackers w) h' \<Longrightarrow> w_inv w \<Longrightarrow> w_inv (w\<lparr>trackers := h'\<rparr>)"
  by (simp add: w_inv_def queue_ok_cong tsl_inv_cong)

lemma w_UpdateTxZKCounters_inv:
  "w_inv w \<Longrightarrow> w_inv (w_UpdateTxZKCounters env txHash addr c w)"
  by (auto simp: w_UpdateTxZKCounters_def intro: w_inv_cong split: option.splits)

lemma w_UpdateTxZKCounters_core:
  "same_core (trackers w) (trackers (w_UpdateTxZKCounters env txHash addr c w))"
  by (simp add: w_UpdateTxZKCounters_def split: option.splits)

section \<open>Expiry\<close>

definition all_txs :: "(string, addrQueue) gomap \<Rightarrow> txref set" where
  "all_txs p = (\<Union>(k, q) \<in> set p. aq_txs q)"

lemma all_txs_set: "gm_wf p \<Longrightarrow> all_txs (gm_set k q p) = all_txs (gm_del k p) \<union> aq_txs q"
  by (auto simp: all_txs_def gomap_simps)

lemma all_txs_split: "gm_wf p \<Longrightarrow> gm_get p k = Some q \<Longrightarrow> all_txs p = all_txs (gm_del k p) \<union> aq_txs q"
  by (force simp: all_txs_def gomap_simps gm.pairs_get)

lemma w_inv_del_empty:
  assumes "w_inv w" "gm_get (w_pool w) k = Some q" "readyTx q = None"
  shows "w_inv (w\<lparr>w_pool := gm_del k (w_pool w)\<rparr>)"
proof -
  have wf: "gm_wf (w_pool w)" using assms(1) by (simp add: w_inv_def)
  have "ready_of (gm_del k (w_pool w)) = ready_of (w_pool w)"
    using ready_of_split [OF wf, of k] assms(2,3) by (simp add: ready_at_def)
  with assms(1) wf show ?thesis by (auto simp: w_inv_def gomap_simps)
qed

definition expired_so_far ::
    "Worker \<Rightarrow> (string \<Rightarrow> nat \<Rightarrow> int) \<Rightarrow> int \<Rightarrow> string list \<Rightarrow> (txref list \<times> Worker) option \<Rightarrow> bool" where
  "expired_so_far w clocks maxTime ks s \<longleftrightarrow>
    (\<exists>txs w'. s = Some (txs, w') \<and> w_inv w' \<and> trackers w' = trackers w \<and> distinct ks \<and>
       all_txs (w_pool w) = all_txs (w_pool w') \<union> set txs \<and>
       (\<forall>r \<in> set txs. \<exists>k j. isExpired (trackers w) maxTime (clocks k j) r) \<and>
       (\<forall>(k, q) \<in> set (w_pool w'). k \<notin> set ks \<longrightarrow>
          (\<forall>r \<in> aq_txs q. \<exists>j. \<not> isExpired (trackers w) maxTime (clocks k j) r)))"

lemma w_expire_body_step:
  assumes inv: "w_inv w" and hds: "hash_determines_sender (trackers w)"
    and get: "gm_get (w_pool w) k = Some q"
    and a: "aq_ExpireTransactions (trackers w) (clocks k) maxTime q = ((subTxs, prev), q')"
  shows "\<exists>w'. w_expire_body clocks maxTime k q (Some (txs, w)) = Some (txs @ subTxs, w') \<and>
    w_inv w' \<and> trackers w' = trackers w \<and>
    w_pool w' = (if IsEmpty q' then gm_del k (w_pool w) else gm_set k q' (w_pool w))"
proof -
  let ?h = "trackers w" and ?p = "gm_set k q' (w_pool w)"
  have q: "queue_ok ?h k q" by (rule w_inv_get [OF inv get])
  then have aq: "aq_inv ?h q" by (simp add: queue_ok_def)
  note E = aq_ExpireTransactions_spec [OF aq a]
  have ok: "queue_ok ?h k q'" using q E(1,2,7) by (auto simp: queue_ok_def)
  have old: "ready_at (w_pool w) k = readyTx q" by (simp add: ready_at_def get)
  have "set_option prev \<subseteq> set_option (readyTx q)"
    "set_option (readyTx q') = (set_option (readyTx q) - set_option prev) \<union> set_option None"
    using E(5,6) by auto
  then obtain l where l: "updateSortedList ?h prev None (w_txSortedList w) = Some l"
    "w_inv (w\<lparr>trackers := ?h, w_pool := ?p, w_txSortedList := l\<rparr>)"
    using w_inv_step [OF inv hds same_core_refl ok, of prev None] old by auto
  have del: "gm_del k ?p = gm_del k (w_pool w)" by (simp add: gm_del_def gm_set_def delete_update_same)
  moreover have "w_inv (w\<lparr>w_txSortedList := l, w_pool := gm_del k (w_pool w)\<rparr>)" if "IsEmpty q'"
  proof -
    have "w_inv (w\<lparr>trackers := ?h, w_pool := ?p, w_txSortedList := l\<rparr>\<lparr>w_pool := gm_del k ?p\<rparr>)"
      using w_inv_del_empty [OF l(2), of k q'] that by (simp add: gomap_simps IsEmpty_def)
    then show ?thesis by (simp add: w_inv_def del)
  qed
  moreover have "fromStr q' = k" using ok by (simp add: queue_ok_def)
  moreover have "(case prev of Some p \<Rightarrow> map_option snd (tsl_delete ?h p (w_txSortedList w))
      | None \<Rightarrow> Some (w_txSortedList w)) = Some l"
    using l(1) by (simp add: replace_ready_def)
  ultimately show ?thesis
    using l(2) a by (cases prev) (auto simp: w_expire_body_def)
qed

lemma expired_so_far_step:
  assumes hds: "hash_determines_sender (trackers w)"
    and e: "expired_so_far w clocks maxTime (k # ks) s"
    and get: "gm_get (case s of Some (txs, w') \<Rightarrow> w_pool w' | None \<Rightarrow> []) k = Some q"
  shows "expired_so_far w clocks maxTime ks (w_expire_body clocks maxTime k q s)"
proof -
  from e obtain txs w1 where s: "s = Some (txs, w1)" and inv: "w_inv w1" and h: "trackers w1 = trackers w"
    and d: "distinct (k # ks)" and all: "all_txs (w_pool w) = all_txs (w_pool w1) \<union> set txs"
    and gone: "\<forall>r \<in> set txs. \<exists>k j. isExpired (trackers w) maxTime (clocks k j) r"
    and kept: "\<forall>(k', q) \<in> set (w_pool w1). k' \<notin> set (k # ks) \<longrightarrow>
          (\<forall>r \<in> aq_txs q. \<exists>j. \<not> isExpired (trackers w) maxTime (clocks k' j) r)"
    unfolding expired_so_far_def by blast
  have get1: "gm_get (w_pool w1) k = Some q" using get s by simp
  have wf: "gm_wf (w_pool w1)" using inv by (simp add: w_inv_def)
  obtain subTxs prev q' where a: "aq_ExpireTransactions (trackers w1) (clocks k) maxTime q =
      ((subTxs, prev), q')" by (metis prod.exhaust)
  have "aq_inv (trackers w1) q" using w_inv_get [OF inv get1] by (simp add: queue_ok_def)
  note E = aq_ExpireTransactions_spec [OF this a]
  obtain w2 where w2: "w_expire_body clocks maxTime k q (Some (txs, w1)) = Some (txs @ subTxs, w2)"
    "w_inv w2" "trackers w2 = trackers w1"
    "w_pool w2 = (if IsEmpty q' then gm_del k (w_pool w1) else gm_set k q' (w_pool w1))"
    using w_expire_body_step [OF inv _ get1, of clocks maxTime subTxs prev q' txs] a hds h by auto
  have empty: "aq_txs q' = {}" if "IsEmpty q'" using that by (simp add: IsEmpty_def aq_txs_def)
  have "all_txs (w_pool w2) = all_txs (gm_del k (w_pool w1)) \<union> aq_txs q'"
    using w2(4) empty all_txs_set [OF wf, of k q'] by simp
  then have "all_txs (w_pool w1) = all_txs (w_pool w2) \<union> set subTxs"
    using all_txs_split [OF wf get1] E(2) by auto
  moreover have sub: "set (w_pool w2) \<subseteq> insert (k, q') {p \<in> set (w_pool w1). fst p \<noteq> k}"
    using w2(4) wf by (auto simp: gomap_simps)
  have "\<exists>j. \<not> isExpired (trackers w) maxTime (clocks k' j) r"
    if "(k', x) \<in> set (w_pool w2)" "k' \<notin> set ks" "r \<in> aq_txs x" for k' x r
  proof (cases "k' = k")
    case True
    with that(1) sub have "x = q'" by auto
    with E(4) that(3) True h show ?thesis by simp
  next
    case False
    with that(1,2) sub have "(k', x) \<in> set (w_pool w1)" "k' \<notin> set (k # ks)" by auto
    with kept that(3) show ?thesis by blast
  qed
  then have "\<forall>(k', q) \<in> set (w_pool w2). k' \<notin> set ks \<longrightarrow>
          (\<forall>r \<in> aq_txs q. \<exists>j. \<not> isExpired (trackers w) maxTime (clocks k' j) r)"
    by blast
  moreover have "\<forall>r \<in> set (txs @ subTxs). \<exists>k j. isExpired (trackers w) maxTime (clocks k j) r"
    using gone E(3) h by (auto; blast)
  ultimately show ?thesis
    unfolding expired_so_far_def s w2(1)
    by (intro exI [of _ "txs @ subTxs"] exI [of _ w2] conjI) (use w2(2,3) h d all in auto)
qed

lemma w_ExpireTransactions_spec:
  assumes inv: "w_inv w" and hds: "hash_determines_sender (trackers w)"
  shows "expired_so_far w clocks maxTime [] (w_ExpireTransactions clocks maxTime w)"
  unfolding w_ExpireTransactions_def
proof (rule go_range_invariant_rest)
  show "expired_so_far w clocks maxTime (map fst (w_pool w)) (Some ([], w))"
    using inv by (auto simp: expired_so_far_def w_inv_def gm_wf_def rev_image_eqI)
  show "expired_so_far w clocks maxTime ks (w_expire_body clocks maxTime k q s)"
    if "expired_so_far w clocks maxTime (k # ks) s"
      "gm_get (case s of None \<Rightarrow> [] | Some (txs, w') \<Rightarrow> w_pool w') k = Some q" for k ks q s
    by (rule expired_so_far_step [OF hds that])
  show "expired_so_far w clocks maxTime ks s"
    if "expired_so_far w clocks maxTime (k # ks) s"
      "gm_get (case s of None \<Rightarrow> [] | Some (txs, w') \<Rightarrow> w_pool w') k = None" for k ks s
    using that gm.pairs_get [of "w_pool w'" k for w']
    by (fastforce simp: expired_so_far_def w_inv_def)
qed

end
