(* ===== verification/WorkerRuns.thy ===== *)
theory WorkerRuns
  imports SeqWorker
begin

text \<open>
  The worker as a state machine. \<open>worker_step\<close> has one rule per operation of
  \<open>sequencer/worker.go\<close>, each run as one critical section: these are the runs in which no two
  calls overlap, and in all of them the worker keeps its invariant and never panics.
  \<open>AddTxTracker\<close> is two critical sections, though. A second machine has them as turns of a
  thread: with one caller the invariant still holds whatever runs between the turns, with two
  it can be lost.
\<close>

section \<open>Steps and reachable states\<close>

inductive worker_step :: "worker_env \<Rightarrow> Worker \<Rightarrow> Worker \<Rightarrow> bool" for env where
  add: "AddTxTracker env tx w = Some (res, w') \<Longrightarrow> worker_step env w w'"
| executed: "UpdateAfterSingleSuccessfulTxExecution env sender touched w = Some (txs, w') \<Longrightarrow>
    worker_step env w w'"
| failed: "MoveTxToNotReady env txHash sender nonce balance w = Some (txs, w') \<Longrightarrow> worker_step env w w'"
| delete: "DeleteTx env txHash addr w = Some w' \<Longrightarrow> worker_step env w w'"
| forced_add: "worker_step env w (w_AddForcedTx env txHash addr w)"
| forced_delete: "worker_step env w (w_DeleteForcedTx env txHash addr w)"
| pending_add: "worker_step env w (w_AddPendingTxToStore env txHash addr w)"
| pending_delete: "worker_step env w (w_DeletePendingTxToStore env txHash addr w)"
| counters: "worker_step env w (w_UpdateTxZKCounters env txHash addr c w)"
| expire: "w_ExpireTransactions clocks maxTime w = Some (txs, w') \<Longrightarrow> worker_step env w w'"

inductive_cases worker_stepE: "worker_step env w w'"

definition runs_from :: "worker_env \<Rightarrow> txheap \<Rightarrow> BatchConstraintsCfg \<Rightarrow> Worker \<Rightarrow> bool" where
  "runs_from env h c w \<longleftrightarrow> (worker_step env)\<^sup>*\<^sup>* (NewWorker h c) w"

text \<open>
  What holds of the trackers of a run: the hash of a transaction determines its sender, and
  every tracker was built by \<open>newTxTracker\<close>, which fills \<open>FromStr\<close> from \<open>From\<close>.
\<close>

definition trackers_ok :: "worker_env \<Rightarrow> txheap \<Rightarrow> bool" where
  "trackers_ok env h \<longleftrightarrow> hash_determines_sender h \<and> (\<forall>r. tracker_wf env (h r))"

lemma trackers_ok_cong: "same_core h h' \<Longrightarrow> trackers_ok env h \<Longrightarrow> trackers_ok env h'"
  unfolding trackers_ok_def tracker_wf_def
  using hash_determines_sender_cong [of h h'] by (simp add: same_core_def)

lemma worker_step_inv:
  assumes "worker_step env w w'" "w_inv w" "trackers_ok env (trackers w)"
  shows "w_inv w' \<and> same_core (trackers w) (trackers w')"
proof -
  have hds: "hash_determines_sender (trackers w)" and wf: "\<And>r. tracker_wf env (trackers w r)"
    using assms(3) by (simp_all add: trackers_ok_def)
  note O = onQueue_inv [OF assms(2) hds]
  from assms(1) show ?thesis
  proof cases
    case (add tx res)
    then show ?thesis using AddTxTracker_inv [OF assms(2) hds wf, of tx] by auto
  next
    case (executed sender touched txs)
    then show ?thesis
      using UpdateAfterSingleSuccessfulTxExecution_inv [OF assms(2) hds, of env sender touched] by auto
  next
    case (failed txHash sender nonce balance txs)
    then show ?thesis
      using MoveTxToNotReady_inv [OF assms(2) hds, of env txHash sender nonce balance] by auto
  next
    case (delete txHash addr)
    then show ?thesis using DeleteTx_inv [OF assms(2) hds, of env txHash addr] by auto
  next
    case (counters txHash addr c)
    then show ?thesis using w_UpdateTxZKCounters_inv [OF assms(2)] w_UpdateTxZKCounters_core by simp
  next
    case (expire clocks maxTime txs)
    then show ?thesis
      using w_ExpireTransactions_spec [OF assms(2) hds, of clocks maxTime]
      by (auto simp: expired_so_far_def)
  qed (simp_all add: w_AddForcedTx_def w_DeleteForcedTx_def w_AddPendingTxToStore_def
      w_DeletePendingTxToStore_def O queue_sets_inv)
qed

lemma runs_from_inv:
  assumes "runs_from env h c w" "trackers_ok env h"
  shows "w_inv w \<and> same_core h (trackers w) \<and> trackers_ok env (trackers w)"
  using assms(1) unfolding runs_from_def
proof (induction rule: rtranclp_induct)
  case base
  show ?case using NewWorker_inv [of h c] assms(2) by (simp add: NewWorker_def)
next
  case (step w w')
  then have s: "w_inv w' \<and> same_core (trackers w) (trackers w')"
    using worker_step_inv [of env w w'] by blast
  with step.IH show ?case
    using same_core_trans [of h "trackers w" "trackers w'"]
      trackers_ok_cong [of "trackers w" "trackers w'" env] by blast
qed

text \<open>No operation panics in a reachable state.\<close>

lemma runs_never_panic:
  assumes "runs_from env h c w" "trackers_ok env h"
  shows "AddTxTracker env tx w \<noteq> None"
    and "UpdateAfterSingleSuccessfulTxExecution env sender touched w \<noteq> None"
    and "MoveTxToNotReady env txHash sender nonce balance w \<noteq> None"
    and "DeleteTx env txHash sender w \<noteq> None"
    and "w_ExpireTransactions clocks maxTime w \<noteq> None"
proof -
  have inv: "w_inv w" and ok: "trackers_ok env (trackers w)" using runs_from_inv [OF assms] by blast+
  then have hds: "hash_determines_sender (trackers w)" and wf: "\<And>r. tracker_wf env (trackers w r)"
    by (simp_all add: trackers_ok_def)
  show "AddTxTracker env tx w \<noteq> None" using AddTxTracker_inv [OF inv hds wf, of tx] by auto
  show "UpdateAfterSingleSuccessfulTxExecution env sender touched w \<noteq> None"
    using UpdateAfterSingleSuccessfulTxExecution_inv [OF inv hds, of env sender touched] by auto
  show "MoveTxToNotReady env txHash sender nonce balance w \<noteq> None"
    using MoveTxToNotReady_inv [OF inv hds, of env txHash sender nonce balance] by auto
  show "DeleteTx env txHash sender w \<noteq> None" using DeleteTx_inv [OF inv hds, of env txHash sender] by auto
  show "w_ExpireTransactions clocks maxTime w \<noteq> None"
    using w_ExpireTransactions_spec [OF inv hds, of clocks maxTime] by (auto simp: expired_so_far_def)
qed

section \<open>\<open>AddTxTracker\<close> in its two critical sections\<close>

text \<open>
  A call of \<open>AddTxTracker\<close> as a thread that shares the worker with others. Its first turn holds
  the lock up to where the code releases it: the call is over, with an error or with the
  transaction in the queue of a known sender, or the queue of a new sender has been fetched. Its
  second turn takes the lock again, stores that queue and adds the transaction. The fetch reads
  only the state, so it belongs to the first turn.
\<close>

datatype add_thread =
    Adding txref
  | Fetched txref addrQueue
  | Added "txref option \<times> go_error option"

definition AddTxTracker_turn :: "worker_env \<Rightarrow> add_thread \<Rightarrow> Worker \<Rightarrow> (add_thread \<times> Worker) option" where
  "AddTxTracker_turn env t w =
    (case t of
       Adding tx \<Rightarrow>
         (case AddTxTracker_check env tx w of
            Inl e \<Rightarrow> Some (Added (None, Some e), w)
          | Inr (Some addr) \<Rightarrow> map_option (\<lambda>(res, w'). (Added res, w')) (AddTxTracker_insert tx addr w)
          | Inr None \<Rightarrow>
              (case AddTxTracker_fetch env (trackers w tx) of
                 Inl e \<Rightarrow> Some (Added (None, Some e), w)
               | Inr addr \<Rightarrow> Some (Fetched tx addr, w)))
     | Fetched tx addr \<Rightarrow> map_option (\<lambda>(res, w'). (Added res, w')) (AddTxTracker_insert tx addr w)
     | Added res \<Rightarrow> Some (t, w))"

text \<open>The threads take their turns in the order of a schedule.\<close>

fun AddTxTracker_turns ::
    "worker_env \<Rightarrow> nat list \<Rightarrow> add_thread list \<times> Worker \<Rightarrow> (add_thread list \<times> Worker) option" where
  "AddTxTracker_turns env [] (ts, w) = Some (ts, w)"
| "AddTxTracker_turns env (i # is) (ts, w) = do {
     (t, w') \<leftarrow> AddTxTracker_turn env (ts ! i) w;
     AddTxTracker_turns env is (ts[i := t], w')
   }"

lemma added_thread:
  "(map_option (\<lambda>(res, w'). (Added res, w')) x \<bind> (\<lambda>(t, w'). Some ([t], w'))) =
     map_option (\<lambda>(res, w'). ([Added res], w')) x"
  by (cases x) auto

text \<open>A call whose two turns follow one another is the call run as a whole.\<close>

lemma turns_of_one_call:
  "AddTxTracker_turns env [0, 0] ([Adding tx], w) =
     map_option (\<lambda>(res, w'). ([Added res], w')) (AddTxTracker env tx w)"
proof (cases "AddTxTracker_check env tx w")
  case (Inl e)
  then show ?thesis by (simp add: AddTxTracker_turn_def AddTxTracker_def)
next
  case (Inr found)
  then show ?thesis
    by (cases found; cases "AddTxTracker_fetch env (trackers w tx)"; cases "AddTxTracker_insert tx (the found) w")
      (auto simp: AddTxTracker_turn_def AddTxTracker_def added_thread split: option.splits)
qed

text \<open>The operations of the worker that other threads run between the two turns.\<close>

inductive other_step :: "worker_env \<Rightarrow> Worker \<Rightarrow> Worker \<Rightarrow> bool" for env where
  "UpdateAfterSingleSuccessfulTxExecution env sender touched w = Some (txs, w') \<Longrightarrow> other_step env w w'"
| "MoveTxToNotReady env txHash sender nonce balance w = Some (txs, w') \<Longrightarrow> other_step env w w'"
| "DeleteTx env txHash addr w = Some w' \<Longrightarrow> other_step env w w'"
| "other_step env w (w_AddForcedTx env txHash addr w)"
| "other_step env w (w_DeleteForcedTx env txHash addr w)"
| "other_step env w (w_AddPendingTxToStore env txHash addr w)"
| "other_step env w (w_DeletePendingTxToStore env txHash addr w)"
| "other_step env w (w_UpdateTxZKCounters env txHash addr c w)"
| "w_ExpireTransactions clocks maxTime w = Some (txs, w') \<Longrightarrow> other_step env w w'"

lemma other_step_worker_step: "other_step env w w' \<Longrightarrow> worker_step env w w'"
  by (induction rule: other_step.induct) (rule worker_step.intros; assumption?)+

text \<open>None of them stores a queue for a sender that has none.\<close>

definition no_new_sender :: "Worker \<Rightarrow> Worker \<Rightarrow> bool" where
  "no_new_sender w w' \<longleftrightarrow> (\<forall>k. gm_get (w_pool w) k = None \<longrightarrow> gm_get (w_pool w') k = None)"

lemma no_new_sender_refl [simp]: "no_new_sender w w"
  by (simp add: no_new_sender_def)

lemma no_new_sender_trans: "no_new_sender w w1 \<Longrightarrow> no_new_sender w1 w2 \<Longrightarrow> no_new_sender w w2"
  by (simp add: no_new_sender_def)

lemma no_new_sender_put:
  "gm_get (w_pool w) k = Some q \<Longrightarrow> w_pool w' = gm_set k q' (w_pool w) \<Longrightarrow> no_new_sender w w'"
  by (auto simp: no_new_sender_def gomap_simps)

lemma applyAddressUpdate_senders:
  assumes "applyAddressUpdate env sender n b w = Some (res, w')"
  shows "no_new_sender w w'"
proof (cases "gm_get (w_pool w) (addrString env sender)")
  case None
  with assms show ?thesis by (simp add: applyAddressUpdate_def)
next
  case (Some q)
  obtain h' r p d q' where u: "updateCurrentNonceBalance (trackers w) n b q = ((h', r, p, d), q')"
    by (metis prod_cases5 prod.exhaust)
  from assms Some u have "w_pool w' = gm_set (addrString env sender) q' (w_pool w)"
    by (auto simp: applyAddressUpdate_def Let_def split: Option.bind_splits)
  with Some show ?thesis by (rule no_new_sender_put)
qed

lemma applyTouched_senders: "applyTouched env sender l txs w = Some (txs', w') \<Longrightarrow> no_new_sender w w'"
proof (induction env sender l txs w rule: applyTouched.induct)
  case (2 env sender addr info rest txs w)
  show ?case
  proof (cases "addr = sender")
    case True
    with 2 show ?thesis by simp
  next
    case False
    with "2.prems" obtain r p d w1
      where w1: "applyAddressUpdate env addr None (irw_Balance info) w = Some ((r, p, d), w1)"
        "applyTouched env sender rest (txs @ d) w1 = Some (txs', w')"
      by (auto split: Option.bind_splits)
    from "2.IH"(1) [OF False w1(1) refl refl refl w1(2)] applyAddressUpdate_senders [OF w1(1)]
    show ?thesis by (blast intro: no_new_sender_trans)
  qed
qed simp

lemma w_ExpireTransactions_senders:
  assumes "w_ExpireTransactions clocks maxTime w = Some (txs, w')"
  shows "no_new_sender w w'"
proof -
  let ?I = "\<lambda>s. \<forall>txs w'. s = Some (txs, w') \<longrightarrow> no_new_sender w w'"
  have body: "no_new_sender w w2"
    if s: "\<forall>txs w'. s = Some (txs, w') \<longrightarrow> no_new_sender w w'"
      and get: "gm_get (case s of Some (txs, w') \<Rightarrow> w_pool w' | None \<Rightarrow> []) k = Some q"
      and b: "w_expire_body clocks maxTime k q s = Some (txs, w2)" for k q s txs w2
  proof -
    obtain ts w1 where w1: "s = Some (ts, w1)" using b by (cases s) (auto simp: w_expire_body_def)
    obtain sub p q' where e: "aq_ExpireTransactions (trackers w1) (clocks k) maxTime q = ((sub, p), q')"
      by (metis prod.exhaust)
    have "w_pool w2 = gm_set k q' (w_pool w1) \<or> w_pool w2 = gm_del (fromStr q') (gm_set k q' (w_pool w1))"
      using b by (auto simp: w_expire_body_def w1 e Let_def split: Option.bind_splits if_splits option.splits)
    then have "no_new_sender w1 w2"
      using get w1 by (elim disjE) (auto simp: no_new_sender_def gomap_simps)
    with s w1 show ?thesis by (blast intro: no_new_sender_trans)
  qed
  have "?I (w_ExpireTransactions clocks maxTime w)"
    unfolding w_ExpireTransactions_def by (rule go_range_invariant) (use body in \<open>simp; blast\<close>)+
  with assms show ?thesis by blast
qed

lemma other_step_senders:
  assumes "other_step env w w'"
  shows "no_new_sender w w'"
  using assms
proof cases
  case (1 sender touched txs)
  then show ?thesis
    by (auto simp: UpdateAfterSingleSuccessfulTxExecution_def split: Option.bind_splits option.splits
        dest!: applyTouched_senders applyAddressUpdate_senders intro: no_new_sender_trans)
next
  case (2 txHash sender nonce balance txs)
  then show ?thesis by (auto simp: MoveTxToNotReady_def dest: applyAddressUpdate_senders)
next
  case (3 txHash addr)
  then show ?thesis
    by (auto simp: DeleteTx_def Let_def no_new_sender_put split: option.splits prod.splits)
next
  case (9 clocks maxTime txs)
  then show ?thesis by (blast dest: w_ExpireTransactions_senders)
qed (auto simp: w_AddForcedTx_def w_DeleteForcedTx_def w_AddPendingTxToStore_def w_DeletePendingTxToStore_def
    onQueue_def w_UpdateTxZKCounters_def no_new_sender_def gomap_simps split: option.splits)

text \<open>
  One loader that calls \<open>AddTxTracker\<close> again and again, as the database manager does, while the
  other operations run between its turns.
\<close>

inductive loader_step :: "worker_env \<Rightarrow> add_thread \<times> Worker \<Rightarrow> add_thread \<times> Worker \<Rightarrow> bool" for env where
  turn: "AddTxTracker_turn env t w = Some (t', w') \<Longrightarrow> loader_step env (t, w) (t', w')"
| call: "loader_step env (Added res, w) (Adding tx, w)"
| others: "other_step env w w' \<Longrightarrow> loader_step env (t, w) (t, w')"

definition loader_inv :: "worker_env \<Rightarrow> add_thread \<times> Worker \<Rightarrow> bool" where
  "loader_inv env s \<longleftrightarrow>
     (case s of (t, w) \<Rightarrow> w_inv w \<and> trackers_ok env (trackers w) \<and>
        (case t of
           Fetched tx q \<Rightarrow> gm_get (w_pool w) (FromStr (trackers w tx)) = None \<and> readyTx q = None \<and>
             queue_ok (trackers w) (FromStr (trackers w tx)) q
         | _ \<Rightarrow> True))"

lemma loader_step_inv:
  assumes "loader_step env s s'" "loader_inv env s"
  shows "loader_inv env s'"
  using assms
proof cases
  case (turn t w t' w')
  have inv: "w_inv w" and ok: "trackers_ok env (trackers w)" using assms(2) turn(1) by (simp_all add: loader_inv_def)
  then have hds: "hash_determines_sender (trackers w)" and wf: "\<And>r. tracker_wf env (trackers w r)"
    by (simp_all add: trackers_ok_def)
  have insert: "loader_inv env (Added res, w2)"
    if "AddTxTracker_insert tx q w = Some (res, w2)" "queue_ok (trackers w) (FromStr (trackers w tx)) q"
      "gm_get (w_pool w) (FromStr (trackers w tx)) = Some q \<or>
       gm_get (w_pool w) (FromStr (trackers w tx)) = None \<and> readyTx q = None" for tx q res w2
    using AddTxTracker_insert_inv [OF inv hds that(2,3)] that(1) ok by (auto simp: loader_inv_def)
  show ?thesis
  proof (cases t)
    case (Adding tx)
    have known: "gm_get (w_pool w) (FromStr (trackers w tx)) = found" if "AddTxTracker_check env tx w = Inr found" for found
      using that by (auto simp: AddTxTracker_check_def Let_def split: if_splits)
    have fetched: "readyTx q = None \<and> queue_ok (trackers w) (FromStr (trackers w tx)) q"
      if "AddTxTracker_fetch env (trackers w tx) = Inr q" for q
      using that wf [of tx] newAddrQueue_ok [of "trackers w" "addrString env"]
      by (auto simp: AddTxTracker_fetch_def tracker_wf_def newAddrQueue_def split: sum.splits)
    show ?thesis
    proof (cases "AddTxTracker_check env tx w")
      case (Inl e)
      with Adding turn inv ok show ?thesis by (auto simp: AddTxTracker_turn_def loader_inv_def)
    next
      case (Inr found)
      show ?thesis
      proof (cases found)
        case None
        with Adding turn inv ok Inr known [OF Inr] fetched show ?thesis
          by (auto simp: AddTxTracker_turn_def loader_inv_def split: sum.splits)
      next
        case (Some q)
        with Adding turn Inr obtain res where "AddTxTracker_insert tx q w = Some (res, w')" "t' = Added res"
          by (auto simp: AddTxTracker_turn_def)
        with insert w_inv_get [OF inv] known [OF Inr] Some turn show ?thesis by blast
      qed
    qed
  next
    case (Fetched tx q)
    with turn obtain res where "AddTxTracker_insert tx q w = Some (res, w')" "t' = Added res"
      by (auto simp: AddTxTracker_turn_def)
    moreover have "queue_ok (trackers w) (FromStr (trackers w tx)) q"
        "gm_get (w_pool w) (FromStr (trackers w tx)) = None \<and> readyTx q = None"
      using assms(2) turn(1) Fetched by (simp_all add: loader_inv_def)
    ultimately show ?thesis using insert turn by blast
  next
    case (Added res)
    with assms(2) turn show ?thesis by (simp add: AddTxTracker_turn_def)
  qed
next
  case (call res w tx)
  with assms(2) show ?thesis by (simp add: loader_inv_def)
next
  case (others w w' t)
  have inv: "w_inv w" and ok: "trackers_ok env (trackers w)" using assms(2) others(1) by (simp_all add: loader_inv_def)
  have w': "w_inv w'" "same_core (trackers w) (trackers w')"
    using worker_step_inv [OF other_step_worker_step [OF others(3)] inv ok] by blast+
  have same: "FromStr (trackers w' r) = FromStr (trackers w r)" for r
    using w'(2) by (simp add: same_core_def)
  show ?thesis
    using assms(2) others w' trackers_ok_cong [OF w'(2) ok] other_step_senders [OF others(3)] queue_ok_cong [OF w'(2)]
    by (cases t) (simp_all add: loader_inv_def no_new_sender_def same)
qed

lemma loader_turn_runs:
  assumes "loader_inv env (t, w)"
  shows "AddTxTracker_turn env t w \<noteq> None"
proof (cases t)
  case (Adding tx)
  have "AddTxTracker env tx w \<noteq> None"
    using AddTxTracker_inv [of w env tx] assms by (auto simp: loader_inv_def trackers_ok_def)
  with Adding show ?thesis by (auto simp: AddTxTracker_turn_def AddTxTracker_def split: sum.splits option.splits)
next
  case (Fetched tx q)
  then show ?thesis
    using AddTxTracker_insert_inv [of w tx q] assms by (auto simp: AddTxTracker_turn_def loader_inv_def trackers_ok_def)
qed (simp add: AddTxTracker_turn_def)

lemma loader_runs_inv:
  assumes "(loader_step env)\<^sup>*\<^sup>* s s'" "loader_inv env s"
  shows "loader_inv env s'"
  using assms by (induction rule: rtranclp_induct) (blast intro: loader_step_inv)+

section \<open>Properties\<close>

text \<open>
  C1. In every state the worker reaches from \<open>NewWorker\<close> by its operations, the sorted list
  holds exactly the ready transactions of the address queues, in order of gas price, every
  queue is consistent with its account, and no operation panics.
\<close>

theorem worker_always_consistent:
  assumes "runs_from env h c w" "trackers_ok env h"
  shows "w_inv w \<and> AddTxTracker env tx w \<noteq> None \<and>
    UpdateAfterSingleSuccessfulTxExecution env sender touched w \<noteq> None \<and>
    MoveTxToNotReady env txHash sender nonce balance w \<noteq> None \<and>
    DeleteTx env txHash sender w \<noteq> None \<and> w_ExpireTransactions clocks maxTime w \<noteq> None"
  using runs_never_panic [OF assms] runs_from_inv [OF assms] by (intro conjI) blast+

text \<open>
  Expiry over the whole pool: in a consistent worker, what is returned had expired at a
  clock reading made for its queue, what stays in the pool had not at one, no transaction is
  lost otherwise, and the sorted list follows.
\<close>

theorem w_ExpireTransactions_correct:
  assumes "w_inv w" "hash_determines_sender (trackers w)"
  shows "\<exists>txs w'. w_ExpireTransactions clocks maxTime w = Some (txs, w') \<and> w_inv w' \<and>
    all_txs (w_pool w) = all_txs (w_pool w') \<union> set txs \<and>
    (\<forall>r \<in> set txs. \<exists>k j. isExpired (trackers w) maxTime (clocks k j) r) \<and>
    (\<forall>(k, q) \<in> set (w_pool w'). \<forall>r \<in> aq_txs q. \<exists>j. \<not> isExpired (trackers w) maxTime (clocks k j) r)"
  using w_ExpireTransactions_spec [OF assms, of clocks maxTime]
  unfolding expired_so_far_def by (elim exE conjE) (intro exI conjI; simp)

text \<open>
  \<open>AddTxTracker\<close> refuses a transaction with a malformed IP address, or with counters
  beyond the batch constraints, before it looks at the pool, and leaves the worker unchanged.
\<close>

theorem AddTxTracker_refuses:
  assumes "IP (trackers w tx) \<noteq> [] \<and> \<not> parsesAsIP env (IP (trackers w tx)) \<or>
    \<not> IsWithinConstraints (w_batchConstraints w) (ZKCountersF (BatchResourcesF (trackers w tx)))"
  shows "\<exists>e \<in> {ErrInvalidIP, ErrOutOfCounters}. AddTxTracker env tx w = Some ((None, Some e), w)"
  using assms by (auto simp: AddTxTracker_def AddTxTracker_check_def IsValidIP_def)

text \<open>The account of the sample trackers' sender: nonce 0, balance 100.\<close>

definition sample_env :: worker_env where
  "sample_env = \<lparr>GetLastStateRoot = Inr 0, GetNonceByStateRoot = (\<lambda>a r. Inr 0),
     GetBalanceByStateRoot = (\<lambda>a r. Inr 100), parsesAsIP = (\<lambda>s. False),
     addrString = (\<lambda>a. ''0x01''), hashString = (\<lambda>x. replicate (unat x) (CHR ''h''))\<rparr>"

definition sample_constraints :: BatchConstraintsCfg where
  "sample_constraints = \<lparr>MaxTxsPerBatch = 300, MaxBatchBytesSize = 120000, MaxCumulativeGasUsed = 30000000,
     MaxKeccakHashes = 2145, MaxPoseidonHashes = 252357, MaxPoseidonPaddings = 135191,
     MaxMemAligns = 236585, MaxArithmetics = 236585, MaxBinaries = 473170, MaxSteps = 7570538\<rparr>"

lemma sample_trackers_ok: "trackers_ok sample_env sample_heap"
  by (simp add: trackers_ok_def hash_determines_sender_def tracker_wf_def sample_env_def sample_simps)

theorem worker_always_consistent_witness:
  "\<exists>res w. AddTxTracker sample_env 0 (NewWorker sample_heap sample_constraints) = Some (res, w) \<and>
     w_inv w \<and> AddTxTracker sample_env 1 w \<noteq> None"
proof -
  let ?w0 = "NewWorker sample_heap sample_constraints"
  have r0: "runs_from sample_env sample_heap sample_constraints ?w0" by (simp add: runs_from_def)
  obtain res w where w: "AddTxTracker sample_env 0 ?w0 = Some (res, w)"
    using worker_always_consistent [OF r0 sample_trackers_ok, of 0] by fastforce
  then have "runs_from sample_env sample_heap sample_constraints w"
    by (auto simp: runs_from_def intro: worker_step.add)
  from worker_always_consistent [OF this sample_trackers_ok, of 1] w show ?thesis by blast
qed

theorem w_ExpireTransactions_correct_witness:
  "\<exists>txs w'. w_ExpireTransactions (\<lambda>k j. 10) 5 (NewWorker sample_heap sample_constraints) = Some (txs, w') \<and>
     w_inv w' \<and> txs = []"
  using w_ExpireTransactions_correct [OF NewWorker_inv, of sample_heap sample_constraints "\<lambda>k j. 10" 5]
    sample_trackers_ok by (auto simp: NewWorker_def trackers_ok_def all_txs_def)

theorem AddTxTracker_refuses_witness:
  "\<exists>e \<in> {ErrInvalidIP, ErrOutOfCounters}.
     AddTxTracker sample_env 0 (NewWorker sample_heap (sample_constraints\<lparr>MaxSteps := 6\<rparr>)) =
       Some ((None, Some e), NewWorker sample_heap (sample_constraints\<lparr>MaxSteps := 6\<rparr>))"
  by (rule AddTxTracker_refuses)
    (simp add: NewWorker_def IsWithinConstraints_def sample_constraints_def sample_counters_def sample_simps)

text \<open>
  C28. Releasing the lock inside \<open>AddTxTracker\<close> is harmless as long as one thread calls it, which is
  how the database manager loads the pool: in every state reached by that thread's critical
  sections and by the other operations of the worker run between them, in any order, the sorted
  list holds exactly the ready transactions of the queues, no turn of the loader panics, and a
  queue fetched for a new sender is still the only one of that sender.
\<close>

theorem one_loader_keeps_the_worker:
  assumes "(loader_step env)\<^sup>*\<^sup>* (Added res, NewWorker h c) (t, w)" "trackers_ok env h"
  shows "w_inv w \<and> AddTxTracker_turn env t w \<noteq> None \<and>
    (\<forall>tx q. t = Fetched tx q \<longrightarrow> gm_get (w_pool w) (FromStr (trackers w tx)) = None)"
proof -
  have "loader_inv env (Added res, NewWorker h c)"
    using NewWorker_inv [of h c] assms(2) by (simp add: loader_inv_def) (simp add: NewWorker_def)
  from loader_runs_inv [OF assms(1) this] have inv: "loader_inv env (t, w)" .
  then show ?thesis using loader_turn_runs [OF inv] by (auto simp: loader_inv_def)
qed

lemma AddTxTracker_second_insert:
  assumes inv: "w_inv w" and q: "readyTx q = None" "notReadyTxs q = []"
  shows "\<exists>res w'. AddTxTracker_insert tx q w = Some (res, w') \<and>
    set (tsl_sorted (w_txSortedList w)) \<subseteq> set (tsl_sorted (w_txSortedList w')) \<and>
    (\<exists>q'. w_pool w' = gm_set (FromStr (trackers w tx)) q' (w_pool w) \<and> aq_txs q' \<subseteq> {tx})"
proof -
  let ?h = "trackers w"
  have t: "tsl_inv ?h (w_txSortedList w)" using inv by (simp add: w_inv_def)
  obtain b l where l: "tsl_add ?h tx (w_txSortedList w) = Some (b, l)"
      "set (tsl_sorted (w_txSortedList w)) \<subseteq> set (tsl_sorted l)"
  proof (cases "\<exists>r \<in> set (tsl_sorted (w_txSortedList w)). HashStr (?h r) = HashStr (?h tx)")
    case True
    then show ?thesis using that tsl_add_known [OF t] by blast
  next
    case False
    show ?thesis by (rule that, rule tsl_add_new [OF t]) (use False in auto)
  qed
  show ?thesis
    using l q by (cases rule: addTx_cases [of q ?h tx])
      (auto simp: AddTxTracker_insert_def replace_ready_def aq_txs_def gm_set_def)
qed

text \<open>
  C37. With two callers it is not: when two calls of \<open>AddTxTracker\<close> for the same new sender both
  look it up before either has stored a queue, and the first transaction has the nonce of the
  account and is covered by its balance, then after both calls the first transaction is in the
  sorted list and in no queue, and the worker is no longer consistent. The node as it stands has
  one caller; nothing in the worker requires it.
\<close>

theorem overlapped_adds_lose_a_transaction:
  assumes inv: "w_inv w" and ok: "trackers_ok env (trackers w)"
    and txs: "tx1 \<noteq> tx2" "FromStr (trackers w tx1) = FromStr (trackers w tx2)"
    and new: "AddTxTracker_check env tx1 w = Inr None" "AddTxTracker_check env tx2 w = Inr None"
    and fetch: "AddTxTracker_fetch env (trackers w tx1) = Inr q1" "AddTxTracker_fetch env (trackers w tx2) = Inr q2"
    and ready: "Nonce (trackers w tx1) = currentNonce q1" "Cost (trackers w tx1) \<le> currentBalance q1"
  shows "\<exists>r1 r2 w'. AddTxTracker_turns env [0, 1, 0, 1] ([Adding tx1, Adding tx2], w) = Some ([Added r1, Added r2], w') \<and>
    tx1 \<in> set (GetSorted (w_txSortedList w')) \<and> tx1 \<notin> all_txs (w_pool w') \<and> \<not> w_inv w'"
proof -
  let ?h = "trackers w" and ?k = "FromStr (trackers w tx1)"
  have hds: "hash_determines_sender ?h" and wf: "tracker_wf env (?h tx1)" using ok by (simp_all add: trackers_ok_def)
  have q: "readyTx q1 = None" "queue_ok ?h ?k q1" "readyTx q2 = None" "notReadyTxs q2 = []"
    using fetch wf newAddrQueue_ok [of ?h "addrString env"]
    by (auto simp: AddTxTracker_fetch_def tracker_wf_def newAddrQueue_def split: sum.splits)
  have none: "gm_get (w_pool w) ?k = None"
    using new(1) by (auto simp: AddTxTracker_check_def Let_def split: if_splits)
  obtain r1 w1 where i1: "AddTxTracker_insert tx1 q1 w = Some (r1, w1)" "w_inv w1" "trackers w1 = ?h"
    using AddTxTracker_insert_inv [OF inv hds q(2)] none q(1) by blast
  have "w_pool w1 = gm_set ?k (q1\<lparr>readyTx := Some tx1\<rparr>) (w_pool w)"
    using i1(1) ready q(1)
    by (auto simp: AddTxTracker_insert_def addTx_def Let_def split: Option.bind_splits)
  then have "tx1 \<in> ready_of (w_pool w1)" using i1(2) inv by (auto simp: w_inv_def ready_of_set)
  then have s1: "tx1 \<in> set (tsl_sorted (w_txSortedList w1))" using i1(2) by (simp add: w_inv_def)
  obtain r2 w2 q' where i2: "AddTxTracker_insert tx2 q2 w1 = Some (r2, w2)"
      "set (tsl_sorted (w_txSortedList w1)) \<subseteq> set (tsl_sorted (w_txSortedList w2))"
      "w_pool w2 = gm_set ?k q' (w_pool w1)" "aq_txs q' \<subseteq> {tx2}"
    using AddTxTracker_second_insert [OF i1(2) q(3,4), of tx2] i1(3) txs(2) by auto
  have others: "tx1 \<notin> aq_txs q''" if "(k, q'') \<in> set (gm_del ?k (w_pool w1))" for k q''
    using that i1(2,3) by (auto simp: w_inv_def queue_ok_def gomap_simps)
  have lost: "tx1 \<notin> all_txs (w_pool w2)"
    using i1(2) i2(3,4) txs(1) others by (auto simp: w_inv_def all_txs_set) (auto simp: all_txs_def)
  have "ready_of (w_pool w2) \<subseteq> all_txs (w_pool w2)" by (auto simp: ready_of_def all_txs_def aq_txs_def)
  then have "\<not> w_inv w2" using lost s1 i2(2) by (auto simp: w_inv_def)
  moreover have "AddTxTracker_turns env [0, 1, 0, 1] ([Adding tx1, Adding tx2], w) = Some ([Added r1, Added r2], w2)"
    by (simp add: AddTxTracker_turn_def new fetch i1(1) i2(1))
  ultimately show ?thesis using lost s1 i2(2) by (auto simp: GetSorted_def)
qed

theorem one_loader_keeps_the_worker_witness:
  "\<exists>t w. AddTxTracker_turn sample_env (Adding 0) (NewWorker sample_heap sample_constraints) = Some (t, w) \<and>
     w_inv w \<and> AddTxTracker_turn sample_env t w \<noteq> None"
proof -
  let ?w = "NewWorker sample_heap sample_constraints"
  have call: "loader_step sample_env (Added (None, None), ?w) (Adding 0, ?w)" by (rule loader_step.call)
  have "(loader_step sample_env)\<^sup>*\<^sup>* (Added (None, None), ?w) (Adding 0, ?w)"
    by (rule r_into_rtranclp) (rule call)
  from one_loader_keeps_the_worker [OF this sample_trackers_ok]
  obtain t w where t: "AddTxTracker_turn sample_env (Adding 0) ?w = Some (t, w)" by auto
  have "(loader_step sample_env)\<^sup>*\<^sup>* (Added (None, None), ?w) (t, w)"
    using call loader_step.turn [OF t] by (meson rtranclp.rtrancl_into_rtrancl r_into_rtranclp)
  from one_loader_keeps_the_worker [OF this sample_trackers_ok] t show ?thesis by blast
qed

theorem overlapped_adds_lose_a_transaction_witness:
  "\<exists>r1 r2 w'. AddTxTracker_turns sample_env [0, 1, 0, 1]
       ([Adding 0, Adding 1], NewWorker sample_heap sample_constraints) = Some ([Added r1, Added r2], w') \<and>
     0 \<in> set (GetSorted (w_txSortedList w')) \<and> 0 \<notin> all_txs (w_pool w') \<and> \<not> w_inv w'"
proof -
  let ?w = "NewWorker sample_heap sample_constraints" and ?q = "newAddrQueue (addrString sample_env) 1 0 100"
  have q: "AddTxTracker_check sample_env r ?w = Inr None" "AddTxTracker_fetch sample_env (trackers ?w r) = Inr ?q"
    if "r < 2" for r
    using that by (auto simp: AddTxTracker_check_def AddTxTracker_fetch_def NewWorker_def IsWithinConstraints_def
        sample_env_def sample_constraints_def sample_counters_def sample_simps less_2_cases_iff)
  show ?thesis
    by (rule overlapped_adds_lose_a_transaction [OF NewWorker_inv _ _ _ q(1) q(1) q(2) q(2)])
      (use sample_trackers_ok in \<open>simp_all add: NewWorker_def newAddrQueue_def sample_simps\<close>)
qed

end
