(* ===== verification/BestFit.thy ===== *)
theory BestFit
  imports WorkerRuns
begin

text \<open>
  \<open>Worker.GetBestFittingTx\<close> (\<open>sequencer/worker.go\<close>): \<open>runtime.NumCPU()\<close> goroutines search the
  sorted list, goroutine \<open>n\<close> the indices \<open>n\<close>, \<open>n + nGoRoutines\<close>, and so on, and share \<open>foundAt\<close>
  and \<open>tx\<close> under a mutex. The caller holds the worker's mutex, so the list does not change.
  A step of the model is one critical section, or the code between two, of one goroutine; the
  theorems hold for every interleaving of the goroutines and every number of them.
\<close>

section \<open>The goroutines\<close>

text \<open>
  Where a goroutine is: at the head of its loop, about to look at the candidate, about to
  publish the candidate it found, returned, or stopped by an index out of range. \<open>bresources\<close> is its own copy of the resources,
  which \<open>Sub\<close> updates in place.
\<close>

datatype goroutine =
    AtLoop nat BatchResources
  | AtCandidate nat BatchResources
  | AtFound nat txref
  | Returned
  | Panicked

record best_fit =
  foundAt :: int
  bf_tx :: "txref option"
  goroutines :: "goroutine list"

definition bf_start :: "nat \<Rightarrow> BatchResources \<Rightarrow> best_fit" where
  "bf_start nGoRoutines resources =
     \<lparr>foundAt = -1, bf_tx = None,
      goroutines = map (\<lambda>n. AtLoop n resources) [0..<nGoRoutines]\<rparr>"

text \<open>The goroutine's next step, with the shared variables after it.\<close>

fun goroutine_step ::
    "txheap \<Rightarrow> txSortedList \<Rightarrow> nat \<Rightarrow> int \<Rightarrow> txref option \<Rightarrow> goroutine \<Rightarrow> goroutine \<times> int \<times> txref option"
  where
  "goroutine_step h e nGoRoutines found tx (AtLoop i bres) =
     (if i < tsl_len e then
        (if found \<noteq> -1 \<and> int i > found then (Returned, found, tx)
         else (AtCandidate i bres, found, tx))
      else (Returned, found, tx))"
| "goroutine_step h e nGoRoutines found tx (AtCandidate i bres) =
     (case getByIndex i e of
        None \<Rightarrow> (Panicked, found, tx)
      | Some txCandidate \<Rightarrow>
          (let (err, bres') = BatchResources_Sub bres (BatchResourcesF (h txCandidate))
           in if err \<noteq> None then (AtLoop (i + nGoRoutines) bres', found, tx)
              else (AtFound i txCandidate, found, tx)))"
| "goroutine_step h e nGoRoutines found tx (AtFound i txCandidate) =
     (if found = -1 \<or> found > int i then (Returned, int i, Some txCandidate)
      else (Returned, found, tx))"
| "goroutine_step h e nGoRoutines found tx Returned = (Returned, found, tx)"
| "goroutine_step h e nGoRoutines found tx Panicked = (Panicked, found, tx)"

definition bf_sched :: "txheap \<Rightarrow> txSortedList \<Rightarrow> nat \<Rightarrow> best_fit \<Rightarrow> best_fit" where
  "bf_sched h e k s =
     (if k < length (goroutines s) then
        (case goroutine_step h e (length (goroutines s)) (foundAt s) (bf_tx s) (goroutines s ! k) of
           (g, found, tx) \<Rightarrow> \<lparr>foundAt = found, bf_tx = tx, goroutines = (goroutines s)[k := g]\<rparr>)
      else s)"

inductive bf_step :: "txheap \<Rightarrow> txSortedList \<Rightarrow> best_fit \<Rightarrow> best_fit \<Rightarrow> bool" for h e where
  "k < length (goroutines s) \<Longrightarrow> goroutines s ! k \<noteq> Returned \<Longrightarrow> bf_step h e s (bf_sched h e k s)"

inductive_cases bf_stepE: "bf_step h e s s'"

text \<open>\<open>wg.Wait()\<close> returns when every goroutine has.\<close>

definition bf_done :: "best_fit \<Rightarrow> bool" where
  "bf_done s \<longleftrightarrow> list_all (\<lambda>g. g = Returned) (goroutines s)"

section \<open>Invariant\<close>

definition tx_fits :: "txheap \<Rightarrow> BatchResources \<Rightarrow> txref \<Rightarrow> bool" where
  "tx_fits h resources r \<longleftrightarrow> fst (BatchResources_Sub resources (BatchResourcesF (h r))) = None"

definition covered :: "int \<Rightarrow> nat \<Rightarrow> bool" where
  "covered found j \<longleftrightarrow> found \<noteq> -1 \<and> found \<le> int j"

text \<open>Goroutine \<open>k\<close> of \<open>N\<close> has left no fitting index of its class behind, but covered ones.\<close>

definition passed :: "txheap \<Rightarrow> txref list \<Rightarrow> BatchResources \<Rightarrow> nat \<Rightarrow> nat \<Rightarrow> nat \<Rightarrow> bool" where
  "passed h s res N k i \<longleftrightarrow> i mod N = k \<and> (\<forall>j < i. j < length s \<and> j mod N = k \<longrightarrow> \<not> tx_fits h res (s ! j))"

fun goroutine_inv ::
    "txheap \<Rightarrow> txref list \<Rightarrow> BatchResources \<Rightarrow> nat \<Rightarrow> int \<Rightarrow> nat \<Rightarrow> goroutine \<Rightarrow> bool" where
  "goroutine_inv h s res N found k (AtLoop i bres) \<longleftrightarrow> bres = res \<and> passed h s res N k i"
| "goroutine_inv h s res N found k (AtCandidate i bres) \<longleftrightarrow>
     bres = res \<and> passed h s res N k i \<and> i < length s"
| "goroutine_inv h s res N found k (AtFound i t) \<longleftrightarrow>
     passed h s res N k i \<and> i < length s \<and> t = s ! i \<and> tx_fits h res t"
| "goroutine_inv h s res N found k Returned \<longleftrightarrow>
     (\<forall>j < length s. j mod N = k \<and> tx_fits h res (s ! j) \<longrightarrow> covered found j)"
| "goroutine_inv h s res N found k Panicked \<longleftrightarrow> False"

definition shared_inv :: "txheap \<Rightarrow> txref list \<Rightarrow> BatchResources \<Rightarrow> int \<Rightarrow> txref option \<Rightarrow> bool" where
  "shared_inv h s res found tx \<longleftrightarrow>
     (found = -1 \<and> tx = None \<or>
      (\<exists>j < length s. found = int j \<and> tx = Some (s ! j) \<and> tx_fits h res (s ! j)))"

definition bf_inv :: "txheap \<Rightarrow> txref list \<Rightarrow> BatchResources \<Rightarrow> nat \<Rightarrow> best_fit \<Rightarrow> bool" where
  "bf_inv h s res N st \<longleftrightarrow>
     length (goroutines st) = N \<and> shared_inv h s res (foundAt st) (bf_tx st) \<and>
     (\<forall>k < N. goroutine_inv h s res N (foundAt st) k (goroutines st ! k))"

lemma bf_start_inv: "bf_inv h s res N (bf_start N res)"
  by (auto simp: bf_inv_def bf_start_def shared_inv_def passed_def)

text \<open>What the others rely on when \<open>foundAt\<close> moves: covered indices stay covered.\<close>

lemma goroutine_inv_mono:
  assumes "\<And>j. covered found j \<Longrightarrow> covered found' j" "goroutine_inv h s res N found k g"
  shows "goroutine_inv h s res N found' k g"
  using assms by (cases g) auto

lemma passed_next:
  assumes "passed h s res N k i" "\<not> tx_fits h res (s ! i)" "0 < N"
  shows "passed h s res N k (i + N)"
proof -
  have "j < i \<or> j = i" if "j < i + N" "j mod N = k" for j
  proof (rule ccontr)
    assume "\<not> (j < i \<or> j = i)"
    then have "0 < j - i" "j - i < N" using that(1) by auto
    moreover have "(j - i) mod N = 0"
      using that(2) assms(1) \<open>\<not> (j < i \<or> j = i)\<close> mod_eq_dvd_iff_nat [of i j N]
      by (simp add: passed_def)
    ultimately show False by simp
  qed
  with assms show ?thesis by (auto simp: passed_def)
qed

lemma passed_returned:
  assumes p: "passed h s res N k i" and "length s \<le> i \<or> covered found i"
  shows "goroutine_inv h s res N found k Returned"
proof -
  have "i \<le> j" if "j < length s" "j mod N = k" "tx_fits h res (s ! j)" for j
    using p that by (auto simp: passed_def not_less [symmetric])
  with assms(2) show ?thesis by (fastforce simp: covered_def)
qed

lemma goroutine_step_inv:
  assumes g: "goroutine_inv h (tsl_sorted e) res N found k g" and sh: "shared_inv h (tsl_sorted e) res found tx"
    and N: "0 < N" and st: "goroutine_step h e N found tx g = (g', found', tx')"
  shows "goroutine_inv h (tsl_sorted e) res N found' k g'" and "shared_inv h (tsl_sorted e) res found' tx'"
    and "\<And>j. covered found j \<Longrightarrow> covered found' j"
proof -
  let ?s = "tsl_sorted e"
  have "goroutine_inv h ?s res N found' k g' \<and> shared_inv h ?s res found' tx' \<and>
    (\<forall>j. covered found j \<longrightarrow> covered found' j)"
  proof (cases g)
    case (AtLoop i bres)
    then have p: "passed h ?s res N k i" and b: "bres = res" using g by simp_all
    have "covered found i" if "found \<noteq> -1" "int i > found" using that by (simp add: covered_def)
    with st sh p b passed_returned [OF p, of found] AtLoop show ?thesis
      by (simp add: tsl_len_def split: if_splits del: goroutine_inv.simps(4)) auto
  next
    case (AtCandidate i bres)
    have p: "passed h ?s res N k i" and i: "i < length ?s" and b: "bres = res" using g AtCandidate by auto
    obtain err bres' where sub: "BatchResources_Sub res (BatchResourcesF (h (?s ! i))) = (err, bres')"
      by fastforce
    have keep: "bres' = res" if "err \<noteq> None"
      using that br.sub_error_keeps [of res "BatchResourcesF (h (?s ! i))"] sub by auto
    have fits: "tx_fits h res (?s ! i) \<longleftrightarrow> err = None" using sub by (simp add: tx_fits_def)
    show ?thesis
      using st sh p i b sub keep fits passed_next [OF p _ N] AtCandidate
      by (auto simp: getByIndex_def split: if_splits)
  next
    case (AtFound i t)
    then have p: "passed h ?s res N k i" and i: "i < length ?s" "t = ?s ! i" "tx_fits h res t"
      using g by auto
    have f: "goroutine_inv h ?s res N found' k Returned" if "covered found' i"
      using passed_returned [OF p] that by blast
    show ?thesis
    proof (cases "found = -1 \<or> found > int i")
      case True
      with st AtFound have "g' = Returned" "found' = int i" "tx' = Some t" by auto
      with f i True show ?thesis
        by (auto simp: shared_inv_def covered_def simp del: goroutine_inv.simps(4))
    next
      case False
      with st AtFound have "g' = Returned" "found' = found" "tx' = tx" by auto
      with f sh False show ?thesis by (simp add: covered_def del: goroutine_inv.simps(4))
    qed
  next
    case Returned
    then show ?thesis using g sh st by simp
  next
    case Panicked
    then show ?thesis using g by simp
  qed
  then show "goroutine_inv h ?s res N found' k g'" "shared_inv h ?s res found' tx'"
    "\<And>j. covered found j \<Longrightarrow> covered found' j" by blast+
qed

lemma bf_sched_inv:
  assumes inv: "bf_inv h (tsl_sorted e) res N st"
  shows "bf_inv h (tsl_sorted e) res N (bf_sched h e k st)"
proof (cases "k < N")
  case True
  have len: "length (goroutines st) = N" using inv by (simp add: bf_inv_def)
  obtain g found tx where st: "goroutine_step h e N (foundAt st) (bf_tx st) (goroutines st ! k) = (g, found, tx)"
    by (metis prod_cases3)
  have "goroutine_inv h (tsl_sorted e) res N (foundAt st) k (goroutines st ! k)"
    "shared_inv h (tsl_sorted e) res (foundAt st) (bf_tx st)" "0 < N"
    using inv True by (auto simp: bf_inv_def)
  note S = goroutine_step_inv [OF this st]
  have "goroutine_inv h (tsl_sorted e) res N found j ((goroutines st)[k := g] ! j)" if "j < N" for j
    using S(1) goroutine_inv_mono [OF S(3), where h = h and s = "tsl_sorted e" and res = res and N = N and k = j and g = "goroutines st ! j"] inv that len
    by (cases "j = k") (auto simp: bf_inv_def)
  with S(2) st True len show ?thesis by (simp add: bf_inv_def bf_sched_def)
next
  case False
  with inv show ?thesis by (simp add: bf_sched_def bf_inv_def)
qed

lemma bf_reach_inv:
  assumes "(bf_step h e)\<^sup>*\<^sup>* (bf_start N res) st"
  shows "bf_inv h (tsl_sorted e) res N st"
  using assms
  by (induction rule: rtranclp_induct) (auto simp: bf_start_inv bf_sched_inv elim!: bf_stepE)

text \<open>When all have returned, every fitting index is covered, so \<open>foundAt\<close> is the least.\<close>

lemma bf_done_first:
  assumes inv: "bf_inv h s res N st" and fin: "bf_done st" and N: "0 < N"
  shows "bf_tx st = find (tx_fits h res) s"
proof -
  have cov: "covered (foundAt st) j" if "j < length s" "tx_fits h res (s ! j)" for j
  proof -
    have k: "j mod N < N" using N by simp
    then have "goroutines st ! (j mod N) = Returned"
      using fin inv by (simp add: bf_done_def bf_inv_def list_all_length)
    with inv k that show ?thesis by (auto simp: bf_inv_def)
  qed
  have "shared_inv h s res (foundAt st) (bf_tx st)" using inv by (simp add: bf_inv_def)
  then consider "foundAt st = -1" "bf_tx st = None"
    | j where "j < length s" "foundAt st = int j" "bf_tx st = Some (s ! j)" "tx_fits h res (s ! j)"
    by (auto simp: shared_inv_def)
  then show ?thesis
  proof cases
    case 1
    have "\<not> tx_fits h res (s ! j)" if "j < length s" for j
      using cov [OF that] 1 by (auto simp: covered_def)
    then have "find (tx_fits h res) s = None" by (auto simp: find_None_iff in_set_conv_nth)
    with 1 show ?thesis by simp
  next
    case 2
    have "\<not> tx_fits h res (s ! i)" if "i < j" for i
      using cov [of i] that 2 by (auto simp: covered_def)
    with 2 have "find (tx_fits h res) s = Some (s ! j)" by (auto simp: find_Some_iff)
    with 2 show ?thesis by simp
  qed
qed

section \<open>Every run ends\<close>

fun goroutine_left :: "nat \<Rightarrow> goroutine \<Rightarrow> nat" where
  "goroutine_left n (AtLoop i bres) = 3 * (n - i) + 1"
| "goroutine_left n (AtCandidate i bres) = 3 * (n - i)"
| "goroutine_left n (AtFound i t) = 1"
| "goroutine_left n Returned = 0"
| "goroutine_left n Panicked = 0"

definition bf_left :: "txSortedList \<Rightarrow> best_fit \<Rightarrow> nat" where
  "bf_left e st = sum_list (map (goroutine_left (length (tsl_sorted e))) (goroutines st))"

lemma goroutine_step_left:
  assumes "goroutine_inv h (tsl_sorted e) res N found k g" "g \<noteq> Returned" "0 < N"
    "goroutine_step h e N found tx g = (g', found', tx')"
  shows "goroutine_left (length (tsl_sorted e)) g' < goroutine_left (length (tsl_sorted e)) g"
  using assms
  by (cases g) (auto simp: tsl_len_def getByIndex_def split: if_splits option.splits prod.splits)

lemma bf_step_left:
  assumes "bf_step h e st st'" "bf_inv h (tsl_sorted e) res N st"
  shows "bf_left e st' < bf_left e st"
  using assms(1)
proof cases
  case (1 k)
  let ?f = "goroutine_left (length (tsl_sorted e))" and ?gs = "goroutines st"
  have len: "length ?gs = N" using assms(2) by (simp add: bf_inv_def)
  obtain g found tx where st: "goroutine_step h e N (foundAt st) (bf_tx st) (?gs ! k) = (g, found, tx)"
    by (metis prod_cases3)
  have "?f g < ?f (?gs ! k)"
    using goroutine_step_left [OF _ 1(3) _ st, of res k] assms(2) 1(2) len by (auto simp: bf_inv_def)
  moreover have "?f (?gs ! k) \<le> sum_list (map ?f ?gs)"
    using 1(2) by (simp add: elem_le_sum_list [of k "map ?f ?gs", simplified])
  ultimately show ?thesis
    using 1 st len by (simp add: bf_left_def bf_sched_def map_update sum_list_update)
qed

lemma bf_run_bounded:
  assumes "(bf_step h e ^^ n) (bf_start N res) st"
  shows "n + bf_left e st \<le> bf_left e (bf_start N res)"
  using assms
proof (induction n arbitrary: st)
  case (Suc n)
  then obtain u where u: "(bf_step h e ^^ n) (bf_start N res) u" "bf_step h e u st" by auto
  have "bf_left e st < bf_left e u"
    using bf_step_left [OF u(2)] bf_reach_inv relpowp_imp_rtranclp [OF u(1)] by blast
  with Suc.IH [OF u(1)] show ?case by simp
qed simp

lemma bf_progress:
  assumes "bf_inv h s res N st" "\<not> bf_done st"
  shows "\<exists>st'. bf_step h e st st'"
  using assms by (auto simp: bf_done_def list_all_length bf_inv_def intro: bf_step.intros)

text \<open>A schedule, as the sequence of the goroutines that move, is a run.\<close>

lemma bf_fold_reach: "(bf_step h e)\<^sup>*\<^sup>* st (fold (bf_sched h e) ks st)"
proof (induction ks arbitrary: st)
  case (Cons k ks)
  have "(bf_step h e)\<^sup>*\<^sup>* st (bf_sched h e k st)"
  proof (cases "k < length (goroutines st) \<and> goroutines st ! k \<noteq> Returned")
    case True
    then show ?thesis by (auto intro: bf_step.intros)
  next
    case False
    then have "bf_sched h e k st = st"
      by (cases st) (auto simp: bf_sched_def list_update_same_conv)
    then show ?thesis by simp
  qed
  with Cons.IH [of "bf_sched h e k st"] show ?case by simp
qed simp

section \<open>Properties\<close>

text \<open>
  C2. Whatever the number of goroutines and however they interleave, when all have returned
  \<open>GetBestFittingTx\<close> has the first transaction of the sorted list that fits in the resources,
  none if none fits; in a consistent worker no other ready transaction that fits pays more.
\<close>

theorem GetBestFittingTx_correct:
  assumes "w_inv w" "0 < nGoRoutines"
    and "(bf_step (trackers w) (w_txSortedList w))\<^sup>*\<^sup>* (bf_start nGoRoutines resources) st" "bf_done st"
  shows "bf_tx st = find (tx_fits (trackers w) resources) (GetSorted (w_txSortedList w)) \<and>
    (case bf_tx st of
       None \<Rightarrow> \<not> (\<exists>r \<in> ready_of (w_pool w). tx_fits (trackers w) resources r)
     | Some t \<Rightarrow> t \<in> ready_of (w_pool w) \<and> tx_fits (trackers w) resources t \<and>
         (\<forall>r \<in> ready_of (w_pool w). tx_fits (trackers w) resources r \<longrightarrow>
            GasPrice (trackers w r) \<le> GasPrice (trackers w t)))"
proof -
  let ?s = "tsl_sorted (w_txSortedList w)" and ?fits = "tx_fits (trackers w) resources"
  have eq: "bf_tx st = find ?fits ?s" by (rule bf_done_first [OF bf_reach_inv [OF assms(3)] assms(4,2)])
  have set: "set ?s = ready_of (w_pool w)"
    and srt: "sorted_wrt (\<lambda>a b. GasPrice (trackers w a) \<ge> GasPrice (trackers w b)) ?s"
    using assms(1) by (simp_all add: w_inv_def tsl_inv_def)
  show ?thesis
  proof (cases "bf_tx st")
    case None
    with eq have "find ?fits ?s = None" by simp
    then have "\<not> (\<exists>r \<in> ready_of (w_pool w). ?fits r)" unfolding set [symmetric] find_None_iff by blast
    with None eq show ?thesis by (simp add: GetSorted_def)
  next
    case (Some t)
    with eq obtain i where i: "i < length ?s" "?fits (?s ! i)" "t = ?s ! i" "\<forall>j<i. \<not> ?fits (?s ! j)"
      by (metis find_Some_iff)
    have "GasPrice (trackers w r) \<le> GasPrice (trackers w t)" if r: "r \<in> set ?s" "?fits r" for r
    proof -
      obtain j where j: "j < length ?s" "r = ?s ! j" using r(1) by (metis in_set_conv_nth)
      have "i \<le> j" by (rule ccontr) (use i(4) r(2) j in simp)
      with j i srt show ?thesis by (cases "i = j") (auto simp: sorted_wrt_iff_nth_less)
    qed
    moreover have "t \<in> set ?s" "?fits t" using i(1-3) by simp_all
    ultimately show ?thesis using Some eq unfolding set by (simp add: GetSorted_def)
  qed
qed

text \<open>
  The search ends: no interleaving has more than \<open>3 * n + 1\<close> steps per goroutine for a list
  of \<open>n\<close> transactions, no goroutine indexes the list out of range, and as long as one has not
  returned some goroutine can move.
\<close>

theorem GetBestFittingTx_terminates:
  assumes "(bf_step h e ^^ n) (bf_start nGoRoutines resources) st"
  shows "n \<le> nGoRoutines * (3 * tsl_len e + 1) \<and> Panicked \<notin> set (goroutines st) \<and>
    (bf_done st \<or> (\<exists>st'. bf_step h e st st'))"
proof -
  have inv: "bf_inv h (tsl_sorted e) resources nGoRoutines st"
    by (rule bf_reach_inv [OF relpowp_imp_rtranclp [OF assms]])
  have "bf_left e (bf_start nGoRoutines resources) \<le>
      sum_list (map (\<lambda>k. 3 * tsl_len e + 1) [0..<nGoRoutines])"
    by (auto simp: bf_left_def bf_start_def tsl_len_def comp_def intro!: sum_list_mono)
  then have "n \<le> nGoRoutines * (3 * tsl_len e + 1)"
    using bf_run_bounded [OF assms] by (simp add: sum_list_triv)
  moreover have "Panicked \<notin> set (goroutines st)"
    using inv by (fastforce simp: bf_inv_def in_set_conv_nth)
  ultimately show ?thesis using bf_progress [OF inv] by blast
qed

definition sample_worker :: Worker where
  "sample_worker = \<lparr>trackers = sample_heap, w_pool = [(''0x01'', sample_queue)],
     w_txSortedList = \<lparr>tsl_list = [([], 0)], tsl_sorted = [0]\<rparr>,
     w_batchConstraints = sample_constraints\<rparr>"

definition sample_resources :: BatchResources where
  "sample_resources = \<lparr>ZKCountersF = sample_counters 10, Bytes = 1000\<rparr>"

lemma sample_worker_inv: "w_inv sample_worker"
  using sample_queue_inv
  by (auto simp: w_inv_def sample_worker_def gm_wf_def queue_ok_def tsl_inv_def ready_of_def aq_txs_def
      sample_queue_def sample_simps)

text \<open>Two goroutines take turns; the one with index 1 finds the list exhausted.\<close>

definition sample_search :: best_fit where
  "sample_search = fold (bf_sched (trackers sample_worker) (w_txSortedList sample_worker)) [0, 1, 0, 0]
     (bf_start 2 sample_resources)"

lemma sample_search_eq: "sample_search = \<lparr>foundAt = 0, bf_tx = Some 0, goroutines = [Returned, Returned]\<rparr>"
  by (simp add: sample_search_def sample_worker_def sample_resources_def bf_start_def bf_sched_def upt_rec tsl_len_def
      getByIndex_def BatchResources_Sub_def ZKCounters_Sub_def sample_counters_def sample_simps)

theorem GetBestFittingTx_correct_witness:
  "bf_tx sample_search = Some 0 \<and> 0 \<in> ready_of (w_pool sample_worker)"
proof -
  have "bf_done sample_search" by (simp add: sample_search_eq bf_done_def)
  from GetBestFittingTx_correct [OF sample_worker_inv _ bf_fold_reach this [unfolded sample_search_def]]
  show ?thesis by (simp only: sample_search_def [symmetric]) (simp add: sample_search_eq)
qed

theorem GetBestFittingTx_terminates_witness:
  "\<exists>st. bf_step sample_heap sample_list (bf_start 1 sample_resources) st \<and>
     1 \<le> 1 * (3 * tsl_len sample_list + 1) \<and> Panicked \<notin> set (goroutines st)"
proof -
  have s: "bf_step sample_heap sample_list (bf_start 1 sample_resources)
      (bf_sched sample_heap sample_list 0 (bf_start 1 sample_resources))"
    by (rule bf_step.intros) (simp_all add: bf_start_def)
  then have "(bf_step sample_heap sample_list ^^ 1) (bf_start 1 sample_resources)
      (bf_sched sample_heap sample_list 0 (bf_start 1 sample_resources))" by (simp only: relpowp_1)
  from GetBestFittingTx_terminates [OF this] s show ?thesis by blast
qed

end
