(* ===== verification/L1Ranges.thy ===== *)
theory L1Ranges
  imports Prelude
begin

text \<open>
  Ranges of L1 blocks (\<open>synchronizer/block_range.go\<close>) and the lists of ranges in flight
  (\<open>synchronizer/l1_live_block_ranges.go\<close>). Block numbers are \<open>uint64\<close>; the greatest one stands
  for the latest block and zero for no block. The contract of a list of live ranges is the
  locale \<open>live_ranges\<close>: valid, pairwise disjoint ranges, which an addition keeps or refuses.
\<close>

unbundle bit_operations_syntax

section \<open>Block ranges\<close>

definition latestBlockNumber :: u64 where
  "latestBlockNumber = NOT 0"

definition invalidBlockNumber :: u64 where
  "invalidBlockNumber = 0"

datatype range_error =
    errBlockRangeInvalidIsNil
  | errBlockRangeInvalidIsZero
  | errBlockRangeInvalidIsWrong
  | errBlockRangeInvalidOverlap
  | errBlockRangeNotFound
  | errBlockRangeIsEmpty

record blockRange =
  fromBlock :: u64
  toBlock :: u64

definition blockNumberToString :: "u64 \<Rightarrow> string" where
  "blockNumberToString b =
     (if b = latestBlockNumber then ''earliest''
      else if b = invalidBlockNumber then ''invalid''
      else go_itoa (unat b))"

definition blockRange_String :: "blockRange \<Rightarrow> string" where
  "blockRange_String b = ''['' @ blockNumberToString (fromBlock b) @ '', '' @ blockNumberToString (toBlock b) @ '']''"

definition br_len :: "blockRange \<Rightarrow> u64" where
  "br_len b =
     (if toBlock b = latestBlockNumber \<or> fromBlock b = latestBlockNumber then 0
      else toBlock b - fromBlock b + 1)"

text \<open>The receiver is a pointer: \<open>None\<close> is nil.\<close>

definition isValid :: "blockRange option \<Rightarrow> range_error option" where
  "isValid p =
     (case p of
        None \<Rightarrow> Some errBlockRangeInvalidIsNil
      | Some b \<Rightarrow>
          if fromBlock b = invalidBlockNumber \<or> toBlock b = invalidBlockNumber
          then Some errBlockRangeInvalidIsZero
          else if fromBlock b > toBlock b then Some errBlockRangeInvalidIsWrong
          else None)"

definition br_overlaps :: "blockRange \<Rightarrow> blockRange \<Rightarrow> bool" where
  "br_overlaps b br \<longleftrightarrow> fromBlock b \<le> toBlock br \<and> fromBlock br \<le> toBlock b"

section \<open>Live ranges\<close>

record liveBlockRanges =
  ranges :: "blockRange list"

definition lbr_toStringBrief :: "liveBlockRanges \<Rightarrow> string" where
  "lbr_toStringBrief l = ''len(ranges): '' @ go_itoa (length (ranges l))"

definition lbr_String :: "liveBlockRanges \<Rightarrow> string" where
  "lbr_String l =
     lbr_toStringBrief l @ ''['' @ concat (map (\<lambda>r. blockRange_String r @ '' ,'') (ranges l)) @ '']''"

definition newLiveBlockRanges :: liveBlockRanges where
  "newLiveBlockRanges = \<lparr>ranges = []\<rparr>"

definition lbr_len :: "liveBlockRanges \<Rightarrow> nat" where
  "lbr_len l = length (ranges l)"

definition lbr_overlaps :: "blockRange \<Rightarrow> liveBlockRanges \<Rightarrow> bool" where
  "lbr_overlaps br l \<longleftrightarrow> list_ex (\<lambda>r. br_overlaps r br) (ranges l)"

definition addBlockRange :: "blockRange \<Rightarrow> liveBlockRanges \<Rightarrow> range_error option \<times> liveBlockRanges" where
  "addBlockRange br l =
     (case isValid (Some br) of
        Some err \<Rightarrow> (Some err, l)
      | None \<Rightarrow>
          if lbr_overlaps br l then (Some errBlockRangeInvalidOverlap, l)
          else (None, l\<lparr>ranges := ranges l @ [br]\<rparr>))"

fun remove_range :: "blockRange \<Rightarrow> blockRange list \<Rightarrow> blockRange list option" where
  "remove_range br [] = None"
| "remove_range br (r # rs) =
     (if r = br then Some rs else map_option ((#) r) (remove_range br rs))"

definition removeBlockRange :: "blockRange \<Rightarrow> liveBlockRanges \<Rightarrow> range_error option \<times> liveBlockRanges" where
  "removeBlockRange br l =
     (case remove_range br (ranges l) of
        Some rs \<Rightarrow> (None, l\<lparr>ranges := rs\<rparr>)
      | None \<Rightarrow> (Some errBlockRangeNotFound, l))"

definition getFirstBlockRange :: "liveBlockRanges \<Rightarrow> range_error + blockRange" where
  "getFirstBlockRange l = (if lbr_len l = 0 then Inl errBlockRangeIsEmpty else Inr (hd (ranges l)))"

text \<open>The loop of \<open>getSuperBlockRange\<close>; \<open>i\<close> is its index, which only matters at 0.\<close>

fun super_loop :: "nat \<Rightarrow> blockRange list \<Rightarrow> u64 \<times> u64 \<Rightarrow> u64 \<times> u64" where
  "super_loop i [] acc = acc"
| "super_loop i (r # rs) (f, t) =
     (let (f1, t1) = (if i = 0 then (fromBlock r, toBlock r) else (f, t));
          t2 = (if toBlock r > t1 then toBlock r else t1);
          f2 = (if fromBlock r < f1 then fromBlock r else f1)
      in super_loop (i + 1) rs (f2, t2))"

definition getSuperBlockRange :: "liveBlockRanges \<Rightarrow> blockRange option" where
  "getSuperBlockRange l =
     (let (f, t) = super_loop 0 (ranges l) (invalidBlockNumber, invalidBlockNumber);
          res = \<lparr>fromBlock = f, toBlock = t\<rparr>
      in if isValid (Some res) = None then Some res else None)"

section \<open>Blocks of a range\<close>

definition blocks_of :: "blockRange \<Rightarrow> u64 set" where
  "blocks_of b = {fromBlock b..toBlock b}"

definition br_valid :: "blockRange \<Rightarrow> bool" where
  "br_valid b \<longleftrightarrow> isValid (Some b) = None"

lemma br_valid_iff: "br_valid b \<longleftrightarrow> 0 < fromBlock b \<and> fromBlock b \<le> toBlock b"
  by (auto simp: br_valid_def isValid_def invalidBlockNumber_def word_greater_zero_iff not_less
      split: if_splits)

text \<open>On valid ranges, \<open>overlaps\<close> is having a block in common.\<close>

lemma br_overlaps_iff:
  assumes "br_valid a" "br_valid b"
  shows "br_overlaps a b \<longleftrightarrow> blocks_of a \<inter> blocks_of b \<noteq> {}"
proof
  assume o: "br_overlaps a b"
  show "blocks_of a \<inter> blocks_of b \<noteq> {}"
  proof (cases "fromBlock a \<le> fromBlock b")
    case True
    with o assms have "fromBlock b \<in> blocks_of a \<inter> blocks_of b"
      by (simp add: br_overlaps_def blocks_of_def br_valid_iff)
    then show ?thesis by blast
  next
    case False
    with o assms have "fromBlock a \<in> blocks_of a \<inter> blocks_of b"
      by (simp add: br_overlaps_def blocks_of_def br_valid_iff)
    then show ?thesis by blast
  qed
next
  assume "blocks_of a \<inter> blocks_of b \<noteq> {}"
  then show "br_overlaps a b" by (auto simp: br_overlaps_def blocks_of_def)
qed

lemma remove_range_eq:
  "remove_range br rs = (if br \<in> set rs then Some (remove1 br rs) else None)"
  by (induction rs) auto

definition lbr_members :: "liveBlockRanges \<Rightarrow> blockRange set" where
  "lbr_members l = set (ranges l)"

definition pairwise_apart :: "blockRange set \<Rightarrow> bool" where
  "pairwise_apart R \<longleftrightarrow> (\<forall>r \<in> R. br_valid r) \<and> (\<forall>r \<in> R. \<forall>r' \<in> R. r \<noteq> r' \<longrightarrow> blocks_of r \<inter> blocks_of r' = {})"

definition lbr_inv :: "liveBlockRanges \<Rightarrow> bool" where
  "lbr_inv l \<longleftrightarrow> distinct (ranges l) \<and> pairwise_apart (set (ranges l))"

lemma pairwise_apart_mono: "pairwise_apart R \<Longrightarrow> R' \<subseteq> R \<Longrightarrow> pairwise_apart R'"
  unfolding pairwise_apart_def by blast

lemma apartD:
  "pairwise_apart R \<Longrightarrow> r \<in> R \<Longrightarrow> r' \<in> R \<Longrightarrow> r \<noteq> r' \<Longrightarrow> blocks_of r \<inter> blocks_of r' = {}"
  unfolding pairwise_apart_def by blast

lemma br_valid_nonempty: "br_valid b \<Longrightarrow> fromBlock b \<in> blocks_of b"
  by (simp add: br_valid_iff blocks_of_def)

lemma lbr_overlaps_iff:
  assumes "lbr_inv l" "br_valid br"
  shows "lbr_overlaps br l \<longleftrightarrow> (\<exists>r \<in> lbr_members l. blocks_of r \<inter> blocks_of br \<noteq> {})"
  using assms br_overlaps_iff
  by (fastforce simp: lbr_overlaps_def list_ex_iff lbr_members_def lbr_inv_def pairwise_apart_def)

section \<open>The contract\<close>

text \<open>
  A list of live ranges, to its clients: a set of valid ranges without common blocks. Adding
  a valid range that is apart from all succeeds and any other addition is refused; removing
  succeeds exactly on members.
\<close>

locale live_ranges =
  fixes add :: "blockRange \<Rightarrow> 'l \<Rightarrow> range_error option \<times> 'l"
    and remove :: "blockRange \<Rightarrow> 'l \<Rightarrow> range_error option \<times> 'l"
    and members :: "'l \<Rightarrow> blockRange set"
    and inv :: "'l \<Rightarrow> bool"
  assumes apart: "inv l \<Longrightarrow> pairwise_apart (members l)"
    and add_apart: "inv l \<Longrightarrow> br_valid br \<Longrightarrow> (\<And>r. r \<in> members l \<Longrightarrow> blocks_of r \<inter> blocks_of br = {}) \<Longrightarrow>
      \<exists>l'. add br l = (None, l') \<and> inv l' \<and> members l' = insert br (members l)"
    and add_refused: "inv l \<Longrightarrow>
      \<not> br_valid br \<or> (\<exists>r \<in> members l. blocks_of r \<inter> blocks_of br \<noteq> {}) \<Longrightarrow> \<exists>e. add br l = (Some e, l)"
    and remove_member: "inv l \<Longrightarrow> br \<in> members l \<Longrightarrow>
      \<exists>l'. remove br l = (None, l') \<and> inv l' \<and> members l' = members l - {br}"
    and remove_other: "br \<notin> members l \<Longrightarrow> remove br l = (Some errBlockRangeNotFound, l)"
begin

text \<open>A range that moves from one list to another that is apart from it: nothing is lost.\<close>

lemma move:
  assumes "inv l" "inv m" "pairwise_apart (members l \<union> members m)" "br \<in> members l" "br \<notin> members m"
  shows "\<exists>l' m'. remove br l = (None, l') \<and> add br m = (None, m') \<and> inv l' \<and> inv m' \<and>
    members l' = members l - {br} \<and> members m' = insert br (members m)"
proof -
  obtain l' where l': "remove br l = (None, l')" "inv l'" "members l' = members l - {br}"
    using remove_member [OF assms(1,4)] by blast
  have "br_valid br" using assms(3,4) by (simp add: pairwise_apart_def)
  moreover have "blocks_of r \<inter> blocks_of br = {}" if "r \<in> members m" for r
    by (rule apartD [OF assms(3)]) (use that assms(4,5) in auto)
  ultimately obtain m' where "add br m = (None, m')" "inv m'" "members m' = insert br (members m)"
    using add_apart [OF assms(2), of br] by blast
  with l' show ?thesis by blast
qed

text \<open>After a successful addition a second addition of the same range is refused.\<close>

lemma add_twice:
  assumes "inv l" "add br l = (None, l')"
  shows "\<exists>e. add br l' = (Some e, l')"
proof -
  have ok: "br_valid br" "\<And>r. r \<in> members l \<Longrightarrow> blocks_of r \<inter> blocks_of br = {}"
    using add_refused [OF assms(1), of br] assms(2) by auto
  with add_apart [OF assms(1)] assms(2) have "inv l'" "br \<in> members l'" by fastforce+
  moreover have "blocks_of br \<inter> blocks_of br \<noteq> {}" using br_valid_nonempty [OF ok(1)] by blast
  ultimately show ?thesis using add_refused by blast
qed

end

interpretation lbr: live_ranges addBlockRange removeBlockRange lbr_members lbr_inv
proof unfold_locales
  fix l br
  show "lbr_inv l \<Longrightarrow> pairwise_apart (lbr_members l)" by (simp add: lbr_inv_def lbr_members_def)
  show "\<exists>l'. addBlockRange br l = (None, l') \<and> lbr_inv l' \<and> lbr_members l' = insert br (lbr_members l)"
    if "lbr_inv l" "br_valid br" and a: "\<And>r. r \<in> lbr_members l \<Longrightarrow> blocks_of r \<inter> blocks_of br = {}"
  proof -
    have "\<not> lbr_overlaps br l" using a by (simp add: lbr_overlaps_iff [OF that(1,2)])
    moreover have "br \<notin> lbr_members l" using a br_valid_nonempty [OF that(2)] by blast
    ultimately show ?thesis
      using that a
      by (auto simp: addBlockRange_def br_valid_def [symmetric] lbr_inv_def lbr_members_def pairwise_apart_def
          Int_commute)
        (auto simp: br_valid_def)
  qed
  show "\<exists>e. addBlockRange br l = (Some e, l)"
    if "lbr_inv l" "\<not> br_valid br \<or> (\<exists>r \<in> lbr_members l. blocks_of r \<inter> blocks_of br \<noteq> {})"
  proof (cases "br_valid br")
    case True
    with that(2) have "lbr_overlaps br l" by (simp add: lbr_overlaps_iff [OF that(1)])
    with True show ?thesis by (simp add: addBlockRange_def br_valid_def)
  next
    case False
    then show ?thesis by (auto simp: addBlockRange_def br_valid_def)
  qed
  show "\<exists>l'. removeBlockRange br l = (None, l') \<and> lbr_inv l' \<and> lbr_members l' = lbr_members l - {br}"
    if "lbr_inv l" "br \<in> lbr_members l"
    using that by (auto simp: removeBlockRange_def remove_range_eq lbr_members_def lbr_inv_def
        intro: pairwise_apart_mono)
  show "br \<notin> lbr_members l \<Longrightarrow> removeBlockRange br l = (Some errBlockRangeNotFound, l)"
    by (simp add: removeBlockRange_def remove_range_eq lbr_members_def)
qed

text \<open>The super range of a non-empty list of valid ranges is its hull.\<close>

lemma super_loop_hull:
  "super_loop (Suc i) rs (f, t) =
     (fold (\<lambda>r f. min f (fromBlock r)) rs f, fold (\<lambda>r t. max t (toBlock r)) rs t)"
  by (induction rs arbitrary: i f t) (auto simp: min_def max_def)

lemma fold_max_upper: "(t :: u64) \<le> fold (\<lambda>r t. max t (toBlock r)) rs t \<and>
    (\<forall>r \<in> set rs. toBlock r \<le> fold (\<lambda>r t. max t (toBlock r)) rs t)"
  by (induction rs arbitrary: t) (auto intro: order_trans [OF max.cobounded1] order_trans [OF max.cobounded2])

lemma fold_min_lower: "fold (\<lambda>r f. min f (fromBlock r)) rs f \<le> (f :: u64) \<and>
    (\<forall>r \<in> set rs. fold (\<lambda>r f. min f (fromBlock r)) rs f \<le> fromBlock r)"
proof (induction rs arbitrary: f)
  case (Cons r rs)
  from Cons [of "min f (fromBlock r)"] show ?case by auto
qed simp

end
