(* ===== verification/L1SyncStatus.thy ===== *)
theory L1SyncStatus
  imports L1Ranges
begin

text \<open>
  Which L1 blocks have been requested, are being retrieved or must be retried
  (\<open>synchronizer/l1_syncstatus.go\<close>). \<open>log.Fatal\<close> ends the process and is \<open>None\<close>. The steps of
  the producer on it are the relation \<open>sync_step\<close>; the invariant says that no block is
  skipped: every block above the starting point, up to the last stored one and to the end of every
  range in flight, has been retrieved, is being retrieved, or is in the list of retries. A failed
  range up to the latest block is in none of these once it is discarded: the next range that is
  offered starts below it.
\<close>

unbundle bit_operations_syntax

section \<open>State and operations\<close>

definition invalidLastBlock :: u64 where
  "invalidLastBlock = 0"

definition maximumBlockDistanceFromLatestToFinalized :: u64 where
  "maximumBlockDistanceFromLatestToFinalized = 96"

datatype sync_error =
    errSyncChunkSizeMustBeGreaterThanZero
  | errStartingBlockNumberMustBeDefined

record syncStatus =
  lastBlockStoreOnStateDB :: u64
  highestBlockRequested :: u64
  lastBlockOnL1 :: u64
  amountOfBlocksInEachRange :: u64
  processingRanges :: liveBlockRanges
  errorRanges :: liveBlockRanges

definition syncStatus_String :: "syncStatus \<Rightarrow> string" where
  "syncStatus_String s =
     '' lastBlockStoreOnStateDB: '' @ blockNumberToString (lastBlockStoreOnStateDB s) @
     '', highestBlockRequested:'' @ blockNumberToString (highestBlockRequested s) @
     '', lastBlockOnL1: '' @ blockNumberToString (lastBlockOnL1 s) @
     '', amountOfBlocksInEachRange: '' @ go_itoa (unat (amountOfBlocksInEachRange s)) @
     '', processingRanges: '' @ lbr_toStringBrief (processingRanges s) @
     '', errorRanges: '' @ lbr_toStringBrief (errorRanges s)"

definition newSyncStatus :: "u64 \<Rightarrow> u64 \<Rightarrow> syncStatus" where
  "newSyncStatus lastBlock amount =
     \<lparr>lastBlockStoreOnStateDB = lastBlock, highestBlockRequested = lastBlock,
      lastBlockOnL1 = invalidLastBlock, amountOfBlocksInEachRange = amount,
      processingRanges = newLiveBlockRanges, errorRanges = \<lparr>ranges = []\<rparr>\<rparr>"

definition ss_Reset :: "u64 \<Rightarrow> syncStatus \<Rightarrow> syncStatus" where
  "ss_Reset lastBlock s =
     s\<lparr>lastBlockStoreOnStateDB := lastBlock, highestBlockRequested := lastBlock,
       processingRanges := newLiveBlockRanges\<rparr>"

definition HaveRequiredAllBlocksToBeSynchronized :: "syncStatus \<Rightarrow> bool" where
  "HaveRequiredAllBlocksToBeSynchronized s \<longleftrightarrow> lastBlockOnL1 s \<le> highestBlockRequested s"

definition IsNodeFullySynchronizedWithL1 :: "syncStatus \<Rightarrow> bool" where
  "IsNodeFullySynchronizedWithL1 s \<longleftrightarrow>
     (if lastBlockOnL1 s = invalidLastBlock then False
      else lastBlockOnL1 s \<le> highestBlockRequested s \<and> lbr_len (errorRanges s) = 0 \<and>
           lbr_len (processingRanges s) = 0)"

definition getNextRangeOnlyRetriesUnsafe :: "syncStatus \<Rightarrow> blockRange option \<times> syncStatus" where
  "getNextRangeOnlyRetriesUnsafe s =
     (case getFirstBlockRange (errorRanges s) of
        Inr br \<Rightarrow>
          if toBlock br = latestBlockNumber
          then (None, s\<lparr>errorRanges := snd (removeBlockRange br (errorRanges s))\<rparr>)
          else (Some br, s)
      | Inl _ \<Rightarrow> (None, s))"

definition GetNextRangeOnlyRetries :: "syncStatus \<Rightarrow> blockRange option \<times> syncStatus" where
  "GetNextRangeOnlyRetries s = getNextRangeOnlyRetriesUnsafe s"

fun highest_loop :: "blockRange list \<Rightarrow> u64 \<Rightarrow> u64" where
  "highest_loop [] res = res"
| "highest_loop (r # rs) res = highest_loop rs (if toBlock r > res then toBlock r else res)"

definition getHighestBlockRequestedUnsafe :: "syncStatus \<Rightarrow> u64" where
  "getHighestBlockRequestedUnsafe s =
     highest_loop (ranges (errorRanges s)) (highest_loop (ranges (processingRanges s)) invalidBlockNumber)"

definition getNextBlockRangeFromUnsafe :: "u64 \<Rightarrow> u64 \<Rightarrow> u64 \<Rightarrow> blockRange" where
  "getNextBlockRangeFromUnsafe lastBlockInState lastBlockInL1 amount =
     (let f = lastBlockInState + 1;
          t = min lastBlockInL1 (f + amount)
      in \<lparr>fromBlock = f, toBlock = (if t = lastBlockInL1 then latestBlockNumber else t)\<rparr>)"

definition GetNextRange :: "syncStatus \<Rightarrow> (blockRange option \<times> syncStatus) option" where
  "GetNextRange s =
     (let (retry, s1) = getNextRangeOnlyRetriesUnsafe s in
      if retry \<noteq> None then Some (retry, s1)
      else if lastBlockOnL1 s1 = invalidLastBlock then Some (None, s1)
      else if lastBlockOnL1 s1 \<le> highestBlockRequested s1 then Some (None, s1)
      else if getHighestBlockRequestedUnsafe s1 = latestBlockNumber then Some (None, s1)
      else
        (let br = getNextBlockRangeFromUnsafe
               (max (lastBlockStoreOnStateDB s1) (getHighestBlockRequestedUnsafe s1))
               (lastBlockOnL1 s1) (amountOfBlocksInEachRange s1)
         in if isValid (Some br) \<noteq> None then None else Some (Some br, s1)))"

definition OnStartedNewWorker :: "blockRange \<Rightarrow> syncStatus \<Rightarrow> syncStatus option" where
  "OnStartedNewWorker br s =
     (let s1 = s\<lparr>errorRanges := snd (removeBlockRange br (errorRanges s))\<rparr>;
          (err, p) = addBlockRange br (processingRanges s1);
          s2 = s1\<lparr>processingRanges := p\<rparr>
      in if err \<noteq> None then None
         else if toBlock br = latestBlockNumber
         then Some (s2\<lparr>highestBlockRequested := lastBlockOnL1 s2\<rparr>)
         else if toBlock br > highestBlockRequested s2
         then Some (s2\<lparr>highestBlockRequested := toBlock br\<rparr>)
         else Some s2)"

definition OnFinishWorker :: "blockRange \<Rightarrow> bool \<Rightarrow> u64 \<Rightarrow> syncStatus \<Rightarrow> (bool \<times> syncStatus) option" where
  "OnFinishWorker br successful highestBlockNumberInResponse s =
     (let (err, p) = removeBlockRange br (processingRanges s) in
      if err \<noteq> None then Some (False, s)
      else
        (let s1 = s\<lparr>processingRanges := p\<rparr> in
         if successful then
           Some (True,
             if highestBlockNumberInResponse \<noteq> invalidBlockNumber \<and>
                highestBlockNumberInResponse > lastBlockStoreOnStateDB s1
             then s1\<lparr>lastBlockStoreOnStateDB := highestBlockNumberInResponse\<rparr> else s1)
         else
           (let (err', e) = addBlockRange br (errorRanges s1)
            in if err' \<noteq> None then None else Some (True, s1\<lparr>errorRanges := e\<rparr>))))"

record onNewLastBlockResponse =
  fullRange :: blockRange
  extendedRange :: "blockRange option"

definition OnNewLastBlockOnL1 :: "u64 \<Rightarrow> syncStatus \<Rightarrow> onNewLastBlockResponse \<times> syncStatus" where
  "OnNewLastBlockOnL1 lastBlock s =
     (let full = \<lparr>fromBlock = lastBlockStoreOnStateDB s, toBlock = lastBlock\<rparr>;
          old = lastBlockOnL1 s
      in if old = invalidLastBlock
         then (\<lparr>fullRange = full, extendedRange = Some full\<rparr>, s\<lparr>lastBlockOnL1 := lastBlock\<rparr>)
         else if lastBlock > old
         then (\<lparr>fullRange = full, extendedRange = Some \<lparr>fromBlock = old + 1, toBlock = lastBlock\<rparr>\<rparr>,
               s\<lparr>lastBlockOnL1 := lastBlock\<rparr>)
         else if lastBlock = old
         then (\<lparr>fullRange = full, extendedRange = None\<rparr>, s\<lparr>lastBlockOnL1 := lastBlock\<rparr>)
         else (\<lparr>fullRange = \<lparr>fromBlock = lastBlockStoreOnStateDB s, toBlock = old\<rparr>, extendedRange = None\<rparr>, s))"

definition DoesItHaveAllTheNeedDataToWork :: "syncStatus \<Rightarrow> bool" where
  "DoesItHaveAllTheNeedDataToWork s \<longleftrightarrow>
     lastBlockOnL1 s \<noteq> invalidLastBlock \<and> lastBlockStoreOnStateDB s \<noteq> invalidBlockNumber"

definition ss_Verify :: "syncStatus \<Rightarrow> sync_error option" where
  "ss_Verify s =
     (if amountOfBlocksInEachRange s = 0 then Some errSyncChunkSizeMustBeGreaterThanZero
      else if lastBlockStoreOnStateDB s = invalidBlockNumber then Some errStartingBlockNumberMustBeDefined
      else None)"

definition BlockNumberIsInsideUnsafeArea :: "u64 \<Rightarrow> syncStatus \<Rightarrow> bool" where
  "BlockNumberIsInsideUnsafeArea blockNumber s \<longleftrightarrow>
     (let b = (if blockNumber = invalidBlockNumber then highestBlockRequested s else blockNumber)
      in lastBlockOnL1 s - b < maximumBlockDistanceFromLatestToFinalized)"

section \<open>The producer's steps\<close>

text \<open>
  A state of a run: the starting point, the status and, as a ghost, the blocks whose
  retrieval has succeeded. A worker is started on a range the status has just offered. A
  successful worker reports the end of its range or, for a range up to the latest block, the
  highest block it has seen; \<open>limit\<close> bounds the block numbers of L1.
\<close>

type_synonym sync_state = "u64 \<times> syncStatus \<times> u64 set"

inductive sync_step :: "u64 \<Rightarrow> sync_state \<Rightarrow> sync_state \<Rightarrow> bool" for limit where
  launch: "GetNextRange s = Some (Some br, s1) \<Longrightarrow> OnStartedNewWorker br s1 = Some s2 \<Longrightarrow>
    sync_step limit (start, s, d) (start, s2, d)"
| launch_retry: "GetNextRangeOnlyRetries s = (Some br, s1) \<Longrightarrow> OnStartedNewWorker br s1 = Some s2 \<Longrightarrow>
    sync_step limit (start, s, d) (start, s2, d)"
| asked: "GetNextRange s = Some (offer, s1) \<Longrightarrow> sync_step limit (start, s, d) (start, s1, d)"
| asked_retry: "GetNextRangeOnlyRetries s = (offer, s1) \<Longrightarrow> sync_step limit (start, s, d) (start, s1, d)"
| finished: "OnFinishWorker br True n s = Some (True, s') \<Longrightarrow>
    n = toBlock br \<or> toBlock br = latestBlockNumber \<and> n \<le> limit \<Longrightarrow> n \<noteq> latestBlockNumber \<Longrightarrow>
    sync_step limit (start, s, d) (start, s', d \<union> {fromBlock br..n})"
| failed: "OnFinishWorker br False n s = Some (True, s') \<Longrightarrow> sync_step limit (start, s, d) (start, s', d)"
| unexpected: "OnFinishWorker br ok n s = Some (False, s') \<Longrightarrow> sync_step limit (start, s, d) (start, s', d)"
| new_last: "lastBlock \<le> limit \<Longrightarrow> OnNewLastBlockOnL1 lastBlock s = (resp, s') \<Longrightarrow>
    sync_step limit (start, s, d) (start, s', d)"

text \<open>
  Where a run starts: with a new status, or with a status that was reset to a block of the state,
  in the middle of another run, when no range waited for its retry. \<open>Reset\<close> itself makes no
  difference, and keeps the retries; what happens to a run after such a reset is shown below.
\<close>

definition run_start :: "u64 \<Rightarrow> u64 \<Rightarrow> syncStatus \<Rightarrow> bool" where
  "run_start limit start s0 \<longleftrightarrow>
     start \<le> limit \<and> unat limit + unat (amountOfBlocksInEachRange s0) + 1 < 2 ^ 64 \<and>
     ((\<exists>amount. s0 = newSyncStatus start amount) \<or>
      (\<exists>s. s0 = ss_Reset start s \<and> ranges (errorRanges s) = [] \<and> lastBlockOnL1 s \<le> limit))"

section \<open>No block is skipped\<close>

definition live :: "syncStatus \<Rightarrow> blockRange set" where
  "live s = lbr_members (processingRanges s) \<union> lbr_members (errorRanges s)"

definition no_gap :: "u64 \<Rightarrow> u64 \<Rightarrow> blockRange set \<Rightarrow> u64 set \<Rightarrow> bool" where
  "no_gap start S R d \<longleftrightarrow>
     (\<forall>b > start. b \<le> S \<or> (\<exists>r \<in> R. b \<le> toBlock r) \<longrightarrow> b \<in> d \<or> (\<exists>r \<in> R. b \<in> blocks_of r))"

definition latest_on_top :: "u64 \<Rightarrow> blockRange set \<Rightarrow> bool" where
  "latest_on_top S R \<longleftrightarrow> (\<forall>r \<in> R. toBlock r = latestBlockNumber \<longrightarrow> S < fromBlock r)"

definition within :: "u64 \<Rightarrow> u64 \<Rightarrow> blockRange set \<Rightarrow> bool" where
  "within limit S R \<longleftrightarrow> S \<le> limit \<and> (\<forall>r \<in> R. toBlock r = latestBlockNumber \<or> toBlock r \<le> limit)"

definition sync_inv :: "u64 \<Rightarrow> sync_state \<Rightarrow> bool" where
  "sync_inv limit st \<longleftrightarrow> (case st of (start, s, d) \<Rightarrow>
     unat limit + unat (amountOfBlocksInEachRange s) + 1 < 2 ^ 64 \<and>
     lbr_inv (processingRanges s) \<and> lbr_inv (errorRanges s) \<and>
     lbr_members (processingRanges s) \<inter> lbr_members (errorRanges s) = {} \<and>
     pairwise_apart (live s) \<and> lastBlockOnL1 s \<le> limit \<and>
     within limit (lastBlockStoreOnStateDB s) (live s) \<and>
     latest_on_top (lastBlockStoreOnStateDB s) (live s) \<and>
     no_gap start (lastBlockStoreOnStateDB s) (live s) d)"

lemma latest_greatest [simp]: "b \<le> latestBlockNumber"
  by (simp add: latestBlockNumber_def)

lemma latest_max: "latestBlockNumber \<le> b \<longleftrightarrow> b = latestBlockNumber"
  using latest_greatest [of b] by (meson order_antisym order_refl)

text \<open>A range up to the latest block lies above every other range that is apart from it.\<close>

lemma below_latest:
  assumes "pairwise_apart R" "r \<in> R" "r' \<in> R" "r' \<noteq> r" "toBlock r = latestBlockNumber"
  shows "toBlock r' < fromBlock r"
proof (rule ccontr)
  assume "\<not> toBlock r' < fromBlock r"
  then have "toBlock r' \<in> blocks_of r" using assms(5) by (simp add: blocks_of_def not_less)
  moreover have "toBlock r' \<in> blocks_of r'"
    using assms(1,3) by (simp add: pairwise_apart_def blocks_of_def br_valid_iff)
  ultimately show False using apartD [OF assms(1,3,2,4)] by blast
qed

lemma no_gap_discard:
  assumes "no_gap start S R d" "pairwise_apart R" "latest_on_top S R" "r \<in> R" "toBlock r = latestBlockNumber"
  shows "no_gap start S (R - {r}) d"
proof -
  have below: "b < fromBlock r" if "b \<le> S \<or> (\<exists>r' \<in> R - {r}. b \<le> toBlock r')" for b
    using that assms(3-5) below_latest [OF assms(2,4) _ _ assms(5)]
    by (force simp: latest_on_top_def dest: le_less_trans)
  have "b \<notin> blocks_of r" if "b \<le> S \<or> (\<exists>r' \<in> R - {r}. b \<le> toBlock r')" for b
    using below [OF that] by (auto simp: blocks_of_def)
  with assms(1) show ?thesis unfolding no_gap_def by blast
qed

lemma no_gap_add:
  assumes "no_gap start S R d" "\<And>b. 0 < b \<Longrightarrow> b < fromBlock br \<Longrightarrow> b \<le> S \<or> (\<exists>r \<in> R. b \<le> toBlock r)"
  shows "no_gap start S (insert br R) d"
  unfolding no_gap_def
proof (intro allI impI)
  fix b assume b: "start < b" and le: "b \<le> S \<or> (\<exists>r \<in> insert br R. b \<le> toBlock r)"
  have pos: "0 < b" using b word_gt_0 le_less_trans [of 0 start b] by auto
  show "b \<in> d \<or> (\<exists>r \<in> insert br R. b \<in> blocks_of r)"
  proof (cases "b \<le> S \<or> (\<exists>r \<in> R. b \<le> toBlock r)")
    case True
    with assms(1) b show ?thesis unfolding no_gap_def by blast
  next
    case False
    with assms(2) [OF pos] le have "b \<in> blocks_of br" by (auto simp: blocks_of_def not_less [symmetric])
    then show ?thesis by blast
  qed
qed

lemma no_gap_finish:
  assumes gap: "no_gap start S R d" and apart: "pairwise_apart R" and top: "latest_on_top S R" and r: "r \<in> R"
    and n: "n = toBlock r \<or> toBlock r = latestBlockNumber" and S': "S' = S \<or> S' = n"
  shows "no_gap start S' (R - {r}) (d \<union> {fromBlock r..n})"
  unfolding no_gap_def
proof (intro allI impI)
  fix b assume b: "start < b" and le: "b \<le> S' \<or> (\<exists>r' \<in> R - {r}. b \<le> toBlock r')"
  have nle: "n \<le> toBlock r" using n by auto
  have "b \<le> S \<or> (\<exists>r \<in> R. b \<le> toBlock r)" using le S' r nle by (auto dest: order_trans)
  with gap b have c: "b \<in> d \<or> (\<exists>r \<in> R. b \<in> blocks_of r)" unfolding no_gap_def by blast
  have "b \<le> n" if "b \<in> blocks_of r"
  proof (cases "n = toBlock r")
    case True
    then show ?thesis using that by (simp add: blocks_of_def)
  next
    case False
    with n have t: "toBlock r = latestBlockNumber" by blast
    have f: "fromBlock r \<le> b" using that by (simp add: blocks_of_def)
    have "\<not> b \<le> S" using top r t f by (force simp: latest_on_top_def)
    moreover have "\<not> b \<le> toBlock r'" if "r' \<in> R - {r}" for r'
      using below_latest [OF apart r _ _ t, of r'] that f by force
    ultimately show ?thesis using le S' by blast
  qed
  with c show "b \<in> d \<union> {fromBlock r..n} \<or> (\<exists>r' \<in> R - {r}. b \<in> blocks_of r')"
    by (auto simp: blocks_of_def)
qed

lemma highest_loop_eq: "highest_loop rs x = fold (\<lambda>r t. max t (toBlock r)) rs x"
  by (induction rs arbitrary: x) (auto simp: max_def not_less)

lemma fold_max_attained:
  "(x :: u64) = fold (\<lambda>r t. max t (toBlock r)) rs x \<or>
    (\<exists>r \<in> set rs. toBlock r = fold (\<lambda>r t. max t (toBlock r)) rs x)"
proof (induction rs arbitrary: x)
  case (Cons r rs)
  from Cons [of "max x (toBlock r)"] show ?case by (auto simp: max_def split: if_splits)
qed simp

lemma highest_upper:
  assumes "r \<in> live s"
  shows "toBlock r \<le> getHighestBlockRequestedUnsafe s"
proof -
  let ?P = "ranges (processingRanges s)" and ?E = "ranges (errorRanges s)"
  let ?m = "\<lambda>rs x. fold (\<lambda>r t. max t (toBlock r)) rs (x :: u64)"
  consider "r \<in> set ?E" | "r \<in> set ?P" using assms by (auto simp: live_def lbr_members_def)
  then have "toBlock r \<le> ?m ?E (?m ?P invalidBlockNumber)"
  proof cases
    case 1
    then show ?thesis using fold_max_upper by blast
  next
    case 2
    then have "toBlock r \<le> ?m ?P invalidBlockNumber" using fold_max_upper by blast
    then show ?thesis using fold_max_upper [of "?m ?P invalidBlockNumber" ?E] by (auto dest: order_trans)
  qed
  then show ?thesis by (simp add: getHighestBlockRequestedUnsafe_def highest_loop_eq)
qed

lemma highest_attained:
  "getHighestBlockRequestedUnsafe s = 0 \<or> (\<exists>r \<in> live s. toBlock r = getHighestBlockRequestedUnsafe s)"
  using fold_max_attained [of "highest_loop (ranges (processingRanges s)) 0" "ranges (errorRanges s)"]
    fold_max_attained [of 0 "ranges (processingRanges s)"]
  by (auto simp: live_def lbr_members_def getHighestBlockRequestedUnsafe_def highest_loop_eq
      invalidBlockNumber_def)

section \<open>Every step keeps the invariant\<close>

lemma sync_invD:
  assumes "sync_inv limit (start, s, d)"
  shows "lbr_inv (processingRanges s)" "lbr_inv (errorRanges s)"
    "lbr_members (processingRanges s) \<inter> lbr_members (errorRanges s) = {}" "pairwise_apart (live s)"
    "within limit (lastBlockStoreOnStateDB s) (live s)" "latest_on_top (lastBlockStoreOnStateDB s) (live s)"
    "no_gap start (lastBlockStoreOnStateDB s) (live s) d" "lastBlockOnL1 s \<le> limit"
    "unat limit + unat (amountOfBlocksInEachRange s) + 1 < 2 ^ 64"
  using assms by (simp_all add: sync_inv_def)

lemma retries_eq:
  assumes "lbr_inv (errorRanges s)" "getNextRangeOnlyRetriesUnsafe s = (offer, s1)"
  shows "s1 = s \<and> (\<forall>br. offer = Some br \<longrightarrow> br \<in> lbr_members (errorRanges s) \<and> toBlock br \<noteq> latestBlockNumber) \<or>
    (\<exists>br e. offer = None \<and> br \<in> lbr_members (errorRanges s) \<and> toBlock br = latestBlockNumber \<and>
       s1 = s\<lparr>errorRanges := e\<rparr> \<and> lbr_inv e \<and> lbr_members e = lbr_members (errorRanges s) - {br})"
proof (cases "ranges (errorRanges s)")
  case Nil
  with assms(2) show ?thesis by (simp add: getNextRangeOnlyRetriesUnsafe_def getFirstBlockRange_def lbr_len_def)
next
  case (Cons br rs)
  then have br: "br \<in> lbr_members (errorRanges s)" by (simp add: lbr_members_def)
  from lbr.remove_member [OF assms(1) br] obtain e where
    "removeBlockRange br (errorRanges s) = (None, e)" "lbr_inv e" "lbr_members e = lbr_members (errorRanges s) - {br}"
    by blast
  with assms(2) br Cons show ?thesis
    by (auto simp: getNextRangeOnlyRetriesUnsafe_def getFirstBlockRange_def lbr_len_def split: if_splits)
qed

lemma retries_inv:
  assumes inv: "sync_inv limit (start, s, d)" and r: "getNextRangeOnlyRetriesUnsafe s = (offer, s1)"
  shows "sync_inv limit (start, s1, d)"
    and "offer = Some br \<Longrightarrow> br \<in> lbr_members (errorRanges s1) \<and> toBlock br \<noteq> latestBlockNumber"
proof -
  note I = sync_invD [OF inv]
  from retries_eq [OF I(2) r] show "offer = Some br \<Longrightarrow> br \<in> lbr_members (errorRanges s1) \<and> toBlock br \<noteq> latestBlockNumber"
    by auto
  from retries_eq [OF I(2) r] show "sync_inv limit (start, s1, d)"
  proof
    assume "\<exists>br e. offer = None \<and> br \<in> lbr_members (errorRanges s) \<and> toBlock br = latestBlockNumber \<and>
       s1 = s\<lparr>errorRanges := e\<rparr> \<and> lbr_inv e \<and> lbr_members e = lbr_members (errorRanges s) - {br}"
    then obtain br e where br: "br \<in> lbr_members (errorRanges s)" "toBlock br = latestBlockNumber"
      and s1: "s1 = s\<lparr>errorRanges := e\<rparr>" and e: "lbr_inv e" "lbr_members e = lbr_members (errorRanges s) - {br}"
      by blast
    have live: "live s1 = live s - {br}" using br(1) e(2) I(3) s1 by (auto simp: live_def)
    have "br \<in> live s" using br(1) by (simp add: live_def)
    note no_gap_discard [OF I(7,4,6) this br(2)]
    moreover have "pairwise_apart (live s1)" using I(4) live by (auto intro: pairwise_apart_mono)
    ultimately show ?thesis
      using I e live by (auto simp: sync_inv_def s1 within_def latest_on_top_def)
  qed (use inv in auto)
qed

lemma new_range:
  assumes inv: "sync_inv limit (start, s, d)" and latest: "getHighestBlockRequestedUnsafe s \<noteq> latestBlockNumber"
  defines "F \<equiv> max (lastBlockStoreOnStateDB s) (getHighestBlockRequestedUnsafe s)"
  defines "br \<equiv> getNextBlockRangeFromUnsafe F (lastBlockOnL1 s) (amountOfBlocksInEachRange s)"
  shows "br_valid br" and "fromBlock br = F + 1" and "F < F + 1"
    and "toBlock br = latestBlockNumber \<or> toBlock br \<le> limit"
    and "\<And>r. r \<in> live s \<Longrightarrow> blocks_of r \<inter> blocks_of br = {}"
proof -
  note I = sync_invD [OF inv]
  have "getHighestBlockRequestedUnsafe s \<le> limit"
    using highest_attained [of s] I(5) latest by (auto simp: within_def)
  then have F: "F \<le> limit" using I(5) by (simp add: F_def within_def)
  have small: "unat F + unat (amountOfBlocksInEachRange s) + 1 < 2 ^ 64"
    using F I(9) by (simp add: word_le_nat_alt)
  then have uF: "unat (F + 1) = unat F + 1" by (simp add: unat_word_ariths)
  then show lt: "F < F + 1" by (simp add: word_less_nat_alt)
  have add: "unat (F + 1 + amountOfBlocksInEachRange s) = unat F + 1 + unat (amountOfBlocksInEachRange s)"
    using small uF by (simp add: unat_word_ariths)
  show f: "fromBlock br = F + 1" by (simp add: br_def getNextBlockRangeFromUnsafe_def)
  have t: "toBlock br = latestBlockNumber \<or> toBlock br = F + 1 + amountOfBlocksInEachRange s \<and> toBlock br \<le> lastBlockOnL1 s"
    by (auto simp: br_def getNextBlockRangeFromUnsafe_def min_def)
  with I(8) show "toBlock br = latestBlockNumber \<or> toBlock br \<le> limit" by (auto dest: order_trans)
  have "F + 1 \<le> F + 1 + amountOfBlocksInEachRange s" using add uF by (simp add: word_le_nat_alt)
  then have "fromBlock br \<le> toBlock br" using t f by auto
  moreover have "0 < fromBlock br" using uF f by (simp add: word_less_nat_alt)
  ultimately show "br_valid br" by (simp add: br_valid_iff)
  show "blocks_of r \<inter> blocks_of br = {}" if "r \<in> live s" for r
  proof -
    have "toBlock r \<le> F" using highest_upper [OF that] by (simp add: F_def le_max_iff_disj)
    with lt f show ?thesis by (force simp: blocks_of_def)
  qed
qed

text \<open>Starting a worker: on a range of the retries, or on a new range at the frontier.\<close>

lemma start_retry_inv:
  assumes inv: "sync_inv limit (start, s, d)"
    and br: "br \<in> lbr_members (errorRanges s)" "toBlock br \<noteq> latestBlockNumber"
  shows "\<exists>s2. OnStartedNewWorker br s = Some s2 \<and> sync_inv limit (start, s2, d)"
proof -
  note I = sync_invD [OF inv]
  have apart: "pairwise_apart (lbr_members (errorRanges s) \<union> lbr_members (processingRanges s))"
    using I(4) by (simp add: live_def Un_commute)
  have "br \<notin> lbr_members (processingRanges s)" using br(1) I(3) by blast
  from lbr.move [OF I(2,1) apart br(1) this] obtain e p where
    m: "removeBlockRange br (errorRanges s) = (None, e)" "addBlockRange br (processingRanges s) = (None, p)"
      "lbr_inv e" "lbr_inv p" "lbr_members e = lbr_members (errorRanges s) - {br}"
      "lbr_members p = insert br (lbr_members (processingRanges s))" by blast
  have same: "lbr_members p \<union> lbr_members e = live s" "lbr_members p \<inter> lbr_members e = {}"
    using m(5,6) br(1) I(3) by (auto simp: live_def)
  show ?thesis using I m same br(2) by (auto simp: OnStartedNewWorker_def sync_inv_def live_def)
qed

lemma start_new_inv:
  assumes inv: "sync_inv limit (start, s, d)"
    and br: "br_valid br" "\<And>r. r \<in> live s \<Longrightarrow> blocks_of r \<inter> blocks_of br = {}"
      "toBlock br = latestBlockNumber \<or> toBlock br \<le> limit"
    and f: "lastBlockStoreOnStateDB s < fromBlock br"
      "\<And>b. 0 < b \<Longrightarrow> b < fromBlock br \<Longrightarrow> b \<le> lastBlockStoreOnStateDB s \<or> (\<exists>r \<in> live s. b \<le> toBlock r)"
  shows "\<exists>s2. OnStartedNewWorker br s = Some s2 \<and> sync_inv limit (start, s2, d)"
proof -
  note I = sync_invD [OF inv]
  have new: "br \<notin> live s" using br(2) br_valid_nonempty [OF br(1)] by blast
  then have e: "snd (removeBlockRange br (errorRanges s)) = errorRanges s"
    by (simp add: lbr.remove_other live_def)
  obtain p where p: "addBlockRange br (processingRanges s) = (None, p)" "lbr_inv p"
      "lbr_members p = insert br (lbr_members (processingRanges s))"
    using lbr.add_apart [OF I(1) br(1)] br(2) by (auto simp: live_def)
  have live: "lbr_members p \<union> lbr_members (errorRanges s) = insert br (live s)"
    and disj: "lbr_members p \<inter> lbr_members (errorRanges s) = {}"
    using p(3) I(3) new by (auto simp: live_def)
  have apart: "pairwise_apart (insert br (live s))"
    using I(4) br(1,2) unfolding pairwise_apart_def by (auto simp: Int_commute)
  have "no_gap start (lastBlockStoreOnStateDB s) (insert br (live s)) d" by (rule no_gap_add [OF I(7) f(2)])
  moreover have "within limit (lastBlockStoreOnStateDB s) (insert br (live s))"
    "latest_on_top (lastBlockStoreOnStateDB s) (insert br (live s))"
    using I(5,6) br(3) f(1) by (auto simp: within_def latest_on_top_def)
  ultimately show ?thesis
    using I(2,8,9) p(1,2) e disj live apart
    by (auto simp: OnStartedNewWorker_def sync_inv_def live_def [of "_ \<lparr>processingRanges := _\<rparr>"]
        live_def [of "_ \<lparr>highestBlockRequested := _\<rparr>"])
qed

text \<open>
  An offered range leaves no hole below it: what is not retrieved below its first block is in a
  live range, or it is asked for now.
\<close>

definition no_hole :: "u64 \<Rightarrow> u64 \<Rightarrow> blockRange set \<Rightarrow> u64 set \<Rightarrow> bool" where
  "no_hole start first R d \<longleftrightarrow> (\<forall>b. start < b \<and> b < first \<longrightarrow> b \<in> d \<or> (\<exists>r \<in> R. b \<in> blocks_of r))"

lemma no_holeI:
  assumes "no_gap start S R d" "\<And>b. 0 < b \<Longrightarrow> b < first \<Longrightarrow> b \<le> S \<or> (\<exists>r \<in> R. b \<le> toBlock r)"
  shows "no_hole start first R d"
  unfolding no_hole_def
proof (intro allI impI)
  fix b assume b: "start < b \<and> b < first"
  then have "0 < b" using word_gt_0 le_less_trans [of 0 start b] by auto
  with assms b show "b \<in> d \<or> (\<exists>r \<in> R. b \<in> blocks_of r)" unfolding no_gap_def by blast
qed

lemma GetNextRange_offer:
  assumes inv: "sync_inv limit (start, s, d)"
  shows "\<exists>offer s1. GetNextRange s = Some (offer, s1) \<and> sync_inv limit (start, s1, d) \<and>
    (\<forall>br. offer = Some br \<longrightarrow> no_hole start (fromBlock br) (live s1) d \<and>
       (\<exists>s2. OnStartedNewWorker br s1 = Some s2 \<and> sync_inv limit (start, s2, d)))"
proof -
  obtain retry s1 where r: "getNextRangeOnlyRetriesUnsafe s = (retry, s1)" by fastforce
  note R = retries_inv [OF inv r]
  note gap = sync_invD(7) [OF R(1)]
  show ?thesis
  proof (cases retry)
    case (Some br)
    then have br: "br \<in> live s1" using R(2) by (auto simp: live_def)
    then have "br_valid br" using sync_invD(4) [OF R(1)] by (simp add: pairwise_apart_def)
    then have le: "fromBlock br \<le> toBlock br" by (simp add: br_valid_iff)
    have "no_hole start (fromBlock br) (live s1) d"
      by (rule no_holeI [OF gap]) (use br le in \<open>auto dest: less_imp_le order_trans\<close>)
    moreover have "GetNextRange s = Some (Some br, s1)" using Some by (simp add: GetNextRange_def r)
    ultimately show ?thesis using R start_retry_inv [OF R(1), of br] Some by simp
  next
    case None
    show ?thesis
    proof (cases "lastBlockOnL1 s1 = invalidLastBlock \<or> lastBlockOnL1 s1 \<le> highestBlockRequested s1 \<or>
        getHighestBlockRequestedUnsafe s1 = latestBlockNumber")
      case True
      with None r R(1) show ?thesis by (auto simp: GetNextRange_def)
    next
      case False
      let ?F = "max (lastBlockStoreOnStateDB s1) (getHighestBlockRequestedUnsafe s1)"
      let ?br = "getNextBlockRangeFromUnsafe ?F (lastBlockOnL1 s1) (amountOfBlocksInEachRange s1)"
      from False have "getHighestBlockRequestedUnsafe s1 \<noteq> latestBlockNumber" by blast
      note N = new_range [OF R(1) this]
      have F: "b \<le> lastBlockStoreOnStateDB s1 \<or> (\<exists>r \<in> live s1. b \<le> toBlock r)" if "0 < b" "b < ?F + 1" for b
      proof -
        have "b \<le> ?F" using that(2) N(3) by (simp add: word_less_nat_alt word_le_nat_alt unat_word_ariths) 
        then show ?thesis using highest_attained [of s1] that(1) by (metis le_max_iff_disj not_le)
      qed
      have "lastBlockStoreOnStateDB s1 < fromBlock ?br" using N(2,3) by (metis max.cobounded1 order_le_less_trans)
      then have "\<exists>s2. OnStartedNewWorker ?br s1 = Some s2 \<and> sync_inv limit (start, s2, d)"
        using N F by (intro start_new_inv [OF R(1)]) auto
      moreover have "GetNextRange s = Some (Some ?br, s1)"
        using False None r N(1) by (simp add: GetNextRange_def br_valid_def)
      moreover have "no_hole start (fromBlock ?br) (live s1) d"
        by (rule no_holeI [OF gap]) (use F N(2) in auto)
      ultimately show ?thesis using R(1) by auto
    qed
  qed
qed

lemma GetNextRange_inv:
  assumes "sync_inv limit (start, s, d)"
  shows "\<exists>offer s1. GetNextRange s = Some (offer, s1) \<and> sync_inv limit (start, s1, d) \<and>
    (\<forall>br. offer = Some br \<longrightarrow> (\<exists>s2. OnStartedNewWorker br s1 = Some s2 \<and> sync_inv limit (start, s2, d)))"
  using GetNextRange_offer [OF assms] by blast

lemma OnFinishWorker_cases:
  assumes inv: "sync_inv limit (start, s, d)"
  obtains
    (other) "br \<notin> lbr_members (processingRanges s)" "OnFinishWorker br ok n s = Some (False, s)"
  | (success) p where "br \<in> lbr_members (processingRanges s)" "ok" "lbr_inv p"
      "lbr_members p = lbr_members (processingRanges s) - {br}"
      "OnFinishWorker br ok n s = Some (True, if n \<noteq> 0 \<and> n > lastBlockStoreOnStateDB s
         then s\<lparr>processingRanges := p, lastBlockStoreOnStateDB := n\<rparr> else s\<lparr>processingRanges := p\<rparr>)"
  | (failure) p e where "br \<in> lbr_members (processingRanges s)" "\<not> ok" "lbr_inv p" "lbr_inv e"
      "lbr_members p = lbr_members (processingRanges s) - {br}"
      "lbr_members e = insert br (lbr_members (errorRanges s))"
      "OnFinishWorker br ok n s = Some (True, s\<lparr>processingRanges := p, errorRanges := e\<rparr>)"
proof (cases "br \<in> lbr_members (processingRanges s)")
  case False
  then show thesis using other by (simp add: OnFinishWorker_def lbr.remove_other)
next
  case True
  note I = sync_invD [OF inv]
  have ne: "br \<notin> lbr_members (errorRanges s)" using True I(3) by blast
  obtain p e where m: "removeBlockRange br (processingRanges s) = (None, p)" "addBlockRange br (errorRanges s) = (None, e)"
      "lbr_inv p" "lbr_inv e" "lbr_members p = lbr_members (processingRanges s) - {br}"
      "lbr_members e = insert br (lbr_members (errorRanges s))"
    using lbr.move [OF I(1,2) I(4) [unfolded live_def] True ne] by blast
  show thesis
  proof (cases ok)
    case ok: True
    show thesis
      by (rule success [OF True ok m(3,5)]) (simp add: OnFinishWorker_def m(1) ok invalidBlockNumber_def)
  next
    case False
    show thesis
      by (rule failure [OF True False m(3,4,5,6)]) (simp add: OnFinishWorker_def m(1,2) False)
  qed
qed

lemma finish_success_inv:
  assumes inv: "sync_inv limit (start, s, d)" and br: "br \<in> lbr_members (processingRanges s)"
    and p: "lbr_inv p" "lbr_members p = lbr_members (processingRanges s) - {br}"
    and n: "n = toBlock br \<or> toBlock br = latestBlockNumber \<and> n \<le> limit" "n \<noteq> latestBlockNumber"
    and s': "s' = (if n \<noteq> 0 \<and> n > lastBlockStoreOnStateDB s
         then s\<lparr>processingRanges := p, lastBlockStoreOnStateDB := n\<rparr> else s\<lparr>processingRanges := p\<rparr>)"
  shows "sync_inv limit (start, s', d \<union> {fromBlock br..n})"
proof -
  note I = sync_invD [OF inv]
  have r: "br \<in> live s" using br by (simp add: live_def)
  have live: "live s' = live s - {br}" using p(2) I(3) br by (auto simp: s' live_def)
  have S: "lastBlockStoreOnStateDB s' = lastBlockStoreOnStateDB s \<or> lastBlockStoreOnStateDB s' = n"
    by (simp add: s')
  have "toBlock br = latestBlockNumber \<or> toBlock br \<le> limit" using I(5) r by (auto simp: within_def)
  with n have nl: "n \<le> limit" by auto
  have "lastBlockStoreOnStateDB s' < fromBlock r'" if "r' \<in> live s'" "toBlock r' = latestBlockNumber" for r'
  proof -
    have r': "r' \<in> live s" "r' \<noteq> br" using that(1) live by auto
    have lt: "toBlock br < fromBlock r'" using below_latest [OF I(4) r'(1) r _ that(2)] r'(2) by blast
    then have "toBlock br \<noteq> latestBlockNumber" using latest_greatest [of "fromBlock r'"] by (auto simp del: latest_greatest)
    with n lt have "n < fromBlock r'" by auto
    moreover have "lastBlockStoreOnStateDB s < fromBlock r'" using I(6) r' that(2) by (simp add: latest_on_top_def)
    ultimately show ?thesis using S by auto
  qed
  then have top: "latest_on_top (lastBlockStoreOnStateDB s') (live s')" by (simp add: latest_on_top_def)
  have gap: "no_gap start (lastBlockStoreOnStateDB s') (live s') (d \<union> {fromBlock br..n})"
    unfolding live by (rule no_gap_finish [OF I(7,4,6) r _ S]) (use n in blast)
  have wi: "within limit (lastBlockStoreOnStateDB s') (live s')" using I(5) live S nl by (auto simp: within_def)
  have ap: "pairwise_apart (live s')" using I(4) live by (auto intro: pairwise_apart_mono)
  have "lbr_members p \<inter> lbr_members (errorRanges s) = {}" using I(3) p(2) by auto
  then show ?thesis using I(2,8,9) p(1) top gap wi ap by (simp add: sync_inv_def s')
qed

lemma sync_step_inv:
  assumes "sync_step limit st st'" "sync_inv limit st"
  shows "sync_inv limit st'"
  using assms
proof cases
  case (launch s br s1 s2 start d)
  with GetNextRange_inv [of limit start s d] assms(2) show ?thesis by auto
next
  case (launch_retry s br s1 s2 start d)
  then have r: "getNextRangeOnlyRetriesUnsafe s = (Some br, s1)" by (simp add: GetNextRangeOnlyRetries_def)
  have i: "sync_inv limit (start, s, d)" using launch_retry assms(2) by simp
  show ?thesis
    using retries_inv [OF i r] start_retry_inv [OF retries_inv(1) [OF i r], of br] launch_retry by auto
next
  case (asked s offer s1 start d)
  with GetNextRange_inv [of limit start s d] assms(2) show ?thesis by auto
next
  case (asked_retry s offer s1 start d)
  then show ?thesis using retries_inv [of limit start s d] assms(2) by (simp add: GetNextRangeOnlyRetries_def)
next
  case (finished br n s s' start d)
  then have i: "sync_inv limit (start, s, d)" using assms(2) by simp
  show ?thesis
    using i by (cases rule: OnFinishWorker_cases [where br = br and ok = True and n = n])
      (use finished finish_success_inv [OF i, of br] in auto)
next
  case (failed br n s s' start d)
  then have i: "sync_inv limit (start, s, d)" using assms(2) by simp
  note I = sync_invD [OF i]
  show ?thesis
    using i
  proof (cases rule: OnFinishWorker_cases [where br = br and ok = False and n = n])
    case (failure p e)
    then have s': "s' = s\<lparr>processingRanges := p, errorRanges := e\<rparr>" using failed by simp
    have "live s' = live s" "lbr_members p \<inter> lbr_members e = {}"
      using failure s' I(3) by (auto simp: live_def)
    then show ?thesis using I failure failed s' by (simp add: sync_inv_def)
  qed (use failed in auto)
next
  case (unexpected br ok n s s' start d)
  then have i: "sync_inv limit (start, s, d)" using assms(2) by simp
  show ?thesis
    using i by (cases rule: OnFinishWorker_cases [where br = br and ok = ok and n = n]) (use unexpected i in auto)
next
  case (new_last lastBlock s resp s' start d)
  then have "s' = s \<or> s' = s\<lparr>lastBlockOnL1 := lastBlock\<rparr>"
    by (auto simp: OnNewLastBlockOnL1_def split: if_splits)
  then show ?thesis using new_last assms(2) by (auto simp: sync_inv_def live_def)
qed

lemma newSyncStatus_inv:
  "start \<le> limit \<Longrightarrow> unat limit + unat amount + 1 < 2 ^ 64 \<Longrightarrow> sync_inv limit (start, newSyncStatus start amount, {})"
  by (auto simp: sync_inv_def newSyncStatus_def newLiveBlockRanges_def live_def lbr_members_def lbr_inv_def
      pairwise_apart_def within_def latest_on_top_def no_gap_def invalidLastBlock_def)

lemma run_start_inv: "run_start limit start s0 \<Longrightarrow> sync_inv limit (start, s0, {})"
  using newSyncStatus_inv [of start limit]
  by (auto simp: run_start_def newSyncStatus_def)
    (auto simp: sync_inv_def ss_Reset_def newLiveBlockRanges_def live_def lbr_members_def lbr_inv_def
      pairwise_apart_def within_def latest_on_top_def no_gap_def)

lemma sync_reach_inv:
  assumes "(sync_step limit)\<^sup>*\<^sup>* (start, s0, {}) st" "run_start limit start s0"
  shows "sync_inv limit st"
  using assms(1) by (induction rule: rtranclp_induct) (auto intro: sync_step_inv run_start_inv assms(2))

section \<open>Properties\<close>

text \<open>
  C29. No L1 block is skipped for good. A run starts with a new status, or with a status that is reset
  while no range waits for its retry. However the producer then starts workers, whatever they
  answer and in whatever order, every block above the starting point, up to the last stored one and
  to the end of every range in flight, has been retrieved, is being retrieved, or is in the list of
  retries. A failed range up to the latest block is discarded and its blocks are then in none of
  these; but whenever a range is offered, every block between the starting point and its first one
  has been retrieved or is in a range in flight, so that what was discarded is asked for again by
  the next range, which is when L1 has a block above the highest requested one. The ranges in
  flight have no block in common, and none of the fatal errors of the status is reached.
\<close>

theorem sync_skips_no_block:
  assumes "(sync_step limit)\<^sup>*\<^sup>* (start0, s0, {}) (start, s, d)" "run_start limit start0 s0"
  shows "(\<forall>b > start. b \<le> lastBlockStoreOnStateDB s \<or> (\<exists>r \<in> live s. b \<le> toBlock r) \<longrightarrow>
      b \<in> d \<or> (\<exists>r \<in> live s. b \<in> blocks_of r)) \<and> pairwise_apart (live s) \<and>
    OnFinishWorker br ok n s \<noteq> None \<and>
    (case GetNextRange s of None \<Rightarrow> False | Some (None, s1) \<Rightarrow> True
     | Some (Some br, s1) \<Rightarrow> OnStartedNewWorker br s1 \<noteq> None \<and>
         (\<forall>b. start < b \<and> b < fromBlock br \<longrightarrow> b \<in> d \<or> (\<exists>r \<in> live s1. b \<in> blocks_of r)))"
proof (intro conjI)
  have inv: "sync_inv limit (start, s, d)" by (rule sync_reach_inv [OF assms])
  note I = sync_invD [OF inv]
  show "\<forall>b > start. b \<le> lastBlockStoreOnStateDB s \<or> (\<exists>r \<in> live s. b \<le> toBlock r) \<longrightarrow>
      b \<in> d \<or> (\<exists>r \<in> live s. b \<in> blocks_of r)" using I(7) unfolding no_gap_def .
  show "pairwise_apart (live s)" by (rule I(4))
  show "OnFinishWorker br ok n s \<noteq> None"
    using inv by (cases rule: OnFinishWorker_cases [where br = br and ok = ok and n = n]) simp_all
  show "case GetNextRange s of None \<Rightarrow> False | Some (None, s1) \<Rightarrow> True
     | Some (Some br, s1) \<Rightarrow> OnStartedNewWorker br s1 \<noteq> None \<and>
         (\<forall>b. start < b \<and> b < fromBlock br \<longrightarrow> b \<in> d \<or> (\<exists>r \<in> live s1. b \<in> blocks_of r))"
    unfolding no_hole_def [symmetric] using GetNextRange_offer [OF inv] by (auto split: option.splits)
qed

text \<open>
  When the status says that the node is fully synchronized, every block from the starting
  point to the last stored one has been retrieved, and all blocks up to the last known block
  of L1 have been requested once. That they have been retrieved does not follow: the range up to
  the latest block may have failed and been discarded.
\<close>

theorem fully_synchronized_is_complete:
  assumes "(sync_step limit)\<^sup>*\<^sup>* (start0, s0, {}) (start, s, d)" "run_start limit start0 s0"
    and "IsNodeFullySynchronizedWithL1 s"
  shows "{start<..lastBlockStoreOnStateDB s} \<subseteq> d \<and> HaveRequiredAllBlocksToBeSynchronized s"
proof -
  have "no_gap start (lastBlockStoreOnStateDB s) (live s) d"
    using sync_invD(7) [OF sync_reach_inv [OF assms(1,2)]] .
  moreover have "live s = {}"
    using assms(3) by (simp add: IsNodeFullySynchronizedWithL1_def live_def lbr_members_def lbr_len_def split: if_splits)
  ultimately show ?thesis
    using assms(3) by (auto simp: no_gap_def IsNodeFullySynchronizedWithL1_def
        HaveRequiredAllBlocksToBeSynchronized_def split: if_splits)
qed

text \<open>
  A new range starts right after the last block and, when it does not reach the last block
  of L1, holds one block more than the configured amount; when it would reach it, it goes up
  to the latest block.
\<close>

theorem next_range_size:
  assumes "unat lastBlockInState + unat amount + 1 < 2 ^ 64"
  shows "let br = getNextBlockRangeFromUnsafe lastBlockInState lastBlockInL1 amount in
    fromBlock br = lastBlockInState + 1 \<and>
    (if lastBlockInL1 \<le> lastBlockInState + 1 + amount then toBlock br = latestBlockNumber
     else br_len br = amount + 1 \<or> toBlock br = latestBlockNumber \<or> fromBlock br = latestBlockNumber)"
  by (auto simp: getNextBlockRangeFromUnsafe_def min_def br_len_def not_le)

text \<open>The witness run: two new ranges, the first fails and is retried, both succeed.\<close>

definition brange :: "u64 \<Rightarrow> u64 \<Rightarrow> blockRange" where
  "brange f t = \<lparr>fromBlock = f, toBlock = t\<rparr>"

definition synced_at_100 :: syncStatus where
  "synced_at_100 = \<lparr>lastBlockStoreOnStateDB = 100, highestBlockRequested = 100, lastBlockOnL1 = 0,
     amountOfBlocksInEachRange = 10, processingRanges = \<lparr>ranges = []\<rparr>, errorRanges = \<lparr>ranges = []\<rparr>\<rparr>"

lemma synced_at_100_eq: "newSyncStatus 100 10 = synced_at_100"
  by (simp add: synced_at_100_def newSyncStatus_def newLiveBlockRanges_def invalidLastBlock_def)

lemmas sync_eval = GetNextRange_def getNextRangeOnlyRetriesUnsafe_def getFirstBlockRange_def lbr_len_def
  getHighestBlockRequestedUnsafe_def getNextBlockRangeFromUnsafe_def isValid_def latestBlockNumber_def
  invalidBlockNumber_def invalidLastBlock_def OnStartedNewWorker_def OnFinishWorker_def OnNewLastBlockOnL1_def
  addBlockRange_def removeBlockRange_def lbr_overlaps_def br_overlaps_def ss_Reset_def newLiveBlockRanges_def
  brange_def

lemma synced_at_100_run:
  "(sync_step 1000) (100, synced_at_100, {}) (100, synced_at_100\<lparr>lastBlockOnL1 := 1000\<rparr>, {})"
  by (rule sync_step.new_last [where lastBlock = 1000]) (simp_all add: synced_at_100_def sync_eval)

lemma synced_at_100_start: "run_start 1000 100 synced_at_100"
  unfolding run_start_def synced_at_100_eq [symmetric] by (auto simp: newSyncStatus_def)

theorem sync_skips_no_block_witness:
  "OnFinishWorker (brange 101 111) True 111 (synced_at_100\<lparr>lastBlockOnL1 := 1000\<rparr>) \<noteq> None \<and>
   GetNextRange (synced_at_100\<lparr>lastBlockOnL1 := 1000\<rparr>) \<noteq> None"
proof -
  have "(sync_step 1000)\<^sup>*\<^sup>* (100, synced_at_100, {}) (100, synced_at_100\<lparr>lastBlockOnL1 := 1000\<rparr>, {})"
    using synced_at_100_run by simp
  from sync_skips_no_block [OF this synced_at_100_start, of "brange 101 111" True 111] show ?thesis
    by (auto split: option.splits)
qed

theorem fully_synchronized_is_complete_witness:
  "{100<..lastBlockStoreOnStateDB (synced_at_100\<lparr>lastBlockOnL1 := 100\<rparr>)} \<subseteq> {}"
proof -
  have "(sync_step 1000) (100, synced_at_100, {}) (100, synced_at_100\<lparr>lastBlockOnL1 := 100\<rparr>, {})"
    by (rule sync_step.new_last [where lastBlock = 100]) (simp_all add: synced_at_100_def sync_eval)
  then have "(sync_step 1000)\<^sup>*\<^sup>* (100, synced_at_100, {}) (100, synced_at_100\<lparr>lastBlockOnL1 := 100\<rparr>, {})" by simp
  from fully_synchronized_is_complete [OF this synced_at_100_start] show ?thesis
    by (simp add: synced_at_100_def IsNodeFullySynchronizedWithL1_def lbr_len_def invalidLastBlock_def)
qed

text \<open>
  A node that calls itself synchronized without its last blocks: L1 has block 105, the range from 101
  to the latest block fails and is discarded, and nothing is offered until L1 has a higher block;
  the range offered then starts at 101 again.
\<close>

theorem discarded_range_looks_synchronized:
  "do { s1 \<leftarrow> Some (snd (OnNewLastBlockOnL1 105 synced_at_100));
        (br1, s2) \<leftarrow> GetNextRange s1;
        s3 \<leftarrow> OnStartedNewWorker (the br1) s2;
        (_, s4) \<leftarrow> OnFinishWorker (the br1) False 0 s3;
        (br2, s5) \<leftarrow> GetNextRange s4;
        (br3, s6) \<leftarrow> GetNextRange (snd (OnNewLastBlockOnL1 106 s5));
        Some (br1, br2, IsNodeFullySynchronizedWithL1 s5, lastBlockStoreOnStateDB s5, br3) } =
   Some (Some (brange 101 latestBlockNumber), None, True, 100, Some (brange 101 latestBlockNumber))"
  by (simp add: synced_at_100_def sync_eval IsNodeFullySynchronizedWithL1_def)

theorem next_range_size_witness:
  "br_len (getNextBlockRangeFromUnsafe 100 1000 10) = 11"
  using next_range_size [of 100 10 1000]
  by (simp add: getNextBlockRangeFromUnsafe_def latestBlockNumber_def br_len_def)

text \<open>
  \<open>Reset\<close> keeps the retries of the previous run, and blocks are skipped after it: the
  status was at block 100, the range of blocks 101 to 111 failed and waits for its retry, and
  the status is reset to block 50. The two ranges started next are 101 to 111 and 112 to 122,
  and when both have succeeded the next range starts at 123: the blocks from 51 to 100 are
  never requested.
\<close>

theorem reset_skips_blocks:
  "do { s1 \<leftarrow> Some (ss_Reset 50 (synced_at_100\<lparr>lastBlockOnL1 := 1000, highestBlockRequested := 111,
            errorRanges := \<lparr>ranges = [brange 101 111]\<rparr>\<rparr>));
        (br1, s2) \<leftarrow> GetNextRange s1;
        s3 \<leftarrow> OnStartedNewWorker (the br1) s2;
        (br2, s4) \<leftarrow> GetNextRange s3;
        s5 \<leftarrow> OnStartedNewWorker (the br2) s4;
        (_, s6) \<leftarrow> OnFinishWorker (the br1) True 111 s5;
        (_, s7) \<leftarrow> OnFinishWorker (the br2) True 122 s6;
        (br3, s8) \<leftarrow> GetNextRange s7;
        Some (br1, br2, br3, lastBlockStoreOnStateDB s1) } =
   Some (Some (brange 101 111), Some (brange 112 122), Some (brange 123 133), 50)"
  by (simp add: synced_at_100_def sync_eval)

text \<open>
  A block above the last known one is not taken to be in the area where a reorganization
  is possible: the distance wraps around.
\<close>

theorem unsafe_area_wraps:
  assumes "lastBlockOnL1 s < b" "unat b - unat (lastBlockOnL1 s) \<le> 2 ^ 64 - 96"
  shows "\<not> BlockNumberIsInsideUnsafeArea b s"
proof -
  have "unat (lastBlockOnL1 s - b) = 2 ^ 64 - (unat b - unat (lastBlockOnL1 s))"
    using assms(1) unsigned_less [of b] by (simp add: unat_sub_if' word_less_nat_alt)
  then have "96 \<le> unat (lastBlockOnL1 s - b)" using assms(2) by simp
  moreover have "b \<noteq> 0" using assms(1) by auto
  ultimately show ?thesis
    by (simp add: BlockNumberIsInsideUnsafeArea_def invalidBlockNumber_def word_less_nat_alt
        maximumBlockDistanceFromLatestToFinalized_def)
qed

theorem unsafe_area_wraps_witness:
  "\<not> BlockNumberIsInsideUnsafeArea 101 (synced_at_100\<lparr>lastBlockOnL1 := 100\<rparr>)"
  by (rule unsafe_area_wraps) simp_all

end
