(* ===== verification/L1Worker.thy ===== *)
theory L1Worker
  imports L1SyncStatus Resources
begin

text \<open>
  The L1 workers (\<open>synchronizer/l1_worker_etherman.go\<close>, \<open>l1_workers.go\<close>), the blocks and events
  they retrieve (\<open>etherman/types.go\<close>) and the messages made of them
  (\<open>synchronizer/l1_data_message.go\<close>). The Ethereum client is a parameter: \<open>eth k\<close> is what it
  answers at the \<open>k\<close>-th call of a request, so that its answers may change in between, as they
  do when L1 is reorganized.
\<close>

section \<open>Blocks\<close>

record GlobalExitRoot =
  ger_BlockNumber :: u64
  MainnetExitRoot :: hash
  RollupExitRoot :: hash
  ger_GlobalExitRoot :: hash

record PolygonZkEVMBatchData =
  bd_Transactions :: bytes
  bd_GlobalExitRoot :: hash
  bd_Timestamp :: u64
  bd_MinForcedTimestamp :: u64

record SequencedBatch =
  sb_BatchNumber :: u64
  sb_SequencerAddr :: address
  sb_TxHash :: hash
  sb_Nonce :: u64
  sb_Coinbase :: address
  sb_Data :: PolygonZkEVMBatchData

record ForcedBatch =
  fb_BlockNumber :: u64
  fb_ForcedBatchNumber :: u64
  fb_Sequencer :: address
  fb_GlobalExitRoot :: hash
  fb_RawTxsData :: bytes
  fb_ForcedAt :: int

record VerifiedBatch =
  vb_BlockNumber :: u64
  vb_BatchNumber :: u64
  vb_Aggregator :: address
  vb_StateRoot :: hash
  vb_TxHash :: hash

record PolygonZkEVMForcedBatchData =
  fd_Transactions :: bytes
  fd_GlobalExitRoot :: hash
  fd_MinForcedTimestamp :: u64

record SequencedForceBatch =
  sf_BatchNumber :: u64
  sf_Coinbase :: address
  sf_TxHash :: hash
  sf_Timestamp :: int
  sf_Nonce :: u64
  sf_Data :: PolygonZkEVMForcedBatchData

record ForkID =
  fk_BatchNumber :: u64
  fk_ForkID :: u64
  fk_Version :: string

record EthBlock =
  BlockNumber :: u64
  BlockHash :: hash
  ParentHash :: hash
  GlobalExitRoots :: "GlobalExitRoot list"
  ForcedBatches :: "ForcedBatch list"
  SequencedBatches :: "SequencedBatch list list"
  VerifiedBatches :: "VerifiedBatch list"
  SequencedForceBatches :: "SequencedForceBatch list list"
  ForkIDs :: "ForkID list"
  BlockReceivedAt :: int

record Order =
  ord_Name :: string
  ord_Pos :: int

type_synonym block_order = "(hash, Order list) gomap"

record StateBlock =
  stb_BlockNumber :: u64
  stb_BlockHash :: hash
  stb_ParentHash :: hash
  stb_ReceivedAt :: int

text \<open>
  go-ethereum's block, by the methods the code calls on it: \<open>NumberU64\<close>, \<open>Hash\<close>, \<open>ParentHash\<close> and
  \<open>Time\<close> in seconds.
\<close>

record gethBlock =
  NumberU64 :: u64
  geth_Hash :: hash
  geth_ParentHash :: hash
  geth_Time :: u64

text \<open>\<open>time.Unix(int64(t), 0)\<close>: the conversion to a signed integer keeps the bits.\<close>

definition unixTime :: "u64 \<Rightarrow> int" where
  "unixTime t = sint t"

definition convertL1BlockToEthBlock :: "gethBlock \<Rightarrow> EthBlock" where
  "convertL1BlockToEthBlock fb =
     \<lparr>BlockNumber = NumberU64 fb, BlockHash = geth_Hash fb, ParentHash = geth_ParentHash fb,
      GlobalExitRoots = [], ForcedBatches = [], SequencedBatches = [], VerifiedBatches = [],
      SequencedForceBatches = [], ForkIDs = [], BlockReceivedAt = unixTime (geth_Time fb)\<rparr>"

definition convertL1BlockToStateBlock :: "gethBlock \<Rightarrow> StateBlock" where
  "convertL1BlockToStateBlock fb =
     \<lparr>stb_BlockNumber = NumberU64 fb, stb_BlockHash = geth_Hash fb, stb_ParentHash = geth_ParentHash fb,
      stb_ReceivedAt = unixTime (geth_Time fb)\<rparr>"

definition convertEthmanBlockToStateBlock :: "EthBlock \<Rightarrow> StateBlock" where
  "convertEthmanBlockToStateBlock fb =
     \<lparr>stb_BlockNumber = BlockNumber fb, stb_BlockHash = BlockHash fb, stb_ParentHash = ParentHash fb,
      stb_ReceivedAt = BlockReceivedAt fb\<rparr>"

section \<open>Results\<close>

record rollupInfoByBlockRangeResult =
  rr_blockRange :: blockRange
  rr_blocks :: "EthBlock list"
  rr_order :: block_order
  lastBlockOfRange :: "gethBlock option"
  previousBlockOfRange :: "gethBlock option"

fun highest_block :: "EthBlock list \<Rightarrow> u64 \<Rightarrow> u64" where
  "highest_block [] highest = highest"
| "highest_block (b # bs) highest =
     highest_block bs (if BlockNumber b > highest then BlockNumber b else highest)"

definition getRealHighestBlockNumberInResponse :: "rollupInfoByBlockRangeResult \<Rightarrow> u64" where
  "getRealHighestBlockNumberInResponse r =
     (let highest = highest_block (rr_blocks r) invalidBlockNumber
      in case lastBlockOfRange r of
           Some b \<Rightarrow> if NumberU64 b > highest then NumberU64 b else highest
         | None \<Rightarrow> highest)"

definition getHighestBlockNumberInResponse :: "rollupInfoByBlockRangeResult \<Rightarrow> u64" where
  "getHighestBlockNumberInResponse r =
     (if toBlock (rr_blockRange r) \<noteq> latestBlockNumber then toBlock (rr_blockRange r)
      else getRealHighestBlockNumberInResponse r)"

fun highest_received :: "EthBlock list \<Rightarrow> StateBlock option \<Rightarrow> StateBlock option" where
  "highest_received [] highest = highest"
| "highest_received (b # bs) highest =
     highest_received bs
       (case highest of
          None \<Rightarrow> Some (convertEthmanBlockToStateBlock b)
        | Some h \<Rightarrow> if BlockNumber b > stb_BlockNumber h then Some (convertEthmanBlockToStateBlock b) else highest)"

definition getHighestBlockReceived :: "rollupInfoByBlockRangeResult \<Rightarrow> StateBlock option" where
  "getHighestBlockReceived r =
     (case lastBlockOfRange r of
        Some b \<Rightarrow> Some (convertL1BlockToStateBlock b)
      | None \<Rightarrow> highest_received (rr_blocks r) None)"

section \<open>Messages\<close>

datatype eventEnum = eventNone | eventStop | eventProducerIsFullySynced

fun eventEnum_String :: "eventEnum \<Rightarrow> string" where
  "eventEnum_String eventNone = ''actionNone''"
| "eventEnum_String eventStop = ''actionStop''"
| "eventEnum_String eventProducerIsFullySynced = ''eventIsFullySynced''"

record l1SyncMessage =
  dataIsValid :: bool
  msg_data :: rollupInfoByBlockRangeResult
  ctrlIsValid :: bool
  msg_ctrl :: eventEnum

text \<open>Go's zero value of the result.\<close>

definition zeroResult :: rollupInfoByBlockRangeResult where
  "zeroResult = \<lparr>rr_blockRange = \<lparr>fromBlock = 0, toBlock = 0\<rparr>, rr_blocks = [], rr_order = [],
     lastBlockOfRange = None, previousBlockOfRange = None\<rparr>"

definition newL1SyncMessageControl :: "eventEnum \<Rightarrow> l1SyncMessage" where
  "newL1SyncMessageControl event =
     \<lparr>dataIsValid = False, msg_data = zeroResult, ctrlIsValid = True, msg_ctrl = event\<rparr>"

text \<open>A nil result is fatal.\<close>

definition newL1SyncMessageData :: "rollupInfoByBlockRangeResult option \<Rightarrow> l1SyncMessage option" where
  "newL1SyncMessageData result =
     (case result of
        None \<Rightarrow> None
      | Some r \<Rightarrow> Some \<lparr>dataIsValid = True, msg_data = r, ctrlIsValid = False, msg_ctrl = eventNone\<rparr>)"

section \<open>Requests\<close>

datatype requestLastBlockMode =
    requestLastBlockModeNone
  | requestLastBlockModeIfNoBlocksInAnswer
  | requestLastBlockModeAlways

record requestRollupInfoByBlockRange =
  rq_blockRange :: blockRange
  sleepBefore :: int
  requestLastBlockIfNoBlocksInAnswer :: requestLastBlockMode
  requestPreviousBlock :: bool

record etherman =
  EthBlockByNumber :: "u64 \<Rightarrow> go_error + gethBlock"
  GetRollupInfoByBlockRange :: "u64 \<Rightarrow> u64 option \<Rightarrow> go_error + EthBlock list \<times> block_order"
  HeaderByNumber :: "go_error + u64"

fun mustRequestLastBlock :: "requestLastBlockMode \<Rightarrow> int \<Rightarrow> u64 \<Rightarrow> bool" where
  "mustRequestLastBlock requestLastBlockModeNone lenBlocks lastBlockRequest = False"
| "mustRequestLastBlock requestLastBlockModeIfNoBlocksInAnswer lenBlocks lastBlockRequest =
     (lenBlocks = 0 \<and> lastBlockRequest \<noteq> latestBlockNumber)"
| "mustRequestLastBlock requestLastBlockModeAlways lenBlocks lastBlockRequest =
     (lastBlockRequest \<noteq> latestBlockNumber)"

definition fillLastBlock ::
    "etherman \<Rightarrow> requestRollupInfoByBlockRange \<Rightarrow> bool \<Rightarrow> rollupInfoByBlockRangeResult \<Rightarrow>
     go_error option \<times> rollupInfoByBlockRangeResult" where
  "fillLastBlock eth request haveExecutedRollupInfo result =
     (if lastBlockOfRange result \<noteq> None then (None, result)
      else
        (let lenBlocks = (if \<not> haveExecutedRollupInfo then -1 else int (length (rr_blocks result)))
         in if mustRequestLastBlock (requestLastBlockIfNoBlocksInAnswer request) lenBlocks
               (toBlock (rq_blockRange request))
            then case EthBlockByNumber eth (toBlock (rq_blockRange request)) of
                   Inl err \<Rightarrow> (Some err, result)
                 | Inr lastBlock \<Rightarrow> (None, result\<lparr>lastBlockOfRange := Some lastBlock\<rparr>)
            else (None, result)))"

definition fillRollup ::
    "etherman \<Rightarrow> requestRollupInfoByBlockRange \<Rightarrow> rollupInfoByBlockRangeResult \<Rightarrow>
     go_error option \<times> rollupInfoByBlockRangeResult" where
  "fillRollup eth request result =
     (let t = (if toBlock (rq_blockRange request) \<noteq> latestBlockNumber
               then Some (toBlock (rq_blockRange request)) else None)
      in case GetRollupInfoByBlockRange eth (fromBlock (rq_blockRange request)) t of
           Inl err \<Rightarrow> (Some err, result\<lparr>rr_blocks := [], rr_order := []\<rparr>)
         | Inr (blocks, order) \<Rightarrow> (None, result\<lparr>rr_blocks := blocks, rr_order := order\<rparr>))"

definition fillPreviousBlock ::
    "etherman \<Rightarrow> requestRollupInfoByBlockRange \<Rightarrow> rollupInfoByBlockRangeResult \<Rightarrow>
     go_error option \<times> rollupInfoByBlockRangeResult" where
  "fillPreviousBlock eth request result =
     (if requestPreviousBlock request \<and> fromBlock (rq_blockRange request) > 2
      then case EthBlockByNumber eth (fromBlock (rq_blockRange request) - 1) of
             Inl err \<Rightarrow> (Some err, result\<lparr>previousBlockOfRange := None\<rparr>)
           | Inr b \<Rightarrow> (None, result\<lparr>previousBlockOfRange := Some b\<rparr>)
      else (None, result))"

text \<open>The four phases of a request, each with the client as it is at that moment.\<close>

definition executeRequestRollupInfoByBlockRange ::
    "(nat \<Rightarrow> etherman) \<Rightarrow> requestRollupInfoByBlockRange \<Rightarrow>
     go_error option \<times> rollupInfoByBlockRangeResult" where
  "executeRequestRollupInfoByBlockRange eth request =
     (let r0 = \<lparr>rr_blockRange = rq_blockRange request, rr_blocks = [], rr_order = [],
                lastBlockOfRange = None, previousBlockOfRange = None\<rparr>;
          (e1, r1) = fillLastBlock (eth 0) request False r0
      in if e1 \<noteq> None then (e1, r1) else
         (let (e2, r2) = fillRollup (eth 1) request r1 in
          if e2 \<noteq> None then (e2, r2) else
          (let (e3, r3) = fillLastBlock (eth 2) request True r2 in
           if e3 \<noteq> None then (e3, r3) else fillPreviousBlock (eth 3) request r3)))"

lemma fill_keeps_range:
  "rr_blockRange (snd (fillLastBlock eth request b r)) = rr_blockRange r"
  "rr_blockRange (snd (fillRollup eth request r)) = rr_blockRange r"
  "rr_blockRange (snd (fillPreviousBlock eth request r)) = rr_blockRange r"
  by (auto simp: fillLastBlock_def fillRollup_def fillPreviousBlock_def split: sum.splits)

text \<open>Whether it succeeds or not, a request answers for the range it was made for.\<close>

lemma execute_keeps_range:
  "rr_blockRange (snd (executeRequestRollupInfoByBlockRange eth request)) = rq_blockRange request"
  using fill_keeps_range
  by (simp add: executeRequestRollupInfoByBlockRange_def split: prod.splits) (metis (no_types, lifting) rollupInfoByBlockRangeResult.select_convs(1) snd_conv)

end
