(* ===== verification/L1Cache.thy ===== *)
theory L1Cache
  imports L1Worker
begin

text \<open>
  The cache with a time of life per entry (\<open>synchronizer/generic_cache.go\<close>) and the decorator
  that spaces out the requests for the same range with it
  (\<open>synchronizer/l1_workers_decorator_limit_retries_by_time.go\<close>). Times and durations are
  integers (nanoseconds); every reading of the clock is an argument. What a client of the
  cache relies on is the locale \<open>ttl_store\<close>, stated on the entries visible at a time.
\<close>

section \<open>The cache\<close>

record 'v cacheItem =
  ci_value :: 'v
  validTime :: int

record ('k, 'v) Cache =
  c_data :: "('k, 'v cacheItem) gomap"
  timeOfLiveItems :: int

definition NewCache :: "int \<Rightarrow> ('k, 'v) Cache" where
  "NewCache timeOfLive = \<lparr>c_data = [], timeOfLiveItems = timeOfLive\<rparr>"

definition isOutdated :: "int \<Rightarrow> int \<Rightarrow> bool" where
  "isOutdated valid now \<longleftrightarrow> valid < now"

text \<open>The zero value with \<open>false\<close> is \<open>None\<close>. The clock is read twice on a hit.\<close>

definition cache_Get :: "int \<Rightarrow> int \<Rightarrow> 'k \<Rightarrow> ('k, 'v) Cache \<Rightarrow> 'v option \<times> ('k, 'v) Cache" where
  "cache_Get now1 now2 key c =
     (case gm_get (c_data c) key of
        None \<Rightarrow> (None, c)
      | Some item \<Rightarrow>
          if validTime item < now1 then (None, c\<lparr>c_data := gm_del key (c_data c)\<rparr>)
          else (Some (ci_value item),
                c\<lparr>c_data := gm_set key (item\<lparr>validTime := now2 + timeOfLiveItems c\<rparr>) (c_data c)\<rparr>))"

definition cache_Set :: "int \<Rightarrow> 'k \<Rightarrow> 'v \<Rightarrow> ('k, 'v) Cache \<Rightarrow> ('k, 'v) Cache" where
  "cache_Set now key v c =
     c\<lparr>c_data := gm_set key \<lparr>ci_value = v, validTime = now + timeOfLiveItems c\<rparr> (c_data c)\<rparr>"

definition cache_Delete :: "'k \<Rightarrow> ('k, 'v) Cache \<Rightarrow> ('k, 'v) Cache" where
  "cache_Delete key c = c\<lparr>c_data := gm_del key (c_data c)\<rparr>"

definition cache_Len :: "('k, 'v) Cache \<Rightarrow> nat" where
  "cache_Len c = length (c_data c)"

definition cache_Keys :: "('k, 'v) Cache \<Rightarrow> 'k list" where
  "cache_Keys c = map fst (c_data c)"

definition cache_Values :: "('k, 'v) Cache \<Rightarrow> 'v list" where
  "cache_Values c = map (\<lambda>(k, item). ci_value item) (c_data c)"

definition cache_Clear :: "('k, 'v) Cache \<Rightarrow> ('k, 'v) Cache" where
  "cache_Clear c = c\<lparr>c_data := []\<rparr>"

text \<open>\<open>nows k\<close> is the reading made when the range visits \<open>k\<close>.\<close>

definition cache_DeleteOutdated :: "('k \<Rightarrow> int) \<Rightarrow> ('k, 'v) Cache \<Rightarrow> ('k, 'v) Cache" where
  "cache_DeleteOutdated nows c =
     c\<lparr>c_data := go_range (\<lambda>m. m)
         (\<lambda>k v m. if isOutdated (validTime v) (nows k) then gm_del k m else m)
         (map fst (c_data c)) (c_data c)\<rparr>"

text \<open>The second argument of \<open>RenewEntry\<close> is not used by the code.\<close>

definition cache_RenewEntry :: "int \<Rightarrow> 'k \<Rightarrow> int \<Rightarrow> ('k, 'v) Cache \<Rightarrow> ('k, 'v) Cache" where
  "cache_RenewEntry now key valid c =
     (case gm_get (c_data c) key of
        Some item \<Rightarrow> c\<lparr>c_data := gm_set key (item\<lparr>validTime := now + timeOfLiveItems c\<rparr>) (c_data c)\<rparr>
      | None \<Rightarrow> c)"

section \<open>What is visible at a time\<close>

definition cache_wf :: "('k, 'v) Cache \<Rightarrow> bool" where
  "cache_wf c \<longleftrightarrow> gm_wf (c_data c) \<and> 0 \<le> timeOfLiveItems c"

definition visible :: "('k, 'v) Cache \<Rightarrow> int \<Rightarrow> 'k \<Rightarrow> 'v option" where
  "visible c t k =
     (case gm_get (c_data c) k of
        Some item \<Rightarrow> if validTime item < t then None else Some (ci_value item)
      | None \<Rightarrow> None)"

text \<open>
  The contract: a lookup answers what is visible at its first reading; an entry is visible
  from the moment it is set for the time of life; a lookup that hits renews its entry; a
  purge hides nothing that is visible at a later time; the other keys are not touched.
\<close>

locale ttl_store =
  fixes get :: "int \<Rightarrow> int \<Rightarrow> 'k \<Rightarrow> 'c \<Rightarrow> 'v option \<times> 'c"
    and put :: "int \<Rightarrow> 'k \<Rightarrow> 'v \<Rightarrow> 'c \<Rightarrow> 'c"
    and purge :: "('k \<Rightarrow> int) \<Rightarrow> 'c \<Rightarrow> 'c"
    and view :: "'c \<Rightarrow> int \<Rightarrow> 'k \<Rightarrow> 'v option"
    and life :: "'c \<Rightarrow> int"
    and wf :: "'c \<Rightarrow> bool"
  assumes get_view: "wf c \<Longrightarrow> fst (get now1 now2 k c) = view c now1 k"
    and get_other: "wf c \<Longrightarrow> k' \<noteq> k \<Longrightarrow> view (snd (get now1 now2 k c)) t k' = view c t k'"
    and get_renews: "wf c \<Longrightarrow> view c now1 k = Some v \<Longrightarrow> t \<le> now2 + life c \<Longrightarrow>
      view (snd (get now1 now2 k c)) t k = Some v"
    and put_view: "wf c \<Longrightarrow> t \<le> now + life c \<Longrightarrow>
      view (put now k v c) t k' = (if k' = k then Some v else view c t k')"
    and purge_view: "wf c \<Longrightarrow> (\<And>k. nows k \<le> t) \<Longrightarrow> view (purge nows c) t k = view c t k"
    and wf_get: "wf c \<Longrightarrow> wf (snd (get now1 now2 k c))"
    and wf_put: "wf c \<Longrightarrow> wf (put now k v c)"
    and wf_purge: "wf c \<Longrightarrow> wf (purge nows c)"
    and life_get: "life (snd (get now1 now2 k c)) = life c"
    and life_put: "life (put now k v c) = life c"
    and life_purge: "life (purge nows c) = life c"

lemma visible_set:
  "gm_wf (c_data c) \<Longrightarrow> visible (c\<lparr>c_data := gm_set k item (c_data c)\<rparr>) t k' =
     (if k' = k then if validTime item < t then None else Some (ci_value item) else visible c t k')"
  by (simp add: visible_def gomap_simps)

lemma visible_filter:
  assumes "gm_wf m" "\<And>k v. (k, v) \<in> set m \<Longrightarrow> \<not> P k v \<Longrightarrow> validTime v < t"
  shows "visible (c\<lparr>c_data := filter (\<lambda>(k, v). P k v) m\<rparr>) t k = visible (c\<lparr>c_data := m\<rparr>) t k"
proof -
  have "gm_get (filter (\<lambda>(k, v). P k v) m) k = (case gm_get m k of Some v \<Rightarrow> if P k v then Some v else None | None \<Rightarrow> None)"
    using gm_get_filter [OF assms(1), of "\<lambda>(k, v). P k v" k] by (auto split: option.splits)
  with assms(2) show ?thesis
    by (auto simp: visible_def split: option.splits dest: gm_get_SomeD)
qed

interpretation ch: ttl_store cache_Get cache_Set cache_DeleteOutdated visible timeOfLiveItems cache_wf
proof unfold_locales
  fix c :: "('k, 'v) Cache" and now1 now2 now t k k' v nows
  show "timeOfLiveItems (snd (cache_Get now1 now2 k c)) = timeOfLiveItems c"
    "timeOfLiveItems (cache_Set now k v c) = timeOfLiveItems c"
    "timeOfLiveItems (cache_DeleteOutdated nows c) = timeOfLiveItems c"
    by (simp_all add: cache_Get_def cache_Set_def cache_DeleteOutdated_def split: option.splits)
  assume wf: "cache_wf c"
  then have m: "gm_wf (c_data c)" by (simp add: cache_wf_def)
  show "fst (cache_Get now1 now2 k c) = visible c now1 k"
    by (simp add: cache_Get_def visible_def split: option.splits)
  show "k' \<noteq> k \<Longrightarrow> visible (snd (cache_Get now1 now2 k c)) t k' = visible c t k'"
    using m by (cases "gm_get (c_data c) k") (simp_all add: cache_Get_def visible_def gomap_simps)
  show "visible c now1 k = Some v \<Longrightarrow> t \<le> now2 + timeOfLiveItems c \<Longrightarrow>
      visible (snd (cache_Get now1 now2 k c)) t k = Some v"
    using m by (auto simp: cache_Get_def visible_def gomap_simps split: option.splits if_splits)
  show "t \<le> now + timeOfLiveItems c \<Longrightarrow>
      visible (cache_Set now k v c) t k' = (if k' = k then Some v else visible c t k')"
    using m by (simp add: cache_Set_def visible_set)
  have "cache_DeleteOutdated nows c =
      c\<lparr>c_data := filter (\<lambda>(k, v). \<not> isOutdated (validTime v) (nows k)) (c_data c)\<rparr>"
    unfolding cache_DeleteOutdated_def by (subst go_range_filter [OF m]) simp_all
  note del = this
  show "(\<And>k. nows k \<le> t) \<Longrightarrow> visible (cache_DeleteOutdated nows c) t k = visible c t k"
    unfolding del by (subst visible_filter [OF m]) (auto simp: isOutdated_def dest: less_le_trans)
  show "cache_wf (snd (cache_Get now1 now2 k c))" "cache_wf (cache_Set now k v c)"
    using wf by (auto simp: cache_wf_def cache_Get_def cache_Set_def gomap_simps split: option.splits)
  show "cache_wf (cache_DeleteOutdated nows c)"
    using wf unfolding del by (simp add: cache_wf_def gm_wf_filter)
qed

section \<open>Spacing out the requests\<close>

record controlWorkerFlux =
  cwf_time :: int
  cwf_retries :: int

definition timeOfLiveOfEntries :: int where
  "timeOfLiveOfEntries = 3600 * 1000000000"

definition errAllWorkersBusy :: go_error where
  "errAllWorkersBusy = ErrorString ''all workers are busy''"

text \<open>The readings of the clock in a call, in order.\<close>

record limit_clock =
  lc_get1 :: int
  lc_get2 :: int
  lc_since :: int
  lc_tag :: int
  lc_set :: int
  lc_purge :: "blockRange \<Rightarrow> int"

text \<open>
  The decorator over any store; \<open>workers\<close> is the decorated call, of which the outcome is its
  error. The request that goes to the workers is part of the result.
\<close>

definition limited_request ::
    "(int \<Rightarrow> int \<Rightarrow> blockRange \<Rightarrow> 'c \<Rightarrow> controlWorkerFlux option \<times> 'c) \<Rightarrow>
     (int \<Rightarrow> blockRange \<Rightarrow> controlWorkerFlux \<Rightarrow> 'c \<Rightarrow> 'c) \<Rightarrow> ((blockRange \<Rightarrow> int) \<Rightarrow> 'c \<Rightarrow> 'c) \<Rightarrow>
     int \<Rightarrow> limit_clock \<Rightarrow> (requestRollupInfoByBlockRange \<Rightarrow> go_error option) \<Rightarrow>
     requestRollupInfoByBlockRange \<Rightarrow> 'c \<Rightarrow>
     (requestRollupInfoByBlockRange \<times> go_error option) \<times> 'c" where
  "limited_request get put purge minTimeBetweenCalls clk workers request c =
     (let (ctrl, c1) = get (lc_get1 clk) (lc_get2 clk) (rq_blockRange request) c;
          request' =
            (case ctrl of
               Some f \<Rightarrow>
                 (let lastCallElapsedTime = lc_since clk - cwf_time f in
                  if lastCallElapsedTime < minTimeBetweenCalls
                  then request\<lparr>sleepBefore := (minTimeBetweenCalls - lastCallElapsedTime) - sleepBefore request\<rparr>
                  else request)
             | None \<Rightarrow> request);
          err = workers request';
          retries = (case ctrl of Some f \<Rightarrow> cwf_retries f | None \<Rightarrow> 0);
          c2 = (if err \<noteq> Some errAllWorkersBusy
                then put (lc_set clk) (rq_blockRange request')
                       \<lparr>cwf_time = lc_tag clk, cwf_retries = retries + 1\<rparr> c1
                else c1)
      in ((request', err), purge (lc_purge clk) c2))"

definition limitedRequestRollupInfoByBlockRange ::
    "int \<Rightarrow> limit_clock \<Rightarrow> (requestRollupInfoByBlockRange \<Rightarrow> go_error option) \<Rightarrow>
     requestRollupInfoByBlockRange \<Rightarrow> (blockRange, controlWorkerFlux) Cache \<Rightarrow>
     (requestRollupInfoByBlockRange \<times> go_error option) \<times> (blockRange, controlWorkerFlux) Cache" where
  "limitedRequestRollupInfoByBlockRange = limited_request cache_Get cache_Set cache_DeleteOutdated"

locale request_tags = ttl_store get put purge view life wf
  for get :: "int \<Rightarrow> int \<Rightarrow> blockRange \<Rightarrow> 'c \<Rightarrow> controlWorkerFlux option \<times> 'c"
    and put :: "int \<Rightarrow> blockRange \<Rightarrow> controlWorkerFlux \<Rightarrow> 'c \<Rightarrow> 'c"
    and purge :: "(blockRange \<Rightarrow> int) \<Rightarrow> 'c \<Rightarrow> 'c"
    and view :: "'c \<Rightarrow> int \<Rightarrow> blockRange \<Rightarrow> controlWorkerFlux option"
    and life :: "'c \<Rightarrow> int"
    and wf :: "'c \<Rightarrow> bool"
begin

text \<open>A call the workers accept leaves its time in the store.\<close>

lemma request_tagged:
  assumes "wf c" "limited_request get put purge minTime clk workers request c = ((request', err), c')"
    and "err \<noteq> Some errAllWorkersBusy" "t \<le> lc_set clk + life c" "\<And>k. lc_purge clk k \<le> t"
  shows "wf c' \<and> life c' = life c \<and>
    (\<exists>n. view c' t (rq_blockRange request) = Some \<lparr>cwf_time = lc_tag clk, cwf_retries = n\<rparr>)"
proof -
  obtain ctrl c1 where g: "get (lc_get1 clk) (lc_get2 clk) (rq_blockRange request) c = (ctrl, c1)" by fastforce
  have c1: "wf c1" "life c1 = life c"
    using wf_get [OF assms(1), of "lc_get1 clk" "lc_get2 clk" "rq_blockRange request"]
      life_get [of "lc_get1 clk" "lc_get2 clk" "rq_blockRange request" c] g by simp_all
  have range: "rq_blockRange request' = rq_blockRange request"
    using assms(2) g by (auto simp: limited_request_def Let_def split: option.splits if_splits)
  define f where "f = \<lparr>cwf_time = lc_tag clk, cwf_retries = (case ctrl of Some f \<Rightarrow> cwf_retries f | None \<Rightarrow> 0) + 1\<rparr>"
  have f: "cwf_time f = lc_tag clk" by (simp add: f_def)
  have c': "c' = purge (lc_purge clk) (put (lc_set clk) (rq_blockRange request) f c1)"
    using assms(2,3) g range by (auto simp: limited_request_def Let_def f_def)
  have "view c' t (rq_blockRange request) = Some f"
    unfolding c' using purge_view [OF wf_put [OF c1(1)] assms(5)] put_view [OF c1(1)] assms(4) c1(2) by simp
  moreover have "f = \<lparr>cwf_time = lc_tag clk, cwf_retries = cwf_retries f\<rparr>" using f by (cases f) simp
  ultimately show ?thesis using c1 by (auto simp: c' wf_put wf_purge life_put life_purge)
qed

text \<open>
  The next call for the range that finds the tag waits until the minimum time has passed
  since the tagged one.
\<close>

lemma request_spaced:
  assumes "wf c" "view c (lc_get1 clk) (rq_blockRange request) = Some f" "sleepBefore request = 0"
    and "limited_request get put purge minTime clk workers request c = ((request', err), c')"
  shows "cwf_time f + minTime \<le> lc_since clk + sleepBefore request'"
proof -
  have "fst (get (lc_get1 clk) (lc_get2 clk) (rq_blockRange request) c) = Some f"
    using get_view [OF assms(1)] assms(2) by simp
  with assms(3,4) show ?thesis
    by (auto simp: limited_request_def Let_def split: prod.splits if_splits)
qed

end

interpretation tags: request_tags cache_Get cache_Set cache_DeleteOutdated visible timeOfLiveItems cache_wf
  by unfold_locales

section \<open>Properties\<close>

text \<open>
  Requests for the same range are spaced out: when the workers have accepted a request,
  the next one for its range made within the time of life of the cache's entries is told to
  sleep until the minimum time between calls has passed since the first.
\<close>

theorem retries_are_spaced:
  assumes "cache_wf c"
    and "limitedRequestRollupInfoByBlockRange minTime clk1 workers1 request1 c = ((sent1, err1), c1)"
    and "err1 \<noteq> Some errAllWorkersBusy" "rq_blockRange request2 = rq_blockRange request1"
    and "sleepBefore request2 = 0" "lc_get1 clk2 \<le> lc_set clk1 + timeOfLiveItems c"
    and "\<And>k. lc_purge clk1 k \<le> lc_get1 clk2"
    and "limitedRequestRollupInfoByBlockRange minTime clk2 workers2 request2 c1 = ((sent2, err2), c2)"
  shows "lc_tag clk1 + minTime \<le> lc_since clk2 + sleepBefore sent2 \<and> rq_blockRange sent2 = rq_blockRange request1"
proof -
  note L = limitedRequestRollupInfoByBlockRange_def
  obtain n where t: "cache_wf c1" "visible c1 (lc_get1 clk2) (rq_blockRange request1) = Some \<lparr>cwf_time = lc_tag clk1, cwf_retries = n\<rparr>"
    using tags.request_tagged [OF assms(1) assms(2) [unfolded L] assms(3,6,7)] by blast
  have "rq_blockRange sent2 = rq_blockRange request1"
    using assms(4,8) by (auto simp: L limited_request_def split: prod.splits option.splits if_splits)
  with tags.request_spaced [OF t(1) _ assms(5) assms(8) [unfolded L]] t(2) assms(4) show ?thesis by force
qed

definition clock_at :: "int \<Rightarrow> limit_clock" where
  "clock_at t = \<lparr>lc_get1 = t, lc_get2 = t, lc_since = t, lc_tag = t, lc_set = t, lc_purge = (\<lambda>k. t)\<rparr>"

definition sample_request :: requestRollupInfoByBlockRange where
  "sample_request = \<lparr>rq_blockRange = brange 101 111, sleepBefore = 0,
     requestLastBlockIfNoBlocksInAnswer = requestLastBlockModeNone, requestPreviousBlock = False\<rparr>"

theorem retries_are_spaced_witness:
  "\<exists>sent1 c1 sent2 err2 c2.
     limitedRequestRollupInfoByBlockRange 5 (clock_at 1) (\<lambda>r. None) sample_request (NewCache 100) = ((sent1, None), c1) \<and>
     limitedRequestRollupInfoByBlockRange 5 (clock_at 3) (\<lambda>r. None) sample_request c1 = ((sent2, err2), c2) \<and>
     6 \<le> 3 + sleepBefore sent2"
proof -
  let ?c = "NewCache 100 :: (blockRange, controlWorkerFlux) Cache"
  have wf: "cache_wf ?c" by (simp add: cache_wf_def NewCache_def gm_wf_def)
  obtain sent1 err1 c1 where
    1: "limitedRequestRollupInfoByBlockRange 5 (clock_at 1) (\<lambda>r. None) sample_request ?c = ((sent1, err1), c1)"
    by (metis prod.exhaust)
  then have e: "err1 = None" by (simp add: limitedRequestRollupInfoByBlockRange_def limited_request_def split: prod.splits)
  obtain sent2 err2 c2 where
    2: "limitedRequestRollupInfoByBlockRange 5 (clock_at 3) (\<lambda>r. None) sample_request c1 = ((sent2, err2), c2)"
    by (metis prod.exhaust)
  have "lc_tag (clock_at 1) + 5 \<le> lc_since (clock_at 3) + sleepBefore sent2 \<and>
      rq_blockRange sent2 = rq_blockRange sample_request"
    by (rule retries_are_spaced [OF wf 1 _ _ _ _ _ 2]) (simp_all add: e clock_at_def NewCache_def sample_request_def)
  with 1 2 e show ?thesis by (simp add: clock_at_def)
qed

end
