(* ===== verification/L1Workers.thy ===== *)
theory L1Workers
  imports L1Cache
begin

text \<open>
  The pool of L1 workers (\<open>synchronizer/l1_workers.go\<close>) and the life of one of them
  (\<open>workerEtherman\<close> in \<open>synchronizer/l1_worker_etherman.go\<close>). A worker is busy from the moment it
  accepts a request until its goroutine has set it idle again and sent the response.
\<close>

section \<open>A worker\<close>

datatype ethermanStatusEnum = ethermanIdle | ethermanWorking | ethermanError

fun ethermanStatusEnum_String :: "ethermanStatusEnum \<Rightarrow> string" where
  "ethermanStatusEnum_String ethermanIdle = ''idle''"
| "ethermanStatusEnum_String ethermanWorking = ''working''"
| "ethermanStatusEnum_String ethermanError = ''error''"

datatype typeOfRequest = typeRequestNone | typeRequestRollupInfo | typeRequestLastBlock | typeRequestEOF

record genericResponse =
  gr_err :: "go_error option"
  gr_duration :: int
  gr_typeOfRequest :: typeOfRequest

record responseRollupInfoByBlockRange =
  rs_generic :: genericResponse
  rs_result :: "rollupInfoByBlockRangeResult option"

record responseL1LastBlock =
  lb_generic :: genericResponse
  lb_result :: "u64 option"

definition newResponseRollupInfo ::
    "go_error option \<Rightarrow> int \<Rightarrow> typeOfRequest \<Rightarrow> rollupInfoByBlockRangeResult option \<Rightarrow> responseRollupInfoByBlockRange" where
  "newResponseRollupInfo err duration type result =
     \<lparr>rs_generic = \<lparr>gr_err = err, gr_duration = duration, gr_typeOfRequest = type\<rparr>, rs_result = result\<rparr>"

definition newResponseL1LastBlock ::
    "go_error option \<Rightarrow> int \<Rightarrow> typeOfRequest \<Rightarrow> u64 option \<Rightarrow> responseL1LastBlock" where
  "newResponseL1LastBlock err duration type result =
     \<lparr>lb_generic = \<lparr>gr_err = err, gr_duration = duration, gr_typeOfRequest = type\<rparr>, lb_result = result\<rparr>"

definition response_getHighestBlockNumberInResponse :: "responseRollupInfoByBlockRange \<Rightarrow> u64" where
  "response_getHighestBlockNumberInResponse r =
     (case rs_result r of None \<Rightarrow> invalidBlockNumber | Some res \<Rightarrow> getHighestBlockNumberInResponse res)"

record workerEtherman =
  we_status :: ethermanStatusEnum
  typeOfCurrentRequest :: typeOfRequest
  we_request :: requestRollupInfoByBlockRange

definition zeroRequest :: requestRollupInfoByBlockRange where
  "zeroRequest = \<lparr>rq_blockRange = \<lparr>fromBlock = 0, toBlock = 0\<rparr>, sleepBefore = 0,
     requestLastBlockIfNoBlocksInAnswer = requestLastBlockModeNone, requestPreviousBlock = False\<rparr>"

definition newWorkerEtherman :: workerEtherman where
  "newWorkerEtherman = \<lparr>we_status = ethermanIdle, typeOfCurrentRequest = typeRequestNone, we_request = zeroRequest\<rparr>"

definition isBusyUnsafe :: "workerEtherman \<Rightarrow> bool" where
  "isBusyUnsafe w \<longleftrightarrow> we_status w \<noteq> ethermanIdle"

definition isIdle :: "workerEtherman \<Rightarrow> bool" where
  "isIdle w \<longleftrightarrow> we_status w = ethermanIdle"

definition we_setStatus :: "ethermanStatusEnum \<Rightarrow> workerEtherman \<Rightarrow> workerEtherman" where
  "we_setStatus st w = w\<lparr>we_status := st, typeOfCurrentRequest := typeRequestNone\<rparr>"

definition errWorkerBusy :: string where
  "errWorkerBusy = ''worker is busy''"

definition contextCanceled :: go_error where
  "contextCanceled = ErrorString ''context canceled''"

text \<open>Accepting a request.\<close>

definition we_asyncRequest ::
    "requestRollupInfoByBlockRange \<Rightarrow> workerEtherman \<Rightarrow> go_error option \<times> workerEtherman" where
  "we_asyncRequest request w =
     (if isBusyUnsafe w then (Some (ErrorString errWorkerBusy), w)
      else (None, w\<lparr>we_status := ethermanWorking, typeOfCurrentRequest := typeRequestRollupInfo,
                    we_request := request\<rparr>))"

text \<open>
  The goroutine of an accepted request: the sleep, which a cancelled context interrupts, then
  the request; the worker is set idle and the response sent.
\<close>

definition we_launch ::
    "(nat \<Rightarrow> etherman) \<Rightarrow> bool \<Rightarrow> int \<Rightarrow> workerEtherman \<Rightarrow> responseRollupInfoByBlockRange \<times> workerEtherman" where
  "we_launch eth cancelledInSleep duration w =
     (let request = we_request w in
      if sleepBefore request > 0 \<and> cancelledInSleep
      then (newResponseRollupInfo (Some contextCanceled) 0 typeRequestRollupInfo
              (Some (zeroResult\<lparr>rr_blockRange := rq_blockRange request\<rparr>)), we_setStatus ethermanIdle w)
      else
        (let (err, result) = executeRequestRollupInfoByBlockRange eth request
         in (newResponseRollupInfo err duration typeRequestRollupInfo (Some result), we_setStatus ethermanIdle w)))"

definition we_requestLastBlock ::
    "etherman \<Rightarrow> int \<Rightarrow> workerEtherman \<Rightarrow> responseL1LastBlock \<times> workerEtherman" where
  "we_requestLastBlock eth duration w =
     (if isBusyUnsafe w
      then (newResponseL1LastBlock (Some (ErrorString errWorkerBusy)) 0 typeRequestLastBlock None, w)
      else
        (let w1 = w\<lparr>we_status := ethermanWorking, typeOfCurrentRequest := typeRequestLastBlock\<rparr>
         in case HeaderByNumber eth of
              Inr n \<Rightarrow> (newResponseL1LastBlock None duration typeRequestLastBlock (Some n), we_setStatus ethermanIdle w1)
            | Inl e \<Rightarrow> (newResponseL1LastBlock (Some e) duration typeRequestLastBlock None, we_setStatus ethermanIdle w1)))"

section \<open>The pool\<close>

record workers =
  workerForLastBlock :: workerEtherman
  ws_workers :: "workerEtherman list"

definition minimumNumberOfEthermans :: nat where
  "minimumNumberOfEthermans = 2"

definition errRequiredEtherman :: go_error where
  "errRequiredEtherman = ErrorString ''required etherman''"

text \<open>Fewer than two clients are fatal.\<close>

definition newWorkers :: "nat \<Rightarrow> workers option" where
  "newWorkers ethermans =
     (if ethermans < minimumNumberOfEthermans then None
      else (let ws = replicate ethermans newWorkerEtherman
            in Some \<lparr>workerForLastBlock = hd ws, ws_workers = tl ws\<rparr>))"

definition workers_initialize :: "workers \<Rightarrow> go_error option" where
  "workers_initialize w = (if length (ws_workers w) = 0 then Some errRequiredEtherman else None)"

fun howMany :: "workerEtherman list \<Rightarrow> nat \<Rightarrow> nat" where
  "howMany [] result = result"
| "howMany (w # ws) result = howMany ws (if \<not> isIdle w then result + 1 else result)"

definition howManyRunningWorkers :: "workers \<Rightarrow> nat" where
  "howManyRunningWorkers w = howMany (ws_workers w) 0"

fun idle_from :: "nat \<Rightarrow> workerEtherman list \<Rightarrow> nat option" where
  "idle_from idx [] = None"
| "idle_from idx (w # ws) = (if isIdle w then Some idx else idle_from (idx + 1) ws)"

definition getIdleWorkerUnsafe :: "workers \<Rightarrow> nat option" where
  "getIdleWorkerUnsafe w = idle_from 0 (ws_workers w)"

text \<open>\<open>asyncGenericRequest\<close> with the rollup info request: the index of the worker started.\<close>

definition asyncRequestRollupInfo ::
    "requestRollupInfoByBlockRange \<Rightarrow> workers \<Rightarrow> (go_error + nat) \<times> workers" where
  "asyncRequestRollupInfo request w =
     (case getIdleWorkerUnsafe w of
        None \<Rightarrow> (Inl errAllWorkersBusy, w)
      | Some i \<Rightarrow>
          (let (err, wi) = we_asyncRequest request (ws_workers w ! i);
               w1 = w\<lparr>ws_workers := (ws_workers w)[i := wi]\<rparr>
           in case err of Some e \<Rightarrow> (Inl e, w1) | None \<Rightarrow> (Inr i, w1)))"

text \<open>The goroutine of worker \<open>i\<close> ends.\<close>

definition worker_finishes ::
    "(nat \<Rightarrow> etherman) \<Rightarrow> bool \<Rightarrow> int \<Rightarrow> nat \<Rightarrow> workers \<Rightarrow> responseRollupInfoByBlockRange \<times> workers" where
  "worker_finishes eth cancelled duration i w =
     (let (resp, wi) = we_launch eth cancelled duration (ws_workers w ! i)
      in (resp, w\<lparr>ws_workers := (ws_workers w)[i := wi]\<rparr>))"

definition workers_requestLastBlock :: "etherman \<Rightarrow> int \<Rightarrow> workers \<Rightarrow> responseL1LastBlock \<times> workers" where
  "workers_requestLastBlock eth duration w =
     (let (resp, w1) = we_requestLastBlock eth duration (workerForLastBlock w)
      in (resp, w\<lparr>workerForLastBlock := w1\<rparr>))"

text \<open>
  The retries for the last block. The counter is decremented before it is compared with zero,
  so the loop need not end: \<open>None\<close> is a run that goes on forever. \<open>eth k\<close> is the client at the
  \<open>k\<close>-th attempt.
\<close>

partial_function (option) requestLastBlockWithRetries ::
    "(nat \<Rightarrow> etherman) \<Rightarrow> nat \<Rightarrow> int \<Rightarrow> workers \<Rightarrow> (responseL1LastBlock \<times> workers) option" where
  "requestLastBlockWithRetries eth k maxPermittedRetries w =
     (let (result, w1) = workers_requestLastBlock (eth k) 0 w in
      if gr_err (lb_generic result) = None then Some (result, w1)
      else if maxPermittedRetries - 1 = 0 then Some (result, w1)
      else requestLastBlockWithRetries eth (k + 1) (maxPermittedRetries - 1) w1)"

section \<open>Lemmas\<close>

lemma idle_from_Some:
  "idle_from i ws = Some j \<Longrightarrow> i \<le> j \<and> j - i < length ws \<and> isIdle (ws ! (j - i))"
proof (induction i ws rule: idle_from.induct)
  case (2 i w ws)
  show ?case
  proof (cases "isIdle w")
    case False
    with 2 have "i + 1 \<le> j \<and> j - (i + 1) < length ws \<and> isIdle (ws ! (j - (i + 1)))" by simp
    moreover from this have "(w # ws) ! (j - i) = ws ! (j - (i + 1))" by (simp add: nth_Cons')
    ultimately show ?thesis by auto
  qed (use 2 in simp)
qed simp

lemma idle_from_None: "idle_from i ws = None \<longleftrightarrow> (\<forall>w \<in> set ws. \<not> isIdle w)"
  by (induction i ws rule: idle_from.induct) auto

lemma howMany_eq: "howMany ws n = n + length (filter (\<lambda>w. \<not> isIdle w) ws)"
  by (induction ws arbitrary: n) auto

definition idle_count :: "workers \<Rightarrow> nat" where
  "idle_count w = length (filter isIdle (ws_workers w))"

lemma idle_running: "idle_count w + howManyRunningWorkers w = length (ws_workers w)"
  using sum_length_filter_compl [of isIdle "ws_workers w"]
  by (simp add: idle_count_def howManyRunningWorkers_def howMany_eq)

lemma length_filter_update:
  assumes "i < length xs" "P (xs ! i)" "\<not> P y"
  shows "Suc (length (filter P (xs[i := y]))) = length (filter P xs)"
proof -
  have "length (filter P (take i xs @ [xs ! i] @ drop (Suc i) xs)) = length (filter P xs)"
    using id_take_nth_drop [OF assms(1)] by simp
  with assms show ?thesis by (simp add: upd_conv_take_nth_drop)
qed

text \<open>A request is accepted exactly when a worker is idle, and takes one idle worker.\<close>

lemma asyncRequest_cases:
  obtains
    (busy) "idle_count w = 0" "asyncRequestRollupInfo request w = (Inl errAllWorkersBusy, w)"
  | (started) i w' where "asyncRequestRollupInfo request w = (Inr i, w')" "i < length (ws_workers w)"
      "isIdle (ws_workers w ! i)" "Suc (idle_count w') = idle_count w"
      "\<not> isIdle (ws_workers w' ! i)" "we_request (ws_workers w' ! i) = request"
      "\<And>j. j \<noteq> i \<Longrightarrow> ws_workers w' ! j = ws_workers w ! j" "length (ws_workers w') = length (ws_workers w)"
proof (cases "getIdleWorkerUnsafe w")
  case None
  then have "idle_count w = 0" by (simp add: getIdleWorkerUnsafe_def idle_from_None idle_count_def filter_empty_conv)
  with None show thesis by (intro busy) (simp_all add: asyncRequestRollupInfo_def)
next
  case (Some i)
  then have i: "i < length (ws_workers w)" "isIdle (ws_workers w ! i)"
    using idle_from_Some [of 0 "ws_workers w" i] by (simp_all add: getIdleWorkerUnsafe_def)
  define wi where "wi = (ws_workers w ! i)\<lparr>we_status := ethermanWorking,
      typeOfCurrentRequest := typeRequestRollupInfo, we_request := request\<rparr>"
  have ni: "\<not> isIdle wi" by (simp add: wi_def isIdle_def)
  have eq: "asyncRequestRollupInfo request w = (Inr i, w\<lparr>ws_workers := (ws_workers w)[i := wi]\<rparr>)"
    using Some i(2) by (simp add: asyncRequestRollupInfo_def we_asyncRequest_def isBusyUnsafe_def isIdle_def wi_def)
  show thesis
    by (rule started [OF eq i]) (use i ni length_filter_update [of i "ws_workers w" isIdle wi, OF i ni] in
      \<open>simp_all add: idle_count_def wi_def\<close>)
qed

text \<open>The response of a worker is about the range it was asked for, and the worker is idle again.\<close>

lemma we_launch_result:
  "\<exists>r. rs_result (fst (we_launch eth c d w)) = Some r \<and> rr_blockRange r = rq_blockRange (we_request w)"
  "isIdle (snd (we_launch eth c d w))"
  using execute_keeps_range [of eth "we_request w"]
  by (auto simp: we_launch_def newResponseRollupInfo_def we_setStatus_def isIdle_def split: prod.splits)

lemma requestLastBlock_shape:
  "gr_err (lb_generic (fst (workers_requestLastBlock eth d w))) = None \<longleftrightarrow>
     lb_result (fst (workers_requestLastBlock eth d w)) \<noteq> None"
  by (auto simp: workers_requestLastBlock_def we_requestLastBlock_def newResponseL1LastBlock_def split: sum.splits)

section \<open>Properties\<close>

lemma retries_return:
  "0 < m \<Longrightarrow> \<exists>r w'. requestLastBlockWithRetries eth k m w = Some (r, w') \<and>
     (gr_err (lb_generic r) = None \<longleftrightarrow> lb_result r \<noteq> None)"
proof (induction "nat m" arbitrary: k m w)
  case (Suc n)
  obtain r w1 where r: "workers_requestLastBlock (eth k) 0 w = (r, w1)" by fastforce
  have shape: "gr_err (lb_generic r) = None \<longleftrightarrow> lb_result r \<noteq> None"
    using requestLastBlock_shape [of "eth k" 0 w] r by simp
  show ?case
  proof (cases "gr_err (lb_generic r) = None \<or> m - 1 = 0")
    case True
    with r shape show ?thesis by (subst requestLastBlockWithRetries.simps) auto
  next
    case False
    then have "0 < m - 1" "n = nat (m - 1)" using Suc by auto
    with Suc.hyps(1) [of "m - 1" "k + 1" w1] r False show ?thesis
      by (subst requestLastBlockWithRetries.simps) auto
  qed
qed simp

lemma requestLastBlock_fails:
  "isl (HeaderByNumber eth) \<Longrightarrow> gr_err (lb_generic (fst (workers_requestLastBlock eth d w))) \<noteq> None"
  by (cases "HeaderByNumber eth")
    (auto simp: workers_requestLastBlock_def we_requestLastBlock_def newResponseL1LastBlock_def)

lemma retries_diverge:
  assumes "requestLastBlockWithRetries eth k m w = Some res"
  shows "m \<le> 0 \<longrightarrow> (\<forall>j. isl (HeaderByNumber (eth j))) \<longrightarrow> False"
proof (rule requestLastBlockWithRetries.raw_induct
    [where P = "\<lambda>eth k m w res. m \<le> 0 \<longrightarrow> (\<forall>j. isl (HeaderByNumber (eth j))) \<longrightarrow> False"])
  fix f :: "(nat \<Rightarrow> etherman) \<Rightarrow> nat \<Rightarrow> int \<Rightarrow> workers \<Rightarrow> (responseL1LastBlock \<times> workers) option"
    and eth k m w y
  assume IH: "\<And>eth k m w y. f eth k m w = Some y \<Longrightarrow> m \<le> 0 \<longrightarrow> (\<forall>j. isl (HeaderByNumber (eth j))) \<longrightarrow> False"
    and body: "(let (result, w1) = workers_requestLastBlock (eth k) 0 w in
      if gr_err (lb_generic result) = None then Some (result, w1)
      else if m - 1 = 0 then Some (result, w1) else f eth (k + 1) (m - 1) w1) = Some y"
  show "m \<le> 0 \<longrightarrow> (\<forall>j. isl (HeaderByNumber (eth j))) \<longrightarrow> False"
  proof (intro impI)
    assume m: "m \<le> 0" and fails: "\<forall>j. isl (HeaderByNumber (eth j))"
    obtain r w1 where r: "workers_requestLastBlock (eth k) 0 w = (r, w1)" by fastforce
    have "gr_err (lb_generic r) \<noteq> None" using requestLastBlock_fails [of "eth k" 0 w] fails r by simp
    with body r m have "f eth (k + 1) (m - 1) w1 = Some y" by simp
    from IH [OF this] m fails show False by simp
  qed
qed (rule assms)

lemma retries_fail_result:
  assumes "requestLastBlockWithRetries eth k m w = Some res"
  shows "(\<forall>j. isl (HeaderByNumber (eth j))) \<longrightarrow> lb_result (fst res) = None"
proof (rule requestLastBlockWithRetries.raw_induct
    [where P = "\<lambda>eth k m w res. (\<forall>j. isl (HeaderByNumber (eth j))) \<longrightarrow> lb_result (fst res) = None"])
  fix f :: "(nat \<Rightarrow> etherman) \<Rightarrow> nat \<Rightarrow> int \<Rightarrow> workers \<Rightarrow> (responseL1LastBlock \<times> workers) option"
    and eth k m w y
  assume IH: "\<And>eth k m w y. f eth k m w = Some y \<Longrightarrow>
      (\<forall>j. isl (HeaderByNumber (eth j))) \<longrightarrow> lb_result (fst y) = None"
    and body: "(let (result, w1) = workers_requestLastBlock (eth k) 0 w in
      if gr_err (lb_generic result) = None then Some (result, w1)
      else if m - 1 = 0 then Some (result, w1) else f eth (k + 1) (m - 1) w1) = Some y"
  show "(\<forall>j. isl (HeaderByNumber (eth j))) \<longrightarrow> lb_result (fst y) = None"
  proof (intro impI)
    assume fails: "\<forall>j. isl (HeaderByNumber (eth j))"
    obtain r w1 where r: "workers_requestLastBlock (eth k) 0 w = (r, w1)" by fastforce
    have e: "gr_err (lb_generic r) \<noteq> None" using requestLastBlock_fails [of "eth k" 0 w] fails r by simp
    then have n: "lb_result r = None" using requestLastBlock_shape [of "eth k" 0 w] r by (metis fst_conv)
    show "lb_result (fst y) = None"
    proof (cases "m - 1 = 0")
      case True
      with body r e n show ?thesis by auto
    next
      case False
      with body r e have "f eth (k + 1) (m - 1) w1 = Some y" by simp
      from IH [OF this] fails show ?thesis by simp
    qed
  qed
qed (rule assms)

text \<open>
  With at least one permitted retry the request for the last L1 block returns, with a
  block number exactly when it reports no error. With none, which the configuration only warns
  about, it does not return as long as the client fails.
\<close>

theorem last_block_retries:
  "if 0 < m then \<exists>r w'. requestLastBlockWithRetries eth k m w = Some (r, w') \<and>
       (gr_err (lb_generic r) = None) = (lb_result r \<noteq> None)
   else (\<exists>j. \<not> isl (HeaderByNumber (eth j))) \<or> requestLastBlockWithRetries eth k m w = None"
proof (cases "0 < m")
  case False
  then show ?thesis
    using retries_diverge [of eth k m w] by (cases "requestLastBlockWithRetries eth k m w") auto
next
  case True
  then show ?thesis using retries_return [OF True, of eth k w] by simp
qed

end
