(* ===== verification/L1Filter.thy ===== *)
theory L1Filter
  imports L1Worker
begin

text \<open>
  The filter that hands the results of the workers to the consumer in the order of the blocks
  (\<open>synchronizer/l1_filter_send_orderer_results_to_synchronizer.go\<close>).
\<close>

section \<open>State and operations\<close>

record filterState =
  lastBlockOnSynchronizer :: u64
  pendingResults :: "l1SyncMessage list"

definition newFilterToSendOrdererResultsToConsumer :: "u64 \<Rightarrow> filterState" where
  "newFilterToSendOrdererResultsToConsumer lastBlock =
     \<lparr>lastBlockOnSynchronizer = lastBlock, pendingResults = []\<rparr>"

definition filter_ToStringBrief :: "filterState \<Rightarrow> string" where
  "filter_ToStringBrief s =
     ''lastBlockSenedToSync['' @ go_itoa (unat (lastBlockOnSynchronizer s)) @ ''] len(pending_results)['' @
     go_itoa (length (pendingResults s)) @ '']''"

definition numItemBlockedInQueue :: "filterState \<Rightarrow> nat" where
  "numItemBlockedInQueue s = length (pendingResults s)"

definition filter_Reset :: "u64 \<Rightarrow> filterState \<Rightarrow> filterState" where
  "filter_Reset lastBlock s = \<lparr>lastBlockOnSynchronizer = lastBlock, pendingResults = []\<rparr>"

definition matchNextBlockUnsafe :: "filterState \<Rightarrow> rollupInfoByBlockRangeResult \<Rightarrow> bool" where
  "matchNextBlockUnsafe s results \<longleftrightarrow> fromBlock (rr_blockRange results) = lastBlockOnSynchronizer s + 1"

definition setLastBlockOnSynchronizer :: "u64 \<Rightarrow> filterState \<Rightarrow> filterState" where
  "setLastBlockOnSynchronizer highestBlockNumber s =
     (if highestBlockNumber = invalidBlockNumber then s
      else s\<lparr>lastBlockOnSynchronizer := highestBlockNumber\<rparr>)"

definition addPendingResultUnsafe :: "l1SyncMessage \<Rightarrow> filterState \<Rightarrow> filterState" where
  "addPendingResultUnsafe m s = s\<lparr>pendingResults := pendingResults s @ [m]\<rparr>"

fun keep_indices :: "nat list \<Rightarrow> nat \<Rightarrow> 'a list \<Rightarrow> 'a list" where
  "keep_indices del j [] = []"
| "keep_indices del j (x # xs) =
     (if j \<in> set del then keep_indices del (j + 1) xs else x # keep_indices del (j + 1) xs)"

definition removeIndexFromPendingResultsUnsafe :: "nat list \<Rightarrow> filterState \<Rightarrow> filterState" where
  "removeIndexFromPendingResultsUnsafe indexToRemove s =
     s\<lparr>pendingResults := keep_indices indexToRemove 0 (pendingResults s)\<rparr>"

text \<open>
  The loop over the pending results stops at the first that can be sent: a data message for
  the next block, or a control message at the head of the queue.
\<close>

fun sendable_index :: "filterState \<Rightarrow> nat \<Rightarrow> l1SyncMessage list \<Rightarrow> nat option" where
  "sendable_index s i [] = None"
| "sendable_index s i (m # ms) =
     (if dataIsValid m then
        (if matchNextBlockUnsafe s (msg_data m) then Some i else sendable_index s (i + 1) ms)
      else if i = 0 then Some i else sendable_index s (i + 1) ms)"

lemma sendable_index_bound: "sendable_index s i ms = Some j \<Longrightarrow> i \<le> j \<and> j < i + length ms"
  by (induction s i ms rule: sendable_index.induct) (auto split: if_splits)

lemma keep_indices_other: "i < j \<Longrightarrow> keep_indices [i] j xs = xs"
  by (induction xs arbitrary: j) auto

lemma keep_indices_eq: "keep_indices [i + n] i xs = take n xs @ drop (Suc n) xs"
proof (induction xs arbitrary: n i)
  case (Cons x xs)
  show ?case
  proof (cases n)
    case (Suc k)
    then show ?thesis using Cons.IH [of "i + 1" k] by simp
  qed (simp add: keep_indices_other)
qed simp

function sendResultIfPossibleUnsafe ::
    "l1SyncMessage list \<Rightarrow> filterState \<Rightarrow> l1SyncMessage list \<times> filterState" where
  "sendResultIfPossibleUnsafe previous s =
     (case sendable_index s 0 (pendingResults s) of
        None \<Rightarrow> (previous, removeIndexFromPendingResultsUnsafe [] s)
      | Some i \<Rightarrow>
          (let result = pendingResults s ! i;
               s1 = (if dataIsValid result
                     then setLastBlockOnSynchronizer (getHighestBlockNumberInResponse (msg_data result)) s else s)
           in sendResultIfPossibleUnsafe (previous @ [result]) (removeIndexFromPendingResultsUnsafe [i] s1)))"
  by pat_completeness auto
termination
proof (relation "measure (\<lambda>(p, s). length (pendingResults s))")
  fix previous s i and x :: l1SyncMessage and y
  assume "sendable_index s 0 (pendingResults s) = Some i"
  then have "i < length (pendingResults s)" using sendable_index_bound [of s 0] by fastforce
  moreover have "pendingResults (if b then setLastBlockOnSynchronizer n s else s) = pendingResults s" for b n
    by (simp add: setLastBlockOnSynchronizer_def)
  moreover assume "y = (if dataIsValid x then setLastBlockOnSynchronizer (getHighestBlockNumberInResponse (msg_data x)) s else s)"
  ultimately show "((previous @ [x], removeIndexFromPendingResultsUnsafe [i] y), previous, s)
      \<in> measure (\<lambda>(p, s). length (pendingResults s))"
    using keep_indices_eq [of 0 i "pendingResults s"]
    by (simp add: removeIndexFromPendingResultsUnsafe_def)
qed simp

declare sendResultIfPossibleUnsafe.simps [simp del]

text \<open>\<open>checkValidDataUnsafe\<close> only logs.\<close>

definition Filter :: "l1SyncMessage \<Rightarrow> filterState \<Rightarrow> l1SyncMessage list \<times> filterState" where
  "Filter data s = sendResultIfPossibleUnsafe [] (addPendingResultUnsafe data s)"

section \<open>The order of what is sent\<close>

text \<open>The last block after a message, and a sequence of messages that starts right after it.\<close>

definition last_after :: "u64 \<Rightarrow> l1SyncMessage \<Rightarrow> u64" where
  "last_after l m =
     (if dataIsValid m \<and> getHighestBlockNumberInResponse (msg_data m) \<noteq> invalidBlockNumber
      then getHighestBlockNumberInResponse (msg_data m) else l)"

fun in_block_order :: "u64 \<Rightarrow> l1SyncMessage list \<Rightarrow> bool" where
  "in_block_order l [] = True"
| "in_block_order l (m # ms) =
     ((dataIsValid m \<longrightarrow> fromBlock (rr_blockRange (msg_data m)) = l + 1) \<and> in_block_order (last_after l m) ms)"

lemma in_block_order_append:
  "in_block_order l (xs @ ys) \<longleftrightarrow> in_block_order l xs \<and> in_block_order (fold (\<lambda>m l. last_after l m) xs l) ys"
  by (induction xs arbitrary: l) auto

lemma sendable_index_None:
  "sendable_index s i ms = None \<longleftrightarrow>
     (\<forall>m \<in> set ms. dataIsValid m \<longrightarrow> \<not> matchNextBlockUnsafe s (msg_data m)) \<and>
     (i = 0 \<longrightarrow> ms = [] \<or> dataIsValid (hd ms))"
  by (induction s i ms rule: sendable_index.induct) auto

lemma sendable_index_Some:
  "sendable_index s i ms = Some j \<Longrightarrow>
     dataIsValid (ms ! (j - i)) \<longrightarrow> matchNextBlockUnsafe s (msg_data (ms ! (j - i)))"
proof (induction s i ms rule: sendable_index.induct)
  case (2 s i m ms)
  show ?case
  proof (cases "sendable_index s (i + 1) ms = Some j")
    case True
    then have "i + 1 \<le> j" using sendable_index_bound by blast
    then have "(m # ms) ! (j - i) = ms ! (j - (i + 1))" by (simp add: nth_Cons')
    with 2 True show ?thesis by (auto split: if_splits)
  next
    case False
    with 2 show ?thesis by (auto split: if_splits)
  qed
qed simp

lemma sendResult_spec:
  assumes "sendResultIfPossibleUnsafe previous s = (res, s')"
    and "in_block_order l previous" "fold (\<lambda>m l. last_after l m) previous l = lastBlockOnSynchronizer s"
  shows "\<exists>sent. res = previous @ sent \<and> mset sent + mset (pendingResults s') = mset (pendingResults s) \<and>
    in_block_order l res \<and> fold (\<lambda>m l. last_after l m) res l = lastBlockOnSynchronizer s' \<and>
    sendable_index s' 0 (pendingResults s') = None"
  using assms
proof (induction previous s arbitrary: res s' rule: sendResultIfPossibleUnsafe.induct)
  case (1 previous s)
  show ?case
  proof (cases "sendable_index s 0 (pendingResults s)")
    case None
    have "removeIndexFromPendingResultsUnsafe [] s = s"
    proof -
      have "keep_indices [] j xs = xs" for j and xs :: "l1SyncMessage list" by (induction xs arbitrary: j) auto
      then show ?thesis by (simp add: removeIndexFromPendingResultsUnsafe_def)
    qed
    with 1 None show ?thesis by (simp add: sendResultIfPossibleUnsafe.simps [of previous s])
  next
    case (Some i)
    let ?m = "pendingResults s ! i"
    let ?s1 = "if dataIsValid ?m then setLastBlockOnSynchronizer (getHighestBlockNumberInResponse (msg_data ?m)) s else s"
    let ?s2 = "removeIndexFromPendingResultsUnsafe [i] ?s1"
    have i: "i < length (pendingResults s)" using sendable_index_bound [OF Some] by simp
    have last: "lastBlockOnSynchronizer ?s2 = last_after (lastBlockOnSynchronizer s) ?m"
      by (simp add: removeIndexFromPendingResultsUnsafe_def setLastBlockOnSynchronizer_def last_after_def)
    have p1: "pendingResults ?s1 = pendingResults s" by (simp add: setLastBlockOnSynchronizer_def)
    have pend: "pendingResults ?s2 = take i (pendingResults s) @ drop (Suc i) (pendingResults s)"
      using keep_indices_eq [of 0 i "pendingResults s"] p1 by (simp add: removeIndexFromPendingResultsUnsafe_def)
    have "mset (pendingResults s) = mset (take i (pendingResults s) @ ?m # drop (Suc i) (pendingResults s))"
      by (simp only: id_take_nth_drop [OF i, symmetric])
    then have ms: "add_mset ?m (mset (pendingResults ?s2)) = mset (pendingResults s)" by (simp add: pend)
    have "dataIsValid ?m \<longrightarrow> matchNextBlockUnsafe s (msg_data ?m)" using sendable_index_Some [OF Some] by simp
    then have ord: "in_block_order l (previous @ [?m])"
      using 1(3,4) by (simp add: in_block_order_append matchNextBlockUnsafe_def)
    have "sendResultIfPossibleUnsafe (previous @ [?m]) ?s2 = (res, s')"
      using 1(2) Some by (simp add: sendResultIfPossibleUnsafe.simps [of previous s])
    from 1(1) [OF Some refl refl this ord] 1(4) last obtain sent where
      "res = (previous @ [?m]) @ sent" "mset sent + mset (pendingResults s') = mset (pendingResults ?s2)"
      "in_block_order l res" "fold (\<lambda>m l. last_after l m) res l = lastBlockOnSynchronizer s'"
      "sendable_index s' 0 (pendingResults s') = None" by auto
    with ms show ?thesis by (intro exI [of _ "?m # sent"]) auto
  qed
qed

section \<open>Properties\<close>

text \<open>
  C32. The filter hands over in block order and loses nothing: the data messages it sends
  start right after the last block sent before and each right after the end of the previous
  one; what it sends and what it keeps are together what it had and the new message; and what
  it keeps cannot be sent yet, because no data message of the queue starts at the next block
  and a data message is at the head.
\<close>

theorem Filter_in_order:
  assumes "Filter data s = (res, s')"
  shows "in_block_order (lastBlockOnSynchronizer s) res \<and>
    lastBlockOnSynchronizer s' = fold (\<lambda>m l. last_after l m) res (lastBlockOnSynchronizer s) \<and>
    mset res + mset (pendingResults s') = add_mset data (mset (pendingResults s)) \<and>
    (\<forall>m \<in> set (pendingResults s'). dataIsValid m \<longrightarrow> fromBlock (rr_blockRange (msg_data m)) \<noteq> lastBlockOnSynchronizer s' + 1) \<and>
    (pendingResults s' = [] \<or> dataIsValid (hd (pendingResults s')))"
proof -
  have "lastBlockOnSynchronizer (addPendingResultUnsafe data s) = lastBlockOnSynchronizer s"
    "pendingResults (addPendingResultUnsafe data s) = pendingResults s @ [data]"
    by (simp_all add: addPendingResultUnsafe_def)
  with sendResult_spec [OF assms [unfolded Filter_def], of "lastBlockOnSynchronizer s"] show ?thesis
    by (auto simp: sendable_index_None matchNextBlockUnsafe_def)
qed

text \<open>
  A result for blocks that have been sent already is not ignored: it stays in the queue,
  and a control message that arrives behind it is not delivered.
\<close>

theorem old_result_blocks_control:
  assumes "pendingResults s = []" "dataIsValid old" "\<not> dataIsValid ctrl"
    and "fromBlock (rr_blockRange (msg_data old)) < lastBlockOnSynchronizer s"
    "fromBlock (rr_blockRange (msg_data old)) \<noteq> 0"
  shows "\<exists>s1. Filter old s = ([], s1) \<and> pendingResults s1 = [old] \<and>
    (\<exists>s2. Filter ctrl s1 = ([], s2) \<and> pendingResults s2 = [old, ctrl])"
proof -
  have "fromBlock (rr_blockRange (msg_data old)) \<noteq> lastBlockOnSynchronizer s + 1"
  proof
    assume e: "fromBlock (rr_blockRange (msg_data old)) = lastBlockOnSynchronizer s + 1"
    then have "1 + lastBlockOnSynchronizer s \<noteq> 0" using assms(5) by (simp add: add.commute)
    then have "unat (lastBlockOnSynchronizer s + 1) = Suc (unat (lastBlockOnSynchronizer s))"
      by (simp add: unatSuc add.commute)
    with assms(4) e show False by (simp add: word_less_nat_alt)
  qed
  with assms(1-3) show ?thesis
    by (auto simp: Filter_def addPendingResultUnsafe_def sendResultIfPossibleUnsafe.simps
        matchNextBlockUnsafe_def removeIndexFromPendingResultsUnsafe_def)
qed

definition data_message :: "u64 \<Rightarrow> u64 \<Rightarrow> l1SyncMessage" where
  "data_message f t = \<lparr>dataIsValid = True, msg_data = zeroResult\<lparr>rr_blockRange := brange f t\<rparr>,
     ctrlIsValid = False, msg_ctrl = eventNone\<rparr>"

theorem Filter_in_order_witness:
  "\<exists>s'. Filter (data_message 101 111) \<lparr>lastBlockOnSynchronizer = 100, pendingResults = [data_message 112 122]\<rparr> =
       ([data_message 101 111, data_message 112 122], s') \<and> lastBlockOnSynchronizer s' = 122"
proof -
  let ?s = "\<lparr>lastBlockOnSynchronizer = 100, pendingResults = [data_message 112 122]\<rparr>"
  obtain res s' where f: "Filter (data_message 101 111) ?s = (res, s')" by fastforce
  moreover have "res = [data_message 101 111, data_message 112 122]"
    using f by (simp add: Filter_def addPendingResultUnsafe_def sendResultIfPossibleUnsafe.simps
        matchNextBlockUnsafe_def removeIndexFromPendingResultsUnsafe_def data_message_def brange_def
        setLastBlockOnSynchronizer_def getHighestBlockNumberInResponse_def latestBlockNumber_def
        invalidBlockNumber_def)
  ultimately show ?thesis
    using Filter_in_order [OF f] by (simp add: last_after_def data_message_def brange_def
        getHighestBlockNumberInResponse_def latestBlockNumber_def invalidBlockNumber_def)
qed

theorem old_result_blocks_control_witness:
  "\<exists>s1. Filter (data_message 50 60) (newFilterToSendOrdererResultsToConsumer 100) = ([], s1) \<and>
     (\<exists>s2. Filter (newL1SyncMessageControl eventProducerIsFullySynced) s1 = ([], s2))"
  using old_result_blocks_control [of "newFilterToSendOrdererResultsToConsumer 100" "data_message 50 60"
      "newL1SyncMessageControl eventProducerIsFullySynced"]
  by (force simp: newFilterToSendOrdererResultsToConsumer_def data_message_def newL1SyncMessageControl_def brange_def)

end
