(* ===== verification/L1Consumer.thy ===== *)
theory L1Consumer
  imports L1Filter
begin

text \<open>
  The consumer of the L1 results (\<open>synchronizer/l1_rollup_info_consumer.go\<close> and its statistics).
  The synchronizer it calls, \<open>processBlockRange\<close>, is a parameter that may answer differently at
  each call; \<open>processed\<close> is a ghost that records the calls. One event of \<open>step\<close>'s select is an
  argument of the step.
\<close>

section \<open>State\<close>

definition errContextCanceled :: go_error where
  "errContextCanceled = ErrorString ''consumer:context canceled''"

definition errConsumerStopped :: go_error where
  "errConsumerStopped = ErrorString ''consumer:stopped by request''"

definition errConsumerStoppedBecauseIsSynchronized :: go_error where
  "errConsumerStoppedBecauseIsSynchronized = ErrorString ''consumer:stopped because is synchronized''"

definition errL1Reorg :: go_error where
  "errL1Reorg = ErrorString ''consumer: L1 reorg detected''"

record l1RollupInfoConsumerStatistics =
  numProcessedRollupInfo :: u64
  numProcessedRollupInfoForCheckTime :: u64
  numProcessedBlocks :: u64
  cs_startTime :: int
  timePreviousProcessingDuration :: int
  startStepTime :: int

record l1RollupInfoConsumer =
  cons_statistics :: l1RollupInfoConsumerStatistics
  lastEthBlockSynced :: "StateBlock option"
  lastEthBlockReceived :: "StateBlock option"
  highestBlockProcessed :: u64
  processed :: "(EthBlock list \<times> block_order) list"

type_synonym process_fun = "nat \<Rightarrow> EthBlock list \<Rightarrow> block_order \<Rightarrow> go_error option"

text \<open>The zero time is 0 here.\<close>

definition stats_onStart :: "int \<Rightarrow> l1RollupInfoConsumerStatistics \<Rightarrow> l1RollupInfoConsumerStatistics" where
  "stats_onStart now st =
     st\<lparr>cs_startTime := now, startStepTime := 0, numProcessedRollupInfoForCheckTime := 0\<rparr>"

definition stats_onStartStep :: "int \<Rightarrow> l1RollupInfoConsumerStatistics \<Rightarrow> l1RollupInfoConsumerStatistics" where
  "stats_onStartStep now st = st\<lparr>startStepTime := now\<rparr>"

definition stats_onReset :: "l1RollupInfoConsumerStatistics \<Rightarrow> l1RollupInfoConsumerStatistics" where
  "stats_onReset st = st\<lparr>numProcessedRollupInfoForCheckTime := 0, startStepTime := 0\<rparr>"

definition stats_onStartProcess :: "l1RollupInfoConsumerStatistics \<Rightarrow> l1RollupInfoConsumerStatistics" where
  "stats_onStartProcess st =
     st\<lparr>numProcessedRollupInfo := numProcessedRollupInfo st + 1,
        numProcessedRollupInfoForCheckTime := numProcessedRollupInfoForCheckTime st + 1\<rparr>"

definition stats_onFinishProcess ::
    "rollupInfoByBlockRangeResult \<Rightarrow> int \<Rightarrow> go_error option \<Rightarrow> l1RollupInfoConsumerStatistics \<Rightarrow>
     l1RollupInfoConsumerStatistics" where
  "stats_onFinishProcess rollupInfo executionTime err st =
     (let st1 = st\<lparr>timePreviousProcessingDuration := executionTime\<rparr>
      in if err = None
         then st1\<lparr>numProcessedBlocks := numProcessedBlocks st1 + of_nat (length (rr_blocks rollupInfo))\<rparr>
         else st1)"

definition newL1RollupInfoConsumer :: "int \<Rightarrow> l1RollupInfoConsumer" where
  "newL1RollupInfoConsumer now =
     \<lparr>cons_statistics = \<lparr>numProcessedRollupInfo = 0, numProcessedRollupInfoForCheckTime = 0,
        numProcessedBlocks = 0, cs_startTime = now, timePreviousProcessingDuration = 0, startStepTime = 0\<rparr>,
      lastEthBlockSynced = None, lastEthBlockReceived = None, highestBlockProcessed = invalidBlockNumber,
      processed = []\<rparr>"

section \<open>Operations\<close>

definition consumer_Reset :: "u64 \<Rightarrow> l1RollupInfoConsumer \<Rightarrow> l1RollupInfoConsumer" where
  "consumer_Reset startingBlockNumber l =
     l\<lparr>highestBlockProcessed := startingBlockNumber, lastEthBlockSynced := None,
       cons_statistics := stats_onReset (cons_statistics l)\<rparr>"

definition GetLastEthBlockSynced :: "l1RollupInfoConsumer \<Rightarrow> StateBlock option" where
  "GetLastEthBlockSynced l = lastEthBlockSynced l"

text \<open>\<open>itemsInChannel\<close> is the length of the incoming channel.\<close>

definition processIncommingRollupControlData :: "nat \<Rightarrow> eventEnum \<Rightarrow> go_error option" where
  "processIncommingRollupControlData itemsInChannel event =
     (if event = eventStop then Some errConsumerStopped
      else if event = eventProducerIsFullySynced
      then (if itemsInChannel = 0 then Some errConsumerStoppedBecauseIsSynchronized else None)
      else None)"

definition checkPreviousBlocks ::
    "rollupInfoByBlockRangeResult \<Rightarrow> StateBlock option \<Rightarrow> go_error option" where
  "checkPreviousBlocks rollupInfo cachedBlock =
     (case cachedBlock of
        None \<Rightarrow> None
      | Some cb \<Rightarrow>
          (case previousBlockOfRange rollupInfo of
             None \<Rightarrow> None
           | Some pb \<Rightarrow>
               if stb_BlockNumber cb = NumberU64 pb then
                 (if stb_BlockHash cb \<noteq> geth_Hash pb then Some errL1Reorg
                  else if stb_ParentHash cb \<noteq> geth_ParentHash pb then Some errL1Reorg
                  else None)
               else None))"

definition call_processBlockRange ::
    "process_fun \<Rightarrow> EthBlock list \<Rightarrow> block_order \<Rightarrow> l1RollupInfoConsumer \<Rightarrow>
     go_error option \<times> l1RollupInfoConsumer" where
  "call_processBlockRange sync blocks order l =
     (sync (length (processed l)) blocks order, l\<lparr>processed := processed l @ [(blocks, order)]\<rparr>)"

definition processUnsafe ::
    "process_fun \<Rightarrow> rollupInfoByBlockRangeResult \<Rightarrow> l1RollupInfoConsumer \<Rightarrow>
     (StateBlock option \<times> go_error option) \<times> l1RollupInfoConsumer" where
  "processUnsafe sync rollupInfo l =
     (let blocks = rr_blocks rollupInfo; order = rr_order rollupInfo in
      if length blocks = 0 then
        (case lastBlockOfRange rollupInfo of
           None \<Rightarrow> ((None, None), l)
         | Some lb \<Rightarrow>
             (let (err, l1) = call_processBlockRange sync [convertL1BlockToEthBlock lb] order l
              in if err \<noteq> None then ((None, err), l1)
                 else ((Some (convertL1BlockToStateBlock lb), None), l1)))
      else
        (let (err, l1) = call_processBlockRange sync blocks order l
         in if err \<noteq> None then ((None, err), l1)
            else ((Some (convertEthmanBlockToStateBlock (last blocks)), None), l1)))"

text \<open>\<open>duration\<close> is the measured time of the processing.\<close>

definition processIncommingRollupInfoData ::
    "process_fun \<Rightarrow> int \<Rightarrow> rollupInfoByBlockRangeResult \<Rightarrow> l1RollupInfoConsumer \<Rightarrow>
     go_error option \<times> l1RollupInfoConsumer" where
  "processIncommingRollupInfoData sync duration rollupInfo l =
     (if highestBlockProcessed l \<noteq> invalidBlockNumber \<and>
         highestBlockProcessed l + 1 \<noteq> fromBlock (rr_blockRange rollupInfo)
      then (None, l)
      else
        (let l1 = l\<lparr>highestBlockProcessed := getHighestBlockNumberInResponse rollupInfo,
                    cons_statistics := stats_onStartProcess (cons_statistics l)\<rparr>;
             check = (case lastEthBlockReceived l1 of
                        None \<Rightarrow> None
                      | Some b \<Rightarrow> checkPreviousBlocks rollupInfo (Some b))
         in if check \<noteq> None then (check, l1)
            else
              (let l2 = l1\<lparr>lastEthBlockReceived := getHighestBlockReceived rollupInfo\<rparr>;
                   ((lastBlockProcessed, err), l3) = processUnsafe sync rollupInfo l2;
                   l4 = (if err = None \<and> lastBlockProcessed \<noteq> None
                         then l3\<lparr>lastEthBlockSynced := lastBlockProcessed\<rparr> else l3);
                   l5 = l4\<lparr>cons_statistics := stats_onFinishProcess rollupInfo duration err (cons_statistics l4)\<rparr>
               in if err \<noteq> None then (err, l5)
                  else (None, l5\<lparr>cons_statistics := (cons_statistics l5)\<lparr>numProcessedBlocks :=
                          numProcessedBlocks (cons_statistics l5) + of_nat (length (rr_blocks rollupInfo))\<rparr>\<rparr>))))"

text \<open>
  What the select of \<open>step\<close> finds: the context done, or a message with the number of messages
  left in the channel, the time of the step and the duration of the processing.
\<close>

datatype consumer_event = ContextDone int | Incoming l1SyncMessage nat int int

fun consumer_step ::
    "process_fun \<Rightarrow> consumer_event \<Rightarrow> l1RollupInfoConsumer \<Rightarrow> go_error option \<times> l1RollupInfoConsumer" where
  "consumer_step sync (ContextDone now) l =
     (Some errContextCanceled, l\<lparr>cons_statistics := stats_onStartStep now (cons_statistics l)\<rparr>)"
| "consumer_step sync (Incoming rollupInfo items now duration) l =
     (let l1 = l\<lparr>cons_statistics := stats_onStartStep now (cons_statistics l)\<rparr>;
          (err, l2) = (if dataIsValid rollupInfo
                       then processIncommingRollupInfoData sync duration (msg_data rollupInfo) l1
                       else (None, l1))
      in if ctrlIsValid rollupInfo
         then (processIncommingRollupControlData items (msg_ctrl rollupInfo), l2)
         else (err, l2))"

text \<open>
  The loop of \<open>Start\<close> over the events that happen; \<open>None\<close> while the consumer still waits, and
  else the error \<open>Start\<close> returns, nil for the two stops.
\<close>

fun consumer_loop ::
    "process_fun \<Rightarrow> consumer_event list \<Rightarrow> l1RollupInfoConsumer \<Rightarrow>
     go_error option option \<times> l1RollupInfoConsumer" where
  "consumer_loop sync [] l = (None, l)"
| "consumer_loop sync (ev # evs) l =
     (case consumer_step sync ev l of
        (None, l1) \<Rightarrow> consumer_loop sync evs l1
      | (Some err, l1) \<Rightarrow>
          (Some (if err \<noteq> errConsumerStopped \<and> err \<noteq> errConsumerStoppedBecauseIsSynchronized
                 then Some err else None), l1))"

definition consumer_Start ::
    "process_fun \<Rightarrow> int \<Rightarrow> StateBlock option \<Rightarrow> consumer_event list \<Rightarrow> l1RollupInfoConsumer \<Rightarrow>
     go_error option option \<times> l1RollupInfoConsumer" where
  "consumer_Start sync now lastSynced evs l =
     (let l1 = l\<lparr>lastEthBlockSynced := lastSynced\<rparr>;
          l2 = (if highestBlockProcessed l1 = invalidBlockNumber \<and> lastSynced \<noteq> None
                then l1\<lparr>highestBlockProcessed := stb_BlockNumber (the lastSynced)\<rparr> else l1)
      in consumer_loop sync evs (l2\<lparr>cons_statistics := stats_onStart now (cons_statistics l2)\<rparr>))"

section \<open>What is processed\<close>

text \<open>The call a result leads to, if it leads to one.\<close>

definition delivery :: "rollupInfoByBlockRangeResult \<Rightarrow> (EthBlock list \<times> block_order) list" where
  "delivery r =
     (if rr_blocks r \<noteq> [] then [(rr_blocks r, rr_order r)]
      else case lastBlockOfRange r of
             Some lb \<Rightarrow> [([convertL1BlockToEthBlock lb], rr_order r)]
           | None \<Rightarrow> [])"

lemma processUnsafe_processed:
  "processed (snd (processUnsafe sync r l)) = processed l @ delivery r"
  by (simp add: processUnsafe_def delivery_def call_processBlockRange_def split: option.splits)

lemma processUnsafe_frame:
  "highestBlockProcessed (snd (processUnsafe sync r l)) = highestBlockProcessed l"
  "cons_statistics (snd (processUnsafe sync r l)) = cons_statistics l"
  "lastEthBlockSynced (snd (processUnsafe sync r l)) = lastEthBlockSynced l"
  by (auto simp: processUnsafe_def call_processBlockRange_def split: option.splits)

text \<open>The three ways a result can end: ignored, a reorganization, or handed to the synchronizer.\<close>

lemma process_cases:
  obtains
    (ignored) "highestBlockProcessed l \<noteq> invalidBlockNumber"
      "fromBlock (rr_blockRange r) \<noteq> highestBlockProcessed l + 1"
      "processIncommingRollupInfoData sync duration r l = (None, l)"
  | (reorg) l' e where "checkPreviousBlocks r (lastEthBlockReceived l) = Some e" "processed l' = processed l"
      "processIncommingRollupInfoData sync duration r l = (Some e, l')"
  | (handed) l' lb err l'' where "processed l' = processed l @ delivery r"
      "highestBlockProcessed l' = getHighestBlockNumberInResponse r"
      "err = None \<Longrightarrow> numProcessedBlocks (cons_statistics l') =
         numProcessedBlocks (cons_statistics l) + of_nat (length (rr_blocks r)) + of_nat (length (rr_blocks r))"
      "err = None \<Longrightarrow> lb \<noteq> None \<Longrightarrow> lastEthBlockSynced l' = lb"
      "(lb, err) = fst (processUnsafe sync r l'') " "l'' = l\<lparr>highestBlockProcessed := getHighestBlockNumberInResponse r,
         cons_statistics := stats_onStartProcess (cons_statistics l), lastEthBlockReceived := getHighestBlockReceived r\<rparr>"
      "processIncommingRollupInfoData sync duration r l = (err, l')"
proof -
  let ?l1 = "l\<lparr>highestBlockProcessed := getHighestBlockNumberInResponse r,
      cons_statistics := stats_onStartProcess (cons_statistics l)\<rparr>"
  let ?l2 = "?l1\<lparr>lastEthBlockReceived := getHighestBlockReceived r\<rparr>"
  have check: "(case lastEthBlockReceived l of None \<Rightarrow> None | Some b \<Rightarrow> checkPreviousBlocks r (Some b)) =
      checkPreviousBlocks r (lastEthBlockReceived l)"
    by (simp add: checkPreviousBlocks_def split: option.splits)
  show thesis
  proof (cases "highestBlockProcessed l \<noteq> invalidBlockNumber \<and> fromBlock (rr_blockRange r) \<noteq> highestBlockProcessed l + 1")
    case True
    then have "highestBlockProcessed l + 1 \<noteq> fromBlock (rr_blockRange r)" by auto
    with True show thesis by (intro ignored) (simp_all add: processIncommingRollupInfoData_def)
  next
    case ok: False
    then have neg: "\<not> (highestBlockProcessed l \<noteq> invalidBlockNumber \<and> highestBlockProcessed l + 1 \<noteq> fromBlock (rr_blockRange r))"
      by auto
    show thesis
    proof (cases "checkPreviousBlocks r (lastEthBlockReceived l)")
      case (Some e)
      show thesis
        by (rule reorg [OF Some, of ?l1]) (use neg Some check in \<open>simp_all add: processIncommingRollupInfoData_def\<close>)
    next
      case None
      obtain lb err l3 where u: "processUnsafe sync r ?l2 = ((lb, err), l3)" by (metis prod.exhaust)
      have l3: "processed l3 = processed l @ delivery r" "highestBlockProcessed l3 = getHighestBlockNumberInResponse r"
        "cons_statistics l3 = stats_onStartProcess (cons_statistics l)"
        using processUnsafe_processed [of sync r ?l2] processUnsafe_frame [of sync r ?l2] by (simp_all add: u)
      define l4 where "l4 = (if err = None \<and> lb \<noteq> None then l3\<lparr>lastEthBlockSynced := lb\<rparr> else l3)"
      define l5 where "l5 = l4\<lparr>cons_statistics := stats_onFinishProcess r duration err (cons_statistics l4)\<rparr>"
      define l6 where "l6 = (if err \<noteq> None then l5 else l5\<lparr>cons_statistics := (cons_statistics l5)\<lparr>numProcessedBlocks :=
         numProcessedBlocks (cons_statistics l5) + of_nat (length (rr_blocks r))\<rparr>\<rparr>)"
      have eq: "processIncommingRollupInfoData sync duration r l = (err, l6)"
        using neg None check u
        by (simp only: processIncommingRollupInfoData_def if_False Let_def) (simp add: l4_def l5_def l6_def)
      have "cons_statistics l4 = stats_onStartProcess (cons_statistics l)" "processed l4 = processed l3"
        "highestBlockProcessed l4 = highestBlockProcessed l3" "err = None \<Longrightarrow> lb \<noteq> None \<Longrightarrow> lastEthBlockSynced l4 = lb"
        using l3(3) by (simp_all add: l4_def)
      moreover have "(lb, err) = fst (processUnsafe sync r ?l2)" by (simp add: u)
      ultimately show thesis
        by (intro handed [OF _ _ _ _ _ refl eq])
          (simp_all only: l5_def l6_def l3, simp_all add: stats_onFinishProcess_def stats_onStartProcess_def)
    qed
  qed
qed

lemma process_accepts:
  assumes "highestBlockProcessed l = invalidBlockNumber \<or>
      fromBlock (rr_blockRange r) = highestBlockProcessed l + 1"
    and "processIncommingRollupInfoData sync duration r l = (None, l')"
  shows "processed l' = processed l @ delivery r \<and>
    highestBlockProcessed l' = getHighestBlockNumberInResponse r"
  by (cases rule: process_cases [of l r sync duration]) (use assms in auto)

section \<open>Properties\<close>

definition incoming :: "l1SyncMessage list \<Rightarrow> consumer_event list" where
  "incoming ms = map (\<lambda>m. Incoming m 0 0 0) ms"

lemma loop_accepts:
  assumes "in_block_order b ms" "\<forall>m \<in> set ms. dataIsValid m \<and> \<not> ctrlIsValid m"
    and "highestBlockProcessed l = invalidBlockNumber \<or> highestBlockProcessed l = b"
    and "consumer_loop sync (incoming ms) l = (None, l')"
  shows "processed l' = processed l @ concat (map (delivery \<circ> msg_data) ms)"
  using assms
proof (induction ms arbitrary: b l)
  case (Cons m ms)
  let ?l1 = "l\<lparr>cons_statistics := stats_onStartStep 0 (cons_statistics l)\<rparr>"
  from Cons.prems obtain l2 where p: "processIncommingRollupInfoData sync 0 (msg_data m) ?l1 = (None, l2)"
    and rest: "consumer_loop sync (incoming ms) l2 = (None, l')"
    by (auto simp: incoming_def split: prod.splits option.splits)
  have "highestBlockProcessed ?l1 = invalidBlockNumber \<or>
      fromBlock (rr_blockRange (msg_data m)) = highestBlockProcessed ?l1 + 1"
    using Cons.prems(1-3) by auto
  from process_accepts [OF this p] have l2: "processed l2 = processed l @ delivery (msg_data m)"
    "highestBlockProcessed l2 = getHighestBlockNumberInResponse (msg_data m)" by simp_all
  have "highestBlockProcessed l2 = invalidBlockNumber \<or> highestBlockProcessed l2 = last_after b m"
    using l2(2) Cons.prems(2) by (simp add: last_after_def)
  from Cons.IH [OF _ _ this rest] Cons.prems(1,2) l2(1) show ?case by simp
qed (simp add: incoming_def)

text \<open>
  The consumer takes what the filter sends: when it starts at the block where the filter
  stands and no processing fails, it hands the blocks of every data message the filter sends
  to the synchronizer, in order, and ignores none.
\<close>

theorem consumer_takes_what_filter_sends:
  assumes "Filter data s = (res, s')" "\<forall>m \<in> set res. dataIsValid m \<and> \<not> ctrlIsValid m"
    and "highestBlockProcessed l = lastBlockOnSynchronizer s"
    and "consumer_loop sync (incoming res) l = (None, l')"
  shows "processed l' = processed l @ concat (map (delivery \<circ> msg_data) res)"
proof -
  have "in_block_order (lastBlockOnSynchronizer s) res"
    using sendResult_spec [OF assms(1) [unfolded Filter_def], of "lastBlockOnSynchronizer s"]
    by (auto simp: addPendingResultUnsafe_def)
  from loop_accepts [OF this assms(2) _ assms(4)] assms(3) show ?thesis by simp
qed

text \<open>
  A reorganization of L1 is detected before anything is processed: when the block before a
  range has the number of the block last received and another hash or another parent, the
  consumer stops with the reorganization error and the synchronizer gets no block of the range.
\<close>

theorem reorg_is_detected:
  assumes "lastEthBlockReceived l = Some cached" "previousBlockOfRange r = Some pb"
    and "stb_BlockNumber cached = NumberU64 pb"
    and "stb_BlockHash cached \<noteq> geth_Hash pb \<or> stb_ParentHash cached \<noteq> geth_ParentHash pb"
    and "highestBlockProcessed l + 1 = fromBlock (rr_blockRange r)"
  shows "\<exists>l'. processIncommingRollupInfoData sync duration r l = (Some errL1Reorg, l') \<and> processed l' = processed l"
proof -
  have c: "checkPreviousBlocks r (lastEthBlockReceived l) = Some errL1Reorg"
    using assms(1-4) by (auto simp: checkPreviousBlocks_def)
  then show ?thesis
    using assms(1,5) by (simp add: processIncommingRollupInfoData_def)
qed

text \<open>
  The statistics count every processed block twice: after a result that was processed
  without error the counter has grown by twice the number of its blocks.
\<close>

theorem blocks_are_counted_twice:
  assumes "highestBlockProcessed l = invalidBlockNumber" "lastEthBlockReceived l = None"
    and "processIncommingRollupInfoData sync duration r l = (None, l')"
  shows "numProcessedBlocks (cons_statistics l') =
    numProcessedBlocks (cons_statistics l) + 2 * of_nat (length (rr_blocks r))"
  by (cases rule: process_cases [of l r sync duration]) (use assms in \<open>auto simp: checkPreviousBlocks_def\<close>)

text \<open>The witnesses: blocks 101 and 102, and a processing that succeeds.\<close>

definition sample_block :: "u64 \<Rightarrow> EthBlock" where
  "sample_block n = \<lparr>BlockNumber = n, BlockHash = 7, ParentHash = 6, GlobalExitRoots = [], ForcedBatches = [],
     SequencedBatches = [], VerifiedBatches = [], SequencedForceBatches = [], ForkIDs = [], BlockReceivedAt = 0\<rparr>"

definition sample_result :: rollupInfoByBlockRangeResult where
  "sample_result = \<lparr>rr_blockRange = brange 101 111, rr_blocks = [sample_block 101, sample_block 102], rr_order = [],
     lastBlockOfRange = None,
     previousBlockOfRange = Some \<lparr>NumberU64 = 100, geth_Hash = 1, geth_ParentHash = 0, geth_Time = 0\<rparr>\<rparr>"

definition sample_consumer :: l1RollupInfoConsumer where
  "sample_consumer = (newL1RollupInfoConsumer 0)\<lparr>highestBlockProcessed := 100,
     lastEthBlockReceived := Some \<lparr>stb_BlockNumber = 100, stb_BlockHash = 2, stb_ParentHash = 0, stb_ReceivedAt = 0\<rparr>\<rparr>"

theorem consumer_takes_what_filter_sends_witness:
  "\<exists>res s' l'. Filter (data_message 101 111) (newFilterToSendOrdererResultsToConsumer 100) = (res, s') \<and>
     consumer_loop (\<lambda>n bs ord. None) (incoming res) (sample_consumer\<lparr>lastEthBlockReceived := None\<rparr>) = (None, l') \<and>
     processed l' = concat (map (delivery \<circ> msg_data) res)"
proof -
  let ?l = "sample_consumer\<lparr>lastEthBlockReceived := None\<rparr>"
  obtain res s' where f: "Filter (data_message 101 111) (newFilterToSendOrdererResultsToConsumer 100) = (res, s')"
    by fastforce
  then have res: "res = [data_message 101 111]"
    by (simp add: Filter_def addPendingResultUnsafe_def sendResultIfPossibleUnsafe.simps
        newFilterToSendOrdererResultsToConsumer_def matchNextBlockUnsafe_def data_message_def
        removeIndexFromPendingResultsUnsafe_def brange_def setLastBlockOnSynchronizer_def
        getHighestBlockNumberInResponse_def latestBlockNumber_def invalidBlockNumber_def)
  obtain l' where l: "consumer_loop (\<lambda>n bs ord. None) (incoming res) ?l = (None, l')"
    by (simp add: res incoming_def data_message_def processIncommingRollupInfoData_def processUnsafe_def
        sample_consumer_def brange_def zeroResult_def)
  have "processed l' = processed ?l @ concat (map (delivery \<circ> msg_data) res)"
    by (rule consumer_takes_what_filter_sends [OF f _ _ l])
      (simp_all add: res data_message_def newFilterToSendOrdererResultsToConsumer_def sample_consumer_def)
  with f l show ?thesis by (simp add: sample_consumer_def newL1RollupInfoConsumer_def)
qed

theorem reorg_is_detected_witness:
  "\<exists>l'. processIncommingRollupInfoData (\<lambda>n bs ord. None) 0 sample_result sample_consumer = (Some errL1Reorg, l') \<and>
     processed l' = []"
  using reorg_is_detected [of sample_consumer _ sample_result]
  by (simp add: sample_consumer_def sample_result_def newL1RollupInfoConsumer_def brange_def)

theorem blocks_are_counted_twice_witness:
  "\<exists>l'. processIncommingRollupInfoData (\<lambda>n bs ord. None) 0 sample_result (newL1RollupInfoConsumer 0) = (None, l') \<and>
     numProcessedBlocks (cons_statistics l') = 4"
proof -
  obtain l' where p: "processIncommingRollupInfoData (\<lambda>n bs ord. None) 0 sample_result (newL1RollupInfoConsumer 0) = (None, l')"
    by (simp add: processIncommingRollupInfoData_def newL1RollupInfoConsumer_def processUnsafe_def sample_result_def
        call_processBlockRange_def)
  from blocks_are_counted_twice [OF _ _ p] p show ?thesis
    by (simp add: newL1RollupInfoConsumer_def sample_result_def)
qed

end
