(* ===== verification/L1Producer.thy ===== *)
theory L1Producer
  imports L1Workers L1Consumer
begin

text \<open>
  The producer of the L1 results (\<open>synchronizer/l1_rollup_info_producer.go\<close>): it asks the sync
  status for ranges, starts workers on them, and sends what they answer through the filter to
  the consumer's channel. \<open>None\<close> is the end of the process, by \<open>log.Fatal\<close> or by a nil pointer.
  The channel is a list; that a send may block when it is full is not modelled.
\<close>

section \<open>State\<close>

datatype producerStatusEnum =
  producerIdle | producerWorking | producerSynchronized | producerNoRunning | producerReseting

datatype producerCmdEnum = producerNop | producerStop | producerReset

record producerCmd =
  cmd_cmd :: producerCmdEnum
  cmd_param1 :: u64

record configProducer =
  syncChunkSize :: u64
  cfg_ttlOfLastBlockOnL1 :: int
  timeoutForRequestLastBlockOnL1 :: int
  numOfAllowedRetriesForRequestLastBlockOnL1 :: int
  timeOutMainLoop :: int

record l1RollupInfoProducerStatistics =
  initialBlockNumber :: u64
  lastBlockNumber :: u64
  numRollupInfoOk :: u64
  numRollupInfoErrors :: u64
  numRetrievedBlocks :: u64
  accumulatedTimeProcessingRollup :: int

record l1RollupInfoProducer =
  p_workers :: workers
  p_cache :: "(blockRange, controlWorkerFlux) Cache"
  p_syncStatus :: syncStatus
  outgoingChannel :: "l1SyncMessage list"
  channelCap :: nat
  timeLastBLockOnL1 :: int
  p_status :: producerStatusEnum
  p_filter :: filterState
  p_statistics :: l1RollupInfoProducerStatistics
  p_cfg :: configProducer
  channelCmds :: "producerCmd list"

definition pstats_reset :: "u64 \<Rightarrow> l1RollupInfoProducerStatistics \<Rightarrow> l1RollupInfoProducerStatistics" where
  "pstats_reset startingBlockNumber st =
     st\<lparr>initialBlockNumber := startingBlockNumber, numRollupInfoOk := 0, numRollupInfoErrors := 0,
        numRetrievedBlocks := 0\<rparr>"

definition pstats_onResponse ::
    "responseRollupInfoByBlockRange \<Rightarrow> l1RollupInfoProducerStatistics \<Rightarrow> l1RollupInfoProducerStatistics option" where
  "pstats_onResponse resp st =
     (if gr_err (rs_generic resp) = None then
        (case rs_result resp of
           None \<Rightarrow> None
         | Some r \<Rightarrow> Some (st\<lparr>numRollupInfoOk := numRollupInfoOk st + 1,
             numRetrievedBlocks := numRetrievedBlocks st + br_len (rr_blockRange r),
             accumulatedTimeProcessingRollup := accumulatedTimeProcessingRollup st + gr_duration (rs_generic resp)\<rparr>))
      else Some (st\<lparr>numRollupInfoErrors := numRollupInfoErrors st + 1\<rparr>))"

section \<open>Operations\<close>

definition sendPackages :: "l1SyncMessage list \<Rightarrow> l1RollupInfoProducer \<Rightarrow> l1RollupInfoProducer" where
  "sendPackages outgoingPackages l = l\<lparr>outgoingChannel := outgoingChannel l @ outgoingPackages\<rparr>"

definition emptyChannel :: "l1RollupInfoProducer \<Rightarrow> l1RollupInfoProducer" where
  "emptyChannel l = l\<lparr>outgoingChannel := []\<rparr>"

definition p_setStatus :: "producerStatusEnum \<Rightarrow> l1RollupInfoProducer \<Rightarrow> l1RollupInfoProducer" where
  "p_setStatus newStatus l =
     (let previousStatus = p_status l; l1 = l\<lparr>p_status := newStatus\<rparr>
      in if previousStatus \<noteq> newStatus \<and> newStatus = producerSynchronized
         then sendPackages [newL1SyncMessageControl eventProducerIsFullySynced] l1 else l1)"

definition producer_Reset :: "u64 \<Rightarrow> l1RollupInfoProducer \<Rightarrow> l1RollupInfoProducer" where
  "producer_Reset startingBlockNumber l =
     (let l1 = emptyChannel (p_setStatus producerReseting l)
      in l1\<lparr>channelCmds := channelCmds l1 @ [\<lparr>cmd_cmd = producerReset, cmd_param1 = startingBlockNumber\<rparr>]\<rparr>)"

text \<open>
  \<open>workers.stop\<close> of the decorator clears its cache; it hides the pool's own \<open>stop\<close>, so the
  workers that are running are not cancelled.
\<close>

definition decorator_stop :: "l1RollupInfoProducer \<Rightarrow> l1RollupInfoProducer" where
  "decorator_stop l = l\<lparr>p_cache := cache_Clear (p_cache l)\<rparr>"

definition resetUnsafe :: "u64 \<Rightarrow> l1RollupInfoProducer \<Rightarrow> l1RollupInfoProducer" where
  "resetUnsafe startingBlockNumber l =
     (let l1 = p_setStatus producerReseting l;
          l2 = l1\<lparr>p_syncStatus := ss_Reset startingBlockNumber (p_syncStatus l1),
                  p_statistics := pstats_reset startingBlockNumber (p_statistics l1)\<rparr>;
          l3 = emptyChannel (decorator_stop l2);
          l4 = l3\<lparr>p_filter := filter_Reset startingBlockNumber (p_filter l3)\<rparr>
      in p_setStatus producerIdle l4)"

definition stopUnsafe :: "l1RollupInfoProducer \<Rightarrow> l1RollupInfoProducer" where
  "stopUnsafe l = decorator_stop (p_setStatus producerNoRunning l)"

definition executeCmd :: "producerCmd \<Rightarrow> l1RollupInfoProducer \<Rightarrow> bool \<times> l1RollupInfoProducer" where
  "executeCmd cmd l =
     (case cmd_cmd cmd of
        producerStop \<Rightarrow> (False, stopUnsafe l)
      | producerReset \<Rightarrow> (True, resetUnsafe (cmd_param1 cmd) l)
      | producerNop \<Rightarrow> (True, l))"

definition getNextTimeout :: "int \<Rightarrow> l1RollupInfoProducer \<Rightarrow> int" where
  "getNextTimeout now l =
     (case p_status l of
        producerSynchronized \<Rightarrow>
          max ((now - timeLastBLockOnL1 l) + cfg_ttlOfLastBlockOnL1 (p_cfg l)) 1000000000
      | _ \<Rightarrow> timeOutMainLoop (p_cfg l))"

definition onNewLastBlock :: "int \<Rightarrow> u64 \<Rightarrow> l1RollupInfoProducer \<Rightarrow> l1RollupInfoProducer" where
  "onNewLastBlock now lastBlock l =
     (let (resp, s) = OnNewLastBlockOnL1 lastBlock (p_syncStatus l)
      in l\<lparr>p_syncStatus := s,
           p_statistics := (p_statistics l)\<lparr>lastBlockNumber := toBlock (fullRange resp)\<rparr>,
           timeLastBLockOnL1 := now\<rparr>)"

text \<open>The log line reads the block of the response before the error is looked at.\<close>

definition renewLastBlockOnL1IfNeeded ::
    "(nat \<Rightarrow> etherman) \<Rightarrow> int \<Rightarrow> int \<Rightarrow> l1RollupInfoProducer \<Rightarrow> l1RollupInfoProducer option" where
  "renewLastBlockOnL1IfNeeded eth now1 now2 l =
     (if now1 - timeLastBLockOnL1 l > cfg_ttlOfLastBlockOnL1 (p_cfg l) then do {
        (result, w) \<leftarrow> requestLastBlockWithRetries eth 0
          (numOfAllowedRetriesForRequestLastBlockOnL1 (p_cfg l)) (p_workers l);
        let l1 = l\<lparr>p_workers := w\<rparr>;
        block \<leftarrow> lb_result result;
        Some (if gr_err (lb_generic result) \<noteq> None then l1 else onNewLastBlock now2 block l1)
      } else Some l)"

definition canISendNewRequestsUnsafe :: "l1RollupInfoProducer \<Rightarrow> bool" where
  "canISendNewRequestsUnsafe l \<longleftrightarrow>
     \<not> (numItemBlockedInQueue (p_filter l) + length (outgoingChannel l) > channelCap l)"

definition work_request :: "blockRange \<Rightarrow> syncStatus \<Rightarrow> requestRollupInfoByBlockRange" where
  "work_request br s =
     (let request = \<lparr>rq_blockRange = br, sleepBefore = 0,
            requestLastBlockIfNoBlocksInAnswer = requestLastBlockModeIfNoBlocksInAnswer,
            requestPreviousBlock = False\<rparr>
      in if BlockNumberIsInsideUnsafeArea (fromBlock br) s
         then request\<lparr>requestLastBlockIfNoBlocksInAnswer := requestLastBlockModeAlways,
                      requestPreviousBlock := True\<rparr>
         else request)"

text \<open>
  The call through the decorator: it may change the time to sleep, and a busy pool leaves no
  tag. \<open>clk\<close> are the readings of the clock.
\<close>

definition request_through_decorator ::
    "int \<Rightarrow> limit_clock \<Rightarrow> requestRollupInfoByBlockRange \<Rightarrow> workers \<Rightarrow>
     (blockRange, controlWorkerFlux) Cache \<Rightarrow>
     go_error option \<times> workers \<times> (blockRange, controlWorkerFlux) Cache" where
  "request_through_decorator minTime clk request w c =
     (let ((sent, err), c') = limitedRequestRollupInfoByBlockRange minTime clk
            (\<lambda>r. case fst (asyncRequestRollupInfo r w) of Inl e \<Rightarrow> Some e | Inr i \<Rightarrow> None) request c
      in (err, snd (asyncRequestRollupInfo sent w), c'))"

text \<open>
  The loop of \<open>launchWork\<close>: it ends when there is no range to ask for or a request is refused.
  The number of idle workers bounds it.
\<close>

lemma decorator_uses_worker:
  assumes "request_through_decorator minTime clk request w c = (None, w', c')"
  shows "idle_count w' < idle_count w"
proof -
  obtain sent err c1 where l: "limitedRequestRollupInfoByBlockRange minTime clk
      (\<lambda>r. case fst (asyncRequestRollupInfo r w) of Inl e \<Rightarrow> Some e | Inr i \<Rightarrow> None) request c = ((sent, err), c1)"
    by (metis prod.exhaust)
  have "err = (case fst (asyncRequestRollupInfo sent w) of Inl e \<Rightarrow> Some e | Inr i \<Rightarrow> None)"
    using l by (auto simp: limitedRequestRollupInfoByBlockRange_def limited_request_def split: prod.splits)
  with assms l show ?thesis
    by (cases rule: asyncRequest_cases [of w sent]) (auto simp: request_through_decorator_def)
qed

function launch_loop ::
    "int \<Rightarrow> (nat \<Rightarrow> limit_clock) \<Rightarrow> bool \<Rightarrow> nat \<Rightarrow> l1RollupInfoProducer \<Rightarrow> (nat \<times> l1RollupInfoProducer) option"
  where
  "launch_loop minTime clk allowNewRequests launchedWorker l =
     (case (if allowNewRequests then GetNextRange (p_syncStatus l)
            else Some (GetNextRangeOnlyRetries (p_syncStatus l))) of
        None \<Rightarrow> None
      | Some (offer, s1) \<Rightarrow>
          (case offer of
             None \<Rightarrow> Some (launchedWorker, l\<lparr>p_syncStatus := s1\<rparr>)
           | Some br \<Rightarrow>
               (case request_through_decorator minTime (clk launchedWorker) (work_request br s1)
                       (p_workers l) (p_cache l) of
                  (Some err, w', c') \<Rightarrow>
                    Some (launchedWorker, l\<lparr>p_syncStatus := s1, p_workers := w', p_cache := c'\<rparr>)
                | (None, w', c') \<Rightarrow>
                    (case OnStartedNewWorker br s1 of
                       None \<Rightarrow> None
                     | Some s2 \<Rightarrow> launch_loop minTime clk allowNewRequests (launchedWorker + 1)
                         (l\<lparr>p_syncStatus := s2, p_workers := w', p_cache := c'\<rparr>)))))"
  by pat_completeness auto
termination
  by (relation "measure (\<lambda>(mt, clk, b, n, l). idle_count (p_workers l))")
    (auto dest: decorator_uses_worker [OF sym])

declare launch_loop.simps [simp del]

definition launchWork ::
    "int \<Rightarrow> (nat \<Rightarrow> limit_clock) \<Rightarrow> l1RollupInfoProducer \<Rightarrow> (nat \<times> l1RollupInfoProducer) option" where
  "launchWork minTime clk l = launch_loop minTime clk (canISendNewRequestsUnsafe l) 0 l"

definition onResponseRollupInfo ::
    "responseRollupInfoByBlockRange \<Rightarrow> l1RollupInfoProducer \<Rightarrow> l1RollupInfoProducer option" where
  "onResponseRollupInfo result l =
     (if p_status l = producerReseting then Some l
      else do {
        st \<leftarrow> pstats_onResponse result (p_statistics l);
        let isOk = (gr_err (rs_generic result) = None);
        let highest = (if isOk then response_getHighestBlockNumberInResponse result else invalidBlockNumber);
        r \<leftarrow> rs_result result;
        (valid, s) \<leftarrow> OnFinishWorker (rr_blockRange r) isOk highest (p_syncStatus l);
        let l1 = l\<lparr>p_statistics := st, p_syncStatus := s\<rparr>;
        if \<not> valid then Some l1
        else if isOk then do {
          m \<leftarrow> newL1SyncMessageData (Some r);
          let (outgoingPackages, f) = Filter m (p_filter l1);
          Some (sendPackages outgoingPackages (l1\<lparr>p_filter := f\<rparr>))
        } else Some l1
      })"

text \<open>
  One turn of the producer's loop: what the select finds, then the work of the status. The
  environment has the clients and the readings of the clock of the turn: \<open>se_eth k\<close> serves the
  \<open>k\<close>-th request for the last block and \<open>se_clk k\<close> the \<open>k\<close>-th launch of workers.
\<close>

datatype producer_event =
    CtxCancelled
  | Command producerCmd
  | TimeoutElapsed
  | Response responseRollupInfoByBlockRange

record step_env =
  se_eth :: "nat \<Rightarrow> nat \<Rightarrow> etherman"
  se_now :: int
  se_clk :: "nat \<Rightarrow> nat \<Rightarrow> limit_clock"
  se_minTime :: int

definition step_status :: "step_env \<Rightarrow> l1RollupInfoProducer \<Rightarrow> (bool \<times> l1RollupInfoProducer) option" where
  "step_status env l =
     (case p_status l of
        producerIdle \<Rightarrow> do {
          l1 \<leftarrow> renewLastBlockOnL1IfNeeded (se_eth env 0) (se_now env) (se_now env) l;
          Some (True,
            if DoesItHaveAllTheNeedDataToWork (p_syncStatus l1)
            then (p_setStatus producerWorking l1)\<lparr>channelCmds :=
                   channelCmds l1 @ [\<lparr>cmd_cmd = producerNop, cmd_param1 = 0\<rparr>]\<rparr>
            else l1)
        }
      | producerWorking \<Rightarrow> do {
          (n, l1) \<leftarrow> launchWork (se_minTime env) (se_clk env 0) l;
          l2 \<leftarrow> (if HaveRequiredAllBlocksToBeSynchronized (p_syncStatus l1)
                then renewLastBlockOnL1IfNeeded (se_eth env 0) (se_now env) (se_now env) l1 else Some l1);
          l3 \<leftarrow> (if BlockNumberIsInsideUnsafeArea invalidBlockNumber (p_syncStatus l2)
                then renewLastBlockOnL1IfNeeded (se_eth env 1) (se_now env) (se_now env) l2 else Some l2);
          if IsNodeFullySynchronizedWithL1 (p_syncStatus l3)
          then Some (True, p_setStatus producerSynchronized l3)
          else do {
            (m, l4) \<leftarrow> launchWork (se_minTime env) (se_clk env 1) l3;
            Some (True, l4)
          }
        }
      | producerSynchronized \<Rightarrow> do {
          l1 \<leftarrow> renewLastBlockOnL1IfNeeded (se_eth env 0) (se_now env) (se_now env) l;
          (n, l2) \<leftarrow> launchWork (se_minTime env) (se_clk env 0) l1;
          Some (True, if n > 0 then p_setStatus producerWorking l2 else l2)
        }
      | producerNoRunning \<Rightarrow> Some (True, l)
      | producerReseting \<Rightarrow> Some (True, l))"

definition producer_step ::
    "step_env \<Rightarrow> producer_event \<Rightarrow> l1RollupInfoProducer \<Rightarrow> (bool \<times> l1RollupInfoProducer) option" where
  "producer_step env ev l0 =
     (let l = (if p_status l0 = producerNoRunning then l0\<lparr>p_status := producerIdle\<rparr> else l0) in
      case ev of
        CtxCancelled \<Rightarrow> Some (False, l)
      | Command cmd \<Rightarrow>
          (let (res, l1) = executeCmd cmd l in if \<not> res then Some (False, l1) else step_status env l1)
      | TimeoutElapsed \<Rightarrow> step_status env l
      | Response resp \<Rightarrow> do { l1 \<leftarrow> onResponseRollupInfo resp l; step_status env l1 })"

section \<open>Launching work\<close>

lemma next_range_offer:
  assumes "sync_inv limit (start, s, d)"
  shows "\<exists>offer s1. (if allow then GetNextRange s else Some (GetNextRangeOnlyRetries s)) = Some (offer, s1) \<and>
    sync_inv limit (start, s1, d) \<and>
    (\<forall>br. offer = Some br \<longrightarrow> (\<exists>s2. OnStartedNewWorker br s1 = Some s2 \<and> sync_inv limit (start, s2, d)))"
proof (cases allow)
  case True
  then show ?thesis using GetNextRange_inv [OF assms] by simp
next
  case False
  obtain offer s1 where r: "getNextRangeOnlyRetriesUnsafe s = (offer, s1)" by fastforce
  have "\<exists>s2. OnStartedNewWorker br s1 = Some s2 \<and> sync_inv limit (start, s2, d)" if "offer = Some br" for br
    using retries_inv [OF assms r] start_retry_inv [of limit start s1 d br] that by blast
  with retries_inv(1) [OF assms r] r False show ?thesis by (simp add: GetNextRangeOnlyRetries_def)
qed

lemma decorator_cases:
  obtains
    (busy) "idle_count w = 0" "\<exists>c'. request_through_decorator minTime clk request w c = (Some errAllWorkersBusy, w, c')"
  | (started) w' c' where "request_through_decorator minTime clk request w c = (None, w', c')"
      "Suc (idle_count w') = idle_count w"
proof -
  obtain sent err c1 where l: "limitedRequestRollupInfoByBlockRange minTime clk
      (\<lambda>r. case fst (asyncRequestRollupInfo r w) of Inl e \<Rightarrow> Some e | Inr i \<Rightarrow> None) request c = ((sent, err), c1)"
    by (metis prod.exhaust)
  have err: "err = (case fst (asyncRequestRollupInfo sent w) of Inl e \<Rightarrow> Some e | Inr i \<Rightarrow> None)"
    using l by (auto simp: limitedRequestRollupInfoByBlockRange_def limited_request_def split: prod.splits)
  show thesis
  proof (cases rule: asyncRequest_cases [of w sent])
    case a: busy
    then show thesis using busy l err by (simp add: request_through_decorator_def)
  next
    case a: (started i w')
    then show thesis using started [of w' c1] l err by (simp add: request_through_decorator_def)
  qed
qed

lemma launch_loop_spec:
  assumes "sync_inv limit (start, p_syncStatus l, d)"
  shows "\<exists>n' l'. launch_loop minTime clk allow n l = Some (n', l') \<and> sync_inv limit (start, p_syncStatus l', d) \<and>
    n' + idle_count (p_workers l') = n + idle_count (p_workers l) \<and>
    p_filter l' = p_filter l \<and> outgoingChannel l' = outgoingChannel l"
  using assms
proof (induction minTime clk allow n l rule: launch_loop.induct)
  case (1 minTime clk allow n l)
  obtain offer s1 where o: "(if allow then GetNextRange (p_syncStatus l) else Some (GetNextRangeOnlyRetries (p_syncStatus l))) = Some (offer, s1)"
    and i1: "sync_inv limit (start, s1, d)"
    and st: "\<And>br. offer = Some br \<Longrightarrow> \<exists>s2. OnStartedNewWorker br s1 = Some s2 \<and> sync_inv limit (start, s2, d)"
    using next_range_offer [OF 1(2)] by blast
  show ?case
  proof (cases offer)
    case None
    with o i1 show ?thesis by (subst launch_loop.simps) simp
  next
    case (Some br)
    then obtain s2 where s2: "OnStartedNewWorker br s1 = Some s2" "sync_inv limit (start, s2, d)" using st by blast
    show ?thesis
    proof (cases rule: decorator_cases [of "p_workers l" minTime "clk n" "work_request br s1" "p_cache l"])
      case busy
      then obtain c' where "request_through_decorator minTime (clk n) (work_request br s1) (p_workers l) (p_cache l) =
          (Some errAllWorkersBusy, p_workers l, c')" by blast
      with o Some i1 show ?thesis by (subst launch_loop.simps) simp
    next
      case (started w' c')
      let ?l = "l\<lparr>p_syncStatus := s2, p_workers := w', p_cache := c'\<rparr>"
      from "1.IH" [OF o refl Some started(1) [symmetric] refl refl s2(1)] s2(2)
      have "\<exists>n' l'. launch_loop minTime clk allow (n + 1) ?l = Some (n', l') \<and> sync_inv limit (start, p_syncStatus l', d) \<and>
          n' + idle_count (p_workers l') = n + 1 + idle_count (p_workers ?l) \<and>
          p_filter l' = p_filter ?l \<and> outgoingChannel l' = outgoingChannel ?l" by simp
      then show ?thesis using o Some started s2(1) by (subst launch_loop.simps) auto
    qed
  qed
qed

section \<open>The channel\<close>

definition channel_ok :: "u64 \<Rightarrow> l1RollupInfoProducer \<Rightarrow> bool" where
  "channel_ok b l \<longleftrightarrow> in_block_order b (outgoingChannel l) \<and>
     fold (\<lambda>m l. last_after l m) (outgoingChannel l) b = lastBlockOnSynchronizer (p_filter l)"

lemma channel_ok_same:
  "channel_ok b l \<Longrightarrow> outgoingChannel l' = outgoingChannel l \<Longrightarrow> p_filter l' = p_filter l \<Longrightarrow> channel_ok b l'"
  by (simp add: channel_ok_def)

lemma channel_ok_setStatus: "channel_ok b l \<Longrightarrow> channel_ok b (p_setStatus st l)"
  by (auto simp: channel_ok_def p_setStatus_def sendPackages_def in_block_order_append newL1SyncMessageControl_def
      last_after_def)

lemma launch_loop_frame:
  "launch_loop minTime clk allow n l = Some (n', l') \<Longrightarrow> outgoingChannel l' = outgoingChannel l \<and> p_filter l' = p_filter l"
proof (induction minTime clk allow n l arbitrary: n' l' rule: launch_loop.induct)
  case (1 minTime clk allow n l)
  let ?next = "if allow then GetNextRange (p_syncStatus l) else Some (GetNextRangeOnlyRetries (p_syncStatus l))"
  show ?case
  proof (cases ?next)
    case None
    with "1.prems" show ?thesis by (subst (asm) launch_loop.simps) simp
  next
    case (Some p)
    obtain offer s1 where p: "p = (offer, s1)" by fastforce
    show ?thesis
    proof (cases offer)
      case None
      with "1.prems" Some p show ?thesis by (subst (asm) launch_loop.simps) auto
    next
      case br: (Some br)
      obtain err w' c' where r: "request_through_decorator minTime (clk n) (work_request br s1) (p_workers l) (p_cache l) =
          (err, w', c')" by (metis prod.exhaust)
      show ?thesis
      proof (cases "err = None \<and> OnStartedNewWorker br s1 \<noteq> None")
        case True
        then obtain s2 where s2: "OnStartedNewWorker br s1 = Some s2" by blast
        let ?l = "l\<lparr>p_syncStatus := s2, p_workers := w', p_cache := c'\<rparr>"
        have "launch_loop minTime clk allow (n + 1) ?l = Some (n', l')"
          using "1.prems" Some p br r s2 True by (subst (asm) launch_loop.simps) simp
        from "1.IH" [OF Some _ br r [symmetric] _ refl s2 this] p True show ?thesis by simp
      next
        case False
        with "1.prems" Some p br r show ?thesis
          by (subst (asm) launch_loop.simps) (auto split: option.splits)
      qed
    qed
  qed
qed

lemma launchWork_frame:
  "launchWork minTime clk l = Some (n', l') \<Longrightarrow> outgoingChannel l' = outgoingChannel l \<and> p_filter l' = p_filter l"
  unfolding launchWork_def by (rule launch_loop_frame)

lemma renew_frame:
  "renewLastBlockOnL1IfNeeded eth now1 now2 l = Some l' \<Longrightarrow>
     outgoingChannel l' = outgoingChannel l \<and> p_filter l' = p_filter l"
  by (auto simp: renewLastBlockOnL1IfNeeded_def onNewLastBlock_def split: if_splits prod.splits bind_splits)

lemma onResponse_channel:
  assumes "channel_ok b l" "onResponseRollupInfo result l = Some l'"
  shows "channel_ok b l'"
proof -
  consider "outgoingChannel l' = outgoingChannel l" "p_filter l' = p_filter l"
    | m res f where "Filter m (p_filter l) = (res, f)" "outgoingChannel l' = outgoingChannel l @ res" "p_filter l' = f"
  proof (cases "p_status l = producerReseting")
    case True
    with assms(2) show ?thesis using that(1) by (simp add: onResponseRollupInfo_def)
  next
    case False
    then obtain st r valid s where r: "pstats_onResponse result (p_statistics l) = Some st" "rs_result result = Some r"
      "OnFinishWorker (rr_blockRange r) (gr_err (rs_generic result) = None)
         (if gr_err (rs_generic result) = None then response_getHighestBlockNumberInResponse result else invalidBlockNumber)
         (p_syncStatus l) = Some (valid, s)"
      using assms(2) by (auto simp: onResponseRollupInfo_def bind_eq_Some_conv)
    obtain res f where f: "Filter \<lparr>dataIsValid = True, msg_data = r, ctrlIsValid = False, msg_ctrl = eventNone\<rparr> (p_filter l) = (res, f)"
      by fastforce
    show ?thesis
    proof (cases "valid \<and> gr_err (rs_generic result) = None")
      case True
      show ?thesis
        by (rule that(2) [OF f])
          (use assms(2) False r f True in \<open>simp_all add: onResponseRollupInfo_def newL1SyncMessageData_def sendPackages_def, auto\<close>)
    next
      case nv: False
      show ?thesis
        by (rule that(1)) (use assms(2) False r nv in \<open>auto simp: onResponseRollupInfo_def split: if_splits\<close>)
    qed
  qed
  then show ?thesis
  proof cases
    case 1
    with assms(1) show ?thesis by (rule channel_ok_same)
  next
    case 2
    then have "in_block_order (lastBlockOnSynchronizer (p_filter l)) res \<and>
        fold (\<lambda>m l. last_after l m) res (lastBlockOnSynchronizer (p_filter l)) = lastBlockOnSynchronizer f"
      using sendResult_spec [of "[]" "addPendingResultUnsafe m (p_filter l)" res f "lastBlockOnSynchronizer (p_filter l)"]
      by (auto simp: Filter_def addPendingResultUnsafe_def)
    with 2 assms(1) show ?thesis by (simp add: channel_ok_def in_block_order_append)
  qed
qed

lemma step_status_channel:
  assumes "channel_ok b l" "step_status env l = Some (r, l')"
  shows "channel_ok b l'"
proof -
  have renew: "channel_ok b k" if "renewLastBlockOnL1IfNeeded eth n1 n2 k' = Some k" "channel_ok b k'" for eth n1 n2 k k'
    using renew_frame [OF that(1)] channel_ok_same [OF that(2)] by blast
  have launch: "channel_ok b k" if "launchWork t clk k' = Some (n, k)" "channel_ok b k'" for t clk n k k'
    using launchWork_frame [OF that(1)] channel_ok_same [OF that(2)] by blast
  have cmds: "channel_ok b (k\<lparr>channelCmds := x\<rparr>) = channel_ok b k" for k x by (simp add: channel_ok_def)
  show ?thesis
  proof (cases "p_status l")
    case producerIdle
    with assms(2) obtain l1 where "renewLastBlockOnL1IfNeeded (se_eth env 0) (se_now env) (se_now env) l = Some l1"
      "l' = l1 \<or> (\<exists>x. l' = (p_setStatus producerWorking l1)\<lparr>channelCmds := x\<rparr>)"
      by (auto simp: step_status_def bind_eq_Some_conv split: if_splits)
    then show ?thesis using renew assms(1) channel_ok_setStatus cmds by metis
  next
    case producerWorking
    let ?need1 = "\<lambda>k. HaveRequiredAllBlocksToBeSynchronized (p_syncStatus k)"
    let ?need2 = "\<lambda>k. BlockNumberIsInsideUnsafeArea invalidBlockNumber (p_syncStatus k)"
    let ?renew = "\<lambda>i. renewLastBlockOnL1IfNeeded (se_eth env i) (se_now env) (se_now env)"
    obtain n l1 where l1: "launchWork (se_minTime env) (se_clk env 0) l = Some (n, l1)"
      using assms(2) producerWorking by (auto simp: step_status_def bind_eq_Some_conv)
    obtain l2 where l2: "(if ?need1 l1 then ?renew 0 l1 else Some l1) = Some l2"
      using assms(2) producerWorking l1 by (cases "if ?need1 l1 then ?renew 0 l1 else Some l1") (simp_all add: step_status_def)
    obtain l3 where l3: "(if ?need2 l2 then ?renew 1 l2 else Some l2) = Some l3"
      using assms(2) producerWorking l1 l2 by (cases "if ?need2 l2 then ?renew 1 l2 else Some l2") (simp_all add: step_status_def)
    have "channel_ok b l1" by (rule launch [OF l1 assms(1)])
    then have "channel_ok b l2" using l2 renew by (cases "?need1 l1") auto
    then have ok3: "channel_ok b l3" using l3 renew by (cases "?need2 l2") auto
    show ?thesis
    proof (cases "IsNodeFullySynchronizedWithL1 (p_syncStatus l3)")
      case True
      then show ?thesis using assms(2) producerWorking l1 l2 l3 channel_ok_setStatus [OF ok3, of producerSynchronized]
        by (auto simp: step_status_def)
    next
      case False
      then obtain m where "launchWork (se_minTime env) (se_clk env 1) l3 = Some (m, l')"
        using assms(2) producerWorking l1 l2 l3 by (auto simp: step_status_def bind_eq_Some_conv)
      then show ?thesis using ok3 by (rule launch)
    qed
  next
    case producerSynchronized
    with assms(2) obtain n l1 l2 where "renewLastBlockOnL1IfNeeded (se_eth env 0) (se_now env) (se_now env) l = Some l1"
      "launchWork (se_minTime env) (se_clk env 0) l1 = Some (n, l2)" "l' = l2 \<or> l' = p_setStatus producerWorking l2"
      by (auto simp: step_status_def bind_eq_Some_conv split: if_splits)
    then show ?thesis using renew launch assms(1) channel_ok_setStatus by metis
  qed (use assms in \<open>simp_all add: step_status_def\<close>)
qed

section \<open>Properties\<close>

text \<open>
  Launching work is safe: in a status that skips no block, \<open>launchWork\<close> ends without a fatal
  error, the status still skips no block, and it has started one worker for each range it
  took.
\<close>

theorem launchWork_safe:
  assumes "sync_inv limit (start, p_syncStatus l, d)"
  shows "\<exists>n l'. launchWork minTime clk l = Some (n, l') \<and> sync_inv limit (start, p_syncStatus l', d) \<and>
    n + idle_count (p_workers l') = idle_count (p_workers l)"
  using launch_loop_spec [OF assms, of minTime clk "canISendNewRequestsUnsafe l" 0] by (auto simp: launchWork_def)

text \<open>
  The messages in the channel to the consumer are in block order: if they start after
  block \<open>b\<close> and end where the filter stands, they do so after every turn of the producer's loop
  that does not execute a reset.
\<close>

theorem channel_stays_in_order:
  assumes "channel_ok b l" "producer_step env ev l = Some (r, l')"
    and "\<forall>cmd. ev = Command cmd \<longrightarrow> cmd_cmd cmd \<noteq> producerReset"
  shows "channel_ok b l'"
proof -
  let ?l = "if p_status l = producerNoRunning then l\<lparr>p_status := producerIdle\<rparr> else l"
  have ok: "channel_ok b ?l" using assms(1) by (simp add: channel_ok_def)
  show ?thesis
  proof (cases ev)
    case CtxCancelled
    with assms(2) ok show ?thesis by (simp add: producer_step_def)
  next
    case (Command cmd)
    obtain res l1 where e: "executeCmd cmd ?l = (res, l1)" by fastforce
    have "channel_ok b l1"
      using e ok assms(3) Command channel_ok_setStatus [OF ok, of producerNoRunning]
      by (auto simp: executeCmd_def stopUnsafe_def decorator_stop_def channel_ok_def split: producerCmdEnum.splits)
    with e assms(2) Command show ?thesis
      by (auto simp: producer_step_def split: if_splits intro: step_status_channel)
  next
    case TimeoutElapsed
    with assms(2) ok show ?thesis by (auto simp: producer_step_def intro: step_status_channel)
  next
    case (Response resp)
    with assms(2) ok show ?thesis
      by (auto simp: producer_step_def split: bind_splits intro: step_status_channel onResponse_channel)
  qed
qed

text \<open>
  When the last block of L1 cannot be retrieved, the producer does not carry on: the log
  line of \<open>renewLastBlockOnL1IfNeeded\<close> reads the block of a nil result before the error is
  checked.
\<close>

theorem renew_panics_on_error:
  assumes "now1 - timeLastBLockOnL1 l > cfg_ttlOfLastBlockOnL1 (p_cfg l)" "\<And>k. isl (HeaderByNumber (eth k))"
  shows "renewLastBlockOnL1IfNeeded eth now1 now2 l = None"
proof -
  let ?m = "numOfAllowedRetriesForRequestLastBlockOnL1 (p_cfg l)"
  show ?thesis
  proof (cases "requestLastBlockWithRetries eth 0 ?m (p_workers l)")
    case (Some res)
    have "lb_result (fst res) = None" using retries_fail_result [OF Some] assms(2) by blast
    with Some assms(1) show ?thesis by (cases res) (simp add: renewLastBlockOnL1IfNeeded_def)
  qed (use assms(1) in \<open>simp add: renewLastBlockOnL1IfNeeded_def\<close>)
qed

text \<open>The witnesses: a producer at block 100 with three workers, in front of a client that fails.\<close>

definition failing_etherman :: etherman where
  "failing_etherman = \<lparr>EthBlockByNumber = (\<lambda>n. Inl contextCanceled),
     GetRollupInfoByBlockRange = (\<lambda>f t. Inl contextCanceled), HeaderByNumber = Inl contextCanceled\<rparr>"

definition sample_producer :: l1RollupInfoProducer where
  "sample_producer = \<lparr>p_workers = \<lparr>workerForLastBlock = newWorkerEtherman, ws_workers = replicate 3 newWorkerEtherman\<rparr>,
     p_cache = NewCache timeOfLiveOfEntries, p_syncStatus = newSyncStatus 100 10, outgoingChannel = [], channelCap = 4,
     timeLastBLockOnL1 = 0, p_status = producerIdle, p_filter = newFilterToSendOrdererResultsToConsumer 100,
     p_statistics = \<lparr>initialBlockNumber = 100, lastBlockNumber = 0, numRollupInfoOk = 0, numRollupInfoErrors = 0,
       numRetrievedBlocks = 0, accumulatedTimeProcessingRollup = 0\<rparr>,
     p_cfg = \<lparr>syncChunkSize = 10, cfg_ttlOfLastBlockOnL1 = 5, timeoutForRequestLastBlockOnL1 = 1,
       numOfAllowedRetriesForRequestLastBlockOnL1 = 3, timeOutMainLoop = 300\<rparr>, channelCmds = []\<rparr>"

theorem launchWork_safe_witness:
  "\<exists>n l'. launchWork 5 (\<lambda>k. clock_at 0) sample_producer = Some (n, l') \<and> n + idle_count (p_workers l') = 3"
proof -
  have "sync_inv 1000 (100, p_syncStatus sample_producer, {})"
    using newSyncStatus_inv [of 100 1000 10] by (simp add: sample_producer_def)
  from launchWork_safe [OF this, of 5 "\<lambda>k. clock_at 0"] show ?thesis
    by (auto simp: sample_producer_def idle_count_def newWorkerEtherman_def isIdle_def)
qed

theorem channel_stays_in_order_witness:
  "\<exists>l'. producer_step \<lparr>se_eth = (\<lambda>i k. failing_etherman), se_now = 3, se_clk = (\<lambda>i k. clock_at 3), se_minTime = 5\<rparr>
      TimeoutElapsed sample_producer = Some (True, l') \<and> channel_ok 100 l'"
proof -
  let ?env = "\<lparr>se_eth = (\<lambda>i k. failing_etherman), se_now = 3, se_clk = (\<lambda>i k. clock_at 3), se_minTime = 5\<rparr>"
  have st: "producer_step ?env TimeoutElapsed sample_producer = Some (True, sample_producer)"
    by (simp add: producer_step_def step_status_def sample_producer_def renewLastBlockOnL1IfNeeded_def
        DoesItHaveAllTheNeedDataToWork_def newSyncStatus_def invalidLastBlock_def)
  have "channel_ok 100 sample_producer"
    by (simp add: channel_ok_def sample_producer_def newFilterToSendOrdererResultsToConsumer_def)
  from channel_stays_in_order [OF this st] st show ?thesis by simp
qed

theorem renew_panics_on_error_witness:
  "renewLastBlockOnL1IfNeeded (\<lambda>k. failing_etherman) 10 10 sample_producer = None"
  by (rule renew_panics_on_error) (simp_all add: sample_producer_def failing_etherman_def)

end
