(* ===== verification/HexCodec.thy ===== *)
theory HexCodec
  imports Resources
begin

text \<open>
  Hexadecimal and numeric strings: \<open>hex/hex.go\<close> and \<open>encoding/encoding.go\<close>, over what they use of
  Go's \<open>strings\<close>, \<open>strconv\<close>, \<open>encoding/hex\<close> and \<open>math/big\<close>. A string is a list of characters and
  a byte slice a list of 8-bit words; a \<open>*big.Int\<close> is an integer. The lemmas give the round
  trips of the encodings, which the batch codec rests on; the properties are the round trip of
  every encoder of the two packages with its decoder, and the odd-length hexadecimal numbers
  that \<open>DecodeBigIntHexOrDecimal\<close> cuts short.
\<close>

unbundle bit_operations_syntax

section \<open>Standard library\<close>

definition digit_char :: "nat \<Rightarrow> char" where
  "digit_char d = char_of (if d < 10 then 48 + d else 87 + d)"

definition digit_val :: "char \<Rightarrow> nat option" where
  "digit_val c =
     (let n = of_char c in
      if 48 \<le> n \<and> n \<le> 57 then Some (n - 48)
      else if 97 \<le> n \<and> n \<le> 102 then Some (n - 87)
      else if 65 \<le> n \<and> n \<le> 70 then Some (n - 55)
      else None)"

text \<open>\<open>strconv.FormatUint\<close> and \<open>big.Int.Text\<close> in base 10 and 16.\<close>

fun go_text :: "nat \<Rightarrow> nat \<Rightarrow> string" where
  "go_text b n = (if b < 2 \<or> n < b then [digit_char n] else go_text b (n div b) @ [digit_char (n mod b)])"

declare go_text.simps [simp del]

definition big_Text :: "nat \<Rightarrow> int \<Rightarrow> string" where
  "big_Text b i = (if i < 0 then CHR ''-'' # go_text b (nat (- i)) else go_text b (nat i))"

text \<open>\<open>strconv.ParseUint\<close> for 64 bits, with the overflow noticed at the digit that causes it.\<close>

datatype num_error = ErrSyntax | ErrRange

fun ParseUint_loop :: "nat \<Rightarrow> nat \<Rightarrow> string \<Rightarrow> num_error + nat" where
  "ParseUint_loop b acc [] = Inr acc"
| "ParseUint_loop b acc (c # cs) =
     (case digit_val c of
        None \<Rightarrow> Inl ErrSyntax
      | Some d \<Rightarrow>
          if b \<le> d then Inl ErrSyntax
          else if 2 ^ 64 \<le> acc * b + d then Inl ErrRange
          else ParseUint_loop b (acc * b + d) cs)"

definition ParseUint :: "string \<Rightarrow> nat \<Rightarrow> num_error + u64" where
  "ParseUint s b =
     (if s = [] then Inl ErrSyntax
      else case ParseUint_loop b 0 s of Inl e \<Rightarrow> Inl e | Inr n \<Rightarrow> Inr (of_nat n))"

text \<open>\<open>big.Int.SetString\<close> in a given base: a sign, then digits only.\<close>

fun parse_digits :: "nat \<Rightarrow> nat \<Rightarrow> string \<Rightarrow> nat option" where
  "parse_digits b acc [] = Some acc"
| "parse_digits b acc (c # cs) =
     (case digit_val c of
        None \<Rightarrow> None
      | Some d \<Rightarrow> if b \<le> d then None else parse_digits b (acc * b + d) cs)"

definition parse_nat :: "nat \<Rightarrow> string \<Rightarrow> nat option" where
  "parse_nat b s = (if s = [] then None else parse_digits b 0 s)"

definition big_SetString :: "string \<Rightarrow> nat \<Rightarrow> int option" where
  "big_SetString s b =
     (case s of
        c # t \<Rightarrow>
          if c = CHR ''-'' then map_option (\<lambda>n. - int n) (parse_nat b t)
          else if c = CHR ''+'' then map_option int (parse_nat b t)
          else map_option int (parse_nat b s)
      | [] \<Rightarrow> None)"

text \<open>\<open>big.Int.Uint64\<close>, the low word of the absolute value, and \<open>big.Int.SetBytes\<close>.\<close>

definition big_Uint64 :: "int \<Rightarrow> u64" where
  "big_Uint64 i = of_nat (nat \<bar>i\<bar>)"

definition big_SetBytes :: "bytes \<Rightarrow> nat" where
  "big_SetBytes bs = foldl (\<lambda>a b. a * 256 + unat b) 0 bs"

definition HasPrefix0x :: "string \<Rightarrow> bool" where
  "HasPrefix0x s \<longleftrightarrow> take 2 s = ''0x''"

definition TrimPrefix0x :: "string \<Rightarrow> string" where
  "TrimPrefix0x s = (if HasPrefix0x s then drop 2 s else s)"

section \<open>hex/hex.go\<close>

text \<open>
  \<open>DecodeString\<close> gives the bytes decoded before an error along with the error, as
  \<open>encoding/hex\<close> does.
\<close>

datatype hex_error = InvalidByteError char | ErrLength

fun EncodeToString :: "bytes \<Rightarrow> string" where
  "EncodeToString [] = []"
| "EncodeToString (b # bs) = digit_char (unat b div 16) # digit_char (unat b mod 16) # EncodeToString bs"

fun DecodeString :: "string \<Rightarrow> bytes \<times> hex_error option" where
  "DecodeString [] = ([], None)"
| "DecodeString [c] = ([], Some (case digit_val c of None \<Rightarrow> InvalidByteError c | Some d \<Rightarrow> ErrLength))"
| "DecodeString (p # q # cs) =
     (case digit_val p of
        None \<Rightarrow> ([], Some (InvalidByteError p))
      | Some a \<Rightarrow>
          (case digit_val q of
             None \<Rightarrow> ([], Some (InvalidByteError q))
           | Some b \<Rightarrow> (let (bs, err) = DecodeString cs in (of_nat (a * 16 + b) # bs, err))))"

definition EncodeToHex :: "bytes \<Rightarrow> string" where
  "EncodeToHex str = ''0x'' @ EncodeToString str"

definition DecodeHex :: "string \<Rightarrow> bytes \<times> hex_error option" where
  "DecodeHex s =
     (let str = TrimPrefix0x s;
          str = (if length str mod 2 \<noteq> 0 then ''0'' @ str else str)
      in DecodeString str)"

text \<open>A panic is \<open>None\<close>.\<close>

definition MustDecodeHex :: "string \<Rightarrow> bytes option" where
  "MustDecodeHex str = (case DecodeHex str of (buf, None) \<Rightarrow> Some buf | (buf, Some err) \<Rightarrow> None)"

text \<open>The value of a \<open>big.Int\<close> after a failed \<open>SetString\<close> is not defined: \<open>None\<close>.\<close>

definition DecodeBig :: "string \<Rightarrow> int option" where
  "DecodeBig hexNum = big_SetString (TrimPrefix0x hexNum) 16"

definition DecodeUint64 :: "string \<Rightarrow> u64 option" where
  "DecodeUint64 str = map_option big_Uint64 (DecodeBig str)"

definition hex_EncodeUint64 :: "u64 \<Rightarrow> string" where
  "hex_EncodeUint64 i = ''0x'' @ go_text 16 (unat i)"

definition BadNibble :: u64 where
  "BadNibble = NOT 0"

definition DecodeNibble :: "u8 \<Rightarrow> u64" where
  "DecodeNibble b =
     (if 48 \<le> b \<and> b \<le> 57 then ucast (b - 48)
      else if 65 \<le> b \<and> b \<le> 70 then ucast (b - 65 + 10)
      else if 97 \<le> b \<and> b \<le> 102 then ucast (b - 97 + 10)
      else BadNibble)"

text \<open>\<open>%#x\<close> of a \<open>big.Int\<close> writes the sign before the prefix.\<close>

definition EncodeBig :: "int \<Rightarrow> string" where
  "EncodeBig i =
     (if i = 0 then ''0x0''
      else if i < 0 then ''-0x'' @ go_text 16 (nat (- i))
      else ''0x'' @ go_text 16 (nat i))"

definition hex_IsValid :: "string \<Rightarrow> bool" where
  "hex_IsValid s \<longleftrightarrow>
     list_all (\<lambda>c. let b = of_char c :: nat in 48 \<le> b \<and> b \<le> 57 \<or> 97 \<le> b \<and> b \<le> 102 \<or> 65 \<le> b \<and> b \<le> 70)
       (TrimPrefix0x s)"

section \<open>encoding/encoding.go\<close>

definition DecodeUint64orHex :: "string option \<Rightarrow> num_error + u64" where
  "DecodeUint64orHex val =
     (case val of
        None \<Rightarrow> Inr 0
      | Some str \<Rightarrow> if HasPrefix0x str then ParseUint (drop 2 str) 16 else ParseUint str 10)"

text \<open>A nil pointer in, a nil pointer out; \<open>Inl\<close> is the error \<open>could not parse\<close>.\<close>

definition DecodeUint256orHex :: "string option \<Rightarrow> go_error + int option" where
  "DecodeUint256orHex val =
     (case val of
        None \<Rightarrow> Inr None
      | Some str \<Rightarrow>
          (case (if HasPrefix0x str then big_SetString (drop 2 str) 16 else big_SetString str 10) of
             None \<Rightarrow> Inl (ErrorString ''could not parse'')
           | Some b \<Rightarrow> Inr (Some b)))"

definition DecodeInt64orHex :: "string option \<Rightarrow> num_error + int" where
  "DecodeInt64orHex val = (case DecodeUint64orHex val of Inl e \<Rightarrow> Inl e | Inr i \<Rightarrow> Inr (sint i))"

definition enc_DecodeBytes :: "string option \<Rightarrow> bytes \<times> hex_error option" where
  "enc_DecodeBytes val = (case val of None \<Rightarrow> ([], None) | Some str \<Rightarrow> DecodeString (TrimPrefix0x str))"

definition enc_EncodeUint64 :: "u64 \<Rightarrow> string" where
  "enc_EncodeUint64 b = ''0x'' @ go_text 16 (unat b)"

definition enc_EncodeBytes :: "bytes \<Rightarrow> string" where
  "enc_EncodeBytes b = ''0x'' @ EncodeToString b"

definition EncodeBigInt :: "int \<Rightarrow> string" where
  "EncodeBigInt b = ''0x'' @ big_Text 16 b"

text \<open>\<open>common.Hex2Bytes\<close> is a parameter.\<close>

definition DecodeBigIntHexOrDecimal :: "(string \<Rightarrow> bytes) \<Rightarrow> string \<Rightarrow> go_error + int" where
  "DecodeBigIntHexOrDecimal Hex2Bytes s =
     (if HasPrefix0x s then Inr (int (big_SetBytes (Hex2Bytes (drop 2 s))))
      else case big_SetString s 10 of
             None \<Rightarrow> Inl (ErrorString (''Could not set base10 '' @ [CHR 0x22] @ s @ [CHR 0x22] @ '' to big.Int''))
           | Some value \<Rightarrow> Inr value)"

section \<open>Digits\<close>

lemma of_char_of_nat [simp]: "n < 256 \<Longrightarrow> (of_char (char_of n) :: nat) = n"
  by simp

lemma digit_val_char [simp]: "d < 16 \<Longrightarrow> digit_val (digit_char d) = Some d"
  by (auto simp: digit_val_def digit_char_def)

lemma digit_val_less: "digit_val c = Some d \<Longrightarrow> d < 16"
  by (auto simp: digit_val_def split: if_splits)

lemma parse_digits_append:
  "parse_digits b acc (xs @ ys) = Option.bind (parse_digits b acc xs) (\<lambda>a. parse_digits b a ys)"
  by (induction b acc xs rule: parse_digits.induct) (auto split: option.splits)

lemma parse_digits_go_text:
  assumes "2 \<le> b" "b \<le> 16"
  shows "parse_digits b 0 (go_text b n) = Some n"
  using assms
proof (induction b n rule: go_text.induct)
  case (1 b n)
  show ?case
  proof (cases "n < b")
    case True
    with 1(2,3) show ?thesis by (subst go_text.simps) (simp add: Let_def)
  next
    case False
    with 1 have "parse_digits b 0 (go_text b (n div b)) = Some (n div b)" by simp
    moreover have "n mod b < 16" using 1(2,3) by (meson less_le_trans mod_less_divisor zero_less_numeral)
    moreover have "n mod b < b" using 1(2) by simp
    ultimately show ?thesis using False 1(2) by (subst go_text.simps) (simp add: parse_digits_append not_le [symmetric])
  qed
qed

lemma go_text_not_Nil [simp]: "go_text b n \<noteq> []"
  by (subst go_text.simps) auto

lemma parse_digits_ge: "parse_digits b acc s = Some n \<Longrightarrow> 0 < b \<Longrightarrow> acc \<le> n"
proof (induction b acc s rule: parse_digits.induct)
  case (2 b acc c cs)
  then obtain d where d: "digit_val c = Some d" "d < b" "parse_digits b (acc * b + d) cs = Some n"
    by (auto split: option.splits if_splits)
  with 2 have "acc * b + d \<le> n" by auto
  moreover have "acc \<le> acc * b" using 2(3) by simp
  ultimately show ?case by linarith
qed simp

lemma ParseUint_loop_digits:
  "parse_digits b acc s = Some n \<Longrightarrow> 0 < b \<Longrightarrow> n < 2 ^ 64 \<Longrightarrow> ParseUint_loop b acc s = Inr n"
proof (induction b acc s rule: parse_digits.induct)
  case (2 b acc c cs)
  then obtain d where d: "digit_val c = Some d" "d < b" "parse_digits b (acc * b + d) cs = Some n"
    by (auto split: option.splits if_splits)
  with parse_digits_ge [OF d(3)] 2 show ?case by simp
qed simp

lemma ParseUint_go_text:
  "2 \<le> b \<Longrightarrow> b \<le> 16 \<Longrightarrow> n < 2 ^ 64 \<Longrightarrow> ParseUint (go_text b n) b = Inr (of_nat n)"
  by (simp add: ParseUint_def ParseUint_loop_digits [OF parse_digits_go_text])

lemma digit_char_no_sign: "d < 16 \<Longrightarrow> digit_char d \<noteq> CHR ''-'' \<and> digit_char d \<noteq> CHR ''+''"
  using digit_val_char [of d] by (auto simp: digit_val_def)

lemma go_text_hd:
  assumes "2 \<le> b" "b \<le> 16"
  shows "\<exists>d t. go_text b n = digit_char d # t \<and> d < b"
  using assms
proof (induction b n rule: go_text.induct)
  case (1 b n)
  then show ?case by (cases "n < b"; subst go_text.simps) auto
qed

lemma big_SetString_go_text:
  assumes "2 \<le> b" "b \<le> 16"
  shows "big_SetString (go_text b n) b = Some (int n)"
proof -
  obtain d t where g: "go_text b n = digit_char d # t" "d < b" using go_text_hd [OF assms] by blast
  with assms digit_char_no_sign [of d] parse_digits_go_text [OF assms, of n] show ?thesis
    by (simp add: big_SetString_def parse_nat_def)
qed

lemma big_SetString_big_Text:
  assumes "2 \<le> b" "b \<le> 16"
  shows "big_SetString (big_Text b i) b = Some i"
proof (cases "i < 0")
  case True
  with parse_digits_go_text [OF assms] show ?thesis by (simp add: big_Text_def big_SetString_def parse_nat_def)
next
  case False
  with big_SetString_go_text [OF assms] show ?thesis by (simp add: big_Text_def)
qed

section \<open>Bytes\<close>

lemma unat_u8_less [simp]: "unat (b :: u8) < 256"
  using unsigned_less [of b] by simp

lemma unat_u8_div16 [simp]: "unat (b :: u8) div 16 < 16"
  using unat_u8_less [of b] by (simp only: div_less_iff_less_mult)

lemma DecodeString_Encode_append:
  "DecodeString (EncodeToString bs @ s) = (bs @ fst (DecodeString s), snd (DecodeString s))"
  by (induction bs) (auto simp: split_def)

lemma DecodeString_Encode [simp]: "DecodeString (EncodeToString bs) = (bs, None)"
  using DecodeString_Encode_append [of bs "[]"] by simp

lemma EncodeToString_append: "EncodeToString (xs @ ys) = EncodeToString xs @ EncodeToString ys"
  by (induction xs) auto

lemma length_EncodeToString [simp]: "length (EncodeToString bs) = 2 * length bs"
  by (induction bs) auto

lemma EncodeToString_not_prefixed: "\<not> HasPrefix0x (EncodeToString bs)"
proof (cases bs)
  case (Cons b t)
  have "digit_val (CHR ''x'') = None" by (simp add: digit_val_def)
  then have "digit_char (unat b mod 16) \<noteq> CHR ''x''" using digit_val_char [of "unat b mod 16"] by fastforce
  with Cons show ?thesis by (simp add: HasPrefix0x_def)
qed (simp add: HasPrefix0x_def)

text \<open>Big-endian numbers: the bytes of a number without leading zeros, and at a fixed length.\<close>

fun be_bytes :: "nat \<Rightarrow> bytes" where
  "be_bytes n = (if n = 0 then [] else be_bytes (n div 256) @ [of_nat (n mod 256)])"

declare be_bytes.simps [simp del]

primrec be_fixed :: "nat \<Rightarrow> nat \<Rightarrow> bytes" where
  "be_fixed 0 n = []"
| "be_fixed (Suc k) n = be_fixed k (n div 256) @ [of_nat (n mod 256)]"

lemma SetBytes_Nil [simp]: "big_SetBytes [] = 0"
  by (simp add: big_SetBytes_def)

lemma SetBytes_snoc [simp]: "big_SetBytes (xs @ [b]) = big_SetBytes xs * 256 + unat b"
  by (simp add: big_SetBytes_def)

lemma unat_of_nat_u8 [simp]: "n < 256 \<Longrightarrow> unat (of_nat n :: u8) = n"
  by (simp add: unat_of_nat take_bit_eq_mod)

lemma SetBytes_be_bytes [simp]: "big_SetBytes (be_bytes n) = n"
proof (induction n rule: be_bytes.induct)
  case (1 n)
  then show ?case by (subst be_bytes.simps) simp
qed

lemma length_be_fixed [simp]: "length (be_fixed k n) = k"
  by (induction k arbitrary: n) auto

lemma SetBytes_be_fixed: "n < 256 ^ k \<Longrightarrow> big_SetBytes (be_fixed k n) = n"
proof (induction k arbitrary: n)
  case (Suc k)
  then have "n div 256 < 256 ^ k" by (simp add: div_less_iff_less_mult mult.commute)
  with Suc show ?case by simp
qed simp

lemma SetBytes_less: "big_SetBytes bs < 256 ^ length bs"
proof (induction bs rule: rev_induct)
  case (snoc b bs)
  have "unat b < 256" by (rule unat_u8_less)
  with snoc show ?case by (simp del: unat_u8_less)
qed simp

text \<open>The padded hexadecimal text of a number is the text of its bytes.\<close>

primrec hex_fixed :: "nat \<Rightarrow> nat \<Rightarrow> string" where
  "hex_fixed 0 n = []"
| "hex_fixed (Suc m) n = hex_fixed m (n div 16) @ [digit_char (n mod 16)]"

definition pad_left :: "nat \<Rightarrow> string \<Rightarrow> string" where
  "pad_left w s = replicate (w - length s) (CHR ''0'') @ s"

lemma hex_fixed_zero: "hex_fixed m 0 = replicate m (CHR ''0'')"
proof (induction m)
  case (Suc m)
  have "digit_char 0 = CHR ''0''" by code_simp
  with Suc show ?case by (simp add: replicate_append_same)
qed simp

lemma length_go_text: "n < 16 ^ Suc m \<Longrightarrow> length (go_text 16 n) \<le> Suc m"
proof (induction m arbitrary: n)
  case 0
  then show ?case by (subst go_text.simps) simp
next
  case (Suc m)
  then have "n div 16 < 16 ^ Suc m" by (simp add: div_less_iff_less_mult mult.commute)
  with Suc.IH [of "n div 16"] show ?case by (subst go_text.simps) simp
qed

lemma pad_left_go_text: "n < 16 ^ Suc m \<Longrightarrow> pad_left (Suc m) (go_text 16 n) = hex_fixed (Suc m) n"
proof (induction m arbitrary: n)
  case 0
  then show ?case by (subst go_text.simps) (simp add: pad_left_def)
next
  case (Suc m)
  then have s: "n div 16 < 16 ^ Suc m" by (simp add: div_less_iff_less_mult mult.commute)
  show ?case
  proof (cases "n < 16")
    case True
    then show ?thesis by (subst go_text.simps) (simp add: pad_left_def hex_fixed_zero replicate_append_same)
  next
    case False
    then show ?thesis using Suc.IH [OF s] by (subst go_text.simps) (simp add: pad_left_def)
  qed
qed

lemma hex_fixed_be_fixed: "hex_fixed (2 * k) n = EncodeToString (be_fixed k n)"
proof (induction k arbitrary: n)
  case (Suc k)
  have "n div 16 div 16 = n div 256" by (simp add: div_mult2_eq [symmetric])
  moreover have "n div 16 mod 16 = n mod 256 div 16"
    using mod_mult2_eq [of n 16 16] by simp
  moreover have "n mod 16 = n mod 256 mod 16" by (simp add: mod_mod_cancel)
  ultimately show ?case using Suc by (simp add: EncodeToString_append)
qed simp

lemma pad_left_bytes: "0 < k \<Longrightarrow> n < 256 ^ k \<Longrightarrow> pad_left (2 * k) (go_text 16 n) = EncodeToString (be_fixed k n)"
proof -
  assume k: "0 < k" "n < 256 ^ k"
  then obtain m where m: "2 * k = Suc m" by (cases "2 * k") auto
  have "(256 :: nat) ^ k = 16 ^ Suc m" using m by (simp only: m [symmetric] power_mult) simp
  with k(2) pad_left_go_text [of n m] m show ?thesis by (simp add: hex_fixed_be_fixed [symmetric])
qed

section \<open>Prefixes\<close>

lemma prefix_simps [simp]: "HasPrefix0x (CHR ''0'' # CHR ''x'' # s)" "TrimPrefix0x (CHR ''0'' # CHR ''x'' # s) = s"
  by (simp_all add: TrimPrefix0x_def HasPrefix0x_def)

lemma go_text_not_prefixed:
  assumes "2 \<le> b" "b \<le> 16"
  shows "\<not> HasPrefix0x (go_text b n)"
proof
  assume p: "HasPrefix0x (go_text b n)"
  obtain t where "go_text b n = CHR ''0'' # CHR ''x'' # t"
    using p by (cases "go_text b n"; cases "tl (go_text b n)") (auto simp: HasPrefix0x_def)
  with parse_digits_go_text [OF assms, of n] show False by (simp add: digit_val_def split: if_splits)
qed

text \<open>What \<open>DecodeString\<close> gives for a string of odd length, all of it digits.\<close>

lemma DecodeString_odd:
  "odd (length s) \<Longrightarrow> list_all (\<lambda>c. digit_val c \<noteq> None) s \<Longrightarrow>
     DecodeString s = (fst (DecodeString (butlast s)), Some ErrLength)"
proof (induction s rule: DecodeString.induct)
  case (3 p q cs)
  then have "cs \<noteq> []" by auto
  with 3 show ?case by (auto simp: split_def)
qed auto

section \<open>Properties\<close>

text \<open>
  The encoders and the decoders of the two packages are inverse to each other: bytes
  through \<open>EncodeToHex\<close> and \<open>EncodeBytes\<close>, 64-bit numbers through both \<open>EncodeUint64\<close>, natural
  numbers through \<open>EncodeBig\<close>, and integers of either sign through \<open>EncodeBigInt\<close>.
\<close>

theorem hex_round_trips:
  "DecodeHex (EncodeToHex bs) = (bs, None) \<and> MustDecodeHex (EncodeToHex bs) = Some bs \<and>
   hex_IsValid (EncodeToHex bs) \<and> enc_DecodeBytes (Some (enc_EncodeBytes bs)) = (bs, None) \<and>
   DecodeUint64 (hex_EncodeUint64 n) = Some n \<and> DecodeUint64orHex (Some (enc_EncodeUint64 n)) = Inr n \<and>
   DecodeUint64orHex (Some (go_text 10 (unat n))) = Inr n \<and>
   DecodeBig (EncodeBig (int m)) = Some (int m) \<and> DecodeUint256orHex (Some (EncodeBigInt i)) = Inr (Some i)"
proof (intro conjI)
  have dec: "DecodeHex (EncodeToHex bs) = (bs, None)" by (simp add: DecodeHex_def EncodeToHex_def)
  then show "DecodeHex (EncodeToHex bs) = (bs, None)" "MustDecodeHex (EncodeToHex bs) = Some bs"
    by (simp_all add: MustDecodeHex_def)
  have "list_all (\<lambda>c. digit_val c \<noteq> None) (EncodeToString bs)" by (induction bs) auto
  then show "hex_IsValid (EncodeToHex bs)"
    by (auto simp: hex_IsValid_def EncodeToHex_def digit_val_def list_all_iff split: if_splits)
  show "enc_DecodeBytes (Some (enc_EncodeBytes bs)) = (bs, None)"
    by (simp add: enc_DecodeBytes_def enc_EncodeBytes_def)
  show "DecodeUint64 (hex_EncodeUint64 n) = Some n"
    by (simp add: DecodeUint64_def DecodeBig_def hex_EncodeUint64_def big_SetString_go_text big_Uint64_def)
  have lt: "unat n < 2 ^ 64" using unsigned_less [of n] by simp
  then show "DecodeUint64orHex (Some (enc_EncodeUint64 n)) = Inr n"
    by (simp add: DecodeUint64orHex_def enc_EncodeUint64_def ParseUint_go_text)
  have "\<not> HasPrefix0x (go_text 10 (unat n))" by (rule go_text_not_prefixed) auto
  with lt show "DecodeUint64orHex (Some (go_text 10 (unat n))) = Inr n"
    by (simp add: DecodeUint64orHex_def ParseUint_go_text)
  show "DecodeBig (EncodeBig (int m)) = Some (int m)"
    using big_SetString_go_text [of 16 m] by (cases "m = 0") (simp_all add: DecodeBig_def EncodeBig_def, code_simp)
  show "DecodeUint256orHex (Some (EncodeBigInt i)) = Inr (Some i)"
    by (simp add: DecodeUint256orHex_def EncodeBigInt_def big_SetString_big_Text)
qed

text \<open>
  \<open>EncodeBig\<close> does not ignore the sign: a negative number is written with its sign in front
  of the prefix, and \<open>DecodeBig\<close> cannot read it back.
\<close>

lemma EncodeBig_keeps_sign:
  assumes "i < 0"
  shows "EncodeBig i = CHR ''-'' # EncodeBig (- i) \<and> DecodeBig (EncodeBig i) = None"
proof -
  have "digit_val (CHR ''x'') = None" by (simp add: digit_val_def)
  then show ?thesis
    using assms by (simp add: EncodeBig_def DecodeBig_def TrimPrefix0x_def HasPrefix0x_def big_SetString_def
        parse_nat_def split: option.splits)
qed

text \<open>
  \<open>DecodeBigIntHexOrDecimal\<close> cuts a hexadecimal number with an odd number of digits short:
  with \<open>common.Hex2Bytes\<close>, which drops the error of \<open>hex.DecodeString\<close>, its last digit is lost and
  no error is returned.
\<close>

theorem odd_hex_is_cut:
  assumes "\<And>s. Hex2Bytes s = fst (DecodeString s)"
    and "odd (length s)" "list_all (\<lambda>c. digit_val c \<noteq> None) s"
  shows "DecodeBigIntHexOrDecimal Hex2Bytes (''0x'' @ s) = DecodeBigIntHexOrDecimal Hex2Bytes (''0x'' @ butlast s)"
  using DecodeString_odd [OF assms(2,3)] by (simp add: DecodeBigIntHexOrDecimal_def assms(1))

theorem odd_hex_is_cut_witness:
  "DecodeBigIntHexOrDecimal (\<lambda>s. fst (DecodeString s)) ''0xabc'' = Inr 0xab"
proof -
  have "list_all (\<lambda>c. digit_val c \<noteq> None) ''abc''" by code_simp
  with odd_hex_is_cut [of "\<lambda>s. fst (DecodeString s)" "''abc''"]
  have "DecodeBigIntHexOrDecimal (\<lambda>s. fst (DecodeString s)) ''0xabc'' =
      DecodeBigIntHexOrDecimal (\<lambda>s. fst (DecodeString s)) ''0xab''" by simp
  moreover have "DecodeBigIntHexOrDecimal (\<lambda>s. fst (DecodeString s)) ''0xab'' = Inr 0xab" by code_simp
  ultimately show ?thesis by simp
qed

end
