(* ===== verification/BatchCodec.thy ===== *)
theory BatchCodec
  imports HexCodec
begin

text \<open>
  The encoding of the transactions of a batch: \<open>state/helper.go\<close> and \<open>RlpFieldsToLegacyTx\<close> of
  \<open>state/transaction.go\<close>. go-ethereum's RLP codec and accessors are parameters, the record
  \<open>geth\<close>; what the code relies on is the locale \<open>geth_laws\<close>, interpreted on an RLP codec
  written from the Ethereum specification. Positions are 64-bit words that wrap, a slice out
  of range is \<open>None\<close>. The properties: decoding returns for every input, without a slice out of
  range; it gives back what was encoded; and a long header cut off at the end of the data is
  reported as no error at all.
\<close>

unbundle bit_operations_syntax

section \<open>Data\<close>

datatype rlp_field =
    RlpUint u64
  | RlpBig int
  | RlpAddress "address option"
  | RlpBytes bytes

record LegacyTx =
  tx_Nonce :: u64
  tx_GasPrice :: int
  tx_Gas :: u64
  tx_To :: "address option"
  tx_Value :: int
  tx_Data :: bytes
  tx_V :: int
  tx_R :: int
  tx_S :: int

text \<open>What the code calls of go-ethereum: \<open>ChainId\<close> is a function of the \<open>V\<close> of a transaction.\<close>

record geth =
  rlp_EncodeToBytes :: "rlp_field list \<Rightarrow> go_error + bytes"
  rlp_DecodeBytes :: "bytes \<Rightarrow> go_error + bytes list"
  BytesToAddress :: "bytes \<Rightarrow> address"
  ChainId :: "int \<Rightarrow> int"
  UnmarshalBinary :: "bytes \<Rightarrow> go_error + LegacyTx"

datatype codec_error =
    HexError hex_error
  | NumError num_error
  | GethError go_error
  | ErrInvalidData
  | ErrTxTypeNotSupported

definition ether155V :: int where "ether155V = 27"
definition etherPre155V :: int where "etherPre155V = 35"
definition double :: int where "double = 2"
definition MaxEffectivePercentage :: u8 where "MaxEffectivePercentage = 255"
definition headerByteLength :: u64 where "headerByteLength = 1"
definition sLength :: u64 where "sLength = 32"
definition rLength :: u64 where "rLength = 32"
definition vLength :: u64 where "vLength = 1"
definition c0 :: u64 where "c0 = 192"
definition shortRlp :: u64 where "shortRlp = 55"
definition f7 :: u64 where "f7 = 247"
definition efficiencyPercentageByteLength :: u64 where "efficiencyPercentageByteLength = 1"
definition DRAGONFRUIT_FORKID :: u64 where "DRAGONFRUIT_FORKID = 5"

section \<open>Encoding\<close>

definition IsPreEIP155Tx :: "geth \<Rightarrow> LegacyTx \<Rightarrow> bool" where
  "IsPreEIP155Tx g tx \<longleftrightarrow>
     big_Uint64 (ChainId g (tx_V tx)) = 0 \<and> (big_Uint64 (tx_V tx) = 27 \<or> big_Uint64 (tx_V tx) = 28)"

text \<open>The last lines of the encoders: the coded fields, R, S and V as one hexadecimal string, and its bytes.\<close>

definition signed_bytes :: "bytes \<Rightarrow> int \<Rightarrow> int \<Rightarrow> int \<Rightarrow> string \<Rightarrow> codec_error + bytes" where
  "signed_bytes txCodedRlp r s newV suffix =
     (let newRPadded = pad_left 64 (big_Text 16 r);
          newSPadded = pad_left 64 (big_Text 16 s);
          newVPadded = pad_left 2 (big_Text 16 newV)
      in case DecodeString (EncodeToString txCodedRlp @ newRPadded @ newSPadded @ newVPadded @ suffix) of
           (txData, None) \<Rightarrow> Inr txData
         | (txData, Some err) \<Rightarrow> Inl (HexError err))"

definition prepareRPLTxData :: "geth \<Rightarrow> LegacyTx \<Rightarrow> codec_error + bytes" where
  "prepareRPLTxData g tx =
     (let sign = 1 - (big_Uint64 (tx_V tx) AND 1);
          rlpFieldsToEncode = [RlpUint (tx_Nonce tx), RlpBig (tx_GasPrice tx), RlpUint (tx_Gas tx),
            RlpAddress (tx_To tx), RlpBig (tx_Value tx), RlpBytes (tx_Data tx)];
          rlpFieldsToEncode =
            (if \<not> IsPreEIP155Tx g tx
             then rlpFieldsToEncode @ [RlpBig (ChainId g (tx_V tx)), RlpUint 0, RlpUint 0] else rlpFieldsToEncode)
      in case rlp_EncodeToBytes g rlpFieldsToEncode of
           Inl err \<Rightarrow> Inl (GethError err)
         | Inr txCodedRlp \<Rightarrow> signed_bytes txCodedRlp (tx_R tx) (tx_S tx) (ether155V + sint sign) [])"

text \<open>The loop of \<open>EncodeTransactions\<close>; \<open>None\<close> is an index out of range of the percentages.\<close>

fun encode_loop :: "geth \<Rightarrow> u64 \<Rightarrow> u8 list \<Rightarrow> nat \<Rightarrow> LegacyTx list \<Rightarrow> bytes \<Rightarrow> (codec_error + bytes) option" where
  "encode_loop g forkID effectivePercentages i [] batchL2Data = Some (Inr batchL2Data)"
| "encode_loop g forkID effectivePercentages i (tx # txs) batchL2Data =
     (case prepareRPLTxData g tx of
        Inl err \<Rightarrow> Some (Inl err)
      | Inr txData \<Rightarrow>
          if forkID \<ge> DRAGONFRUIT_FORKID then
            if i < length effectivePercentages then
              (case DecodeHex (go_text 16 (unat (effectivePercentages ! i))) of
                 (asHex, Some err) \<Rightarrow> Some (Inl (HexError err))
               | (asHex, None) \<Rightarrow>
                   encode_loop g forkID effectivePercentages (i + 1) txs (batchL2Data @ txData @ asHex))
            else None
          else encode_loop g forkID effectivePercentages (i + 1) txs (batchL2Data @ txData))"

definition EncodeTransactions :: "geth \<Rightarrow> LegacyTx list \<Rightarrow> u8 list \<Rightarrow> u64 \<Rightarrow> (codec_error + bytes) option" where
  "EncodeTransactions g txs effectivePercentages forkID = encode_loop g forkID effectivePercentages 0 txs []"

fun EncodeTransactionsWithoutEffectivePercentage :: "geth \<Rightarrow> LegacyTx list \<Rightarrow> codec_error + bytes" where
  "EncodeTransactionsWithoutEffectivePercentage g [] = Inr []"
| "EncodeTransactionsWithoutEffectivePercentage g (tx # txs) =
     (case prepareRPLTxData g tx of
        Inl err \<Rightarrow> Inl err
      | Inr txData \<Rightarrow>
          (case EncodeTransactionsWithoutEffectivePercentage g txs of
             Inl err \<Rightarrow> Inl err
           | Inr rest \<Rightarrow> Inr (txData @ rest)))"

definition EncodeTransactionWithoutEffectivePercentage :: "geth \<Rightarrow> LegacyTx \<Rightarrow> codec_error + bytes" where
  "EncodeTransactionWithoutEffectivePercentage g tx = EncodeTransactionsWithoutEffectivePercentage g [tx]"

definition EncodeTransaction :: "geth \<Rightarrow> LegacyTx \<Rightarrow> u8 \<Rightarrow> u64 \<Rightarrow> (codec_error + bytes) option" where
  "EncodeTransaction g tx effectivePercentage forkID = EncodeTransactions g [tx] [effectivePercentage] forkID"

definition EncodeUnsignedTransaction ::
    "geth \<Rightarrow> LegacyTx \<Rightarrow> u64 \<Rightarrow> u64 option \<Rightarrow> u64 \<Rightarrow> codec_error + bytes" where
  "EncodeUnsignedTransaction g tx chainID forcedNonce forkID =
     (let v = 0x1c;
          r = 0xa54492cfacf71aef702421b7fbc70636537a7b2fbe5718c5ed970a001bb7756b;
          s = 0x2e9fb27acc75955b898f0b12ec52aa34bf08f01db654374484b80bf12f0d841e;
          sign = 1 - (big_Uint64 v AND 1);
          nonce = (case forcedNonce of Some n \<Rightarrow> n | None \<Rightarrow> tx_Nonce tx)
      in case rlp_EncodeToBytes g [RlpUint nonce, RlpBig (tx_GasPrice tx), RlpUint (tx_Gas tx),
               RlpAddress (tx_To tx), RlpBig (tx_Value tx), RlpBytes (tx_Data tx),
               RlpBig (uint chainID), RlpUint 0, RlpUint 0] of
           Inl err \<Rightarrow> Inl (GethError err)
         | Inr txCodedRlp \<Rightarrow>
             signed_bytes txCodedRlp r s (ether155V + sint sign)
               (if forkID < DRAGONFRUIT_FORKID then [] else go_text 16 (unat MaxEffectivePercentage)))"

section \<open>Decoding\<close>

definition RlpFieldsToLegacyTx :: "geth \<Rightarrow> bytes list \<Rightarrow> bytes \<Rightarrow> bytes \<Rightarrow> bytes \<Rightarrow> codec_error + LegacyTx" where
  "RlpFieldsToLegacyTx g rlpFields v r s =
     (if length rlpFields < 6 then Inl ErrTxTypeNotSupported
      else
        (let nonce = big_Uint64 (int (big_SetBytes (rlpFields ! 0)));
             gasPrice = int (big_SetBytes (rlpFields ! 1));
             gas = big_Uint64 (int (big_SetBytes (rlpFields ! 2)));
             toAddr = (if length (rlpFields ! 3) \<noteq> 0 then Some (BytesToAddress g (rlpFields ! 3)) else None);
             val = int (big_SetBytes (rlpFields ! 4));
             data = rlpFields ! 5;
             txV = (if length rlpFields \<ge> 7
                    then (let chainID = int (big_SetBytes (rlpFields ! 6));
                              a = chainID * double;
                              b = int (big_SetBytes v) - ether155V;
                              c = a + etherPre155V
                          in b + c)
                    else int (big_SetBytes v))
         in Inr \<lparr>tx_Nonce = nonce, tx_GasPrice = gasPrice, tx_Gas = gas, tx_To = toAddr, tx_Value = val, tx_Data = data,
                 tx_V = txV, tx_R = int (big_SetBytes r), tx_S = int (big_SetBytes s)\<rparr>))"

text \<open>A slice expression; \<open>None\<close> is the panic of a slice out of range.\<close>

definition go_slice :: "'a list \<Rightarrow> u64 \<Rightarrow> u64 \<Rightarrow> 'a list option" where
  "go_slice xs lo hi =
     (if lo \<le> hi \<and> unat hi \<le> length xs then Some (take (unat hi - unat lo) (drop (unat lo) xs)) else None)"

text \<open>
  The length of the fields of the transaction at \<open>pos\<close>. \<open>Inl\<close> is what the function returns as
  its error, which can be no error.
\<close>

definition decode_length :: "bytes \<Rightarrow> u64 \<Rightarrow> u64 \<Rightarrow> (codec_error option + u64) option" where
  "decode_length txsData txDataLength pos =
     Option.bind (go_slice txsData pos (pos + 1)) (\<lambda>header.
       case ParseUint (EncodeToString header) 16 of
         Inl err \<Rightarrow> Some (Inl (Some (NumError err)))
       | Inr num \<Rightarrow>
           if num < c0 then Some (Inl (Some ErrInvalidData))
           else if num - c0 > shortRlp then
             if pos + 1 + num - f7 > txDataLength then Some (Inl None)
             else Option.bind (go_slice txsData (pos + 1) (pos + 1 + num - f7)) (\<lambda>lengthBytes.
               case ParseUint (EncodeToString lengthBytes) 16 of
                 Inl err \<Rightarrow> Some (Inl (Some (NumError err)))
               | Inr n \<Rightarrow> if n + num < f7 then Some (Inl (Some ErrInvalidData)) else Some (Inr (n + num - f7)))
           else Some (Inr (num - c0)))"

definition tx_endPos :: "u64 \<Rightarrow> u64 \<Rightarrow> u64 \<Rightarrow> u64" where
  "tx_endPos forkID pos len =
     (let endPos = pos + len + rLength + sLength + vLength + headerByteLength
      in if forkID \<ge> DRAGONFRUIT_FORKID then endPos + efficiencyPercentageByteLength else endPos)"

text \<open>One turn of the loop: the end of the transaction, the transaction and its percentage.\<close>

definition decode_tx ::
    "geth \<Rightarrow> u64 \<Rightarrow> bytes \<Rightarrow> u64 \<Rightarrow> (codec_error option + u64 \<times> LegacyTx \<times> u8 list) option" where
  "decode_tx g forkID txsData pos =
     (let txDataLength = of_nat (length txsData) in
      Option.bind (decode_length txsData txDataLength pos) (\<lambda>l.
        case l of
          Inl err \<Rightarrow> Some (Inl err)
        | Inr len \<Rightarrow>
            (let endPos = tx_endPos forkID pos len in
             if endPos > txDataLength then Some (Inl (Some ErrInvalidData))
             else if endPos < pos then Some (Inl (Some ErrInvalidData))
             else
               (let dataStart = pos + len + headerByteLength in
                do {
                  fullDataTx \<leftarrow> go_slice txsData pos endPos;
                  txInfo \<leftarrow> go_slice txsData pos dataStart;
                  rData \<leftarrow> go_slice txsData dataStart (dataStart + rLength);
                  sData \<leftarrow> go_slice txsData (dataStart + rLength) (dataStart + rLength + sLength);
                  vData \<leftarrow> go_slice txsData (dataStart + rLength + sLength) (dataStart + rLength + sLength + vLength);
                  pct \<leftarrow> (if forkID \<ge> DRAGONFRUIT_FORKID
                         then do {
                           p \<leftarrow> go_slice txsData (dataStart + rLength + sLength + vLength) endPos;
                           (if length p > 0 then Some [p ! 0] else None)
                         }
                         else Some []);
                  (case rlp_DecodeBytes g txInfo of
                     Inl err \<Rightarrow> Some (Inl (Some ErrInvalidData))
                   | Inr rlpFields \<Rightarrow>
                       (case RlpFieldsToLegacyTx g rlpFields vData rData sData of
                          Inl err \<Rightarrow> Some (Inl (Some err))
                        | Inr tx \<Rightarrow> Some (Inr (endPos, tx, pct))))
                }))))"

text \<open>
  The end of a transaction is after its start: the length that a header announces leaves room
  for the signature below the end of the 64-bit range, so that a sum that wraps falls below
  the start and is refused.
\<close>

lemma decode_length_bound:
  assumes "decode_length txsData n pos = Some (Inr len)"
  shows "unat len + 67 < 2 ^ 64"
proof -
  consider num where "num - c0 \<le> shortRlp" "len = num - c0"
    | m num where "\<not> m + num < f7" "len = m + num - f7"
    using assms by (auto simp: decode_length_def not_less split: Option.bind_split_asm sum.split_asm if_split_asm)
  then show ?thesis
  proof cases
    case 1
    then show ?thesis by (simp add: word_le_nat_alt shortRlp_def)
  next
    case 2
    then have "unat len = unat (m + num) - 247" by (simp add: unat_sub not_less f7_def)
    then show ?thesis using unsigned_less [of "m + num", where 'a = nat] 2(1)
      by (simp add: f7_def word_less_nat_alt)
  qed
qed

lemma tx_endPos_unat:
  assumes "unat len + 67 < 2 ^ 64" "\<not> tx_endPos forkID pos len < pos"
  shows "unat (tx_endPos forkID pos len) = unat pos + unat len + (if forkID \<ge> DRAGONFRUIT_FORKID then 67 else 66)"
proof -
  define k :: u64 where "k = (if forkID \<ge> DRAGONFRUIT_FORKID then 67 else 66)"
  have k: "unat k \<le> 67" by (simp add: k_def)
  have e: "tx_endPos forkID pos len = pos + (len + k)"
    by (simp add: tx_endPos_def k_def rLength_def sLength_def vLength_def headerByteLength_def
        efficiencyPercentageByteLength_def)
  have "unat (len + k) = unat len + unat k"
    using assms(1) k by (subst unat_add_lem [THEN iffD1]) auto
  moreover have "unat (pos + (len + k)) = unat pos + unat (len + k)"
    using assms(2) by (simp only: e not_less no_olen_add_nat unat_add_lem)
  ultimately show ?thesis by (simp add: e k_def)
qed

lemma decode_tx_progress:
  assumes "decode_tx g forkID txsData pos = Some (Inr (endPos, r))"
  shows "unat pos < unat endPos" and "endPos \<le> of_nat (length txsData)"
proof -
  obtain len where l: "decode_length txsData (of_nat (length txsData)) pos = Some (Inr len)"
    using assms by (auto simp: decode_tx_def split: Option.bind_split_asm sum.split_asm)
  have e: "endPos = tx_endPos forkID pos len" "\<not> tx_endPos forkID pos len < pos"
    "\<not> of_nat (length txsData) < tx_endPos forkID pos len"
    using assms l by (auto simp: decode_tx_def split: Option.bind_split_asm sum.split_asm if_split_asm)
  from e(1) tx_endPos_unat [OF decode_length_bound [OF l] e(2)] show "unat pos < unat endPos" by (simp split: if_splits)
  from e show "endPos \<le> of_nat (length txsData)" by simp
qed

function decode_loop ::
    "geth \<Rightarrow> u64 \<Rightarrow> bytes \<Rightarrow> u64 \<Rightarrow> LegacyTx list \<Rightarrow> u8 list \<Rightarrow>
     (LegacyTx list \<times> bytes \<times> u8 list \<times> codec_error option) option" where
  "decode_loop g forkID txsData pos txs efficiencyPercentages =
     (if pos < of_nat (length txsData) then
        (case decode_tx g forkID txsData pos of
           None \<Rightarrow> None
         | Some (Inl err) \<Rightarrow> Some ([], txsData, [], err)
         | Some (Inr (endPos, tx, pct)) \<Rightarrow>
             decode_loop g forkID txsData endPos (txs @ [tx]) (efficiencyPercentages @ pct))
      else Some (txs, txsData, efficiencyPercentages, None))"
  by pat_completeness auto
termination
proof (relation "measure (\<lambda>(g, forkID, txsData, pos, txs, ps). 2 ^ 64 - unat pos)")
  fix g forkID txsData and pos :: u64 and txs ps y r endPos z tx pct
  assume a: "decode_tx g forkID txsData pos = Some y" "y = Inr r" "(endPos, z) = r" "(tx, pct) = z"
  then have "unat pos < unat endPos" using decode_tx_progress [of g forkID txsData pos endPos z] by simp
  moreover have "unat endPos < 2 ^ 64" using unsigned_less [of endPos] by simp
  ultimately show "((g, forkID, txsData, endPos, txs @ [tx], ps @ pct), g, forkID, txsData, pos, txs, ps)
      \<in> measure (\<lambda>(g, forkID, txsData, pos, txs, ps). 2 ^ 64 - unat pos)" by auto
qed simp

declare decode_loop.simps [simp del]

definition DecodeTxs ::
    "geth \<Rightarrow> bytes \<Rightarrow> u64 \<Rightarrow> (LegacyTx list \<times> bytes \<times> u8 list \<times> codec_error option) option" where
  "DecodeTxs g txsData forkID =
     (if (of_nat (length txsData) :: u64) = 0 then Some ([], txsData, [], None)
      else decode_loop g forkID txsData 0 [] [])"

definition DecodeTx :: "geth \<Rightarrow> string \<Rightarrow> codec_error + LegacyTx" where
  "DecodeTx g encodedTx =
     (case DecodeHex encodedTx of
        (b, Some err) \<Rightarrow> Inl (HexError err)
      | (b, None) \<Rightarrow> (case UnmarshalBinary g b of Inl err \<Rightarrow> Inl (GethError err) | Inr tx \<Rightarrow> Inr tx))"

text \<open>The order of the logs, by their indices: sorted by index, they are the same.\<close>

definition CheckLogOrder :: "nat list \<Rightarrow> bool" where
  "CheckLogOrder logs =
     (let logsAux = sort_key (\<lambda>i. i) logs
      in length logs = length logsAux \<and> list_all2 (\<lambda>a b. a = b) logsAux logs)"

lemma CheckLogOrder_iff: "CheckLogOrder logs \<longleftrightarrow> sorted logs"
  unfolding CheckLogOrder_def Let_def list.rel_eq by (metis length_sort sorted_sort sorted_sort_id)

section \<open>Decoding returns\<close>

lemma parse_digits_Encode:
  "parse_digits 16 acc (EncodeToString bs) = Some (foldl (\<lambda>a b. a * 256 + unat b) acc bs)"
proof (induction bs arbitrary: acc)
  case (Cons b bs)
  have "(acc * 16 + unat b div 16) * 16 + unat b mod 16 = acc * 256 + unat b"
    by (simp add: algebra_simps)
  with Cons show ?case by (simp add: not_le add.commute mult.commute)
qed simp

lemma ParseUint_bytes:
  assumes "bs \<noteq> []" "length bs \<le> 8"
  shows "ParseUint (EncodeToString bs) 16 = Inr (of_nat (big_SetBytes bs))"
proof -
  have "(256 :: nat) ^ length bs \<le> 256 ^ 8" using assms(2) by (rule power_increasing) simp
  then have "big_SetBytes bs < 2 ^ 64" using SetBytes_less [of bs] by simp
  then have "ParseUint_loop 16 0 (EncodeToString bs) = Inr (big_SetBytes bs)"
    by (intro ParseUint_loop_digits) (simp_all add: parse_digits_Encode big_SetBytes_def)
  moreover have "EncodeToString bs \<noteq> []" using assms(1) by (cases bs) auto
  ultimately show ?thesis by (simp add: ParseUint_def)
qed

lemma unat_add_of_nat: "unat x + k < 2 ^ 64 \<Longrightarrow> unat (x + of_nat k :: u64) = unat x + k"
  by (subst unat_add_lem [THEN iffD1]) (simp_all add: unat_of_nat take_bit_eq_mod)

lemma unat_ucast_u8 [simp]: "unat (ucast (b :: u8) :: u64) = unat b"
proof -
  have "unat b < 2 ^ 64" using unat_u8_less [of b] by (simp del: unat_u8_less)
  then show ?thesis by (simp add: unsigned_ucast_eq take_bit_nat_eq_self)
qed

text \<open>The position after the bytes that hold the length.\<close>

lemma long_header_end:
  assumes "f7 < ucast b"
  shows "pos + 1 + ucast (b :: u8) - f7 = pos + of_nat (unat b - 246)"
proof -
  have "247 < unat b" using assms by (simp add: word_less_nat_alt f7_def)
  then have "(of_nat (unat b - 246) :: u64) = of_nat (unat b) - 246" by (simp add: of_nat_diff)
  moreover have "(of_nat (unat b) :: u64) = ucast b" by (simp add: word_unat_eq_iff)
  ultimately show ?thesis by (simp add: f7_def)
qed

lemma long_iff: "ucast b - c0 > shortRlp \<and> \<not> ucast b < c0 \<longleftrightarrow> f7 < ucast (b :: u8)"
proof -
  have "unat (ucast b - c0) = unat b - 192" if "\<not> ucast b < c0" using that by (simp add: unat_sub not_less c0_def)
  then show ?thesis by (auto simp: word_less_nat_alt shortRlp_def c0_def f7_def)
qed

lemma go_slice_within:
  assumes "unat lo \<le> unat hi" "unat hi \<le> length xs"
  shows "\<exists>ys. go_slice xs lo hi = Some ys \<and> length ys = unat hi - unat lo"
  using assms by (simp add: go_slice_def word_le_nat_alt)

lemma header_value:
  assumes "go_slice txsData pos (pos + 1) = Some header" "unat pos < length txsData" "length txsData < 2 ^ 63"
  obtains b where "header = [b]" "ParseUint (EncodeToString header) 16 = Inr (ucast b)"
    "txsData ! unat pos = b"
proof -
  have p: "unat (pos + 1) = unat pos + 1"
    using assms(2,3) by (subst unat_add_lem [THEN iffD1]) auto
  then have "header = [txsData ! unat pos]"
    using assms(1,2) by (auto simp: go_slice_def take_Suc_conv_app_nth drop_eq_Nil hd_drop_conv_nth take_Suc
        split: if_splits)
  moreover from this have "ParseUint (EncodeToString header) 16 = Inr (of_nat (unat (txsData ! unat pos)))"
    using ParseUint_bytes [of header] by (simp add: big_SetBytes_def del: EncodeToString.simps)
  moreover have "(of_nat (unat b) :: u64) = ucast b" for b :: u8 by (simp add: word_unat_eq_iff)
  ultimately show thesis using that by (simp del: EncodeToString.simps)
qed

lemma decode_length_returns:
  assumes "unat pos < length txsData" "length txsData < 2 ^ 63"
  shows "\<exists>r. decode_length txsData (of_nat (length txsData)) pos = Some r"
proof -
  have p: "unat (pos + 1) = unat pos + 1"
    using assms by (subst unat_add_lem [THEN iffD1]) auto
  then obtain header where h: "go_slice txsData pos (pos + 1) = Some header"
    using go_slice_within [of pos "pos + 1" txsData] assms by auto
  then obtain b :: u8 where b: "ParseUint (EncodeToString header) 16 = Inr (ucast b)"
    using header_value [OF h assms] by metis
  show ?thesis
  proof (cases "ucast b - c0 > shortRlp \<and> \<not> ucast b < c0 \<and> \<not> pos + 1 + ucast b - f7 > of_nat (length txsData)")
    case True
    then have "f7 < ucast b" using long_iff [of b] by blast
    moreover from this have "247 < unat b" by (simp add: word_less_nat_alt f7_def)
    moreover have "unat (pos + of_nat (unat b - 246)) = unat pos + (unat b - 246)"
      by (rule unat_add_of_nat) (use assms unat_u8_less [of b] in \<open>simp del: unat_u8_less\<close>)
    ultimately have "unat (pos + 1) \<le> unat (pos + 1 + ucast b - f7)"
      using p by (simp only: long_header_end)
    then obtain nb where "go_slice txsData (pos + 1) (pos + 1 + ucast b - f7) = Some nb"
      using go_slice_within [of "pos + 1" "pos + 1 + ucast b - f7" txsData] True assms(2)
      by (auto simp: word_le_nat_alt not_less unat_of_nat)
    with True h b show ?thesis by (auto simp: decode_length_def split: sum.splits)
  next
    case False
    with h b show ?thesis by (auto simp: decode_length_def)
  qed
qed

lemma decode_tx_returns:
  assumes "unat pos < length txsData" "length txsData < 2 ^ 63"
  shows "\<exists>r. decode_tx g forkID txsData pos = Some r"
proof -
  let ?n = "of_nat (length txsData) :: u64"
  have n: "unat ?n = length txsData" using assms(2) by (simp add: unat_of_nat take_bit_eq_mod)
  obtain l where l: "decode_length txsData ?n pos = Some l" using decode_length_returns [OF assms] by blast
  show ?thesis
  proof (cases l)
    case (Inl err)
    with l show ?thesis by (simp add: decode_tx_def)
  next
    case (Inr len)
    let ?e = "tx_endPos forkID pos len" and ?d = "pos + len + headerByteLength"
    show ?thesis
    proof (cases "?e > ?n \<or> ?e < pos")
      case True
      with l Inr show ?thesis by (auto simp: decode_tx_def)
    next
      case False
      have e: "unat ?e = unat pos + unat len + (if forkID \<ge> DRAGONFRUIT_FORKID then 67 else 66)"
        using tx_endPos_unat decode_length_bound l Inr False by blast
      have le: "unat ?e \<le> length txsData" using False n by (simp add: not_less word_le_nat_alt)
      have ln: "pos + len = pos + of_nat (unat len)" by simp
      have add: "unat (pos + of_nat (unat len) + of_nat k) = unat pos + unat len + k" if "k \<le> 66" for k
      proof -
        have "unat pos + unat len + k < 2 ^ 64" using e le assms(2) that by (simp split: if_splits)
        then show ?thesis by (subst unat_add_of_nat; subst unat_add_of_nat) auto
      qed
      have d: "unat ?d = unat pos + unat len + 1" "unat (?d + rLength) = unat pos + unat len + 33"
        "unat (?d + rLength + sLength) = unat pos + unat len + 65"
        "unat (?d + rLength + sLength + vLength) = unat pos + unat len + 66"
        using add [of 1] add [of 33] add [of 65] add [of 66]
        by (simp_all add: headerByteLength_def rLength_def sLength_def vLength_def algebra_simps)
      have slice: "\<exists>ys. go_slice txsData lo hi = Some ys \<and> length ys = unat hi - unat lo"
        if "unat lo \<le> unat hi" "unat hi \<le> unat ?e" for lo hi
        using that le by (intro go_slice_within) auto
      have e66: "unat pos + unat len + 66 \<le> unat ?e" using e by simp
      obtain s1 where s1: "go_slice txsData pos ?e = Some s1" using slice [of pos ?e] e66 by auto
      obtain s2 where s2: "go_slice txsData pos ?d = Some s2" using slice [of pos ?d] d e66 by auto
      obtain s3 where s3: "go_slice txsData ?d (?d + rLength) = Some s3"
        using slice [of ?d "?d + rLength"] d e66 by auto
      obtain s4 where s4: "go_slice txsData (?d + rLength) (?d + rLength + sLength) = Some s4"
        using slice [of "?d + rLength" "?d + rLength + sLength"] d e66 by auto
      obtain s5 where s5: "go_slice txsData (?d + rLength + sLength) (?d + rLength + sLength + vLength) = Some s5"
        using slice [of "?d + rLength + sLength" "?d + rLength + sLength + vLength"] d e66 by auto
      have "\<exists>ys. go_slice txsData (?d + rLength + sLength + vLength) ?e = Some ys \<and> length ys > 0"
        if "forkID \<ge> DRAGONFRUIT_FORKID"
        using slice [of "?d + rLength + sLength + vLength" ?e] that by (auto simp: d e)
      then show ?thesis using l Inr False s1 s2 s3 s4 s5 by (auto simp: decode_tx_def split: sum.splits)
    qed
  qed
qed

lemma decode_tx_pct:
  "decode_tx g forkID txsData pos = Some (Inr (endPos, tx, pct)) \<Longrightarrow>
     length pct = (if forkID \<ge> DRAGONFRUIT_FORKID then 1 else 0)"
  by (auto simp: decode_tx_def split: Option.bind_split_asm sum.split_asm if_split_asm)

lemma decode_loop_returns:
  assumes "length txsData < 2 ^ 63" "length ps = (if forkID \<ge> DRAGONFRUIT_FORKID then length txs else 0)"
  shows "\<exists>txs' ps' err. decode_loop g forkID txsData pos txs ps = Some (txs', txsData, ps', err) \<and>
    (err \<noteq> None \<longrightarrow> txs' = []) \<and> length ps' = (if forkID \<ge> DRAGONFRUIT_FORKID then length txs' else 0)"
  using assms
proof (induction g forkID txsData pos txs ps rule: decode_loop.induct)
  case (1 g forkID txsData pos txs ps)
  show ?case
  proof (cases "pos < of_nat (length txsData)")
    case True
    then have "unat pos < length txsData"
      using 1(2) by (simp add: word_less_nat_alt unat_of_nat take_bit_eq_mod)
    then obtain r where r: "decode_tx g forkID txsData pos = Some r" using decode_tx_returns 1(2) by blast
    show ?thesis
    proof (cases r)
      case (Inl err)
      with True r show ?thesis by (subst decode_loop.simps) simp
    next
      case (Inr q)
      obtain endPos tx pct where q: "q = (endPos, tx, pct)" by (cases q) auto
      from "1.IH" [OF True r Inr q [symmetric] refl 1(2)] 1(3) decode_tx_pct [of g forkID txsData pos endPos tx pct] r Inr q
      have "\<exists>txs' ps' err. decode_loop g forkID txsData endPos (txs @ [tx]) (ps @ pct) = Some (txs', txsData, ps', err) \<and>
          (err \<noteq> None \<longrightarrow> txs' = []) \<and> length ps' = (if forkID \<ge> DRAGONFRUIT_FORKID then length txs' else 0)"
        by (simp split: if_splits)
      with True r Inr q show ?thesis by (subst decode_loop.simps) simp
    qed
  next
    case False
    with 1(3) show ?thesis by (subst decode_loop.simps) simp
  qed
qed

section \<open>Encoding\<close>

definition encodable :: "LegacyTx \<Rightarrow> bool" where
  "encodable tx \<longleftrightarrow> 0 \<le> tx_GasPrice tx \<and> 0 \<le> tx_Value tx \<and> 0 \<le> tx_R tx \<and> tx_R tx < 2 ^ 256 \<and>
     0 \<le> tx_S tx \<and> tx_S tx < 2 ^ 256 \<and> (tx_V tx = 27 \<or> tx_V tx = 28 \<or> 35 \<le> tx_V tx \<and> tx_V tx < 2 ^ 64)"

text \<open>The header that RLP puts in front of a list with a payload of \<open>n\<close> bytes, and the bytes of a field.\<close>

definition rlp_list_header :: "nat \<Rightarrow> bytes" where
  "rlp_list_header n =
     (if n \<le> 55 then [of_nat (192 + n)] else of_nat (247 + length (be_bytes n)) # be_bytes n)"

definition framed :: "bytes \<Rightarrow> bool" where
  "framed bs \<longleftrightarrow> (\<exists>payload. length payload < 2 ^ 64 \<and> bs = rlp_list_header (length payload) @ payload)"

fun field_bytes :: "rlp_field \<Rightarrow> bytes" where
  "field_bytes (RlpUint n) = be_bytes (unat n)"
| "field_bytes (RlpBig i) = be_bytes (nat i)"
| "field_bytes (RlpAddress None) = []"
| "field_bytes (RlpAddress (Some a)) = be_fixed 20 (unat a)"
| "field_bytes (RlpBytes b) = b"

lemma length_be_bytes: "n < 256 ^ k \<Longrightarrow> length (be_bytes n) \<le> k"
proof (induction k arbitrary: n)
  case 0
  then show ?case by (subst be_bytes.simps) simp
next
  case (Suc k)
  then have "n div 256 < 256 ^ k" by (simp add: div_less_iff_less_mult mult.commute)
  with Suc.IH [of "n div 256"] show ?case by (subst be_bytes.simps) simp
qed

lemma go_slice_mid:
  assumes "length (a @ b @ c) < 2 ^ 64" "lo = of_nat (length a)" "hi = of_nat (length a + length b)"
  shows "go_slice (a @ b @ c) lo hi = Some b"
proof -
  have "unat lo = length a" "unat hi = length a + length b"
    using assms by (simp_all add: unat_of_nat take_bit_eq_mod del: of_nat_add)
  then show ?thesis by (simp add: go_slice_def word_le_nat_alt)
qed

lemma decode_length_framed:
  assumes "framed coded" "length (pre @ coded @ rest) < 2 ^ 63"
  shows "decode_length (pre @ coded @ rest) (of_nat (length (pre @ coded @ rest))) (of_nat (length pre)) =
    Some (Inr (of_nat (length coded - 1)))"
proof -
  let ?data = "pre @ coded @ rest"
  obtain payload where p: "length payload < 2 ^ 64" "coded = rlp_list_header (length payload) @ payload"
    using assms(1) by (auto simp: framed_def)
  define n where "n = length payload"
  obtain h t where ht: "rlp_list_header n = h # t"
    by (cases "rlp_list_header n") (auto simp: rlp_list_header_def split: if_splits)
  have header: "go_slice ?data (of_nat (length pre)) (of_nat (length pre) + 1) = Some [h]"
    using go_slice_mid [of pre "[h]" "t @ payload @ rest" "of_nat (length pre)" "of_nat (length pre) + 1"] assms(2) p ht
    by (simp add: n_def add.commute)
  have num: "ParseUint (EncodeToString [h]) 16 = Inr (of_nat (unat h))"
    using ParseUint_bytes [of "[h]"] by (simp add: big_SetBytes_def)
  show ?thesis
  proof (cases "n \<le> 55")
    case True
    with ht have h: "unat h = 192 + n" and "t = []"
      by (auto simp: rlp_list_header_def unat_of_nat take_bit_eq_mod simp del: of_nat_add)
    with True have "of_nat (unat h) - c0 = of_nat n" "\<not> of_nat (unat h) < c0"
      by (simp_all add: c0_def word_less_nat_alt unat_of_nat take_bit_eq_mod del: of_nat_add) (simp add: h c0_def)
    moreover have "\<not> shortRlp < of_nat n"
      using True by (simp add: shortRlp_def word_less_nat_alt unat_of_nat take_bit_eq_mod)
    ultimately show ?thesis
      using header num p ht \<open>t = []\<close> by (simp add: decode_length_def n_def del: EncodeToString.simps)
  next
    case False
    define k where "k = length (be_bytes n)"
    have nb: "n < 2 ^ 63" using assms(2) p by (simp add: n_def)
    have "n < 256 ^ 8" using nb by simp
    then have k8: "k \<le> 8" unfolding k_def by (rule length_be_bytes)
    have k1: "1 \<le> k" using False unfolding k_def by (subst be_bytes.simps) simp
    have h: "unat h = 247 + k" and t: "t = be_bytes n"
      using False ht k8 by (auto simp: rlp_list_header_def k_def unat_of_nat take_bit_eq_mod simp del: of_nat_add)
    have f1: "of_nat (unat h) - c0 = (of_nat (55 + k) :: u64)" "\<not> of_nat (unat h) < c0"
      by (simp add: h c0_def)
        (use k8 h in \<open>simp add: c0_def word_less_nat_alt unat_of_nat take_bit_eq_mod del: of_nat_add\<close>)
    have f2: "shortRlp < of_nat (55 + k)"
      using k1 k8 by (simp add: shortRlp_def word_less_nat_alt unat_of_nat take_bit_eq_mod del: of_nat_add)
    have e: "of_nat (length pre) + 1 + of_nat (unat h) - f7 = of_nat (length pre + 1 + k)"
      by (simp add: h f7_def)
    have f4: "\<not> (of_nat (length ?data) :: u64) < of_nat (length pre + 1 + k)"
      using assms(2) p ht t
      by (simp add: k_def n_def word_less_nat_alt unat_of_nat take_bit_eq_mod del: of_nat_add of_nat_Suc)
    have f5: "go_slice ?data (of_nat (length pre) + 1) (of_nat (length pre + 1 + k)) = Some (be_bytes n)"
      using go_slice_mid [of "pre @ [h]" "be_bytes n" "payload @ rest" "of_nat (length pre) + 1" "of_nat (length pre + 1 + k)"]
        assms(2) p ht t by (simp add: n_def k_def add.commute)
    have f6: "ParseUint (EncodeToString (be_bytes n)) 16 = Inr (of_nat n)"
      using ParseUint_bytes [of "be_bytes n"] k1 k8 by (cases "be_bytes n = []") (simp_all add: k_def)
    have f7a: "\<not> of_nat n + of_nat (unat h) < f7"
      using nb k8 h by (simp add: f7_def word_less_nat_alt unat_of_nat take_bit_eq_mod of_nat_add [symmetric] del: of_nat_add)
    have f8: "of_nat n + of_nat (unat h) - f7 = (of_nat (length coded - 1) :: u64)"
      using p ht t by (simp add: h f7_def k_def n_def)
    show ?thesis
      by (simp only: decode_length_def header num Option.bind.simps(2) sum.case f1 f2 e f4 f5 f6 f7a f8 if_True if_False)
  qed
qed

lemma decode_tx_encoded:
  assumes "framed coded" "length rData = 32" "length sData = 32" "length vData = 1"
    and "length pct = (if forkID \<ge> DRAGONFRUIT_FORKID then 1 else 0)"
    and "length (pre @ coded @ rData @ sData @ vData @ pct @ rest) < 2 ^ 63"
    and "rlp_DecodeBytes g coded = Inr rlpFields" "RlpFieldsToLegacyTx g rlpFields vData rData sData = Inr tx"
  shows "decode_tx g forkID (pre @ coded @ rData @ sData @ vData @ pct @ rest) (of_nat (length pre)) =
    Some (Inr (of_nat (length (pre @ coded @ rData @ sData @ vData @ pct)), tx, pct))"
proof -
  let ?data = "pre @ coded @ rData @ sData @ vData @ pct @ rest" and ?pos = "of_nat (length pre) :: u64"
  define c where "c = length coded"
  have c1: "1 \<le> c" using assms(1) by (auto simp: c_def framed_def rlp_list_header_def)
  have len: "decode_length ?data (of_nat (length ?data)) ?pos = Some (Inr (of_nat (c - 1)))"
    using decode_length_framed [OF assms(1), of pre "rData @ sData @ vData @ pct @ rest"] assms(6) by (simp add: c_def)
  have d: "?pos + of_nat (c - 1) + headerByteLength = of_nat (length pre + c)"
    using c1 by (simp add: headerByteLength_def of_nat_diff)
  have e: "tx_endPos forkID ?pos (of_nat (c - 1)) = of_nat (length pre + c + 65 + length pct)"
    using c1 assms(5) by (simp add: tx_endPos_def rLength_def sLength_def vLength_def headerByteLength_def
        efficiencyPercentageByteLength_def of_nat_diff)
  have b: "\<not> of_nat (length ?data) < (of_nat (length pre + c + 65 + length pct) :: u64)"
    "\<not> (of_nat (length pre + c + 65 + length pct) :: u64) < ?pos"
    using assms by (simp_all add: c_def word_less_nat_alt unat_of_nat take_bit_eq_mod del: of_nat_add)
  have lt: "length ?data < 2 ^ 64" using assms(6) by simp
  have s1: "go_slice ?data ?pos (of_nat (length pre + c + 65 + length pct)) = Some (coded @ rData @ sData @ vData @ pct)"
    using go_slice_mid [of pre "coded @ rData @ sData @ vData @ pct" rest ?pos] lt assms(2-4) by (simp add: c_def add_ac)
  have s2: "go_slice ?data ?pos (of_nat (length pre + c)) = Some coded"
    using go_slice_mid [of pre coded "rData @ sData @ vData @ pct @ rest" ?pos] lt by (simp add: c_def)
  have s3: "go_slice ?data (of_nat (length pre + c)) (of_nat (length pre + c) + rLength) = Some rData"
    using go_slice_mid [of "pre @ coded" rData "sData @ vData @ pct @ rest" "of_nat (length pre + c)"
        "of_nat (length pre + c) + rLength"] lt assms(2) by (simp add: c_def rLength_def)
  have s4: "go_slice ?data (of_nat (length pre + c) + rLength) (of_nat (length pre + c) + rLength + sLength) = Some sData"
    using go_slice_mid [of "pre @ coded @ rData" sData "vData @ pct @ rest" "of_nat (length pre + c) + rLength"
        "of_nat (length pre + c) + rLength + sLength"] lt assms(2,3) by (simp add: c_def rLength_def sLength_def)
  have s5: "go_slice ?data (of_nat (length pre + c) + rLength + sLength)
      (of_nat (length pre + c) + rLength + sLength + vLength) = Some vData"
    using go_slice_mid [of "pre @ coded @ rData @ sData" vData "pct @ rest" "of_nat (length pre + c) + rLength + sLength"
        "of_nat (length pre + c) + rLength + sLength + vLength"] lt assms(2-4)
    by (simp add: c_def rLength_def sLength_def vLength_def)
  have s6: "go_slice ?data (of_nat (length pre + c) + rLength + sLength + vLength)
      (of_nat (length pre + c + 65 + length pct)) = Some pct"
    using go_slice_mid [of "pre @ coded @ rData @ sData @ vData" pct rest
        "of_nat (length pre + c) + rLength + sLength + vLength" "of_nat (length pre + c + 65 + length pct)"] lt assms(2-4)
    by (simp add: c_def rLength_def sLength_def vLength_def add_ac)
  have p: "forkID \<ge> DRAGONFRUIT_FORKID \<Longrightarrow> \<exists>x. pct = [x]" "\<not> forkID \<ge> DRAGONFRUIT_FORKID \<Longrightarrow> pct = []"
    using assms(5) by (cases pct; simp)+
  have l: "length (pre @ coded @ rData @ sData @ vData @ pct) = length pre + c + 65 + length pct"
    using assms(2-4) by (simp add: c_def)
  show ?thesis
    unfolding decode_tx_def Let_def len bind.bind_lunit sum.case d e l
    using p by (cases "forkID \<ge> DRAGONFRUIT_FORKID")
      (simp_all only: b s1 s2 s3 s4 s5 s6 assms(7,8) Option.bind.simps(2) sum.case if_True if_False, auto)
qed

lemma big_Text_nonneg: "0 \<le> i \<Longrightarrow> big_Text 16 i = go_text 16 (nat i)"
  by (simp add: big_Text_def)

lemma signed_bytes_eq:
  assumes "0 \<le> r" "r < 2 ^ 256" "0 \<le> s" "s < 2 ^ 256" "0 \<le> v" "v < 256"
  shows "signed_bytes coded r s v [] = Inr (coded @ be_fixed 32 (nat r) @ be_fixed 32 (nat s) @ [of_nat (nat v)])"
proof -
  have pad: "pad_left 64 (go_text 16 (nat i)) = EncodeToString (be_fixed 32 (nat i))" if "0 \<le> i" "i < 2 ^ 256" for i :: int
    using pad_left_bytes [of 32 "nat i"] that by (simp add: nat_less_iff)
  have "pad_left 2 (go_text 16 (nat v)) = EncodeToString [of_nat (nat v)]"
    using pad_left_bytes [of 1 "nat v"] assms(5,6) by (simp add: nat_less_iff)
  with assms pad show ?thesis
    by (simp add: signed_bytes_def big_Text_nonneg EncodeToString_append [symmetric] del: EncodeToString.simps)
qed

lemma percentage_bytes: "DecodeHex (go_text 16 (unat (p :: u8))) = ([p], None)"
proof -
  have pad: "pad_left 2 (go_text 16 (unat p)) = EncodeToString [p]"
    using pad_left_bytes [of 1 "unat p"] by simp
  have "length (go_text 16 (unat p)) \<le> 2" using length_go_text [of "unat p" 1] by simp
  moreover have "length (go_text 16 (unat p)) \<noteq> 0" by simp
  ultimately consider "length (go_text 16 (unat p)) = 1" | "length (go_text 16 (unat p)) = 2" by linarith
  then have "(if length (go_text 16 (unat p)) mod 2 \<noteq> 0 then ''0'' @ go_text 16 (unat p) else go_text 16 (unat p)) =
      EncodeToString [p]"
    by cases (use pad in \<open>simp_all add: pad_left_def\<close>)
  then show ?thesis
    using go_text_not_prefixed [of 16 "unat p"] DecodeString_Encode [of "[p]"]
    by (simp add: DecodeHex_def TrimPrefix0x_def del: EncodeToString.simps DecodeString_Encode)
qed

lemma even_word_of_int: "even (word_of_int v :: u64) \<longleftrightarrow> even v"
  using bit_0 [of "word_of_int v :: u64"] bit_0 [of v] by (simp add: bit_word_of_int_iff del: bit_0)

lemma sign_bit: "0 \<le> v \<Longrightarrow> 1 - (big_Uint64 v AND 1) = (if even v then 1 else 0)"
  by (simp add: big_Uint64_def and_one_eq mod_2_eq_odd even_word_of_int)

text \<open>The fields of a transaction in the order of the encoder, and its bytes.\<close>

definition tx_fields :: "geth \<Rightarrow> LegacyTx \<Rightarrow> rlp_field list" where
  "tx_fields g tx =
     [RlpUint (tx_Nonce tx), RlpBig (tx_GasPrice tx), RlpUint (tx_Gas tx), RlpAddress (tx_To tx),
      RlpBig (tx_Value tx), RlpBytes (tx_Data tx)] @
     (if \<not> IsPreEIP155Tx g tx then [RlpBig (ChainId g (tx_V tx)), RlpUint 0, RlpUint 0] else [])"

lemma prepare_eq:
  assumes "encodable tx"
  shows "prepareRPLTxData g tx =
    (case rlp_EncodeToBytes g (tx_fields g tx) of
       Inl err \<Rightarrow> Inl (GethError err)
     | Inr coded \<Rightarrow> Inr (coded @ be_fixed 32 (nat (tx_R tx)) @ be_fixed 32 (nat (tx_S tx)) @
         [if even (tx_V tx) then 28 else 27]))"
proof -
  have e: "0 \<le> tx_V tx" "0 \<le> tx_R tx" "tx_R tx < 2 ^ 256" "0 \<le> tx_S tx" "tx_S tx < 2 ^ 256"
    using assms by (auto simp: encodable_def)
  have newV: "ether155V + sint (1 - (big_Uint64 (tx_V tx) AND 1)) = (if even (tx_V tx) then 28 else 27)"
    using sign_bit [OF e(1)] by (simp add: ether155V_def)
  have fs: "(if \<not> IsPreEIP155Tx g tx then xs @ ys else xs) = xs @ (if \<not> IsPreEIP155Tx g tx then ys else [])"
    for xs ys :: "rlp_field list" by simp
  have "signed_bytes coded (tx_R tx) (tx_S tx) (if even (tx_V tx) then 28 else 27) [] =
      Inr (coded @ be_fixed 32 (nat (tx_R tx)) @ be_fixed 32 (nat (tx_S tx)) @ [if even (tx_V tx) then 28 else 27])" for coded
    using signed_bytes_eq [OF e(2-5), of "if even (tx_V tx) then 28 else 27" coded] by simp
  then show ?thesis unfolding prepareRPLTxData_def Let_def newV fs tx_fields_def by (simp only:)
qed

section \<open>What the codec relies on\<close>

text \<open>
  The laws of go-ethereum: RLP frames a list by its header and decodes what it encoded, an
  address is given back by its twenty bytes, and the chain of a signed transaction follows
  from its \<open>V\<close> by EIP-155.
\<close>

locale geth_laws =
  fixes g :: geth
  assumes rlp_framed: "rlp_EncodeToBytes g fs = Inr bs \<Longrightarrow> framed bs"
    and rlp_decodes: "rlp_EncodeToBytes g fs = Inr bs \<Longrightarrow> rlp_DecodeBytes g bs = Inr (map field_bytes fs)"
    and address_bytes: "BytesToAddress g (be_fixed 20 (unat a)) = a"
    and chain_pre155: "v = 27 \<or> v = 28 \<Longrightarrow> ChainId g v = 0"
    and chain_155: "35 \<le> v \<Longrightarrow> ChainId g v = (v - 35) div 2"
begin

lemma pre155_iff:
  assumes "encodable tx"
  shows "IsPreEIP155Tx g tx \<longleftrightarrow> tx_V tx = 27 \<or> tx_V tx = 28"
proof -
  have v: "tx_V tx < 2 ^ 64" "0 \<le> tx_V tx" using assms by (auto simp: encodable_def)
  have "big_Uint64 (tx_V tx) = of_nat n \<longleftrightarrow> tx_V tx = int n" if "n < 2 ^ 64" for n
  proof -
    have "unat (big_Uint64 (tx_V tx)) = nat (tx_V tx)"
      unfolding big_Uint64_def unat_of_nat take_bit_eq_mod using v by (simp add: nat_less_iff)
    moreover have "unat (of_nat n :: u64) = n" unfolding unat_of_nat take_bit_eq_mod using that by simp
    ultimately show ?thesis using v(2) by (auto simp: word_unat_eq_iff)
  qed
  from this [of 27] this [of 28]
  have iff: "big_Uint64 (tx_V tx) = 27 \<longleftrightarrow> tx_V tx = 27" "big_Uint64 (tx_V tx) = 28 \<longleftrightarrow> tx_V tx = 28" by simp_all
  have "big_Uint64 0 = 0" by (simp add: big_Uint64_def)
  then show ?thesis unfolding IsPreEIP155Tx_def iff using chain_pre155 [of "tx_V tx"] by auto
qed

lemma fields_to_tx:
  assumes "encodable tx" "vData = [if even (tx_V tx) then 28 else 27]"
    and "fs = [RlpUint (tx_Nonce tx), RlpBig (tx_GasPrice tx), RlpUint (tx_Gas tx), RlpAddress (tx_To tx),
            RlpBig (tx_Value tx), RlpBytes (tx_Data tx)] @
          (if \<not> IsPreEIP155Tx g tx then [RlpBig (ChainId g (tx_V tx)), RlpUint 0, RlpUint 0] else [])"
  shows "RlpFieldsToLegacyTx g (map field_bytes fs) vData (be_fixed 32 (nat (tx_R tx))) (be_fixed 32 (nat (tx_S tx))) = Inr tx"
proof -
  have v: "int (big_SetBytes vData) = (if even (tx_V tx) then 28 else 27)"
    using assms(2) by (simp add: big_SetBytes_def)
  have u: "big_Uint64 (uint n) = n" for n :: u64
    using unat_eq_nat_uint [of n] by (simp add: big_Uint64_def flip: unat_eq_nat_uint)
  have rs: "int (big_SetBytes (be_fixed 32 (nat (tx_R tx)))) = tx_R tx" "int (big_SetBytes (be_fixed 32 (nat (tx_S tx)))) = tx_S tx"
    using assms(1) by (simp_all add: encodable_def SetBytes_be_fixed nat_less_iff)
  have txV: "(ChainId g (tx_V tx) * 2 + 35) + ((if even (tx_V tx) then 28 else 27) - 27) = tx_V tx \<and> 0 \<le> ChainId g (tx_V tx)"
    if "\<not> IsPreEIP155Tx g tx"
  proof -
    have "35 \<le> tx_V tx" using that pre155_iff assms(1) by (auto simp: encodable_def)
    then show ?thesis by (simp add: chain_155) presburger
  qed
  have nn: "0 \<le> tx_GasPrice tx" "0 \<le> tx_Value tx" using assms(1) by (auto simp: encodable_def)
  show ?thesis
  proof (cases "IsPreEIP155Tx g tx")
    case True
    then have "(if even (tx_V tx) then 28 else 27) = tx_V tx" using pre155_iff [OF assms(1)] by auto
    with True assms(3) show ?thesis
      unfolding RlpFieldsToLegacyTx_def Let_def v rs by (cases "tx_To tx") (simp_all add: u nn address_bytes)
  next
    case False
    with txV assms(3) show ?thesis
      unfolding RlpFieldsToLegacyTx_def Let_def v rs
      by (cases "tx_To tx") (simp_all add: u nn address_bytes double_def ether155V_def etherPre155V_def)
  qed
qed

lemma prepare_bytes:
  assumes "encodable tx" "prepareRPLTxData g tx = Inr txData"
  obtains coded rData sData vData where "txData = coded @ rData @ sData @ vData" "framed coded"
    "length rData = 32" "length sData = 32" "length vData = 1"
    "\<exists>rlpFields. rlp_DecodeBytes g coded = Inr rlpFields \<and> RlpFieldsToLegacyTx g rlpFields vData rData sData = Inr tx"
proof -
  let ?r = "be_fixed 32 (nat (tx_R tx))" and ?s = "be_fixed 32 (nat (tx_S tx))"
  let ?v = "[if even (tx_V tx) then 28 else 27] :: bytes"
  obtain coded where c: "rlp_EncodeToBytes g (tx_fields g tx) = Inr coded" and t: "txData = coded @ ?r @ ?s @ ?v"
    using assms(2) prepare_eq [OF assms(1), of g] by (auto split: sum.split_asm)
  have "RlpFieldsToLegacyTx g (map field_bytes (tx_fields g tx)) ?v ?r ?s = Inr tx"
    by (rule fields_to_tx [OF assms(1) refl tx_fields_def])
  then show thesis using that [OF t rlp_framed [OF c]] rlp_decodes [OF c] by simp
qed

lemma decode_encode_loop:
  assumes "encode_loop g forkID eps i txs acc = Some (Inr data)" "\<forall>tx \<in> set txs. encodable tx"
    and "length (data @ rest) < 2 ^ 63"
  shows "(\<exists>enc. data = acc @ enc) \<and>
    decode_loop g forkID (data @ rest) (of_nat (length acc)) txs0 ps0 =
    decode_loop g forkID (data @ rest) (of_nat (length data)) (txs0 @ txs)
      (ps0 @ (if forkID \<ge> DRAGONFRUIT_FORKID then take (length txs) (drop i eps) else []))"
  using assms
proof (induction txs arbitrary: i acc txs0 ps0)
  case (Cons tx txs)
  obtain txData where t: "prepareRPLTxData g tx = Inr txData" using Cons.prems(1) by (auto split: sum.split_asm)
  define pct where "pct = (if forkID \<ge> DRAGONFRUIT_FORKID then [eps ! i] else [])"
  have i: "i < length eps" if "forkID \<ge> DRAGONFRUIT_FORKID" using Cons.prems(1) t that by (simp split: if_splits)
  have nxt: "encode_loop g forkID eps (i + 1) txs (acc @ txData @ pct) = Some (Inr data)"
    using Cons.prems(1) t i by (simp add: pct_def percentage_bytes split: if_splits)
  note IH = Cons.IH [OF nxt _ Cons.prems(3), of "txs0 @ [tx]" "ps0 @ pct"]
  then obtain enc where enc: "data = (acc @ txData @ pct) @ enc" using Cons.prems(2) by auto
  obtain coded rData sData vData rlpFields where p: "txData = coded @ rData @ sData @ vData" "framed coded"
    "length rData = 32" "length sData = 32" "length vData = 1" "rlp_DecodeBytes g coded = Inr rlpFields"
    "RlpFieldsToLegacyTx g rlpFields vData rData sData = Inr tx"
    using prepare_bytes [OF _ t] Cons.prems(2) by (metis list.set_intros(1))
  have len: "length pct = (if forkID \<ge> DRAGONFRUIT_FORKID then 1 else 0)" by (simp add: pct_def)
  have "decode_tx g forkID (data @ rest) (of_nat (length acc)) = Some (Inr (of_nat (length (acc @ txData @ pct)), tx, pct))"
    using decode_tx_encoded [OF p(2-5) len _ p(6,7), of acc "enc @ rest"] Cons.prems(3) by (simp add: enc p(1))
  moreover have "(of_nat (length acc) :: u64) < of_nat (length (data @ rest))"
    using Cons.prems(3) p(3) by (simp add: enc p(1) word_less_nat_alt unat_of_nat take_bit_eq_mod del: of_nat_add)
  ultimately have "decode_loop g forkID (data @ rest) (of_nat (length acc)) txs0 ps0 =
      decode_loop g forkID (data @ rest) (of_nat (length (acc @ txData @ pct))) (txs0 @ [tx]) (ps0 @ pct)"
    by (subst decode_loop.simps) (simp del: of_nat_add)
  moreover have "pct @ take (length txs) (drop (i + 1) eps) = take (length (tx # txs)) (drop i eps)"
    if "forkID \<ge> DRAGONFRUIT_FORKID" using i [OF that] that by (simp add: pct_def Cons_nth_drop_Suc [symmetric])
  ultimately show ?case using IH Cons.prems(2) enc by (auto simp: pct_def)
qed simp

end

section \<open>An RLP codec\<close>

text \<open>The codec of the Ethereum specification, on which the laws are interpreted.\<close>

definition rlp_item :: "bytes \<Rightarrow> bytes" where
  "rlp_item bs =
     (if length bs = 1 \<and> hd bs < 128 then bs
      else if length bs \<le> 55 then of_nat (128 + length bs) # bs
      else of_nat (183 + length (be_bytes (length bs))) # be_bytes (length bs) @ bs)"

fun negative_big :: "rlp_field \<Rightarrow> bool" where
  "negative_big (RlpBig i) = (i < 0)"
| "negative_big _ = False"

definition rlp_encode :: "rlp_field list \<Rightarrow> go_error + bytes" where
  "rlp_encode fs =
     (let payload = concat (map (\<lambda>f. rlp_item (field_bytes f)) fs) in
      if list_ex negative_big fs then Inl (ErrorString ''rlp: cannot encode negative *big.Int'')
      else if length payload < 2 ^ 64 then Inr (rlp_list_header (length payload) @ payload)
      else Inl (ErrorString ''rlp: value too large''))"

function rlp_items :: "bytes \<Rightarrow> bytes list option" where
  "rlp_items [] = Some []"
| "rlp_items (b # bs) =
     (if b < 128 then map_option (\<lambda>xs. [b] # xs) (rlp_items bs)
      else if b < 184 then
        (let n = unat b - 128
         in if n \<le> length bs then map_option (\<lambda>xs. take n bs # xs) (rlp_items (drop n bs)) else None)
      else if b < 192 then
        (let k = unat b - 183; n = big_SetBytes (take k bs)
         in if k + n \<le> length bs then map_option (\<lambda>xs. take n (drop k bs) # xs) (rlp_items (drop (k + n) bs)) else None)
      else None)"
  by pat_completeness auto
termination by (relation "measure length") auto

definition rlp_decode :: "bytes \<Rightarrow> go_error + bytes list" where
  "rlp_decode bs =
     (case bs of
        [] \<Rightarrow> Inl (ErrorString ''EOF'')
      | b # t \<Rightarrow>
          (let k = (if b < 248 then 0 else unat b - 247);
               n = (if b < 248 then unat b - 192 else big_SetBytes (take k t))
           in if b < 192 then Inl (ErrorString ''rlp: expected input list'')
              else if length t \<noteq> k + n then Inl (ErrorString ''rlp: element is larger than containing list'')
              else case rlp_items (drop k t) of
                     None \<Rightarrow> Inl (ErrorString ''rlp: expected List'')
                   | Some xs \<Rightarrow> Inr xs))"

definition spec_geth :: geth where
  "spec_geth = \<lparr>rlp_EncodeToBytes = rlp_encode, rlp_DecodeBytes = rlp_decode,
     BytesToAddress = (\<lambda>bs. of_nat (big_SetBytes bs)),
     ChainId = (\<lambda>v. if v = 27 \<or> v = 28 then 0 else (v - 35) div 2),
     UnmarshalBinary = (\<lambda>bs. Inl (ErrorString ''transaction type not supported''))\<rparr>"

declare rlp_items.simps(2) [simp del]

lemma be_bytes_length8:
  assumes "n < 2 ^ 64" "0 < n"
  shows "be_bytes n \<noteq> []" "length (be_bytes n) \<le> 8"
proof -
  have "n < 256 ^ 8" using assms(1) by simp
  then show "length (be_bytes n) \<le> 8" by (rule length_be_bytes)
  show "be_bytes n \<noteq> []" using assms(2) by (subst be_bytes.simps) simp
qed

lemma u8_of_nat_less: "n < 256 \<Longrightarrow> (of_nat n :: u8) < b \<longleftrightarrow> n < unat b"
  by (simp add: word_less_nat_alt del: of_nat_add)

lemma rlp_items_item:
  assumes "length bs < 2 ^ 64"
  shows "rlp_items (rlp_item bs @ rest) = map_option (\<lambda>xs. bs # xs) (rlp_items rest)"
proof (cases "length bs = 1 \<and> hd bs < 128")
  case True
  then show ?thesis by (cases bs) (auto simp: rlp_item_def rlp_items.simps)
next
  case False
  show ?thesis
  proof (cases "length bs \<le> 55")
    case le: True
    then have "\<not> (of_nat (128 + length bs) :: u8) < 128" "(of_nat (128 + length bs) :: u8) < 184"
      "unat (of_nat (128 + length bs) :: u8) = 128 + length bs"
      by (simp_all add: u8_of_nat_less del: of_nat_add)
    moreover have "rlp_item bs = of_nat (128 + length bs) # bs" unfolding rlp_item_def using False le by (simp only: if_True if_False)
    ultimately show ?thesis by (simp add: rlp_items.simps(2) del: of_nat_add)
  next
    case gt: False
    let ?k = "length (be_bytes (length bs))"
    have k: "be_bytes (length bs) \<noteq> []" "?k \<le> 8" by (rule be_bytes_length8 [OF assms]; use gt in linarith)+
    then have "\<not> (of_nat (183 + ?k) :: u8) < 128" "\<not> (of_nat (183 + ?k) :: u8) < 184" "(of_nat (183 + ?k) :: u8) < 192"
      "unat (of_nat (183 + ?k) :: u8) = 183 + ?k"
      by (simp_all add: u8_of_nat_less del: of_nat_add)
    with False gt show ?thesis by (simp add: rlp_item_def rlp_items.simps(2) del: of_nat_add)
  qed
qed

lemma rlp_items_concat:
  "\<forall>f \<in> set fs. length (field_bytes f) < 2 ^ 64 \<Longrightarrow>
     rlp_items (concat (map (\<lambda>f. rlp_item (field_bytes f)) fs)) = Some (map field_bytes fs)"
  by (induction fs) (simp_all add: rlp_items_item)

lemma rlp_decode_header:
  assumes "length payload < 2 ^ 64" "rlp_items payload = Some xs"
  shows "rlp_decode (rlp_list_header (length payload) @ payload) = Inr xs"
proof (cases "length payload \<le> 55")
  case True
  then have "\<not> (of_nat (192 + length payload) :: u8) < 192" "(of_nat (192 + length payload) :: u8) < 248"
    "unat (of_nat (192 + length payload) :: u8) = 192 + length payload"
    by (simp_all add: u8_of_nat_less del: of_nat_add)
  with True assms(2) show ?thesis by (simp add: rlp_decode_def rlp_list_header_def del: of_nat_add)
next
  case False
  let ?k = "length (be_bytes (length payload))"
  have k: "be_bytes (length payload) \<noteq> []" "?k \<le> 8"
    by (rule be_bytes_length8 [OF assms(1)]; use False in linarith)+
  then have "\<not> (of_nat (247 + ?k) :: u8) < 192" "\<not> (of_nat (247 + ?k) :: u8) < 248"
    "unat (of_nat (247 + ?k) :: u8) = 247 + ?k"
    by (simp_all add: u8_of_nat_less del: of_nat_add)
  with False assms(2) show ?thesis by (simp add: rlp_decode_def rlp_list_header_def del: of_nat_add)
qed

lemma rlp_encode_Inr:
  assumes "rlp_encode fs = Inr bs"
  obtains payload where "payload = concat (map (\<lambda>f. rlp_item (field_bytes f)) fs)" "length payload < 2 ^ 64"
    "bs = rlp_list_header (length payload) @ payload"
  using assms by (auto simp: rlp_encode_def split: if_splits)

interpretation spec: geth_laws spec_geth
proof
  fix fs bs assume e: "rlp_EncodeToBytes spec_geth fs = Inr bs"
  then obtain payload where p: "payload = concat (map (\<lambda>f. rlp_item (field_bytes f)) fs)" "length payload < 2 ^ 64"
    "bs = rlp_list_header (length payload) @ payload"
    by (auto simp: spec_geth_def elim: rlp_encode_Inr)
  then show "framed bs" by (auto simp: framed_def)
  have "length (field_bytes f) \<le> length payload" if f_in: "f \<in> set fs" for f
  proof -
    obtain xs ys where "fs = xs @ f # ys" using f_in split_list by metis
    moreover have "length b \<le> length (rlp_item b)" for b by (simp add: rlp_item_def)
    ultimately show ?thesis by (simp add: p(1) trans_le_add1 trans_le_add2)
  qed
  then have "rlp_items payload = Some (map field_bytes fs)"
    unfolding p(1) using p(1,2) by (intro rlp_items_concat ballI) (meson le_less_trans)
  then show "rlp_DecodeBytes spec_geth bs = Inr (map field_bytes fs)"
    using rlp_decode_header [OF p(2)] by (simp add: spec_geth_def p(3))
next
  fix a :: address
  have "unat a < 256 ^ 20" using unsigned_less [of a, where 'a = nat] by simp
  then show "BytesToAddress spec_geth (be_fixed 20 (unat a)) = a"
    by (simp add: spec_geth_def SetBytes_be_fixed)
qed (auto simp: spec_geth_def)

section \<open>Properties\<close>

text \<open>
  C36. Decoding a batch returns for every input, whatever the RLP decoder answers: no slice is
  out of range, though the positions are 64-bit sums of lengths read from the data. The data
  is handed back, an error comes with no transactions, and from the fork with effective
  percentages on there is one for each transaction.
\<close>

theorem DecodeTxs_total:
  assumes "length data < 2 ^ 63"
  shows "\<exists>txs pcts err. DecodeTxs g data forkID = Some (txs, data, pcts, err) \<and> (err \<noteq> None \<longrightarrow> txs = []) \<and>
    length pcts = (if forkID \<ge> DRAGONFRUIT_FORKID then length txs else 0)"
  using decode_loop_returns [OF assms, of "[]" forkID "[]" g 0] by (auto simp: DecodeTxs_def)

lemma DecodeTxs_loop:
  assumes "length data < 2 ^ 63"
  shows "DecodeTxs g data forkID = decode_loop g forkID data 0 [] []"
proof (cases "data = []")
  case True
  then show ?thesis by (subst decode_loop.simps) (simp add: DecodeTxs_def)
next
  case False
  then have "(of_nat (length data) :: u64) \<noteq> 0"
    using assms by (simp add: word_unat_eq_iff unat_of_nat take_bit_eq_mod)
  then show ?thesis by (simp add: DecodeTxs_def)
qed

text \<open>
  C33. Decoding gives back what was encoded: the transactions of a batch, signed before or after
  EIP-155, and their effective percentages.
\<close>

theorem batch_round_trip:
  assumes "geth_laws g" "\<forall>tx \<in> set txs. encodable tx"
    and "EncodeTransactions g txs effectivePercentages forkID = Some (Inr data)" "length data < 2 ^ 63"
  shows "DecodeTxs g data forkID =
    Some (txs, data, if forkID \<ge> DRAGONFRUIT_FORKID then take (length txs) effectivePercentages else [], None)"
  using geth_laws.decode_encode_loop [OF assms(1) assms(3) [unfolded EncodeTransactions_def] assms(2), of "[]" "[]" "[]"]
    assms(4) decode_loop.simps [of g forkID data "of_nat (length data)"] by (simp add: DecodeTxs_loop)

text \<open>
  A batch that ends in the first byte of a long header decodes to no transactions and no
  error: the check of the header's length returns the error of the call before it, which is
  nil.
\<close>

theorem truncated_header_is_no_error:
  assumes "geth_laws g" "\<forall>tx \<in> set txs. encodable tx"
    and "EncodeTransactions g txs effectivePercentages forkID = Some (Inr data)" "length data < 2 ^ 62"
  shows "DecodeTxs g (data @ [0xf8]) forkID = Some ([], data @ [0xf8], [], None)"
proof -
  let ?d = "data @ [0xf8] :: bytes"
  have l: "length ?d < 2 ^ 63" using assms(4) by simp
  have "go_slice ?d (of_nat (length data)) (of_nat (length data) + 1) = Some [0xf8]"
    using go_slice_mid [of data "[0xf8]" "[]" "of_nat (length data)" "of_nat (length data) + 1"] l by (simp add: add.commute)
  moreover have "ParseUint (EncodeToString [0xf8]) 16 = Inr 0xf8"
    using ParseUint_bytes [of "[0xf8]"] by (simp add: big_SetBytes_def del: EncodeToString.simps)
  moreover have "(of_nat (length ?d) :: u64) < of_nat (length data + 2)"
    using assms(4) by (simp add: word_less_nat_alt unat_of_nat take_bit_eq_mod del: of_nat_add of_nat_Suc)
  moreover have "of_nat (length data) + 1 + 0xf8 - f7 = of_nat (length data + 2)" by (simp add: f7_def)
  moreover have "\<not> (0xf8 :: u64) < c0" "(0xf8 :: u64) - c0 > shortRlp" by (simp_all add: c0_def shortRlp_def)
  ultimately have "decode_length ?d (of_nat (length ?d)) (of_nat (length data)) = Some (Inl None)"
    by (simp only: decode_length_def Option.bind.simps(2) sum.case if_True if_False)
  then have "decode_tx g forkID ?d (of_nat (length data)) = Some (Inl None)" by (simp add: decode_tx_def)
  moreover have "(of_nat (length data) :: u64) < of_nat (length ?d)"
    using assms(4) by (simp add: word_less_nat_alt unat_of_nat take_bit_eq_mod del: of_nat_add of_nat_Suc)
  ultimately have "decode_loop g forkID ?d (of_nat (length data)) txs0 ps0 = Some ([], ?d, [], None)" for txs0 ps0
    by (subst decode_loop.simps) simp
  then show ?thesis
    using geth_laws.decode_encode_loop [OF assms(1) assms(3) [unfolded EncodeTransactions_def] assms(2) l, of "[]" "[]"]
    by (simp add: DecodeTxs_loop [OF l])
qed

text \<open>The witnesses: a transfer on chain 1101 and one signed before EIP-155.\<close>

definition sample_txs :: "LegacyTx list" where
  "sample_txs =
     [\<lparr>tx_Nonce = 7, tx_GasPrice = 1000, tx_Gas = 21000, tx_To = Some 0xabcdef, tx_Value = 5, tx_Data = [1, 2],
       tx_V = 2238, tx_R = 77, tx_S = 88\<rparr>,
      \<lparr>tx_Nonce = 8, tx_GasPrice = 0, tx_Gas = 53000, tx_To = None, tx_Value = 0, tx_Data = [],
       tx_V = 27, tx_R = 5, tx_S = 6\<rparr>]"

lemma sample_encodable: "\<forall>tx \<in> set sample_txs. encodable tx"
  by (simp add: sample_txs_def encodable_def)

lemma payload_length:
  "\<forall>f \<in> set fs. length (field_bytes f) \<le> 1000 \<Longrightarrow>
     length (concat (map (\<lambda>f. rlp_item (field_bytes f)) fs)) \<le> length fs * 1009"
proof (induction fs)
  case (Cons f fs)
  then have "length (field_bytes f) < 256 ^ 8" by simp
  from length_be_bytes [OF this] have "length (rlp_item (field_bytes f)) \<le> length (field_bytes f) + 9"
    by (simp add: rlp_item_def)
  with Cons show ?case by simp
qed simp

lemma sample_fields: "tx \<in> set sample_txs \<Longrightarrow> f \<in> set (tx_fields spec_geth tx) \<Longrightarrow>
    length (field_bytes f) \<le> 1000 \<and> \<not> negative_big f"
proof -
  have "length (be_bytes n) \<le> 8" if "n < 100000" for n using length_be_bytes [of n 8] that by simp
  moreover assume "tx \<in> set sample_txs" "f \<in> set (tx_fields spec_geth tx)"
  ultimately show ?thesis
    by (auto simp: sample_txs_def tx_fields_def spec_geth_def split: if_splits intro: order.trans [where b = 8])
qed

lemma sample_encodes:
  "\<exists>data. EncodeTransactions spec_geth sample_txs [200, 255] 5 = Some (Inr data) \<and> length data < 100000"
proof -
  obtain t1 t2 where t: "sample_txs = [t1, t2]" by (simp add: sample_txs_def)
  have e: "encodable t1" "encodable t2" using sample_encodable by (simp_all add: t)
  have coded: "\<exists>coded. rlp_encode (tx_fields spec_geth tx) = Inr coded \<and> length coded < 10000" if tx: "tx \<in> set sample_txs" for tx
  proof -
    define payload where "payload = concat (map (\<lambda>f. rlp_item (field_bytes f)) (tx_fields spec_geth tx))"
    have "length (tx_fields spec_geth tx) \<le> 9" by (simp add: tx_fields_def)
    then have l: "length payload \<le> 9081"
      using payload_length [of "tx_fields spec_geth tx"] sample_fields [OF tx] unfolding payload_def by fastforce
    then have "length (be_bytes (length payload)) \<le> 8" using length_be_bytes [of "length payload" 8] by simp
    then have "length (rlp_list_header (length payload) @ payload) < 10000" using l by (simp add: rlp_list_header_def)
    moreover have "rlp_encode (tx_fields spec_geth tx) = Inr (rlp_list_header (length payload) @ payload)"
      using l sample_fields [OF tx] by (auto simp: rlp_encode_def payload_def list_ex_iff)
    ultimately show ?thesis by blast
  qed
  have m: "t1 \<in> set sample_txs" "t2 \<in> set sample_txs" by (simp_all add: t)
  obtain c1 where c1: "rlp_encode (tx_fields spec_geth t1) = Inr c1" "length c1 < 10000" using coded [OF m(1)] by blast
  obtain c2 where c2: "rlp_encode (tx_fields spec_geth t2) = Inr c2" "length c2 < 10000" using coded [OF m(2)] by blast
  have "rlp_EncodeToBytes spec_geth = rlp_encode" by (simp add: spec_geth_def)
  then show ?thesis
    using c1 c2 percentage_bytes [of 200] percentage_bytes [of 255]
    by (simp add: EncodeTransactions_def t prepare_eq [OF e(1)] prepare_eq [OF e(2)] DRAGONFRUIT_FORKID_def)
qed

theorem DecodeTxs_total_witness:
  "\<exists>txs pcts err. DecodeTxs spec_geth [0xc0, 1, 2] 5 = Some (txs, [0xc0, 1, 2], pcts, err)"
  using DecodeTxs_total [of "[0xc0, 1, 2]" spec_geth 5] by auto

theorem batch_round_trip_witness:
  "\<exists>data. EncodeTransactions spec_geth sample_txs [200, 255] 5 = Some (Inr data) \<and>
    DecodeTxs spec_geth data 5 = Some (sample_txs, data, [200, 255], None)"
proof -
  obtain data where d: "EncodeTransactions spec_geth sample_txs [200, 255] 5 = Some (Inr data)" "length data < 100000"
    using sample_encodes by blast
  have "DecodeTxs spec_geth data 5 = Some (sample_txs, data,
      if 5 \<ge> DRAGONFRUIT_FORKID then take (length sample_txs) [200, 255] else [], None)"
    by (rule batch_round_trip [OF spec.geth_laws_axioms sample_encodable d(1)]) (use d(2) in simp)
  with d(1) show ?thesis by (simp add: DRAGONFRUIT_FORKID_def sample_txs_def)
qed

theorem truncated_header_is_no_error_witness:
  "\<exists>data. EncodeTransactions spec_geth sample_txs [200, 255] 5 = Some (Inr data) \<and>
    DecodeTxs spec_geth (data @ [0xf8]) 5 = Some ([], data @ [0xf8], [], None)"
proof -
  obtain data where d: "EncodeTransactions spec_geth sample_txs [200, 255] 5 = Some (Inr data)" "length data < 100000"
    using sample_encodes by blast
  then show ?thesis using truncated_header_is_no_error [OF spec.geth_laws_axioms sample_encodable d(1)] by auto
qed

end
