(* ===== verification/DataStream.thy ===== *)
theory DataStream
  imports BatchCodec
begin

text \<open>
  The data stream of the sequencer (\<open>state/datastream.go\<close>): the entries, their binary encoding, the
  grouping of blocks and transactions into batches, and the generation of the stream. The stream
  server is a library: its calls are the record \<open>stream_ops\<close>, the locale \<open>stream_server\<close> states what
  they do to the contents. A Go panic is \<open>None\<close>; slices have no spare capacity.
\<close>

section \<open>Bytes\<close>

fun le_bytes :: "nat \<Rightarrow> nat \<Rightarrow> bytes" where
  "le_bytes 0 n = []"
| "le_bytes (Suc k) n = of_nat (n mod 256) # le_bytes k (n div 256)"

fun le_value :: "bytes \<Rightarrow> nat" where
  "le_value [] = 0"
| "le_value (b # bs) = unat b + 256 * le_value bs"

text \<open>\<open>binary.LittleEndian\<close>: \<open>Uint16\<close>, \<open>Uint32\<close> and \<open>Uint64\<close> read the first bytes.\<close>

definition AppendUint :: "bytes \<Rightarrow> 'a::len word \<Rightarrow> bytes" where
  "AppendUint bs v = bs @ le_bytes (LENGTH('a) div 8) (unat v)"

definition LittleEndianUint :: "bytes \<Rightarrow> 'a::len word option" where
  "LittleEndianUint bs =
     (if LENGTH('a) div 8 \<le> length bs then Some (of_nat (le_value (take (LENGTH('a) div 8) bs))) else None)"

text \<open>\<open>common.Hash\<close> and \<open>common.Address\<close> are arrays of bytes, big-endian.\<close>

definition word_Bytes :: "'a::len word \<Rightarrow> bytes" where
  "word_Bytes w = be_fixed (LENGTH('a) div 8) (unat w)"

definition BytesToWord :: "bytes \<Rightarrow> 'a::len word" where
  "BytesToWord bs = of_nat (big_SetBytes bs)"

definition slice :: "'a list \<Rightarrow> nat \<Rightarrow> nat \<Rightarrow> 'a list option" where
  "slice xs lo hi = (if lo \<le> hi \<and> hi \<le> length xs then Some (take (hi - lo) (drop lo xs)) else None)"

section \<open>Entries\<close>

text \<open>The type of an entry is an unsigned integer of the library.\<close>

type_synonym entry_type = nat

definition EntryTypeL2BlockStart :: entry_type where "EntryTypeL2BlockStart = 1"
definition EntryTypeL2Tx :: entry_type where "EntryTypeL2Tx = 2"
definition EntryTypeL2BlockEnd :: entry_type where "EntryTypeL2BlockEnd = 3"
definition EntryTypeUpdateGER :: entry_type where "EntryTypeUpdateGER = 4"
definition BookMarkTypeL2Block :: u8 where "BookMarkTypeL2Block = 0"

record Batch =
  ba_BatchNumber :: u64
  ba_Coinbase :: address
  ba_BatchL2Data :: bytes
  ba_StateRoot :: hash
  ba_LocalExitRoot :: hash
  ba_AccInputHash :: hash
  ba_Timestamp :: int
  ba_Transactions :: "LegacyTx list"
  ba_GlobalExitRoot :: hash
  ba_ForcedBatchNum :: "u64 option"

record DSBatch = Batch +
  dsb_ForkID :: "16 word"

record DSL2Block =
  lb_BatchNumber :: u64
  lb_L2BlockNumber :: u64
  lb_Timestamp :: int
  lb_GlobalExitRoot :: hash
  lb_Coinbase :: address
  lb_ForkID :: "16 word"
  lb_BlockHash :: hash
  lb_StateRoot :: hash

record DSL2BlockStart =
  bs_BatchNumber :: u64
  bs_L2BlockNumber :: u64
  bs_Timestamp :: int
  bs_GlobalExitRoot :: hash
  bs_Coinbase :: address
  bs_ForkID :: "16 word"

record DSL2Transaction =
  dt_L2BlockNumber :: u64
  EffectiveGasPricePercentage :: u8
  IsValid :: u8
  EncodedLength :: u32
  Encoded :: bytes

record DSL2BlockEnd =
  be_L2BlockNumber :: u64
  be_BlockHash :: hash
  be_StateRoot :: hash

record DSBookMark =
  bm_Type :: u8
  bm_L2BlockNumber :: u64

record DSUpdateGER =
  ug_BatchNumber :: u64
  ug_Timestamp :: int
  ug_GlobalExitRoot :: hash
  ug_Coinbase :: address
  ug_ForkID :: "16 word"
  ug_StateRoot :: hash

record DSL2FullBlock = DSL2Block +
  fb_Txs :: "DSL2Transaction list"

record DSFullBatch = DSBatch +
  L2Blocks :: "DSL2FullBlock list"

text \<open>\<open>uint64(t)\<close> and \<open>int64(w)\<close> keep the bits.\<close>

definition to_uint64 :: "int \<Rightarrow> u64" where "to_uint64 t = of_int t"

definition BlockStart_Encode :: "DSL2BlockStart \<Rightarrow> bytes" where
  "BlockStart_Encode b =
     (let bs = AppendUint [] (bs_BatchNumber b);
          bs = AppendUint bs (bs_L2BlockNumber b);
          bs = AppendUint bs (to_uint64 (bs_Timestamp b));
          bs = bs @ word_Bytes (bs_GlobalExitRoot b);
          bs = bs @ word_Bytes (bs_Coinbase b)
      in AppendUint bs (bs_ForkID b))"

definition BlockStart_Decode :: "bytes \<Rightarrow> DSL2BlockStart option" where
  "BlockStart_Decode data = do {
     batchNumber \<leftarrow> Option.bind (slice data 0 8) LittleEndianUint;
     blockNumber \<leftarrow> Option.bind (slice data 8 16) LittleEndianUint;
     timestamp \<leftarrow> Option.bind (slice data 16 24) LittleEndianUint;
     ger \<leftarrow> slice data 24 56;
     coinb \<leftarrow> slice data 56 76;
     forkID \<leftarrow> Option.bind (slice data 76 78) LittleEndianUint;
     Some \<lparr>bs_BatchNumber = batchNumber, bs_L2BlockNumber = blockNumber, bs_Timestamp = sint (timestamp :: u64),
       bs_GlobalExitRoot = BytesToWord ger, bs_Coinbase = BytesToWord coinb, bs_ForkID = forkID\<rparr>
   }"

definition Transaction_Encode :: "DSL2Transaction \<Rightarrow> bytes" where
  "Transaction_Encode l = AppendUint ([EffectiveGasPricePercentage l] @ [IsValid l]) (EncodedLength l) @ Encoded l"

text \<open>The receiver is a value: the block number, which is not encoded, stays what it was.\<close>

definition Transaction_Decode :: "DSL2Transaction \<Rightarrow> bytes \<Rightarrow> DSL2Transaction option" where
  "Transaction_Decode l data = do {
     percentage \<leftarrow> map_option hd (slice data 0 1);
     valid \<leftarrow> map_option hd (slice data 1 2);
     len \<leftarrow> Option.bind (slice data 2 6) LittleEndianUint;
     encoded \<leftarrow> slice data 6 (length data);
     Some (l\<lparr>EffectiveGasPricePercentage := percentage, IsValid := valid, EncodedLength := len, Encoded := encoded\<rparr>)
   }"

definition BlockEnd_Encode :: "DSL2BlockEnd \<Rightarrow> bytes" where
  "BlockEnd_Encode b = AppendUint [] (be_L2BlockNumber b) @ word_Bytes (be_BlockHash b) @ word_Bytes (be_StateRoot b)"

definition BlockEnd_Decode :: "bytes \<Rightarrow> DSL2BlockEnd option" where
  "BlockEnd_Decode data = do {
     blockNumber \<leftarrow> Option.bind (slice data 0 8) LittleEndianUint;
     blockHash \<leftarrow> slice data 8 40;
     root \<leftarrow> slice data 40 72;
     Some \<lparr>be_L2BlockNumber = blockNumber, be_BlockHash = BytesToWord blockHash, be_StateRoot = BytesToWord root\<rparr>
   }"

definition BookMark_Encode :: "DSBookMark \<Rightarrow> bytes" where
  "BookMark_Encode b = AppendUint [bm_Type b] (bm_L2BlockNumber b)"

definition BookMark_Decode :: "bytes \<Rightarrow> DSBookMark option" where
  "BookMark_Decode data = do {
     type \<leftarrow> map_option hd (slice data 0 1);
     blockNumber \<leftarrow> Option.bind (slice data 1 9) LittleEndianUint;
     Some \<lparr>bm_Type = type, bm_L2BlockNumber = blockNumber\<rparr>
   }"

definition UpdateGER_Encode :: "DSUpdateGER \<Rightarrow> bytes" where
  "UpdateGER_Encode g =
     (let bs = AppendUint [] (ug_BatchNumber g);
          bs = AppendUint bs (to_uint64 (ug_Timestamp g));
          bs = bs @ word_Bytes (ug_GlobalExitRoot g);
          bs = bs @ word_Bytes (ug_Coinbase g);
          bs = AppendUint bs (ug_ForkID g)
      in bs @ word_Bytes (ug_StateRoot g))"

definition UpdateGER_Decode :: "bytes \<Rightarrow> DSUpdateGER option" where
  "UpdateGER_Decode data = do {
     batchNumber \<leftarrow> Option.bind (slice data 0 8) LittleEndianUint;
     timestamp \<leftarrow> Option.bind (slice data 8 16) LittleEndianUint;
     ger \<leftarrow> slice data 16 48;
     coinb \<leftarrow> slice data 48 68;
     forkID \<leftarrow> Option.bind (slice data 68 70) LittleEndianUint;
     root \<leftarrow> slice data 70 102;
     Some \<lparr>ug_BatchNumber = batchNumber, ug_Timestamp = sint (timestamp :: u64), ug_GlobalExitRoot = BytesToWord ger,
       ug_Coinbase = BytesToWord coinb, ug_ForkID = forkID, ug_StateRoot = BytesToWord root\<rparr>
   }"

section \<open>Batches with their blocks and transactions\<close>

text \<open>
  The inner loops of \<open>computeFullBatches\<close>, over the part of the list from the current index on; they
  return what they take and how far the index moves.
\<close>

fun take_txs :: "u64 \<Rightarrow> DSL2Transaction list \<Rightarrow> DSL2Transaction list \<times> nat" where
  "take_txs blockNumber [] = ([], 0)"
| "take_txs blockNumber (l2Tx # l2Txs) =
     (let (taken, n) = (if dt_L2BlockNumber l2Tx = blockNumber then ([l2Tx], 1) else ([], 0)) in
      if dt_L2BlockNumber l2Tx > blockNumber then (taken, n)
      else (let (more, m) = take_txs blockNumber l2Txs in (taken @ more, n + m)))"

definition full_block :: "DSL2Block \<Rightarrow> DSL2Transaction list \<Rightarrow> DSL2FullBlock" where
  "full_block b txs = DSL2Block.extend b (DSL2FullBlock.fields txs)"

fun take_blocks ::
    "u64 \<Rightarrow> DSL2Transaction list \<Rightarrow> nat \<Rightarrow> DSL2Block list \<Rightarrow> DSL2FullBlock list \<times> nat \<times> nat" where
  "take_blocks batchNumber l2Txs currentL2Tx [] = ([], 0, currentL2Tx)"
| "take_blocks batchNumber l2Txs currentL2Tx (l2Block # l2Blocks) =
     (let (taken, n, cur) =
            (if lb_BatchNumber l2Block = batchNumber
             then (let (txs, k) = take_txs (lb_L2BlockNumber l2Block) (drop currentL2Tx l2Txs)
                   in ([full_block l2Block txs], 1, currentL2Tx + k))
             else ([], 0, currentL2Tx))
      in if lb_BatchNumber l2Block > batchNumber then (taken, n, cur)
         else (let (more, m, cur') = take_blocks batchNumber l2Txs cur l2Blocks in (taken @ more, n + m, cur')))"

definition full_batch :: "DSBatch \<Rightarrow> DSL2FullBlock list \<Rightarrow> DSFullBatch" where
  "full_batch b blocks = DSBatch.extend b (DSFullBatch.fields blocks)"

fun full_batches_loop ::
    "DSL2Block list \<Rightarrow> DSL2Transaction list \<Rightarrow> nat \<Rightarrow> nat \<Rightarrow> DSBatch list \<Rightarrow> DSFullBatch list" where
  "full_batches_loop l2Blocks l2Txs currentL2Block currentL2Tx [] = []"
| "full_batches_loop l2Blocks l2Txs currentL2Block currentL2Tx (batch # batches) =
     (let (blocks, n, cur) = take_blocks (ba_BatchNumber batch) l2Txs currentL2Tx (drop currentL2Block l2Blocks)
      in full_batch batch blocks # full_batches_loop l2Blocks l2Txs (currentL2Block + n) cur batches)"

definition computeFullBatches :: "DSBatch list \<Rightarrow> DSL2Block list \<Rightarrow> DSL2Transaction list \<Rightarrow> DSFullBatch list" where
  "computeFullBatches batches l2Blocks l2Txs = full_batches_loop l2Blocks l2Txs 0 0 batches"

section \<open>Generating the stream\<close>

text \<open>The calls of the stream server, on a state of its own.\<close>

record 's stream_ops =
  StartAtomicOp :: "'s \<Rightarrow> go_error + 's"
  AddStreamBookmark :: "bytes \<Rightarrow> 's \<Rightarrow> go_error + 's"
  AddStreamEntry :: "entry_type \<Rightarrow> bytes \<Rightarrow> 's \<Rightarrow> go_error + 's"
  CommitAtomicOp :: "'s \<Rightarrow> go_error + 's"
  TotalEntries :: "'s \<Rightarrow> u64"
  GetEntry :: "u64 \<Rightarrow> 's \<Rightarrow> go_error + entry_type \<times> bytes"
  GetFirstEventAfterBookmark :: "bytes \<Rightarrow> 's \<Rightarrow> go_error + bytes"

datatype ds_error = StreamError go_error | DBErr go_error | ErrStateNotSynchronized

text \<open>What the generator asks of the state; the storage behind it is in the theory of the queries.\<close>

record DSState =
  GetDSGenesisBlock :: "ds_error + DSL2Block"
  GetDSBatches :: "u64 \<Rightarrow> u64 \<Rightarrow> ds_error + DSBatch list"
  GetDSL2Blocks :: "u64 \<Rightarrow> u64 \<Rightarrow> ds_error + DSL2Block list"
  GetDSL2Transactions :: "u64 \<Rightarrow> u64 \<Rightarrow> ds_error + DSL2Transaction list"

definition try_op :: "go_error + 'a \<Rightarrow> ('a \<Rightarrow> ds_error + 'b) \<Rightarrow> ds_error + 'b" where
  "try_op r k = (case r of Inl e \<Rightarrow> Inl (StreamError e) | Inr a \<Rightarrow> k a)"

definition block_start_of :: "'a DSL2Block_scheme \<Rightarrow> DSL2BlockStart" where
  "block_start_of b = \<lparr>bs_BatchNumber = lb_BatchNumber b, bs_L2BlockNumber = lb_L2BlockNumber b, bs_Timestamp = lb_Timestamp b,
     bs_GlobalExitRoot = lb_GlobalExitRoot b, bs_Coinbase = lb_Coinbase b, bs_ForkID = lb_ForkID b\<rparr>"

definition block_end_of :: "'a DSL2Block_scheme \<Rightarrow> DSL2BlockEnd" where
  "block_end_of b = \<lparr>be_L2BlockNumber = lb_L2BlockNumber b, be_BlockHash = lb_BlockHash b, be_StateRoot = lb_StateRoot b\<rparr>"

definition bookmark_of :: "u64 \<Rightarrow> DSBookMark" where
  "bookmark_of n = \<lparr>bm_Type = BookMarkTypeL2Block, bm_L2BlockNumber = n\<rparr>"

definition write_genesis :: "'s stream_ops \<Rightarrow> DSL2Block \<Rightarrow> 's \<Rightarrow> ds_error + 's" where
  "write_genesis ops genesis s =
     try_op (StartAtomicOp ops s) (\<lambda>s.
     try_op (AddStreamBookmark ops (BookMark_Encode (bookmark_of (lb_L2BlockNumber genesis))) s) (\<lambda>s.
     try_op (AddStreamEntry ops 1 (BlockStart_Encode (block_start_of genesis)) s) (\<lambda>s.
     try_op (AddStreamEntry ops EntryTypeL2BlockEnd (BlockEnd_Encode (block_end_of genesis)) s) (\<lambda>s.
     try_op (CommitAtomicOp ops s) Inr))))"

text \<open>Where a stream that has entries is resumed: the batch of its last entry. A panic is \<open>None\<close>.\<close>

definition resume_batch :: "'s stream_ops \<Rightarrow> 's \<Rightarrow> (ds_error + u64) option" where
  "resume_batch ops s =
     (case GetEntry ops (TotalEntries ops s - 1) s of
        Inl e \<Rightarrow> Some (Inl (StreamError e))
      | Inr (type, data) \<Rightarrow>
          if type = EntryTypeUpdateGER then map_option Inr (Option.bind (slice data 0 8) LittleEndianUint)
          else if type = EntryTypeL2BlockEnd then
            Option.bind (Option.bind (slice data 0 8) LittleEndianUint) (\<lambda>block.
              case GetFirstEventAfterBookmark ops (BookMark_Encode (bookmark_of block)) s of
                Inl e \<Rightarrow> Some (Inl (StreamError e))
              | Inr firstData \<Rightarrow> map_option Inr (Option.bind (slice firstData 0 8) LittleEndianUint))
          else Some (Inr 0))"

fun write_txs :: "'s stream_ops \<Rightarrow> DSL2Transaction list \<Rightarrow> 's \<Rightarrow> ds_error + 's" where
  "write_txs ops [] s = Inr s"
| "write_txs ops (tx # txs) s = try_op (AddStreamEntry ops EntryTypeL2Tx (Transaction_Encode tx) s) (write_txs ops txs)"

fun write_blocks :: "'s stream_ops \<Rightarrow> DSL2FullBlock list \<Rightarrow> hash \<Rightarrow> 's \<Rightarrow> ds_error + hash \<times> 's" where
  "write_blocks ops [] currentGER s = Inr (currentGER, s)"
| "write_blocks ops (b # bs) currentGER s =
     try_op (AddStreamBookmark ops (BookMark_Encode (bookmark_of (lb_L2BlockNumber b))) s) (\<lambda>s.
     try_op (AddStreamEntry ops EntryTypeL2BlockStart (BlockStart_Encode (block_start_of b)) s) (\<lambda>s.
     case write_txs ops (fb_Txs b) s of
       Inl e \<Rightarrow> Inl e
     | Inr s \<Rightarrow>
         try_op (AddStreamEntry ops EntryTypeL2BlockEnd (BlockEnd_Encode (block_end_of b)) s) (\<lambda>s.
         write_blocks ops bs (lb_GlobalExitRoot b) s)))"

definition update_ger_of :: "'a DSBatch_scheme \<Rightarrow> DSUpdateGER" where
  "update_ger_of b = \<lparr>ug_BatchNumber = ba_BatchNumber b, ug_Timestamp = ba_Timestamp b div 10 ^ 9,
     ug_GlobalExitRoot = ba_GlobalExitRoot b, ug_Coinbase = ba_Coinbase b, ug_ForkID = dsb_ForkID b, ug_StateRoot = ba_StateRoot b\<rparr>"

fun write_batches :: "'s stream_ops \<Rightarrow> DSFullBatch list \<Rightarrow> hash \<Rightarrow> 's \<Rightarrow> ds_error + hash \<times> 's" where
  "write_batches ops [] currentGER s = Inr (currentGER, s)"
| "write_batches ops (b # bs) currentGER s =
     (if L2Blocks b = [] then
        (if ba_GlobalExitRoot b \<noteq> currentGER \<and> ba_GlobalExitRoot b \<noteq> 0 then
           try_op (StartAtomicOp ops s) (\<lambda>s.
           try_op (AddStreamEntry ops EntryTypeUpdateGER (UpdateGER_Encode (update_ger_of b)) s) (\<lambda>s.
           try_op (CommitAtomicOp ops s) (\<lambda>s.
           write_batches ops bs (ba_GlobalExitRoot b) s)))
         else write_batches ops bs currentGER s)
      else
        try_op (StartAtomicOp ops s) (\<lambda>s.
        case write_blocks ops (L2Blocks b) currentGER s of
          Inl e \<Rightarrow> Inl e
        | Inr (ger, s) \<Rightarrow>
            try_op (CommitAtomicOp ops s) (\<lambda>s.
            write_batches ops bs ger s)))"

definition limit :: u64 where "limit = 10000"

text \<open>
  One round of the loop: \<open>Inr None\<close> when there is nothing more, otherwise the batches that were
  fetched, with what is carried to the next round.
\<close>

definition generate_round ::
    "'s stream_ops \<Rightarrow> DSState \<Rightarrow> u64 \<Rightarrow> hash \<Rightarrow> 's \<Rightarrow> ds_error + (DSBatch list \<times> hash \<times> 's) option" where
  "generate_round ops db currentBatchNumber currentGER s =
     (case GetDSBatches db currentBatchNumber (currentBatchNumber + limit) of
        Inl e \<Rightarrow> if e = ErrStateNotSynchronized then Inr None else Inl e
      | Inr batches \<Rightarrow>
          if batches = [] then Inr None
          else
            (case GetDSL2Blocks db (ba_BatchNumber (hd batches)) (ba_BatchNumber (last batches)) of
               Inl e \<Rightarrow> Inl e
             | Inr l2Blocks \<Rightarrow>
                 (case (if l2Blocks \<noteq> []
                        then GetDSL2Transactions db (lb_L2BlockNumber (hd l2Blocks)) (lb_L2BlockNumber (last l2Blocks))
                        else Inr []) of
                    Inl e \<Rightarrow> Inl e
                  | Inr l2Txs \<Rightarrow>
                      (case write_batches ops (computeFullBatches batches l2Blocks l2Txs) currentGER s of
                         Inl e \<Rightarrow> Inl e
                       | Inr (ger, s1) \<Rightarrow> Inr (Some (batches, ger, s1))))))"

partial_function (option) generate_loop ::
    "'s stream_ops \<Rightarrow> DSState \<Rightarrow> u64 \<Rightarrow> hash \<Rightarrow> 's \<Rightarrow> (ds_error + DSBatch list list \<times> 's) option" where
  "generate_loop ops db currentBatchNumber currentGER s =
     (case generate_round ops db currentBatchNumber currentGER s of
        Inl e \<Rightarrow> Some (Inl e)
      | Inr None \<Rightarrow> Some (Inr ([], s))
      | Inr (Some (batches, ger, s1)) \<Rightarrow>
          Option.bind (generate_loop ops db (currentBatchNumber + limit) ger s1) (\<lambda>r.
            Some (map_sum id (\<lambda>(rounds, s2). (batches # rounds, s2)) r)))"

definition GenerateDataStreamerFile :: "'s stream_ops \<Rightarrow> DSState \<Rightarrow> 's \<Rightarrow> (ds_error + DSBatch list list \<times> 's) option" where
  "GenerateDataStreamerFile ops db s =
     (if TotalEntries ops s = 0 then
        (case GetDSGenesisBlock db of
           Inl e \<Rightarrow> Some (Inl e)
         | Inr genesis \<Rightarrow>
             (case write_genesis ops genesis s of
                Inl e \<Rightarrow> Some (Inl e)
              | Inr s1 \<Rightarrow> generate_loop ops db 1 0 s1))
      else
        Option.bind (resume_batch ops s) (\<lambda>r.
          case r of
            Inl e \<Rightarrow> Some (Inl e)
          | Inr currentBatchNumber \<Rightarrow> generate_loop ops db (currentBatchNumber + 1) 0 s))"

section \<open>The codecs\<close>

lemma length_le_bytes [simp]: "length (le_bytes k n) = k"
  by (induction k arbitrary: n) auto

lemma le_value_bytes: "n < 256 ^ k \<Longrightarrow> le_value (le_bytes k n) = n"
proof (induction k arbitrary: n)
  case (Suc k)
  then have "n div 256 < 256 ^ k" by (simp add: div_less_iff_less_mult mult.commute)
  with Suc show ?case by (simp add: unat_of_nat take_bit_eq_mod)
qed simp

lemma LittleEndian_bytes:
  fixes v :: "'a::len word"
  assumes "LENGTH('a) mod 8 = 0"
  shows "LittleEndianUint (le_bytes (LENGTH('a) div 8) (unat v)) = Some v"
proof -
  have e: "LENGTH('a) = 8 * (LENGTH('a) div 8)" using assms by presburger
  have "unat v < 2 ^ LENGTH('a)" by (rule unsigned_less)
  also have "(2 :: nat) ^ LENGTH('a) = 256 ^ (LENGTH('a) div 8)" by (subst e) (simp only: power_mult, simp)
  finally show ?thesis by (simp add: LittleEndianUint_def le_value_bytes)
qed

lemma BytesToWord_Bytes:
  fixes v :: "'a::len word"
  assumes "LENGTH('a) mod 8 = 0"
  shows "BytesToWord (word_Bytes v) = v"
proof -
  have e: "LENGTH('a) = 8 * (LENGTH('a) div 8)" using assms by presburger
  have "unat v < 2 ^ LENGTH('a)" by (rule unsigned_less)
  also have "(2 :: nat) ^ LENGTH('a) = 256 ^ (LENGTH('a) div 8)" by (subst e) (simp only: power_mult, simp)
  finally show ?thesis by (simp add: BytesToWord_def word_Bytes_def SetBytes_be_fixed)
qed

named_theorems codec "reading back what has been written"

lemma read_words [codec]:
  "LittleEndianUint (le_bytes 8 (unat (v64 :: u64))) = Some v64"
  "LittleEndianUint (le_bytes 4 (unat (v32 :: u32))) = Some v32"
  "LittleEndianUint (le_bytes 2 (unat (v16 :: 16 word))) = Some v16"
  "BytesToWord (word_Bytes (h :: hash)) = h" "BytesToWord (word_Bytes (a :: address)) = a"
  using LittleEndian_bytes [of v64] LittleEndian_bytes [of v32] LittleEndian_bytes [of v16]
    BytesToWord_Bytes [of h] BytesToWord_Bytes [of a] by simp_all

lemma word_Bytes_length [codec]: "length (word_Bytes (h :: hash)) = 32" "length (word_Bytes (a :: address)) = 20"
  by (simp_all add: word_Bytes_def)

lemma AppendUint_bytes [codec]:
  "AppendUint bs (v64 :: u64) = bs @ le_bytes 8 (unat v64)" "AppendUint bs (v32 :: u32) = bs @ le_bytes 4 (unat v32)"
  "AppendUint bs (v16 :: 16 word) = bs @ le_bytes 2 (unat v16)"
  by (simp_all add: AppendUint_def)

lemma slice_at [codec]:
  "length xs = lo \<Longrightarrow> length ys = hi - lo \<Longrightarrow> lo \<le> hi \<Longrightarrow> slice (xs @ ys @ zs) lo hi = Some ys"
  by (simp add: slice_def)

lemma to_uint64_sint [codec]: "- (2 ^ 63) \<le> t \<Longrightarrow> t < 2 ^ 63 \<Longrightarrow> sint (to_uint64 t) = t"
  by (simp add: to_uint64_def signed_of_int signed_take_bit_int_eq_self)

lemma BlockStart_round_trip:
  assumes "- (2 ^ 63) \<le> bs_Timestamp b" "bs_Timestamp b < 2 ^ 63"
  shows "BlockStart_Decode (BlockStart_Encode b) = Some b"
proof -
  have e: "BlockStart_Encode b = le_bytes 8 (unat (bs_BatchNumber b)) @ le_bytes 8 (unat (bs_L2BlockNumber b)) @
      le_bytes 8 (unat (to_uint64 (bs_Timestamp b))) @ word_Bytes (bs_GlobalExitRoot b) @ word_Bytes (bs_Coinbase b) @
      le_bytes 2 (unat (bs_ForkID b))"
    by (simp add: BlockStart_Encode_def codec)
  show ?thesis unfolding e BlockStart_Decode_def
    by (simp add: slice_def codec) (use assms in \<open>simp add: to_uint64_sint\<close>)
qed

lemma UpdateGER_round_trip:
  assumes "- (2 ^ 63) \<le> ug_Timestamp g" "ug_Timestamp g < 2 ^ 63"
  shows "UpdateGER_Decode (UpdateGER_Encode g) = Some g"
proof -
  have e: "UpdateGER_Encode g = le_bytes 8 (unat (ug_BatchNumber g)) @ le_bytes 8 (unat (to_uint64 (ug_Timestamp g))) @
      word_Bytes (ug_GlobalExitRoot g) @ word_Bytes (ug_Coinbase g) @ le_bytes 2 (unat (ug_ForkID g)) @ word_Bytes (ug_StateRoot g)"
    by (simp add: UpdateGER_Encode_def codec)
  show ?thesis unfolding e UpdateGER_Decode_def
    by (simp add: slice_def codec) (use assms in \<open>simp add: to_uint64_sint\<close>)
qed

lemma BlockEnd_round_trip: "BlockEnd_Decode (BlockEnd_Encode b) = Some b"
  by (simp add: BlockEnd_Encode_def BlockEnd_Decode_def slice_def codec)

lemma BookMark_round_trip: "BookMark_Decode (BookMark_Encode b) = Some b"
  by (simp add: BookMark_Encode_def BookMark_Decode_def slice_def codec)

lemma Transaction_round_trip: "Transaction_Decode (l\<lparr>dt_L2BlockNumber := dt_L2BlockNumber t\<rparr>) (Transaction_Encode t) = Some t"
  by (simp add: Transaction_Encode_def Transaction_Decode_def slice_def codec)

section \<open>The grouping into batches\<close>

text \<open>How many of a sorted list are below a key: the indices of the code stay below it.\<close>

definition count_below :: "('a \<Rightarrow> 'k::linorder) \<Rightarrow> 'a list \<Rightarrow> 'k \<Rightarrow> nat" where
  "count_below f xs m = length (filter (\<lambda>x. f x < m) xs)"

lemma take_below:
  "sorted (map f xs) \<Longrightarrow> k \<le> count_below f xs m \<Longrightarrow> x \<in> set (take k xs) \<Longrightarrow> f x < m"
proof (induction xs arbitrary: k)
  case (Cons y ys)
  show ?case
  proof (cases "f y < m")
    case True
    with Cons show ?thesis by (cases k) (auto simp: count_below_def)
  next
    case False
    then have "\<forall>z \<in> set ys. \<not> f z < m" using Cons.prems(1) by (auto simp: not_less intro: order.trans)
    then have "count_below f (y # ys) m = 0" using False by (simp add: count_below_def filter_empty_conv)
    with Cons.prems show ?thesis by simp
  qed
qed simp

lemma filter_from:
  assumes "sorted (map f xs)" "k \<le> count_below f xs m"
  shows "filter (\<lambda>x. f x = m) (drop k xs) = filter (\<lambda>x. f x = m) xs"
proof -
  have "filter (\<lambda>x. f x = m) (take k xs) = []" using take_below [OF assms] by (auto simp: filter_empty_conv)
  then show ?thesis by (metis append_Nil append_take_drop_id filter_append)
qed

lemma count_below_step: "m < m' \<Longrightarrow> count_below f xs m + length (filter (\<lambda>x. f x = m) xs) \<le> count_below f xs m'"
  by (induction xs) (auto simp: count_below_def)

lemma filter_beyond: "sorted (map f (x # xs)) \<Longrightarrow> m < f x \<Longrightarrow> filter (\<lambda>x. f x = m) xs = []"
  by (auto simp: filter_empty_conv)

lemma take_txs_filter:
  "sorted (map dt_L2BlockNumber txs) \<Longrightarrow>
     take_txs m txs = (filter (\<lambda>t. dt_L2BlockNumber t = m) txs, length (filter (\<lambda>t. dt_L2BlockNumber t = m) txs))"
  by (induction txs) (auto simp: Let_def filter_beyond)

abbreviation with_txs :: "DSL2Transaction list \<Rightarrow> DSL2Block \<Rightarrow> DSL2FullBlock" where
  "with_txs txs b \<equiv> full_block b (filter (\<lambda>t. dt_L2BlockNumber t = lb_L2BlockNumber b) txs)"

abbreviation in_block_order :: "DSL2Block list \<Rightarrow> bool" where
  "in_block_order \<equiv> sorted_wrt (\<lambda>b b'. lb_BatchNumber b \<le> lb_BatchNumber b' \<and> lb_L2BlockNumber b < lb_L2BlockNumber b')"

lemma in_block_order_sorted: "in_block_order bs \<Longrightarrow> sorted (map lb_BatchNumber bs)"
  by (induction bs) auto

lemma in_block_order_less:
  "in_block_order bs \<Longrightarrow> b \<in> set bs \<Longrightarrow> b' \<in> set bs \<Longrightarrow> lb_BatchNumber b < lb_BatchNumber b' \<Longrightarrow>
     lb_L2BlockNumber b < lb_L2BlockNumber b'"
  by (induction bs) auto

lemma take_blocks_filter:
  assumes "sorted (map dt_L2BlockNumber txs)" "in_block_order bs"
    and "\<And>b. b \<in> set bs \<Longrightarrow> lb_BatchNumber b = n \<Longrightarrow> cur \<le> count_below dt_L2BlockNumber txs (lb_L2BlockNumber b)"
  shows "\<exists>cur'. take_blocks n txs cur bs =
      (map (with_txs txs) (filter (\<lambda>b. lb_BatchNumber b = n) bs), length (filter (\<lambda>b. lb_BatchNumber b = n) bs), cur') \<and>
    (\<forall>m. cur \<le> count_below dt_L2BlockNumber txs m \<longrightarrow>
      (\<forall>b \<in> set bs. lb_BatchNumber b = n \<longrightarrow> lb_L2BlockNumber b < m) \<longrightarrow> cur' \<le> count_below dt_L2BlockNumber txs m)"
  using assms(2,3)
proof (induction bs arbitrary: cur)
  case (Cons b bs)
  show ?case
  proof (cases "lb_BatchNumber b = n")
    case False
    have f: "n < lb_BatchNumber b \<Longrightarrow> filter (\<lambda>b. lb_BatchNumber b = n) bs = []"
      using filter_beyond [of lb_BatchNumber b bs n] in_block_order_sorted [OF Cons.prems(1)] by simp
    obtain cur' where "take_blocks n txs cur bs =
        (map (with_txs txs) (filter (\<lambda>b. lb_BatchNumber b = n) bs), length (filter (\<lambda>b. lb_BatchNumber b = n) bs), cur')"
        "\<forall>m. cur \<le> count_below dt_L2BlockNumber txs m \<longrightarrow>
          (\<forall>b \<in> set bs. lb_BatchNumber b = n \<longrightarrow> lb_L2BlockNumber b < m) \<longrightarrow> cur' \<le> count_below dt_L2BlockNumber txs m"
      using Cons.IH [of cur] Cons.prems by auto
    then show ?thesis using False f by (cases "n < lb_BatchNumber b") auto
  next
    case True
    let ?m = "lb_L2BlockNumber b" and ?k = "length (filter (\<lambda>t. dt_L2BlockNumber t = lb_L2BlockNumber b) txs)"
    have c: "cur \<le> count_below dt_L2BlockNumber txs ?m" using Cons.prems(2) True by simp
    have t: "take_txs ?m (drop cur txs) = (filter (\<lambda>t. dt_L2BlockNumber t = ?m) txs, ?k)"
      using take_txs_filter [of "drop cur txs"] filter_from [OF assms(1) c] assms(1) by (simp add: drop_map [symmetric] sorted_wrt_drop)
    have next_cur: "cur + ?k \<le> count_below dt_L2BlockNumber txs m" if "?m < m" for m
      using count_below_step [OF that, of dt_L2BlockNumber txs] c by linarith
    obtain cur' where "take_blocks n txs (cur + ?k) bs =
        (map (with_txs txs) (filter (\<lambda>b. lb_BatchNumber b = n) bs), length (filter (\<lambda>b. lb_BatchNumber b = n) bs), cur')"
        "\<forall>m. cur + ?k \<le> count_below dt_L2BlockNumber txs m \<longrightarrow>
          (\<forall>b \<in> set bs. lb_BatchNumber b = n \<longrightarrow> lb_L2BlockNumber b < m) \<longrightarrow> cur' \<le> count_below dt_L2BlockNumber txs m"
      using Cons.IH [of "cur + ?k"] Cons.prems next_cur by auto
    then show ?thesis using True t next_cur by auto
  qed
qed simp

text \<open>What the grouping should give: the blocks of each batch, with the transactions of each block.\<close>

definition grouped :: "DSL2Block list \<Rightarrow> DSL2Transaction list \<Rightarrow> DSBatch \<Rightarrow> DSFullBatch" where
  "grouped l2Blocks l2Txs batch =
     full_batch batch (map (with_txs l2Txs) (filter (\<lambda>b. lb_BatchNumber b = ba_BatchNumber batch) l2Blocks))"

lemma full_batches_loop_grouped:
  assumes txs: "sorted (map dt_L2BlockNumber txs)" and blocks: "in_block_order bs"
    and "sorted_wrt (<) (map ba_BatchNumber batches)"
    and "\<And>x. x \<in> set batches \<Longrightarrow> curB \<le> count_below lb_BatchNumber bs (ba_BatchNumber x)"
    and "\<And>x b. x \<in> set batches \<Longrightarrow> b \<in> set bs \<Longrightarrow> lb_BatchNumber b = ba_BatchNumber x \<Longrightarrow>
      cur \<le> count_below dt_L2BlockNumber txs (lb_L2BlockNumber b)"
  shows "full_batches_loop bs txs curB cur batches = map (grouped bs txs) batches"
  using assms(3-5)
proof (induction batches arbitrary: curB cur)
  case (Cons x xs)
  let ?n = "ba_BatchNumber x"
  let ?F = "filter (\<lambda>b. lb_BatchNumber b = ba_BatchNumber x) bs"
  have c: "curB \<le> count_below lb_BatchNumber bs ?n" using Cons.prems(2) by simp
  have f: "filter (\<lambda>b. lb_BatchNumber b = ?n) (drop curB bs) = ?F"
    using filter_from [OF in_block_order_sorted [OF blocks] c] .
  have ord: "in_block_order (drop curB bs)" using blocks by (rule sorted_wrt_drop)
  have pre: "cur \<le> count_below dt_L2BlockNumber txs (lb_L2BlockNumber b)"
    if "b \<in> set (drop curB bs)" "lb_BatchNumber b = ?n" for b
    using Cons.prems(3) [of x b] in_set_dropD [OF that(1)] that(2) by simp
  obtain cur' where t: "take_blocks ?n txs cur (drop curB bs) = (map (with_txs txs) ?F, length ?F, cur')"
    and cur': "\<forall>m. cur \<le> count_below dt_L2BlockNumber txs m \<longrightarrow>
      (\<forall>b \<in> set (drop curB bs). lb_BatchNumber b = ?n \<longrightarrow> lb_L2BlockNumber b < m) \<longrightarrow> cur' \<le> count_below dt_L2BlockNumber txs m"
    using take_blocks_filter [OF txs ord, of ?n cur, OF pre] unfolding f by blast
  have gt: "?n < ba_BatchNumber y" if "y \<in> set xs" for y using Cons.prems(1) that by auto
  have "full_batches_loop bs txs (curB + length ?F) cur' xs = map (grouped bs txs) xs"
  proof (rule Cons.IH)
    show "sorted_wrt (<) (map ba_BatchNumber xs)" using Cons.prems(1) by simp
    show "curB + length ?F \<le> count_below lb_BatchNumber bs (ba_BatchNumber y)" if "y \<in> set xs" for y
      using count_below_step [OF gt [OF that], of lb_BatchNumber bs] c by linarith
    fix y b
    assume y: "y \<in> set xs" "b \<in> set bs" "lb_BatchNumber b = ba_BatchNumber y"
    have "lb_L2BlockNumber a < lb_L2BlockNumber b" if "a \<in> set (drop curB bs)" "lb_BatchNumber a = ?n" for a
      using in_block_order_less [OF blocks in_set_dropD [OF that(1)] y(2)] that(2) gt [OF y(1)] y(3) by simp
    then show "cur' \<le> count_below dt_L2BlockNumber txs (lb_L2BlockNumber b)"
      using cur' Cons.prems(3) [of y b] y by auto
  qed
  then show ?case using t by (simp add: grouped_def)
qed simp

lemma computeFullBatches_grouped:
  assumes "sorted (map dt_L2BlockNumber txs)" "in_block_order bs" "sorted_wrt (<) (map ba_BatchNumber batches)"
  shows "computeFullBatches batches bs txs = map (grouped bs txs) batches"
  unfolding computeFullBatches_def by (rule full_batches_loop_grouped [OF assms]) simp_all

section \<open>The contents of the stream\<close>

datatype stream_item = Bookmark bytes | Entry entry_type bytes

text \<open>What the calls of the server do to the contents of the stream, as its clients rely on it.\<close>

locale stream_server =
  fixes ops :: "'s stream_ops" and contents :: "'s \<Rightarrow> stream_item list"
  assumes start: "StartAtomicOp ops s = Inr s' \<Longrightarrow> contents s' = contents s"
    and add_bookmark: "AddStreamBookmark ops d s = Inr s' \<Longrightarrow> contents s' = contents s @ [Bookmark d]"
    and add_entry: "AddStreamEntry ops t d s = Inr s' \<Longrightarrow> contents s' = contents s @ [Entry t d]"
    and commit: "CommitAtomicOp ops s = Inr s' \<Longrightarrow> contents s' = contents s"

fun block_items :: "DSL2FullBlock \<Rightarrow> stream_item list" where
  "block_items b =
     [Bookmark (BookMark_Encode (bookmark_of (lb_L2BlockNumber b))),
      Entry EntryTypeL2BlockStart (BlockStart_Encode (block_start_of b))] @
     map (\<lambda>tx. Entry EntryTypeL2Tx (Transaction_Encode tx)) (fb_Txs b) @
     [Entry EntryTypeL2BlockEnd (BlockEnd_Encode (block_end_of b))]"

text \<open>The global exit root a batch leaves, and its items after the root \<open>ger\<close>.\<close>

definition ger_after :: "hash \<Rightarrow> DSFullBatch \<Rightarrow> hash" where
  "ger_after ger b = (if L2Blocks b \<noteq> [] then lb_GlobalExitRoot (last (L2Blocks b))
     else if ba_GlobalExitRoot b \<noteq> 0 then ba_GlobalExitRoot b else ger)"

definition batch_items :: "hash \<Rightarrow> DSFullBatch \<Rightarrow> stream_item list" where
  "batch_items ger b = (if L2Blocks b \<noteq> [] then concat (map block_items (L2Blocks b))
     else if ba_GlobalExitRoot b \<noteq> ger \<and> ba_GlobalExitRoot b \<noteq> 0
     then [Entry EntryTypeUpdateGER (UpdateGER_Encode (update_ger_of b))] else [])"

fun stream_items :: "hash \<Rightarrow> DSFullBatch list \<Rightarrow> stream_item list" where
  "stream_items ger [] = []"
| "stream_items ger (b # bs) = batch_items ger b @ stream_items (ger_after ger b) bs"

lemma try_op_Inr: "try_op r k = Inr b \<longleftrightarrow> (\<exists>a. r = Inr a \<and> k a = Inr b)"
  by (auto simp: try_op_def split: sum.splits)

lemma case_err_Inr: "(case r of Inl e \<Rightarrow> Inl e | Inr a \<Rightarrow> k a) = Inr b \<longleftrightarrow> (\<exists>a. r = Inr a \<and> k a = Inr b)"
  by (cases r) simp_all

context stream_server
begin

lemma write_txs_contents:
  "write_txs ops txs s = Inr s' \<Longrightarrow> contents s' = contents s @ map (\<lambda>tx. Entry EntryTypeL2Tx (Transaction_Encode tx)) txs"
  by (induction txs arbitrary: s) (auto simp: try_op_Inr dest!: add_entry)

lemma write_blocks_contents:
  "write_blocks ops bs ger s = Inr (ger', s') \<Longrightarrow>
     contents s' = contents s @ concat (map block_items bs) \<and> ger' = (if bs = [] then ger else lb_GlobalExitRoot (last bs))"
proof (induction bs arbitrary: ger s)
  case (Cons b bs)
  obtain s1 s2 s3 s4 where w: "AddStreamBookmark ops (BookMark_Encode (bookmark_of (lb_L2BlockNumber b))) s = Inr s1"
      "AddStreamEntry ops EntryTypeL2BlockStart (BlockStart_Encode (block_start_of b)) s1 = Inr s2"
      "write_txs ops (fb_Txs b) s2 = Inr s3"
      "AddStreamEntry ops EntryTypeL2BlockEnd (BlockEnd_Encode (block_end_of b)) s3 = Inr s4"
      "write_blocks ops bs (lb_GlobalExitRoot b) s4 = Inr (ger', s')"
    using Cons.prems by (auto simp: try_op_Inr case_err_Inr)
  show ?case
    using Cons.IH [OF w(5)] add_bookmark [OF w(1)] add_entry [OF w(2)] write_txs_contents [OF w(3)] add_entry [OF w(4)] by simp
qed simp

lemma write_batches_contents:
  "write_batches ops bs ger s = Inr (ger', s') \<Longrightarrow>
     contents s' = contents s @ stream_items ger bs \<and> ger' = fold (\<lambda>b g. ger_after g b) bs ger"
proof (induction bs arbitrary: ger s)
  case (Cons b bs)
  consider (blocks) s1 g2 s2 s3 where "L2Blocks b \<noteq> []" "StartAtomicOp ops s = Inr s1"
      "write_blocks ops (L2Blocks b) ger s1 = Inr (g2, s2)" "CommitAtomicOp ops s2 = Inr s3" "write_batches ops bs g2 s3 = Inr (ger', s')"
    | (update) s1 s2 s3 where "L2Blocks b = []" "ba_GlobalExitRoot b \<noteq> ger" "ba_GlobalExitRoot b \<noteq> 0" "StartAtomicOp ops s = Inr s1"
        "AddStreamEntry ops EntryTypeUpdateGER (UpdateGER_Encode (update_ger_of b)) s1 = Inr s2" "CommitAtomicOp ops s2 = Inr s3"
        "write_batches ops bs (ba_GlobalExitRoot b) s3 = Inr (ger', s')"
    | (unchanged) "L2Blocks b = []" "ba_GlobalExitRoot b = ger \<or> ba_GlobalExitRoot b = 0" "write_batches ops bs ger s = Inr (ger', s')"
    using Cons.prems by (auto simp: try_op_Inr case_err_Inr split: if_split_asm)
  then show ?case
  proof cases
    case blocks
    show ?thesis using Cons.IH [OF blocks(5)] start [OF blocks(2)] write_blocks_contents [OF blocks(3)] commit [OF blocks(4)] blocks(1)
      by (simp add: batch_items_def ger_after_def)
  next
    case update
    show ?thesis using Cons.IH [OF update(7)] start [OF update(4)] add_entry [OF update(5)] commit [OF update(6)] update(1-3)
      by (simp add: batch_items_def ger_after_def)
  next
    case unchanged
    then have "batch_items ger b = []" "ger_after ger b = ger" by (auto simp: batch_items_def ger_after_def)
    then show ?thesis using Cons.IH [OF unchanged(3)] by simp
  qed
qed simp

lemma round_contents:
  assumes "generate_round ops db n ger s = Inr (Some (batches, ger', s'))"
  shows "\<exists>l2Blocks l2Txs. GetDSBatches db n (n + limit) = Inr batches \<and>
    contents s' = contents s @ stream_items ger (computeFullBatches batches l2Blocks l2Txs) \<and>
    GetDSL2Blocks db (ba_BatchNumber (hd batches)) (ba_BatchNumber (last batches)) = Inr l2Blocks \<and>
    (if l2Blocks = [] then l2Txs = []
     else GetDSL2Transactions db (lb_L2BlockNumber (hd l2Blocks)) (lb_L2BlockNumber (last l2Blocks)) = Inr l2Txs)"
proof -
  obtain bs where b: "GetDSBatches db n (n + limit) = Inr bs" "bs \<noteq> []"
    using assms by (cases "GetDSBatches db n (n + limit)") (auto simp: generate_round_def split: if_split_asm)
  let ?txs = "\<lambda>l2Blocks. if l2Blocks \<noteq> []
    then GetDSL2Transactions db (lb_L2BlockNumber (hd l2Blocks)) (lb_L2BlockNumber (last l2Blocks)) else Inr []"
  obtain l2Blocks l2Txs where l: "GetDSL2Blocks db (ba_BatchNumber (hd bs)) (ba_BatchNumber (last bs)) = Inr l2Blocks"
      "?txs l2Blocks = Inr l2Txs"
      "write_batches ops (computeFullBatches bs l2Blocks l2Txs) ger s = Inr (ger', s')" "batches = bs"
    using assms b unfolding generate_round_def by (auto simp: case_err_Inr)
  show ?thesis
    by (rule exI [of _ l2Blocks], rule exI [of _ l2Txs])
      (use b l write_batches_contents [OF l(3)] in \<open>auto split: if_split_asm\<close>)
qed

end

text \<open>A server that keeps the items in a list; the first entry after a bookmark is the next item.\<close>

definition item_at :: "nat \<Rightarrow> stream_item list \<Rightarrow> go_error + entry_type \<times> bytes" where
  "item_at i s = (if i < length s then (case s ! i of Entry t d \<Rightarrow> Inr (t, d) | Bookmark d \<Rightarrow> Inl (ErrorString ''bookmark''))
     else Inl (ErrorString ''invalid entry number''))"

definition list_server :: "stream_item list stream_ops" where
  "list_server = \<lparr>StartAtomicOp = Inr, AddStreamBookmark = (\<lambda>d s. Inr (s @ [Bookmark d])),
     AddStreamEntry = (\<lambda>t d s. Inr (s @ [Entry t d])), CommitAtomicOp = Inr, TotalEntries = (\<lambda>s. of_nat (length s)),
     GetEntry = (\<lambda>n. item_at (unat n)),
     GetFirstEventAfterBookmark = (\<lambda>d s.
       map_sum id snd (item_at (Suc (length (takeWhile (\<lambda>x. x \<noteq> Bookmark d) s))) s))\<rparr>"

interpretation lists: stream_server list_server "\<lambda>s. s"
  by unfold_locales (auto simp: list_server_def)

lemma loop_step:
  assumes "generate_loop ops db n ger s = Some (Inr (batches # rounds, s'))"
  shows "\<exists>ger1 s1. generate_round ops db n ger s = Inr (Some (batches, ger1, s1)) \<and>
    generate_loop ops db (n + limit) ger1 s1 = Some (Inr (rounds, s'))"
proof -
  obtain r where r: "generate_round ops db n ger s = Inr (Some r)"
    using assms by (cases "generate_round ops db n ger s") (auto simp: generate_loop.simps split: option.split_asm)
  obtain bs ger1 s1 where q: "r = (bs, ger1, s1)" by (metis prod_cases3)
  obtain x where x: "generate_loop ops db (n + limit) ger1 s1 = Some x"
      "map_sum id (\<lambda>(rounds, s2). (bs # rounds, s2)) x = Inr (batches # rounds, s')"
    using assms r q by (auto simp: generate_loop.simps [of ops db n] bind_eq_Some_conv)
  then show ?thesis using r q by (cases x) auto
qed

lemma round_fetches: "generate_round ops db n ger s = Inr (Some (batches, ger', s')) \<Longrightarrow> GetDSBatches db n (n + limit) = Inr batches"
  by (cases "GetDSBatches db n (n + limit)") (auto simp: generate_round_def case_err_Inr split: if_split_asm)

section \<open>Properties\<close>

text \<open>
  The entries of the stream read back: decoding what \<open>Encode\<close> writes gives the block start, the
  block end, the bookmark, the transaction and the update of the global exit root, whose
  timestamps fit 64 bits; the number of the block of a transaction, which is not written, is taken
  from the receiver.
\<close>

theorem stream_entries_read_back:
  assumes "- (2 ^ 63) \<le> bs_Timestamp b" "bs_Timestamp b < 2 ^ 63" "- (2 ^ 63) \<le> ug_Timestamp g" "ug_Timestamp g < 2 ^ 63"
  shows "BlockStart_Decode (BlockStart_Encode b) = Some b \<and> UpdateGER_Decode (UpdateGER_Encode g) = Some g \<and>
    BlockEnd_Decode (BlockEnd_Encode e) = Some e \<and> BookMark_Decode (BookMark_Encode m) = Some m \<and>
    Transaction_Decode (l\<lparr>dt_L2BlockNumber := dt_L2BlockNumber t\<rparr>) (Transaction_Encode t) = Some t"
  using BlockStart_round_trip [OF assms(1,2)] UpdateGER_round_trip [OF assms(3,4)] BlockEnd_round_trip BookMark_round_trip
    Transaction_round_trip by blast

text \<open>
  What a round of the generation writes when the state returns the batches, the blocks and the
  transactions in order: \<open>computeFullBatches\<close>, which walks the lists with two indices, finds for each
  batch exactly its blocks and for each block exactly its transactions; the stream grows by the
  items of these batches, one after the other.
\<close>

theorem round_streams_the_batches:
  assumes "stream_server ops contents" "generate_round ops db n ger s = Inr (Some (batches, ger', s'))"
    and "\<And>i j bs. GetDSBatches db i j = Inr bs \<Longrightarrow> sorted_wrt (<) (map ba_BatchNumber bs)"
    and "\<And>i j bs. GetDSL2Blocks db i j = Inr bs \<Longrightarrow> in_block_order bs"
    and "\<And>i j ts. GetDSL2Transactions db i j = Inr ts \<Longrightarrow> sorted (map dt_L2BlockNumber ts)"
  shows "\<exists>l2Blocks l2Txs. GetDSBatches db n (n + limit) = Inr batches \<and>
    GetDSL2Blocks db (ba_BatchNumber (hd batches)) (ba_BatchNumber (last batches)) = Inr l2Blocks \<and>
    (if l2Blocks = [] then l2Txs = []
     else GetDSL2Transactions db (lb_L2BlockNumber (hd l2Blocks)) (lb_L2BlockNumber (last l2Blocks)) = Inr l2Txs) \<and>
    computeFullBatches batches l2Blocks l2Txs = map (grouped l2Blocks l2Txs) batches \<and>
    contents s' = contents s @ stream_items ger (map (grouped l2Blocks l2Txs) batches)"
proof -
  from stream_server.round_contents [OF assms(1,2)] obtain l2Blocks l2Txs
    where r: "GetDSBatches db n (n + limit) = Inr batches"
      "contents s' = contents s @ stream_items ger (computeFullBatches batches l2Blocks l2Txs)"
      "GetDSL2Blocks db (ba_BatchNumber (hd batches)) (ba_BatchNumber (last batches)) = Inr l2Blocks"
      "if l2Blocks = [] then l2Txs = []
       else GetDSL2Transactions db (lb_L2BlockNumber (hd l2Blocks)) (lb_L2BlockNumber (last l2Blocks)) = Inr l2Txs"
    by blast
  have "sorted (map dt_L2BlockNumber l2Txs)" using r(4) assms(5) by (auto split: if_split_asm)
  from computeFullBatches_grouped [OF this assms(4) [OF r(3)] assms(3) [OF r(1)]] r show ?thesis
    by (intro exI [of _ l2Blocks] exI [of _ l2Txs]) simp
qed

text \<open>
  The batch at the end of a round is streamed twice: a round asks for the batches from \<open>n\<close> up to
  and including \<open>n + limit\<close>, and the next one starts at \<open>n + limit\<close>.
\<close>

theorem last_batch_of_round_is_repeated:
  assumes "generate_loop ops db n ger s = Some (Inr (first # second # rounds, s'))"
    and "\<And>i j. GetDSBatches db i j = Inr (filter (\<lambda>x. i \<le> ba_BatchNumber x \<and> ba_BatchNumber x \<le> j) batches)"
    and "x \<in> set batches" "ba_BatchNumber x = n + limit" "n \<le> n + limit" "n + limit \<le> n + limit + limit"
  shows "x \<in> set first \<and> x \<in> set second"
proof -
  obtain ger1 s1 where l1: "generate_round ops db n ger s = Inr (Some (first, ger1, s1))"
      "generate_loop ops db (n + limit) ger1 s1 = Some (Inr (second # rounds, s'))"
    using loop_step [OF assms(1)] by blast
  obtain ger2 s2 where l2: "generate_round ops db (n + limit) ger1 s1 = Inr (Some (second, ger2, s2))"
    using loop_step [OF l1(2)] by blast
  show ?thesis using round_fetches [OF l1(1)] round_fetches [OF l2] assms(2-6) by auto
qed

section \<open>Instances\<close>

definition sample_block :: "u64 \<Rightarrow> u64 \<Rightarrow> DSL2Block" where
  "sample_block batch n = \<lparr>lb_BatchNumber = batch, lb_L2BlockNumber = n, lb_Timestamp = 100, lb_GlobalExitRoot = 1,
     lb_Coinbase = 2, lb_ForkID = 5, lb_BlockHash = 3, lb_StateRoot = 4\<rparr>"

definition sample_tx :: "u64 \<Rightarrow> DSL2Transaction" where
  "sample_tx n = \<lparr>dt_L2BlockNumber = n, EffectiveGasPricePercentage = 255, IsValid = 1, EncodedLength = 1, Encoded = [7]\<rparr>"

definition sample_ds_batch :: "u64 \<Rightarrow> DSBatch" where
  "sample_ds_batch n = \<lparr>ba_BatchNumber = n, ba_Coinbase = 2, ba_BatchL2Data = [], ba_StateRoot = 4, ba_LocalExitRoot = 0,
     ba_AccInputHash = 0, ba_Timestamp = 0, ba_Transactions = [], ba_GlobalExitRoot = 1, ba_ForcedBatchNum = None, dsb_ForkID = 5\<rparr>"

text \<open>A state with two batches, the second of which ends the first round; only the first has a block.\<close>

definition sample_state :: DSState where
  "sample_state = \<lparr>GetDSGenesisBlock = Inr (sample_block 0 0),
     GetDSBatches = (\<lambda>i j. Inr (filter (\<lambda>x. i \<le> ba_BatchNumber x \<and> ba_BatchNumber x \<le> j) [sample_ds_batch 1, sample_ds_batch 10001])),
     GetDSL2Blocks = (\<lambda>i j. Inr (filter (\<lambda>b. i \<le> lb_BatchNumber b \<and> lb_BatchNumber b \<le> j) [sample_block 1 1])),
     GetDSL2Transactions = (\<lambda>i j. Inr [sample_tx 1])\<rparr>"

theorem stream_entries_read_back_witness:
  "BlockStart_Decode (BlockStart_Encode (block_start_of (sample_block 1 1))) = Some (block_start_of (sample_block 1 1)) \<and>
     Transaction_Decode (sample_tx 9) (Transaction_Encode (sample_tx 9)) = Some (sample_tx 9)"
  using stream_entries_read_back [of "block_start_of (sample_block 1 1)" "update_ger_of (sample_ds_batch 1)"
      "block_end_of (sample_block 1 1)" "bookmark_of 1" "sample_tx 9" "sample_tx 9"]
  by (simp add: block_start_of_def sample_block_def update_ger_of_def sample_ds_batch_def)

lemma list_server_ops:
  "StartAtomicOp list_server s = Inr s" "AddStreamBookmark list_server d s = Inr (s @ [Bookmark d])"
  "AddStreamEntry list_server t d s = Inr (s @ [Entry t d])" "CommitAtomicOp list_server s = Inr s"
  by (simp_all add: list_server_def)

lemma list_server_writes: "\<exists>g s'. write_batches list_server bs ger s = Inr (g, s')"
proof -
  have txs: "\<exists>s'. write_txs list_server txs s = Inr s'" for txs s
    by (induction txs arbitrary: s) (simp_all add: try_op_def list_server_ops)
  have blocks: "\<exists>g s'. write_blocks list_server bs ger s = Inr (g, s')" for bs ger s
  proof (induction bs arbitrary: ger s)
    case (Cons b bs)
    let ?s = "s @ [Bookmark (BookMark_Encode (bookmark_of (lb_L2BlockNumber b)))] @
      [Entry EntryTypeL2BlockStart (BlockStart_Encode (block_start_of b))]"
    obtain s1 where "write_txs list_server (fb_Txs b) ?s = Inr s1" using txs by blast
    then show ?case using Cons.IH by (simp add: try_op_def list_server_ops)
  qed simp
  show ?thesis
  proof (induction bs arbitrary: ger s)
    case (Cons b bs)
    obtain g s1 where "write_blocks list_server (L2Blocks b) ger s = Inr (g, s1)" using blocks by blast
    then show ?case using Cons.IH by (simp add: try_op_def list_server_ops)
  qed simp
qed

lemma sample_rounds:
  "\<exists>ger' s'. generate_round list_server sample_state 1 ger s = Inr (Some ([sample_ds_batch 1, sample_ds_batch 10001], ger', s'))"
  "\<exists>ger' s'. generate_round list_server sample_state 10001 ger s = Inr (Some ([sample_ds_batch 10001], ger', s'))"
  "generate_round list_server sample_state 20001 ger s = Inr None"
proof -
  let ?w = "\<lambda>bs ls ts. write_batches list_server (computeFullBatches bs ls ts) ger s"
  have b: "lb_BatchNumber (sample_block 1 1) = 1" by (simp add: sample_block_def)
  have n: "ba_BatchNumber (sample_ds_batch k) = k" for k by (simp add: sample_ds_batch_def)
  obtain g1 s1 where "?w [sample_ds_batch 1, sample_ds_batch 10001] [sample_block 1 1] [sample_tx 1] = Inr (g1, s1)" using list_server_writes by blast
  then show "\<exists>ger' s'. generate_round list_server sample_state 1 ger s =
      Inr (Some ([sample_ds_batch 1, sample_ds_batch 10001], ger', s'))"
    by (simp add: generate_round_def sample_state_def limit_def n b word_le_nat_alt)
  obtain g2 s2 where "?w [sample_ds_batch 10001] [] [] = Inr (g2, s2)" using list_server_writes by blast
  then show "\<exists>ger' s'. generate_round list_server sample_state 10001 ger s = Inr (Some ([sample_ds_batch 10001], ger', s'))"
    by (simp add: generate_round_def sample_state_def limit_def n b word_le_nat_alt)
  show "generate_round list_server sample_state 20001 ger s = Inr None"
    by (simp add: generate_round_def sample_state_def limit_def n b word_le_nat_alt)
qed

theorem last_batch_of_round_is_repeated_witness:
  "\<exists>first second s'. generate_loop list_server sample_state 1 0 [] = Some (Inr ([first, second], s')) \<and>
     sample_ds_batch 10001 \<in> set first \<and> sample_ds_batch 10001 \<in> set second"
proof -
  obtain g1 s1 where r1: "generate_round list_server sample_state 1 0 [] =
      Inr (Some ([sample_ds_batch 1, sample_ds_batch 10001], g1, s1))" using sample_rounds(1) by blast
  obtain g2 s2 where r2: "generate_round list_server sample_state 10001 g1 s1 = Inr (Some ([sample_ds_batch 10001], g2, s2))"
    using sample_rounds(2) by blast
  have l3: "generate_loop list_server sample_state 20001 g2 s2 = Some (Inr ([], s2))"
    by (subst generate_loop.simps) (simp add: sample_rounds(3))
  have l2: "generate_loop list_server sample_state 10001 g1 s1 = Some (Inr ([[sample_ds_batch 10001]], s2))"
    by (subst generate_loop.simps) (simp add: r2 l3 limit_def)
  have l1: "generate_loop list_server sample_state 1 0 [] =
      Some (Inr ([[sample_ds_batch 1, sample_ds_batch 10001], [sample_ds_batch 10001]], s2))"
    by (subst generate_loop.simps) (simp add: r1 l2 limit_def)
  have "sample_ds_batch 10001 \<in> set [sample_ds_batch 1, sample_ds_batch 10001] \<and> sample_ds_batch 10001 \<in> set [sample_ds_batch 10001]"
    by (rule last_batch_of_round_is_repeated [OF l1, where batches = "[sample_ds_batch 1, sample_ds_batch 10001]"])
      (simp_all add: sample_state_def sample_ds_batch_def limit_def)
  with l1 show ?thesis by blast
qed

end
