(* ===== verification/ExecutorErrors.thy ===== *)
theory ExecutorErrors
  imports Resources
begin

text \<open>
  The error codes of the executor and the errors of the node: \<open>state/runtime/executor/errors.go\<close>
  over the variables of \<open>state/runtime/runtime.go\<close> and the enumerations of the generated
  \<open>executor.pb.go\<close>. An error variable is its position in the package's \<open>var\<close> block, so that two
  errors are equal exactly if they are the same variable, as Go compares them; its text is in
  \<open>rt_messages\<close> at that position. Each switch is the list of its cases. The property says which
  codes survive the way to an error and back.
\<close>

section \<open>Errors\<close>

datatype rt_error =
    RtVar nat
  | ExecVar nat
  | NewError string

type_synonym RomError = int
type_synonym ExecutorError = int

text \<open>The variables of \<open>errors.go\<close> and of \<open>runtime.go\<close>.\<close>

definition ErrExecutorUnspecified :: rt_error where "ErrExecutorUnspecified = ExecVar 0"
definition ErrROMUnspecified :: rt_error where "ErrROMUnspecified = ExecVar 1"
definition ErrExecutorUnknown :: rt_error where "ErrExecutorUnknown = ExecVar 2"
definition ErrROMUnknown :: rt_error where "ErrROMUnknown = ExecVar 3"
definition rt_ErrOutOfGas :: rt_error where "rt_ErrOutOfGas = RtVar 0"
definition rt_ErrStackOverflow :: rt_error where "rt_ErrStackOverflow = RtVar 1"
definition rt_ErrStackUnderflow :: rt_error where "rt_ErrStackUnderflow = RtVar 2"
definition rt_ErrMaxCodeSizeExceeded :: rt_error where "rt_ErrMaxCodeSizeExceeded = RtVar 3"
definition rt_ErrContractAddressCollision :: rt_error where "rt_ErrContractAddressCollision = RtVar 4"
definition rt_ErrExecutionReverted :: rt_error where "rt_ErrExecutionReverted = RtVar 5"
definition rt_ErrOutOfCountersStep :: rt_error where "rt_ErrOutOfCountersStep = RtVar 6"
definition rt_ErrOutOfCountersKeccak :: rt_error where "rt_ErrOutOfCountersKeccak = RtVar 7"
definition rt_ErrOutOfCountersBinary :: rt_error where "rt_ErrOutOfCountersBinary = RtVar 8"
definition rt_ErrOutOfCountersMemory :: rt_error where "rt_ErrOutOfCountersMemory = RtVar 9"
definition rt_ErrOutOfCountersArith :: rt_error where "rt_ErrOutOfCountersArith = RtVar 10"
definition rt_ErrOutOfCountersPadding :: rt_error where "rt_ErrOutOfCountersPadding = RtVar 11"
definition rt_ErrOutOfCountersPoseidon :: rt_error where "rt_ErrOutOfCountersPoseidon = RtVar 12"
definition rt_ErrIntrinsicInvalidSignature :: rt_error where "rt_ErrIntrinsicInvalidSignature = RtVar 13"
definition rt_ErrIntrinsicInvalidChainID :: rt_error where "rt_ErrIntrinsicInvalidChainID = RtVar 14"
definition rt_ErrIntrinsicInvalidNonce :: rt_error where "rt_ErrIntrinsicInvalidNonce = RtVar 15"
definition rt_ErrIntrinsicInvalidGasLimit :: rt_error where "rt_ErrIntrinsicInvalidGasLimit = RtVar 16"
definition rt_ErrIntrinsicInvalidBalance :: rt_error where "rt_ErrIntrinsicInvalidBalance = RtVar 17"
definition rt_ErrIntrinsicInvalidBatchGasLimit :: rt_error where "rt_ErrIntrinsicInvalidBatchGasLimit = RtVar 18"
definition rt_ErrIntrinsicInvalidSenderCode :: rt_error where "rt_ErrIntrinsicInvalidSenderCode = RtVar 19"
definition rt_ErrBatchDataTooBig :: rt_error where "rt_ErrBatchDataTooBig = RtVar 20"
definition rt_ErrInvalidJump :: rt_error where "rt_ErrInvalidJump = RtVar 21"
definition rt_ErrInvalidOpCode :: rt_error where "rt_ErrInvalidOpCode = RtVar 22"
definition rt_ErrInvalidStatic :: rt_error where "rt_ErrInvalidStatic = RtVar 23"
definition rt_ErrInvalidByteCodeStartsEF :: rt_error where "rt_ErrInvalidByteCodeStartsEF = RtVar 24"
definition rt_ErrIntrinsicInvalidTxGasOverflow :: rt_error where "rt_ErrIntrinsicInvalidTxGasOverflow = RtVar 25"
definition rt_ErrUnsupportedForkId :: rt_error where "rt_ErrUnsupportedForkId = RtVar 26"
definition rt_ErrInvalidRLP :: rt_error where "rt_ErrInvalidRLP = RtVar 27"
definition rt_ErrExecutorDBError :: rt_error where "rt_ErrExecutorDBError = RtVar 28"
definition rt_ErrExecutorSMMainCountersOverflowSteps :: rt_error where "rt_ErrExecutorSMMainCountersOverflowSteps = RtVar 29"
definition rt_ErrExecutorSMMainCountersOverflowKeccak :: rt_error where "rt_ErrExecutorSMMainCountersOverflowKeccak = RtVar 30"
definition rt_ErrExecutorSMMainCountersOverflowBinary :: rt_error where "rt_ErrExecutorSMMainCountersOverflowBinary = RtVar 31"
definition rt_ErrExecutorSMMainCountersOverflowMem :: rt_error where "rt_ErrExecutorSMMainCountersOverflowMem = RtVar 32"
definition rt_ErrExecutorSMMainCountersOverflowArith :: rt_error where "rt_ErrExecutorSMMainCountersOverflowArith = RtVar 33"
definition rt_ErrExecutorSMMainCountersOverflowPadding :: rt_error where "rt_ErrExecutorSMMainCountersOverflowPadding = RtVar 34"
definition rt_ErrExecutorSMMainCountersOverflowPoseidon :: rt_error where "rt_ErrExecutorSMMainCountersOverflowPoseidon = RtVar 35"
definition rt_ErrExecutorUnsupportedForkId :: rt_error where "rt_ErrExecutorUnsupportedForkId = RtVar 36"
definition rt_ErrExecutorBalanceMismatch :: rt_error where "rt_ErrExecutorBalanceMismatch = RtVar 37"
definition rt_ErrExecutorFEA2Scalar :: rt_error where "rt_ErrExecutorFEA2Scalar = RtVar 38"
definition rt_ErrExecutorTOS32 :: rt_error where "rt_ErrExecutorTOS32 = RtVar 39"
definition rt_ErrExecutorSMMainInvalidUnsignedTx :: rt_error where "rt_ErrExecutorSMMainInvalidUnsignedTx = RtVar 40"
definition rt_ErrExecutorSMMainInvalidNoCounters :: rt_error where "rt_ErrExecutorSMMainInvalidNoCounters = RtVar 41"
definition rt_ErrExecutorSMMainArithECRecoverDivideByZero :: rt_error where "rt_ErrExecutorSMMainArithECRecoverDivideByZero = RtVar 42"
definition rt_ErrExecutorSMMainAddressOutOfRange :: rt_error where "rt_ErrExecutorSMMainAddressOutOfRange = RtVar 43"
definition rt_ErrExecutorSMMainAddressNegative :: rt_error where "rt_ErrExecutorSMMainAddressNegative = RtVar 44"
definition rt_ErrExecutorSMMainStorageInvalidKey :: rt_error where "rt_ErrExecutorSMMainStorageInvalidKey = RtVar 45"
definition rt_ErrExecutorSMMainHashK :: rt_error where "rt_ErrExecutorSMMainHashK = RtVar 46"
definition rt_ErrExecutorSMMainHashKSizeOutOfRange :: rt_error where "rt_ErrExecutorSMMainHashKSizeOutOfRange = RtVar 47"
definition rt_ErrExecutorSMMainHashKPositionNegative :: rt_error where "rt_ErrExecutorSMMainHashKPositionNegative = RtVar 48"
definition rt_ErrExecutorSMMainHashKPositionPlusSizeOutOfRange :: rt_error where "rt_ErrExecutorSMMainHashKPositionPlusSizeOutOfRange = RtVar 49"
definition rt_ErrExecutorSMMainHashKDigestAddressNotFound :: rt_error where "rt_ErrExecutorSMMainHashKDigestAddressNotFound = RtVar 50"
definition rt_ErrExecutorSMMainHashKDigestNotCompleted :: rt_error where "rt_ErrExecutorSMMainHashKDigestNotCompleted = RtVar 51"
definition rt_ErrExecutorSMMainHashP :: rt_error where "rt_ErrExecutorSMMainHashP = RtVar 52"
definition rt_ErrExecutorSMMainHashPSizeOutOfRange :: rt_error where "rt_ErrExecutorSMMainHashPSizeOutOfRange = RtVar 53"
definition rt_ErrExecutorSMMainHashPPositionNegative :: rt_error where "rt_ErrExecutorSMMainHashPPositionNegative = RtVar 54"
definition rt_ErrExecutorSMMainHashPPositionPlusSizeOutOfRange :: rt_error where "rt_ErrExecutorSMMainHashPPositionPlusSizeOutOfRange = RtVar 55"
definition rt_ErrExecutorSMMainHashPDigestAddressNotFound :: rt_error where "rt_ErrExecutorSMMainHashPDigestAddressNotFound = RtVar 56"
definition rt_ErrExecutorSMMainHashPDigestNotCompleted :: rt_error where "rt_ErrExecutorSMMainHashPDigestNotCompleted = RtVar 57"
definition rt_ErrExecutorSMMainMemAlignOffsetOutOfRange :: rt_error where "rt_ErrExecutorSMMainMemAlignOffsetOutOfRange = RtVar 58"
definition rt_ErrExecutorSMMainMultipleFreeIn :: rt_error where "rt_ErrExecutorSMMainMultipleFreeIn = RtVar 59"
definition rt_ErrExecutorSMMainAssert :: rt_error where "rt_ErrExecutorSMMainAssert = RtVar 60"
definition rt_ErrExecutorSMMainMemory :: rt_error where "rt_ErrExecutorSMMainMemory = RtVar 61"
definition rt_ErrExecutorSMMainStorageReadMismatch :: rt_error where "rt_ErrExecutorSMMainStorageReadMismatch = RtVar 62"
definition rt_ErrExecutorSMMainStorageWriteMismatch :: rt_error where "rt_ErrExecutorSMMainStorageWriteMismatch = RtVar 63"
definition rt_ErrExecutorSMMainHashKValueMismatch :: rt_error where "rt_ErrExecutorSMMainHashKValueMismatch = RtVar 64"
definition rt_ErrExecutorSMMainHashKPaddingMismatch :: rt_error where "rt_ErrExecutorSMMainHashKPaddingMismatch = RtVar 65"
definition rt_ErrExecutorSMMainHashKSizeMismatch :: rt_error where "rt_ErrExecutorSMMainHashKSizeMismatch = RtVar 66"
definition rt_ErrExecutorSMMainHashKLenLengthMismatch :: rt_error where "rt_ErrExecutorSMMainHashKLenLengthMismatch = RtVar 67"
definition rt_ErrExecutorSMMainHashKLenCalledTwice :: rt_error where "rt_ErrExecutorSMMainHashKLenCalledTwice = RtVar 68"
definition rt_ErrExecutorSMMainHashKDigestNotFound :: rt_error where "rt_ErrExecutorSMMainHashKDigestNotFound = RtVar 69"
definition rt_ErrExecutorSMMainHashKDigestDigestMismatch :: rt_error where "rt_ErrExecutorSMMainHashKDigestDigestMismatch = RtVar 70"
definition rt_ErrExecutorSMMainHashKDigestCalledTwice :: rt_error where "rt_ErrExecutorSMMainHashKDigestCalledTwice = RtVar 71"
definition rt_ErrExecutorSMMainHashPValueMismatch :: rt_error where "rt_ErrExecutorSMMainHashPValueMismatch = RtVar 72"
definition rt_ErrExecutorSMMainHashPPaddingMismatch :: rt_error where "rt_ErrExecutorSMMainHashPPaddingMismatch = RtVar 73"
definition rt_ErrExecutorSMMainHashPSizeMismatch :: rt_error where "rt_ErrExecutorSMMainHashPSizeMismatch = RtVar 74"
definition rt_ErrExecutorSMMainHashPLenLengthMismatch :: rt_error where "rt_ErrExecutorSMMainHashPLenLengthMismatch = RtVar 75"
definition rt_ErrExecutorSMMainHashPLenCalledTwice :: rt_error where "rt_ErrExecutorSMMainHashPLenCalledTwice = RtVar 76"
definition rt_ErrExecutorSMMainHashPDigestDigestMismatch :: rt_error where "rt_ErrExecutorSMMainHashPDigestDigestMismatch = RtVar 77"
definition rt_ErrExecutorSMMainHashPDigestCalledTwice :: rt_error where "rt_ErrExecutorSMMainHashPDigestCalledTwice = RtVar 78"
definition rt_ErrExecutorSMMainArithMismatch :: rt_error where "rt_ErrExecutorSMMainArithMismatch = RtVar 79"
definition rt_ErrExecutorSMMainArithECRecoverMismatch :: rt_error where "rt_ErrExecutorSMMainArithECRecoverMismatch = RtVar 80"
definition rt_ErrExecutorSMMainBinaryAddMismatch :: rt_error where "rt_ErrExecutorSMMainBinaryAddMismatch = RtVar 81"
definition rt_ErrExecutorSMMainBinarySubMismatch :: rt_error where "rt_ErrExecutorSMMainBinarySubMismatch = RtVar 82"
definition rt_ErrExecutorSMMainBinaryLtMismatch :: rt_error where "rt_ErrExecutorSMMainBinaryLtMismatch = RtVar 83"
definition rt_ErrExecutorSMMainBinarySLtMismatch :: rt_error where "rt_ErrExecutorSMMainBinarySLtMismatch = RtVar 84"
definition rt_ErrExecutorSMMainBinaryEqMismatch :: rt_error where "rt_ErrExecutorSMMainBinaryEqMismatch = RtVar 85"
definition rt_ErrExecutorSMMainBinaryAndMismatch :: rt_error where "rt_ErrExecutorSMMainBinaryAndMismatch = RtVar 86"
definition rt_ErrExecutorSMMainBinaryOrMismatch :: rt_error where "rt_ErrExecutorSMMainBinaryOrMismatch = RtVar 87"
definition rt_ErrExecutorSMMainBinaryXorMismatch :: rt_error where "rt_ErrExecutorSMMainBinaryXorMismatch = RtVar 88"
definition rt_ErrExecutorSMMainMemAlignWriteMismatch :: rt_error where "rt_ErrExecutorSMMainMemAlignWriteMismatch = RtVar 89"
definition rt_ErrExecutorSMMainMemAlignWrite8Mismatch :: rt_error where "rt_ErrExecutorSMMainMemAlignWrite8Mismatch = RtVar 90"
definition rt_ErrExecutorSMMainMemAlignReadMismatch :: rt_error where "rt_ErrExecutorSMMainMemAlignReadMismatch = RtVar 91"
definition rt_ErrExecutorSMMainJmpnOutOfRange :: rt_error where "rt_ErrExecutorSMMainJmpnOutOfRange = RtVar 92"
definition rt_ErrExecutorSMMainHashKReadOutOfRange :: rt_error where "rt_ErrExecutorSMMainHashKReadOutOfRange = RtVar 93"
definition rt_ErrExecutorSMMainHashPReadOutOfRange :: rt_error where "rt_ErrExecutorSMMainHashPReadOutOfRange = RtVar 94"
definition rt_ErrExecutorErrorInvalidOldStateRoot :: rt_error where "rt_ErrExecutorErrorInvalidOldStateRoot = RtVar 95"
definition rt_ErrExecutorErrorInvalidOldAccInputHash :: rt_error where "rt_ErrExecutorErrorInvalidOldAccInputHash = RtVar 96"
definition rt_ErrExecutorErrorInvalidChainId :: rt_error where "rt_ErrExecutorErrorInvalidChainId = RtVar 97"
definition rt_ErrExecutorErrorInvalidBatchL2Data :: rt_error where "rt_ErrExecutorErrorInvalidBatchL2Data = RtVar 98"
definition rt_ErrExecutorErrorInvalidGlobalExitRoot :: rt_error where "rt_ErrExecutorErrorInvalidGlobalExitRoot = RtVar 99"
definition rt_ErrExecutorErrorInvalidCoinbase :: rt_error where "rt_ErrExecutorErrorInvalidCoinbase = RtVar 100"
definition rt_ErrExecutorErrorInvalidFrom :: rt_error where "rt_ErrExecutorErrorInvalidFrom = RtVar 101"
definition rt_ErrExecutorErrorInvalidDbKey :: rt_error where "rt_ErrExecutorErrorInvalidDbKey = RtVar 102"
definition rt_ErrExecutorErrorInvalidDbValue :: rt_error where "rt_ErrExecutorErrorInvalidDbValue = RtVar 103"
definition rt_ErrExecutorErrorInvalidContractsBytecodeKey :: rt_error where "rt_ErrExecutorErrorInvalidContractsBytecodeKey = RtVar 104"
definition rt_ErrExecutorErrorInvalidContractsBytecodeValue :: rt_error where "rt_ErrExecutorErrorInvalidContractsBytecodeValue = RtVar 105"
definition rt_ErrExecutorErrorInvalidGetKey :: rt_error where "rt_ErrExecutorErrorInvalidGetKey = RtVar 106"
definition rt_ErrGRPCResourceExhaustedAsTimeout :: rt_error where "rt_ErrGRPCResourceExhaustedAsTimeout = RtVar 107"

definition exec_messages :: "string list" where
  "exec_messages =
    [''unspecified executor error'',
     ''unspecified ROM error'',
     ''unknown executor error'',
     ''unknown ROM error'']"

definition rt_messages :: "string list" where
  "rt_messages =
    [''out of gas'',
     ''stack overflow'',
     ''stack underflow'',
     ''evm: max code size exceeded'',
     ''contract address collision'',
     ''execution reverted'',
     ''not enough step counters to continue the execution'',
     ''not enough keccak counters to continue the execution'',
     ''not enough binary counters to continue the execution'',
     ''not enough memory align counters counters to continue the execution'',
     ''not enough arith counters counters to continue the execution'',
     ''not enough padding counters counters to continue the execution'',
     ''not enough poseidon counters counters to continue the execution'',
     ''signature intrinsic error'',
     ''chain id intrinsic error'',
     ''nonce intrinsic error'',
     ''gas limit intrinsic error'',
     ''balance intrinsic error'',
     ''batch gas limit intrinsic error'',
     ''invalid sender code intrinsic error'',
     ''batch data too big'',
     ''invalid jump opcode'',
     ''invalid opcode'',
     ''invalid static call'',
     ''byte code starting with 0xEF'',
     ''gas overflow'',
     ''unsupported fork id'',
     ''invalid RLP'',
     ''database error'',
     ''main execution exceeded the maximum number of steps'',
     ''keccak counter exceeded the maximum'',
     ''binary counter exceeded the maximum'',
     ''memory align counter exceeded the maximum'',
     ''arith counter exceeded the maximum'',
     ''padding counter exceeded the maximum'',
     ''poseidon counter exceeded the maximum'',
     ''unsupported fork id'',
     ''balance mismatch'',
     ''fea2scalar error'',
     ''TOS32 error'',
     ''unsigned TX in a non-process batch'',
     ''no-counters request in a non-process batch'',
     ''divide-by-zero situation during an ECRecover'',
     ''address is out of valid memory space range'',
     ''address is negative'',
     ''register value is out of range while building storage key'',
     ''register value is out of range while calculating a Keccak hash'',
     ''size register value is out of range while calculating a Keccak hash'',
     ''position register value is negative while calculating a Keccak hash'',
     ''position register value plus a size register value is out of range while calculating a Keccak hash'',
     ''address has not been found while calculating a Keccak hash digest'',
     ''hash has not been completed while calling a Keccak hash digest'',
     ''register value is out of range while calculating a Poseidon hash'',
     ''size register value is out of range while calculating a Poseidon hash'',
     ''position register value is negative while calculating a Poseidon hash'',
     ''position register value plus a size register value is out of range while calculating a Poseidon hash'',
     ''address has not been found while calculating a Poseidon hash digest'',
     ''hash has not been completed while calling a Poseidon hash digest'',
     ''offset register value is out of range while doing a mem align operation'',
     ''more than one free inputs in one ROM instruction'',
     ''ROM assert instruction failed'',
     ''memory instruction check failed'',
     ''storage read instruction check failed'',
     ''storage write instruction check failed'',
     ''keccak hash instruction value check failed'',
     ''keccak hash instruction padding check failed'',
     ''keccak hash instruction check size failed'',
     ''keccak hash length instruction length check failed'',
     ''keccak hash length instruction called once check failed'',
     ''keccak hash digest instruction slot not found'',
     ''keccak hash digest instruction digest check failed'',
     ''keccak hash digest instruction called once check failed'',
     ''poseidon hash instruction value check failed'',
     ''poseidon hash instruction padding check failed'',
     ''poseidon hash instruction size check failed'',
     ''poseidon hash length instruction length check failed'',
     ''poseidon hash length instruction called once check failed'',
     ''poseidon hash digest instruction digest check failed'',
     ''poseidon hash digest instruction called once check failed'',
     ''arith instruction check failed'',
     ''arith ECRecover instruction check failed'',
     ''binary add instruction check failed'',
     ''binary sub instruction check failed'',
     ''binary less than instruction check failed'',
     ''binary signed less than instruction check failed'',
     ''binary equal instruction check failed'',
     ''binary and instruction check failed'',
     ''binary or instruction check failed'',
     ''binary xor instruction check failed'',
     ''memory align write instruction check failed'',
     ''memory align write 8 instruction check failed'',
     ''memory align read instruction check failed'',
     ''JMPN instruction found a jump position out of range'',
     ''main execution Keccak check found read out of range'',
     ''main execution Poseidon check found read out of range'',
     ''old_state_root is invalid'',
     ''old_acc_input_hash is invalid'',
     ''chain_id is invalid'',
     ''batch_l2_data is invalid'',
     ''global_exit_root is invalid'',
     ''coinbase (i.e. sequencer address) is invalid'',
     ''from is invalid'',
     ''db key is invalid'',
     ''db value is invalid'',
     ''contracts_bytecode key is invalid'',
     ''contracts_bytecode value is invalid'',
     ''key is invalid'',
     ''request timed out'']"

fun rt_Error :: "rt_error \<Rightarrow> string" where
  "rt_Error (RtVar i) = rt_messages ! i"
| "rt_Error (ExecVar i) = exec_messages ! i"
| "rt_Error (NewError s) = s"

section \<open>Codes\<close>

definition RomError_ROM_ERROR_UNSPECIFIED :: int where "RomError_ROM_ERROR_UNSPECIFIED = 0"
definition RomError_ROM_ERROR_NO_ERROR :: int where "RomError_ROM_ERROR_NO_ERROR = 1"
definition RomError_ROM_ERROR_OUT_OF_GAS :: int where "RomError_ROM_ERROR_OUT_OF_GAS = 2"
definition RomError_ROM_ERROR_STACK_OVERFLOW :: int where "RomError_ROM_ERROR_STACK_OVERFLOW = 3"
definition RomError_ROM_ERROR_STACK_UNDERFLOW :: int where "RomError_ROM_ERROR_STACK_UNDERFLOW = 4"
definition RomError_ROM_ERROR_MAX_CODE_SIZE_EXCEEDED :: int where "RomError_ROM_ERROR_MAX_CODE_SIZE_EXCEEDED = 5"
definition RomError_ROM_ERROR_CONTRACT_ADDRESS_COLLISION :: int where "RomError_ROM_ERROR_CONTRACT_ADDRESS_COLLISION = 6"
definition RomError_ROM_ERROR_EXECUTION_REVERTED :: int where "RomError_ROM_ERROR_EXECUTION_REVERTED = 7"
definition RomError_ROM_ERROR_OUT_OF_COUNTERS_STEP :: int where "RomError_ROM_ERROR_OUT_OF_COUNTERS_STEP = 8"
definition RomError_ROM_ERROR_OUT_OF_COUNTERS_KECCAK :: int where "RomError_ROM_ERROR_OUT_OF_COUNTERS_KECCAK = 9"
definition RomError_ROM_ERROR_OUT_OF_COUNTERS_BINARY :: int where "RomError_ROM_ERROR_OUT_OF_COUNTERS_BINARY = 10"
definition RomError_ROM_ERROR_OUT_OF_COUNTERS_MEM :: int where "RomError_ROM_ERROR_OUT_OF_COUNTERS_MEM = 11"
definition RomError_ROM_ERROR_OUT_OF_COUNTERS_ARITH :: int where "RomError_ROM_ERROR_OUT_OF_COUNTERS_ARITH = 12"
definition RomError_ROM_ERROR_OUT_OF_COUNTERS_PADDING :: int where "RomError_ROM_ERROR_OUT_OF_COUNTERS_PADDING = 13"
definition RomError_ROM_ERROR_OUT_OF_COUNTERS_POSEIDON :: int where "RomError_ROM_ERROR_OUT_OF_COUNTERS_POSEIDON = 14"
definition RomError_ROM_ERROR_INVALID_JUMP :: int where "RomError_ROM_ERROR_INVALID_JUMP = 15"
definition RomError_ROM_ERROR_INVALID_OPCODE :: int where "RomError_ROM_ERROR_INVALID_OPCODE = 16"
definition RomError_ROM_ERROR_INVALID_STATIC :: int where "RomError_ROM_ERROR_INVALID_STATIC = 17"
definition RomError_ROM_ERROR_INVALID_BYTECODE_STARTS_EF :: int where "RomError_ROM_ERROR_INVALID_BYTECODE_STARTS_EF = 18"
definition RomError_ROM_ERROR_INTRINSIC_INVALID_SIGNATURE :: int where "RomError_ROM_ERROR_INTRINSIC_INVALID_SIGNATURE = 19"
definition RomError_ROM_ERROR_INTRINSIC_INVALID_CHAIN_ID :: int where "RomError_ROM_ERROR_INTRINSIC_INVALID_CHAIN_ID = 20"
definition RomError_ROM_ERROR_INTRINSIC_INVALID_NONCE :: int where "RomError_ROM_ERROR_INTRINSIC_INVALID_NONCE = 21"
definition RomError_ROM_ERROR_INTRINSIC_INVALID_GAS_LIMIT :: int where "RomError_ROM_ERROR_INTRINSIC_INVALID_GAS_LIMIT = 22"
definition RomError_ROM_ERROR_INTRINSIC_INVALID_BALANCE :: int where "RomError_ROM_ERROR_INTRINSIC_INVALID_BALANCE = 23"
definition RomError_ROM_ERROR_INTRINSIC_INVALID_BATCH_GAS_LIMIT :: int where "RomError_ROM_ERROR_INTRINSIC_INVALID_BATCH_GAS_LIMIT = 24"
definition RomError_ROM_ERROR_INTRINSIC_INVALID_SENDER_CODE :: int where "RomError_ROM_ERROR_INTRINSIC_INVALID_SENDER_CODE = 25"
definition RomError_ROM_ERROR_INTRINSIC_TX_GAS_OVERFLOW :: int where "RomError_ROM_ERROR_INTRINSIC_TX_GAS_OVERFLOW = 26"
definition RomError_ROM_ERROR_BATCH_DATA_TOO_BIG :: int where "RomError_ROM_ERROR_BATCH_DATA_TOO_BIG = 27"
definition RomError_ROM_ERROR_UNSUPPORTED_FORK_ID :: int where "RomError_ROM_ERROR_UNSUPPORTED_FORK_ID = 28"
definition RomError_ROM_ERROR_INVALID_RLP :: int where "RomError_ROM_ERROR_INVALID_RLP = 29"
definition ExecutorError_EXECUTOR_ERROR_UNSPECIFIED :: int where "ExecutorError_EXECUTOR_ERROR_UNSPECIFIED = 0"
definition ExecutorError_EXECUTOR_ERROR_NO_ERROR :: int where "ExecutorError_EXECUTOR_ERROR_NO_ERROR = 1"
definition ExecutorError_EXECUTOR_ERROR_DB_ERROR :: int where "ExecutorError_EXECUTOR_ERROR_DB_ERROR = 2"
definition ExecutorError_EXECUTOR_ERROR_SM_MAIN_COUNTERS_OVERFLOW_STEPS :: int where "ExecutorError_EXECUTOR_ERROR_SM_MAIN_COUNTERS_OVERFLOW_STEPS = 3"
definition ExecutorError_EXECUTOR_ERROR_SM_MAIN_COUNTERS_OVERFLOW_KECCAK :: int where "ExecutorError_EXECUTOR_ERROR_SM_MAIN_COUNTERS_OVERFLOW_KECCAK = 4"
definition ExecutorError_EXECUTOR_ERROR_SM_MAIN_COUNTERS_OVERFLOW_BINARY :: int where "ExecutorError_EXECUTOR_ERROR_SM_MAIN_COUNTERS_OVERFLOW_BINARY = 5"
definition ExecutorError_EXECUTOR_ERROR_SM_MAIN_COUNTERS_OVERFLOW_MEM :: int where "ExecutorError_EXECUTOR_ERROR_SM_MAIN_COUNTERS_OVERFLOW_MEM = 6"
definition ExecutorError_EXECUTOR_ERROR_SM_MAIN_COUNTERS_OVERFLOW_ARITH :: int where "ExecutorError_EXECUTOR_ERROR_SM_MAIN_COUNTERS_OVERFLOW_ARITH = 7"
definition ExecutorError_EXECUTOR_ERROR_SM_MAIN_COUNTERS_OVERFLOW_PADDING :: int where "ExecutorError_EXECUTOR_ERROR_SM_MAIN_COUNTERS_OVERFLOW_PADDING = 8"
definition ExecutorError_EXECUTOR_ERROR_SM_MAIN_COUNTERS_OVERFLOW_POSEIDON :: int where "ExecutorError_EXECUTOR_ERROR_SM_MAIN_COUNTERS_OVERFLOW_POSEIDON = 9"
definition ExecutorError_EXECUTOR_ERROR_UNSUPPORTED_FORK_ID :: int where "ExecutorError_EXECUTOR_ERROR_UNSUPPORTED_FORK_ID = 10"
definition ExecutorError_EXECUTOR_ERROR_BALANCE_MISMATCH :: int where "ExecutorError_EXECUTOR_ERROR_BALANCE_MISMATCH = 11"
definition ExecutorError_EXECUTOR_ERROR_FEA2SCALAR :: int where "ExecutorError_EXECUTOR_ERROR_FEA2SCALAR = 12"
definition ExecutorError_EXECUTOR_ERROR_TOS32 :: int where "ExecutorError_EXECUTOR_ERROR_TOS32 = 13"
definition ExecutorError_EXECUTOR_ERROR_SM_MAIN_INVALID_UNSIGNED_TX :: int where "ExecutorError_EXECUTOR_ERROR_SM_MAIN_INVALID_UNSIGNED_TX = 14"
definition ExecutorError_EXECUTOR_ERROR_SM_MAIN_INVALID_NO_COUNTERS :: int where "ExecutorError_EXECUTOR_ERROR_SM_MAIN_INVALID_NO_COUNTERS = 15"
definition ExecutorError_EXECUTOR_ERROR_SM_MAIN_ARITH_ECRECOVER_DIVIDE_BY_ZERO :: int where "ExecutorError_EXECUTOR_ERROR_SM_MAIN_ARITH_ECRECOVER_DIVIDE_BY_ZERO = 16"
definition ExecutorError_EXECUTOR_ERROR_SM_MAIN_ADDRESS_OUT_OF_RANGE :: int where "ExecutorError_EXECUTOR_ERROR_SM_MAIN_ADDRESS_OUT_OF_RANGE = 17"
definition ExecutorError_EXECUTOR_ERROR_SM_MAIN_ADDRESS_NEGATIVE :: int where "ExecutorError_EXECUTOR_ERROR_SM_MAIN_ADDRESS_NEGATIVE = 18"
definition ExecutorError_EXECUTOR_ERROR_SM_MAIN_STORAGE_INVALID_KEY :: int where "ExecutorError_EXECUTOR_ERROR_SM_MAIN_STORAGE_INVALID_KEY = 19"
definition ExecutorError_EXECUTOR_ERROR_SM_MAIN_HASHK :: int where "ExecutorError_EXECUTOR_ERROR_SM_MAIN_HASHK = 20"
definition ExecutorError_EXECUTOR_ERROR_SM_MAIN_HASHK_SIZE_OUT_OF_RANGE :: int where "ExecutorError_EXECUTOR_ERROR_SM_MAIN_HASHK_SIZE_OUT_OF_RANGE = 21"
definition ExecutorError_EXECUTOR_ERROR_SM_MAIN_HASHK_POSITION_NEGATIVE :: int where "ExecutorError_EXECUTOR_ERROR_SM_MAIN_HASHK_POSITION_NEGATIVE = 22"
definition ExecutorError_EXECUTOR_ERROR_SM_MAIN_HASHK_POSITION_PLUS_SIZE_OUT_OF_RANGE :: int where "ExecutorError_EXECUTOR_ERROR_SM_MAIN_HASHK_POSITION_PLUS_SIZE_OUT_OF_RANGE = 23"
definition ExecutorError_EXECUTOR_ERROR_SM_MAIN_HASHKDIGEST_ADDRESS_NOT_FOUND :: int where "ExecutorError_EXECUTOR_ERROR_SM_MAIN_HASHKDIGEST_ADDRESS_NOT_FOUND = 24"
definition ExecutorError_EXECUTOR_ERROR_SM_MAIN_HASHKDIGEST_NOT_COMPLETED :: int where "ExecutorError_EXECUTOR_ERROR_SM_MAIN_HASHKDIGEST_NOT_COMPLETED = 25"
definition ExecutorError_EXECUTOR_ERROR_SM_MAIN_HASHP :: int where "ExecutorError_EXECUTOR_ERROR_SM_MAIN_HASHP = 26"
definition ExecutorError_EXECUTOR_ERROR_SM_MAIN_HASHP_SIZE_OUT_OF_RANGE :: int where "ExecutorError_EXECUTOR_ERROR_SM_MAIN_HASHP_SIZE_OUT_OF_RANGE = 27"
definition ExecutorError_EXECUTOR_ERROR_SM_MAIN_HASHP_POSITION_NEGATIVE :: int where "ExecutorError_EXECUTOR_ERROR_SM_MAIN_HASHP_POSITION_NEGATIVE = 28"
definition ExecutorError_EXECUTOR_ERROR_SM_MAIN_HASHP_POSITION_PLUS_SIZE_OUT_OF_RANGE :: int where "ExecutorError_EXECUTOR_ERROR_SM_MAIN_HASHP_POSITION_PLUS_SIZE_OUT_OF_RANGE = 29"
definition ExecutorError_EXECUTOR_ERROR_SM_MAIN_HASHPDIGEST_ADDRESS_NOT_FOUND :: int where "ExecutorError_EXECUTOR_ERROR_SM_MAIN_HASHPDIGEST_ADDRESS_NOT_FOUND = 30"
definition ExecutorError_EXECUTOR_ERROR_SM_MAIN_HASHPDIGEST_NOT_COMPLETED :: int where "ExecutorError_EXECUTOR_ERROR_SM_MAIN_HASHPDIGEST_NOT_COMPLETED = 31"
definition ExecutorError_EXECUTOR_ERROR_SM_MAIN_MEMALIGN_OFFSET_OUT_OF_RANGE :: int where "ExecutorError_EXECUTOR_ERROR_SM_MAIN_MEMALIGN_OFFSET_OUT_OF_RANGE = 32"
definition ExecutorError_EXECUTOR_ERROR_SM_MAIN_MULTIPLE_FREEIN :: int where "ExecutorError_EXECUTOR_ERROR_SM_MAIN_MULTIPLE_FREEIN = 33"
definition ExecutorError_EXECUTOR_ERROR_SM_MAIN_ASSERT :: int where "ExecutorError_EXECUTOR_ERROR_SM_MAIN_ASSERT = 34"
definition ExecutorError_EXECUTOR_ERROR_SM_MAIN_MEMORY :: int where "ExecutorError_EXECUTOR_ERROR_SM_MAIN_MEMORY = 35"
definition ExecutorError_EXECUTOR_ERROR_SM_MAIN_STORAGE_READ_MISMATCH :: int where "ExecutorError_EXECUTOR_ERROR_SM_MAIN_STORAGE_READ_MISMATCH = 36"
definition ExecutorError_EXECUTOR_ERROR_SM_MAIN_STORAGE_WRITE_MISMATCH :: int where "ExecutorError_EXECUTOR_ERROR_SM_MAIN_STORAGE_WRITE_MISMATCH = 37"
definition ExecutorError_EXECUTOR_ERROR_SM_MAIN_HASHK_VALUE_MISMATCH :: int where "ExecutorError_EXECUTOR_ERROR_SM_MAIN_HASHK_VALUE_MISMATCH = 38"
definition ExecutorError_EXECUTOR_ERROR_SM_MAIN_HASHK_PADDING_MISMATCH :: int where "ExecutorError_EXECUTOR_ERROR_SM_MAIN_HASHK_PADDING_MISMATCH = 39"
definition ExecutorError_EXECUTOR_ERROR_SM_MAIN_HASHK_SIZE_MISMATCH :: int where "ExecutorError_EXECUTOR_ERROR_SM_MAIN_HASHK_SIZE_MISMATCH = 40"
definition ExecutorError_EXECUTOR_ERROR_SM_MAIN_HASHKLEN_LENGTH_MISMATCH :: int where "ExecutorError_EXECUTOR_ERROR_SM_MAIN_HASHKLEN_LENGTH_MISMATCH = 41"
definition ExecutorError_EXECUTOR_ERROR_SM_MAIN_HASHKLEN_CALLED_TWICE :: int where "ExecutorError_EXECUTOR_ERROR_SM_MAIN_HASHKLEN_CALLED_TWICE = 42"
definition ExecutorError_EXECUTOR_ERROR_SM_MAIN_HASHKDIGEST_NOT_FOUND :: int where "ExecutorError_EXECUTOR_ERROR_SM_MAIN_HASHKDIGEST_NOT_FOUND = 43"
definition ExecutorError_EXECUTOR_ERROR_SM_MAIN_HASHKDIGEST_DIGEST_MISMATCH :: int where "ExecutorError_EXECUTOR_ERROR_SM_MAIN_HASHKDIGEST_DIGEST_MISMATCH = 44"
definition ExecutorError_EXECUTOR_ERROR_SM_MAIN_HASHKDIGEST_CALLED_TWICE :: int where "ExecutorError_EXECUTOR_ERROR_SM_MAIN_HASHKDIGEST_CALLED_TWICE = 45"
definition ExecutorError_EXECUTOR_ERROR_SM_MAIN_HASHP_VALUE_MISMATCH :: int where "ExecutorError_EXECUTOR_ERROR_SM_MAIN_HASHP_VALUE_MISMATCH = 46"
definition ExecutorError_EXECUTOR_ERROR_SM_MAIN_HASHP_PADDING_MISMATCH :: int where "ExecutorError_EXECUTOR_ERROR_SM_MAIN_HASHP_PADDING_MISMATCH = 47"
definition ExecutorError_EXECUTOR_ERROR_SM_MAIN_HASHP_SIZE_MISMATCH :: int where "ExecutorError_EXECUTOR_ERROR_SM_MAIN_HASHP_SIZE_MISMATCH = 48"
definition ExecutorError_EXECUTOR_ERROR_SM_MAIN_HASHPLEN_LENGTH_MISMATCH :: int where "ExecutorError_EXECUTOR_ERROR_SM_MAIN_HASHPLEN_LENGTH_MISMATCH = 49"
definition ExecutorError_EXECUTOR_ERROR_SM_MAIN_HASHPLEN_CALLED_TWICE :: int where "ExecutorError_EXECUTOR_ERROR_SM_MAIN_HASHPLEN_CALLED_TWICE = 50"
definition ExecutorError_EXECUTOR_ERROR_SM_MAIN_HASHPDIGEST_DIGEST_MISMATCH :: int where "ExecutorError_EXECUTOR_ERROR_SM_MAIN_HASHPDIGEST_DIGEST_MISMATCH = 51"
definition ExecutorError_EXECUTOR_ERROR_SM_MAIN_HASHPDIGEST_CALLED_TWICE :: int where "ExecutorError_EXECUTOR_ERROR_SM_MAIN_HASHPDIGEST_CALLED_TWICE = 52"
definition ExecutorError_EXECUTOR_ERROR_SM_MAIN_ARITH_MISMATCH :: int where "ExecutorError_EXECUTOR_ERROR_SM_MAIN_ARITH_MISMATCH = 53"
definition ExecutorError_EXECUTOR_ERROR_SM_MAIN_ARITH_ECRECOVER_MISMATCH :: int where "ExecutorError_EXECUTOR_ERROR_SM_MAIN_ARITH_ECRECOVER_MISMATCH = 54"
definition ExecutorError_EXECUTOR_ERROR_SM_MAIN_BINARY_ADD_MISMATCH :: int where "ExecutorError_EXECUTOR_ERROR_SM_MAIN_BINARY_ADD_MISMATCH = 55"
definition ExecutorError_EXECUTOR_ERROR_SM_MAIN_BINARY_SUB_MISMATCH :: int where "ExecutorError_EXECUTOR_ERROR_SM_MAIN_BINARY_SUB_MISMATCH = 56"
definition ExecutorError_EXECUTOR_ERROR_SM_MAIN_BINARY_LT_MISMATCH :: int where "ExecutorError_EXECUTOR_ERROR_SM_MAIN_BINARY_LT_MISMATCH = 57"
definition ExecutorError_EXECUTOR_ERROR_SM_MAIN_BINARY_SLT_MISMATCH :: int where "ExecutorError_EXECUTOR_ERROR_SM_MAIN_BINARY_SLT_MISMATCH = 58"
definition ExecutorError_EXECUTOR_ERROR_SM_MAIN_BINARY_EQ_MISMATCH :: int where "ExecutorError_EXECUTOR_ERROR_SM_MAIN_BINARY_EQ_MISMATCH = 59"
definition ExecutorError_EXECUTOR_ERROR_SM_MAIN_BINARY_AND_MISMATCH :: int where "ExecutorError_EXECUTOR_ERROR_SM_MAIN_BINARY_AND_MISMATCH = 60"
definition ExecutorError_EXECUTOR_ERROR_SM_MAIN_BINARY_OR_MISMATCH :: int where "ExecutorError_EXECUTOR_ERROR_SM_MAIN_BINARY_OR_MISMATCH = 61"
definition ExecutorError_EXECUTOR_ERROR_SM_MAIN_BINARY_XOR_MISMATCH :: int where "ExecutorError_EXECUTOR_ERROR_SM_MAIN_BINARY_XOR_MISMATCH = 62"
definition ExecutorError_EXECUTOR_ERROR_SM_MAIN_MEMALIGN_WRITE_MISMATCH :: int where "ExecutorError_EXECUTOR_ERROR_SM_MAIN_MEMALIGN_WRITE_MISMATCH = 63"
definition ExecutorError_EXECUTOR_ERROR_SM_MAIN_MEMALIGN_WRITE8_MISMATCH :: int where "ExecutorError_EXECUTOR_ERROR_SM_MAIN_MEMALIGN_WRITE8_MISMATCH = 64"
definition ExecutorError_EXECUTOR_ERROR_SM_MAIN_MEMALIGN_READ_MISMATCH :: int where "ExecutorError_EXECUTOR_ERROR_SM_MAIN_MEMALIGN_READ_MISMATCH = 65"
definition ExecutorError_EXECUTOR_ERROR_SM_MAIN_JMPN_OUT_OF_RANGE :: int where "ExecutorError_EXECUTOR_ERROR_SM_MAIN_JMPN_OUT_OF_RANGE = 66"
definition ExecutorError_EXECUTOR_ERROR_SM_MAIN_HASHK_READ_OUT_OF_RANGE :: int where "ExecutorError_EXECUTOR_ERROR_SM_MAIN_HASHK_READ_OUT_OF_RANGE = 67"
definition ExecutorError_EXECUTOR_ERROR_SM_MAIN_HASHP_READ_OUT_OF_RANGE :: int where "ExecutorError_EXECUTOR_ERROR_SM_MAIN_HASHP_READ_OUT_OF_RANGE = 68"
definition ExecutorError_EXECUTOR_ERROR_INVALID_OLD_STATE_ROOT :: int where "ExecutorError_EXECUTOR_ERROR_INVALID_OLD_STATE_ROOT = 69"
definition ExecutorError_EXECUTOR_ERROR_INVALID_OLD_ACC_INPUT_HASH :: int where "ExecutorError_EXECUTOR_ERROR_INVALID_OLD_ACC_INPUT_HASH = 70"
definition ExecutorError_EXECUTOR_ERROR_INVALID_CHAIN_ID :: int where "ExecutorError_EXECUTOR_ERROR_INVALID_CHAIN_ID = 71"
definition ExecutorError_EXECUTOR_ERROR_INVALID_BATCH_L2_DATA :: int where "ExecutorError_EXECUTOR_ERROR_INVALID_BATCH_L2_DATA = 72"
definition ExecutorError_EXECUTOR_ERROR_INVALID_GLOBAL_EXIT_ROOT :: int where "ExecutorError_EXECUTOR_ERROR_INVALID_GLOBAL_EXIT_ROOT = 73"
definition ExecutorError_EXECUTOR_ERROR_INVALID_COINBASE :: int where "ExecutorError_EXECUTOR_ERROR_INVALID_COINBASE = 74"
definition ExecutorError_EXECUTOR_ERROR_INVALID_FROM :: int where "ExecutorError_EXECUTOR_ERROR_INVALID_FROM = 75"
definition ExecutorError_EXECUTOR_ERROR_INVALID_DB_KEY :: int where "ExecutorError_EXECUTOR_ERROR_INVALID_DB_KEY = 76"
definition ExecutorError_EXECUTOR_ERROR_INVALID_DB_VALUE :: int where "ExecutorError_EXECUTOR_ERROR_INVALID_DB_VALUE = 77"
definition ExecutorError_EXECUTOR_ERROR_INVALID_CONTRACTS_BYTECODE_KEY :: int where "ExecutorError_EXECUTOR_ERROR_INVALID_CONTRACTS_BYTECODE_KEY = 78"
definition ExecutorError_EXECUTOR_ERROR_INVALID_CONTRACTS_BYTECODE_VALUE :: int where "ExecutorError_EXECUTOR_ERROR_INVALID_CONTRACTS_BYTECODE_VALUE = 79"
definition ExecutorError_EXECUTOR_ERROR_INVALID_GET_KEY :: int where "ExecutorError_EXECUTOR_ERROR_INVALID_GET_KEY = 80"

definition MaxInt32 :: int where "MaxInt32 = 2147483647"

definition RomErr_cases :: "(RomError \<times> rt_error option) list" where
  "RomErr_cases =
    [(RomError_ROM_ERROR_UNSPECIFIED, Some ErrROMUnspecified),
     (RomError_ROM_ERROR_NO_ERROR, None),
     (RomError_ROM_ERROR_OUT_OF_GAS, Some rt_ErrOutOfGas),
     (RomError_ROM_ERROR_STACK_OVERFLOW, Some rt_ErrStackOverflow),
     (RomError_ROM_ERROR_STACK_UNDERFLOW, Some rt_ErrStackUnderflow),
     (RomError_ROM_ERROR_MAX_CODE_SIZE_EXCEEDED, Some rt_ErrMaxCodeSizeExceeded),
     (RomError_ROM_ERROR_CONTRACT_ADDRESS_COLLISION, Some rt_ErrContractAddressCollision),
     (RomError_ROM_ERROR_EXECUTION_REVERTED, Some rt_ErrExecutionReverted),
     (RomError_ROM_ERROR_OUT_OF_COUNTERS_STEP, Some rt_ErrOutOfCountersStep),
     (RomError_ROM_ERROR_OUT_OF_COUNTERS_KECCAK, Some rt_ErrOutOfCountersKeccak),
     (RomError_ROM_ERROR_OUT_OF_COUNTERS_BINARY, Some rt_ErrOutOfCountersBinary),
     (RomError_ROM_ERROR_OUT_OF_COUNTERS_MEM, Some rt_ErrOutOfCountersMemory),
     (RomError_ROM_ERROR_OUT_OF_COUNTERS_ARITH, Some rt_ErrOutOfCountersArith),
     (RomError_ROM_ERROR_OUT_OF_COUNTERS_PADDING, Some rt_ErrOutOfCountersPadding),
     (RomError_ROM_ERROR_OUT_OF_COUNTERS_POSEIDON, Some rt_ErrOutOfCountersPoseidon),
     (RomError_ROM_ERROR_INVALID_JUMP, Some rt_ErrInvalidJump),
     (RomError_ROM_ERROR_INVALID_OPCODE, Some rt_ErrInvalidOpCode),
     (RomError_ROM_ERROR_INVALID_STATIC, Some rt_ErrInvalidStatic),
     (RomError_ROM_ERROR_INVALID_BYTECODE_STARTS_EF, Some rt_ErrInvalidByteCodeStartsEF),
     (RomError_ROM_ERROR_INTRINSIC_INVALID_SIGNATURE, Some rt_ErrIntrinsicInvalidSignature),
     (RomError_ROM_ERROR_INTRINSIC_INVALID_CHAIN_ID, Some rt_ErrIntrinsicInvalidChainID),
     (RomError_ROM_ERROR_INTRINSIC_INVALID_NONCE, Some rt_ErrIntrinsicInvalidNonce),
     (RomError_ROM_ERROR_INTRINSIC_INVALID_GAS_LIMIT, Some rt_ErrIntrinsicInvalidGasLimit),
     (RomError_ROM_ERROR_INTRINSIC_INVALID_BALANCE, Some rt_ErrIntrinsicInvalidBalance),
     (RomError_ROM_ERROR_INTRINSIC_INVALID_BATCH_GAS_LIMIT, Some rt_ErrIntrinsicInvalidBatchGasLimit),
     (RomError_ROM_ERROR_INTRINSIC_INVALID_SENDER_CODE, Some rt_ErrIntrinsicInvalidSenderCode),
     (RomError_ROM_ERROR_INTRINSIC_TX_GAS_OVERFLOW, Some rt_ErrIntrinsicInvalidTxGasOverflow),
     (RomError_ROM_ERROR_BATCH_DATA_TOO_BIG, Some rt_ErrBatchDataTooBig),
     (RomError_ROM_ERROR_UNSUPPORTED_FORK_ID, Some rt_ErrUnsupportedForkId),
     (RomError_ROM_ERROR_INVALID_RLP, Some rt_ErrInvalidRLP)]"

definition RomErr :: "RomError \<Rightarrow> rt_error option" where
  "RomErr errorCode =
     (case map_of RomErr_cases errorCode of Some err \<Rightarrow> err | None \<Rightarrow> Some (NewError ''unknown error''))"

definition RomErrorCode_cases :: "(rt_error option \<times> RomError) list" where
  "RomErrorCode_cases =
    [(None, RomError_ROM_ERROR_NO_ERROR),
     (Some rt_ErrOutOfGas, RomError_ROM_ERROR_OUT_OF_GAS),
     (Some rt_ErrStackOverflow, RomError_ROM_ERROR_STACK_OVERFLOW),
     (Some rt_ErrStackUnderflow, RomError_ROM_ERROR_STACK_UNDERFLOW),
     (Some rt_ErrMaxCodeSizeExceeded, RomError_ROM_ERROR_MAX_CODE_SIZE_EXCEEDED),
     (Some rt_ErrContractAddressCollision, RomError_ROM_ERROR_CONTRACT_ADDRESS_COLLISION),
     (Some rt_ErrExecutionReverted, RomError_ROM_ERROR_EXECUTION_REVERTED),
     (Some rt_ErrOutOfCountersStep, RomError_ROM_ERROR_OUT_OF_COUNTERS_STEP),
     (Some rt_ErrOutOfCountersKeccak, RomError_ROM_ERROR_OUT_OF_COUNTERS_KECCAK),
     (Some rt_ErrOutOfCountersBinary, RomError_ROM_ERROR_OUT_OF_COUNTERS_BINARY),
     (Some rt_ErrOutOfCountersMemory, RomError_ROM_ERROR_OUT_OF_COUNTERS_MEM),
     (Some rt_ErrOutOfCountersArith, RomError_ROM_ERROR_OUT_OF_COUNTERS_ARITH),
     (Some rt_ErrOutOfCountersPadding, RomError_ROM_ERROR_OUT_OF_COUNTERS_PADDING),
     (Some rt_ErrOutOfCountersPoseidon, RomError_ROM_ERROR_OUT_OF_COUNTERS_POSEIDON),
     (Some rt_ErrInvalidJump, RomError_ROM_ERROR_INVALID_JUMP),
     (Some rt_ErrInvalidOpCode, RomError_ROM_ERROR_INVALID_OPCODE),
     (Some rt_ErrInvalidStatic, RomError_ROM_ERROR_INVALID_STATIC),
     (Some rt_ErrInvalidByteCodeStartsEF, RomError_ROM_ERROR_INVALID_BYTECODE_STARTS_EF),
     (Some rt_ErrIntrinsicInvalidSignature, RomError_ROM_ERROR_INTRINSIC_INVALID_SIGNATURE),
     (Some rt_ErrIntrinsicInvalidChainID, RomError_ROM_ERROR_INTRINSIC_INVALID_CHAIN_ID),
     (Some rt_ErrIntrinsicInvalidNonce, RomError_ROM_ERROR_INTRINSIC_INVALID_NONCE),
     (Some rt_ErrIntrinsicInvalidGasLimit, RomError_ROM_ERROR_INTRINSIC_INVALID_GAS_LIMIT),
     (Some rt_ErrIntrinsicInvalidBalance, RomError_ROM_ERROR_INTRINSIC_INVALID_BALANCE),
     (Some rt_ErrIntrinsicInvalidBatchGasLimit, RomError_ROM_ERROR_INTRINSIC_INVALID_BATCH_GAS_LIMIT),
     (Some rt_ErrIntrinsicInvalidSenderCode, RomError_ROM_ERROR_INTRINSIC_INVALID_SENDER_CODE),
     (Some rt_ErrIntrinsicInvalidTxGasOverflow, RomError_ROM_ERROR_INTRINSIC_TX_GAS_OVERFLOW),
     (Some rt_ErrBatchDataTooBig, RomError_ROM_ERROR_BATCH_DATA_TOO_BIG),
     (Some rt_ErrUnsupportedForkId, RomError_ROM_ERROR_UNSUPPORTED_FORK_ID),
     (Some rt_ErrInvalidRLP, RomError_ROM_ERROR_INVALID_RLP)]"

definition RomErrorCode :: "rt_error option \<Rightarrow> RomError" where
  "RomErrorCode err = (case map_of RomErrorCode_cases err of Some c \<Rightarrow> c | None \<Rightarrow> MaxInt32)"

definition IsROMOutOfCountersError :: "RomError \<Rightarrow> bool" where
  "IsROMOutOfCountersError e \<longleftrightarrow>
     e \<ge> RomError_ROM_ERROR_OUT_OF_COUNTERS_STEP \<and> e \<le> RomError_ROM_ERROR_OUT_OF_COUNTERS_POSEIDON"

definition IsROMOutOfGasError :: "RomError \<Rightarrow> bool" where
  "IsROMOutOfGasError e \<longleftrightarrow> e = RomError_ROM_ERROR_OUT_OF_GAS"

definition IsExecutorOutOfCountersError :: "ExecutorError \<Rightarrow> bool" where
  "IsExecutorOutOfCountersError e \<longleftrightarrow>
     e \<ge> ExecutorError_EXECUTOR_ERROR_SM_MAIN_COUNTERS_OVERFLOW_STEPS \<and>
     e \<le> ExecutorError_EXECUTOR_ERROR_SM_MAIN_COUNTERS_OVERFLOW_POSEIDON"

definition IsExecutorUnspecifiedError :: "ExecutorError \<Rightarrow> bool" where
  "IsExecutorUnspecifiedError e \<longleftrightarrow> e = ExecutorError_EXECUTOR_ERROR_UNSPECIFIED"

definition IsIntrinsicError :: "RomError \<Rightarrow> bool" where
  "IsIntrinsicError e \<longleftrightarrow>
     e \<ge> RomError_ROM_ERROR_INTRINSIC_INVALID_SIGNATURE \<and> e \<le> RomError_ROM_ERROR_INTRINSIC_TX_GAS_OVERFLOW"

definition IsInvalidNonceError :: "RomError \<Rightarrow> bool" where
  "IsInvalidNonceError e \<longleftrightarrow> e = RomError_ROM_ERROR_INTRINSIC_INVALID_NONCE"

definition IsInvalidBalanceError :: "RomError \<Rightarrow> bool" where
  "IsInvalidBalanceError e \<longleftrightarrow> e = RomError_ROM_ERROR_INTRINSIC_INVALID_BALANCE"

definition ExecutorErr_cases :: "(ExecutorError \<times> rt_error option) list" where
  "ExecutorErr_cases =
    [(ExecutorError_EXECUTOR_ERROR_UNSPECIFIED, Some ErrExecutorUnspecified),
     (ExecutorError_EXECUTOR_ERROR_NO_ERROR, None),
     (ExecutorError_EXECUTOR_ERROR_DB_ERROR, Some rt_ErrExecutorDBError),
     (ExecutorError_EXECUTOR_ERROR_SM_MAIN_COUNTERS_OVERFLOW_STEPS, Some rt_ErrExecutorSMMainCountersOverflowSteps),
     (ExecutorError_EXECUTOR_ERROR_SM_MAIN_COUNTERS_OVERFLOW_KECCAK, Some rt_ErrExecutorSMMainCountersOverflowKeccak),
     (ExecutorError_EXECUTOR_ERROR_SM_MAIN_COUNTERS_OVERFLOW_BINARY, Some rt_ErrExecutorSMMainCountersOverflowBinary),
     (ExecutorError_EXECUTOR_ERROR_SM_MAIN_COUNTERS_OVERFLOW_MEM, Some rt_ErrExecutorSMMainCountersOverflowMem),
     (ExecutorError_EXECUTOR_ERROR_SM_MAIN_COUNTERS_OVERFLOW_ARITH, Some rt_ErrExecutorSMMainCountersOverflowArith),
     (ExecutorError_EXECUTOR_ERROR_SM_MAIN_COUNTERS_OVERFLOW_PADDING, Some rt_ErrExecutorSMMainCountersOverflowPadding),
     (ExecutorError_EXECUTOR_ERROR_SM_MAIN_COUNTERS_OVERFLOW_POSEIDON, Some rt_ErrExecutorSMMainCountersOverflowPoseidon),
     (ExecutorError_EXECUTOR_ERROR_UNSUPPORTED_FORK_ID, Some rt_ErrExecutorUnsupportedForkId),
     (ExecutorError_EXECUTOR_ERROR_BALANCE_MISMATCH, Some rt_ErrExecutorBalanceMismatch),
     (ExecutorError_EXECUTOR_ERROR_FEA2SCALAR, Some rt_ErrExecutorFEA2Scalar),
     (ExecutorError_EXECUTOR_ERROR_TOS32, Some rt_ErrExecutorTOS32),
     (ExecutorError_EXECUTOR_ERROR_SM_MAIN_INVALID_UNSIGNED_TX, Some rt_ErrExecutorSMMainInvalidUnsignedTx),
     (ExecutorError_EXECUTOR_ERROR_SM_MAIN_INVALID_NO_COUNTERS, Some rt_ErrExecutorSMMainInvalidNoCounters),
     (ExecutorError_EXECUTOR_ERROR_SM_MAIN_ARITH_ECRECOVER_DIVIDE_BY_ZERO, Some rt_ErrExecutorSMMainArithECRecoverDivideByZero),
     (ExecutorError_EXECUTOR_ERROR_SM_MAIN_ADDRESS_OUT_OF_RANGE, Some rt_ErrExecutorSMMainAddressOutOfRange),
     (ExecutorError_EXECUTOR_ERROR_SM_MAIN_ADDRESS_NEGATIVE, Some rt_ErrExecutorSMMainAddressNegative),
     (ExecutorError_EXECUTOR_ERROR_SM_MAIN_STORAGE_INVALID_KEY, Some rt_ErrExecutorSMMainStorageInvalidKey),
     (ExecutorError_EXECUTOR_ERROR_SM_MAIN_HASHK, Some rt_ErrExecutorSMMainHashK),
     (ExecutorError_EXECUTOR_ERROR_SM_MAIN_HASHK_SIZE_OUT_OF_RANGE, Some rt_ErrExecutorSMMainHashKSizeOutOfRange),
     (ExecutorError_EXECUTOR_ERROR_SM_MAIN_HASHK_POSITION_NEGATIVE, Some rt_ErrExecutorSMMainHashKPositionNegative),
     (ExecutorError_EXECUTOR_ERROR_SM_MAIN_HASHK_POSITION_PLUS_SIZE_OUT_OF_RANGE, Some rt_ErrExecutorSMMainHashKPositionPlusSizeOutOfRange),
     (ExecutorError_EXECUTOR_ERROR_SM_MAIN_HASHKDIGEST_ADDRESS_NOT_FOUND, Some rt_ErrExecutorSMMainHashKDigestAddressNotFound),
     (ExecutorError_EXECUTOR_ERROR_SM_MAIN_HASHKDIGEST_NOT_COMPLETED, Some rt_ErrExecutorSMMainHashKDigestNotCompleted),
     (ExecutorError_EXECUTOR_ERROR_SM_MAIN_HASHP, Some rt_ErrExecutorSMMainHashP),
     (ExecutorError_EXECUTOR_ERROR_SM_MAIN_HASHP_SIZE_OUT_OF_RANGE, Some rt_ErrExecutorSMMainHashPSizeOutOfRange),
     (ExecutorError_EXECUTOR_ERROR_SM_MAIN_HASHP_POSITION_NEGATIVE, Some rt_ErrExecutorSMMainHashPPositionNegative),
     (ExecutorError_EXECUTOR_ERROR_SM_MAIN_HASHP_POSITION_PLUS_SIZE_OUT_OF_RANGE, Some rt_ErrExecutorSMMainHashPPositionPlusSizeOutOfRange),
     (ExecutorError_EXECUTOR_ERROR_SM_MAIN_HASHPDIGEST_ADDRESS_NOT_FOUND, Some rt_ErrExecutorSMMainHashPDigestAddressNotFound),
     (ExecutorError_EXECUTOR_ERROR_SM_MAIN_HASHPDIGEST_NOT_COMPLETED, Some rt_ErrExecutorSMMainHashPDigestNotCompleted),
     (ExecutorError_EXECUTOR_ERROR_SM_MAIN_MEMALIGN_OFFSET_OUT_OF_RANGE, Some rt_ErrExecutorSMMainMemAlignOffsetOutOfRange),
     (ExecutorError_EXECUTOR_ERROR_SM_MAIN_MULTIPLE_FREEIN, Some rt_ErrExecutorSMMainMultipleFreeIn),
     (ExecutorError_EXECUTOR_ERROR_SM_MAIN_ASSERT, Some rt_ErrExecutorSMMainAssert),
     (ExecutorError_EXECUTOR_ERROR_SM_MAIN_MEMORY, Some rt_ErrExecutorSMMainMemory),
     (ExecutorError_EXECUTOR_ERROR_SM_MAIN_STORAGE_READ_MISMATCH, Some rt_ErrExecutorSMMainStorageReadMismatch),
     (ExecutorError_EXECUTOR_ERROR_SM_MAIN_STORAGE_WRITE_MISMATCH, Some rt_ErrExecutorSMMainStorageWriteMismatch),
     (ExecutorError_EXECUTOR_ERROR_SM_MAIN_HASHK_VALUE_MISMATCH, Some rt_ErrExecutorSMMainHashKValueMismatch),
     (ExecutorError_EXECUTOR_ERROR_SM_MAIN_HASHK_PADDING_MISMATCH, Some rt_ErrExecutorSMMainHashKPaddingMismatch),
     (ExecutorError_EXECUTOR_ERROR_SM_MAIN_HASHK_SIZE_MISMATCH, Some rt_ErrExecutorSMMainHashKSizeMismatch),
     (ExecutorError_EXECUTOR_ERROR_SM_MAIN_HASHKLEN_LENGTH_MISMATCH, Some rt_ErrExecutorSMMainHashKLenLengthMismatch),
     (ExecutorError_EXECUTOR_ERROR_SM_MAIN_HASHKLEN_CALLED_TWICE, Some rt_ErrExecutorSMMainHashKLenCalledTwice),
     (ExecutorError_EXECUTOR_ERROR_SM_MAIN_HASHKDIGEST_NOT_FOUND, Some rt_ErrExecutorSMMainHashKDigestNotFound),
     (ExecutorError_EXECUTOR_ERROR_SM_MAIN_HASHKDIGEST_DIGEST_MISMATCH, Some rt_ErrExecutorSMMainHashKDigestDigestMismatch),
     (ExecutorError_EXECUTOR_ERROR_SM_MAIN_HASHKDIGEST_CALLED_TWICE, Some rt_ErrExecutorSMMainHashKDigestCalledTwice),
     (ExecutorError_EXECUTOR_ERROR_SM_MAIN_HASHP_VALUE_MISMATCH, Some rt_ErrExecutorSMMainHashPValueMismatch),
     (ExecutorError_EXECUTOR_ERROR_SM_MAIN_HASHP_PADDING_MISMATCH, Some rt_ErrExecutorSMMainHashPPaddingMismatch),
     (ExecutorError_EXECUTOR_ERROR_SM_MAIN_HASHP_SIZE_MISMATCH, Some rt_ErrExecutorSMMainHashPSizeMismatch),
     (ExecutorError_EXECUTOR_ERROR_SM_MAIN_HASHPLEN_LENGTH_MISMATCH, Some rt_ErrExecutorSMMainHashPLenLengthMismatch),
     (ExecutorError_EXECUTOR_ERROR_SM_MAIN_HASHPLEN_CALLED_TWICE, Some rt_ErrExecutorSMMainHashPLenCalledTwice),
     (ExecutorError_EXECUTOR_ERROR_SM_MAIN_HASHPDIGEST_DIGEST_MISMATCH, Some rt_ErrExecutorSMMainHashPDigestDigestMismatch),
     (ExecutorError_EXECUTOR_ERROR_SM_MAIN_HASHPDIGEST_CALLED_TWICE, Some rt_ErrExecutorSMMainHashPDigestCalledTwice),
     (ExecutorError_EXECUTOR_ERROR_SM_MAIN_ARITH_MISMATCH, Some rt_ErrExecutorSMMainArithMismatch),
     (ExecutorError_EXECUTOR_ERROR_SM_MAIN_ARITH_ECRECOVER_MISMATCH, Some rt_ErrExecutorSMMainArithECRecoverMismatch),
     (ExecutorError_EXECUTOR_ERROR_SM_MAIN_BINARY_ADD_MISMATCH, Some rt_ErrExecutorSMMainBinaryAddMismatch),
     (ExecutorError_EXECUTOR_ERROR_SM_MAIN_BINARY_SUB_MISMATCH, Some rt_ErrExecutorSMMainBinarySubMismatch),
     (ExecutorError_EXECUTOR_ERROR_SM_MAIN_BINARY_LT_MISMATCH, Some rt_ErrExecutorSMMainBinaryLtMismatch),
     (ExecutorError_EXECUTOR_ERROR_SM_MAIN_BINARY_SLT_MISMATCH, Some rt_ErrExecutorSMMainBinarySLtMismatch),
     (ExecutorError_EXECUTOR_ERROR_SM_MAIN_BINARY_EQ_MISMATCH, Some rt_ErrExecutorSMMainBinaryEqMismatch),
     (ExecutorError_EXECUTOR_ERROR_SM_MAIN_BINARY_AND_MISMATCH, Some rt_ErrExecutorSMMainBinaryAndMismatch),
     (ExecutorError_EXECUTOR_ERROR_SM_MAIN_BINARY_OR_MISMATCH, Some rt_ErrExecutorSMMainBinaryOrMismatch),
     (ExecutorError_EXECUTOR_ERROR_SM_MAIN_BINARY_XOR_MISMATCH, Some rt_ErrExecutorSMMainBinaryXorMismatch),
     (ExecutorError_EXECUTOR_ERROR_SM_MAIN_MEMALIGN_WRITE_MISMATCH, Some rt_ErrExecutorSMMainMemAlignWriteMismatch),
     (ExecutorError_EXECUTOR_ERROR_SM_MAIN_MEMALIGN_WRITE8_MISMATCH, Some rt_ErrExecutorSMMainMemAlignWrite8Mismatch),
     (ExecutorError_EXECUTOR_ERROR_SM_MAIN_MEMALIGN_READ_MISMATCH, Some rt_ErrExecutorSMMainMemAlignReadMismatch),
     (ExecutorError_EXECUTOR_ERROR_SM_MAIN_JMPN_OUT_OF_RANGE, Some rt_ErrExecutorSMMainJmpnOutOfRange),
     (ExecutorError_EXECUTOR_ERROR_SM_MAIN_HASHK_READ_OUT_OF_RANGE, Some rt_ErrExecutorSMMainHashKReadOutOfRange),
     (ExecutorError_EXECUTOR_ERROR_SM_MAIN_HASHP_READ_OUT_OF_RANGE, Some rt_ErrExecutorSMMainHashPReadOutOfRange),
     (ExecutorError_EXECUTOR_ERROR_INVALID_OLD_STATE_ROOT, Some rt_ErrExecutorErrorInvalidOldStateRoot),
     (ExecutorError_EXECUTOR_ERROR_INVALID_OLD_ACC_INPUT_HASH, Some rt_ErrExecutorErrorInvalidOldAccInputHash),
     (ExecutorError_EXECUTOR_ERROR_INVALID_CHAIN_ID, Some rt_ErrExecutorErrorInvalidChainId),
     (ExecutorError_EXECUTOR_ERROR_INVALID_BATCH_L2_DATA, Some rt_ErrExecutorErrorInvalidBatchL2Data),
     (ExecutorError_EXECUTOR_ERROR_INVALID_GLOBAL_EXIT_ROOT, Some rt_ErrExecutorErrorInvalidGlobalExitRoot),
     (ExecutorError_EXECUTOR_ERROR_INVALID_COINBASE, Some rt_ErrExecutorErrorInvalidCoinbase),
     (ExecutorError_EXECUTOR_ERROR_INVALID_FROM, Some rt_ErrExecutorErrorInvalidFrom),
     (ExecutorError_EXECUTOR_ERROR_INVALID_DB_KEY, Some rt_ErrExecutorErrorInvalidDbKey),
     (ExecutorError_EXECUTOR_ERROR_INVALID_DB_VALUE, Some rt_ErrExecutorErrorInvalidDbValue),
     (ExecutorError_EXECUTOR_ERROR_INVALID_CONTRACTS_BYTECODE_KEY, Some rt_ErrExecutorErrorInvalidContractsBytecodeKey),
     (ExecutorError_EXECUTOR_ERROR_INVALID_CONTRACTS_BYTECODE_VALUE, Some rt_ErrExecutorErrorInvalidContractsBytecodeValue),
     (ExecutorError_EXECUTOR_ERROR_INVALID_GET_KEY, Some rt_ErrExecutorErrorInvalidGetKey)]"

definition ExecutorErr :: "ExecutorError \<Rightarrow> rt_error option" where
  "ExecutorErr errorCode =
     (case map_of ExecutorErr_cases errorCode of Some err \<Rightarrow> err | None \<Rightarrow> Some ErrExecutorUnknown)"

definition ExecutorErrorCode_cases :: "(rt_error option \<times> ExecutorError) list" where
  "ExecutorErrorCode_cases =
    [(None, ExecutorError_EXECUTOR_ERROR_NO_ERROR),
     (Some rt_ErrExecutorDBError, ExecutorError_EXECUTOR_ERROR_DB_ERROR),
     (Some rt_ErrExecutorSMMainCountersOverflowSteps, ExecutorError_EXECUTOR_ERROR_SM_MAIN_COUNTERS_OVERFLOW_STEPS),
     (Some rt_ErrExecutorSMMainCountersOverflowKeccak, ExecutorError_EXECUTOR_ERROR_SM_MAIN_COUNTERS_OVERFLOW_KECCAK),
     (Some rt_ErrExecutorSMMainCountersOverflowBinary, ExecutorError_EXECUTOR_ERROR_SM_MAIN_COUNTERS_OVERFLOW_BINARY),
     (Some rt_ErrExecutorSMMainCountersOverflowMem, ExecutorError_EXECUTOR_ERROR_SM_MAIN_COUNTERS_OVERFLOW_MEM),
     (Some rt_ErrExecutorSMMainCountersOverflowArith, ExecutorError_EXECUTOR_ERROR_SM_MAIN_COUNTERS_OVERFLOW_ARITH),
     (Some rt_ErrExecutorSMMainCountersOverflowPadding, ExecutorError_EXECUTOR_ERROR_SM_MAIN_COUNTERS_OVERFLOW_PADDING),
     (Some rt_ErrExecutorSMMainCountersOverflowPoseidon, ExecutorError_EXECUTOR_ERROR_SM_MAIN_COUNTERS_OVERFLOW_POSEIDON),
     (Some rt_ErrExecutorUnsupportedForkId, ExecutorError_EXECUTOR_ERROR_UNSUPPORTED_FORK_ID),
     (Some rt_ErrExecutorBalanceMismatch, ExecutorError_EXECUTOR_ERROR_BALANCE_MISMATCH),
     (Some rt_ErrExecutorFEA2Scalar, ExecutorError_EXECUTOR_ERROR_FEA2SCALAR),
     (Some rt_ErrExecutorTOS32, ExecutorError_EXECUTOR_ERROR_TOS32),
     (Some rt_ErrExecutorSMMainInvalidUnsignedTx, ExecutorError_EXECUTOR_ERROR_SM_MAIN_INVALID_UNSIGNED_TX),
     (Some rt_ErrExecutorSMMainInvalidNoCounters, ExecutorError_EXECUTOR_ERROR_SM_MAIN_INVALID_NO_COUNTERS),
     (Some rt_ErrExecutorSMMainArithECRecoverDivideByZero, ExecutorError_EXECUTOR_ERROR_SM_MAIN_ARITH_ECRECOVER_DIVIDE_BY_ZERO),
     (Some rt_ErrExecutorSMMainAddressOutOfRange, ExecutorError_EXECUTOR_ERROR_SM_MAIN_ADDRESS_OUT_OF_RANGE),
     (Some rt_ErrExecutorSMMainAddressNegative, ExecutorError_EXECUTOR_ERROR_SM_MAIN_ADDRESS_NEGATIVE),
     (Some rt_ErrExecutorSMMainStorageInvalidKey, ExecutorError_EXECUTOR_ERROR_SM_MAIN_STORAGE_INVALID_KEY),
     (Some rt_ErrExecutorSMMainHashK, ExecutorError_EXECUTOR_ERROR_SM_MAIN_HASHK),
     (Some rt_ErrExecutorSMMainHashKSizeOutOfRange, ExecutorError_EXECUTOR_ERROR_SM_MAIN_HASHK_SIZE_OUT_OF_RANGE),
     (Some rt_ErrExecutorSMMainHashKPositionNegative, ExecutorError_EXECUTOR_ERROR_SM_MAIN_HASHK_POSITION_NEGATIVE),
     (Some rt_ErrExecutorSMMainHashKPositionPlusSizeOutOfRange, ExecutorError_EXECUTOR_ERROR_SM_MAIN_HASHK_POSITION_PLUS_SIZE_OUT_OF_RANGE),
     (Some rt_ErrExecutorSMMainHashKDigestAddressNotFound, ExecutorError_EXECUTOR_ERROR_SM_MAIN_HASHKDIGEST_ADDRESS_NOT_FOUND),
     (Some rt_ErrExecutorSMMainHashKDigestNotCompleted, ExecutorError_EXECUTOR_ERROR_SM_MAIN_HASHKDIGEST_NOT_COMPLETED),
     (Some rt_ErrExecutorSMMainHashP, ExecutorError_EXECUTOR_ERROR_SM_MAIN_HASHP),
     (Some rt_ErrExecutorSMMainHashPSizeOutOfRange, ExecutorError_EXECUTOR_ERROR_SM_MAIN_HASHP_SIZE_OUT_OF_RANGE),
     (Some rt_ErrExecutorSMMainHashPPositionNegative, ExecutorError_EXECUTOR_ERROR_SM_MAIN_HASHP_POSITION_NEGATIVE),
     (Some rt_ErrExecutorSMMainHashPPositionPlusSizeOutOfRange, ExecutorError_EXECUTOR_ERROR_SM_MAIN_HASHP_POSITION_PLUS_SIZE_OUT_OF_RANGE),
     (Some rt_ErrExecutorSMMainHashPDigestAddressNotFound, ExecutorError_EXECUTOR_ERROR_SM_MAIN_HASHPDIGEST_ADDRESS_NOT_FOUND),
     (Some rt_ErrExecutorSMMainHashPDigestNotCompleted, ExecutorError_EXECUTOR_ERROR_SM_MAIN_HASHPDIGEST_NOT_COMPLETED),
     (Some rt_ErrExecutorSMMainMemAlignOffsetOutOfRange, ExecutorError_EXECUTOR_ERROR_SM_MAIN_MEMALIGN_OFFSET_OUT_OF_RANGE),
     (Some rt_ErrExecutorSMMainMultipleFreeIn, ExecutorError_EXECUTOR_ERROR_SM_MAIN_MULTIPLE_FREEIN),
     (Some rt_ErrExecutorSMMainAssert, ExecutorError_EXECUTOR_ERROR_SM_MAIN_ASSERT),
     (Some rt_ErrExecutorSMMainMemory, ExecutorError_EXECUTOR_ERROR_SM_MAIN_MEMORY),
     (Some rt_ErrExecutorSMMainStorageReadMismatch, ExecutorError_EXECUTOR_ERROR_SM_MAIN_STORAGE_READ_MISMATCH),
     (Some rt_ErrExecutorSMMainStorageWriteMismatch, ExecutorError_EXECUTOR_ERROR_SM_MAIN_STORAGE_WRITE_MISMATCH),
     (Some rt_ErrExecutorSMMainHashKValueMismatch, ExecutorError_EXECUTOR_ERROR_SM_MAIN_HASHK_VALUE_MISMATCH),
     (Some rt_ErrExecutorSMMainHashKPaddingMismatch, ExecutorError_EXECUTOR_ERROR_SM_MAIN_HASHK_PADDING_MISMATCH),
     (Some rt_ErrExecutorSMMainHashKSizeMismatch, ExecutorError_EXECUTOR_ERROR_SM_MAIN_HASHK_SIZE_MISMATCH),
     (Some rt_ErrExecutorSMMainHashKLenLengthMismatch, ExecutorError_EXECUTOR_ERROR_SM_MAIN_HASHKLEN_LENGTH_MISMATCH),
     (Some rt_ErrExecutorSMMainHashKLenCalledTwice, ExecutorError_EXECUTOR_ERROR_SM_MAIN_HASHKLEN_CALLED_TWICE),
     (Some rt_ErrExecutorSMMainHashKDigestNotFound, ExecutorError_EXECUTOR_ERROR_SM_MAIN_HASHKDIGEST_NOT_FOUND),
     (Some rt_ErrExecutorSMMainHashKDigestDigestMismatch, ExecutorError_EXECUTOR_ERROR_SM_MAIN_HASHKDIGEST_DIGEST_MISMATCH),
     (Some rt_ErrExecutorSMMainHashKDigestCalledTwice, ExecutorError_EXECUTOR_ERROR_SM_MAIN_HASHKDIGEST_CALLED_TWICE),
     (Some rt_ErrExecutorSMMainHashPValueMismatch, ExecutorError_EXECUTOR_ERROR_SM_MAIN_HASHP_VALUE_MISMATCH),
     (Some rt_ErrExecutorSMMainHashPPaddingMismatch, ExecutorError_EXECUTOR_ERROR_SM_MAIN_HASHP_PADDING_MISMATCH),
     (Some rt_ErrExecutorSMMainHashPSizeMismatch, ExecutorError_EXECUTOR_ERROR_SM_MAIN_HASHP_SIZE_MISMATCH),
     (Some rt_ErrExecutorSMMainHashPLenLengthMismatch, ExecutorError_EXECUTOR_ERROR_SM_MAIN_HASHPLEN_LENGTH_MISMATCH),
     (Some rt_ErrExecutorSMMainHashPLenCalledTwice, ExecutorError_EXECUTOR_ERROR_SM_MAIN_HASHPLEN_CALLED_TWICE),
     (Some rt_ErrExecutorSMMainHashPDigestDigestMismatch, ExecutorError_EXECUTOR_ERROR_SM_MAIN_HASHPDIGEST_DIGEST_MISMATCH),
     (Some rt_ErrExecutorSMMainHashPDigestCalledTwice, ExecutorError_EXECUTOR_ERROR_SM_MAIN_HASHPDIGEST_CALLED_TWICE),
     (Some rt_ErrExecutorSMMainArithMismatch, ExecutorError_EXECUTOR_ERROR_SM_MAIN_ARITH_MISMATCH),
     (Some rt_ErrExecutorSMMainArithECRecoverMismatch, ExecutorError_EXECUTOR_ERROR_SM_MAIN_ARITH_ECRECOVER_MISMATCH),
     (Some rt_ErrExecutorSMMainBinaryAddMismatch, ExecutorError_EXECUTOR_ERROR_SM_MAIN_BINARY_ADD_MISMATCH),
     (Some rt_ErrExecutorSMMainBinarySubMismatch, ExecutorError_EXECUTOR_ERROR_SM_MAIN_BINARY_SUB_MISMATCH),
     (Some rt_ErrExecutorSMMainBinaryLtMismatch, ExecutorError_EXECUTOR_ERROR_SM_MAIN_BINARY_LT_MISMATCH),
     (Some rt_ErrExecutorSMMainBinarySLtMismatch, ExecutorError_EXECUTOR_ERROR_SM_MAIN_BINARY_SLT_MISMATCH),
     (Some rt_ErrExecutorSMMainBinaryEqMismatch, ExecutorError_EXECUTOR_ERROR_SM_MAIN_BINARY_EQ_MISMATCH),
     (Some rt_ErrExecutorSMMainBinaryAndMismatch, ExecutorError_EXECUTOR_ERROR_SM_MAIN_BINARY_AND_MISMATCH),
     (Some rt_ErrExecutorSMMainBinaryOrMismatch, ExecutorError_EXECUTOR_ERROR_SM_MAIN_BINARY_OR_MISMATCH),
     (Some rt_ErrExecutorSMMainBinaryXorMismatch, ExecutorError_EXECUTOR_ERROR_SM_MAIN_BINARY_XOR_MISMATCH),
     (Some rt_ErrExecutorSMMainMemAlignWriteMismatch, ExecutorError_EXECUTOR_ERROR_SM_MAIN_MEMALIGN_WRITE_MISMATCH),
     (Some rt_ErrExecutorSMMainMemAlignWrite8Mismatch, ExecutorError_EXECUTOR_ERROR_SM_MAIN_MEMALIGN_WRITE8_MISMATCH),
     (Some rt_ErrExecutorSMMainMemAlignReadMismatch, ExecutorError_EXECUTOR_ERROR_SM_MAIN_MEMALIGN_READ_MISMATCH),
     (Some rt_ErrExecutorSMMainJmpnOutOfRange, ExecutorError_EXECUTOR_ERROR_SM_MAIN_JMPN_OUT_OF_RANGE),
     (Some rt_ErrExecutorSMMainHashKReadOutOfRange, ExecutorError_EXECUTOR_ERROR_SM_MAIN_HASHK_READ_OUT_OF_RANGE),
     (Some rt_ErrExecutorSMMainHashPReadOutOfRange, ExecutorError_EXECUTOR_ERROR_SM_MAIN_HASHP_READ_OUT_OF_RANGE),
     (Some rt_ErrExecutorErrorInvalidOldStateRoot, ExecutorError_EXECUTOR_ERROR_INVALID_OLD_STATE_ROOT),
     (Some rt_ErrExecutorErrorInvalidOldAccInputHash, ExecutorError_EXECUTOR_ERROR_INVALID_OLD_ACC_INPUT_HASH),
     (Some rt_ErrExecutorErrorInvalidChainId, ExecutorError_EXECUTOR_ERROR_INVALID_CHAIN_ID),
     (Some rt_ErrExecutorErrorInvalidBatchL2Data, ExecutorError_EXECUTOR_ERROR_INVALID_BATCH_L2_DATA),
     (Some rt_ErrExecutorErrorInvalidGlobalExitRoot, ExecutorError_EXECUTOR_ERROR_INVALID_GLOBAL_EXIT_ROOT),
     (Some rt_ErrExecutorErrorInvalidCoinbase, ExecutorError_EXECUTOR_ERROR_INVALID_COINBASE),
     (Some rt_ErrExecutorErrorInvalidFrom, ExecutorError_EXECUTOR_ERROR_INVALID_FROM),
     (Some rt_ErrExecutorErrorInvalidDbKey, ExecutorError_EXECUTOR_ERROR_INVALID_DB_KEY),
     (Some rt_ErrExecutorErrorInvalidDbValue, ExecutorError_EXECUTOR_ERROR_INVALID_DB_VALUE),
     (Some rt_ErrExecutorErrorInvalidContractsBytecodeKey, ExecutorError_EXECUTOR_ERROR_INVALID_CONTRACTS_BYTECODE_KEY),
     (Some rt_ErrExecutorErrorInvalidContractsBytecodeValue, ExecutorError_EXECUTOR_ERROR_INVALID_CONTRACTS_BYTECODE_VALUE),
     (Some rt_ErrExecutorErrorInvalidGetKey, ExecutorError_EXECUTOR_ERROR_INVALID_GET_KEY)]"

definition ExecutorErrorCode :: "rt_error option \<Rightarrow> ExecutorError" where
  "ExecutorErrorCode err = (case map_of ExecutorErrorCode_cases err of Some c \<Rightarrow> c | None \<Rightarrow> MaxInt32)"

text \<open>\<open>state/converters.go\<close>.\<close>

definition IsStateRootChanged :: "RomError \<Rightarrow> bool" where
  "IsStateRootChanged err \<longleftrightarrow>
     \<not> IsIntrinsicError err \<and> \<not> IsROMOutOfCountersError err \<and> err \<noteq> RomError_ROM_ERROR_INVALID_RLP"

section \<open>Properties\<close>

text \<open>A switch over a contiguous range of codes, followed by the switch back.\<close>

lemma switch_back:
  assumes "map fst cs = upto 0 (int n)" "list_all (\<lambda>(c, e). back e = (if c = 0 then d else c)) cs" "back u = d"
  shows "back (case map_of cs c of Some e \<Rightarrow> e | None \<Rightarrow> u) = (if 1 \<le> c \<and> c \<le> int n then c else d)"
proof (cases "map_of cs c")
  case None
  then have "c \<notin> set (map fst cs)" by (simp add: map_of_eq_None_iff)
  with None assms(1,3) show ?thesis by auto
next
  case (Some e)
  then have m: "(c, e) \<in> set cs" by (rule map_of_SomeD)
  then have "c \<in> set (upto 0 (int n))" using assms(1) by (metis fst_conv image_eqI list.set_map)
  moreover have "back e = (if c = 0 then d else c)" using m assms(2) by (auto simp: list_all_iff)
  ultimately show ?thesis using Some by auto
qed

text \<open>
  A code of the executor survives the way to an error and back, except the unspecified one:
  both switches back lack a case for it, and it becomes the code of an unknown error.
\<close>

theorem error_codes_round_trip:
  "RomErrorCode (RomErr c) = (if 1 \<le> c \<and> c \<le> 29 then c else MaxInt32) \<and>
   ExecutorErrorCode (ExecutorErr e) = (if 1 \<le> e \<and> e \<le> 80 then e else MaxInt32)"
proof
  have "map fst RomErr_cases = upto 0 (int 29)" "RomErrorCode (Some (NewError ''unknown error'')) = MaxInt32"
    "list_all (\<lambda>(c, e). RomErrorCode e = (if c = 0 then MaxInt32 else c)) RomErr_cases" by code_simp+
  from switch_back [of RomErr_cases 29 RomErrorCode MaxInt32 _ c, OF this(1,3,2)] show "RomErrorCode (RomErr c) = (if 1 \<le> c \<and> c \<le> 29 then c else MaxInt32)"
    by (simp add: RomErr_def)
  have "map fst ExecutorErr_cases = upto 0 (int 80)" "ExecutorErrorCode (Some ErrExecutorUnknown) = MaxInt32"
    "list_all (\<lambda>(c, e). ExecutorErrorCode e = (if c = 0 then MaxInt32 else c)) ExecutorErr_cases" by code_simp+
  from switch_back [of ExecutorErr_cases 80 ExecutorErrorCode MaxInt32 _ e, OF this(1,3,2)]
  show "ExecutorErrorCode (ExecutorErr e) = (if 1 \<le> e \<and> e \<le> 80 then e else MaxInt32)"
    by (simp add: ExecutorErr_def)
qed

end
