(* ===== verification/Finalizer.thy ===== *)
theory Finalizer
  imports WorkerRuns DataStream ExecutorErrors
begin

text \<open>
  The finalizer of the sequencer, first part: processing one transaction (\<open>processTransaction\<close>,
  \<open>handleProcessTransactionResponse\<close>, \<open>handleProcessTransactionError\<close> and what they call in
  \<open>sequencer/finalizer.go\<close>) over the model of the worker. The executor, the database manager and
  the calculation of the effective gas price in floating point are parameters, the record
  \<open>fin_env\<close>. A run can end in a panic, in \<open>halt\<close> or another wait that never returns,
  or in \<open>log.Fatal\<close>: the values of \<open>stop\<close>.
  What the goroutines of \<open>handleProcessTransactionError\<close> write to the pool is the list
  \<open>statusUpdates\<close>; the cancellation of the context and the capacity of the channel are left out.
\<close>

section \<open>Data\<close>

record ProcessRequest =
  pr_BatchNumber :: u64
  pr_GlobalExitRoot :: hash
  pr_OldStateRoot :: hash
  pr_OldAccInputHash :: hash
  pr_Transactions :: bytes
  pr_Coinbase :: address
  pr_Timestamp :: int
  pr_Caller :: string

record ProcessTransactionResponse =
  ptr_TxHash :: hash
  ptr_Type :: u32
  ptr_ReturnValue :: bytes
  ptr_GasLeft :: u64
  ptr_GasUsed :: u64
  ptr_GasRefunded :: u64
  ptr_RomError :: "rt_error option"
  ptr_CreateAddress :: address
  ptr_StateRoot :: hash
  ptr_ChangesStateRoot :: bool
  ptr_Tx :: LegacyTx
  ptr_EffectiveGasPrice :: string
  ptr_EffectivePercentage :: u32
  ptr_HasGaspriceOpcode :: bool
  ptr_HasBalanceOpcode :: bool

record ProcessBatchResponse =
  pbr_NewStateRoot :: hash
  pbr_NewAccInputHash :: hash
  pbr_NewLocalExitRoot :: hash
  pbr_NewBatchNumber :: u64
  pbr_UsedZkCounters :: ZKCounters
  pbr_Responses :: "ProcessTransactionResponse list"
  pbr_ExecutorError :: "rt_error option"
  pbr_ReadWriteAddresses :: "(address, InfoReadWrite) gomap"
  pbr_IsRomLevelError :: bool
  pbr_IsExecutorLevelError :: bool
  pbr_IsRomOOCError :: bool
  pbr_FlushID :: u64
  pbr_StoredFlushID :: u64
  pbr_ProverID :: string

record StateForcedBatch =
  fb_BlockNumber :: u64
  fb_ForcedBatchNumber :: u64
  fb_Sequencer :: address
  fb_GlobalExitRoot :: hash
  fb_RawTxsData :: bytes
  fb_ForcedAt :: int

text \<open>\<open>state.ClosingReason\<close> and \<open>pool.TxStatus\<close> are strings.\<close>

definition EmptyClosingReason :: string where "EmptyClosingReason = []"
definition BatchFullClosingReason :: string where "BatchFullClosingReason = ''Batch is full''"
definition BatchAlmostFullClosingReason :: string where "BatchAlmostFullClosingReason = ''Batch is almost full''"
definition TimeoutResolutionDeadlineClosingReason :: string where
  "TimeoutResolutionDeadlineClosingReason = ''timeout resolution deadline''"
definition GlobalExitRootDeadlineClosingReason :: string where
  "GlobalExitRootDeadlineClosingReason = ''Global Exit Root deadline''"

definition TxStatusInvalid :: string where "TxStatusInvalid = ''invalid''"
definition TxStatusFailed :: string where "TxStatusFailed = ''failed''"

definition forkId5 :: u64 where "forkId5 = 5"

definition ZeroHash :: hash where "ZeroHash = 0"

record WipBatch =
  batchNumber :: u64
  coinbase :: address
  initialStateRoot :: hash
  stateRoot :: hash
  localExitRoot :: hash
  wb_timestamp :: int
  globalExitRoot :: hash
  remainingResources :: BatchResources
  countOfTxs :: int
  closingReason :: string

record transactionToStore =
  ts_hash :: hash
  ts_from :: address
  ts_response :: ProcessTransactionResponse
  ts_batchResponse :: ProcessBatchResponse
  ts_batchNumber :: u64
  ts_timestamp :: int
  ts_coinbase :: address
  ts_oldStateRoot :: hash
  ts_isForcedBatch :: bool
  ts_flushId :: u64
  ts_egpLog :: "EffectiveGasPriceLog option"

record FinalizerCfg =
  GERDeadlineTimeout :: int
  ForcedBatchDeadlineTimeout :: int
  ResourcePercentageToCloseBatch :: u32
  TimestampResolution :: int
  StopSequencerOnBatchNum :: u64
  SequentialReprocessFullBatch :: bool

text \<open>
  The state of the finalizer. \<open>f_batch\<close> is a pointer, which can be nil; \<open>f_stream\<close> are the entries
  of the stream server, if there is one.
\<close>

record finalizer =
  f_cfg :: FinalizerCfg
  f_sequencerAddress :: address
  f_worker :: Worker
  f_batch :: "WipBatch option"
  f_batchConstraints :: BatchConstraintsCfg
  f_processRequest :: ProcessRequest
  currentGERHash :: hash
  previousGERHash :: hash
  reprocessFullBatchError :: bool
  nextGER :: hash
  nextGERDeadline :: int
  nextForcedBatches :: "StateForcedBatch list"
  nextForcedBatchDeadline :: int
  pendingTransactionsToStore :: "transactionToStore list"
  storedFlushID :: u64
  lastPendingFlushID :: u64
  f_stream :: "DSUpdateGER list option"
  f_proverID :: string
  statusUpdates :: "(hash \<times> string \<times> string option) list"

text \<open>What the finalizer gets from outside.\<close>

record fin_env =
  fe_worker :: worker_env
  GetL1AndL2GasPrice :: "u64 \<times> u64"
  CalculateEffectiveGasPrice :: "bytes \<Rightarrow> int \<Rightarrow> u64 \<Rightarrow> u64 \<Rightarrow> u64 \<Rightarrow> go_error + int"
  egpIsEnabled :: bool
  GetFinalDeviation :: u64
  GetForkIDByBatchNumber :: "u64 \<Rightarrow> u64"
  ProcessBatch :: "ProcessRequest \<Rightarrow> bool \<Rightarrow> rt_error option \<times> ProcessBatchResponse option"
  UpdateTxStatus :: "hash \<Rightarrow> go_error option"
  GetSender :: "LegacyTx \<Rightarrow> go_error + address"

datatype stop = Panicked | Halted | Exited

datatype fin_error =
    ErrEffectiveGasPriceReprocess
  | EgpError go_error
  | HexErr hex_error
  | RtError rt_error
  | ResourcesError go_error
  | DBError go_error

definition and_then :: "stop + 'a \<Rightarrow> ('a \<Rightarrow> stop + 'b) \<Rightarrow> stop + 'b" where
  "and_then r k = (case r of Inl s \<Rightarrow> Inl s | Inr a \<Rightarrow> k a)"

definition deref :: "'a option \<Rightarrow> stop + 'a" where
  "deref p = (case p of None \<Rightarrow> Inl Panicked | Some a \<Rightarrow> Inr a)"

lemma and_then_simps [simp]: "and_then (Inl s) k = Inl s" "and_then (Inr a) k = k a"
  by (simp_all add: and_then_def)

lemma deref_simps [simp]: "deref None = Inl Panicked" "deref (Some a) = Inr a"
  by (simp_all add: deref_def)

lemma and_then_Inr: "and_then r k = Inr b \<longleftrightarrow> (\<exists>a. r = Inr a \<and> k a = Inr b)"
  by (cases r) auto

lemma deref_Inr: "deref p = Inr a \<longleftrightarrow> p = Some a"
  by (cases p) auto

definition isEmpty :: "WipBatch \<Rightarrow> bool" where
  "isEmpty w \<longleftrightarrow> countOfTxs w = 0"

definition setTracker :: "txref \<Rightarrow> (TxTracker \<Rightarrow> TxTracker) \<Rightarrow> finalizer \<Rightarrow> finalizer" where
  "setTracker p g f = f\<lparr>f_worker := (f_worker f)\<lparr>trackers := (trackers (f_worker f))(p := g (trackers (f_worker f) p))\<rparr>\<rparr>"

section \<open>The effective gas price\<close>

definition ErrEffectiveGasPriceEmpty :: go_error where
  "ErrEffectiveGasPriceEmpty = ErrorString ''effectiveGasPrice or gasPrice cannot be nil or zero''"

definition CalculateEffectiveGasPricePercentage :: "int \<Rightarrow> int \<Rightarrow> go_error + u8" where
  "CalculateEffectiveGasPricePercentage gasPrice effectiveGasPrice =
     (if gasPrice = 0 \<or> effectiveGasPrice = 0 then Inl ErrEffectiveGasPriceEmpty
      else if gasPrice \<le> effectiveGasPrice then Inr MaxEffectivePercentage
      else (let b = (effectiveGasPrice * 256 + gasPrice - 1) div gasPrice
            in Inr (ucast (big_Uint64 (b - 1)))))"

text \<open>The first time a transaction is processed.\<close>

definition egp_first :: "fin_env \<Rightarrow> TxTracker \<Rightarrow> go_error option \<times> TxTracker" where
  "egp_first env t0 =
     (let t = t0\<lparr>L1GasPrice := fst (GetL1AndL2GasPrice env), L2GasPrice := snd (GetL1AndL2GasPrice env),
          EGPLog := (EGPLog t0)\<lparr>GasUsedFirst := CumulativeGasUsed (ZKCountersF (BatchResourcesF t0)),
            egp_GasPrice := GasPrice t0, egp_L1GasPrice := fst (GetL1AndL2GasPrice env),
            egp_L2GasPrice := snd (GetL1AndL2GasPrice env)\<rparr>\<rparr>
      in case CalculateEffectiveGasPrice env (RawTx t) (GasPrice t)
                (CumulativeGasUsed (ZKCountersF (BatchResourcesF t))) (L1GasPrice t) (L2GasPrice t) of
           Inl err \<Rightarrow>
             if egpIsEnabled env then (Some err, t)
             else (None, t\<lparr>EGPLog := (EGPLog t)\<lparr>egp_Error := ''CalculateEffectiveGasPrice#1: '' @ go_error_Error err\<rparr>\<rparr>)
         | Inr egp \<Rightarrow>
             (let t1 = t\<lparr>EffectiveGasPriceF := egp, EGPLog := (EGPLog t)\<lparr>ValueFirst := egp\<rparr>\<rparr>
              in (None, if EffectiveGasPriceF t1 \<ge> GasPrice t1
                        then t1\<lparr>EffectiveGasPriceF := GasPrice t1, IsLastExecution := True\<rparr> else t1)))"

text \<open>The percentage the transaction is processed with.\<close>

definition egp_percentage :: "fin_env \<Rightarrow> TxTracker \<Rightarrow> go_error + u8 \<times> TxTracker" where
  "egp_percentage env t =
     (case CalculateEffectiveGasPricePercentage (GasPrice t) (EffectiveGasPriceF t) of
        Inl err \<Rightarrow>
          if egpIsEnabled env then Inl err
          else Inr (MaxEffectivePercentage,
            t\<lparr>EGPLog := (EGPLog t)\<lparr>egp_Error := egp_Error (EGPLog t) @ ''; CalculateEffectiveGasPricePercentage#1: '' @
              go_error_Error err\<rparr>\<rparr>)
      | Inr p \<Rightarrow>
          Inr (if egpIsEnabled env then p else MaxEffectivePercentage, t\<lparr>EGPLog := (EGPLog t)\<lparr>Percentage := p\<rparr>\<rparr>))"

text \<open>Whether the transaction has to be processed again, with the tracker updated.\<close>

definition CompareTxEffectiveGasPrice :: "fin_env \<Rightarrow> TxTracker \<Rightarrow> int \<Rightarrow> bool \<Rightarrow> bool \<Rightarrow> bool \<times> TxTracker" where
  "CompareTxEffectiveGasPrice env t newEffectiveGasPrice hasGasPriceOC hasBalanceOC =
     (let diff = \<bar>EffectiveGasPriceF t - newEffectiveGasPrice\<bar>;
          maxDeviation = (EffectiveGasPriceF t * uint (GetFinalDeviation env)) div 100;
          t1 = t\<lparr>EGPLog := (EGPLog t)\<lparr>FinalDeviation := diff, MaxDeviation := maxDeviation\<rparr>\<rparr>
      in if diff > maxDeviation then
           (let price = (if newEffectiveGasPrice < GasPrice t1
                         then if hasGasPriceOC \<or> hasBalanceOC then GasPrice t1 else newEffectiveGasPrice
                         else GasPrice t1)
            in (True, t1\<lparr>EffectiveGasPriceF := price, EGPLog := (EGPLog t1)\<lparr>Reprocess := True\<rparr>\<rparr>))
         else (False, t1))"

section \<open>Handling a response\<close>

definition usedResources :: "ProcessBatchResponse \<Rightarrow> TxTracker \<Rightarrow> BatchResources" where
  "usedResources result t = \<lparr>ZKCountersF = pbr_UsedZkCounters result, Bytes = of_nat (length (RawTx t))\<rparr>"

text \<open>
  The resources the transaction has used are taken from the batch, or the worker learns its
  counters. \<open>result.Responses[0]\<close> is the response of the transaction.
\<close>

definition checkRemainingResources ::
    "fin_env \<Rightarrow> ProcessBatchResponse \<Rightarrow> ProcessTransactionResponse \<Rightarrow> txref \<Rightarrow> WipBatch \<Rightarrow> finalizer \<Rightarrow>
     go_error option \<times> finalizer" where
  "checkRemainingResources env result resp tx batch f =
     (let t = trackers (f_worker f) tx;
          used = usedResources result t;
          (err, remaining) = BatchResources_Sub (remainingResources batch) used;
          f1 = f\<lparr>f_batch := Some (batch\<lparr>remainingResources := remaining\<rparr>)\<rparr>
      in case err of
           Some e \<Rightarrow> (Some e, f1\<lparr>f_worker := w_UpdateTxZKCounters (fe_worker env) (ptr_TxHash resp) (From t)
                        (ZKCountersF used) (f_worker f1)\<rparr>)
         | None \<Rightarrow> (None, f1))"

definition updateLastPendingFlushID :: "u64 \<Rightarrow> finalizer \<Rightarrow> finalizer" where
  "updateLastPendingFlushID newFlushID f =
     (if newFlushID > lastPendingFlushID f then f\<lparr>lastPendingFlushID := newFlushID\<rparr> else f)"

definition addPendingTxToStore :: "fin_env \<Rightarrow> transactionToStore \<Rightarrow> finalizer \<Rightarrow> finalizer" where
  "addPendingTxToStore env txToStore f =
     f\<lparr>f_worker := w_AddPendingTxToStore (fe_worker env) (ts_hash txToStore) (ts_from txToStore) (f_worker f),
       pendingTransactionsToStore := pendingTransactionsToStore f @ [txToStore]\<rparr>"

definition setStatus :: "hash \<Rightarrow> string \<Rightarrow> string option \<Rightarrow> finalizer \<Rightarrow> finalizer" where
  "setStatus txHash status reason f = f\<lparr>statusUpdates := statusUpdates f @ [(txHash, status, reason)]\<rparr>"

definition failAll :: "(TxTracker \<Rightarrow> string option) \<Rightarrow> txref list \<Rightarrow> finalizer \<Rightarrow> finalizer" where
  "failAll reason txs f =
     fold (\<lambda>r g. let t = trackers (f_worker f) r in setStatus (Hash t) TxStatusFailed (reason t) g) txs f"

definition updateWorkerAfterSuccessfulProcessing ::
    "fin_env \<Rightarrow> hash \<Rightarrow> address \<Rightarrow> bool \<Rightarrow> ProcessBatchResponse \<Rightarrow> finalizer \<Rightarrow> stop + finalizer" where
  "updateWorkerAfterSuccessfulProcessing env txHash txFrom isForced result f =
     (if isForced then Inr (f\<lparr>f_worker := w_DeleteForcedTx (fe_worker env) txHash txFrom (f_worker f)\<rparr>)
      else
        and_then (deref (DeleteTx (fe_worker env) txHash txFrom (f_worker f))) (\<lambda>w1.
        and_then (deref (UpdateAfterSingleSuccessfulTxExecution (fe_worker env) txFrom
                           (pbr_ReadWriteAddresses result) w1)) (\<lambda>(txsToDelete, w2).
        Inr (failAll FailedReason txsToDelete (f\<lparr>f_worker := w2\<rparr>)))))"

definition handleProcessTransactionError ::
    "fin_env \<Rightarrow> ProcessBatchResponse \<Rightarrow> ProcessTransactionResponse \<Rightarrow> txref \<Rightarrow> finalizer \<Rightarrow> stop + finalizer" where
  "handleProcessTransactionError env result txResponse tx f =
     (let t = trackers (f_worker f) tx;
          errorCode = RomErrorCode (ptr_RomError txResponse);
          addressInfo = gm_get (pbr_ReadWriteAddresses result) (From t)
      in and_then (deref (RomErr errorCode)) (\<lambda>romErr.
         let failedReason = rt_Error romErr in
         if IsROMOutOfCountersError errorCode then
           and_then (deref (DeleteTx (fe_worker env) (Hash t) (From t) (f_worker f))) (\<lambda>w.
             Inr (setStatus (Hash t) TxStatusInvalid (Some failedReason) (f\<lparr>f_worker := w\<rparr>)))
         else if IsInvalidNonceError errorCode \<or> IsInvalidBalanceError errorCode then
           and_then (deref (MoveTxToNotReady (fe_worker env) (Hash t) (From t)
               (Option.bind addressInfo irw_Nonce) (Option.bind addressInfo irw_Balance) (f_worker f))) (\<lambda>(txsToDelete, w).
             Inr (failAll (\<lambda>t. Some failedReason) txsToDelete (f\<lparr>f_worker := w\<rparr>)))
         else
           and_then (deref (DeleteTx (fe_worker env) (Hash t) (From t) (f_worker f))) (\<lambda>w.
             Inr (setStatus (Hash t) TxStatusFailed (Some failedReason) (f\<lparr>f_worker := w\<rparr>)))))"

text \<open>
  The second calculation of the effective gas price, with the gas the transaction has used.
  \<open>Inr (True, t)\<close> asks to process it again.
\<close>

definition egp_second ::
    "fin_env \<Rightarrow> ProcessTransactionResponse \<Rightarrow> TxTracker \<Rightarrow> (go_error + bool) \<times> TxTracker" where
  "egp_second env resp t0 =
     (if IsLastExecution t0 then (Inr False, t0)
      else
        (let t = t0\<lparr>IsLastExecution := True\<rparr> in
         case CalculateEffectiveGasPrice env (RawTx t) (GasPrice t) (ptr_GasUsed resp) (L1GasPrice t) (L2GasPrice t) of
           Inl err \<Rightarrow>
             if egpIsEnabled env then (Inl err, t)
             else (Inr False, t\<lparr>EGPLog := (EGPLog t)\<lparr>egp_Error := egp_Error (EGPLog t) @ ''; CalculateEffectiveGasPrice#2: '' @
                    go_error_Error err\<rparr>\<rparr>)
         | Inr newEffectiveGasPrice \<Rightarrow>
             (let t1 = t\<lparr>EGPLog := (EGPLog t)\<lparr>ValueSecond := newEffectiveGasPrice, GasUsedSecond := ptr_GasUsed resp\<rparr>\<rparr>;
                  (again, t2) = CompareTxEffectiveGasPrice env t1 newEffectiveGasPrice (ptr_HasGaspriceOpcode resp)
                    (ptr_HasBalanceOpcode resp);
                  t3 = (if \<not> egpIsEnabled env
                        then case CalculateEffectiveGasPricePercentage (GasPrice t2) (EffectiveGasPriceF t2) of
                               Inl err \<Rightarrow> t2\<lparr>EGPLog := (EGPLog t2)\<lparr>egp_Error := egp_Error (EGPLog t2) @
                                 '', CalculateEffectiveGasPricePercentage#2: '' @ go_error_Error err\<rparr>\<rparr>
                             | Inr p \<Rightarrow> t2\<lparr>EGPLog := (EGPLog t2)\<lparr>Percentage := p\<rparr>\<rparr>
                        else t2)
              in (Inr (again \<and> egpIsEnabled env), t3))))"

definition egp_log :: "fin_env \<Rightarrow> ProcessTransactionResponse \<Rightarrow> TxTracker \<Rightarrow> TxTracker" where
  "egp_log env resp t =
     t\<lparr>EGPLog := (EGPLog t)\<lparr>egp_Enabled := egpIsEnabled env, GasPriceOC := ptr_HasGaspriceOpcode resp,
       BalanceOC := ptr_HasBalanceOpcode resp, ValueFinal := EffectiveGasPriceF t\<rparr>\<rparr>"

text \<open>The transaction goes to the channel of those to store, and leaves the worker.\<close>

definition store_tx ::
    "fin_env \<Rightarrow> txref \<Rightarrow> ProcessBatchResponse \<Rightarrow> ProcessTransactionResponse \<Rightarrow> hash \<Rightarrow> finalizer \<Rightarrow> stop + finalizer" where
  "store_tx env tx result resp oldStateRoot f =
     and_then (deref (f_batch f)) (\<lambda>batch.
       let t = trackers (f_worker f) tx;
           txToStore = \<lparr>ts_hash = Hash t, ts_from = From t, ts_response = resp, ts_batchResponse = result,
             ts_batchNumber = batchNumber batch, ts_timestamp = wb_timestamp batch, ts_coinbase = coinbase batch,
             ts_oldStateRoot = oldStateRoot, ts_isForcedBatch = False, ts_flushId = pbr_FlushID result,
             ts_egpLog = Some (EGPLog t)\<rparr>;
           f1 = addPendingTxToStore env txToStore (updateLastPendingFlushID (pbr_FlushID result) f);
           f2 = f1\<lparr>f_batch := Some (batch\<lparr>countOfTxs := countOfTxs batch + 1\<rparr>)\<rparr>
       in updateWorkerAfterSuccessfulProcessing env (Hash t) (From t) False result f2)"

definition handleProcessTransactionResponse ::
    "fin_env \<Rightarrow> txref \<Rightarrow> ProcessBatchResponse \<Rightarrow> ProcessTransactionResponse \<Rightarrow> hash \<Rightarrow> finalizer \<Rightarrow>
     stop + fin_error option \<times> finalizer" where
  "handleProcessTransactionResponse env tx result resp oldStateRoot f =
     (let errorCode = RomErrorCode (ptr_RomError resp) in
      if \<not> IsStateRootChanged errorCode then
        and_then (handleProcessTransactionError env result resp tx f) (\<lambda>f1.
          Inr (map_option RtError (ptr_RomError resp), f1))
      else
        and_then (deref (f_batch f)) (\<lambda>batch.
          let (err, f1) = checkRemainingResources env result resp tx batch f in
          case err of
            Some e \<Rightarrow> Inr (Some (ResourcesError e), f1)
          | None \<Rightarrow>
              (let (again, t) = egp_second env resp (trackers (f_worker f1) tx);
                   f2 = setTracker tx (\<lambda>_. t) f1
               in case again of
                    Inl e \<Rightarrow> Inr (Some (EgpError e), f2)
                  | Inr True \<Rightarrow> Inr (Some ErrEffectiveGasPriceReprocess, f2)
                  | Inr False \<Rightarrow>
                      and_then (store_tx env tx result resp oldStateRoot (setTracker tx (egp_log env resp) f2)) (\<lambda>f3.
                        Inr (None, f3)))))"

section \<open>Processing a transaction\<close>

text \<open>The request: the global exit root for the first transaction, the raw transaction and its percentage.\<close>

definition prepare_tx :: "fin_env \<Rightarrow> txref \<Rightarrow> bool \<Rightarrow> finalizer \<Rightarrow> fin_error option \<times> finalizer" where
  "prepare_tx env tx firstTxProcess f =
     (let f1 = f\<lparr>f_processRequest := (f_processRequest f)\<lparr>pr_Transactions := RawTx (trackers (f_worker f) tx)\<rparr>\<rparr>;
          t = trackers (f_worker f1) tx;
          (err, t1) = (if firstTxProcess then egp_first env t else (None, t));
          f2 = setTracker tx (\<lambda>_. t1) f1
      in case err of
           Some e \<Rightarrow> (Some (EgpError e), f2)
         | None \<Rightarrow>
             (case egp_percentage env t1 of
                Inl e \<Rightarrow> (Some (EgpError e), f2)
              | Inr (effectivePercentage, t2) \<Rightarrow>
                  (let f3 = setTracker tx (\<lambda>_. t2) f2;
                       request = f_processRequest f3
                   in case DecodeHex (go_text 16 (unat effectivePercentage)) of
                        (asDecodedHex, Some err) \<Rightarrow> (Some (HexErr err), f3)
                      | (asDecodedHex, None) \<Rightarrow>
                          (None, if GetForkIDByBatchNumber env (pr_BatchNumber request) \<ge> forkId5
                                 then f3\<lparr>f_processRequest := request\<lparr>pr_Transactions := pr_Transactions request @ asDecodedHex\<rparr>\<rparr>
                                 else f3))))"

definition take_response :: "ProcessBatchResponse \<Rightarrow> finalizer \<Rightarrow> stop + finalizer" where
  "take_response r f =
     and_then (deref (f_batch f)) (\<lambda>batch.
       Inr (f\<lparr>f_processRequest := (f_processRequest f)\<lparr>pr_OldStateRoot := pbr_NewStateRoot r\<rparr>,
              f_batch := Some (batch\<lparr>stateRoot := pbr_NewStateRoot r, localExitRoot := pbr_NewLocalExitRoot r\<rparr>)\<rparr>))"

text \<open>
  The executor's answer. A nil response with an error other than the database error is
  dereferenced; no responses without an error halt the finalizer.
\<close>

definition handle_batch_response ::
    "fin_env \<Rightarrow> txref option \<Rightarrow> rt_error option \<Rightarrow> ProcessBatchResponse option \<Rightarrow> finalizer \<Rightarrow>
     stop + fin_error option \<times> finalizer" where
  "handle_batch_response env tx err processBatchResponse f =
     (if err = Some rt_ErrExecutorDBError then Inr (Some (RtError rt_ErrExecutorDBError), f)
      else
        and_then (deref processBatchResponse) (\<lambda>r.
          if err = None \<and> \<not> pbr_IsRomLevelError r \<and> pbr_Responses r = [] \<and> tx \<noteq> None then Inl Halted
          else
            (case tx of
               Some p \<Rightarrow>
                 (let t = trackers (f_worker f) p in
                  if pbr_IsExecutorLevelError r then
                    and_then (deref (DeleteTx (fe_worker env) (Hash t) (From t) (f_worker f))) (\<lambda>w.
                    and_then (deref (pbr_ExecutorError r)) (\<lambda>e.
                      let f1 = setStatus (Hash t) TxStatusInvalid (Some (rt_Error e)) (f\<lparr>f_worker := w\<rparr>)
                      in Inr (map_option DBError (UpdateTxStatus env (Hash t)), f1)))
                  else
                    and_then (deref (f_batch f)) (\<lambda>batch.
                      case pbr_Responses r of
                        resp # _ \<Rightarrow>
                          and_then (handleProcessTransactionResponse env p r resp (stateRoot batch) f) (\<lambda>(e, f1).
                            if e \<noteq> None then Inr (e, f1) else and_then (take_response r f1) (\<lambda>f2. Inr (None, f2)))
                      | [] \<Rightarrow> and_then (take_response r f) (\<lambda>f2. Inr (None, f2))))
             | None \<Rightarrow> and_then (take_response r f) (\<lambda>f2. Inr (None, f2)))))"

definition processTransaction ::
    "fin_env \<Rightarrow> txref option \<Rightarrow> bool \<Rightarrow> finalizer \<Rightarrow> stop + fin_error option \<times> finalizer" where
  "processTransaction env tx firstTxProcess f =
     and_then (deref (f_batch f)) (\<lambda>batch.
       let f0 = f\<lparr>f_processRequest := (f_processRequest f)\<lparr>pr_GlobalExitRoot :=
                  (if isEmpty batch then globalExitRoot batch else ZeroHash)\<rparr>\<rparr>
       in case tx of
            None \<Rightarrow>
              (let f1 = f0\<lparr>f_processRequest := (f_processRequest f0)\<lparr>pr_Transactions := []\<rparr>\<rparr>;
                   (err, r) = ProcessBatch env (f_processRequest f1) True
               in handle_batch_response env None err r f1)
          | Some p \<Rightarrow>
              (case prepare_tx env p firstTxProcess f0 of
                 (Some e, f1) \<Rightarrow> Inr (Some e, f1)
               | (None, f1) \<Rightarrow>
                   (let (err, r) = ProcessBatch env (f_processRequest f1) True
                    in handle_batch_response env (Some p) err r f1)))"

text \<open>
  The inner loop of \<open>finalizeBatches\<close>: a transaction is processed again when the effective gas
  price asks for it. \<open>env k\<close> is what the finalizer gets from outside in the \<open>k\<close>-th turn; \<open>None\<close> is
  a loop that does not end.
\<close>

partial_function (option) process_loop ::
    "(nat \<Rightarrow> fin_env) \<Rightarrow> nat \<Rightarrow> txref \<Rightarrow> bool \<Rightarrow> finalizer \<Rightarrow> (stop + nat \<times> fin_error option \<times> finalizer) option" where
  "process_loop env k tx firstTxProcess f =
     (case processTransaction (env k) (Some tx) firstTxProcess f of
        Inl s \<Rightarrow> Some (Inl s)
      | Inr (err, f1) \<Rightarrow>
          if err = Some ErrEffectiveGasPriceReprocess then process_loop env (k + 1) tx False f1
          else Some (Inr (k + 1, err, f1)))"

section \<open>The worker under the finalizer\<close>

text \<open>What the finalizer changes in a tracker is not what the worker relies on.\<close>

definition same_tx :: "TxTracker \<Rightarrow> TxTracker \<Rightarrow> bool" where
  "same_tx t t' \<longleftrightarrow> HashStr t' = HashStr t \<and> FromStr t' = FromStr t \<and> From t' = From t \<and> Nonce t' = Nonce t \<and>
     GasPrice t' = GasPrice t \<and> Cost t' = Cost t \<and> ReceivedAt t' = ReceivedAt t"

named_theorems egp_core "what the calculations of the effective gas price keep of a tracker"

lemma egp_first_core [egp_core]: "egp_first env t = (e, t') \<Longrightarrow> same_tx t t'"
  by (auto simp: egp_first_def same_tx_def split: sum.splits if_splits)

lemma egp_percentage_core [egp_core]: "egp_percentage env t = Inr (p, t') \<Longrightarrow> same_tx t t'"
  by (auto simp: egp_percentage_def same_tx_def split: sum.splits if_splits)

lemma Compare_core [egp_core]: "CompareTxEffectiveGasPrice env t n oc1 oc2 = (b, t') \<Longrightarrow> same_tx t t'"
  by (auto simp: CompareTxEffectiveGasPrice_def same_tx_def split: if_splits)

lemma egp_second_core [egp_core]: "egp_second env resp t = (r, t') \<Longrightarrow> same_tx t t'"
  using Compare_core [of env "t\<lparr>IsLastExecution := True, EGPLog := l\<rparr>" for l]
  by (auto simp: egp_second_def same_tx_def split: sum.splits if_splits prod.splits)

definition w_ok :: "worker_env \<Rightarrow> Worker \<Rightarrow> bool" where
  "w_ok env w \<longleftrightarrow> w_inv w \<and> trackers_ok env (trackers w)"

lemma w_ok_step: "w_ok env w \<Longrightarrow> worker_step env w w' \<Longrightarrow> w_ok env w'"
  using worker_step_inv [of env w w'] trackers_ok_cong [of "trackers w" "trackers w'" env] by (auto simp: w_ok_def)

lemma w_ok_runs:
  assumes "w_ok env w"
  shows "\<exists>w'. DeleteTx env h a w = Some w' \<and> w_ok env w'"
    and "\<exists>d w'. UpdateAfterSingleSuccessfulTxExecution env a rw w = Some (d, w') \<and> w_ok env w'"
    and "\<exists>d w'. MoveTxToNotReady env h a n b w = Some (d, w') \<and> w_ok env w'"
proof -
  have inv: "w_inv w" "hash_determines_sender (trackers w)" using assms by (simp_all add: w_ok_def trackers_ok_def)
  show "\<exists>w'. DeleteTx env h a w = Some w' \<and> w_ok env w'"
    using DeleteTx_inv [OF inv, of env h a] w_ok_step [OF assms delete [of env h a w]] by blast
  show "\<exists>d w'. UpdateAfterSingleSuccessfulTxExecution env a rw w = Some (d, w') \<and> w_ok env w'"
    using UpdateAfterSingleSuccessfulTxExecution_inv [OF inv, of env a rw] w_ok_step [OF assms executed [of env a rw w]]
    by blast
  show "\<exists>d w'. MoveTxToNotReady env h a n b w = Some (d, w') \<and> w_ok env w'"
    using MoveTxToNotReady_inv [OF inv, of env h a n b] w_ok_step [OF assms failed [of env h a n b w]] by blast
qed

lemma w_ok_tracker:
  assumes "w_ok env w" "same_tx (trackers w p) t"
  shows "w_ok env (w\<lparr>trackers := (trackers w)(p := t)\<rparr>)"
proof -
  have c: "same_core (trackers w) ((trackers w)(p := t))" using assms(2) by (simp add: same_core_def same_tx_def)
  show ?thesis using assms(1) w_inv_cong [OF c] trackers_ok_cong [OF c] by (simp add: w_ok_def)
qed

section \<open>Invariant\<close>

definition getMaxRemainingResources :: "BatchConstraintsCfg \<Rightarrow> BatchResources" where
  "getMaxRemainingResources constraints =
     \<lparr>ZKCountersF = \<lparr>CumulativeGasUsed = MaxCumulativeGasUsed constraints, UsedKeccakHashes = MaxKeccakHashes constraints,
        UsedPoseidonHashes = MaxPoseidonHashes constraints, UsedPoseidonPaddings = MaxPoseidonPaddings constraints,
        UsedMemAligns = MaxMemAligns constraints, UsedArithmetics = MaxArithmetics constraints,
        UsedBinaries = MaxBinaries constraints, UsedSteps = MaxSteps constraints\<rparr>,
      Bytes = MaxBatchBytesSize constraints\<rparr>"

text \<open>
  The worker is consistent, there is a batch, what remains of it is within the constraints, and
  the next request starts from its state root.
\<close>

definition fin_inv :: "worker_env \<Rightarrow> finalizer \<Rightarrow> bool" where
  "fin_inv env f \<longleftrightarrow> w_ok env (f_worker f) \<and>
     (case f_batch f of
        None \<Rightarrow> False
      | Some b \<Rightarrow> fits_in br_dims (remainingResources b) (getMaxRemainingResources (f_batchConstraints f)) \<and>
          pr_OldStateRoot (f_processRequest f) = stateRoot b)"

lemma fin_inv_batch: "fin_inv env f \<Longrightarrow> \<exists>b. f_batch f = Some b"
  by (auto simp: fin_inv_def split: option.splits)

text \<open>Changes that leave the batch and the root of the request alone.\<close>

definition fin_frame :: "finalizer \<Rightarrow> finalizer \<Rightarrow> bool" where
  "fin_frame f f' \<longleftrightarrow> f_batch f' = f_batch f \<and> f_batchConstraints f' = f_batchConstraints f \<and>
     pr_OldStateRoot (f_processRequest f') = pr_OldStateRoot (f_processRequest f) \<and>
     pendingTransactionsToStore f' = pendingTransactionsToStore f"

lemma fin_inv_frame: "fin_inv env f \<Longrightarrow> fin_frame f f' \<Longrightarrow> w_ok env (f_worker f') \<Longrightarrow> fin_inv env f'"
  by (auto simp: fin_inv_def fin_frame_def split: option.splits)

lemma fin_frame_refl [simp]: "fin_frame f f"
  by (simp add: fin_frame_def)

lemma fin_frame_trans: "fin_frame f g \<Longrightarrow> fin_frame g h \<Longrightarrow> fin_frame f h"
  by (simp add: fin_frame_def)

lemma fin_frame_updates [simp]:
  "fin_frame f (f\<lparr>f_worker := w\<rparr>)" "fin_frame f (setTracker p u f)" "fin_frame f (setStatus h s r f)"
  by (simp_all add: fin_frame_def setTracker_def setStatus_def)

lemma setStatus_worker [simp]: "f_worker (setStatus h s r f) = f_worker f"
  by (simp add: setStatus_def)

lemma setStatus_fold_frame:
  "fin_frame f (fold (\<lambda>r. setStatus (h r) (st r) (reason r)) txs f) \<and>
     f_worker (fold (\<lambda>r. setStatus (h r) (st r) (reason r)) txs f) = f_worker f"
proof (induction txs arbitrary: f)
  case (Cons t txs)
  show ?case using Cons [of "setStatus (h t) (st t) (reason t) f"]
      fin_frame_trans [OF fin_frame_updates(3) [of f "h t" "st t" "reason t"]] by simp
qed simp

lemma failAll_frame: "fin_frame f (failAll reason txs f) \<and> f_worker (failAll reason txs f) = f_worker f"
  by (simp add: failAll_def Let_def setStatus_fold_frame)

lemma setTracker_ok:
  "w_ok env (f_worker f) \<Longrightarrow> same_tx (trackers (f_worker f) p) (u (trackers (f_worker f) p)) \<Longrightarrow>
     w_ok env (f_worker (setTracker p u f))"
  by (simp add: setTracker_def w_ok_tracker)

lemma prepare_tx_inv:
  assumes "fin_inv w f" "prepare_tx env p firstTxProcess f = (e, f')"
  shows "fin_inv w f' \<and> fin_frame f f'"
proof -
  let ?f1 = "f\<lparr>f_processRequest := (f_processRequest f)\<lparr>pr_Transactions := RawTx (trackers (f_worker f) p)\<rparr>\<rparr>"
  let ?t = "trackers (f_worker f) p"
  obtain err t1 where e1: "(if firstTxProcess then egp_first env ?t else (None, ?t)) = (err, t1)" by fastforce
  then have c1: "same_tx ?t t1" using egp_first_core [of env ?t] by (auto simp: same_tx_def split: if_splits)
  have w: "w_ok w (f_worker f)" using assms(1) by (simp add: fin_inv_def)
  let ?f2 = "setTracker p (\<lambda>_. t1) ?f1"
  have w2: "w_ok w (f_worker ?f2)" using w c1 by (intro setTracker_ok) simp_all
  have fr2: "fin_frame f ?f2" by (simp add: fin_frame_def setTracker_def)
  consider "f' = ?f2"
    | pct t2 f3 where "egp_percentage env t1 = Inr (pct, t2)" "f3 = setTracker p (\<lambda>_. t2) ?f2" "fin_frame f3 f'"
        "f_worker f' = f_worker f3"
    using assms(2) e1
    by (auto simp: prepare_tx_def fin_frame_def split: option.splits sum.splits prod.splits if_splits)
  then show ?thesis
  proof cases
    case 1
    with fr2 w2 assms(1) show ?thesis using fin_inv_frame by blast
  next
    case 2
    have "trackers (f_worker ?f2) p = t1" by (simp add: setTracker_def)
    then have "w_ok w (f_worker f3)" using w2 egp_percentage_core [OF 2(1)] 2(2) by (simp add: setTracker_ok)
    moreover have "fin_frame f f'" using 2(2,3) fr2 by (simp add: fin_frame_def setTracker_def)
    ultimately show ?thesis using assms(1) 2(4) fin_inv_frame by metis
  qed
qed

end
