(* ===== verification/StateExecutor.thy ===== *)
theory StateExecutor
  imports Finalizer
begin

text \<open>
  How the state answers the finalizer: \<open>ProcessBatch\<close> of \<open>state/batch.go\<close> sends a request to the
  executor and converts its response (\<open>state/converters.go\<close>). The client of the executor, the fork
  of a batch, \<open>HexToAddress\<close> and the conversion of the single transaction responses, which
  decodes traces and logs, are parameters (\<open>state_env\<close>); the log output and the metrics are left
  out. What the finalizer can rely on is proved at the end: a response comes with no error, and
  with an error there is none.
\<close>

section \<open>Data\<close>

record executor_ProcessBatchRequest =
  epr_OldBatchNum :: u64
  epr_Coinbase :: string
  epr_BatchL2Data :: bytes
  epr_OldStateRoot :: hash
  epr_GlobalExitRoot :: hash
  epr_OldAccInputHash :: hash
  epr_EthTimestamp :: u64
  epr_UpdateMerkleTree :: u32
  epr_ChainId :: u64
  epr_ForkId :: u64
  epr_ContextId :: string

text \<open>Of a transaction response the code here reads only the error; the rest is the extension.\<close>

record executor_ProcessTransactionResponse =
  etr_Error :: RomError

record executor_InfoReadWrite =
  eirw_Nonce :: string
  eirw_Balance :: string

record 'a executor_ProcessBatchResponse =
  ebr_NewStateRoot :: bytes
  ebr_NewAccInputHash :: bytes
  ebr_NewLocalExitRoot :: bytes
  ebr_NewBatchNum :: u64
  ebr_CumulativeGasUsed :: u64
  ebr_CntKeccakHashes :: u32
  ebr_CntPoseidonHashes :: u32
  ebr_CntPoseidonPaddings :: u32
  ebr_CntMemAligns :: u32
  ebr_CntArithmetics :: u32
  ebr_CntBinaries :: u32
  ebr_CntSteps :: u32
  ebr_Responses :: "'a executor_ProcessTransactionResponse_scheme list"
  ebr_Error :: ExecutorError
  ebr_ReadWriteAddresses :: "(string, executor_InfoReadWrite) gomap"
  ebr_FlushId :: u64
  ebr_StoredFlushId :: u64
  ebr_ProverId :: string

record 'a state_env =
  st_executorClient :: "(executor_ProcessBatchRequest \<Rightarrow> rt_error + 'a executor_ProcessBatchResponse) option"
  st_ForkIDByBatchNumber :: "u64 \<Rightarrow> u64"
  st_ChainID :: u64
  st_NewContextId :: "ProcessRequest \<Rightarrow> string"
  st_addrString :: "address \<Rightarrow> string"
  st_HexToAddress :: "string \<Rightarrow> address"
  st_convertResponses ::
    "'a executor_ProcessTransactionResponse_scheme list \<Rightarrow> rt_error + ProcessTransactionResponse list"

definition ErrExecutorNil :: rt_error where
  "ErrExecutorNil = NewError ''the method requires an executor that is not nil''"

section \<open>Conversions\<close>

text \<open>\<open>common.BytesToHash\<close>: the last 32 bytes, padded on the left.\<close>

definition BytesToHash :: "bytes \<Rightarrow> hash" where
  "BytesToHash b = word_rcat (drop (length b - 32) b)"

definition convertToCounters :: "'a executor_ProcessBatchResponse \<Rightarrow> ZKCounters" where
  "convertToCounters resp =
     \<lparr>CumulativeGasUsed = ebr_CumulativeGasUsed resp, UsedKeccakHashes = ebr_CntKeccakHashes resp,
      UsedPoseidonHashes = ebr_CntPoseidonHashes resp, UsedPoseidonPaddings = ebr_CntPoseidonPaddings resp,
      UsedMemAligns = ebr_CntMemAligns resp, UsedArithmetics = ebr_CntArithmetics resp,
      UsedBinaries = ebr_CntBinaries resp, UsedSteps = ebr_CntSteps resp\<rparr>"

text \<open>An empty string is a nil pointer; the map is read in the order of the list.\<close>

definition parse_or_nil :: "string \<Rightarrow> string \<Rightarrow> rt_error + int option" where
  "parse_or_nil what s =
     (if s = [] then Inr None
      else case big_SetString s 10 of
             None \<Rightarrow> Inl (NewError (''error while parsing address '' @ what))
           | Some x \<Rightarrow> Inr (Some x))"

fun convertToReadWriteAddresses ::
    "(string \<Rightarrow> address) \<Rightarrow> (string \<times> executor_InfoReadWrite) list \<Rightarrow> (address, InfoReadWrite) gomap \<Rightarrow>
     rt_error + (address, InfoReadWrite) gomap" where
  "convertToReadWriteAddresses toAddr [] results = Inr results"
| "convertToReadWriteAddresses toAddr ((addr, info) # rest) results =
     (case parse_or_nil ''nonce'' (eirw_Nonce info) of
        Inl err \<Rightarrow> Inl err
      | Inr nonce \<Rightarrow>
          (case parse_or_nil ''balance'' (eirw_Balance info) of
             Inl err \<Rightarrow> Inl err
           | Inr balance \<Rightarrow>
               convertToReadWriteAddresses toAddr rest
                 (gm_set (toAddr addr)
                    \<lparr>irw_Address = toAddr addr, irw_Nonce = map_option big_Uint64 nonce, irw_Balance = balance\<rparr>
                    results)))"

definition convertToProcessBatchResponse ::
    "'a state_env \<Rightarrow> 'a executor_ProcessBatchResponse \<Rightarrow> rt_error + ProcessBatchResponse" where
  "convertToProcessBatchResponse S response =
     (case st_convertResponses S (ebr_Responses response) of
        Inl err \<Rightarrow> Inl err
      | Inr responses \<Rightarrow>
          (case convertToReadWriteAddresses (st_HexToAddress S) (ebr_ReadWriteAddresses response) [] of
             Inl err \<Rightarrow> Inl err
           | Inr readWriteAddresses \<Rightarrow>
               Inr \<lparr>pbr_NewStateRoot = BytesToHash (ebr_NewStateRoot response),
                    pbr_NewAccInputHash = BytesToHash (ebr_NewAccInputHash response),
                    pbr_NewLocalExitRoot = BytesToHash (ebr_NewLocalExitRoot response),
                    pbr_NewBatchNumber = ebr_NewBatchNum response,
                    pbr_UsedZkCounters = convertToCounters response,
                    pbr_Responses = responses,
                    pbr_ExecutorError = ExecutorErr (ebr_Error response),
                    pbr_ReadWriteAddresses = readWriteAddresses,
                    pbr_IsRomLevelError =
                      list_ex (\<lambda>resp. etr_Error resp \<noteq> RomError_ROM_ERROR_NO_ERROR) (ebr_Responses response),
                    pbr_IsExecutorLevelError = (ebr_Error response \<noteq> ExecutorError_EXECUTOR_ERROR_NO_ERROR),
                    pbr_IsRomOOCError =
                      (ebr_Responses response \<noteq> [] \<and> IsROMOutOfCountersError (etr_Error (last (ebr_Responses response)))),
                    pbr_FlushID = ebr_FlushId response,
                    pbr_StoredFlushID = ebr_StoredFlushId response,
                    pbr_ProverID = ebr_ProverId response\<rparr>))"

section \<open>The request\<close>

definition sendBatchRequestToExecutor ::
    "'a state_env \<Rightarrow> executor_ProcessBatchRequest \<Rightarrow> rt_error + 'a executor_ProcessBatchResponse" where
  "sendBatchRequestToExecutor S processBatchRequest =
     (case st_executorClient S of
        None \<Rightarrow> Inl ErrExecutorNil
      | Some client \<Rightarrow>
          (case client processBatchRequest of
             Inl err \<Rightarrow> Inl err
           | Inr res \<Rightarrow>
               if ebr_Error res \<noteq> ExecutorError_EXECUTOR_ERROR_NO_ERROR then
                 (case ExecutorErr (ebr_Error res) of Some err \<Rightarrow> Inl err | None \<Rightarrow> Inr res)
               else Inr res))"

definition State_ProcessBatch ::
    "'a state_env \<Rightarrow> ProcessRequest \<Rightarrow> bool \<Rightarrow> rt_error option \<times> ProcessBatchResponse option" where
  "State_ProcessBatch S request updateMerkleTree =
     (let processBatchRequest =
        \<lparr>epr_OldBatchNum = pr_BatchNumber request - 1,
         epr_Coinbase = st_addrString S (pr_Coinbase request),
         epr_BatchL2Data = pr_Transactions request,
         epr_OldStateRoot = pr_OldStateRoot request,
         epr_GlobalExitRoot = pr_GlobalExitRoot request,
         epr_OldAccInputHash = pr_OldAccInputHash request,
         epr_EthTimestamp = word_of_int (pr_Timestamp request div 1000000000),
         epr_UpdateMerkleTree = (if updateMerkleTree then 1 else 0),
         epr_ChainId = st_ChainID S,
         epr_ForkId = st_ForkIDByBatchNumber S (pr_BatchNumber request),
         epr_ContextId = st_NewContextId S request\<rparr>
      in case sendBatchRequestToExecutor S processBatchRequest of
           Inl err \<Rightarrow> (Some err, None)
         | Inr res \<Rightarrow>
             (case convertToProcessBatchResponse S res of
                Inl err \<Rightarrow> (Some err, None)
              | Inr result \<Rightarrow> (None, Some result)))"

section \<open>What an answer looks like\<close>

lemma ExecutorErr_nil: "ExecutorErr c = None \<longleftrightarrow> c = ExecutorError_EXECUTOR_ERROR_NO_ERROR"
proof
  assume nil: "ExecutorErr c = None"
  have "list_all (\<lambda>(c, e). e = None \<longrightarrow> c = ExecutorError_EXECUTOR_ERROR_NO_ERROR) ExecutorErr_cases" by code_simp
  with nil show "c = ExecutorError_EXECUTOR_ERROR_NO_ERROR"
    by (fastforce simp: ExecutorErr_def list_all_iff split: option.splits dest: map_of_SomeD)
next
  assume "c = ExecutorError_EXECUTOR_ERROR_NO_ERROR"
  moreover have "ExecutorErr ExecutorError_EXECUTOR_ERROR_NO_ERROR = None" by code_simp
  ultimately show "ExecutorErr c = None" by simp
qed

text \<open>
  A response comes with no error and is no error of the executor: \<open>sendBatchRequestToExecutor\<close> turns
  every error code into an error first, and with an error the response is nil.
\<close>

definition state_answer :: "rt_error option \<times> ProcessBatchResponse option \<Rightarrow> bool" where
  "state_answer a \<longleftrightarrow>
     (case a of
        (None, Some r) \<Rightarrow> \<not> pbr_IsExecutorLevelError r \<and> pbr_ExecutorError r = None
      | (Some err, None) \<Rightarrow> True
      | _ \<Rightarrow> False)"

lemma State_ProcessBatch_answer: "state_answer (State_ProcessBatch S request updateMerkleTree)"
  by (auto simp: state_answer_def State_ProcessBatch_def sendBatchRequestToExecutor_def convertToProcessBatchResponse_def
      Let_def ExecutorErr_nil split: option.splits sum.splits if_splits)

lemma state_answer_cases:
  assumes "state_answer a"
  obtains (error) err where "a = (Some err, None)"
    | (response) r where "a = (None, Some r)" "\<not> pbr_IsExecutorLevelError r" "pbr_ExecutorError r = None"
  using assms by (cases a) (auto simp: state_answer_def split: option.splits)

end
