(* ===== verification/FinalizerTx.thy ===== *)
theory FinalizerTx
  imports StateExecutor
begin

text \<open>
  What processing a transaction does to the finalizer: the steps keep the worker consistent, the
  resources of the batch within the constraints and the request on the state root of the batch;
  they store a transaction exactly when they count it; and the loop over the effective gas price
  ends after at most two turns.
\<close>

section \<open>The steps keep the invariant\<close>

lemma fin_inv_w_ok [dest]: "fin_inv w f \<Longrightarrow> w_ok w (f_worker f)"
  by (simp add: fin_inv_def)

lemma fits_in_refl [simp]: "fits_in dims r r"
  by (simp add: fits_in_def list_all_iff)

lemma fits_in_trans: "fits_in dims a b \<Longrightarrow> fits_in dims b c \<Longrightarrow> fits_in dims a c"
  by (fastforce simp: fits_in_def list_all_iff)

lemma BatchResources_Sub_fits: "fits_in br_dims (snd (BatchResources_Sub r x)) r"
proof (cases "fst (BatchResources_Sub r x)")
  case None
  show ?thesis using br.sub_exact [OF None] by (fastforce simp: fits_in_def list_all_iff)
next
  case (Some e)
  show ?thesis using br.sub_error_keeps [OF Some] by simp
qed

text \<open>A step that changes the batch, but neither its root nor its resources upwards.\<close>

definition same_root :: "finalizer \<Rightarrow> finalizer \<Rightarrow> bool" where
  "same_root f f' \<longleftrightarrow> f_batchConstraints f' = f_batchConstraints f \<and>
     pr_OldStateRoot (f_processRequest f') = pr_OldStateRoot (f_processRequest f) \<and>
     (\<exists>b b'. f_batch f = Some b \<and> f_batch f' = Some b' \<and> stateRoot b' = stateRoot b \<and>
        batchNumber b' = batchNumber b \<and> fits_in br_dims (remainingResources b') (remainingResources b))"

lemma fin_inv_same_root: "fin_inv w f \<Longrightarrow> same_root f f' \<Longrightarrow> w_ok w (f_worker f') \<Longrightarrow> fin_inv w f'"
  by (auto simp: fin_inv_def same_root_def intro: fits_in_trans)

lemma same_root_trans: "same_root f g \<Longrightarrow> same_root g h \<Longrightarrow> same_root f h"
  by (auto simp: same_root_def intro: fits_in_trans)

lemma same_root_frame: "fin_inv w f \<Longrightarrow> fin_frame f f' \<Longrightarrow> same_root f f'"
  by (auto simp: fin_inv_def same_root_def fin_frame_def split: option.splits)

text \<open>The codes that leave the state root alone are those of errors with a message.\<close>

lemma RomErr_of_unchanged:
  assumes "\<not> IsStateRootChanged c"
  shows "\<exists>e. RomErr c = Some e"
proof -
  have "c \<in> {8..14} \<union> {19..26} \<union> {29}"
    using assms by (auto simp: IsStateRootChanged_def IsIntrinsicError_def IsROMOutOfCountersError_def
        RomError_ROM_ERROR_INTRINSIC_INVALID_SIGNATURE_def RomError_ROM_ERROR_INTRINSIC_TX_GAS_OVERFLOW_def
        RomError_ROM_ERROR_OUT_OF_COUNTERS_STEP_def RomError_ROM_ERROR_OUT_OF_COUNTERS_POSEIDON_def
        RomError_ROM_ERROR_INVALID_RLP_def)
  moreover have "{8..14} = {8, 9, 10, 11, 12, 13, 14::int}" "{19..26} = {19, 20, 21, 22, 23, 24, 25, 26::int}" by auto
  ultimately have "c \<in> set [8, 9, 10, 11, 12, 13, 14, 19, 20, 21, 22, 23, 24, 25, 26, 29]" by auto
  moreover have "list_all (\<lambda>c. RomErr c \<noteq> None) [8, 9, 10, 11, 12, 13, 14, 19, 20, 21, 22, 23, 24, 25, 26, 29]"
    by code_simp
  ultimately show ?thesis by (auto simp only: list_all_iff)
qed

lemma RomErrorCode_changed: "IsStateRootChanged (RomErrorCode None)"
  by code_simp

lemma handleProcessTransactionError_inv:
  assumes "fin_inv (fe_worker env) f" "\<not> IsStateRootChanged (RomErrorCode (ptr_RomError resp))"
  shows "\<exists>f'. handleProcessTransactionError env r resp tx f = Inr f' \<and> fin_inv (fe_worker env) f' \<and> fin_frame f f'"
proof -
  let ?t = "trackers (f_worker f) tx" and ?w = "fe_worker env"
  obtain e where e: "RomErr (RomErrorCode (ptr_RomError resp)) = Some e" using RomErr_of_unchanged [OF assms(2)] by blast
  have ok: "w_ok ?w (f_worker f)" using assms(1) by blast
  obtain w1 where w1: "DeleteTx ?w (Hash ?t) (From ?t) (f_worker f) = Some w1" "w_ok ?w w1" using w_ok_runs(1) [OF ok] by blast
  have stat: "fin_inv ?w (setStatus h s m (f\<lparr>f_worker := w'\<rparr>)) \<and> fin_frame f (setStatus h s m (f\<lparr>f_worker := w'\<rparr>))"
    if "w_ok ?w w'" for h s m w'
    using fin_inv_frame [OF assms(1), of "setStatus h s m (f\<lparr>f_worker := w'\<rparr>)"] that
      fin_frame_trans [OF fin_frame_updates(1) [of f w'] fin_frame_updates(3)] by simp
  let ?a = "gm_get (pbr_ReadWriteAddresses r) (From ?t)"
  obtain d w2 where w2: "MoveTxToNotReady ?w (Hash ?t) (From ?t) (Option.bind ?a irw_Nonce) (Option.bind ?a irw_Balance)
      (f_worker f) = Some (d, w2)" "w_ok ?w w2" using w_ok_runs(3) [OF ok] by blast
  have moved: "fin_inv ?w (failAll m d (f\<lparr>f_worker := w2\<rparr>)) \<and> fin_frame f (failAll m d (f\<lparr>f_worker := w2\<rparr>))" for m
    using fin_inv_frame [OF assms(1), of "failAll m d (f\<lparr>f_worker := w2\<rparr>)"] w2(2)
      fin_frame_trans [OF fin_frame_updates(1) [of f w2]] failAll_frame [of "f\<lparr>f_worker := w2\<rparr>" m d] by simp
  show ?thesis
    using stat [OF w1(2)] moved by (simp add: handleProcessTransactionError_def e w1(1) w2(1) Let_def)
qed

lemma checkRemainingResources_inv:
  assumes "fin_inv (fe_worker env) f" "f_batch f = Some b" "checkRemainingResources env r resp tx b f = (err, f')"
  shows "fin_inv (fe_worker env) f' \<and> same_root f f' \<and> pendingTransactionsToStore f' = pendingTransactionsToStore f \<and>
    (err = None \<longrightarrow> f_worker f' = f_worker f) \<and>
    map_option countOfTxs (f_batch f') = Some (countOfTxs b)"
proof -
  let ?rem = "snd (BatchResources_Sub (remainingResources b) (usedResources r (trackers (f_worker f) tx)))"
  have b': "f_batch f' = Some (b\<lparr>remainingResources := ?rem\<rparr>)"
    using assms(3) by (auto simp: checkRemainingResources_def Let_def split: prod.splits option.splits)
  have same: "f_batchConstraints f' = f_batchConstraints f \<and> f_processRequest f' = f_processRequest f \<and>
      pendingTransactionsToStore f' = pendingTransactionsToStore f \<and> (err = None \<longrightarrow> f_worker f' = f_worker f)"
    using assms(3) by (auto simp: checkRemainingResources_def Let_def split: prod.splits option.splits)
  have "w_ok (fe_worker env) (f_worker f')"
    using assms(3) fin_inv_w_ok [OF assms(1)] w_ok_step [OF _ worker_step.counters]
    by (auto simp: checkRemainingResources_def Let_def split: prod.splits option.splits)
  moreover have "same_root f f'"
    using same BatchResources_Sub_fits by (simp add: same_root_def assms(2) b')
  ultimately show ?thesis using same fin_inv_same_root [OF assms(1)] by (simp add: b')
qed

lemma store_tx_inv:
  assumes "fin_inv (fe_worker env) f" "f_batch f = Some b"
  shows "\<exists>f' x. store_tx env tx r resp root f = Inr f' \<and> fin_inv (fe_worker env) f' \<and> same_root f f' \<and>
    pendingTransactionsToStore f' = pendingTransactionsToStore f @ [x] \<and>
    ts_oldStateRoot x = root \<and> ts_batchNumber x = batchNumber b \<and> ts_batchResponse x = r \<and>
    map_option countOfTxs (f_batch f') = Some (countOfTxs b + 1)"
proof -
  let ?t = "trackers (f_worker f) tx" and ?w = "fe_worker env"
  let ?x = "\<lparr>ts_hash = Hash ?t, ts_from = From ?t, ts_response = resp, ts_batchResponse = r,
             ts_batchNumber = batchNumber b, ts_timestamp = wb_timestamp b, ts_coinbase = coinbase b,
             ts_oldStateRoot = root, ts_isForcedBatch = False, ts_flushId = pbr_FlushID r,
             ts_egpLog = Some (EGPLog ?t)\<rparr>"
  let ?f1 = "addPendingTxToStore env ?x (updateLastPendingFlushID (pbr_FlushID r) f)"
  let ?f2 = "?f1\<lparr>f_batch := Some (b\<lparr>countOfTxs := countOfTxs b + 1\<rparr>)\<rparr>"
  have f1: "f_worker ?f1 = w_AddPendingTxToStore ?w (Hash ?t) (From ?t) (f_worker f)"
    "pendingTransactionsToStore ?f1 = pendingTransactionsToStore f @ [?x]"
    "f_batchConstraints ?f1 = f_batchConstraints f" "f_processRequest ?f1 = f_processRequest f"
    by (simp_all add: addPendingTxToStore_def updateLastPendingFlushID_def)
  then have "w_ok ?w (f_worker ?f1)" using fin_inv_w_ok [OF assms(1)] w_ok_step [OF _ worker_step.pending_add] by simp
  then obtain w1 d w2 where w: "DeleteTx ?w (Hash ?t) (From ?t) (f_worker ?f1) = Some w1"
    "UpdateAfterSingleSuccessfulTxExecution ?w (From ?t) (pbr_ReadWriteAddresses r) w1 = Some (d, w2)" "w_ok ?w w2"
    using w_ok_runs(1,2) by meson
  let ?f3 = "failAll FailedReason d (?f2\<lparr>f_worker := w2\<rparr>)"
  have run: "store_tx env tx r resp root f = Inr ?f3"
    by (simp add: store_tx_def assms(2) updateWorkerAfterSuccessfulProcessing_def w(1,2) Let_def)
  have fr: "fin_frame ?f2 ?f3" "f_worker ?f3 = w2"
    using fin_frame_trans [OF fin_frame_updates(1) [of ?f2 w2]] failAll_frame [of "?f2\<lparr>f_worker := w2\<rparr>" FailedReason d]
    by simp_all
  have "same_root f ?f3" using fr(1) by (simp add: same_root_def fin_frame_def assms(2) f1)
  then show ?thesis using run fr w(3) fin_inv_same_root [OF assms(1), of ?f3] by (simp add: fin_frame_def f1 Let_def)
qed

text \<open>
  What a step of processing does: nothing is stored and the batch keeps its root and its count, or
  one transaction is, on the root the batch had, and it is counted.
\<close>

definition handled :: "ProcessBatchResponse \<Rightarrow> finalizer \<Rightarrow> fin_error option \<Rightarrow> finalizer \<Rightarrow> bool" where
  "handled r f e f' \<longleftrightarrow> (\<exists>b b'. f_batch f = Some b \<and> f_batch f' = Some b' \<and>
     (if e \<noteq> None
      then pendingTransactionsToStore f' = pendingTransactionsToStore f \<and> countOfTxs b' = countOfTxs b
      else \<exists>x. pendingTransactionsToStore f' = pendingTransactionsToStore f @ [x] \<and> countOfTxs b' = countOfTxs b + 1 \<and>
        ts_oldStateRoot x = stateRoot b \<and> ts_batchNumber x = batchNumber b \<and> ts_batchResponse x = r))"

lemma setTracker_frame_inv:
  assumes "fin_inv w f" "same_tx (trackers (f_worker f) p) (u (trackers (f_worker f) p))"
  shows "fin_inv w (setTracker p u f)"
  using fin_inv_frame [OF assms(1), of "setTracker p u f"] setTracker_ok [of w f p u] assms fin_inv_w_ok by auto

lemma same_root_setTracker:
  "same_root f (setTracker p u g) = same_root f g" "same_root (setTracker p u f) g = same_root f g"
  by (simp_all add: same_root_def setTracker_def)

lemma setTracker_sel [simp]:
  "f_batch (setTracker p u f) = f_batch f" "pendingTransactionsToStore (setTracker p u f) = pendingTransactionsToStore f"
  "trackers (f_worker (setTracker p u f)) p = u (trackers (f_worker f) p)"
  by (simp_all add: setTracker_def)

lemma egp_log_core [egp_core]: "same_tx t (egp_log env resp t)"
  by (simp add: egp_log_def same_tx_def)

lemma handleProcessTransactionResponse_inv:
  assumes inv: "fin_inv (fe_worker env) f" and b: "f_batch f = Some b"
  shows "\<exists>e f'. handleProcessTransactionResponse env tx r resp (stateRoot b) f = Inr (e, f') \<and>
    fin_inv (fe_worker env) f' \<and> same_root f f' \<and> handled r f e f'"
proof (cases "IsStateRootChanged (RomErrorCode (ptr_RomError resp))")
  case False
  from handleProcessTransactionError_inv [OF inv False, of r tx] obtain f'
    where f': "handleProcessTransactionError env r resp tx f = Inr f'" "fin_inv (fe_worker env) f'" "fin_frame f f'" by blast
  have "handled r f (map_option RtError (ptr_RomError resp)) f'"
    using RomErrorCode_changed False f'(3) b
    by (cases "ptr_RomError resp") (auto simp: handled_def fin_frame_def)
  then show ?thesis
    using False f' same_root_frame [OF inv f'(3)] by (simp add: handleProcessTransactionResponse_def)
next
  case True
  obtain err f1 where c: "checkRemainingResources env r resp tx b f = (err, f1)" by fastforce
  note k = checkRemainingResources_inv [OF inv b c]
  obtain b1 where b1: "f_batch f1 = Some b1" "countOfTxs b1 = countOfTxs b" "batchNumber b1 = batchNumber b"
    using k b by (auto simp: same_root_def)
  show ?thesis
  proof (cases err)
    case (Some e)
    then show ?thesis using True b c k b1 by (simp add: handleProcessTransactionResponse_def handled_def)
  next
    case None
    obtain again t where eg: "egp_second env resp (trackers (f_worker f1) tx) = (again, t)" by fastforce
    let ?f2 = "setTracker tx (\<lambda>_. t) f1" and ?f3 = "setTracker tx (egp_log env resp) (setTracker tx (\<lambda>_. t) f1)"
    have i2: "fin_inv (fe_worker env) ?f2" using k egp_second_core [OF eg] by (intro setTracker_frame_inv) simp_all
    have i3: "fin_inv (fe_worker env) ?f3" by (rule setTracker_frame_inv [OF i2]) (rule egp_log_core)
    have b3: "f_batch ?f3 = Some b1" by (simp add: b1)
    from store_tx_inv [OF i3 b3, of tx r resp "stateRoot b"] obtain f4 x
      where st: "store_tx env tx r resp (stateRoot b) ?f3 = Inr f4" "fin_inv (fe_worker env) f4" "same_root ?f3 f4"
        "pendingTransactionsToStore f4 = pendingTransactionsToStore ?f3 @ [x]" "ts_oldStateRoot x = stateRoot b"
        "ts_batchNumber x = batchNumber b1" "ts_batchResponse x = r" "map_option countOfTxs (f_batch f4) = Some (countOfTxs b1 + 1)"
      by blast
    have "handled r f None f4" using st k b b1 by (auto simp: handled_def)
    moreover have "same_root f f4" using k st(3) same_root_trans by (auto simp: same_root_setTracker)
    moreover have "handled r f (Some e) ?f2" for e using k b b1 by (auto simp: handled_def)
    ultimately show ?thesis
      using True b c None eg st(1,2) i2 k
      by (cases again) (auto simp: handleProcessTransactionResponse_def same_root_setTracker split: bool.splits)
  qed
qed

text \<open>
  When an answer of the state stops the finalizer: a nil response is dereferenced unless the error
  is the database error, a transaction without an error and without a response halts, and a
  response marked as an error of the executor that names none is dereferenced too.
\<close>

definition stops :: "txref option \<Rightarrow> rt_error option \<times> ProcessBatchResponse option \<Rightarrow> stop option" where
  "stops tx a =
     (case a of (err, answer) \<Rightarrow>
        if err = Some rt_ErrExecutorDBError then None
        else (case answer of
                None \<Rightarrow> Some Panicked
              | Some r \<Rightarrow>
                  if tx \<noteq> None \<and> err = None \<and> \<not> pbr_IsRomLevelError r \<and> pbr_Responses r = [] then Some Halted
                  else if tx \<noteq> None \<and> pbr_IsExecutorLevelError r \<and> pbr_ExecutorError r = None then Some Panicked
                  else None))"

text \<open>
  With the state's own answers: every error but the database error panics, and without an error
  only a transaction that got neither a response nor an error of the ROM stops the finalizer.
\<close>

lemma state_stops:
  "stops tx (State_ProcessBatch S req upd) =
     (case State_ProcessBatch S req upd of
        (Some err, _) \<Rightarrow> if err = rt_ErrExecutorDBError then None else Some Panicked
      | (None, None) \<Rightarrow> None
      | (None, Some r) \<Rightarrow> if tx \<noteq> None \<and> \<not> pbr_IsRomLevelError r \<and> pbr_Responses r = [] then Some Halted else None)"
  using State_ProcessBatch_answer [of S req upd] by (auto elim!: state_answer_cases simp: stops_def)

text \<open>The request \<open>processTransaction\<close> sends, if the effective gas price does not fail before.\<close>

definition sent_request :: "fin_env \<Rightarrow> txref option \<Rightarrow> bool \<Rightarrow> finalizer \<Rightarrow> ProcessRequest option" where
  "sent_request env tx firstTxProcess f =
     (case f_batch f of
        None \<Rightarrow> None
      | Some batch \<Rightarrow>
          (let f0 = f\<lparr>f_processRequest := (f_processRequest f)\<lparr>pr_GlobalExitRoot :=
                       (if isEmpty batch then globalExitRoot batch else ZeroHash)\<rparr>\<rparr>
           in case tx of
                None \<Rightarrow> Some ((f_processRequest f0)\<lparr>pr_Transactions := []\<rparr>)
              | Some p \<Rightarrow>
                  (case prepare_tx env p firstTxProcess f0 of
                     (Some e, f1) \<Rightarrow> None
                   | (None, f1) \<Rightarrow> Some (f_processRequest f1))))"

text \<open>
  The outcome of \<open>processTransaction\<close>: a transaction is stored at most once; it is stored on the
  root the batch had and the batch gets the root of its response; and it is not stored when an
  error is returned, the batch keeping its root and its count.
\<close>

definition tx_outcome :: "finalizer \<Rightarrow> fin_error option \<Rightarrow> finalizer \<Rightarrow> bool" where
  "tx_outcome f e f' \<longleftrightarrow> (\<exists>b b'. f_batch f = Some b \<and> f_batch f' = Some b' \<and>
     (pendingTransactionsToStore f' = pendingTransactionsToStore f \<and> countOfTxs b' = countOfTxs b \<and>
        (e = None \<or> stateRoot b' = stateRoot b) \<or>
      (\<exists>x. e = None \<and> pendingTransactionsToStore f' = pendingTransactionsToStore f @ [x] \<and>
        countOfTxs b' = countOfTxs b + 1 \<and> ts_oldStateRoot x = stateRoot b \<and> ts_batchNumber x = batchNumber b \<and>
        pbr_NewStateRoot (ts_batchResponse x) = stateRoot b')))"

lemma take_response_inv:
  assumes "fin_inv w f" "f_batch f = Some b"
  shows "\<exists>f'. take_response r f = Inr f' \<and> fin_inv w f' \<and> pendingTransactionsToStore f' = pendingTransactionsToStore f \<and>
    f_batch f' = Some (b\<lparr>stateRoot := pbr_NewStateRoot r, localExitRoot := pbr_NewLocalExitRoot r\<rparr>)"
  using assms by (auto simp: take_response_def fin_inv_def)

lemma frame_outcome: "fin_inv w f \<Longrightarrow> fin_frame f f' \<Longrightarrow> tx_outcome f e f'"
  by (auto simp: fin_inv_def fin_frame_def tx_outcome_def split: option.splits)

lemma frame_outcome_trans: "fin_frame f f1 \<Longrightarrow> tx_outcome f1 e f' \<Longrightarrow> tx_outcome f e f'"
  by (simp add: fin_frame_def tx_outcome_def)

lemma response_outcome:
  assumes inv: "fin_inv (fe_worker env) f" and b: "f_batch f = Some b"
  shows "\<exists>e f'. and_then (handleProcessTransactionResponse env p r resp (stateRoot b) f) (\<lambda>(e, f1).
       if e \<noteq> None then Inr (e, f1) else and_then (take_response r f1) (\<lambda>f2. Inr (None, f2))) = Inr (e, f') \<and>
     fin_inv (fe_worker env) f' \<and> tx_outcome f e f'"
proof -
  from handleProcessTransactionResponse_inv [OF inv b, of p r resp] obtain e f1
    where h: "handleProcessTransactionResponse env p r resp (stateRoot b) f = Inr (e, f1)"
      "fin_inv (fe_worker env) f1" "same_root f f1" "handled r f e f1" by blast
  obtain b1 where b1: "f_batch f1 = Some b1" "stateRoot b1 = stateRoot b" using h(3) b by (auto simp: same_root_def)
  from take_response_inv [OF h(2) b1(1), of r] obtain f2
    where t: "take_response r f1 = Inr f2" "fin_inv (fe_worker env) f2" "pendingTransactionsToStore f2 = pendingTransactionsToStore f1"
      "f_batch f2 = Some (b1\<lparr>stateRoot := pbr_NewStateRoot r, localExitRoot := pbr_NewLocalExitRoot r\<rparr>)" by blast
  show ?thesis
  proof (cases e)
    case None
    with h(4) b b1 t have "tx_outcome f None f2" by (auto simp: handled_def tx_outcome_def)
    with None h(1) t show ?thesis by simp
  next
    case (Some a)
    with h(4) b b1 have "tx_outcome f e f1" by (auto simp: handled_def tx_outcome_def)
    with Some h show ?thesis by simp
  qed
qed

text \<open>How a step ends: it stops with the reason the answer gives, or returns with the invariant kept.\<close>

definition ends_well ::
    "worker_env \<Rightarrow> finalizer \<Rightarrow> stop option \<Rightarrow> stop + fin_error option \<times> finalizer \<Rightarrow> bool" where
  "ends_well w f st res \<longleftrightarrow>
     (case res of
        Inl s \<Rightarrow> st = Some s
      | Inr (e, f') \<Rightarrow> st = None \<and> fin_inv w f' \<and> tx_outcome f e f')"

lemma ends_wellI:
  "st = None \<Longrightarrow> \<exists>e f'. res = Inr (e, f') \<and> fin_inv w f' \<and> tx_outcome f e f' \<Longrightarrow> ends_well w f st res"
  by (auto simp: ends_well_def)

lemma handle_batch_response_inv:
  assumes inv: "fin_inv (fe_worker env) f"
  shows "ends_well (fe_worker env) f (stops tx (err, answer)) (handle_batch_response env tx err answer f)"
proof (cases "err = Some rt_ErrExecutorDBError")
  case True
  then show ?thesis
    using inv frame_outcome [OF inv fin_frame_refl] by (simp add: handle_batch_response_def ends_well_def stops_def)
next
  case notDB: False
  show ?thesis
  proof (cases answer)
    case None
    with notDB show ?thesis by (simp add: handle_batch_response_def ends_well_def stops_def)
  next
    case r: (Some r)
    obtain b where b: "f_batch f = Some b" using fin_inv_batch [OF inv] by blast
    have taken: "\<exists>e f'. and_then (take_response r f) (\<lambda>f2. Inr (None, f2)) = Inr (e, f') \<and> fin_inv (fe_worker env) f' \<and>
        tx_outcome f e f'"
      using take_response_inv [OF inv b, of r] b by (auto simp: tx_outcome_def)
    show ?thesis
    proof (cases tx)
      case None
      then show ?thesis using notDB r taken by (intro ends_wellI) (simp_all add: handle_batch_response_def stops_def)
    next
      case (Some p)
      let ?t = "trackers (f_worker f) p"
      obtain w1 where w1: "DeleteTx (fe_worker env) (Hash ?t) (From ?t) (f_worker f) = Some w1" "w_ok (fe_worker env) w1"
        using w_ok_runs(1) [OF fin_inv_w_ok [OF inv]] by blast
      let ?f1 = "\<lambda>m. setStatus (Hash ?t) TxStatusInvalid m (f\<lparr>f_worker := w1\<rparr>)"
      have del: "fin_inv (fe_worker env) (?f1 m) \<and> tx_outcome f e (?f1 m)" for m e
        using fin_frame_trans [OF fin_frame_updates(1) [of f w1] fin_frame_updates(3)] w1(2)
        by (auto intro: fin_inv_frame [OF inv] frame_outcome [OF inv])
      consider (halt) "err = None \<and> \<not> pbr_IsRomLevelError r \<and> pbr_Responses r = []"
        | (exec) "\<not> (err = None \<and> \<not> pbr_IsRomLevelError r \<and> pbr_Responses r = [])" "pbr_IsExecutorLevelError r"
        | (other) "\<not> (err = None \<and> \<not> pbr_IsRomLevelError r \<and> pbr_Responses r = [])" "\<not> pbr_IsExecutorLevelError r"
        by blast
      then show ?thesis
      proof cases
        case halt
        then show ?thesis by (simp add: handle_batch_response_def ends_well_def stops_def Some r)
      next
        case exec
        have st: "stops tx (err, answer) = (if pbr_ExecutorError r = None then Some Panicked else None)"
          using notDB exec by (auto simp: stops_def Some r)
        show ?thesis unfolding st handle_batch_response_def ends_well_def
          using notDB exec del by (cases "pbr_ExecutorError r") (auto simp: Some r w1(1) Let_def)
      next
        case other
        have st: "stops tx (err, answer) = None" using notDB other by (auto simp: stops_def Some r)
        have "handle_batch_response env tx err answer f =
            (case pbr_Responses r of
               resp # _ \<Rightarrow> and_then (handleProcessTransactionResponse env p r resp (stateRoot b) f) (\<lambda>(e, f1).
                 if e \<noteq> None then Inr (e, f1) else and_then (take_response r f1) (\<lambda>f2. Inr (None, f2)))
             | [] \<Rightarrow> and_then (take_response r f) (\<lambda>f2. Inr (None, f2)))"
          unfolding handle_batch_response_def using notDB other by (auto simp: Some r b Let_def)
        then show ?thesis using taken response_outcome [OF inv b, of p r]
          by (intro ends_wellI st) (cases "pbr_Responses r"; simp)
      qed
    qed
  qed
qed

lemma request_frame: "fin_frame f (f\<lparr>f_processRequest := (f_processRequest f)\<lparr>pr_GlobalExitRoot := g\<rparr>\<rparr>)"
  "fin_frame f (f\<lparr>f_processRequest := (f_processRequest f)\<lparr>pr_Transactions := d\<rparr>\<rparr>)"
  by (simp_all add: fin_frame_def)

lemma processTransaction_inv:
  assumes inv: "fin_inv (fe_worker env) f"
  shows "ends_well (fe_worker env) f
    (case sent_request env tx firstTxProcess f of None \<Rightarrow> None | Some req \<Rightarrow> stops tx (ProcessBatch env req True))
    (processTransaction env tx firstTxProcess f)"
proof -
  obtain b where b: "f_batch f = Some b" using fin_inv_batch [OF inv] by blast
  let ?f0 = "f\<lparr>f_processRequest := (f_processRequest f)\<lparr>pr_GlobalExitRoot :=
      (if isEmpty b then globalExitRoot b else ZeroHash)\<rparr>\<rparr>"
  have i0: "fin_inv (fe_worker env) ?f0"
    using fin_inv_frame [OF inv request_frame(1)] fin_inv_w_ok [OF inv] by simp
  have answer: "ends_well (fe_worker env) f (stops tx (ProcessBatch env (f_processRequest f1) True))
      (case ProcessBatch env (f_processRequest f1) True of (err, r) \<Rightarrow> handle_batch_response env tx err r f1)"
    if "fin_inv (fe_worker env) f1" "fin_frame ?f0 f1" for f1
  proof -
    obtain err r where a: "ProcessBatch env (f_processRequest f1) True = (err, r)" by fastforce
    show ?thesis
      using handle_batch_response_inv [OF that(1), of tx err r]
        frame_outcome_trans [OF fin_frame_trans [OF request_frame(1) that(2)]]
      by (auto simp: a ends_well_def split: sum.splits)
  qed
  show ?thesis
  proof (cases tx)
    case None
    let ?f1 = "?f0\<lparr>f_processRequest := (f_processRequest ?f0)\<lparr>pr_Transactions := []\<rparr>\<rparr>"
    have "fin_inv (fe_worker env) ?f1" using fin_inv_frame [OF i0 request_frame(2)] fin_inv_w_ok [OF i0] by simp
    from answer [OF this request_frame(2)] show ?thesis
      using None by (simp add: processTransaction_def sent_request_def b Let_def)
  next
    case (Some p)
    obtain e f1 where p: "prepare_tx env p firstTxProcess ?f0 = (e, f1)" by fastforce
    note i1 = prepare_tx_inv [OF i0 p]
    have "tx_outcome f e f1"
      using frame_outcome [OF inv fin_frame_trans [OF request_frame(1)]] i1 by blast
    then show ?thesis using answer [of f1] i1 p b
      by (cases e) (simp_all add: Some processTransaction_def sent_request_def Let_def ends_well_def)
  qed
qed

section \<open>The loop over the effective gas price\<close>

lemma egp_second_again:
  "egp_second env resp t = (Inr True, t') \<Longrightarrow> \<not> IsLastExecution t \<and> IsLastExecution t'"
  by (auto simp: egp_second_def CompareTxEffectiveGasPrice_def Let_def split: if_splits sum.splits prod.splits)

lemma fin_errors_differ:
  "map_option RtError e \<noteq> Some ErrEffectiveGasPriceReprocess" "map_option DBError e' \<noteq> Some ErrEffectiveGasPriceReprocess"
  by (cases e; simp) (cases e'; simp)

text \<open>
  A transaction is sent back at the first time its price is compared, with the resources it has
  used already taken from the batch.
\<close>

lemma response_again:
  assumes "handleProcessTransactionResponse env p r resp root f = Inr (Some ErrEffectiveGasPriceReprocess, f')"
  shows "\<exists>b rem. f_batch f = Some b \<and>
    BatchResources_Sub (remainingResources b) (usedResources r (trackers (f_worker f) p)) = (None, rem) \<and>
    f_batch f' = Some (b\<lparr>remainingResources := rem\<rparr>) \<and>
    pendingTransactionsToStore f' = pendingTransactionsToStore f \<and>
    \<not> IsLastExecution (trackers (f_worker f) p) \<and> IsLastExecution (trackers (f_worker f') p)"
proof -
  let ?c = "IsStateRootChanged (RomErrorCode (ptr_RomError resp))"
  have ch: ?c using assms fin_errors_differ(1)
    by (auto simp: handleProcessTransactionResponse_def and_then_Inr split: if_splits)
  obtain b where b: "f_batch f = Some b"
    using assms ch by (cases "f_batch f") (auto simp: handleProcessTransactionResponse_def)
  obtain err f1 where c: "checkRemainingResources env r resp p b f = (err, f1)" by fastforce
  have n: "err = None" using assms ch b c by (cases err) (simp_all add: handleProcessTransactionResponse_def)
  obtain again t where eg: "egp_second env resp (trackers (f_worker f1) p) = (again, t)" by fastforce
  have a: "again = Inr True \<and> f' = setTracker p (\<lambda>_. t) f1"
    using assms ch b c n eg
    by (auto simp: handleProcessTransactionResponse_def and_then_Inr split: sum.splits bool.splits)
  obtain e2 rem where sub: "BatchResources_Sub (remainingResources b) (usedResources r (trackers (f_worker f) p)) = (e2, rem)"
    by fastforce
  then have "e2 = None" "f1 = f\<lparr>f_batch := Some (b\<lparr>remainingResources := rem\<rparr>)\<rparr>"
    using c n by (auto simp: checkRemainingResources_def Let_def split: option.splits)
  then show ?thesis using b sub a egp_second_again [of env resp _ t] eg by auto
qed

lemma processTransaction_again:
  assumes "processTransaction env (Some p) firstTxProcess f = Inr (Some ErrEffectiveGasPriceReprocess, f')"
  obtains f1 err r resp root where "snd (prepare_tx env p firstTxProcess (f\<lparr>f_processRequest := (f_processRequest f)\<lparr>pr_GlobalExitRoot :=
      (if isEmpty (the (f_batch f)) then globalExitRoot (the (f_batch f)) else ZeroHash)\<rparr>\<rparr>)) = f1"
    "ProcessBatch env (f_processRequest f1) True = (err, Some r)"
    "handleProcessTransactionResponse env p r resp root f1 = Inr (Some ErrEffectiveGasPriceReprocess, f')"
proof -
  obtain b where b: "f_batch f = Some b" using assms by (cases "f_batch f") (auto simp: processTransaction_def)
  let ?f0 = "f\<lparr>f_processRequest := (f_processRequest f)\<lparr>pr_GlobalExitRoot :=
      (if isEmpty b then globalExitRoot b else ZeroHash)\<rparr>\<rparr>"
  obtain e f1 where p: "prepare_tx env p firstTxProcess ?f0 = (e, f1)" by fastforce
  have "e \<noteq> Some ErrEffectiveGasPriceReprocess"
    using p by (auto simp: prepare_tx_def Let_def split: option.splits sum.splits prod.splits)
  then have e: "e = None" using assms b p by (cases e) (auto simp: processTransaction_def)
  obtain err a where ans: "ProcessBatch env (f_processRequest f1) True = (err, a)" by fastforce
  have h: "handle_batch_response env (Some p) err a f1 = Inr (Some ErrEffectiveGasPriceReprocess, f')"
    using assms b p e ans by (simp add: processTransaction_def)
  then obtain r where r: "a = Some r" and db: "err \<noteq> Some rt_ErrExecutorDBError"
    by (cases a) (auto simp: handle_batch_response_def split: if_splits)
  have x: "\<not> pbr_IsExecutorLevelError r"
    using h r db fin_errors_differ(2) by (auto simp: handle_batch_response_def Let_def and_then_Inr split: if_splits)
  obtain b1 resp rs where b1: "f_batch f1 = Some b1" and rs: "pbr_Responses r = resp # rs"
    using h r db x by (cases "f_batch f1"; cases "pbr_Responses r")
      (auto simp: handle_batch_response_def Let_def and_then_Inr split: if_splits)
  have "handleProcessTransactionResponse env p r resp (stateRoot b1) f1 = Inr (Some ErrEffectiveGasPriceReprocess, f')"
    using h r db x b1 rs
    by (cases "handleProcessTransactionResponse env p r resp (stateRoot b1) f1")
      (auto simp: handle_batch_response_def Let_def and_then_Inr split: if_splits)
  then show thesis using ans r by (intro that [of f1 err r resp "stateRoot b1"]) (simp_all only: b option.sel p snd_conv)
qed

lemma prepare_tx_keeps:
  "fin_frame f (snd (prepare_tx env p firstTxProcess f)) \<and>
     RawTx (trackers (f_worker (snd (prepare_tx env p firstTxProcess f))) p) = RawTx (trackers (f_worker f) p)"
proof -
  let ?t = "trackers (f_worker f) p" and ?f1 = "f\<lparr>f_processRequest := (f_processRequest f)\<lparr>pr_Transactions := RawTx (trackers (f_worker f) p)\<rparr>\<rparr>"
  obtain e t1 where t1: "(if firstTxProcess then egp_first env (trackers (f_worker ?f1) p) else (None, trackers (f_worker ?f1) p)) = (e, t1)"
    by fastforce
  have "RawTx t1 = RawTx (trackers (f_worker ?f1) p)"
    using t1 unfolding egp_first_def Let_def by (cases firstTxProcess) (auto split: sum.splits if_splits)
  then have r1: "RawTx t1 = RawTx ?t" by simp
  have r2: "RawTx t2 = RawTx ?t" if "egp_percentage env t1 = Inr (pc, t2)" for t2 pc
    using that r1 by (auto simp: egp_percentage_def split: sum.splits if_splits)
  let ?f2 = "setTracker p (\<lambda>_. t1) ?f1"
  have fr: "fin_frame f ?f2" "RawTx (trackers (f_worker ?f2) p) = RawTx ?t" by (simp_all add: fin_frame_def setTracker_def r1)
  show ?thesis
  proof (cases e)
    case (Some x)
    have "snd (prepare_tx env p firstTxProcess f) = ?f2"
      by (simp only: prepare_tx_def Let_def t1 prod.case Some option.case snd_conv)
    then show ?thesis using fr by simp
  next
    case None
    show ?thesis
    proof (cases "egp_percentage env t1")
      case (Inl x)
      have "snd (prepare_tx env p firstTxProcess f) = ?f2"
        by (simp only: prepare_tx_def Let_def t1 prod.case None Inl sum.case option.case snd_conv)
      then show ?thesis using fr by simp
    next
      case (Inr q)
      obtain pc t2 where q: "q = (pc, t2)" by fastforce
      let ?f3 = "setTracker p (\<lambda>_. t2) ?f2"
      have fr3: "fin_frame f ?f3" "RawTx (trackers (f_worker ?f3) p) = RawTx ?t"
        using r2 [of pc t2] Inr q by (simp_all add: fin_frame_def setTracker_def)
      have "snd (prepare_tx env p firstTxProcess f) = ?f3 \<or>
          (\<exists>d. snd (prepare_tx env p firstTxProcess f) = ?f3\<lparr>f_processRequest := (f_processRequest ?f3)\<lparr>pr_Transactions := d\<rparr>\<rparr>)"
        by (simp only: prepare_tx_def Let_def t1 prod.case None Inr q sum.case option.case snd_conv percentage_bytes split: if_split) blast
      then show ?thesis using fr3 fin_frame_trans [OF fr3(1) request_frame(2)] by (elim disjE exE) simp_all
    qed
  qed
qed

lemma prepare_tx_again_last:
  assumes "prepare_tx env p False f = (e, f')"
  shows "IsLastExecution (trackers (f_worker f') p) = IsLastExecution (trackers (f_worker f) p)"
proof -
  have "IsLastExecution t' = IsLastExecution t" if "egp_percentage env t = Inr (pc, t')" for t t' pc
    using that by (auto simp: egp_percentage_def split: sum.splits if_splits)
  then show ?thesis
    using assms by (auto simp: prepare_tx_def Let_def split: option.splits sum.splits prod.splits if_splits)
qed

lemma again_is_last:
  assumes "processTransaction env (Some p) firstTxProcess f = Inr (Some ErrEffectiveGasPriceReprocess, f')"
  shows "IsLastExecution (trackers (f_worker f') p)"
  using assms by (elim processTransaction_again) (use response_again in blast)

lemma last_not_again:
  assumes "IsLastExecution (trackers (f_worker f) p)"
  shows "processTransaction env (Some p) False f \<noteq> Inr (Some ErrEffectiveGasPriceReprocess, f')"
proof
  assume "processTransaction env (Some p) False f = Inr (Some ErrEffectiveGasPriceReprocess, f')"
  then show False
  proof (elim processTransaction_again)
    fix f1 err r resp root
    assume pr: "snd (prepare_tx env p False (f\<lparr>f_processRequest := (f_processRequest f)\<lparr>pr_GlobalExitRoot :=
      (if isEmpty (the (f_batch f)) then globalExitRoot (the (f_batch f)) else ZeroHash)\<rparr>\<rparr>)) = f1" (is "snd (prepare_tx _ _ _ ?f0) = _")
      and h: "handleProcessTransactionResponse env p r resp root f1 = Inr (Some ErrEffectiveGasPriceReprocess, f')"
    obtain e where "prepare_tx env p False ?f0 = (e, f1)" using pr by (cases "prepare_tx env p False ?f0") simp
    from prepare_tx_again_last [OF this] response_again [OF h] assms show False by auto
  qed
qed

section \<open>The percentage\<close>

lemma ceiling_step:
  fixes g e :: int
  assumes "0 < g"
  shows "256 * e \<le> g * ((e * 256 + g - 1) div g) \<and> g * ((e * 256 + g - 1) div g) < 256 * e + g"
proof -
  let ?q = "(e * 256 + g - 1) div g" and ?m = "(e * 256 + g - 1) mod g"
  have "g * ?q + ?m = e * 256 + g - 1" by simp
  moreover have "0 \<le> ?m" "?m < g" using assms by simp_all
  ultimately show ?thesis by linarith
qed

lemma big_Uint64_byte: "0 \<le> x \<Longrightarrow> x < 256 \<Longrightarrow> uint (ucast (big_Uint64 x) :: u8) = x"
  by (simp add: big_Uint64_def unsigned_ucast_eq take_bit_eq_mod unsigned_of_int)

lemma percentage_value:
  assumes "0 < e" "e < g"
  shows "\<exists>p. CalculateEffectiveGasPricePercentage g e = Inr p \<and> 256 * e \<le> g * (uint p + 1) \<and> g * (uint p + 1) < 256 * e + g"
proof -
  let ?q = "(e * 256 + g - 1) div g"
  note c = ceiling_step [of g e]
  have g: "0 < g" using assms by simp
  have "0 < ?q" using c assms g by (smt (verit) mult_nonneg_nonpos)
  moreover have "?q \<le> 256"
  proof (rule ccontr)
    assume "\<not> ?q \<le> 256"
    then have "g * 257 \<le> g * ?q" using g by simp
    then show False using c g assms by linarith
  qed
  ultimately have "uint (ucast (big_Uint64 (?q - 1)) :: u8) = ?q - 1"
    by (intro big_Uint64_byte) simp_all
  then show ?thesis using c g assms by (simp add: CalculateEffectiveGasPricePercentage_def Let_def)
qed

section \<open>Properties\<close>

text \<open>
  C3. Processing a transaction over the worker, whatever the state answers. From a consistent worker
  and a batch on whose root the next request starts, \<open>processTransaction\<close> stops exactly when the
  answer to the request it sends makes it: it panics on a nil response, which the state gives with
  every error (only the database error is returned before the response is read) and on a response
  marked as an executor error that names none, and it halts when a transaction gets neither an
  error nor a response. In every other case, and when it sends no request because the effective
  gas price failed, it returns: the worker is consistent, the remaining resources are within the
  constraints and the request starts from the root of the batch. A transaction is stored at most
  once, on the root the batch had and with the root it gets, and is then counted; when an error is
  returned nothing is stored, and the root and the count stay.
\<close>

theorem processTransaction_safe:
  assumes "fin_inv (fe_worker env) f"
  shows "case processTransaction env tx firstTxProcess f of
      Inl s \<Rightarrow> \<exists>req. sent_request env tx firstTxProcess f = Some req \<and> stops tx (ProcessBatch env req True) = Some s
    | Inr (e, f') \<Rightarrow> fin_inv (fe_worker env) f' \<and> tx_outcome f e f' \<and>
        (\<forall>req. sent_request env tx firstTxProcess f = Some req \<longrightarrow> stops tx (ProcessBatch env req True) = None)"
  using processTransaction_inv [OF assms, of tx firstTxProcess]
  by (auto simp: ends_well_def split: sum.splits option.splits)

text \<open>
  C30. The loop over the effective gas price ends: whatever the executor and the gas prices are in
  each turn, a transaction is processed once or twice, and the loop does not end in the error that
  asks to process it again.
\<close>

theorem tx_processed_at_most_twice:
  "case process_loop env 0 tx True f of
     None \<Rightarrow> False
   | Some (Inl s) \<Rightarrow> True
   | Some (Inr (n, e, f')) \<Rightarrow> n \<in> {1, 2} \<and> e \<noteq> Some ErrEffectiveGasPriceReprocess"
proof (cases "\<exists>f1. processTransaction (env 0) (Some tx) True f = Inr (Some ErrEffectiveGasPriceReprocess, f1)")
  case True
  then obtain f1 where f1: "processTransaction (env 0) (Some tx) True f = Inr (Some ErrEffectiveGasPriceReprocess, f1)" by blast
  have n: "processTransaction (env 1) (Some tx) False f1 \<noteq> Inr (Some ErrEffectiveGasPriceReprocess, f2)" for f2
    by (rule last_not_again [OF again_is_last [OF f1]])
  have "process_loop env 0 tx True f = process_loop env 1 tx False f1"
    by (subst process_loop.simps) (simp add: f1)
  also have "\<dots> = (case processTransaction (env 1) (Some tx) False f1 of
      Inl s \<Rightarrow> Some (Inl s) | Inr (e, f2) \<Rightarrow> Some (Inr (2, e, f2)))"
    using n by (subst process_loop.simps) (auto split: sum.splits)
  finally show ?thesis using n by (auto split: sum.splits)
next
  case False
  then show ?thesis by (subst process_loop.simps) (auto split: sum.splits)
qed

text \<open>
  C31. The percentage a transaction is processed with. For an effective gas price below the gas
  price of the transaction, the percentage \<open>p\<close> fits a byte, which is what is appended to the
  transaction; the price it stands for, \<open>gasPrice * (p + 1) / 256\<close>, is at least the effective gas
  price and exceeds it by less than one step.
\<close>

theorem percentage_covers_price:
  assumes "0 < effectiveGasPrice" "effectiveGasPrice < gasPrice"
  shows "\<exists>p. CalculateEffectiveGasPricePercentage gasPrice effectiveGasPrice = Inr p \<and>
    DecodeHex (go_text 16 (unat p)) = ([p], None) \<and>
    256 * effectiveGasPrice \<le> gasPrice * (uint p + 1) \<and> gasPrice * (uint p + 1) < 256 * effectiveGasPrice + gasPrice"
  using percentage_value [OF assms] percentage_bytes by blast

theorem percentage_covers_price_witness:
  "\<exists>p. CalculateEffectiveGasPricePercentage 1000 300 = Inr p \<and> 256 * 300 \<le> 1000 * (uint p + 1)"
  using percentage_covers_price [of 300 1000] by auto

text \<open>
  A transaction that is sent back to be processed with another effective gas price has already
  been charged: the resources of the first execution are taken from the batch although nothing
  is stored or counted, so the second execution is charged on top of it.
\<close>

theorem reprocessed_tx_is_charged_twice:
  assumes "processTransaction env (Some p) firstTxProcess f = Inr (Some ErrEffectiveGasPriceReprocess, f')"
  shows "\<exists>b b' req err r. f_batch f = Some b \<and> f_batch f' = Some b' \<and> ProcessBatch env req True = (err, Some r) \<and>
    BatchResources_Sub (remainingResources b) (usedResources r (trackers (f_worker f) p)) = (None, remainingResources b') \<and>
    b' = b\<lparr>remainingResources := remainingResources b'\<rparr> \<and>
    pendingTransactionsToStore f' = pendingTransactionsToStore f"
  using assms
proof (elim processTransaction_again)
  let ?f0 = "f\<lparr>f_processRequest := (f_processRequest f)\<lparr>pr_GlobalExitRoot :=
      (if isEmpty (the (f_batch f)) then globalExitRoot (the (f_batch f)) else ZeroHash)\<rparr>\<rparr>"
  fix f1 err r resp root
  assume pr: "snd (prepare_tx env p firstTxProcess ?f0) = f1" and ans: "ProcessBatch env (f_processRequest f1) True = (err, Some r)"
    and h: "handleProcessTransactionResponse env p r resp root f1 = Inr (Some ErrEffectiveGasPriceReprocess, f')"
  have fr: "fin_frame f f1" "RawTx (trackers (f_worker f1) p) = RawTx (trackers (f_worker f) p)"
    using prepare_tx_keeps [of ?f0 env p firstTxProcess] fin_frame_trans [OF request_frame(1)] pr by auto
  then have "usedResources r (trackers (f_worker f1) p) = usedResources r (trackers (f_worker f) p)"
    by (simp add: usedResources_def)
  moreover obtain b rem where "f_batch f1 = Some b"
      "BatchResources_Sub (remainingResources b) (usedResources r (trackers (f_worker f1) p)) = (None, rem)"
      "f_batch f' = Some (b\<lparr>remainingResources := rem\<rparr>)" "pendingTransactionsToStore f' = pendingTransactionsToStore f1"
    using response_again [OF h] by blast
  ultimately show ?thesis using fr(1) ans
    by (intro exI [of _ b] exI [of _ "b\<lparr>remainingResources := rem\<rparr>"] exI [of _ "f_processRequest f1"] exI [of _ err] exI [of _ r])
      (simp add: fin_frame_def)
qed

text \<open>A batch with no transactions, a worker with none ready, and an executor that gives every transaction the same answer.\<close>

definition sample_response :: ProcessTransactionResponse where
  "sample_response = \<lparr>ptr_TxHash = 0, ptr_Type = 0, ptr_ReturnValue = [], ptr_GasLeft = 0, ptr_GasUsed = 8,
     ptr_GasRefunded = 0, ptr_RomError = None, ptr_CreateAddress = 0, ptr_StateRoot = 7, ptr_ChangesStateRoot = True,
     ptr_Tx = \<lparr>tx_Nonce = 0, tx_GasPrice = 10, tx_Gas = 21000, tx_To = None, tx_Value = 0, tx_Data = [], tx_V = 27,
       tx_R = 1, tx_S = 1\<rparr>,
     ptr_EffectiveGasPrice = [], ptr_EffectivePercentage = 255, ptr_HasGaspriceOpcode = False, ptr_HasBalanceOpcode = False\<rparr>"

definition sample_batch_response :: ProcessBatchResponse where
  "sample_batch_response = \<lparr>pbr_NewStateRoot = 7, pbr_NewAccInputHash = 0, pbr_NewLocalExitRoot = 0, pbr_NewBatchNumber = 1,
     pbr_UsedZkCounters = sample_counters 1, pbr_Responses = [sample_response], pbr_ExecutorError = None,
     pbr_ReadWriteAddresses = [], pbr_IsRomLevelError = False, pbr_IsExecutorLevelError = False, pbr_IsRomOOCError = False,
     pbr_FlushID = 1, pbr_StoredFlushID = 0, pbr_ProverID = []\<rparr>"

text \<open>The effective gas price is the gas used: 5 when the transaction arrives, 8 when it is executed.\<close>

definition sample_fin_env :: fin_env where
  "sample_fin_env = \<lparr>fe_worker = sample_env, GetL1AndL2GasPrice = (1, 1),
     CalculateEffectiveGasPrice = (\<lambda>raw price gasUsed l1 l2. Inr (if gasUsed = 8 then 8 else 5)), egpIsEnabled = True,
     GetFinalDeviation = 10, GetForkIDByBatchNumber = (\<lambda>n. 5),
     ProcessBatch = (\<lambda>req upd. (None, Some sample_batch_response)), UpdateTxStatus = (\<lambda>h. None),
     GetSender = (\<lambda>t. Inr 1)\<rparr>"

definition sample_wip :: WipBatch where
  "sample_wip = \<lparr>batchNumber = 1, coinbase = 0, initialStateRoot = 3, stateRoot = 3, localExitRoot = 0, wb_timestamp = 0,
     globalExitRoot = 0, remainingResources = getMaxRemainingResources sample_constraints, countOfTxs = 0,
     closingReason = EmptyClosingReason\<rparr>"

definition sample_fin :: finalizer where
  "sample_fin = \<lparr>f_cfg = \<lparr>GERDeadlineTimeout = 5, ForcedBatchDeadlineTimeout = 60, ResourcePercentageToCloseBatch = 10,
       TimestampResolution = 10, StopSequencerOnBatchNum = 0, SequentialReprocessFullBatch = True\<rparr>,
     f_sequencerAddress = 0, f_worker = NewWorker sample_heap sample_constraints, f_batch = Some sample_wip,
     f_batchConstraints = sample_constraints,
     f_processRequest = \<lparr>pr_BatchNumber = 1, pr_GlobalExitRoot = 0, pr_OldStateRoot = 3, pr_OldAccInputHash = 0,
       pr_Transactions = [], pr_Coinbase = 0, pr_Timestamp = 0, pr_Caller = ''sequencer''\<rparr>,
     currentGERHash = 0, previousGERHash = 0, reprocessFullBatchError = False, nextGER = 0, nextGERDeadline = 0,
     nextForcedBatches = [], nextForcedBatchDeadline = 0, pendingTransactionsToStore = [], storedFlushID = 0,
     lastPendingFlushID = 0, f_stream = None, f_proverID = [], statusUpdates = []\<rparr>"

lemma sample_fin_inv: "fin_inv sample_env sample_fin"
  using NewWorker_inv sample_trackers_ok
  by (auto simp: fin_inv_def sample_fin_def sample_wip_def w_ok_def NewWorker_def)

lemmas sample_fin_simps = sample_fin_def sample_wip_def sample_fin_env_def sample_batch_response_def sample_response_def
  sample_constraints_def sample_counters_def sample_simps NewWorker_def getMaxRemainingResources_def

lemma sample_Sub:
  "BatchResources_Sub (getMaxRemainingResources sample_constraints) (usedResources sample_batch_response (sample_heap 0)) =
     (None, (getMaxRemainingResources sample_constraints)\<lparr>ZKCountersF :=
        \<lparr>CumulativeGasUsed = 29979000, UsedKeccakHashes = 2144, UsedPoseidonHashes = 252355, UsedPoseidonPaddings = 135188,
         UsedMemAligns = 236581, UsedArithmetics = 236580, UsedBinaries = 473164, UsedSteps = 7570531\<rparr>\<rparr>)"
  by (simp add: BatchResources_Sub_def ZKCounters_Sub_def usedResources_def sample_fin_simps)

lemma sample_reprocess:
  "\<exists>f'. processTransaction sample_fin_env (Some 0) True sample_fin = Inr (Some ErrEffectiveGasPriceReprocess, f')"
  using RomErrorCode_changed
  by (simp add: processTransaction_def prepare_tx_def egp_first_def egp_percentage_def percentage_bytes Let_def
      CalculateEffectiveGasPricePercentage_def handle_batch_response_def handleProcessTransactionResponse_def
      checkRemainingResources_def egp_second_def CompareTxEffectiveGasPrice_def setTracker_def
      BatchResources_Sub_def ZKCounters_Sub_def usedResources_def sample_fin_simps)

text \<open>Transaction 0 is executed and sent back; with an executor that cannot be reached the finalizer panics.\<close>

definition sample_down_env :: fin_env where
  "sample_down_env = sample_fin_env\<lparr>ProcessBatch := \<lambda>req upd. (Some (NewError ''connection refused''), None)\<rparr>"

lemma sample_down: "processTransaction sample_down_env (Some 0) True sample_fin = Inl Panicked"
  by (simp add: processTransaction_def prepare_tx_def egp_first_def egp_percentage_def percentage_bytes Let_def
      CalculateEffectiveGasPricePercentage_def handle_batch_response_def rt_ErrExecutorDBError_def
      setTracker_def sample_down_env_def sample_fin_simps)

theorem processTransaction_safe_witness:
  "(\<exists>f'. processTransaction sample_fin_env (Some 0) True sample_fin = Inr (Some ErrEffectiveGasPriceReprocess, f') \<and>
      fin_inv sample_env f' \<and> tx_outcome sample_fin (Some ErrEffectiveGasPriceReprocess) f') \<and>
   (\<exists>req. sent_request sample_down_env (Some 0) True sample_fin = Some req \<and>
      stops (Some 0) (ProcessBatch sample_down_env req True) = Some Panicked)"
proof -
  obtain f' where f': "processTransaction sample_fin_env (Some 0) True sample_fin = Inr (Some ErrEffectiveGasPriceReprocess, f')"
    using sample_reprocess by blast
  have w: "fe_worker sample_fin_env = sample_env" "fe_worker sample_down_env = sample_env"
    by (simp_all add: sample_fin_env_def sample_down_env_def)
  have "fin_inv sample_env f' \<and> tx_outcome sample_fin (Some ErrEffectiveGasPriceReprocess) f'"
    using processTransaction_safe [of sample_fin_env sample_fin "Some 0" True] sample_fin_inv f' by (simp add: w)
  moreover have "\<exists>req. sent_request sample_down_env (Some 0) True sample_fin = Some req \<and>
      stops (Some 0) (ProcessBatch sample_down_env req True) = Some Panicked"
    using processTransaction_safe [of sample_down_env sample_fin "Some 0" True] sample_fin_inv sample_down by (simp add: w)
  ultimately show ?thesis using f' by blast
qed

theorem reprocessed_tx_is_charged_twice_witness:
  "\<exists>f' b'. processTransaction sample_fin_env (Some 0) True sample_fin = Inr (Some ErrEffectiveGasPriceReprocess, f') \<and>
     f_batch f' = Some b' \<and> UsedSteps (ZKCountersF (remainingResources b')) = 7570531 \<and> pendingTransactionsToStore f' = []"
proof -
  obtain f' where f': "processTransaction sample_fin_env (Some 0) True sample_fin = Inr (Some ErrEffectiveGasPriceReprocess, f')"
    using sample_reprocess by blast
  have "trackers (f_worker sample_fin) 0 = sample_heap 0" "f_batch sample_fin = Some sample_wip"
      "remainingResources sample_wip = getMaxRemainingResources sample_constraints" "pendingTransactionsToStore sample_fin = []"
      "ProcessBatch sample_fin_env req True = (None, Some sample_batch_response)" for req
    by (simp_all add: sample_fin_def sample_wip_def NewWorker_def sample_fin_env_def)
  with reprocessed_tx_is_charged_twice [OF f'] sample_Sub obtain b' where
      "f_batch f' = Some b'" "pendingTransactionsToStore f' = []"
      "remainingResources b' = snd (BatchResources_Sub (getMaxRemainingResources sample_constraints)
         (usedResources sample_batch_response (sample_heap 0)))" by auto
  with f' show ?thesis by (simp add: sample_Sub)
qed

end
