(* ===== verification/FinalizerBatch.thy ===== *)
theory FinalizerBatch
  imports FinalizerTx
begin

text \<open>
  The finalizer, second part: closing a batch and opening the next one, the forced batches between
  them, the signals that ask for it and the loop around it (\<open>sequencer/finalizer.go\<close>). The methods of
  \<open>dbManagerInterface\<close> are parameters, the record \<open>batch_env\<close>; what the finalizer writes through them
  is kept in \<open>fin_run\<close>. Times are in nanoseconds. The waits for the synchronizer and the mutexes are
  left out; the goroutine that checks a closed batch is a step of its own.
\<close>

section \<open>Data\<close>

record ProcessingContext =
  pc_BatchNumber :: u64
  pc_Coinbase :: address
  pc_Timestamp :: int
  pc_GlobalExitRoot :: hash
  pc_ForcedBatchNum :: "u64 option"
  pc_BatchL2Data :: "bytes option"

record ClosingBatchParameters =
  cb_BatchNumber :: u64
  cb_StateRoot :: hash
  cb_LocalExitRoot :: hash
  cb_AccInputHash :: hash
  cb_Txs :: "LegacyTx list"
  cb_BatchResources :: BatchResources
  cb_ClosingReason :: string
  cb_EffectivePercentages :: "u8 list"

record batch_env =
  be_fin :: fin_env
  be_geth :: geth
  be_now :: "u64 \<Rightarrow> int"
  be_storedFlushID :: u64
  GetLastTrustedForcedBatchNumber :: "go_error + u64"
  GetForcedBatch :: "u64 \<Rightarrow> go_error + StateForcedBatch"
  ProcessForcedBatch :: "u64 \<Rightarrow> ProcessRequest \<Rightarrow> go_error + ProcessBatchResponse"
  StoreProcessedTxAndDeleteFromPool :: "transactionToStore \<Rightarrow> go_error option"
  BeginStateTransaction :: "go_error option"
  OpenBatch :: "ProcessingContext \<Rightarrow> go_error option"
  RollbackTx :: "go_error option"
  CommitTx :: "go_error option"
  GetTransactionsByBatchNumber :: "u64 \<Rightarrow> go_error + LegacyTx list \<times> u8 list"
  CloseBatch :: "ClosingBatchParameters \<Rightarrow> go_error option"
  GetBatchByNumber :: "u64 \<Rightarrow> go_error + Batch"
  GetLastBatch :: "go_error + Batch"
  IsBatchClosed :: "u64 \<Rightarrow> go_error + bool"
  GetLatestGer :: "go_error + hash"
  GetWIPBatch :: "go_error + WipBatch"

text \<open>The finalizer with what it has written: forced batches, stored transactions, closed and opened batches.\<close>

record fin_run =
  fr_fin :: finalizer
  fr_forced :: "(u64 \<times> ProcessRequest \<times> ProcessBatchResponse) list"
  fr_stored :: "transactionToStore list"
  fr_closed :: "ClosingBatchParameters list"
  fr_opened :: "ProcessingContext list"

datatype batch_error =
    StateRootEmpty
  | FinError fin_error
  | ErrGetBatchByNumber
  | ErrDecodeBatchL2Data
  | ErrProcessBatch
  | ErrProcessBatchOOC
  | ErrStateRootNoMatch
  | ErrExecutorError
  | CloseError go_error
  | OpenError go_error
  | StateError go_error

abbreviation on_fin :: "(finalizer \<Rightarrow> finalizer) \<Rightarrow> fin_run \<Rightarrow> fin_run" where
  "on_fin g s \<equiv> s\<lparr>fr_fin := g (fr_fin s)\<rparr>"

definition unix :: "int \<Rightarrow> int" where
  "unix t = t div 10 ^ 9"

definition SequencerCallerLabel :: string where "SequencerCallerLabel = ''sequencer''"
definition DiscardCallerLabel :: string where "DiscardCallerLabel = ''discard''"

section \<open>The signals to close a batch\<close>

text \<open>Exchange sort, by the nested loops of the code.\<close>

definition swap_if :: "nat \<Rightarrow> nat \<Rightarrow> StateForcedBatch list \<Rightarrow> StateForcedBatch list" where
  "swap_if i j fb = (if fb_ForcedBatchNumber (fb ! i) > fb_ForcedBatchNumber (fb ! j)
     then fb[i := fb ! j, j := fb ! i] else fb)"

definition sortForcedBatches :: "StateForcedBatch list \<Rightarrow> StateForcedBatch list" where
  "sortForcedBatches fb =
     fold (\<lambda>i fb. fold (\<lambda>j fb. swap_if i j fb) [i + 1..<length fb] fb) [0..<length fb - 1] fb"

definition durationSeconds :: "int \<Rightarrow> int" where
  "durationSeconds d = sgn d * (\<bar>d\<bar> div 10 ^ 9)"

definition setNextForcedBatchDeadline :: "int \<Rightarrow> finalizer \<Rightarrow> finalizer" where
  "setNextForcedBatchDeadline now f =
     f\<lparr>nextForcedBatchDeadline := unix now + durationSeconds (ForcedBatchDeadlineTimeout (f_cfg f))\<rparr>"

definition setNextGERDeadline :: "int \<Rightarrow> finalizer \<Rightarrow> finalizer" where
  "setNextGERDeadline now f = f\<lparr>nextGERDeadline := unix now + durationSeconds (GERDeadlineTimeout (f_cfg f))\<rparr>"

datatype closing_signal = ForcedBatchCh StateForcedBatch | GERCh hash | L2ReorgCh

text \<open>One turn of \<open>listenForClosingSignals\<close>.\<close>

definition listenForClosingSignals :: "int \<Rightarrow> closing_signal \<Rightarrow> finalizer \<Rightarrow> stop + finalizer" where
  "listenForClosingSignals now signal f =
     (case signal of
        ForcedBatchCh fb \<Rightarrow>
          (let f1 = f\<lparr>nextForcedBatches := sortForcedBatches (nextForcedBatches f @ [fb])\<rparr>
           in Inr (if nextForcedBatchDeadline f1 = 0 then setNextForcedBatchDeadline now f1 else f1))
      | GERCh ger \<Rightarrow>
          (let f1 = f\<lparr>nextGER := ger\<rparr>
           in Inr (if nextGERDeadline f1 = 0 then setNextGERDeadline now f1 else f1))
      | L2ReorgCh \<Rightarrow> Inl Halted)"

definition setClosingReason :: "string \<Rightarrow> WipBatch \<Rightarrow> finalizer \<Rightarrow> finalizer" where
  "setClosingReason reason b f = f\<lparr>f_batch := Some (b\<lparr>closingReason := reason\<rparr>)\<rparr>"

text \<open>The batch is read once: it is not nil where the loop calls these.\<close>

definition isBatchFull :: "WipBatch \<Rightarrow> finalizer \<Rightarrow> bool \<times> finalizer" where
  "isBatchFull b f =
     (if countOfTxs b \<ge> sint (MaxTxsPerBatch (f_batchConstraints f)) then (True, setClosingReason BatchFullClosingReason b f)
      else (False, f))"

definition getConstraintThresholdUint64 :: "finalizer \<Rightarrow> u64 \<Rightarrow> u64" where
  "getConstraintThresholdUint64 f input = input * ucast (ResourcePercentageToCloseBatch (f_cfg f)) div 100"

definition getConstraintThresholdUint32 :: "finalizer \<Rightarrow> u32 \<Rightarrow> u32" where
  "getConstraintThresholdUint32 f input = (input * ResourcePercentageToCloseBatch (f_cfg f)) div 100"

definition isBatchAlmostFull :: "WipBatch \<Rightarrow> finalizer \<Rightarrow> bool \<times> finalizer" where
  "isBatchAlmostFull b f =
     (let resources = remainingResources b;
          zkCounters = ZKCountersF resources;
          c = f_batchConstraints f;
          result =
            (if Bytes resources \<le> getConstraintThresholdUint64 f (MaxBatchBytesSize c) then True
             else if UsedSteps zkCounters \<le> getConstraintThresholdUint32 f (MaxSteps c) then True
             else if UsedPoseidonPaddings zkCounters \<le> getConstraintThresholdUint32 f (MaxPoseidonPaddings c) then True
             else if UsedBinaries zkCounters \<le> getConstraintThresholdUint32 f (MaxBinaries c) then True
             else if UsedKeccakHashes zkCounters \<le> getConstraintThresholdUint32 f (MaxKeccakHashes c) then True
             else if UsedArithmetics zkCounters \<le> getConstraintThresholdUint32 f (MaxArithmetics c) then True
             else if UsedMemAligns zkCounters \<le> getConstraintThresholdUint32 f (MaxMemAligns c) then True
             else if CumulativeGasUsed zkCounters \<le> getConstraintThresholdUint64 f (MaxCumulativeGasUsed c) then True
             else False)
      in (result, if result then setClosingReason BatchAlmostFullClosingReason b f else f))"

text \<open>The clock is read for each of the three deadlines.\<close>

definition isDeadlineEncountered :: "int \<Rightarrow> int \<Rightarrow> int \<Rightarrow> WipBatch \<Rightarrow> finalizer \<Rightarrow> bool \<times> finalizer" where
  "isDeadlineEncountered now1 now2 now3 b f =
     (if nextForcedBatchDeadline f \<noteq> 0 \<and> unix now1 \<ge> nextForcedBatchDeadline f then (True, f)
      else if nextGERDeadline f \<noteq> 0 \<and> unix now2 \<ge> nextGERDeadline f
      then (True, setClosingReason GlobalExitRootDeadlineClosingReason b f)
      else if \<not> isEmpty b \<and> wb_timestamp b + TimestampResolution (f_cfg f) < now3
      then (True, setClosingReason TimeoutResolutionDeadlineClosingReason b f)
      else (False, f))"

definition getUsedBatchResources :: "BatchConstraintsCfg \<Rightarrow> BatchResources \<Rightarrow> BatchResources" where
  "getUsedBatchResources constraints remaining =
     \<lparr>ZKCountersF =
        \<lparr>CumulativeGasUsed = MaxCumulativeGasUsed constraints - CumulativeGasUsed (ZKCountersF remaining),
         UsedKeccakHashes = MaxKeccakHashes constraints - UsedKeccakHashes (ZKCountersF remaining),
         UsedPoseidonHashes = MaxPoseidonHashes constraints - UsedPoseidonHashes (ZKCountersF remaining),
         UsedPoseidonPaddings = MaxPoseidonPaddings constraints - UsedPoseidonPaddings (ZKCountersF remaining),
         UsedMemAligns = MaxMemAligns constraints - UsedMemAligns (ZKCountersF remaining),
         UsedArithmetics = MaxArithmetics constraints - UsedArithmetics (ZKCountersF remaining),
         UsedBinaries = MaxBinaries constraints - UsedBinaries (ZKCountersF remaining),
         UsedSteps = MaxSteps constraints - UsedSteps (ZKCountersF remaining)\<rparr>,
      Bytes = MaxBatchBytesSize constraints - Bytes remaining\<rparr>"

section \<open>Forced batches\<close>

lemma word_succ_below:
  fixes a b :: "'a::len word"
  assumes "a < b"
  shows "unat (a + 1) = unat a + 1"
proof -
  have "unat b < 2 ^ LENGTH('a)" by (rule unsigned_less)
  with assms have "Suc (unat a) < 2 ^ LENGTH('a)" unfolding word_less_nat_alt by linarith
  then show ?thesis by (simp add: unat_word_ariths)
qed

fun handleForcedTxsProcessResp ::
    "fin_env \<Rightarrow> ProcessRequest \<Rightarrow> ProcessBatchResponse \<Rightarrow> ProcessTransactionResponse list \<Rightarrow> hash \<Rightarrow> finalizer \<Rightarrow>
     stop + finalizer" where
  "handleForcedTxsProcessResp env request result [] oldStateRoot f = Inr f"
| "handleForcedTxsProcessResp env request result (txResp # rest) oldStateRoot f =
     (let romErr = RomErrorCode (ptr_RomError txResp) in
      if ptr_RomError txResp \<noteq> None \<and> (IsIntrinsicError romErr \<or> romErr = RomError_ROM_ERROR_INVALID_RLP)
      then handleForcedTxsProcessResp env request result rest oldStateRoot f
      else
        (let sender = GetSender env (ptr_Tx txResp);
             txToStore = \<lparr>ts_hash = ptr_TxHash txResp, ts_from = (case sender of Inl e \<Rightarrow> 0 | Inr a \<Rightarrow> a),
               ts_response = txResp, ts_batchResponse = result, ts_batchNumber = pr_BatchNumber request,
               ts_timestamp = pr_Timestamp request, ts_coinbase = pr_Coinbase request, ts_oldStateRoot = oldStateRoot,
               ts_isForcedBatch = True, ts_flushId = pbr_FlushID result, ts_egpLog = None\<rparr>;
             f1 = addPendingTxToStore env txToStore (updateLastPendingFlushID (pbr_FlushID result) f)
         in and_then
              (case sender of
                 Inl e \<Rightarrow> Inr f1
               | Inr a \<Rightarrow> updateWorkerAfterSuccessfulProcessing env (ptr_TxHash txResp) a True result f1)
              (handleForcedTxsProcessResp env request result rest (ptr_StateRoot txResp))))"

definition addForcedTxs :: "fin_env \<Rightarrow> ProcessTransactionResponse list \<Rightarrow> finalizer \<Rightarrow> finalizer" where
  "addForcedTxs env responses f =
     fold (\<lambda>txResponse f.
       if ptr_RomError txResponse \<noteq> RomErr RomError_ROM_ERROR_INVALID_RLP
       then (case GetSender env (ptr_Tx txResponse) of
               Inl err \<Rightarrow> f
             | Inr sender \<Rightarrow> f\<lparr>f_worker := w_AddForcedTx (fe_worker env) (ptr_TxHash txResponse) sender (f_worker f)\<rparr>)
       else f) responses f"

definition addStreamEntry :: "DSUpdateGER \<Rightarrow> finalizer \<Rightarrow> finalizer" where
  "addStreamEntry updateGer f = f\<lparr>f_stream := map_option (\<lambda>es. es @ [updateGer]) (f_stream f)\<rparr>"

definition processForcedBatch ::
    "batch_env \<Rightarrow> u64 \<Rightarrow> hash \<Rightarrow> StateForcedBatch \<Rightarrow> fin_run \<Rightarrow> stop + (u64 \<times> hash) \<times> fin_run" where
  "processForcedBatch env lastBatchNumberInState root forcedBatch s =
     (let f = fr_fin s;
          request = \<lparr>pr_BatchNumber = lastBatchNumberInState + 1, pr_GlobalExitRoot = fb_GlobalExitRoot forcedBatch,
            pr_OldStateRoot = root, pr_OldAccInputHash = 0, pr_Transactions = fb_RawTxsData forcedBatch,
            pr_Coinbase = f_sequencerAddress f, pr_Timestamp = be_now env (lastBatchNumberInState + 1),
            pr_Caller = SequencerCallerLabel\<rparr>
      in case ProcessForcedBatch env (fb_ForcedBatchNumber forcedBatch) request of
           Inl err \<Rightarrow> Inl Halted
         | Inr response \<Rightarrow>
             and_then
               (if pbr_Responses response \<noteq> [] \<and> \<not> pbr_IsRomOOCError response
                then handleForcedTxsProcessResp (be_fin env) request response (pbr_Responses response) root
                       (addForcedTxs (be_fin env) (pbr_Responses response) f)
                else Inr (if f_stream f \<noteq> None \<and> currentGERHash f \<noteq> fb_GlobalExitRoot forcedBatch
                          then addStreamEntry \<lparr>ug_BatchNumber = pr_BatchNumber request, ug_Timestamp = unix (pr_Timestamp request),
                                 ug_GlobalExitRoot = pr_GlobalExitRoot request, ug_Coinbase = f_sequencerAddress f,
                                 ug_ForkID = ucast (GetForkIDByBatchNumber (be_fin env) (pr_BatchNumber request)),
                                 ug_StateRoot = pbr_NewStateRoot response\<rparr> f
                          else f))
               (\<lambda>f1. Inr ((lastBatchNumberInState + 1, pbr_NewStateRoot response),
                  s\<lparr>fr_fin := f1\<lparr>currentGERHash := fb_GlobalExitRoot forcedBatch\<rparr>,
                    fr_forced := fr_forced s @ [(fb_ForcedBatchNumber forcedBatch, request, response)]\<rparr>)))"

text \<open>
  The forced batches between the next one and \<open>target\<close>. A missing one is an error, which
  \<open>processForcedBatches\<close> returns with the number 0 and the zero root.
\<close>

function process_in_between ::
    "batch_env \<Rightarrow> u64 \<Rightarrow> u64 \<Rightarrow> u64 \<times> hash \<Rightarrow> fin_run \<Rightarrow> stop + go_error option \<times> (u64 \<times> hash) \<times> fin_run" where
  "process_in_between env target nextNum (n, root) s =
     (if target > nextNum then
        (case GetForcedBatch env nextNum of
           Inl err \<Rightarrow> Inr (Some err, (n, root), s)
         | Inr fb \<Rightarrow>
             (case processForcedBatch env n root fb s of
                Inl st \<Rightarrow> Inl st
              | Inr (nr, s1) \<Rightarrow> process_in_between env target (nextNum + 1) nr s1))
      else Inr (None, (n, root), s))"
  by pat_completeness auto
termination
proof (relation "measure (\<lambda>(env, target, nextNum, nr, s). unat target - unat nextNum)", goal_cases)
  case (2 env target nextNum n root s fb p nr s1)
  have "unat nextNum < unat target" using 2(1) by (simp add: word_less_nat_alt)
  with word_succ_below [OF 2(1)] show ?case by simp
qed simp

fun process_forced_loop ::
    "batch_env \<Rightarrow> StateForcedBatch list \<Rightarrow> u64 \<Rightarrow> u64 \<times> hash \<Rightarrow> fin_run \<Rightarrow> stop + go_error option \<times> (u64 \<times> hash) \<times> fin_run" where
  "process_forced_loop env [] nextNum nr s = Inr (None, nr, s)"
| "process_forced_loop env (fb # fbs) nextNum nr s =
     (if fb_ForcedBatchNumber fb < nextNum then process_forced_loop env fbs nextNum nr s
      else
        and_then (process_in_between env (fb_ForcedBatchNumber fb) nextNum nr s) (\<lambda>(err, nr1, s1).
          if err \<noteq> None then Inr (err, nr1, s1)
          else and_then (processForcedBatch env (fst nr1) (snd nr1) fb s1) (\<lambda>(nr2, s2).
            process_forced_loop env fbs (fb_ForcedBatchNumber fb + 1) nr2 s2)))"

definition processForcedBatches ::
    "batch_env \<Rightarrow> u64 \<Rightarrow> hash \<Rightarrow> fin_run \<Rightarrow> stop + (u64 \<times> hash \<times> go_error option) \<times> fin_run" where
  "processForcedBatches env lastBatchNumberInState root s0 =
     (let s = on_fin (\<lambda>f. f\<lparr>nextForcedBatchDeadline := 0\<rparr>) s0 in
      case GetLastTrustedForcedBatchNumber env of
        Inl err \<Rightarrow> Inr ((0, 0, Some err), s)
      | Inr lastTrustedForcedBatchNumber \<Rightarrow>
          and_then (process_forced_loop env (nextForcedBatches (fr_fin s)) (lastTrustedForcedBatchNumber + 1) (lastBatchNumberInState, root) s)
            (\<lambda>(err, (n, r), s1).
               case err of
                 Some e \<Rightarrow> Inr ((0, 0, Some e), s1)
               | None \<Rightarrow> Inr ((n, r, None), on_fin (\<lambda>f. f\<lparr>nextForcedBatches := []\<rparr>) s1)))"

section \<open>Closing a batch and opening the next\<close>

text \<open>
  One turn of \<open>storePendingTransactions\<close> when the executor has stored up to \<open>storedFlushID\<close>: the
  first transaction of the channel is stored, or waits.
\<close>

definition storePendingTransactions :: "batch_env \<Rightarrow> fin_run \<Rightarrow> stop + bool \<times> fin_run" where
  "storePendingTransactions env s =
     (case pendingTransactionsToStore (fr_fin s) of
        [] \<Rightarrow> Inr (False, s)
      | tx # rest \<Rightarrow>
          if storedFlushID (fr_fin s) < ts_flushId tx then Inr (False, s)
          else (case StoreProcessedTxAndDeleteFromPool env tx of
                  Some err \<Rightarrow> Inl Halted
                | None \<Rightarrow> Inr (True, (on_fin (\<lambda>f. f\<lparr>pendingTransactionsToStore := rest,
                    f_worker := w_DeletePendingTxToStore (fe_worker (be_fin env)) (ts_hash tx) (ts_from tx) (f_worker f)\<rparr>) s)
                    \<lparr>fr_stored := fr_stored s @ [tx]\<rparr>)))"

definition checkIfProverRestarted :: "string \<Rightarrow> finalizer \<Rightarrow> stop + finalizer" where
  "checkIfProverRestarted proverID f =
     (if f_proverID f \<noteq> [] \<and> f_proverID f \<noteq> proverID then Inl Exited else Inr f)"

text \<open>One turn of the inner loop of \<open>updateProverIdAndFlushId\<close>, with what \<open>GetStoredFlushID\<close> returns.\<close>

definition updateProverIdAndFlushId :: "go_error + u64 \<times> string \<Rightarrow> finalizer \<Rightarrow> stop + finalizer" where
  "updateProverIdAndFlushId answer f =
     (if storedFlushID f < lastPendingFlushID f then
        (case answer of
           Inl err \<Rightarrow> Inr f
         | Inr (stored, proverID) \<Rightarrow>
             if stored \<noteq> storedFlushID f
             then and_then (checkIfProverRestarted proverID f) (\<lambda>f1. Inr (f1\<lparr>storedFlushID := stored\<rparr>))
             else Inr f)
      else Inr f)"

text \<open>
  The wait of \<open>newWIPBatch\<close> for the pending transactions: they are stored one after the other, in the
  order of the channel, as the executor reports the flush id \<open>be_storedFlushID\<close>; the wait does not
  return when that does not reach one of them.
\<close>

fun wait_pending :: "batch_env \<Rightarrow> transactionToStore list \<Rightarrow> fin_run \<Rightarrow> stop + fin_run" where
  "wait_pending env [] s = Inr s"
| "wait_pending env (tx # rest) s =
     and_then (storePendingTransactions env
       (on_fin (\<lambda>f. f\<lparr>storedFlushID := max (storedFlushID f) (be_storedFlushID env)\<rparr>) s)) (\<lambda>(stored, s1).
         if stored then wait_pending env rest s1 else Inl Halted)"

definition reprocessFullBatch ::
    "batch_env \<Rightarrow> u64 \<Rightarrow> hash \<Rightarrow> hash \<Rightarrow> finalizer \<Rightarrow> stop + (batch_error + ProcessBatchResponse) \<times> finalizer" where
  "reprocessFullBatch env batchNum initialRoot expectedNewStateRoot f =
     (let failed = f\<lparr>reprocessFullBatchError := True\<rparr> in
      case GetBatchByNumber env batchNum of
        Inl err \<Rightarrow> Inr (Inl ErrGetBatchByNumber, failed)
      | Inr batch \<Rightarrow>
          (let request = \<lparr>pr_BatchNumber = ba_BatchNumber batch, pr_GlobalExitRoot = ba_GlobalExitRoot batch,
                 pr_OldStateRoot = initialRoot, pr_OldAccInputHash = 0, pr_Transactions = ba_BatchL2Data batch,
                 pr_Coinbase = ba_Coinbase batch, pr_Timestamp = ba_Timestamp batch,
                 pr_Caller = (if SequentialReprocessFullBatch (f_cfg f) then SequencerCallerLabel else DiscardCallerLabel)\<rparr>
           in and_then (deref (DecodeTxs (be_geth env) (ba_BatchL2Data batch) (GetForkIDByBatchNumber (be_fin env) batchNum)))
                (\<lambda>(txs, rest, percentages, decodeErr).
                  if decodeErr \<noteq> None then Inr (Inl ErrDecodeBatchL2Data, failed)
                  else
                    (case ProcessBatch (be_fin env) request False of
                       (Some err, r) \<Rightarrow> Inr (Inl ErrProcessBatch, failed)
                     | (None, r) \<Rightarrow>
                         and_then (deref r) (\<lambda>result.
                           if pbr_IsRomOOCError result then Inr (Inl ErrProcessBatchOOC, failed)
                           else if pbr_NewStateRoot result \<noteq> expectedNewStateRoot then Inr (Inl ErrStateRootNoMatch, failed)
                           else if pbr_ExecutorError result \<noteq> None then Inr (Inl ErrExecutorError, failed)
                           else Inr (Inr result, f))))))"

definition closeBatch :: "batch_env \<Rightarrow> WipBatch \<Rightarrow> fin_run \<Rightarrow> batch_error option \<times> fin_run" where
  "closeBatch env b s =
     (case GetTransactionsByBatchNumber env (batchNumber b) of
        Inl err \<Rightarrow> (Some (CloseError err), s)
      | Inr (transactions, effectivePercentages) \<Rightarrow>
          (let receipt = \<lparr>cb_BatchNumber = batchNumber b, cb_StateRoot = stateRoot b, cb_LocalExitRoot = localExitRoot b,
                 cb_AccInputHash = 0, cb_Txs = transactions,
                 cb_BatchResources = getUsedBatchResources (f_batchConstraints (fr_fin s)) (remainingResources b),
                 cb_ClosingReason = closingReason b, cb_EffectivePercentages = effectivePercentages\<rparr>
           in case CloseBatch env receipt of
                Some err \<Rightarrow> (Some (CloseError err), s)
              | None \<Rightarrow> (None, s\<lparr>fr_closed := fr_closed s @ [receipt]\<rparr>)))"

definition openBatch :: "batch_env \<Rightarrow> u64 \<Rightarrow> hash \<Rightarrow> finalizer \<Rightarrow> go_error + ProcessingContext" where
  "openBatch env num ger f =
     (let processingCtx = \<lparr>pc_BatchNumber = num, pc_Coinbase = f_sequencerAddress f, pc_Timestamp = be_now env num,
            pc_GlobalExitRoot = ger, pc_ForcedBatchNum = None, pc_BatchL2Data = None\<rparr>
      in case OpenBatch env processingCtx of Some err \<Rightarrow> Inl err | None \<Rightarrow> Inr processingCtx)"

definition openWIPBatch :: "batch_env \<Rightarrow> u64 \<Rightarrow> hash \<Rightarrow> hash \<Rightarrow> fin_run \<Rightarrow> (batch_error + WipBatch) \<times> fin_run" where
  "openWIPBatch env batchNum ger root s =
     (case BeginStateTransaction env of
        Some err \<Rightarrow> (Inl (OpenError err), s)
      | None \<Rightarrow>
          (case openBatch env batchNum ger (fr_fin s) of
             Inl err \<Rightarrow> (Inl (OpenError (case RollbackTx env of Some rollbackErr \<Rightarrow> rollbackErr | None \<Rightarrow> err)), s)
           | Inr openBatchResp \<Rightarrow>
               (case CommitTx env of
                  Some err \<Rightarrow> (Inl (OpenError err), s)
                | None \<Rightarrow>
                    (Inr \<lparr>batchNumber = batchNum, coinbase = f_sequencerAddress (fr_fin s), initialStateRoot = root,
                       stateRoot = root, localExitRoot = 0, wb_timestamp = pc_Timestamp openBatchResp, globalExitRoot = ger,
                       remainingResources = getMaxRemainingResources (f_batchConstraints (fr_fin s)), countOfTxs = 0,
                       closingReason = EmptyClosingReason\<rparr>,
                     s\<lparr>fr_opened := fr_opened s @ [openBatchResp]\<rparr>))))"

text \<open>The parts of \<open>newWIPBatch\<close>, in its order; \<open>b\<close> is the batch that is closed.\<close>

definition reprocess_unchanged :: "batch_env \<Rightarrow> WipBatch \<Rightarrow> fin_run \<Rightarrow> stop + fin_error option \<times> fin_run" where
  "reprocess_unchanged env b s =
     (if initialStateRoot b = stateRoot b then
        and_then (processTransaction (be_fin env) None True (fr_fin s)) (\<lambda>(err, f). Inr (err, s\<lparr>fr_fin := f\<rparr>))
      else Inr (None, s))"

definition sanity_check :: "batch_env \<Rightarrow> WipBatch \<Rightarrow> fin_run \<Rightarrow> stop + fin_run" where
  "sanity_check env b s =
     (if SequentialReprocessFullBatch (f_cfg (fr_fin s)) then
        and_then (reprocessFullBatch env (batchNumber b) (initialStateRoot b) (stateRoot b) (fr_fin s)) (\<lambda>(r, f).
          case r of Inl err \<Rightarrow> Inl Halted | Inr result \<Rightarrow> Inr (s\<lparr>fr_fin := f\<rparr>))
      else Inr s)"

text \<open>The goroutine of the parallel check, which reads the batch when it runs.\<close>

definition parallel_check :: "batch_env \<Rightarrow> fin_run \<Rightarrow> stop + fin_run" where
  "parallel_check env s =
     and_then (deref (f_batch (fr_fin s))) (\<lambda>b.
       and_then (reprocessFullBatch env (batchNumber b) (initialStateRoot b) (stateRoot b) (fr_fin s)) (\<lambda>(r, f).
         Inr (s\<lparr>fr_fin := f\<rparr>)))"

definition send_update_ger :: "batch_env \<Rightarrow> WipBatch \<Rightarrow> finalizer \<Rightarrow> finalizer" where
  "send_update_ger env b f =
     (if f_stream f \<noteq> None \<and> isEmpty b \<and> currentGERHash f \<noteq> previousGERHash f
      then addStreamEntry \<lparr>ug_BatchNumber = batchNumber b, ug_Timestamp = unix (wb_timestamp b),
             ug_GlobalExitRoot = currentGERHash f, ug_Coinbase = f_sequencerAddress f,
             ug_ForkID = ucast (GetForkIDByBatchNumber (be_fin env) (batchNumber b)), ug_StateRoot = stateRoot b\<rparr> f
      else f)"

text \<open>An error of the forced batches is only logged.\<close>

definition forced_batches :: "batch_env \<Rightarrow> u64 \<Rightarrow> hash \<Rightarrow> fin_run \<Rightarrow> stop + (u64 \<times> hash) \<times> fin_run" where
  "forced_batches env lastBatchNumber root s =
     (if nextForcedBatches (fr_fin s) \<noteq> []
      then and_then (processForcedBatches env lastBatchNumber root s) (\<lambda>((n, r, err), s1). Inr ((n, r), s1))
      else Inr ((lastBatchNumber, root), s))"

definition take_ger :: "finalizer \<Rightarrow> finalizer" where
  "take_ger f =
     (let f1 = (if nextGER f \<noteq> ZeroHash then f\<lparr>previousGERHash := currentGERHash f, currentGERHash := nextGER f\<rparr> else f)
      in f1\<lparr>nextGER := ZeroHash, nextGERDeadline := 0\<rparr>)"

definition open_next :: "batch_env \<Rightarrow> u64 \<Rightarrow> hash \<Rightarrow> fin_run \<Rightarrow> (batch_error + WipBatch) \<times> fin_run" where
  "open_next env lastBatchNumber root s =
     (case openWIPBatch env (lastBatchNumber + 1) (currentGERHash (fr_fin s)) root s of
        (Inl err, s1) \<Rightarrow> (Inl err, s1)
      | (Inr batch, s1) \<Rightarrow>
          (Inr batch, on_fin (\<lambda>f. f\<lparr>f_processRequest := (f_processRequest f)\<lparr>pr_Timestamp := wb_timestamp batch,
             pr_BatchNumber := batchNumber batch, pr_OldStateRoot := root, pr_GlobalExitRoot := globalExitRoot batch,
             pr_Transactions := []\<rparr>\<rparr>) s1))"

definition newWIPBatch :: "batch_env \<Rightarrow> fin_run \<Rightarrow> stop + (batch_error + WipBatch) \<times> fin_run" where
  "newWIPBatch env s =
     and_then (wait_pending env (pendingTransactionsToStore (fr_fin s)) s) (\<lambda>s1.
     and_then (deref (f_batch (fr_fin s1))) (\<lambda>b.
     if stateRoot b = ZeroHash then Inr (Inl StateRootEmpty, s1)
     else
       and_then (reprocess_unchanged env b s1) (\<lambda>(err, s2).
       case err of
         Some e \<Rightarrow> Inr (Inl (FinError e), s2)
       | None \<Rightarrow>
           and_then (deref (f_batch (fr_fin s2))) (\<lambda>b2.
           and_then (sanity_check env b2 s2) (\<lambda>s3.
           case closeBatch env b2 s3 of
             (Some e, s4) \<Rightarrow> Inr (Inl e, s4)
           | (None, s4) \<Rightarrow>
               and_then (forced_batches env (batchNumber b2) (stateRoot b2) (on_fin (send_update_ger env b2) s4)) (\<lambda>((n, r), s5).
               Inr (open_next env n r (on_fin take_ger s5))))))))"

text \<open>\<open>finalizeBatch\<close>: \<open>env k\<close> is the environment of the \<open>k\<close>-th attempt; \<open>None\<close> is a loop that does not end.\<close>

partial_function (option) finalizeBatch :: "(nat \<Rightarrow> batch_env) \<Rightarrow> nat \<Rightarrow> fin_run \<Rightarrow> (stop + fin_run) option" where
  "finalizeBatch env k s =
     (case newWIPBatch (env k) s of
        Inl st \<Rightarrow> Some (Inl st)
      | Inr (Inr batch, s1) \<Rightarrow> Some (Inr (on_fin (\<lambda>f. f\<lparr>f_batch := Some batch\<rparr>) s1))
      | Inr (Inl err, s1) \<Rightarrow> finalizeBatch env (k + 1) (on_fin (\<lambda>f. f\<lparr>f_batch := None\<rparr>) s1))"

text \<open>
  One turn of \<open>finalizeBatches\<close>: \<open>tx\<close> is what \<open>GetBestFittingTx\<close> returns, \<open>envs\<close> and \<open>closing\<close> the
  environments of its two loops.
\<close>

definition finalizeBatches ::
    "(nat \<Rightarrow> fin_env) \<Rightarrow> (nat \<Rightarrow> batch_env) \<Rightarrow> int \<Rightarrow> int \<Rightarrow> int \<Rightarrow> txref option \<Rightarrow> fin_run \<Rightarrow> (stop + fin_run) option" where
  "finalizeBatches envs closing now1 now2 now3 tx s =
     (case f_batch (fr_fin s) of
        None \<Rightarrow> Some (Inl Panicked)
      | Some b0 \<Rightarrow>
          if batchNumber b0 = StopSequencerOnBatchNum (f_cfg (fr_fin s)) then Some (Inl Halted)
          else
            (case (case tx of
                     None \<Rightarrow> Some (Inr (fr_fin s))
                   | Some t \<Rightarrow> map_option (map_sum id (\<lambda>(n, err, f). f)) (process_loop envs 0 t True (fr_fin s))) of
               None \<Rightarrow> None
             | Some (Inl st) \<Rightarrow> Some (Inl st)
             | Some (Inr f) \<Rightarrow>
                 if \<not> SequentialReprocessFullBatch (f_cfg f) \<and> reprocessFullBatchError f then Some (Inl Halted)
                 else
                   (case f_batch f of
                      None \<Rightarrow> Some (Inl Panicked)
                    | Some b \<Rightarrow>
                        (let (deadline, f1) = isDeadlineEncountered now1 now2 now3 b f in
                         if deadline then finalizeBatch closing 0 (s\<lparr>fr_fin := f1\<rparr>)
                         else
                           (let (full, f2) = isBatchFull b f1 in
                            if full then finalizeBatch closing 0 (s\<lparr>fr_fin := f2\<rparr>)
                            else
                              (let (almost, f3) = isBatchAlmostFull b f2 in
                               if almost then finalizeBatch closing 0 (s\<lparr>fr_fin := f3\<rparr>)
                               else Some (Inr (s\<lparr>fr_fin := f3\<rparr>))))))))"

section \<open>Starting\<close>

definition syncWithState :: "batch_env \<Rightarrow> u64 option \<Rightarrow> fin_run \<Rightarrow> batch_error option \<times> fin_run" where
  "syncWithState env lastBatchNum s =
     (case (case lastBatchNum of None \<Rightarrow> GetLastBatch env | Some n \<Rightarrow> GetBatchByNumber env n) of
        Inl err \<Rightarrow> (Some (StateError err), s)
      | Inr lastBatch \<Rightarrow>
          (let batchNum = ba_BatchNumber lastBatch;
               request = (\<lambda>b. \<lparr>pr_BatchNumber = batchNum, pr_GlobalExitRoot = globalExitRoot b, pr_OldStateRoot = stateRoot b,
                 pr_OldAccInputHash = 0, pr_Transactions = [], pr_Coinbase = f_sequencerAddress (fr_fin s),
                 pr_Timestamp = wb_timestamp b, pr_Caller = SequencerCallerLabel\<rparr>);
               synced = (\<lambda>b s1. (None, on_fin (\<lambda>f. f\<lparr>f_batch := Some b, f_processRequest := request b\<rparr>) s1))
           in case IsBatchClosed env batchNum of
                Inl err \<Rightarrow> (Some (StateError err), s)
              | Inr True \<Rightarrow>
                  (case GetLatestGer env of
                     Inl err \<Rightarrow> (Some (StateError err), s)
                   | Inr ger \<Rightarrow>
                       (case openWIPBatch env (batchNum + 1) ger (ba_StateRoot lastBatch) s of
                          (Inl err, s1) \<Rightarrow> (Some err, on_fin (\<lambda>f. f\<lparr>f_batch := None\<rparr>) s1)
                        | (Inr b, s1) \<Rightarrow> synced b s1))
              | Inr False \<Rightarrow>
                  (case GetWIPBatch env of
                     Inl err \<Rightarrow> (Some (StateError err), on_fin (\<lambda>f. f\<lparr>f_batch := None\<rparr>) s)
                   | Inr b \<Rightarrow> synced b s)))"

text \<open>Of the last two batches, the newest first. An empty list is indexed: \<open>None\<close> is the panic.\<close>

definition getOldStateRootFromBatches :: "Batch list \<Rightarrow> hash" where
  "getOldStateRootFromBatches batches =
     (if length batches = 1 then ba_StateRoot (batches ! 0)
      else if length batches = 2 then ba_StateRoot (batches ! 1) else 0)"

definition getLastBatchNumAndOldStateRoot :: "go_error + Batch list \<Rightarrow> (u64 \<times> hash \<times> go_error option) option" where
  "getLastBatchNumAndOldStateRoot lastTwo =
     (case lastTwo of
        Inl err \<Rightarrow> Some (0, 0, Some err)
      | Inr [] \<Rightarrow> None
      | Inr (b # bs) \<Rightarrow> Some (ba_BatchNumber b, getOldStateRootFromBatches (b # bs), None))"

end
