(* ===== verification/FinalizerRuns.thy ===== *)
theory FinalizerRuns
  imports FinalizerBatch
begin

text \<open>
  What closing and opening batches guarantees: forced batches are sorted and processed in order
  and without gaps, each on the root of the one before; a new batch starts where the last one
  ended, with all the resources; and what the finalizer does when closing a batch fails.
\<close>

section \<open>Sorting the forced batches\<close>

abbreviation num :: "StateForcedBatch \<Rightarrow> u64" where "num \<equiv> fb_ForcedBatchNumber"

lemma length_swap_if [simp]: "length (swap_if i j fb) = length fb"
  by (simp add: swap_if_def)

lemma mset_swap_if: "i < length fb \<Longrightarrow> j < length fb \<Longrightarrow> mset (swap_if i j fb) = mset fb"
  by (simp add: swap_if_def mset_swap)

definition in_place :: "nat \<Rightarrow> StateForcedBatch list \<Rightarrow> bool" where
  "in_place i fb \<longleftrightarrow> (\<forall>p q. p < i \<longrightarrow> p < q \<longrightarrow> q < length fb \<longrightarrow> num (fb ! p) \<le> num (fb ! q))"

definition least_up_to :: "nat \<Rightarrow> nat \<Rightarrow> StateForcedBatch list \<Rightarrow> bool" where
  "least_up_to i m fb \<longleftrightarrow> (\<forall>q. i < q \<longrightarrow> q < m \<longrightarrow> num (fb ! i) \<le> num (fb ! q))"

lemma swap_if_in_place:
  assumes "in_place i fb" "i < j" "j < length fb"
  shows "in_place i (swap_if i j fb)"
  using assms by (auto simp: in_place_def swap_if_def nth_list_update)

lemma swap_if_least:
  assumes "least_up_to i j fb" "i < j" "j < length fb"
  shows "least_up_to i (Suc j) (swap_if i j fb)"
  using assms by (auto simp: least_up_to_def swap_if_def nth_list_update less_Suc_eq intro: order.trans)

lemma inner_loop:
  assumes "in_place i fb" "i < m" "m \<le> length fb"
  shows "let fb' = fold (swap_if i) [i + 1..<m] fb in
    length fb' = length fb \<and> mset fb' = mset fb \<and> in_place i fb' \<and> least_up_to i m fb'"
  using assms(2,3)
proof (induction m rule: nat_induct)
  case (Suc m)
  show ?case
  proof (cases "i < m")
    case True
    let ?fb = "fold (swap_if i) [i + 1..<m] fb"
    have IH: "length ?fb = length fb" "mset ?fb = mset fb" "in_place i ?fb" "least_up_to i m ?fb"
      using Suc True by (auto simp: Let_def)
    have f: "fold (swap_if i) [i + 1..<Suc m] fb = swap_if i m ?fb" using True by simp
    show ?thesis unfolding f Let_def
      using IH Suc.prems True swap_if_in_place [OF IH(3), of m] swap_if_least [OF IH(4), of] mset_swap_if [of i ?fb m] by simp
  next
    case False
    then show ?thesis using Suc.prems assms(1) by (simp add: least_up_to_def Let_def)
  qed
qed simp

lemma in_place_Suc: "in_place i fb \<Longrightarrow> least_up_to i (length fb) fb \<Longrightarrow> in_place (Suc i) fb"
  by (auto simp: in_place_def least_up_to_def less_Suc_eq)

lemma outer_loop:
  assumes "m \<le> length fb - 1"
  shows "let fb' = fold (\<lambda>i fb. fold (\<lambda>j fb. swap_if i j fb) [i + 1..<length fb] fb) [0..<m] fb in
    length fb' = length fb \<and> mset fb' = mset fb \<and> in_place m fb'"
  using assms
proof (induction m)
  case (Suc m)
  let ?fb = "fold (\<lambda>i fb. fold (\<lambda>j fb. swap_if i j fb) [i + 1..<length fb] fb) [0..<m] fb"
  have IH: "length ?fb = length fb" "mset ?fb = mset fb" "in_place m ?fb" using Suc by (auto simp: Let_def)
  have "let fb' = fold (swap_if m) [m + 1..<length fb] ?fb in
      length fb' = length fb \<and> mset fb' = mset fb \<and> in_place m fb' \<and> least_up_to m (length fb) fb'"
    using inner_loop [OF IH(3), of "length fb"] Suc.prems IH by simp
  then show ?case using IH in_place_Suc by (simp add: Let_def)
qed (simp add: in_place_def)

lemma sortForcedBatches_sorts: "sorted (map num (sortForcedBatches fb)) \<and> mset (sortForcedBatches fb) = mset fb"
proof -
  have "length (sortForcedBatches fb) = length fb" "mset (sortForcedBatches fb) = mset fb"
      "in_place (length fb - 1) (sortForcedBatches fb)"
    using outer_loop [of "length fb - 1" fb] by (auto simp: Let_def sortForcedBatches_def)
  then show ?thesis by (auto simp: sorted_iff_nth_mono_less in_place_def)
qed

lemma sortForcedBatches_unique:
  assumes "distinct (map num fb)"
  shows "sortForcedBatches fb = sort_key num fb"
proof (rule map_sorted_distinct_set_unique)
  note s = sortForcedBatches_sorts [of fb]
  have set: "set (sortForcedBatches fb) = set fb" using s by (metis mset_eq_setD)
  show "set (sortForcedBatches fb) = set (sort_key num fb)" by (simp add: set)
  show "inj_on num (set (sortForcedBatches fb) \<union> set (sort_key num fb))" using assms by (simp add: set distinct_map)
  show "sorted (map num (sortForcedBatches fb))" using s by simp
  show "sorted (map num (sort_key num fb))" by simp
  have "mset (map num (sortForcedBatches fb)) = mset (map num fb)" "mset (map num (sort_key num fb)) = mset (map num fb)"
    using s by simp_all
  then show "distinct (map num (sortForcedBatches fb))" "distinct (map num (sort_key num fb))"
    using assms mset_eq_imp_distinct_iff by blast+
qed

section \<open>The order of the forced batches\<close>

type_synonym forced_entry = "u64 \<times> ProcessRequest \<times> ProcessBatchResponse"

fun forced_chain :: "u64 \<Rightarrow> u64 \<Rightarrow> hash \<Rightarrow> forced_entry list \<Rightarrow> bool" where
  "forced_chain forcedNum n root [] \<longleftrightarrow> True"
| "forced_chain forcedNum n root ((m, req, resp) # xs) \<longleftrightarrow>
     m = forcedNum \<and> pr_BatchNumber req = n + 1 \<and> pr_OldStateRoot req = root \<and>
     forced_chain (forcedNum + 1) (n + 1) (pbr_NewStateRoot resp) xs"

fun chain_root :: "hash \<Rightarrow> forced_entry list \<Rightarrow> hash" where
  "chain_root root [] = root"
| "chain_root root ((m, req, resp) # xs) = chain_root (pbr_NewStateRoot resp) xs"

text \<open>The entries \<open>xs\<close> lead from one end of the loop to the other.\<close>

definition forced_run :: "u64 \<Rightarrow> u64 \<times> hash \<Rightarrow> fin_run \<Rightarrow> forced_entry list \<Rightarrow> u64 \<times> hash \<Rightarrow> fin_run \<Rightarrow> bool" where
  "forced_run forcedNum nr s xs nr' s' \<longleftrightarrow> fr_forced s' = fr_forced s @ xs \<and> forced_chain forcedNum (fst nr) (snd nr) xs \<and>
     nr' = (fst nr + of_nat (length xs), chain_root (snd nr) xs)"

lemma forced_run_Nil [simp]: "forced_run k nr s [] nr s"
  by (simp add: forced_run_def)

lemma chain_append:
  "forced_chain k n r (xs @ ys) \<longleftrightarrow>
     forced_chain k n r xs \<and> forced_chain (k + of_nat (length xs)) (n + of_nat (length xs)) (chain_root r xs) ys"
  "chain_root r (xs @ ys) = chain_root (chain_root r xs) ys"
proof -
  show "forced_chain k n r (xs @ ys) \<longleftrightarrow>
     forced_chain k n r xs \<and> forced_chain (k + of_nat (length xs)) (n + of_nat (length xs)) (chain_root r xs) ys"
    by (induction k n r xs rule: forced_chain.induct) (simp_all add: ac_simps)
  show "chain_root r (xs @ ys) = chain_root (chain_root r xs) ys" by (induction r xs rule: chain_root.induct) simp_all
qed

lemma forced_run_append:
  "forced_run k nr s xs nr1 s1 \<Longrightarrow> forced_run (k + of_nat (length xs)) nr1 s1 ys nr2 s2 \<Longrightarrow> forced_run k nr s (xs @ ys) nr2 s2"
  by (auto simp: forced_run_def chain_append ac_simps)

lemma processForcedBatch_run:
  assumes "processForcedBatch env n root fb s = Inr (nr', s')"
  shows "\<exists>req resp. forced_run (num fb) (n, root) s [(num fb, req, resp)] nr' s'"
proof -
  let ?req = "\<lparr>pr_BatchNumber = n + 1, pr_GlobalExitRoot = fb_GlobalExitRoot fb,
            pr_OldStateRoot = root, pr_OldAccInputHash = 0, pr_Transactions = fb_RawTxsData fb,
            pr_Coinbase = f_sequencerAddress (fr_fin s), pr_Timestamp = be_now env (n + 1),
            pr_Caller = SequencerCallerLabel\<rparr>"
  obtain resp where resp: "ProcessForcedBatch env (num fb) ?req = Inr resp"
    using assms by (cases "ProcessForcedBatch env (num fb) ?req") (simp_all add: processForcedBatch_def)
  have "fr_forced s' = fr_forced s @ [(num fb, ?req, resp)]" "nr' = (n + 1, pbr_NewStateRoot resp)"
    using assms unfolding processForcedBatch_def Let_def by (simp_all only: resp sum.case and_then_Inr) auto
  then show ?thesis by (intro exI [of _ ?req] exI [of _ resp]) (simp add: forced_run_def)
qed

declare process_in_between.simps [simp del]

lemma in_between_run:
  assumes "\<And>k fb. GetForcedBatch env k = Inr fb \<Longrightarrow> num fb = k"
    and "process_in_between env target k nr s = Inr (err, nr', s')" "k \<le> target"
  shows "\<exists>xs. forced_run k nr s xs nr' s' \<and> (err = None \<longrightarrow> unat target = unat k + length xs)"
  using assms
proof (induction env target k nr s rule: process_in_between.induct)
  case (1 env target k n root s)
  show ?case
  proof (cases "k < target")
    case True
    show ?thesis
    proof (cases "GetForcedBatch env k")
      case (Inl e)
      then have "err = Some e" "nr' = (n, root)" "s' = s" using "1.prems"(2) True by (auto simp: process_in_between.simps)
      then show ?thesis by (intro exI [of _ "[]"]) simp
    next
      case (Inr fb)
      obtain nr1 s1 where p: "processForcedBatch env n root fb s = Inr (nr1, s1)"
          "process_in_between env target (k + 1) nr1 s1 = Inr (err, nr', s')"
        using "1.prems"(2) True Inr by (auto simp: process_in_between.simps split: sum.splits)
      have k: "num fb = k" using "1.prems"(1) [OF Inr] .
      have le: "k + 1 \<le> target" "unat (k + 1) = unat k + 1"
        using True word_succ_below [OF True] by (simp_all add: word_le_nat_alt word_less_nat_alt)
      obtain ys where ys: "forced_run (k + 1) nr1 s1 ys nr' s'" "err = None \<longrightarrow> unat target = unat (k + 1) + length ys"
        using "1.IH" [OF True Inr p(1) refl "1.prems"(1) p(2) le(1)] by blast
      obtain e where "forced_run k (n, root) s [e] nr1 s1" using processForcedBatch_run [OF p(1)] k by auto
      then have "forced_run k (n, root) s ([e] @ ys) nr' s'" using ys(1) by (intro forced_run_append) simp_all
      with ys(2) le(2) show ?thesis by (intro exI [of _ "[e] @ ys"]) simp
    qed
  next
    case False
    then have "err = None" "nr' = (n, root)" "s' = s" "target = k"
      using "1.prems"(2,3) by (auto simp: process_in_between.simps)
    then show ?thesis by (intro exI [of _ "[]"]) simp
  qed
qed

lemma forced_loop_run:
  assumes "\<And>k fb. GetForcedBatch env k = Inr fb \<Longrightarrow> num fb = k"
    and "process_forced_loop env fbs k nr s = Inr (None, nr', s')" "sorted (map num fbs)" "\<forall>fb \<in> set fbs. num fb < - 1"
  shows "\<exists>xs. forced_run k nr s xs nr' s' \<and> (\<forall>fb \<in> set fbs. unat (num fb) < unat k + length xs)"
  using assms(2-4)
proof (induction fbs arbitrary: k nr s)
  case (Cons fb fbs)
  show ?case
  proof (cases "num fb < k")
    case True
    then obtain xs where xs: "forced_run k nr s xs nr' s'" "\<forall>fb \<in> set fbs. unat (num fb) < unat k + length xs"
      using Cons.IH [of k nr s] Cons.prems by auto
    have "unat (num fb) < unat k + length xs" using True by (simp add: word_less_nat_alt)
    with xs show ?thesis by auto
  next
    case False
    then obtain nr1 s1 nr2 s2 where p: "process_in_between env (num fb) k nr s = Inr (None, nr1, s1)"
        "processForcedBatch env (fst nr1) (snd nr1) fb s1 = Inr (nr2, s2)"
        "process_forced_loop env fbs (num fb + 1) nr2 s2 = Inr (None, nr', s')"
      using Cons.prems(1) by (auto simp: and_then_Inr split: if_splits)
    obtain xs where xs: "forced_run k nr s xs nr1 s1" "unat (num fb) = unat k + length xs"
      using in_between_run [OF assms(1) p(1)] False not_less by blast
    have below: "unat (num fb + 1) = unat (num fb) + 1" using Cons.prems(3) by (intro word_succ_below [of _ "- 1"]) simp
    have "num fb = of_nat (unat (num fb))" by simp
    also have "\<dots> = k + of_nat (length xs)" by (simp only: xs(2) of_nat_add) simp
    finally have at: "num fb = k + of_nat (length xs)" .
    obtain e where e: "forced_run (k + of_nat (length xs)) nr1 s1 [e] nr2 s2" using processForcedBatch_run [OF p(2)] at by auto
    obtain ys where ys: "forced_run (num fb + 1) nr2 s2 ys nr' s'" "\<forall>b \<in> set fbs. unat (num b) < unat (num fb + 1) + length ys"
      using Cons.IH [OF p(3)] Cons.prems by auto
    have "forced_run k nr s (xs @ [e]) nr2 s2" by (rule forced_run_append [OF xs(1) e])
    then have "forced_run k nr s ((xs @ [e]) @ ys) nr' s'"
      by (rule forced_run_append) (use ys(1) at in \<open>simp add: ac_simps\<close>)
    moreover have "\<forall>b \<in> set (fb # fbs). unat (num b) < unat k + length ((xs @ [e]) @ ys)"
      using ys(2) below xs(2) by auto
    ultimately show ?thesis by blast
  qed
qed (intro exI [of _ "[]"], simp)

section \<open>The worker under the forced batches\<close>

text \<open>What the forced batches and the stored transactions keep of the finalizer.\<close>

definition keeps_batch :: "worker_env \<Rightarrow> finalizer \<Rightarrow> finalizer \<Rightarrow> bool" where
  "keeps_batch w f f' \<longleftrightarrow> f_batch f' = f_batch f \<and> f_batchConstraints f' = f_batchConstraints f \<and>
     f_processRequest f' = f_processRequest f \<and> f_sequencerAddress f' = f_sequencerAddress f \<and> f_cfg f' = f_cfg f \<and>
     nextForcedBatches f' = nextForcedBatches f \<and> (w_ok w (f_worker f) \<longrightarrow> w_ok w (f_worker f'))"

lemma keeps_batch_refl [simp]: "keeps_batch w f f"
  by (simp add: keeps_batch_def)

lemma keeps_batch_trans: "keeps_batch w f g \<Longrightarrow> keeps_batch w g h \<Longrightarrow> keeps_batch w f h"
  by (simp add: keeps_batch_def)

lemma fin_inv_keeps: "keeps_batch w f f' \<Longrightarrow> fin_inv w f \<Longrightarrow> fin_inv w f'"
  by (auto simp: keeps_batch_def fin_inv_def split: option.splits)

lemma keeps_worker: "worker_step w (f_worker f) w' \<Longrightarrow> keeps_batch w f (f\<lparr>f_worker := w'\<rparr>)"
  using w_ok_step by (simp add: keeps_batch_def)

lemma addPending_keeps: "keeps_batch (fe_worker env) f (addPendingTxToStore env tx (updateLastPendingFlushID k f))"
  using w_ok_step [OF _ worker_step.pending_add]
  by (simp add: keeps_batch_def addPendingTxToStore_def updateLastPendingFlushID_def)

lemma handleForced_keeps:
  "\<exists>f'. handleForcedTxsProcessResp env req r resps root f = Inr f' \<and> keeps_batch (fe_worker env) f f'"
proof (induction env req r resps root f rule: handleForcedTxsProcessResp.induct)
  case (2 env req r resp rest root f)
  let ?skip = "ptr_RomError resp \<noteq> None \<and> (IsIntrinsicError (RomErrorCode (ptr_RomError resp)) \<or>
      RomErrorCode (ptr_RomError resp) = RomError_ROM_ERROR_INVALID_RLP)"
  show ?case
  proof (cases ?skip)
    case True
    then show ?thesis using "2.IH"(1) [OF refl True] by (simp add: Let_def)
  next
    case False
    let ?tx = "\<lparr>ts_hash = ptr_TxHash resp, ts_from = (case GetSender env (ptr_Tx resp) of Inl e \<Rightarrow> 0 | Inr a \<Rightarrow> a),
               ts_response = resp, ts_batchResponse = r, ts_batchNumber = pr_BatchNumber req,
               ts_timestamp = pr_Timestamp req, ts_coinbase = pr_Coinbase req, ts_oldStateRoot = root,
               ts_isForcedBatch = True, ts_flushId = pbr_FlushID r, ts_egpLog = None\<rparr>"
    let ?f1 = "addPendingTxToStore env ?tx (updateLastPendingFlushID (pbr_FlushID r) f)"
    let ?f2 = "case GetSender env (ptr_Tx resp) of Inl e \<Rightarrow> ?f1
      | Inr a \<Rightarrow> ?f1\<lparr>f_worker := w_DeleteForcedTx (fe_worker env) (ptr_TxHash resp) a (f_worker ?f1)\<rparr>"
    have step: "keeps_batch (fe_worker env) f ?f2"
      using addPending_keeps keeps_batch_trans [OF addPending_keeps keeps_worker [OF worker_step.forced_delete]]
      by (auto split: sum.splits)
    have "handleForcedTxsProcessResp env req r (resp # rest) root f =
        handleForcedTxsProcessResp env req r rest (ptr_StateRoot resp) ?f2"
      using False by (auto simp: Let_def updateWorkerAfterSuccessfulProcessing_def split: sum.splits)
    moreover obtain f' where "handleForcedTxsProcessResp env req r rest (ptr_StateRoot resp) ?f2 = Inr f'"
        "keeps_batch (fe_worker env) ?f2 f'"
      using "2.IH"(2) [OF refl False refl refl refl, of ?f2] by blast
    ultimately show ?thesis using keeps_batch_trans [OF step] by auto
  qed
qed simp

lemma addForcedTxs_keeps: "keeps_batch (fe_worker env) f (addForcedTxs env resps f)"
  unfolding addForcedTxs_def
proof (induction resps arbitrary: f)
  case (Cons r rs)
  let ?g = "if ptr_RomError r \<noteq> RomErr RomError_ROM_ERROR_INVALID_RLP
       then (case GetSender env (ptr_Tx r) of Inl err \<Rightarrow> f
             | Inr sender \<Rightarrow> f\<lparr>f_worker := w_AddForcedTx (fe_worker env) (ptr_TxHash r) sender (f_worker f)\<rparr>)
       else f"
  have "keeps_batch (fe_worker env) f ?g" using keeps_worker [OF worker_step.forced_add] by (auto split: sum.splits)
  from keeps_batch_trans [OF this Cons.IH] show ?case by simp
qed simp

definition run_keeps :: "worker_env \<Rightarrow> fin_run \<Rightarrow> fin_run \<Rightarrow> bool" where
  "run_keeps w s s' \<longleftrightarrow> keeps_batch w (fr_fin s) (fr_fin s') \<and> fr_closed s' = fr_closed s \<and> fr_opened s' = fr_opened s"

lemma run_keeps_refl [simp]: "run_keeps w s s"
  by (simp add: run_keeps_def)

lemma run_keeps_trans: "run_keeps w s s1 \<Longrightarrow> run_keeps w s1 s2 \<Longrightarrow> run_keeps w s s2"
  using keeps_batch_trans by (auto simp: run_keeps_def)

lemma processForcedBatch_keeps:
  "case processForcedBatch env n root fb s of Inl st \<Rightarrow> st = Halted | Inr (nr, s') \<Rightarrow> run_keeps (fe_worker (be_fin env)) s s'"
proof -
  let ?w = "fe_worker (be_fin env)" and ?f = "fr_fin s"
  let ?req = "\<lparr>pr_BatchNumber = n + 1, pr_GlobalExitRoot = fb_GlobalExitRoot fb,
            pr_OldStateRoot = root, pr_OldAccInputHash = 0, pr_Transactions = fb_RawTxsData fb,
            pr_Coinbase = f_sequencerAddress ?f, pr_Timestamp = be_now env (n + 1),
            pr_Caller = SequencerCallerLabel\<rparr>"
  show ?thesis
  proof (cases "ProcessForcedBatch env (num fb) ?req")
    case (Inl e)
    then show ?thesis by (simp add: processForcedBatch_def)
  next
    case (Inr resp)
    let ?r = "pbr_Responses resp"
    obtain f1 where f1: "handleForcedTxsProcessResp (be_fin env) ?req resp ?r root (addForcedTxs (be_fin env) ?r ?f) = Inr f1"
        "keeps_batch ?w (addForcedTxs (be_fin env) ?r ?f) f1"
      using handleForced_keeps by blast
    have "keeps_batch ?w ?f f1" by (rule keeps_batch_trans [OF addForcedTxs_keeps f1(2)])
    then have "run_keeps ?w s (s\<lparr>fr_fin := f1\<lparr>currentGERHash := g\<rparr>, fr_forced := x\<rparr>)" for g x
      by (simp add: run_keeps_def keeps_batch_def)
    moreover have "run_keeps ?w s (s\<lparr>fr_fin := (if b then addStreamEntry u ?f else ?f)\<lparr>currentGERHash := g\<rparr>, fr_forced := x\<rparr>)"
      for b u g x by (simp add: run_keeps_def keeps_batch_def addStreamEntry_def)
    ultimately show ?thesis unfolding processForcedBatch_def Let_def by (simp only: Inr sum.case) (simp add: f1(1))
  qed
qed

lemma in_between_keeps:
  "case process_in_between env target k nr s of
     Inl st \<Rightarrow> st = Halted | Inr (err, nr', s') \<Rightarrow> run_keeps (fe_worker (be_fin env)) s s'"
proof (induction env target k nr s rule: process_in_between.induct)
  case (1 env target k n root s)
  show ?case
  proof (cases "k < target")
    case True
    show ?thesis
    proof (cases "GetForcedBatch env k")
      case (Inr fb)
      note kp = processForcedBatch_keeps [where env = env and n = n and root = root and fb = fb and s = s]
      show ?thesis
      proof (cases "processForcedBatch env n root fb s")
        case (Inl st)
        then show ?thesis using kp True Inr by (simp add: process_in_between.simps)
      next
        case p: (Inr q)
        obtain nr1 s1 where q: "q = (nr1, s1)" by fastforce
        have "run_keeps (fe_worker (be_fin env)) s s1" using kp p q by simp
        then show ?thesis using "1.IH" [OF True Inr p q [symmetric]] p q True Inr run_keeps_trans
          by (subst process_in_between.simps) (auto split: sum.splits)
      qed
    qed (use True in \<open>simp add: process_in_between.simps\<close>)
  qed (simp add: process_in_between.simps)
qed

lemma forced_loop_keeps:
  "case process_forced_loop env fbs k nr s of
     Inl st \<Rightarrow> st = Halted | Inr (err, nr', s') \<Rightarrow> run_keeps (fe_worker (be_fin env)) s s'"
proof (induction fbs arbitrary: k nr s)
  case (Cons fb fbs)
  show ?case
  proof (cases "num fb < k")
    case False
    note k1 = in_between_keeps [where env = env and target = "num fb" and k = k and nr = nr and s = s]
    show ?thesis
    proof (cases "process_in_between env (num fb) k nr s")
      case (Inr q)
      obtain err nr1 s1 where q: "q = (err, nr1, s1)" by (metis prod_cases3)
      have s1: "run_keeps (fe_worker (be_fin env)) s s1" using k1 Inr q by simp
      note k2 = processForcedBatch_keeps [where env = env and n = "fst nr1" and root = "snd nr1" and fb = fb and s = s1]
      show ?thesis
      proof (cases "processForcedBatch env (fst nr1) (snd nr1) fb s1")
        case p: (Inr q2)
        obtain nr2 s2 where q2: "q2 = (nr2, s2)" by fastforce
        have "run_keeps (fe_worker (be_fin env)) s s2" using k2 p q2 run_keeps_trans [OF s1] by simp
        then show ?thesis using Cons.IH [where k = "num fb + 1" and nr = nr2 and s = s2] False Inr q p q2 s1 run_keeps_trans
          by (auto split: sum.splits)
      qed (use k2 False Inr q s1 in simp)
    qed (use k1 False in simp)
  qed (use Cons.IH in simp)
qed simp

section \<open>From one batch to the next\<close>

lemma storePending_cases:
  assumes "pendingTransactionsToStore (fr_fin s) = tx # txs"
  shows "storePendingTransactions env s \<in> {Inl Halted, Inr (False, s),
    Inr (True, (on_fin (\<lambda>f. f\<lparr>pendingTransactionsToStore := txs,
      f_worker := w_DeletePendingTxToStore (fe_worker (be_fin env)) (ts_hash tx) (ts_from tx) (f_worker f)\<rparr>) s)
      \<lparr>fr_stored := fr_stored s @ [tx]\<rparr>)}"
  by (simp add: storePendingTransactions_def assms split: option.split)

lemma wait_pending_keeps:
  assumes "pendingTransactionsToStore (fr_fin s) = txs"
  shows "case wait_pending env txs s of
    Inl st \<Rightarrow> st = Halted
  | Inr s' \<Rightarrow> run_keeps (fe_worker (be_fin env)) s s' \<and> pendingTransactionsToStore (fr_fin s') = [] \<and>
      fr_stored s' = fr_stored s @ txs \<and> fr_forced s' = fr_forced s"
  using assms
proof (induction txs arbitrary: s)
  case (Cons tx txs)
  let ?s0 = "on_fin (\<lambda>f. f\<lparr>storedFlushID := max (storedFlushID f) (be_storedFlushID env)\<rparr>) s"
  let ?s1 = "(on_fin (\<lambda>f. f\<lparr>pendingTransactionsToStore := txs,
      f_worker := w_DeletePendingTxToStore (fe_worker (be_fin env)) (ts_hash tx) (ts_from tx) (f_worker f)\<rparr>) ?s0)
      \<lparr>fr_stored := fr_stored s @ [tx]\<rparr>"
  have p: "pendingTransactionsToStore (fr_fin ?s0) = tx # txs" using Cons.prems by simp
  consider "storePendingTransactions env ?s0 = Inl Halted" | "storePendingTransactions env ?s0 = Inr (False, ?s0)"
    | "storePendingTransactions env ?s0 = Inr (True, ?s1)"
    using storePending_cases [OF p, of env] by auto
  then show ?case
  proof cases
    case 3
    have k: "run_keeps (fe_worker (be_fin env)) s ?s1"
      using w_ok_step [OF _ worker_step.pending_delete] by (simp add: run_keeps_def keeps_batch_def)
    have "pendingTransactionsToStore (fr_fin ?s1) = txs" by simp
    from Cons.IH [OF this] k show ?thesis
      using run_keeps_trans [OF k] by (simp add: 3 split: sum.splits)
  qed simp_all
qed simp

text \<open>
  The state answers as \<open>State_ProcessBatch\<close> does: a response or an error, never both. Processing no
  transaction then stops only on an error that is not the database error, and with a panic.
\<close>

lemma state_stops_nil:
  assumes "state_answer a" "stops None a = Some st"
  shows "st = Panicked \<and> (\<exists>err. a = (Some err, None) \<and> err \<noteq> rt_ErrExecutorDBError)"
  using assms(1)
proof (cases rule: state_answer_cases)
  case (error err)
  with assms(2) show ?thesis by (simp add: stops_def split: if_split_asm)
next
  case (response r)
  with assms(2) show ?thesis by (simp add: stops_def)
qed

lemma processTransaction_nil:
  assumes inv: "fin_inv (fe_worker env) f" and answers: "\<And>req upd. state_answer (ProcessBatch env req upd)"
  shows "case processTransaction env None firstTxProcess f of
    Inl st \<Rightarrow> st = Panicked \<and> (\<exists>req err. sent_request env None firstTxProcess f = Some req \<and>
      ProcessBatch env req True = (Some err, None) \<and> err \<noteq> rt_ErrExecutorDBError)
  | Inr (e, f') \<Rightarrow> fin_inv (fe_worker env) f' \<and>
    pendingTransactionsToStore f' = pendingTransactionsToStore f \<and> nextForcedBatches f' = nextForcedBatches f \<and>
    f_batchConstraints f' = f_batchConstraints f \<and> f_cfg f' = f_cfg f \<and>
    map_option (\<lambda>b. (batchNumber b, remainingResources b)) (f_batch f') =
      map_option (\<lambda>b. (batchNumber b, remainingResources b)) (f_batch f)"
proof (cases "processTransaction env None firstTxProcess f")
  case (Inl st)
  obtain req where req: "sent_request env None firstTxProcess f = Some req" "stops None (ProcessBatch env req True) = Some st"
    using processTransaction_inv [OF inv, of None firstTxProcess] Inl by (auto simp: ends_well_def split: option.splits)
  show ?thesis using state_stops_nil [OF answers req(2)] req(1) Inl by auto
next
  case (Inr q)
  obtain e f' where q: "q = (e, f')" by fastforce
  obtain b where b: "f_batch f = Some b" using fin_inv_batch [OF inv] by blast
  have run: "processTransaction env None firstTxProcess f = Inr (e, f')" using Inr q by simp
  have "fin_inv (fe_worker env) f'"
    using processTransaction_inv [OF inv, of None firstTxProcess] run by (simp add: ends_well_def)
  moreover have "pendingTransactionsToStore f' = pendingTransactionsToStore f \<and> nextForcedBatches f' = nextForcedBatches f \<and>
    f_batchConstraints f' = f_batchConstraints f \<and> f_cfg f' = f_cfg f \<and>
    map_option (\<lambda>b. (batchNumber b, remainingResources b)) (f_batch f') =
      map_option (\<lambda>b. (batchNumber b, remainingResources b)) (f_batch f)"
    using run b
    by (auto simp: processTransaction_def handle_batch_response_def take_response_def Let_def and_then_Inr deref_Inr
        split: prod.splits if_splits)
  ultimately show ?thesis using run by simp
qed

text \<open>What else the finalizer gets from the state: the data of a batch fits in memory.\<close>

definition state_ok :: "batch_env \<Rightarrow> bool" where
  "state_ok env \<longleftrightarrow> (\<forall>req upd. state_answer (ProcessBatch (be_fin env) req upd)) \<and>
     (\<forall>n b. GetBatchByNumber env n = Inr b \<longrightarrow> length (ba_BatchL2Data b) < 2 ^ 63)"

lemma DecodeTxs_returns:
  assumes "length data < 2 ^ 63"
  shows "\<exists>txs pcts err. DecodeTxs g data forkID = Some (txs, data, pcts, err)"
proof -
  have "length ([] :: u8 list) = (if forkID \<ge> DRAGONFRUIT_FORKID then length ([] :: LegacyTx list) else 0)" by simp
  from decode_loop_returns [OF assms this, of g 0] show ?thesis by (auto simp: DecodeTxs_def)
qed

lemma reprocessFullBatch_returns:
  assumes "state_ok env"
  shows "\<exists>r f'. reprocessFullBatch env n root expected f = Inr (r, f') \<and> (f' = f \<or> f' = f\<lparr>reprocessFullBatchError := True\<rparr>)"
proof (cases "GetBatchByNumber env n")
  case (Inr b)
  then have "length (ba_BatchL2Data b) < 2 ^ 63" using assms by (simp add: state_ok_def)
  then obtain txs pcts err where d: "DecodeTxs (be_geth env) (ba_BatchL2Data b) (GetForkIDByBatchNumber (be_fin env) n) =
      Some (txs, ba_BatchL2Data b, pcts, err)" using DecodeTxs_returns by blast
  let ?req = "\<lparr>pr_BatchNumber = ba_BatchNumber b, pr_GlobalExitRoot = ba_GlobalExitRoot b,
                 pr_OldStateRoot = root, pr_OldAccInputHash = 0, pr_Transactions = ba_BatchL2Data b,
                 pr_Coinbase = ba_Coinbase b, pr_Timestamp = ba_Timestamp b,
                 pr_Caller = (if SequentialReprocessFullBatch (f_cfg f) then SequencerCallerLabel else DiscardCallerLabel)\<rparr>"
  obtain e a where a: "ProcessBatch (be_fin env) ?req False = (e, a)" by fastforce
  have "state_answer (e, a)" using assms a by (metis state_ok_def)
  then have "e = None \<Longrightarrow> \<exists>r. a = Some r" by (auto elim: state_answer_cases)
  then show ?thesis
    unfolding reprocessFullBatch_def Let_def
    by (simp only: Inr sum.case d deref_simps and_then_simps prod.case a) (cases e; auto)
qed (simp add: reprocessFullBatch_def)

lemma sanity_check_keeps:
  assumes "state_ok env"
  shows "case sanity_check env b s of
    Inl st \<Rightarrow> st = Halted
  | Inr s' \<Rightarrow> run_keeps w s s' \<and> pendingTransactionsToStore (fr_fin s') = pendingTransactionsToStore (fr_fin s) \<and>
      fr_forced s' = fr_forced s"
proof -
  obtain r f' where r: "reprocessFullBatch env (batchNumber b) (initialStateRoot b) (stateRoot b) (fr_fin s) = Inr (r, f')"
      "f' = fr_fin s \<or> f' = (fr_fin s)\<lparr>reprocessFullBatchError := True\<rparr>"
    using reprocessFullBatch_returns [OF assms] by blast
  then show ?thesis by (auto simp: sanity_check_def run_keeps_def keeps_batch_def split: sum.splits)
qed

text \<open>A step between closing and opening: the worker stays consistent and nothing else is closed.\<close>

definition between :: "worker_env \<Rightarrow> fin_run \<Rightarrow> fin_run \<Rightarrow> bool" where
  "between w s s' \<longleftrightarrow> (w_ok w (f_worker (fr_fin s)) \<longrightarrow> w_ok w (f_worker (fr_fin s'))) \<and>
     f_batchConstraints (fr_fin s') = f_batchConstraints (fr_fin s) \<and> fr_closed s' = fr_closed s"

lemma between_trans: "between w s s1 \<Longrightarrow> between w s1 s2 \<Longrightarrow> between w s s2"
  by (simp add: between_def)

lemma run_keeps_between: "run_keeps w s s' \<Longrightarrow> between w s s'"
  by (simp add: run_keeps_def keeps_batch_def between_def)

text \<open>The forced batches that are processed, whatever their order: each in the next batch, on the root of the one before.\<close>

fun linked :: "u64 \<Rightarrow> hash \<Rightarrow> forced_entry list \<Rightarrow> bool" where
  "linked n root [] \<longleftrightarrow> True"
| "linked n root ((m, req, resp) # xs) \<longleftrightarrow>
     pr_BatchNumber req = n + 1 \<and> pr_OldStateRoot req = root \<and> linked (n + 1) (pbr_NewStateRoot resp) xs"

definition linked_run :: "u64 \<times> hash \<Rightarrow> fin_run \<Rightarrow> forced_entry list \<Rightarrow> u64 \<times> hash \<Rightarrow> fin_run \<Rightarrow> bool" where
  "linked_run nr s xs nr' s' \<longleftrightarrow> fr_forced s' = fr_forced s @ xs \<and> linked (fst nr) (snd nr) xs \<and>
     nr' = (fst nr + of_nat (length xs), chain_root (snd nr) xs)"

lemma linked_append:
  "linked n r (xs @ ys) \<longleftrightarrow> linked n r xs \<and> linked (n + of_nat (length xs)) (chain_root r xs) ys"
  by (induction n r xs rule: linked.induct) (simp_all add: ac_simps)

lemma linked_run_append:
  "linked_run nr s xs nr1 s1 \<Longrightarrow> linked_run nr1 s1 ys nr2 s2 \<Longrightarrow> linked_run nr s (xs @ ys) nr2 s2"
  by (auto simp: linked_run_def linked_append chain_append ac_simps)

lemma linked_run_Nil [simp]: "linked_run nr s [] nr s"
  by (simp add: linked_run_def)

lemma processForcedBatch_linked:
  assumes "processForcedBatch env n root fb s = Inr (nr', s')"
  shows "\<exists>x. linked_run (n, root) s [x] nr' s'"
  using processForcedBatch_run [OF assms] by (auto simp: forced_run_def linked_run_def)

lemma in_between_linked:
  assumes "process_in_between env target k nr s = Inr (err, nr', s')"
  shows "(\<exists>xs. linked_run nr s xs nr' s') \<and> (\<forall>e. err = Some e \<longrightarrow> (\<exists>k. GetForcedBatch env k = Inl e))"
  using assms
proof (induction env target k nr s rule: process_in_between.induct)
  case (1 env target k n root s)
  show ?case
  proof (cases "k < target")
    case True
    show ?thesis
    proof (cases "GetForcedBatch env k")
      case (Inl e)
      then have "err = Some e" "nr' = (n, root)" "s' = s" using "1.prems" True by (auto simp: process_in_between.simps)
      with Inl show ?thesis using linked_run_Nil by blast
    next
      case (Inr fb)
      obtain nr1 s1 where p: "processForcedBatch env n root fb s = Inr (nr1, s1)"
          "process_in_between env target (k + 1) nr1 s1 = Inr (err, nr', s')"
        using "1.prems" True Inr by (auto simp: process_in_between.simps split: sum.splits)
      from "1.IH" [OF True Inr p(1) refl p(2)] processForcedBatch_linked [OF p(1)] show ?thesis
        by (blast intro: linked_run_append)
    qed
  next
    case False
    then have "err = None" "nr' = (n, root)" "s' = s" using "1.prems" by (auto simp: process_in_between.simps)
    then show ?thesis using linked_run_Nil by blast
  qed
qed

lemma forced_loop_linked:
  assumes "process_forced_loop env fbs k nr s = Inr (err, nr', s')"
  shows "(\<exists>xs. linked_run nr s xs nr' s') \<and> (\<forall>e. err = Some e \<longrightarrow> (\<exists>k. GetForcedBatch env k = Inl e))"
  using assms
proof (induction fbs arbitrary: k nr s)
  case Nil
  then have "err = None" "nr' = nr" "s' = s" by simp_all
  then show ?case using linked_run_Nil by blast
next
  case (Cons fb fbs)
  show ?case
  proof (cases "num fb < k")
    case True
    with Cons.prems have "process_forced_loop env fbs k nr s = Inr (err, nr', s')" by simp
    then show ?thesis by (rule Cons.IH)
  next
    case False
    then obtain e1 nr1 s1 where p: "process_in_between env (num fb) k nr s = Inr (e1, nr1, s1)"
      using Cons.prems by (cases "process_in_between env (num fb) k nr s") auto
    note i = in_between_linked [OF p]
    show ?thesis
    proof (cases e1)
      case (Some e)
      with False p Cons.prems have "err = e1" "nr' = nr1" "s' = s1" by auto
      with i show ?thesis by blast
    next
      case None
      with False p Cons.prems obtain nr2 s2 where q: "processForcedBatch env (fst nr1) (snd nr1) fb s1 = Inr (nr2, s2)"
          "process_forced_loop env fbs (num fb + 1) nr2 s2 = Inr (err, nr', s')"
        by (auto simp: and_then_Inr)
      obtain x where "linked_run nr1 s1 [x] nr2 s2" using processForcedBatch_linked [OF q(1)] by auto
      with i Cons.IH [OF q(2)] show ?thesis by (blast intro: linked_run_append)
    qed
  qed
qed

text \<open>
  The batch after the forced ones: the next number and the root of the last of them, or number 0
  and the zero root when one could not be fetched.
\<close>

definition forced_failed :: "batch_env \<Rightarrow> bool" where
  "forced_failed env \<longleftrightarrow>
     (\<exists>e. GetLastTrustedForcedBatchNumber env = Inl e) \<or> (\<exists>k e. GetForcedBatch env k = Inl e)"

definition after_forced :: "batch_env \<Rightarrow> u64 \<Rightarrow> hash \<Rightarrow> fin_run \<Rightarrow> u64 \<Rightarrow> hash \<Rightarrow> fin_run \<Rightarrow> bool" where
  "after_forced env n root s n' root' s' \<longleftrightarrow>
     (\<exists>xs. fr_forced s' = fr_forced s @ xs \<and> linked n root xs \<and> (nextForcedBatches (fr_fin s) = [] \<longrightarrow> xs = []) \<and>
        (n' = n + of_nat (length xs) \<and> root' = chain_root root xs \<or>
         nextForcedBatches (fr_fin s) \<noteq> [] \<and> forced_failed env \<and> n' = 0 \<and> root' = 0))"

lemma forced_batches_between:
  "case forced_batches env n root s of
     Inl st \<Rightarrow> st = Halted
   | Inr ((n', r'), s') \<Rightarrow> between (fe_worker (be_fin env)) s s' \<and> after_forced env n root s n' r' s'"
proof (cases "nextForcedBatches (fr_fin s) = []")
  case False
  let ?s = "on_fin (\<lambda>f. f\<lparr>nextForcedBatchDeadline := 0\<rparr>) s"
  have s0: "between (fe_worker (be_fin env)) s ?s" by (simp add: between_def)
  show ?thesis
  proof (cases "GetLastTrustedForcedBatchNumber env")
    case (Inr l)
    note k = forced_loop_keeps [where env = env and fbs = "nextForcedBatches (fr_fin ?s)" and k = "l + 1" and nr = "(n, root)" and s = ?s]
    show ?thesis
    proof (cases "process_forced_loop env (nextForcedBatches (fr_fin ?s)) (l + 1) (n, root) ?s")
      case p: (Inr q)
      obtain err n' r' s1 where q: "q = (err, (n', r'), s1)" by (metis surj_pair)
      have b: "between (fe_worker (be_fin env)) s s1"
        using k p q between_trans [OF s0] run_keeps_between by simp
      note l = forced_loop_linked [OF p [unfolded q]]
      from conjunct1 [OF l] obtain xs where xs: "linked_run (n, root) ?s xs (n', r') s1" by (elim exE)
      have failed: "forced_failed env" if "err = Some e" for e
        using conjunct2 [OF l] that by (auto simp: forced_failed_def)
      show ?thesis
      proof (cases err)
        case None
        have "after_forced env n root s n' r' (on_fin (\<lambda>f. f\<lparr>nextForcedBatches := []\<rparr>) s1)"
          unfolding after_forced_def using xs False by (intro exI [of _ xs]) (simp add: linked_run_def)
        with None b False Inr p q show ?thesis
          by (simp add: forced_batches_def processForcedBatches_def between_def)
      next
        case (Some e)
        have "after_forced env n root s 0 0 s1"
          unfolding after_forced_def using xs False failed Some by (intro exI [of _ xs]) (simp add: linked_run_def)
        with Some b False Inr p q show ?thesis
          by (simp add: forced_batches_def processForcedBatches_def)
      qed
    qed (use k False Inr in \<open>simp add: forced_batches_def processForcedBatches_def\<close>)
  next
    case (Inl e)
    have "after_forced env n root s 0 0 ?s"
      unfolding after_forced_def using False Inl by (intro exI [of _ "[]"]) (simp add: forced_failed_def)
    with Inl False s0 show ?thesis by (simp add: forced_batches_def processForcedBatches_def)
  qed
next
  case True
  have "after_forced env n root s n root s" unfolding after_forced_def by (intro exI [of _ "[]"]) simp
  with True show ?thesis by (simp add: forced_batches_def between_def)
qed

lemma open_next_opens:
  "case open_next env n root s of
     (Inl e, s') \<Rightarrow> between w s s'
   | (Inr b, s') \<Rightarrow> between w s s' \<and> fr_forced s' = fr_forced s \<and> batchNumber b = n + 1 \<and> stateRoot b = root \<and> countOfTxs b = 0 \<and>
       remainingResources b = getMaxRemainingResources (f_batchConstraints (fr_fin s')) \<and>
       pr_OldStateRoot (f_processRequest (fr_fin s')) = root"
  by (simp add: open_next_def openWIPBatch_def openBatch_def between_def split: option.split sum.split)

lemma open_next_inv:
  assumes "open_next env n root s = (Inr b, s')" "w_ok w (f_worker (fr_fin s))"
  shows "fin_inv w ((fr_fin s')\<lparr>f_batch := Some b\<rparr>)"
proof -
  note o = open_next_opens [where env = env and n = n and root = root and s = s and w = w]
  show ?thesis using o assms by (simp add: fin_inv_def between_def)
qed

lemma getUsed_exact:
  assumes "fits_in br_dims remaining (getMaxRemainingResources c)"
  shows "list_all (\<lambda>d. d (getUsedBatchResources c remaining) + d remaining = d (getMaxRemainingResources c)) br_dims"
  using assms
  by (simp add: br_dims_def zk_dims_def fits_in_def getUsedBatchResources_def getMaxRemainingResources_def unat_sub_exact
      word_le_nat_alt)

text \<open>
  The part of \<open>newWIPBatch\<close> after the batch has been closed with receipt \<open>c\<close>. The new batch follows
  the last forced batch, or the closed one when there are none; \<open>s\<close> is where \<open>newWIPBatch\<close> started.
\<close>

definition reopens ::
    "batch_env \<Rightarrow> fin_run \<Rightarrow> WipBatch \<Rightarrow> ClosingBatchParameters \<Rightarrow> (batch_error + WipBatch) \<times> fin_run \<Rightarrow> bool" where
  "reopens env s b c res \<longleftrightarrow>
     (case res of
        (Inl e, s') \<Rightarrow> w_ok (fe_worker (be_fin env)) (f_worker (fr_fin s'))
      | (Inr b', s') \<Rightarrow> fin_inv (fe_worker (be_fin env)) ((fr_fin s')\<lparr>f_batch := Some b'\<rparr>) \<and> countOfTxs b' = 0 \<and>
          remainingResources b' = getMaxRemainingResources (f_batchConstraints (fr_fin s')) \<and>
          fr_closed s' = fr_closed s @ [c] \<and>
          after_forced env (batchNumber b) (cb_StateRoot c) s (batchNumber b' - 1) (stateRoot b') s')"

lemma after_close:
  assumes "w_ok (fe_worker (be_fin env)) (f_worker (fr_fin s4))" "fr_closed s4 = fr_closed s @ [c]"
    and "nextForcedBatches (fr_fin s4) = nextForcedBatches (fr_fin s)" "fr_forced s4 = fr_forced s"
    and "cb_StateRoot c = stateRoot b" "batchNumber b = batchNumber b0"
  shows "case and_then (forced_batches env (batchNumber b) (stateRoot b) (on_fin (send_update_ger env b) s4)) (\<lambda>((n, r), s5).
      Inr (open_next env n r (on_fin take_ger s5))) of
    Inl st \<Rightarrow> st = Halted | Inr res \<Rightarrow> reopens env s b0 c res"
proof -
  let ?w = "fe_worker (be_fin env)" and ?s = "on_fin (send_update_ger env b) s4"
  have g: "between ?w s4 ?s" "nextForcedBatches (fr_fin ?s) = nextForcedBatches (fr_fin s)" "fr_forced ?s = fr_forced s"
    using assms(3,4) by (simp_all add: between_def send_update_ger_def addStreamEntry_def)
  note fo = forced_batches_between [where env = env and n = "batchNumber b" and root = "stateRoot b" and s = ?s]
  show ?thesis
  proof (cases "forced_batches env (batchNumber b) (stateRoot b) ?s")
    case (Inl st)
    then show ?thesis using fo by simp
  next
    case (Inr q)
    obtain n r s5 where q: "q = ((n, r), s5)" by (metis surj_pair)
    have s5: "between ?w s4 s5" "after_forced env (batchNumber b) (stateRoot b) s n r s5"
      using fo Inr q g between_trans by (auto simp: after_forced_def)
    have t: "between ?w s5 (on_fin take_ger s5)" by (simp add: between_def take_ger_def)
    note o = open_next_opens [where env = env and n = n and root = r and s = "on_fin take_ger s5" and w = ?w]
    obtain res s6 where o6: "open_next env n r (on_fin take_ger s5) = (res, s6)" by fastforce
    have b6: "between ?w s4 s6" using o o6 between_trans [OF s5(1) between_trans [OF t]] by (cases res) auto
    have w5: "w_ok ?w (f_worker (fr_fin (on_fin take_ger s5)))"
      using between_trans [OF s5(1) t] assms(1) by (simp add: between_def)
    show ?thesis
    proof (cases res)
      case (Inl e)
      then show ?thesis using Inr q o6 b6 assms(1) by (simp add: reopens_def between_def)
    next
      case res: (Inr b')
      have "fin_inv ?w ((fr_fin s6)\<lparr>f_batch := Some b'\<rparr>)" using open_next_inv [OF _ w5] o6 res by simp
      moreover have "after_forced env (batchNumber b0) (cb_StateRoot c) s (batchNumber b' - 1) (stateRoot b') s6"
        using s5(2) o o6 res assms(5,6) by (simp add: after_forced_def)
      ultimately show ?thesis using Inr q o6 b6 o res assms(2) by (simp add: reopens_def between_def)
    qed
  qed
qed

text \<open>
  What \<open>newWIPBatch\<close> gives for the batch \<open>b0\<close> it closes. It panics only where it executes no
  transaction to get a root for an empty batch, on an error that is not the database error.
\<close>

definition empty_request_fails :: "batch_env \<Rightarrow> fin_run \<Rightarrow> WipBatch \<Rightarrow> bool" where
  "empty_request_fails env s b0 \<longleftrightarrow> initialStateRoot b0 = stateRoot b0 \<and>
     (\<exists>req err. sent_request (be_fin env) None True (fr_fin s) = Some req \<and>
        ProcessBatch (be_fin env) req True = (Some err, None) \<and> err \<noteq> rt_ErrExecutorDBError)"

definition new_batch :: "batch_env \<Rightarrow> fin_run \<Rightarrow> WipBatch \<Rightarrow> stop + (batch_error + WipBatch) \<times> fin_run \<Rightarrow> bool" where
  "new_batch env s b0 result \<longleftrightarrow>
     (case result of
        Inl st \<Rightarrow> st = Halted \<or> st = Panicked \<and> empty_request_fails env s b0
      | Inr (Inl e, s') \<Rightarrow> w_ok (fe_worker (be_fin env)) (f_worker (fr_fin s'))
      | Inr (Inr b', s') \<Rightarrow>
          \<exists>c. reopens env s b0 c (Inr b', s') \<and> cb_BatchNumber c = batchNumber b0 \<and>
            list_all (\<lambda>d. d (cb_BatchResources c) + d (remainingResources b0) =
              d (getMaxRemainingResources (f_batchConstraints (fr_fin s)))) br_dims)"

lemma reopens_new_batch:
  assumes "case x of Inl st \<Rightarrow> st = Halted | Inr res \<Rightarrow> reopens env s b0 c res" "cb_BatchNumber c = batchNumber b0"
    and "list_all (\<lambda>d. d (cb_BatchResources c) + d (remainingResources b0) =
      d (getMaxRemainingResources (f_batchConstraints (fr_fin s)))) br_dims"
  shows "new_batch env s b0 x"
proof (cases x)
  case (Inr res)
  obtain r s' where r: "res = (r, s')" by fastforce
  show ?thesis
  proof (cases r)
    case (Inl e)
    then show ?thesis using assms(1) Inr r by (simp add: new_batch_def reopens_def)
  next
    case b: (Inr b')
    show ?thesis unfolding new_batch_def Inr r b sum.case prod.case
      by (rule exI [of _ c]) (use assms Inr r b in simp)
  qed
qed (use assms(1) in \<open>simp add: new_batch_def\<close>)

lemma closeBatch_cases:
  "(\<exists>x. closeBatch env b s = (Some x, s)) \<or>
   (\<exists>c. closeBatch env b s = (None, s\<lparr>fr_closed := fr_closed s @ [c]\<rparr>) \<and> cb_BatchNumber c = batchNumber b \<and>
      cb_StateRoot c = stateRoot b \<and>
      cb_BatchResources c = getUsedBatchResources (f_batchConstraints (fr_fin s)) (remainingResources b))"
proof (cases "GetTransactionsByBatchNumber env (batchNumber b)")
  case (Inr q)
  obtain txs pcts where q: "q = (txs, pcts)" by fastforce
  let ?c = "\<lparr>cb_BatchNumber = batchNumber b, cb_StateRoot = stateRoot b, cb_LocalExitRoot = localExitRoot b,
    cb_AccInputHash = 0, cb_Txs = txs, cb_BatchResources = getUsedBatchResources (f_batchConstraints (fr_fin s)) (remainingResources b),
    cb_ClosingReason = closingReason b, cb_EffectivePercentages = pcts\<rparr>"
  show ?thesis
  proof (cases "CloseBatch env ?c")
    case None
    then show ?thesis using Inr q by (intro disjI2 exI [of _ ?c]) (simp add: closeBatch_def)
  qed (use Inr q in \<open>simp add: closeBatch_def\<close>)
qed (simp add: closeBatch_def)

text \<open>From the sanity check on; \<open>s\<close> is where \<open>newWIPBatch\<close> started.\<close>

lemma check_close_open:
  assumes i2: "fin_inv (fe_worker (be_fin env)) (fr_fin s2)" and ok: "state_ok env"
    and k2: "fr_closed s2 = fr_closed s" "fr_forced s2 = fr_forced s" "nextForcedBatches (fr_fin s2) = nextForcedBatches (fr_fin s)"
      "f_batchConstraints (fr_fin s2) = f_batchConstraints (fr_fin s)" "batchNumber b = batchNumber b0"
    and b0: "list_all (\<lambda>d. d (getUsedBatchResources (f_batchConstraints (fr_fin s)) (remainingResources b)) + d (remainingResources b0) =
        d (getMaxRemainingResources (f_batchConstraints (fr_fin s)))) br_dims"
  shows "new_batch env s b0
    (and_then (sanity_check env b s2) (\<lambda>s3. case closeBatch env b s3 of
       (Some e, s4) \<Rightarrow> Inr (Inl e, s4)
     | (None, s4) \<Rightarrow> and_then (forced_batches env (batchNumber b) (stateRoot b) (on_fin (send_update_ger env b) s4)) (\<lambda>((n, r), s5).
         Inr (open_next env n r (on_fin take_ger s5)))))"
    (is "new_batch env s b0 (and_then _ ?rest)")
proof -
  let ?w = "fe_worker (be_fin env)"
  note sc = sanity_check_keeps [OF ok, where b = b and s = s2 and w = ?w]
  show ?thesis
  proof (cases "sanity_check env b s2")
    case (Inl st)
    then show ?thesis using sc by (simp add: new_batch_def)
  next
    case s3: (Inr s3)
    have k3: "run_keeps ?w s2 s3" "fr_forced s3 = fr_forced s2" using sc s3 by simp_all
    have w3: "w_ok ?w (f_worker (fr_fin s3))" using fin_inv_keeps i2 k3 by (auto simp: run_keeps_def)
    consider x where "closeBatch env b s3 = (Some x, s3)"
      | c where "closeBatch env b s3 = (None, s3\<lparr>fr_closed := fr_closed s3 @ [c]\<rparr>)" "cb_BatchNumber c = batchNumber b"
          "cb_StateRoot c = stateRoot b"
          "cb_BatchResources c = getUsedBatchResources (f_batchConstraints (fr_fin s3)) (remainingResources b)"
      using closeBatch_cases [of env b s3] by blast
    then show ?thesis
    proof cases
      case 1
      then show ?thesis using s3 w3 by (simp add: new_batch_def)
    next
      case 2
      let ?s4 = "s3\<lparr>fr_closed := fr_closed s3 @ [c]\<rparr>"
      have ac: "case and_then (forced_batches env (batchNumber b) (stateRoot b) (on_fin (send_update_ger env b) ?s4))
          (\<lambda>((n, r), s5). Inr (open_next env n r (on_fin take_ger s5))) of
          Inl st \<Rightarrow> st = Halted | Inr res \<Rightarrow> reopens env s b0 c res"
        using w3 2 k2 k3 by (intro after_close) (auto simp: run_keeps_def keeps_batch_def)
      have "cb_BatchResources c = getUsedBatchResources (f_batchConstraints (fr_fin s)) (remainingResources b)"
        using 2(4) k2(4) k3 by (simp add: run_keeps_def keeps_batch_def)
      with reopens_new_batch [OF ac] show ?thesis using s3 2(1,2) k2(5) b0 by simp
    qed
  qed
qed

lemma newWIPBatch_reopens:
  assumes inv: "fin_inv (fe_worker (be_fin env)) (fr_fin s)" and b0: "f_batch (fr_fin s) = Some b0" and ok: "state_ok env"
  shows "new_batch env s b0 (newWIPBatch env s)"
proof -
  let ?w = "fe_worker (be_fin env)"
  have answers: "\<And>req upd. state_answer (ProcessBatch (be_fin env) req upd)" using ok by (simp add: state_ok_def)
  note wp = wait_pending_keeps [where s = s and env = env, OF refl]
  show ?thesis
  proof (cases "wait_pending env (pendingTransactionsToStore (fr_fin s)) s")
    case (Inl st)
    then show ?thesis using wp by (simp add: newWIPBatch_def new_batch_def)
  next
    case w1: (Inr s1)
    have s1: "run_keeps ?w s s1" "fr_forced s1 = fr_forced s" using wp w1 by simp_all
    have i1: "fin_inv ?w (fr_fin s1)" using fin_inv_keeps inv s1 by (auto simp: run_keeps_def)
    have b1: "f_batch (fr_fin s1) = Some b0" using s1 b0 by (simp add: run_keeps_def keeps_batch_def)
    have same: "sent_request (be_fin env) None True (fr_fin s1) = sent_request (be_fin env) None True (fr_fin s)"
      using s1(1) by (simp add: sent_request_def run_keeps_def keeps_batch_def split: option.split)
    note nil = processTransaction_nil [OF i1 answers, of True]
    have stop: "st = Panicked \<and> empty_request_fails env s b0" if "reprocess_unchanged env b0 s1 = Inl st" for st
      using that nil same
      by (cases "processTransaction (be_fin env) None True (fr_fin s1)")
        (auto simp: reprocess_unchanged_def empty_request_fails_def split: if_split_asm)
    show ?thesis
    proof (cases "reprocess_unchanged env b0 s1")
      case (Inl st)
      then show ?thesis using stop [OF Inl] w1 b1 fin_inv_w_ok [OF i1] by (auto simp: newWIPBatch_def new_batch_def)
    next
      case (Inr q)
      obtain e s2 where q: "q = (e, s2)" by fastforce
      have r: "reprocess_unchanged env b0 s1 = Inr (e, s2)" using Inr q by simp
      obtain f' where f': "s2 = s1\<lparr>fr_fin := f'\<rparr>" "fin_inv ?w f'" "nextForcedBatches f' = nextForcedBatches (fr_fin s1)"
          "f_batchConstraints f' = f_batchConstraints (fr_fin s1)"
          "map_option (\<lambda>b. (batchNumber b, remainingResources b)) (f_batch f') = Some (batchNumber b0, remainingResources b0)"
      proof (cases "initialStateRoot b0 = stateRoot b0")
        case True
        then obtain f' where p: "processTransaction (be_fin env) None True (fr_fin s1) = Inr (e, f')" "s2 = s1\<lparr>fr_fin := f'\<rparr>"
          using r by (auto simp: reprocess_unchanged_def and_then_Inr)
        show ?thesis by (rule that [of f', OF p(2)]) (use nil p(1) b1 in simp_all)
      next
        case False
        then have "s2 = s1" using r by (simp add: reprocess_unchanged_def)
        then show ?thesis using that [of "fr_fin s1"] i1 b1 by simp
      qed
      have i2: "fin_inv ?w (fr_fin s2)" using f'(1,2) by simp
      have k2: "fr_closed s2 = fr_closed s" "fr_forced s2 = fr_forced s"
          "nextForcedBatches (fr_fin s2) = nextForcedBatches (fr_fin s)"
          "f_batchConstraints (fr_fin s2) = f_batchConstraints (fr_fin s)"
          "map_option (\<lambda>b. (batchNumber b, remainingResources b)) (f_batch (fr_fin s2)) = Some (batchNumber b0, remainingResources b0)"
        using f' s1 by (simp_all add: run_keeps_def keeps_batch_def)
      obtain b2 where b2: "f_batch (fr_fin s2) = Some b2" "batchNumber b2 = batchNumber b0" "remainingResources b2 = remainingResources b0"
        using k2(5) by auto
      have used: "list_all (\<lambda>d. d (getUsedBatchResources (f_batchConstraints (fr_fin s)) (remainingResources b2)) +
          d (remainingResources b0) = d (getMaxRemainingResources (f_batchConstraints (fr_fin s)))) br_dims"
        using getUsed_exact inv b0 b2(3) by (simp add: fin_inv_def)
      note rest = check_close_open [OF i2 ok k2(1-4) b2(2) used]
      show ?thesis
        using rest r b2(1) fin_inv_w_ok [OF i1] fin_inv_w_ok [OF i2]
        by (cases e) (simp_all add: newWIPBatch_def w1 b1, simp_all add: new_batch_def)
    qed
  qed
qed

lemma finalizeBatch_unfold:
  "finalizeBatch env 0 s = Some (case newWIPBatch (env 0) s of
     Inl st \<Rightarrow> Inl st
   | Inr (Inr batch, s1) \<Rightarrow> Inr (on_fin (\<lambda>f. f\<lparr>f_batch := Some batch\<rparr>) s1)
   | Inr (Inl err, s1) \<Rightarrow>
       (case wait_pending (env 1) (pendingTransactionsToStore (fr_fin s1)) (on_fin (\<lambda>f. f\<lparr>f_batch := None\<rparr>) s1) of
          Inl st \<Rightarrow> Inl st
        | Inr s2 \<Rightarrow> Inl Panicked))"
proof (cases "newWIPBatch (env 0) s")
  case (Inr q)
  obtain r s1 where q: "q = (r, s1)" by fastforce
  show ?thesis
  proof (cases r)
    case (Inl err)
    let ?s = "on_fin (\<lambda>f. f\<lparr>f_batch := None\<rparr>) s1"
    note wp = wait_pending_keeps [where s = ?s and env = "env 1", OF refl]
    have "newWIPBatch (env 1) ?s = (case wait_pending (env 1) (pendingTransactionsToStore (fr_fin s1)) ?s of
        Inl st \<Rightarrow> Inl st | Inr s2 \<Rightarrow> Inl Panicked)"
      using wp by (auto simp: newWIPBatch_def run_keeps_def keeps_batch_def split: sum.splits)
    then show ?thesis using Inr q Inl
      by (subst finalizeBatch.simps, simp, subst finalizeBatch.simps) (auto split: sum.splits)
  qed (use Inr q in \<open>simp add: finalizeBatch.simps\<close>)
qed (simp add: finalizeBatch.simps)

lemma nil_tx_keeps_forced:
  assumes "processTransaction env None firstTxProcess f = Inr (e, f')"
  shows "nextForcedBatches f' = nextForcedBatches f"
proof -
  obtain b where b: "f_batch f = Some b" using assms by (cases "f_batch f") (simp_all add: processTransaction_def)
  define f1 where "f1 = f\<lparr>f_processRequest := (f_processRequest f)\<lparr>pr_GlobalExitRoot :=
      (if isEmpty b then globalExitRoot b else ZeroHash), pr_Transactions := []\<rparr>\<rparr>"
  obtain err r where a: "ProcessBatch env (f_processRequest f1) True = (err, r)" by fastforce
  have "handle_batch_response env None err r f1 = Inr (e, f')"
    using assms b a by (simp add: processTransaction_def f1_def split: if_split_asm)
  then have "nextForcedBatches f' = nextForcedBatches f1"
    by (auto simp: handle_batch_response_def take_response_def and_then_Inr deref_Inr split: if_split_asm)
  then show ?thesis by (simp add: f1_def)
qed

lemma reprocessFullBatch_keeps:
  assumes "reprocessFullBatch env n root expected f = Inr (Inr r, f')"
  shows "f' = f"
  using assms unfolding reprocessFullBatch_def Let_def
  by (auto simp: and_then_Inr deref_Inr split: sum.split_asm prod.split_asm if_split_asm option.split_asm)

lemma sanity_check_forced:
  assumes "sanity_check env b s = Inr s'"
  shows "nextForcedBatches (fr_fin s') = nextForcedBatches (fr_fin s)"
proof (cases "SequentialReprocessFullBatch (f_cfg (fr_fin s))")
  case True
  obtain r f where r: "reprocessFullBatch env (batchNumber b) (initialStateRoot b) (stateRoot b) (fr_fin s) = Inr (r, f)"
    using assms True by (auto simp: sanity_check_def and_then_Inr)
  show ?thesis
  proof (cases r)
    case (Inr x)
    have "f = fr_fin s" using reprocessFullBatch_keeps r Inr by simp
    then show ?thesis using assms True r Inr by (auto simp: sanity_check_def)
  qed (use assms True r in \<open>simp add: sanity_check_def\<close>)
qed (use assms in \<open>simp add: sanity_check_def\<close>)

lemma forced_error_zero:
  assumes "newWIPBatch env s = Inr (Inr b, s')" "nextForcedBatches (fr_fin s) \<noteq> []"
    and "GetLastTrustedForcedBatchNumber env = Inl err"
  shows "batchNumber b = 1 \<and> stateRoot b = 0 \<and> initialStateRoot b = 0"
proof -
  obtain s1 b1 where w1: "wait_pending env (pendingTransactionsToStore (fr_fin s)) s = Inr s1" and b1: "f_batch (fr_fin s1) = Some b1"
    using assms(1) unfolding newWIPBatch_def and_then_Inr deref_Inr by blast
  have z: "stateRoot b1 \<noteq> ZeroHash" using assms(1) w1 b1 by (auto simp: newWIPBatch_def)
  obtain e s2 where r2: "reprocess_unchanged env b1 s1 = Inr (e, s2)"
    using assms(1) w1 b1 z by (cases "reprocess_unchanged env b1 s1") (auto simp: newWIPBatch_def)
  have e: "e = None" using assms(1) w1 b1 z r2 by (cases e) (auto simp: newWIPBatch_def)
  obtain b2 s3 where b2: "f_batch (fr_fin s2) = Some b2" and s3: "sanity_check env b2 s2 = Inr s3"
    using assms(1) w1 b1 z r2 e by (auto simp: newWIPBatch_def and_then_Inr deref_Inr)
  obtain e4 s4 where s4: "closeBatch env b2 s3 = (e4, s4)" by fastforce
  have e4: "e4 = None" using assms(1) w1 b1 z r2 e b2 s3 s4 by (cases e4) (auto simp: newWIPBatch_def)
  obtain n r s5 where s5: "forced_batches env (batchNumber b2) (stateRoot b2) (on_fin (send_update_ger env b2) s4) = Inr ((n, r), s5)"
    and op: "open_next env n r (on_fin take_ger s5) = (Inr b, s')"
    using assms(1) w1 b1 z r2 e b2 s3 s4 e4
    by (cases "forced_batches env (batchNumber b2) (stateRoot b2) (on_fin (send_update_ger env b2) s4)")
      (auto simp: newWIPBatch_def)
  have n1: "nextForcedBatches (fr_fin s1) = nextForcedBatches (fr_fin s)"
    using wait_pending_keeps [where s = s and env = env, OF refl] w1 by (simp add: run_keeps_def keeps_batch_def)
  have n2: "nextForcedBatches (fr_fin s2) = nextForcedBatches (fr_fin s1)"
    using r2 nil_tx_keeps_forced by (auto simp: reprocess_unchanged_def and_then_Inr split: if_split_asm)
  have n3: "nextForcedBatches (fr_fin s3) = nextForcedBatches (fr_fin s2)"
    by (rule sanity_check_forced [OF s3])
  have n4: "nextForcedBatches (fr_fin s4) = nextForcedBatches (fr_fin s3)"
    using closeBatch_cases [of env b2 s3] s4 e4 by auto
  have "n = 0 \<and> r = 0"
    using s5 assms(2,3) n1 n2 n3 n4
    by (auto simp: forced_batches_def processForcedBatches_def send_update_ger_def addStreamEntry_def split: if_splits)
  then show ?thesis using op
    by (auto simp: open_next_def openWIPBatch_def split: option.splits sum.splits)
qed

section \<open>Properties\<close>

text \<open>
  The nested loops of \<open>sortForcedBatches\<close> sort: the result is a permutation in the order of the
  forced batch numbers and, since the numbers differ, what sorting by them gives.
\<close>

theorem sortForcedBatches_correct:
  assumes "distinct (map fb_ForcedBatchNumber fb)"
  shows "sortForcedBatches fb = sort_key fb_ForcedBatchNumber fb \<and> mset (sortForcedBatches fb) = mset fb"
  using sortForcedBatches_unique [OF assms] sortForcedBatches_sorts [of fb] by simp

text \<open>
  C5. The forced batches are processed in order and without gaps. From a sorted list of waiting
  forced batches and the last trusted one \<open>lastForced\<close>, a call of \<open>processForcedBatches\<close> that returns no
  error has processed the forced batches \<open>lastForced + 1\<close>, \<open>lastForced + 2\<close> and so on, fetching those that
  were not waiting, up to the last one that was: each in the next batch number, on the state root
  of the one before. It returns the number and the root of the last, and none is left waiting.
\<close>

theorem forced_batches_in_order:
  assumes "processForcedBatches env n root s = Inr ((n', root', None), s')"
    and "GetLastTrustedForcedBatchNumber env = Inr lastForced" "lastForced < - 1"
    and "\<And>k fb. GetForcedBatch env k = Inr fb \<Longrightarrow> fb_ForcedBatchNumber fb = k"
    and "sorted (map fb_ForcedBatchNumber (nextForcedBatches (fr_fin s)))"
      "\<forall>fb \<in> set (nextForcedBatches (fr_fin s)). fb_ForcedBatchNumber fb < - 1"
  shows "\<exists>xs. fr_forced s' = fr_forced s @ xs \<and> forced_chain (lastForced + 1) n root xs \<and>
    n' = n + of_nat (length xs) \<and> root' = chain_root root xs \<and> nextForcedBatches (fr_fin s') = [] \<and>
    (\<forall>fb \<in> set (nextForcedBatches (fr_fin s)). unat (fb_ForcedBatchNumber fb) \<le> unat lastForced + length xs)"
proof -
  let ?s = "on_fin (\<lambda>f. f\<lparr>nextForcedBatchDeadline := 0\<rparr>) s"
  obtain s1 where loop: "process_forced_loop env (nextForcedBatches (fr_fin s)) (lastForced + 1) (n, root) ?s = Inr (None, (n', root'), s1)"
    and s': "s' = on_fin (\<lambda>f. f\<lparr>nextForcedBatches := []\<rparr>) s1"
    using assms(1,2) by (auto simp: processForcedBatches_def and_then_Inr split: option.split_asm)
  obtain xs where "forced_run (lastForced + 1) (n, root) ?s xs (n', root') s1"
      "\<forall>fb \<in> set (nextForcedBatches (fr_fin s)). unat (num fb) < unat (lastForced + 1) + length xs"
    using forced_loop_run [OF assms(4) loop assms(5,6)] by blast
  then show ?thesis using s' word_succ_below [OF assms(3)] by (intro exI [of _ xs]) (auto simp: forced_run_def)
qed

text \<open>
  C4. From one batch to the next, with the state answering as its \<open>ProcessBatch\<close> does and batch data
  that fits in memory. When the worker is consistent and the request starts from the root of the
  batch, \<open>newWIPBatch\<close> panics only if the batch has left its root unchanged and the empty request it
  then sends is answered with an error other than the database error; otherwise it halts or
  returns. If it returns a batch, the old one has been closed with a receipt whose resources and
  the remaining ones add up to the constraints, with no wrap-around; the new batch has all the
  resources and no transactions, and the invariant holds for it. The forced batches processed in
  between took the numbers after the closed batch, each on the root of the one before, starting
  from the root of the receipt, and the new batch has the number and the root after the last of
  them: without forced batches the next number and the root of the receipt. The one exception is a
  forced batch, or the number of the last one, that could not be read from the state: then the new
  batch is number 1 on the zero root.
\<close>

theorem newWIPBatch_continues:
  assumes "fin_inv (fe_worker (be_fin env)) (fr_fin s)" "f_batch (fr_fin s) = Some b"
    and "ProcessBatch (be_fin env) = State_ProcessBatch S"
    and "\<And>n batch. GetBatchByNumber env n = Inr batch \<Longrightarrow> length (ba_BatchL2Data batch) < 2 ^ 63"
  shows "case newWIPBatch env s of
      Inl st \<Rightarrow> st = Halted \<or> st = Panicked \<and> empty_request_fails env s b
    | Inr (Inl e, s') \<Rightarrow> w_ok (fe_worker (be_fin env)) (f_worker (fr_fin s'))
    | Inr (Inr b', s') \<Rightarrow>
        fin_inv (fe_worker (be_fin env)) ((fr_fin s')\<lparr>f_batch := Some b'\<rparr>) \<and> countOfTxs b' = 0 \<and>
        remainingResources b' = getMaxRemainingResources (f_batchConstraints (fr_fin s')) \<and>
        (\<exists>c xs. fr_closed s' = fr_closed s @ [c] \<and> cb_BatchNumber c = batchNumber b \<and>
           list_all (\<lambda>d. d (cb_BatchResources c) + d (remainingResources b) =
             d (getMaxRemainingResources (f_batchConstraints (fr_fin s)))) br_dims \<and>
           fr_forced s' = fr_forced s @ xs \<and> linked (batchNumber b) (cb_StateRoot c) xs \<and>
           (nextForcedBatches (fr_fin s) = [] \<longrightarrow> xs = []) \<and>
           (batchNumber b' = batchNumber b + of_nat (length xs) + 1 \<and> stateRoot b' = chain_root (cb_StateRoot c) xs \<or>
            nextForcedBatches (fr_fin s) \<noteq> [] \<and> forced_failed env \<and> batchNumber b' = 1 \<and> stateRoot b' = 0))"
proof -
  have ok: "state_ok env" using assms(3,4) by (simp add: state_ok_def State_ProcessBatch_answer)
  have num: "n - 1 = m \<longleftrightarrow> n = m + 1" for n m :: u64 by (auto simp: algebra_simps)
  note N = newWIPBatch_reopens [OF assms(1,2) ok]
  show ?thesis
  proof (cases "newWIPBatch env s")
    case (Inl st)
    then show ?thesis using N by (simp add: new_batch_def)
  next
    case (Inr q)
    obtain r s' where q: "q = (r, s')" by fastforce
    show ?thesis
    proof (cases r)
      case (Inl e)
      then show ?thesis using N Inr q by (simp add: new_batch_def)
    next
      case b': (Inr b')
      from N [unfolded Inr q b' new_batch_def sum.case prod.case] obtain c
        where c: "reopens env s b c (Inr b', s')" "cb_BatchNumber c = batchNumber b"
          "list_all (\<lambda>d. d (cb_BatchResources c) + d (remainingResources b) =
             d (getMaxRemainingResources (f_batchConstraints (fr_fin s)))) br_dims" by (elim exE conjE)
      from c(1) have f: "fin_inv (fe_worker (be_fin env)) ((fr_fin s')\<lparr>f_batch := Some b'\<rparr>)" "countOfTxs b' = 0"
          "remainingResources b' = getMaxRemainingResources (f_batchConstraints (fr_fin s'))" "fr_closed s' = fr_closed s @ [c]"
          "after_forced env (batchNumber b) (cb_StateRoot c) s (batchNumber b' - 1) (stateRoot b') s'"
        by (simp_all add: reopens_def)
      from f(5) obtain xs where xs: "fr_forced s' = fr_forced s @ xs" "linked (batchNumber b) (cb_StateRoot c) xs"
          "nextForcedBatches (fr_fin s) = [] \<longrightarrow> xs = []"
          "batchNumber b' - 1 = batchNumber b + of_nat (length xs) \<and> stateRoot b' = chain_root (cb_StateRoot c) xs \<or>
           nextForcedBatches (fr_fin s) \<noteq> [] \<and> forced_failed env \<and> batchNumber b' - 1 = 0 \<and> stateRoot b' = 0"
        unfolding after_forced_def by (elim exE conjE)
      show ?thesis unfolding Inr q b' sum.case prod.case
        by (intro conjI f(1-3), rule exI [of _ c], rule exI [of _ xs], intro conjI f(4) c(2,3) xs(1-3))
          (use xs(4) in \<open>simp add: num add.assoc\<close>)
    qed
  qed
qed

text \<open>
  \<open>finalizeBatch\<close> never retries. When the first attempt fails, the batch of the finalizer is
  nil, and the second attempt panics as soon as the pending transactions are stored, instead of
  trying again until it succeeds.
\<close>

theorem finalizeBatch_never_retries:
  "finalizeBatch env 0 s = Some (case newWIPBatch (env 0) s of
     Inl st \<Rightarrow> Inl st
   | Inr (Inr batch, s1) \<Rightarrow> Inr (on_fin (\<lambda>f. f\<lparr>f_batch := Some batch\<rparr>) s1)
   | Inr (Inl err, s1) \<Rightarrow>
       (case wait_pending (env 1) (pendingTransactionsToStore (fr_fin s1)) (on_fin (\<lambda>f. f\<lparr>f_batch := None\<rparr>) s1) of
          Inl st \<Rightarrow> Inl st
        | Inr s2 \<Rightarrow> Inl Panicked))"
  by (rule finalizeBatch_unfold)

text \<open>
  An error while the forced batches are processed restarts the numbering: \<open>newWIPBatch\<close> only
  logs it, and opens batch 1 on the zero root.
\<close>

theorem forced_error_restarts_numbering:
  assumes "newWIPBatch env s = Inr (Inr b, s')" "nextForcedBatches (fr_fin s) \<noteq> []"
    and "GetLastTrustedForcedBatchNumber env = Inl err"
  shows "batchNumber b = 1 \<and> stateRoot b = 0 \<and> initialStateRoot b = 0"
  by (rule forced_error_zero [OF assms])

section \<open>Instances\<close>

definition sample_forced :: "u64 \<Rightarrow> StateForcedBatch" where
  "sample_forced k = \<lparr>fb_BlockNumber = 1, fb_ForcedBatchNumber = k, fb_Sequencer = 0, fb_GlobalExitRoot = 0,
     fb_RawTxsData = [], fb_ForcedAt = 0\<rparr>"

text \<open>A state that accepts everything, and has processed forced batch 3; a forced batch leads to the root 9.\<close>

definition sample_batch_env :: "go_error + u64 \<Rightarrow> batch_env" where
  "sample_batch_env trusted = \<lparr>be_fin = sample_fin_env, be_geth = spec_geth, be_now = (\<lambda>n. 0), be_storedFlushID = 10,
     GetLastTrustedForcedBatchNumber = trusted, GetForcedBatch = (\<lambda>k. Inr (sample_forced k)),
     ProcessForcedBatch = (\<lambda>k req. Inr (sample_batch_response\<lparr>pbr_NewStateRoot := 9, pbr_Responses := []\<rparr>)),
     StoreProcessedTxAndDeleteFromPool = (\<lambda>tx. None), BeginStateTransaction = None, OpenBatch = (\<lambda>c. None),
     RollbackTx = None, CommitTx = None, GetTransactionsByBatchNumber = (\<lambda>n. Inr ([], [])), CloseBatch = (\<lambda>c. None),
     GetBatchByNumber = (\<lambda>n. Inl (ErrorString ''not found'')), GetLastBatch = Inl (ErrorString ''not found''),
     IsBatchClosed = (\<lambda>n. Inr True), GetLatestGer = Inr 0, GetWIPBatch = Inl (ErrorString ''not found'')\<rparr>"

definition sample_run :: "StateForcedBatch list \<Rightarrow> fin_run" where
  "sample_run forced = \<lparr>fr_fin = sample_fin\<lparr>f_cfg := (f_cfg sample_fin)\<lparr>SequentialReprocessFullBatch := False\<rparr>,
     nextForcedBatches := forced\<rparr>, fr_forced = [], fr_stored = [], fr_closed = [], fr_opened = []\<rparr>"

lemma sample_newWIPBatch:
  "\<exists>b s'. newWIPBatch (sample_batch_env trusted) (sample_run forced) = Inr (Inr b, s')"
  if "forced = [] \<or> trusted = Inl err"
  using that
  by (auto simp: newWIPBatch_def sample_run_def sample_batch_env_def reprocess_unchanged_def processTransaction_def
      handle_batch_response_def take_response_def sanity_check_def closeBatch_def forced_batches_def processForcedBatches_def
      send_update_ger_def take_ger_def open_next_def openWIPBatch_def openBatch_def sample_fin_def sample_wip_def
      sample_fin_env_def sample_batch_response_def ZeroHash_def Let_def)

theorem sortForcedBatches_correct_witness:
  "sortForcedBatches [sample_forced 7, sample_forced 5, sample_forced 6] = [sample_forced 5, sample_forced 6, sample_forced 7]"
  using sortForcedBatches_correct [of "[sample_forced 7, sample_forced 5, sample_forced 6]"] by (simp add: sample_forced_def)

lemma sample_forced_step:
  assumes "f_stream (fr_fin s) = None"
  shows "\<exists>req resp s'. processForcedBatch (sample_batch_env t) n r (sample_forced k) s = Inr ((n + 1, 9), s') \<and>
    fr_forced s' = fr_forced s @ [(k, req, resp)] \<and> f_stream (fr_fin s') = None"
  using assms by (simp add: processForcedBatch_def sample_batch_env_def sample_forced_def sample_batch_response_def)

lemma sample_processForced:
  "\<exists>s'. processForcedBatches (sample_batch_env (Inr 3)) 10 3 (sample_run [sample_forced 5]) = Inr ((12, 9, None), s') \<and>
     map fst (fr_forced s') = [4, 5]"
proof -
  let ?env = "sample_batch_env (Inr 3)"
  define s where "s = on_fin (\<lambda>f. f\<lparr>nextForcedBatchDeadline := 0\<rparr>) (sample_run [sample_forced 5])"
  have s: "f_stream (fr_fin s) = None" "fr_forced s = []" "nextForcedBatches (fr_fin s) = [sample_forced 5]"
    by (simp_all add: s_def sample_run_def sample_fin_def)
  obtain q1 p1 s1 where s1: "processForcedBatch ?env 10 3 (sample_forced 4) s = Inr ((11, 9), s1)"
      "fr_forced s1 = [(4, q1, p1)]" "f_stream (fr_fin s1) = None"
    using sample_forced_step [OF s(1), of "Inr 3" 10 3 4] s(2) by auto
  obtain q2 p2 s2 where s2: "processForcedBatch ?env 11 9 (sample_forced 5) s1 = Inr ((12, 9), s2)"
      "fr_forced s2 = [(4, q1, p1), (5, q2, p2)]"
    using sample_forced_step [OF s1(3), of "Inr 3" 11 9 5] s1(2) by auto
  have env: "GetForcedBatch ?env k = Inr (sample_forced k)" "GetLastTrustedForcedBatchNumber ?env = Inr 3"
      "fb_ForcedBatchNumber (sample_forced k) = k" for k
    by (simp_all add: sample_batch_env_def sample_forced_def)
  have i2: "process_in_between ?env 5 5 (11, 9) s1 = Inr (None, (11, 9), s1)" by (subst process_in_between.simps) simp
  have i1: "process_in_between ?env 5 4 (10, 3) s = Inr (None, (11, 9), s1)"
    by (subst process_in_between.simps) (simp add: env s1(1) i2)
  have "process_forced_loop ?env [sample_forced 5] (3 + 1) (10, 3) s = Inr (None, (12, 9), s2)"
    by (simp add: env i1 s2(1))
  then show ?thesis using s(3) s2(2) unfolding processForcedBatches_def Let_def env s_def [symmetric] by simp
qed

theorem forced_batches_in_order_witness:
  "\<exists>s'. processForcedBatches (sample_batch_env (Inr 3)) 10 3 (sample_run [sample_forced 5]) = Inr ((12, 9, None), s') \<and>
     map fst (fr_forced s') = [4, 5] \<and> forced_chain 4 10 3 (fr_forced s')"
proof -
  obtain s' where run: "processForcedBatches (sample_batch_env (Inr 3)) 10 3 (sample_run [sample_forced 5]) = Inr ((12, 9, None), s')"
    and "map fst (fr_forced s') = [4, 5]" using sample_processForced by (elim exE conjE)
  moreover have "\<exists>xs. fr_forced s' = fr_forced (sample_run [sample_forced 5]) @ xs \<and> forced_chain (3 + 1) 10 3 xs \<and>
      (12 :: u64) = 10 + of_nat (length xs) \<and> 9 = chain_root 3 xs \<and> nextForcedBatches (fr_fin s') = [] \<and>
      (\<forall>fb \<in> set (nextForcedBatches (fr_fin (sample_run [sample_forced 5]))). unat (fb_ForcedBatchNumber fb) \<le> unat (3 :: u64) + length xs)"
    by (rule forced_batches_in_order [OF run])
      (auto simp: sample_batch_env_def sample_run_def sample_forced_def)
  ultimately show ?thesis by (auto simp: sample_run_def)
qed

text \<open>An executor that gives the sample response to every request.\<close>

definition sample_executor :: "unit state_env" where
  "sample_executor = \<lparr>st_executorClient = Some (\<lambda>req. Inr
       \<lparr>ebr_NewStateRoot = [7], ebr_NewAccInputHash = [], ebr_NewLocalExitRoot = [], ebr_NewBatchNum = 1,
        ebr_CumulativeGasUsed = CumulativeGasUsed (sample_counters 1), ebr_CntKeccakHashes = UsedKeccakHashes (sample_counters 1),
        ebr_CntPoseidonHashes = UsedPoseidonHashes (sample_counters 1),
        ebr_CntPoseidonPaddings = UsedPoseidonPaddings (sample_counters 1), ebr_CntMemAligns = UsedMemAligns (sample_counters 1),
        ebr_CntArithmetics = UsedArithmetics (sample_counters 1), ebr_CntBinaries = UsedBinaries (sample_counters 1),
        ebr_CntSteps = UsedSteps (sample_counters 1), ebr_Responses = [\<lparr>etr_Error = RomError_ROM_ERROR_NO_ERROR\<rparr>],
        ebr_Error = ExecutorError_EXECUTOR_ERROR_NO_ERROR, ebr_ReadWriteAddresses = [], ebr_FlushId = 1, ebr_StoredFlushId = 0,
        ebr_ProverId = []\<rparr>),
     st_ForkIDByBatchNumber = (\<lambda>n. 5), st_ChainID = 1, st_NewContextId = (\<lambda>req. []), st_addrString = (\<lambda>a. []),
     st_HexToAddress = (\<lambda>s. 0), st_convertResponses = (\<lambda>rs. Inr [sample_response])\<rparr>"

lemma sample_executor_answers: "ProcessBatch sample_fin_env = State_ProcessBatch sample_executor"
proof (intro ext)
  fix req upd
  have "BytesToHash [7] = 7" "BytesToHash [] = 0" by (simp_all add: BytesToHash_def word_rcat_def horner_sum_simps)
  moreover have "ExecutorErr ExecutorError_EXECUTOR_ERROR_NO_ERROR = None" "\<not> IsROMOutOfCountersError RomError_ROM_ERROR_NO_ERROR"
    by code_simp+
  ultimately show "ProcessBatch sample_fin_env req upd = State_ProcessBatch sample_executor req upd"
    by (simp add: sample_fin_env_def State_ProcessBatch_def sample_executor_def sendBatchRequestToExecutor_def
        convertToProcessBatchResponse_def convertToCounters_def sample_batch_response_def)
qed

theorem newWIPBatch_continues_witness:
  "\<exists>b' s'. newWIPBatch (sample_batch_env (Inr 3)) (sample_run []) = Inr (Inr b', s') \<and>
     fin_inv sample_env ((fr_fin s')\<lparr>f_batch := Some b'\<rparr>) \<and> batchNumber b' = 2"
proof -
  let ?env = "sample_batch_env (Inr 3)"
  obtain b' s' where run: "newWIPBatch ?env (sample_run []) = Inr (Inr b', s')"
    using sample_newWIPBatch by blast
  have env: "fe_worker (be_fin ?env) = sample_env" "be_fin ?env = sample_fin_env" "fe_worker sample_fin_env = sample_env"
    by (simp_all add: sample_batch_env_def sample_fin_env_def)
  have "fin_inv (fe_worker (be_fin ?env)) (fr_fin (sample_run []))"
    using sample_fin_inv unfolding env(1) by (auto simp: sample_run_def fin_inv_def split: option.splits)
  moreover have "f_batch (fr_fin (sample_run [])) = Some sample_wip" by (simp add: sample_run_def sample_fin_def)
  moreover have "ProcessBatch (be_fin ?env) = State_ProcessBatch sample_executor" unfolding env(2) by (rule sample_executor_answers)
  moreover have "length (ba_BatchL2Data batch) < 2 ^ 63" if "GetBatchByNumber ?env n = Inr batch" for n batch
    using that by (simp add: sample_batch_env_def)
  ultimately show ?thesis
    using newWIPBatch_continues [of ?env "sample_run []" sample_wip sample_executor] run
    by (auto simp: env sample_run_def sample_fin_def sample_wip_def)
qed

theorem forced_error_restarts_numbering_witness:
  "\<exists>b s'. newWIPBatch (sample_batch_env (Inl (ErrorString ''timeout''))) (sample_run [sample_forced 5]) = Inr (Inr b, s') \<and>
     batchNumber b = 1 \<and> stateRoot b = 0"
proof -
  obtain b s' where run: "newWIPBatch (sample_batch_env (Inl (ErrorString ''timeout''))) (sample_run [sample_forced 5]) = Inr (Inr b, s')"
    using sample_newWIPBatch by blast
  have "batchNumber b = 1 \<and> stateRoot b = 0 \<and> initialStateRoot b = 0"
    by (rule forced_error_restarts_numbering [OF run]) (simp_all add: sample_run_def sample_batch_env_def)
  with run show ?thesis by blast
qed

end
