(* ===== verification/EthTxStorage.thy ===== *)
theory EthTxStorage
  imports BatchCodec
begin

text \<open>
  The monitored transactions of the Ethereum transaction manager and their table:
  \<open>ethtxmanager/monitoredtx.go\<close> and \<open>ethtxmanager/pgstorage.go\<close>. The table is the list of its rows;
  each SQL statement of the source is a function on that list. Addresses and hashes are columns of
  their own types, for the text that go-ethereum writes of them is read back as the same value. A
  \<open>*big.Int\<close> is an \<open>int\<close>, or an option where the source uses \<open>nil\<close>. The history, a Go map to \<open>true\<close>,
  is the list of its keys. The properties: what is read back after a write, and the law of the table
  that the manager relies on.
\<close>

section \<open>Monitored transactions\<close>

datatype MonitoredTxStatus =
    MonitoredTxStatusCreated
  | MonitoredTxStatusSent
  | MonitoredTxStatusFailed
  | MonitoredTxStatusConfirmed
  | MonitoredTxStatusReorged
  | MonitoredTxStatusDone

record monitoredTx =
  m_owner :: string
  m_id :: string
  m_from :: address
  m_to :: "address option"
  m_nonce :: u64
  m_value :: "int option"
  m_data :: "bytes option"
  m_gas :: u64
  m_gasOffset :: u64
  m_gasPrice :: int
  m_status :: MonitoredTxStatus
  m_blockNumber :: "int option"
  m_history :: "hash list"
  m_createdAt :: int
  m_updatedAt :: int

type_synonym mtx_key = "string \<times> string"

definition m_key :: "monitoredTx \<Rightarrow> mtx_key" where "m_key m = (m_owner m, m_id m)"

datatype storage_error = ErrNotFound | ErrAlreadyExists | DBError string

text \<open>The unsigned transaction; \<open>types.NewTx\<close> reads a missing value as zero.\<close>

definition Tx :: "monitoredTx \<Rightarrow> LegacyTx" where
  "Tx m = \<lparr>tx_Nonce = m_nonce m, tx_GasPrice = m_gasPrice m, tx_Gas = m_gas m + m_gasOffset m, tx_To = m_to m,
     tx_Value = (case m_value m of None \<Rightarrow> 0 | Some v \<Rightarrow> v), tx_Data = (case m_data m of None \<Rightarrow> [] | Some d \<Rightarrow> d),
     tx_V = 0, tx_R = 0, tx_S = 0\<rparr>"

definition AddHistory :: "hash \<Rightarrow> monitoredTx \<Rightarrow> storage_error + monitoredTx" where
  "AddHistory h m =
     (if h \<in> set (m_history m) then Inl ErrAlreadyExists else Inr (m\<lparr>m_history := m_history m @ [h]\<rparr>))"

definition valueU64Ptr :: "monitoredTx \<Rightarrow> u64 option" where
  "valueU64Ptr m = map_option big_Uint64 (m_value m)"

definition dataStringPtr :: "monitoredTx \<Rightarrow> string option" where
  "dataStringPtr m = map_option EncodeToString (m_data m)"

definition blockNumberU64Ptr :: "monitoredTx \<Rightarrow> u64 option" where
  "blockNumberU64Ptr m = map_option big_Uint64 (m_blockNumber m)"

section \<open>The table\<close>

record Row =
  r_owner :: string
  r_id :: string
  r_from :: address
  r_to :: "address option"
  r_nonce :: u64
  r_value :: "u64 option"
  r_data :: "string option"
  r_gas :: u64
  r_gas_offset :: u64
  r_gas_price :: u64
  r_status :: MonitoredTxStatus
  r_block_num :: "u64 option"
  r_history :: "hash list"
  r_created_at :: int
  r_updated_at :: int

definition r_key :: "Row \<Rightarrow> mtx_key" where "r_key r = (r_owner r, r_id r)"

text \<open>The arguments of the \<open>INSERT\<close> and of the \<open>UPDATE\<close>, which leaves the time of creation.\<close>

definition row_of :: "int \<Rightarrow> int \<Rightarrow> monitoredTx \<Rightarrow> Row" where
  "row_of created now m =
     \<lparr>r_owner = m_owner m, r_id = m_id m, r_from = m_from m, r_to = m_to m, r_nonce = m_nonce m,
      r_value = valueU64Ptr m, r_data = dataStringPtr m, r_gas = m_gas m, r_gas_offset = m_gasOffset m,
      r_gas_price = big_Uint64 (m_gasPrice m), r_status = m_status m, r_block_num = blockNumberU64Ptr m,
      r_history = m_history m, r_created_at = created, r_updated_at = now\<rparr>"

definition scanMtx :: "Row \<Rightarrow> storage_error + monitoredTx" where
  "scanMtx r =
     (let m = \<lparr>m_owner = r_owner r, m_id = r_id r, m_from = r_from r, m_to = r_to r, m_nonce = r_nonce r,
        m_value = map_option uint (r_value r), m_data = None, m_gas = r_gas r, m_gasOffset = r_gas_offset r,
        m_gasPrice = uint (r_gas_price r), m_status = r_status r, m_blockNumber = map_option uint (r_block_num r),
        m_history = r_history r, m_createdAt = r_created_at r, m_updatedAt = r_updated_at r\<rparr>
      in case r_data r of
           None \<Rightarrow> Inr m
         | Some s \<Rightarrow> (case DecodeString s of
             (bs, None) \<Rightarrow> Inr (m\<lparr>m_data := Some bs\<rparr>)
           | (bs, Some e) \<Rightarrow> Inl (DBError ''hex'')))"

definition storage_Add :: "monitoredTx \<Rightarrow> int \<Rightarrow> Row list \<Rightarrow> storage_error + Row list" where
  "storage_Add m now rows =
     (if m_key m \<in> r_key ` set rows then Inl ErrAlreadyExists else Inr (rows @ [row_of now now m]))"

definition storage_Get :: "string \<Rightarrow> string \<Rightarrow> Row list \<Rightarrow> storage_error + monitoredTx" where
  "storage_Get owner i rows = (case find (\<lambda>r. r_key r = (owner, i)) rows of None \<Rightarrow> Inl ErrNotFound | Some r \<Rightarrow> scanMtx r)"

text \<open>The loop over the rows of a query ends with the first row that cannot be read.\<close>

fun scan_rows :: "Row list \<Rightarrow> storage_error + monitoredTx list" where
  "scan_rows [] = Inr []"
| "scan_rows (r # rs) = (case scanMtx r of Inl e \<Rightarrow> Inl e | Inr m \<Rightarrow> map_sum id ((#) m) (scan_rows rs))"

definition GetByStatus :: "string option \<Rightarrow> MonitoredTxStatus list \<Rightarrow> Row list \<Rightarrow> storage_error + monitoredTx list" where
  "GetByStatus owner statuses rows =
     scan_rows (sort_key r_created_at
       (filter (\<lambda>r. (case owner of None \<Rightarrow> True | Some o' \<Rightarrow> r_owner r = o') \<and>
                    (statuses \<noteq> [] \<longrightarrow> r_status r \<in> set statuses)) rows))"

definition GetByBlock :: "u64 option \<Rightarrow> u64 option \<Rightarrow> Row list \<Rightarrow> storage_error + monitoredTx list" where
  "GetByBlock fromBlock toBlock rows =
     scan_rows (sort_key r_created_at
       (filter (\<lambda>r. case r_block_num r of None \<Rightarrow> False
          | Some b \<Rightarrow> (case fromBlock of None \<Rightarrow> True | Some f \<Rightarrow> f \<le> b) \<and> (case toBlock of None \<Rightarrow> True | Some t \<Rightarrow> b \<le> t)) rows))"

definition storage_Update :: "monitoredTx \<Rightarrow> int \<Rightarrow> Row list \<Rightarrow> Row list" where
  "storage_Update m now rows = map (\<lambda>r. if r_key r = m_key m then row_of (r_created_at r) now m else r) rows"

section \<open>Rows that were written\<close>

definition readable :: "Row \<Rightarrow> bool" where
  "readable r \<longleftrightarrow> (\<forall>s. r_data r = Some s \<longrightarrow> (\<exists>bs. s = EncodeToString bs))"

definition row_mtx :: "Row \<Rightarrow> monitoredTx" where
  "row_mtx r = \<lparr>m_owner = r_owner r, m_id = r_id r, m_from = r_from r, m_to = r_to r, m_nonce = r_nonce r,
     m_value = map_option uint (r_value r), m_data = map_option (\<lambda>s. fst (DecodeString s)) (r_data r), m_gas = r_gas r,
     m_gasOffset = r_gas_offset r, m_gasPrice = uint (r_gas_price r), m_status = r_status r,
     m_blockNumber = map_option uint (r_block_num r), m_history = r_history r,
     m_createdAt = r_created_at r, m_updatedAt = r_updated_at r\<rparr>"

lemma scanMtx_readable: "readable r \<Longrightarrow> scanMtx r = Inr (row_mtx r)"
  by (auto simp: scanMtx_def row_mtx_def readable_def split: option.split)

lemma readable_row_of [simp]: "readable (row_of c n m)"
  by (auto simp: readable_def row_of_def dataStringPtr_def)

lemma scan_rows_readable: "\<forall>r\<in>set rs. readable r \<Longrightarrow> scan_rows rs = Inr (map row_mtx rs)"
  by (induction rs) (simp_all add: scanMtx_readable)

lemma r_key_row_of [simp]: "r_key (row_of c n m) = m_key m" by (simp add: r_key_def m_key_def row_of_def)

lemma m_key_row_mtx [simp]: "m_key (row_mtx r) = r_key r" by (simp add: r_key_def m_key_def row_mtx_def)

lemma row_mtx_simps [simp]:
  "m_status (row_mtx r) = r_status r" "m_history (row_mtx r) = r_history r"
  "m_blockNumber (row_mtx r) = map_option uint (r_block_num r)" "m_nonce (row_mtx r) = r_nonce r"
  "m_gas (row_mtx r) = r_gas r" "m_gasOffset (row_mtx r) = r_gas_offset r" "m_from (row_mtx r) = r_from r" "m_to (row_mtx r) = r_to r"
  by (simp_all add: row_mtx_def)

lemma row_of_simps [simp]:
  "r_status (row_of c n m) = m_status m" "r_history (row_of c n m) = m_history m" "r_nonce (row_of c n m) = m_nonce m"
  "r_block_num (row_of c n m) = blockNumberU64Ptr m" "r_gas (row_of c n m) = m_gas m" "r_created_at (row_of c n m) = c"
  by (simp_all add: row_of_def)

text \<open>What a transaction becomes on its way through the table.\<close>

definition stored :: "int \<Rightarrow> int \<Rightarrow> monitoredTx \<Rightarrow> monitoredTx" where
  "stored created now m = m\<lparr>m_value := map_option (\<lambda>v. uint (big_Uint64 v)) (m_value m),
     m_gasPrice := uint (big_Uint64 (m_gasPrice m)),
     m_blockNumber := map_option (\<lambda>b. uint (big_Uint64 b)) (m_blockNumber m),
     m_createdAt := created, m_updatedAt := now\<rparr>"

lemma row_mtx_row_of: "row_mtx (row_of c n m) = stored c n m"
  by (cases m) (simp add: row_mtx_def row_of_def stored_def valueU64Ptr_def dataStringPtr_def blockNumberU64Ptr_def
      option.map_comp o_def option.map_ident)

lemma big_Uint64_small: "0 \<le> i \<Longrightarrow> i < 2 ^ 64 \<Longrightarrow> uint (big_Uint64 i) = i"
  by (simp add: big_Uint64_def unsigned_of_int take_bit_int_eq_self)

section \<open>The table as a map\<close>

definition table_wf :: "Row list \<Rightarrow> bool" where
  "table_wf rows \<longleftrightarrow> distinct (map r_key rows) \<and> (\<forall>r\<in>set rows. readable r)"

definition row_at :: "Row list \<Rightarrow> mtx_key \<Rightarrow> Row option" where
  "row_at rows k = find (\<lambda>r. r_key r = k) rows"

text \<open>What the manager relies on of its storage: one row for each key, changed by its own updates only.\<close>

locale mtx_table =
  fixes at :: "'s \<Rightarrow> mtx_key \<Rightarrow> Row option"
    and upd :: "monitoredTx \<Rightarrow> int \<Rightarrow> 's \<Rightarrow> 's"
  assumes at_upd: "at (upd m now s) k =
      (if k = m_key m then map_option (\<lambda>r. row_of (r_created_at r) now m) (at s k) else at s k)"
begin

text \<open>A sequence of updates leaves the other keys alone, and its last update is the row of its key.\<close>

lemma upds_other: "\<forall>(m, t)\<in>set us. m_key m \<noteq> k \<Longrightarrow> at (fold (\<lambda>(m, t). upd m t) us s) k = at s k"
  by (induction us arbitrary: s) (auto simp: at_upd)

lemma upds_created: "map_option r_created_at (at (fold (\<lambda>(m, t). upd m t) us s) k) = map_option r_created_at (at s k)"
  by (induction us arbitrary: s) (auto simp: at_upd option.map_comp o_def split_beta)

lemma upds_last:
  assumes "at s (m_key m) = Some r"
  shows "at (upd m t (fold (\<lambda>(m, t). upd m t) us s)) (m_key m) = Some (row_of (r_created_at r) t m)"
  using upds_created [of us s "m_key m"] assms by (auto simp: at_upd)

end

lemma row_at_Some: "row_at rows k = Some r \<Longrightarrow> r \<in> set rows \<and> r_key r = k"
  by (auto simp: row_at_def find_Some_iff)

lemma row_at_in: "distinct (map r_key rows) \<Longrightarrow> r \<in> set rows \<Longrightarrow> row_at rows (r_key r) = Some r"
  by (induction rows) (auto simp: row_at_def rev_image_eqI)

lemma row_at_map:
  assumes "\<And>r. r_key (f r) = r_key r"
  shows "row_at (map f rows) k = map_option f (row_at rows k)"
  by (induction rows) (simp_all add: row_at_def assms)

interpretation pg: mtx_table row_at storage_Update
proof
  show "row_at (storage_Update m now s) k =
      (if k = m_key m then map_option (\<lambda>r. row_of (r_created_at r) now m) (row_at s k) else row_at s k)" for m now s k
  proof -
    have "row_at (storage_Update m now s) k = map_option (\<lambda>r. if r_key r = m_key m then row_of (r_created_at r) now m else r) (row_at s k)"
      unfolding storage_Update_def by (rule row_at_map) simp
    then show ?thesis using row_at_Some [of s k] by (cases "row_at s k") auto
  qed
qed

lemma table_wf_Update [inv_intros]: "table_wf rows \<Longrightarrow> table_wf (storage_Update m now rows)"
proof -
  assume "table_wf rows"
  moreover have "map r_key (storage_Update m now rows) = map r_key rows" by (induction rows) (simp_all add: storage_Update_def)
  moreover have "readable r" if "\<forall>r\<in>set rows. readable r" "r \<in> set (storage_Update m now rows)" for r
    using that by (auto simp: storage_Update_def)
  ultimately show ?thesis unfolding table_wf_def by metis
qed

lemma table_wf_Add [inv_intros]: "table_wf rows \<Longrightarrow> storage_Add m now rows = Inr rows' \<Longrightarrow> table_wf rows'"
  by (auto simp: table_wf_def storage_Add_def split: if_split_asm)

lemma Get_row_at: "table_wf rows \<Longrightarrow> storage_Get o' i rows = (case row_at rows (o', i) of None \<Rightarrow> Inl ErrNotFound | Some r \<Rightarrow> Inr (row_mtx r))"
  using row_at_Some [of rows "(o', i)"]
  by (auto simp: storage_Get_def row_at_def [symmetric] table_wf_def scanMtx_readable split: option.split)

lemma GetByStatus_readable:
  "table_wf rows \<Longrightarrow> GetByStatus ow sts rows = Inr (map row_mtx (sort_key r_created_at
     (filter (\<lambda>r. (case ow of None \<Rightarrow> True | Some o' \<Rightarrow> r_owner r = o') \<and> (sts \<noteq> [] \<longrightarrow> r_status r \<in> set sts)) rows)))"
  unfolding GetByStatus_def by (rule scan_rows_readable) (auto simp: table_wf_def)

lemma GetByBlock_readable:
  "table_wf rows \<Longrightarrow> GetByBlock f t rows = Inr (map row_mtx (sort_key r_created_at
       (filter (\<lambda>r. case r_block_num r of None \<Rightarrow> False
          | Some b \<Rightarrow> (case f of None \<Rightarrow> True | Some f \<Rightarrow> f \<le> b) \<and> (case t of None \<Rightarrow> True | Some t \<Rightarrow> b \<le> t)) rows)))"
  unfolding GetByBlock_def by (rule scan_rows_readable) (auto simp: table_wf_def)

end
