(* ===== verification/GoFloat.thy ===== *)
theory GoFloat
  imports Prelude
begin

text \<open>
  Go's binary floating-point numbers, as far as the node computes prices with them: nonnegative
  numbers of \<open>float64\<close> and \<open>big.Float\<close>, a mantissa times a power of two, rounded to a precision, to the
  nearest and ties to even. A \<open>float64\<close> has 53 bits; its exponents are not bounded here, for prices stay far
  from their ends. The lemmas say when an operation is exact.
\<close>


type_synonym big_float = "nat \<times> int"

fun BitLen :: "nat \<Rightarrow> nat" where
  "BitLen n = (if n = 0 then 0 else Suc (BitLen (n div 2)))"

declare BitLen.simps [simp del]

definition round_half_even :: "nat \<Rightarrow> nat \<Rightarrow> nat" where
  "round_half_even m k = (let q = m div 2 ^ k; r = m mod 2 ^ k in
     if 2 ^ k < 2 * r \<or> 2 * r = 2 ^ k \<and> odd q then q + 1 else q)"

definition round_prec :: "nat \<Rightarrow> big_float \<Rightarrow> big_float" where
  "round_prec prec f = (let k = BitLen (fst f) - prec in (round_half_even (fst f) k, snd f + int k))"

text \<open>
  \<open>NewFloat\<close> gives a precision of 53 bits, which \<open>SetInt\<close> and \<open>Mul\<close> keep; so does the product of two
  \<open>float64\<close>. \<open>Int\<close> truncates.
\<close>

definition Float_SetInt :: "nat \<Rightarrow> big_float" where "Float_SetInt n = round_prec 53 (n, 0)"

definition Float_Mul :: "big_float \<Rightarrow> big_float \<Rightarrow> big_float" where
  "Float_Mul x y = round_prec 53 (fst x * fst y, snd x + snd y)"

definition Float_Int :: "big_float \<Rightarrow> nat" where
  "Float_Int f = (if 0 \<le> snd f then fst f * 2 ^ nat (snd f) else fst f div 2 ^ nat (- snd f))"

section \<open>Exact operations\<close>

lemma BitLen_bounds: "n < 2 ^ BitLen n" "0 < n \<Longrightarrow> 2 ^ (BitLen n - 1) \<le> n"
proof -
  have "n < 2 ^ BitLen n \<and> (0 < n \<longrightarrow> 2 ^ (BitLen n - 1) \<le> n)"
  proof (induction n rule: BitLen.induct)
    case (1 n)
    show ?case
    proof (cases "n = 0")
      case False
      then have IH: "n div 2 < 2 ^ BitLen (n div 2)" "0 < n div 2 \<longrightarrow> 2 ^ (BitLen (n div 2) - 1) \<le> n div 2" using 1 by auto
      have b: "BitLen n = Suc (BitLen (n div 2))" using False by (subst BitLen.simps) simp
      show ?thesis
      proof (cases "n div 2 = 0")
        case True
        then have "n = 1" using False by (simp add: div_eq_0_iff)
        then show ?thesis using b True by (simp add: BitLen.simps [of 0])
      next
        case nz: False
        then have "BitLen (n div 2) = Suc (BitLen (n div 2) - 1)" by (simp add: BitLen.simps [of "n div 2"])
        then have "(2::nat) ^ BitLen (n div 2) = 2 * 2 ^ (BitLen (n div 2) - 1)" by (metis power_Suc)
        moreover have "n div 2 * 2 \<le> n" "n < n div 2 * 2 + 2" by simp_all
        moreover have "2 ^ (BitLen (n div 2) - 1) \<le> n div 2" using IH(2) nz by simp
        ultimately have "2 ^ BitLen (n div 2) \<le> n" "n < 2 * 2 ^ BitLen (n div 2)" using IH(1) by linarith+
        then show ?thesis by (simp add: b)
      qed
    qed (simp add: BitLen.simps)
  qed
  then show "n < 2 ^ BitLen n" "0 < n \<Longrightarrow> 2 ^ (BitLen n - 1) \<le> n" by auto
qed

lemma BitLen_le: "n < 2 ^ k \<Longrightarrow> BitLen n \<le> k"
proof (cases "n = 0")
  case False
  assume "n < 2 ^ k"
  moreover have "2 ^ (BitLen n - 1) \<le> n" using BitLen_bounds(2) [of n] False by blast
  ultimately have "(2::nat) ^ (BitLen n - 1) < 2 ^ k" by (rule le_less_trans [rotated])
  then have "BitLen n - 1 < k" by (rule power_less_imp_less_exp [rotated]) simp
  then show ?thesis by linarith
qed (simp add: BitLen.simps)

text \<open>A number of at most 53 bits is not rounded.\<close>

lemma round_prec_exact: "m < 2 ^ prec \<Longrightarrow> round_prec prec (m, e) = (m, e)"
  using BitLen_le [of m prec] by (simp add: round_prec_def round_half_even_def)

lemma Float_Mul_exact: "fst x * fst y < 2 ^ 53 \<Longrightarrow> Float_Mul x y = (fst x * fst y, snd x + snd y)"
  by (simp add: Float_Mul_def round_prec_exact)

lemma Float_SetInt_exact: "n < 2 ^ 53 \<Longrightarrow> Float_SetInt n = (n, 0)"
  by (simp add: Float_SetInt_def round_prec_exact)

end
