(* ===== verification/EthTxManager.thy ===== *)
theory EthTxManager
  imports EthTxStorage GoFloat "HOL-Library.Sublist"
begin

text \<open>
  The Ethereum transaction manager, \<open>ethtxmanager/ethtxmanager.go\<close>, with the calls it makes of
  \<open>etherman/etherman.go\<close> and \<open>test/operations/wait.go\<close>. The Ethereum client, the signers, the database
  connection and the clock are the record \<open>net\<close>: the answers to one run of an operation, each field a
  function of the place of the call (\<open>site\<close>) and of its arguments, since the answers change with time.
  A run of \<open>monitorTx\<close> reads nothing of the table after it has its copy of the transaction, so it is the
  list of its effects in order: the updates of the table that succeed and the calls of \<open>SendTx\<close>.
  The properties: the price is rounded as
  described and respects the limit; what a run may change; that a transaction is recorded before it is
  sent; when it is confirmed and when its nonce changes.
\<close>

section \<open>The outside\<close>

datatype eth_error = EthNotFound | DeadlineExceeded | EthError string

fun eth_error_Error :: "eth_error \<Rightarrow> string" where
  "eth_error_Error EthNotFound = ''not found''"
| "eth_error_Error DeadlineExceeded = ''context deadline exceeded''"
| "eth_error_Error (EthError s) = s"

definition ErrExecutionReverted :: eth_error where "ErrExecutionReverted = EthError ''execution reverted''"
definition ErrPrivateKeyNotFound :: eth_error where
  "ErrPrivateKeyNotFound = EthError ''can't find sender private key to sign tx''"

record Receipt =
  rc_Status :: u64
  rc_TxHash :: hash
  rc_BlockNumber :: "int option"

definition ReceiptStatusFailed :: u64 where "ReceiptStatusFailed = 0"
definition ReceiptStatusSuccessful :: u64 where "ReceiptStatusSuccessful = 1"

record CallMsg =
  cm_From :: address
  cm_To :: "address option"
  cm_Gas :: u64
  cm_Value :: int
  cm_Data :: bytes

text \<open>The places of \<open>monitorTx\<close> and of the other operations from which a call is made.\<close>

datatype site =
    AtAdd | AtHistory | AtNonce | AtReview | AtAddHistory | AtSend | AtWait | AtReceipt | AtSettle | AtContinue | AtResult

record net =
  n_Hash :: "LegacyTx \<Rightarrow> hash"
  n_range :: "hash list \<Rightarrow> hash list"
  TransactionByHash :: "site \<Rightarrow> hash \<Rightarrow> eth_error + LegacyTx"
  TransactionReceipt :: "site \<Rightarrow> hash \<Rightarrow> eth_error + Receipt"
  WaitMined :: "LegacyTx \<Rightarrow> eth_error + Receipt"
  SendTransaction :: "LegacyTx \<Rightarrow> eth_error option"
  NonceAt :: "site \<Rightarrow> address \<Rightarrow> eth_error + u64"
  SuggestGasPrice :: "site \<Rightarrow> (eth_error + int) list"
  n_EstimateGas :: "site \<Rightarrow> address \<Rightarrow> address option \<Rightarrow> int option \<Rightarrow> bytes option \<Rightarrow> eth_error + u64"
  n_auth :: "address \<Rightarrow> (LegacyTx \<Rightarrow> eth_error + LegacyTx) option"
  Sender155 :: "LegacyTx \<Rightarrow> eth_error + address"
  SenderLatest :: "LegacyTx \<Rightarrow> eth_error + address"
  CallContract :: "site \<Rightarrow> CallMsg \<Rightarrow> int option \<Rightarrow> eth_error + bytes"
  UnpackRevert :: "bytes \<Rightarrow> eth_error + string"
  GetLastBlock :: "storage_error + u64"
  n_db :: "site \<Rightarrow> storage_error option"

section \<open>The calls of the Ethereum client\<close>

definition GetTx :: "net \<Rightarrow> site \<Rightarrow> hash \<Rightarrow> eth_error + LegacyTx" where
  "GetTx nt st h = TransactionByHash nt st h"

definition GetTxReceipt :: "net \<Rightarrow> site \<Rightarrow> hash \<Rightarrow> eth_error + Receipt" where
  "GetTxReceipt nt st h = TransactionReceipt nt st h"

definition SendTx :: "net \<Rightarrow> LegacyTx \<Rightarrow> eth_error option" where
  "SendTx nt tx = SendTransaction nt tx"

definition CurrentNonce :: "net \<Rightarrow> site \<Rightarrow> address \<Rightarrow> eth_error + u64" where
  "CurrentNonce nt st a = NonceAt nt st a"

definition EstimateGas :: "net \<Rightarrow> site \<Rightarrow> address \<Rightarrow> address option \<Rightarrow> int option \<Rightarrow> bytes option \<Rightarrow> eth_error + u64" where
  "EstimateGas nt st a to' v d = n_EstimateGas nt st a to' v d"

text \<open>\<open>GetL1GasPrice\<close>: the highest answer of the providers.\<close>

definition GetL1GasPrice :: "net \<Rightarrow> site \<Rightarrow> int" where
  "GetL1GasPrice nt st = foldl (\<lambda>p a. case a of Inl _ \<Rightarrow> p | Inr gp \<Rightarrow> if p < gp then gp else p) 0 (SuggestGasPrice nt st)"

definition SuggestedGasPrice :: "net \<Rightarrow> site \<Rightarrow> eth_error + int" where
  "SuggestedGasPrice nt st = (let p = GetL1GasPrice nt st in
     if p = 0 then Inl (EthError ''failed to get the suggested gas price'') else Inr p)"

text \<open>The result is the receipt of a mined transaction, or \<open>None\<close> when it is not mined.\<close>

definition CheckTxWasMined :: "net \<Rightarrow> site \<Rightarrow> hash \<Rightarrow> eth_error + Receipt option" where
  "CheckTxWasMined nt st h = (case TransactionReceipt nt st h of
       Inl EthNotFound \<Rightarrow> Inr None
     | Inl e \<Rightarrow> Inl e
     | Inr r \<Rightarrow> Inr (Some r))"

definition SignTx :: "net \<Rightarrow> address \<Rightarrow> LegacyTx \<Rightarrow> eth_error + LegacyTx" where
  "SignTx nt sender tx = (case n_auth nt sender of None \<Rightarrow> Inl ErrPrivateKeyNotFound | Some signer \<Rightarrow> signer tx)"

definition RevertReason :: "net \<Rightarrow> site \<Rightarrow> LegacyTx option \<Rightarrow> int option \<Rightarrow> eth_error + string" where
  "RevertReason nt st otx blockNumber = (case otx of None \<Rightarrow> Inr []
     | Some tx \<Rightarrow>
        (case (case Sender155 nt tx of Inr a \<Rightarrow> Inr a | Inl _ \<Rightarrow> SenderLatest nt tx) of
           Inl e \<Rightarrow> Inl e
         | Inr a \<Rightarrow>
            (case CallContract nt st \<lparr>cm_From = a, cm_To = tx_To tx, cm_Gas = tx_Gas tx, cm_Value = tx_Value tx,
                                      cm_Data = tx_Data tx\<rparr> blockNumber of
               Inl e \<Rightarrow> Inl e
             | Inr hex \<Rightarrow> (case UnpackRevert nt hex of Inl _ \<Rightarrow> Inl ErrExecutionReverted | Inr s \<Rightarrow> Inr s))))"

definition GetRevertMessage :: "net \<Rightarrow> site \<Rightarrow> LegacyTx option \<Rightarrow> eth_error + string" where
  "GetRevertMessage nt st otx = (case otx of None \<Rightarrow> Inr []
     | Some tx \<Rightarrow> (case GetTxReceipt nt st (n_Hash nt tx) of
          Inl e \<Rightarrow> Inl e
        | Inr r \<Rightarrow> if rc_Status r = ReceiptStatusFailed then RevertReason nt st (Some tx) (rc_BlockNumber r) else Inr []))"

text \<open>\<open>WaitTxToBeMined\<close> of the package \<open>operations\<close> and of the client. The message of the error is cut after the reason.\<close>

definition op_WaitTxToBeMined :: "net \<Rightarrow> LegacyTx \<Rightarrow> eth_error option" where
  "op_WaitTxToBeMined nt tx = (case WaitMined nt tx of
       Inl e \<Rightarrow> Some e
     | Inr r \<Rightarrow>
         if rc_Status r = ReceiptStatusFailed
         then Some (EthError (''transaction has failed, reason: '' @
                (case RevertReason nt AtWait (Some tx) (rc_BlockNumber r) of Inl e \<Rightarrow> eth_error_Error e | Inr s \<Rightarrow> s)))
         else None)"

definition WaitTxToBeMined :: "net \<Rightarrow> LegacyTx \<Rightarrow> eth_error + bool" where
  "WaitTxToBeMined nt tx = (case op_WaitTxToBeMined nt tx of
       Some DeadlineExceeded \<Rightarrow> Inr False
     | Some e \<Rightarrow> Inl e
     | None \<Rightarrow> Inr True)"

section \<open>The suggested price\<close>

record Config =
  ForcedGas :: u64
  GasPriceMarginFactor :: big_float
  MaxGasPriceLimit :: u64

definition adjustedGasPrice :: "Config \<Rightarrow> int \<Rightarrow> int" where
  "adjustedGasPrice cfg gasPrice = int (Float_Int (Float_Mul (Float_SetInt (nat gasPrice)) (GasPriceMarginFactor cfg)))"

definition suggestedGasPrice :: "Config \<Rightarrow> net \<Rightarrow> site \<Rightarrow> eth_error + int" where
  "suggestedGasPrice cfg nt st = (case SuggestedGasPrice nt st of
       Inl e \<Rightarrow> Inl e
     | Inr gasPrice \<Rightarrow> (let p = adjustedGasPrice cfg gasPrice in
         Inr (if 0 < MaxGasPriceLimit cfg \<and> uint (MaxGasPriceLimit cfg) < p then uint (MaxGasPriceLimit cfg) else p)))"

section \<open>Adding a transaction\<close>

datatype client_error = EthermanFailed eth_error | StorageFailed storage_error

definition client_Add ::
  "Config \<Rightarrow> net \<Rightarrow> string \<Rightarrow> string \<Rightarrow> address \<Rightarrow> address option \<Rightarrow> int option \<Rightarrow> bytes option \<Rightarrow> u64 \<Rightarrow> int \<Rightarrow> Row list
    \<Rightarrow> client_error + Row list" where
  "client_Add cfg nt ow i a to' v d gasOffset now rows =
     (case CurrentNonce nt AtAdd a of
        Inl e \<Rightarrow> Inl (EthermanFailed e)
      | Inr nonce \<Rightarrow>
        (case (case EstimateGas nt AtAdd a to' v d of
                 Inr gas \<Rightarrow> Inr gas
               | Inl e \<Rightarrow> if 0 < ForcedGas cfg then Inr (ForcedGas cfg) else Inl e) of
           Inl e \<Rightarrow> Inl (EthermanFailed e)
         | Inr gas \<Rightarrow>
           (case suggestedGasPrice cfg nt AtAdd of
              Inl e \<Rightarrow> Inl (EthermanFailed e)
            | Inr gasPrice \<Rightarrow>
              (let mTx = \<lparr>m_owner = ow, m_id = i, m_from = a, m_to = to', m_nonce = nonce, m_value = v, m_data = d,
                          m_gas = gas, m_gasOffset = gasOffset, m_gasPrice = gasPrice, m_status = MonitoredTxStatusCreated,
                          m_blockNumber = None, m_history = [], m_createdAt = 0, m_updatedAt = 0\<rparr>
               in case n_db nt AtAdd of
                    Some e \<Rightarrow> Inl (StorageFailed e)
                  | None \<Rightarrow> map_sum StorageFailed id (storage_Add mTx now rows)))))"

section \<open>Monitoring a transaction\<close>

datatype effect = StoreUpdate monitoredTx | NetworkSend LegacyTx

text \<open>An update of the table; when it fails, the run logs the error and returns.\<close>

definition update_then :: "net \<Rightarrow> site \<Rightarrow> monitoredTx \<Rightarrow> effect list \<Rightarrow> effect list" where
  "update_then nt st m rest = (case n_db nt st of Some _ \<Rightarrow> [] | None \<Rightarrow> StoreUpdate m # rest)"

record history_check =
  lastReceiptChecked :: Receipt
  confirmed :: bool
  hasFailedReceipts :: bool
  allHistoryTxsWereMined :: bool

fun check_history :: "net \<Rightarrow> hash list \<Rightarrow> history_check \<Rightarrow> history_check" where
  "check_history nt [] c = c"
| "check_history nt (h # hs) c =
     (case CheckTxWasMined nt AtHistory h of
        Inl _ \<Rightarrow> check_history nt hs c
      | Inr None \<Rightarrow> check_history nt hs (c\<lparr>allHistoryTxsWereMined := False\<rparr>)
      | Inr (Some r) \<Rightarrow>
          if rc_Status r = ReceiptStatusSuccessful then c\<lparr>lastReceiptChecked := r, confirmed := True\<rparr>
          else check_history nt hs (c\<lparr>lastReceiptChecked := r, confirmed := False, hasFailedReceipts := True\<rparr>))"

definition history_start :: history_check where
  "history_start = \<lparr>lastReceiptChecked = \<lparr>rc_Status = 0, rc_TxHash = 0, rc_BlockNumber = None\<rparr>, confirmed = False,
     hasFailedReceipts = False, allHistoryTxsWereMined = True\<rparr>"

definition reviewMonitoredTxNonce :: "net \<Rightarrow> monitoredTx \<Rightarrow> eth_error + monitoredTx" where
  "reviewMonitoredTxNonce nt m = (case CurrentNonce nt AtNonce (m_from m) of
       Inl e \<Rightarrow> Inl e
     | Inr nonce \<Rightarrow> Inr (if m_nonce m < nonce then m\<lparr>m_nonce := nonce\<rparr> else m))"

definition reviewMonitoredTx :: "Config \<Rightarrow> net \<Rightarrow> monitoredTx \<Rightarrow> eth_error + monitoredTx" where
  "reviewMonitoredTx cfg nt m = (case EstimateGas nt AtReview (m_from m) (m_to m) (m_value m) (m_data m) of
       Inl e \<Rightarrow> Inl e
     | Inr gas \<Rightarrow>
       (let m1 = (if m_gas m < gas then m\<lparr>m_gas := gas\<rparr> else m) in
        case suggestedGasPrice cfg nt AtReview of
          Inl e \<Rightarrow> Inl e
        | Inr gasPrice \<Rightarrow> Inr (if m_gasPrice m1 < gasPrice then m1\<lparr>m_gasPrice := gasPrice\<rparr> else m1)))"

definition shouldContinueToMonitorThisTx :: "net \<Rightarrow> Receipt \<Rightarrow> bool" where
  "shouldContinueToMonitorThisTx nt r =
     (if rc_Status r = ReceiptStatusSuccessful then False
      else case GetTx nt AtContinue (rc_TxHash r) of
             Inl _ \<Rightarrow> False
           | Inr tx \<Rightarrow> (case GetRevertMessage nt AtContinue (Some tx) of
                Inl e \<Rightarrow> eth_error_Error e = eth_error_Error ErrExecutionReverted
              | Inr _ \<Rightarrow> False))"

text \<open>A successful receipt without a block number is a nil dereference, which the goroutine recovers from.\<close>

definition settle :: "net \<Rightarrow> Receipt \<Rightarrow> monitoredTx \<Rightarrow> effect list" where
  "settle nt r m =
     (if rc_Status r = ReceiptStatusSuccessful
      then (case rc_BlockNumber r of
              None \<Rightarrow> []
            | Some bn \<Rightarrow>
              (case GetLastBlock nt of
                 Inl _ \<Rightarrow> []
               | Inr block \<Rightarrow>
                   if block < big_Uint64 bn then []
                   else update_then nt AtSettle (m\<lparr>m_status := MonitoredTxStatusConfirmed, m_blockNumber := Some bn\<rparr>) []))
      else if shouldContinueToMonitorThisTx nt r then []
      else update_then nt AtSettle (m\<lparr>m_status := MonitoredTxStatusFailed, m_blockNumber := rc_BlockNumber r\<rparr>) [])"

definition wait_mined :: "net \<Rightarrow> LegacyTx \<Rightarrow> monitoredTx \<Rightarrow> effect list" where
  "wait_mined nt signedTx m = (case WaitTxToBeMined nt signedTx of
       Inl _ \<Rightarrow> []
     | Inr mined \<Rightarrow>
         if \<not> mined then []
         else (case GetTxReceipt nt AtReceipt (n_Hash nt signedTx) of Inl _ \<Rightarrow> [] | Inr r \<Rightarrow> settle nt r m))"

definition transmit :: "net \<Rightarrow> LegacyTx \<Rightarrow> monitoredTx \<Rightarrow> effect list" where
  "transmit nt signedTx m = (case GetTx nt AtSend (n_Hash nt signedTx) of
       Inl EthNotFound \<Rightarrow>
         NetworkSend signedTx #
         (case SendTx nt signedTx of
            Some _ \<Rightarrow> []
          | None \<Rightarrow>
              if m_status m = MonitoredTxStatusCreated
              then (let m1 = m\<lparr>m_status := MonitoredTxStatusSent\<rparr> in update_then nt AtSend m1 (wait_mined nt signedTx m1))
              else wait_mined nt signedTx m)
     | _ \<Rightarrow> wait_mined nt signedTx m)"

definition sign_and_send :: "net \<Rightarrow> monitoredTx \<Rightarrow> effect list" where
  "sign_and_send nt m = (case SignTx nt (m_from m) (Tx m) of
       Inl _ \<Rightarrow> []
     | Inr signedTx \<Rightarrow> (case AddHistory (n_Hash nt signedTx) m of
          Inl _ \<Rightarrow> transmit nt signedTx m
        | Inr m1 \<Rightarrow> update_then nt AtAddHistory m1 (transmit nt signedTx m1)))"

definition after_history :: "Config \<Rightarrow> net \<Rightarrow> history_check \<Rightarrow> monitoredTx \<Rightarrow> effect list" where
  "after_history cfg nt c m =
     (if confirmed c then settle nt (lastReceiptChecked c) m
      else if m_status m = MonitoredTxStatusReorged then []
      else if m_status m = MonitoredTxStatusSent
      then (case reviewMonitoredTx cfg nt m of
              Inl _ \<Rightarrow> []
            | Inr m1 \<Rightarrow> update_then nt AtReview m1 (sign_and_send nt m1))
      else sign_and_send nt m)"

definition monitorTx :: "Config \<Rightarrow> net \<Rightarrow> monitoredTx \<Rightarrow> effect list" where
  "monitorTx cfg nt m =
     (let c = check_history nt (n_range nt (m_history m)) history_start in
      if \<not> confirmed c \<and> hasFailedReceipts c \<and> allHistoryTxsWereMined c
      then (case reviewMonitoredTxNonce nt m of
              Inl _ \<Rightarrow> []
            | Inr m1 \<Rightarrow> update_then nt AtNonce m1 (after_history cfg nt c m1))
      else after_history cfg nt c m)"

section \<open>The price\<close>

lemma adjustedGasPrice_exact:
  assumes "GasPriceMarginFactor cfg = (f, e)" "0 \<le> g" "nat g < 2 ^ 53" "nat g * f < 2 ^ 53"
  shows "adjustedGasPrice cfg g = (if 0 \<le> e then g * int f * 2 ^ nat e else g * int f div 2 ^ nat (- e))"
  using assms
  by (simp add: adjustedGasPrice_def Float_SetInt_def Float_Mul_def round_prec_exact Float_Int_def zdiv_int)

section \<open>What a run does\<close>

text \<open>
  What an update may change: the statuses move along the edges, the nonce, the gas and the price
  grow, the history is extended while the transaction is still sent, and a block number comes with
  the final statuses only.
\<close>

definition active :: "MonitoredTxStatus \<Rightarrow> bool" where
  "active s \<longleftrightarrow> s = MonitoredTxStatusCreated \<or> s = MonitoredTxStatusSent"

definition pending :: "MonitoredTxStatus \<Rightarrow> bool" where
  "pending s \<longleftrightarrow> active s \<or> s = MonitoredTxStatusReorged"

fun status_edge :: "MonitoredTxStatus \<Rightarrow> MonitoredTxStatus \<Rightarrow> bool" where
  "status_edge s MonitoredTxStatusConfirmed = (pending s \<or> s = MonitoredTxStatusConfirmed)"
| "status_edge s MonitoredTxStatusFailed = (active s \<or> s = MonitoredTxStatusFailed)"
| "status_edge s MonitoredTxStatusSent = active s"
| "status_edge s s' = (s' = s)"

definition block_ok :: "MonitoredTxStatus \<Rightarrow> 'b option \<Rightarrow> bool" where
  "block_ok s b \<longleftrightarrow> (pending s \<longrightarrow> b = None) \<and> (s = MonitoredTxStatusConfirmed \<longrightarrow> b \<noteq> None)"

definition same_request :: "monitoredTx \<Rightarrow> monitoredTx \<Rightarrow> bool" where
  "same_request m m' \<longleftrightarrow> m_key m' = m_key m \<and> m_from m' = m_from m \<and> m_to m' = m_to m \<and> m_value m' = m_value m \<and>
     m_data m' = m_data m \<and> m_gasOffset m' = m_gasOffset m"

definition update_ok :: "monitoredTx \<Rightarrow> monitoredTx \<Rightarrow> bool" where
  "update_ok m m' \<longleftrightarrow> same_request m m' \<and> m_nonce m \<le> m_nonce m' \<and> m_gas m \<le> m_gas m' \<and>
     m_gasPrice m \<le> m_gasPrice m' \<and> prefix (m_history m) (m_history m') \<and>
     (\<not> active (m_status m) \<longrightarrow> m_history m' = m_history m) \<and> status_edge (m_status m) (m_status m') \<and>
     (block_ok (m_status m) (m_blockNumber m) \<longrightarrow> block_ok (m_status m') (m_blockNumber m'))"

lemma update_ok_refl [simp]: "update_ok m m"
  by (cases "m_status m") (simp_all add: update_ok_def same_request_def active_def)

lemma status_edge_trans: "status_edge s1 s2 \<Longrightarrow> status_edge s2 s3 \<Longrightarrow> status_edge s1 s3"
  by (cases s3; cases s2) (auto simp: pending_def active_def)

lemma status_edge_inactive: "status_edge s s' \<Longrightarrow> active s' \<Longrightarrow> active s"
  by (cases s') (auto simp: active_def)

lemma update_ok_trans: "update_ok m1 m2 \<Longrightarrow> update_ok m2 m3 \<Longrightarrow> update_ok m1 m3"
  unfolding update_ok_def same_request_def
  by (auto intro: status_edge_trans prefix_order.trans order_trans dest: status_edge_inactive)

text \<open>The effects of a run that holds the copy \<open>m\<close>: a transaction is sent when its hash is in the copy that was stored last.\<close>

fun run_ok :: "(LegacyTx \<Rightarrow> hash) \<Rightarrow> monitoredTx \<Rightarrow> effect list \<Rightarrow> bool" where
  "run_ok H m [] = True"
| "run_ok H m (StoreUpdate m' # es) = (update_ok m m' \<and> run_ok H m' es)"
| "run_ok H m (NetworkSend tx # es) = (H tx \<in> set (m_history m) \<and> active (m_status m) \<and> run_ok H m es)"

lemma run_ok_update: "run_ok H m (update_then nt st m' es) \<longleftrightarrow> (n_db nt st = None \<longrightarrow> update_ok m m' \<and> run_ok H m' es)"
  by (auto simp: update_then_def split: option.split)

text \<open>Every update of a run is allowed from its first copy, and what is sent is in the history before.\<close>

lemma run_ok_store: "run_ok H m (es1 @ StoreUpdate m' # es2) \<Longrightarrow> update_ok m m'"
proof (induction es1 arbitrary: m)
  case (Cons a es1)
  then show ?case by (cases a) (auto intro: update_ok_trans)
qed simp

lemma run_ok_send:
  "run_ok H m (es1 @ NetworkSend tx # es2) \<Longrightarrow>
     active (m_status m) \<and> (H tx \<in> set (m_history m) \<or> (\<exists>m'. StoreUpdate m' \<in> set es1 \<and> H tx \<in> set (m_history m')))"
proof (induction es1 arbitrary: m)
  case (Cons a es1)
  then show ?case by (cases a) (auto simp: update_ok_def dest: status_edge_inactive)
qed simp

lemma settle_run_ok:
  assumes "pending (m_status m)" "rc_Status r = ReceiptStatusSuccessful \<or> active (m_status m)"
  shows "run_ok H m (settle nt r m)"
proof -
  have "update_ok m (m\<lparr>m_status := MonitoredTxStatusConfirmed, m_blockNumber := Some b\<rparr>)" for b
    using assms(1) by (simp add: update_ok_def same_request_def m_key_def block_ok_def pending_def active_def)
  moreover have "update_ok m (m\<lparr>m_status := MonitoredTxStatusFailed, m_blockNumber := b\<rparr>)"
    if "active (m_status m)" for b
    using that by (simp add: update_ok_def same_request_def m_key_def block_ok_def pending_def active_def)
  ultimately show ?thesis using assms by (auto simp: settle_def run_ok_update split: option.split sum.split)
qed

lemma wait_mined_run_ok: "active (m_status m) \<Longrightarrow> run_ok H m (wait_mined nt tx m)"
  by (auto simp: wait_mined_def settle_run_ok pending_def split: sum.split)

lemma transmit_run_ok:
  assumes "active (m_status m)" "H tx \<in> set (m_history m)"
  shows "run_ok H m (transmit nt tx m)"
proof -
  have "update_ok m (m\<lparr>m_status := MonitoredTxStatusSent\<rparr>)" if "m_status m = MonitoredTxStatusCreated"
    using that by (simp add: update_ok_def same_request_def m_key_def block_ok_def pending_def active_def)
  moreover have "active MonitoredTxStatusSent" by (simp add: active_def)
  ultimately show ?thesis
    using assms by (auto simp: transmit_def run_ok_update wait_mined_run_ok split: sum.split eth_error.split option.split)
qed

lemma sign_and_send_run_ok:
  assumes "active (m_status m)"
  shows "run_ok (n_Hash nt) m (sign_and_send nt m)"
proof -
  have "update_ok m (m\<lparr>m_history := m_history m @ [h]\<rparr>)" for h
    using assms by (auto simp: update_ok_def same_request_def m_key_def active_def)
  then show ?thesis
    using assms by (auto simp: sign_and_send_def AddHistory_def run_ok_update transmit_run_ok split: sum.split if_split)
qed

lemma reviewMonitoredTx_ok: "reviewMonitoredTx cfg nt m = Inr m' \<Longrightarrow> update_ok m m' \<and> m_status m' = m_status m"
  by (cases "m_status m")
    (auto simp: reviewMonitoredTx_def update_ok_def same_request_def m_key_def active_def split: sum.split_asm if_split_asm)

lemma reviewMonitoredTxNonce_ok: "reviewMonitoredTxNonce nt m = Inr m' \<Longrightarrow> update_ok m m' \<and> m_status m' = m_status m"
  by (cases "m_status m")
    (auto simp: reviewMonitoredTxNonce_def update_ok_def same_request_def m_key_def active_def split: sum.split_asm if_split_asm)

subsection \<open>The walk over the history\<close>

definition receipt_of :: "net \<Rightarrow> hash list \<Rightarrow> Receipt \<Rightarrow> bool" where
  "receipt_of nt hs r \<longleftrightarrow> (\<exists>h\<in>set hs. TransactionReceipt nt AtHistory h = Inr r)"

lemma CheckTxWasMined_Some: "CheckTxWasMined nt st h = Inr (Some r) \<longleftrightarrow> TransactionReceipt nt st h = Inr r"
  by (auto simp: CheckTxWasMined_def split: sum.split eth_error.split)

lemma CheckTxWasMined_None: "CheckTxWasMined nt st h = Inr None \<longleftrightarrow> TransactionReceipt nt st h = Inl EthNotFound"
  by (auto simp: CheckTxWasMined_def split: sum.split eth_error.split)

lemma check_history_confirmed:
  assumes "confirmed (check_history nt hs c)" "\<not> confirmed c"
  shows "rc_Status (lastReceiptChecked (check_history nt hs c)) = ReceiptStatusSuccessful \<and>
    receipt_of nt hs (lastReceiptChecked (check_history nt hs c))"
  using assms
proof (induction hs arbitrary: c)
  case (Cons h hs)
  have mono: "receipt_of nt (h # hs) r" if "receipt_of nt hs r" for r using that by (auto simp: receipt_of_def)
  have here: "receipt_of nt (h # hs) r" if "CheckTxWasMined nt AtHistory h = Inr (Some r)" for r
    using that by (auto simp: receipt_of_def CheckTxWasMined_Some)
  show ?case
  proof (cases "CheckTxWasMined nt AtHistory h")
    case (Inl e)
    then show ?thesis using Cons.IH [of c] Cons.prems mono by simp
  next
    case (Inr o')
    then show ?thesis
      using Cons.IH [of "c\<lparr>allHistoryTxsWereMined := False\<rparr>"] Cons.prems mono here
        Cons.IH [of "c\<lparr>lastReceiptChecked := the o', confirmed := False, hasFailedReceipts := True\<rparr>"]
      by (cases o') (auto split: if_split_asm)
  qed
qed simp

text \<open>
  When the walk ends without a successful receipt, every hash of the history was mined and failed,
  is not mined, or could not be looked up; the flags say which of the first two were seen.
\<close>

lemma check_history_unconfirmed:
  assumes "\<not> confirmed (check_history nt hs c)"
  shows "(\<forall>h\<in>set hs. \<forall>r. TransactionReceipt nt AtHistory h = Inr r \<longrightarrow> rc_Status r \<noteq> ReceiptStatusSuccessful) \<and>
    hasFailedReceipts (check_history nt hs c) = (hasFailedReceipts c \<or> (\<exists>r. receipt_of nt hs r)) \<and>
    allHistoryTxsWereMined (check_history nt hs c) =
      (allHistoryTxsWereMined c \<and> (\<forall>h\<in>set hs. TransactionReceipt nt AtHistory h \<noteq> Inl EthNotFound))"
  using assms
proof (induction hs arbitrary: c)
  case (Cons h hs)
  show ?case
  proof (cases "TransactionReceipt nt AtHistory h")
    case (Inl e)
    then show ?thesis using Cons.IH [of c] Cons.IH [of "c\<lparr>allHistoryTxsWereMined := False\<rparr>"] Cons.prems
      by (cases e) (auto simp: CheckTxWasMined_def receipt_of_def)
  next
    case (Inr r)
    then show ?thesis
      using Cons.IH [of "c\<lparr>lastReceiptChecked := r, confirmed := False, hasFailedReceipts := True\<rparr>"] Cons.prems
      by (auto simp: CheckTxWasMined_def receipt_of_def split: if_split_asm)
  qed
qed (auto simp: receipt_of_def)

lemma after_history_run_ok:
  assumes "confirmed c \<Longrightarrow> rc_Status (lastReceiptChecked c) = ReceiptStatusSuccessful" "pending (m_status m)"
  shows "run_ok (n_Hash nt) m (after_history cfg nt c m)"
  using assms reviewMonitoredTx_ok [of cfg nt m]
  by (auto simp: after_history_def settle_run_ok run_ok_update sign_and_send_run_ok pending_def active_def split: sum.split)

lemma monitorTx_run_ok:
  assumes "pending (m_status m)"
  shows "run_ok (n_Hash nt) m (monitorTx cfg nt m)"
proof -
  let ?c = "check_history nt (n_range nt (m_history m)) history_start"
  have "confirmed ?c \<Longrightarrow> rc_Status (lastReceiptChecked ?c) = ReceiptStatusSuccessful"
    using check_history_confirmed [of nt "n_range nt (m_history m)" history_start] by (simp add: history_start_def)
  from after_history_run_ok [OF this] show ?thesis
    using assms reviewMonitoredTxNonce_ok [of nt m] by (auto simp: monitorTx_def run_ok_update split: sum.split)
qed

subsection \<open>Final statuses\<close>

lemma update_then_in: "StoreUpdate m' \<in> set (update_then nt st m1 es) \<Longrightarrow> m' = m1 \<or> StoreUpdate m' \<in> set es"
  by (auto simp: update_then_def split: option.split_asm)

text \<open>Where the receipt of a final status comes from.\<close>

definition receipt_source :: "net \<Rightarrow> monitoredTx \<Rightarrow> Receipt \<Rightarrow> monitoredTx \<Rightarrow> bool" where
  "receipt_source nt m r m1 \<longleftrightarrow>
     receipt_of nt (n_range nt (m_history m)) r \<and> rc_Status r = ReceiptStatusSuccessful \<and> m_history m1 = m_history m \<or>
     (\<exists>tx. WaitTxToBeMined nt tx = Inr True \<and> TransactionReceipt nt AtReceipt (n_Hash nt tx) = Inr r \<and>
           n_Hash nt tx \<in> set (m_history m1))"

definition settled_by :: "net \<Rightarrow> monitoredTx \<Rightarrow> monitoredTx \<Rightarrow> bool" where
  "settled_by nt m m' \<longleftrightarrow> pending (m_status m') \<or> (\<exists>r m1. receipt_source nt m r m1 \<and> StoreUpdate m' \<in> set (settle nt r m1))"

lemma wait_mined_settled:
  "StoreUpdate m' \<in> set (wait_mined nt tx m1) \<Longrightarrow> n_Hash nt tx \<in> set (m_history m1) \<Longrightarrow> settled_by nt m m'"
  by (fastforce simp: wait_mined_def settled_by_def receipt_source_def GetTxReceipt_def split: sum.split_asm if_split_asm)

lemma transmit_settled:
  assumes "StoreUpdate m' \<in> set (transmit nt tx m1)" "n_Hash nt tx \<in> set (m_history m1)"
  shows "settled_by nt m m'"
proof -
  have "settled_by nt m (m1\<lparr>m_status := MonitoredTxStatusSent\<rparr>)" by (simp add: settled_by_def pending_def active_def)
  then show ?thesis
    using assms wait_mined_settled [of m' nt tx m1] wait_mined_settled [of m' nt tx "m1\<lparr>m_status := MonitoredTxStatusSent\<rparr>"]
    by (auto simp: transmit_def split: sum.split_asm eth_error.split_asm option.split_asm if_split_asm dest: update_then_in)
qed

lemma sign_and_send_settled:
  assumes "StoreUpdate m' \<in> set (sign_and_send nt m1)" "pending (m_status m1)"
  shows "settled_by nt m m'"
proof -
  have "settled_by nt m (m1\<lparr>m_history := hs\<rparr>)" for hs using assms(2) by (simp add: settled_by_def)
  then show ?thesis
    using assms transmit_settled [of m' nt]
    by (fastforce simp: sign_and_send_def AddHistory_def split: sum.split_asm if_split_asm dest: update_then_in)
qed

lemma after_history_settled:
  assumes "StoreUpdate m' \<in> set (after_history cfg nt c m1)" "pending (m_status m1)" "m_history m1 = m_history m"
    and "confirmed c \<Longrightarrow> rc_Status (lastReceiptChecked c) = ReceiptStatusSuccessful \<and>
      receipt_of nt (n_range nt (m_history m)) (lastReceiptChecked c)"
  shows "settled_by nt m m'"
proof (cases "confirmed c")
  case True
  then show ?thesis using assms by (auto simp: after_history_def settled_by_def receipt_source_def)
next
  case False
  show ?thesis
  proof (cases "reviewMonitoredTx cfg nt m1")
    case (Inr m2)
    then have "pending (m_status m2)" using reviewMonitoredTx_ok assms(2) by simp
    then show ?thesis using assms(1,2) False Inr sign_and_send_settled [of m' nt]
      by (auto simp: after_history_def settled_by_def dest: update_then_in split: if_split_asm)
  qed (use assms False sign_and_send_settled [of m' nt m1] in \<open>auto simp: after_history_def split: if_split_asm\<close>)
qed

lemma monitorTx_settled:
  assumes "StoreUpdate m' \<in> set (monitorTx cfg nt m)" "pending (m_status m)"
  shows "settled_by nt m m'"
proof -
  let ?c = "check_history nt (n_range nt (m_history m)) history_start"
  have c: "confirmed ?c \<Longrightarrow> rc_Status (lastReceiptChecked ?c) = ReceiptStatusSuccessful \<and>
      receipt_of nt (n_range nt (m_history m)) (lastReceiptChecked ?c)"
    using check_history_confirmed [of nt _ history_start] by (simp add: history_start_def)
  show ?thesis
  proof (cases "\<not> confirmed ?c \<and> hasFailedReceipts ?c \<and> allHistoryTxsWereMined ?c")
    case False
    then have "monitorTx cfg nt m = after_history cfg nt ?c m" by (auto simp: monitorTx_def)
    then show ?thesis using after_history_settled [OF _ assms(2) refl c] assms(1) by simp
  next
    case True
    show ?thesis
    proof (cases "reviewMonitoredTxNonce nt m")
      case (Inr m1)
      then have m1: "pending (m_status m1)" "m_history m1 = m_history m"
        using assms(2) by (auto simp: reviewMonitoredTxNonce_def split: sum.split_asm if_split_asm)
      have "m' = m1 \<or> StoreUpdate m' \<in> set (after_history cfg nt ?c m1)"
        using assms(1) True Inr by (auto simp: monitorTx_def dest: update_then_in)
      then show ?thesis using m1 after_history_settled [OF _ m1 c] by (auto simp: settled_by_def)
    qed (use assms True in \<open>simp add: monitorTx_def\<close>)
  qed
qed

lemma settle_status:
  assumes "StoreUpdate m' \<in> set (settle nt r m1)"
  shows "m_history m' = m_history m1 \<and>
    (rc_Status r = ReceiptStatusSuccessful \<and> m_status m' = MonitoredTxStatusConfirmed \<and>
      (\<exists>bn block. rc_BlockNumber r = Some bn \<and> m_blockNumber m' = Some bn \<and> GetLastBlock nt = Inr block \<and> big_Uint64 bn \<le> block) \<or>
     rc_Status r \<noteq> ReceiptStatusSuccessful \<and> m_status m' = MonitoredTxStatusFailed)"
  using assms
  by (cases "rc_BlockNumber r"; cases "GetLastBlock nt")
    (auto simp: settle_def not_less dest!: update_then_in split: if_split_asm)

subsection \<open>The nonce\<close>

lemma wait_mined_nonce: "StoreUpdate m' \<in> set (wait_mined nt tx m) \<Longrightarrow> m_nonce m' = m_nonce m"
  by (auto simp: wait_mined_def settle_def dest!: update_then_in split: if_split_asm option.split_asm sum.split_asm)

lemma transmit_nonce: "StoreUpdate m' \<in> set (transmit nt tx m) \<Longrightarrow> m_nonce m' = m_nonce m"
  by (auto simp: transmit_def dest!: update_then_in wait_mined_nonce
      split: if_split_asm option.split_asm sum.split_asm eth_error.split_asm)

lemma sign_and_send_nonce: "StoreUpdate m' \<in> set (sign_and_send nt m) \<Longrightarrow> m_nonce m' = m_nonce m"
  by (auto simp: sign_and_send_def AddHistory_def dest!: update_then_in transmit_nonce split: if_split_asm sum.split_asm)

lemma after_history_nonce:
  assumes "StoreUpdate m' \<in> set (after_history cfg nt c m)"
  shows "m_nonce m' = m_nonce m"
proof -
  have "m_nonce m1 = m_nonce m" if "reviewMonitoredTx cfg nt m = Inr m1" for m1
    using that by (auto simp: reviewMonitoredTx_def split: sum.split_asm if_split_asm)
  moreover have "m_nonce m' = m_nonce m1" if "StoreUpdate m' \<in> set (settle nt r m1)" for r m1
    using that by (auto simp: settle_def dest!: update_then_in split: if_split_asm option.split_asm sum.split_asm)
  ultimately show ?thesis
    using assms by (auto simp: after_history_def dest!: update_then_in sign_and_send_nonce split: if_split_asm sum.split_asm)
qed

section \<open>Properties\<close>

text \<open>
  C10. What one run of \<open>monitorTx\<close> does to a pending transaction, whatever the network, the database and the
  signers answer. Every update it stores keeps the request, raises the nonce, the gas and the price at
  most, extends the history only while the transaction is created or sent, moves the status along the
  edges (a reorganized transaction can only be confirmed) and has a block number only with a final
  status. A signed transaction is sent to the network only after an update that has its hash in the
  history was stored, and never for a reorganized transaction.
\<close>

theorem monitorTx_effects:
  assumes "pending (m_status m)" "block_ok (m_status m) (m_blockNumber m)"
    and "monitorTx cfg nt m = before @ e # after"
  shows "case e of
      StoreUpdate m' \<Rightarrow> same_request m m' \<and> m_nonce m \<le> m_nonce m' \<and> m_gas m \<le> m_gas m' \<and> m_gasPrice m \<le> m_gasPrice m' \<and>
        prefix (m_history m) (m_history m') \<and> (\<not> active (m_status m) \<longrightarrow> m_history m' = m_history m) \<and>
        status_edge (m_status m) (m_status m') \<and> block_ok (m_status m') (m_blockNumber m')
    | NetworkSend tx \<Rightarrow> active (m_status m) \<and>
        (n_Hash nt tx \<in> set (m_history m) \<or> (\<exists>m'. StoreUpdate m' \<in> set before \<and> n_Hash nt tx \<in> set (m_history m')))"
proof -
  have ok: "run_ok (n_Hash nt) m (before @ e # after)" using monitorTx_run_ok [OF assms(1)] assms(3) by metis
  show ?thesis
  proof (cases e)
    case (StoreUpdate m')
    then show ?thesis using run_ok_store [of _ m before m' after] ok assms(2) by (simp add: update_ok_def)
  next
    case (NetworkSend tx)
    then show ?thesis using run_ok_send [of _ m before tx after] ok by simp
  qed
qed

text \<open>
  C21. A transaction is confirmed only when one of the transactions of its history has a successful
  receipt, with the block number of that receipt, and when the state of the node is synchronized up to that block.
\<close>

theorem confirmed_only_when_mined:
  assumes "pending (m_status m)" "\<And>hs. set (n_range nt hs) = set hs"
    and "StoreUpdate m' \<in> set (monitorTx cfg nt m)" "m_status m' = MonitoredTxStatusConfirmed"
  shows "\<exists>h\<in>set (m_history m'). \<exists>st r bn block. TransactionReceipt nt st h = Inr r \<and> rc_Status r = ReceiptStatusSuccessful \<and>
    rc_BlockNumber r = Some bn \<and> m_blockNumber m' = Some bn \<and> GetLastBlock nt = Inr block \<and> big_Uint64 bn \<le> block"
proof -
  have "\<not> pending (m_status m')" using assms(4) by (simp add: pending_def active_def)
  then obtain r m1 where src: "receipt_source nt m r m1" and se: "StoreUpdate m' \<in> set (settle nt r m1)"
    using monitorTx_settled [OF assms(3,1)] by (auto simp: settled_by_def)
  note st = settle_status [OF se]
  have "\<exists>h\<in>set (m_history m'). \<exists>st. TransactionReceipt nt st h = Inr r"
    using src st assms(2) unfolding receipt_source_def receipt_of_def by metis
  then show ?thesis using st assms(4) by fastforce
qed

text \<open>
  The status failed is never stored while receipts do not change: \<open>WaitTxToBeMined\<close> reports a transaction
  that was mined and reverted as an error, on which the run returns, and the receipts of the history
  lead to a status only when they are successful. A reverted transaction is sent again in every cycle.
\<close>

theorem failed_is_never_stored:
  assumes "pending (m_status m)"
    and "\<And>tx r. WaitMined nt tx = Inr r \<Longrightarrow> TransactionReceipt nt AtReceipt (n_Hash nt tx) = Inr r"
    and "\<And>tx r. WaitMined nt tx = Inr r \<Longrightarrow> rc_Status r \<in> {ReceiptStatusFailed, ReceiptStatusSuccessful}"
  shows "StoreUpdate m' \<in> set (monitorTx cfg nt m) \<Longrightarrow> m_status m' \<noteq> MonitoredTxStatusFailed"
proof
  assume a: "StoreUpdate m' \<in> set (monitorTx cfg nt m)" "m_status m' = MonitoredTxStatusFailed"
  then have "\<not> pending (m_status m')" by (simp add: pending_def active_def)
  then obtain r m1 where src: "receipt_source nt m r m1" and se: "StoreUpdate m' \<in> set (settle nt r m1)"
    using monitorTx_settled [OF a(1) assms(1)] by (auto simp: settled_by_def)
  have f: "rc_Status r \<noteq> ReceiptStatusSuccessful" using settle_status [OF se] a(2) by auto
  then obtain tx where w: "WaitTxToBeMined nt tx = Inr True" "TransactionReceipt nt AtReceipt (n_Hash nt tx) = Inr r"
    using src by (auto simp: receipt_source_def)
  then obtain r' where r': "WaitMined nt tx = Inr r'" "rc_Status r' \<noteq> ReceiptStatusFailed"
    by (auto simp: WaitTxToBeMined_def op_WaitTxToBeMined_def split: sum.split_asm if_split_asm eth_error.split_asm option.split_asm)
  then show False using assms(2,3) w(2) f by fastforce
qed

text \<open>
  The nonce of a pending transaction changes only when no transaction of the history was successful,
  at least one was mined and failed, and every other one was mined and failed too or could not be
  looked up.
\<close>

theorem nonce_changes_after_failures:
  assumes "StoreUpdate m' \<in> set (monitorTx cfg nt m)" "m_nonce m' \<noteq> m_nonce m" "\<And>hs. set (n_range nt hs) = set hs"
  shows "(\<exists>h\<in>set (m_history m). \<exists>r. TransactionReceipt nt AtHistory h = Inr r) \<and>
    (\<forall>h\<in>set (m_history m). case TransactionReceipt nt AtHistory h of
       Inl e \<Rightarrow> e \<noteq> EthNotFound | Inr r \<Rightarrow> rc_Status r \<noteq> ReceiptStatusSuccessful)"
proof -
  let ?c = "check_history nt (n_range nt (m_history m)) history_start"
  have "\<not> confirmed ?c \<and> hasFailedReceipts ?c \<and> allHistoryTxsWereMined ?c"
    using assms(1,2) after_history_nonce [of m' cfg nt ?c m] by (auto simp: monitorTx_def split: if_split_asm)
  then show ?thesis using check_history_unconfirmed [of nt "n_range nt (m_history m)" history_start] assms(3)
    by (auto simp: history_start_def receipt_of_def split: sum.split)
qed

text \<open>
  A transaction of the history that could not be looked up counts as mined: when another one failed, the
  nonce is raised to that of the account, although the first may still be waiting to be mined, and
  the same data goes out with two nonces.
\<close>

theorem lookup_error_raises_nonce:
  assumes "h1 \<in> set (m_history m)" "TransactionReceipt nt AtHistory h1 = Inr r"
    and "h2 \<in> set (m_history m)" "TransactionReceipt nt AtHistory h2 = Inl e" "e \<noteq> EthNotFound"
    and "\<And>h. h \<in> set (m_history m) \<Longrightarrow> case TransactionReceipt nt AtHistory h of
       Inl e \<Rightarrow> e \<noteq> EthNotFound | Inr r \<Rightarrow> rc_Status r \<noteq> ReceiptStatusSuccessful"
    and "\<And>hs. set (n_range nt hs) = set hs" "NonceAt nt AtNonce (m_from m) = Inr n" "m_nonce m < n" "n_db nt AtNonce = None"
  shows "\<exists>rest. monitorTx cfg nt m = StoreUpdate (m\<lparr>m_nonce := n\<rparr>) # rest"
proof -
  let ?c = "check_history nt (n_range nt (m_history m)) history_start"
  have nc: "\<not> confirmed ?c"
  proof
    assume "confirmed ?c"
    then show False using check_history_confirmed [of nt "n_range nt (m_history m)" history_start] assms(6,7)
      by (fastforce simp: history_start_def receipt_of_def split: sum.split_asm)
  qed
  have "hasFailedReceipts ?c" "allHistoryTxsWereMined ?c"
    using check_history_unconfirmed [OF nc] assms(1,2,6,7) by (fastforce simp: history_start_def receipt_of_def)+
  then show ?thesis using nc assms(8-10) by (simp add: monitorTx_def reviewMonitoredTxNonce_def CurrentNonce_def update_then_def)
qed

text \<open>
  The price of a transaction: the highest price of the providers times the margin factor, truncated
  to an integer and cut at the configured limit. The factor is \<open>f * 2 ^ e\<close>, as a \<open>float64\<close> is; the product is
  exact when it needs at most 53 bits.
\<close>

theorem suggestedGasPrice_correct:
  assumes "suggestedGasPrice cfg nt st = Inr p" "GasPriceMarginFactor cfg = (f, e)"
    and "GetL1GasPrice nt st < 2 ^ 53" "GetL1GasPrice nt st * int f < 2 ^ 53"
  shows "(\<forall>a. Inr a \<in> set (SuggestGasPrice nt st) \<longrightarrow> a \<le> GetL1GasPrice nt st) \<and> Inr (GetL1GasPrice nt st) \<in> set (SuggestGasPrice nt st) \<and>
    (let product = (if 0 \<le> e then GetL1GasPrice nt st * int f * 2 ^ nat e else GetL1GasPrice nt st * int f div 2 ^ nat (- e))
     in p = (if MaxGasPriceLimit cfg = 0 then product else min product (uint (MaxGasPriceLimit cfg))))"
proof -
  let ?F = "foldl (\<lambda>p a. case a of Inl _ \<Rightarrow> p | Inr gp \<Rightarrow> if p < gp then gp else p)"
  have top: "(\<forall>a. Inr a \<in> set as \<longrightarrow> a \<le> ?F b as) \<and> b \<le> ?F b as \<and> (?F b as = b \<or> Inr (?F b as) \<in> set as)"
    for as and b :: int
  proof (induction as arbitrary: b)
    case (Cons a as)
    show ?case using Cons.IH [of "case a of Inl _ \<Rightarrow> b | Inr gp \<Rightarrow> if b < gp then gp else b"]
      by (cases a) (fastforce split: if_split_asm)+
  qed simp
  let ?g = "GetL1GasPrice nt st"
  have g: "?g \<noteq> 0" "0 \<le> ?g" "\<forall>a. Inr a \<in> set (SuggestGasPrice nt st) \<longrightarrow> a \<le> ?g" "?g = 0 \<or> Inr ?g \<in> set (SuggestGasPrice nt st)"
    using top [of "SuggestGasPrice nt st" 0] assms(1)
    by (auto simp: suggestedGasPrice_def SuggestedGasPrice_def GetL1GasPrice_def split: if_split_asm)
  have "nat ?g * f < 2 ^ 53" using assms(4) g(2) by (simp add: nat_mult_distrib flip: nat_less_eq_zless zless_nat_eq_int_zless)
  then have "adjustedGasPrice cfg ?g = (if 0 \<le> e then ?g * int f * 2 ^ nat e else ?g * int f div 2 ^ nat (- e))"
    using adjustedGasPrice_exact [OF assms(2) g(2)] assms(3) by simp
  then show ?thesis using assms(1) g by (auto simp: suggestedGasPrice_def SuggestedGasPrice_def min_def word_gt_0)
qed

text \<open>A network, a database and a signer that answer every call of a run, and mine what is sent.\<close>

definition responsive :: "net \<Rightarrow> address \<Rightarrow> bool" where
  "responsive nt a \<longleftrightarrow> (\<forall>st. n_db nt st = None) \<and> (\<exists>n. NonceAt nt AtNonce a = Inr n) \<and>
     (\<forall>t v d. \<exists>g. n_EstimateGas nt AtReview a t v d = Inr g) \<and> GetL1GasPrice nt AtReview \<noteq> 0 \<and>
     (\<exists>signer. n_auth nt a = Some signer \<and> (\<forall>tx. \<exists>stx. signer tx = Inr stx)) \<and>
     (\<forall>tx. SendTransaction nt tx = None) \<and>
     (\<forall>tx. \<exists>r. WaitMined nt tx = Inr r \<and> rc_Status r = ReceiptStatusSuccessful) \<and>
     (\<forall>h. \<exists>r. TransactionReceipt nt AtReceipt h = Inr r \<and> rc_Status r = ReceiptStatusSuccessful) \<and>
     (\<exists>block. GetLastBlock nt = Inr block \<and> (\<forall>st h r. TransactionReceipt nt st h = Inr r \<longrightarrow> rc_Status r = ReceiptStatusSuccessful \<longrightarrow>
        (\<exists>bn. rc_BlockNumber r = Some bn \<and> big_Uint64 bn \<le> block)))"

definition ends_confirmed :: "effect list \<Rightarrow> bool" where
  "ends_confirmed es \<longleftrightarrow> (\<exists>m'. es \<noteq> [] \<and> last es = StoreUpdate m' \<and> m_status m' = MonitoredTxStatusConfirmed)"

lemma ends_confirmed_Cons: "ends_confirmed es \<Longrightarrow> ends_confirmed (e # es)"
  by (auto simp: ends_confirmed_def)

lemma ends_confirmed_update: "responsive nt a \<Longrightarrow> ends_confirmed es \<Longrightarrow> ends_confirmed (update_then nt st m es)"
  by (simp add: update_then_def responsive_def ends_confirmed_Cons)

lemma settle_confirms:
  assumes "responsive nt a" "TransactionReceipt nt st h = Inr r" "rc_Status r = ReceiptStatusSuccessful"
  shows "ends_confirmed (settle nt r m)"
proof -
  obtain block bn where "GetLastBlock nt = Inr block" "rc_BlockNumber r = Some bn" "big_Uint64 bn \<le> block" "n_db nt AtSettle = None"
    using assms unfolding responsive_def by meson
  then show ?thesis using assms(3) by (simp add: settle_def update_then_def ends_confirmed_def)
qed

lemma wait_mined_confirms:
  assumes "responsive nt a"
  shows "ends_confirmed (wait_mined nt tx m)"
proof -
  obtain r r' where r: "TransactionReceipt nt AtReceipt (n_Hash nt tx) = Inr r" "rc_Status r = ReceiptStatusSuccessful"
      and w: "WaitMined nt tx = Inr r'" "rc_Status r' = ReceiptStatusSuccessful"
    using assms unfolding responsive_def by meson
  then show ?thesis using settle_confirms [OF assms r]
    by (simp add: wait_mined_def WaitTxToBeMined_def op_WaitTxToBeMined_def GetTxReceipt_def ReceiptStatusSuccessful_def ReceiptStatusFailed_def)
qed

lemma transmit_confirms: "responsive nt a \<Longrightarrow> ends_confirmed (transmit nt tx m)"
proof -
  assume r: "responsive nt a"
  then have "SendTx nt tx = None" by (simp add: responsive_def SendTx_def)
  then show ?thesis
    by (auto simp: transmit_def split: sum.split eth_error.split
        intro!: ends_confirmed_Cons ends_confirmed_update [OF r] wait_mined_confirms [OF r])
qed

lemma sign_and_send_confirms: "responsive nt (m_from m) \<Longrightarrow> ends_confirmed (sign_and_send nt m)"
proof -
  assume r: "responsive nt (m_from m)"
  then obtain signer where "n_auth nt (m_from m) = Some signer" "\<And>tx. \<exists>stx. signer tx = Inr stx"
    unfolding responsive_def by meson
  then obtain stx where "SignTx nt (m_from m) (Tx m) = Inr stx" by (auto simp: SignTx_def)
  then show ?thesis
    by (auto simp: sign_and_send_def split: sum.split intro!: ends_confirmed_update [OF r] transmit_confirms [OF r])
qed

lemma after_history_confirms:
  assumes r: "responsive nt (m_from m)" and "active (m_status m)"
    and c: "confirmed c \<Longrightarrow> rc_Status (lastReceiptChecked c) = ReceiptStatusSuccessful \<and> receipt_of nt hs (lastReceiptChecked c)"
  shows "ends_confirmed (after_history cfg nt c m)"
proof (cases "confirmed c")
  case True
  then show ?thesis using c settle_confirms [OF r] by (auto simp: after_history_def receipt_of_def)
next
  case False
  obtain g where "EstimateGas nt AtReview (m_from m) (m_to m) (m_value m) (m_data m) = Inr g" "GetL1GasPrice nt AtReview \<noteq> 0"
    using r unfolding responsive_def EstimateGas_def by meson
  then obtain m1 where m1: "reviewMonitoredTx cfg nt m = Inr m1"
    by (auto simp: reviewMonitoredTx_def suggestedGasPrice_def SuggestedGasPrice_def)
  then have "m_from m1 = m_from m" using reviewMonitoredTx_ok [OF m1] by (simp add: update_ok_def same_request_def)
  then show ?thesis using False assms(2) m1 r
    by (auto simp: after_history_def active_def intro!: ends_confirmed_update [OF r] sign_and_send_confirms)
qed

text \<open>
  C22. Progress: when the network, the database and the signer answer the calls of a run and the network
  mines what is sent, the run ends with the transaction stored as confirmed, whatever its history was.
\<close>

theorem monitorTx_confirms:
  assumes "active (m_status m)" "responsive nt (m_from m)"
  shows "\<exists>m'. monitorTx cfg nt m \<noteq> [] \<and> last (monitorTx cfg nt m) = StoreUpdate m' \<and> m_status m' = MonitoredTxStatusConfirmed"
proof -
  let ?c = "check_history nt (n_range nt (m_history m)) history_start"
  note c = check_history_confirmed [of nt "n_range nt (m_history m)" history_start]
  obtain n where "NonceAt nt AtNonce (m_from m) = Inr n" using assms(2) by (auto simp: responsive_def)
  then obtain m1 where m1: "reviewMonitoredTxNonce nt m = Inr m1" by (simp add: reviewMonitoredTxNonce_def CurrentNonce_def)
  then have s: "m_from m1 = m_from m" "m_status m1 = m_status m"
    using reviewMonitoredTxNonce_ok [OF m1] by (auto simp: update_ok_def same_request_def)
  have "ends_confirmed (after_history cfg nt ?c m)" "ends_confirmed (after_history cfg nt ?c m1)"
    using after_history_confirms [of nt m ?c] after_history_confirms [of nt m1 ?c] assms s c by (auto simp: history_start_def)
  then have "ends_confirmed (monitorTx cfg nt m)"
    using m1 ends_confirmed_update [OF assms(2)] by (simp add: monitorTx_def)
  then show ?thesis by (simp add: ends_confirmed_def)
qed

section \<open>Instances\<close>

definition sample_cfg :: Config where
  "sample_cfg = \<lparr>ForcedGas = 0, GasPriceMarginFactor = (3, - 1), MaxGasPriceLimit = 140\<rparr>"

definition sample_receipt :: "u64 \<Rightarrow> Receipt" where
  "sample_receipt status = \<lparr>rc_Status = status, rc_TxHash = 7, rc_BlockNumber = Some 20\<rparr>"

text \<open>A network that mines what it gets. The hash of a transaction is its nonce; two prices are suggested.\<close>

definition sample_net :: net where
  "sample_net = \<lparr>n_Hash = (\<lambda>tx. ucast (tx_Nonce tx)), n_range = (\<lambda>hs. hs), TransactionByHash = (\<lambda>_ _. Inl EthNotFound),
     TransactionReceipt = (\<lambda>st h. if st = AtReceipt then Inr (sample_receipt 1) else Inl EthNotFound),
     WaitMined = (\<lambda>_. Inr (sample_receipt 1)), SendTransaction = (\<lambda>_. None), NonceAt = (\<lambda>_ _. Inr 9),
     SuggestGasPrice = (\<lambda>_. [Inr 80, Inl DeadlineExceeded, Inr 101]), n_EstimateGas = (\<lambda>_ _ _ _ _. Inr 21000),
     n_auth = (\<lambda>_. Some Inr), Sender155 = (\<lambda>_. Inr 1), SenderLatest = (\<lambda>_. Inr 1), CallContract = (\<lambda>_ _ _. Inr []),
     UnpackRevert = (\<lambda>_. Inr []), GetLastBlock = Inr 25, n_db = (\<lambda>_. None)\<rparr>"

text \<open>The same network when the transaction \<open>5\<close> was mined and failed and \<open>6\<close> cannot be looked up.\<close>

definition failing_net :: net where
  "failing_net = sample_net\<lparr>TransactionReceipt := (\<lambda>st h. if st = AtHistory \<and> h = 5 then Inr (sample_receipt 0)
     else if st = AtHistory \<and> h = 6 then Inl DeadlineExceeded else Inl EthNotFound)\<rparr>"

definition sample_mtx :: "MonitoredTxStatus \<Rightarrow> hash list \<Rightarrow> monitoredTx" where
  "sample_mtx status hs = \<lparr>m_owner = ''sequencer'', m_id = ''a'', m_from = 1, m_to = Some 2, m_nonce = 5, m_value = Some 0,
     m_data = Some [1, 2], m_gas = 100, m_gasOffset = 10, m_gasPrice = 50, m_status = status, m_blockNumber = None,
     m_history = hs, m_createdAt = 0, m_updatedAt = 0\<rparr>"

lemma sample_mtx_simps [simp]:
  "m_status (sample_mtx st hs) = st" "m_history (sample_mtx st hs) = hs" "m_from (sample_mtx st hs) = 1"
  "m_nonce (sample_mtx st hs) = 5" "m_blockNumber (sample_mtx st hs) = None"
  by (simp_all add: sample_mtx_def)

text \<open>The run for a transaction that was just created: recorded, sent, confirmed.\<close>

lemma sample_run:
  "monitorTx sample_cfg sample_net (sample_mtx MonitoredTxStatusCreated []) =
    [StoreUpdate (sample_mtx MonitoredTxStatusCreated [5]), NetworkSend (Tx (sample_mtx MonitoredTxStatusCreated [5])),
     StoreUpdate (sample_mtx MonitoredTxStatusSent [5]),
     StoreUpdate (sample_mtx MonitoredTxStatusConfirmed [5]\<lparr>m_blockNumber := Some 20\<rparr>)]"
  by (simp add: monitorTx_def history_start_def after_history_def sign_and_send_def SignTx_def sample_net_def Tx_def
      sample_mtx_def AddHistory_def update_then_def transmit_def GetTx_def SendTx_def wait_mined_def WaitTxToBeMined_def
      op_WaitTxToBeMined_def sample_receipt_def ReceiptStatusFailed_def GetTxReceipt_def settle_def
      ReceiptStatusSuccessful_def big_Uint64_def)

theorem monitorTx_effects_witness:
  "active MonitoredTxStatusCreated \<and>
     (5 \<in> set ([] :: hash list) \<or> (\<exists>m'. StoreUpdate m' \<in> set [StoreUpdate (sample_mtx MonitoredTxStatusCreated [5])] \<and> 5 \<in> set (m_history m')))"
proof -
  have split: "monitorTx sample_cfg sample_net (sample_mtx MonitoredTxStatusCreated []) =
      [StoreUpdate (sample_mtx MonitoredTxStatusCreated [5])] @ NetworkSend (Tx (sample_mtx MonitoredTxStatusCreated [5])) #
      [StoreUpdate (sample_mtx MonitoredTxStatusSent [5]),
       StoreUpdate (sample_mtx MonitoredTxStatusConfirmed [5]\<lparr>m_blockNumber := Some 20\<rparr>)]"
    by (simp add: sample_run)
  have "n_Hash sample_net (Tx (sample_mtx MonitoredTxStatusCreated [5])) = 5"
    by (simp add: sample_net_def Tx_def)
  then show ?thesis
    using monitorTx_effects [OF _ _ split] by (simp add: pending_def active_def block_ok_def)
qed

theorem confirmed_only_when_mined_witness:
  "\<exists>h\<in>set [5]. \<exists>st r bn block. TransactionReceipt sample_net st h = Inr r \<and> rc_Status r = ReceiptStatusSuccessful \<and>
    rc_BlockNumber r = Some bn \<and> Some 20 = Some bn \<and> GetLastBlock sample_net = Inr block \<and> big_Uint64 bn \<le> block"
  using confirmed_only_when_mined [of "sample_mtx MonitoredTxStatusCreated []" sample_net
      "sample_mtx MonitoredTxStatusConfirmed [5]\<lparr>m_blockNumber := Some 20\<rparr>" sample_cfg]
  unfolding sample_run by (simp add: pending_def active_def sample_net_def)

theorem failed_is_never_stored_witness:
  "StoreUpdate (sample_mtx MonitoredTxStatusSent [5]) \<in> set (monitorTx sample_cfg sample_net (sample_mtx MonitoredTxStatusCreated [])) \<and>
     m_status (sample_mtx MonitoredTxStatusSent [5]) \<noteq> MonitoredTxStatusFailed"
proof -
  have "StoreUpdate (sample_mtx MonitoredTxStatusSent [5]) \<in> set (monitorTx sample_cfg sample_net (sample_mtx MonitoredTxStatusCreated []))"
    by (simp add: sample_run)
  moreover from this have "m_status (sample_mtx MonitoredTxStatusSent [5]) \<noteq> MonitoredTxStatusFailed"
    by (rule failed_is_never_stored [rotated 3])
      (auto simp: pending_def active_def sample_net_def sample_receipt_def ReceiptStatusSuccessful_def)
  ultimately show ?thesis by blast
qed

lemma failing_run:
  "\<exists>rest. monitorTx sample_cfg failing_net (sample_mtx MonitoredTxStatusSent [5, 6]) =
     StoreUpdate (sample_mtx MonitoredTxStatusSent [5, 6]\<lparr>m_nonce := 9\<rparr>) # rest"
  by (simp add: monitorTx_def history_start_def failing_net_def sample_net_def CheckTxWasMined_def sample_receipt_def
      ReceiptStatusSuccessful_def reviewMonitoredTxNonce_def CurrentNonce_def update_then_def)

theorem lookup_error_raises_nonce_witness:
  "TransactionReceipt failing_net AtHistory 6 = Inl DeadlineExceeded \<and>
   (\<exists>rest. monitorTx sample_cfg failing_net (sample_mtx MonitoredTxStatusSent [5, 6]) =
     StoreUpdate (sample_mtx MonitoredTxStatusSent [5, 6]\<lparr>m_nonce := 9\<rparr>) # rest)"
proof
  show "\<exists>rest. monitorTx sample_cfg failing_net (sample_mtx MonitoredTxStatusSent [5, 6]) =
     StoreUpdate (sample_mtx MonitoredTxStatusSent [5, 6]\<lparr>m_nonce := 9\<rparr>) # rest"
    by (rule lookup_error_raises_nonce [where ?h1.0 = 5 and ?h2.0 = 6 and r = "sample_receipt 0" and e = DeadlineExceeded])
      (auto simp: failing_net_def sample_net_def sample_receipt_def ReceiptStatusSuccessful_def)
qed (simp add: failing_net_def)

theorem nonce_changes_after_failures_witness:
  "\<exists>h\<in>set [5, 6]. \<exists>r. TransactionReceipt failing_net AtHistory h = Inr r"
proof -
  obtain rest where "monitorTx sample_cfg failing_net (sample_mtx MonitoredTxStatusSent [5, 6]) =
     StoreUpdate (sample_mtx MonitoredTxStatusSent [5, 6]\<lparr>m_nonce := 9\<rparr>) # rest" using failing_run by blast
  then have "StoreUpdate (sample_mtx MonitoredTxStatusSent [5, 6]\<lparr>m_nonce := 9\<rparr>) \<in>
      set (monitorTx sample_cfg failing_net (sample_mtx MonitoredTxStatusSent [5, 6]))" by simp
  from nonce_changes_after_failures [OF this] show ?thesis by (simp add: failing_net_def sample_net_def)
qed

theorem suggestedGasPrice_correct_witness:
  "suggestedGasPrice sample_cfg sample_net AtAdd = Inr 140 \<and> (140 :: int) = min (101 * 3 div 2) 140 \<and> GetL1GasPrice sample_net AtAdd = 101"
proof -
  have g: "GetL1GasPrice sample_net AtAdd = 101" by (simp add: GetL1GasPrice_def sample_net_def)
  have a: "adjustedGasPrice sample_cfg 101 = 151" using adjustedGasPrice_exact [of sample_cfg 3 "- 1" 101] by (simp add: sample_cfg_def)
  have s: "suggestedGasPrice sample_cfg sample_net AtAdd = Inr 140"
    using a by (simp add: suggestedGasPrice_def SuggestedGasPrice_def g) (simp add: sample_cfg_def)
  show ?thesis using suggestedGasPrice_correct [OF s, of 3 "- 1"] s g by (simp add: sample_cfg_def)
qed

theorem monitorTx_confirms_witness:
  "\<exists>m'. monitorTx sample_cfg sample_net (sample_mtx MonitoredTxStatusSent [4]) \<noteq> [] \<and>
    last (monitorTx sample_cfg sample_net (sample_mtx MonitoredTxStatusSent [4])) = StoreUpdate m' \<and>
    m_status m' = MonitoredTxStatusConfirmed"
proof (rule monitorTx_confirms)
  have "GetL1GasPrice sample_net AtReview = 101" by (simp add: GetL1GasPrice_def sample_net_def)
  then show "responsive sample_net (m_from (sample_mtx MonitoredTxStatusSent [4]))"
    unfolding responsive_def by (auto simp: sample_net_def sample_receipt_def ReceiptStatusSuccessful_def big_Uint64_def)
qed (simp add: active_def)

end
