(* ===== verification/EthTxRuns.thy ===== *)
theory EthTxRuns
  imports EthTxManager
begin

text \<open>
  The transaction manager in operation: cycles of \<open>monitorTxs\<close> with one goroutine for each pending
  transaction, \<open>Add\<close>, \<open>Reorg\<close> and \<open>setStatusDone\<close>, interleaved at every access to the table, and crashes.
  A goroutine keeps the copy of its transaction that it read at the start of the cycle, so another
  writer may have changed the row in between. The properties: every transaction that was sent is in the
  history of its row, in every reachable state; a transaction that left the statuses created and sent is
  never sent again; and a reorganization is lost when it falls between two steps of
  \<open>setStatusDone\<close>.
\<close>

section \<open>Operations\<close>

definition statusesFilter :: "MonitoredTxStatus list" where
  "statusesFilter = [MonitoredTxStatusCreated, MonitoredTxStatusSent, MonitoredTxStatusReorged]"

text \<open>A goroutine: its copy of the transaction as it stored it last, and the effects it still has to do.\<close>

type_synonym goroutine = "monitoredTx \<times> effect list"

definition monitorTxs :: "Config \<Rightarrow> (monitoredTx \<Rightarrow> net) \<Rightarrow> Row list \<Rightarrow> storage_error + goroutine list" where
  "monitorTxs cfg nets rows = (case GetByStatus None statusesFilter rows of
       Inl e \<Rightarrow> Inl e
     | Inr mTxs \<Rightarrow> Inr (map (\<lambda>mTx. (mTx, monitorTx cfg (nets mTx) mTx)) mTxs))"

text \<open>\<open>Reorg\<close> runs inside a database transaction that its caller rolls back when it returns an error.\<close>

fun reorg_loop :: "(monitoredTx \<Rightarrow> storage_error option) \<Rightarrow> int \<Rightarrow> monitoredTx list \<Rightarrow> Row list \<Rightarrow> storage_error + Row list" where
  "reorg_loop db now [] rows = Inr rows"
| "reorg_loop db now (m # ms) rows =
     (let m1 = m\<lparr>m_blockNumber := None, m_status := MonitoredTxStatusReorged\<rparr> in
      case db m1 of Some e \<Rightarrow> Inl e | None \<Rightarrow> reorg_loop db now ms (storage_Update m1 now rows))"

definition client_Reorg :: "(monitoredTx \<Rightarrow> storage_error option) \<Rightarrow> u64 \<Rightarrow> int \<Rightarrow> Row list \<Rightarrow> storage_error + Row list" where
  "client_Reorg db fromBlockNumber now rows = (case GetByBlock (Some fromBlockNumber) None rows of
       Inl e \<Rightarrow> Inl e
     | Inr mTxs \<Rightarrow> reorg_loop db now mTxs rows)"

text \<open>\<open>setStatusDone\<close> reads the row and stores its copy later, which may fail.\<close>

definition setStatusDone :: "string \<Rightarrow> string \<Rightarrow> Row list \<Rightarrow> storage_error + monitoredTx" where
  "setStatusDone ow i rows = (case storage_Get ow i rows of
       Inl e \<Rightarrow> Inl e
     | Inr m \<Rightarrow> Inr (m\<lparr>m_status := MonitoredTxStatusDone\<rparr>))"

section \<open>The system\<close>

record system =
  sy_rows :: "Row list"
  sy_runs :: "goroutine list"
  sy_seen :: "mtx_key list"
  sy_done :: "monitoredTx list"
  sy_sent :: "(mtx_key \<times> LegacyTx) list"

definition system_start :: system where
  "system_start = \<lparr>sy_rows = [], sy_runs = [], sy_seen = [], sy_done = [], sy_sent = []\<rparr>"

text \<open>
  The steps. \<open>sy_seen\<close> holds the keys that \<open>ProcessPendingMonitoredTxs\<close> read as confirmed, \<open>sy_done\<close> the
  copies \<open>setStatusDone\<close> has read and not stored yet. A cycle begins when the goroutines of the last
  one have ended; \<open>H\<close> is the hash of a transaction. A crash loses what is not in the table.
\<close>

inductive etm_step :: "(LegacyTx \<Rightarrow> hash) \<Rightarrow> system \<Rightarrow> system \<Rightarrow> bool" for H where
  add: "client_Add cfg nt ow i a to' v d off now (sy_rows s) = Inr rows \<Longrightarrow> etm_step H s (s\<lparr>sy_rows := rows\<rparr>)"
| cycle: "list_all (\<lambda>g. snd g = []) (sy_runs s) \<Longrightarrow> (\<And>m. n_Hash (nets m) = H) \<Longrightarrow> monitorTxs cfg nets (sy_rows s) = Inr gs \<Longrightarrow>
    etm_step H s (s\<lparr>sy_runs := gs\<rparr>)"
| store: "j < length (sy_runs s) \<Longrightarrow> sy_runs s ! j = (m, StoreUpdate m' # es) \<Longrightarrow>
    etm_step H s (s\<lparr>sy_rows := storage_Update m' now (sy_rows s), sy_runs := (sy_runs s)[j := (m', es)]\<rparr>)"
| send: "j < length (sy_runs s) \<Longrightarrow> sy_runs s ! j = (m, NetworkSend tx # es) \<Longrightarrow>
    etm_step H s (s\<lparr>sy_sent := (m_key m, tx) # sy_sent s, sy_runs := (sy_runs s)[j := (m, es)]\<rparr>)"
| reorg: "client_Reorg db b now (sy_rows s) = Inr rows \<Longrightarrow> etm_step H s (s\<lparr>sy_rows := rows\<rparr>)"
| confirmed: "GetByStatus (Some ow) sts (sy_rows s) = Inr ms \<Longrightarrow> m \<in> set ms \<Longrightarrow> m_status m = MonitoredTxStatusConfirmed \<Longrightarrow>
    etm_step H s (s\<lparr>sy_seen := (ow, m_id m) # sy_seen s\<rparr>)"
| done_read: "(ow, i) \<in> set (sy_seen s) \<Longrightarrow> setStatusDone ow i (sy_rows s) = Inr m \<Longrightarrow>
    etm_step H s (s\<lparr>sy_done := m # sy_done s\<rparr>)"
| done_write: "m \<in> set (sy_done s) \<Longrightarrow>
    etm_step H s (s\<lparr>sy_rows := storage_Update m now (sy_rows s), sy_done := remove1 m (sy_done s)\<rparr>)"
| crash: "etm_step H s (s\<lparr>sy_runs := [], sy_seen := [], sy_done := []\<rparr>)"

inductive reached :: "(LegacyTx \<Rightarrow> hash) \<Rightarrow> system \<Rightarrow> system \<Rightarrow> bool" for H where
  here: "reached H s s"
| more: "reached H s s' \<Longrightarrow> etm_step H s' s'' \<Longrightarrow> reached H s s''"

lemma reached_trans: "reached H s1 s2 \<Longrightarrow> reached H s2 s3 \<Longrightarrow> reached H s1 s3"
  by (rotate_tac 1, induction rule: reached.induct) (auto intro: reached.more)

section \<open>The invariant\<close>

text \<open>How the row of a key may differ from a copy that a writer holds: not at all in the history, and a
  copy that is still being sent has the status of its row.\<close>

definition agrees :: "monitoredTx \<Rightarrow> Row \<Rightarrow> bool" where
  "agrees m r \<longleftrightarrow> r_history r = m_history m \<and> active (r_status r) = active (m_status m) \<and>
     block_ok (m_status m) (m_blockNumber m)"

definition settled_at :: "Row list \<Rightarrow> mtx_key \<Rightarrow> bool" where
  "settled_at rows k \<longleftrightarrow> (\<exists>r. row_at rows k = Some r \<and> \<not> active (r_status r))"

definition has_copy :: "Row list \<Rightarrow> monitoredTx \<Rightarrow> bool" where
  "has_copy rows m \<longleftrightarrow> (\<exists>r. row_at rows (m_key m) = Some r \<and> agrees m r)"

definition recorded :: "(LegacyTx \<Rightarrow> hash) \<Rightarrow> Row list \<Rightarrow> mtx_key \<times> LegacyTx \<Rightarrow> bool" where
  "recorded H rows p \<longleftrightarrow> (\<exists>r. row_at rows (fst p) = Some r \<and> H (snd p) \<in> set (r_history r))"

definition system_inv :: "(LegacyTx \<Rightarrow> hash) \<Rightarrow> system \<Rightarrow> bool" where
  "system_inv H s \<longleftrightarrow> table_wf (sy_rows s) \<and>
     (\<forall>r\<in>set (sy_rows s). block_ok (r_status r) (r_block_num r)) \<and>
     distinct (map (m_key \<circ> fst) (sy_runs s)) \<and>
     (\<forall>g\<in>set (sy_runs s). run_ok H (fst g) (snd g) \<and> has_copy (sy_rows s) (fst g)) \<and>
     (\<forall>k\<in>set (sy_seen s). settled_at (sy_rows s) k) \<and>
     (\<forall>m\<in>set (sy_done s). m_status m = MonitoredTxStatusDone \<and> has_copy (sy_rows s) m) \<and>
     (\<forall>p\<in>set (sy_sent s). recorded H (sy_rows s) p)"

subsection \<open>Changes of the table\<close>

text \<open>A change that keeps every row, its history, and whether its transaction is still being sent.\<close>

definition keeps :: "Row list \<Rightarrow> Row list \<Rightarrow> bool" where
  "keeps rows rows' \<longleftrightarrow> (\<forall>k r. row_at rows k = Some r \<longrightarrow>
     (\<exists>r'. row_at rows' k = Some r' \<and> r_history r' = r_history r \<and> active (r_status r') = active (r_status r)))"

definition blocks_ok :: "Row list \<Rightarrow> bool" where
  "blocks_ok rows \<longleftrightarrow> (\<forall>r\<in>set rows. block_ok (r_status r) (r_block_num r))"

lemma keepsD:
  "keeps rows rows' \<Longrightarrow> row_at rows k = Some r \<Longrightarrow>
     \<exists>r'. row_at rows' k = Some r' \<and> r_history r' = r_history r \<and> active (r_status r') = active (r_status r)"
  unfolding keeps_def by blast

lemma keeps_refl: "keeps rows rows" by (simp add: keeps_def)

lemma keeps_trans: "keeps r1 r2 \<Longrightarrow> keeps r2 r3 \<Longrightarrow> keeps r1 r3"
  unfolding keeps_def by metis

lemma keeps_has_copy: "keeps rows rows' \<Longrightarrow> has_copy rows m \<Longrightarrow> has_copy rows' m"
  by (auto simp: has_copy_def agrees_def dest: keepsD)

lemma keeps_settled: "keeps rows rows' \<Longrightarrow> settled_at rows k \<Longrightarrow> settled_at rows' k"
  by (auto simp: settled_at_def dest: keepsD)

lemma keeps_recorded: "keeps rows rows' \<Longrightarrow> recorded H rows p \<Longrightarrow> recorded H rows' p"
  by (auto simp: recorded_def dest: keepsD)

lemma keeps_Update:
  assumes "row_at rows (m_key m) = Some r" "m_history m = r_history r" "active (m_status m) = active (r_status r)"
  shows "keeps rows (storage_Update m now rows)"
  using assms by (auto simp: keeps_def pg.at_upd)

lemma keeps_Add:
  assumes "storage_Add m now rows = Inr rows'"
  shows "keeps rows rows'"
proof -
  have "row_at (rows @ rs) k = Some r" if "row_at rows k = Some r" for rs k r
    using that by (induction rows) (auto simp: row_at_def split: if_split_asm)
  then show ?thesis using assms by (auto simp: storage_Add_def keeps_def split: if_split_asm)
qed

lemma block_ok_map [simp]: "block_ok s (map_option f b) = block_ok s b" by (simp add: block_ok_def)

lemma blocks_Update:
  "blocks_ok rows \<Longrightarrow> block_ok (m_status m) (m_blockNumber m) \<Longrightarrow> blocks_ok (storage_Update m now rows)"
  by (auto simp: blocks_ok_def storage_Update_def blockNumberU64Ptr_def)

text \<open>The client's operations.\<close>

lemma client_Add_table:
  assumes "client_Add cfg nt ow i a t v d off now rows = Inr rows'" "table_wf rows" "blocks_ok rows"
  shows "table_wf rows' \<and> blocks_ok rows' \<and> keeps rows rows'"
proof -
  obtain m where m: "storage_Add m now rows = Inr rows'" "m_status m = MonitoredTxStatusCreated" "m_blockNumber m = None"
    using assms(1) by (auto simp: client_Add_def map_sum_def split: sum.split_asm option.split_asm if_split_asm)
  then have "rows' = rows @ [row_of now now m]" by (simp add: storage_Add_def split: if_split_asm)
  then have "blocks_ok rows'" using m assms(3) by (auto simp: blocks_ok_def blockNumberU64Ptr_def block_ok_def)
  then show ?thesis using table_wf_Add [OF assms(2) m(1)] keeps_Add [OF m(1)] by blast
qed

lemma reorg_loop_table:
  assumes "reorg_loop db now ms rows = Inr rows'" "table_wf rows" "blocks_ok rows"
    and "\<forall>m\<in>set ms. \<exists>r. row_at rows (m_key m) = Some r \<and> r_history r = m_history m \<and> \<not> active (r_status r)"
  shows "table_wf rows' \<and> blocks_ok rows' \<and> keeps rows rows'"
  using assms
proof (induction ms arbitrary: rows)
  case (Cons m ms)
  let ?m = "m\<lparr>m_blockNumber := None, m_status := MonitoredTxStatusReorged\<rparr>" and ?rows = "storage_Update (m\<lparr>m_blockNumber := None, m_status := MonitoredTxStatusReorged\<rparr>) now rows"
  obtain r where r: "row_at rows (m_key m) = Some r" "r_history r = m_history m" "\<not> active (r_status r)" using Cons.prems(4) by auto
  have key: "m_key ?m = m_key m" by (simp add: m_key_def)
  have k: "keeps rows ?rows" by (rule keeps_Update [of rows ?m r]) (use r in \<open>simp_all add: key active_def\<close>)
  have "table_wf rows' \<and> blocks_ok rows' \<and> keeps ?rows rows'"
  proof (rule Cons.IH)
    show "reorg_loop db now ms ?rows = Inr rows'" using Cons.prems(1) by (simp split: option.split_asm)
    show "table_wf ?rows" by (rule table_wf_Update [OF Cons.prems(2)])
    show "blocks_ok ?rows" by (rule blocks_Update [OF Cons.prems(3)]) (simp add: block_ok_def)
    show "\<forall>m\<in>set ms. \<exists>r. row_at ?rows (m_key m) = Some r \<and> r_history r = m_history m \<and> \<not> active (r_status r)"
    proof
      fix x
      assume "x \<in> set ms"
      then obtain r where "row_at rows (m_key x) = Some r" "r_history r = m_history x" "\<not> active (r_status r)"
        using Cons.prems(4) by auto
      then show "\<exists>r. row_at ?rows (m_key x) = Some r \<and> r_history r = m_history x \<and> \<not> active (r_status r)"
        using keepsD [OF k] by metis
    qed
  qed
  then show ?case using keeps_trans [OF k] by blast
qed (simp add: keeps_refl)

lemma client_Reorg_table:
  assumes "client_Reorg db b now rows = Inr rows'" "table_wf rows" "blocks_ok rows"
  shows "table_wf rows' \<and> blocks_ok rows' \<and> keeps rows rows'"
proof -
  let ?P = "\<lambda>r. case r_block_num r of None \<Rightarrow> False | Some b' \<Rightarrow>
    (case Some b of None \<Rightarrow> True | Some f \<Rightarrow> f \<le> b') \<and> (case None of None \<Rightarrow> True | Some t \<Rightarrow> b' \<le> t)"
  have "reorg_loop db now (map row_mtx (sort_key r_created_at (filter ?P rows))) rows = Inr rows'"
    using assms(1) GetByBlock_readable [OF assms(2), of "Some b" None] by (simp add: client_Reorg_def)
  then show ?thesis
  proof (rule reorg_loop_table [OF _ assms(2,3)])
    have "row_at rows (r_key r) = Some r \<and> \<not> active (r_status r)" if "r \<in> set rows" "?P r" for r
      using that assms(2,3) row_at_in [of rows r]
      by (auto simp: table_wf_def blocks_ok_def block_ok_def pending_def split: option.split_asm)
    then show "\<forall>m\<in>set (map row_mtx (sort_key r_created_at (filter ?P rows))).
        \<exists>r. row_at rows (m_key m) = Some r \<and> r_history r = m_history m \<and> \<not> active (r_status r)"
      by auto
  qed
qed

subsection \<open>The steps keep the invariant\<close>

lemma system_inv_iff:
  "system_inv H s \<longleftrightarrow> table_wf (sy_rows s) \<and> blocks_ok (sy_rows s) \<and> distinct (map (m_key \<circ> fst) (sy_runs s)) \<and>
     (\<forall>g\<in>set (sy_runs s). run_ok H (fst g) (snd g) \<and> has_copy (sy_rows s) (fst g)) \<and>
     (\<forall>k\<in>set (sy_seen s). settled_at (sy_rows s) k) \<and>
     (\<forall>m\<in>set (sy_done s). m_status m = MonitoredTxStatusDone \<and> has_copy (sy_rows s) m) \<and>
     (\<forall>p\<in>set (sy_sent s). recorded H (sy_rows s) p)"
  unfolding system_inv_def blocks_ok_def ..

lemma system_inv_keeps:
  assumes "system_inv H s" "table_wf rows" "blocks_ok rows" "keeps (sy_rows s) rows"
  shows "system_inv H (s\<lparr>sy_rows := rows\<rparr>)"
  using assms keeps_has_copy [OF assms(4)] keeps_settled [OF assms(4)] keeps_recorded [OF assms(4)]
  by (simp add: system_inv_iff)

lemma monitorTxs_runs:
  assumes "table_wf rows" "blocks_ok rows" "\<And>m. n_Hash (nets m) = H" "monitorTxs cfg nets rows = Inr gs"
  shows "distinct (map (m_key \<circ> fst) gs) \<and> (\<forall>g\<in>set gs. run_ok H (fst g) (snd g) \<and> has_copy rows (fst g))"
proof -
  let ?P = "\<lambda>r. (case None of None \<Rightarrow> True | Some o' \<Rightarrow> r_owner r = o') \<and> (statusesFilter \<noteq> [] \<longrightarrow> r_status r \<in> set statusesFilter)"
  let ?rs = "sort_key r_created_at (filter ?P rows)"
  have gs: "gs = map (\<lambda>r. (row_mtx r, monitorTx cfg (nets (row_mtx r)) (row_mtx r))) ?rs"
    using assms(4) GetByStatus_readable [OF assms(1), of None statusesFilter] by (simp add: monitorTxs_def comp_def)
  have "map (m_key \<circ> fst) gs = map r_key ?rs" unfolding gs by simp
  moreover have "distinct (map r_key ?rs)"
    using assms(1) by (auto simp: table_wf_def distinct_map inj_on_def)
  ultimately have "distinct (map (m_key \<circ> fst) gs)" by metis
  moreover have "run_ok H (row_mtx r) (monitorTx cfg (nets (row_mtx r)) (row_mtx r)) \<and> has_copy rows (row_mtx r)"
    if "r \<in> set ?rs" for r
  proof
    have r: "r \<in> set rows" "pending (r_status r)"
      using that by (auto simp: statusesFilter_def pending_def active_def)
    then show "has_copy rows (row_mtx r)"
      using assms(1,2) row_at_in [of rows r] by (auto simp: has_copy_def agrees_def table_wf_def blocks_ok_def)
    show "run_ok H (row_mtx r) (monitorTx cfg (nets (row_mtx r)) (row_mtx r))"
      using monitorTx_run_ok [of "row_mtx r" "nets (row_mtx r)" cfg] r(2) assms(3) by simp
  qed
  then have "\<forall>g\<in>set gs. run_ok H (fst g) (snd g) \<and> has_copy rows (fst g)" unfolding gs by simp
  ultimately show ?thesis by blast
qed

lemma store_inv:
  assumes inv: "system_inv H s" and j: "j < length (sy_runs s)" "sy_runs s ! j = (m, StoreUpdate m' # es)"
  shows "system_inv H (s\<lparr>sy_rows := storage_Update m' now (sy_rows s), sy_runs := (sy_runs s)[j := (m', es)]\<rparr>)"
proof -
  let ?rows = "storage_Update m' now (sy_rows s)"
  have mem: "(m, StoreUpdate m' # es) \<in> set (sy_runs s)" using j nth_mem by fastforce
  have u: "update_ok m m'" "run_ok H m' es" and "has_copy (sy_rows s) m" using inv mem by (fastforce simp: system_inv_iff)+
  then obtain r where r: "row_at (sy_rows s) (m_key m) = Some r" "agrees m r" by (auto simp: has_copy_def)
  have key: "m_key m' = m_key m" using u by (simp add: update_ok_def same_request_def)
  have pre: "prefix (m_history m) (m_history m')" and bm: "block_ok (m_status m') (m_blockNumber m')"
      and edge: "active (m_status m') \<Longrightarrow> active (m_status m)"
      and hist: "\<not> active (m_status m) \<Longrightarrow> m_history m' = m_history m"
    using u(1) r(2) status_edge_inactive by (auto simp: update_ok_def agrees_def)
  have at: "row_at ?rows k = (if k = m_key m then Some (row_of (r_created_at r) now m') else row_at (sy_rows s) k)" for k
    using r(1) key by (simp add: pg.at_upd)
  have settled: "settled_at ?rows k" if "settled_at (sy_rows s) k" for k
    using that r edge by (auto simp: settled_at_def at agrees_def)
  have copies: "has_copy ?rows x" if "has_copy (sy_rows s) x" "\<not> active (m_status x) \<or> m_key x \<noteq> m_key m" for x
  proof (cases "m_key x = m_key m")
    case True
    then have "\<not> active (m_status m)" "m_history x = m_history m" using that r by (auto simp: has_copy_def agrees_def)
    then show ?thesis using True that hist edge by (auto simp: has_copy_def at agrees_def)
  qed (use that in \<open>simp add: has_copy_def at\<close>)
  have recs: "recorded H ?rows p" if "recorded H (sy_rows s) p" for p
    using that r set_mono_prefix [OF pre] by (auto simp: recorded_def at agrees_def)
  have d: "distinct (map (m_key \<circ> fst) (sy_runs s))" using inv by (simp add: system_inv_iff)
  have keys: "map (m_key \<circ> fst) ((sy_runs s)[j := (m', es)]) = map (m_key \<circ> fst) (sy_runs s)"
    using j key by (simp add: map_update list_update_same_conv)
  have runs: "run_ok H (fst g) (snd g) \<and> has_copy ?rows (fst g)" if "g \<in> set ((sy_runs s)[j := (m', es)])" for g
  proof -
    obtain l where l: "l < length (sy_runs s)" "g = (sy_runs s)[j := (m', es)] ! l" using \<open>g \<in> _\<close> by (auto simp: in_set_conv_nth)
    show ?thesis
    proof (cases "l = j")
      case True
      then show ?thesis using l u(2) key bm by (auto simp: has_copy_def at agrees_def)
    next
      case False
      then have g: "g = sy_runs s ! l" "g \<in> set (sy_runs s)" using l nth_mem by auto
      have "m_key (fst (sy_runs s ! l)) \<noteq> m_key (fst (sy_runs s ! j))" using d l(1) j(1) False by (simp add: distinct_conv_nth)
      then have "m_key (fst g) \<noteq> m_key m" using g(1) j(2) by simp
      then show ?thesis using g(2) inv copies by (auto simp: system_inv_iff)
    qed
  qed
  have dones: "m_status x = MonitoredTxStatusDone \<and> has_copy ?rows x" if "x \<in> set (sy_done s)" for x
    using that inv copies [of x] by (auto simp: system_inv_iff active_def)
  show ?thesis
    using inv table_wf_Update [of "sy_rows s" m' now] blocks_Update [OF _ bm] runs settled dones recs keys d
    unfolding system_inv_iff by (simp del: set_map)
qed

lemma send_inv:
  assumes inv: "system_inv H s" and j: "j < length (sy_runs s)" "sy_runs s ! j = (m, NetworkSend tx # es)"
  shows "system_inv H (s\<lparr>sy_sent := (m_key m, tx) # sy_sent s, sy_runs := (sy_runs s)[j := (m, es)]\<rparr>)"
proof -
  have mem: "(m, NetworkSend tx # es) \<in> set (sy_runs s)" using j nth_mem by fastforce
  then have m: "H tx \<in> set (m_history m)" "run_ok H m es" "has_copy (sy_rows s) m" using inv by (fastforce simp: system_inv_iff)+
  then have rec': "recorded H (sy_rows s) (m_key m, tx)" by (auto simp: has_copy_def recorded_def agrees_def)
  have keys: "map (m_key \<circ> fst) ((sy_runs s)[j := (m, es)]) = map (m_key \<circ> fst) (sy_runs s)"
    using j by (simp add: map_update list_update_same_conv)
  have "run_ok H (fst g) (snd g) \<and> has_copy (sy_rows s) (fst g)" if "g \<in> set ((sy_runs s)[j := (m, es)])" for g
    using set_update_subset_insert [of "sy_runs s" j "(m, es)"] that m inv by (auto simp: system_inv_iff)
  then show ?thesis using inv rec' keys unfolding system_inv_iff by (simp del: set_map)
qed

lemma done_write_keeps:
  assumes "system_inv H s" "m \<in> set (sy_done s)"
  shows "table_wf (storage_Update m now (sy_rows s)) \<and> blocks_ok (storage_Update m now (sy_rows s)) \<and>
    keeps (sy_rows s) (storage_Update m now (sy_rows s))"
proof -
  obtain r where r: "row_at (sy_rows s) (m_key m) = Some r" "agrees m r" "m_status m = MonitoredTxStatusDone"
    using assms by (auto simp: system_inv_iff has_copy_def)
  then have "keeps (sy_rows s) (storage_Update m now (sy_rows s))" by (intro keeps_Update) (auto simp: agrees_def)
  moreover have "block_ok (m_status m) (m_blockNumber m)" using r(2) by (simp add: agrees_def)
  ultimately show ?thesis using assms(1) table_wf_Update blocks_Update by (simp add: system_inv_iff)
qed

lemma etm_step_inv: "etm_step H s s' \<Longrightarrow> system_inv H s \<Longrightarrow> system_inv H s'"
proof (induction rule: etm_step.induct)
  case (add cfg nt ow i a to' v d off now s rows)
  then show ?case using client_Add_table [OF add.hyps] by (intro system_inv_keeps) (auto simp: system_inv_iff)
next
  case (cycle s nets cfg gs)
  then show ?case using monitorTxs_runs [OF _ _ cycle.hyps(2,3)] by (simp add: system_inv_iff)
next
  case (store j s m m' es now)
  then show ?case by (blast intro: store_inv)
next
  case (send j s m tx es)
  then show ?case by (blast intro: send_inv)
next
  case (reorg db b now s rows)
  then show ?case using client_Reorg_table [OF reorg.hyps] by (intro system_inv_keeps) (auto simp: system_inv_iff)
next
  case (confirmed ow sts s ms m)
  have wf: "table_wf (sy_rows s)" using confirmed.prems by (simp add: system_inv_iff)
  have "\<exists>r\<in>set (sy_rows s). m = row_mtx r \<and> r_owner r = ow"
    using confirmed.hyps GetByStatus_readable [OF wf, of "Some ow" sts] by auto
  then obtain r where "r \<in> set (sy_rows s)" "m = row_mtx r" "r_owner r = ow" by blast
  then have "settled_at (sy_rows s) (ow, m_id m)"
    using row_at_in [of "sy_rows s" r] wf confirmed.hyps(3)
    by (auto simp: settled_at_def table_wf_def active_def r_key_def row_mtx_def)
  then show ?case using confirmed.prems by (simp add: system_inv_iff)
next
  case (done_read ow i s m)
  have wf: "table_wf (sy_rows s)" using done_read.prems by (simp add: system_inv_iff)
  obtain r where r: "row_at (sy_rows s) (ow, i) = Some r" "\<not> active (r_status r)"
    using done_read by (auto simp: system_inv_iff settled_at_def)
  then have m: "m = row_mtx r\<lparr>m_status := MonitoredTxStatusDone\<rparr>"
    using done_read.hyps(2) by (simp add: setStatusDone_def Get_row_at [OF wf])
  have "m_key m = (ow, i)" using row_at_Some [OF r(1)] m_key_row_mtx [of r] by (simp add: m m_key_def)
  then have "has_copy (sy_rows s) m" using r by (simp add: has_copy_def agrees_def m block_ok_def pending_def active_def)
  then show ?case using done_read.prems m by (simp add: system_inv_iff)
next
  case (done_write m s now)
  let ?rows = "storage_Update m now (sy_rows s)"
  have "system_inv H (s\<lparr>sy_rows := ?rows\<rparr>)"
    using done_write_keeps [OF done_write.prems done_write.hyps] by (intro system_inv_keeps) (use done_write.prems in auto)
  then show ?case by (auto simp: system_inv_iff dest: notin_set_remove1)
next
  case (crash s)
  then show ?case by (simp add: system_inv_iff)
qed

lemma reached_inv: "reached H s s' \<Longrightarrow> system_inv H s \<Longrightarrow> system_inv H s'"
  by (induction rule: reached.induct) (auto intro: etm_step_inv)

lemma start_inv: "system_inv H system_start"
  by (simp add: system_inv_iff system_start_def table_wf_def blocks_ok_def)

subsection \<open>Settled transactions\<close>

definition sent_for :: "mtx_key \<Rightarrow> system \<Rightarrow> LegacyTx list" where
  "sent_for k s = map snd (filter (\<lambda>p. fst p = k) (sy_sent s))"

lemma etm_step_settled:
  assumes "etm_step H s s'" "system_inv H s" "settled_at (sy_rows s) k"
  shows "settled_at (sy_rows s') k \<and> sent_for k s' = sent_for k s"
  using assms
proof (induction rule: etm_step.induct)
  case (add cfg nt ow i a to' v d off now s rows)
  then show ?case using client_Add_table [OF add.hyps] by (auto simp: system_inv_iff sent_for_def intro: keeps_settled)
next
  case (store j s m m' es now)
  have mem: "(m, StoreUpdate m' # es) \<in> set (sy_runs s)" using store.hyps nth_mem by fastforce
  have u: "update_ok m m'" and "has_copy (sy_rows s) m" using store.prems mem by (fastforce simp: system_inv_iff)+
  then obtain r where r: "row_at (sy_rows s) (m_key m) = Some r" "agrees m r" by (auto simp: has_copy_def)
  have "m_key m' = m_key m" "active (m_status m') \<Longrightarrow> active (m_status m)"
    using u status_edge_inactive by (auto simp: update_ok_def same_request_def)
  then show ?case using r store.prems(2) by (auto simp: settled_at_def pg.at_upd agrees_def sent_for_def)
next
  case (send j s m tx es)
  have mem: "(m, NetworkSend tx # es) \<in> set (sy_runs s)" using send.hyps nth_mem by fastforce
  have "active (m_status m)" "has_copy (sy_rows s) m" using send.prems mem by (fastforce simp: system_inv_iff)+
  then have "m_key m \<noteq> k" using send.prems(2) by (auto simp: settled_at_def has_copy_def agrees_def)
  then show ?case using send.prems(2) by (simp add: sent_for_def)
next
  case (reorg db b now s rows)
  then show ?case using client_Reorg_table [OF reorg.hyps] by (auto simp: system_inv_iff sent_for_def intro: keeps_settled)
next
  case (done_write m s now)
  then show ?case using done_write_keeps [of H s m now] by (auto simp: sent_for_def intro: keeps_settled)
qed (simp_all add: sent_for_def)

section \<open>Properties\<close>

text \<open>
  C8. In every state the manager reaches, through any interleaving of its goroutines with new
  requests, reorganizations, the owners' calls and crashes: the table has one readable row for each
  key, a transaction that is pending has no block number and a confirmed one has, and every
  transaction that was ever given to the network is in the history of its row.
\<close>

theorem sent_transactions_are_recorded:
  assumes "reached H system_start s"
  shows "distinct (map r_key (sy_rows s)) \<and> (\<forall>r\<in>set (sy_rows s). readable r \<and> block_ok (r_status r) (r_block_num r)) \<and>
    (\<forall>(k, tx)\<in>set (sy_sent s). \<exists>r. row_at (sy_rows s) k = Some r \<and> H tx \<in> set (r_history r))"
  using reached_inv [OF assms start_inv] by (auto simp: system_inv_def table_wf_def recorded_def)

text \<open>
  C20. Once a transaction has left the statuses created and sent, nothing is sent for it any more, whatever
  happens: it is never sent twice after a confirmation, and after a reorganization that drops it from
  the chain the manager waits for it to be mined again by itself.
\<close>

theorem settled_is_never_sent_again:
  assumes "reached H system_start s" "row_at (sy_rows s) k = Some r"
    and "r_status r \<notin> {MonitoredTxStatusCreated, MonitoredTxStatusSent}" "reached H s s'"
  shows "sent_for k s' = sent_for k s \<and>
    (\<exists>r'. row_at (sy_rows s') k = Some r' \<and> r_status r' \<notin> {MonitoredTxStatusCreated, MonitoredTxStatusSent})"
proof -
  have inv: "system_inv H s" by (rule reached_inv [OF assms(1) start_inv])
  have "settled_at (sy_rows s) k" using assms(2,3) by (auto simp: settled_at_def active_def)
  from assms(4) this inv have "settled_at (sy_rows s') k \<and> sent_for k s' = sent_for k s"
    by (induction rule: reached.induct) (auto dest: etm_step_settled reached_inv)
  then show ?thesis by (auto simp: settled_at_def active_def)
qed

lemma reorg_loop_total: "\<exists>rows'. reorg_loop (\<lambda>_. None) now ms rows = Inr rows'"
  by (induction ms arbitrary: rows) simp_all

lemma reorg_loop_stays:
  assumes "reorg_loop db now ms rows = Inr rows'" "row_at rows k = Some r" "r_status r = MonitoredTxStatusReorged" "r_block_num r = None"
  shows "\<exists>r'. row_at rows' k = Some r' \<and> r_status r' = MonitoredTxStatusReorged \<and> r_block_num r' = None"
  using assms
proof (induction ms arbitrary: rows r)
  case (Cons m ms)
  let ?m = "m\<lparr>m_blockNumber := None, m_status := MonitoredTxStatusReorged\<rparr>"
  have "\<exists>r'. row_at (storage_Update ?m now rows) k = Some r' \<and> r_status r' = MonitoredTxStatusReorged \<and> r_block_num r' = None"
    using Cons.prems(2-4) by (auto simp: pg.at_upd blockNumberU64Ptr_def)
  moreover have "reorg_loop db now ms (storage_Update ?m now rows) = Inr rows'" using Cons.prems(1) by (simp split: option.split_asm)
  ultimately show ?case using Cons.IH by blast
qed simp

lemma reorg_loop_reorgs:
  assumes "reorg_loop db now ms rows = Inr rows'" "m \<in> set ms" "row_at rows (m_key m) \<noteq> None"
  shows "\<exists>r'. row_at rows' (m_key m) = Some r' \<and> r_status r' = MonitoredTxStatusReorged \<and> r_block_num r' = None"
  using assms
proof (induction ms arbitrary: rows)
  case (Cons x ms)
  let ?x = "x\<lparr>m_blockNumber := None, m_status := MonitoredTxStatusReorged\<rparr>" and ?rows = "storage_Update (x\<lparr>m_blockNumber := None, m_status := MonitoredTxStatusReorged\<rparr>) now rows"
  have l: "reorg_loop db now ms ?rows = Inr rows'" using Cons.prems(1) by (simp split: option.split_asm)
  have key: "m_key ?x = m_key x" by (simp add: m_key_def)
  show ?case
  proof (cases "m = x")
    case True
    then obtain r where "row_at ?rows (m_key m) = Some r" "r_status r = MonitoredTxStatusReorged" "r_block_num r = None"
      using Cons.prems(3) by (auto simp: pg.at_upd key blockNumberU64Ptr_def)
    then show ?thesis by (rule reorg_loop_stays [OF l])
  next
    case False
    have "row_at ?rows (m_key m) \<noteq> None" using Cons.prems(3) by (auto simp: pg.at_upd)
    then show ?thesis using Cons.IH [OF l] Cons.prems(2) False by simp
  qed
qed simp

text \<open>
  \<open>setStatusDone\<close> reads the row of a transaction again after its owner has seen it confirmed, and stores the
  status done whatever it reads. From every reachable state with a confirmed transaction a
  reorganization of its block can fall in between; the transaction ends as done without a block, and is monitored no more.
\<close>

theorem reorg_is_lost_by_done:
  assumes "reached H system_start s" "row_at (sy_rows s) (ow, i) = Some r"
    and "r_status r = MonitoredTxStatusConfirmed" "r_block_num r = Some b"
  shows "\<exists>s' r'. reached H s s' \<and> row_at (sy_rows s') (ow, i) = Some r' \<and> r_status r' = MonitoredTxStatusDone \<and> r_block_num r' = None"
proof -
  have inv: "system_inv H s" by (rule reached_inv [OF assms(1) start_inv])
  then have wf: "table_wf (sy_rows s)" by (simp add: system_inv_iff)
  have r: "r \<in> set (sy_rows s)" "r_key r = (ow, i)" using row_at_Some [OF assms(2)] by auto
  let ?s1 = "s\<lparr>sy_seen := (ow, i) # sy_seen s\<rparr>"
  have "row_mtx r \<in> set (map row_mtx (sort_key r_created_at (filter (\<lambda>r. (case Some ow of None \<Rightarrow> True | Some o' \<Rightarrow> r_owner r = o') \<and>
      ([MonitoredTxStatusConfirmed] \<noteq> [] \<longrightarrow> r_status r \<in> set [MonitoredTxStatusConfirmed])) (sy_rows s))))"
    using r assms(3) by (simp add: r_key_def)
  from etm_step.confirmed [OF GetByStatus_readable [OF wf] this] have s1: "etm_step H s ?s1"
    using r assms(3) by (simp add: r_key_def row_mtx_def)
  let ?P = "\<lambda>r. case r_block_num r of None \<Rightarrow> False | Some b' \<Rightarrow>
    (case Some b of None \<Rightarrow> True | Some f \<Rightarrow> f \<le> b') \<and> (case None of None \<Rightarrow> True | Some t \<Rightarrow> b' \<le> t)"
  let ?ms = "map row_mtx (sort_key r_created_at (filter ?P (sy_rows s)))"
  obtain rows where loop: "reorg_loop (\<lambda>_. None) 0 ?ms (sy_rows s) = Inr rows" using reorg_loop_total by blast
  then have re: "client_Reorg (\<lambda>_. None) b 0 (sy_rows s) = Inr rows"
    using GetByBlock_readable [OF wf, of "Some b" None] by (simp add: client_Reorg_def)
  let ?s2 = "?s1\<lparr>sy_rows := rows\<rparr>"
  have s2: "etm_step H ?s1 ?s2" by (rule etm_step.reorg [where db = "\<lambda>_. None"]) (use re in simp)
  have mem: "row_mtx r \<in> set ?ms" using r(1) assms(4) by simp
  have nn: "row_at (sy_rows s) (m_key (row_mtx r)) \<noteq> None" using assms(2) r(2) by simp
  obtain r2 where r2: "row_at rows (ow, i) = Some r2" "r_block_num r2 = None"
    using reorg_loop_reorgs [OF loop mem nn] r(2) by auto
  have "table_wf rows" using client_Reorg_table [OF re wf] inv by (simp add: system_inv_iff)
  then have sd: "setStatusDone ow i rows = Inr (row_mtx r2\<lparr>m_status := MonitoredTxStatusDone\<rparr>)"
    using r2(1) by (simp add: setStatusDone_def Get_row_at)
  let ?m = "row_mtx r2\<lparr>m_status := MonitoredTxStatusDone\<rparr>"
  let ?s3 = "?s2\<lparr>sy_done := ?m # sy_done s\<rparr>"
  have "etm_step H ?s2 (?s2\<lparr>sy_done := ?m # sy_done ?s2\<rparr>)" by (rule etm_step.done_read [of ow i]) (use sd in simp_all)
  then have s3: "etm_step H ?s2 ?s3" by simp
  let ?s4 = "?s3\<lparr>sy_rows := storage_Update ?m 0 (sy_rows ?s3), sy_done := remove1 ?m (sy_done ?s3)\<rparr>"
  have s4: "etm_step H ?s3 ?s4" by (rule etm_step.done_write) simp
  have key: "m_key ?m = (ow, i)" using row_at_Some [OF r2(1)] m_key_row_mtx [of r2] by (simp add: m_key_def)
  have "row_at (sy_rows ?s4) (ow, i) = Some (row_of (r_created_at r2) 0 ?m)" using r2(1) key by (simp add: pg.at_upd)
  moreover have "r_block_num (row_of (r_created_at r2) 0 ?m) = None" using r2(2) by (simp add: blockNumberU64Ptr_def)
  moreover have "reached H s ?s4" using s1 s2 s3 s4 by (meson reached.intros)
  ultimately show ?thesis by (intro exI [of _ ?s4] exI [of _ "row_of (r_created_at r2) 0 ?m"]) simp
qed

section \<open>Instances\<close>

text \<open>The request of \<open>sample_net\<close>'s first cycle: added, recorded, sent and confirmed.\<close>

definition added_mtx :: "MonitoredTxStatus \<Rightarrow> hash list \<Rightarrow> int option \<Rightarrow> monitoredTx" where
  "added_mtx status hs b = (sample_mtx status hs)\<lparr>m_nonce := 9, m_gas := 21000, m_gasPrice := 140, m_blockNumber := b\<rparr>"

definition sample_row :: "MonitoredTxStatus \<Rightarrow> hash list \<Rightarrow> int option \<Rightarrow> Row" where
  "sample_row status hs b = row_of 0 0 (added_mtx status hs b)"

lemma sample_suggested: "suggestedGasPrice sample_cfg sample_net st = Inr 140"
proof -
  have g: "GetL1GasPrice sample_net st = 101" by (simp add: GetL1GasPrice_def sample_net_def)
  have a: "adjustedGasPrice sample_cfg 101 = 151" using adjustedGasPrice_exact [of sample_cfg 3 "- 1" 101] by (simp add: sample_cfg_def)
  show ?thesis using a by (simp add: suggestedGasPrice_def SuggestedGasPrice_def g) (simp add: sample_cfg_def)
qed

lemma sample_Add:
  "client_Add sample_cfg sample_net ''sequencer'' ''a'' 1 (Some 2) (Some 0) (Some [1, 2]) 10 0 [] =
     Inr [sample_row MonitoredTxStatusCreated [] None]"
proof -
  have n: "NonceAt sample_net = (\<lambda>_ _. Inr 9)" "n_EstimateGas sample_net = (\<lambda>_ _ _ _ _. Inr 21000)" "n_db sample_net = (\<lambda>_. None)"
    by (simp_all add: sample_net_def)
  show ?thesis
    by (simp add: client_Add_def sample_suggested n CurrentNonce_def EstimateGas_def storage_Add_def sample_row_def added_mtx_def sample_mtx_def)
qed

lemma sample_row_mtx: "b \<in> {None, Some 20} \<Longrightarrow> row_mtx (sample_row st hs b) = added_mtx st hs b"
  by (auto simp: sample_row_def row_mtx_row_of stored_def added_mtx_def sample_mtx_def big_Uint64_def)

lemma sample_Update: "storage_Update (added_mtx st hs b) 0 [sample_row st' hs' b'] = [sample_row st hs b]"
  by (simp add: storage_Update_def sample_row_def) (simp add: added_mtx_def sample_mtx_def m_key_def)

lemma added_run:
  "monitorTx sample_cfg sample_net (added_mtx MonitoredTxStatusCreated [] None) =
    [StoreUpdate (added_mtx MonitoredTxStatusCreated [9] None), NetworkSend (Tx (added_mtx MonitoredTxStatusCreated [9] None)),
     StoreUpdate (added_mtx MonitoredTxStatusSent [9] None), StoreUpdate (added_mtx MonitoredTxStatusConfirmed [9] (Some 20))]"
  by (simp add: monitorTx_def history_start_def after_history_def sign_and_send_def SignTx_def sample_net_def Tx_def added_mtx_def
      sample_mtx_def AddHistory_def update_then_def transmit_def GetTx_def SendTx_def wait_mined_def WaitTxToBeMined_def
      op_WaitTxToBeMined_def sample_receipt_def ReceiptStatusFailed_def GetTxReceipt_def settle_def
      ReceiptStatusSuccessful_def big_Uint64_def)

definition sample_system :: "Row \<Rightarrow> goroutine list \<Rightarrow> (mtx_key \<times> LegacyTx) list \<Rightarrow> system" where
  "sample_system r gs sent = \<lparr>sy_rows = [r], sy_runs = gs, sy_seen = [], sy_done = [], sy_sent = sent\<rparr>"

lemma sample_reached:
  "reached (n_Hash sample_net) system_start
     (sample_system (sample_row MonitoredTxStatusConfirmed [9] (Some 20)) [(added_mtx MonitoredTxStatusConfirmed [9] (Some 20), [])]
       [((''sequencer'', ''a''), Tx (added_mtx MonitoredTxStatusCreated [9] None))])"
proof -
  let ?H = "n_Hash sample_net"
  let ?m0 = "added_mtx MonitoredTxStatusCreated [] None" and ?m1 = "added_mtx MonitoredTxStatusCreated [9] None"
  let ?m2 = "added_mtx MonitoredTxStatusSent [9] None" and ?m3 = "added_mtx MonitoredTxStatusConfirmed [9] (Some 20)"
  let ?r0 = "sample_row MonitoredTxStatusCreated [] None" and ?r1 = "sample_row MonitoredTxStatusCreated [9] None"
  let ?r2 = "sample_row MonitoredTxStatusSent [9] None" and ?r3 = "sample_row MonitoredTxStatusConfirmed [9] (Some 20)"
  let ?sent = "[((''sequencer'', ''a''), Tx ?m1)]"
  have 1: "etm_step ?H system_start (sample_system ?r0 [] [])"
    using etm_step.add [where s = system_start and H = ?H, of sample_cfg sample_net "''sequencer''" "''a''" 1 "Some 2" "Some 0" "Some [1, 2]" 10 0]
    by (simp add: sample_Add system_start_def sample_system_def)
  have wf: "table_wf [?r0]" by (simp add: table_wf_def sample_row_def)
  have "r_status ?r0 = MonitoredTxStatusCreated" by (simp add: sample_row_def added_mtx_def)
  then have ms: "monitorTxs sample_cfg (\<lambda>_. sample_net) [?r0] = Inr [(?m0, monitorTx sample_cfg sample_net ?m0)]"
    by (simp add: monitorTxs_def GetByStatus_readable [OF wf] statusesFilter_def sample_row_mtx)
  have 2: "etm_step ?H (sample_system ?r0 [] [])
      (sample_system ?r0 [(?m0, [StoreUpdate ?m1, NetworkSend (Tx ?m1), StoreUpdate ?m2, StoreUpdate ?m3])] [])"
    using etm_step.cycle [of "sample_system ?r0 [] []" "\<lambda>_. sample_net" ?H sample_cfg] ms
    by (simp add: sample_system_def added_run)
  have st: "etm_step ?H (sample_system (sample_row st hs b) [(m, StoreUpdate (added_mtx st' hs' b') # es)] sent)
      (sample_system (sample_row st' hs' b') [(added_mtx st' hs' b', es)] sent)" for st hs b m st' hs' b' es sent
    using etm_step.store [of 0 "sample_system (sample_row st hs b) [(m, StoreUpdate (added_mtx st' hs' b') # es)] sent" m
        "added_mtx st' hs' b'" es ?H 0]
    by (simp add: sample_system_def sample_Update)
  have 4: "etm_step ?H (sample_system ?r1 [(?m1, [NetworkSend (Tx ?m1), StoreUpdate ?m2, StoreUpdate ?m3])] [])
      (sample_system ?r1 [(?m1, [StoreUpdate ?m2, StoreUpdate ?m3])] ?sent)"
    using etm_step.send [of 0 "sample_system ?r1 [(?m1, [NetworkSend (Tx ?m1), StoreUpdate ?m2, StoreUpdate ?m3])] []" ?m1 "Tx ?m1" _ ?H]
    by (simp add: sample_system_def) (simp add: m_key_def added_mtx_def sample_mtx_def)
  show ?thesis by (rule reached.more, rule reached.more, rule reached.more, rule reached.more, rule reached.more, rule reached.more,
        rule reached.here, rule 1, rule 2, rule st, rule 4, rule st, rule st)
qed

lemma sample_row_at: "row_at [sample_row st hs b] (''sequencer'', ''a'') = Some (sample_row st hs b)"
  by (simp add: row_at_def sample_row_def) (simp add: m_key_def added_mtx_def sample_mtx_def)

theorem sent_transactions_are_recorded_witness:
  "\<exists>s. reached (n_Hash sample_net) system_start s \<and> sy_sent s \<noteq> [] \<and>
     (\<forall>(k, tx)\<in>set (sy_sent s). \<exists>r. row_at (sy_rows s) k = Some r \<and> n_Hash sample_net tx \<in> set (r_history r))"
  using sent_transactions_are_recorded [OF sample_reached] sample_reached
  by (intro exI [of _ "sample_system (sample_row MonitoredTxStatusConfirmed [9] (Some 20)) [(added_mtx MonitoredTxStatusConfirmed [9] (Some 20), [])]
       [((''sequencer'', ''a''), Tx (added_mtx MonitoredTxStatusCreated [9] None))]"]) (simp add: sample_system_def)

theorem settled_is_never_sent_again_witness:
  "\<exists>s. reached (n_Hash sample_net) system_start s \<and> length (sent_for (''sequencer'', ''a'') s) = 1 \<and>
     (\<exists>r'. row_at (sy_rows s) (''sequencer'', ''a'') = Some r' \<and> r_status r' \<notin> {MonitoredTxStatusCreated, MonitoredTxStatusSent})"
proof -
  let ?s = "sample_system (sample_row MonitoredTxStatusConfirmed [9] (Some 20)) [(added_mtx MonitoredTxStatusConfirmed [9] (Some 20), [])]
       [((''sequencer'', ''a''), Tx (added_mtx MonitoredTxStatusCreated [9] None))]"
  have "row_at (sy_rows ?s) (''sequencer'', ''a'') = Some (sample_row MonitoredTxStatusConfirmed [9] (Some 20))"
    by (simp add: sample_system_def sample_row_at)
  from settled_is_never_sent_again [OF sample_reached this _ reached.here]
  have "\<exists>r'. row_at (sy_rows ?s) (''sequencer'', ''a'') = Some r' \<and> r_status r' \<notin> {MonitoredTxStatusCreated, MonitoredTxStatusSent}"
    by (simp add: sample_row_def added_mtx_def)
  moreover have "length (sent_for (''sequencer'', ''a'') ?s) = 1" by (simp add: sent_for_def sample_system_def)
  ultimately show ?thesis using sample_reached by blast
qed

theorem reorg_is_lost_by_done_witness:
  "\<exists>s r. reached (n_Hash sample_net) system_start s \<and> row_at (sy_rows s) (''sequencer'', ''a'') = Some r \<and>
     r_status r = MonitoredTxStatusDone \<and> r_block_num r = None"
proof -
  let ?s = "sample_system (sample_row MonitoredTxStatusConfirmed [9] (Some 20)) [(added_mtx MonitoredTxStatusConfirmed [9] (Some 20), [])]
       [((''sequencer'', ''a''), Tx (added_mtx MonitoredTxStatusCreated [9] None))]"
  have r: "row_at (sy_rows ?s) (''sequencer'', ''a'') = Some (sample_row MonitoredTxStatusConfirmed [9] (Some 20))"
    by (simp add: sample_system_def sample_row_at)
  have b: "r_block_num (sample_row MonitoredTxStatusConfirmed [9] (Some 20)) = Some 20"
    by (simp add: sample_row_def added_mtx_def blockNumberU64Ptr_def big_Uint64_def)
  obtain s' r' where "reached (n_Hash sample_net) ?s s'" "row_at (sy_rows s') (''sequencer'', ''a'') = Some r'"
      "r_status r' = MonitoredTxStatusDone" "r_block_num r' = None"
    using reorg_is_lost_by_done [OF sample_reached r _ b] by (auto simp: sample_row_def added_mtx_def)
  then show ?thesis using reached_trans [OF sample_reached] by blast
qed

end
