(* ===== verification/EthTxResults.thy ===== *)
theory EthTxResults
  imports EthTxRuns
begin

text \<open>
  The owners of monitored transactions: \<open>buildResult\<close>, \<open>ResultsByStatus\<close>, \<open>Result\<close> and the loop
  \<open>ProcessPendingMonitoredTxs\<close> of \<open>ethtxmanager/ethtxmanager.go\<close>. Between two calls of the storage the other
  parts of the node change the table; what they do before the \<open>t\<close>-th call is an argument, as are the
  errors of the database and the answers of the network. A loop that does not end is \<open>None\<close>. The
  properties: the loop returns when everything is confirmed, with every result handled once and set done, and it
  never returns when one of the transactions has failed.
\<close>

section \<open>Results\<close>

record TxResult =
  tr_Tx :: "LegacyTx option"
  tr_Receipt :: "Receipt option"
  tr_RevertMessage :: string

record MonitoredTxResult =
  re_ID :: string
  re_Status :: MonitoredTxStatus
  re_Txs :: "(hash, TxResult) gomap"

text \<open>A lookup whose \<open>NotFound\<close> is read as \<open>nil\<close>.\<close>

definition or_nil :: "eth_error + 'a \<Rightarrow> eth_error + 'a option" where
  "or_nil a = (case a of Inr x \<Rightarrow> Inr (Some x) | Inl EthNotFound \<Rightarrow> Inr None | Inl e \<Rightarrow> Inl e)"

definition tx_result :: "net \<Rightarrow> hash \<Rightarrow> eth_error + TxResult" where
  "tx_result nt h =
     (case or_nil (GetTx nt AtResult h) of
        Inl e \<Rightarrow> Inl e
      | Inr tx \<Rightarrow>
        (case or_nil (GetTxReceipt nt AtResult h) of
           Inl e \<Rightarrow> Inl e
         | Inr receipt \<Rightarrow>
           (case GetRevertMessage nt AtResult tx of
              Inr msg \<Rightarrow> Inr \<lparr>tr_Tx = tx, tr_Receipt = receipt, tr_RevertMessage = msg\<rparr>
            | Inl e \<Rightarrow> if e = EthNotFound \<or> eth_error_Error e = eth_error_Error ErrExecutionReverted
                then Inr \<lparr>tr_Tx = tx, tr_Receipt = receipt, tr_RevertMessage = []\<rparr> else Inl e)))"

fun build_txs :: "net \<Rightarrow> hash list \<Rightarrow> (hash, TxResult) gomap \<Rightarrow> eth_error + (hash, TxResult) gomap" where
  "build_txs nt [] txs = Inr txs"
| "build_txs nt (h # hs) txs = (case tx_result nt h of Inl e \<Rightarrow> Inl e | Inr t \<Rightarrow> build_txs nt hs (gm_set h t txs))"

definition buildResult :: "net \<Rightarrow> monitoredTx \<Rightarrow> eth_error + MonitoredTxResult" where
  "buildResult nt m = (case build_txs nt (n_range nt (m_history m)) [] of
       Inl e \<Rightarrow> Inl e
     | Inr txs \<Rightarrow> Inr \<lparr>re_ID = m_id m, re_Status = m_status m, re_Txs = txs\<rparr>)"

fun build_results :: "net \<Rightarrow> monitoredTx list \<Rightarrow> eth_error + MonitoredTxResult list" where
  "build_results nt [] = Inr []"
| "build_results nt (m # ms) = (case buildResult nt m of Inl e \<Rightarrow> Inl e | Inr r \<Rightarrow> map_sum id ((#) r) (build_results nt ms))"

definition ResultsByStatus :: "net \<Rightarrow> string \<Rightarrow> MonitoredTxStatus list \<Rightarrow> Row list \<Rightarrow> client_error + MonitoredTxResult list" where
  "ResultsByStatus nt ow statuses rows = (case GetByStatus (Some ow) statuses rows of
       Inl e \<Rightarrow> Inl (StorageFailed e)
     | Inr mTxs \<Rightarrow> map_sum EthermanFailed id (build_results nt mTxs))"

definition client_Result :: "net \<Rightarrow> string \<Rightarrow> string \<Rightarrow> Row list \<Rightarrow> client_error + MonitoredTxResult" where
  "client_Result nt ow i rows = (case storage_Get ow i rows of
       Inl e \<Rightarrow> Inl (StorageFailed e)
     | Inr mTx \<Rightarrow> map_sum EthermanFailed id (buildResult nt mTx))"

section \<open>Waiting for the results\<close>

record owner_env =
  oe_net :: "nat \<Rightarrow> net"
  oe_others :: "nat \<Rightarrow> Row list \<Rightarrow> Row list"
  oe_db :: "nat \<Rightarrow> storage_error option"
  oe_now :: "nat \<Rightarrow> int"

definition pendingStatuses :: "MonitoredTxStatus list" where
  "pendingStatuses = [MonitoredTxStatusCreated, MonitoredTxStatusSent, MonitoredTxStatusFailed, MonitoredTxStatusConfirmed,
     MonitoredTxStatusReorged]"

definition final_result :: "MonitoredTxStatus \<Rightarrow> bool" where
  "final_result s \<longleftrightarrow> s = MonitoredTxStatusConfirmed \<or> s = MonitoredTxStatusFailed"

text \<open>One refresh of the inner loop, and the inner loop.\<close>

definition refresh :: "owner_env \<Rightarrow> string \<Rightarrow> string \<Rightarrow> nat \<Rightarrow> Row list \<Rightarrow> client_error + MonitoredTxResult" where
  "refresh env ow i t rows = (case oe_db env t of Some e \<Rightarrow> Inl (StorageFailed e) | None \<Rightarrow> client_Result (oe_net env t) ow i rows)"

partial_function (option) wait_result :: "owner_env \<Rightarrow> string \<Rightarrow> string \<Rightarrow> nat \<Rightarrow> Row list \<Rightarrow> (nat \<times> Row list) option" where
  "wait_result env ow i t rows =
     (let rows1 = oe_others env t rows in
      case refresh env ow i t rows1 of
        Inl _ \<Rightarrow> wait_result env ow i (t + 1) rows1
      | Inr r \<Rightarrow> if final_result (re_Status r) then Some (t + 1, rows1) else wait_result env ow i (t + 1) rows1)"

text \<open>\<open>setStatusDone\<close>: two calls of the storage, either of which can fail.\<close>

definition done_call :: "owner_env \<Rightarrow> string \<Rightarrow> string \<Rightarrow> nat \<Rightarrow> Row list \<Rightarrow> storage_error option \<times> Row list" where
  "done_call env ow i t rows =
     (let rows1 = oe_others env t rows in
      case (case oe_db env t of Some e \<Rightarrow> Inl e | None \<Rightarrow> setStatusDone ow i rows1) of
        Inl e \<Rightarrow> (Some e, rows1)
      | Inr m \<Rightarrow>
          (let rows2 = oe_others env (t + 1) rows1 in
           case oe_db env (t + 1) of Some e \<Rightarrow> (Some e, rows2) | None \<Rightarrow> (None, storage_Update m (oe_now env (t + 1)) rows2)))"

fun handle_results ::
  "owner_env \<Rightarrow> string \<Rightarrow> MonitoredTxResult list \<Rightarrow> nat \<Rightarrow> Row list \<Rightarrow> MonitoredTxResult list
    \<Rightarrow> (nat \<times> Row list \<times> MonitoredTxResult list) option" where
  "handle_results env ow [] t rows handled = Some (t, rows, handled)"
| "handle_results env ow (r # rs) t rows handled =
     (if re_Status r = MonitoredTxStatusConfirmed
      then (case done_call env ow (re_ID r) t rows of
              (Some e, rows') \<Rightarrow> handle_results env ow rs (t + 2) rows' handled
            | (None, rows') \<Rightarrow> handle_results env ow rs (t + 2) rows' (handled @ [r]))
      else if re_Status r = MonitoredTxStatusFailed then handle_results env ow rs t rows (handled @ [r])
      else Option.bind (wait_result env ow (re_ID r) t rows)
             (\<lambda>p. handle_results env ow rs (fst p) (snd p) handled))"

text \<open>The outer loop; the results given to the handler are collected.\<close>

definition list_results :: "owner_env \<Rightarrow> string \<Rightarrow> nat \<Rightarrow> Row list \<Rightarrow> client_error + MonitoredTxResult list" where
  "list_results env ow t rows =
     (case oe_db env t of Some e \<Rightarrow> Inl (StorageFailed e) | None \<Rightarrow> ResultsByStatus (oe_net env t) ow pendingStatuses rows)"

partial_function (option) ProcessPendingMonitoredTxs ::
  "owner_env \<Rightarrow> string \<Rightarrow> nat \<Rightarrow> Row list \<Rightarrow> MonitoredTxResult list \<Rightarrow> (MonitoredTxResult list \<times> Row list) option" where
  "ProcessPendingMonitoredTxs env ow t rows handled =
     (let rows1 = oe_others env t rows in
      case list_results env ow t rows1 of
        Inl _ \<Rightarrow> ProcessPendingMonitoredTxs env ow (t + 1) rows1 handled
      | Inr results \<Rightarrow>
          if results = [] then Some (handled, rows1)
          else Option.bind (handle_results env ow results (t + 1) rows1 handled)
                 (\<lambda>p. ProcessPendingMonitoredTxs env ow (fst p) (fst (snd p)) (snd (snd p))))"

section \<open>What the results are\<close>

lemma build_results_Inr:
  "build_results nt ms = Inr rs \<Longrightarrow> map re_ID rs = map m_id ms \<and> map re_Status rs = map m_status ms"
proof (induction ms arbitrary: rs)
  case (Cons m ms)
  then obtain r rs' where "buildResult nt m = Inr r" "build_results nt ms = Inr rs'" "rs = r # rs'"
    by (auto split: sum.split_asm simp: map_sum_def)
  then show ?case using Cons.IH by (auto simp: buildResult_def split: sum.split_asm)
qed simp

definition owned :: "string \<Rightarrow> Row list \<Rightarrow> Row list" where
  "owned ow rows = sort_key r_created_at (filter (\<lambda>r. r_owner r = ow \<and> r_status r \<in> set pendingStatuses) rows)"

lemma list_results_Inr:
  assumes "list_results env ow t rows = Inr rs" "table_wf rows"
  shows "map re_ID rs = map r_id (owned ow rows) \<and> map re_Status rs = map r_status (owned ow rows)"
proof -
  have "build_results (oe_net env t) (map row_mtx (owned ow rows)) = Inr rs"
    using assms(1) GetByStatus_readable [OF assms(2), of "Some ow" pendingStatuses]
    by (auto simp: list_results_def ResultsByStatus_def owned_def pendingStatuses_def map_sum_def split: option.split_asm sum.split_asm)
  from build_results_Inr [OF this] show ?thesis by (simp add: row_mtx_def comp_def)
qed

section \<open>A transaction that failed\<close>

definition failed_at :: "string \<Rightarrow> string \<Rightarrow> Row list \<Rightarrow> bool" where
  "failed_at ow i rows \<longleftrightarrow> table_wf rows \<and> (\<exists>r. row_at rows (ow, i) = Some r \<and> r_status r = MonitoredTxStatusFailed)"

definition others_keep_failed :: "owner_env \<Rightarrow> string \<Rightarrow> string \<Rightarrow> bool" where
  "others_keep_failed env ow i \<longleftrightarrow> (\<forall>t rows. failed_at ow i rows \<longrightarrow> failed_at ow i (oe_others env t rows))"

lemma others_failed: "others_keep_failed env ow i \<Longrightarrow> failed_at ow i rows \<Longrightarrow> failed_at ow i (oe_others env t rows)"
  by (simp add: others_keep_failed_def)

lemma wait_result_failed:
  assumes "wait_result env ow j t rows = Some p" "others_keep_failed env ow i" "failed_at ow i rows"
  shows "failed_at ow i (snd p)"
proof -
  have "others_keep_failed env ow i \<longrightarrow> failed_at ow i rows \<longrightarrow> failed_at ow i (snd p)"
  proof (rule wait_result.raw_induct [OF _ assms(1)])
    fix f :: "owner_env \<Rightarrow> string \<Rightarrow> string \<Rightarrow> nat \<Rightarrow> Row list \<Rightarrow> (nat \<times> Row list) option" and env ow j t rows p
    assume IH: "\<And>env ow j t rows p. f env ow j t rows = Some p \<Longrightarrow>
        others_keep_failed env ow i \<longrightarrow> failed_at ow i rows \<longrightarrow> failed_at ow i (snd p)"
      and b: "(let rows1 = oe_others env t rows in
        case refresh env ow j t rows1 of Inl _ \<Rightarrow> f env ow j (t + 1) rows1
        | Inr r \<Rightarrow> if final_result (re_Status r) then Some (t + 1, rows1) else f env ow j (t + 1) rows1) = Some p"
    show "others_keep_failed env ow i \<longrightarrow> failed_at ow i rows \<longrightarrow> failed_at ow i (snd p)"
      using b IH [of env ow j "t + 1" "oe_others env t rows" p] others_failed [of env ow i rows t]
      by (auto split: sum.split_asm if_split_asm)
  qed
  then show ?thesis using assms by blast
qed

lemma done_call_failed:
  assumes "others_keep_failed env ow i" "failed_at ow i rows" "j \<noteq> i"
  shows "failed_at ow i (snd (done_call env ow j t rows))"
proof -
  have f1: "failed_at ow i (oe_others env t rows)" "failed_at ow i (oe_others env (t + 1) (oe_others env t rows))"
    using assms others_failed by blast+
  show ?thesis
  proof (cases "setStatusDone ow j (oe_others env t rows)")
    case (Inr m)
    have "table_wf (oe_others env t rows)" using f1 by (simp add: failed_at_def)
    then have "m_key m = (ow, j)" using Inr row_at_Some
      by (fastforce simp: setStatusDone_def Get_row_at m_key_def r_key_def row_mtx_def split: option.split_asm)
    then have "failed_at ow i (storage_Update m now (oe_others env (t + 1) (oe_others env t rows)))" for now
      using f1(2) assms(3) by (simp add: failed_at_def pg.at_upd table_wf_Update)
    then show ?thesis using f1 Inr by (simp add: done_call_def split: option.split)
  qed (use f1 in \<open>simp add: done_call_def split: option.split\<close>)
qed

lemma handle_results_failed:
  assumes "handle_results env ow rs t rows h = Some p" "others_keep_failed env ow i" "failed_at ow i rows"
    and "\<forall>r\<in>set rs. re_Status r = MonitoredTxStatusConfirmed \<longrightarrow> re_ID r \<noteq> i"
  shows "failed_at ow i (fst (snd p))"
  using assms
proof (induction rs arbitrary: t rows h)
  case (Cons r rs)
  have c: "failed_at ow i (snd (done_call env ow (re_ID r) t rows))" if "re_Status r = MonitoredTxStatusConfirmed"
    using that done_call_failed [OF Cons.prems(2,3)] Cons.prems(4) by simp
  show ?case
  proof (cases "re_Status r = MonitoredTxStatusConfirmed")
    case True
    obtain e rows' where d: "done_call env ow (re_ID r) t rows = (e, rows')" by fastforce
    then show ?thesis using Cons True c by (auto split: option.split_asm)
  next
    case False
    then show ?thesis
      using Cons wait_result_failed [of env ow "re_ID r" t rows _ i]
      by (auto simp: bind_eq_Some_conv split: if_split_asm)
  qed
qed auto

lemma confirmed_ids_differ:
  assumes "list_results env ow t rows = Inr rs" "failed_at ow i rows" "r \<in> set rs" "re_Status r = MonitoredTxStatusConfirmed"
  shows "re_ID r \<noteq> i"
proof
  assume i: "re_ID r = i"
  have wf: "table_wf rows" using assms(2) by (simp add: failed_at_def)
  note ids = list_results_Inr [OF assms(1) wf]
  obtain n where n: "n < length rs" "rs ! n = r" using assms(3) by (auto simp: in_set_conv_nth)
  have len: "length rs = length (owned ow rows)" using ids by (metis length_map)
  let ?x = "owned ow rows ! n"
  have x: "?x \<in> set (owned ow rows)" using n len by simp
  have "r_id ?x = i" "r_status ?x = MonitoredTxStatusConfirmed"
    using ids n len i assms(4) by (metis nth_map)+
  moreover have "?x \<in> set rows" "r_owner ?x = ow" using x by (auto simp: owned_def)
  ultimately have "row_at rows (ow, i) = Some ?x" using row_at_in [of rows ?x] wf by (simp add: table_wf_def r_key_def)
  then show False using assms(2) \<open>r_status ?x = MonitoredTxStatusConfirmed\<close> by (simp add: failed_at_def)
qed

lemma failed_is_listed: "failed_at ow i rows \<Longrightarrow> list_results env ow t rows \<noteq> Inr []"
proof
  assume f: "failed_at ow i rows" and l: "list_results env ow t rows = Inr []"
  then obtain r where r: "row_at rows (ow, i) = Some r" "r_status r = MonitoredTxStatusFailed" "table_wf rows" by (auto simp: failed_at_def)
  then have "r \<in> set (owned ow rows)" using row_at_Some [OF r(1)] by (auto simp: owned_def pendingStatuses_def r_key_def)
  then show False using list_results_Inr [OF l r(3)] by auto
qed

text \<open>
  \<open>ProcessPendingMonitoredTxs\<close> does not return while a transaction of the owner is in the status failed: it
  hands the result to the handler in every round and asks for the results again, for nothing but
  the owner's confirmed results are ever set done. Only another writer can end the loop.
\<close>

theorem failed_blocks_its_owner:
  assumes "others_keep_failed env ow i" "failed_at ow i rows"
  shows "ProcessPendingMonitoredTxs env ow t rows handled = None"
proof (rule ccontr)
  assume "ProcessPendingMonitoredTxs env ow t rows handled \<noteq> None"
  then obtain y where y: "ProcessPendingMonitoredTxs env ow t rows handled = Some y" by blast
  have "others_keep_failed env ow i \<longrightarrow> \<not> failed_at ow i rows"
  proof (rule ProcessPendingMonitoredTxs.raw_induct [OF _ y])
    fix f :: "owner_env \<Rightarrow> string \<Rightarrow> nat \<Rightarrow> Row list \<Rightarrow> MonitoredTxResult list \<Rightarrow> (MonitoredTxResult list \<times> Row list) option"
      and env ow t rows h y
    assume IH: "\<And>env ow t rows h y. f env ow t rows h = Some y \<Longrightarrow> others_keep_failed env ow i \<longrightarrow> \<not> failed_at ow i rows"
      and b: "(let rows1 = oe_others env t rows in
        case list_results env ow t rows1 of Inl _ \<Rightarrow> f env ow (t + 1) rows1 h
        | Inr results \<Rightarrow> if results = [] then Some (h, rows1)
            else Option.bind (handle_results env ow results (t + 1) rows1 h) (\<lambda>p. f env ow (fst p) (fst (snd p)) (snd (snd p)))) = Some y"
    show "others_keep_failed env ow i \<longrightarrow> \<not> failed_at ow i rows"
    proof (intro impI notI)
      assume k: "others_keep_failed env ow i" and "failed_at ow i rows"
      then have f1: "failed_at ow i (oe_others env t rows)" by (rule others_failed)
      show False
      proof (cases "list_results env ow t (oe_others env t rows)")
        case (Inl e)
        then show False using b IH k f1 by auto
      next
        case (Inr rs)
        then have ne: "rs \<noteq> []" using failed_is_listed [OF f1] by blast
        have ids: "\<forall>r\<in>set rs. re_Status r = MonitoredTxStatusConfirmed \<longrightarrow> re_ID r \<noteq> i"
          using confirmed_ids_differ [OF Inr f1] by blast
        obtain p where p: "handle_results env ow rs (t + 1) (oe_others env t rows) h = Some p"
            "f env ow (fst p) (fst (snd p)) (snd (snd p)) = Some y"
          using b Inr ne by (auto simp: bind_eq_Some_conv)
        then show False using IH k handle_results_failed [OF p(1) k f1 ids] by blast
      qed
    qed
  qed
  then show False using assms by blast
qed

section \<open>Transactions that are confirmed\<close>

text \<open>
  An owner who is alone with a table and a network that answer: no step of another thread, and so no
  \<open>Reorg\<close> and no monitoring, between the turns of the loop, and no error.
\<close>

definition quiet :: "owner_env \<Rightarrow> bool" where
  "quiet env \<longleftrightarrow> (\<forall>t. oe_others env t = (\<lambda>rows. rows) \<and> oe_db env t = None) \<and> (\<forall>t m. \<exists>r. buildResult (oe_net env t) m = Inr r)"

text \<open>The rows of an owner: done, or confirmed with an identifier of the list.\<close>

definition confirmed_ids :: "string \<Rightarrow> string list \<Rightarrow> Row list \<Rightarrow> bool" where
  "confirmed_ids ow ids rows \<longleftrightarrow> table_wf rows \<and> (\<forall>i\<in>set ids. row_at rows (ow, i) \<noteq> None) \<and>
     (\<forall>r\<in>set rows. r_owner r = ow \<longrightarrow>
        r_status r = MonitoredTxStatusDone \<or> r_status r = MonitoredTxStatusConfirmed \<and> r_id r \<in> set ids)"

lemma build_results_total: "(\<And>m. \<exists>r. buildResult nt m = Inr r) \<Longrightarrow> \<exists>rs. build_results nt ms = Inr rs"
proof (induction ms)
  case (Cons m ms)
  obtain r rs where "buildResult nt m = Inr r" "build_results nt ms = Inr rs" using Cons by blast
  then show ?case by simp
qed simp

lemma list_results_quiet: "quiet env \<Longrightarrow> table_wf rows \<Longrightarrow> \<exists>rs. list_results env ow t rows = Inr rs"
proof -
  assume q: "quiet env" and wf: "table_wf rows"
  have "\<exists>rs. build_results (oe_net env t) ms = Inr rs" for ms using build_results_total q unfolding quiet_def by blast
  then obtain rs where "build_results (oe_net env t) (map row_mtx (sort_key r_created_at
      (filter (\<lambda>r. (case Some ow of None \<Rightarrow> True | Some o' \<Rightarrow> r_owner r = o') \<and>
        (pendingStatuses \<noteq> [] \<longrightarrow> r_status r \<in> set pendingStatuses)) rows))) = Inr rs" by blast
  then show ?thesis using q GetByStatus_readable [OF wf, of "Some ow" pendingStatuses]
    by (simp add: list_results_def quiet_def ResultsByStatus_def)
qed

lemma done_call_quiet:
  assumes "quiet env" "confirmed_ids ow (i # ids) rows"
  shows "\<exists>rows'. done_call env ow i t rows = (None, rows') \<and> confirmed_ids ow ids rows'"
proof -
  have wf: "table_wf rows" and "row_at rows (ow, i) \<noteq> None" using assms(2) by (auto simp: confirmed_ids_def)
  then obtain r where r: "row_at rows (ow, i) = Some r" by blast
  let ?m = "row_mtx r\<lparr>m_status := MonitoredTxStatusDone\<rparr>" and ?now = "oe_now env (t + 1)"
  have key: "m_key ?m = (ow, i)" using row_at_Some [OF r] m_key_row_mtx [of r] by (simp add: m_key_def)
  have "done_call env ow i t rows = (None, storage_Update ?m ?now rows)"
    using assms(1) r by (simp add: done_call_def quiet_def setStatusDone_def Get_row_at [OF wf])
  moreover have "confirmed_ids ow ids (storage_Update ?m ?now rows)"
  proof -
    have "row_at (storage_Update ?m ?now rows) (ow, j) \<noteq> None" if "j \<in> set ids" for j
      using that assms(2) by (auto simp: confirmed_ids_def pg.at_upd)
    moreover have "r_status x = MonitoredTxStatusDone \<or> r_status x = MonitoredTxStatusConfirmed \<and> r_id x \<in> set ids"
      if x: "x \<in> set (storage_Update ?m ?now rows)" "r_owner x = ow" for x
    proof -
      obtain y where y: "y \<in> set rows" "x = (if r_key y = m_key ?m then row_of (r_created_at y) ?now ?m else y)"
        using x(1) by (auto simp: storage_Update_def)
      show ?thesis
      proof (cases "r_key y = m_key ?m")
        case False
        then have "x = y" "r_id x \<noteq> i" using y(2) key x(2) by (auto simp: r_key_def)
        then show ?thesis using assms(2) y(1) x(2) by (auto simp: confirmed_ids_def)
      qed (use y in simp)
    qed
    ultimately show ?thesis using table_wf_Update [OF wf] by (simp add: confirmed_ids_def)
  qed
  ultimately show ?thesis by blast
qed

lemma handle_results_quiet:
  assumes "quiet env" "confirmed_ids ow (map re_ID rs) rows" "\<forall>r\<in>set rs. re_Status r = MonitoredTxStatusConfirmed"
  shows "\<exists>t' rows'. handle_results env ow rs t rows h = Some (t', rows', h @ rs) \<and> confirmed_ids ow [] rows'"
  using assms(2,3)
proof (induction rs arbitrary: t rows h)
  case (Cons r rs)
  obtain rows1 where d: "done_call env ow (re_ID r) t rows = (None, rows1)" "confirmed_ids ow (map re_ID rs) rows1"
    using done_call_quiet [OF assms(1), of ow "re_ID r" "map re_ID rs" rows] Cons.prems(1) by auto
  then show ?case using Cons.IH [OF d(2), of "t + 2" "h @ [r]"] Cons.prems(2) by simp
qed simp

lemma results_of_done: "confirmed_ids ow [] rows \<Longrightarrow> owned ow rows = []"
  by (auto simp: confirmed_ids_def owned_def pendingStatuses_def filter_empty_conv)

lemma process_done:
  assumes "quiet env" "confirmed_ids ow [] rows"
  shows "ProcessPendingMonitoredTxs env ow t rows h = Some (h, rows)"
proof -
  have wf: "table_wf rows" using assms(2) by (simp add: confirmed_ids_def)
  obtain rs where rs: "list_results env ow t rows = Inr rs" using list_results_quiet [OF assms(1) wf] by blast
  then have "rs = []" using list_results_Inr [OF rs wf] results_of_done [OF assms(2)] by simp
  then show ?thesis using rs assms(1) by (subst ProcessPendingMonitoredTxs.simps) (simp add: quiet_def)
qed

text \<open>
  C23. When the transactions of an owner are confirmed or done, and the owner is alone with the table and
  the network (\<open>quiet\<close>: while \<open>ProcessPendingMonitoredTxs\<close> runs nobody else writes the table, no statement
  fails and every lookup of the network answers), then \<open>ProcessPendingMonitoredTxs\<close> returns: every
  confirmed one is given to the handler exactly once, in the order of creation, and all of them are done
  afterwards. The condition is needed: a \<open>Reorg\<close> in between sets a row that was handled back to
  reorged, and when it is confirmed again it is handled again; a failing statement is retried.
\<close>

theorem confirmed_are_handled_once:
  assumes "quiet env" "table_wf rows"
    and "\<And>r. r \<in> set rows \<Longrightarrow> r_owner r = ow \<Longrightarrow> r_status r \<in> {MonitoredTxStatusConfirmed, MonitoredTxStatusDone}"
  shows "\<exists>results rows'. ProcessPendingMonitoredTxs env ow t rows [] = Some (results, rows') \<and>
    map re_ID results = map r_id (sort_key r_created_at
      (filter (\<lambda>r. r_owner r = ow \<and> r_status r = MonitoredTxStatusConfirmed) rows)) \<and>
    (\<forall>r\<in>set rows'. r_owner r = ow \<longrightarrow> r_status r = MonitoredTxStatusDone)"
proof -
  obtain rs where rs: "list_results env ow t rows = Inr rs" using list_results_quiet [OF assms(1,2)] by blast
  note ids = list_results_Inr [OF rs assms(2)]
  have ow: "owned ow rows = sort_key r_created_at (filter (\<lambda>r. r_owner r = ow \<and> r_status r = MonitoredTxStatusConfirmed) rows)"
  proof -
    have "(r_owner r = ow \<and> r_status r \<in> set pendingStatuses) = (r_owner r = ow \<and> r_status r = MonitoredTxStatusConfirmed)"
      if "r \<in> set rows" for r using assms(3) [OF that] by (auto simp: pendingStatuses_def)
    then have "filter (\<lambda>r. r_owner r = ow \<and> r_status r \<in> set pendingStatuses) rows =
        filter (\<lambda>r. r_owner r = ow \<and> r_status r = MonitoredTxStatusConfirmed) rows" by (rule filter_cong [OF refl])
    then show ?thesis by (simp add: owned_def)
  qed
  have "confirmed_ids ow (map re_ID rs) rows"
  proof -
    have "row_at rows (ow, r_id r) \<noteq> None" if "r \<in> set (owned ow rows)" for r
      using that row_at_in [of rows r] assms(2) by (auto simp: owned_def table_wf_def r_key_def)
    then show ?thesis using assms ids unfolding confirmed_ids_def by (auto simp: ow)
  qed
  moreover have st: "re_Status r = MonitoredTxStatusConfirmed" if "r \<in> set rs" for r
  proof -
    have "re_Status r \<in> set (map r_status (owned ow rows))" using ids that by (metis image_eqI set_map)
    then show ?thesis by (auto simp: ow)
  qed
  ultimately obtain t' rows' where h: "handle_results env ow rs (t + 1) rows [] = Some (t', rows', rs)" "confirmed_ids ow [] rows'"
    using handle_results_quiet [OF assms(1), of ow rs rows "t + 1" "[]"] by auto
  have "\<exists>rows'. ProcessPendingMonitoredTxs env ow t rows [] = Some (rs, rows') \<and> confirmed_ids ow [] rows'"
  proof (cases "rs = []")
    case True
    then have "rows' = rows" using h(1) by simp
    then show ?thesis using process_done [OF assms(1)] h(2) True by blast
  next
    case False
    then have "ProcessPendingMonitoredTxs env ow t rows [] = ProcessPendingMonitoredTxs env ow t' rows' rs"
      using rs h(1) assms(1) by (subst ProcessPendingMonitoredTxs.simps) (simp add: quiet_def)
    then show ?thesis using process_done [OF assms(1) h(2)] h(2) by auto
  qed
  then obtain rows2 where "ProcessPendingMonitoredTxs env ow t rows [] = Some (rs, rows2)" "confirmed_ids ow [] rows2" by blast
  then show ?thesis using ids ow by (auto simp: confirmed_ids_def)
qed

section \<open>Instances\<close>

definition sample_env :: owner_env where
  "sample_env = \<lparr>oe_net = (\<lambda>_. sample_net), oe_others = (\<lambda>_ rows. rows), oe_db = (\<lambda>_. None), oe_now = (\<lambda>_. 0)\<rparr>"

lemma sample_buildResult: "\<exists>r. buildResult sample_net m = Inr r"
proof -
  have "tx_result sample_net h = Inr \<lparr>tr_Tx = None, tr_Receipt = None, tr_RevertMessage = []\<rparr>" for h
    by (simp add: tx_result_def GetTx_def GetTxReceipt_def GetRevertMessage_def sample_net_def or_nil_def)
  then have "\<exists>txs'. build_txs sample_net hs txs = Inr txs'" for hs txs
    by (induction hs arbitrary: txs) simp_all
  then obtain txs where "build_txs sample_net (n_range sample_net (m_history m)) [] = Inr txs" by blast
  then show ?thesis by (simp add: buildResult_def)
qed

lemma sample_table: "table_wf [sample_row st hs b]"
  by (simp add: table_wf_def sample_row_def)

theorem failed_blocks_its_owner_witness:
  "ProcessPendingMonitoredTxs sample_env ''sequencer'' 0 [sample_row MonitoredTxStatusFailed [9] (Some 20)] [] = None"
proof (rule failed_blocks_its_owner [where i = "''a''"])
  show "others_keep_failed sample_env ''sequencer'' ''a''" by (simp add: others_keep_failed_def sample_env_def)
  show "failed_at ''sequencer'' ''a'' [sample_row MonitoredTxStatusFailed [9] (Some 20)]"
    by (simp add: failed_at_def sample_table sample_row_at) (simp add: sample_row_def added_mtx_def)
qed

theorem confirmed_are_handled_once_witness:
  "\<exists>results rows'. ProcessPendingMonitoredTxs sample_env ''sequencer'' 0 [sample_row MonitoredTxStatusConfirmed [9] (Some 20)] [] =
      Some (results, rows') \<and> map re_ID results = [''a''] \<and> (\<forall>r\<in>set rows'. r_owner r = ''sequencer'' \<longrightarrow> r_status r = MonitoredTxStatusDone)"
proof -
  let ?r = "sample_row MonitoredTxStatusConfirmed [9] (Some 20)"
  have r: "r_status ?r = MonitoredTxStatusConfirmed" "r_owner ?r = ''sequencer''" "r_id ?r = ''a''"
    by (simp_all add: sample_row_def added_mtx_def sample_mtx_def row_of_def)
  have q: "quiet sample_env" using sample_buildResult by (simp add: quiet_def sample_env_def)
  show ?thesis using confirmed_are_handled_once [OF q sample_table [of MonitoredTxStatusConfirmed "[9]" "Some 20"], of "''sequencer''" 0]
    by (simp add: r)
qed

end
