(* ===== verification/SequenceSender.thy ===== *)
theory SequenceSender
  imports EthTxResults
begin

text \<open>
  The sequence sender: \<open>sequencesender/sequencesender.go\<close>, over the model of the transaction manager. It collects the
  closed batches that are not yet virtual into one transaction to the contract. The state and the node of L1, which
  it reaches through interfaces, are the record \<open>seq_env\<close>; a call that is made in several places takes the place as an
  argument, for its answers may differ. A loop that does not end is \<open>None\<close>; \<open>log.Fatalf\<close> ends the process. The
  properties: what is sent are the next batches in order, none beyond a fork upgrade; the loop ends at the batch that is
  open; a batch that is too big for a transaction is never sent.
\<close>

section \<open>Data\<close>

datatype seq_error =
    SeqNotFound
  | ErrInsufficientAllowance
  | ErrGasRequiredExceedsAllowance
  | ErrContentLengthTooLarge
  | ErrTimestampMustBeInsideRange
  | ErrOversizedData
  | ForkUpgradeReached u64
  | SeqError string

record Sequence =
  s_GlobalExitRoot :: hash
  s_Timestamp :: int
  s_BatchL2Data :: bytes
  s_BatchNumber :: u64
  s_ForcedBatchTimestamp :: int

record StateBatch =
  sb_BatchNumber :: u64
  sb_GlobalExitRoot :: hash
  sb_Timestamp :: int
  sb_BatchL2Data :: bytes
  sb_ForcedBatchNum :: "u64 option"

record SeqConfig =
  LastBatchVirtualizationTimeMaxWaitPeriod :: int
  MaxTxSizeForL1 :: u64
  SenderAddress :: address
  L2Coinbase :: address
  ForkUpgradeBatchNumber :: u64
  GasOffset :: u64

datatype seq_site = InIsSynced | InGetSequences | InTryToSend | InLoop | AsSanityCheck

record seq_env =
  GetLastVirtualBatchNum :: "seq_site \<Rightarrow> seq_error + u64"
  IsBatchClosed :: "u64 \<Rightarrow> seq_error + bool"
  GetBatchByNumber :: "u64 \<Rightarrow> seq_error + StateBatch"
  GetForcedBatch_ForcedAt :: "u64 \<Rightarrow> seq_error + int"
  GetTimeForLatestBatchVirtualization :: "seq_error + int"
  GetLastBatchNumber :: "seq_error + u64"
  GetLatestBatchNumber :: "seq_error + u64"
  GetLastBatchTimestamp :: "seq_error + u64"
  EstimateGasSequenceBatches :: "seq_site \<Rightarrow> address \<Rightarrow> Sequence list \<Rightarrow> address \<Rightarrow> seq_error + u64"
  BuildSequenceBatchesTxData :: "address \<Rightarrow> Sequence list \<Rightarrow> address \<Rightarrow> seq_error + address option \<times> bytes"

text \<open>The transaction that \<open>EstimateGasSequenceBatches\<close> returns is read only for its size.\<close>

datatype seq_out = SeqReturn "Sequence list option" "seq_error option" | SeqFatal

definition ethTxManagerOwner :: string where "ethTxManagerOwner = ''sequencer''"

definition monitoredTxID :: "u64 \<Rightarrow> u64 \<Rightarrow> string" where
  "monitoredTxID a b = ''sequence-from-'' @ go_itoa (unat a) @ ''-to-'' @ go_itoa (unat b)"

section \<open>Errors of the estimation\<close>

definition isDataForEthTxTooBig :: "seq_error \<Rightarrow> bool" where
  "isDataForEthTxTooBig err \<longleftrightarrow> err = ErrGasRequiredExceedsAllowance \<or> err = ErrOversizedData \<or> err = ErrContentLengthTooLarge"

text \<open>Whether the timestamps, as 64-bit numbers with a sign, do not decrease.\<close>

fun timestamps_ok :: "u64 \<Rightarrow> Sequence list \<Rightarrow> bool" where
  "timestamps_ok lastTimestamp [] = True"
| "timestamps_ok lastTimestamp (seq # seqs) =
     (if s_Timestamp seq < sint lastTimestamp then False else timestamps_ok (of_int (s_Timestamp seq)) seqs)"

definition handleEstimateGasSendSequenceErr :: "seq_env \<Rightarrow> Sequence list \<Rightarrow> seq_error \<Rightarrow> seq_out" where
  "handleEstimateGasSendSequenceErr env sequences err =
     (if err = ErrInsufficientAllowance then SeqReturn None (Some err)
      else if isDataForEthTxTooBig err then SeqReturn (Some (butlast sequences)) None
      else if err = ErrTimestampMustBeInsideRange then
        (case GetLastBatchTimestamp env of
           Inl e \<Rightarrow> SeqReturn None (Some e)
         | Inr lastTimestamp \<Rightarrow> if timestamps_ok lastTimestamp sequences then SeqReturn None None else SeqFatal)
      else SeqReturn (Some (butlast sequences)) None)"

text \<open>What the loop does with it: sequences are estimated again as a sanity check.\<close>

definition after_handling :: "seq_env \<Rightarrow> SeqConfig \<Rightarrow> seq_out \<Rightarrow> seq_out" where
  "after_handling env cfg r =
     (case r of
        SeqReturn (Some sequences) err \<Rightarrow> SeqReturn (Some sequences)
          (case EstimateGasSequenceBatches env AsSanityCheck (SenderAddress cfg) sequences (L2Coinbase cfg) of
             Inl e \<Rightarrow> Some e | Inr txSize \<Rightarrow> None)
      | _ \<Rightarrow> r)"

section \<open>Sequences to send\<close>

definition new_sequence :: "seq_env \<Rightarrow> u64 \<Rightarrow> seq_error + Sequence" where
  "new_sequence env n =
     (case GetBatchByNumber env n of
        Inl e \<Rightarrow> Inl e
      | Inr batch \<Rightarrow>
          (let seq = \<lparr>s_GlobalExitRoot = sb_GlobalExitRoot batch, s_Timestamp = sb_Timestamp batch,
                      s_BatchL2Data = sb_BatchL2Data batch, s_BatchNumber = sb_BatchNumber batch, s_ForcedBatchTimestamp = 0\<rparr>
           in case sb_ForcedBatchNum batch of
                None \<Rightarrow> Inr seq
              | Some f \<Rightarrow> map_sum id (\<lambda>t. seq\<lparr>s_ForcedBatchTimestamp := t\<rparr>) (GetForcedBatch_ForcedAt env f)))"

definition estimate_err :: "seq_env \<Rightarrow> SeqConfig \<Rightarrow> Sequence list \<Rightarrow> seq_error option" where
  "estimate_err env cfg sequences =
     (case EstimateGasSequenceBatches env InLoop (SenderAddress cfg) sequences (L2Coinbase cfg) of
        Inl e \<Rightarrow> Some e
      | Inr txSize \<Rightarrow> if txSize > MaxTxSizeForL1 cfg then Some ErrOversizedData else None)"

text \<open>The loop returns, or breaks with the sequences it collected.\<close>

partial_function (option) sequence_loop :: "seq_env \<Rightarrow> SeqConfig \<Rightarrow> u64 \<Rightarrow> Sequence list \<Rightarrow> (seq_out + Sequence list) option" where
  "sequence_loop env cfg n sequences =
     (if ForkUpgradeBatchNumber cfg \<noteq> 0 \<and> n = ForkUpgradeBatchNumber cfg + 1
      then Some (Inl (SeqReturn None (Some (ForkUpgradeReached (ForkUpgradeBatchNumber cfg + 1)))))
      else case IsBatchClosed env n of
        Inl e \<Rightarrow> Some (Inl (SeqReturn None (Some e)))
      | Inr isClosed \<Rightarrow>
          if \<not> isClosed then Some (Inr sequences)
          else case new_sequence env n of
            Inl e \<Rightarrow> Some (Inl (SeqReturn None (Some e)))
          | Inr seq \<Rightarrow>
              (case estimate_err env cfg (sequences @ [seq]) of
                 Some err \<Rightarrow> Some (Inl (after_handling env cfg (handleEstimateGasSendSequenceErr env (sequences @ [seq]) err)))
               | None \<Rightarrow>
                   if ForkUpgradeBatchNumber cfg \<noteq> 0 \<and> n = ForkUpgradeBatchNumber cfg
                   then Some (Inl (SeqReturn (Some (sequences @ [seq])) None))
                   else sequence_loop env cfg (n + 1) (sequences @ [seq])))"

text \<open>The zero \<open>time.Time\<close>, in nanoseconds.\<close>

definition zeroTime :: int where "zeroTime = - 62135596800000000000"

definition decide :: "seq_env \<Rightarrow> SeqConfig \<Rightarrow> int \<Rightarrow> Sequence list \<Rightarrow> seq_out" where
  "decide env cfg now sequences =
     (if sequences = [] then SeqReturn None None
      else case (case GetTimeForLatestBatchVirtualization env of Inl SeqNotFound \<Rightarrow> Inr zeroTime | r \<Rightarrow> r) of
        Inl e \<Rightarrow> SeqReturn (Some sequences) None
      | Inr t \<Rightarrow> if t < now - LastBatchVirtualizationTimeMaxWaitPeriod cfg then SeqReturn (Some sequences) None
                 else SeqReturn None None)"

definition getSequencesToSend :: "seq_env \<Rightarrow> SeqConfig \<Rightarrow> int \<Rightarrow> seq_out option" where
  "getSequencesToSend env cfg now =
     (case GetLastVirtualBatchNum env InGetSequences of
        Inl e \<Rightarrow> Some (SeqReturn None (Some e))
      | Inr lastVirtualBatchNum \<Rightarrow>
          map_option (\<lambda>r. case r of Inl ret \<Rightarrow> ret | Inr sequences \<Rightarrow> decide env cfg now sequences)
            (sequence_loop env cfg (lastVirtualBatchNum + 1) []))"

section \<open>A round of the sender\<close>

definition num_or_zero :: "seq_error + u64 \<Rightarrow> u64 option" where
  "num_or_zero r = (case r of Inr n \<Rightarrow> Some n | Inl SeqNotFound \<Rightarrow> Some 0 | Inl e \<Rightarrow> None)"

definition isSynced :: "seq_env \<Rightarrow> bool" where
  "isSynced env =
     (case num_or_zero (GetLastVirtualBatchNum env InIsSynced) of
        None \<Rightarrow> False
      | Some lastSyncedBatchNum \<Rightarrow>
          (case num_or_zero (GetLastBatchNumber env) of
             None \<Rightarrow> False
           | Some lastBatchNum \<Rightarrow>
               if lastBatchNum > lastSyncedBatchNum then True
               else case GetLatestBatchNumber env of
                 Inl e \<Rightarrow> False
               | Inr lastEthBatchNum \<Rightarrow> \<not> lastSyncedBatchNum < lastEthBatchNum))"

datatype round_end = Retry | Waited | Returned | Added | Fatal

definition send_sequences ::
  "seq_env \<Rightarrow> SeqConfig \<Rightarrow> Config \<Rightarrow> net \<Rightarrow> int \<Rightarrow> Sequence list \<Rightarrow> Row list \<Rightarrow> round_end \<times> Row list" where
  "send_sequences env cfg ecfg nt now sequences rows =
     (case GetLastVirtualBatchNum env InTryToSend of
        Inl e \<Rightarrow> (Returned, rows)
      | Inr lastVirtualBatchNum \<Rightarrow>
          (case BuildSequenceBatchesTxData env (SenderAddress cfg) sequences (L2Coinbase cfg) of
             Inl e \<Rightarrow> (Returned, rows)
           | Inr (to', data) \<Rightarrow>
               (case client_Add ecfg nt ethTxManagerOwner
                       (monitoredTxID (s_BatchNumber (hd sequences)) (s_BatchNumber (last sequences)))
                       (SenderAddress cfg) to' None (Some data) (GasOffset cfg) now rows of
                  Inl e \<Rightarrow> (Returned, rows)
                | Inr rows' \<Rightarrow> (Added, rows'))))"

definition tryToSendSequence ::
  "seq_env \<Rightarrow> SeqConfig \<Rightarrow> owner_env \<Rightarrow> Config \<Rightarrow> net \<Rightarrow> int \<Rightarrow> Row list \<Rightarrow> (round_end \<times> Row list) option" where
  "tryToSendSequence env cfg oenv ecfg nt now rows =
     Option.bind (ProcessPendingMonitoredTxs oenv ethTxManagerOwner 0 rows []) (\<lambda>(results, rows1).
       if list_ex (\<lambda>r. re_Status r = MonitoredTxStatusFailed) results then Some (Retry, rows1)
       else if \<not> isSynced env then Some (Waited, rows1)
       else map_option (\<lambda>r. case r of
              SeqFatal \<Rightarrow> (Fatal, rows1)
            | SeqReturn seqs err \<Rightarrow>
                if err \<noteq> None \<or> seqs = None \<or> seqs = Some [] then (Waited, rows1)
                else send_sequences env cfg ecfg nt now (the seqs) rows1)
            (getSequencesToSend env cfg now))"

section \<open>What is collected\<close>

text \<open>The sequences are those of the closed batches \<open>n\<close>, \<open>n + 1\<close> and so on, none of them past the fork upgrade.\<close>

definition collected :: "seq_env \<Rightarrow> SeqConfig \<Rightarrow> u64 \<Rightarrow> Sequence list \<Rightarrow> bool" where
  "collected env cfg n seqs \<longleftrightarrow> (\<forall>i < length seqs. IsBatchClosed env (n + of_nat i) = Inr True \<and>
     new_sequence env (n + of_nat i) = Inr (seqs ! i) \<and>
     (ForkUpgradeBatchNumber cfg \<noteq> 0 \<longrightarrow> n + of_nat i \<noteq> ForkUpgradeBatchNumber cfg + 1))"

definition fit_L1 :: "seq_env \<Rightarrow> SeqConfig \<Rightarrow> Sequence list \<Rightarrow> bool" where
  "fit_L1 env cfg seqs \<longleftrightarrow> seqs \<noteq> [] \<longrightarrow> estimate_err env cfg seqs = None"

lemma collected_Nil [simp]: "collected env cfg n []" "fit_L1 env cfg []"
  by (simp_all add: collected_def fit_L1_def)

lemma collected_snoc:
  "collected env cfg n (seqs @ [seq]) \<longleftrightarrow> collected env cfg n seqs \<and> IsBatchClosed env (n + of_nat (length seqs)) = Inr True \<and>
     new_sequence env (n + of_nat (length seqs)) = Inr seq \<and>
     (ForkUpgradeBatchNumber cfg \<noteq> 0 \<longrightarrow> n + of_nat (length seqs) \<noteq> ForkUpgradeBatchNumber cfg + 1)"
  by (auto simp: collected_def nth_append less_Suc_eq)

lemma after_handling_Some:
  assumes "after_handling env cfg (handleEstimateGasSendSequenceErr env (seqs @ [seq]) err) = SeqReturn (Some ss) e"
  shows "ss = seqs"
  using assms
  by (auto simp: after_handling_def handleEstimateGasSendSequenceErr_def split: if_splits sum.splits seq_out.splits option.splits)

lemma sequence_loop_collects:
  assumes "sequence_loop env cfg n seqs = Some y" "collected env cfg n0 seqs" "fit_L1 env cfg seqs" "n = n0 + of_nat (length seqs)"
    and "y = Inr ss \<or> y = Inl (SeqReturn (Some ss) e)"
  shows "collected env cfg n0 ss \<and> fit_L1 env cfg ss"
proof -
  have "collected env cfg n0 seqs \<longrightarrow> fit_L1 env cfg seqs \<longrightarrow> n = n0 + of_nat (length seqs) \<longrightarrow>
     (y = Inr ss \<or> y = Inl (SeqReturn (Some ss) e)) \<longrightarrow> collected env cfg n0 ss \<and> fit_L1 env cfg ss"
  proof (rule sequence_loop.raw_induct [OF _ assms(1)], goal_cases)
    case (1 f env cfg n seqs y)
    show ?case
    proof (intro impI)
      assume inv: "collected env cfg n0 seqs" "fit_L1 env cfg seqs" "n = n0 + of_nat (length seqs)"
        and y: "y = Inr ss \<or> y = Inl (SeqReturn (Some ss) e)"
      have nf: "\<not> (ForkUpgradeBatchNumber cfg \<noteq> 0 \<and> n = ForkUpgradeBatchNumber cfg + 1)"
        using 1(2) y by (auto split: if_splits)
      then obtain closed where c: "IsBatchClosed env n = Inr closed"
        using 1(2) y by (cases "IsBatchClosed env n") auto
      show "collected env cfg n0 ss \<and> fit_L1 env cfg ss"
      proof (cases closed)
        case False
        then have "y = Inr seqs" using 1(2) c nf by simp
        then show ?thesis using inv y by auto
      next
        case True
        then obtain seq where s: "new_sequence env n = Inr seq" using 1(2) y c nf by (cases "new_sequence env n") auto
        have inv': "collected env cfg n0 (seqs @ [seq])" using inv c True s nf by (auto simp: collected_snoc)
        show ?thesis
        proof (cases "estimate_err env cfg (seqs @ [seq])")
          case (Some err)
          then have "y = Inl (after_handling env cfg (handleEstimateGasSendSequenceErr env (seqs @ [seq]) err))"
            using 1(2) c nf s True by simp
          then show ?thesis using y after_handling_Some [of env cfg seqs seq err ss e] inv by auto
        next
          case None
          then have fit: "fit_L1 env cfg (seqs @ [seq])" by (simp add: fit_L1_def)
          show ?thesis
          proof (cases "ForkUpgradeBatchNumber cfg \<noteq> 0 \<and> n = ForkUpgradeBatchNumber cfg")
            case f: True
            then have "y = Inl (SeqReturn (Some (seqs @ [seq])) None)" using 1(2) c nf s True None by simp
            then show ?thesis using y inv' fit by auto
          next
            case f: False
            then have "f env cfg (n + 1) (seqs @ [seq]) = Some y" using 1(2) c nf s True None by (auto split: if_splits)
            then show ?thesis using 1(1) inv' fit inv(3) y by (fastforce simp: add.assoc)
          qed
        qed
      qed
    qed
  qed
  then show ?thesis using assms(2-) by blast
qed

text \<open>Batch numbers that follow one another and never reach the batch after the upgrade do not pass it.\<close>

lemma below_fork:
  assumes "collected env cfg n seqs" "ForkUpgradeBatchNumber cfg \<noteq> 0" "n \<le> ForkUpgradeBatchNumber cfg" "i < length seqs"
  shows "n + of_nat i \<le> ForkUpgradeBatchNumber cfg"
  using assms(4)
proof (induction i)
  case (Suc i)
  let ?x = "n + of_nat i" and ?f = "ForkUpgradeBatchNumber cfg"
  have "?x \<le> ?f" using Suc by simp
  moreover have "n + of_nat (Suc i) \<noteq> ?f + 1" using assms(1,2) Suc.prems unfolding collected_def by blast
  then have "?x \<noteq> ?f" by (auto simp: add.commute add.left_commute)
  ultimately have "?x < ?f" by simp
  then have "?x + 1 \<le> ?f" by (rule inc_le)
  then show ?case by (simp add: add.commute add.left_commute)
qed (simp add: assms(3))

lemma decide_Some: "decide env cfg now seqs = SeqReturn (Some ss) e \<Longrightarrow> ss = seqs"
  by (auto simp: decide_def split: if_splits sum.splits)

lemma getSequencesToSend_collects:
  assumes "getSequencesToSend env cfg now = Some (SeqReturn (Some ss) e)" "GetLastVirtualBatchNum env InGetSequences = Inr v"
  shows "collected env cfg (v + 1) ss \<and> fit_L1 env cfg ss"
proof -
  obtain y where y: "sequence_loop env cfg (v + 1) [] = Some y"
      "SeqReturn (Some ss) e = (case y of Inl ret \<Rightarrow> ret | Inr seqs \<Rightarrow> decide env cfg now seqs)"
    using assms by (auto simp: getSequencesToSend_def)
  have "y = Inr ss \<or> y = Inl (SeqReturn (Some ss) e)"
    using y(2) decide_Some [of env cfg now _ ss e] by (cases y) auto
  then show ?thesis using sequence_loop_collects [OF y(1), of "v + 1" ss e] by simp
qed

text \<open>
  C14. What \<open>getSequencesToSend\<close> gives to be sent is a run of batches without a gap: it starts with the batch after the
  last virtual one, every batch in it is closed, each sequence carries the data of its batch, the transaction with all of
  them was estimated and is not larger than \<open>MaxTxSizeForL1\<close>. While an upgrade is set and not yet passed, no batch
  is beyond it.
\<close>

theorem sequences_are_next_batches:
  assumes "getSequencesToSend env cfg now = Some (SeqReturn (Some seqs) err)" "GetLastVirtualBatchNum env InGetSequences = Inr v"
    and "i < length seqs"
  shows "IsBatchClosed env (v + 1 + of_nat i) = Inr True \<and> new_sequence env (v + 1 + of_nat i) = Inr (seqs ! i) \<and>
    (\<exists>n. EstimateGasSequenceBatches env InLoop (SenderAddress cfg) seqs (L2Coinbase cfg) = Inr n \<and> n \<le> MaxTxSizeForL1 cfg) \<and>
    (ForkUpgradeBatchNumber cfg \<noteq> 0 \<and> v + 1 \<le> ForkUpgradeBatchNumber cfg \<longrightarrow> v + 1 + of_nat i \<le> ForkUpgradeBatchNumber cfg)"
proof -
  have c: "collected env cfg (v + 1) seqs" and f: "fit_L1 env cfg seqs" using getSequencesToSend_collects [OF assms(1,2)] by auto
  have "\<exists>n. EstimateGasSequenceBatches env InLoop (SenderAddress cfg) seqs (L2Coinbase cfg) = Inr n \<and> n \<le> MaxTxSizeForL1 cfg"
    using f assms(3) by (auto simp: fit_L1_def estimate_err_def split: sum.splits if_splits)
  then show ?thesis using c assms(3) below_fork [OF c _ _ assms(3)] unfolding collected_def by blast
qed

section \<open>The loop ends\<close>

lemma sequence_loop_ends:
  "IsBatchClosed env (n + of_nat k) \<noteq> Inr True \<Longrightarrow> \<exists>y. sequence_loop env cfg n seqs = Some y"
proof (induction k arbitrary: n seqs)
  case 0
  then show ?case by (subst sequence_loop.simps) (auto split: sum.splits)
next
  case (Suc k)
  then have "IsBatchClosed env (n + 1 + of_nat k) \<noteq> Inr True" by (simp add: add.assoc)
  then have "\<exists>y. sequence_loop env cfg (n + 1) (seqs @ [s]) = Some y" for s using Suc.IH by blast
  then show ?case by (subst sequence_loop.simps) (auto split: sum.splits option.splits)
qed

text \<open>
  \<open>getSequencesToSend\<close> returns whenever some batch after the last virtual one is not closed, as the batch the
  sequencer works on: its loop, which has no bound of its own, stops there at the latest.
\<close>

theorem getSequencesToSend_returns:
  assumes "GetLastVirtualBatchNum env InGetSequences = Inr v" "IsBatchClosed env (v + 1 + of_nat k) \<noteq> Inr True"
  shows "\<exists>r. getSequencesToSend env cfg now = Some r"
  using sequence_loop_ends [OF assms(2), of cfg "[]"] assms(1) by (auto simp: getSequencesToSend_def)

section \<open>Batches that are too big\<close>

text \<open>
  If the first batch that is not virtual is too big for a transaction on its own, no round of the sender adds a
  transaction, for as long as that is so: \<open>getSequencesToSend\<close> removes the only sequence and returns an empty list, or an error.
\<close>

theorem oversized_batch_is_never_sent:
  assumes "GetLastVirtualBatchNum env InGetSequences = Inr v" "IsBatchClosed env (v + 1) = Inr True"
    and "new_sequence env (v + 1) = Inr seq" "estimate_err env cfg [seq] = Some err" "isDataForEthTxTooBig err"
    and "tryToSendSequence env cfg oenv ecfg nt now rows = Some (e, rows')"
  shows "e \<noteq> Added"
proof -
  have "err \<noteq> ErrInsufficientAllowance" using assms(5) by (auto simp: isDataForEthTxTooBig_def)
  then have h: "handleEstimateGasSendSequenceErr env [seq] err = SeqReturn (Some []) None"
    using assms(5) by (simp add: handleEstimateGasSendSequenceErr_def)
  have "\<exists>s x. sequence_loop env cfg (v + 1) [] = Some (Inl (SeqReturn s x)) \<and> (x \<noteq> None \<or> s = None \<or> s = Some [])"
    using assms(2-4) h by (subst sequence_loop.simps) (auto simp: after_handling_def)
  then obtain s x where "getSequencesToSend env cfg now = Some (SeqReturn s x)" "x \<noteq> None \<or> s = None \<or> s = Some []"
    using assms(1) by (auto simp: getSequencesToSend_def)
  then show ?thesis using assms(6) by (auto simp: tryToSendSequence_def bind_eq_Some_conv split: if_splits)
qed

section \<open>Sequences that are monitored\<close>

lemma new_sequence_number: "new_sequence env n = Inr s \<Longrightarrow> \<exists>b. GetBatchByNumber env n = Inr b \<and> s_BatchNumber s = sb_BatchNumber b"
  by (auto simp: new_sequence_def map_sum_def split: sum.splits option.splits)

lemma client_Add_row:
  assumes "client_Add cfg nt ow i a to' v d off now rows = Inr rows'"
  shows "\<exists>r. row_at rows' (ow, i) = Some r \<and> r_status r = MonitoredTxStatusCreated \<and> r_from r = a \<and> r_to r = to' \<and>
    r_data r = map_option EncodeToString d \<and> r_gas_offset r = off \<and> r_history r = []"
proof -
  obtain m where m: "storage_Add m now rows = Inr rows'" "m_key m = (ow, i)" "m_status m = MonitoredTxStatusCreated" "m_from m = a"
      "m_to m = to'" "m_data m = d" "m_gasOffset m = off" "m_history m = []"
    using assms by (auto simp: client_Add_def m_key_def map_sum_def split: sum.splits option.splits if_splits)
  then have rows': "rows' = rows @ [row_of now now m]" and new: "m_key m \<notin> r_key ` set rows"
    by (auto simp: storage_Add_def split: if_splits)
  have "row_at rows (ow, i) = None" using row_at_Some [of rows "(ow, i)"] new m(2) by (cases "row_at rows (ow, i)") force+
  then have "row_at rows' (ow, i) = Some (row_of now now m)"
    unfolding rows' row_at_def using m(2) by (induction rows) (auto split: if_splits)
  then show ?thesis using m by (simp add: row_of_def dataStringPtr_def)
qed

text \<open>
  C15. A round that adds a transaction hands the next closed batches to the transaction manager: a run of batches from the
  one after the last virtual batch, encoded by \<open>BuildSequenceBatchesTxData\<close>, recorded as created under an id that names the
  first and the last of them. So a second round for the same batches finds the id taken.
\<close>

theorem added_sequences_are_monitored:
  assumes "tryToSendSequence env cfg oenv ecfg nt now rows = Some (Added, rows')" "GetLastVirtualBatchNum env InGetSequences = Inr v"
    and "\<And>n b. GetBatchByNumber env n = Inr b \<Longrightarrow> sb_BatchNumber b = n"
  shows "\<exists>seqs to' data r. seqs \<noteq> [] \<and> collected env cfg (v + 1) seqs \<and>
    BuildSequenceBatchesTxData env (SenderAddress cfg) seqs (L2Coinbase cfg) = Inr (to', data) \<and>
    row_at rows' (ethTxManagerOwner, monitoredTxID (v + 1) (v + of_nat (length seqs))) = Some r \<and>
    r_status r = MonitoredTxStatusCreated \<and> r_to r = to' \<and> r_data r = Some (EncodeToString data)"
proof -
  obtain results rows1 where p: "ProcessPendingMonitoredTxs oenv ethTxManagerOwner 0 rows [] = Some (results, rows1)"
    using assms(1) by (cases "ProcessPendingMonitoredTxs oenv ethTxManagerOwner 0 rows []") (auto simp: tryToSendSequence_def)
  obtain z where z: "getSequencesToSend env cfg now = Some z"
    using assms(1) p by (cases "getSequencesToSend env cfg now") (auto simp: tryToSendSequence_def split: if_splits)
  have "\<exists>seqs. z = SeqReturn (Some seqs) None \<and> seqs \<noteq> [] \<and> send_sequences env cfg ecfg nt now seqs rows1 = (Added, rows')"
    using assms(1) p z by (cases z) (auto simp: tryToSendSequence_def split: if_splits)
  then obtain seqs where g: "getSequencesToSend env cfg now = Some (SeqReturn (Some seqs) None)" and ne: "seqs \<noteq> []"
      and send: "send_sequences env cfg ecfg nt now seqs rows1 = (Added, rows')"
    using z by auto
  have c: "collected env cfg (v + 1) seqs" using getSequencesToSend_collects [OF g assms(2)] by blast
  have num: "s_BatchNumber (seqs ! i) = v + 1 + of_nat i" if "i < length seqs" for i
  proof -
    have "new_sequence env (v + 1 + of_nat i) = Inr (seqs ! i)" using c that unfolding collected_def by blast
    then show ?thesis using new_sequence_number assms(3) by metis
  qed
  have "s_BatchNumber (hd seqs) = v + 1" using num [of 0] ne by (simp add: hd_conv_nth)
  moreover have "s_BatchNumber (last seqs) = v + of_nat (length seqs)"
  proof -
    obtain k where "length seqs = Suc k" using ne by (cases seqs) auto
    then show ?thesis using num [of k] ne by (simp add: last_conv_nth add.assoc)
  qed
  ultimately obtain to' data where b: "BuildSequenceBatchesTxData env (SenderAddress cfg) seqs (L2Coinbase cfg) = Inr (to', data)"
      "client_Add ecfg nt ethTxManagerOwner (monitoredTxID (v + 1) (v + of_nat (length seqs))) (SenderAddress cfg) to' None (Some data)
        (GasOffset cfg) now rows1 = Inr rows'"
    using send by (auto simp: send_sequences_def split: sum.splits)
  show ?thesis using client_Add_row [OF b(2)] b(1) c ne by auto
qed

section \<open>Instances\<close>

text \<open>
  Three is the last virtual batch, the batches up to six are closed; a sequence takes a hundred bytes.
\<close>

definition sample_seq :: "u64 \<Rightarrow> Sequence" where
  "sample_seq n = \<lparr>s_GlobalExitRoot = 0, s_Timestamp = 5, s_BatchL2Data = [1], s_BatchNumber = n, s_ForcedBatchTimestamp = 0\<rparr>"

definition sample_seq_env :: seq_env where
  "sample_seq_env = \<lparr>GetLastVirtualBatchNum = (\<lambda>_. Inr 3), IsBatchClosed = (\<lambda>n. Inr (n \<le> 6)),
     GetBatchByNumber = (\<lambda>n. Inr \<lparr>sb_BatchNumber = n, sb_GlobalExitRoot = 0, sb_Timestamp = 5, sb_BatchL2Data = [1], sb_ForcedBatchNum = None\<rparr>),
     GetForcedBatch_ForcedAt = (\<lambda>_. Inr 0), GetTimeForLatestBatchVirtualization = Inr 0, GetLastBatchNumber = Inr 7,
     GetLatestBatchNumber = Inr 3, GetLastBatchTimestamp = Inr 0,
     EstimateGasSequenceBatches = (\<lambda>_ _ seqs _. Inr (100 * of_nat (length seqs))),
     BuildSequenceBatchesTxData = (\<lambda>_ seqs _. Inr (Some 9, [1, 2]))\<rparr>"

definition sample_seq_cfg :: "u64 \<Rightarrow> u64 \<Rightarrow> SeqConfig" where
  "sample_seq_cfg maxSize fork = \<lparr>LastBatchVirtualizationTimeMaxWaitPeriod = 10, MaxTxSizeForL1 = maxSize, SenderAddress = 1,
     L2Coinbase = 2, ForkUpgradeBatchNumber = fork, GasOffset = 10\<rparr>"

lemma sample_seq_env_simps [simp]:
  "GetLastVirtualBatchNum sample_seq_env x = Inr 3" "IsBatchClosed sample_seq_env n = Inr (n \<le> 6)"
  "new_sequence sample_seq_env n = Inr (sample_seq n)"
  "GetBatchByNumber sample_seq_env n = Inr b \<Longrightarrow> sb_BatchNumber b = n"
  "estimate_err sample_seq_env (sample_seq_cfg m k) seqs = (if 100 * of_nat (length seqs) > m then Some ErrOversizedData else None)"
  by (auto simp: sample_seq_env_def new_sequence_def sample_seq_def estimate_err_def sample_seq_cfg_def)

lemma sample_sequences:
  "getSequencesToSend sample_seq_env (sample_seq_cfg 250 6) 100 = Some (SeqReturn (Some [sample_seq 4, sample_seq 5]) None)"
  by (simp add: getSequencesToSend_def sequence_loop.simps [of _ _ 4] sequence_loop.simps [of _ _ 5] sequence_loop.simps [of _ _ 6])
    (simp add: handleEstimateGasSendSequenceErr_def isDataForEthTxTooBig_def after_handling_def sample_seq_env_def sample_seq_cfg_def)

theorem sequences_are_next_batches_witness:
  "IsBatchClosed sample_seq_env 5 = Inr True \<and> new_sequence sample_seq_env 5 = Inr (sample_seq 5) \<and> (5 :: u64) \<le> 6"
  using sequences_are_next_batches [OF sample_sequences, of 3 1] by (simp add: sample_seq_cfg_def)

theorem getSequencesToSend_returns_witness: "\<exists>r. getSequencesToSend sample_seq_env (sample_seq_cfg 250 0) 100 = Some r"
  using getSequencesToSend_returns [of sample_seq_env 3 3] by simp

lemma sample_pending: "ProcessPendingMonitoredTxs sample_env ethTxManagerOwner 0 [] [] = Some ([], [])"
  by (subst ProcessPendingMonitoredTxs.simps)
    (simp add: sample_env_def list_results_def ResultsByStatus_def GetByStatus_def)

lemma sample_synced: "isSynced sample_seq_env"
  by (simp add: isSynced_def num_or_zero_def) (simp add: sample_seq_env_def)

lemma sample_oversized: "tryToSendSequence sample_seq_env (sample_seq_cfg 50 0) sample_env sample_cfg sample_net 100 [] = Some (Waited, [])"
proof -
  have "getSequencesToSend sample_seq_env (sample_seq_cfg 50 0) 100 = Some (SeqReturn (Some []) None)"
    by (simp add: getSequencesToSend_def sequence_loop.simps [of _ _ 4])
      (simp add: handleEstimateGasSendSequenceErr_def isDataForEthTxTooBig_def after_handling_def sample_seq_env_def sample_seq_cfg_def)
  then show ?thesis by (simp add: tryToSendSequence_def sample_pending sample_synced)
qed

theorem oversized_batch_is_never_sent_witness:
  "tryToSendSequence sample_seq_env (sample_seq_cfg 50 0) sample_env sample_cfg sample_net 100 [] = Some (Waited, []) \<and> Waited \<noteq> Added"
  using oversized_batch_is_never_sent [of sample_seq_env 3 "sample_seq 4" "sample_seq_cfg 50 0" ErrOversizedData
      sample_env sample_cfg sample_net 100 "[]" Waited "[]"] sample_oversized
  by (simp add: isDataForEthTxTooBig_def)

lemma sample_sent:
  "\<exists>rows'. tryToSendSequence sample_seq_env (sample_seq_cfg 250 6) sample_env sample_cfg sample_net 100 [] = Some (Added, rows')"
  by (simp add: tryToSendSequence_def sample_pending sample_synced sample_sequences)
    (simp add: send_sequences_def sample_seq_env_def client_Add_def CurrentNonce_def EstimateGas_def suggestedGasPrice_def
      SuggestedGasPrice_def GetL1GasPrice_def sample_net_def storage_Add_def)

theorem added_sequences_are_monitored_witness:
  "\<exists>rows' seqs r. tryToSendSequence sample_seq_env (sample_seq_cfg 250 6) sample_env sample_cfg sample_net 100 [] = Some (Added, rows') \<and>
     seqs \<noteq> [] \<and> row_at rows' (ethTxManagerOwner, monitoredTxID 4 (3 + of_nat (length seqs))) = Some r \<and> r_status r = MonitoredTxStatusCreated"
proof -
  obtain rows' where r: "tryToSendSequence sample_seq_env (sample_seq_cfg 250 6) sample_env sample_cfg sample_net 100 [] = Some (Added, rows')"
    using sample_sent by blast
  show ?thesis using added_sequences_are_monitored [OF r, of 3] r by auto
qed

end
