(* ===== verification/PoolStorage.thy ===== *)
theory PoolStorage
  imports Finalizer GoFloat
begin

text \<open>
  The transactions of the pool and their tables: \<open>pool/transaction.go\<close>, \<open>pool/errors.go\<close> and
  \<open>pool/pgpoolstorage/pgpoolstorage.go\<close>. A table is the list of its rows; each SQL statement of the source
  is a function on that list. Addresses and hashes are columns of their own types, for the text that
  go-ethereum writes of them is read back as the same value. go-ethereum is the record \<open>pool_geth\<close>. What the
  server decides is the record \<open>pool_pg\<close>: which statement fails, and in which order it returns rows that no
  \<open>ORDER BY\<close> orders. The widths of the integer columns are those of \<open>db/migrations/pool\<close>. The properties: every
  row the program writes can be read back, the hash is a key, the current price survives the deletion of old
  ones.
\<close>

section \<open>Transactions\<close>

text \<open>
  A \<open>types.Transaction\<close> of any type: the fields all types have, and the chain of the types that name it.
\<close>

record EthTx =
  eth_Type :: u8
  eth_chainID :: int
  eth_inner :: LegacyTx

record pool_geth =
  pg_geth :: geth
  tx_Hash :: "EthTx \<Rightarrow> hash"
  tx_Size :: "EthTx \<Rightarrow> u64"
  tx_Cost :: "EthTx \<Rightarrow> int"
  tx_MarshalBinary :: "EthTx \<Rightarrow> go_error + bytes"
  tx_MarshalJSON :: "EthTx \<Rightarrow> go_error + string"
  tx_UnmarshalBinary :: "bytes \<Rightarrow> go_error + EthTx"
  EIP155Signer_Sender :: "int \<Rightarrow> EthTx \<Rightarrow> go_error + address"
  ValidateSignatureValues :: "u8 \<Rightarrow> int \<Rightarrow> int \<Rightarrow> bool \<Rightarrow> bool"
  Hash_Hex :: "hash \<Rightarrow> string"
  Hash_Value :: "hash \<Rightarrow> string"

definition LegacyTxType :: u8 where "LegacyTxType = 0"

text \<open>\<open>tx.ChainId()\<close>: of a legacy transaction it is derived from \<open>V\<close>.\<close>

definition tx_ChainId :: "pool_geth \<Rightarrow> EthTx \<Rightarrow> int" where
  "tx_ChainId g tx = (if eth_Type tx = LegacyTxType then ChainId (pg_geth g) (tx_V (eth_inner tx)) else eth_chainID tx)"

definition TxStatusPending :: string where "TxStatusPending = ''pending''"
definition TxStatusSelected :: string where "TxStatusSelected = ''selected''"

record PoolTransaction =
  pt_Transaction :: EthTx
  pt_Status :: string
  pt_ZKCounters :: ZKCounters
  pt_ReceivedAt :: int
  pt_PreprocessedStateRoot :: hash
  pt_IsWIP :: bool
  pt_IP :: string
  pt_FailedReason :: "string option"

record TxStatusUpdateInfo =
  ui_Hash :: hash
  ui_NewStatus :: string
  ui_IsWIP :: bool
  ui_FailedReason :: "string option"

definition emptyZKCounters :: ZKCounters where
  "emptyZKCounters = \<lparr>CumulativeGasUsed = 0, UsedKeccakHashes = 0, UsedPoseidonHashes = 0, UsedPoseidonPaddings = 0,
     UsedMemAligns = 0, UsedArithmetics = 0, UsedBinaries = 0, UsedSteps = 0\<rparr>"

definition NewTransaction :: "EthTx \<Rightarrow> string \<Rightarrow> bool \<Rightarrow> int \<Rightarrow> PoolTransaction" where
  "NewTransaction tx ip isWIP now =
     \<lparr>pt_Transaction = tx, pt_Status = TxStatusPending, pt_ZKCounters = emptyZKCounters, pt_ReceivedAt = now,
      pt_PreprocessedStateRoot = 0, pt_IsWIP = isWIP, pt_IP = ip, pt_FailedReason = None\<rparr>"

datatype pool_error =
    ErrNotFound
  | ErrAlreadyKnown
  | ErrReplaceUnderpriced
  | ErrEffectiveGasPriceGasPriceTooLow
  | ErrEffectiveGasPriceIsZero
  | ErrInvalidChainID
  | ErrTxTypeNotSupported
  | ErrOversizedData
  | ErrNegativeValue
  | ErrInvalidSender
  | ErrBlockedSender
  | ErrGasLimit
  | ErrTxPoolOverflow
  | ErrNonceTooLow
  | ErrNonceTooHigh
  | ErrInsufficientFunds
  | ErrIntrinsicGas
  | ErrGasUintOverflow
  | ErrGasPrice
  | ErrInvalidIP
  | ErrOutOfCounters
  | ErrZeroL1GasPrice
  | DataSizeTooBig int int
  | ChainIdTooHigh
  | StateErrNotFound
  | PgError string
  | HexErr hex_error
  | GethErr go_error
  | StateErr rt_error

text \<open>\<open>state.GetSender\<close>\<close>

definition GetSenderOf :: "pool_geth \<Rightarrow> EthTx \<Rightarrow> go_error + address" where
  "GetSenderOf g tx = EIP155Signer_Sender g (tx_ChainId g tx) tx"

section \<open>The tables\<close>

record pool_row =
  q_hash :: hash
  q_encoded :: string
  q_decoded :: string
  q_status :: string
  q_gas_price :: u64
  q_nonce :: u64
  q_counters :: ZKCounters
  q_received_at :: int
  q_from_address :: address
  q_is_wip :: bool
  q_ip :: string
  q_failed_reason :: "string option"

record gas_price_row =
  gp_item_id :: nat
  gp_price :: u64
  gp_l1_price :: u64
  gp_timestamp :: int

record pool_db =
  db_transaction :: "pool_row list"
  db_gas_price :: "gas_price_row list"
  db_gas_price_seq :: nat
  db_blocked :: "address list"

record pool_pg =
  pg_fails :: "string \<Rightarrow> string option"
  pg_order :: "pool_row list \<Rightarrow> pool_row list"

definition pg_run :: "pool_pg \<Rightarrow> string \<Rightarrow> pool_error + 'a \<Rightarrow> pool_error + 'a" where
  "pg_run pg stmt r = (case pg_fails pg stmt of Some e \<Rightarrow> Inl (PgError e) | None \<Rightarrow> r)"

text \<open>\<open>BIGINT\<close> and \<open>INTEGER\<close> are signed: the driver refuses an unsigned value that is larger.\<close>

definition counters_fit :: "ZKCounters \<Rightarrow> bool" where
  "counters_fit c \<longleftrightarrow> CumulativeGasUsed c < 2 ^ 63 \<and> UsedKeccakHashes c < 2 ^ 31 \<and> UsedPoseidonHashes c < 2 ^ 31 \<and>
     UsedPoseidonPaddings c < 2 ^ 31 \<and> UsedMemAligns c < 2 ^ 31 \<and> UsedArithmetics c < 2 ^ 31 \<and>
     UsedBinaries c < 2 ^ 31 \<and> UsedSteps c < 2 ^ 31"

text \<open>\<open>INSERT ... ON CONFLICT (hash) DO UPDATE\<close>\<close>

definition upsert :: "pool_row \<Rightarrow> pool_row list \<Rightarrow> pool_row list" where
  "upsert q rows =
     (if q_hash q \<in> q_hash ` set rows then map (\<lambda>r. if q_hash r = q_hash q then q else r) rows else rows @ [q])"

definition AddTx_pg :: "pool_geth \<Rightarrow> pool_pg \<Rightarrow> PoolTransaction \<Rightarrow> pool_db \<Rightarrow> pool_error + pool_db" where
  "AddTx_pg g pg ptx db = (let tx = pt_Transaction ptx in
     case tx_MarshalBinary g tx of
       Inl e \<Rightarrow> Inl (GethErr e)
     | Inr b \<Rightarrow>
         (case tx_MarshalJSON g tx of
            Inl e \<Rightarrow> Inl (GethErr e)
          | Inr decoded \<Rightarrow>
              (case GetSenderOf g tx of
                 Inl e \<Rightarrow> Inl (GethErr e)
               | Inr sender \<Rightarrow>
                   if \<not> counters_fit (pt_ZKCounters ptx) then Inl (PgError ''out of range'')
                   else pg_run pg ''AddTx'' (Inr (db\<lparr>db_transaction := upsert
                     \<lparr>q_hash = tx_Hash g tx, q_encoded = EncodeToHex b, q_decoded = decoded, q_status = pt_Status ptx,
                      q_gas_price = big_Uint64 (tx_GasPrice (eth_inner tx)), q_nonce = tx_Nonce (eth_inner tx),
                      q_counters = pt_ZKCounters ptx, q_received_at = pt_ReceivedAt ptx, q_from_address = sender,
                      q_is_wip = pt_IsWIP ptx, q_ip = pt_IP ptx, q_failed_reason = None\<rparr> (db_transaction db)\<rparr>)))))"

definition decode_row :: "pool_geth \<Rightarrow> pool_row \<Rightarrow> pool_error + EthTx" where
  "decode_row g r =
     (case DecodeHex (q_encoded r) of
        (b, Some e) \<Rightarrow> Inl (HexErr e)
      | (b, None) \<Rightarrow> (case tx_UnmarshalBinary g b of Inl e \<Rightarrow> Inl (GethErr e) | Inr tx \<Rightarrow> Inr tx))"

definition scanTx :: "pool_geth \<Rightarrow> pool_row \<Rightarrow> pool_error + PoolTransaction" where
  "scanTx g r = map_sum id (\<lambda>tx.
     \<lparr>pt_Transaction = tx, pt_Status = q_status r, pt_ZKCounters = q_counters r, pt_ReceivedAt = q_received_at r,
      pt_PreprocessedStateRoot = 0, pt_IsWIP = q_is_wip r, pt_IP = q_ip r, pt_FailedReason = q_failed_reason r\<rparr>)
     (decode_row g r)"

text \<open>The loop over the rows of a query ends with the first row that cannot be read.\<close>

fun scan_rows :: "(pool_row \<Rightarrow> pool_error + 'a) \<Rightarrow> pool_row list \<Rightarrow> pool_error + 'a list" where
  "scan_rows sc [] = Inr []"
| "scan_rows sc (r # rs) = (case sc r of Inl e \<Rightarrow> Inl e | Inr x \<Rightarrow> map_sum id ((#) x) (scan_rows sc rs))"

text \<open>\<open>SELECT ... WHERE\<close>, in the order of the server.\<close>

definition sql_where :: "pool_pg \<Rightarrow> (pool_row \<Rightarrow> bool) \<Rightarrow> pool_db \<Rightarrow> pool_row list" where
  "sql_where pg P db = pg_order pg (filter P (db_transaction db))"

definition GetTxsByStatus :: "pool_geth \<Rightarrow> pool_pg \<Rightarrow> string \<Rightarrow> u64 \<Rightarrow> pool_db \<Rightarrow> pool_error + PoolTransaction list" where
  "GetTxsByStatus g pg status limit' db =
     (let rows = sort_key (\<lambda>r. - uint (q_gas_price r)) (sql_where pg (\<lambda>r. q_status r = status) db)
      in if limit' = 0 then pg_run pg ''GetTxsByStatus'' (scan_rows (scanTx g) rows)
         else if 2 ^ 63 \<le> limit' then Inl (PgError ''out of range'')
         else pg_run pg ''GetTxsByStatus'' (scan_rows (scanTx g) (take (unat limit') rows)))"

definition GetNonWIPPendingTxs :: "pool_geth \<Rightarrow> pool_pg \<Rightarrow> pool_db \<Rightarrow> pool_error + PoolTransaction list" where
  "GetNonWIPPendingTxs g pg db = pg_run pg ''GetNonWIPPendingTxs''
     (scan_rows (scanTx g) (sql_where pg (\<lambda>r. \<not> q_is_wip r \<and> q_status r = TxStatusPending) db))"

definition GetPendingTxHashesSince :: "pool_pg \<Rightarrow> int \<Rightarrow> pool_db \<Rightarrow> pool_error + hash list" where
  "GetPendingTxHashesSince pg since db = pg_run pg ''GetPendingTxHashesSince''
     (Inr (map q_hash (sql_where pg (\<lambda>r. q_status r = TxStatusPending \<and> q_received_at r \<ge> since) db)))"

text \<open>\<open>GetTxs\<close> does not read the reason of a failure; both of its statements select the same rows.\<close>

definition scan_GetTxs :: "pool_geth \<Rightarrow> pool_row \<Rightarrow> pool_error + PoolTransaction" where
  "scan_GetTxs g r = map_sum id (\<lambda>tx.
     \<lparr>pt_Transaction = tx, pt_Status = q_status r, pt_ZKCounters = q_counters r, pt_ReceivedAt = q_received_at r,
      pt_PreprocessedStateRoot = 0, pt_IsWIP = q_is_wip r, pt_IP = q_ip r, pt_FailedReason = None\<rparr>)
     (decode_row g r)"

definition GetTxs :: "pool_geth \<Rightarrow> pool_pg \<Rightarrow> string \<Rightarrow> u64 \<Rightarrow> u64 \<Rightarrow> pool_db \<Rightarrow> pool_error + PoolTransaction list" where
  "GetTxs g pg filterStatus minGasPrice limit' db =
     (if 2 ^ 63 \<le> limit' then Inl (PgError ''out of range'')
      else pg_run pg ''GetTxs'' (scan_rows (scan_GetTxs g) (take (unat limit') (sort_key q_nonce
             (sql_where pg (\<lambda>r. q_status r = filterStatus \<and> q_gas_price r \<ge> minGasPrice) db)))))"

definition CountTransactionsByStatus :: "pool_pg \<Rightarrow> string list \<Rightarrow> pool_db \<Rightarrow> pool_error + u64" where
  "CountTransactionsByStatus pg status db = pg_run pg ''CountTransactionsByStatus''
     (Inr (of_nat (length (filter (\<lambda>r. q_status r \<in> set status) (db_transaction db)))))"

definition CountTransactionsByFromAndStatus :: "pool_pg \<Rightarrow> address \<Rightarrow> string list \<Rightarrow> pool_db \<Rightarrow> pool_error + u64" where
  "CountTransactionsByFromAndStatus pg sender status db = pg_run pg ''CountTransactionsByFromAndStatus''
     (Inr (of_nat (length (filter (\<lambda>r. q_from_address r = sender \<and> q_status r \<in> set status) (db_transaction db)))))"

text \<open>\<open>UPDATE ... WHERE\<close> and \<open>DELETE ... WHERE\<close>\<close>

definition sql_update :: "(pool_row \<Rightarrow> bool) \<Rightarrow> (pool_row \<Rightarrow> pool_row) \<Rightarrow> pool_db \<Rightarrow> pool_db" where
  "sql_update P f db = db\<lparr>db_transaction := map (\<lambda>r. if P r then f r else r) (db_transaction db)\<rparr>"

definition sql_delete :: "(pool_row \<Rightarrow> bool) \<Rightarrow> pool_db \<Rightarrow> pool_db" where
  "sql_delete P db = db\<lparr>db_transaction := filter (\<lambda>r. \<not> P r) (db_transaction db)\<rparr>"

definition UpdateTxStatus_pg :: "pool_pg \<Rightarrow> TxStatusUpdateInfo \<Rightarrow> pool_db \<Rightarrow> pool_error + pool_db" where
  "UpdateTxStatus_pg pg info db = pg_run pg ''UpdateTxStatus''
     (Inr (sql_update (\<lambda>r. q_hash r = ui_Hash info)
        (\<lambda>r. case ui_FailedReason info of
               Some reason \<Rightarrow> r\<lparr>q_status := ui_NewStatus info, q_is_wip := ui_IsWIP info, q_failed_reason := Some reason\<rparr>
             | None \<Rightarrow> r\<lparr>q_status := ui_NewStatus info, q_is_wip := ui_IsWIP info\<rparr>) db))"

text \<open>Each statement commits on its own: an error leaves the updates before it.\<close>

fun UpdateTxsStatus :: "pool_pg \<Rightarrow> TxStatusUpdateInfo list \<Rightarrow> pool_db \<Rightarrow> pool_error option \<times> pool_db" where
  "UpdateTxsStatus pg [] db = (None, db)"
| "UpdateTxsStatus pg (info # infos) db =
     (case UpdateTxStatus_pg pg info db of Inl e \<Rightarrow> (Some e, db) | Inr db' \<Rightarrow> UpdateTxsStatus pg infos db')"

definition DeleteTransactionsByHashes :: "pool_pg \<Rightarrow> hash list \<Rightarrow> pool_db \<Rightarrow> pool_error + pool_db" where
  "DeleteTransactionsByHashes pg hashes db = pg_run pg ''DeleteTransactionsByHashes''
     (Inr (sql_delete (\<lambda>r. q_hash r \<in> set hashes) db))"

definition DeleteFailedTransactionsOlderThan :: "pool_pg \<Rightarrow> int \<Rightarrow> pool_db \<Rightarrow> pool_error + pool_db" where
  "DeleteFailedTransactionsOlderThan pg date db = pg_run pg ''DeleteFailedTransactionsOlderThan''
     (Inr (sql_delete (\<lambda>r. q_status r = ''failed'' \<and> q_received_at r < date) db))"

definition SetGasPrices_pg :: "pool_pg \<Rightarrow> u64 \<Rightarrow> u64 \<Rightarrow> int \<Rightarrow> pool_db \<Rightarrow> pool_error + pool_db" where
  "SetGasPrices_pg pg l2GasPrice l1GasPrice now db = pg_run pg ''SetGasPrices''
     (Inr (db\<lparr>db_gas_price := db_gas_price db @ [\<lparr>gp_item_id = db_gas_price_seq db, gp_price = l2GasPrice,
        gp_l1_price = l1GasPrice, gp_timestamp = now\<rparr>], db_gas_price_seq := Suc (db_gas_price_seq db)\<rparr>))"

text \<open>\<open>ORDER BY item_id DESC LIMIT 1\<close>\<close>

definition last_price :: "pool_db \<Rightarrow> gas_price_row list" where
  "last_price db = take 1 (sort_key (\<lambda>p. - int (gp_item_id p)) (db_gas_price db))"

text \<open>
  \<open>db.Query\<close> answers \<open>pgx.ErrNoRows\<close> for no statement, so a table with no row gives no error but the initial
  values; the result is the L2 price and the L1 price.
\<close>

definition GetGasPrices_pg :: "pool_pg \<Rightarrow> pool_db \<Rightarrow> pool_error + u64 \<times> u64" where
  "GetGasPrices_pg pg db = pg_run pg ''GetGasPrices''
     (Inr (case last_price db of [] \<Rightarrow> (0, 0) | p # _ \<Rightarrow> (gp_price p, gp_l1_price p)))"

definition DeleteGasPricesHistoryOlderThan_pg :: "pool_pg \<Rightarrow> int \<Rightarrow> pool_db \<Rightarrow> pool_error + pool_db" where
  "DeleteGasPricesHistoryOlderThan_pg pg date db = pg_run pg ''DeleteGasPricesHistoryOlderThan''
     (Inr (db\<lparr>db_gas_price := filter (\<lambda>p. \<not> (gp_timestamp p < date \<and>
        gp_item_id p \<notin> gp_item_id ` set (last_price db))) (db_gas_price db)\<rparr>))"

text \<open>A failure leaves \<open>gasPrice\<close> zero, and is then reported as \<open>state.ErrNotFound\<close>.\<close>

definition MinL2GasPriceSince :: "pool_pg \<Rightarrow> int \<Rightarrow> pool_db \<Rightarrow> pool_error + u64" where
  "MinL2GasPriceSince pg timestamp db =
     (let prices = map gp_price (filter (\<lambda>p. gp_timestamp p \<ge> timestamp) (db_gas_price db));
          err = pg_fails pg ''MinL2GasPriceSince'';
          gasPrice = (if err \<noteq> None \<or> prices = [] then 0 else foldr min prices (hd prices))
      in if gasPrice = 0 then Inl StateErrNotFound
         else case err of Some e \<Rightarrow> Inl (PgError e) | None \<Rightarrow> Inr gasPrice)"

definition IsTxPending_pg :: "pool_pg \<Rightarrow> hash \<Rightarrow> pool_db \<Rightarrow> pool_error + bool" where
  "IsTxPending_pg pg h db = pg_run pg ''IsTxPending''
     (Inr (list_ex (\<lambda>r. q_hash r = h \<and> q_status r = TxStatusPending) (db_transaction db)))"

definition GetTxsByFromAndNonce ::
  "pool_geth \<Rightarrow> pool_pg \<Rightarrow> address \<Rightarrow> u64 \<Rightarrow> pool_db \<Rightarrow> pool_error + PoolTransaction list" where
  "GetTxsByFromAndNonce g pg sender nonce db = pg_run pg ''GetTxsByFromAndNonce''
     (scan_rows (scanTx g) (sql_where pg (\<lambda>r. q_from_address r = sender \<and> q_nonce r = nonce) db))"

definition GetTxFromAddressFromByHash :: "pool_pg \<Rightarrow> hash \<Rightarrow> pool_db \<Rightarrow> pool_error + address \<times> u64" where
  "GetTxFromAddressFromByHash pg h db = pg_run pg ''GetTxFromAddressFromByHash''
     (case find (\<lambda>r. q_hash r = h) (db_transaction db) of
        None \<Rightarrow> Inl (PgError ''no rows in result set'')
      | Some r \<Rightarrow> Inr (q_from_address r, q_nonce r))"

definition GetNonce_pg :: "pool_pg \<Rightarrow> address \<Rightarrow> pool_db \<Rightarrow> pool_error + u64" where
  "GetNonce_pg pg addr db = pg_run pg ''GetNonce''
     (Inr (case map q_nonce (filter (\<lambda>r. q_from_address r = addr \<and>
              (q_status r = TxStatusPending \<or> q_status r = TxStatusSelected)) (db_transaction db)) of
             [] \<Rightarrow> 0
           | n # ns \<Rightarrow> foldr max ns n + 1))"

text \<open>\<open>GetTxByHash\<close> reads neither the counters nor the reason of a failure.\<close>

definition GetTxByHash :: "pool_geth \<Rightarrow> pool_pg \<Rightarrow> hash \<Rightarrow> pool_db \<Rightarrow> pool_error + PoolTransaction" where
  "GetTxByHash g pg h db = pg_run pg ''GetTxByHash''
     (case find (\<lambda>r. q_hash r = h) (db_transaction db) of
        None \<Rightarrow> Inl ErrNotFound
      | Some r \<Rightarrow> map_sum id (\<lambda>tx.
          \<lparr>pt_Transaction = tx, pt_Status = q_status r, pt_ZKCounters = emptyZKCounters, pt_ReceivedAt = q_received_at r,
           pt_PreprocessedStateRoot = 0, pt_IsWIP = q_is_wip r, pt_IP = q_ip r, pt_FailedReason = None\<rparr>)
          (decode_row g r))"

text \<open>
  The argument is the \<open>common.Hash\<close> itself, not its text: the driver compares the column with what
  \<open>Hash.Value\<close> makes of it.
\<close>

definition DeleteTransactionByHash :: "pool_geth \<Rightarrow> pool_pg \<Rightarrow> hash \<Rightarrow> pool_db \<Rightarrow> pool_error + pool_db" where
  "DeleteTransactionByHash g pg h db = pg_run pg ''DeleteTransactionByHash''
     (Inr (sql_delete (\<lambda>r. Hash_Hex g (q_hash r) = Hash_Value g h) db))"

definition GetTxZkCountersByHash :: "pool_pg \<Rightarrow> hash \<Rightarrow> pool_db \<Rightarrow> pool_error + ZKCounters" where
  "GetTxZkCountersByHash pg h db = pg_run pg ''GetTxZkCountersByHash''
     (case find (\<lambda>r. q_hash r = h) (db_transaction db) of None \<Rightarrow> Inl ErrNotFound | Some r \<Rightarrow> Inr (q_counters r))"

definition MarkWIPTxsAsPending :: "pool_pg \<Rightarrow> pool_db \<Rightarrow> pool_error + pool_db" where
  "MarkWIPTxsAsPending pg db = pg_run pg ''MarkWIPTxsAsPending''
     (Inr (sql_update q_is_wip (\<lambda>r. r\<lparr>q_is_wip := False\<rparr>) db))"

definition UpdateTxWIPStatus :: "pool_pg \<Rightarrow> hash \<Rightarrow> bool \<Rightarrow> pool_db \<Rightarrow> pool_error + pool_db" where
  "UpdateTxWIPStatus pg h isWIP db = pg_run pg ''UpdateTxWIPStatus''
     (Inr (sql_update (\<lambda>r. q_hash r = h) (\<lambda>r. r\<lparr>q_is_wip := isWIP\<rparr>) db))"

definition GetAllAddressesBlocked :: "pool_pg \<Rightarrow> pool_db \<Rightarrow> pool_error + address list" where
  "GetAllAddressesBlocked pg db = pg_run pg ''GetAllAddressesBlocked'' (Inr (db_blocked db))"

section \<open>The contract of a table with a key\<close>

text \<open>
  What the statements promise: a row is found under its key after it was put, changed or left, and under no
  other key. A predicate on rows that they respect then holds of all rows.
\<close>

locale keyed_table =
  fixes look :: "'s \<Rightarrow> 'k \<Rightarrow> 'r option"
    and key :: "'r \<Rightarrow> 'k"
    and put :: "'r \<Rightarrow> 's \<Rightarrow> 's"
    and upd :: "('r \<Rightarrow> bool) \<Rightarrow> ('r \<Rightarrow> 'r) \<Rightarrow> 's \<Rightarrow> 's"
    and del :: "('r \<Rightarrow> bool) \<Rightarrow> 's \<Rightarrow> 's"
    and wf :: "'s \<Rightarrow> bool"
  assumes look_key: "look s k = Some r \<Longrightarrow> key r = k"
    and look_put: "look (put r s) k = (if k = key r then Some r else look s k)"
    and look_upd: "(\<And>r. key (f r) = key r) \<Longrightarrow> look (upd P f s) k = map_option (\<lambda>r. if P r then f r else r) (look s k)"
    and look_del: "wf s \<Longrightarrow> look (del P s) k = (case look s k of None \<Rightarrow> None | Some r \<Rightarrow> if P r then None else Some r)"
    and wf_put: "wf s \<Longrightarrow> wf (put r s)"
    and wf_upd: "(\<And>r. key (f r) = key r) \<Longrightarrow> wf s \<Longrightarrow> wf (upd P f s)"
    and wf_del: "wf s \<Longrightarrow> wf (del P s)"
begin

definition rows_are :: "('r \<Rightarrow> bool) \<Rightarrow> 's \<Rightarrow> bool" where
  "rows_are I s \<longleftrightarrow> wf s \<and> (\<forall>k r. look s k = Some r \<longrightarrow> I r)"

lemma rows_are_put: "rows_are I s \<Longrightarrow> I r \<Longrightarrow> rows_are I (put r s)"
  by (auto simp: rows_are_def look_put wf_put split: if_splits)

lemma rows_are_upd:
  assumes "rows_are I s" and key: "\<And>r. key (f r) = key r" and I: "\<And>r. I r \<Longrightarrow> I (f r)"
  shows "rows_are I (upd P f s)"
  using assms by (auto simp: rows_are_def look_upd [OF key] wf_upd split: if_splits)

lemma rows_are_del: "rows_are I s \<Longrightarrow> rows_are I (del P s)"
  by (auto simp: rows_are_def look_del wf_del split: option.splits if_splits)

lemma put_put: "key r = key q \<Longrightarrow> look (put r (put q s)) k = look (put r s) k"
  by (simp add: look_put)

lemma del_put: "wf s \<Longrightarrow> P r \<Longrightarrow> look (del P (put r s)) (key r) = None"
  by (simp add: look_del wf_put look_put)

end

definition row_at :: "pool_db \<Rightarrow> hash \<Rightarrow> pool_row option" where
  "row_at db h = find (\<lambda>r. q_hash r = h) (db_transaction db)"

definition sql_upsert :: "pool_row \<Rightarrow> pool_db \<Rightarrow> pool_db" where
  "sql_upsert q db = db\<lparr>db_transaction := upsert q (db_transaction db)\<rparr>"

definition hash_key :: "pool_db \<Rightarrow> bool" where
  "hash_key db \<longleftrightarrow> distinct (map q_hash (db_transaction db))"

lemma find_map_key:
  assumes "\<And>r. q_hash (f r) = q_hash r"
  shows "find (\<lambda>r. q_hash r = h) (map f rows) = map_option f (find (\<lambda>r. q_hash r = h) rows)"
  by (induction rows) (simp_all add: assms)

lemma find_replaced:
  "find (\<lambda>r. q_hash r = h) (map (\<lambda>r. if q_hash r = q_hash q then q else r) rows) =
     (if h = q_hash q then if h \<in> q_hash ` set rows then Some q else None else find (\<lambda>r. q_hash r = h) rows)"
  by (induction rows) auto

lemma find_snoc:
  "find P (rows @ [q]) = (case find P rows of Some r \<Rightarrow> Some r | None \<Rightarrow> if P q then Some q else None)"
  by (induction rows) auto

lemma find_upsert:
  "find (\<lambda>r. q_hash r = h) (upsert q rows) = (if h = q_hash q then Some q else find (\<lambda>r. q_hash r = h) rows)"
proof (cases "q_hash q \<in> q_hash ` set rows")
  case True
  then show ?thesis by (simp add: upsert_def find_replaced)
next
  case False
  then have "find (\<lambda>r. q_hash r = q_hash q) rows = None" unfolding find_None_iff by (metis imageI)
  with False show ?thesis by (cases "h = q_hash q") (auto simp: upsert_def find_snoc split: option.splits)
qed

lemma find_filter_key:
  "distinct (map q_hash rows) \<Longrightarrow> find (\<lambda>r. q_hash r = h) (filter P rows) =
     (case find (\<lambda>r. q_hash r = h) rows of None \<Rightarrow> None | Some r \<Rightarrow> if P r then Some r else None)"
proof (induction rows)
  case (Cons a rows)
  have "find (\<lambda>r. q_hash r = q_hash a) (filter P rows) = None"
    using Cons.prems by (auto simp: find_None_iff image_iff)
  then show ?case using Cons by auto
qed simp

lemma map_replaced: "map q_hash (map (\<lambda>r. if q_hash r = q_hash q then q else r) rows) = map q_hash rows"
  by (induction rows) auto

lemma distinct_upsert:
  assumes "distinct (map q_hash rows)"
  shows "distinct (map q_hash (upsert q rows))"
proof (cases "q_hash q \<in> q_hash ` set rows")
  case True
  then have "map q_hash (upsert q rows) = map q_hash rows" by (simp only: upsert_def if_True map_replaced)
  then show ?thesis by (simp only: assms)
next
  case False
  then show ?thesis using assms by (auto simp: upsert_def)
qed

interpretation tab: keyed_table row_at q_hash sql_upsert sql_update sql_delete hash_key
proof unfold_locales
  show "row_at s k = Some r \<Longrightarrow> q_hash r = k" for s k r by (auto simp: row_at_def find_Some_iff)
  show "row_at (sql_upsert r s) k = (if k = q_hash r then Some r else row_at s k)" for r s k
    by (simp add: row_at_def sql_upsert_def find_upsert)
  show "row_at (sql_update P f s) k = map_option (\<lambda>r. if P r then f r else r) (row_at s k)"
    if "\<And>r. q_hash (f r) = q_hash r" for f P s k
    using find_map_key [of "\<lambda>r. if P r then f r else r"] that by (simp add: row_at_def sql_update_def)
  show "row_at (sql_delete P s) k = (case row_at s k of None \<Rightarrow> None | Some r \<Rightarrow> if P r then None else Some r)"
    if "hash_key s" for s P k
    using that by (auto simp: row_at_def sql_delete_def hash_key_def find_filter_key split: option.splits)
  show "hash_key s \<Longrightarrow> hash_key (sql_upsert r s)" for s r by (simp add: hash_key_def sql_upsert_def distinct_upsert)
  show "hash_key (sql_update P f s)" if "\<And>r. q_hash (f r) = q_hash r" "hash_key s" for f P s
  proof -
    have "map q_hash (map (\<lambda>r. if P r then f r else r) (db_transaction s)) = map q_hash (db_transaction s)"
      using that(1) by auto
    then show ?thesis using that(2) by (simp add: hash_key_def sql_update_def del: map_map)
  qed
  show "hash_key s \<Longrightarrow> hash_key (sql_delete P s)" for s P
    by (auto simp: hash_key_def sql_delete_def distinct_map inj_on_subset)
qed

section \<open>Rows that were written\<close>

text \<open>
  A row is sound if its text is read as a transaction, its hash, price, nonce and sender are those of that
  transaction, and its counters fit the columns.
\<close>

definition row_ok :: "pool_geth \<Rightarrow> pool_row \<Rightarrow> bool" where
  "row_ok g r \<longleftrightarrow> counters_fit (q_counters r) \<and>
     (case decode_row g r of
        Inl e \<Rightarrow> False
      | Inr tx \<Rightarrow> q_hash r = tx_Hash g tx \<and> q_gas_price r = big_Uint64 (tx_GasPrice (eth_inner tx)) \<and>
                  q_nonce r = tx_Nonce (eth_inner tx) \<and> GetSenderOf g tx = Inr (q_from_address r))"

text \<open>go-ethereum reads back what it wrote.\<close>

definition binary_round_trip :: "pool_geth \<Rightarrow> bool" where
  "binary_round_trip g \<longleftrightarrow> (\<forall>tx b. tx_MarshalBinary g tx = Inr b \<longrightarrow> tx_UnmarshalBinary g b = Inr tx)"

definition pool_row_of :: "pool_geth \<Rightarrow> PoolTransaction \<Rightarrow> bytes \<Rightarrow> string \<Rightarrow> address \<Rightarrow> pool_row" where
  "pool_row_of g ptx b decoded sender = (let tx = pt_Transaction ptx in
     \<lparr>q_hash = tx_Hash g tx, q_encoded = EncodeToHex b, q_decoded = decoded, q_status = pt_Status ptx,
      q_gas_price = big_Uint64 (tx_GasPrice (eth_inner tx)), q_nonce = tx_Nonce (eth_inner tx),
      q_counters = pt_ZKCounters ptx, q_received_at = pt_ReceivedAt ptx, q_from_address = sender,
      q_is_wip = pt_IsWIP ptx, q_ip = pt_IP ptx, q_failed_reason = None\<rparr>)"

lemma pg_run_InrD [dest!]: "pg_run pg stmt r = Inr x \<Longrightarrow> r = Inr x"
  by (simp add: pg_run_def split: option.splits)

lemma AddTx_pg_Inr:
  assumes "AddTx_pg g pg ptx db = Inr db'"
  obtains b decoded sender where "tx_MarshalBinary g (pt_Transaction ptx) = Inr b" "GetSenderOf g (pt_Transaction ptx) = Inr sender"
    "counters_fit (pt_ZKCounters ptx)" "db' = sql_upsert (pool_row_of g ptx b decoded sender) db"
  using assms by (auto simp: AddTx_pg_def pool_row_of_def sql_upsert_def split: sum.splits if_splits)

lemma decode_pool_row_of:
  assumes "binary_round_trip g" "tx_MarshalBinary g (pt_Transaction ptx) = Inr b"
  shows "decode_row g (pool_row_of g ptx b decoded sender) = Inr (pt_Transaction ptx)"
  using assms by (simp add: decode_row_def pool_row_of_def binary_round_trip_def DecodeHex_def EncodeToHex_def)

lemma AddTx_pg_rows:
  assumes "binary_round_trip g" "AddTx_pg g pg ptx db = Inr db'" "tab.rows_are (row_ok g) db"
  shows "tab.rows_are (row_ok g) db'"
proof -
  obtain b decoded sender where *: "tx_MarshalBinary g (pt_Transaction ptx) = Inr b" "GetSenderOf g (pt_Transaction ptx) = Inr sender"
    "counters_fit (pt_ZKCounters ptx)" "db' = sql_upsert (pool_row_of g ptx b decoded sender) db"
    using assms(2) by (rule AddTx_pg_Inr)
  have "row_ok g (pool_row_of g ptx b decoded sender)"
    unfolding row_ok_def decode_pool_row_of [OF assms(1) *(1)] using *(2,3) by (simp add: pool_row_of_def)
  then show ?thesis using tab.rows_are_put assms(3) *(4) by blast
qed

section \<open>Runs of the storage\<close>

inductive db_step :: "pool_geth \<Rightarrow> pool_db \<Rightarrow> pool_db \<Rightarrow> bool" for g where
  AddTx: "AddTx_pg g pg ptx db = Inr db' \<Longrightarrow> db_step g db db'"
| UpdateTxStatus: "UpdateTxStatus_pg pg info db = Inr db' \<Longrightarrow> db_step g db db'"
| DeleteByHashes: "DeleteTransactionsByHashes pg hashes db = Inr db' \<Longrightarrow> db_step g db db'"
| DeleteByHash: "DeleteTransactionByHash g pg h db = Inr db' \<Longrightarrow> db_step g db db'"
| DeleteFailed: "DeleteFailedTransactionsOlderThan pg date db = Inr db' \<Longrightarrow> db_step g db db'"
| MarkWIP: "MarkWIPTxsAsPending pg db = Inr db' \<Longrightarrow> db_step g db db'"
| UpdateWIP: "UpdateTxWIPStatus pg h isWIP db = Inr db' \<Longrightarrow> db_step g db db'"
| SetGasPrices: "SetGasPrices_pg pg l2 l1 now db = Inr db' \<Longrightarrow> db_step g db db'"
| DeleteGasPrices: "DeleteGasPricesHistoryOlderThan_pg pg date db = Inr db' \<Longrightarrow> db_step g db db'"
| Block: "db_step g db (db\<lparr>db_blocked := addrs\<rparr>)"

text \<open>From empty tables.\<close>

inductive db_reach :: "pool_geth \<Rightarrow> pool_db \<Rightarrow> bool" for g where
  Empty: "db_reach g \<lparr>db_transaction = [], db_gas_price = [], db_gas_price_seq = 1, db_blocked = []\<rparr>"
| Step: "db_reach g db \<Longrightarrow> db_step g db db' \<Longrightarrow> db_reach g db'"

definition prices_ok :: "pool_db \<Rightarrow> bool" where
  "prices_ok db \<longleftrightarrow> sorted_wrt (<) (map gp_item_id (db_gas_price db)) \<and>
     (\<forall>p \<in> set (db_gas_price db). gp_item_id p < db_gas_price_seq db)"

definition db_inv :: "pool_geth \<Rightarrow> pool_db \<Rightarrow> bool" where
  "db_inv g db \<longleftrightarrow> tab.rows_are (row_ok g) db \<and> prices_ok db"

lemma rows_are_cong:
  "db_transaction db' = db_transaction db \<Longrightarrow> tab.rows_are I db' = tab.rows_are I db"
  by (simp add: tab.rows_are_def row_at_def hash_key_def)

lemma decode_row_flags [simp]:
  "decode_row g (r\<lparr>q_is_wip := w\<rparr>) = decode_row g r" "decode_row g (r\<lparr>q_status := st\<rparr>) = decode_row g r"
  "decode_row g (r\<lparr>q_failed_reason := f\<rparr>) = decode_row g r"
  by (simp_all add: decode_row_def)

lemma row_ok_flags [simp]:
  "row_ok g (r\<lparr>q_is_wip := w\<rparr>) = row_ok g r" "row_ok g (r\<lparr>q_status := st\<rparr>) = row_ok g r"
  "row_ok g (r\<lparr>q_failed_reason := f\<rparr>) = row_ok g r"
  by (simp_all add: row_ok_def cong: sum.case_cong)

lemma rows_after_step:
  assumes "binary_round_trip g" "db_step g db db'" "tab.rows_are (row_ok g) db"
  shows "tab.rows_are (row_ok g) db'"
  using assms(2)
proof cases
  case (AddTx pg ptx)
  then show ?thesis using AddTx_pg_rows assms(1,3) by blast
next
  case (UpdateTxStatus pg info)
  then have "db' = sql_update (\<lambda>r. q_hash r = ui_Hash info)
        (\<lambda>r. case ui_FailedReason info of
               Some reason \<Rightarrow> r\<lparr>q_status := ui_NewStatus info, q_is_wip := ui_IsWIP info, q_failed_reason := Some reason\<rparr>
             | None \<Rightarrow> r\<lparr>q_status := ui_NewStatus info, q_is_wip := ui_IsWIP info\<rparr>) db"
    by (auto simp: UpdateTxStatus_pg_def)
  then show ?thesis using assms(3) by (auto intro!: tab.rows_are_upd split: option.splits)
next
  case (SetGasPrices pg l2 l1 now)
  then have "db_transaction db' = db_transaction db" by (auto simp: SetGasPrices_pg_def)
  then show ?thesis using assms(3) rows_are_cong by blast
next
  case (DeleteGasPrices pg date)
  then have "db_transaction db' = db_transaction db" by (auto simp: DeleteGasPricesHistoryOlderThan_pg_def)
  then show ?thesis using assms(3) rows_are_cong by blast
next
  case (Block addrs)
  then have "db_transaction db' = db_transaction db" by simp
  then show ?thesis using assms(3) rows_are_cong by blast
qed (auto intro!: tab.rows_are_upd tab.rows_are_del assms(3) simp: DeleteTransactionsByHashes_def
       DeleteTransactionByHash_def DeleteFailedTransactionsOlderThan_def MarkWIPTxsAsPending_def UpdateTxWIPStatus_def)

lemma prices_after_step: "db_step g db db' \<Longrightarrow> prices_ok db \<Longrightarrow> prices_ok db'"
proof (induction rule: db_step.induct)
  case (AddTx pg ptx db db')
  then obtain q where "db' = sql_upsert q db" by (metis AddTx_pg_Inr)
  then show ?case using AddTx.prems by (simp add: sql_upsert_def prices_ok_def)
next
  case (SetGasPrices pg l2 l1 now db db')
  then show ?case by (auto simp: SetGasPrices_pg_def prices_ok_def sorted_wrt_append less_Suc_eq)
next
  case (DeleteGasPrices pg date db db')
  then have "db' = db\<lparr>db_gas_price := filter (\<lambda>p. \<not> (gp_timestamp p < date \<and>
        gp_item_id p \<notin> gp_item_id ` set (last_price db))) (db_gas_price db)\<rparr>"
    by (auto simp: DeleteGasPricesHistoryOlderThan_pg_def)
  then show ?case using DeleteGasPrices.prems by (simp add: prices_ok_def sorted_wrt_map sorted_wrt_filter)
qed (auto simp: sql_update_def sql_delete_def UpdateTxStatus_pg_def DeleteTransactionsByHashes_def
       DeleteTransactionByHash_def DeleteFailedTransactionsOlderThan_def MarkWIPTxsAsPending_def UpdateTxWIPStatus_def prices_ok_def)

lemma db_reach_inv: "db_reach g db \<Longrightarrow> binary_round_trip g \<Longrightarrow> db_inv g db"
proof (induction rule: db_reach.induct)
  case Empty
  show ?case by (simp add: db_inv_def tab.rows_are_def row_at_def hash_key_def prices_ok_def)
next
  case (Step db db')
  then show ?case using rows_after_step prices_after_step by (simp add: db_inv_def)
qed

section \<open>What is read\<close>

lemma pg_run_ok [simp]: "pg_fails pg stmt = None \<Longrightarrow> pg_run pg stmt r = r"
  by (simp add: pg_run_def)

lemma scan_rows_ok: "(\<And>r. r \<in> set rows \<Longrightarrow> sc r = Inr (f r)) \<Longrightarrow> scan_rows sc rows = Inr (map f rows)"
  by (induction rows) simp_all

lemma scan_rows_set: "scan_rows sc rows = Inr xs \<Longrightarrow> x \<in> set xs \<longleftrightarrow> (\<exists>r \<in> set rows. sc r = Inr x)"
  by (induction rows arbitrary: xs) (auto split: sum.splits simp: map_sum_def)

lemma find_member: "distinct (map q_hash rows) \<Longrightarrow> r \<in> set rows \<Longrightarrow> find (\<lambda>x. q_hash x = q_hash r) rows = Some r"
  by (induction rows) (auto dest: map_of_SomeD simp: image_iff)

lemma rows_are_member: "tab.rows_are I db \<Longrightarrow> r \<in> set (db_transaction db) \<Longrightarrow> I r"
  using find_member [of "db_transaction db" r] by (auto simp: tab.rows_are_def hash_key_def row_at_def)

definition tx_of_row :: "pool_geth \<Rightarrow> pool_row \<Rightarrow> PoolTransaction" where
  "tx_of_row g r = projr (scanTx g r)"

lemma row_ok_scan:
  assumes "row_ok g r"
  shows "scanTx g r = Inr (tx_of_row g r)" "tx_Hash g (pt_Transaction (tx_of_row g r)) = q_hash r"
    "big_Uint64 (tx_GasPrice (eth_inner (pt_Transaction (tx_of_row g r)))) = q_gas_price r"
    "tx_Nonce (eth_inner (pt_Transaction (tx_of_row g r))) = q_nonce r"
    "GetSenderOf g (pt_Transaction (tx_of_row g r)) = Inr (q_from_address r)"
    "pt_Status (tx_of_row g r) = q_status r"
  using assms by (auto simp: row_ok_def scanTx_def tx_of_row_def split: sum.splits)

text \<open>The rows a query selects, in the order of the server, are all readable.\<close>

lemma sql_where_scan:
  assumes "db_inv g db" and order: "\<And>rs. mset (pg_order pg rs) = mset rs"
  shows "scan_rows (scanTx g) (sql_where pg P db) = Inr (map (tx_of_row g) (sql_where pg P db))"
    and "set (sql_where pg P db) = {r \<in> set (db_transaction db). P r}"
proof -
  show *: "set (sql_where pg P db) = {r \<in> set (db_transaction db). P r}"
    using mset_eq_setD [OF order] by (simp add: sql_where_def)
  then show "scan_rows (scanTx g) (sql_where pg P db) = Inr (map (tx_of_row g) (sql_where pg P db))"
    using assms(1) by (intro scan_rows_ok row_ok_scan) (auto simp: db_inv_def intro: rows_are_member)
qed

text \<open>
  C13. Whatever the pool did before, from empty tables, with statements that failed in between: the transactions of a
  status can all be read. \<open>GetTxsByStatus\<close> without a limit returns each of them once, those with the higher gas price
  first, where prices are compared by the 64 bits of the column.
\<close>

theorem pool_txs_are_readable:
  assumes "db_reach g db" "binary_round_trip g" "pg_fails pg ''GetTxsByStatus'' = None"
    and "\<And>rs. mset (pg_order pg rs) = mset rs"
  shows "\<exists>txs. GetTxsByStatus g pg status 0 db = Inr txs \<and>
     mset (map (\<lambda>t. tx_Hash g (pt_Transaction t)) txs) =
       mset (map q_hash (filter (\<lambda>r. q_status r = status) (db_transaction db))) \<and>
     distinct (map (\<lambda>t. tx_Hash g (pt_Transaction t)) txs) \<and> list_all (\<lambda>t. pt_Status t = status) txs \<and>
     sorted_wrt (\<lambda>a b. big_Uint64 (tx_GasPrice (eth_inner (pt_Transaction b))) \<le>
                       big_Uint64 (tx_GasPrice (eth_inner (pt_Transaction a)))) txs"
proof -
  let ?sel = "sql_where pg (\<lambda>r. q_status r = status) db" and ?key = "\<lambda>r. - uint (q_gas_price r)"
  let ?rows = "sort_key ?key ?sel" and ?hash = "\<lambda>t. tx_Hash g (pt_Transaction t)"
  have inv: "db_inv g db" using db_reach_inv assms(1,2) by blast
  have sel: "set ?sel = {r \<in> set (db_transaction db). q_status r = status}"
    by (rule sql_where_scan(2) [OF inv assms(4)])
  then have ok: "row_ok g r" if "r \<in> set ?rows" for r
    using that inv by (auto simp: db_inv_def intro: rows_are_member)
  have scan: "GetTxsByStatus g pg status 0 db = Inr (map (tx_of_row g) ?rows)"
    using assms(3) scan_rows_ok [of ?rows "scanTx g" "tx_of_row g"] ok row_ok_scan(1)
    by (simp add: GetTxsByStatus_def)
  have hashes: "map ?hash (map (tx_of_row g) ?rows) = map q_hash ?rows" using ok by (simp add: row_ok_scan)
  have "mset ?rows = mset (filter (\<lambda>r. q_status r = status) (db_transaction db))"
    by (simp add: sql_where_def assms(4))
  then have perm: "mset (map q_hash ?rows) = mset (map q_hash (filter (\<lambda>r. q_status r = status) (db_transaction db)))"
    by (simp only: mset_map)
  moreover have "distinct (map q_hash (filter (\<lambda>r. q_status r = status) (db_transaction db)))"
    using inv by (simp add: db_inv_def tab.rows_are_def hash_key_def distinct_map_filter)
  ultimately have "distinct (map q_hash ?rows)" using mset_eq_imp_distinct_iff by blast
  moreover have "list_all (\<lambda>t. pt_Status t = status) (map (tx_of_row g) ?rows)"
    using ok sel by (simp add: list_all_iff row_ok_scan)
  moreover have "sorted_wrt (\<lambda>a b. q_gas_price b \<le> q_gas_price a) ?rows"
    using sorted_sort_key [of ?key ?sel] by (simp add: sorted_map word_le_def)
  then have "sorted_wrt (\<lambda>a b. big_Uint64 (tx_GasPrice (eth_inner (pt_Transaction b))) \<le>
                       big_Uint64 (tx_GasPrice (eth_inner (pt_Transaction a)))) (map (tx_of_row g) ?rows)"
    unfolding sorted_wrt_map by (rule sorted_wrt_mono_rel [rotated]) (simp add: ok row_ok_scan)
  ultimately show ?thesis using scan hashes perm by (metis (no_types, lifting))
qed

lemma list_ex_replaced:
  assumes "q_hash q = h"
  shows "list_ex (\<lambda>r. q_hash r = h \<and> P r) (map (\<lambda>r. if q_hash r = h then q else r) rows) \<longleftrightarrow> h \<in> q_hash ` set rows \<and> P q"
  using assms by (induction rows) auto

lemma pending_upsert: "list_ex (\<lambda>r. q_hash r = q_hash q \<and> P r) (upsert q rows) \<longleftrightarrow> P q"
proof (cases "q_hash q \<in> q_hash ` set rows")
  case True
  then show ?thesis unfolding upsert_def if_P [OF True] list_ex_replaced [OF refl] by blast
next
  case False
  then have "\<not> list_ex (\<lambda>r. q_hash r = q_hash q \<and> P r) rows" by (induction rows) auto
  with False show ?thesis by (simp add: upsert_def)
qed

lemma GetTxByHash_at: "GetTxByHash g pg h db = pg_run pg ''GetTxByHash'' (case row_at db h of
     None \<Rightarrow> Inl ErrNotFound
   | Some r \<Rightarrow> map_sum id (\<lambda>tx.
       \<lparr>pt_Transaction = tx, pt_Status = q_status r, pt_ZKCounters = emptyZKCounters, pt_ReceivedAt = q_received_at r,
        pt_PreprocessedStateRoot = 0, pt_IsWIP = q_is_wip r, pt_IP = q_ip r, pt_FailedReason = None\<rparr>) (decode_row g r))"
  by (simp add: GetTxByHash_def row_at_def)

text \<open>
  C35. A transaction that \<open>AddTx\<close> stored is found under its hash with the status, time, flags and IP it was stored
  with, its counters, its sender and its nonce; it is pending exactly if it was stored so. Nothing else changes: under
  every other hash the same is found as before.
\<close>

theorem added_tx_is_read_back:
  assumes "AddTx_pg g pg ptx db = Inr db'" "binary_round_trip g" "GetSenderOf g (pt_Transaction ptx) = Inr sender"
    and "pg_fails pg' = (\<lambda>_. None)"
  shows "GetTxByHash g pg' (tx_Hash g (pt_Transaction ptx)) db' =
      Inr (ptx\<lparr>pt_ZKCounters := emptyZKCounters, pt_PreprocessedStateRoot := 0, pt_FailedReason := None\<rparr>) \<and>
    GetTxZkCountersByHash pg' (tx_Hash g (pt_Transaction ptx)) db' = Inr (pt_ZKCounters ptx) \<and>
    GetTxFromAddressFromByHash pg' (tx_Hash g (pt_Transaction ptx)) db' =
      Inr (sender, tx_Nonce (eth_inner (pt_Transaction ptx))) \<and>
    IsTxPending_pg pg' (tx_Hash g (pt_Transaction ptx)) db' = Inr (pt_Status ptx = TxStatusPending) \<and>
    (h \<noteq> tx_Hash g (pt_Transaction ptx) \<longrightarrow> GetTxByHash g pg' h db' = GetTxByHash g pg' h db)"
proof -
  obtain b decoded s where *: "tx_MarshalBinary g (pt_Transaction ptx) = Inr b" "GetSenderOf g (pt_Transaction ptx) = Inr s"
    "db' = sql_upsert (pool_row_of g ptx b decoded s) db"
    using assms(1) by (rule AddTx_pg_Inr)
  let ?q = "pool_row_of g ptx b decoded sender" and ?h = "tx_Hash g (pt_Transaction ptx)"
  have key: "q_hash ?q = ?h" by (simp add: pool_row_of_def)
  have db': "db' = sql_upsert ?q db" using *(2,3) assms(3) by simp
  have at: "row_at db' x = (if x = ?h then Some ?q else row_at db x)" for x
    unfolding db' tab.look_put key ..
  have decode: "decode_row g ?q = Inr (pt_Transaction ptx)" by (rule decode_pool_row_of [OF assms(2) *(1)])
  have row: "find (\<lambda>r. q_hash r = ?h) (db_transaction db') = Some ?q" using at [of ?h] by (simp add: row_at_def)
  have "GetTxByHash g pg' ?h db' = Inr (ptx\<lparr>pt_ZKCounters := emptyZKCounters, pt_PreprocessedStateRoot := 0, pt_FailedReason := None\<rparr>)"
    using assms(4) by (simp add: GetTxByHash_at at decode) (simp add: pool_row_of_def)
  moreover have "GetTxZkCountersByHash pg' ?h db' = Inr (pt_ZKCounters ptx)"
    "GetTxFromAddressFromByHash pg' ?h db' = Inr (sender, tx_Nonce (eth_inner (pt_Transaction ptx)))"
    using assms(4) by (simp_all add: GetTxZkCountersByHash_def GetTxFromAddressFromByHash_def row) (simp_all add: pool_row_of_def)
  moreover have "IsTxPending_pg pg' ?h db' = Inr (pt_Status ptx = TxStatusPending)"
    using pending_upsert [of ?q "\<lambda>r. q_status r = TxStatusPending" "db_transaction db"] assms(4)
    by (simp add: IsTxPending_pg_def db' sql_upsert_def key) (simp add: pool_row_of_def)
  ultimately show ?thesis by (simp add: GetTxByHash_at at)
qed

section \<open>Prices and nonces\<close>

lemma db_reach_prices: "db_reach g db \<Longrightarrow> prices_ok db"
proof (induction rule: db_reach.induct)
  case Empty
  show ?case by (simp add: prices_ok_def)
qed (rule prices_after_step)

lemma last_price_ok:
  assumes "prices_ok db"
  shows "last_price db = take 1 (rev (db_gas_price db))"
proof -
  let ?ps = "db_gas_price db" and ?k = "\<lambda>p. - int (gp_item_id p)"
  have s: "sorted_wrt (\<lambda>p q. gp_item_id p < gp_item_id q) ?ps" using assms by (simp add: prices_ok_def sorted_wrt_map)
  then have "sorted_wrt (\<lambda>p q. ?k p \<le> ?k q) (rev ?ps)"
    unfolding sorted_wrt_rev by (rule sorted_wrt_mono_rel [rotated]) simp
  then have "sorted (map ?k (rev ?ps))" by (simp add: sorted_map)
  moreover have "distinct (map gp_item_id ?ps)" using assms by (simp add: prices_ok_def strict_sorted_iff)
  then have "inj_on ?k (set ?ps)" by (simp add: distinct_map inj_on_def)
  ultimately have "sort_key ?k ?ps = rev ?ps" by (intro sort_key_inj_key_eq) simp_all
  then show ?thesis by (simp only: last_price_def)
qed

lemma SetGasPrices_current:
  assumes "prices_ok db" "SetGasPrices_pg pg l2 l1 now db = Inr db'" "pg_fails pg' ''GetGasPrices'' = None"
  shows "GetGasPrices_pg pg' db' = Inr (l2, l1)"
proof -
  have *: "db' = db\<lparr>db_gas_price := db_gas_price db @ [\<lparr>gp_item_id = db_gas_price_seq db, gp_price = l2,
        gp_l1_price = l1, gp_timestamp = now\<rparr>], db_gas_price_seq := Suc (db_gas_price_seq db)\<rparr>"
    using assms(2) by (auto simp: SetGasPrices_pg_def)
  then have "prices_ok db'" using assms(1) by (auto simp: prices_ok_def sorted_wrt_append less_Suc_eq)
  then show ?thesis using assms(3) by (simp add: GetGasPrices_pg_def last_price_ok) (simp add: *)
qed

text \<open>
  Deleting the history of the prices never deletes the current ones: after any run of the storage,
  \<open>GetGasPrices\<close> returns the same before and after \<open>DeleteGasPricesHistoryOlderThan\<close>, for every date.
\<close>

theorem current_price_survives:
  assumes "db_reach g db" "DeleteGasPricesHistoryOlderThan_pg pg date db = Inr db'"
  shows "GetGasPrices_pg pg' db' = GetGasPrices_pg pg' db"
proof -
  let ?P = "\<lambda>p. \<not> (gp_timestamp p < date \<and> gp_item_id p \<notin> gp_item_id ` set (last_price db))"
  have ok: "prices_ok db" by (rule db_reach_prices [OF assms(1)])
  have db': "db' = db\<lparr>db_gas_price := filter ?P (db_gas_price db)\<rparr>"
    using assms(2) by (auto simp: DeleteGasPricesHistoryOlderThan_pg_def)
  have "prices_ok db'" using ok by (simp add: db' prices_ok_def sorted_wrt_map sorted_wrt_filter)
  then have "last_price db' = take 1 (filter ?P (rev (db_gas_price db)))"
    by (simp add: last_price_ok db' rev_filter)
  also have "\<dots> = take 1 (rev (db_gas_price db))"
  proof (cases "rev (db_gas_price db)")
    case (Cons p ps)
    then have "?P p" by (simp add: last_price_ok [OF ok])
    then show ?thesis by (simp add: Cons)
  qed simp
  finally show ?thesis by (simp only: GetGasPrices_pg_def last_price_ok [OF ok])
qed

text \<open>
  The nonce of an account is one more than the largest of its pending and selected transactions.
\<close>

lemma foldr_max_mem: "foldr max ns (n :: 'a :: linorder) \<in> set (n # ns) \<and> (\<forall>m \<in> set (n # ns). m \<le> foldr max ns n)"
  by (induction ns) (auto simp: max_def)

lemma GetNonce_next:
  assumes "GetNonce_pg pg addr db = Inr n"
    and "r \<in> set (db_transaction db)" "q_from_address r = addr" "q_status r = TxStatusPending \<or> q_status r = TxStatusSelected"
  shows "\<exists>r' \<in> set (db_transaction db). q_from_address r' = addr \<and> n = q_nonce r' + 1 \<and> q_nonce r \<le> q_nonce r'"
proof -
  let ?P = "\<lambda>r. q_from_address r = addr \<and> (q_status r = TxStatusPending \<or> q_status r = TxStatusSelected)"
  have "q_nonce r \<in> set (map q_nonce (filter ?P (db_transaction db)))" using assms(2-) by simp
  then obtain m ms where ms: "map q_nonce (filter ?P (db_transaction db)) = m # ms"
    by (cases "map q_nonce (filter ?P (db_transaction db))") auto
  then have n: "n = foldr max ms m + 1" using assms(1) by (auto simp: GetNonce_pg_def)
  have "foldr max ms m \<in> set (map q_nonce (filter ?P (db_transaction db)))" "q_nonce r \<le> foldr max ms m"
    using foldr_max_mem [of ms m] ms \<open>q_nonce r \<in> _\<close> by (simp_all only: ms)
  then show ?thesis using n by auto
qed

section \<open>Errors that are not reported\<close>

text \<open>Without a price there is no \<open>ErrNotFound\<close>, but a price of zero.\<close>

lemma no_price_is_zero: "db_gas_price db = [] \<Longrightarrow> pg_fails pg ''GetGasPrices'' = None \<Longrightarrow> GetGasPrices_pg pg db = Inr (0, 0)"
  by (simp add: GetGasPrices_pg_def last_price_def)

text \<open>A failure of the database is reported as \<open>ErrNotFound\<close>.\<close>

lemma min_price_hides_errors: "pg_fails pg ''MinL2GasPriceSince'' = Some e \<Longrightarrow> MinL2GasPriceSince pg t db = Inl StateErrNotFound"
  by (simp add: MinL2GasPriceSince_def)

text \<open>
  The text of a hash has 66 characters, the value the driver takes from a \<open>common.Hash\<close> is its 32 bytes: no row is deleted.
\<close>

lemma delete_by_hash_deletes_nothing:
  assumes "\<And>h. length (Hash_Hex g h) = 66" "\<And>h. length (Hash_Value g h) = 32" "DeleteTransactionByHash g pg h db = Inr db'"
  shows "db_transaction db' = db_transaction db"
proof -
  have "Hash_Hex g x \<noteq> Hash_Value g h" for x using assms(1) [of x] assms(2) [of h] by auto
  then show ?thesis using assms(3) by (auto simp: DeleteTransactionByHash_def sql_delete_def)
qed

section \<open>Examples\<close>

definition sample_tx :: EthTx where
  "sample_tx = \<lparr>eth_Type = 0, eth_chainID = 0, eth_inner = \<lparr>tx_Nonce = 5, tx_GasPrice = 1000, tx_Gas = 100000, tx_To = Some 2,
     tx_Value = 10, tx_Data = [0, 1, 2], tx_V = 2037, tx_R = 1, tx_S = 1\<rparr>\<rparr>"

text \<open>A go-ethereum that knows one transaction, sent by the account 7.\<close>

definition sample_pool_geth :: pool_geth where
  "sample_pool_geth = \<lparr>pg_geth = spec_geth, tx_Hash = (\<lambda>tx. of_int (tx_GasPrice (eth_inner tx))), tx_Size = (\<lambda>tx. 100),
     tx_Cost = (\<lambda>tx. tx_GasPrice (eth_inner tx) * uint (tx_Gas (eth_inner tx)) + tx_Value (eth_inner tx)),
     tx_MarshalBinary = (\<lambda>tx. if tx = sample_tx then Inr [1] else Inl (ErrorString ''unknown'')),
     tx_MarshalJSON = (\<lambda>tx. Inr ''tx''),
     tx_UnmarshalBinary = (\<lambda>b. if b = [1] then Inr sample_tx else Inl (ErrorString ''unknown'')),
     EIP155Signer_Sender = (\<lambda>c tx. Inr 7), ValidateSignatureValues = (\<lambda>v r s h. True),
     Hash_Hex = (\<lambda>h. EncodeToHex [1, 2]), Hash_Value = (\<lambda>h. ''?'')\<rparr>"

definition sample_pg :: pool_pg where "sample_pg = \<lparr>pg_fails = (\<lambda>_. None), pg_order = (\<lambda>rs. rs)\<rparr>"

definition no_rows :: pool_db where
  "no_rows = \<lparr>db_transaction = [], db_gas_price = [], db_gas_price_seq = 1, db_blocked = []\<rparr>"

definition sample_ptx :: PoolTransaction where "sample_ptx = NewTransaction sample_tx ''10.0.0.1'' False 42"

definition sample_row :: pool_row where
  "sample_row = \<lparr>q_hash = 1000, q_encoded = ''0x01'', q_decoded = ''tx'', q_status = ''pending'', q_gas_price = 1000, q_nonce = 5,
     q_counters = emptyZKCounters, q_received_at = 42, q_from_address = 7, q_is_wip = False, q_ip = ''10.0.0.1'', q_failed_reason = None\<rparr>"

definition sample_db :: pool_db where "sample_db = no_rows\<lparr>db_transaction := [sample_row]\<rparr>"

lemma sample_round_trip [simp]: "binary_round_trip sample_pool_geth"
  by (simp add: binary_round_trip_def sample_pool_geth_def)

lemma sample_pg_simps [simp]: "pg_fails sample_pg s = None" "pg_order sample_pg rs = rs"
  by (simp_all add: sample_pg_def)

lemma sample_AddTx: "AddTx_pg sample_pool_geth sample_pg sample_ptx no_rows = Inr sample_db"
  by code_simp

lemma sample_reach: "db_reach sample_pool_geth sample_db"
  by (rule db_reach.Step [OF db_reach.Empty db_step.AddTx [OF sample_AddTx [unfolded no_rows_def]]])

theorem pool_txs_are_readable_witness:
  "\<exists>txs. GetTxsByStatus sample_pool_geth sample_pg ''pending'' 0 sample_db = Inr txs \<and>
     mset (map (\<lambda>t. tx_Hash sample_pool_geth (pt_Transaction t)) txs) = {#1000#}"
  using pool_txs_are_readable [OF sample_reach, of sample_pg "''pending''"] by (auto simp: sample_db_def sample_row_def)

theorem added_tx_is_read_back_witness:
  "GetTxByHash sample_pool_geth sample_pg 1000 sample_db = Inr sample_ptx \<and> GetTxByHash sample_pool_geth sample_pg 8 sample_db = Inl ErrNotFound"
proof -
  have "GetSenderOf sample_pool_geth (pt_Transaction sample_ptx) = Inr 7" "tx_Hash sample_pool_geth (pt_Transaction sample_ptx) = 1000"
    "GetTxByHash sample_pool_geth sample_pg 8 no_rows = Inl ErrNotFound" "pg_fails sample_pg = (\<lambda>_. None)"
    "sample_ptx\<lparr>pt_ZKCounters := emptyZKCounters, pt_PreprocessedStateRoot := 0, pt_FailedReason := None\<rparr> = sample_ptx"
    by (simp_all add: GetSenderOf_def sample_pool_geth_def sample_ptx_def NewTransaction_def sample_tx_def GetTxByHash_def no_rows_def
        sample_pg_def)
  then show ?thesis using added_tx_is_read_back [OF sample_AddTx, of 7 sample_pg 8] by simp
qed

definition priced_db :: pool_db where
  "priced_db = no_rows\<lparr>db_gas_price := [\<lparr>gp_item_id = 1, gp_price = 30, gp_l1_price = 300, gp_timestamp = 10\<rparr>,
     \<lparr>gp_item_id = 2, gp_price = 20, gp_l1_price = 200, gp_timestamp = 11\<rparr>], db_gas_price_seq := 3\<rparr>"

lemma priced_reach: "db_reach sample_pool_geth priced_db"
proof -
  let ?db1 = "no_rows\<lparr>db_gas_price := [\<lparr>gp_item_id = 1, gp_price = 30, gp_l1_price = 300, gp_timestamp = 10\<rparr>], db_gas_price_seq := 2\<rparr>"
  have "SetGasPrices_pg sample_pg 30 300 10 no_rows = Inr ?db1" "SetGasPrices_pg sample_pg 20 200 11 ?db1 = Inr priced_db"
    by code_simp+
  then show ?thesis
    using db_reach.Step db_step.SetGasPrices db_reach.Empty [folded no_rows_def] by meson
qed

theorem current_price_survives_witness:
  "GetGasPrices_pg sample_pg (priced_db\<lparr>db_gas_price := [\<lparr>gp_item_id = 2, gp_price = 20, gp_l1_price = 200, gp_timestamp = 11\<rparr>]\<rparr>) =
     GetGasPrices_pg sample_pg priced_db \<and> GetGasPrices_pg sample_pg priced_db = Inr (20, 200)"
proof -
  have "DeleteGasPricesHistoryOlderThan_pg sample_pg 100 priced_db =
      Inr (priced_db\<lparr>db_gas_price := [\<lparr>gp_item_id = 2, gp_price = 20, gp_l1_price = 200, gp_timestamp = 11\<rparr>]\<rparr>)"
    "GetGasPrices_pg sample_pg priced_db = Inr (20, 200)"
    by code_simp+
  then show ?thesis using current_price_survives [OF priced_reach] by blast
qed

end
