(* ===== verification/EffectiveGasPrice.thy ===== *)
theory EffectiveGasPrice
  imports PoolStorage
begin

text \<open>
  The effective gas price: \<open>pool/effectivegasprice.go\<close>, with its \<open>float64\<close> and \<open>big.Float\<close> numbers. The factors of
  the configuration are nonnegative. Go leaves the conversion of a float of \<open>2 ^ 64\<close> or more to \<open>uint64\<close> to the
  implementation: the function \<open>ovf\<close>.
\<close>

record EffectiveGasPriceCfg =
  egp_Enabled :: bool
  L1GasPriceFactor :: big_float
  ByteGasCost :: u64
  ZeroByteGasCost :: u64
  NetProfit :: big_float
  BreakEvenFactor :: big_float
  FinalDeviationPct :: u64

record EffectiveGasPrice =
  e_cfg :: EffectiveGasPriceCfg
  minGasPriceAllowed :: u64

definition NewEffectiveGasPrice :: "EffectiveGasPriceCfg \<Rightarrow> u64 \<Rightarrow> EffectiveGasPrice" where
  "NewEffectiveGasPrice cfg allowed = \<lparr>e_cfg = cfg, minGasPriceAllowed = allowed\<rparr>"

definition egp_IsEnabled :: "EffectiveGasPrice \<Rightarrow> bool" where "egp_IsEnabled e = egp_Enabled (e_cfg e)"

definition egp_GetFinalDeviation :: "EffectiveGasPrice \<Rightarrow> u64" where "egp_GetFinalDeviation e = FinalDeviationPct (e_cfg e)"

section \<open>Floating point\<close>

text \<open>\<open>uint64(f)\<close>, and the product of a \<open>uint64\<close>, made a \<open>float64\<close>, with a \<open>float64\<close>, made a \<open>uint64\<close> again.\<close>

definition uint64_of_float :: "(big_float \<Rightarrow> u64) \<Rightarrow> big_float \<Rightarrow> u64" where
  "uint64_of_float ovf f = (if Float_Int f < 2 ^ 64 then of_nat (Float_Int f) else ovf f)"

definition scale64 :: "(big_float \<Rightarrow> u64) \<Rightarrow> u64 \<Rightarrow> big_float \<Rightarrow> u64" where
  "scale64 ovf n factor = uint64_of_float ovf (Float_Mul (Float_SetInt (unat n)) factor)"

text \<open>
  \<open>new(big.Float).SetInt\<close> is exact: it takes as many bits as the number has, and no fewer than 64. A product and
  a quotient take the larger precision of their operands.
\<close>

definition SetInt_prec :: "int \<Rightarrow> nat" where "SetInt_prec n = max 64 (BitLen (nat \<bar>n\<bar>))"

definition mul_trunc :: "nat \<Rightarrow> int \<Rightarrow> big_float \<Rightarrow> int" where
  "mul_trunc prec n f = sgn n * int (Float_Int (round_prec prec (nat \<bar>n\<bar> * fst f, snd f)))"

text \<open>A quotient of whole numbers: enough bits of it, and one more that says whether something is left.\<close>

definition Float_Quo :: "nat \<Rightarrow> nat \<Rightarrow> nat \<Rightarrow> big_float" where
  "Float_Quo prec x y = (let k = prec + 2 + BitLen y in
     round_prec prec (2 * (x * 2 ^ k div y) + (if x * 2 ^ k mod y = 0 then 0 else 1), - int k - 1))"

section \<open>Prices\<close>

definition signatureBytesLength :: u64 where "signatureBytesLength = 65"
definition effectivePercentageBytesLength :: u64 where "effectivePercentageBytesLength = 1"
definition constBytesTx :: u64 where "constBytesTx = signatureBytesLength + effectivePercentageBytesLength"

definition CalculateBreakEvenGasPrice ::
  "(big_float \<Rightarrow> u64) \<Rightarrow> EffectiveGasPrice \<Rightarrow> bytes \<Rightarrow> int \<Rightarrow> u64 \<Rightarrow> u64 \<Rightarrow> pool_error + int" where
  "CalculateBreakEvenGasPrice ovf e rawTx txGasPrice txGasUsed l1GasPrice =
     (if l1GasPrice = 0 then Inl ErrZeroL1GasPrice
      else if txGasUsed = 0 then Inr txGasPrice
      else (let l2Min0 = scale64 ovf l1GasPrice (L1GasPriceFactor (e_cfg e));
                l2MinGasPrice = (if l2Min0 < minGasPriceAllowed e then minGasPriceAllowed e else l2Min0);
                txZeroBytes = of_nat (count_list rawTx 0);
                txNonZeroBytes = of_nat (length rawTx) - txZeroBytes;
                totalTxPrice = txGasUsed * l2MinGasPrice +
                  ((constBytesTx + txNonZeroBytes) * ByteGasCost (e_cfg e) + txZeroBytes * ZeroByteGasCost (e_cfg e)) * l1GasPrice
            in Inr (uint (scale64 ovf (totalTxPrice div txGasUsed) (NetProfit (e_cfg e))))))"

text \<open>
  Division by a price of zero gives an infinity: the product with a break-even price of zero panics, any other
  product is infinite, and \<open>Int\<close> then leaves the result zero.
\<close>

definition CalculateEffectiveGasPriceOf ::
  "(big_float \<Rightarrow> u64) \<Rightarrow> EffectiveGasPrice \<Rightarrow> bytes \<Rightarrow> int \<Rightarrow> u64 \<Rightarrow> u64 \<Rightarrow> u64 \<Rightarrow> stop + (pool_error + int)" where
  "CalculateEffectiveGasPriceOf ovf e rawTx txGasPrice txGasUsed l1GasPrice l2GasPrice =
     (case CalculateBreakEvenGasPrice ovf e rawTx txGasPrice txGasUsed l1GasPrice of
        Inl err \<Rightarrow> Inr (Inl err)
      | Inr be \<Rightarrow>
          if uint l2GasPrice < txGasPrice \<and> l2GasPrice = 0 then
            (if be = 0 then Inl Panicked else Inr (Inl ErrEffectiveGasPriceIsZero))
          else (let egp = (if uint l2GasPrice < txGasPrice
                           then mul_trunc (max (SetInt_prec be) (SetInt_prec txGasPrice)) be
                                  (Float_Quo (SetInt_prec txGasPrice) (nat txGasPrice) (unat l2GasPrice))
                           else mul_trunc (SetInt_prec be) be (1, 0))
                in Inr (if egp = 0 then Inl ErrEffectiveGasPriceIsZero else Inr egp)))"

section \<open>Exact prices\<close>

lemma Float_Int_of_nat [simp]: "Float_Int (n, 0) = n"
  by (simp add: Float_Int_def)

lemma mul_trunc_1 [simp]: "mul_trunc (SetInt_prec n) n (1, 0) = n"
proof -
  have "nat \<bar>n\<bar> < 2 ^ SetInt_prec n"
    using BitLen_bounds(1) [of "nat \<bar>n\<bar>"] by (rule less_le_trans) (simp add: SetInt_prec_def)
  then show ?thesis by (simp add: mul_trunc_def round_prec_exact sgn_if)
qed

text \<open>
  A factor \<open>a / 2 ^ k\<close> whose product with the price has at most 53 bits scales the price exactly, but for the
  part after the point.
\<close>

lemma scale64_exact:
  assumes "unat n * a < 2 ^ 53" "0 < a"
  shows "scale64 ovf n (a, - int k) = of_nat (unat n * a div 2 ^ k)"
proof -
  have "unat n \<le> unat n * a" using assms(2) by simp
  then have n: "unat n < 2 ^ 53" using assms(1) by linarith
  have "unat n * a div 2 ^ k \<le> unat n * a" by simp
  also have "\<dots> < 2 ^ 53" by (rule assms(1))
  finally have "unat n * a div 2 ^ k < 2 ^ 64" by simp
  then show ?thesis
    using assms(1) n by (simp add: scale64_def uint64_of_float_def Float_SetInt_exact Float_Mul_exact Float_Int_def)
qed

text \<open>With a priority of one the effective price is the break-even price.\<close>

lemma no_priority:
  assumes "CalculateBreakEvenGasPrice ovf e rawTx p used l1 = Inr be" "p \<le> uint l2" "be \<noteq> 0"
  shows "CalculateEffectiveGasPriceOf ovf e rawTx p used l1 l2 = Inr (Inr be)"
  using assms by (simp add: CalculateEffectiveGasPriceOf_def not_less del: One_nat_def)

section \<open>The break-even price\<close>

text \<open>The cost of a transaction on both layers, over the natural numbers.\<close>

definition total_price :: "EffectiveGasPriceCfg \<Rightarrow> bytes \<Rightarrow> nat \<Rightarrow> nat \<Rightarrow> nat \<Rightarrow> nat" where
  "total_price cfg rawTx used l2Min l1 = used * l2Min +
     ((66 + length (filter (\<lambda>b. b \<noteq> 0) rawTx)) * unat (ByteGasCost cfg) + count_list rawTx 0 * unat (ZeroByteGasCost cfg)) * l1"

lemma of_nat_total:
  "of_nat (total_price cfg rawTx (unat used) (unat l2Min) (unat l1)) = used * l2Min +
     ((constBytesTx + (of_nat (length rawTx) - of_nat (count_list rawTx 0))) * ByteGasCost cfg +
      of_nat (count_list rawTx 0) * ZeroByteGasCost cfg) * l1"
proof -
  have "length (filter (\<lambda>b. b \<noteq> 0) rawTx) + count_list rawTx 0 = length rawTx" by (induction rawTx) auto
  then have "(of_nat (length rawTx) - of_nat (count_list rawTx 0) :: u64) = of_nat (length (filter (\<lambda>b. b \<noteq> 0) rawTx))"
    by (metis add_diff_cancel_right' of_nat_add)
  then show ?thesis
    by (simp add: total_price_def constBytesTx_def signatureBytesLength_def effectivePercentageBytesLength_def)
qed

text \<open>
  Away from the ends of the number formats, the break-even price is what it should be: the cost of the transaction's gas at the
  L2 minimum (the L1 price times its factor, and at least the configured minimum) plus the cost of its bytes at the L1 price,
  divided by the gas, times the profit. The hypotheses bound the products by the 53 bits of a \<open>float64\<close> and the total by 64 bits;
  the factors are \<open>a / 2 ^ k\<close> and \<open>n / 2 ^ m\<close>.
\<close>

theorem breakEven_formula:
  assumes "l1 \<noteq> 0" "used \<noteq> 0" "L1GasPriceFactor (e_cfg e) = (a, - int k)" "NetProfit (e_cfg e) = (n, - int m)" "0 < a" "0 < n"
    and "unat l1 * a < 2 ^ 53" "l2Min = max (unat l1 * a div 2 ^ k) (unat (minGasPriceAllowed e))"
    and "cost = total_price (e_cfg e) rawTx (unat used) l2Min (unat l1)" "cost < 2 ^ 64" "cost div unat used * n < 2 ^ 53"
  shows "CalculateBreakEvenGasPrice ovf e rawTx txGasPrice used l1 = Inr (int (cost div unat used * n div 2 ^ m))"
proof -
  let ?s = "scale64 ovf l1 (a, - int k)"
  let ?l2 = "if ?s < minGasPriceAllowed e then minGasPriceAllowed e else ?s"
  have "unat l1 * a div 2 ^ k \<le> unat l1 * a" by simp
  also note assms(7)
  finally have "unat l1 * a div 2 ^ k < 2 ^ 64" by simp
  then have "unat ?s = unat l1 * a div 2 ^ k" using scale64_exact [OF assms(7,5)] by (simp add: unat_of_nat take_bit_eq_mod)
  then have l2: "unat ?l2 = l2Min" by (auto simp: assms(8) max_def word_less_nat_alt)
  have tot: "used * ?l2 + ((constBytesTx + (of_nat (length rawTx) - of_nat (count_list rawTx 0))) * ByteGasCost (e_cfg e) +
      of_nat (count_list rawTx 0) * ZeroByteGasCost (e_cfg e)) * l1 = of_nat cost"
    using of_nat_total [of "e_cfg e" rawTx used ?l2 l1] unfolding l2 assms(9) by simp
  have quot: "unat (of_nat cost div used) = cost div unat used" using assms(10) by (simp add: unat_div unat_of_nat take_bit_eq_mod)
  have "cost div unat used * n div 2 ^ m \<le> cost div unat used * n" by simp
  also note assms(11)
  finally have fits: "cost div unat used * n div 2 ^ m < 2 ^ 64" by simp
  have "scale64 ovf (of_nat cost div used) (n, - int m) = of_nat (cost div unat used * n div 2 ^ m)"
    using scale64_exact [of "of_nat cost div used" n ovf m] assms(6,11) by (simp add: quot)
  then have "uint (scale64 ovf (of_nat cost div used) (n, - int m)) = int (cost div unat used * n div 2 ^ m)"
    using fits by (simp add: uint_nat unat_of_nat take_bit_eq_mod)
  then show ?thesis
    unfolding CalculateBreakEvenGasPrice_def Let_def assms(3,4) using assms(1,2) tot by simp
qed

section \<open>Examples\<close>

definition sample_egp :: EffectiveGasPrice where
  "sample_egp = NewEffectiveGasPrice \<lparr>egp_Enabled = True, L1GasPriceFactor = (1, -2), ByteGasCost = 16, ZeroByteGasCost = 4,
     NetProfit = (3, -1), BreakEvenFactor = (9, -3), FinalDeviationPct = 10\<rparr> 1000"

theorem breakEven_formula_witness: "CalculateBreakEvenGasPrice (\<lambda>_. 0) sample_egp [0, 1, 2] 5 21000 8000 = Inr 3624"
proof -
  have "unat (8000 :: u64) * 1 < 2 ^ 53" "max (unat (8000 :: u64) * 1 div 2 ^ 2) (unat (minGasPriceAllowed sample_egp)) = 2000"
    "L1GasPriceFactor (e_cfg sample_egp) = (1, - int 2)" "NetProfit (e_cfg sample_egp) = (3, - int 1)"
    "total_price (e_cfg sample_egp) [0, 1, 2] (unat (21000 :: u64)) 2000 (unat (8000 :: u64)) = 50736000"
    by (simp_all add: sample_egp_def NewEffectiveGasPrice_def total_price_def)
  then show ?thesis
    using breakEven_formula [of 8000 21000 sample_egp 1 2 3 1 2000 50736000 "[0, 1, 2]" "\<lambda>_. 0" 5] by simp
qed

text \<open>
  The total is computed in 64 bits and wraps: at an L1 price of \<open>2 ^ 47\<close> wei, about 140000 gwei, the break-even price of a
  transaction with no data that uses \<open>2 ^ 20\<close> units of gas is a small part of the L2 minimum, \<open>2 ^ 45\<close>.
\<close>

lemma total_wraps: "CalculateBreakEvenGasPrice ovf sample_egp [] 5 1048576 140737488355328 = Inr 212600881152"
proof -
  have "scale64 ovf 140737488355328 (Suc 0, - 2) = 35184372088832" "scale64 ovf 141733920768 (3, - 1) = 212600881152"
    using scale64_exact [of 140737488355328 1 ovf 2] scale64_exact [of 141733920768 3 ovf 1] by simp_all
  then show ?thesis
    by (simp add: CalculateBreakEvenGasPrice_def sample_egp_def NewEffectiveGasPrice_def constBytesTx_def signatureBytesLength_def
        effectivePercentageBytesLength_def)
qed

end
