(* ===== verification/Pool.thy ===== *)
theory Pool
  imports EffectiveGasPrice
begin

text \<open>
  The transaction pool: \<open>pool/pool.go\<close>, \<open>pool/validation.go\<close> and \<open>state/crypto.go\<close> over the model of its tables.
  The state of the chain, which the pool reaches through the interface \<open>stateInterface\<close>, is the record
  \<open>pool_chain\<close>; the clock is an argument. The goroutines that refresh prices and blocked addresses are the
  steps they repeat. The properties: which transactions \<open>AddTx\<close> stores, what \<open>IntrinsicGas\<close> computes, what the
  refreshing of the blocked addresses leaves.
\<close>

section \<open>IP addresses\<close>

text \<open>
  \<open>net.ParseIP\<close>, which answers whether a text is an address. An IPv4 address: the state of the loop is the value
  of the field, the number of its digits and the number of complete fields.
\<close>

definition dec_val :: "char \<Rightarrow> nat option" where
  "dec_val c = (case digit_val c of Some d \<Rightarrow> if d < 10 then Some d else None | None \<Rightarrow> None)"

fun parseIPv4_loop :: "nat \<Rightarrow> nat \<Rightarrow> nat \<Rightarrow> string \<Rightarrow> bool" where
  "parseIPv4_loop val digLen pos [] \<longleftrightarrow> digLen \<noteq> 0 \<and> pos = 3"
| "parseIPv4_loop val digLen pos (c # cs) =
     (case dec_val c of
        Some d \<Rightarrow> \<not> (digLen = 1 \<and> val = 0) \<and> val * 10 + d \<le> 255 \<and> parseIPv4_loop (val * 10 + d) (digLen + 1) pos cs
      | None \<Rightarrow> c = CHR ''.'' \<and> digLen \<noteq> 0 \<and> cs \<noteq> [] \<and> pos \<noteq> 3 \<and> parseIPv4_loop 0 0 (pos + 1) cs)"

definition parseIPv4 :: "string \<Rightarrow> bool" where "parseIPv4 s = parseIPv4_loop 0 0 0 s"

text \<open>
  An IPv6 address: \<open>i\<close> is the number of bytes read, the flag says whether \<open>::\<close> was seen. The loop reads fields of
  at most four digits; the last 32 bits may be an IPv4 address.
\<close>

definition hex_field :: "string \<Rightarrow> string" where "hex_field s = takeWhile (\<lambda>c. digit_val c \<noteq> None) s"

function parseIPv6_loop :: "nat \<Rightarrow> bool \<Rightarrow> string \<Rightarrow> bool" where
  "parseIPv6_loop i ellipsis s =
     (if i \<ge> 16 then s = [] \<and> \<not> ellipsis
      else (let off = length (hex_field s); rest = drop off s in
        if off = 0 \<or> off > 4 then False
        else if rest \<noteq> [] \<and> hd rest = CHR ''.'' then
          (ellipsis \<or> i = 12) \<and> i + 4 \<le> 16 \<and> parseIPv4 s \<and> (if i + 4 < 16 then ellipsis else \<not> ellipsis)
        else if rest = [] then (if i + 2 < 16 then ellipsis else \<not> ellipsis)
        else if hd rest \<noteq> CHR '':'' \<or> length rest = 1 then False
        else if rest ! 1 = CHR '':'' then
          (if ellipsis then False
           else if drop 2 rest = [] then i + 2 < 16
           else parseIPv6_loop (i + 2) True (drop 2 rest))
        else parseIPv6_loop (i + 2) ellipsis (tl rest)))"
  by pat_completeness auto

termination by (relation "measure (\<lambda>(i, e, s). 16 - i)") auto

definition parseIPv6 :: "string \<Rightarrow> bool" where
  "parseIPv6 s =
     (if take 2 s = [CHR '':'', CHR '':''] then drop 2 s = [] \<or> parseIPv6_loop 0 True (drop 2 s)
     else parseIPv6_loop 0 False s)"

text \<open>The first of \<open>.\<close>, \<open>:\<close> and \<open>%\<close> decides; an address with a zone is not an \<open>IP\<close>.\<close>

definition ParseIP :: "string \<Rightarrow> bool" where
  "ParseIP s = (case find (\<lambda>c. c \<in> {CHR ''.'', CHR '':'', CHR ''%''}) s of
     None \<Rightarrow> False
   | Some c \<Rightarrow> if c = CHR ''.'' then parseIPv4 s else if c = CHR '':'' then CHR ''%'' \<notin> set s \<and> parseIPv6 s else False)"

definition IsValidIP :: "string \<Rightarrow> bool" where "IsValidIP ip \<longleftrightarrow> ip \<noteq> [] \<and> ParseIP ip"

section \<open>Signatures and gas\<close>

text \<open>\<open>state.CheckSignature\<close>: whether it returns no error.\<close>

definition CheckSignature :: "pool_geth \<Rightarrow> EthTx \<Rightarrow> bool" where
  "CheckSignature g tx =
     (let chainID = big_Uint64 (tx_ChainId g tx);
          plainV = (if chainID \<noteq> 0 then ucast (big_Uint64 (tx_V (eth_inner tx)) - 35 - 2 * chainID) else 0)
      in ValidateSignatureValues g plainV (tx_R (eth_inner tx)) (tx_S (eth_inner tx)) False)"

definition txDataNonZeroGas :: u64 where "txDataNonZeroGas = 16"
definition txGasContractCreation :: u64 where "txGasContractCreation = 53000"
definition txGas :: u64 where "txGas = 21000"
definition txDataZeroGas :: u64 where "txDataZeroGas = 4"

definition MaxUint64 :: u64 where "MaxUint64 = - 1"

definition IntrinsicGas :: "LegacyTx \<Rightarrow> pool_error + u64" where
  "IntrinsicGas tx =
     (let gas = (if tx_To tx = None then txGasContractCreation else txGas); dataLen = of_nat (length (tx_Data tx)) in
      if dataLen > 0 then
        (let nz = of_nat (length (filter (\<lambda>byt. byt \<noteq> 0) (tx_Data tx))) in
         if (MaxUint64 - gas) div txDataNonZeroGas < nz then Inl ErrGasUintOverflow
         else (let gas' = gas + nz * txDataNonZeroGas; z = dataLen - nz in
           if (MaxUint64 - gas') div txDataZeroGas < z then Inl ErrGasUintOverflow
           else Inr (gas' + z * txDataZeroGas)))
      else Inr gas)"

section \<open>The pool\<close>

record PoolConfig =
  MaxTxBytesSize :: u64
  MaxTxDataBytesSize :: int
  DefaultMinGasPriceAllowed :: u64
  MinAllowedGasPriceInterval :: int
  AccountQueue :: u64
  GlobalQueue :: u64
  EffectiveGasPriceCfgF :: EffectiveGasPriceCfg

record GasPrices =
  L2GasPriceF :: u64
  L1GasPriceF :: u64

record Pool =
  p_cfg :: PoolConfig
  p_batchConstraintsCfg :: BatchConstraintsCfg
  p_chainID :: u64
  p_blockedAddresses :: "(address, unit) gomap"
  p_minSuggestedGasPrice :: "int option"
  p_startTimestamp :: int
  p_gasPrices :: GasPrices
  p_effectiveGasPrice :: EffectiveGasPrice
  p_events :: "(string \<times> hash \<times> string) list"
  p_db :: pool_db

record pool_chain =
  GetLastL2Block_Root :: "rt_error + hash"
  st_GetNonce :: "address \<Rightarrow> hash \<Rightarrow> rt_error + u64"
  st_GetBalance :: "address \<Rightarrow> hash \<Rightarrow> rt_error + int"
  PreProcessTransaction :: "EthTx \<Rightarrow> rt_error option \<times> ProcessBatchResponse option"

record pool_env =
  v_geth :: pool_geth
  v_pg :: pool_pg
  v_chain :: pool_chain
  v_ovf :: "big_float \<Rightarrow> u64"

record preExecutionResponse =
  pe_usedZkCounters :: ZKCounters
  pe_isExecutorLevelError :: bool
  pe_isOOC :: bool
  pe_isOOG :: bool
  pe_isReverted :: bool
  pe_txResponse :: "ProcessTransactionResponse option"

definition GetGasPrices :: "pool_pg \<Rightarrow> Pool \<Rightarrow> pool_error + GasPrices" where
  "GetGasPrices pg p = map_sum id (\<lambda>(l2, l1). \<lparr>L2GasPriceF = l2, L1GasPriceF = l1\<rparr>) (GetGasPrices_pg pg (p_db p))"

definition refreshGasPrices :: "pool_pg \<Rightarrow> Pool \<Rightarrow> Pool" where
  "refreshGasPrices pg p = (case GetGasPrices pg p of Inl e \<Rightarrow> p | Inr gasPrices \<Rightarrow> p\<lparr>p_gasPrices := gasPrices\<rparr>)"

text \<open>\<open>big.NewInt(int64(cfg.DefaultMinGasPriceAllowed))\<close> reads the price as a signed number.\<close>

definition NewPool ::
  "pool_pg \<Rightarrow> PoolConfig \<Rightarrow> BatchConstraintsCfg \<Rightarrow> pool_db \<Rightarrow> u64 \<Rightarrow> int \<Rightarrow> Pool" where
  "NewPool pg cfg constraints db chainID now = refreshGasPrices pg
     \<lparr>p_cfg = cfg, p_batchConstraintsCfg = constraints, p_chainID = chainID, p_blockedAddresses = [],
      p_minSuggestedGasPrice = Some (sint (DefaultMinGasPriceAllowed cfg)), p_startTimestamp = now,
      p_gasPrices = \<lparr>L2GasPriceF = 0, L1GasPriceF = 0\<rparr>,
      p_effectiveGasPrice = NewEffectiveGasPrice (EffectiveGasPriceCfgF cfg) (DefaultMinGasPriceAllowed cfg),
      p_events = [], p_db = db\<rparr>"

definition refreshBlockedAddresses :: "pool_pg \<Rightarrow> Pool \<Rightarrow> Pool" where
  "refreshBlockedAddresses pg p =
     (case GetAllAddressesBlocked pg (p_db p) of
        Inl e \<Rightarrow> p
      | Inr blockedAddresses \<Rightarrow>
          (let blockedAddressesMap = fold (\<lambda>a. gm_set a ()) blockedAddresses [];
               stored = fold (\<lambda>a. gm_set a ()) blockedAddresses (p_blockedAddresses p);
               unblockedAddresses = filter (\<lambda>a. gm_get blockedAddressesMap a = None) (map fst stored)
           in p\<lparr>p_blockedAddresses := fold gm_del unblockedAddresses stored\<rparr>))"

definition pollMinSuggestedGasPrice :: "pool_pg \<Rightarrow> int \<Rightarrow> Pool \<Rightarrow> Pool" where
  "pollMinSuggestedGasPrice pg now p =
     (let t = now - MinAllowedGasPriceInterval (p_cfg p);
          fromTimestamp = (if t < p_startTimestamp p then p_startTimestamp p else t)
      in case MinL2GasPriceSince pg fromTimestamp (p_db p) of
           Inl e \<Rightarrow> (if p_minSuggestedGasPrice p = None
                     then p\<lparr>p_minSuggestedGasPrice := Some (uint (DefaultMinGasPriceAllowed (p_cfg p)))\<rparr> else p)
         | Inr l2GasPrice \<Rightarrow> p\<lparr>p_minSuggestedGasPrice := Some (uint l2GasPrice)\<rparr>)"

section \<open>Validation\<close>

definition checkTxFieldCompatibilityWithExecutor :: "pool_geth \<Rightarrow> PoolConfig \<Rightarrow> EthTx \<Rightarrow> pool_error option" where
  "checkTxFieldCompatibilityWithExecutor g cfg tx =
     (let dataSize = int (length (tx_Data (eth_inner tx))) in
      if dataSize > MaxTxDataBytesSize cfg then Some (DataSizeTooBig dataSize (MaxTxDataBytesSize cfg))
      else if tx_ChainId g tx > uint MaxUint64 then Some ChainIdTooHigh
      else None)"

definition tx_price :: "EthTx \<Rightarrow> int" where
  "tx_price tx = tx_GasPrice (eth_inner tx) * uint (tx_Gas (eth_inner tx))"

fun check_replaced :: "pool_geth \<Rightarrow> EthTx \<Rightarrow> PoolTransaction list \<Rightarrow> pool_error option" where
  "check_replaced g tx [] = None"
| "check_replaced g tx (oldTx # oldTxs) =
     (if pt_Status oldTx = TxStatusInvalid \<or> pt_Status oldTx = TxStatusFailed then check_replaced g tx oldTxs
      else if tx_Hash g (pt_Transaction oldTx) = tx_Hash g tx then Some ErrAlreadyKnown
      else if tx_price (pt_Transaction oldTx) > tx_price tx then Some ErrReplaceUnderpriced
      else check_replaced g tx oldTxs)"

text \<open>From the sender on, the checks need the chain and the tables. Here up to the limits of the queues.\<close>

definition validate_queues :: "pool_env \<Rightarrow> Pool \<Rightarrow> EthTx \<Rightarrow> u64 \<Rightarrow> pool_error option" where
  "validate_queues v p tx curNonce =
     (if tx_Nonce (eth_inner tx) < curNonce then Some ErrNonceTooLow
      else if AccountQueue (p_cfg p) > 0 \<and> tx_Nonce (eth_inner tx) > curNonce + AccountQueue (p_cfg p) - 1
      then Some ErrNonceTooHigh
      else if GlobalQueue (p_cfg p) > 0 then
        (case CountTransactionsByStatus (v_pg v) [TxStatusPending] (p_db p) of
           Inl e \<Rightarrow> Some e
         | Inr txCount \<Rightarrow> if txCount \<ge> GlobalQueue (p_cfg p) then Some ErrTxPoolOverflow else None)
      else None)"

text \<open>
  The comparison with \<open>minSuggestedGasPrice\<close> dereferences it.
\<close>

definition validate_price :: "pool_env \<Rightarrow> Pool \<Rightarrow> EthTx \<Rightarrow> address \<Rightarrow> hash \<Rightarrow> stop + pool_error option" where
  "validate_price v p tx sender root =
     (case p_minSuggestedGasPrice p of
        None \<Rightarrow> Inl Panicked
      | Some minPrice \<Rightarrow> Inr
          (if tx_GasPrice (eth_inner tx) < minPrice then Some ErrGasPrice
           else case st_GetBalance (v_chain v) sender root of
             Inl e \<Rightarrow> Some (StateErr e)
           | Inr balance \<Rightarrow>
               if balance < tx_Cost (v_geth v) tx then Some ErrInsufficientFunds
               else case IntrinsicGas (eth_inner tx) of
                 Inl e \<Rightarrow> Some e
               | Inr intrGas \<Rightarrow>
                   if tx_Gas (eth_inner tx) < intrGas then Some ErrIntrinsicGas
                   else case GetTxsByFromAndNonce (v_geth v) (v_pg v) sender (tx_Nonce (eth_inner tx)) (p_db p) of
                     Inl e \<Rightarrow> Some e
                   | Inr oldTxs \<Rightarrow>
                       (case check_replaced (v_geth v) tx oldTxs of
                          Some e \<Rightarrow> Some e
                        | None \<Rightarrow> checkTxFieldCompatibilityWithExecutor (v_geth v) (p_cfg p) tx)))"

definition validate_sender :: "pool_env \<Rightarrow> Pool \<Rightarrow> EthTx \<Rightarrow> address \<Rightarrow> stop + pool_error option" where
  "validate_sender v p tx sender =
     (if tx_Size (v_geth v) tx > MaxTxBytesSize (p_cfg p) then Inr (Some ErrOversizedData)
      else if tx_Value (eth_inner tx) < 0 then Inr (Some ErrNegativeValue)
      else if gm_get (p_blockedAddresses p) sender \<noteq> None then Inr (Some ErrBlockedSender)
      else case GetLastL2Block_Root (v_chain v) of
        Inl e \<Rightarrow> Inr (Some (StateErr e))
      | Inr root \<Rightarrow>
          (case st_GetNonce (v_chain v) sender root of
             Inl e \<Rightarrow> Inr (Some (StateErr e))
           | Inr curNonce \<Rightarrow>
               (case validate_queues v p tx curNonce of
                  Some e \<Rightarrow> Inr (Some e)
                | None \<Rightarrow> validate_price v p tx sender root)))"

definition validateTx :: "pool_env \<Rightarrow> Pool \<Rightarrow> PoolTransaction \<Rightarrow> stop + pool_error option" where
  "validateTx v p poolTx = (let tx = pt_Transaction poolTx; txChainID = big_Uint64 (tx_ChainId (v_geth v) tx) in
     if pt_IP poolTx \<noteq> [] \<and> \<not> IsValidIP (pt_IP poolTx) then Inr (Some ErrInvalidIP)
     else if \<not> CheckSignature (v_geth v) tx then Inr (Some ErrInvalidSender)
     else if txChainID \<noteq> p_chainID p \<and> txChainID \<noteq> 0 then Inr (Some ErrInvalidChainID)
     else if eth_Type tx \<noteq> LegacyTxType then Inr (Some ErrTxTypeNotSupported)
     else if txChainID = 0 \<and> \<not> IsPreEIP155Tx (pg_geth (v_geth v)) (eth_inner tx) then Inr (Some ErrInvalidSender)
     else case GetSenderOf (v_geth v) tx of
       Inl e \<Rightarrow> Inr (Some ErrInvalidSender)
     | Inr sender \<Rightarrow> validate_sender v p tx sender)"

section \<open>Storing\<close>

definition isOOC :: "rt_error \<Rightarrow> bool" where "isOOC e = IsROMOutOfCountersError (RomErrorCode (Some e))"

definition preExecuteTx :: "pool_env \<Rightarrow> Pool \<Rightarrow> EthTx \<Rightarrow> stop + preExecutionResponse \<times> rt_error option" where
  "preExecuteTx v p tx =
     (let response = \<lparr>pe_usedZkCounters = emptyZKCounters, pe_isExecutorLevelError = False, pe_isOOC = False,
                      pe_isOOG = False, pe_isReverted = False, pe_txResponse = None\<rparr>
      in case PreProcessTransaction (v_chain v) tx of
           (Some err, pbr) \<Rightarrow>
             if \<not> isOOC err \<and> err \<noteq> rt_ErrOutOfGas then Inr (response, Some err)
             else and_then (deref pbr) (\<lambda>b. Inr
               (let r1 = response\<lparr>pe_isOOC := isOOC err, pe_isOOG := err = rt_ErrOutOfGas\<rparr> in
                case pbr_Responses b of
                  [] \<Rightarrow> r1
                | r # _ \<Rightarrow> r1\<lparr>pe_usedZkCounters := pbr_UsedZkCounters b, pe_txResponse := Some r\<rparr>, None))
         | (None, pbr) \<Rightarrow> and_then (deref pbr) (\<lambda>b. Inr
             (case pbr_Responses b of
                [] \<Rightarrow> response
              | r # _ \<Rightarrow>
                  (let r1 = response\<lparr>pe_isExecutorLevelError := pbr_IsExecutorLevelError b\<rparr>;
                       r2 = (case ptr_RomError r of
                               Some e \<Rightarrow> r1\<lparr>pe_isReverted := e = rt_ErrExecutionReverted, pe_isOOC := isOOC e,
                                            pe_isOOG := e = rt_ErrOutOfGas\<rparr>
                             | None \<Rightarrow> if \<not> IsWithinConstraints (p_batchConstraintsCfg p) (pbr_UsedZkCounters b)
                                       then r1\<lparr>pe_isOOC := True\<rparr> else r1)
                   in r2\<lparr>pe_usedZkCounters := pbr_UsedZkCounters b, pe_txResponse := Some r\<rparr>), None)))"

definition ValidateBreakEvenGasPrice :: "pool_env \<Rightarrow> Pool \<Rightarrow> EthTx \<Rightarrow> u64 \<Rightarrow> GasPrices \<Rightarrow> pool_error option" where
  "ValidateBreakEvenGasPrice v p tx preExecutionGasUsed gasPrices =
     (let cfg = EffectiveGasPriceCfgF (p_cfg p); gasPrice = tx_GasPrice (eth_inner tx) in
      case CalculateBreakEvenGasPrice (v_ovf v) (p_effectiveGasPrice p) (tx_Data (eth_inner tx)) gasPrice
             preExecutionGasUsed (L1GasPriceF gasPrices) of
        Inl err \<Rightarrow> if egp_Enabled cfg then Some err else None
      | Inr be \<Rightarrow>
          (let withFactor = mul_trunc (SetInt_prec be) be (BreakEvenFactor cfg);
               reject = withFactor > gasPrice \<and> gasPrice < uint (L2GasPriceF gasPrices)
           in if egp_Enabled cfg \<and> reject then Some ErrEffectiveGasPriceGasPriceTooLow else None))"

definition log_event :: "string \<Rightarrow> pool_env \<Rightarrow> EthTx \<Rightarrow> string \<Rightarrow> Pool \<Rightarrow> Pool" where
  "log_event event v tx ip p = p\<lparr>p_events := p_events p @ [(event, tx_Hash (v_geth v) tx, ip)]\<rparr>"

definition store_checked ::
  "pool_env \<Rightarrow> EthTx \<Rightarrow> string \<Rightarrow> bool \<Rightarrow> int \<Rightarrow> preExecutionResponse \<Rightarrow> Pool \<Rightarrow> stop + pool_error option \<times> Pool" where
  "store_checked v tx ip isWIP now pe p =
     (case GetGasPrices (v_pg v) p of
        Inl e \<Rightarrow> Inr (Some e, p)
      | Inr gasPrices \<Rightarrow>
          and_then (deref (pe_txResponse pe)) (\<lambda>r. Inr
            (case ValidateBreakEvenGasPrice v p tx (ptr_GasUsed r) gasPrices of
               Some e \<Rightarrow> (Some e, p)
             | None \<Rightarrow>
                 (case AddTx_pg (v_geth v) (v_pg v) ((NewTransaction tx ip isWIP now)\<lparr>pt_ZKCounters := pe_usedZkCounters pe\<rparr>)
                         (p_db p) of
                    Inl e \<Rightarrow> (Some e, p)
                  | Inr db \<Rightarrow> (None, p\<lparr>p_db := db\<rparr>)))))"

definition StoreTx :: "pool_env \<Rightarrow> EthTx \<Rightarrow> string \<Rightarrow> bool \<Rightarrow> int \<Rightarrow> Pool \<Rightarrow> stop + pool_error option \<times> Pool" where
  "StoreTx v tx ip isWIP now p =
     and_then (preExecuteTx v p tx) (\<lambda>(pe, err).
       if err = Some rt_ErrIntrinsicInvalidBatchGasLimit then Inr (Some ErrGasLimit, p)
       else if pe_isExecutorLevelError pe then Inr (map_option StateErr err, p)
       else case err of
         Some e \<Rightarrow> Inr (Some (StateErr e), p)
       | None \<Rightarrow>
           if pe_isOOC pe then Inr (Some ErrOutOfCounters, log_event ''PRE EXECUTION OOC'' v tx ip p)
           else store_checked v tx ip isWIP now pe
                  (if pe_isOOG pe then log_event ''PRE EXECUTION OOG'' v tx ip p else p))"

definition AddTx :: "pool_env \<Rightarrow> EthTx \<Rightarrow> string \<Rightarrow> int \<Rightarrow> Pool \<Rightarrow> stop + pool_error option \<times> Pool" where
  "AddTx v tx ip now p =
     and_then (validateTx v p (NewTransaction tx ip False now)) (\<lambda>r.
       case r of Some e \<Rightarrow> Inr (Some e, p) | None \<Rightarrow> StoreTx v tx ip False now p)"

section \<open>The other operations\<close>

definition GetPendingTxs :: "pool_env \<Rightarrow> Pool \<Rightarrow> u64 \<Rightarrow> pool_error + PoolTransaction list" where
  "GetPendingTxs v p n = GetTxsByStatus (v_geth v) (v_pg v) TxStatusPending n (p_db p)"

definition GetSelectedTxs :: "pool_env \<Rightarrow> Pool \<Rightarrow> u64 \<Rightarrow> pool_error + PoolTransaction list" where
  "GetSelectedTxs v p n = GetTxsByStatus (v_geth v) (v_pg v) TxStatusSelected n (p_db p)"

definition pool_write :: "(pool_db \<Rightarrow> pool_error + pool_db) \<Rightarrow> Pool \<Rightarrow> pool_error option \<times> Pool" where
  "pool_write f p = (case f (p_db p) of Inl e \<Rightarrow> (Some e, p) | Inr db \<Rightarrow> (None, p\<lparr>p_db := db\<rparr>))"

definition pool_UpdateTxStatus :: "pool_env \<Rightarrow> hash \<Rightarrow> string \<Rightarrow> bool \<Rightarrow> string option \<Rightarrow> Pool \<Rightarrow> pool_error option \<times> Pool" where
  "pool_UpdateTxStatus v h newStatus isWIP failedReason =
     pool_write (UpdateTxStatus_pg (v_pg v)
       \<lparr>ui_Hash = h, ui_NewStatus = newStatus, ui_IsWIP = isWIP, ui_FailedReason = failedReason\<rparr>)"

definition pool_SetGasPrices :: "pool_env \<Rightarrow> u64 \<Rightarrow> u64 \<Rightarrow> int \<Rightarrow> Pool \<Rightarrow> pool_error option \<times> Pool" where
  "pool_SetGasPrices v l2 l1 now = pool_write (SetGasPrices_pg (v_pg v) l2 l1 now)"

definition pool_DeleteGasPricesHistoryOlderThan :: "pool_env \<Rightarrow> int \<Rightarrow> Pool \<Rightarrow> pool_error option \<times> Pool" where
  "pool_DeleteGasPricesHistoryOlderThan v date = pool_write (DeleteGasPricesHistoryOlderThan_pg (v_pg v) date)"

definition CountPendingTransactions :: "pool_env \<Rightarrow> Pool \<Rightarrow> pool_error + u64" where
  "CountPendingTransactions v p = CountTransactionsByStatus (v_pg v) [TxStatusPending] (p_db p)"

definition pool_IsTxPending :: "pool_env \<Rightarrow> hash \<Rightarrow> Pool \<Rightarrow> pool_error + bool" where
  "pool_IsTxPending v h p = IsTxPending_pg (v_pg v) h (p_db p)"

definition DeleteReorgedTransactions :: "pool_env \<Rightarrow> EthTx list \<Rightarrow> Pool \<Rightarrow> pool_error option \<times> Pool" where
  "DeleteReorgedTransactions v txs = pool_write (DeleteTransactionsByHashes (v_pg v) (map (tx_Hash (v_geth v)) txs))"

definition pool_UpdateTxWIPStatus :: "pool_env \<Rightarrow> hash \<Rightarrow> bool \<Rightarrow> Pool \<Rightarrow> pool_error option \<times> Pool" where
  "pool_UpdateTxWIPStatus v h isWIP = pool_write (UpdateTxWIPStatus (v_pg v) h isWIP)"

definition GetDefaultMinGasPriceAllowed :: "Pool \<Rightarrow> u64" where
  "GetDefaultMinGasPriceAllowed p = DefaultMinGasPriceAllowed (p_cfg p)"

definition pool_GetL1AndL2GasPrice :: "Pool \<Rightarrow> u64 \<times> u64" where
  "pool_GetL1AndL2GasPrice p = (L1GasPriceF (p_gasPrices p), L2GasPriceF (p_gasPrices p))"

section \<open>Gas of a transaction\<close>

definition intrinsic_gas :: "LegacyTx \<Rightarrow> nat" where
  "intrinsic_gas tx = (if tx_To tx = None then 53000 else 21000) +
     16 * length (filter (\<lambda>byt. byt \<noteq> 0) (tx_Data tx)) + 4 * count_list (tx_Data tx) 0"

lemma length_split: "length (filter (\<lambda>b. b \<noteq> 0) bs) + count_list bs (0 :: u8) = length bs"
  by (induction bs) auto

lemma unat_u64 [simp]: "k < 2 ^ 64 \<Longrightarrow> unat (of_nat k :: u64) = k"
  by (simp add: unat_of_nat take_bit_eq_mod)

lemma room_u64:
  assumes "unat (gas :: u64) + k * unat d < 2 ^ 64" "k < 2 ^ 64" "0 < unat d"
  shows "\<not> (MaxUint64 - gas) div d < of_nat k" "unat (gas + of_nat k * d) = unat gas + k * unat d"
proof -
  have k: "unat (of_nat k :: u64) = k" using assms(2) by simp
  have sub: "unat (MaxUint64 - gas) = 2 ^ 64 - 1 - unat gas"
    by (subst unat_sub) (simp_all add: MaxUint64_def unsigned_minus_1_eq_mask mask_eq_exp_minus_1)
  have "k * unat d \<le> unat (MaxUint64 - gas)" using assms(1) sub by linarith
  then have "k \<le> unat (MaxUint64 - gas) div unat d" using assms(3) by (simp add: less_eq_div_iff_mult_less_eq)
  then show "\<not> (MaxUint64 - gas) div d < of_nat k" by (simp add: word_less_nat_alt unat_div k)
  have "unat (of_nat k * d) = k * unat d" using assms(1) by (simp add: unat_mult_lem [THEN iffD1] k unat_word_ariths)
  then show "unat (gas + of_nat k * d) = unat gas + k * unat d" using assms(1) by (simp add: unat_word_ariths)
qed

text \<open>
  \<open>IntrinsicGas\<close> never overflows for data that fits in memory, and none of its 64-bit operations wraps.
\<close>

lemma IntrinsicGas_total:
  assumes "length (tx_Data tx) < 2 ^ 59"
  shows "\<exists>gas. IntrinsicGas tx = Inr gas \<and> unat gas = intrinsic_gas tx"
proof -
  define nz where "nz = length (filter (\<lambda>b. b \<noteq> 0) (tx_Data tx))"
  define z where "z = count_list (tx_Data tx) 0"
  define base where "base = (if tx_To tx = None then txGasContractCreation else txGas)"
  have len: "nz + z = length (tx_Data tx)" by (simp add: nz_def z_def length_split)
  then have small: "nz < 2 ^ 59" "z < 2 ^ 59" using assms by linarith+
  have base: "unat base = (if tx_To tx = None then 53000 else 21000)"
    by (simp add: base_def txGasContractCreation_def txGas_def)
  have "unat base \<le> 53000" by (simp add: base)
  then have r1: "\<not> (MaxUint64 - base) div txDataNonZeroGas < of_nat nz"
      "unat (base + of_nat nz * txDataNonZeroGas) = unat base + nz * 16"
    using room_u64 [of base nz txDataNonZeroGas] small by (simp_all add: txDataNonZeroGas_def)
  then have r2: "\<not> (MaxUint64 - (base + of_nat nz * txDataNonZeroGas)) div txDataZeroGas < of_nat z"
      "unat (base + of_nat nz * txDataNonZeroGas + of_nat z * txDataZeroGas) = unat base + nz * 16 + z * 4"
    using room_u64 [of "base + of_nat nz * txDataNonZeroGas" z txDataZeroGas] small \<open>unat base \<le> 53000\<close>
    by (simp_all add: txDataZeroGas_def)
  have zw: "of_nat (length (tx_Data tx)) - of_nat nz = (of_nat z :: u64)" using len by (metis add_diff_cancel_left' of_nat_add)
  show ?thesis
  proof (cases "tx_Data tx = []")
    case True
    then show ?thesis using base by (simp add: IntrinsicGas_def intrinsic_gas_def base_def [symmetric])
  next
    case False
    then have "0 < (of_nat (length (tx_Data tx)) :: u64)" using assms by (simp add: word_less_nat_alt)
    then have "IntrinsicGas tx = Inr (base + of_nat nz * txDataNonZeroGas + of_nat z * txDataZeroGas)"
      using r1(1) r2(1) zw by (simp add: IntrinsicGas_def base_def [symmetric] nz_def [symmetric])
    then show ?thesis using r2(2) base by (simp add: intrinsic_gas_def nz_def [symmetric] z_def [symmetric])
  qed
qed

section \<open>Blocked addresses\<close>

lemma gm_get_fold_set: "gm_get (fold (\<lambda>a. gm_set a ()) as m) x = (if x \<in> set as then Some () else gm_get m x)"
  by (induction as arbitrary: m) (auto simp: gm.get_put)

lemma gm_get_fold_del: "gm_get (fold gm_del as m) x = (if x \<in> set as then None else gm_get m x)"
  by (induction as arbitrary: m) (auto simp: gm.get_del)

lemma gm_get_dom: "gm_get m x = None \<longleftrightarrow> x \<notin> fst ` set m"
  by (simp add: gm_get_def map_of_eq_None_iff)

lemma refreshBlockedAddresses_exact:
  assumes "pg_fails pg ''GetAllAddressesBlocked'' = None"
  shows "gm_get (p_blockedAddresses (refreshBlockedAddresses pg p)) a = (if a \<in> set (db_blocked (p_db p)) then Some () else None)"
proof -
  let ?as = "db_blocked (p_db p)" and ?m = "p_blockedAddresses p"
  let ?stored = "fold (\<lambda>a. gm_set a ()) ?as ?m"
  have "gm_get (p_blockedAddresses (refreshBlockedAddresses pg p)) a =
      (if a \<in> fst ` set ?stored \<and> a \<notin> set ?as then None else gm_get ?stored a)"
    using assms by (simp add: refreshBlockedAddresses_def GetAllAddressesBlocked_def gm_get_fold_del gm_get_fold_set)
  then show ?thesis using gm_get_dom [of ?stored a] by (auto simp: gm_get_fold_set)
qed

section \<open>Accepted transactions\<close>

lemma check_replaced_None:
  "check_replaced g tx olds = None \<longleftrightarrow> (\<forall>old \<in> set olds. pt_Status old \<noteq> TxStatusInvalid \<longrightarrow> pt_Status old \<noteq> TxStatusFailed \<longrightarrow>
     tx_Hash g (pt_Transaction old) \<noteq> tx_Hash g tx \<and> tx_price (pt_Transaction old) \<le> tx_price tx)"
  by (induction olds) auto

lemma checkTxField_None:
  "checkTxFieldCompatibilityWithExecutor g cfg tx = None \<longleftrightarrow>
     int (length (tx_Data (eth_inner tx))) \<le> MaxTxDataBytesSize cfg \<and> tx_ChainId g tx < 2 ^ 64"
  by (auto simp: checkTxFieldCompatibilityWithExecutor_def MaxUint64_def unsigned_minus_1_eq_mask mask_eq_exp_minus_1)

text \<open>
  What the node asks of a transaction, apart from its signature: about its sender, the state of the chain and the
  tables of the pool.
\<close>

definition affordable :: "pool_geth \<Rightarrow> EthTx \<Rightarrow> int \<Rightarrow> int \<Rightarrow> bool" where
  "affordable g tx minPrice balance \<longleftrightarrow> minPrice \<le> tx_GasPrice (eth_inner tx) \<and> tx_Cost g tx \<le> balance \<and>
     intrinsic_gas (eth_inner tx) \<le> unat (tx_Gas (eth_inner tx))"

definition in_queue :: "PoolConfig \<Rightarrow> EthTx \<Rightarrow> u64 \<Rightarrow> pool_db \<Rightarrow> bool" where
  "in_queue cfg tx nonce db \<longleftrightarrow> nonce \<le> tx_Nonce (eth_inner tx) \<and>
     (AccountQueue cfg = 0 \<or> tx_Nonce (eth_inner tx) \<le> nonce + AccountQueue cfg - 1) \<and>
     (GlobalQueue cfg = 0 \<or> of_nat (length (filter (\<lambda>r. q_status r = TxStatusPending) (db_transaction db))) < GlobalQueue cfg)"

definition replaces :: "pool_geth \<Rightarrow> EthTx \<Rightarrow> address \<Rightarrow> pool_db \<Rightarrow> bool" where
  "replaces g tx sender db \<longleftrightarrow> list_all (\<lambda>r. q_from_address r = sender \<and> q_nonce r = tx_Nonce (eth_inner tx) \<and>
       q_status r \<noteq> TxStatusInvalid \<and> q_status r \<noteq> TxStatusFailed \<longrightarrow>
     q_hash r \<noteq> tx_Hash g tx \<and> tx_price (pt_Transaction (tx_of_row g r)) \<le> tx_price tx) (db_transaction db)"

lemma ball_image_filter: "(\<forall>y \<in> f ` {x \<in> S. P x}. Q y) \<longleftrightarrow> (\<forall>x \<in> S. P x \<longrightarrow> Q (f x))"
  by auto

lemma replaced_rows:
  assumes "db_inv g db" "\<And>rs. mset (pg_order pg rs) = mset rs" "pg_fails pg ''GetTxsByFromAndNonce'' = None"
  shows "\<exists>olds. GetTxsByFromAndNonce g pg sender (tx_Nonce (eth_inner tx)) db = Inr olds \<and>
     (check_replaced g tx olds = None \<longleftrightarrow> replaces g tx sender db)"
proof -
  let ?P = "\<lambda>r. q_from_address r = sender \<and> q_nonce r = tx_Nonce (eth_inner tx)"
  have ok: "row_ok g r" if "r \<in> set (db_transaction db)" for r
    using assms(1) that by (auto simp: db_inv_def intro: rows_are_member)
  have "GetTxsByFromAndNonce g pg sender (tx_Nonce (eth_inner tx)) db = Inr (map (tx_of_row g) (sql_where pg ?P db))"
    unfolding GetTxsByFromAndNonce_def sql_where_scan(1) [OF assms(1,2)] by (simp add: assms(3))
  moreover have "check_replaced g tx (map (tx_of_row g) (sql_where pg ?P db)) = None \<longleftrightarrow> replaces g tx sender db"
    unfolding check_replaced_None replaces_def list_all_iff set_map sql_where_scan(2) [OF assms(1,2)] ball_image_filter
    by (rule ball_cong [OF refl]) (simp add: row_ok_scan(2,6) [OF ok] imp_conjL)
  ultimately show ?thesis by (intro exI conjI)
qed

lemma IntrinsicGas_le:
  assumes "length (tx_Data tx) < 2 ^ 59"
  shows "\<exists>gas. IntrinsicGas tx = Inr gas \<and> (x < gas \<longleftrightarrow> \<not> intrinsic_gas tx \<le> unat x)"
  using IntrinsicGas_total [OF assms] by (auto simp: word_less_nat_alt not_le)

text \<open>The database answers, and returns the rows it selects in some order.\<close>

definition pg_works :: "pool_pg \<Rightarrow> bool" where
  "pg_works pg \<longleftrightarrow> pg_fails pg = (\<lambda>_. None) \<and> (\<forall>rs. mset (pg_order pg rs) = mset rs)"

lemma pg_worksD: "pg_works pg \<Longrightarrow> pg_fails pg s = None" "pg_works pg \<Longrightarrow> mset (pg_order pg rs) = mset rs"
  by (simp_all add: pg_works_def)

lemma validate_queues_None:
  assumes "pg_works (v_pg v)"
  shows "validate_queues v p tx nonce = None \<longleftrightarrow> in_queue (p_cfg p) tx nonce (p_db p)"
  using assms
  by (auto simp: validate_queues_def in_queue_def CountTransactionsByStatus_def pg_worksD not_less not_le word_gt_0
        split: if_splits)

lemma validate_price_None:
  assumes "db_inv (v_geth v) (p_db p)" "pg_works (v_pg v)" "p_minSuggestedGasPrice p = Some minPrice"
    and "st_GetBalance (v_chain v) sender root = Inr balance" "length (tx_Data (eth_inner tx)) < 2 ^ 59"
  shows "validate_price v p tx sender root = Inr None \<longleftrightarrow>
    affordable (v_geth v) tx minPrice balance \<and> replaces (v_geth v) tx sender (p_db p) \<and>
    int (length (tx_Data (eth_inner tx))) \<le> MaxTxDataBytesSize (p_cfg p) \<and> tx_ChainId (v_geth v) tx < 2 ^ 64"
proof -
  obtain olds where olds: "GetTxsByFromAndNonce (v_geth v) (v_pg v) sender (tx_Nonce (eth_inner tx)) (p_db p) = Inr olds"
      "check_replaced (v_geth v) tx olds = None \<longleftrightarrow> replaces (v_geth v) tx sender (p_db p)"
    using replaced_rows [OF assms(1) pg_worksD(2) [OF assms(2)] pg_worksD(1) [OF assms(2)], of sender tx]
    by (elim exE conjE) (rule that)
  obtain gas where gas: "IntrinsicGas (eth_inner tx) = Inr gas"
      "tx_Gas (eth_inner tx) < gas \<longleftrightarrow> \<not> intrinsic_gas (eth_inner tx) \<le> unat (tx_Gas (eth_inner tx))"
    using IntrinsicGas_le [OF assms(5)] by blast
  have last: "(case check_replaced (v_geth v) tx olds of Some e \<Rightarrow> Some e
       | None \<Rightarrow> checkTxFieldCompatibilityWithExecutor (v_geth v) (p_cfg p) tx) = None \<longleftrightarrow>
     replaces (v_geth v) tx sender (p_db p) \<and>
     int (length (tx_Data (eth_inner tx))) \<le> MaxTxDataBytesSize (p_cfg p) \<and> tx_ChainId (v_geth v) tx < 2 ^ 64"
    using olds(2) checkTxField_None [of "v_geth v" "p_cfg p" tx] by (cases "check_replaced (v_geth v) tx olds") auto
  show ?thesis
    unfolding validate_price_def affordable_def last [symmetric] using olds(1) gas assms(3,4) by (simp add: not_less not_le)
qed

text \<open>
  C11. The checks of \<open>validateTx\<close> in one formula: with a database that answers and tables the pool wrote itself, a
  transaction with a sender is accepted exactly if its IP and its signature are valid, it is a legacy transaction of this
  chain or one from before EIP-155, it is not oversized, its value is not negative, its sender is not blocked, its nonce is
  not below that of the account and within the account's queue, the pool is not full, the price is at least the
  suggested minimum, the balance covers the cost, the gas covers the intrinsic gas, and it is worth no less than the
  other live transactions of that sender and nonce and is none of them.
\<close>

theorem validateTx_accepts_iff:
  assumes "db_reach (v_geth v) (p_db p)" "binary_round_trip (v_geth v)" "pg_works (v_pg v)"
    and "p_minSuggestedGasPrice p = Some minPrice" "GetSenderOf (v_geth v) tx = Inr sender"
    and "GetLastL2Block_Root (v_chain v) = Inr root" "st_GetNonce (v_chain v) sender root = Inr nonce"
    and "st_GetBalance (v_chain v) sender root = Inr balance" "length (tx_Data (eth_inner tx)) < 2 ^ 59"
  shows "validateTx v p (NewTransaction tx ip isWIP now) = Inr None \<longleftrightarrow>
    (ip = [] \<or> IsValidIP ip) \<and> CheckSignature (v_geth v) tx \<and> eth_Type tx = LegacyTxType \<and>
    (big_Uint64 (tx_ChainId (v_geth v) tx) = p_chainID p \<and> p_chainID p \<noteq> 0 \<or>
     IsPreEIP155Tx (pg_geth (v_geth v)) (eth_inner tx)) \<and>
    tx_Size (v_geth v) tx \<le> MaxTxBytesSize (p_cfg p) \<and> 0 \<le> tx_Value (eth_inner tx) \<and>
    gm_get (p_blockedAddresses p) sender = None \<and> in_queue (p_cfg p) tx nonce (p_db p) \<and>
    affordable (v_geth v) tx minPrice balance \<and> replaces (v_geth v) tx sender (p_db p) \<and>
    int (length (tx_Data (eth_inner tx))) \<le> MaxTxDataBytesSize (p_cfg p) \<and> tx_ChainId (v_geth v) tx < 2 ^ 64"
proof -
  have inv: "db_inv (v_geth v) (p_db p)" using db_reach_inv assms(1,2) by blast
  note price = validate_price_None [OF inv assms(3,4,8,9)] and queues = validate_queues_None [OF assms(3), of p tx nonce]
  have "validate_sender v p tx sender = Inr None \<longleftrightarrow>
      tx_Size (v_geth v) tx \<le> MaxTxBytesSize (p_cfg p) \<and> 0 \<le> tx_Value (eth_inner tx) \<and>
      gm_get (p_blockedAddresses p) sender = None \<and> validate_queues v p tx nonce = None \<and> validate_price v p tx sender root = Inr None"
    using assms(6,7)
    by (cases "validate_queues v p tx nonce"; cases "gm_get (p_blockedAddresses p) sender")
      (auto simp: validate_sender_def not_less)
  moreover have "IsPreEIP155Tx (pg_geth (v_geth v)) (eth_inner tx) \<Longrightarrow> eth_Type tx = LegacyTxType \<Longrightarrow>
      big_Uint64 (tx_ChainId (v_geth v) tx) = 0"
    by (simp add: IsPreEIP155Tx_def tx_ChainId_def)
  ultimately show ?thesis
    unfolding validateTx_def NewTransaction_def using assms(5) price queues by auto
qed

section \<open>Stored transactions\<close>

lemma log_event_db [simp]: "p_db (log_event event v tx ip p) = p_db p" "p_cfg (log_event event v tx ip p) = p_cfg p"
  by (simp_all add: log_event_def)

lemma store_checked_cases:
  assumes "store_checked v tx ip isWIP now pe p = Inr (r, p')"
  shows "r \<noteq> None \<and> p' = p \<or> r = None \<and> (\<exists>db. p' = p\<lparr>p_db := db\<rparr> \<and>
     AddTx_pg (v_geth v) (v_pg v) ((NewTransaction tx ip isWIP now)\<lparr>pt_ZKCounters := pe_usedZkCounters pe\<rparr>) (p_db p) = Inr db)"
  using assms
  by (auto simp: store_checked_def deref_def split: sum.splits option.splits dest: sym)

text \<open>
  What the pre-execution of a transaction that is stored showed. The counters are compared with the limits of a batch only
  when the ROM reported no error: one that ran out of gas, or ended in an error other than one of the counters, is stored
  with whatever it used.
\<close>

definition pre_executed :: "pool_env \<Rightarrow> EthTx \<Rightarrow> Pool \<Rightarrow> ZKCounters \<Rightarrow> bool" where
  "pre_executed v tx p used \<longleftrightarrow> (case PreProcessTransaction (v_chain v) tx of
     (err, Some b) \<Rightarrow>
       (case pbr_Responses b of
          [] \<Rightarrow> False
        | r # _ \<Rightarrow> used = pbr_UsedZkCounters b \<and>
            (case err of
               Some e \<Rightarrow> e = rt_ErrOutOfGas
             | None \<Rightarrow> \<not> pbr_IsExecutorLevelError b \<and>
                 (case ptr_RomError r of Some e \<Rightarrow> \<not> isOOC e | None \<Rightarrow> IsWithinConstraints (p_batchConstraintsCfg p) used)))
   | (err, None) \<Rightarrow> False)"

text \<open>The state's answer was a response marked as an error of the executor.\<close>

definition executor_refused :: "pool_env \<Rightarrow> EthTx \<Rightarrow> bool" where
  "executor_refused v tx \<longleftrightarrow> (case PreProcessTransaction (v_chain v) tx of
     (None, Some b) \<Rightarrow> pbr_Responses b \<noteq> [] \<and> pbr_IsExecutorLevelError b
   | _ \<Rightarrow> False)"

lemma isOOC_OutOfGas [simp]: "\<not> isOOC rt_ErrOutOfGas"
  by code_simp

lemma preExecuteTx_stored:
  assumes "preExecuteTx v p tx = Inr (pe, None)" "\<not> pe_isExecutorLevelError pe" "\<not> pe_isOOC pe" "pe_txResponse pe \<noteq> None"
  shows "pre_executed v tx p (pe_usedZkCounters pe)"
proof -
  obtain err pbr where pp: "PreProcessTransaction (v_chain v) tx = (err, pbr)" by fastforce
  obtain b where pbr: "pbr = Some b"
    using assms(1) pp by (cases pbr; cases err) (auto simp: preExecuteTx_def deref_def split: if_splits)
  obtain r rs where rs: "pbr_Responses b = r # rs"
    using assms pp pbr by (cases "pbr_Responses b"; cases err) (auto simp: preExecuteTx_def deref_def split: if_splits)
  show ?thesis
    using assms pp pbr rs
    by (cases err; cases "ptr_RomError r") (auto simp: preExecuteTx_def deref_def pre_executed_def split: if_splits)
qed

lemma preExecuteTx_error:
  "preExecuteTx v p tx = Inr (pe, Some e) \<Longrightarrow> \<not> pe_isExecutorLevelError pe"
  by (auto simp: preExecuteTx_def deref_def split: prod.splits option.splits list.splits if_splits)

lemma preExecuteTx_executor_error:
  assumes "preExecuteTx v p tx = Inr (pe, None)" "pe_isExecutorLevelError pe"
  shows "executor_refused v tx"
  using assms
  by (auto simp: preExecuteTx_def deref_def executor_refused_def split: prod.splits option.splits list.splits if_splits)

lemma pre_executed_not_refused: "pre_executed v tx p used \<Longrightarrow> \<not> executor_refused v tx"
  by (auto simp: pre_executed_def executor_refused_def split: prod.splits option.splits list.splits)

lemma StoreTx_error_keeps:
  assumes "StoreTx v tx ip isWIP now p = Inr (Some e, p')"
  shows "p_db p' = p_db p"
proof -
  obtain pe err where pe: "preExecuteTx v p tx = Inr (pe, err)"
    using assms by (cases "preExecuteTx v p tx") (auto simp: StoreTx_def)
  show ?thesis
    using assms pe store_checked_cases
    by (cases err) (fastforce simp: StoreTx_def split: if_splits)+
qed

lemma StoreTx_success:
  assumes "StoreTx v tx ip isWIP now p = Inr (None, p')"
  shows "p' = p \<and> executor_refused v tx \<or>
    (\<exists>used. pre_executed v tx p used \<and>
      AddTx_pg (v_geth v) (v_pg v) ((NewTransaction tx ip isWIP now)\<lparr>pt_ZKCounters := used\<rparr>) (p_db p) = Inr (p_db p'))"
proof -
  obtain pe err where pe: "preExecuteTx v p tx = Inr (pe, err)"
    using assms by (cases "preExecuteTx v p tx") (auto simp: StoreTx_def)
  have err: "err = None" using assms pe preExecuteTx_error by (cases err) (auto simp: StoreTx_def split: if_splits)
  show ?thesis
  proof (cases "pe_isExecutorLevelError pe")
    case True
    then have "p' = p" using assms pe err by (simp add: StoreTx_def)
    then show ?thesis using preExecuteTx_executor_error pe err True by blast
  next
    case False
    define q where "q = (if pe_isOOG pe then log_event ''PRE EXECUTION OOG'' v tx ip p else p)"
    have "\<not> pe_isOOC pe" and st: "store_checked v tx ip isWIP now pe q = Inr (None, p')"
      using assms pe err False by (auto simp: StoreTx_def q_def split: if_splits)
    moreover have "pe_txResponse pe \<noteq> None"
      using st by (auto simp: store_checked_def deref_def split: sum.splits option.splits)
    ultimately have "pre_executed v tx p (pe_usedZkCounters pe)" using preExecuteTx_stored pe err False by blast
    moreover have "p_db q = p_db p" by (simp add: q_def)
    ultimately show ?thesis using store_checked_cases [OF st] by auto
  qed
qed

lemma AddTx_cases:
  assumes "AddTx v tx ip now p = Inr (r, p')"
  shows "(\<exists>e. r = Some e \<and> p' = p) \<or>
    validateTx v p (NewTransaction tx ip False now) = Inr None \<and> StoreTx v tx ip False now p = Inr (r, p')"
  using assms by (cases "validateTx v p (NewTransaction tx ip False now)") (auto simp: AddTx_def split: option.splits)

text \<open>Adding transactions is a run of the storage.\<close>

lemma AddTx_reach:
  assumes "AddTx v tx ip now p = Inr (r, p')" "db_reach (v_geth v) (p_db p)"
  shows "db_reach (v_geth v) (p_db p')"
proof (cases r)
  case None
  then have "StoreTx v tx ip False now p = Inr (None, p')" using AddTx_cases [OF assms(1)] by auto
  then show ?thesis using StoreTx_success assms(2) db_reach.Step db_step.AddTx by metis
next
  case (Some e)
  then have "p_db p' = p_db p" using AddTx_cases [OF assms(1)] StoreTx_error_keeps by auto
  then show ?thesis using assms(2) by simp
qed

text \<open>
  C12. What \<open>AddTx\<close> does to the tables. If it returns an error, nothing is stored or changed. If it returns none, the
  transaction passed all checks; but when the state answered the pre-execution with a response marked as an error of the
  executor, \<open>AddTx\<close> reports success and stores nothing. Otherwise the transaction is in the table: the row under its hash
  reads as this transaction, pending, received now, from this IP, with the counters of the pre-execution, and every other
  row is as before. The pre-execution gave a response without an error of the ROM and with counters within the limits of a
  batch, or it ran out of gas, or ended in an error of the ROM that is not one of the counters; in these last two cases the
  code does not compare the counters with the limits.
\<close>

theorem AddTx_stores:
  assumes "AddTx v tx ip now p = Inr (r, p')" "binary_round_trip (v_geth v)"
  shows "case r of
      Some e \<Rightarrow> p_db p' = p_db p
    | None \<Rightarrow> validateTx v p (NewTransaction tx ip False now) = Inr None \<and>
        (if executor_refused v tx then p_db p' = p_db p
         else (\<exists>used q. pre_executed v tx p used \<and> row_at (p_db p') (tx_Hash (v_geth v) tx) = Some q \<and>
             scanTx (v_geth v) q = Inr ((NewTransaction tx ip False now)\<lparr>pt_ZKCounters := used\<rparr>)) \<and>
           (\<forall>h. h \<noteq> tx_Hash (v_geth v) tx \<longrightarrow> row_at (p_db p') h = row_at (p_db p) h))"
proof (cases r)
  case (Some e)
  then show ?thesis using AddTx_cases [OF assms(1)] StoreTx_error_keeps by auto
next
  case None
  then have valid: "validateTx v p (NewTransaction tx ip False now) = Inr None"
      and store: "StoreTx v tx ip False now p = Inr (None, p')" using AddTx_cases [OF assms(1)] by auto
  show ?thesis
  proof (cases "executor_refused v tx")
    case True
    then have "p' = p" using StoreTx_success [OF store] pre_executed_not_refused by blast
    with True None valid show ?thesis by simp
  next
    case False
    then obtain used where used: "pre_executed v tx p used"
        and add: "AddTx_pg (v_geth v) (v_pg v) ((NewTransaction tx ip False now)\<lparr>pt_ZKCounters := used\<rparr>) (p_db p) = Inr (p_db p')"
      using StoreTx_success [OF store] by metis
    let ?t = "(NewTransaction tx ip False now)\<lparr>pt_ZKCounters := used\<rparr>"
    obtain b decoded sender where q: "tx_MarshalBinary (v_geth v) (pt_Transaction ?t) = Inr b"
        "p_db p' = sql_upsert (pool_row_of (v_geth v) ?t b decoded sender) (p_db p)"
      using add by (rule AddTx_pg_Inr)
    let ?q = "pool_row_of (v_geth v) ?t b decoded sender"
    have "q_hash ?q = tx_Hash (v_geth v) tx" by (simp add: pool_row_of_def NewTransaction_def)
    then have "row_at (p_db p') h = (if h = tx_Hash (v_geth v) tx then Some ?q else row_at (p_db p) h)" for h
      using q(2) tab.look_put by simp
    moreover have "scanTx (v_geth v) ?q = Inr ?t"
      unfolding scanTx_def decode_pool_row_of [OF assms(2) q(1)] by (simp add: pool_row_of_def NewTransaction_def)
    ultimately show ?thesis using None valid used False by auto
  qed
qed

text \<open>
  An error of the executor that the state reports in a response and not as an error is lost: \<open>StoreTx\<close> returns no
  error, although it did not store the transaction.
\<close>

theorem executor_error_is_success:
  assumes "PreProcessTransaction (v_chain v) tx = (None, Some b)" "pbr_IsExecutorLevelError b" "pbr_Responses b \<noteq> []"
  shows "StoreTx v tx ip isWIP now p = Inr (None, p)"
proof -
  obtain r rs where rs: "pbr_Responses b = r # rs" using assms(3) by (cases "pbr_Responses b") auto
  obtain pe where "preExecuteTx v p tx = Inr (pe, None)" "pe_isExecutorLevelError pe"
    using assms(1,2) rs by (cases "ptr_RomError r") (auto simp: preExecuteTx_def deref_def split: if_splits)
  then show ?thesis by (simp add: StoreTx_def)
qed

lemma validate_sender_blocked:
  "gm_get (p_blockedAddresses p) sender \<noteq> None \<Longrightarrow> validate_sender v p tx sender \<noteq> Inr None"
  by (auto simp: validate_sender_def)

text \<open>
  Once the blocked addresses were refreshed, the addresses blocked in memory are exactly those of the table: a
  transaction of such a sender is never accepted, whatever was blocked before, and an address that was removed from
  the table is no longer blocked.
\<close>

theorem blocked_sender_is_refused:
  assumes "pg_fails pg ''GetAllAddressesBlocked'' = None" "GetSenderOf (v_geth v) tx = Inr sender"
  shows "(sender \<in> set (db_blocked (p_db p)) \<longrightarrow> (\<nexists>p'. AddTx v tx ip now (refreshBlockedAddresses pg p) = Inr (None, p'))) \<and>
    (gm_get (p_blockedAddresses (refreshBlockedAddresses pg p)) a \<noteq> None \<longleftrightarrow> a \<in> set (db_blocked (p_db p)))"
proof (intro conjI impI notI)
  let ?p = "refreshBlockedAddresses pg p"
  assume "sender \<in> set (db_blocked (p_db p))" "\<exists>p'. AddTx v tx ip now ?p = Inr (None, p')"
  then have "gm_get (p_blockedAddresses ?p) sender \<noteq> None" "validateTx v ?p (NewTransaction tx ip False now) = Inr None"
    using refreshBlockedAddresses_exact [OF assms(1), of p sender] AddTx_cases [of v tx ip now ?p None] by auto
  then show False
    using validate_sender_blocked [of ?p sender v tx] assms(2) by (auto simp: validateTx_def NewTransaction_def split: if_splits)
next
  show "gm_get (p_blockedAddresses (refreshBlockedAddresses pg p)) a \<noteq> None \<longleftrightarrow> a \<in> set (db_blocked (p_db p))"
    by (simp add: refreshBlockedAddresses_exact [OF assms(1)])
qed

section \<open>Panics\<close>

text \<open>The suggested minimum is set from the start, and no step of the pool resets it.\<close>

lemma min_price_is_set:
  "p_minSuggestedGasPrice (NewPool pg cfg constraints db chainID now) \<noteq> None"
  "p_minSuggestedGasPrice (pollMinSuggestedGasPrice pg now p) \<noteq> None"
  "p_minSuggestedGasPrice (refreshGasPrices pg p) = p_minSuggestedGasPrice p"
  "p_minSuggestedGasPrice (refreshBlockedAddresses pg p) = p_minSuggestedGasPrice p"
  by (auto simp: NewPool_def pollMinSuggestedGasPrice_def refreshGasPrices_def refreshBlockedAddresses_def split: sum.splits)

lemma AddTx_never_panics:
  assumes "p_minSuggestedGasPrice p \<noteq> None" "PreProcessTransaction (v_chain v) tx = (err, Some b)" "pbr_Responses b \<noteq> []"
  shows "\<exists>r p'. AddTx v tx ip now p = Inr (r, p')"
proof -
  obtain r rs where rs: "pbr_Responses b = r # rs" using assms(3) by (cases "pbr_Responses b") auto
  have valid: "\<exists>e. validateTx v p t = Inr e" for t
    using assms(1)
    by (auto simp: validateTx_def validate_sender_def validate_price_def split: sum.splits option.splits)
  have "\<exists>pe err'. preExecuteTx v p tx = Inr (pe, err') \<and> (err' = None \<longrightarrow> pe_txResponse pe = Some r)"
  proof (cases err)
    case None
    then show ?thesis using assms(2) rs by (cases "ptr_RomError r") (simp_all add: preExecuteTx_def deref_def)
  next
    case (Some e)
    then show ?thesis
      using assms(2) rs by (cases "\<not> isOOC e \<and> e \<noteq> rt_ErrOutOfGas") (simp_all add: preExecuteTx_def deref_def)
  qed
  then obtain pe err' where pe: "preExecuteTx v p tx = Inr (pe, err')" "err' = None \<longrightarrow> pe_txResponse pe = Some r" by blast
  have "\<exists>x y. store_checked v tx ip False now pe q = Inr (x, y)" if "err' = None" for q
    using pe(2) that by (auto simp: store_checked_def deref_def split: sum.splits option.splits)
  then have "\<exists>x y. StoreTx v tx ip False now p = Inr (x, y)" using pe(1) by (cases err') (auto simp: StoreTx_def)
  then show ?thesis using valid [of "NewTransaction tx ip False now"] by (auto simp: AddTx_def split: option.splits)
qed

section \<open>Examples\<close>

definition sample_response :: ProcessTransactionResponse where
  "sample_response = \<lparr>ptr_TxHash = 1000, ptr_Type = 0, ptr_ReturnValue = [], ptr_GasLeft = 0, ptr_GasUsed = 21000, ptr_GasRefunded = 0,
     ptr_RomError = None, ptr_CreateAddress = 0, ptr_StateRoot = 0, ptr_ChangesStateRoot = True, ptr_Tx = eth_inner sample_tx,
     ptr_EffectiveGasPrice = [], ptr_EffectivePercentage = 255, ptr_HasGaspriceOpcode = False, ptr_HasBalanceOpcode = False\<rparr>"

definition sample_batch :: "bool \<Rightarrow> ProcessBatchResponse" where
  "sample_batch executorError = \<lparr>pbr_NewStateRoot = 0, pbr_NewAccInputHash = 0, pbr_NewLocalExitRoot = 0, pbr_NewBatchNumber = 0,
     pbr_UsedZkCounters = emptyZKCounters, pbr_Responses = [sample_response], pbr_ExecutorError = None, pbr_ReadWriteAddresses = [],
     pbr_IsRomLevelError = False, pbr_IsExecutorLevelError = executorError, pbr_IsRomOOCError = False, pbr_FlushID = 0,
     pbr_StoredFlushID = 0, pbr_ProverID = []\<rparr>"

text \<open>A chain on which the account 7 has nonce 5 and a balance of \<open>10 ^ 9\<close>.\<close>

definition sample_env :: "bool \<Rightarrow> pool_env" where
  "sample_env executorError = \<lparr>v_geth = sample_pool_geth, v_pg = sample_pg,
     v_chain = \<lparr>GetLastL2Block_Root = Inr 1, st_GetNonce = (\<lambda>a h. Inr 5), st_GetBalance = (\<lambda>a h. Inr 1000000000),
       PreProcessTransaction = (\<lambda>tx. (None, Some (sample_batch executorError)))\<rparr>, v_ovf = (\<lambda>f. 0)\<rparr>"

definition sample_cfg :: PoolConfig where
  "sample_cfg = \<lparr>MaxTxBytesSize = 100132, MaxTxDataBytesSize = 100000, DefaultMinGasPriceAllowed = 500, MinAllowedGasPriceInterval = 300,
     AccountQueue = 64, GlobalQueue = 1024, EffectiveGasPriceCfgF = \<lparr>egp_Enabled = False, L1GasPriceFactor = (1, -2), ByteGasCost = 16,
       ZeroByteGasCost = 4, NetProfit = (1, 0), BreakEvenFactor = (9, -3), FinalDeviationPct = 10\<rparr>\<rparr>"

definition sample_limits :: BatchConstraintsCfg where
  "sample_limits = \<lparr>MaxTxsPerBatch = 300, MaxBatchBytesSize = 120000, MaxCumulativeGasUsed = 30000000, MaxKeccakHashes = 2145,
     MaxPoseidonHashes = 252357, MaxPoseidonPaddings = 135191, MaxMemAligns = 236585, MaxArithmetics = 236585, MaxBinaries = 473170,
     MaxSteps = 7570538\<rparr>"

definition sample_pool :: "address list \<Rightarrow> Pool" where
  "sample_pool blocked = NewPool sample_pg sample_cfg sample_limits (no_rows\<lparr>db_blocked := blocked\<rparr>) 1001 0"

lemma sample_env_simps [simp]:
  "v_geth (sample_env x) = sample_pool_geth" "v_pg (sample_env x) = sample_pg"
  "PreProcessTransaction (v_chain (sample_env x)) tx = (None, Some (sample_batch x))"
  "pbr_IsExecutorLevelError (sample_batch x) = x" "pbr_Responses (sample_batch x) = [sample_response]"
  by (simp_all add: sample_env_def sample_batch_def)

lemma sample_pool_db: "p_db (sample_pool []) = no_rows" "p_minSuggestedGasPrice (sample_pool []) = Some 500"
  by code_simp+

lemma sample_added: "\<exists>p'. AddTx (sample_env False) sample_tx ''10.0.0.1'' 42 (sample_pool []) = Inr (None, p')"
proof -
  have "case AddTx (sample_env False) sample_tx ''10.0.0.1'' 42 (sample_pool []) of Inl s \<Rightarrow> False | Inr (r, p') \<Rightarrow> r = None"
    by code_simp
  then show ?thesis by (auto split: sum.splits)
qed

theorem AddTx_stores_witness:
  "\<exists>p' q. AddTx (sample_env False) sample_tx ''10.0.0.1'' 42 (sample_pool []) = Inr (None, p') \<and> row_at (p_db p') 1000 = Some q"
proof -
  have "tx_Hash sample_pool_geth sample_tx = 1000" by code_simp
  moreover obtain p' where p': "AddTx (sample_env False) sample_tx ''10.0.0.1'' 42 (sample_pool []) = Inr (None, p')"
    using sample_added by blast
  moreover have "\<not> executor_refused (sample_env False) sample_tx" by (simp add: executor_refused_def)
  ultimately show ?thesis using AddTx_stores [OF p'] by auto
qed

theorem validateTx_accepts_iff_witness:
  "in_queue sample_cfg sample_tx 5 no_rows \<and> affordable sample_pool_geth sample_tx 500 1000000000 \<and>
   replaces sample_pool_geth sample_tx 7 no_rows"
proof -
  have ok: "validateTx (sample_env False) (sample_pool []) (NewTransaction sample_tx ''10.0.0.1'' False 42) = Inr None"
    by code_simp
  have "db_reach sample_pool_geth (p_db (sample_pool []))" unfolding sample_pool_db no_rows_def by (rule db_reach.Empty)
  moreover have "pg_works sample_pg" by (simp add: pg_works_def sample_pg_def)
  moreover have "GetSenderOf sample_pool_geth sample_tx = Inr 7" by code_simp
  moreover have "length (tx_Data (eth_inner sample_tx)) < 2 ^ 59" by (simp add: sample_tx_def)
  moreover have "p_cfg (sample_pool []) = sample_cfg" by code_simp
  ultimately show ?thesis
    using validateTx_accepts_iff [of "sample_env False" "sample_pool []" 500 sample_tx 7 1 5 1000000000 "''10.0.0.1''" False 42] ok
    by (simp add: sample_pool_db) (simp add: sample_env_def)
qed

theorem executor_error_is_success_witness:
  "StoreTx (sample_env True) sample_tx [] False 42 (sample_pool []) = Inr (None, sample_pool [])"
  using executor_error_is_success [of "sample_env True" sample_tx "sample_batch True"] by simp

theorem blocked_sender_is_refused_witness:
  "(\<nexists>p'. AddTx (sample_env False) sample_tx [] 42 (refreshBlockedAddresses sample_pg (sample_pool [7])) = Inr (None, p')) \<and>
   gm_get (p_blockedAddresses (refreshBlockedAddresses sample_pg (sample_pool [7]))) 7 \<noteq> None"
proof -
  have "GetSenderOf sample_pool_geth sample_tx = Inr 7" "7 \<in> set (db_blocked (p_db (sample_pool [7])))" by code_simp+
  then show ?thesis using blocked_sender_is_refused [of sample_pg "sample_env False" sample_tx 7 "sample_pool [7]" "[]" 42 7] by simp
qed

end
