(* ===== verification/ForkID.thy ===== *)
theory ForkID
  imports Prelude "HOL-Library.Multiset"
begin

text \<open>
  The fork ids: \<open>state/forkid.go\<close>, \<open>state/pgstatestorage/forkid.go\<close> and \<open>processForkID\<close> of
  \<open>synchronizer/synchronizer.go\<close>, which records the fork that an upgrade event announces. The table is the list of its
  rows, as the open transaction sees it and as it was committed; the intervals in memory are a copy that lookups
  use. What the server decides is the record \<open>fork_env\<close>: which call fails, and in which order rows come that the
  \<open>ORDER BY\<close> does not order. Resetting the state is recorded by its argument. The properties: after upgrade events in
  order, the lookup of a batch gives the fork that was announced last before it; two upgrades at one batch can stop the
  synchronization.
\<close>

section \<open>The table\<close>

record ForkIDInterval =
  FromBatchNumber :: u64
  ToBatchNumber :: u64
  ForkId :: u64
  Version :: string
  fi_BlockNumber :: u64

record fork_state =
  fk_table :: "ForkIDInterval list"
  fk_committed :: "ForkIDInterval list"
  fk_memory :: "ForkIDInterval list"
  fk_upgradeBatch :: u64
  fk_upgradeForkId :: u64
  fk_resets :: "u64 list"

datatype fork_error = ForkDB string | ForkSequence u64 u64 | ForkNotSynchronized | ForkResync

record fork_env =
  fe_fails :: "string \<Rightarrow> fork_error option"
  fe_order :: "ForkIDInterval list \<Rightarrow> ForkIDInterval list"
  fe_lastBatch :: "fork_error + u64"
  fe_trusted :: bool

definition AddForkID :: "ForkIDInterval \<Rightarrow> ForkIDInterval list \<Rightarrow> ForkIDInterval list" where
  "AddForkID f rows =
     (if ForkId f \<in> ForkId ` set rows
      then map (\<lambda>r. if ForkId r = ForkId f then r\<lparr>fi_BlockNumber := fi_BlockNumber f\<rparr> else r) rows else rows @ [f])"

definition GetForkIDs :: "fork_env \<Rightarrow> ForkIDInterval list \<Rightarrow> fork_error + ForkIDInterval list" where
  "GetForkIDs env rows = (case fe_fails env ''GetForkIDs'' of Some e \<Rightarrow> Inl e | None \<Rightarrow> Inr (sort_key FromBatchNumber (fe_order env rows)))"

definition UpdateForkID :: "ForkIDInterval \<Rightarrow> ForkIDInterval list \<Rightarrow> ForkIDInterval list" where
  "UpdateForkID f rows = map (\<lambda>r. if ForkId r = ForkId f then r\<lparr>ToBatchNumber := ToBatchNumber f\<rparr> else r) rows"

section \<open>Intervals in memory\<close>

definition UpdateForkIDIntervalsInMemory :: "ForkIDInterval list \<Rightarrow> fork_state \<Rightarrow> fork_state" where
  "UpdateForkIDIntervalsInMemory intervals st = st\<lparr>fk_memory := intervals\<rparr>"

text \<open>The memory is changed before the row is added.\<close>

definition add_row :: "fork_env \<Rightarrow> ForkIDInterval \<Rightarrow> fork_state \<Rightarrow> fork_error option \<times> fork_state" where
  "add_row env f st = (case fe_fails env ''AddForkID'' of
     Some e \<Rightarrow> (Some e, st)
   | None \<Rightarrow> (None, st\<lparr>fk_table := AddForkID f (fk_table st)\<rparr>))"

definition AddForkIDInterval :: "fork_env \<Rightarrow> ForkIDInterval \<Rightarrow> fork_state \<Rightarrow> fork_error option \<times> fork_state" where
  "AddForkIDInterval env newForkID st =
     (case GetForkIDs env (fk_table st) of
        Inl e \<Rightarrow> (Some e, st)
      | Inr oldForkIDs \<Rightarrow>
          if oldForkIDs = [] then add_row env newForkID (UpdateForkIDIntervalsInMemory [newForkID] st)
          else if ForkId (last oldForkIDs) + 1 \<noteq> ForkId newForkID
          then (Some (ForkSequence (ForkId (last oldForkIDs)) (ForkId newForkID)), st)
          else (let l = (last oldForkIDs)\<lparr>ToBatchNumber := FromBatchNumber newForkID - 1\<rparr> in
            case fe_fails env ''UpdateForkID'' of
              Some e \<Rightarrow> (Some e, st)
            | None \<Rightarrow> add_row env newForkID (UpdateForkIDIntervalsInMemory (butlast oldForkIDs @ [l, newForkID])
                        (st\<lparr>fk_table := UpdateForkID l (fk_table st)\<rparr>))))"

text \<open>The lookup panics if there is no interval.\<close>

definition GetForkIDByBatchNumber :: "fork_state \<Rightarrow> u64 \<Rightarrow> u64 option" where
  "GetForkIDByBatchNumber st batchNumber =
     (if fk_upgradeBatch st \<noteq> 0 \<and> batchNumber > fk_upgradeBatch st then Some (fk_upgradeForkId st)
      else case find (\<lambda>i. batchNumber \<ge> FromBatchNumber i \<and> batchNumber \<le> ToBatchNumber i) (fk_memory st) of
        Some i \<Rightarrow> Some (ForkId i)
      | None \<Rightarrow> if fk_memory st = [] then None else Some (ForkId (last (fk_memory st))))"

section \<open>Upgrade events\<close>

record ForkEvent =
  ev_BatchNumber :: u64
  ev_ForkID :: u64
  ev_Version :: string

definition rollback :: "fork_env \<Rightarrow> fork_error \<Rightarrow> fork_state \<Rightarrow> fork_error option \<times> fork_state" where
  "rollback env e st = (case fe_fails env ''Rollback'' of
     Some re \<Rightarrow> (Some re, st\<lparr>fk_table := fk_committed st\<rparr>)
   | None \<Rightarrow> (Some e, st\<lparr>fk_table := fk_committed st\<rparr>))"

definition new_interval :: "ForkEvent \<Rightarrow> u64 \<Rightarrow> ForkIDInterval" where
  "new_interval ev blockNumber = \<lparr>FromBatchNumber = ev_BatchNumber ev + 1, ToBatchNumber = - 1, ForkId = ev_ForkID ev,
     Version = ev_Version ev, fi_BlockNumber = blockNumber\<rparr>"

text \<open>The reset of the state is committed at once, and the error makes the synchronizer start again.\<close>

definition reset_state :: "fork_env \<Rightarrow> u64 \<Rightarrow> fork_state \<Rightarrow> fork_error option \<times> fork_state" where
  "reset_state env n st = (case fe_fails env ''ResetForkID'' of
     Some e \<Rightarrow> rollback env e st
   | None \<Rightarrow> (case fe_fails env ''Commit'' of
       Some e \<Rightarrow> rollback env e st
     | None \<Rightarrow> (Some ForkResync, st\<lparr>fk_committed := fk_table st, fk_resets := fk_resets st @ [n]\<rparr>)))"

definition processForkID :: "fork_env \<Rightarrow> ForkEvent \<Rightarrow> u64 \<Rightarrow> fork_state \<Rightarrow> fork_error option \<times> fork_state" where
  "processForkID env ev blockNumber st =
     (case GetForkIDs env (fk_table st) of
        Inl e \<Rightarrow> rollback env e st
      | Inr fIds \<Rightarrow>
          if fIds \<noteq> [] \<and> ForkId (last fIds) = ev_ForkID ev then (None, st)
          else case (case fe_lastBatch env of Inl ForkNotSynchronized \<Rightarrow> Inr 0 | r \<Rightarrow> r) of
            Inl e \<Rightarrow> rollback env e st
          | Inr latestBatchNumber \<Rightarrow>
              (case AddForkIDInterval env (new_interval ev blockNumber) st of
                 (Some e, st1) \<Rightarrow> rollback env e st1
               | (None, st1) \<Rightarrow>
                   if latestBatchNumber \<le> ev_BatchNumber ev \<or> fe_trusted env then (None, st1)
                   else reset_state env (ev_BatchNumber ev + 1) st1))"

section \<open>Events in order\<close>

text \<open>The fork of a batch: the one announced last, among the upgrades at batches before it.\<close>

definition fork_at :: "(ForkEvent \<times> u64) list \<Rightarrow> u64 \<Rightarrow> u64 option" where
  "fork_at evs n = map_option (\<lambda>(e, b). ev_ForkID e) (find (\<lambda>(e, b). ev_BatchNumber e < n) (rev evs))"

text \<open>Upgrades at growing batch numbers, with fork ids that count up.\<close>

definition in_order :: "(ForkEvent \<times> u64) list \<Rightarrow> bool" where
  "in_order evs \<longleftrightarrow>
     sorted_wrt (\<lambda>x y. ev_BatchNumber (fst x) < ev_BatchNumber (fst y) \<and> ev_ForkID (fst x) < ev_ForkID (fst y)) evs \<and>
     list_all (\<lambda>x. ev_BatchNumber (fst x) < - 1) evs \<and>
     list_all (\<lambda>i. ev_ForkID (fst (evs ! Suc i)) = ev_ForkID (fst (evs ! i)) + 1) [0..<length evs - 1]"

fun intervals_of :: "(ForkEvent \<times> u64) list \<Rightarrow> ForkIDInterval list" where
  "intervals_of [] = []"
| "intervals_of [x] = [new_interval (fst x) (snd x)]"
| "intervals_of (x # y # es) = (new_interval (fst x) (snd x))\<lparr>ToBatchNumber := ev_BatchNumber (fst y)\<rparr> # intervals_of (y # es)"

lemma in_order_ends: "in_order (x # es) \<Longrightarrow> ev_BatchNumber (fst x) < - 1"
  by (simp add: in_order_def)

lemma in_order_first:
  "in_order (x # es) \<Longrightarrow> y \<in> set es \<Longrightarrow> ev_BatchNumber (fst x) < ev_BatchNumber (fst y) \<and> ev_ForkID (fst x) < ev_ForkID (fst y)"
  by (simp add: in_order_def)

lemma in_order_Cons:
  assumes "in_order (x # es)"
  shows "in_order es"
proof -
  have "ev_ForkID (fst (es ! Suc i)) = ev_ForkID (fst (es ! i)) + 1" if "i < length es - 1" for i
  proof -
    have "Suc i \<in> set [0..<length (x # es) - 1]" using that by auto
    then show ?thesis using assms unfolding in_order_def list_all_iff by fastforce
  qed
  then show ?thesis using assms by (simp add: in_order_def list_all_iff)
qed

lemma from_less:
  assumes "(a :: u64) < - 1"
  shows "a + 1 \<le> n \<longleftrightarrow> a < n" "unat (a + 1) = unat a + 1"
proof -
  have "unat a < 2 ^ 64 - 1" using assms by (simp add: word_less_nat_alt unsigned_minus_1_eq_mask mask_eq_exp_minus_1)
  then show *: "unat (a + 1) = unat a + 1" by (simp add: unat_word_ariths)
  show "a + 1 \<le> n \<longleftrightarrow> a < n" by (simp add: word_le_nat_alt word_less_nat_alt * Suc_le_eq)
qed

lemma set_intervals: "i \<in> set (intervals_of evs) \<Longrightarrow> \<exists>x \<in> set evs. FromBatchNumber i = ev_BatchNumber (fst x) + 1 \<and> ForkId i = ev_ForkID (fst x)"
  by (induction evs rule: intervals_of.induct) (auto simp: new_interval_def)

text \<open>The lookup in the intervals is the fork announced last.\<close>

lemma find_snoc_last: "find P (xs @ [x]) = (case find P xs of Some y \<Rightarrow> Some y | None \<Rightarrow> if P x then Some x else None)"
  by (induction xs) auto

lemma fork_at_Cons:
  "fork_at (x # es) n = (case fork_at es n of Some f \<Rightarrow> Some f | None \<Rightarrow> if ev_BatchNumber (fst x) < n then Some (ev_ForkID (fst x)) else None)"
  by (auto simp: fork_at_def find_snoc_last split_beta split: option.splits)

lemma fork_at_None: "(\<And>y. y \<in> set es \<Longrightarrow> \<not> ev_BatchNumber (fst y) < n) \<Longrightarrow> fork_at es n = None"
  by (induction es) (simp_all add: fork_at_Cons, simp add: fork_at_def)

lemma find_interval:
  "in_order evs \<Longrightarrow> map_option ForkId (find (\<lambda>i. n \<ge> FromBatchNumber i \<and> n \<le> ToBatchNumber i) (intervals_of evs)) = fork_at evs n"
proof (induction evs rule: intervals_of.induct)
  case 1
  show ?case by (simp add: fork_at_def)
next
  case (2 x)
  then have "ev_BatchNumber (fst x) < - 1" by (rule in_order_ends)
  then show ?case by (simp add: fork_at_Cons from_less(1)) (simp add: fork_at_def new_interval_def from_less(1))
next
  case (3 x y es)
  then have x: "ev_BatchNumber (fst x) < - 1" by (metis in_order_ends)
  have IH: "map_option ForkId (find (\<lambda>i. n \<ge> FromBatchNumber i \<and> n \<le> ToBatchNumber i) (intervals_of (y # es))) = fork_at (y # es) n"
    using 3 in_order_Cons by blast
  show ?case
  proof (cases "n \<le> ev_BatchNumber (fst y)")
    case True
    have "\<not> ev_BatchNumber (fst z) < n" if "z \<in> set (y # es)" for z
      using that True in_order_first [of y es z] in_order_Cons [OF 3(2)] by (auto simp: not_less)
    then have none: "fork_at (y # es) n = None" using fork_at_None by blast
    then have "find (\<lambda>i. n \<ge> FromBatchNumber i \<and> n \<le> ToBatchNumber i) (intervals_of (y # es)) = None" using IH by simp
    then show ?thesis using none x True by (simp add: fork_at_Cons [of x] from_less(1)) (simp add: new_interval_def from_less(1))
  next
    case False
    then have "fork_at (y # es) n \<noteq> None" by (auto simp: fork_at_Cons split: option.splits)
    then show ?thesis using IH False by (auto simp: fork_at_Cons [of x])
  qed
qed

lemma intervals_ne [simp]: "intervals_of evs = [] \<longleftrightarrow> evs = []"
  by (cases evs rule: intervals_of.cases) auto

lemma last_intervals: "evs \<noteq> [] \<Longrightarrow> ForkId (last (intervals_of evs)) = ev_ForkID (fst (last evs))"
  by (induction evs rule: intervals_of.induct) (auto simp: new_interval_def)

lemma lookup_intervals:
  assumes "in_order evs" "evs \<noteq> []" "fk_memory st = intervals_of evs" "fk_upgradeBatch st = 0"
  shows "GetForkIDByBatchNumber st n = (case fork_at evs n of Some f \<Rightarrow> Some f | None \<Rightarrow> Some (ev_ForkID (fst (last evs))))"
proof -
  have f: "map_option ForkId (find (\<lambda>i. n \<ge> FromBatchNumber i \<and> n \<le> ToBatchNumber i) (fk_memory st)) = fork_at evs n"
    using find_interval [OF assms(1)] assms(3) by simp
  show ?thesis
    unfolding f [symmetric] using assms(2-) last_intervals [OF assms(2)]
    by (cases "find (\<lambda>i. n \<ge> FromBatchNumber i \<and> n \<le> ToBatchNumber i) (fk_memory st)")
      (auto simp: GetForkIDByBatchNumber_def intervals_ne split: option.splits)
qed

text \<open>One more event closes the last interval and opens the next.\<close>

lemma intervals_snoc:
  "intervals_of (es @ [x, y]) = butlast (intervals_of (es @ [x])) @
     [(new_interval (fst x) (snd x))\<lparr>ToBatchNumber := ev_BatchNumber (fst y)\<rparr>, new_interval (fst y) (snd y)] \<and>
   last (intervals_of (es @ [x])) = new_interval (fst x) (snd x)"
proof (induction es)
  case (Cons e es)
  then show ?case by (cases es) auto
qed simp

lemma in_order_prefix:
  assumes "in_order (es @ [x, y])"
  shows "in_order (es @ [x])" "ev_ForkID (fst y) = ev_ForkID (fst x) + 1"
    "z \<in> set (es @ [x]) \<Longrightarrow> ev_ForkID (fst z) \<noteq> ev_ForkID (fst y)" "z \<in> set es \<Longrightarrow> ev_ForkID (fst z) \<noteq> ev_ForkID (fst x)"
proof -
  have ids: "ev_ForkID (fst ((es @ [x, y]) ! Suc i)) = ev_ForkID (fst ((es @ [x, y]) ! i)) + 1" if "i \<le> length es" for i
    using assms that unfolding in_order_def list_all_iff by auto
  show "ev_ForkID (fst y) = ev_ForkID (fst x) + 1" using ids [of "length es"] by (simp add: nth_append)
  have "ev_ForkID (fst ((es @ [x]) ! Suc i)) = ev_ForkID (fst ((es @ [x]) ! i)) + 1" if "i < length es" for i
    using ids [of i] that by (auto simp: nth_append less_Suc_eq split: if_splits)
  then show "in_order (es @ [x])" using assms by (simp add: in_order_def sorted_wrt_append list_all_iff)
  show "z \<in> set (es @ [x]) \<Longrightarrow> ev_ForkID (fst z) \<noteq> ev_ForkID (fst y)" "z \<in> set es \<Longrightarrow> ev_ForkID (fst z) \<noteq> ev_ForkID (fst x)"
    using assms by (auto simp: in_order_def sorted_wrt_append)
qed

lemma intervals_sorted: "in_order evs \<Longrightarrow> sorted_wrt (<) (map FromBatchNumber (intervals_of evs))"
proof (induction evs rule: intervals_of.induct)
  case (3 x y es)
  have "ev_BatchNumber (fst x) + 1 < FromBatchNumber i" if i: "i \<in> set (intervals_of (y # es))" for i
  proof -
    obtain z where z: "z \<in> set (y # es)" "FromBatchNumber i = ev_BatchNumber (fst z) + 1" using set_intervals [OF i] by blast
    have "ev_BatchNumber (fst x) < ev_BatchNumber (fst z)" "ev_BatchNumber (fst x) < - 1" "ev_BatchNumber (fst z) < - 1"
      using in_order_first [OF 3(2) z(1)] 3(2) z(1) by (auto simp: in_order_def list_all_iff)
    then show ?thesis using z(2) by (simp add: word_less_nat_alt from_less(2))
  qed
  then show ?case using 3(1) in_order_Cons [OF 3(2)] by (simp add: new_interval_def)
qed simp_all

section \<open>Processing events\<close>

definition fork_works :: "fork_env \<Rightarrow> bool" where
  "fork_works env \<longleftrightarrow> fe_fails env = (\<lambda>_. None) \<and> (\<forall>rs. mset (fe_order env rs) = mset rs) \<and>
     (case fe_lastBatch env of Inl e \<Rightarrow> e = ForkNotSynchronized | Inr n \<Rightarrow> True)"

lemma GetForkIDs_intervals:
  assumes "fork_works env" "in_order evs"
  shows "GetForkIDs env (intervals_of evs) = Inr (intervals_of evs)"
proof -
  have s: "sorted_wrt (<) (map FromBatchNumber (intervals_of evs))" by (rule intervals_sorted [OF assms(2)])
  have m: "mset (fe_order env (intervals_of evs)) = mset (intervals_of evs)" using assms(1) by (simp add: fork_works_def)
  have "sort_key FromBatchNumber (fe_order env (intervals_of evs)) = intervals_of evs"
    using m s mset_eq_setD [OF m] by (intro sort_key_inj_key_eq) (auto simp: strict_sorted_iff distinct_map)
  then show ?thesis using assms(1) by (simp add: GetForkIDs_def fork_works_def)
qed

lemma map_ForkId: "map ForkId (intervals_of evs) = map (\<lambda>x. ev_ForkID (fst x)) evs"
  by (induction evs rule: intervals_of.induct) (simp_all add: new_interval_def)

text \<open>Both tables after an event in order.\<close>

lemma AddForkIDInterval_in_order:
  assumes "fork_works env" "in_order (evs @ [(ev, b)])" "fk_table st = intervals_of evs"
  shows "\<exists>st'. AddForkIDInterval env (new_interval ev b) st = (None, st') \<and> fk_table st' = intervals_of (evs @ [(ev, b)]) \<and>
    fk_memory st' = intervals_of (evs @ [(ev, b)]) \<and> fk_upgradeBatch st' = fk_upgradeBatch st"
proof (cases evs rule: rev_cases)
  case Nil
  then show ?thesis using assms GetForkIDs_intervals [OF assms(1), of "[]"]
    by (auto simp: AddForkIDInterval_def add_row_def fork_works_def UpdateForkIDIntervalsInMemory_def AddForkID_def in_order_def)
next
  case (snoc es x)
  let ?x = "new_interval (fst x) (snd x)" and ?n = "new_interval ev b" and ?bl = "butlast (intervals_of evs)"
  let ?l = "?x\<lparr>ToBatchNumber := ev_BatchNumber ev\<rparr>"
  have "in_order (es @ [x, (ev, b)])" using assms(2) snoc by simp
  note pre = in_order_prefix [OF this]
  have lst: "last (intervals_of evs) = ?x" and ne: "intervals_of evs \<noteq> []" and new: "intervals_of (evs @ [(ev, b)]) = ?bl @ [?l, ?n]"
    using intervals_snoc [of es x "(ev, b)"] snoc by auto
  then have tab: "fk_table st = ?bl @ [?x]" using append_butlast_last_id [OF ne] assms(3) by simp
  have get: "GetForkIDs env (fk_table st) = Inr (intervals_of evs)" using GetForkIDs_intervals [OF assms(1)] pre(1) snoc assms(3) by simp
  have ids: "map ForkId ?bl = map (\<lambda>x. ev_ForkID (fst x)) es" using map_ForkId [of evs] snoc by (simp add: map_butlast)
  have "ForkId i \<noteq> ForkId ?l" if "i \<in> set ?bl" for i
  proof -
    have "ForkId i \<in> set (map (\<lambda>x. ev_ForkID (fst x)) es)" using that unfolding ids [symmetric] by simp
    then obtain z where "ForkId i = ev_ForkID (fst z)" "z \<in> set es" unfolding set_map by (rule imageE)
    then show ?thesis using pre(4) [of z] by (simp add: new_interval_def)
  qed
  then have upd: "UpdateForkID ?l (fk_table st) = ?bl @ [?l]"
    unfolding tab UpdateForkID_def by (auto intro: map_idI simp: new_interval_def)
  have "ForkId ` set (?bl @ [?l]) = set (map (\<lambda>x. ev_ForkID (fst x)) (es @ [x]))"
    using arg_cong [OF ids, of set] by (auto simp: new_interval_def)
  moreover have "ev_ForkID ev \<notin> set (map (\<lambda>x. ev_ForkID (fst x)) (es @ [x]))"
  proof
    assume "ev_ForkID ev \<in> set (map (\<lambda>x. ev_ForkID (fst x)) (es @ [x]))"
    then obtain z where "ev_ForkID ev = ev_ForkID (fst z)" "z \<in> set (es @ [x])" unfolding set_map by (rule imageE)
    then show False using pre(3) [of z] by simp
  qed
  ultimately have fresh: "ForkId ?n \<notin> ForkId ` set (?bl @ [?l])" by (simp add: new_interval_def)
  have f: "FromBatchNumber ?n - 1 = ev_BatchNumber ev" "ForkId ?n = ForkId ?x + 1" using pre(2) by (simp_all add: new_interval_def)
  show ?thesis
    unfolding AddForkIDInterval_def get using assms(1) ne upd fresh
    by (simp add: lst f new add_row_def UpdateForkIDIntervalsInMemory_def fork_works_def AddForkID_def)
qed

lemma processForkID_in_order:
  assumes "fork_works env" "in_order (evs @ [(ev, b)])" "fk_table st = intervals_of evs"
  shows "\<exists>r st'. processForkID env ev b st = (r, st') \<and> (r = None \<or> r = Some ForkResync) \<and>
    fk_table st' = intervals_of (evs @ [(ev, b)]) \<and> fk_memory st' = intervals_of (evs @ [(ev, b)]) \<and> fk_upgradeBatch st' = fk_upgradeBatch st"
proof -
  obtain st1 where st1: "AddForkIDInterval env (new_interval ev b) st = (None, st1)" "fk_table st1 = intervals_of (evs @ [(ev, b)])"
      "fk_memory st1 = intervals_of (evs @ [(ev, b)])" "fk_upgradeBatch st1 = fk_upgradeBatch st"
    using AddForkIDInterval_in_order [OF assms] by blast
  have pre: "in_order evs" "evs \<noteq> [] \<longrightarrow> ev_ForkID (fst (last evs)) \<noteq> ev_ForkID ev"
  proof -
    have "in_order evs \<and> (evs \<noteq> [] \<longrightarrow> ev_ForkID (fst (last evs)) \<noteq> ev_ForkID ev)"
    proof (cases evs rule: rev_cases)
      case (snoc es x)
      then have "in_order (es @ [x, (ev, b)])" using assms(2) by simp
      then show ?thesis using in_order_prefix(1) [of es x "(ev, b)"] in_order_prefix(3) [of es x "(ev, b)" x] snoc by simp
    qed (simp add: in_order_def)
    then show "in_order evs" "evs \<noteq> [] \<longrightarrow> ev_ForkID (fst (last evs)) \<noteq> ev_ForkID ev" by simp_all
  qed
  have get: "GetForkIDs env (fk_table st) = Inr (intervals_of evs)" using GetForkIDs_intervals [OF assms(1) pre(1)] assms(3) by simp
  obtain n where n: "(case fe_lastBatch env of Inl ForkNotSynchronized \<Rightarrow> Inr 0 | r \<Rightarrow> r) = Inr n"
    using assms(1) by (cases "fe_lastBatch env") (auto simp: fork_works_def)
  have "processForkID env ev b st = (if n \<le> ev_BatchNumber ev \<or> fe_trusted env then (None, st1) else reset_state env (ev_BatchNumber ev + 1) st1)"
    unfolding processForkID_def get n using st1(1) pre(2) last_intervals [of evs] by auto
  moreover have "fe_fails env = (\<lambda>_. None)" using assms(1) by (simp add: fork_works_def)
  ultimately show ?thesis using st1 by (auto simp: reset_state_def)
qed

fun process_events :: "fork_env \<Rightarrow> (ForkEvent \<times> u64) list \<Rightarrow> fork_state \<Rightarrow> fork_state" where
  "process_events env [] st = st"
| "process_events env ((ev, b) # evs) st = process_events env evs (snd (processForkID env ev b st))"

lemma in_order_append: "in_order (es @ fs) \<Longrightarrow> in_order es"
proof (induction fs rule: rev_induct)
  case (snoc f fs)
  show ?case
  proof (cases "es @ fs" rule: rev_cases)
    case Nil
    then show ?thesis by (simp add: in_order_def)
  next
    case inner: (snoc gs g)
    then have "in_order (gs @ [g, f])" using snoc.prems by (metis append_Cons append_Nil append_assoc)
    then show ?thesis using in_order_prefix(1) inner snoc.IH by simp
  qed
qed simp

lemma process_events_intervals:
  "fork_works env \<Longrightarrow> in_order (es @ evs) \<Longrightarrow> fk_table st = intervals_of es \<Longrightarrow> fk_memory st = intervals_of es \<Longrightarrow>
   fk_memory (process_events env evs st) = intervals_of (es @ evs) \<and> fk_upgradeBatch (process_events env evs st) = fk_upgradeBatch st"
proof (induction evs arbitrary: es st)
  case (Cons x evs)
  obtain ev b where x: "x = (ev, b)" by (cases x)
  have "in_order (es @ [(ev, b)])" using in_order_append [of "es @ [x]" evs] Cons.prems(2) x by simp
  then obtain r st' where "processForkID env ev b st = (r, st')" "fk_table st' = intervals_of (es @ [(ev, b)])"
      "fk_memory st' = intervals_of (es @ [(ev, b)])" "fk_upgradeBatch st' = fk_upgradeBatch st"
    using processForkID_in_order [OF Cons.prems(1) _ Cons.prems(3)] by blast
  then show ?case using Cons.IH [OF Cons.prems(1), of "es @ [x]" st'] Cons.prems(2) x by simp
qed simp

text \<open>
  C16. The table of intervals implements the list of the upgrade events: after events at growing batch numbers, processed
  with a database that answers, the node looks up for every batch the fork that was announced last among the upgrades
  before that batch, and the newest fork for the batches before the first upgrade.
\<close>

theorem fork_lookup_refines_events:
  assumes "fork_works env" "in_order evs" "evs \<noteq> []" "fk_table st = []" "fk_memory st = []" "fk_upgradeBatch st = 0"
  shows "GetForkIDByBatchNumber (process_events env evs st) n =
    (case fork_at evs n of Some f \<Rightarrow> Some f | None \<Rightarrow> Some (ev_ForkID (fst (last evs))))"
  using lookup_intervals [OF assms(2,3)] process_events_intervals [OF assms(1), of "[]" evs st] assms by simp

text \<open>
  Two upgrades at one batch can stop the synchronization. Their rows tie in the \<open>ORDER BY\<close> of \<open>GetForkIDs\<close>, so the server
  may return the older one last; the next upgrade is then refused, its fork id not following the older one, and
  the transaction of the block is rolled back, at every attempt.
\<close>

theorem tied_forks_stop_sync:
  assumes "fk_table st = [old, new]" "FromBatchNumber old = FromBatchNumber new" "fe_order env = rev" "fe_fails env = (\<lambda>_. None)"
    and "fe_lastBatch env = Inr n" "ev_ForkID ev = ForkId new + 1" "ForkId new = ForkId old + 1"
  shows "processForkID env ev b st = (Some (ForkSequence (ForkId old) (ev_ForkID ev)), st\<lparr>fk_table := fk_committed st\<rparr>)"
proof -
  have "GetForkIDs env (fk_table st) = Inr [new, old]" using assms(1-4) by (simp add: GetForkIDs_def)
  moreover have "ForkId old + 1 \<noteq> ForkId old + 1 + 1" "ForkId old \<noteq> ForkId old + 1 + 1" by simp_all
  ultimately show ?thesis
    using assms(4-) by (simp add: processForkID_def AddForkIDInterval_def new_interval_def rollback_def)
qed

text \<open>
  The intervals in memory are not part of the transaction: if the row cannot be added, the table is rolled back, but
  lookups already see the new fork.
\<close>

lemma memory_survives_rollback:
  assumes "fk_table st = []" "fk_committed st = []" "fe_order env [] = []" "fe_lastBatch env = Inr n"
    and "fe_fails env = (\<lambda>c. if c = ''AddForkID'' then Some e else None)"
  shows "\<exists>st'. processForkID env ev b st = (Some e, st') \<and> fk_table st' = [] \<and> fk_memory st' = [new_interval ev b]"
  using assms
  by (simp add: processForkID_def GetForkIDs_def AddForkIDInterval_def add_row_def rollback_def UpdateForkIDIntervalsInMemory_def)

section \<open>Examples\<close>

definition sample_fork_env :: fork_env where
  "sample_fork_env = \<lparr>fe_fails = (\<lambda>_. None), fe_order = rev, fe_lastBatch = Inr 20, fe_trusted = True\<rparr>"

definition sample_events :: "(ForkEvent \<times> u64) list" where
  "sample_events = [(\<lparr>ev_BatchNumber = 0, ev_ForkID = 4, ev_Version = []\<rparr>, 1), (\<lparr>ev_BatchNumber = 10, ev_ForkID = 5, ev_Version = []\<rparr>, 2),
     (\<lparr>ev_BatchNumber = 30, ev_ForkID = 6, ev_Version = []\<rparr>, 3)]"

definition no_forks :: fork_state where
  "no_forks = \<lparr>fk_table = [], fk_committed = [], fk_memory = [], fk_upgradeBatch = 0, fk_upgradeForkId = 0, fk_resets = []\<rparr>"

theorem fork_lookup_refines_events_witness:
  "GetForkIDByBatchNumber (process_events sample_fork_env sample_events no_forks) 11 = Some 5"
proof -
  have "fork_works sample_fork_env" by (simp add: fork_works_def sample_fork_env_def)
  moreover have "in_order sample_events" "fork_at sample_events 11 = Some 5" "sample_events \<noteq> []" by code_simp+
  ultimately show ?thesis using fork_lookup_refines_events [of sample_fork_env sample_events no_forks 11] by (simp add: no_forks_def)
qed

definition tied_forks :: fork_state where
  "tied_forks = no_forks\<lparr>fk_table :=
     [\<lparr>FromBatchNumber = 1, ToBatchNumber = 0, ForkId = 4, Version = [], fi_BlockNumber = 1\<rparr>,
      \<lparr>FromBatchNumber = 1, ToBatchNumber = - 1, ForkId = 5, Version = [], fi_BlockNumber = 2\<rparr>]\<rparr>"

theorem tied_forks_stop_sync_witness:
  "processForkID sample_fork_env \<lparr>ev_BatchNumber = 40, ev_ForkID = 6, ev_Version = []\<rparr> 3 tied_forks =
     (Some (ForkSequence 4 6), tied_forks\<lparr>fk_table := []\<rparr>)"
  using tied_forks_stop_sync [of tied_forks "\<lparr>FromBatchNumber = 1, ToBatchNumber = 0, ForkId = 4, Version = [], fi_BlockNumber = 1\<rparr>"
      "\<lparr>FromBatchNumber = 1, ToBatchNumber = - 1, ForkId = 5, Version = [], fi_BlockNumber = 2\<rparr>" sample_fork_env 20
      "\<lparr>ev_BatchNumber = 40, ev_ForkID = 6, ev_Version = []\<rparr>" 3]
  by (simp add: sample_fork_env_def) (simp add: tied_forks_def no_forks_def)

end
