(* ===== verification/DSQueries.thy ===== *)
theory DSQueries
  imports DataStream
begin

text \<open>
  The queries behind the data stream (\<open>state/pgstatestorage/datastream.go\<close>) over the tables of the
  state, and the generation of the stream on top of them. The server is a parameter: which query
  fails, after how many rows a connection breaks, and the order in which it delivers the rows
  that a statement does not order. \<open>HexToHash\<close>, \<open>HexToAddress\<close> and \<open>MarshalBinary\<close> belong to
  go-ethereum.
\<close>

section \<open>Tables\<close>







section \<open>Queries\<close>

















section \<open>What the queries return\<close>


































section \<open>Properties\<close>


text \<open>
  The order of the batches matters: of two batches in the wrong order, the walk passes over the block of
  the smaller one while it looks for the blocks of the greater one, and does not come back to it.
\<close>

theorem unordered_batches_lose_blocks:
  assumes "ba_BatchNumber x < ba_BatchNumber y" "lb_BatchNumber l = ba_BatchNumber x" "lb_BatchNumber m = ba_BatchNumber y"
  shows "map L2Blocks (computeFullBatches [y, x] [l, m] []) = [[full_block m []], []]"
proof -
  have "\<not> ba_BatchNumber y < ba_BatchNumber x" "ba_BatchNumber x \<noteq> ba_BatchNumber y" using assms(1) by auto
  then show ?thesis using assms by (simp add: computeFullBatches_def full_batch_def DSBatch.defs DSFullBatch.defs)
qed

section \<open>Instance\<close>











end
