(* ===== verification/Threads.thy ===== *)
theory Threads
  imports Main
begin

text \<open>
  Goroutines over a shared state. A program is a tree of atomic steps: a step is given what the world answers to it and
  the shared state, and goes on with another program and another state; a step that gives \<open>None\<close> leaves everything as
  it is and is tried again, which is a lock that is held, a channel that is not ready, or one more turn of a loop that only polls.
  A panic of one goroutine ends the process. Several programs are run in any order of their steps, with changes of the
  state from outside in between. The rules at the end reduce an invariant of all such runs to the single steps.
\<close>

datatype ('x, 's, 'a) prog =
    Return 'a
  | Panics
  | Step "'x \<Rightarrow> 's \<Rightarrow> (('x, 's, 'a) prog \<times> 's) option"

primrec prog_bind :: "('x, 's, 'a) prog \<Rightarrow> ('a \<Rightarrow> ('x, 's, 'b) prog) \<Rightarrow> ('x, 's, 'b) prog" where
  "prog_bind (Return a) k = k a"
| "prog_bind Panics k = Panics"
| "prog_bind (Step f) k = Step (\<lambda>x s. map_option (map_prod (\<lambda>p. prog_bind p k) id) (f x s))"

lemma bind_assoc: "prog_bind (prog_bind p f) g = prog_bind p (\<lambda>a. prog_bind (f a) g)"
proof (induction p)
  case (Step h)
  have "map_option (map_prod (\<lambda>p. prog_bind (prog_bind p f) g) id) (h x s) = map_option (map_prod (\<lambda>p. prog_bind p (\<lambda>a. prog_bind (f a) g)) id) (h x s)" for x s
  proof (cases "h x s")
    case (Some r)
    then have "Some r \<in> range (h x)" by (metis rangeI)
    then show ?thesis using Step [of "h x" "Some r" r "fst r"] Some by (cases r) auto
  qed simp
  then show ?case by (simp add: option.map_comp comp_def prod.map_comp id_def)
qed simp_all

text \<open>The common steps: a value that is read, a value that the world gives, a change that gives a value, a guard.\<close>

definition ask :: "('x \<Rightarrow> 's \<Rightarrow> 'a) \<Rightarrow> ('x, 's, 'a) prog" where
  "ask f = Step (\<lambda>x s. Some (Return (f x s), s))"

definition act :: "('x \<Rightarrow> 's \<Rightarrow> 'a \<times> 's) \<Rightarrow> ('x, 's, 'a) prog" where
  "act f = Step (\<lambda>x s. Some (Return (fst (f x s)), snd (f x s)))"

definition await :: "('x \<Rightarrow> 's \<Rightarrow> ('a \<times> 's) option) \<Rightarrow> ('x, 's, 'a) prog" where
  "await f = Step (\<lambda>x s. map_option (map_prod Return id) (f x s))"

section \<open>Running the programs\<close>

datatype ('x, 's) event = Run nat 'x | Again nat | Outside "'s \<Rightarrow> 's"

definition is_Panics :: "('x, 's, 'a) prog \<Rightarrow> bool" where
  "is_Panics p = (case p of Panics \<Rightarrow> True | _ \<Rightarrow> False)"

text \<open>
  A thread runs its body again and again. \<open>Run\<close> takes one step of a thread, \<open>Again\<close> starts the next turn of a thread
  whose turn has ended.
\<close>

fun event_step :: "('x, 's, 'a) prog list \<Rightarrow> ('x, 's) event \<Rightarrow> ('x, 's, 'a) prog list \<times> 's \<Rightarrow> ('x, 's, 'a) prog list \<times> 's" where
  "event_step bodies (Run i x) (ps, s) =
     (if i < length ps then
        (case ps ! i of
           Step f \<Rightarrow> (case f x s of None \<Rightarrow> (ps, s) | Some (p, s') \<Rightarrow> (ps[i := p], s'))
         | _ \<Rightarrow> (ps, s))
      else (ps, s))"
| "event_step bodies (Again i) (ps, s) =
     (if i < length ps \<and> i < length bodies
      then (case ps ! i of Return _ \<Rightarrow> (ps[i := bodies ! i], s) | _ \<Rightarrow> (ps, s))
      else (ps, s))"
| "event_step bodies (Outside g) (ps, s) = (ps, g s)"

definition guarded_step :: "('x, 's, 'a) prog list \<Rightarrow> ('x, 's) event \<Rightarrow> ('x, 's, 'a) prog list \<times> 's \<Rightarrow> ('x, 's, 'a) prog list \<times> 's" where
  "guarded_step bodies e c = (if list_ex is_Panics (fst c) then c else event_step bodies e c)"

definition run_events :: "('x, 's, 'a) prog list \<Rightarrow> ('x, 's) event list \<Rightarrow> 's \<Rightarrow> ('x, 's, 'a) prog list \<times> 's" where
  "run_events bodies es s = foldl (\<lambda>c e. guarded_step bodies e c) (bodies, s) es"

text \<open>One program on its own, with the answers of the world in a list.\<close>

fun run_alone :: "'x list \<Rightarrow> ('x, 's, 'a) prog \<Rightarrow> 's \<Rightarrow> ('x, 's, 'a) prog \<times> 's" where
  "run_alone (x # xs) (Step f) s = (case f x s of None \<Rightarrow> run_alone xs (Step f) s | Some (p, s') \<Rightarrow> run_alone xs p s')"
| "run_alone xs p s = (p, s)"

section \<open>Invariants\<close>

text \<open>
  A program maintains an invariant and ends with a value as told: every step does, from any state with the invariant, for
  other threads may have run since the last step.
\<close>

inductive maintains :: "('x \<Rightarrow> bool) \<Rightarrow> ('s \<Rightarrow> bool) \<Rightarrow> ('a \<Rightarrow> bool) \<Rightarrow> ('x, 's, 'a) prog \<Rightarrow> bool"
  for ok :: "'x \<Rightarrow> bool" and I :: "'s \<Rightarrow> bool" and Q :: "'a \<Rightarrow> bool" where
  maintains_Return [intro]: "Q a \<Longrightarrow> maintains ok I Q (Return a)"
| maintains_Panics [intro, simp]: "maintains ok I Q Panics"
| maintains_Step: "(\<And>x s p s'. ok x \<Longrightarrow> I s \<Longrightarrow> f x s = Some (p, s') \<Longrightarrow> I s' \<and> maintains ok I Q p) \<Longrightarrow> maintains ok I Q (Step f)"

inductive_cases maintains_StepE: "maintains ok I Q (Step f)"
inductive_simps maintains_Return_iff [simp]: "maintains ok I Q (Return a)"

lemma maintains_mono: "maintains ok I P p \<Longrightarrow> (\<And>a. P a \<Longrightarrow> Q a) \<Longrightarrow> maintains ok I Q p"
  by (induction rule: maintains.induct) (auto intro!: maintains_Step)

lemma maintains_bind:
  assumes "maintains ok I P p" "\<And>a. P a \<Longrightarrow> maintains ok I Q (k a)"
  shows "maintains ok I Q (prog_bind p k)"
  using assms(1)
proof (induction rule: maintains.induct)
  case (maintains_Step f)
  then show ?case by (auto intro!: maintains.maintains_Step)
qed (auto intro: assms(2))

lemma maintains_ask: "(\<And>x s. ok x \<Longrightarrow> I s \<Longrightarrow> Q (f x s)) \<Longrightarrow> maintains ok I Q (ask f)"
  by (auto simp: ask_def intro!: maintains_Step)

lemma maintains_act: "(\<And>x s. ok x \<Longrightarrow> I s \<Longrightarrow> I (snd (f x s)) \<and> Q (fst (f x s))) \<Longrightarrow> maintains ok I Q (act f)"
  by (auto simp: act_def intro!: maintains_Step)

lemma maintains_await: "(\<And>x s a s'. ok x \<Longrightarrow> I s \<Longrightarrow> f x s = Some (a, s') \<Longrightarrow> I s' \<and> Q a) \<Longrightarrow> maintains ok I Q (await f)"
  by (auto simp: await_def intro!: maintains_Step)

fun event_ok :: "('x \<Rightarrow> bool) \<Rightarrow> (('s \<Rightarrow> 's) \<Rightarrow> bool) \<Rightarrow> ('x, 's) event \<Rightarrow> bool" where
  "event_ok ok out (Run i x) = ok x"
| "event_ok ok out (Again i) = True"
| "event_ok ok out (Outside g) = out g"

text \<open>Threads that keep an invariant, and an outside that does, give an invariant of every run.\<close>

locale shared_invariant =
  fixes ok :: "'x \<Rightarrow> bool"
    and I :: "'s \<Rightarrow> bool"
    and out :: "('s \<Rightarrow> 's) \<Rightarrow> bool"
    and bodies :: "('x, 's, 'a) prog list"
  assumes bodies_keep: "b \<in> set bodies \<Longrightarrow> maintains ok I (\<lambda>_. True) b"
    and outside_maintains: "out g \<Longrightarrow> I s \<Longrightarrow> I (g s)"
begin

definition good :: "('x, 's, 'a) prog list \<times> 's \<Rightarrow> bool" where
  "good c \<longleftrightarrow> I (snd c) \<and> (\<forall>p \<in> set (fst c). maintains ok I (\<lambda>_. True) p)"

lemma good_step:
  assumes "good c" "event_ok ok out e"
  shows "good (event_step bodies e c)"
proof (cases c)
  case (Pair ps s)
  note g = assms(1)[unfolded Pair good_def, simplified]
  show ?thesis
  proof (cases e)
    case (Run i x)
    show ?thesis
    proof (cases "i < length ps \<and> (\<exists>f. ps ! i = Step f)")
      case True
      then obtain f where f: "i < length ps" "ps ! i = Step f" by blast
      then have "maintains ok I (\<lambda>_. True) (Step f)" using g by (metis nth_mem)
      then show ?thesis using g f assms(2) Run Pair
        by (auto simp: good_def split: option.split dest!: set_update_subset_insert [THEN subsetD] elim!: maintains_StepE)
    next
      case False
      then have "event_step bodies e c = c" using Run Pair by (auto split: prog.split)
      then show ?thesis using assms(1) by simp
    qed
  next
    case (Again i)
    then show ?thesis using g Pair bodies_keep
      by (auto simp: good_def split: prog.split dest!: set_update_subset_insert [THEN subsetD])
  next
    case (Outside h)
    then show ?thesis using g Pair outside_maintains assms(2) by (simp add: good_def)
  qed
qed

lemma run_good:
  assumes "good c" "list_all (event_ok ok out) es"
  shows "good (foldl (\<lambda>c e. guarded_step bodies e c) c es)"
  using assms by (induction es arbitrary: c) (auto simp: guarded_step_def good_step)

lemma run_maintains:
  assumes "I s" "list_all (event_ok ok out) es"
  shows "I (snd (run_events bodies es s))"
  using run_good [of "(bodies, s)"] assms bodies_keep by (auto simp: run_events_def good_def)

end

end
