(* ===== verification/ProofStorage.thy ===== *)
theory ProofStorage
  imports EthTxResults
begin

text \<open>
  The table of the proofs: \<open>state/pgstatestorage/proof.go\<close>, with the queries of \<open>batch.go\<close> that the aggregator makes. A
  proof covers the batches from \<open>BatchNumber\<close> to \<open>BatchNumberFinal\<close>; \<open>GeneratingSince\<close> says that some prover works on
  it. The tables are lists of rows; a query without an order gives its rows in the order of the server, \<open>pg_order\<close>. The
  functions are the statements; that a statement may fail is said where it is called. The lemmas say what the queries find, and that the
  pair of proofs that is aggregated is next to each other and within the borders of the sequences.
\<close>

unbundle bit_operations_syntax

section \<open>Data\<close>

record Proof =
  BatchNumber :: u64
  BatchNumberFinal :: u64
  pf_Proof :: string
  pf_InputProver :: string
  ProofID :: "string option"
  pf_Prover :: "string option"
  pf_ProverID :: "string option"
  GeneratingSince :: "int option"
  pf_CreatedAt :: int
  pf_UpdatedAt :: int

record VBatch =
  vb_BatchNumber :: u64
  vb_Coinbase :: address
  vb_BatchL2Data :: bytes
  vb_StateRoot :: hash
  vb_LocalExitRoot :: hash
  vb_AccInputHash :: hash
  vb_Timestamp :: int
  vb_GlobalExitRoot :: hash

datatype agg_error =
    AggNotFound
  | ErrUnsupportedDuration
  | AggDbError string
  | AggStreamError string
  | ErrBadProverResponse
  | ErrProverInternalError
  | ErrProverCompletedError
  | ErrBadRequest
  | ErrUnspecified
  | ErrUnknown
  | ErrProofCanceled
  | AggJsonError string
  | AggContextDone
  | ForkIDNotSupported

section \<open>Statements on the proofs\<close>

definition pf_key :: "Proof \<Rightarrow> u64 \<times> u64" where "pf_key p = (BatchNumber p, BatchNumberFinal p)"

definition CheckProofContainsCompleteSequences :: "(u64 \<times> u64) list \<Rightarrow> Proof \<Rightarrow> bool" where
  "CheckProofContainsCompleteSequences sequences p \<longleftrightarrow>
     list_ex (\<lambda>s. fst s = BatchNumber p) sequences \<and> list_ex (\<lambda>s. snd s = BatchNumberFinal p) sequences"

text \<open>\<open>QueryRow\<close> takes the first row.\<close>

definition first_row :: "'a list \<Rightarrow> agg_error + 'a" where
  "first_row rs = (case rs of [] \<Rightarrow> Inl AggNotFound | r # _ \<Rightarrow> Inr r)"

definition GetProofReadyToVerify ::
  "(Proof list \<Rightarrow> Proof list) \<Rightarrow> (u64 \<times> u64) list \<Rightarrow> u64 \<Rightarrow> Proof list \<Rightarrow> agg_error + Proof" where
  "GetProofReadyToVerify pg_order sequences lastVerifiedBatchNumber rows =
     first_row (pg_order (filter (\<lambda>p. BatchNumber p = lastVerifiedBatchNumber + 1 \<and> GeneratingSince p = None \<and>
        list_ex (\<lambda>s. fst s = BatchNumber p) sequences \<and> list_ex (\<lambda>s. snd s = BatchNumberFinal p) sequences) rows))"

text \<open>Two proofs within one sequence, or each of them of complete sequences.\<close>

definition within_sequence :: "(u64 \<times> u64) list \<Rightarrow> Proof \<Rightarrow> Proof \<Rightarrow> bool" where
  "within_sequence sequences p1 p2 \<longleftrightarrow> list_ex (\<lambda>s.
     fst s \<le> BatchNumber p1 \<and> BatchNumber p1 \<le> snd s \<and> fst s \<le> BatchNumberFinal p1 \<and> BatchNumberFinal p1 \<le> snd s \<and>
     fst s \<le> BatchNumber p2 \<and> BatchNumber p2 \<le> snd s \<and> fst s \<le> BatchNumberFinal p2 \<and> BatchNumberFinal p2 \<le> snd s) sequences"

definition complete_sequences :: "(u64 \<times> u64) list \<Rightarrow> Proof \<Rightarrow> Proof \<Rightarrow> bool" where
  "complete_sequences sequences p1 p2 \<longleftrightarrow>
     list_ex (\<lambda>s. BatchNumber p1 = fst s) sequences \<and> list_ex (\<lambda>s. BatchNumberFinal p1 = snd s) sequences \<and>
     list_ex (\<lambda>s. BatchNumber p2 = fst s) sequences \<and> list_ex (\<lambda>s. BatchNumberFinal p2 = snd s) sequences"

text \<open>The columns are signed, so that \<open>batch_num - 1\<close> does not wrap; the column \<open>proof\<close> is never null.\<close>

definition aggregable :: "(u64 \<times> u64) list \<Rightarrow> Proof \<Rightarrow> Proof \<Rightarrow> bool" where
  "aggregable sequences p1 p2 \<longleftrightarrow>
     int (unat (BatchNumberFinal p1)) = int (unat (BatchNumber p2)) - 1 \<and>
     GeneratingSince p1 = None \<and> GeneratingSince p2 = None \<and>
     (within_sequence sequences p1 p2 \<or> complete_sequences sequences p1 p2)"

definition GetProofsToAggregate ::
  "(Proof list \<Rightarrow> Proof list) \<Rightarrow> (u64 \<times> u64) list \<Rightarrow> Proof list \<Rightarrow> agg_error + Proof \<times> Proof" where
  "GetProofsToAggregate pg_order sequences rows =
     first_row (sort_key (\<lambda>p. BatchNumber (fst p))
       (filter (\<lambda>p. aggregable sequences (fst p) (snd p)) (List.product (pg_order rows) (pg_order rows))))"

definition AddGeneratedProof :: "int \<Rightarrow> Proof \<Rightarrow> Proof list \<Rightarrow> agg_error + Proof list" where
  "AddGeneratedProof now p rows =
     (if list_ex (\<lambda>r. pf_key r = pf_key p) rows then Inl (AggDbError ''duplicate key'')
      else Inr (rows @ [p\<lparr>pf_CreatedAt := now, pf_UpdatedAt := now\<rparr>]))"

definition UpdateGeneratedProof :: "int \<Rightarrow> Proof \<Rightarrow> Proof list \<Rightarrow> Proof list" where
  "UpdateGeneratedProof now p rows = map (\<lambda>r. if pf_key r = pf_key p then p\<lparr>pf_CreatedAt := pf_CreatedAt r, pf_UpdatedAt := now\<rparr> else r) rows"

definition DeleteGeneratedProofs :: "u64 \<Rightarrow> u64 \<Rightarrow> Proof list \<Rightarrow> Proof list" where
  "DeleteGeneratedProofs batchNumber batchNumberFinal rows =
     filter (\<lambda>r. \<not> (batchNumber \<le> BatchNumber r \<and> BatchNumberFinal r \<le> batchNumberFinal)) rows"

definition CleanupGeneratedProofs :: "u64 \<Rightarrow> Proof list \<Rightarrow> Proof list" where
  "CleanupGeneratedProofs batchNumber rows = filter (\<lambda>r. \<not> BatchNumberFinal r \<le> batchNumber) rows"

definition DeleteUngeneratedProofs :: "Proof list \<Rightarrow> Proof list" where
  "DeleteUngeneratedProofs rows = filter (\<lambda>r. GeneratingSince r = None) rows"

text \<open>\<open>toPostgresInterval\<close>; an empty duration is an index out of range, \<open>None\<close>.\<close>

definition toPostgresInterval :: "string \<Rightarrow> (agg_error + string) option" where
  "toPostgresInterval duration =
     (if duration = [] then None else Some
       (case (if List.last duration = CHR ''s'' then Some ''second''
              else if List.last duration = CHR ''m'' then Some ''minute''
              else if List.last duration = CHR ''h'' then Some ''hour'' else None) of
          None \<Rightarrow> Inl ErrUnsupportedDuration
        | Some pgUnit \<Rightarrow>
            Inr (butlast duration @ '' '' @ pgUnit @ (if hd duration \<noteq> CHR ''1'' \<or> length duration > 2 then ''s'' else []))))"

text \<open>The interval is read by the server, which gives the moment before which a lock is too old.\<close>

definition CleanupLockedProofs ::
  "(string \<Rightarrow> agg_error + int) \<Rightarrow> string \<Rightarrow> Proof list \<Rightarrow> ((agg_error + nat) \<times> Proof list) option" where
  "CleanupLockedProofs now_minus duration rows =
     map_option (\<lambda>r. case case_sum Inl now_minus r of
         Inl e \<Rightarrow> (Inl e, rows)
       | Inr oldest \<Rightarrow>
           (let stale = (\<lambda>r. case GeneratingSince r of None \<Rightarrow> False | Some t \<Rightarrow> t < oldest)
            in (Inr (length (filter stale rows)), filter (\<lambda>r. \<not> stale r) rows)))
       (toPostgresInterval duration)"

section \<open>Queries on the batches\<close>

definition GetBatchByNumber_pg :: "VBatch list \<Rightarrow> u64 \<Rightarrow> agg_error + VBatch" where
  "GetBatchByNumber_pg batches n = (case find (\<lambda>b. vb_BatchNumber b = n) batches of None \<Rightarrow> Inl AggNotFound | Some b \<Rightarrow> Inr b)"

definition GetLastVerifiedBatch_pg :: "u64 list \<Rightarrow> agg_error + u64" where
  "GetLastVerifiedBatch_pg verified = (if verified = [] then Inl AggNotFound else Inr (Max (set verified)))"

definition GetVirtualBatchToProve :: "VBatch list \<Rightarrow> u64 list \<Rightarrow> Proof list \<Rightarrow> u64 \<Rightarrow> agg_error + VBatch" where
  "GetVirtualBatchToProve batches virtual rows lastVerified =
     first_row (sort_key vb_BatchNumber (filter (\<lambda>b. lastVerified < vb_BatchNumber b \<and> vb_BatchNumber b \<in> set virtual \<and>
        \<not> list_ex (\<lambda>p. BatchNumber p \<le> vb_BatchNumber b \<and> vb_BatchNumber b \<le> BatchNumberFinal p) rows) batches))"

section \<open>What the queries find\<close>

lemma first_row_mem: "first_row xs = Inr x \<Longrightarrow> x \<in> set xs"
  by (auto simp: first_row_def split: list.split_asm)

lemma first_row_least:
  assumes "first_row (sort_key f xs) = Inr x"
  shows "x \<in> set xs" "y \<in> set xs \<Longrightarrow> f x \<le> f y"
proof -
  from assms obtain r where r: "sort_key f xs = x # r" by (auto simp: first_row_def split: list.split_asm)
  have "x \<in> set (sort_key f xs)" by (simp add: r)
  then show "x \<in> set xs" by simp
  assume "y \<in> set xs"
  then have "y \<in> set (x # r)" unfolding r [symmetric] by simp
  moreover have "sorted (map f (x # r))" unfolding r [symmetric] by simp
  ultimately show "f x \<le> f y" by auto
qed

lemma first_row_Inl: "first_row xs = Inl e \<longleftrightarrow> xs = [] \<and> e = AggNotFound"
  by (auto simp: first_row_def split: list.split)

lemma sort_key_Nil_iff: "sort_key f xs = [] \<longleftrightarrow> xs = []"
  by (metis length_0_conv length_sort)

lemma ready_is_next:
  assumes "GetProofReadyToVerify pg_order sequences n rows = Inr p" "\<And>xs. set (pg_order xs) = set xs"
  shows "p \<in> set rows" "BatchNumber p = n + 1" "GeneratingSince p = None" "CheckProofContainsCompleteSequences sequences p"
  using first_row_mem [OF assms(1)[unfolded GetProofReadyToVerify_def]] assms(2)
  by (auto simp: CheckProofContainsCompleteSequences_def)

lemma pair_is_aggregable:
  assumes "GetProofsToAggregate pg_order sequences rows = Inr (p1, p2)" "\<And>xs. set (pg_order xs) = set xs"
  shows "p1 \<in> set rows" "p2 \<in> set rows" "aggregable sequences p1 p2"
    "\<lbrakk>q1 \<in> set rows; q2 \<in> set rows; aggregable sequences q1 q2\<rbrakk> \<Longrightarrow> BatchNumber p1 \<le> BatchNumber q1"
  using first_row_least [OF assms(1)[unfolded GetProofsToAggregate_def]] assms(2) by auto

lemma batch_to_prove_is_next:
  assumes "GetVirtualBatchToProve batches virtual rows n = Inr b"
  shows "b \<in> set batches" "n < vb_BatchNumber b" "vb_BatchNumber b \<in> set virtual"
    "\<forall>p \<in> set rows. \<not> (BatchNumber p \<le> vb_BatchNumber b \<and> vb_BatchNumber b \<le> BatchNumberFinal p)"
    "\<forall>b' \<in> set batches. n < vb_BatchNumber b' \<and> vb_BatchNumber b' < vb_BatchNumber b \<and> vb_BatchNumber b' \<in> set virtual \<longrightarrow>
       (\<exists>p \<in> set rows. BatchNumber p \<le> vb_BatchNumber b' \<and> vb_BatchNumber b' \<le> BatchNumberFinal p)"
  using first_row_least [OF assms[unfolded GetVirtualBatchToProve_def]] by (auto simp: list_ex_iff Ball_def not_le [symmetric])

lemma GetBatchByNumber_pg_number: "GetBatchByNumber_pg batches n = Inr b \<Longrightarrow> vb_BatchNumber b = n \<and> b \<in> set batches"
  by (auto simp: GetBatchByNumber_pg_def find_Some_iff split: option.split_asm)

section \<open>What the statements do\<close>

lemma AddGeneratedProof_set: "AddGeneratedProof now p rows = Inr rows' \<Longrightarrow> set rows' = insert (p\<lparr>pf_CreatedAt := now, pf_UpdatedAt := now\<rparr>) (set rows)"
  by (auto simp: AddGeneratedProof_def split: if_split_asm)

lemma UpdateGeneratedProof_set:
  "r \<in> set (UpdateGeneratedProof now p rows) \<Longrightarrow> r \<in> set rows \<or> (\<exists>c. r = p\<lparr>pf_CreatedAt := c, pf_UpdatedAt := now\<rparr>)"
  by (auto simp: UpdateGeneratedProof_def)

lemma UpdateGeneratedProof_keys: "map pf_key (UpdateGeneratedProof now p rows) = map pf_key rows"
  by (auto simp: UpdateGeneratedProof_def pf_key_def)

lemma filtered_set:
  "set (DeleteGeneratedProofs a b rows) \<subseteq> set rows" "set (CleanupGeneratedProofs a rows) \<subseteq> set rows"
  "set (DeleteUngeneratedProofs rows) \<subseteq> set rows"
  by (auto simp: DeleteGeneratedProofs_def CleanupGeneratedProofs_def DeleteUngeneratedProofs_def)

lemma CleanupLockedProofs_set:
  assumes "CleanupLockedProofs now_minus d rows = Some (r, rows')"
  shows "set rows' \<subseteq> set rows" "p \<in> set rows \<Longrightarrow> GeneratingSince p = None \<Longrightarrow> p \<in> set rows'"
proof -
  from assms obtain z where "toPostgresInterval d = Some z" unfolding CleanupLockedProofs_def by blast
  with assms show "set rows' \<subseteq> set rows" "p \<in> set rows \<Longrightarrow> GeneratingSince p = None \<Longrightarrow> p \<in> set rows'"
    by (cases "case_sum Inl now_minus z"; auto simp: CleanupLockedProofs_def Let_def)+
qed

text \<open>The names of the units, and that the threshold of the default configuration is read.\<close>

lemma toPostgresInterval_default: "toPostgresInterval ''10m'' = Some (Inr ''10 minutes'')" "toPostgresInterval ''1h'' = Some (Inr ''1 hour'')"
  by (simp_all add: toPostgresInterval_def)

end
