(* ===== verification/Prover.thy ===== *)
theory Prover
  imports Threads ProofStorage
begin

text \<open>
  The client side of a prover: \<open>aggregator/prover/prover.go\<close>. A request and its answer over the stream are one step;
  what the prover answers is the function \<open>w_call\<close> of the world at that step. The messages are those of the protocol, with the fields the
  client reads. The lemmas at the end say what each call returns for each answer.
\<close>

section \<open>Messages\<close>

record InputProver =
  OldStateRoot :: bytes
  OldAccInputHash :: bytes
  OldBatchNum :: u64
  ip_ChainId :: u64
  ip_ForkId :: u64
  ip_BatchL2Data :: bytes
  ip_GlobalExitRoot :: bytes
  ip_EthTimestamp :: u64
  ip_SequencerAddr :: string
  ip_AggregatorAddr :: string

record PublicInputsExtended =
  NewStateRoot :: bytes
  NewLocalExitRoot :: bytes

record FinalProof =
  fp_Proof :: string
  fp_Public :: "PublicInputsExtended option"

datatype Result = RESULT_UNSPECIFIED | RESULT_OK | RESULT_ERROR | RESULT_INTERNAL_ERROR | RESULT_OTHER int

datatype GetProofResult =
    GP_UNSPECIFIED | GP_COMPLETED_OK | GP_ERROR | GP_COMPLETED_ERROR | GP_PENDING | GP_INTERNAL_ERROR | GP_CANCEL | GP_OTHER int

datatype Status = STATUS_IDLE | STATUS_OTHER int

record GetStatusResponse =
  gs_Status :: Status
  gs_ProverName :: string
  gs_ProverId :: string
  gs_ForkId :: u64

text \<open>The payload of an answer is one of two kinds of proofs, or missing.\<close>

datatype payload = NoPayload | RecursivePayload string | FinalPayload FinalProof

datatype AggregatorMessage =
    GetStatusRequest
  | GenBatchProofRequest InputProver
  | GenAggregatedProofRequest string string
  | GenFinalProofRequest string string
  | CancelRequest string
  | GetProofRequest string

datatype ProverMessage =
    GetStatusMsg GetStatusResponse
  | GenBatchProofMsg Result string
  | GenAggregatedProofMsg Result string
  | GenFinalProofMsg Result string
  | CancelMsg Result
  | GetProofMsg GetProofResult payload

text \<open>What the world answers at a step, as far as it concerns a prover; \<open>w_gone\<close> says that the stream's context is done.\<close>

record prover_world =
  w_call :: "AggregatorMessage \<Rightarrow> string + ProverMessage"
  w_gone :: bool

record Prover =
  pv_name :: string
  pv_id :: string
  pv_address :: "string option"

section \<open>Calls\<close>

definition call :: "AggregatorMessage \<Rightarrow> ('w prover_world_scheme, 's, agg_error + ProverMessage) prog" where
  "call req = ask (\<lambda>w s. map_sum AggStreamError id (w_call w req))"

definition prover_Addr :: "Prover \<Rightarrow> string" where
  "prover_Addr p = (case pv_address p of None \<Rightarrow> [] | Some a \<Rightarrow> a)"

definition Status_call :: "('w prover_world_scheme, 's, agg_error + GetStatusResponse) prog" where
  "Status_call = prog_bind (call GetStatusRequest) (\<lambda>res. Return (case res of
     Inl e \<Rightarrow> Inl e
   | Inr m \<Rightarrow> (case m of GetStatusMsg r \<Rightarrow> Inr r | _ \<Rightarrow> Inl ErrBadProverResponse)))"

definition prover_New :: "string option \<Rightarrow> ('w prover_world_scheme, 's, agg_error + Prover) prog" where
  "prover_New addr = prog_bind Status_call (\<lambda>st. Return (map_sum id (\<lambda>r.
     \<lparr>pv_name = gs_ProverName r, pv_id = gs_ProverId r, pv_address = addr\<rparr>) st))"

definition IsIdle :: "('w prover_world_scheme, 's, agg_error + bool) prog" where
  "IsIdle = prog_bind Status_call (\<lambda>st. Return (map_sum id (\<lambda>r. gs_Status r = STATUS_IDLE) st))"

definition SupportsForkID :: "u64 \<Rightarrow> ('w prover_world_scheme, 's, bool) prog" where
  "SupportsForkID forkID = prog_bind Status_call (\<lambda>st. Return (case st of Inl _ \<Rightarrow> False | Inr r \<Rightarrow> gs_ForkId r = forkID))"

text \<open>The switch on the result that the four requests share.\<close>

definition result_switch :: "Result \<Rightarrow> 'a \<Rightarrow> agg_error + 'a" where
  "result_switch r v = (case r of
     RESULT_UNSPECIFIED \<Rightarrow> Inl ErrUnspecified
   | RESULT_OK \<Rightarrow> Inr v
   | RESULT_ERROR \<Rightarrow> Inl ErrBadRequest
   | RESULT_INTERNAL_ERROR \<Rightarrow> Inl ErrProverInternalError
   | RESULT_OTHER _ \<Rightarrow> Inl ErrUnknown)"

definition BatchProof :: "InputProver \<Rightarrow> ('w prover_world_scheme, 's, agg_error + string) prog" where
  "BatchProof inp = prog_bind (call (GenBatchProofRequest inp)) (\<lambda>res. Return (case res of
     Inl e \<Rightarrow> Inl e
   | Inr m \<Rightarrow> (case m of GenBatchProofMsg r i \<Rightarrow> result_switch r i | _ \<Rightarrow> Inl ErrBadProverResponse)))"

definition AggregatedProof :: "string \<Rightarrow> string \<Rightarrow> ('w prover_world_scheme, 's, agg_error + string) prog" where
  "AggregatedProof inputProof1 inputProof2 = prog_bind (call (GenAggregatedProofRequest inputProof1 inputProof2)) (\<lambda>res. Return (case res of
     Inl e \<Rightarrow> Inl e
   | Inr m \<Rightarrow> (case m of GenAggregatedProofMsg r i \<Rightarrow> result_switch r i | _ \<Rightarrow> Inl ErrBadProverResponse)))"

definition FinalProof_call :: "string \<Rightarrow> string \<Rightarrow> ('w prover_world_scheme, 's, agg_error + string) prog" where
  "FinalProof_call inputProof aggregatorAddr = prog_bind (call (GenFinalProofRequest inputProof aggregatorAddr)) (\<lambda>res. Return (case res of
     Inl e \<Rightarrow> Inl e
   | Inr m \<Rightarrow> (case m of GenFinalProofMsg r i \<Rightarrow> result_switch r i | _ \<Rightarrow> Inl ErrBadProverResponse)))"

definition CancelProofRequest :: "string \<Rightarrow> ('w prover_world_scheme, 's, agg_error option) prog" where
  "CancelProofRequest proofID = prog_bind (call (CancelRequest proofID)) (\<lambda>res. Return (case res of
     Inl e \<Rightarrow> Some e
   | Inr m \<Rightarrow> (case m of
        CancelMsg r \<Rightarrow> (case result_switch r () of Inl e \<Rightarrow> Some e | Inr _ \<Rightarrow> None)
      | _ \<Rightarrow> Some ErrBadProverResponse)))"

text \<open>One turn of the loop of \<open>waitProof\<close>; a proof that is pending is asked for again.\<close>

definition waitProof :: "string \<Rightarrow> ('w prover_world_scheme, 's, agg_error + payload) prog" where
  "waitProof proofID = await (\<lambda>w s.
     if w_gone w then Some (Inl AggContextDone, s)
     else (case w_call w (GetProofRequest proofID) of
        Inl e \<Rightarrow> Some (Inl (AggStreamError e), s)
      | Inr m \<Rightarrow> (case m of
          GetProofMsg r pl \<Rightarrow> (case r of
             GP_PENDING \<Rightarrow> None
           | GP_UNSPECIFIED \<Rightarrow> Some (Inl ErrUnspecified, s)
           | GP_COMPLETED_OK \<Rightarrow> Some (Inr pl, s)
           | GP_ERROR \<Rightarrow> Some (Inl ErrBadRequest, s)
           | GP_COMPLETED_ERROR \<Rightarrow> Some (Inl ErrProverCompletedError, s)
           | GP_INTERNAL_ERROR \<Rightarrow> Some (Inl ErrProverInternalError, s)
           | GP_CANCEL \<Rightarrow> Some (Inl ErrProofCanceled, s)
           | GP_OTHER _ \<Rightarrow> Some (Inl ErrUnknown, s))
        | _ \<Rightarrow> Some (Inl ErrBadProverResponse, s))))"

text \<open>The type assertions panic on a payload of the other kind.\<close>

definition WaitRecursiveProof :: "string \<Rightarrow> ('w prover_world_scheme, 's, agg_error + string) prog" where
  "WaitRecursiveProof proofID = prog_bind (waitProof proofID) (\<lambda>res. case res of
     Inl e \<Rightarrow> Return (Inl e)
   | Inr pl \<Rightarrow> (case pl of RecursivePayload s \<Rightarrow> Return (Inr s) | _ \<Rightarrow> Panics))"

definition WaitFinalProof :: "string \<Rightarrow> ('w prover_world_scheme, 's, agg_error + FinalProof) prog" where
  "WaitFinalProof proofID = prog_bind (waitProof proofID) (\<lambda>res. case res of
     Inl e \<Rightarrow> Return (Inl e)
   | Inr pl \<Rightarrow> (case pl of FinalPayload f \<Rightarrow> Return (Inr f) | _ \<Rightarrow> Panics))"

section \<open>What the calls return\<close>

text \<open>
  The provers' answers that the aggregator relies on. \<open>job\<close> is what an identifier was given for; \<open>attests s l\<close> says that a
  recursive proof attests the execution of the inputs \<open>l\<close>, one after the other, and \<open>final_attests\<close> the same of a final proof.
\<close>

datatype job = BatchJob InputProver | AggregatedJob string string | FinalJob string string

record prover_meaning =
  job :: "string \<Rightarrow> job"
  attests :: "string \<Rightarrow> InputProver list \<Rightarrow> bool"
  final_attests :: "string \<Rightarrow> InputProver list \<Rightarrow> bool"

definition answers :: "prover_meaning \<Rightarrow> job \<Rightarrow> string \<Rightarrow> bool" where
  "answers M j s = (case j of
     BatchJob inp \<Rightarrow> attests M s [inp]
   | AggregatedJob s1 s2 \<Rightarrow> (\<forall>l1 l2. attests M s1 l1 \<and> attests M s2 l2 \<longrightarrow> attests M s (l1 @ l2))
   | FinalJob _ _ \<Rightarrow> False)"

definition final_answers :: "prover_meaning \<Rightarrow> job \<Rightarrow> FinalProof \<Rightarrow> bool" where
  "final_answers M j f = (case j of
     FinalJob s addr \<Rightarrow> (\<forall>l. attests M s l \<longrightarrow> final_attests M (fp_Proof f) l)
   | _ \<Rightarrow> False)"

definition honest :: "prover_meaning \<Rightarrow> 'w prover_world_scheme \<Rightarrow> bool" where
  "honest M w \<longleftrightarrow>
     (\<forall>inp i. w_call w (GenBatchProofRequest inp) = Inr (GenBatchProofMsg RESULT_OK i) \<longrightarrow> job M i = BatchJob inp) \<and>
     (\<forall>a b i. w_call w (GenAggregatedProofRequest a b) = Inr (GenAggregatedProofMsg RESULT_OK i) \<longrightarrow> job M i = AggregatedJob a b) \<and>
     (\<forall>a b i. w_call w (GenFinalProofRequest a b) = Inr (GenFinalProofMsg RESULT_OK i) \<longrightarrow> job M i = FinalJob a b) \<and>
     (\<forall>i s. w_call w (GetProofRequest i) = Inr (GetProofMsg GP_COMPLETED_OK (RecursivePayload s)) \<longrightarrow> answers M (job M i) s) \<and>
     (\<forall>i f. w_call w (GetProofRequest i) = Inr (GetProofMsg GP_COMPLETED_OK (FinalPayload f)) \<longrightarrow> final_answers M (job M i) f)"

named_theorems prog_maintains

lemma result_switch_Inr: "result_switch r v = Inr u \<longleftrightarrow> r = RESULT_OK \<and> u = v"
  by (cases r) (auto simp: result_switch_def)

lemma maintains_call:
  assumes "\<And>w m. ok w \<Longrightarrow> w_call w req = Inr m \<Longrightarrow> Q (Inr m)" "\<And>e. Q (Inl e)"
  shows "maintains ok I Q (call req)"
  unfolding call_def by (rule maintains_ask) (use assms in \<open>auto simp: map_sum_def split: sum.split\<close>)

lemma maintains_requests [prog_maintains]:
  assumes "\<And>w. ok w \<Longrightarrow> honest M w"
  shows "maintains ok I (\<lambda>r. \<forall>i. r = Inr i \<longrightarrow> job M i = BatchJob inp) (BatchProof inp)"
    "maintains ok I (\<lambda>r. \<forall>i. r = Inr i \<longrightarrow> job M i = AggregatedJob a b) (AggregatedProof a b)"
    "maintains ok I (\<lambda>r. \<forall>i. r = Inr i \<longrightarrow> job M i = FinalJob a b) (FinalProof_call a b)"
proof -
  have "maintains ok I (\<lambda>r. \<forall>i. r = Inr (GenBatchProofMsg RESULT_OK i) \<longrightarrow> job M i = BatchJob inp) (call (GenBatchProofRequest inp))"
    using assms by (intro maintains_call) (auto simp: honest_def)
  then show "maintains ok I (\<lambda>r. \<forall>i. r = Inr i \<longrightarrow> job M i = BatchJob inp) (BatchProof inp)"
    unfolding BatchProof_def by (rule maintains_bind) (auto simp: result_switch_Inr split: sum.split ProverMessage.split)
  have "maintains ok I (\<lambda>r. \<forall>i. r = Inr (GenAggregatedProofMsg RESULT_OK i) \<longrightarrow> job M i = AggregatedJob a b) (call (GenAggregatedProofRequest a b))"
    using assms by (intro maintains_call) (auto simp: honest_def)
  then show "maintains ok I (\<lambda>r. \<forall>i. r = Inr i \<longrightarrow> job M i = AggregatedJob a b) (AggregatedProof a b)"
    unfolding AggregatedProof_def by (rule maintains_bind) (auto simp: result_switch_Inr split: sum.split ProverMessage.split)
  have "maintains ok I (\<lambda>r. \<forall>i. r = Inr (GenFinalProofMsg RESULT_OK i) \<longrightarrow> job M i = FinalJob a b) (call (GenFinalProofRequest a b))"
    using assms by (intro maintains_call) (auto simp: honest_def)
  then show "maintains ok I (\<lambda>r. \<forall>i. r = Inr i \<longrightarrow> job M i = FinalJob a b) (FinalProof_call a b)"
    unfolding FinalProof_call_def by (rule maintains_bind) (auto simp: result_switch_Inr split: sum.split ProverMessage.split)
qed

lemma maintains_waits [prog_maintains]:
  assumes "\<And>w. ok w \<Longrightarrow> honest M w"
  shows "maintains ok I (\<lambda>r. \<forall>s. r = Inr s \<longrightarrow> answers M (job M i) s) (WaitRecursiveProof i)"
    "maintains ok I (\<lambda>r. \<forall>f. r = Inr f \<longrightarrow> final_answers M (job M i) f) (WaitFinalProof i)"
proof -
  let ?Q = "\<lambda>r. (\<forall>s. r = Inr (RecursivePayload s) \<longrightarrow> answers M (job M i) s) \<and> (\<forall>f. r = Inr (FinalPayload f) \<longrightarrow> final_answers M (job M i) f)"
  have w: "maintains ok I ?Q (waitProof i)"
    unfolding waitProof_def
    by (rule maintains_await)
      (use assms in \<open>auto simp: honest_def split: if_split_asm sum.split_asm ProverMessage.split_asm GetProofResult.split_asm\<close>)
  then show "maintains ok I (\<lambda>r. \<forall>s. r = Inr s \<longrightarrow> answers M (job M i) s) (WaitRecursiveProof i)"
    "maintains ok I (\<lambda>r. \<forall>f. r = Inr f \<longrightarrow> final_answers M (job M i) f) (WaitFinalProof i)"
    unfolding WaitRecursiveProof_def WaitFinalProof_def by (rule maintains_bind; auto split: sum.split payload.split)+
qed

lemma maintains_status [prog_maintains]: "maintains ok I (\<lambda>_. True) IsIdle" "maintains ok I (\<lambda>_. True) (SupportsForkID n)" "maintains ok I (\<lambda>_. True) (prover_New a)"
proof -
  have "maintains ok I (\<lambda>_. True) Status_call"
    unfolding Status_call_def by (rule maintains_bind [OF maintains_call [where Q = "\<lambda>_. True"]]) auto
  then show "maintains ok I (\<lambda>_. True) IsIdle" "maintains ok I (\<lambda>_. True) (SupportsForkID n)" "maintains ok I (\<lambda>_. True) (prover_New a)"
    unfolding IsIdle_def SupportsForkID_def prover_New_def by (rule maintains_bind; auto)+
qed

end
