(* ===== verification/Aggregator.thy ===== *)
theory Aggregator
  imports Prover
begin

text \<open>
  The aggregator: \<open>aggregator/aggregator.go\<close> and \<open>profitabilitychecker.go\<close>, over the models of the prover's client, of the table of
  the proofs and of the transaction manager. Its goroutines, one for each prover, one that sends final proofs and one that
  removes old locks, are programs over the shared state \<open>agg\<close>: the tables, the fields of the struct \<open>Aggregator\<close> that
  change, its mutex and its channel. Each statement of the database and each request of a prover is a step of its own. A transaction of
  the database changes the table when it is committed; a key that is there by then makes the commit fail. The channel has no
  buffer: a message is handed over when the receiver waits for it. Times are in microseconds.
\<close>

section \<open>Data\<close>

datatype profitability = CheckerBase int | CheckerAcceptAll

record AggConfig =
  VerifyProofInterval :: int
  ProfitabilityChecker :: profitability
  ag_ChainID :: u64
  ag_ForkId :: u64
  ag_SenderAddress :: string
  GeneratingProofCleanupThreshold :: string
  ag_GasOffset :: u64

record FinalProofInputs =
  fi_FinalProof :: FinalProof
  fi_NewLocalExitRoot :: bytes
  fi_NewStateRoot :: bytes

record finalProofMsg =
  fm_proverName :: string
  fm_proverID :: string
  recursiveProof :: Proof
  finalProof :: FinalProof

record agg =
  a_proofs :: "Proof list"
  a_sequences :: "(u64 \<times> u64) list"
  a_batches :: "VBatch list"
  a_virtual :: "u64 list"
  a_verified :: "u64 list"
  a_mtx :: "Row list"
  TimeSendFinalProof :: int
  verifyingProof :: bool
  StateDBMutex :: bool
  a_receiving :: bool
  a_finalProof :: "finalProofMsg option"

text \<open>
  The answers of the world at a step: the time, an error of the database, the end of the aggregator's context, which a \<open>select\<close>
  then takes, the contract, the network behind the transaction manager and the results it hands on, and the server's order of rows and
  reading of intervals.
\<close>

record world = prover_world +
  w_now :: int
  w_db :: "string option"
  w_done :: bool
  w_verified :: "string + u64"
  w_build :: "string option"
  w_net :: net
  w_results :: "MonitoredTxResult list"
  w_order :: "Proof list \<Rightarrow> Proof list"
  w_now_minus :: "string \<Rightarrow> agg_error + int"

text \<open>What does not change: the configurations, and functions of other packages.\<close>

record agg_env =
  ae_cfg :: AggConfig
  ae_etm :: Config
  HexToAddress :: "string \<Rightarrow> address"
  Address_String :: "address \<Rightarrow> string"
  json_input :: "InputProver \<Rightarrow> string + string"
  json_pair :: "string \<Rightarrow> string \<Rightarrow> string + string"
  BuildTrustedVerifyBatchesTxData :: "u64 \<Rightarrow> u64 \<Rightarrow> FinalProofInputs \<Rightarrow> address option \<times> bytes"

type_synonym 'a agg_prog = "(world, agg, 'a) prog"

definition aggregatorOwner :: string where "aggregatorOwner = ''aggregator''"

definition mockedStateRoot :: string where
  "mockedStateRoot = ''0x090bcaf734c4f06c93954a827b45a6e8c67b8e0fd1e0a35a1c5982d6961828f9''"

definition mockedLocalExitRoot :: string where
  "mockedLocalExitRoot = ''0x17c04c3760510b48c6012742c540a81aba4bca2f78b9d14bfd2f123e2e53ea3e''"

text \<open>\<open>common.Hash.Bytes\<close>, and \<open>string\<close> of bytes.\<close>

definition Hash_Bytes :: "hash \<Rightarrow> bytes" where
  "Hash_Bytes h = map (\<lambda>i. ucast (drop_bit (8 * (31 - i)) h)) [0..<32]"

definition go_string :: "bytes \<Rightarrow> string" where "go_string bs = map (\<lambda>b. char_of (unat b)) bs"

definition buildMonitoredTxID :: "u64 \<Rightarrow> u64 \<Rightarrow> string" where
  "buildMonitoredTxID batchNumber batchNumberFinal =
     ''proof-from-'' @ go_itoa (unat batchNumber) @ ''-to-'' @ go_itoa (unat batchNumberFinal)"

definition IsProfitable :: "profitability \<Rightarrow> int \<Rightarrow> bool" where
  "IsProfitable pc maticCollateral = (case pc of CheckerBase minReward \<Rightarrow> minReward \<le> maticCollateral | CheckerAcceptAll \<Rightarrow> True)"

section \<open>Steps on the shared state\<close>

definition db_query :: "(world \<Rightarrow> agg \<Rightarrow> agg_error + 'a) \<Rightarrow> (agg_error + 'a) agg_prog" where
  "db_query q = ask (\<lambda>w s. case w_db w of Some e \<Rightarrow> Inl (AggDbError e) | None \<Rightarrow> q w s)"

definition db_exec :: "(int \<Rightarrow> Proof list \<Rightarrow> agg_error + Proof list) \<Rightarrow> agg_error option agg_prog" where
  "db_exec f = act (\<lambda>w s. case w_db w of
     Some e \<Rightarrow> (Some (AggDbError e), s)
   | None \<Rightarrow> (case f (w_now w) (a_proofs s) of Inl e \<Rightarrow> (Some e, s) | Inr rows \<Rightarrow> (None, s\<lparr>a_proofs := rows\<rparr>)))"

definition now_step :: "int agg_prog" where "now_step = ask (\<lambda>w s. w_now w)"

text \<open>A transaction: statements that are collected, and take effect together.\<close>

type_synonym tx_stmt = "Proof list \<Rightarrow> agg_error + Proof list"

definition tx_control :: "agg_error option agg_prog" where
  "tx_control = ask (\<lambda>w s. map_option AggDbError (w_db w))"

definition tx_exec :: "(int \<Rightarrow> tx_stmt) \<Rightarrow> (agg_error + tx_stmt) agg_prog" where
  "tx_exec f = db_query (\<lambda>w s. Inr (f (w_now w)))"

fun apply_stmts :: "tx_stmt list \<Rightarrow> tx_stmt" where
  "apply_stmts [] rows = Inr rows"
| "apply_stmts (st # sts) rows = (case st rows of Inl e \<Rightarrow> Inl e | Inr rows' \<Rightarrow> apply_stmts sts rows')"

definition tx_commit :: "tx_stmt list \<Rightarrow> agg_error option agg_prog" where
  "tx_commit sts = db_exec (\<lambda>_. apply_stmts sts)"

definition rollback_with :: "agg_error \<Rightarrow> (agg_error + 'a) agg_prog" where
  "rollback_with err = prog_bind tx_control (\<lambda>r. Return (Inl (case r of Some e \<Rightarrow> e | None \<Rightarrow> err)))"

text \<open>\<open>StateDBMutex\<close>, locked for a whole function.\<close>

definition mutex_lock :: "unit agg_prog" where
  "mutex_lock = await (\<lambda>w s. if StateDBMutex s then None else Some ((), s\<lparr>StateDBMutex := True\<rparr>))"

definition mutex_unlock :: "unit agg_prog" where
  "mutex_unlock = act (\<lambda>w s. ((), s\<lparr>StateDBMutex := False\<rparr>))"

definition locked :: "'a agg_prog \<Rightarrow> 'a agg_prog" where
  "locked p = prog_bind mutex_lock (\<lambda>_. prog_bind p (\<lambda>r. prog_bind mutex_unlock (\<lambda>_. Return r)))"

section \<open>The time of the verification\<close>

definition canVerifyProof :: "bool agg_prog" where
  "canVerifyProof = ask (\<lambda>w s. TimeSendFinalProof s < w_now w \<and> \<not> verifyingProof s)"

definition startProofVerification :: "unit agg_prog" where
  "startProofVerification = act (\<lambda>w s. ((), s\<lparr>verifyingProof := True\<rparr>))"

definition endProofVerification :: "unit agg_prog" where
  "endProofVerification = act (\<lambda>w s. ((), s\<lparr>verifyingProof := False\<rparr>))"

definition resetVerifyProofTime :: "agg_env \<Rightarrow> unit agg_prog" where
  "resetVerifyProofTime env = act (\<lambda>w s. ((), s\<lparr>TimeSendFinalProof := w_now w + VerifyProofInterval (ae_cfg env)\<rparr>))"

definition isSynced_at :: "u64 option \<Rightarrow> world \<Rightarrow> agg \<Rightarrow> bool" where
  "isSynced_at batchNum w s =
     (case (case w_db w of Some e \<Rightarrow> Inl (AggDbError e) | None \<Rightarrow> GetLastVerifiedBatch_pg (a_verified s)) of
        Inl _ \<Rightarrow> False
      | Inr lastVerified \<Rightarrow>
          (case batchNum of Some n \<Rightarrow> n \<le> lastVerified | None \<Rightarrow> True) \<and>
          (case w_verified w of Inl _ \<Rightarrow> False | Inr lastVerifiedEth \<Rightarrow> lastVerifiedEth \<le> lastVerified))"

text \<open>The loops that wait for the synchronizer.\<close>

definition wait_synced :: "u64 option \<Rightarrow> unit agg_prog" where
  "wait_synced batchNum = await (\<lambda>w s. if isSynced_at batchNum w s then Some ((), s) else None)"

section \<open>The final proof\<close>

definition buildFinalProof :: "agg_env \<Rightarrow> Proof \<Rightarrow> ((agg_error + FinalProof) \<times> Proof) agg_prog" where
  "buildFinalProof env proof =
     (if ProofID proof = None then Panics else
      prog_bind (FinalProof_call (pf_Proof proof) (ag_SenderAddress (ae_cfg env))) (\<lambda>r. case r of
        Inl e \<Rightarrow> Return (Inl e, proof)
      | Inr finalProofID \<Rightarrow>
        (let proof = proof\<lparr>ProofID := Some finalProofID\<rparr> in
         prog_bind (WaitFinalProof finalProofID) (\<lambda>r. case r of
           Inl e \<Rightarrow> Return (Inl e, proof)
         | Inr f \<Rightarrow> (case fp_Public f of
             None \<Rightarrow> Panics
           | Some pub \<Rightarrow>
             if go_string (NewStateRoot pub) = mockedStateRoot \<and> go_string (NewLocalExitRoot pub) = mockedLocalExitRoot
             then prog_bind (db_query (\<lambda>w s. GetBatchByNumber_pg (a_batches s) (BatchNumberFinal proof))) (\<lambda>r. case r of
                    Inl e \<Rightarrow> Return (Inl (AggDbError ''failed to retrieve batch''), proof)
                  | Inr b \<Rightarrow> Return (Inr (f\<lparr>fp_Public := Some (pub\<lparr>NewStateRoot := Hash_Bytes (vb_StateRoot b),
                       NewLocalExitRoot := Hash_Bytes (vb_LocalExitRoot b)\<rparr>)\<rparr>), proof))
             else Return (Inr f, proof))))))"

definition validateEligibleFinalProof :: "Proof \<Rightarrow> u64 \<Rightarrow> (agg_error + bool) agg_prog" where
  "validateEligibleFinalProof proof lastVerifiedBatchNum =
     (let batchNumberToVerify = lastVerifiedBatchNum + 1;
          check = db_query (\<lambda>w s. Inr (CheckProofContainsCompleteSequences (a_sequences s) proof))
      in if BatchNumber proof \<noteq> batchNumberToVerify
         then if BatchNumber proof < batchNumberToVerify \<and> batchNumberToVerify \<le> BatchNumberFinal proof then check
              else if BatchNumberFinal proof < batchNumberToVerify
              then prog_bind (db_exec (\<lambda>_ rows. Inr (DeleteGeneratedProofs (BatchNumber proof) (BatchNumberFinal proof) rows)))
                     (\<lambda>err. Return (case err of Some e \<Rightarrow> Inl e | None \<Rightarrow> Inr False))
              else Return (Inr False)
         else check)"

definition getAndLockProofReadyToVerify :: "u64 \<Rightarrow> (agg_error + Proof) agg_prog" where
  "getAndLockProofReadyToVerify lastVerifiedBatchNum = locked
     (prog_bind (db_query (\<lambda>w s. GetProofReadyToVerify (w_order w) (a_sequences s) lastVerifiedBatchNum (a_proofs s))) (\<lambda>r. case r of
        Inl e \<Rightarrow> Return (Inl e)
      | Inr proof \<Rightarrow> prog_bind now_step (\<lambda>now.
          (let proof = proof\<lparr>GeneratingSince := Some now\<rparr> in
           prog_bind (db_exec (\<lambda>t rows. Inr (UpdateGeneratedProof t proof rows)))
             (\<lambda>err. Return (case err of Some e \<Rightarrow> Inl e | None \<Rightarrow> Inr proof))))))"

definition unlock_proof :: "Proof \<Rightarrow> agg_error option agg_prog" where
  "unlock_proof proof = db_exec (\<lambda>t rows. Inr (UpdateGeneratedProof t (proof\<lparr>GeneratingSince := None\<rparr>) rows))"

definition send_msg :: "finalProofMsg \<Rightarrow> bool agg_prog" where
  "send_msg msg = await (\<lambda>w s.
     if w_done w then Some (False, s)
     else if a_receiving s \<and> a_finalProof s = None then Some (True, s\<lparr>a_finalProof := Some msg, a_receiving := False\<rparr>)
     else None)"

text \<open>
  From an eligible proof to the message; \<open>own\<close> says that the proof was locked here, so that it is unlocked when the final proof
  is not built. It is not when the context is done: that error is not assigned to the variable that is looked at.
\<close>

definition build_and_send :: "agg_env \<Rightarrow> Prover \<Rightarrow> bool \<Rightarrow> Proof \<Rightarrow> ((agg_error + bool) \<times> Proof) agg_prog" where
  "build_and_send env prover own proof =
     (if ProofID proof = None then Panics else
      prog_bind (buildFinalProof env proof) (\<lambda>(r, proof). case r of
        Inl e \<Rightarrow> prog_bind (if own then unlock_proof proof else Return None) (\<lambda>_. Return (Inl e, proof))
      | Inr f \<Rightarrow>
          prog_bind (send_msg \<lparr>fm_proverName = pv_name prover, fm_proverID = pv_id prover, recursiveProof = proof, finalProof = f\<rparr>)
            (\<lambda>sent. Return (if sent then Inr True else Inl AggContextDone, proof))))"

definition tryBuildFinalProof :: "agg_env \<Rightarrow> Prover \<Rightarrow> Proof option \<Rightarrow> ((agg_error + bool) \<times> Proof option) agg_prog" where
  "tryBuildFinalProof env prover proof =
     prog_bind canVerifyProof (\<lambda>can. if \<not> can then Return (Inr False, proof) else
     prog_bind (wait_synced None) (\<lambda>_.
     prog_bind (db_query (\<lambda>w s. GetLastVerifiedBatch_pg (a_verified s))) (\<lambda>v.
       case (case v of Inr n \<Rightarrow> Inr n | Inl e \<Rightarrow> if e = AggNotFound then Inr 0 else Inl e) of
         Inl e \<Rightarrow> Return (Inl e, proof)
       | Inr lastVerifiedBatchNum \<Rightarrow>
         (case proof of
            None \<Rightarrow> prog_bind (getAndLockProofReadyToVerify lastVerifiedBatchNum) (\<lambda>r. case r of
                Inl e \<Rightarrow> Return (if e = AggNotFound then Inr False else Inl e, None)
              | Inr p \<Rightarrow> prog_bind (build_and_send env prover True p) (\<lambda>(r, p). Return (r, Some p)))
          | Some p \<Rightarrow> prog_bind (validateEligibleFinalProof p lastVerifiedBatchNum) (\<lambda>r. case r of
                Inl e \<Rightarrow> Return (Inl e, Some p)
              | Inr eligible \<Rightarrow> if \<not> eligible then Return (Inr False, Some p)
                  else prog_bind (build_and_send env prover False p) (\<lambda>(r, p). Return (r, Some p)))))))"

section \<open>Aggregation\<close>

text \<open>The two updates in one transaction, with the new \<open>GeneratingSince\<close>.\<close>

definition update_pair :: "(world \<Rightarrow> int option) \<Rightarrow> Proof \<Rightarrow> Proof \<Rightarrow> (agg_error + Proof \<times> Proof) agg_prog" where
  "update_pair since proof1 proof2 =
     prog_bind tx_control (\<lambda>b. case b of Some e \<Rightarrow> Return (Inl e) | None \<Rightarrow>
     prog_bind (ask (\<lambda>w s. since w)) (\<lambda>t.
     (let proof1 = proof1\<lparr>GeneratingSince := t\<rparr>; proof2 = proof2\<lparr>GeneratingSince := t\<rparr> in
      prog_bind (tx_exec (\<lambda>now rows. Inr (UpdateGeneratedProof now proof1 rows))) (\<lambda>r1. case r1 of Inl e \<Rightarrow> rollback_with e | Inr st1 \<Rightarrow>
      prog_bind (tx_exec (\<lambda>now rows. Inr (UpdateGeneratedProof now proof2 rows))) (\<lambda>r2. case r2 of Inl e \<Rightarrow> rollback_with e | Inr st2 \<Rightarrow>
      prog_bind (tx_commit [st1, st2]) (\<lambda>c. Return (case c of Some e \<Rightarrow> Inl e | None \<Rightarrow> Inr (proof1, proof2))))))))"

definition unlockProofsToAggregate :: "Proof \<Rightarrow> Proof \<Rightarrow> agg_error option agg_prog" where
  "unlockProofsToAggregate proof1 proof2 =
     prog_bind (update_pair (\<lambda>_. None) proof1 proof2) (\<lambda>r. Return (case r of Inl e \<Rightarrow> Some e | Inr _ \<Rightarrow> None))"

definition getAndLockProofsToAggregate :: "(agg_error + Proof \<times> Proof) agg_prog" where
  "getAndLockProofsToAggregate = locked
     (prog_bind (db_query (\<lambda>w s. GetProofsToAggregate (w_order w) (a_sequences s) (a_proofs s))) (\<lambda>r. case r of
        Inl e \<Rightarrow> Return (Inl e)
      | Inr (proof1, proof2) \<Rightarrow> update_pair (\<lambda>w. Some (w_now w)) proof1 proof2))"

text \<open>The transaction that puts the new proof in the place of the two.\<close>

definition replace_proofs :: "Proof \<Rightarrow> Proof \<Rightarrow> Proof \<Rightarrow> (agg_error + Proof) agg_prog" where
  "replace_proofs proof1 proof2 proof =
     prog_bind tx_control (\<lambda>b. case b of Some e \<Rightarrow> Return (Inl e) | None \<Rightarrow>
     prog_bind (tx_exec (\<lambda>_ rows. Inr (DeleteGeneratedProofs (BatchNumber proof1) (BatchNumberFinal proof2) rows)))
       (\<lambda>r1. case r1 of Inl e \<Rightarrow> rollback_with e | Inr st1 \<Rightarrow>
     prog_bind now_step (\<lambda>now.
     (let proof = proof\<lparr>GeneratingSince := Some now\<rparr> in
      prog_bind (tx_exec (\<lambda>t. AddGeneratedProof t proof)) (\<lambda>r2. case r2 of Inl e \<Rightarrow> rollback_with e | Inr st2 \<Rightarrow>
      prog_bind (tx_commit [st1, st2]) (\<lambda>c. Return (case c of Some e \<Rightarrow> Inl e | None \<Rightarrow> Inr proof)))))))"

definition aggregate_pair :: "agg_env \<Rightarrow> Prover \<Rightarrow> Proof \<Rightarrow> Proof \<Rightarrow> (agg_error + Proof) agg_prog" where
  "aggregate_pair env prover proof1 proof2 =
     (case json_pair env (pf_Proof proof1) (pf_Proof proof2) of
        Inl e \<Rightarrow> Return (Inl (AggJsonError e))
      | Inr b \<Rightarrow>
        prog_bind (AggregatedProof (pf_Proof proof1) (pf_Proof proof2)) (\<lambda>r. case r of Inl e \<Rightarrow> Return (Inl e) | Inr aggrProofID \<Rightarrow>
        prog_bind (WaitRecursiveProof aggrProofID) (\<lambda>r. case r of Inl e \<Rightarrow> Return (Inl e) | Inr proof \<Rightarrow>
        replace_proofs proof1 proof2
          \<lparr>BatchNumber = BatchNumber proof1, BatchNumberFinal = BatchNumberFinal proof2, pf_Proof = proof, pf_InputProver = b,
           ProofID = Some aggrProofID, pf_Prover = Some (pv_name prover), pf_ProverID = Some (pv_id prover),
           GeneratingSince = None, pf_CreatedAt = 0, pf_UpdatedAt = 0\<rparr>)))"

text \<open>The end that the two ways to generate a proof share: verify it, or release it.\<close>

definition finish_proof :: "agg_env \<Rightarrow> Prover \<Rightarrow> Proof \<Rightarrow> (agg_error + bool) agg_prog" where
  "finish_proof env prover proof =
     prog_bind (tryBuildFinalProof env prover (Some proof)) (\<lambda>(r, proof').
       if r = Inr True then Return (Inr True)
       else prog_bind (unlock_proof (case proof' of Some p \<Rightarrow> p | None \<Rightarrow> proof)) (\<lambda>err.
              Return (case err of Some e \<Rightarrow> Inl e | None \<Rightarrow> Inr True)))"

definition tryAggregateProofs :: "agg_env \<Rightarrow> Prover \<Rightarrow> (agg_error + bool) agg_prog" where
  "tryAggregateProofs env prover =
     prog_bind getAndLockProofsToAggregate (\<lambda>r. case r of
       Inl e \<Rightarrow> Return (if e = AggNotFound then Inr False else Inl e)
     | Inr (proof1, proof2) \<Rightarrow>
       prog_bind (aggregate_pair env prover proof1 proof2) (\<lambda>r. case r of
         Inl e \<Rightarrow> prog_bind (unlockProofsToAggregate proof1 proof2) (\<lambda>_. Return (Inl e))
       | Inr proof \<Rightarrow> finish_proof env prover proof))"

section \<open>Batch proofs\<close>

text \<open>Three nil results, for a batch that is not profitable, are \<open>Inr None\<close>.\<close>

definition getAndLockBatchToProve :: "agg_env \<Rightarrow> Prover \<Rightarrow> (agg_error + (VBatch \<times> Proof) option) agg_prog" where
  "getAndLockBatchToProve env prover = locked
     (prog_bind (db_query (\<lambda>w s. GetLastVerifiedBatch_pg (a_verified s))) (\<lambda>v. case v of
        Inl e \<Rightarrow> Return (Inl e)
      | Inr lastVerified \<Rightarrow>
        prog_bind (db_query (\<lambda>w s. GetVirtualBatchToProve (a_batches s) (a_virtual s) (a_proofs s) lastVerified)) (\<lambda>r. case r of
          Inl e \<Rightarrow> Return (Inl e)
        | Inr batchToVerify \<Rightarrow>
          if \<not> IsProfitable (ProfitabilityChecker (ae_cfg env)) 0 then Return (Inr None)
          else prog_bind now_step (\<lambda>now.
            (let proof = \<lparr>BatchNumber = vb_BatchNumber batchToVerify, BatchNumberFinal = vb_BatchNumber batchToVerify, pf_Proof = [],
                          pf_InputProver = [], ProofID = None, pf_Prover = Some (pv_name prover), pf_ProverID = Some (pv_id prover),
                          GeneratingSince = Some now, pf_CreatedAt = 0, pf_UpdatedAt = 0\<rparr> in
             prog_bind (db_exec (\<lambda>t. AddGeneratedProof t proof))
               (\<lambda>err. Return (case err of Some e \<Rightarrow> Inl e | None \<Rightarrow> Inr (Some (batchToVerify, proof)))))))))"

definition input_of :: "agg_env \<Rightarrow> VBatch \<Rightarrow> VBatch \<Rightarrow> InputProver" where
  "input_of env previousBatch batchToVerify =
     \<lparr>OldStateRoot = Hash_Bytes (vb_StateRoot previousBatch), OldAccInputHash = Hash_Bytes (vb_AccInputHash previousBatch),
      OldBatchNum = vb_BatchNumber previousBatch, ip_ChainId = ag_ChainID (ae_cfg env), ip_ForkId = ag_ForkId (ae_cfg env),
      ip_BatchL2Data = vb_BatchL2Data batchToVerify, ip_GlobalExitRoot = Hash_Bytes (vb_GlobalExitRoot batchToVerify),
      ip_EthTimestamp = of_int (vb_Timestamp batchToVerify), ip_SequencerAddr = Address_String env (vb_Coinbase batchToVerify),
      ip_AggregatorAddr = ag_SenderAddress (ae_cfg env)\<rparr>"

text \<open>A previous batch that is not found is dereferenced all the same.\<close>

definition buildInputProver :: "agg_env \<Rightarrow> VBatch \<Rightarrow> (agg_error + InputProver) agg_prog" where
  "buildInputProver env batchToVerify =
     prog_bind (db_query (\<lambda>w s. GetBatchByNumber_pg (a_batches s) (vb_BatchNumber batchToVerify - 1))) (\<lambda>r. case r of
       Inl e \<Rightarrow> if e = AggNotFound then Panics else Return (Inl e)
     | Inr previousBatch \<Rightarrow> Return (Inr (input_of env previousBatch batchToVerify)))"

definition prove_batch :: "agg_env \<Rightarrow> VBatch \<Rightarrow> Proof \<Rightarrow> (agg_error + Proof) agg_prog" where
  "prove_batch env batchToProve proof =
     prog_bind (buildInputProver env batchToProve) (\<lambda>r. case r of Inl e \<Rightarrow> Return (Inl e) | Inr inputProver \<Rightarrow>
     (case json_input env inputProver of Inl e \<Rightarrow> Return (Inl (AggJsonError e)) | Inr b \<Rightarrow>
     prog_bind (BatchProof inputProver) (\<lambda>r. case r of Inl e \<Rightarrow> Return (Inl e) | Inr genProofID \<Rightarrow>
     prog_bind (WaitRecursiveProof genProofID) (\<lambda>r. case r of Inl e \<Rightarrow> Return (Inl e) | Inr resGetProof \<Rightarrow>
     Return (Inr (proof\<lparr>pf_InputProver := b, ProofID := Some genProofID, pf_Proof := resGetProof\<rparr>))))))"

definition tryGenerateBatchProof :: "agg_env \<Rightarrow> Prover \<Rightarrow> (agg_error + bool) agg_prog" where
  "tryGenerateBatchProof env prover =
     prog_bind (getAndLockBatchToProve env prover) (\<lambda>r. case r of
       Inl e \<Rightarrow> Return (if e = AggNotFound then Inr False else Inl e)
     | Inr None \<Rightarrow> Panics
     | Inr (Some (batchToProve, proof)) \<Rightarrow>
       prog_bind (prove_batch env batchToProve proof) (\<lambda>r. case r of
         Inl e \<Rightarrow> prog_bind (db_exec (\<lambda>_ rows. Inr (DeleteGeneratedProofs (BatchNumber proof) (BatchNumberFinal proof) rows)))
                    (\<lambda>_. Return (Inl e))
       | Inr proof \<Rightarrow> finish_proof env prover proof))"

section \<open>The goroutines\<close>

text \<open>\<open>Channel\<close>: what happens before its loop, and one turn of the loop.\<close>

definition Channel_start :: "agg_env \<Rightarrow> string option \<Rightarrow> (agg_error + Prover) agg_prog" where
  "Channel_start env addr = prog_bind (prover_New addr) (\<lambda>r. case r of
     Inl e \<Rightarrow> Return (Inl e)
   | Inr prover \<Rightarrow> prog_bind (SupportsForkID (ag_ForkId (ae_cfg env))) (\<lambda>ok.
       Return (if ok then Inr prover else Inl ForkIDNotSupported)))"

definition Channel_turn :: "agg_env \<Rightarrow> Prover \<Rightarrow> unit agg_prog" where
  "Channel_turn env prover =
     prog_bind (ask (\<lambda>w s. w_done w \<or> w_gone w)) (\<lambda>over. if over then Return () else
     prog_bind IsIdle (\<lambda>idle. if idle \<noteq> Inr True then Return () else
     prog_bind (tryBuildFinalProof env prover None) (\<lambda>_.
     prog_bind (tryAggregateProofs env prover) (\<lambda>r. if r = Inr True then Return () else
     prog_bind (tryGenerateBatchProof env prover) (\<lambda>_. Return ())))))"

text \<open>\<open>strings.Split\<close>, and a number that is read with its error only logged: what \<open>ParseUint\<close> returns with an error is used.\<close>

fun split_at :: "char \<Rightarrow> string \<Rightarrow> string list" where
  "split_at c [] = [[]]"
| "split_at c (x # xs) = (if x = c then [] # split_at c xs else
     (case split_at c xs of [] \<Rightarrow> [[x]] | y # ys \<Rightarrow> (x # y) # ys))"

definition parsed_or :: "num_error + u64 \<Rightarrow> u64" where
  "parsed_or r = (case r of Inr n \<Rightarrow> n | Inl ErrSyntax \<Rightarrow> 0 | Inl ErrRange \<Rightarrow> - 1)"

definition handleMonitoredTxResult :: "MonitoredTxResult \<Rightarrow> unit agg_prog" where
  "handleMonitoredTxResult result =
     (let idSlice = split_at (CHR ''-'') (re_ID result) in
      if re_Status result = MonitoredTxStatusFailed \<or> length idSlice \<le> 4 then Panics
      else (let proofBatchNumberFinal = parsed_or (ParseUint (idSlice ! 4) 10) in
        prog_bind (wait_synced (Some proofBatchNumberFinal)) (\<lambda>_.
        prog_bind (db_exec (\<lambda>_ rows. Inr (CleanupGeneratedProofs proofBatchNumberFinal rows))) (\<lambda>_. Return ()))))"

fun handle_all :: "MonitoredTxResult list \<Rightarrow> unit agg_prog" where
  "handle_all [] = Return ()"
| "handle_all (r # rs) = prog_bind (handleMonitoredTxResult r) (\<lambda>_. handle_all rs)"

text \<open>\<open>ProcessPendingMonitoredTxs\<close> hands the results of the transaction manager to the handler, one after the other.\<close>

definition process_pending :: "unit agg_prog" where
  "process_pending = prog_bind (ask (\<lambda>w s. w_results w)) handle_all"

definition handleFailureToAddVerifyBatchToBeMonitored :: "Proof \<Rightarrow> unit agg_prog" where
  "handleFailureToAddVerifyBatchToBeMonitored proof = prog_bind (unlock_proof proof) (\<lambda>_. endProofVerification)"

definition receive_msg :: "finalProofMsg option agg_prog" where
  "receive_msg = prog_bind (act (\<lambda>w s. ((), s\<lparr>a_receiving := True\<rparr>))) (\<lambda>_. await (\<lambda>w s. case a_finalProof s of
     Some msg \<Rightarrow> Some (Some msg, s\<lparr>a_finalProof := None\<rparr>)
   | None \<Rightarrow> if w_done w then Some (None, s\<lparr>a_receiving := False\<rparr>) else None))"

definition final_inputs :: "FinalProof \<Rightarrow> VBatch \<Rightarrow> FinalProofInputs" where
  "final_inputs f finalBatch = \<lparr>fi_FinalProof = f, fi_NewLocalExitRoot = Hash_Bytes (vb_LocalExitRoot finalBatch),
     fi_NewStateRoot = Hash_Bytes (vb_StateRoot finalBatch)\<rparr>"

text \<open>The call of \<open>EthTxManager.Add\<close>, on the table of the transaction manager.\<close>

definition add_monitored :: "agg_env \<Rightarrow> string \<Rightarrow> address option \<Rightarrow> bytes \<Rightarrow> client_error option agg_prog" where
  "add_monitored env monitoredTxID to' data = act (\<lambda>w s.
     case client_Add (ae_etm env) (w_net w) aggregatorOwner monitoredTxID (HexToAddress env (ag_SenderAddress (ae_cfg env))) to' None
            (Some data) (ag_GasOffset (ae_cfg env)) (w_now w) (a_mtx s) of
       Inl e \<Rightarrow> (Some e, s)
     | Inr rows \<Rightarrow> (None, s\<lparr>a_mtx := rows\<rparr>))"

definition sendFinalProof_turn :: "agg_env \<Rightarrow> unit agg_prog" where
  "sendFinalProof_turn env = prog_bind receive_msg (\<lambda>m. case m of
     None \<Rightarrow> Return ()
   | Some msg \<Rightarrow>
     (let proof = recursiveProof msg in
      prog_bind startProofVerification (\<lambda>_.
      prog_bind (db_query (\<lambda>w s. GetBatchByNumber_pg (a_batches s) (BatchNumberFinal proof))) (\<lambda>r. case r of
        Inl _ \<Rightarrow> endProofVerification
      | Inr finalBatch \<Rightarrow>
        prog_bind (ask (\<lambda>w s. w_build w)) (\<lambda>err. case err of
          Some _ \<Rightarrow> handleFailureToAddVerifyBatchToBeMonitored proof
        | None \<Rightarrow>
          (let (to', data) = BuildTrustedVerifyBatchesTxData env (BatchNumber proof - 1) (BatchNumberFinal proof)
                               (final_inputs (finalProof msg) finalBatch)
           in prog_bind (add_monitored env (buildMonitoredTxID (BatchNumber proof) (BatchNumberFinal proof)) to' data) (\<lambda>err. case err of
                Some _ \<Rightarrow> handleFailureToAddVerifyBatchToBeMonitored proof
              | None \<Rightarrow> prog_bind process_pending (\<lambda>_. prog_bind (resetVerifyProofTime env) (\<lambda>_. endProofVerification)))))))))"

definition cleanupLockedProofs_turn :: "agg_env \<Rightarrow> unit agg_prog" where
  "cleanupLockedProofs_turn env =
     prog_bind (ask (\<lambda>w s. w_done w)) (\<lambda>over. if over then Return ()
     else if GeneratingProofCleanupThreshold (ae_cfg env) = [] then Panics
     else act (\<lambda>w s. case w_db w of
        Some _ \<Rightarrow> ((), s)
      | None \<Rightarrow> (case CleanupLockedProofs (w_now_minus w) (GeneratingProofCleanupThreshold (ae_cfg env)) (a_proofs s) of
          None \<Rightarrow> ((), s)
        | Some (_, rows) \<Rightarrow> ((), s\<lparr>a_proofs := rows\<rparr>))))"

text \<open>What \<open>Start\<close> does before it serves and starts the two goroutines.\<close>

definition Start_init :: "agg_env \<Rightarrow> agg_error option agg_prog" where
  "Start_init env =
     prog_bind process_pending (\<lambda>_.
     prog_bind (db_exec (\<lambda>_ rows. Inr (DeleteUngeneratedProofs rows))) (\<lambda>err. case err of
       Some e \<Rightarrow> Return (Some e)
     | None \<Rightarrow> prog_bind (resetVerifyProofTime env) (\<lambda>_. Return None)))"

definition agg_threads :: "agg_env \<Rightarrow> Prover list \<Rightarrow> unit agg_prog list" where
  "agg_threads env provers = sendFinalProof_turn env # cleanupLockedProofs_turn env # map (Channel_turn env) provers"

end
