(* ===== verification/AggregatorRuns.thy ===== *)
theory AggregatorRuns
  imports Aggregator
begin

text \<open>
  The invariant of the aggregator, kept by every step of its goroutines, in any order of their steps and with any errors of the
  database, of the provers and of the network: a proof in the table that nobody works on attests the batches of its range, a final proof on
  its way to the sender attests the batches of its message, and so does what the transaction manager was given. Every program is taken through the
  rules of \<open>Threads\<close>; the interpretation at the end makes the invariant one of all runs.
\<close>

section \<open>The batches that a proof covers\<close>

text \<open>
  The batches of the chain are given by a function \<open>B\<close>: the state may know more and more of them, but a batch once there does
  not change.
\<close>

definition inputs_of :: "agg_env \<Rightarrow> (nat \<Rightarrow> VBatch option) \<Rightarrow> nat \<Rightarrow> nat \<Rightarrow> InputProver list" where
  "inputs_of env B a c = map (\<lambda>n. input_of env (the (B (n - 1))) (the (B n))) [a..<c + 1]"

definition covers :: "agg_env \<Rightarrow> (nat \<Rightarrow> VBatch option) \<Rightarrow> u64 \<Rightarrow> u64 \<Rightarrow> InputProver list \<Rightarrow> bool" where
  "covers env B a c l \<longleftrightarrow> l = inputs_of env B (unat a) (unat c) \<and> (\<forall>n \<in> {unat a - 1..unat c}. B n \<noteq> None)"

definition range_ok :: "Proof \<Rightarrow> bool" where
  "range_ok p \<longleftrightarrow> 0 < BatchNumber p \<and> BatchNumber p \<le> BatchNumberFinal p"

definition sound :: "prover_meaning \<Rightarrow> agg_env \<Rightarrow> (nat \<Rightarrow> VBatch option) \<Rightarrow> Proof \<Rightarrow> bool" where
  "sound M env B p \<longleftrightarrow> range_ok p \<and> (\<exists>l. attests M (pf_Proof p) l \<and> covers env B (BatchNumber p) (BatchNumberFinal p) l)"

definition row_ok :: "prover_meaning \<Rightarrow> agg_env \<Rightarrow> (nat \<Rightarrow> VBatch option) \<Rightarrow> Proof \<Rightarrow> bool" where
  "row_ok M env B p \<longleftrightarrow> range_ok p \<and> (GeneratingSince p = None \<longrightarrow> sound M env B p)"

definition final_sound :: "prover_meaning \<Rightarrow> agg_env \<Rightarrow> (nat \<Rightarrow> VBatch option) \<Rightarrow> Proof \<Rightarrow> FinalProof \<Rightarrow> bool" where
  "final_sound M env B p f \<longleftrightarrow> sound M env B p \<and>
     (\<exists>l. final_attests M (fp_Proof f) l \<and> covers env B (BatchNumber p) (BatchNumberFinal p) l)"

text \<open>A transaction for the contract: its data are made of a final proof of the batches in its name, and of the roots of the last.\<close>

definition sent_ok :: "prover_meaning \<Rightarrow> agg_env \<Rightarrow> (nat \<Rightarrow> VBatch option) \<Rightarrow> Row \<Rightarrow> bool" where
  "sent_ok M env B r \<longleftrightarrow> (\<exists>a c f l b. 0 < a \<and> a \<le> c \<and> r_id r = buildMonitoredTxID a c \<and>
     final_attests M (fp_Proof f) l \<and> covers env B a c l \<and> B (unat c) = Some b \<and>
     (r_to r, r_data r) = map_prod id (\<lambda>d. Some (EncodeToString d)) (BuildTrustedVerifyBatchesTxData env (a - 1) c (final_inputs f b)))"

definition agg_inv :: "prover_meaning \<Rightarrow> agg_env \<Rightarrow> (nat \<Rightarrow> VBatch option) \<Rightarrow> agg \<Rightarrow> bool" where
  "agg_inv M env B s \<longleftrightarrow>
     (\<forall>p \<in> set (a_proofs s). row_ok M env B p) \<and>
     (\<forall>b \<in> set (a_batches s). B (unat (vb_BatchNumber b)) = Some b) \<and>
     (\<forall>m. a_finalProof s = Some m \<longrightarrow> final_sound M env B (recursiveProof m) (finalProof m)) \<and>
     (\<forall>r \<in> set (a_mtx s). r_owner r = aggregatorOwner \<longrightarrow> sent_ok M env B r)"

definition world_ok :: "prover_meaning \<Rightarrow> world \<Rightarrow> bool" where
  "world_ok M w \<longleftrightarrow> honest M w \<and> (\<forall>xs. set (w_order w xs) = set xs)"

text \<open>
  The synchronizer adds batches of the chain, virtual and verified batches and sequences, and may remove proofs; the
  transaction manager changes the state of its transactions but not what they are.
\<close>

definition what_is_sent :: "Row \<Rightarrow> string \<times> string \<times> address option \<times> string option" where
  "what_is_sent r = (r_owner r, r_id r, r_to r, r_data r)"

definition outside_ok :: "(nat \<Rightarrow> VBatch option) \<Rightarrow> (agg \<Rightarrow> agg) \<Rightarrow> bool" where
  "outside_ok B g \<longleftrightarrow> (\<forall>s. set (a_proofs (g s)) \<subseteq> set (a_proofs s) \<and> a_finalProof (g s) = a_finalProof s \<and>
     (\<forall>b \<in> set (a_batches (g s)). b \<in> set (a_batches s) \<or> B (unat (vb_BatchNumber b)) = Some b) \<and>
     (\<forall>r \<in> set (a_mtx (g s)). r_owner r = aggregatorOwner \<longrightarrow> what_is_sent r \<in> what_is_sent ` set (a_mtx s)))"

abbreviation safe :: "prover_meaning \<Rightarrow> agg_env \<Rightarrow> (nat \<Rightarrow> VBatch option) \<Rightarrow> ('a \<Rightarrow> bool) \<Rightarrow> 'a agg_prog \<Rightarrow> bool" where
  "safe M env B Q p \<equiv> maintains (world_ok M) (agg_inv M env B) Q p"

section \<open>Covering\<close>

lemma covers_append:
  assumes "covers env B a m l1" "covers env B n c l2" "a \<le> m" "unat n = unat m + 1" "n \<le> c"
  shows "covers env B a c (l1 @ l2)"
proof -
  have o: "unat a \<le> unat m + 1" "unat m + 1 \<le> unat c + 1" using assms(3-5) by (auto simp: word_le_nat_alt)
  have "inputs_of env B (unat a) (unat c) = inputs_of env B (unat a) (unat m) @ inputs_of env B (unat n) (unat c)"
    unfolding inputs_of_def assms(4) map_append [symmetric] using upt_add_eq_append [OF o(1), of "unat c - unat m"] o(2) by simp
  moreover have "k \<in> {unat a - 1..unat c} \<Longrightarrow> k \<in> {unat a - 1..unat m} \<or> k \<in> {unat n - 1..unat c}" for k using assms(4) by auto
  ultimately show ?thesis using assms(1,2) unfolding covers_def by (metis (no_types, lifting))
qed

lemma covers_one:
  assumes "B (unat a - 1) = Some p" "B (unat a) = Some b" "0 < a"
  shows "covers env B a a [input_of env p b]"
proof -
  have "B k \<noteq> None" if "k \<in> {unat a - 1..unat a}" for k
  proof -
    from that have "k = unat a - 1 \<or> k = unat a" by auto
    then show ?thesis using assms by auto
  qed
  then show ?thesis using assms by (simp add: covers_def inputs_of_def)
qed

lemma ok_simps [simp]:
  "range_ok (p\<lparr>pf_CreatedAt := x\<rparr>) = range_ok p" "range_ok (p\<lparr>pf_UpdatedAt := x\<rparr>) = range_ok p"
  "range_ok (p\<lparr>GeneratingSince := g\<rparr>) = range_ok p" "range_ok (p\<lparr>ProofID := i\<rparr>) = range_ok p"
  "sound M env B (p\<lparr>pf_CreatedAt := x\<rparr>) = sound M env B p" "sound M env B (p\<lparr>pf_UpdatedAt := x\<rparr>) = sound M env B p"
  "sound M env B (p\<lparr>GeneratingSince := g\<rparr>) = sound M env B p" "sound M env B (p\<lparr>ProofID := i\<rparr>) = sound M env B p"
  "row_ok M env B (p\<lparr>pf_CreatedAt := x\<rparr>) = row_ok M env B p" "row_ok M env B (p\<lparr>pf_UpdatedAt := x\<rparr>) = row_ok M env B p"
  by (simp_all add: range_ok_def sound_def row_ok_def)

lemma sound_row: "sound M env B p \<Longrightarrow> row_ok M env B p" "sound M env B p \<Longrightarrow> range_ok p"
  by (simp_all add: row_ok_def sound_def)

lemma inv_row: "agg_inv M env B s \<Longrightarrow> p \<in> set (a_proofs s) \<Longrightarrow> row_ok M env B p"
  by (simp add: agg_inv_def)

lemma inv_batch: "agg_inv M env B s \<Longrightarrow> GetBatchByNumber_pg (a_batches s) n = Inr b \<Longrightarrow> B (unat n) = Some b"
  by (auto simp: agg_inv_def dest!: GetBatchByNumber_pg_number)

section \<open>The steps\<close>

definition rows_ok :: "prover_meaning \<Rightarrow> agg_env \<Rightarrow> (nat \<Rightarrow> VBatch option) \<Rightarrow> Proof list \<Rightarrow> bool" where
  "rows_ok M env B rows \<longleftrightarrow> (\<forall>p \<in> set rows. row_ok M env B p)"

definition stmt_ok :: "prover_meaning \<Rightarrow> agg_env \<Rightarrow> (nat \<Rightarrow> VBatch option) \<Rightarrow> tx_stmt \<Rightarrow> bool" where
  "stmt_ok M env B st \<longleftrightarrow> (\<forall>rows rows'. rows_ok M env B rows \<longrightarrow> st rows = Inr rows' \<longrightarrow> rows_ok M env B rows')"

lemma stmt_ok_delete: "stmt_ok M env B (\<lambda>rows. Inr (DeleteGeneratedProofs a c rows))"
  "stmt_ok M env B (\<lambda>rows. Inr (CleanupGeneratedProofs a rows))" "stmt_ok M env B (\<lambda>rows. Inr (DeleteUngeneratedProofs rows))"
  by (auto simp: stmt_ok_def rows_ok_def DeleteGeneratedProofs_def CleanupGeneratedProofs_def DeleteUngeneratedProofs_def)

lemma stmt_ok_update: "row_ok M env B p \<Longrightarrow> stmt_ok M env B (\<lambda>rows. Inr (UpdateGeneratedProof t p rows))"
  by (auto simp: stmt_ok_def rows_ok_def dest!: UpdateGeneratedProof_set)

lemma stmt_ok_add: "row_ok M env B p \<Longrightarrow> stmt_ok M env B (AddGeneratedProof t p)"
  unfolding stmt_ok_def rows_ok_def by (auto dest!: AddGeneratedProof_set)

lemma stmt_ok_apply: "(\<And>st. st \<in> set sts \<Longrightarrow> stmt_ok M env B st) \<Longrightarrow> stmt_ok M env B (apply_stmts sts)"
proof (induction sts)
  case (Cons st sts)
  have st: "stmt_ok M env B st" and "stmt_ok M env B (apply_stmts sts)" using Cons by auto
  moreover have "apply_stmts (st # sts) rows = Inr rows' \<Longrightarrow> \<exists>r. st rows = Inr r \<and> apply_stmts sts r = Inr rows'" for rows rows'
    by (auto split: sum.split_asm)
  ultimately show ?case unfolding stmt_ok_def by blast
qed (simp add: stmt_ok_def)

lemmas stmts_ok = stmt_ok_delete stmt_ok_update stmt_ok_add

lemma safe_query:
  assumes "\<And>w s v. world_ok M w \<Longrightarrow> agg_inv M env B s \<Longrightarrow> q w s = Inr v \<Longrightarrow> Q (Inr v)" "\<And>e. Q (Inl e)"
  shows "safe M env B Q (db_query q)"
  unfolding db_query_def
proof (rule maintains_ask)
  fix w s assume "world_ok M w" "agg_inv M env B s"
  then show "Q (case w_db w of Some e \<Rightarrow> Inl (AggDbError e) | None \<Rightarrow> q w s)"
    using assms by (cases "w_db w"; cases "q w s") auto
qed

lemma safe_exec:
  assumes "\<And>t. stmt_ok M env B (f t)"
  shows "safe M env B (\<lambda>_. True) (db_exec f)"
  unfolding db_exec_def
proof (rule maintains_act)
  fix w s assume i: "agg_inv M env B s"
  show "agg_inv M env B (snd (case w_db w of Some e \<Rightarrow> (Some (AggDbError e), s)
      | None \<Rightarrow> (case f (w_now w) (a_proofs s) of Inl e \<Rightarrow> (Some e, s) | Inr rows \<Rightarrow> (None, s\<lparr>a_proofs := rows\<rparr>)))) \<and> True"
    using i assms [of "w_now w"] by (cases "w_db w"; cases "f (w_now w) (a_proofs s)") (auto simp: agg_inv_def stmt_ok_def rows_ok_def)
qed

lemma safe_ask: "(\<And>w s. Q (f w s)) \<Longrightarrow> safe M env B Q (ask f)"
  by (rule maintains_ask)

lemma safe_control: "safe M env B (\<lambda>_. True) tx_control" "safe M env B (\<lambda>_. True) now_step" "safe M env B (\<lambda>_. True) canVerifyProof"
  by (simp_all add: tx_control_def now_step_def canVerifyProof_def safe_ask)

lemma safe_tx_exec: "safe M env B (\<lambda>r. \<forall>st. r = Inr st \<longrightarrow> (\<exists>t. st = f t)) (tx_exec f)"
  unfolding tx_exec_def by (rule safe_query) auto

lemma safe_commit: "(\<And>st. st \<in> set sts \<Longrightarrow> stmt_ok M env B st) \<Longrightarrow> safe M env B (\<lambda>_. True) (tx_commit sts)"
  unfolding tx_commit_def by (intro safe_exec stmt_ok_apply)

lemma safe_rollback: "(\<And>e. Q (Inl e)) \<Longrightarrow> safe M env B Q (rollback_with e)"
  unfolding rollback_with_def by (rule maintains_bind [OF safe_control(1)]) auto

lemma safe_fields:
  "safe M env B (\<lambda>_. True) mutex_lock" "safe M env B (\<lambda>_. True) mutex_unlock" "safe M env B (\<lambda>_. True) startProofVerification"
  "safe M env B (\<lambda>_. True) endProofVerification" "safe M env B (\<lambda>_. True) (resetVerifyProofTime env')" "safe M env B (\<lambda>_. True) (wait_synced n)"
  unfolding mutex_lock_def mutex_unlock_def startProofVerification_def endProofVerification_def resetVerifyProofTime_def wait_synced_def
  by (rule maintains_act maintains_await; auto simp: agg_inv_def split: if_split_asm)+

lemma safe_locked: "safe M env B Q p \<Longrightarrow> safe M env B Q (locked p)"
  unfolding locked_def by (rule maintains_bind [OF safe_fields(1)], erule maintains_bind, rule maintains_bind [OF safe_fields(2)]) auto

lemma safe_then: "safe M env B P p \<Longrightarrow> (\<And>a. safe M env B Q (k a)) \<Longrightarrow> safe M env B Q (prog_bind p k)"
  by (rule maintains_bind)

text \<open>The error of a call is returned at once; the rest of a program goes on with the value.\<close>

lemma safe_case:
  assumes "safe M env B (\<lambda>r. \<forall>v. r = Inr v \<longrightarrow> P v) p" "\<And>e. safe M env B Q (kl e)" "\<And>v. P v \<Longrightarrow> safe M env B Q (kr v)"
  shows "safe M env B Q (prog_bind p (\<lambda>r. case r of Inl e \<Rightarrow> kl e | Inr v \<Rightarrow> kr v))"
  by (rule maintains_bind [OF assms(1)]) (use assms(2,3) in \<open>auto split: sum.split\<close>)

lemma safe_option:
  assumes "safe M env B P p" "\<And>e. safe M env B Q (ks e)" "safe M env B Q kn"
  shows "safe M env B Q (prog_bind p (\<lambda>r. case r of Some e \<Rightarrow> ks e | None \<Rightarrow> kn))"
  by (rule maintains_bind [OF assms(1)]) (use assms(2,3) in \<open>auto split: option.split\<close>)

lemma safe_case_query:
  assumes "\<And>w s v. world_ok M w \<Longrightarrow> agg_inv M env B s \<Longrightarrow> q w s = Inr v \<Longrightarrow> P v"
    "\<And>e. safe M env B Q (kl e)" "\<And>v. P v \<Longrightarrow> safe M env B Q (kr v)"
  shows "safe M env B Q (prog_bind (db_query q) (\<lambda>r. case r of Inl e \<Rightarrow> kl e | Inr v \<Rightarrow> kr v))"
  by (rule safe_case [OF safe_query]) (use assms in auto)

lemma safe_if: "safe M env B Q p \<Longrightarrow> safe M env B Q q \<Longrightarrow> safe M env B Q (if c then p else q)"
  by simp

lemma safe_Return: "Q a \<Longrightarrow> safe M env B Q (Return a)"
  by simp

lemma world_ok_honest: "world_ok M w \<Longrightarrow> honest M w"
  by (simp add: world_ok_def)

lemma safe_prover:
  "safe M env B (\<lambda>r. \<forall>i. r = Inr i \<longrightarrow> job M i = BatchJob inp) (BatchProof inp)"
  "safe M env B (\<lambda>r. \<forall>i. r = Inr i \<longrightarrow> job M i = AggregatedJob a b) (AggregatedProof a b)"
  "safe M env B (\<lambda>r. \<forall>i. r = Inr i \<longrightarrow> job M i = FinalJob a b) (FinalProof_call a b)"
  "safe M env B (\<lambda>r. \<forall>s. r = Inr s \<longrightarrow> answers M (job M i) s) (WaitRecursiveProof i)"
  "safe M env B (\<lambda>r. \<forall>f. r = Inr f \<longrightarrow> final_answers M (job M i) f) (WaitFinalProof i)"
  by (intro prog_maintains; simp add: world_ok_honest)+

section \<open>The final proof\<close>

lemma safe_buildFinalProof:
  assumes "sound M env B p"
  shows "safe M env B (\<lambda>x. sound M env B (snd x) \<and> (\<forall>f. fst x = Inr f \<longrightarrow> final_sound M env B (snd x) f)) (buildFinalProof env p)"
    (is "safe M env B ?Q _")
proof -
  from assms obtain l where l: "attests M (pf_Proof p) l" "covers env B (BatchNumber p) (BatchNumberFinal p) l" by (auto simp: sound_def)
  have fin: "final_sound M env B (p\<lparr>ProofID := i\<rparr>) (f\<lparr>fp_Public := x\<rparr>)" "final_sound M env B (p\<lparr>ProofID := i\<rparr>) f"
    if "final_answers M (FinalJob (pf_Proof p) addr) f" for f i x addr
    using that l assms by (auto simp: final_sound_def final_answers_def)
  show ?thesis
    unfolding buildFinalProof_def Let_def
    apply (rule if_split [THEN iffD2], intro conjI impI)
     apply simp
    apply (rule safe_case [OF safe_prover(3)])
     apply (simp add: assms)
    apply (rule safe_case [OF safe_prover(5)])
     apply (simp add: assms)
    apply (auto split: option.split intro!: safe_then [OF safe_query [where Q = "\<lambda>_. True"]] simp: fin assms split: sum.split)
    done
qed

lemma safe_unlock: "sound M env B p \<Longrightarrow> safe M env B (\<lambda>_. True) (unlock_proof p)"
  unfolding unlock_proof_def by (intro safe_exec stmts_ok) (simp add: sound_row)

lemma safe_send: "final_sound M env B (recursiveProof m) (finalProof m) \<Longrightarrow> safe M env B (\<lambda>_. True) (send_msg m)"
  unfolding send_msg_def by (rule maintains_await) (auto simp: agg_inv_def split: if_split_asm)

lemma safe_validate: "safe M env B (\<lambda>_. True) (validateEligibleFinalProof p n)"
proof -
  have c: "safe M env B (\<lambda>_. True) (db_query (\<lambda>w s. Inr (CheckProofContainsCompleteSequences (a_sequences s) p)))" by (rule safe_query) auto
  have d: "safe M env B (\<lambda>_. True) (prog_bind (db_exec (\<lambda>_ rows. Inr (DeleteGeneratedProofs (BatchNumber p) (BatchNumberFinal p) rows)))
      (\<lambda>err. Return (case err of Some e \<Rightarrow> Inl e | None \<Rightarrow> Inr False)))"
    by (rule safe_then [OF safe_exec]) (simp_all add: stmts_ok)
  show ?thesis unfolding validateEligibleFinalProof_def Let_def by (simp add: c d)
qed

lemma safe_getReady: "safe M env B (\<lambda>r. \<forall>p. r = Inr p \<longrightarrow> sound M env B p) (getAndLockProofReadyToVerify n)"
  unfolding getAndLockProofReadyToVerify_def Let_def
proof (rule safe_locked, rule safe_case_query [where P = "sound M env B"])
  fix w s p assume w: "world_ok M w" "agg_inv M env B s" "GetProofReadyToVerify (w_order w) (a_sequences s) n (a_proofs s) = Inr p"
  have "\<And>xs. set (w_order w xs) = set xs" using w(1) by (simp add: world_ok_def)
  note r = ready_is_next [OF w(3) this]
  from inv_row [OF w(2) r(1)] r(3) show "sound M env B p" by (simp add: row_ok_def)
next
  fix p assume p: "sound M env B p"
  show "safe M env B (\<lambda>r. \<forall>p. r = Inr p \<longrightarrow> sound M env B p) (prog_bind now_step (\<lambda>now.
      prog_bind (db_exec (\<lambda>t rows. Inr (UpdateGeneratedProof t (p\<lparr>GeneratingSince := Some now\<rparr>) rows)))
        (\<lambda>err. Return (case err of Some e \<Rightarrow> Inl e | None \<Rightarrow> Inr (p\<lparr>GeneratingSince := Some now\<rparr>)))))"
    by (intro safe_then [OF safe_control(2)] safe_then [OF safe_exec] safe_Return)
      (use p in \<open>auto intro: stmts_ok simp: sound_row split: option.split\<close>)
qed auto

lemma safe_build_and_send:
  assumes "sound M env B p"
  shows "safe M env B (\<lambda>x. sound M env B (snd x)) (build_and_send env prover own p)"
proof -
  have k: "safe M env B (\<lambda>x. sound M env B (snd x)) (case x of (r, proof) \<Rightarrow> (case r of
        Inl e \<Rightarrow> prog_bind (if own then unlock_proof proof else Return None) (\<lambda>_. Return (Inl e, proof))
      | Inr f \<Rightarrow>
          prog_bind (send_msg \<lparr>fm_proverName = pv_name prover, fm_proverID = pv_id prover, recursiveProof = proof, finalProof = f\<rparr>)
            (\<lambda>sent. Return (if sent then Inr True else Inl AggContextDone, proof))))"
    if x: "sound M env B (snd x) \<and> (\<forall>f. fst x = Inr f \<longrightarrow> final_sound M env B (snd x) f)" for x
  proof -
    obtain r q where q: "x = (r, q)" by (cases x)
    then have sq: "sound M env B q" using x assms by auto
    show ?thesis
    proof (cases r)
      case (Inl e)
      then show ?thesis using q sq safe_unlock [OF sq] by (auto intro: safe_then)
    next
      case (Inr f)
      then show ?thesis using q x sq by (auto intro!: safe_then [OF safe_send])
    qed
  qed
  show ?thesis
    unfolding build_and_send_def using maintains_bind [OF safe_buildFinalProof [OF assms] k] by simp
qed

lemma safe_tryBuildFinalProof:
  assumes "\<And>p. po = Some p \<Longrightarrow> sound M env B p"
  shows "safe M env B (\<lambda>x. \<forall>p. snd x = Some p \<longrightarrow> sound M env B p) (tryBuildFinalProof env prover po)" (is "safe M env B ?Q _")
proof -
  have b: "safe M env B ?Q (prog_bind (build_and_send env prover own p) (\<lambda>(r, p). Return (r, Some p)))" if "sound M env B p" for own p
    by (rule maintains_bind [OF safe_build_and_send [OF that]]) auto
  have none: "safe M env B ?Q (prog_bind (getAndLockProofReadyToVerify n) (\<lambda>r. case r of
      Inl e \<Rightarrow> Return (if e = AggNotFound then Inr False else Inl e, None)
    | Inr p \<Rightarrow> prog_bind (build_and_send env prover True p) (\<lambda>(r, p). Return (r, Some p))))" for n
    by (rule safe_case [OF safe_getReady]) (simp_all add: b)
  have some: "safe M env B ?Q (prog_bind (validateEligibleFinalProof p n) (\<lambda>r. case r of
      Inl e \<Rightarrow> Return (Inl e, Some p)
    | Inr eligible \<Rightarrow> if \<not> eligible then Return (Inr False, Some p)
        else prog_bind (build_and_send env prover False p) (\<lambda>(r, p). Return (r, Some p))))" if "sound M env B p" for p n
    by (rule safe_case [OF maintains_mono [OF safe_validate]]) (use that in \<open>auto simp: b\<close>)
  show ?thesis
    unfolding tryBuildFinalProof_def
    apply (rule safe_then [OF safe_control(3)])
    apply (rule if_split [THEN iffD2], intro conjI impI)
     apply (simp add: assms)
    apply (rule safe_then [OF safe_fields(6)])
    apply (rule safe_then [OF safe_query [where Q = "\<lambda>_. True"]])
    using assms none some by (auto split: sum.split option.split)
qed

section \<open>Generating proofs\<close>

lemma safe_update_pair:
  assumes "sound M env B p1" "sound M env B p2"
  shows "safe M env B (\<lambda>r. \<forall>q. r = Inr q \<longrightarrow> (\<exists>t. q = (p1\<lparr>GeneratingSince := t\<rparr>, p2\<lparr>GeneratingSince := t\<rparr>))) (update_pair since p1 p2)"
  unfolding update_pair_def Let_def
proof (rule safe_option [OF safe_control(1)], simp, rule safe_then [OF safe_ask [where Q = "\<lambda>_. True"]], simp)
  fix t
  let ?Q = "\<lambda>r. \<forall>q. r = Inr q \<longrightarrow> (\<exists>t. q = (p1\<lparr>GeneratingSince := t\<rparr>, p2\<lparr>GeneratingSince := t\<rparr>))"
  have u: "stmt_ok M env B (\<lambda>rows. Inr (UpdateGeneratedProof now (p1\<lparr>GeneratingSince := t\<rparr>) rows))"
    "stmt_ok M env B (\<lambda>rows. Inr (UpdateGeneratedProof now (p2\<lparr>GeneratingSince := t\<rparr>) rows))" for now
    using assms by (auto intro!: stmts_ok simp: sound_row)
  have "safe M env B ?Q (prog_bind (tx_commit [st1, st2]) (\<lambda>c. Return (case c of Some e \<Rightarrow> Inl e
      | None \<Rightarrow> Inr (p1\<lparr>GeneratingSince := t\<rparr>, p2\<lparr>GeneratingSince := t\<rparr>))))"
    if "stmt_ok M env B st1" "stmt_ok M env B st2" for st1 st2
    by (rule safe_then [OF safe_commit]) (use that in \<open>auto split: option.split\<close>)
  then show "safe M env B ?Q (prog_bind (tx_exec (\<lambda>now rows. Inr (UpdateGeneratedProof now (p1\<lparr>GeneratingSince := t\<rparr>) rows)))
     (\<lambda>r1. case r1 of Inl e \<Rightarrow> rollback_with e | Inr st1 \<Rightarrow>
      prog_bind (tx_exec (\<lambda>now rows. Inr (UpdateGeneratedProof now (p2\<lparr>GeneratingSince := t\<rparr>) rows)))
       (\<lambda>r2. case r2 of Inl e \<Rightarrow> rollback_with e | Inr st2 \<Rightarrow>
        prog_bind (tx_commit [st1, st2]) (\<lambda>c. Return (case c of Some e \<Rightarrow> Inl e
          | None \<Rightarrow> Inr (p1\<lparr>GeneratingSince := t\<rparr>, p2\<lparr>GeneratingSince := t\<rparr>))))))"
    by (intro safe_case [OF safe_tx_exec] safe_rollback) (use u in auto)
qed

lemma aggregable_next:
  assumes "aggregable sequences p1 p2"
  shows "unat (BatchNumber p2) = unat (BatchNumberFinal p1) + 1" "GeneratingSince p1 = None" "GeneratingSince p2 = None"
proof -
  show "unat (BatchNumber p2) = unat (BatchNumberFinal p1) + 1" using assms unfolding aggregable_def by (elim conjE) linarith
  show "GeneratingSince p1 = None" "GeneratingSince p2 = None" using assms unfolding aggregable_def by blast+
qed

lemma safe_getPair:
  "safe M env B (\<lambda>r. \<forall>q. r = Inr q \<longrightarrow> sound M env B (fst q) \<and> sound M env B (snd q) \<and>
     unat (BatchNumber (snd q)) = unat (BatchNumberFinal (fst q)) + 1) getAndLockProofsToAggregate"
  (is "safe M env B ?Q _")
  unfolding getAndLockProofsToAggregate_def
proof (rule safe_locked, rule safe_case_query [where P = "\<lambda>q. sound M env B (fst q) \<and> sound M env B (snd q) \<and>
     unat (BatchNumber (snd q)) = unat (BatchNumberFinal (fst q)) + 1"])
  fix w s q assume w: "world_ok M w" "agg_inv M env B s" "GetProofsToAggregate (w_order w) (a_sequences s) (a_proofs s) = Inr q"
  have "\<And>xs. set (w_order w xs) = set xs" using w(1) by (simp add: world_ok_def)
  note r = pair_is_aggregable [of _ _ _ "fst q" "snd q", OF _ this] w(3)
  then have "row_ok M env B (fst q)" "row_ok M env B (snd q)" "aggregable (a_sequences s) (fst q) (snd q)"
    using inv_row [OF w(2)] by auto
  then show "sound M env B (fst q) \<and> sound M env B (snd q) \<and> unat (BatchNumber (snd q)) = unat (BatchNumberFinal (fst q)) + 1"
    using aggregable_next [of "a_sequences s" "fst q" "snd q"] by (simp add: row_ok_def)
next
  fix q assume q: "sound M env B (fst q) \<and> sound M env B (snd q) \<and> unat (BatchNumber (snd q)) = unat (BatchNumberFinal (fst q)) + 1"
  show "safe M env B ?Q (case q of (p1, p2) \<Rightarrow> update_pair (\<lambda>w. Some (w_now w)) p1 p2)"
  proof (cases q)
    case (Pair p1 p2)
    show ?thesis
      unfolding Pair prod.case by (rule maintains_mono [OF safe_update_pair]) (use q Pair in auto)
  qed
qed simp

lemma safe_unlockPair: "sound M env B p1 \<Longrightarrow> sound M env B p2 \<Longrightarrow> safe M env B (\<lambda>_. True) (unlockProofsToAggregate p1 p2)"
  unfolding unlockProofsToAggregate_def by (rule safe_then [OF safe_update_pair]) auto

lemma safe_replace:
  assumes "sound M env B p"
  shows "safe M env B (\<lambda>r. \<forall>q. r = Inr q \<longrightarrow> sound M env B q) (replace_proofs p1 p2 p)" (is "safe M env B ?Q _")
  unfolding replace_proofs_def Let_def
proof (rule safe_option [OF safe_control(1)], simp, rule safe_case [OF safe_tx_exec safe_rollback], simp,
    rule safe_then [OF safe_control(2)])
  fix st1 :: tx_stmt and now assume "\<exists>t. st1 = (\<lambda>rows. Inr (DeleteGeneratedProofs (BatchNumber p1) (BatchNumberFinal p2) rows))"
  then have st1: "stmt_ok M env B st1" using stmts_ok by auto
  have "safe M env B ?Q (prog_bind (tx_commit [st1, st2]) (\<lambda>c. Return (case c of Some e \<Rightarrow> Inl e | None \<Rightarrow> Inr (p\<lparr>GeneratingSince := Some now\<rparr>))))"
    if "stmt_ok M env B st2" for st2
    by (rule safe_then [OF safe_commit]) (use that st1 assms in \<open>auto split: option.split\<close>)
  moreover have "stmt_ok M env B (AddGeneratedProof t (p\<lparr>GeneratingSince := Some now\<rparr>))" for t
    using assms by (intro stmts_ok) (simp add: sound_row)
  ultimately show "safe M env B ?Q (prog_bind (tx_exec (\<lambda>t. AddGeneratedProof t (p\<lparr>GeneratingSince := Some now\<rparr>)))
      (\<lambda>r2. case r2 of Inl e \<Rightarrow> rollback_with e | Inr st2 \<Rightarrow>
        prog_bind (tx_commit [st1, st2]) (\<lambda>c. Return (case c of Some e \<Rightarrow> Inl e | None \<Rightarrow> Inr (p\<lparr>GeneratingSince := Some now\<rparr>)))))"
    by (intro safe_case [OF safe_tx_exec] safe_rollback) auto
qed

lemma sound_aggregated:
  assumes "sound M env B p1" "sound M env B p2" "unat (BatchNumber p2) = unat (BatchNumberFinal p1) + 1"
    "answers M (AggregatedJob (pf_Proof p1) (pf_Proof p2)) s"
    "pf_Proof p = s" "BatchNumber p = BatchNumber p1" "BatchNumberFinal p = BatchNumberFinal p2"
  shows "sound M env B p"
proof -
  obtain l1 where l1: "attests M (pf_Proof p1) l1" "covers env B (BatchNumber p1) (BatchNumberFinal p1) l1" using assms(1) by (auto simp: sound_def)
  obtain l2 where l2: "attests M (pf_Proof p2) l2" "covers env B (BatchNumber p2) (BatchNumberFinal p2) l2" using assms(2) by (auto simp: sound_def)
  have r: "BatchNumber p1 \<le> BatchNumberFinal p1" "BatchNumber p2 \<le> BatchNumberFinal p2" "0 < BatchNumber p1"
    using assms(1,2) by (simp_all add: sound_def range_ok_def)
  have "BatchNumberFinal p1 \<le> BatchNumber p2" using assms(3) by (simp add: word_le_nat_alt)
  then have "range_ok p" using r assms(6,7) by (auto simp: range_ok_def)
  moreover have "attests M s (l1 @ l2)" using assms(4) l1(1) l2(1) by (simp add: answers_def)
  ultimately show ?thesis using covers_append [OF l1(2) l2(2) r(1) assms(3) r(2)] assms(5-7) by (auto simp: sound_def)
qed

lemma safe_aggregate:
  assumes "sound M env B p1" "sound M env B p2" "unat (BatchNumber p2) = unat (BatchNumberFinal p1) + 1"
  shows "safe M env B (\<lambda>r. \<forall>q. r = Inr q \<longrightarrow> sound M env B q) (aggregate_pair env prover p1 p2)"
proof (cases "json_pair env (pf_Proof p1) (pf_Proof p2)")
  case (Inr b)
  show ?thesis
    unfolding aggregate_pair_def Inr sum.case
    apply (rule safe_case [OF safe_prover(2)], simp, rule safe_case [OF safe_prover(4)], simp)
    apply (rule safe_replace, rule sound_aggregated [OF assms])
    by auto
qed (simp add: aggregate_pair_def)

lemma safe_finish:
  assumes "sound M env B p"
  shows "safe M env B (\<lambda>_. True) (finish_proof env prover p)"
  unfolding finish_proof_def
proof (rule maintains_bind [OF safe_tryBuildFinalProof])
  fix x :: "(agg_error + bool) \<times> Proof option"
  assume x: "\<forall>p. snd x = Some p \<longrightarrow> sound M env B p"
  have "sound M env B (case snd x of Some p \<Rightarrow> p | None \<Rightarrow> p)" using x assms by (cases "snd x") auto
  from safe_unlock [OF this]
  have "safe M env B (\<lambda>_. True) (prog_bind (unlock_proof (case snd x of Some p \<Rightarrow> p | None \<Rightarrow> p))
      (\<lambda>err. Return (case err of Some e \<Rightarrow> Inl e | None \<Rightarrow> Inr True)))" by (rule safe_then) simp
  then show "safe M env B (\<lambda>_. True) (case x of (r, proof') \<Rightarrow>
      if r = Inr True then Return (Inr True)
      else prog_bind (unlock_proof (case proof' of Some p \<Rightarrow> p | None \<Rightarrow> p)) (\<lambda>err. Return (case err of Some e \<Rightarrow> Inl e | None \<Rightarrow> Inr True)))"
    by (cases x) simp
qed (use assms in auto)

lemma safe_tryAggregate: "safe M env B (\<lambda>_. True) (tryAggregateProofs env prover)"
  unfolding tryAggregateProofs_def
proof (rule safe_case [OF safe_getPair])
  fix q assume q: "sound M env B (fst q) \<and> sound M env B (snd q) \<and> unat (BatchNumber (snd q)) = unat (BatchNumberFinal (fst q)) + 1"
  obtain p1 p2 where p: "q = (p1, p2)" by (cases q)
  have "safe M env B (\<lambda>_. True) (prog_bind (aggregate_pair env prover p1 p2) (\<lambda>r. case r of
         Inl e \<Rightarrow> prog_bind (unlockProofsToAggregate p1 p2) (\<lambda>_. Return (Inl e))
       | Inr proof \<Rightarrow> finish_proof env prover proof))"
    by (rule safe_case [OF safe_aggregate]) (use q p in \<open>auto intro: safe_then [OF safe_unlockPair] safe_finish\<close>)
  then show "safe M env B (\<lambda>_. True) (case q of (proof1, proof2) \<Rightarrow> prog_bind (aggregate_pair env prover proof1 proof2) (\<lambda>r. case r of
         Inl e \<Rightarrow> prog_bind (unlockProofsToAggregate proof1 proof2) (\<lambda>_. Return (Inl e))
       | Inr proof \<Rightarrow> finish_proof env prover proof))" using p by simp
qed simp

text \<open>The batch that is locked, and the proof of it.\<close>

definition batch_lock :: "(nat \<Rightarrow> VBatch option) \<Rightarrow> VBatch \<Rightarrow> Proof \<Rightarrow> bool" where
  "batch_lock B b p \<longleftrightarrow> 0 < vb_BatchNumber b \<and> B (unat (vb_BatchNumber b)) = Some b \<and>
     BatchNumber p = vb_BatchNumber b \<and> BatchNumberFinal p = vb_BatchNumber b"

lemma safe_getBatch:
  "safe M env B (\<lambda>r. \<forall>v. r = Inr v \<longrightarrow> (\<forall>b p. v = Some (b, p) \<longrightarrow> batch_lock B b p)) (getAndLockBatchToProve env prover)"
  (is "safe M env B ?Q _")
  unfolding getAndLockBatchToProve_def Let_def
proof (rule safe_locked, rule safe_case_query [where P = "\<lambda>_. True"], simp, simp,
    rule safe_case_query [where P = "\<lambda>b. 0 < vb_BatchNumber b \<and> B (unat (vb_BatchNumber b)) = Some b"])
  fix n w s b assume "agg_inv M env B s" "GetVirtualBatchToProve (a_batches s) (a_virtual s) (a_proofs s) n = Inr b"
  then show "0 < vb_BatchNumber b \<and> B (unat (vb_BatchNumber b)) = Some b"
    using batch_to_prove_is_next(1,2) [of "a_batches s" "a_virtual s" "a_proofs s" n b] by (auto simp: agg_inv_def word_gt_0)
next
  fix b assume b: "0 < vb_BatchNumber b \<and> B (unat (vb_BatchNumber b)) = Some b"
  let ?p = "\<lambda>now. \<lparr>BatchNumber = vb_BatchNumber b, BatchNumberFinal = vb_BatchNumber b, pf_Proof = [],
     pf_InputProver = [], ProofID = None, pf_Prover = Some (pv_name prover), pf_ProverID = Some (pv_id prover),
     GeneratingSince = Some now, pf_CreatedAt = 0, pf_UpdatedAt = 0\<rparr>"
  have "row_ok M env B (?p now)" for now using b by (simp add: row_ok_def range_ok_def)
  then have "safe M env B ?Q (prog_bind now_step (\<lambda>now. prog_bind (db_exec (\<lambda>t. AddGeneratedProof t (?p now)))
      (\<lambda>err. Return (case err of Some e \<Rightarrow> Inl e | None \<Rightarrow> Inr (Some (b, ?p now))))))"
    by (intro safe_then [OF safe_control(2)] safe_then [OF safe_exec] safe_Return)
      (use b in \<open>auto intro: stmts_ok simp: batch_lock_def split: option.split_asm\<close>)
  then show "safe M env B ?Q (if \<not> IsProfitable (ProfitabilityChecker (ae_cfg env)) 0 then Return (Inr None)
      else prog_bind now_step (\<lambda>now. prog_bind (db_exec (\<lambda>t. AddGeneratedProof t (?p now)))
        (\<lambda>err. Return (case err of Some e \<Rightarrow> Inl e | None \<Rightarrow> Inr (Some (b, ?p now))))))" by simp
qed auto

lemma safe_input:
  assumes "0 < vb_BatchNumber b"
  shows "safe M env B (\<lambda>r. \<forall>inp. r = Inr inp \<longrightarrow> (\<exists>q. B (unat (vb_BatchNumber b) - 1) = Some q \<and> inp = input_of env q b)) (buildInputProver env b)"
  unfolding buildInputProver_def
proof (rule safe_case_query [where P = "\<lambda>q. B (unat (vb_BatchNumber b) - 1) = Some q"])
  fix w s q assume "agg_inv M env B s" "GetBatchByNumber_pg (a_batches s) (vb_BatchNumber b - 1) = Inr q"
  then have "B (unat (vb_BatchNumber b - 1)) = Some q" by (rule inv_batch)
  moreover have "unat (vb_BatchNumber b - 1) = unat (vb_BatchNumber b) - 1" using assms by (simp add: word_gt_0 unat_minus_one)
  ultimately show "B (unat (vb_BatchNumber b) - 1) = Some q" by simp
qed auto

lemma safe_prove:
  assumes "batch_lock B b p"
  shows "safe M env B (\<lambda>r. \<forall>q. r = Inr q \<longrightarrow> sound M env B q) (prove_batch env b p)" (is "safe M env B ?Q _")
  unfolding prove_batch_def
proof (rule safe_case [OF safe_input])
  show "0 < vb_BatchNumber b" using assms by (simp add: batch_lock_def)
next
  fix inp assume "\<exists>q. B (unat (vb_BatchNumber b) - 1) = Some q \<and> inp = input_of env q b"
  then have c: "covers env B (vb_BatchNumber b) (vb_BatchNumber b) [inp]"
    using covers_one [of B "vb_BatchNumber b" _ b env] assms unfolding batch_lock_def by blast
  have s: "sound M env B (p\<lparr>pf_InputProver := j, ProofID := i, pf_Proof := s\<rparr>)" if "answers M (BatchJob inp) s" for i j s
    using c that assms by (auto simp: sound_def range_ok_def batch_lock_def answers_def)
  have "safe M env B ?Q (prog_bind (BatchProof inp) (\<lambda>r. case r of Inl e \<Rightarrow> Return (Inl e) | Inr genProofID \<Rightarrow>
     prog_bind (WaitRecursiveProof genProofID) (\<lambda>r. case r of Inl e \<Rightarrow> Return (Inl e) | Inr resGetProof \<Rightarrow>
     Return (Inr (p\<lparr>pf_InputProver := j, ProofID := Some genProofID, pf_Proof := resGetProof\<rparr>)))))" for j
    by (rule safe_case [OF safe_prover(1)], simp, rule safe_case [OF safe_prover(4)]) (simp_all add: s)
  then show "safe M env B ?Q (case json_input env inp of Inl e \<Rightarrow> Return (Inl (AggJsonError e)) | Inr j \<Rightarrow>
     prog_bind (BatchProof inp) (\<lambda>r. case r of Inl e \<Rightarrow> Return (Inl e) | Inr genProofID \<Rightarrow>
     prog_bind (WaitRecursiveProof genProofID) (\<lambda>r. case r of Inl e \<Rightarrow> Return (Inl e) | Inr resGetProof \<Rightarrow>
     Return (Inr (p\<lparr>pf_InputProver := j, ProofID := Some genProofID, pf_Proof := resGetProof\<rparr>)))))"
    by (cases "json_input env inp") simp_all
qed simp

lemma safe_tryGenerate: "safe M env B (\<lambda>_. True) (tryGenerateBatchProof env prover)"
  unfolding tryGenerateBatchProof_def
proof (rule safe_case [OF safe_getBatch])
  fix v assume v: "\<forall>b p. v = Some (b, p) \<longrightarrow> batch_lock B b p"
  have "safe M env B (\<lambda>_. True) (prog_bind (prove_batch env b p) (\<lambda>r. case r of
         Inl e \<Rightarrow> prog_bind (db_exec (\<lambda>_ rows. Inr (DeleteGeneratedProofs (BatchNumber p) (BatchNumberFinal p) rows)))
                    (\<lambda>_. Return (Inl e))
       | Inr proof \<Rightarrow> finish_proof env prover proof))" if "batch_lock B b p" for b p
    by (rule safe_case [OF safe_prove [OF that]]) (auto intro!: safe_then [OF safe_exec] stmts_ok safe_finish)
  then show "safe M env B (\<lambda>_. True) (case v of None \<Rightarrow> Panics | Some (batchToProve, proof) \<Rightarrow>
       prog_bind (prove_batch env batchToProve proof) (\<lambda>r. case r of
         Inl e \<Rightarrow> prog_bind (db_exec (\<lambda>_ rows. Inr (DeleteGeneratedProofs (BatchNumber proof) (BatchNumberFinal proof) rows)))
                    (\<lambda>_. Return (Inl e))
       | Inr proof \<Rightarrow> finish_proof env prover proof))"
    using v by (auto split: option.split)
qed simp

section \<open>The goroutines\<close>

lemma safe_handle: "safe M env B (\<lambda>_. True) (handleMonitoredTxResult r)"
  unfolding handleMonitoredTxResult_def Let_def
  by (auto intro!: safe_then [OF safe_fields(6)] safe_then [OF safe_exec] stmts_ok)

lemma safe_process: "safe M env B (\<lambda>_. True) process_pending"
proof -
  have "safe M env B (\<lambda>_. True) (handle_all rs)" for rs by (induction rs) (auto intro: safe_then [OF safe_handle])
  then show ?thesis unfolding process_pending_def by (intro safe_then [OF safe_ask [where Q = "\<lambda>_. True"]]) auto
qed

lemma safe_failure: "sound M env B p \<Longrightarrow> safe M env B (\<lambda>_. True) (handleFailureToAddVerifyBatchToBeMonitored p)"
  unfolding handleFailureToAddVerifyBatchToBeMonitored_def by (intro safe_then [OF safe_unlock] safe_fields)

lemma safe_receive: "safe M env B (\<lambda>r. \<forall>m. r = Some m \<longrightarrow> final_sound M env B (recursiveProof m) (finalProof m)) receive_msg"
  unfolding receive_msg_def
proof (rule safe_then [OF maintains_act [where Q = "\<lambda>_. True"]])
  show "safe M env B (\<lambda>r. \<forall>m. r = Some m \<longrightarrow> final_sound M env B (recursiveProof m) (finalProof m))
    (await (\<lambda>w s. case a_finalProof s of Some msg \<Rightarrow> Some (Some msg, s\<lparr>a_finalProof := None\<rparr>)
       | None \<Rightarrow> if w_done w then Some (None, s\<lparr>a_receiving := False\<rparr>) else None))"
    by (rule maintains_await) (auto simp: agg_inv_def split: option.split_asm if_split_asm)
qed (auto simp: agg_inv_def)

lemma client_Add_sent:
  assumes "client_Add cfg nt ow i a t v d off now rows = Inr rows'" "r \<in> set rows'"
  shows "r \<in> set rows \<or> (r_owner r = ow \<and> r_id r = i \<and> r_to r = t \<and> r_data r = map_option EncodeToString d)"
proof -
  obtain m where m: "storage_Add m now rows = Inr rows'" "m_owner m = ow" "m_id m = i" "m_to m = t" "m_data m = d"
    using assms(1) by (auto simp: client_Add_def map_sum_def split: sum.split_asm option.split_asm if_split_asm)
  then have "rows' = rows @ [row_of now now m]" by (simp add: storage_Add_def split: if_split_asm)
  then show ?thesis using assms(2) m(2-) by (auto simp: row_of_def dataStringPtr_def)
qed

lemma safe_add:
  assumes "final_sound M env B p f" "B (unat (BatchNumberFinal p)) = Some b"
    "BuildTrustedVerifyBatchesTxData env (BatchNumber p - 1) (BatchNumberFinal p) (final_inputs f b) = (t, d)"
  shows "safe M env B (\<lambda>_. True) (add_monitored env (buildMonitoredTxID (BatchNumber p) (BatchNumberFinal p)) t d)"
  unfolding add_monitored_def
proof (rule maintains_act)
  fix w s assume i: "agg_inv M env B s"
  have new: "sent_ok M env B r" if "r_id r = buildMonitoredTxID (BatchNumber p) (BatchNumberFinal p)" "r_to r = t"
    "r_data r = Some (EncodeToString d)" for r
  proof -
    obtain l where l: "final_attests M (fp_Proof f) l" "covers env B (BatchNumber p) (BatchNumberFinal p) l" using assms(1) by (auto simp: final_sound_def)
    have "0 < BatchNumber p" "BatchNumber p \<le> BatchNumberFinal p" using assms(1) by (auto simp: final_sound_def sound_def range_ok_def)
    then show ?thesis unfolding sent_ok_def
      by (intro exI [of _ "BatchNumber p"] exI [of _ "BatchNumberFinal p"] exI [of _ f] exI [of _ l] exI [of _ b])
        (use that l assms(2,3) in simp)
  qed
  let ?add = "client_Add (ae_etm env) (w_net w) aggregatorOwner (buildMonitoredTxID (BatchNumber p) (BatchNumberFinal p))
    (HexToAddress env (ag_SenderAddress (ae_cfg env))) t None (Some d) (ag_GasOffset (ae_cfg env)) (w_now w) (a_mtx s)"
  have "agg_inv M env B (s\<lparr>a_mtx := rows\<rparr>)" if "?add = Inr rows" for rows
  proof -
    have "sent_ok M env B r" if "r \<in> set rows" "r_owner r = aggregatorOwner" for r
      using client_Add_sent [OF \<open>?add = Inr rows\<close> that(1)]
    proof
      assume "r \<in> set (a_mtx s)"
      then show ?thesis using i that(2) by (simp add: agg_inv_def)
    qed (use new [of r] in simp)
    then show ?thesis using i by (simp add: agg_inv_def)
  qed
  then show "agg_inv M env B (snd (case ?add of Inl e \<Rightarrow> (Some e, s) | Inr rows \<Rightarrow> (None, s\<lparr>a_mtx := rows\<rparr>))) \<and> True"
    using i by (cases ?add) auto
qed

lemma safe_sendFinalProof: "safe M env B (\<lambda>_. True) (sendFinalProof_turn env)"
  unfolding sendFinalProof_turn_def Let_def
proof (rule maintains_bind [OF safe_receive])
  fix r assume r: "\<forall>m. r = Some m \<longrightarrow> final_sound M env B (recursiveProof m) (finalProof m)"
  have rest: "safe M env B (\<lambda>_. True) (case BuildTrustedVerifyBatchesTxData env (BatchNumber p - 1) (BatchNumberFinal p) (final_inputs f b) of
      (t, d) \<Rightarrow> prog_bind (add_monitored env (buildMonitoredTxID (BatchNumber p) (BatchNumberFinal p)) t d) (\<lambda>err. case err of
        Some _ \<Rightarrow> handleFailureToAddVerifyBatchToBeMonitored p
      | None \<Rightarrow> prog_bind process_pending (\<lambda>_. prog_bind (resetVerifyProofTime env) (\<lambda>_. endProofVerification))))"
    if fs: "final_sound M env B p f" and b: "B (unat (BatchNumberFinal p)) = Some b" for p f b
  proof (cases "BuildTrustedVerifyBatchesTxData env (BatchNumber p - 1) (BatchNumberFinal p) (final_inputs f b)")
    case (Pair t d)
    have "sound M env B p" using fs by (simp add: final_sound_def)
    from safe_failure [OF this] show ?thesis
      unfolding Pair prod.case by (intro safe_option [OF safe_add [OF fs b Pair]] safe_then [OF safe_process] safe_then [OF safe_fields(5)] safe_fields(4)) auto
  qed
  show "safe M env B (\<lambda>_. True) (case r of None \<Rightarrow> Return () | Some msg \<Rightarrow>
      prog_bind startProofVerification (\<lambda>_. prog_bind (db_query (\<lambda>w s. GetBatchByNumber_pg (a_batches s) (BatchNumberFinal (recursiveProof msg))))
       (\<lambda>r. case r of Inl _ \<Rightarrow> endProofVerification | Inr finalBatch \<Rightarrow> prog_bind (ask (\<lambda>w s. w_build w)) (\<lambda>err. case err of
          Some _ \<Rightarrow> handleFailureToAddVerifyBatchToBeMonitored (recursiveProof msg)
        | None \<Rightarrow> (case BuildTrustedVerifyBatchesTxData env (BatchNumber (recursiveProof msg) - 1) (BatchNumberFinal (recursiveProof msg))
                     (final_inputs (finalProof msg) finalBatch) of (to', data) \<Rightarrow>
             prog_bind (add_monitored env (buildMonitoredTxID (BatchNumber (recursiveProof msg)) (BatchNumberFinal (recursiveProof msg))) to' data)
               (\<lambda>err. case err of Some _ \<Rightarrow> handleFailureToAddVerifyBatchToBeMonitored (recursiveProof msg)
                 | None \<Rightarrow> prog_bind process_pending (\<lambda>_. prog_bind (resetVerifyProofTime env) (\<lambda>_. endProofVerification))))))))"
  proof (cases r)
    case (Some m)
    then have fs: "final_sound M env B (recursiveProof m) (finalProof m)" using r by simp
    then have "sound M env B (recursiveProof m)" by (simp add: final_sound_def)
    then show ?thesis
      unfolding Some option.case
      by (intro safe_then [OF safe_fields(3)] safe_case_query [where P = "\<lambda>b. B (unat (BatchNumberFinal (recursiveProof m))) = Some b"]
          safe_fields(4) safe_option [OF safe_ask [where Q = "\<lambda>_. True"]] safe_failure rest [OF fs]) (auto dest: inv_batch)
  qed simp
qed

lemma safe_cleanup: "safe M env B (\<lambda>_. True) (cleanupLockedProofs_turn env')"
  unfolding cleanupLockedProofs_turn_def
proof (rule safe_then [OF safe_ask [where Q = "\<lambda>_. True"]], simp)
  have "safe M env B (\<lambda>_. True) (act (\<lambda>w s. case w_db w of Some _ \<Rightarrow> ((), s) | None \<Rightarrow>
      (case CleanupLockedProofs (w_now_minus w) (GeneratingProofCleanupThreshold (ae_cfg env')) (a_proofs s) of
          None \<Rightarrow> ((), s) | Some (_, rows) \<Rightarrow> ((), s\<lparr>a_proofs := rows\<rparr>))))"
    by (rule maintains_act) (auto simp: agg_inv_def split: option.split dest!: CleanupLockedProofs_set(1))
  then show "safe M env B (\<lambda>_. True) (if over then Return () else if GeneratingProofCleanupThreshold (ae_cfg env') = [] then Panics
      else act (\<lambda>w s. case w_db w of Some _ \<Rightarrow> ((), s) | None \<Rightarrow>
      (case CleanupLockedProofs (w_now_minus w) (GeneratingProofCleanupThreshold (ae_cfg env')) (a_proofs s) of
          None \<Rightarrow> ((), s) | Some (_, rows) \<Rightarrow> ((), s\<lparr>a_proofs := rows\<rparr>))))" for over by simp
qed

lemma safe_Channel: "safe M env B (\<lambda>_. True) (Channel_turn env prover)"
  unfolding Channel_turn_def
  by (intro safe_then [OF safe_ask [where Q = "\<lambda>_. True"]] safe_if safe_Return safe_then [OF maintains_status(1)]
      safe_then [OF safe_tryBuildFinalProof] safe_then [OF safe_tryAggregate] safe_then [OF safe_tryGenerate]) auto

lemma outside_inv:
  assumes "outside_ok B g" "agg_inv M env B s"
  shows "agg_inv M env B (g s)"
proof -
  have "sent_ok M env B r" if r: "r \<in> set (a_mtx (g s))" "r_owner r = aggregatorOwner" for r
  proof -
    obtain r' where r': "r' \<in> set (a_mtx s)" "what_is_sent r = what_is_sent r'" using assms(1) r unfolding outside_ok_def by blast
    then have "sent_ok M env B r'" using assms(2) r by (simp add: agg_inv_def what_is_sent_def)
    then show ?thesis using r' by (simp add: sent_ok_def what_is_sent_def)
  qed
  then show ?thesis using assms unfolding agg_inv_def outside_ok_def by (metis (no_types, lifting) subsetD)
qed

interpretation agg: shared_invariant "world_ok M" "agg_inv M env B" "outside_ok B" "agg_threads env provers" for M env B provers
  by unfold_locales (auto simp: agg_threads_def safe_sendFinalProof safe_cleanup safe_Channel outside_inv)

end
