(* ===== verification/AggregatorCases.thy ===== *)
theory AggregatorCases
  imports AggregatorRuns
begin

text \<open>
  The theorems about the aggregator: what it sends and what it stores in every run, then single functions on their own: the cleaning after a
  verification, a turn that succeeds, the panic on a batch that is not profitable, and a run in which a lock is removed too early. A small chain with a
  prover whose proofs are the numbers of their batches gives the instances.
\<close>

section \<open>The main theorems\<close>

text \<open>
  C6. Whatever the aggregator hands to the transaction manager, in every run of its goroutines and whatever fails, verifies on L1
  the batches in its name with a final proof of exactly these batches as they are in the state, one after the other, and with the
  state root and the exit root of the last of them.
\<close>

theorem sent_proofs_attest_the_batches:
  assumes "list_all (event_ok (world_ok M) (outside_ok B)) es"
    and "a_proofs s = []" "a_finalProof s = None" "\<forall>r \<in> set (a_mtx s). r_owner r \<noteq> aggregatorOwner"
    and "\<forall>b \<in> set (a_batches s). B (unat (vb_BatchNumber b)) = Some b"
    and "r \<in> set (a_mtx (snd (run_events (agg_threads env provers) es s)))" "r_owner r = aggregatorOwner"
  shows "\<exists>a c f b. 0 < a \<and> a \<le> c \<and> r_id r = buildMonitoredTxID a c \<and>
    final_attests M (fp_Proof f) (inputs_of env B (unat a) (unat c)) \<and> B (unat c) = Some b \<and>
    (r_to r, r_data r) = map_prod id (\<lambda>d. Some (EncodeToString d)) (BuildTrustedVerifyBatchesTxData env (a - 1) c (final_inputs f b))"
proof -
  have "agg_inv M env B s" using assms(2-5) by (simp add: agg_inv_def)
  then have "agg_inv M env B (snd (run_events (agg_threads env provers) es s))" by (rule agg.run_maintains) (rule assms(1))
  then have "sent_ok M env B r" using assms(6,7) by (simp add: agg_inv_def)
  then show ?thesis unfolding sent_ok_def covers_def by blast
qed

text \<open>
  C7. In every run, a proof of the table that no prover works on is a proof of exactly the batches of its range, which are in the
  state: so it may be aggregated with its neighbour or be made final at any time.
\<close>

theorem free_proofs_attest_their_range:
  assumes "list_all (event_ok (world_ok M) (outside_ok B)) es"
    and "\<forall>p \<in> set (a_proofs s). row_ok M env B p" "a_finalProof s = None" "\<forall>r \<in> set (a_mtx s). r_owner r \<noteq> aggregatorOwner"
    and "\<forall>b \<in> set (a_batches s). B (unat (vb_BatchNumber b)) = Some b"
    and "p \<in> set (a_proofs (snd (run_events (agg_threads env provers) es s)))" "GeneratingSince p = None"
  shows "0 < BatchNumber p \<and> BatchNumber p \<le> BatchNumberFinal p \<and>
    attests M (pf_Proof p) (inputs_of env B (unat (BatchNumber p)) (unat (BatchNumberFinal p)))"
proof -
  have "agg_inv M env B s" using assms(2-5) by (simp add: agg_inv_def)
  then have "agg_inv M env B (snd (run_events (agg_threads env provers) es s))" by (rule agg.run_maintains) (rule assms(1))
  then have "sound M env B p" using assms(6,7) by (simp add: agg_inv_def row_ok_def)
  then show ?thesis by (auto simp: sound_def range_ok_def covers_def)
qed

section \<open>After the verification\<close>

lemma go_itoa_go_text: "go_itoa n = go_text 10 n"
  by (induction n rule: go_itoa.induct) (subst go_itoa.simps, subst go_text.simps, simp add: digit_char_def)

lemma split_at_nth:
  assumes "c \<notin> set x"
  shows "split_at c x = [x]" "split_at c (x @ c # y) = x # split_at c y"
  using assms by (induction x) auto

lemma itoa_no_dash: "CHR ''-'' \<notin> set (go_itoa n)"
proof (induction n rule: go_itoa.induct)
  case (1 n)
  have "char_of (48 + d) \<noteq> CHR ''-''" if "d < 10" for d :: nat
    using that digit_char_no_sign [of d] by (simp add: digit_char_def)
  note d = this [THEN not_sym]
  show ?case using 1 d [of n] d [of "n mod 10"] by (subst go_itoa.simps) (simp del: char_of_eq_iff)
qed

lemma id_slices:
  "split_at (CHR ''-'') (buildMonitoredTxID a c) = [''proof'', ''from'', go_itoa (unat a), ''to'', go_itoa (unat c)]"
proof -
  have "buildMonitoredTxID a c = ''proof'' @ CHR ''-'' # ''from'' @ CHR ''-'' # go_itoa (unat a) @ CHR ''-'' # ''to'' @ CHR ''-'' # go_itoa (unat c)"
    by (simp add: buildMonitoredTxID_def)
  then show ?thesis by (simp only:) (simp add: split_at_nth itoa_no_dash)
qed

text \<open>
  C26. The name of a transaction is read back: when the state is synchronized up to the last batch of a verified proof, the handler of
  its result removes exactly the proofs that end at or before that batch, and nothing else changes; before that it waits.
\<close>

theorem verified_range_is_cleaned:
  assumes "re_ID result = buildMonitoredTxID a c" "re_Status result \<noteq> MonitoredTxStatusFailed" "w_db w' = None"
  shows "(isSynced_at (Some c) w s \<longrightarrow> run_alone [w, w'] (handleMonitoredTxResult result) s =
      (Return (), s\<lparr>a_proofs := filter (\<lambda>p. c < BatchNumberFinal p) (a_proofs s)\<rparr>)) \<and>
    (\<not> isSynced_at (Some c) w s \<longrightarrow> run_alone [w] (handleMonitoredTxResult result) s = (handleMonitoredTxResult result, s))"
proof -
  have n: "ParseUint (go_itoa (unat c)) 10 = Inr c"
    using unsigned_less [of c, where 'a = nat] by (simp add: go_itoa_go_text ParseUint_go_text)
  have h: "handleMonitoredTxResult result = prog_bind (wait_synced (Some c)) (\<lambda>_.
      prog_bind (db_exec (\<lambda>_ rows. Inr (CleanupGeneratedProofs c rows))) (\<lambda>_. Return ()))"
    using assms(1,2) by (simp add: handleMonitoredTxResult_def id_slices n parsed_or_def)
  show ?thesis
    unfolding h using assms(3) by (simp add: wait_synced_def await_def db_exec_def act_def CleanupGeneratedProofs_def not_le)
qed

section \<open>Batches that are not profitable\<close>

text \<open>
  C38. With the checker \<open>base\<close> and a reward above zero the aggregator panics as soon as there is a batch to prove: the collateral that is
  asked about is always zero, so no batch is profitable, and \<open>getAndLockBatchToProve\<close> then returns neither a batch nor an error.
\<close>

theorem unprofitable_batch_panics:
  assumes "ProfitabilityChecker (ae_cfg env) = CheckerBase minReward" "0 < minReward"
    and "w_db w2 = None" "w_db w3 = None" "\<not> StateDBMutex s" "a_verified s \<noteq> []"
    and "GetVirtualBatchToProve (a_batches s) (a_virtual s) (a_proofs s) (Max (set (a_verified s))) = Inr b"
  shows "run_alone [w1, w2, w3, w4] (tryGenerateBatchProof env prover) s = (Panics, s)"
proof -
  have "\<not> IsProfitable (ProfitabilityChecker (ae_cfg env)) 0" using assms(1,2) by (simp add: IsProfitable_def)
  then show ?thesis
    using assms(3-7)
    by (simp add: tryGenerateBatchProof_def getAndLockBatchToProve_def locked_def mutex_lock_def mutex_unlock_def await_def act_def
        db_query_def ask_def GetLastVerifiedBatch_pg_def)
qed

section \<open>A successful turn\<close>

text \<open>
  C25. A prover that answers, a database that works, and a batch to prove: then \<open>tryGenerateBatchProof\<close> comes to an end and leaves
  the proof of the next batch that no proof covers, free for aggregation, as long as the time to verify has not come.
\<close>

theorem batch_proof_is_generated:
  assumes "w_db w = None" "\<not> w_gone w" "w_now w \<le> TimeSendFinalProof s" "\<not> StateDBMutex s" "a_verified s \<noteq> []"
    and "IsProfitable (ProfitabilityChecker (ae_cfg env)) 0"
    and "GetVirtualBatchToProve (a_batches s) (a_virtual s) (a_proofs s) (Max (set (a_verified s))) = Inr b"
    and "GetBatchByNumber_pg (a_batches s) (vb_BatchNumber b - 1) = Inr previous"
    and "json_input env (input_of env previous b) = Inr j"
    and "w_call w (GenBatchProofRequest (input_of env previous b)) = Inr (GenBatchProofMsg RESULT_OK i)"
    and "w_call w (GetProofRequest i) = Inr (GetProofMsg GP_COMPLETED_OK (RecursivePayload proof))"
    and "(vb_BatchNumber b, vb_BatchNumber b) \<notin> pf_key ` set (a_proofs s)"
  shows "\<exists>n. run_alone (replicate n w) (tryGenerateBatchProof env prover) s = (Return (Inr True), s\<lparr>a_proofs := a_proofs s @
    [\<lparr>BatchNumber = vb_BatchNumber b, BatchNumberFinal = vb_BatchNumber b, pf_Proof = proof, pf_InputProver = j, ProofID = Some i,
      pf_Prover = Some (pv_name prover), pf_ProverID = Some (pv_id prover), GeneratingSince = None,
      pf_CreatedAt = w_now w, pf_UpdatedAt = w_now w\<rparr>]\<rparr>)"
proof (rule exI [of _ 11])
  have up: "map (\<lambda>r. if pf_key r = (n, n) then f r else r) rows = rows" if "(n, n) \<notin> pf_key ` set rows" for n f and rows :: "Proof list"
    using that by (intro map_idI) (auto simp: image_iff)
  have ex: "\<not> list_ex (\<lambda>r. pf_key r = (vb_BatchNumber b, vb_BatchNumber b)) (a_proofs s)"
    using assms(12) by (auto simp: list_ex_iff image_iff)
  have e: "replicate 11 w = [w, w, w, w, w, w, w, w, w, w, w]" by (simp add: eval_nat_numeral)
  show "run_alone (replicate 11 w) (tryGenerateBatchProof env prover) s = (Return (Inr True), s\<lparr>a_proofs := a_proofs s @
    [\<lparr>BatchNumber = vb_BatchNumber b, BatchNumberFinal = vb_BatchNumber b, pf_Proof = proof, pf_InputProver = j, ProofID = Some i,
      pf_Prover = Some (pv_name prover), pf_ProverID = Some (pv_id prover), GeneratingSince = None,
      pf_CreatedAt = w_now w, pf_UpdatedAt = w_now w\<rparr>]\<rparr>)"
    unfolding e using assms ex
    by (simp add: tryGenerateBatchProof_def getAndLockBatchToProve_def locked_def mutex_lock_def mutex_unlock_def await_def act_def
        db_query_def ask_def GetLastVerifiedBatch_pg_def now_step_def db_exec_def AddGeneratedProof_def pf_key_def [of "\<lparr>BatchNumber = _, BatchNumberFinal = _, pf_Proof = _,
          pf_InputProver = _, ProofID = _, pf_Prover = _, pf_ProverID = _, GeneratingSince = _, pf_CreatedAt = _, pf_UpdatedAt = _\<rparr>"]
        prove_batch_def buildInputProver_def BatchProof_def call_def result_switch_def WaitRecursiveProof_def waitProof_def
        finish_proof_def tryBuildFinalProof_def canVerifyProof_def unlock_proof_def UpdateGeneratedProof_def up)
qed

section \<open>A small chain and an honest prover\<close>

definition sample_agg_env :: agg_env where
  "sample_agg_env = \<lparr>ae_cfg = \<lparr>VerifyProofInterval = 100, ProfitabilityChecker = CheckerAcceptAll, ag_ChainID = 1, ag_ForkId = 5,
     ag_SenderAddress = ''a'', GeneratingProofCleanupThreshold = ''10m'', ag_GasOffset = 0\<rparr>, ae_etm = sample_cfg,
     HexToAddress = (\<lambda>_. 7), Address_String = (\<lambda>_. ''c''), json_input = (\<lambda>_. Inr ''i''), json_pair = (\<lambda>_ _. Inr ''j''),
     BuildTrustedVerifyBatchesTxData = (\<lambda>a c x. (Some 9, [ucast a, ucast c]))\<rparr>"

definition sample_vbatch :: "nat \<Rightarrow> VBatch" where
  "sample_vbatch n = \<lparr>vb_BatchNumber = of_nat n, vb_Coinbase = 0, vb_BatchL2Data = [], vb_StateRoot = 0, vb_LocalExitRoot = 0,
     vb_AccInputHash = 0, vb_Timestamp = 0, vb_GlobalExitRoot = 0\<rparr>"

definition sample_chain :: "nat \<Rightarrow> VBatch option" where
  "sample_chain n = (if n \<le> 3 then Some (sample_vbatch n) else None)"

definition sample_input :: "nat \<Rightarrow> InputProver" where
  "sample_input n = input_of sample_agg_env (sample_vbatch (n - 1)) (sample_vbatch n)"

text \<open>A proof is the string of the numbers of its batches.\<close>

definition sample_call :: "AggregatorMessage \<Rightarrow> string + ProverMessage" where
  "sample_call m = (case m of
     GetStatusRequest \<Rightarrow> Inr (GetStatusMsg \<lparr>gs_Status = STATUS_IDLE, gs_ProverName = ''p'', gs_ProverId = ''1'', gs_ForkId = 5\<rparr>)
   | GenBatchProofRequest inp \<Rightarrow>
       (let n = unat (OldBatchNum inp) + 1 in
        if n < 10 \<and> inp = sample_input n then Inr (GenBatchProofMsg RESULT_OK [CHR ''b'', char_of n]) else Inl ''bad'')
   | GenAggregatedProofRequest a b \<Rightarrow>
       if length a < 10 then Inr (GenAggregatedProofMsg RESULT_OK (CHR ''a'' # char_of (length a) # a @ b)) else Inl ''bad''
   | GenFinalProofRequest a b \<Rightarrow> if b = ''a'' then Inr (GenFinalProofMsg RESULT_OK (CHR ''f'' # a)) else Inl ''bad''
   | CancelRequest _ \<Rightarrow> Inr (CancelMsg RESULT_OK)
   | GetProofRequest i \<Rightarrow>
       (case i of
          c # s \<Rightarrow> if c = CHR ''b'' \<and> length s = 1 \<and> of_char (hd s) < (10 :: nat) then Inr (GetProofMsg GP_COMPLETED_OK (RecursivePayload s))
            else if c = CHR ''a'' \<and> s \<noteq> [] then Inr (GetProofMsg GP_COMPLETED_OK (RecursivePayload (tl s)))
            else if c = CHR ''f'' then Inr (GetProofMsg GP_COMPLETED_OK (FinalPayload \<lparr>fp_Proof = s,
              fp_Public = Some \<lparr>NewStateRoot = [], NewLocalExitRoot = []\<rparr>\<rparr>))
            else Inl ''bad''
        | [] \<Rightarrow> Inl ''bad''))"

definition sample_attests :: "string \<Rightarrow> InputProver list \<Rightarrow> bool" where
  "sample_attests s l \<longleftrightarrow> l = map (\<lambda>c. sample_input (of_char c)) s"

definition sample_job :: "string \<Rightarrow> job" where
  "sample_job i = (case i of
     c # s \<Rightarrow> if c = CHR ''b'' then BatchJob (sample_input (of_char (hd s)))
       else if c = CHR ''a'' then AggregatedJob (take (of_char (hd s)) (tl s)) (drop (of_char (hd s)) (tl s))
       else FinalJob s ''a''
   | [] \<Rightarrow> FinalJob [] [])"

definition sample_meaning :: prover_meaning where
  "sample_meaning = \<lparr>job = sample_job, attests = sample_attests, final_attests = sample_attests\<rparr>"

definition sample_world :: "int \<Rightarrow> world" where
  "sample_world t = \<lparr>w_call = sample_call, w_gone = False, w_now = t, w_db = None, w_done = False, w_verified = Inr 0, w_build = None,
     w_net = sample_net, w_results = [], w_order = (\<lambda>xs. xs), w_now_minus = (\<lambda>_. Inr 50)\<rparr>"

definition sample_agg :: "int \<Rightarrow> (u64 \<times> u64) list \<Rightarrow> agg" where
  "sample_agg t sequences = \<lparr>a_proofs = [], a_sequences = sequences, a_batches = map sample_vbatch [0..<4], a_virtual = [1, 2, 3],
     a_verified = [0], a_mtx = [], TimeSendFinalProof = t, verifyingProof = False, StateDBMutex = False, a_receiving = False,
     a_finalProof = None\<rparr>"

definition sample_prover :: Prover where
  "sample_prover = \<lparr>pv_name = ''p'', pv_id = ''1'', pv_address = None\<rparr>"

lemma of_char_small: "n < 10 \<Longrightarrow> of_char (char_of n) = (n :: nat)"
  by simp

lemma sample_world_ok: "world_ok sample_meaning (sample_world t)"
proof -
  have "honest sample_meaning (sample_world t)"
    unfolding honest_def
  proof (intro conjI allI impI)
    fix inp i assume "w_call (sample_world t) (GenBatchProofRequest inp) = Inr (GenBatchProofMsg RESULT_OK i)"
    then show "job sample_meaning i = BatchJob inp"
      by (auto simp: sample_world_def sample_call_def sample_meaning_def sample_job_def Let_def of_char_small split: if_split_asm)
  next
    fix a b i assume "w_call (sample_world t) (GenAggregatedProofRequest a b) = Inr (GenAggregatedProofMsg RESULT_OK i)"
    then show "job sample_meaning i = AggregatedJob a b"
      by (auto simp: sample_world_def sample_call_def sample_meaning_def sample_job_def of_char_small split: if_split_asm)
  next
    fix a b i assume "w_call (sample_world t) (GenFinalProofRequest a b) = Inr (GenFinalProofMsg RESULT_OK i)"
    then show "job sample_meaning i = FinalJob a b"
      by (auto simp: sample_world_def sample_call_def sample_meaning_def sample_job_def split: if_split_asm)
  next
    fix i s assume "w_call (sample_world t) (GetProofRequest i) = Inr (GetProofMsg GP_COMPLETED_OK (RecursivePayload s))"
    then show "answers sample_meaning (job sample_meaning i) s"
      by (auto simp: sample_world_def sample_call_def sample_meaning_def sample_job_def answers_def sample_attests_def
          length_Suc_conv map_append [symmetric] simp del: map_append split: list.split_asm if_split_asm)
  next
    fix i f assume "w_call (sample_world t) (GetProofRequest i) = Inr (GetProofMsg GP_COMPLETED_OK (FinalPayload f))"
    then show "final_answers sample_meaning (job sample_meaning i) f"
      by (auto simp: sample_world_def sample_call_def sample_meaning_def sample_job_def final_answers_def split: list.split_asm if_split_asm)
  qed
  then show ?thesis by (simp add: world_ok_def sample_world_def)
qed

definition first_run :: "(world, agg) event list" where
  "first_run = Run 0 (sample_world 10) # replicate 30 (Run 2 (sample_world 10)) @ replicate 9 (Run 0 (sample_world 20))"

lemma first_run_result:
  "map (\<lambda>r. (r_owner r, r_id r, r_to r, r_data r)) (a_mtx (snd (run_events (agg_threads sample_agg_env [sample_prover]) first_run (sample_agg 0 [(1, 1)])))) =
     [(''aggregator'', ''proof-from-1-to-1'', Some 9, Some ''0001'')]"
  by code_simp

text \<open>
  The locks of a prover that is slow are removed, its batches are given to others, and when it comes back it stores its proof all the
  same: thread 2 locks the proofs of the batches 1 and 2, thread 4 takes batch 1, thread 3 proves 2 and 3 and aggregates them, and then thread 2 ends.
\<close>

definition stolen_run :: "(world, agg) event list" where
  "stolen_run =
     replicate 20 (Run 2 (sample_world 10)) @ Again 2 # replicate 20 (Run 2 (sample_world 10)) @ Again 2 #
     replicate 11 (Run 2 (sample_world 10)) @ replicate 2 (Run 1 (sample_world 60)) @ replicate 12 (Run 4 (sample_world 60)) @
     replicate 20 (Run 3 (sample_world 60)) @ Again 3 # replicate 20 (Run 3 (sample_world 60)) @ Again 3 # replicate 25 (Run 3 (sample_world 60)) @
     replicate 20 (Run 2 (sample_world 60)) @ replicate 20 (Run 4 (sample_world 60))"

definition three_provers :: "Prover list" where "three_provers = [sample_prover, sample_prover, sample_prover]"

definition stolen_row :: "u64 \<Rightarrow> u64 \<Rightarrow> string \<Rightarrow> Proof" where
  "stolen_row a c s = \<lparr>BatchNumber = a, BatchNumberFinal = c, pf_Proof = s, pf_InputProver = ''j'', ProofID = Some (CHR ''a'' # CHR 0x01 # s),
     pf_Prover = Some ''p'', pf_ProverID = Some ''1'', GeneratingSince = None, pf_CreatedAt = 60, pf_UpdatedAt = 60\<rparr>"

definition stolen_state :: agg where
  "stolen_state = (sample_agg 1000 [(1, 3)])\<lparr>a_proofs := [stolen_row 2 3 [CHR 0x02, CHR 0x03], stolen_row 1 2 [CHR 0x01, CHR 0x02]]\<rparr>"

lemma stolen_run_result: "snd (run_events (agg_threads sample_agg_env three_provers) stolen_run (sample_agg 1000 [(1, 3)])) = stolen_state"
  by code_simp

text \<open>A turn of a prover that finds nothing to verify, to aggregate or to prove changes nothing.\<close>

lemma turn_without_work:
  assumes "w_db w = None" "\<not> w_done w" "\<not> w_gone w" "w_call w GetStatusRequest = Inr (GetStatusMsg st)" "gs_Status st = STATUS_IDLE"
    and "\<not> StateDBMutex s" "a_verified s \<noteq> []" "isSynced_at None w s" "TimeSendFinalProof s < w_now w" "\<not> verifyingProof s"
    and "GetProofReadyToVerify (w_order w) (a_sequences s) (Max (set (a_verified s))) (a_proofs s) = Inl AggNotFound"
    and "GetProofsToAggregate (w_order w) (a_sequences s) (a_proofs s) = Inl AggNotFound"
    and "GetVirtualBatchToProve (a_batches s) (a_virtual s) (a_proofs s) (Max (set (a_verified s))) = Inl AggNotFound"
  shows "run_alone (replicate 15 w) (Channel_turn env prover) s = (Return (), s)"
proof -
  have e: "replicate 15 w = [w, w, w, w, w, w, w, w, w, w, w, w, w, w, w]" by (simp add: eval_nat_numeral)
  show ?thesis
    unfolding e using assms
    by (simp add: Channel_turn_def IsIdle_def Status_call_def call_def ask_def tryBuildFinalProof_def canVerifyProof_def wait_synced_def
        await_def db_query_def GetLastVerifiedBatch_pg_def getAndLockProofReadyToVerify_def locked_def mutex_lock_def mutex_unlock_def act_def
        tryAggregateProofs_def getAndLockProofsToAggregate_def tryGenerateBatchProof_def getAndLockBatchToProve_def)
qed

text \<open>
  A lock that is removed while its prover still works can block a sequence for good. There is a run without any error in which a slow
  prover loses its locks, others prove the same batches, and the proofs that are left overlap: those of the batches 1-2 and 2-3 of the
  sequence 1-3. No two of them are next to each other, none covers the sequence, and no batch is without a proof: every further turn of a prover
  ends with the table as it was.
\<close>

theorem stolen_lock_blocks_a_sequence:
  "\<exists>es s. list_all (event_ok (world_ok sample_meaning) (outside_ok sample_chain)) es \<and> a_proofs s = [] \<and> a_sequences s = [(1, 3)] \<and>
     (let s' = snd (run_events (agg_threads sample_agg_env three_provers) es s) in
      map pf_key (a_proofs s') = [(2, 3), (1, 2)] \<and>
      run_alone (replicate 15 (sample_world 2000)) (Channel_turn sample_agg_env sample_prover) s' = (Return (), s'))"
proof (intro exI conjI)
  show "list_all (event_ok (world_ok sample_meaning) (outside_ok sample_chain)) stolen_run"
    by (simp add: stolen_run_def list_all_iff sample_world_ok)
  show "a_proofs (sample_agg 1000 [(1, 3)]) = []" "a_sequences (sample_agg 1000 [(1, 3)]) = [(1, 3)]" by (simp_all add: sample_agg_def)
  have "GetProofReadyToVerify (w_order (sample_world 2000)) (a_sequences stolen_state) (Max (set (a_verified stolen_state))) (a_proofs stolen_state) = Inl AggNotFound"
    "GetProofsToAggregate (w_order (sample_world 2000)) (a_sequences stolen_state) (a_proofs stolen_state) = Inl AggNotFound"
    "GetVirtualBatchToProve (a_batches stolen_state) (a_virtual stolen_state) (a_proofs stolen_state) (Max (set (a_verified stolen_state))) = Inl AggNotFound"
    "isSynced_at None (sample_world 2000) stolen_state" "map pf_key (a_proofs stolen_state) = [(2, 3), (1, 2)]"
    by code_simp+
  moreover have "w_call (sample_world 2000) GetStatusRequest = Inr (GetStatusMsg \<lparr>gs_Status = STATUS_IDLE, gs_ProverName = ''p'', gs_ProverId = ''1'', gs_ForkId = 5\<rparr>)"
    by (simp add: sample_world_def sample_call_def)
  ultimately show "let s' = snd (run_events (agg_threads sample_agg_env three_provers) stolen_run (sample_agg 1000 [(1, 3)])) in
      map pf_key (a_proofs s') = [(2, 3), (1, 2)] \<and>
      run_alone (replicate 15 (sample_world 2000)) (Channel_turn sample_agg_env sample_prover) s' = (Return (), s')"
    unfolding stolen_run_result Let_def
    by (intro conjI turn_without_work [where st = "\<lparr>gs_Status = STATUS_IDLE, gs_ProverName = ''p'', gs_ProverId = ''1'', gs_ForkId = 5\<rparr>"]) (simp_all add: sample_world_def stolen_state_def sample_agg_def)
qed

section \<open>Instances\<close>

lemma sample_chain_batches: "b \<in> set (a_batches (sample_agg t sq)) \<Longrightarrow> sample_chain (unat (vb_BatchNumber b)) = Some b"
  by (auto simp: sample_agg_def sample_chain_def sample_vbatch_def unat_of_nat take_bit_eq_mod)

theorem sent_proofs_attest_the_batches_witness:
  "\<exists>r \<in> set (a_mtx (snd (run_events (agg_threads sample_agg_env [sample_prover]) first_run (sample_agg 0 [(1, 1)])))).
     r_id r = ''proof-from-1-to-1'' \<and> (\<exists>a c (f :: FinalProof). r_id r = buildMonitoredTxID a c \<and>
       sample_attests (fp_Proof f) (inputs_of sample_agg_env sample_chain (unat a) (unat c)))"
proof -
  let ?s = "snd (run_events (agg_threads sample_agg_env [sample_prover]) first_run (sample_agg 0 [(1, 1)]))"
  obtain r where r: "a_mtx ?s = [r]" "r_owner r = aggregatorOwner" "r_id r = ''proof-from-1-to-1''"
    using first_run_result by (auto simp: aggregatorOwner_def)
  have "list_all (event_ok (world_ok sample_meaning) (outside_ok sample_chain)) first_run"
    by (simp add: first_run_def list_all_iff sample_world_ok)
  from sent_proofs_attest_the_batches [OF this, of "sample_agg 0 [(1, 1)]" r sample_agg_env "[sample_prover]"] r sample_chain_batches [of _ 0 "[(1, 1)]"]
  have "\<exists>a c f b. 0 < a \<and> a \<le> c \<and> r_id r = buildMonitoredTxID a c \<and>
    final_attests sample_meaning (fp_Proof f) (inputs_of sample_agg_env sample_chain (unat a) (unat c)) \<and> sample_chain (unat c) = Some b \<and>
    (r_to r, r_data r) = map_prod id (\<lambda>d. Some (EncodeToString d)) (BuildTrustedVerifyBatchesTxData sample_agg_env (a - 1) c (final_inputs f b))"
    by (simp add: sample_agg_def)
  then have "\<exists>a c (f :: FinalProof). r_id r = buildMonitoredTxID a c \<and> sample_attests (fp_Proof f) (inputs_of sample_agg_env sample_chain (unat a) (unat c))"
    unfolding sample_meaning_def prover_meaning.simps by blast
  then show ?thesis using r by simp
qed

theorem free_proofs_attest_their_range_witness:
  "sample_attests [CHR 0x01, CHR 0x02] (inputs_of sample_agg_env sample_chain 1 2)"
proof -
  have "list_all (event_ok (world_ok sample_meaning) (outside_ok sample_chain)) stolen_run"
    by (simp add: stolen_run_def list_all_iff sample_world_ok)
  from free_proofs_attest_their_range [OF this, of "sample_agg 1000 [(1, 3)]" sample_agg_env "stolen_row 1 2 [CHR 0x01, CHR 0x02]" three_provers]
    sample_chain_batches [of _ 1000 "[(1, 3)]"]
  show ?thesis unfolding stolen_run_result
    by (simp add: sample_agg_def stolen_state_def stolen_row_def sample_meaning_def)
qed

definition sample_result :: MonitoredTxResult where
  "sample_result = \<lparr>re_ID = buildMonitoredTxID 1 2, re_Status = MonitoredTxStatusConfirmed, re_Txs = []\<rparr>"

theorem verified_range_is_cleaned_witness:
  "snd (run_alone [sample_world 0, sample_world 0] (handleMonitoredTxResult sample_result) (stolen_state\<lparr>a_verified := [2]\<rparr>)) =
     stolen_state\<lparr>a_verified := [2], a_proofs := [stolen_row 2 3 [CHR 0x02, CHR 0x03]]\<rparr>"
proof -
  have "isSynced_at (Some 2) (sample_world 0) (stolen_state\<lparr>a_verified := [2]\<rparr>)" by code_simp
  then show ?thesis
    using verified_range_is_cleaned [of sample_result 1 2 "sample_world 0" "sample_world 0" "stolen_state\<lparr>a_verified := [2]\<rparr>"]
    by (simp add: sample_result_def sample_world_def stolen_state_def stolen_row_def)
qed

definition base_env :: agg_env where
  "base_env = sample_agg_env\<lparr>ae_cfg := (ae_cfg sample_agg_env)\<lparr>ProfitabilityChecker := CheckerBase 1\<rparr>\<rparr>"

lemma sample_next: "GetVirtualBatchToProve (a_batches (sample_agg t sq)) (a_virtual (sample_agg t sq)) (a_proofs (sample_agg t sq))
    (Max (set (a_verified (sample_agg t sq)))) = Inr (sample_vbatch 1)"
  unfolding sample_agg_def by code_simp

theorem unprofitable_batch_panics_witness:
  "run_alone [sample_world 0, sample_world 0, sample_world 0, sample_world 0] (tryGenerateBatchProof base_env sample_prover) (sample_agg 0 []) =
     (Panics, sample_agg 0 [])"
  using unprofitable_batch_panics [of base_env 1 "sample_world 0" "sample_world 0" "sample_agg 0 []" "sample_vbatch 1" "sample_world 0" "sample_world 0"
      sample_prover] sample_next [of 0 "[]"]
  by (simp add: base_env_def sample_world_def sample_agg_def)

theorem batch_proof_is_generated_witness:
  "\<exists>n. map pf_Proof (a_proofs (snd (run_alone (replicate n (sample_world 0)) (tryGenerateBatchProof sample_agg_env sample_prover) (sample_agg 0 [])))) = [[CHR 0x01]]"
proof -
  have "w_call (sample_world 0) (GenBatchProofRequest (sample_input 1)) = Inr (GenBatchProofMsg RESULT_OK [CHR ''b'', CHR 0x01])"
    "w_call (sample_world 0) (GetProofRequest [CHR ''b'', CHR 0x01]) = Inr (GetProofMsg GP_COMPLETED_OK (RecursivePayload [CHR 0x01]))"
    "GetBatchByNumber_pg (a_batches (sample_agg 0 [])) 0 = Inr (sample_vbatch 0)"
    by code_simp+
  moreover have "vb_BatchNumber (sample_vbatch 1) - 1 = 0" "input_of sample_agg_env (sample_vbatch 0) (sample_vbatch 1) = sample_input 1"
    by (simp_all add: sample_vbatch_def sample_input_def)
  ultimately obtain n where "run_alone (replicate n (sample_world 0)) (tryGenerateBatchProof sample_agg_env sample_prover) (sample_agg 0 []) =
     (Return (Inr True), (sample_agg 0 [])\<lparr>a_proofs := [\<lparr>BatchNumber = vb_BatchNumber (sample_vbatch 1), BatchNumberFinal = vb_BatchNumber (sample_vbatch 1),
      pf_Proof = [CHR 0x01], pf_InputProver = ''i'', ProofID = Some [CHR ''b'', CHR 0x01], pf_Prover = Some ''p'', pf_ProverID = Some ''1'',
      GeneratingSince = None, pf_CreatedAt = 0, pf_UpdatedAt = 0\<rparr>]\<rparr>)"
    using batch_proof_is_generated [of "sample_world 0" "sample_agg 0 []" sample_agg_env "sample_vbatch 1" "sample_vbatch 0" "''i''"
        "[CHR ''b'', CHR 0x01]" "[CHR 0x01]" sample_prover] sample_next [of 0 "[]"]
    by (auto simp: sample_world_def sample_agg_def sample_agg_env_def IsProfitable_def sample_prover_def)
  then show ?thesis by (intro exI [of _ n]) simp
qed

end
