(* ===== verification/GasPrice.thy ===== *)
theory GasPrice
  imports PoolStorage
begin

text \<open>
  The suggester of L2 gas prices: \<open>gasprice\<close>, over the tables of the pool. It writes a pair of prices, of L2 and L1, in one of
  three ways; each way is a function on the tables, with \<open>None\<close> for a panic. The price of L1, the number of the last block and the transactions of a block are
  answers of the world. The properties: which price the follower writes; that the average of the last batches never gets to write one.
\<close>

section \<open>Data\<close>

record GPConfig =
  gp_Type :: string
  DefaultGasPriceWei :: u64
  MaxGasPriceWei :: u64
  gp_MaxPrice :: "int option"
  gp_IgnorePrice :: "int option"
  gp_CheckBlocks :: int
  gp_Percentile :: int
  CleanHistoryTimeRetention :: int
  gp_Factor :: big_float

definition DefaultType :: string where "DefaultType = ''default''"
definition LastNBatchesType :: string where "LastNBatchesType = ''lastnbatches''"
definition FollowerType :: string where "FollowerType = ''follower''"

definition sampleNumber :: nat where "sampleNumber = 3"

record LastNL2BlocksGasPrice =
  ln_lastL2BlockNumber :: u64
  ln_lastPrice :: "int option"

datatype L2GasPricer = DefaultPricer u64 | FollowerPricer | LastNPricer LastNL2BlocksGasPrice

text \<open>
  What the world answers at an update: \<open>GetTxsByBlockNumber\<close> gives the tips of the transactions of a block, or nil, and an error.
\<close>

record gp_world =
  gw_pg :: pool_pg
  gw_now :: int
  gw_L1GasPrice :: int
  gw_LastL2BlockNumber :: "string + u64"
  gw_Txs :: "u64 \<Rightarrow> int list option \<times> string option"

text \<open>\<open>int64(cfg.Factor * 100)\<close> in the floating point of Go, for a factor that is not negative and far below \<open>2 ^ 56\<close>.\<close>

definition factorAsPercentage :: "GPConfig \<Rightarrow> nat" where
  "factorAsPercentage cfg = Float_Int (Float_Mul (gp_Factor cfg) (100, 0))"

section \<open>The default price\<close>

definition default_l1GasPrice :: "GPConfig \<Rightarrow> u64 option" where
  "default_l1GasPrice cfg = (if factorAsPercentage cfg = 0 then None
     else Some (big_Uint64 (uint (DefaultGasPriceWei cfg) div int (factorAsPercentage cfg) * 100)))"

definition setDefaultGasPrice :: "GPConfig \<Rightarrow> u64 \<Rightarrow> gp_world \<Rightarrow> pool_db \<Rightarrow> pool_db option" where
  "setDefaultGasPrice cfg l1 w db =
     (case SetGasPrices_pg (gw_pg w) (DefaultGasPriceWei cfg) l1 (gw_now w) db of Inl _ \<Rightarrow> None | Inr db' \<Rightarrow> Some db')"

definition newDefaultGasPriceSuggester :: "GPConfig \<Rightarrow> gp_world \<Rightarrow> pool_db \<Rightarrow> (L2GasPricer \<times> pool_db) option" where
  "newDefaultGasPriceSuggester cfg w db =
     (case default_l1GasPrice cfg of
        None \<Rightarrow> None
      | Some l1 \<Rightarrow> map_option (Pair (DefaultPricer l1)) (setDefaultGasPrice cfg l1 w db))"

section \<open>Following L1\<close>

definition follower_result :: "GPConfig \<Rightarrow> int \<Rightarrow> int" where
  "follower_result cfg l1GasPrice =
     (let result = int (Float_Int (Float_Mul (gp_Factor cfg) (Float_SetInt (nat l1GasPrice))));
          minGasPrice = uint (DefaultGasPriceWei cfg);
          result = (if result < minGasPrice then minGasPrice else result);
          maxGasPrice = uint (MaxGasPriceWei cfg)
      in if 0 < MaxGasPriceWei cfg \<and> maxGasPrice < result then maxGasPrice else result)"

text \<open>The first three digits, and zeros; \<open>nil\<close> if that is no number.\<close>

definition truncateValue :: "int \<Rightarrow> int option" where
  "truncateValue result =
     (let numLength = length (big_Text 10 result) in
      if 3 < numLength then big_SetString (take 3 (big_Text 10 result) @ replicate (numLength - 3) (CHR ''0'')) 10
      else Some result)"

definition follower_UpdateGasPriceAvg :: "GPConfig \<Rightarrow> gp_world \<Rightarrow> pool_db \<Rightarrow> pool_db" where
  "follower_UpdateGasPriceAvg cfg w db =
     (if gw_L1GasPrice w = 0 then db
      else (case truncateValue (follower_result cfg (gw_L1GasPrice w)) of
          None \<Rightarrow> db
        | Some v \<Rightarrow> (case SetGasPrices_pg (gw_pg w) (big_Uint64 v) (big_Uint64 (gw_L1GasPrice w)) (gw_now w) db of Inl _ \<Rightarrow> db | Inr db' \<Rightarrow> db')))"

section \<open>The last batches\<close>

text \<open>
  The tips of a block: sorted, without those that are ignored, and not more than the limit. The values and the error that a
  goroutine sends.
\<close>

definition getL2BlockTxsTips :: "GPConfig \<Rightarrow> gp_world \<Rightarrow> u64 \<Rightarrow> int list \<times> string option" where
  "getL2BlockTxsTips cfg w n = (case gw_Txs w n of
     (None, err) \<Rightarrow> ([], err)
   | (Some tips, _) \<Rightarrow> (take sampleNumber (filter (\<lambda>tip. case gp_IgnorePrice cfg of None \<Rightarrow> True | Some i \<Rightarrow> i \<le> tip) (sort tips)), None))"

text \<open>The blocks that are asked for: as many as configured, from the one of the last update down to the first.\<close>

definition asked_blocks :: "GPConfig \<Rightarrow> u64 \<Rightarrow> u64 list" where
  "asked_blocks cfg n = map (\<lambda>i. n - of_nat i) [0..<min (nat (gp_CheckBlocks cfg)) (unat n)]"

text \<open>A block without values counts with the last price.\<close>

definition block_values :: "int option \<Rightarrow> int list \<Rightarrow> int option list" where
  "block_values lastPrice vs = (if vs = [] then [lastPrice] else map Some vs)"

text \<open>Comparing a price with a nil price panics, unless both are nil; so does sorting a list that has both.\<close>

definition sort_prices :: "int option list \<Rightarrow> int option list option" where
  "sort_prices ps = (if None \<in> set ps then (if set ps = {None} then Some ps else None) else Some (map Some (sort (map the ps))))"

definition percentile_index :: "GPConfig \<Rightarrow> nat \<Rightarrow> int" where
  "percentile_index cfg n = (let t = (int n - 1) * gp_Percentile cfg in sgn t * (\<bar>t\<bar> div 100))"

text \<open>\<open>price.Cmp(MaxPrice) > 0\<close>, with the panics on nil.\<close>

definition limit_price :: "int option \<Rightarrow> int option \<Rightarrow> int option option" where
  "limit_price maxPrice price = (case (price, maxPrice) of
     (None, None) \<Rightarrow> Some None
   | (Some p, Some m) \<Rightarrow> Some (Some (if m < p then m else p))
   | _ \<Rightarrow> None)"

definition choose_price :: "GPConfig \<Rightarrow> int option \<Rightarrow> int option list \<Rightarrow> int option option" where
  "choose_price cfg lastPrice results =
     (if results = [] then Some lastPrice
      else (case sort_prices results of
          None \<Rightarrow> None
        | Some ps \<Rightarrow>
            (let i = percentile_index cfg (length ps) in if 0 \<le> i \<and> i < int (length ps) then Some (ps ! nat i) else None)))"

text \<open>The prices that are written; \<open>Div\<close> panics on a nil price and on a zero factor.\<close>

definition lastN_store :: "GPConfig \<Rightarrow> gp_world \<Rightarrow> int option \<Rightarrow> pool_db \<Rightarrow> pool_db option" where
  "lastN_store cfg w lastPrice db = (case lastPrice of
     None \<Rightarrow> None
   | Some p \<Rightarrow>
       if factorAsPercentage cfg = 0 then None
       else Some (case SetGasPrices_pg (gw_pg w) (big_Uint64 p) (big_Uint64 (p div int (factorAsPercentage cfg) * 100)) (gw_now w) db of
              Inl _ \<Rightarrow> db | Inr db' \<Rightarrow> db'))"

definition lastN_UpdateGasPriceAvg ::
  "GPConfig \<Rightarrow> gp_world \<Rightarrow> LastNL2BlocksGasPrice \<Rightarrow> pool_db \<Rightarrow> (LastNL2BlocksGasPrice \<times> pool_db) option" where
  "lastN_UpdateGasPriceAvg cfg w g db =
     (let l2BlockNumber = (case gw_LastL2BlockNumber w of Inl _ \<Rightarrow> 0 | Inr n \<Rightarrow> n) in
      if l2BlockNumber = ln_lastL2BlockNumber g then Some (g, db)
      else if gp_CheckBlocks cfg < 0 then None
      else (let rs = map (getL2BlockTxsTips cfg w) (asked_blocks cfg (ln_lastL2BlockNumber g)) in
        if list_ex (\<lambda>r. snd r \<noteq> None) rs then Some (g, db)
        else (case choose_price cfg (ln_lastPrice g) (concat (map (\<lambda>r. block_values (ln_lastPrice g) (fst r)) rs)) of
            None \<Rightarrow> None
          | Some price \<Rightarrow> (case limit_price (gp_MaxPrice cfg) price of
              None \<Rightarrow> None
            | Some price \<Rightarrow> map_option (Pair (g\<lparr>ln_lastL2BlockNumber := l2BlockNumber, ln_lastPrice := price\<rparr>)) (lastN_store cfg w price db)))))"

section \<open>The suggester\<close>

datatype gp_event = UpdateTick gp_world | CleanTick gp_world

definition start_pricer :: "GPConfig \<Rightarrow> gp_world \<Rightarrow> pool_db \<Rightarrow> (L2GasPricer \<times> pool_db) option" where
  "start_pricer cfg w db =
     (if gp_Type cfg = LastNBatchesType then Some (LastNPricer \<lparr>ln_lastL2BlockNumber = 0, ln_lastPrice = None\<rparr>, db)
      else if gp_Type cfg = FollowerType then Some (FollowerPricer, follower_UpdateGasPriceAvg cfg w db)
      else if gp_Type cfg = DefaultType then newDefaultGasPriceSuggester cfg w db
      else None)"

fun UpdateGasPriceAvg :: "GPConfig \<Rightarrow> gp_world \<Rightarrow> L2GasPricer \<times> pool_db \<Rightarrow> (L2GasPricer \<times> pool_db) option" where
  "UpdateGasPriceAvg cfg w (DefaultPricer l1, db) = map_option (Pair (DefaultPricer l1)) (setDefaultGasPrice cfg l1 w db)"
| "UpdateGasPriceAvg cfg w (FollowerPricer, db) = Some (FollowerPricer, follower_UpdateGasPriceAvg cfg w db)"
| "UpdateGasPriceAvg cfg w (LastNPricer g, db) = map_option (map_prod LastNPricer id) (lastN_UpdateGasPriceAvg cfg w g db)"

definition cleanGasPriceHistory :: "GPConfig \<Rightarrow> gp_world \<Rightarrow> pool_db \<Rightarrow> pool_db" where
  "cleanGasPriceHistory cfg w db =
     (case DeleteGasPricesHistoryOlderThan_pg (gw_pg w) (gw_now w - CleanHistoryTimeRetention cfg) db of Inl _ \<Rightarrow> db | Inr db' \<Rightarrow> db')"

fun gp_event_step :: "GPConfig \<Rightarrow> gp_event \<Rightarrow> L2GasPricer \<times> pool_db \<Rightarrow> (L2GasPricer \<times> pool_db) option" where
  "gp_event_step cfg (UpdateTick w) s = UpdateGasPriceAvg cfg w s"
| "gp_event_step cfg (CleanTick w) s = Some (fst s, cleanGasPriceHistory cfg w (snd s))"

fun gp_run :: "GPConfig \<Rightarrow> gp_event list \<Rightarrow> L2GasPricer \<times> pool_db \<Rightarrow> (L2GasPricer \<times> pool_db) option" where
  "gp_run cfg [] s = Some s"
| "gp_run cfg (e # es) s = Option.bind (gp_event_step cfg e s) (gp_run cfg es)"

definition NewL2GasPriceSuggester :: "GPConfig \<Rightarrow> gp_world \<Rightarrow> gp_event list \<Rightarrow> pool_db \<Rightarrow> (L2GasPricer \<times> pool_db) option" where
  "NewL2GasPriceSuggester cfg w es db = Option.bind (start_pricer cfg w db) (gp_run cfg es)"

section \<open>Digits\<close>

lemma go_text_digit: "n < 10 \<Longrightarrow> go_text 10 n = [digit_char n]"
  by (simp add: go_text.simps)

lemma go_text_step: "10 \<le> n \<Longrightarrow> go_text 10 n = go_text 10 (n div 10) @ [digit_char (n mod 10)]"
  by (subst go_text.simps) simp

lemma go_text_take:
  assumes "k < length (go_text 10 n)"
  shows "take (length (go_text 10 n) - k) (go_text 10 n) = go_text 10 (n div 10 ^ k)"
  using assms
proof (induction k arbitrary: n)
  case (Suc k)
  show ?case
  proof (cases "n < 10")
    case False
    then have t: "go_text 10 n = go_text 10 (n div 10) @ [digit_char (n mod 10)]" by (simp add: go_text_step)
    then have "k < length (go_text 10 (n div 10))" using Suc.prems by simp
    from Suc.IH [OF this] show ?thesis by (simp add: t div_mult2_eq)
  qed (use Suc.prems in \<open>simp add: go_text_digit\<close>)
qed simp

lemma go_text_zeros:
  assumes "0 < m"
  shows "go_text 10 m @ replicate k (CHR ''0'') = go_text 10 (m * 10 ^ k)"
proof (induction k)
  case (Suc k)
  have "go_text 10 (m * 10 ^ Suc k) = go_text 10 (m * 10 ^ k) @ [CHR ''0'']"
  proof -
    have "10 \<le> m * 10 ^ Suc k" using assms by simp
    moreover have "m * 10 ^ Suc k div 10 = m * 10 ^ k" "m * 10 ^ Suc k mod 10 = 0" by simp_all
    moreover have "digit_char 0 = CHR ''0''" by code_simp
    ultimately show ?thesis using go_text_step [of "m * 10 ^ Suc k"] by simp
  qed
  then show ?case using Suc by (simp add: replicate_append_same [symmetric] del: replicate.simps(2) flip: append_assoc) (metis append_assoc replicate_Suc replicate_append_same)
qed simp

lemma go_text_length_pos: "k < length (go_text 10 n) \<Longrightarrow> 0 < n \<Longrightarrow> 0 < n div 10 ^ k"
proof (induction k arbitrary: n)
  case (Suc k)
  show ?case
  proof (cases "n < 10")
    case False
    then have "k < length (go_text 10 (n div 10))" using Suc.prems by (simp add: go_text_step)
    moreover have "0 < n div 10" using False by (simp add: div_greater_zero_iff)
    ultimately show ?thesis using Suc.IH by (simp add: div_mult2_eq)
  qed (use Suc.prems in \<open>simp add: go_text_digit\<close>)
qed simp

definition digits_kept :: "nat \<Rightarrow> nat" where
  "digits_kept n = n div 10 ^ (length (go_text 10 n) - 3) * 10 ^ (length (go_text 10 n) - 3)"

lemma truncateValue_nat: "truncateValue (int n) = Some (int (digits_kept n))"
proof (cases "3 < length (go_text 10 n)")
  case True
  let ?k = "length (go_text 10 n) - 3"
  have n: "0 < n" using True by (cases "n = 0") (simp_all add: go_text_digit)
  have "take 3 (go_text 10 n) = go_text 10 (n div 10 ^ ?k)" using go_text_take [of ?k n] True by simp
  moreover have "0 < n div 10 ^ ?k" using go_text_length_pos [of ?k n] True n by simp
  ultimately have "take 3 (go_text 10 n) @ replicate ?k (CHR ''0'') = go_text 10 (digits_kept n)"
    using go_text_zeros by (simp add: digits_kept_def)
  then show ?thesis using True big_SetString_go_text [of 10 "digits_kept n"] by (simp add: truncateValue_def big_Text_def)
qed (simp add: truncateValue_def big_Text_def digits_kept_def)

lemma digits_kept_bounds:
  "digits_kept n \<le> n" "n < digits_kept n + 10 ^ (length (go_text 10 n) - 3)" "length (go_text 10 n) \<le> 3 \<Longrightarrow> digits_kept n = n"
proof -
  let ?d = "10 ^ (length (go_text 10 n) - 3) :: nat"
  have "n div ?d * ?d + n mod ?d = n" "n mod ?d < ?d" by (rule div_mult_mod_eq) simp
  then show "digits_kept n \<le> n" "n < digits_kept n + ?d" unfolding digits_kept_def by linarith+
qed (simp add: digits_kept_def)

lemma digits_kept_percent: "100 * n \<le> 101 * digits_kept n"
proof (cases "3 < length (go_text 10 n)")
  case True
  let ?k = "length (go_text 10 n) - 3"
  have "0 < n" using True by (cases "n = 0") (simp_all add: go_text_digit)
  then have "0 < n div 10 ^ (?k + 2)" using go_text_length_pos [of "?k + 2" n] True by simp
  then have "10 ^ (?k + 2) \<le> n" by (simp add: div_greater_zero_iff del: power_add)
  then have "100 \<le> n div 10 ^ ?k" by (simp add: less_eq_div_iff_mult_less_eq power_add mult.commute)
  then have "100 * 10 ^ ?k \<le> digits_kept n" unfolding digits_kept_def by (rule mult_le_mono1)
  with digits_kept_bounds(2) [of n] show ?thesis by linarith
qed (simp add: digits_kept_bounds(3))

text \<open>What the cut of the decimal string does to the number: all but its first three digits become zero.\<close>

fun three_digits :: "nat \<Rightarrow> nat" where
  "three_digits n = (if n < 1000 then n else 10 * three_digits (n div 10))"

declare three_digits.simps [simp del]

lemma go_text_length_three: "n < 1000 \<Longrightarrow> length (go_text 10 n) \<le> 3" "100 \<le> n \<Longrightarrow> 3 \<le> length (go_text 10 n)"
proof -
  have two: "length (go_text 10 m) \<le> 2" if "m < 100" for m
    using that by (cases "m < 10") (simp_all add: go_text_digit go_text_step)
  show "length (go_text 10 n) \<le> 3" if "n < 1000"
    using that two [of "n div 10"] by (cases "n < 10") (simp_all add: go_text_digit go_text_step)
  have one: "1 \<le> length (go_text 10 m)" for m
    by (cases "m < 10") (simp_all add: go_text_digit go_text_step)
  show "3 \<le> length (go_text 10 n)" if "100 \<le> n"
    using that one [of "n div 10 div 10"] by (simp add: go_text_step)
qed

lemma digits_kept_three: "digits_kept n = three_digits n"
proof (induction n rule: three_digits.induct)
  case (1 n)
  show ?case
  proof (cases "n < 1000")
    case True
    then show ?thesis using digits_kept_bounds(3) go_text_length_three(1) by (simp add: three_digits.simps)
  next
    case False
    let ?l = "length (go_text 10 (n div 10)) - 3"
    have "3 \<le> length (go_text 10 (n div 10))" using False by (intro go_text_length_three(2)) simp
    then have "length (go_text 10 n) - 3 = Suc ?l" using False by (simp add: go_text_step)
    then have "digits_kept n = 10 * digits_kept (n div 10)" by (simp add: digits_kept_def div_mult2_eq)
    with 1 False show ?thesis by (simp add: three_digits.simps [of n])
  qed
qed

section \<open>What the follower writes\<close>

text \<open>
  The price of L2 before its digits are cut: the factor applied, not less than the default, and not more than the
  largest price if one is configured; zero means no limit.
\<close>

definition held_price :: "GPConfig \<Rightarrow> int \<Rightarrow> int" where
  "held_price cfg l1 =
     (let x = max (uint (DefaultGasPriceWei cfg)) (int (Float_Int (Float_Mul (gp_Factor cfg) (Float_SetInt (nat l1)))))
      in if MaxGasPriceWei cfg = 0 then x else min (uint (MaxGasPriceWei cfg)) x)"

lemma follower_result_held: "follower_result cfg l1 = held_price cfg l1"
  by (auto simp: follower_result_def held_price_def Let_def min_def max_def word_gt_0)

lemma held_price_bounds:
  "0 \<le> held_price cfg l1" "MaxGasPriceWei cfg \<noteq> 0 \<Longrightarrow> held_price cfg l1 \<le> uint (MaxGasPriceWei cfg)"
  "MaxGasPriceWei cfg = 0 \<or> DefaultGasPriceWei cfg \<le> MaxGasPriceWei cfg \<Longrightarrow> uint (DefaultGasPriceWei cfg) \<le> held_price cfg l1"
  by (auto simp: held_price_def Let_def word_le_def)

lemma uint_big_Uint64: "0 \<le> i \<Longrightarrow> i < 2 ^ 64 \<Longrightarrow> uint (big_Uint64 i) = i"
  by (simp add: big_Uint64_def of_int_of_nat [symmetric] uint_word_of_int take_bit_int_eq_self)

text \<open>The number that is written, before it is cut to 64 bits.\<close>

definition follower_number :: "GPConfig \<Rightarrow> int \<Rightarrow> int" where
  "follower_number cfg l1 = int (three_digits (nat (held_price cfg l1)))"

lemma follower_number_bounds:
  "0 \<le> follower_number cfg l1" "follower_number cfg l1 \<le> held_price cfg l1" "100 * held_price cfg l1 \<le> 101 * follower_number cfg l1"
proof -
  let ?n = "nat (held_price cfg l1)"
  have "three_digits ?n \<le> ?n" "100 * ?n \<le> 101 * three_digits ?n"
    using digits_kept_bounds(1) [of ?n] digits_kept_percent [of ?n] by (simp_all add: digits_kept_three)
  then show "0 \<le> follower_number cfg l1" "follower_number cfg l1 \<le> held_price cfg l1" "100 * held_price cfg l1 \<le> 101 * follower_number cfg l1"
    using held_price_bounds(1) [of cfg l1] unfolding follower_number_def by linarith+
qed

lemma follower_number_fits:
  assumes "MaxGasPriceWei cfg \<noteq> 0"
  shows "uint (big_Uint64 (follower_number cfg l1)) = follower_number cfg l1" "big_Uint64 (follower_number cfg l1) \<le> MaxGasPriceWei cfg"
proof -
  have m: "follower_number cfg l1 \<le> uint (MaxGasPriceWei cfg)"
    using follower_number_bounds(2) [of cfg l1] held_price_bounds(2) [OF assms, of l1] by linarith
  then show u: "uint (big_Uint64 (follower_number cfg l1)) = follower_number cfg l1"
    using follower_number_bounds(1) [of cfg l1] uint_lt2p [of "MaxGasPriceWei cfg"] by (intro uint_big_Uint64) simp_all
  then show "big_Uint64 (follower_number cfg l1) \<le> MaxGasPriceWei cfg" using m by (simp add: word_le_def)
qed

lemma follower_writes:
  assumes "gw_L1GasPrice w \<noteq> 0"
  shows "follower_UpdateGasPriceAvg cfg w db =
      (case SetGasPrices_pg (gw_pg w) (big_Uint64 (follower_number cfg (gw_L1GasPrice w))) (big_Uint64 (gw_L1GasPrice w)) (gw_now w) db of
         Inl _ \<Rightarrow> db | Inr db' \<Rightarrow> db')"
proof -
  have "truncateValue (held_price cfg (gw_L1GasPrice w)) = Some (follower_number cfg (gw_L1GasPrice w))"
    using truncateValue_nat [of "nat (held_price cfg (gw_L1GasPrice w))"] held_price_bounds(1) [of cfg "gw_L1GasPrice w"]
    by (simp add: digits_kept_three follower_number_def)
  then show ?thesis using assms by (simp add: follower_UpdateGasPriceAvg_def follower_result_held)
qed

text \<open>
  C39. What the follower writes, with and without a largest price. After an update that got a price of L1 and could write, the
  current prices are that of L1 and, for L2, the low 64 bits of this number: the price of L1 times the factor, not less than
  the default and, if a largest price is configured, not more than that, with all digits but the first three set to zero. The
  cut comes last and takes less than one percent, so the default price, which is meant as a minimum, may be missed by that.
  With a largest price the number fits in 64 bits and is not above it. Without one, which is the configuration that is
  shipped, nothing keeps the number below \<open>2 ^ 64\<close>, and one that is not is written modulo \<open>2 ^ 64\<close>.
\<close>

theorem follower_price:
  assumes "prices_ok db" "0 < gw_L1GasPrice w"
    and "pg_fails (gw_pg w) ''SetGasPrices'' = None" "pg_fails pg ''GetGasPrices'' = None"
  shows "let v = held_price cfg (gw_L1GasPrice w); n = int (three_digits (nat v)) in
    GetGasPrices_pg pg (follower_UpdateGasPriceAvg cfg w db) = Inr (word_of_int n, word_of_int (gw_L1GasPrice w)) \<and>
    n \<le> v \<and> 100 * v \<le> 101 * n \<and>
    (MaxGasPriceWei cfg = 0 \<or> DefaultGasPriceWei cfg \<le> MaxGasPriceWei cfg \<longrightarrow> 100 * uint (DefaultGasPriceWei cfg) \<le> 101 * n) \<and>
    (MaxGasPriceWei cfg \<noteq> 0 \<longrightarrow> n \<le> uint (MaxGasPriceWei cfg) \<and> uint (word_of_int n :: u64) = n)"
proof -
  let ?l1 = "gw_L1GasPrice w"
  have low: "big_Uint64 i = word_of_int i" if "0 \<le> i" for i using that by (simp add: big_Uint64_def)
  obtain db' where "SetGasPrices_pg (gw_pg w) (big_Uint64 (follower_number cfg ?l1)) (big_Uint64 ?l1) (gw_now w) db = Inr db'"
    using assms(3) by (simp add: SetGasPrices_pg_def pg_run_def)
  then have "GetGasPrices_pg pg (follower_UpdateGasPriceAvg cfg w db) = Inr (big_Uint64 (follower_number cfg ?l1), big_Uint64 ?l1)"
    using follower_writes [of w cfg db] SetGasPrices_current [OF assms(1) _ assms(4)] assms(2) by simp
  then have "GetGasPrices_pg pg (follower_UpdateGasPriceAvg cfg w db) = Inr (word_of_int (follower_number cfg ?l1), word_of_int ?l1)"
    using low follower_number_bounds(1) assms(2) by simp
  moreover have "100 * uint (DefaultGasPriceWei cfg) \<le> 101 * follower_number cfg ?l1"
    if "MaxGasPriceWei cfg = 0 \<or> DefaultGasPriceWei cfg \<le> MaxGasPriceWei cfg"
    using held_price_bounds(3) [OF that, of ?l1] follower_number_bounds(3) [of cfg ?l1] by linarith
  moreover have "follower_number cfg ?l1 \<le> uint (MaxGasPriceWei cfg) \<and> uint (word_of_int (follower_number cfg ?l1) :: u64) = follower_number cfg ?l1"
    if "MaxGasPriceWei cfg \<noteq> 0"
    using held_price_bounds(2) [OF that, of ?l1] follower_number_bounds [of cfg ?l1] follower_number_fits(1) [OF that, of ?l1]
      low [OF follower_number_bounds(1)] by simp
  ultimately show ?thesis using follower_number_bounds(2,3) [of cfg ?l1] unfolding Let_def follower_number_def [symmetric] by blast
qed

definition example_gp :: GPConfig where
  "example_gp = \<lparr>gp_Type = FollowerType, DefaultGasPriceWei = 1009, MaxGasPriceWei = 10000000000, gp_MaxPrice = None, gp_IgnorePrice = None,
     gp_CheckBlocks = 5, gp_Percentile = 60, CleanHistoryTimeRetention = 300, gp_Factor = (1, -3)\<rparr>"

definition example_gp_world :: gp_world where
  "example_gp_world = \<lparr>gw_pg = \<lparr>pg_fails = (\<lambda>_. None), pg_order = id\<rparr>, gw_now = 7, gw_L1GasPrice = 1000, gw_LastL2BlockNumber = Inr 3,
     gw_Txs = (\<lambda>_. (Some [], None))\<rparr>"

definition example_gp_db :: pool_db where
  "example_gp_db = \<lparr>db_transaction = [], db_gas_price = [], db_gas_price_seq = 1, db_blocked = []\<rparr>"

text \<open>The same without a limit.\<close>

definition example_gp_unlimited :: GPConfig where
  "example_gp_unlimited = example_gp\<lparr>MaxGasPriceWei := 0\<rparr>"

theorem follower_price_witness:
  "list_all (\<lambda>cfg. held_price cfg 1000 = 1009 \<and>
     GetGasPrices_pg (gw_pg example_gp_world) (follower_UpdateGasPriceAvg cfg example_gp_world example_gp_db) = Inr (1000, 1000))
     [example_gp, example_gp_unlimited]"
proof -
  have db: "prices_ok example_gp_db" by (simp add: prices_ok_def example_gp_db_def)
  have pg: "pg_fails (gw_pg example_gp_world) q = None" for q by (simp add: example_gp_world_def)
  have l1: "gw_L1GasPrice example_gp_world = 1000" by (simp add: example_gp_world_def)
  have d: "three_digits 1009 = 1000" by (simp add: three_digits.simps)
  have "GetGasPrices_pg (gw_pg example_gp_world) (follower_UpdateGasPriceAvg cfg example_gp_world example_gp_db) = Inr (1000, 1000)"
    if "held_price cfg 1000 = 1009" for cfg
    using follower_price [OF db, of example_gp_world "gw_pg example_gp_world" cfg] that d pg l1 by (simp add: Let_def)
  moreover have "Float_Int (Float_Mul (1, -3) (Float_SetInt 1000)) = 125" by code_simp
  then have "held_price example_gp 1000 = 1009" "held_price example_gp_unlimited 1000 = 1009"
    by (simp_all add: held_price_def example_gp_def example_gp_unlimited_def)
  ultimately show ?thesis by simp
qed

text \<open>No run of the follower writes a price above the limit.\<close>

lemma follower_step_prices:
  assumes "0 < MaxGasPriceWei cfg" "0 \<le> gw_L1GasPrice w"
  shows "\<forall>r \<in> set (db_gas_price (follower_UpdateGasPriceAvg cfg w db)). r \<in> set (db_gas_price db) \<or> gp_price r \<le> MaxGasPriceWei cfg"
proof (cases "gw_L1GasPrice w = 0")
  case False
  then show ?thesis
    using follower_writes [OF False, of cfg db] follower_number_fits(2) [of cfg "gw_L1GasPrice w"] assms(1)
    by (auto simp: SetGasPrices_pg_def pg_run_def split: option.splits)
qed (simp add: follower_UpdateGasPriceAvg_def)

section \<open>The average of the last batches\<close>

fun sees_block :: "gp_event \<Rightarrow> bool" where
  "sees_block (UpdateTick w) = (case gw_LastL2BlockNumber w of Inl _ \<Rightarrow> False | Inr n \<Rightarrow> n \<noteq> 0)"
| "sees_block (CleanTick w) = False"

abbreviation "no_price \<equiv> LastNPricer \<lparr>ln_lastL2BlockNumber = 0, ln_lastPrice = None\<rparr>"

lemma first_update_panics: "sees_block (UpdateTick w) \<Longrightarrow> UpdateGasPriceAvg cfg w (no_price, db) = None"
  by (cases "gp_MaxPrice cfg")
    (simp_all add: lastN_UpdateGasPriceAvg_def asked_blocks_def choose_price_def limit_price_def lastN_store_def split: sum.splits)

lemma no_block_no_update: "\<not> sees_block (UpdateTick w) \<Longrightarrow> UpdateGasPriceAvg cfg w (no_price, db) = Some (no_price, db)"
  by (simp add: lastN_UpdateGasPriceAvg_def split: sum.splits)

lemma clean_prices: "set (db_gas_price (cleanGasPriceHistory cfg w db)) \<subseteq> set (db_gas_price db)"
  by (auto simp: cleanGasPriceHistory_def DeleteGasPricesHistoryOlderThan_pg_def pg_run_def split: option.splits)

lemma lastnbatches_run:
  "gp_run cfg es (no_price, db) = None \<and> list_ex sees_block es \<or>
   (\<exists>db'. gp_run cfg es (no_price, db) = Some (no_price, db') \<and> \<not> list_ex sees_block es \<and> set (db_gas_price db') \<subseteq> set (db_gas_price db))"
proof (induction es arbitrary: db)
  case (Cons e es)
  show ?case
  proof (cases e)
    case (UpdateTick w)
    then show ?thesis
      using Cons.IH first_update_panics [of w cfg db] no_block_no_update [of w cfg db]
      by (cases "sees_block (UpdateTick w)") (simp_all del: sees_block.simps UpdateGasPriceAvg.simps)
  next
    case (CleanTick w)
    then show ?thesis using Cons.IH [of "cleanGasPriceHistory cfg w db"] clean_prices [of cfg w db] by auto
  qed
qed simp

text \<open>
  C40. With the type \<open>lastnbatches\<close> the suggester never sets a price: for every configuration and every order of its timers it panics at the first update that is
  told of a block, the price it would average from being nil, and until then it only deletes prices. It does not run into the panic only if no
  update ever sees a block.
\<close>

theorem lastnbatches_never_sets_a_price:
  assumes "gp_Type cfg = LastNBatchesType"
  shows "NewL2GasPriceSuggester cfg w es db = None \<and> list_ex sees_block es \<or>
    (\<exists>db'. NewL2GasPriceSuggester cfg w es db = Some (no_price, db') \<and> \<not> list_ex sees_block es \<and>
      set (db_gas_price db') \<subseteq> set (db_gas_price db))"
  using lastnbatches_run [of cfg es db] assms by (simp add: NewL2GasPriceSuggester_def start_pricer_def)

theorem lastnbatches_never_sets_a_price_witness:
  "NewL2GasPriceSuggester (example_gp\<lparr>gp_Type := LastNBatchesType\<rparr>) example_gp_world [CleanTick example_gp_world, UpdateTick example_gp_world]
     example_gp_db = None"
  using lastnbatches_never_sets_a_price [of "example_gp\<lparr>gp_Type := LastNBatchesType\<rparr>" example_gp_world
      "[CleanTick example_gp_world, UpdateTick example_gp_world]" example_gp_db]
  by (simp add: example_gp_world_def)

section \<open>The default price\<close>

text \<open>The default price is set only for a factor of one percent or more.\<close>

lemma default_needs_a_factor: "factorAsPercentage cfg = 0 \<Longrightarrow> gp_Type cfg = DefaultType \<Longrightarrow> NewL2GasPriceSuggester cfg w es db = None"
  by (simp add: NewL2GasPriceSuggester_def start_pricer_def newDefaultGasPriceSuggester_def default_l1GasPrice_def
      DefaultType_def LastNBatchesType_def FollowerType_def)

end
