(* ===== verification/L1InfoTree.thy ===== *)
theory L1InfoTree
  imports HexCodec
begin

text \<open>
  The tree over the exit roots of L1: \<open>l1infotree\<close>. Keccak is a parameter. The root is built level by level from the leaves that are
  there, with the hash of an empty subtree at the right end of a level; the properties relate it to the tree with all its leaves, and
  say that a root fixes its leaves.
\<close>

section \<open>Hashing\<close>

definition hash_bytes :: "hash \<Rightarrow> bytes" where
  "hash_bytes h = be_fixed 32 (unat h)"

definition info_Hash :: "(bytes \<Rightarrow> hash) \<Rightarrow> hash list \<Rightarrow> hash" where
  "info_Hash keccak dat = keccak (concat (map hash_bytes dat))"

definition generateZeroHashes :: "(bytes \<Rightarrow> hash) \<Rightarrow> u8 \<Rightarrow> hash list" where
  "generateZeroHashes keccak height =
     foldl (\<lambda>zeroHashes i. zeroHashes @ [info_Hash keccak [zeroHashes ! (i - 1), zeroHashes ! (i - 1)]]) [0] [1..<unat height + 1]"

definition leaf_bytes :: "hash \<Rightarrow> hash \<Rightarrow> u64 \<Rightarrow> bytes" where
  "leaf_bytes ger prevBlockHash minTimestamp = hash_bytes ger @ hash_bytes prevBlockHash @ be_fixed 8 (unat minTimestamp)"

definition HashLeafData :: "(bytes \<Rightarrow> hash) \<Rightarrow> hash \<Rightarrow> hash \<Rightarrow> u64 \<Rightarrow> hash" where
  "HashLeafData keccak ger prevBlockHash minTimestamp = keccak (leaf_bytes ger prevBlockHash minTimestamp)"

section \<open>The tree\<close>

record L1InfoTree =
  it_height :: u8
  zeroHashes :: "hash list"

definition NewL1InfoTree :: "(bytes \<Rightarrow> hash) \<Rightarrow> u8 \<Rightarrow> L1InfoTree" where
  "NewL1InfoTree keccak height = \<lparr>it_height = height, zeroHashes = generateZeroHashes keccak height\<rparr>"

text \<open>A node with its children; an odd number of leaves is an index out of range.\<close>

type_synonym info_node = "hash \<times> hash \<times> hash"

fun buildIntermediate :: "(bytes \<Rightarrow> hash) \<Rightarrow> hash list \<Rightarrow> (info_node list \<times> hash list) option" where
  "buildIntermediate keccak [] = Some ([], [])"
| "buildIntermediate keccak [l] = None"
| "buildIntermediate keccak (l # r # leaves) =
     (let h = info_Hash keccak [l, r] in
      map_option (\<lambda>(nodes, hashes). ((h, l, r) # nodes, h # hashes)) (buildIntermediate keccak leaves))"

datatype info_error = MoreThanOneRoot "info_node list list"

text \<open>The levels from \<open>h\<close> on, with the nodes of the levels below and the last of them.\<close>

function build_levels :: "(bytes \<Rightarrow> hash) \<Rightarrow> L1InfoTree \<Rightarrow> nat \<Rightarrow> info_node list list \<Rightarrow> info_node list \<Rightarrow> hash list \<Rightarrow>
    (info_node list list \<times> info_node list) option" where
  "build_levels keccak mt h nodes ns leaves =
     (if h < unat (it_height mt) then
        (if length leaves mod 2 = 1 \<and> length (zeroHashes mt) \<le> h then None
         else (case buildIntermediate keccak (if length leaves mod 2 = 1 then leaves @ [zeroHashes mt ! h] else leaves) of
             None \<Rightarrow> None
           | Some (ns, leaves) \<Rightarrow> build_levels keccak mt (Suc h) (nodes @ [ns]) ns leaves))
      else Some (nodes, ns))"
  by pat_completeness auto
termination by (relation "measure (\<lambda>(k, mt, h, _). unat (it_height mt) - h)") auto

declare build_levels.simps [simp del]

definition BuildL1InfoRoot :: "(bytes \<Rightarrow> hash) \<Rightarrow> L1InfoTree \<Rightarrow> hash list \<Rightarrow> (info_error + hash) option" where
  "BuildL1InfoRoot keccak mt leaves =
     (if leaves = [] \<and> zeroHashes mt = [] then None
      else map_option (\<lambda>(nodes, ns). if length ns \<noteq> 1 then Inl (MoreThanOneRoot nodes) else Inr (fst (ns ! 0)))
        (build_levels keccak mt 0 [] [] (if leaves = [] then [zeroHashes mt ! 0] else leaves)))"

section \<open>The tree with all its leaves\<close>

primrec merkle_root :: "(hash list \<Rightarrow> hash) \<Rightarrow> nat \<Rightarrow> hash list \<Rightarrow> hash" where
  "merkle_root H 0 xs = xs ! 0"
| "merkle_root H (Suc n) xs = H [merkle_root H n (take (2 ^ n) xs), merkle_root H n (drop (2 ^ n) xs)]"

text \<open>What is hashed for it.\<close>

primrec merkle_inputs :: "(hash list \<Rightarrow> hash) \<Rightarrow> nat \<Rightarrow> hash list \<Rightarrow> hash list set" where
  "merkle_inputs H 0 xs = {}"
| "merkle_inputs H (Suc n) xs = insert [merkle_root H n (take (2 ^ n) xs), merkle_root H n (drop (2 ^ n) xs)]
     (merkle_inputs H n (take (2 ^ n) xs) \<union> merkle_inputs H n (drop (2 ^ n) xs))"

definition filled :: "nat \<Rightarrow> hash \<Rightarrow> hash list \<Rightarrow> hash list" where
  "filled n z xs = xs @ replicate (2 ^ n - length xs) z"

primrec zero_hash :: "(hash list \<Rightarrow> hash) \<Rightarrow> nat \<Rightarrow> hash" where
  "zero_hash H 0 = 0"
| "zero_hash H (Suc n) = H [zero_hash H n, zero_hash H n]"

lemma generateZeroHashes_eq: "generateZeroHashes keccak height = map (zero_hash (info_Hash keccak)) [0..<unat height + 1]"
proof -
  let ?H = "info_Hash keccak"
  have "foldl (\<lambda>zs i. zs @ [?H [zs ! (i - 1), zs ! (i - 1)]]) [0] [1..<n + 1] = map (zero_hash ?H) [0..<n + 1]" for n
  proof (induction n)
    case (Suc n)
    then show ?case by (simp add: nth_append)
  qed simp
  then show ?thesis by (simp add: generateZeroHashes_def)
qed

fun pair_hashes :: "(hash list \<Rightarrow> hash) \<Rightarrow> hash list \<Rightarrow> hash list" where
  "pair_hashes H (l # r # xs) = H [l, r] # pair_hashes H xs"
| "pair_hashes H _ = []"

lemma buildIntermediate_even:
  "even (length xs) \<Longrightarrow> \<exists>ns. buildIntermediate keccak xs = Some (ns, pair_hashes (info_Hash keccak) xs) \<and>
     map fst ns = pair_hashes (info_Hash keccak) xs"
  by (induction keccak xs rule: buildIntermediate.induct) auto

lemma length_pair_hashes [simp]: "length (pair_hashes H xs) = length xs div 2"
  by (induction H xs rule: pair_hashes.induct) auto

lemma pair_hashes_append: "even (length xs) \<Longrightarrow> pair_hashes H (xs @ ys) = pair_hashes H xs @ pair_hashes H ys"
  by (induction H xs rule: pair_hashes.induct) auto

lemma pair_hashes_replicate: "pair_hashes H (replicate (2 * k) z) = replicate k (H [z, z])"
  by (induction k) simp_all

lemma merkle_root_pairs: "length xs = 2 ^ Suc n \<Longrightarrow> merkle_root H (Suc n) xs = merkle_root H n (pair_hashes H xs)"
proof (induction n arbitrary: xs)
  case 0
  then obtain l r where "xs = [l, r]" by (auto simp: length_Suc_conv numeral_2_eq_2)
  then show ?case by simp
next
  case (Suc n)
  let ?t = "take (2 ^ Suc n) xs" and ?d = "drop (2 ^ Suc n) xs"
  have l: "length ?t = 2 ^ Suc n" "length ?d = 2 ^ Suc n" using Suc.prems by simp_all
  have "pair_hashes H xs = pair_hashes H ?t @ pair_hashes H ?d"
    using pair_hashes_append [of ?t H ?d] l by simp
  moreover have "length (pair_hashes H ?t) = 2 ^ n" using l by simp
  ultimately have "take (2 ^ n) (pair_hashes H xs) = pair_hashes H ?t" "drop (2 ^ n) (pair_hashes H xs) = pair_hashes H ?d" by simp_all
  then show ?case using Suc.IH [OF l(1)] Suc.IH [OF l(2)] by (simp only: merkle_root.simps(2) [of H "Suc n"] merkle_root.simps(2) [of H n "pair_hashes H xs"])
qed

definition evened :: "hash \<Rightarrow> hash list \<Rightarrow> hash list" where
  "evened z xs = (if length xs mod 2 = 1 then xs @ [z] else xs)"

lemma evened_props: "even (length (evened z xs))" "length (evened z xs) = 2 * ((length xs + 1) div 2)"
  by (auto simp: evened_def elim: oddE evenE; presburger)+

text \<open>One level: the filled list above is what the level makes of the filled list below.\<close>

lemma level_filled:
  assumes "length xs \<le> 2 ^ Suc n"
  shows "pair_hashes H (filled (Suc n) z xs) = filled n (H [z, z]) (pair_hashes H (evened z xs))"
proof -
  let ?e = "evened z xs" and ?m = "(length xs + 1) div 2"
  have m: "?m \<le> 2 ^ n" using assms by simp
  then have d: "2 ^ Suc n - length ?e = 2 * (2 ^ n - ?m)" by (simp add: evened_props(2))
  have "filled (Suc n) z xs = ?e @ replicate (2 ^ Suc n - length ?e) z"
  proof (cases "length xs mod 2 = 1")
    case True
    then have "length xs \<noteq> 2 ^ Suc n" by auto
    then have "2 ^ Suc n - length xs = Suc (2 ^ Suc n - length ?e)" using assms True by (simp add: evened_def)
    then show ?thesis using True by (simp only: filled_def) (simp add: evened_def)
  qed (simp add: filled_def evened_def)
  then have "pair_hashes H (filled (Suc n) z xs) = pair_hashes H ?e @ pair_hashes H (replicate (2 * (2 ^ n - ?m)) z)"
    by (simp only: pair_hashes_append [OF evened_props(1)] d)
  then show ?thesis by (simp only: pair_hashes_replicate filled_def length_pair_hashes evened_props(2)) simp
qed

lemma merkle_level:
  assumes "length xs \<le> 2 ^ Suc n"
  shows "merkle_root H (Suc n) (filled (Suc n) z xs) = merkle_root H n (filled n (H [z, z]) (pair_hashes H (evened z xs)))"
proof -
  have "length (filled (Suc n) z xs) = 2 ^ Suc n" using assms by (simp add: filled_def)
  from merkle_root_pairs [OF this] show ?thesis by (simp only: level_filled [OF assms])
qed

lemma build_levels_root:
  assumes "unat (it_height mt) = h + n" "zeroHashes mt = map (zero_hash (info_Hash keccak)) [0..<h + n + 1]"
    and "xs \<noteq> []" "n = 0 \<Longrightarrow> map fst ns = xs"
  shows "\<exists>nodes' ns'. build_levels keccak mt h nodes ns xs = Some (nodes', ns') \<and>
    (if length xs \<le> 2 ^ n then map fst ns' = [merkle_root (info_Hash keccak) n (filled n (zero_hash (info_Hash keccak) h) xs)] else 1 < length ns')"
  using assms
proof (induction n arbitrary: h xs ns nodes)
  case 0
  have "length ns = length xs" using 0(4) by (metis length_map)
  moreover have "xs = [xs ! 0]" if "length xs \<le> 1" using that 0(3) by (cases xs) auto
  moreover have "1 < length xs" if "\<not> length xs \<le> 1" using that by simp
  ultimately show ?case using 0 by (subst build_levels.simps) (auto simp: filled_def)
next
  case (Suc n)
  let ?H = "info_Hash keccak"
  let ?z = "zero_hash ?H h"
  have z: "h < length (zeroHashes mt)" "zeroHashes mt ! h = ?z" using Suc.prems(2) by (simp_all del: upt_Suc)
  obtain ns1 where ns1: "buildIntermediate keccak (evened ?z xs) = Some (ns1, pair_hashes ?H (evened ?z xs))"
    "map fst ns1 = pair_hashes ?H (evened ?z xs)" using buildIntermediate_even [OF evened_props(1)] by blast
  have step: "build_levels keccak mt h nodes ns xs = build_levels keccak mt (Suc h) (nodes @ [ns1]) ns1 (pair_hashes ?H (evened ?z xs))"
    using Suc.prems(1) z ns1(1) by (subst build_levels.simps) (cases "length xs mod 2 = 1"; simp add: evened_def)
  have len: "length (pair_hashes ?H (evened ?z xs)) = (length xs + 1) div 2" by (simp add: evened_props(2))
  have "0 < length (pair_hashes ?H (evened ?z xs))" unfolding len using Suc.prems(3) by (cases xs) simp_all
  then have ne: "pair_hashes ?H (evened ?z xs) \<noteq> []" by blast
  obtain nodes' ns' where IH: "build_levels keccak mt (Suc h) (nodes @ [ns1]) ns1 (pair_hashes ?H (evened ?z xs)) = Some (nodes', ns')"
    "if length (pair_hashes ?H (evened ?z xs)) \<le> 2 ^ n
     then map fst ns' = [merkle_root ?H n (filled n (zero_hash ?H (Suc h)) (pair_hashes ?H (evened ?z xs)))] else 1 < length ns'"
    using Suc.IH [of "Suc h" "pair_hashes ?H (evened ?z xs)" ns1 "nodes @ [ns1]"] Suc.prems(1,2) ne ns1(2) by auto
  moreover have "length (pair_hashes ?H (evened ?z xs)) \<le> 2 ^ n \<longleftrightarrow> length xs \<le> 2 ^ Suc n"
  proof -
    have "(length xs + 1) div 2 \<le> m \<longleftrightarrow> length xs \<le> 2 * m" for m by presburger
    then show ?thesis by (simp only: len power_Suc)
  qed
  ultimately show ?case using step merkle_level [of xs n ?H ?z] by (auto split: if_splits)
qed

lemma BuildL1InfoRoot_full:
  "if 0 < height \<and> length leaves \<le> 2 ^ unat height
   then BuildL1InfoRoot keccak (NewL1InfoTree keccak height) leaves =
     Some (Inr (merkle_root (info_Hash keccak) (unat height) (leaves @ replicate (2 ^ unat height - length leaves) 0)))
   else \<exists>nodes. BuildL1InfoRoot keccak (NewL1InfoTree keccak height) leaves = Some (Inl (MoreThanOneRoot nodes))"
proof -
  let ?H = "info_Hash keccak" and ?mt = "NewL1InfoTree keccak height" and ?n = "unat height"
  let ?xs = "if leaves = [] then [0] else leaves"
  have z: "zeroHashes ?mt = map (zero_hash ?H) [0..<?n + 1]" by (simp add: NewL1InfoTree_def generateZeroHashes_eq)
  then have z0: "zeroHashes ?mt \<noteq> []" "zeroHashes ?mt ! 0 = 0" by (simp_all del: upt_Suc)
  have b: "BuildL1InfoRoot keccak ?mt leaves =
      map_option (\<lambda>(nodes, ns). if length ns \<noteq> 1 then Inl (MoreThanOneRoot nodes) else Inr (fst (ns ! 0))) (build_levels keccak ?mt 0 [] [] ?xs)"
    using z0 by (simp add: BuildL1InfoRoot_def)
  show ?thesis
  proof (cases "?n = 0")
    case True
    then have "build_levels keccak ?mt 0 [] [] ?xs = Some ([], [])" by (subst build_levels.simps) (simp add: NewL1InfoTree_def)
    moreover have "\<not> 0 < height" using True by (simp add: unat_eq_zero)
    ultimately show ?thesis by (simp add: b)
  next
    case False
    have pos: "0 < height" using False by (metis unat_gt_0 neq0_conv word_neq_0_conv)
    have one: "1 \<le> (2 :: nat) ^ ?n" by simp
    have f: "filled ?n 0 ?xs = leaves @ replicate (2 ^ ?n - length leaves) 0"
      using one by (cases "(2 :: nat) ^ ?n") (auto simp: filled_def)
    have "it_height ?mt = height" "?xs \<noteq> []" by (simp_all add: NewL1InfoTree_def)
    then obtain nodes ns where r: "build_levels keccak ?mt 0 [] [] ?xs = Some (nodes, ns)"
      "if length ?xs \<le> 2 ^ ?n then map fst ns = [merkle_root ?H ?n (filled ?n (zero_hash ?H 0) ?xs)] else 1 < length ns"
      using build_levels_root [of ?mt 0 ?n keccak ?xs "[]" "[]"] z False by (metis add_0)
    moreover have "length ?xs \<le> 2 ^ ?n \<longleftrightarrow> length leaves \<le> 2 ^ ?n" by simp
    ultimately show ?thesis using pos by (auto simp: b f)
  qed
qed

text \<open>
  C18. The root of the L1 info tree is that of the binary tree of its height with all its leaves, those that are not there being zero:
  \<open>BuildL1InfoRoot\<close>, which hashes only what is next to a leaf, returns exactly it for up to \<open>2 ^ height\<close> leaves, and an error for more leaves.
  It never indexes out of range. A tree of height zero has no root at all: the error is returned for every list of leaves.
\<close>

theorem BuildL1InfoRoot_full_tree:
  "if 0 < height \<and> length leaves \<le> 2 ^ unat height
   then BuildL1InfoRoot keccak (NewL1InfoTree keccak height) leaves =
     Some (Inr (merkle_root (info_Hash keccak) (unat height) (leaves @ replicate (2 ^ unat height - length leaves) 0)))
   else \<exists>nodes. BuildL1InfoRoot keccak (NewL1InfoTree keccak height) leaves = Some (Inl (MoreThanOneRoot nodes))"
  by (rule BuildL1InfoRoot_full)

section \<open>A root fixes its leaves\<close>

lemma merkle_root_inj:
  assumes "inj_on H (merkle_inputs H n xs \<union> merkle_inputs H n ys)" "length xs = 2 ^ n" "length ys = 2 ^ n"
    and "merkle_root H n xs = merkle_root H n ys"
  shows "xs = ys"
  using assms
proof (induction n arbitrary: xs ys)
  case 0
  then show ?case by (auto simp: length_Suc_conv)
next
  case (Suc n)
  let ?t = "take (2 ^ n)" and ?d = "drop (2 ^ n) :: hash list \<Rightarrow> hash list"
  have "merkle_root H n (?t xs) = merkle_root H n (?t ys) \<and> merkle_root H n (?d xs) = merkle_root H n (?d ys)"
    using inj_onD [OF Suc.prems(1), of "[merkle_root H n (?t xs), merkle_root H n (?d xs)]" "[merkle_root H n (?t ys), merkle_root H n (?d ys)]"]
      Suc.prems(4) by simp
  moreover have "inj_on H (merkle_inputs H n (?t xs) \<union> merkle_inputs H n (?t ys))" "inj_on H (merkle_inputs H n (?d xs) \<union> merkle_inputs H n (?d ys))"
    by (rule inj_on_subset [OF Suc.prems(1)]; auto)+
  ultimately have "?t xs = ?t ys" "?d xs = ?d ys" using Suc.IH Suc.prems(2,3) by simp_all
  then show ?case by (metis append_take_drop_id)
qed

text \<open>The leaves of a tree, with those that are not there.\<close>

definition all_leaves :: "u8 \<Rightarrow> hash list \<Rightarrow> hash list" where
  "all_leaves height leaves = leaves @ replicate (2 ^ unat height - length leaves) 0"

text \<open>
  Two lists of leaves with the same root differ at most by zeros at the end, unless Keccak
  collides on two of the pairs of nodes that are hashed for them.
\<close>

theorem info_root_binds_leaves:
  assumes "BuildL1InfoRoot keccak (NewL1InfoTree keccak height) ls = Some (Inr root)"
    and "BuildL1InfoRoot keccak (NewL1InfoTree keccak height) ms = Some (Inr root)"
    and "inj_on (info_Hash keccak) (merkle_inputs (info_Hash keccak) (unat height) (all_leaves height ls) \<union>
      merkle_inputs (info_Hash keccak) (unat height) (all_leaves height ms))"
  shows "all_leaves height ls = all_leaves height ms"
proof -
  have r: "length xs \<le> 2 ^ unat height \<and> merkle_root (info_Hash keccak) (unat height) (all_leaves height xs) = root"
    if "BuildL1InfoRoot keccak (NewL1InfoTree keccak height) xs = Some (Inr root)" for xs
    using BuildL1InfoRoot_full [of height xs keccak] that by (auto simp: all_leaves_def split: if_splits)
  show ?thesis using merkle_root_inj [OF assms(3)] r [OF assms(1)] r [OF assms(2)] by (simp add: all_leaves_def)
qed

definition example_keccak :: "bytes \<Rightarrow> hash" where
  "example_keccak bs = of_nat (1 + sum_list (map unat bs))"

lemma example_hashes:
  "info_Hash example_keccak [6, 1] = 8" "info_Hash example_keccak [5, 0] = 6" "info_Hash example_keccak [0, 0] = 1"
  by code_simp+

lemma example_tree:
  "merkle_root H 2 [a, b, c, d] = H [H [a, b], H [c, d]]" "merkle_inputs H 2 [a, b, c, d] = {[H [a, b], H [c, d]], [a, b], [c, d]}"
  "replicate 2 z = [z, z]" "replicate 3 z = [z, z, z]"
  by (auto simp: numeral_2_eq_2 numeral_3_eq_3)

theorem info_root_binds_leaves_witness: "all_leaves 2 [5] = all_leaves 2 [5, 0] \<and>
  BuildL1InfoRoot example_keccak (NewL1InfoTree example_keccak 2) [5] = Some (Inr 8)"
proof -
  have b: "BuildL1InfoRoot example_keccak (NewL1InfoTree example_keccak 2) [5] = Some (Inr 8)"
    "BuildL1InfoRoot example_keccak (NewL1InfoTree example_keccak 2) [5, 0] = Some (Inr 8)"
    using BuildL1InfoRoot_full [of 2 "[5]" example_keccak] BuildL1InfoRoot_full [of 2 "[5, 0]" example_keccak]
    by (simp_all add: example_tree example_hashes)
  have l: "all_leaves 2 [5] = [5, 0, 0, 0]" "all_leaves 2 [5, 0] = [5, 0, 0, 0]" by (simp_all add: all_leaves_def example_tree)
  have "merkle_inputs (info_Hash example_keccak) (unat (2 :: u8)) [5, 0, 0, 0] = {[6, 1], [5, 0], [0, 0]}"
    by (auto simp: example_tree example_hashes)
  moreover have "inj_on (info_Hash example_keccak) {[6, 1], [5, 0], [0, 0]}" by (simp add: inj_on_def example_hashes)
  ultimately show ?thesis using info_root_binds_leaves [OF b] b(1) by (simp add: l)
qed

lemma be_fixed_inj: "n < 256 ^ k \<Longrightarrow> m < 256 ^ k \<Longrightarrow> be_fixed k n = be_fixed k m \<Longrightarrow> n = m"
  by (metis SetBytes_be_fixed)

lemma hash_bytes_inj: "hash_bytes a = hash_bytes b \<longleftrightarrow> a = b"
proof
  assume "hash_bytes a = hash_bytes b"
  moreover have "unat h < 256 ^ 32" for h :: hash using unsigned_less [of h] by simp
  ultimately have "unat a = unat b" using be_fixed_inj unfolding hash_bytes_def by blast
  then show "a = b" by (simp add: word_unat_eq_iff)
qed simp

text \<open>A leaf stands for one exit root, block hash and time.\<close>

lemma leaf_bytes_inj: "leaf_bytes g p t = leaf_bytes g' p' t' \<longleftrightarrow> g = g' \<and> p = p' \<and> t = t'"
proof -
  have "unat x < 256 ^ 8" for x :: u64 using unsigned_less [of x] by simp
  then have "be_fixed 8 (unat t) = be_fixed 8 (unat t') \<longleftrightarrow> t = t'"
    using be_fixed_inj [of "unat t" 8 "unat t'"] by (auto simp: word_unat_eq_iff)
  moreover have "length (hash_bytes h) = 32" for h by (simp add: hash_bytes_def)
  ultimately show ?thesis by (simp add: leaf_bytes_def hash_bytes_inj)
qed

end
