(* ===== verification/MerkleKeys.thy ===== *)
theory MerkleKeys
  imports HexCodec
begin

text \<open>
  Numbers, keys and hashes of the state tree: \<open>merkletree/split.go\<close>, \<open>key.go\<close> and \<open>leaf.go\<close>. The hash function Poseidon is a
  parameter. A panic (a slice too short, a number of more than 256 bits) is \<open>None\<close>. The splittings are shown to be inverse to each other, and equal keys to
  come from equal leaves, as far as Poseidon does not collide.
\<close>

datatype mt_error = CouldNotConvert string | PoseidonErr string | GrpcErr string | InvalidBalance | InvalidNonce | DecodeErr hex_error

text \<open>A panic or an error ends a function; otherwise it goes on with the value.\<close>

definition mt_then :: "(mt_error + 'a) option \<Rightarrow> ('a \<Rightarrow> (mt_error + 'b) option) \<Rightarrow> (mt_error + 'b) option" where
  "mt_then m f = (case m of None \<Rightarrow> None | Some (Inl e) \<Rightarrow> Some (Inl e) | Some (Inr x) \<Rightarrow> f x)"

lemma mt_then_simps [simp]:
  "mt_then None f = None" "mt_then (Some (Inl e)) f = Some (Inl e)" "mt_then (Some (Inr x)) f = f x"
  by (simp_all add: mt_then_def)

lemma mt_then_InrE:
  assumes "mt_then m f = Some (Inr y)"
  obtains x where "m = Some (Inr x)" "f x = Some (Inr y)"
  using assms by (auto simp: mt_then_def split: option.splits sum.splits)

section \<open>Splitting numbers\<close>

definition maxBigIntLen :: nat where "maxBigIntLen = 32"

definition wordLength :: nat where "wordLength = 64"

definition fea2scalar :: "u64 list \<Rightarrow> int" where
  "fea2scalar v =
     (if length v \<noteq> 8 then 0
      else uint (v ! 0) + push_bit 32 (uint (v ! 1)) + push_bit 64 (uint (v ! 2)) + push_bit 96 (uint (v ! 3)) +
        push_bit 128 (uint (v ! 4)) + push_bit 160 (uint (v ! 5)) + push_bit 192 (uint (v ! 6)) + push_bit 224 (uint (v ! 7)))"

definition scalar2fea :: "int \<Rightarrow> u64 list" where
  "scalar2fea value =
     [big_Uint64 (value AND 0xFFFFFFFF), big_Uint64 (drop_bit 32 value AND 0xFFFFFFFF), big_Uint64 (drop_bit 64 value AND 0xFFFFFFFF),
      big_Uint64 (drop_bit 96 value AND 0xFFFFFFFF), big_Uint64 (drop_bit 128 value AND 0xFFFFFFFF), big_Uint64 (drop_bit 160 value AND 0xFFFFFFFF),
      big_Uint64 (drop_bit 192 value AND 0xFFFFFFFF), big_Uint64 (drop_bit 224 value AND 0xFFFFFFFF)]"

definition h4ToScalar :: "u64 list \<Rightarrow> int option" where
  "h4ToScalar h4 =
     (if h4 = [] then Some 0
      else if length h4 < 4 then None
      else Some (foldl (\<lambda>result i. result + push_bit (wordLength * i) (uint (h4 ! i))) (uint (h4 ! 0)) [1, 2, 3]))"

definition H4ToString :: "u64 list \<Rightarrow> string option" where
  "H4ToString h4 = map_option (\<lambda>sc. ''0x'' @ pad_left 64 (EncodeToString (be_bytes (nat sc)))) (h4ToScalar h4)"

text \<open>\<open>FillBytes\<close> panics on a number that does not fit.\<close>

definition ScalarToFilledByteSlice :: "int \<Rightarrow> bytes option" where
  "ScalarToFilledByteSlice s = (if nat \<bar>s\<bar> < 256 ^ maxBigIntLen then Some (be_fixed maxBigIntLen (nat \<bar>s\<bar>)) else None)"

definition BigEndian_Uint64 :: "bytes \<Rightarrow> u64" where
  "BigEndian_Uint64 b = of_nat (big_SetBytes (take 8 b))"

definition scalarToh4 :: "int \<Rightarrow> u64 list option" where
  "scalarToh4 s =
     (case ScalarToFilledByteSlice s of
        None \<Rightarrow> None
      | Some b \<Rightarrow>
          (let fbe = BigEndian_Uint64 (fst (DecodeHex ''0xFFFFFFFFFFFFFFFF''))
           in Some [BigEndian_Uint64 (drop 24 b) AND fbe, BigEndian_Uint64 (take 8 (drop 16 b)) AND fbe,
                BigEndian_Uint64 (take 8 (drop 8 b)) AND fbe, BigEndian_Uint64 (take 8 b) AND fbe]))"

definition StringToh4 :: "string \<Rightarrow> (mt_error + u64 list) option" where
  "StringToh4 str =
     (let str = (if HasPrefix0x str then drop 2 str else str) in
      case big_SetString str 16 of
        None \<Rightarrow> Some (Inl (CouldNotConvert str))
      | Some bi \<Rightarrow> map_option Inr (scalarToh4 bi))"

definition h4ToFilledByteSlice :: "u64 list \<Rightarrow> bytes option" where
  "h4ToFilledByteSlice h4 = Option.bind (h4ToScalar h4) ScalarToFilledByteSlice"

definition string2fea :: "string \<Rightarrow> mt_error + u64 list" where
  "string2fea s = (case big_SetString s 16 of None \<Rightarrow> Inl (CouldNotConvert s) | Some bi \<Rightarrow> Inr (scalar2fea bi))"

definition fea2string :: "u64 list \<Rightarrow> string option" where
  "fea2string fea = map_option EncodeToHex (ScalarToFilledByteSlice (fea2scalar fea))"

section \<open>Keys\<close>

definition LeafTypeBalance :: u8 where "LeafTypeBalance = 0"
definition LeafTypeNonce :: u8 where "LeafTypeNonce = 1"
definition LeafTypeCode :: u8 where "LeafTypeCode = 2"
definition LeafTypeStorage :: u8 where "LeafTypeStorage = 3"
definition LeafTypeSCLength :: u8 where "LeafTypeSCLength = 4"

lemmas leaf_types = LeafTypeBalance_def LeafTypeNonce_def LeafTypeCode_def LeafTypeStorage_def LeafTypeSCLength_def

definition HashPoseidonAllZeroes :: string where
  "HashPoseidonAllZeroes = ''0xc71603f33a1144ca7953db0ab48808f4c4055e3364a246c33c18a9786cb0b359''"

text \<open>\<open>poseidon.Hash\<close> of an array of eight and an array of four.\<close>

type_synonym poseidon = "u64 list \<Rightarrow> u64 list \<Rightarrow> string + u64 list"

definition poseidon_Hash :: "poseidon \<Rightarrow> u64 list \<Rightarrow> u64 list \<Rightarrow> (mt_error + u64 list) option" where
  "poseidon_Hash P inp cap = Some (case P inp cap of Inl e \<Rightarrow> Inl (PoseidonErr e) | Inr h \<Rightarrow> Inr h)"

definition key_input :: "address \<Rightarrow> u8 \<Rightarrow> u64 list" where
  "key_input ethAddr leafType = (let ethAddrArr = scalar2fea (int (big_SetBytes (be_fixed 20 (unat ethAddr))))
     in [ethAddrArr ! 0, ethAddrArr ! 1, ethAddrArr ! 2, ethAddrArr ! 3, ethAddrArr ! 4, 0, ucast leafType, 0])"

definition keyEthAddr :: "poseidon \<Rightarrow> address \<Rightarrow> u8 \<Rightarrow> u64 list \<Rightarrow> (mt_error + bytes) option" where
  "keyEthAddr P ethAddr leafType key1Capacity =
     mt_then (poseidon_Hash P (key_input ethAddr leafType) key1Capacity) (\<lambda>result. map_option Inr (h4ToFilledByteSlice result))"

definition defaultCapIn :: "(mt_error + u64 list) option" where
  "defaultCapIn = mt_then (StringToh4 HashPoseidonAllZeroes) (\<lambda>capIn. Some (Inr [capIn ! 0, capIn ! 1, capIn ! 2, capIn ! 3]))"

definition KeyEthAddrBalance :: "poseidon \<Rightarrow> address \<Rightarrow> (mt_error + bytes) option" where
  "KeyEthAddrBalance P ethAddr = mt_then defaultCapIn (keyEthAddr P ethAddr LeafTypeBalance)"

definition KeyEthAddrNonce :: "poseidon \<Rightarrow> address \<Rightarrow> (mt_error + bytes) option" where
  "KeyEthAddrNonce P ethAddr = mt_then defaultCapIn (keyEthAddr P ethAddr LeafTypeNonce)"

definition KeyContractCode :: "poseidon \<Rightarrow> address \<Rightarrow> (mt_error + bytes) option" where
  "KeyContractCode P ethAddr = mt_then defaultCapIn (keyEthAddr P ethAddr LeafTypeCode)"

definition KeyContractStorage :: "poseidon \<Rightarrow> address \<Rightarrow> bytes \<Rightarrow> (mt_error + bytes) option" where
  "KeyContractStorage P ethAddr storagePos =
     (let storageArr = scalar2fea (int (big_SetBytes storagePos))
      in mt_then (poseidon_Hash P storageArr [0, 0, 0, 0]) (keyEthAddr P ethAddr LeafTypeStorage))"

definition KeyCodeLength :: "poseidon \<Rightarrow> address \<Rightarrow> (mt_error + bytes) option" where
  "KeyCodeLength P ethAddr = mt_then defaultCapIn (keyEthAddr P ethAddr LeafTypeSCLength)"

section \<open>Splitting and joining\<close>

lemma digits_sum: "(\<Sum>i<n. 2 ^ (w * i) * (v div 2 ^ (w * i) mod 2 ^ w)) = v mod 2 ^ (w * n)" for v :: int
proof (induction n)
  case (Suc n)
  have "v mod 2 ^ (w * Suc n) = v mod (2 ^ (w * n) * 2 ^ w)" by (simp add: power_add algebra_simps)
  also have "\<dots> = 2 ^ (w * n) * (v div 2 ^ (w * n) mod 2 ^ w) + v mod 2 ^ (w * n)" by (simp add: zmod_zmult2_eq)
  finally show ?case using Suc by simp
qed simp

lemma sum_8: "(\<Sum>i<8. f i) = f 0 + f 1 + f 2 + f 3 + f 4 + f 5 + f 6 + f (7 :: nat)" for f :: "nat \<Rightarrow> int"
  by (simp add: eval_nat_numeral)

lemma sum_4: "(\<Sum>i<4. f i) = f 0 + f 1 + f 2 + f (3 :: nat)" for f :: "nat \<Rightarrow> int"
  by (simp add: eval_nat_numeral)

lemma low_32: "uint (big_Uint64 (i AND 0xFFFFFFFF)) = i mod 2 ^ 32"
proof -
  have a: "i AND 0xFFFFFFFF = i mod 2 ^ 32"
    using take_bit_eq_mask [of 32 i] by (simp add: take_bit_eq_mod mask_eq_exp_minus_1)
  have b: "0 \<le> i mod 2 ^ 32" "i mod 2 ^ 32 < 2 ^ 32" by simp_all
  have "big_Uint64 (i mod 2 ^ 32) = word_of_int (i mod 2 ^ 32)" using b(1) by (simp add: big_Uint64_def)
  then show ?thesis using b by (simp add: a uint_word_of_int)
qed

lemma length_scalar2fea [simp]: "length (scalar2fea v) = 8"
  by (simp add: scalar2fea_def)

lemma fea2scalar_scalar2fea: "fea2scalar (scalar2fea v) = v mod 2 ^ 256"
proof -
  have "fea2scalar (scalar2fea v) = (\<Sum>i<8. 2 ^ (32 * i) * (v div 2 ^ (32 * i) mod 2 ^ 32))"
    unfolding sum_8 by (simp add: fea2scalar_def scalar2fea_def low_32 [unfolded power_numeral_reduce] low_32 push_bit_eq_mult drop_bit_eq_div)
  also have "\<dots> = v mod 2 ^ 256" using digits_sum [of 32 v 8] by simp
  finally show ?thesis .
qed

lemma be_fixed_add: "be_fixed (a + b) n = be_fixed a (n div 256 ^ b) @ be_fixed b n"
proof (induction b arbitrary: n)
  case (Suc b)
  then show ?case by (simp add: div_mult2_eq mult.commute)
qed simp

lemma SetBytes_be_fixed_mod: "big_SetBytes (be_fixed k n) = n mod 256 ^ k"
proof (induction k arbitrary: n)
  case (Suc k)
  have "n mod 256 ^ Suc k = 256 * (n div 256 mod 256 ^ k) + n mod 256" using mod_mult2_eq [of n 256 "256 ^ k"] by simp
  then show ?case using Suc by simp
qed simp

lemma of_nat_mod_64: "(of_nat (n mod 18446744073709551616) :: u64) = of_nat n"
  by (simp add: word_unat_eq_iff unat_of_nat take_bit_eq_mod)

lemma BigEndian_be_fixed [simp]: "BigEndian_Uint64 (be_fixed 8 n) = of_nat n"
  by (simp add: BigEndian_Uint64_def SetBytes_be_fixed_mod of_nat_mod_64)

lemma fbe_ones: "BigEndian_Uint64 (fst (DecodeHex ''0xFFFFFFFFFFFFFFFF'')) = - 1"
  by (simp add: DecodeHex_def digit_val_def BigEndian_Uint64_def big_SetBytes_def)

lemma be_fixed_32: "be_fixed 32 n = be_fixed 8 (n div 2 ^ 192) @ be_fixed 8 (n div 2 ^ 128) @ be_fixed 8 (n div 2 ^ 64) @ be_fixed 8 n"
proof -
  have "be_fixed 32 n = be_fixed 8 (n div 256 ^ 24) @ be_fixed 24 n" using be_fixed_add [of 8 24 n] by simp
  also have "be_fixed 24 n = be_fixed 8 (n div 256 ^ 16) @ be_fixed 16 n" using be_fixed_add [of 8 16 n] by simp
  also have "be_fixed 16 n = be_fixed 8 (n div 256 ^ 8) @ be_fixed 8 n" using be_fixed_add [of 8 8 n] by simp
  finally show ?thesis by simp
qed

lemma scalarToh4_nat:
  assumes "n < 2 ^ 256"
  shows "scalarToh4 (int n) = Some [of_nat n, of_nat (n div 2 ^ 64), of_nat (n div 2 ^ 128), of_nat (n div 2 ^ 192)]"
proof -
  have "nat \<bar>int n\<bar> < 256 ^ 32" using assms by simp
  then show ?thesis
    by (simp only: scalarToh4_def ScalarToFilledByteSlice_def maxBigIntLen_def be_fixed_32 fbe_ones) simp
qed

lemma list_4E:
  assumes "length h = 4"
  obtains a b c d where "h = [a, b, c, d]"
  using assms by (auto simp: eval_nat_numeral length_Suc_conv)

lemma h4ToScalar_4: "h4ToScalar [a, b, c, d] = Some (uint a + 2 ^ 64 * uint b + 2 ^ 128 * uint c + 2 ^ 192 * uint d)"
  by (simp add: h4ToScalar_def wordLength_def push_bit_eq_mult)

lemma h4_value:
  assumes "length h = 4"
  obtains n where "h4ToScalar h = Some (int n)" "n < 2 ^ 256" "scalarToh4 (int n) = Some h"
proof -
  obtain a b c d where h: "h = [a, b, c, d]" using assms by (rule list_4E)
  let ?B = "2 ^ 64 :: nat"
  let ?n = "unat a + ?B * (unat b + ?B * (unat c + ?B * unat d))"
  have l: "unat x < ?B" for x :: u64 using unsigned_less [of x] by simp
  have "h4ToScalar h = Some (int ?n)" by (simp add: h h4ToScalar_4)
  moreover have lt: "?n < 2 ^ 256" using l [of a] l [of b] l [of c] l [of d] by simp
  moreover have "scalarToh4 (int ?n) = Some h"
  proof -
    have d1: "?n div ?B = unat b + ?B * (unat c + ?B * unat d)" using l [of a] by simp
    have d2: "?n div 2 ^ 128 = unat c + ?B * unat d"
    proof -
      have "?n div 2 ^ 128 = ?n div ?B div ?B" by (simp add: div_mult2_eq [symmetric])
      also have "\<dots> = unat c + ?B * unat d" unfolding d1 using l [of b] by simp
      finally show ?thesis .
    qed
    have d3: "?n div 2 ^ 192 = unat d"
    proof -
      have "?n div 2 ^ 192 = ?n div 2 ^ 128 div ?B" by (simp add: div_mult2_eq [symmetric])
      also have "\<dots> = unat d" unfolding d2 using l [of c] by simp
      finally show ?thesis .
    qed
    have w: "(of_nat (unat x + ?B * m) :: u64) = x" for x :: u64 and m
      using of_nat_mod_64 [of "unat x + ?B * m"] l [of x] by simp
    show ?thesis unfolding scalarToh4_nat [OF lt] d1 d2 d3 w h by simp
  qed
  ultimately show ?thesis by (rule that)
qed

lemma h4ToScalar_split:
  assumes "n < 2 ^ 256" "scalarToh4 (int n) = Some h"
  shows "h4ToScalar h = Some (int n)" "length h = 4"
proof -
  have h: "h = [of_nat n, of_nat (n div 2 ^ 64), of_nat (n div 2 ^ 128), of_nat (n div 2 ^ 192)]"
    using assms(2) unfolding scalarToh4_nat [OF assms(1)] by simp
  then show "length h = 4" by simp
  have u: "uint (of_nat m :: u64) = int m mod 2 ^ 64" for m by (simp add: uint_nat unat_of_nat take_bit_eq_mod zmod_int)
  have "uint (of_nat n :: u64) + 2 ^ 64 * uint (of_nat (n div 2 ^ 64) :: u64) + 2 ^ 128 * uint (of_nat (n div 2 ^ 128) :: u64) +
      2 ^ 192 * uint (of_nat (n div 2 ^ 192) :: u64) = (\<Sum>i<4. 2 ^ (64 * i) * (int n div 2 ^ (64 * i) mod 2 ^ 64))"
    unfolding sum_4 u by (simp add: zdiv_int)
  also have "\<dots> = int n" using digits_sum [of 64 "int n" 4] assms(1) by simp
  finally show "h4ToScalar h = Some (int n)" unfolding h h4ToScalar_4 by (rule arg_cong)
qed

lemma h4_bytes:
  assumes "length h = 4"
  obtains bs where "h4ToFilledByteSlice h = Some bs" "scalarToh4 (int (big_SetBytes bs)) = Some h"
proof -
  obtain n where n: "h4ToScalar h = Some (int n)" "n < 2 ^ 256" "scalarToh4 (int n) = Some h" using assms by (rule h4_value)
  have "h4ToFilledByteSlice h = Some (be_fixed 32 n)" "big_SetBytes (be_fixed 32 n) = n"
    using n(1,2) by (simp_all add: h4ToFilledByteSlice_def ScalarToFilledByteSlice_def maxBigIntLen_def SetBytes_be_fixed)
  with n(3) that show ?thesis by metis
qed

section \<open>Strings\<close>

lemma parse_EncodeToString: "parse_digits 16 acc (EncodeToString bs) = Some (foldl (\<lambda>a b. a * 256 + unat b) acc bs)"
proof (induction bs arbitrary: acc)
  case (Cons b bs)
  have "unat b < 256" by (rule unat_u8_less)
  then have "unat b div 16 < 16" "unat b mod 16 < 16" by (simp_all add: div_less_iff_less_mult del: unat_u8_less)
  moreover have "(acc * 16 + unat b div 16) * 16 + unat b mod 16 = acc * 256 + unat b" by simp
  ultimately show ?case by (simp add: Cons not_le mult.commute add.commute)
qed simp

lemma SetString_EncodeToString:
  assumes "bs \<noteq> []"
  shows "big_SetString (EncodeToString bs) 16 = Some (int (big_SetBytes bs))"
proof -
  obtain b t where bs: "bs = b # t" using assms by (cases bs) auto
  have "unat b < 256" by (rule unat_u8_less)
  then have "unat b div 16 < 16" by (simp add: div_less_iff_less_mult del: unat_u8_less)
  from digit_char_no_sign [OF this] show ?thesis
    using parse_EncodeToString [of 0 bs] by (simp add: bs big_SetString_def parse_nat_def big_SetBytes_def)
qed

lemma be_fixed_be_bytes: "n < 256 ^ k \<Longrightarrow> length (be_bytes n) \<le> k \<and> be_fixed k n = replicate (k - length (be_bytes n)) 0 @ be_bytes n"
proof (induction k arbitrary: n)
  case 0
  then show ?case by (simp add: be_bytes.simps)
next
  case (Suc k)
  then have IH: "length (be_bytes (n div 256)) \<le> k" "be_fixed k (n div 256) = replicate (k - length (be_bytes (n div 256))) 0 @ be_bytes (n div 256)"
    using Suc.IH [of "n div 256"] by (simp_all add: div_less_iff_less_mult mult.commute)
  show ?case
  proof (cases "n = 0")
    case True
    then show ?thesis using IH by (simp add: be_bytes.simps [of 0] replicate_append_same)
  next
    case False
    then have "be_bytes n = be_bytes (n div 256) @ [of_nat (n mod 256)]" by (subst be_bytes.simps) simp
    then show ?thesis using IH by simp
  qed
qed

lemma EncodeToString_zeros: "EncodeToString (replicate k 0 @ bs) = replicate (2 * k) (CHR ''0'') @ EncodeToString bs"
proof (induction k)
  case (Suc k)
  have "digit_char 0 = CHR ''0''" by code_simp
  with Suc show ?case by simp
qed simp

lemma pad_left_be_bytes:
  assumes "n < 2 ^ 256"
  shows "pad_left 64 (EncodeToString (be_bytes n)) = EncodeToString (be_fixed 32 n)"
proof -
  have "n < 256 ^ 32" using assms by simp
  from be_fixed_be_bytes [OF this] show ?thesis
    by (simp add: pad_left_def EncodeToString_zeros length_EncodeToString diff_mult_distrib2)
qed

lemma H4ToString_bytes:
  assumes "h4ToScalar h = Some (int n)" "n < 2 ^ 256"
  shows "H4ToString h = Some (EncodeToHex (be_fixed 32 n))"
  using assms pad_left_be_bytes by (simp add: H4ToString_def EncodeToHex_def)

lemma SetString_fixed:
  assumes "n < 2 ^ 256"
  shows "big_SetString (EncodeToString (be_fixed 32 n)) 16 = Some (int n)"
proof -
  have "be_fixed 32 n \<noteq> []" using length_be_fixed [of 32 n] by (metis list.size(3) zero_neq_numeral)
  moreover have "n < 256 ^ 32" using assms by simp
  ultimately show ?thesis using SetString_EncodeToString SetBytes_be_fixed by simp
qed

lemma fea2string_scalar2fea: "fea2string (scalar2fea v) = Some (EncodeToHex (be_fixed 32 (nat (v mod 2 ^ 256))))"
proof -
  have "nat (v mod 2 ^ 256) < 256 ^ 32" using pos_mod_bound [of "2 ^ 256" v] by simp
  moreover have "\<bar>v mod 2 ^ 256\<bar> = v mod 2 ^ 256" by simp
  ultimately show ?thesis by (simp only: fea2string_def fea2scalar_scalar2fea ScalarToFilledByteSlice_def maxBigIntLen_def) simp
qed

text \<open>
  The conversions of the tree are inverse to each other: a number below \<open>2 ^ 256\<close> through its eight limbs, its four words,
  and their strings.
\<close>

lemma split_round_trips:
  assumes "n < 2 ^ 256"
  shows "fea2scalar (scalar2fea (int n)) = int n"
    and "\<exists>h s. scalarToh4 (int n) = Some h \<and> h4ToScalar h = Some (int n) \<and> H4ToString h = Some s \<and> StringToh4 s = Some (Inr h)"
    and "\<exists>s. fea2string (scalar2fea (int n)) = Some s \<and> string2fea (TrimPrefix0x s) = Inr (scalar2fea (int n))"
proof -
  have m: "int n mod 2 ^ 256 = int n" using assms by simp
  then show "fea2scalar (scalar2fea (int n)) = int n" by (simp only: fea2scalar_scalar2fea)
  obtain h where h: "scalarToh4 (int n) = Some h" using scalarToh4_nat [OF assms] by blast
  have "StringToh4 (EncodeToHex (be_fixed 32 n)) = Some (Inr h)"
    using h SetString_fixed [OF assms] by (simp add: StringToh4_def EncodeToHex_def)
  then show "\<exists>h s. scalarToh4 (int n) = Some h \<and> h4ToScalar h = Some (int n) \<and> H4ToString h = Some s \<and> StringToh4 s = Some (Inr h)"
    using h h4ToScalar_split(1) [OF assms h] H4ToString_bytes [OF _ assms] by blast
  show "\<exists>s. fea2string (scalar2fea (int n)) = Some s \<and> string2fea (TrimPrefix0x s) = Inr (scalar2fea (int n))"
    using fea2string_scalar2fea [of "int n", unfolded m] SetString_fixed [OF assms] by (simp add: EncodeToHex_def string2fea_def)
qed

section \<open>Keys and their leaves\<close>

datatype leaf = BalanceLeaf address | NonceLeaf address | CodeLeaf address | StorageLeaf address "256 word" | LengthLeaf address

primrec leaf_key :: "poseidon \<Rightarrow> leaf \<Rightarrow> (mt_error + bytes) option" where
  "leaf_key P (BalanceLeaf a) = KeyEthAddrBalance P a"
| "leaf_key P (NonceLeaf a) = KeyEthAddrNonce P a"
| "leaf_key P (CodeLeaf a) = KeyContractCode P a"
| "leaf_key P (StorageLeaf a pos) = KeyContractStorage P a (be_bytes (unat pos))"
| "leaf_key P (LengthLeaf a) = KeyCodeLength P a"

definition zero_cap :: "u64 list" where
  "zero_cap = (case scalarToh4 0xc71603f33a1144ca7953db0ab48808f4c4055e3364a246c33c18a9786cb0b359 of Some h \<Rightarrow> h)"

text \<open>What is hashed for a key.\<close>

fun leaf_inputs :: "poseidon \<Rightarrow> leaf \<Rightarrow> (u64 list \<times> u64 list) set" where
  "leaf_inputs P (BalanceLeaf a) = {(key_input a LeafTypeBalance, zero_cap)}"
| "leaf_inputs P (NonceLeaf a) = {(key_input a LeafTypeNonce, zero_cap)}"
| "leaf_inputs P (CodeLeaf a) = {(key_input a LeafTypeCode, zero_cap)}"
| "leaf_inputs P (LengthLeaf a) = {(key_input a LeafTypeSCLength, zero_cap)}"
| "leaf_inputs P (StorageLeaf a pos) =
     (let arr = scalar2fea (uint pos) in
      insert (arr, [0, 0, 0, 0]) (case P arr [0, 0, 0, 0] of Inl _ \<Rightarrow> {} | Inr hk0 \<Rightarrow> {(key_input a LeafTypeStorage, hk0)}))"

text \<open>The result of Poseidon is an array of four.\<close>

definition poseidon_4 :: "poseidon \<Rightarrow> bool" where
  "poseidon_4 P \<longleftrightarrow> (\<forall>x c h. P x c = Inr h \<longrightarrow> length h = 4)"

lemma defaultCapIn_value: "defaultCapIn = Some (Inr zero_cap)" "length zero_cap = 4"
proof -
  let ?n = "0xc71603f33a1144ca7953db0ab48808f4c4055e3364a246c33c18a9786cb0b359 :: nat"
  have "?n < 2 ^ 256" by simp
  from scalarToh4_nat [OF this] obtain a b c d where h: "scalarToh4 (int ?n) = Some [a, b, c, d]" by blast
  have s: "big_SetString (drop 2 HashPoseidonAllZeroes) 16 = Some (int ?n)"
    by (simp add: HashPoseidonAllZeroes_def big_SetString_def parse_nat_def digit_val_def)
  have st: "StringToh4 HashPoseidonAllZeroes = Some (Inr [a, b, c, d])"
    using h s unfolding StringToh4_def by (simp add: HashPoseidonAllZeroes_def)
  have z: "zero_cap = [a, b, c, d]" using h by (simp add: zero_cap_def)
  show "defaultCapIn = Some (Inr zero_cap)" unfolding defaultCapIn_def st z by simp
  show "length zero_cap = 4" unfolding z by simp
qed

lemma nat_scalar: "int (big_SetBytes (be_fixed 20 (unat a))) = uint a" for a :: address
proof -
  have "unat a < 256 ^ 20" using unsigned_less [of a] by simp
  then have "big_SetBytes (be_fixed 20 (unat a)) = unat a" by (rule SetBytes_be_fixed)
  then show ?thesis by (simp only: uint_nat)
qed

lemma uint_ucast_u8: "uint (ucast w :: u64) = uint w" for w :: u8
  by transfer simp

lemma scalar2fea_inj: "0 \<le> v \<Longrightarrow> v < 2 ^ 256 \<Longrightarrow> 0 \<le> w \<Longrightarrow> w < 2 ^ 256 \<Longrightarrow> scalar2fea v = scalar2fea w \<Longrightarrow> v = w"
  by (metis fea2scalar_scalar2fea mod_pos_pos_trivial)

lemma key_input_eq: "key_input a t = take 5 (scalar2fea (uint a)) @ [0, ucast t, 0]"
  by (simp add: key_input_def nat_scalar scalar2fea_def)

lemma address_limbs: "drop 5 (scalar2fea (uint a)) = [0, 0, 0]" for a :: address
proof -
  have "uint a < 2 ^ 160" using uint_lt2p [of a] by simp
  then have "drop_bit 160 (uint a) = 0" "drop_bit 192 (uint a) = 0" "drop_bit 224 (uint a) = 0" by (simp_all add: drop_bit_eq_div)
  then show ?thesis by (simp add: scalar2fea_def big_Uint64_def)
qed

lemma key_input_inj: "key_input a t = key_input b u \<longleftrightarrow> a = b \<and> t = u"
proof
  assume "key_input a t = key_input b u"
  then have e: "take 5 (scalar2fea (uint a)) = take 5 (scalar2fea (uint b))" "(ucast t :: u64) = ucast u" by (simp_all add: key_input_eq)
  have "scalar2fea (uint a) = scalar2fea (uint b)"
    using append_take_drop_id [of 5 "scalar2fea (uint a)"] append_take_drop_id [of 5 "scalar2fea (uint b)"] e(1)
    by (simp only: address_limbs)
  moreover have "uint x < 2 ^ 256" for x :: address using uint_lt2p [of x] by simp
  ultimately have "uint a = uint b" using scalar2fea_inj by simp
  moreover have "uint t = uint u"
    using arg_cong [OF e(2), of uint] by (simp only: uint_ucast_u8)
  ultimately show "a = b \<and> t = u" by (simp add: word_uint_eq_iff)
qed simp

text \<open>A key is the result of Poseidon, in bytes.\<close>

lemma keyEthAddr_result:
  assumes "poseidon_4 P"
  shows "(case P (key_input a t) cap of
      Inl e \<Rightarrow> keyEthAddr P a t cap = Some (Inl (PoseidonErr e))
    | Inr h \<Rightarrow> \<exists>bs. keyEthAddr P a t cap = Some (Inr bs) \<and> scalarToh4 (int (big_SetBytes bs)) = Some h)"
proof (cases "P (key_input a t) cap")
  case (Inr h)
  then have "length h = 4" using assms by (simp add: poseidon_4_def)
  then obtain bs where "h4ToFilledByteSlice h = Some bs" "scalarToh4 (int (big_SetBytes bs)) = Some h" by (rule h4_bytes)
  then show ?thesis using Inr by (simp add: keyEthAddr_def poseidon_Hash_def)
qed (simp add: keyEthAddr_def poseidon_Hash_def)

lemmas key_defs = KeyEthAddrBalance_def KeyEthAddrNonce_def KeyContractCode_def KeyCodeLength_def defaultCapIn_value(1)

primrec leaf_address :: "leaf \<Rightarrow> address" where
  "leaf_address (BalanceLeaf a) = a"
| "leaf_address (NonceLeaf a) = a"
| "leaf_address (CodeLeaf a) = a"
| "leaf_address (StorageLeaf a pos) = a"
| "leaf_address (LengthLeaf a) = a"

primrec leaf_type :: "leaf \<Rightarrow> u8" where
  "leaf_type (BalanceLeaf a) = LeafTypeBalance"
| "leaf_type (NonceLeaf a) = LeafTypeNonce"
| "leaf_type (CodeLeaf a) = LeafTypeCode"
| "leaf_type (StorageLeaf a pos) = LeafTypeStorage"
| "leaf_type (LengthLeaf a) = LeafTypeSCLength"

text \<open>The capacity with which the key of a leaf is hashed.\<close>

fun leaf_cap :: "poseidon \<Rightarrow> leaf \<Rightarrow> string + u64 list" where
  "leaf_cap P (StorageLeaf a pos) = P (scalar2fea (uint pos)) [0, 0, 0, 0]"
| "leaf_cap P l = Inr zero_cap"

lemma leaf_key_cases:
  assumes "leaf_key P l = Some (Inr k)"
  obtains cap where "leaf_cap P l = Inr cap" "keyEthAddr P (leaf_address l) (leaf_type l) cap = Some (Inr k)"
    "(key_input (leaf_address l) (leaf_type l), cap) \<in> leaf_inputs P l"
  using assms
proof (cases l)
  case (StorageLeaf a pos)
  then show ?thesis using assms that
    by (auto simp: KeyContractStorage_def poseidon_Hash_def split: sum.splits simp flip: uint_nat)
qed (auto simp: key_defs)

lemma leaf_key_hash:
  assumes "poseidon_4 P" "leaf_key P l = Some (Inr k)"
  obtains cap h where "leaf_cap P l = Inr cap" "P (key_input (leaf_address l) (leaf_type l)) cap = Inr h"
    "scalarToh4 (int (big_SetBytes k)) = Some h" "(key_input (leaf_address l) (leaf_type l), cap) \<in> leaf_inputs P l"
proof -
  obtain cap where c: "leaf_cap P l = Inr cap" "keyEthAddr P (leaf_address l) (leaf_type l) cap = Some (Inr k)"
    "(key_input (leaf_address l) (leaf_type l), cap) \<in> leaf_inputs P l" using leaf_key_cases [OF assms(2)] .
  then show ?thesis using keyEthAddr_result [OF assms(1), of "leaf_address l" "leaf_type l" cap] that
    by (cases "P (key_input (leaf_address l) (leaf_type l)) cap") simp_all
qed

lemma leaf_hash_inj:
  assumes "leaf_cap P l = Inr cl" "P (key_input (leaf_address l) (leaf_type l)) cl = Inr h"
    "(key_input (leaf_address l) (leaf_type l), cl) \<in> leaf_inputs P l"
    and "leaf_cap P m = Inr cm" "P (key_input (leaf_address m) (leaf_type m)) cm = Inr h"
    "(key_input (leaf_address m) (leaf_type m), cm) \<in> leaf_inputs P m"
    and inj: "inj_on (\<lambda>(x, c). P x c) (leaf_inputs P l \<union> leaf_inputs P m)"
  shows "l = m"
proof -
  have "(key_input (leaf_address l) (leaf_type l), cl) = (key_input (leaf_address m) (leaf_type m), cm)"
    using inj_onD [OF inj, of "(key_input (leaf_address l) (leaf_type l), cl)" "(key_input (leaf_address m) (leaf_type m), cm)"]
      assms(2,3,5,6) by simp
  then have e: "leaf_address l = leaf_address m" "leaf_type l = leaf_type m" "leaf_cap P l = leaf_cap P m"
    using assms(1,4) by (simp_all add: key_input_inj)
  show ?thesis
  proof (cases l)
    case (StorageLeaf a p)
    then obtain q where q: "m = StorageLeaf a q" using e(1,2) by (cases m) (simp_all add: leaf_types)
    have "scalar2fea (uint p) = scalar2fea (uint q)"
      using inj_onD [OF inj, of "(scalar2fea (uint p), [0, 0, 0, 0])" "(scalar2fea (uint q), [0, 0, 0, 0])"] e(3)
      by (simp add: StorageLeaf q)
    moreover have "uint x < 2 ^ 256" for x :: "256 word" using uint_lt2p [of x] by simp
    ultimately have "uint p = uint q" using scalar2fea_inj by simp
    then show ?thesis by (simp add: StorageLeaf q word_uint_eq_iff)
  qed (use e(1,2) in \<open>cases m; simp add: leaf_types\<close>)+
qed

lemma leaf_key_inj:
  assumes "poseidon_4 P" "leaf_key P l = Some (Inr k)" "leaf_key P m = Some (Inr k)"
    and "inj_on (\<lambda>(x, c). P x c) (leaf_inputs P l \<union> leaf_inputs P m)"
  shows "l = m"
proof -
  obtain cl hl where l: "leaf_cap P l = Inr cl" "P (key_input (leaf_address l) (leaf_type l)) cl = Inr hl"
    "scalarToh4 (int (big_SetBytes k)) = Some hl" "(key_input (leaf_address l) (leaf_type l), cl) \<in> leaf_inputs P l"
    using leaf_key_hash [OF assms(1,2)] .
  obtain cm hm where m: "leaf_cap P m = Inr cm" "P (key_input (leaf_address m) (leaf_type m)) cm = Inr hm"
    "scalarToh4 (int (big_SetBytes k)) = Some hm" "(key_input (leaf_address m) (leaf_type m), cm) \<in> leaf_inputs P m"
    using leaf_key_hash [OF assms(1,3)] .
  have "hl = hm" using l(3) m(3) by simp
  then show ?thesis using leaf_hash_inj [OF l(1,2,4) m(1) _ m(4) assms(4)] m(2) by simp
qed

text \<open>
  Two different leaves of the state tree, of different accounts, kinds or positions in the storage, have different keys,
  unless Poseidon collides on two of the at most four inputs that are hashed for the two keys.
\<close>

theorem leaf_keys_distinct:
  assumes "poseidon_4 P" "l \<noteq> m" "inj_on (\<lambda>(x, c). P x c) (leaf_inputs P l \<union> leaf_inputs P m)" "leaf_key P l = Some (Inr k)"
  shows "leaf_key P m \<noteq> Some (Inr k)"
  using leaf_key_inj [OF assms(1,4) _ assms(3)] assms(2) by blast

definition example_poseidon :: poseidon where
  "example_poseidon x c = Inr [x ! 0, x ! 6, c ! 0, 1]"

lemma example_poseidon_4: "poseidon_4 example_poseidon"
  by (simp add: poseidon_4_def example_poseidon_def)

lemma example_fea: "scalar2fea 3 = [3, 0, 0, 0, 0, 0, 0, 0]" "scalar2fea 7 = [7, 0, 0, 0, 0, 0, 0, 0]"
  by code_simp+

lemma example_inputs: "key_input 7 LeafTypeStorage = [7, 0, 0, 0, 0, 0, 3, 0]" "key_input 7 LeafTypeBalance = [7, 0, 0, 0, 0, 0, 0, 0]"
  by (simp_all add: key_input_eq example_fea leaf_types)

theorem leaf_keys_distinct_witness:
  "\<exists>k. leaf_key example_poseidon (StorageLeaf 7 3) = Some (Inr k) \<and> leaf_key example_poseidon (BalanceLeaf 7) \<noteq> Some (Inr k)"
proof -
  have "leaf_cap example_poseidon (StorageLeaf 7 3) = Inr [3, 0, 0, 1]"
    by (simp add: example_poseidon_def example_fea)
  then obtain k where k: "leaf_key example_poseidon (StorageLeaf 7 3) = Some (Inr k)"
    using keyEthAddr_result [OF example_poseidon_4, of 7 LeafTypeStorage "[3, 0, 0, 1]"]
    by (auto simp: KeyContractStorage_def poseidon_Hash_def example_poseidon_def example_fea simp flip: uint_nat)
  have "inj_on (\<lambda>(x, c). example_poseidon x c) (leaf_inputs example_poseidon (StorageLeaf 7 3) \<union> leaf_inputs example_poseidon (BalanceLeaf 7))"
    by (simp add: inj_on_def example_poseidon_def example_fea example_inputs)
  from leaf_keys_distinct [OF example_poseidon_4 _ this k] k show ?thesis by auto
qed

end
