(* ===== verification/CodeHash.thy ===== *)
theory CodeHash
  imports MerkleKeys
begin

text \<open>
  The hash of a contract's code: \<open>hashContractBytecode\<close> of \<open>merkletree/key.go\<close>. It is that of the padded code in blocks, and fixes the code as far
  as Poseidon does not collide.
\<close>

section \<open>The hash of the code\<close>

function pad_zeros :: "bytes \<Rightarrow> bytes" where
  "pad_zeros code = (if length code mod 56 \<noteq> 0 then pad_zeros (code @ [0]) else code)"
  by pat_completeness auto
termination
proof (relation "measure (\<lambda>code. (56 - length code mod 56) mod 56)")
  fix code :: bytes
  assume "length code mod 56 \<noteq> 0"
  then show "(code @ [0], code) \<in> measure (\<lambda>code. (56 - length code mod 56) mod 56)"
    using mod_less_divisor [of 56 "length code"] by (simp add: mod_Suc) linarith
qed simp

declare pad_zeros.simps [simp del]

definition pad_code :: "bytes \<Rightarrow> bytes" where
  "pad_code code = (let code = pad_zeros (code @ [1]) in code[length code - 1 := code ! (length code - 1) OR 0x80])"

text \<open>The bytes go into an element from its end; a full element goes to its place.\<close>

definition add_byte :: "bytes \<Rightarrow> bytes \<times> nat \<times> nat \<times> u64 list \<Rightarrow> nat \<Rightarrow> bytes \<times> nat \<times> nat \<times> u64 list" where
  "add_byte subsetBytecode = (\<lambda>(tmpElem, counter, index, elementsToHash) j.
     let byteToAdd = (if j < length subsetBytecode then subsetBytecode ! j else 0);
         tmpElem = tmpElem[7 - 1 - counter := byteToAdd];
         counter = counter + 1
     in if counter = 7 then (replicate 7 0, 0, index + 1, elementsToHash[index := of_nat (big_SetBytes tmpElem)])
        else (tmpElem, counter, index, elementsToHash))"

definition elements_to_hash :: "bytes \<Rightarrow> u64 list \<Rightarrow> u64 list" where
  "elements_to_hash subsetBytecode tmpHash =
     snd (snd (snd (foldl (add_byte subsetBytecode) (replicate 7 0, 0, 4, tmpHash @ replicate 8 0) [0..<56])))"

fun hash_loop :: "poseidon \<Rightarrow> bytes \<Rightarrow> nat \<Rightarrow> nat \<Rightarrow> u64 list \<Rightarrow> (mt_error + u64 list) option" where
  "hash_loop P code 0 bytesPointer tmpHash = Some (Inr tmpHash)"
| "hash_loop P code (Suc n) bytesPointer tmpHash =
     (let subsetBytecode = take (min (length code - 1) (bytesPointer + 56) + 1 - bytesPointer) (drop bytesPointer code);
          e = elements_to_hash subsetBytecode tmpHash
      in mt_then (poseidon_Hash P (drop 4 e) (take 4 e)) (hash_loop P code n (bytesPointer + 56)))"

definition hashContractBytecode :: "poseidon \<Rightarrow> bytes \<Rightarrow> (mt_error + u64 list) option" where
  "hashContractBytecode P code =
     (let code = pad_code code in hash_loop P code ((length code + 55) div 56) 0 [0, 0, 0, 0])"

section \<open>The code hash\<close>

text \<open>The padding: a one, zeros, and the highest bit of the last byte of a block.\<close>

definition padded :: "bytes \<Rightarrow> bytes" where
  "padded code = code @ (if length code mod 56 = 55 then [0x81] else 1 # replicate (54 - length code mod 56) 0 @ [0x80])"

lemma pad_zeros_eq: "pad_zeros code = code @ replicate ((56 - length code mod 56) mod 56) 0"
proof (induction code rule: pad_zeros.induct)
  case (1 code)
  show ?case
  proof (cases "length code mod 56 = 0")
    case False
    have "(56 - length code mod 56) mod 56 = Suc ((56 - Suc (length code) mod 56) mod 56)"
      using False by (simp add: mod_Suc) presburger
    then show ?thesis using 1 [OF False] False by (subst pad_zeros.simps) simp
  qed (subst pad_zeros.simps, simp)
qed

lemma pad_last: "(let c = xs @ [b] in c[length c - 1 := c ! (length c - 1) OR 0x80]) = xs @ [b OR (0x80 :: u8)]"
  by simp

lemma pad_code_eq: "pad_code code = padded code"
proof -
  let ?m = "length code mod 56"
  show ?thesis
  proof (cases "?m = 55")
    case True
    then have "Suc (length code) mod 56 = 0" by (simp add: mod_Suc)
    then have "pad_zeros (code @ [1]) = code @ [1]" by (simp add: pad_zeros_eq)
    then show ?thesis using True by (simp add: pad_code_def padded_def)
  next
    case False
    then have "(56 - length (code @ [1]) mod 56) mod 56 = Suc (54 - ?m)"
      using mod_less_divisor [of 56 "length code"] by (simp add: mod_Suc)
    then have "pad_zeros (code @ [1]) = (code @ 1 # replicate (54 - ?m) 0) @ [0]"
      by (simp only: pad_zeros_eq replicate_Suc) (simp add: replicate_append_same)
    then have "pad_code code = (code @ 1 # replicate (54 - ?m) 0) @ [0 OR 0x80]" unfolding pad_code_def by (simp only: pad_last)
    then show ?thesis using False by (simp add: padded_def)
  qed
qed

lemma length_padded: "length (padded code) mod 56 = 0" "0 < length (padded code)"
proof -
  have l: "length (padded code) = length code + (if length code mod 56 = 55 then 1 else 2 + (54 - length code mod 56))"
    by (simp add: padded_def)
  have "56 * (length code div 56) + length code mod 56 = length code" "length code mod 56 < 56" by simp_all
  then have "length (padded code) = 56 * (length code div 56) + 56"
    unfolding l by (cases "length code mod 56 = 55"; simp only: if_True if_False simp_thms; linarith)
  then show "length (padded code) mod 56 = 0" "0 < length (padded code)" by simp_all
qed

definition element :: "bytes \<Rightarrow> nat \<Rightarrow> u64" where
  "element block i = of_nat (big_SetBytes (rev (take 7 (drop (7 * i) block))))"

definition block_elements :: "bytes \<Rightarrow> u64 list" where
  "block_elements block = map (element block) [0..<8]"

definition code_blocks :: "bytes \<Rightarrow> bytes list" where
  "code_blocks code = map (\<lambda>j. take 56 (drop (56 * j) code)) [0..<length code div 56]"

primrec code_chain :: "poseidon \<Rightarrow> u64 list \<Rightarrow> bytes list \<Rightarrow> (mt_error + u64 list) option" where
  "code_chain P h [] = Some (Inr h)"
| "code_chain P h (b # bs) = mt_then (poseidon_Hash P (block_elements b) h) (\<lambda>h. code_chain P h bs)"

lemma upt_7: "[n..<n + 7] = [n, n + 1, n + 2, n + 3, n + 4, n + 5, n + 6]"
  by (simp add: upt_rec)

lemma take_drop_7:
  assumes "n + 7 \<le> length xs"
  shows "take 7 (drop n xs) = [xs ! n, xs ! (n + 1), xs ! (n + 2), xs ! (n + 3), xs ! (n + 4), xs ! (n + 5), xs ! (n + 6)]"
proof -
  have "take 7 (drop n xs) = map (\<lambda>i. xs ! i) [n..<n + 7]" using assms by (intro nth_equalityI) simp_all
  then show ?thesis by (simp only: upt_7 list.map)
qed

lemma add_element:
  assumes "7 * b + 7 \<le> length sub"
  shows "foldl (add_byte sub) (replicate 7 0, 0, index, els) [7 * b..<7 * b + 7] = (replicate 7 0, 0, Suc index, els[index := element sub b])"
proof -
  have z: "replicate 7 (0 :: u8) = [0, 0, 0, 0, 0, 0, 0]" by code_simp
  show ?thesis using assms unfolding upt_7 z by (simp add: add_byte_def element_def take_drop_7 z)
qed

lemma add_elements:
  assumes "7 * n \<le> length sub" "n \<le> 8" "length h = 4"
  shows "foldl (add_byte sub) (replicate 7 0, 0, 4, h @ replicate 8 0) [0..<7 * n] =
    (replicate 7 0, 0, 4 + n, h @ map (element sub) [0..<n] @ replicate (8 - n) 0)"
  using assms
proof (induction n)
  case (Suc n)
  have "[0..<7 * Suc n] = [0..<7 * n] @ [7 * n..<7 * n + 7]" using upt_add_eq_append [of 0 "7 * n" 7] by (simp add: add.commute)
  moreover have "replicate (8 - n) 0 = 0 # replicate (8 - Suc n) (0 :: u64)" using Suc.prems(2) by (simp add: Suc_diff_le flip: replicate_Suc)
  ultimately show ?case using Suc add_element [of n sub "4 + n"] by (simp add: list_update_append)
qed simp

lemma elements_to_hash_eq:
  assumes "56 \<le> length sub" "length h = 4"
  shows "elements_to_hash sub h = h @ block_elements sub"
  using add_elements [of 8 sub h] assms by (simp add: elements_to_hash_def block_elements_def)

lemma block_elements_take: "56 \<le> length sub \<Longrightarrow> block_elements (take 56 sub) = block_elements sub"
proof -
  have "take 7 (drop (7 * i) (take 56 sub)) = take 7 (drop (7 * i) sub)" if "i < 8" for i
    using that by (simp add: drop_take min_def)
  then show ?thesis by (simp add: block_elements_def element_def)
qed

lemma hash_loop_chain:
  assumes "poseidon_4 P" "length code = 56 * (i + n)" "length h = 4"
  shows "hash_loop P code n (56 * i) h = code_chain P h (map (\<lambda>j. take 56 (drop (56 * j) code)) [i..<i + n])"
  using assms(2,3)
proof (induction n arbitrary: i h)
  case (Suc n)
  let ?sub = "take (min (length code - 1) (56 * i + 56) + 1 - 56 * i) (drop (56 * i) code)"
  have l: "56 \<le> length ?sub" using Suc.prems(1) by simp
  have t: "take 56 ?sub = take 56 (drop (56 * i) code)" using l by simp
  have e: "elements_to_hash ?sub h = h @ block_elements (take 56 (drop (56 * i) code))"
    using elements_to_hash_eq [OF l Suc.prems(2)] block_elements_take [OF l] t by simp
  have step: "hash_loop P code (Suc n) (56 * i) h =
      mt_then (poseidon_Hash P (block_elements (take 56 (drop (56 * i) code))) h) (hash_loop P code n (56 * Suc i))"
    using e Suc.prems(2) by (simp add: add.commute)
  have upt: "[i..<i + Suc n] = i # [Suc i..<Suc i + n]" by (simp add: upt_conv_Cons)
  have "hash_loop P code n (56 * Suc i) h' = code_chain P h' (map (\<lambda>j. take 56 (drop (56 * j) code)) [Suc i..<Suc i + n])"
    if "P (block_elements (take 56 (drop (56 * i) code))) h = Inr h'" for h'
    using Suc.IH [of "Suc i" h'] that Suc.prems(1) assms(1) by (simp add: poseidon_4_def)
  then show ?case unfolding step upt
    by (cases "P (block_elements (take 56 (drop (56 * i) code))) h") (simp_all add: poseidon_Hash_def del: upt_Suc)
qed simp

lemma hash_code_chain:
  assumes "poseidon_4 P"
  shows "hashContractBytecode P code = code_chain P [0, 0, 0, 0] (code_blocks (padded code))"
proof -
  obtain m where m: "length (padded code) = 56 * m" using length_padded(1) [of code] by (auto simp: mod_eq_0_iff_dvd)
  then have "(length (padded code) + 55) div 56 = m" "length (padded code) div 56 = m" by simp_all
  then show ?thesis using hash_loop_chain [OF assms, of "padded code" 0 m "[0, 0, 0, 0]"] m
    by (simp add: hashContractBytecode_def pad_code_eq code_blocks_def)
qed

text \<open>
  The hash of a contract's code is the chain of Poseidon over the blocks of 56 bytes of the padded code, each block as
  eight numbers of seven bytes, least significant first, starting from zero: the loops of \<open>hashContractBytecode\<close> compute exactly it, and never panic.
\<close>

theorem hashContractBytecode_blocks:
  assumes "poseidon_4 P"
  shows "hashContractBytecode P code = code_chain P [0, 0, 0, 0] (code_blocks (padded code))"
  using assms by (rule hash_code_chain)

lemma SetBytes_zeros: "foldl (\<lambda>a b. a * 256 + unat b) 0 (replicate k (0 :: u8)) = 0"
  by (induction k) simp_all

theorem hashContractBytecode_blocks_witness:
  "hashContractBytecode example_poseidon [3, 2] = Some (Inr [66051, 0, 0, 1]) \<and>
   code_chain example_poseidon [0, 0, 0, 0] (code_blocks (padded [3, 2])) = Some (Inr [66051, 0, 0, 1])"
proof -
  have "code_chain example_poseidon [0, 0, 0, 0] (code_blocks (padded [3, 2])) = Some (Inr [66051, 0, 0, 1])"
    by (simp add: padded_def code_blocks_def block_elements_def element_def poseidon_Hash_def example_poseidon_def big_SetBytes_def SetBytes_zeros upt_rec)
  with hashContractBytecode_blocks [OF example_poseidon_4, of "[3, 2]"] show ?thesis by simp
qed

section \<open>A code hash fixes the code\<close>

primrec chain_inputs :: "poseidon \<Rightarrow> u64 list \<Rightarrow> bytes list \<Rightarrow> (u64 list \<times> u64 list) set" where
  "chain_inputs P h [] = {}"
| "chain_inputs P h (b # bs) =
     insert (block_elements b, h) (case P (block_elements b) h of Inl _ \<Rightarrow> {} | Inr h' \<Rightarrow> chain_inputs P h' bs)"

lemma chain_snoc: "code_chain P h (bs @ [b]) = mt_then (code_chain P h bs) (poseidon_Hash P (block_elements b))"
proof (induction bs arbitrary: h)
  case Nil
  then show ?case by (simp add: mt_then_def poseidon_Hash_def split: sum.splits)
next
  case (Cons c bs)
  then show ?case by (cases "P (block_elements c) h") (simp_all add: poseidon_Hash_def)
qed

lemma chain_snocE:
  assumes "code_chain P z (bs @ [b]) = Some (Inr r)"
  obtains h where "code_chain P z bs = Some (Inr h)" "P (block_elements b) h = Inr r"
proof -
  obtain h where h: "code_chain P z bs = Some (Inr h)" "poseidon_Hash P (block_elements b) h = Some (Inr r)"
    using assms unfolding chain_snoc by (rule mt_then_InrE)
  then show ?thesis using that by (cases "P (block_elements b) h") (simp_all add: poseidon_Hash_def)
qed

lemma chain_inputs_snoc:
  "chain_inputs P h bs \<subseteq> chain_inputs P h (bs @ [b])"
  "code_chain P h bs = Some (Inr h') \<Longrightarrow> (block_elements b, h') \<in> chain_inputs P h (bs @ [b])"
proof (induction bs arbitrary: h)
  case (Cons c bs)
  {
    case 1
    then show ?case using Cons.IH by (cases "P (block_elements c) h") auto
  next
    case 2
    then show ?case using Cons.IH by (cases "P (block_elements c) h") (auto simp: poseidon_Hash_def)
  }
qed simp_all

lemma digit_256:
  assumes "a * 256 + x = b * 256 + y" "x < 256" "y < (256 :: nat)"
  shows "a = b \<and> x = y"
proof -
  have "(a * 256 + x) div 256 = a" "(a * 256 + x) mod 256 = x" "(b * 256 + y) div 256 = b" "(b * 256 + y) mod 256 = y"
    using assms(2,3) by simp_all
  then show ?thesis using assms(1) by metis
qed

lemma SetBytes_inj: "length xs = length ys \<Longrightarrow> big_SetBytes xs = big_SetBytes ys \<Longrightarrow> xs = ys"
proof (induction xs ys rule: rev_induct2)
  case (4 x xs y ys)
  have "big_SetBytes xs = big_SetBytes ys \<and> unat x = unat y" using 4(3) by (intro digit_256) (simp_all del: unat_u8_less add: unat_u8_less)
  then show ?case using 4(1,2) by (simp add: word_unat_eq_iff)
qed auto

lemma block_elements_inj:
  assumes "length b = 56" "length c = 56" "block_elements b = block_elements c"
  shows "b = c"
proof -
  have part: "take 7 (drop (7 * i) b) = take 7 (drop (7 * i) c)" if "i < 8" for i
  proof -
    let ?x = "rev (take 7 (drop (7 * i) b))" and ?y = "rev (take 7 (drop (7 * i) c))"
    have l: "length ?x = 7" "length ?y = 7" using that assms(1,2) by simp_all
    have "element b i = element c i" using arg_cong [OF assms(3), of "\<lambda>es. es ! i"] that by (simp add: block_elements_def)
    moreover have "big_SetBytes ?x < 2 ^ 64" "big_SetBytes ?y < 2 ^ 64" using SetBytes_less [of ?x] SetBytes_less [of ?y] l by simp_all
    ultimately have "big_SetBytes ?x = big_SetBytes ?y"
      by (simp add: element_def word_unat_eq_iff unat_of_nat take_bit_nat_eq_self)
    with l SetBytes_inj [of ?x ?y] show ?thesis by simp
  qed
  show ?thesis
  proof (rule nth_equalityI)
    fix k assume k: "k < length b"
    have "k div 7 < 8" using k assms(1) by (simp add: div_less_iff_less_mult)
    from arg_cong [OF part [OF this], of "\<lambda>xs. xs ! (k mod 7)"] show "b ! k = c ! k"
      using k assms(1,2) \<open>k div 7 < 8\<close> by (simp add: mult_div_mod_eq)
  qed (simp add: assms)
qed

text \<open>Chains from the same start that never come back to it.\<close>

lemma chain_inj:
  assumes "code_chain P z bs = Some (Inr r)" "code_chain P z cs = Some (Inr r)"
    and "list_all (\<lambda>b. length b = 56) bs" "list_all (\<lambda>b. length b = 56) cs"
    and "inj_on (\<lambda>(x, c). P x c) (chain_inputs P z bs \<union> chain_inputs P z cs)"
    and "\<forall>(x, c) \<in> chain_inputs P z bs \<union> chain_inputs P z cs. P x c \<noteq> Inr z"
  shows "bs = cs"
  using assms
proof (induction bs arbitrary: r cs rule: rev_induct)
  case Nil
  show ?case
  proof (cases cs rule: rev_cases)
    case (snoc cs' c)
    obtain h where h: "code_chain P z cs' = Some (Inr h)" "P (block_elements c) h = Inr r"
      using Nil(2) unfolding snoc by (rule chain_snocE)
    then have "P (block_elements c) h = Inr z" using Nil(1) by simp
    then show ?thesis using Nil(6) chain_inputs_snoc(2) [OF h(1), of c] by (auto simp: snoc)
  qed simp
next
  case (snoc b bs)
  obtain h where h: "code_chain P z bs = Some (Inr h)" "P (block_elements b) h = Inr r"
    using snoc.prems(1) by (rule chain_snocE)
  have hb: "(block_elements b, h) \<in> chain_inputs P z (bs @ [b])" by (rule chain_inputs_snoc(2) [OF h(1)])
  show ?case
  proof (cases cs rule: rev_cases)
    case Nil
    then have "P (block_elements b) h = Inr z" using snoc.prems(2) h(2) by simp
    moreover have "P (block_elements b) h \<noteq> Inr z" using bspec [OF snoc.prems(6) UnI1 [OF hb]] by simp
    ultimately show ?thesis by simp
  next
    case c: (snoc cs' c)
    obtain h' where h': "code_chain P z cs' = Some (Inr h')" "P (block_elements c) h' = Inr r"
      using snoc.prems(2) unfolding c by (rule chain_snocE)
    have "(block_elements c, h') \<in> chain_inputs P z cs" unfolding c by (rule chain_inputs_snoc(2) [OF h'(1)])
    with inj_onD [OF snoc.prems(5), of "(block_elements b, h)" "(block_elements c, h')"] hb h(2) h'(2)
    have e: "block_elements b = block_elements c" "h = h'" by simp_all
    have sub: "chain_inputs P z bs \<union> chain_inputs P z cs' \<subseteq> chain_inputs P z (bs @ [b]) \<union> chain_inputs P z cs"
      using chain_inputs_snoc(1) unfolding c by blast
    have "bs = cs'"
      using snoc.IH [OF h(1), of cs'] h'(1) e(2) snoc.prems(3,4) inj_on_subset [OF snoc.prems(5) sub] snoc.prems(6) sub
      by (auto simp: c)
    moreover have "b = c" using block_elements_inj [OF _ _ e(1)] snoc.prems(3,4) by (simp add: c)
    ultimately show ?thesis by (simp add: c)
  qed
qed

lemma code_blocks_inj:
  assumes "length c mod 56 = 0" "length d mod 56 = 0" "code_blocks c = code_blocks d"
  shows "c = d"
proof -
  have l: "length c div 56 = length d div 56" using arg_cong [OF assms(3), of length] by (simp add: code_blocks_def)
  then have len: "length c = length d" using assms(1,2) by (metis mult_div_mod_eq)
  show ?thesis
  proof (rule nth_equalityI [OF len])
    fix k assume k: "k < length c"
    have q: "k div 56 < length c div 56" using k assms(1) by (metis div_less_iff_less_mult div_mult_self1_is_m dvd_imp_mod_0 mod_0_imp_dvd dvd_div_mult_self zero_less_numeral)
    have m: "k mod 56 < 56" "56 * (k div 56) + k mod 56 = k" by simp_all
    have "take 56 (drop (56 * (k div 56)) c) ! (k mod 56) = take 56 (drop (56 * (k div 56)) d) ! (k mod 56)"
      using arg_cong [OF assms(3), of "\<lambda>bs. bs ! (k div 56) ! (k mod 56)"] q l by (simp add: code_blocks_def)
    then show "c ! k = d ! k" using k len m by simp
  qed
qed

lemma zeros_one_inj: "replicate k 0 @ 1 # xs = replicate j 0 @ 1 # ys \<Longrightarrow> xs = ys" for xs ys :: bytes
proof (induction k arbitrary: j)
  case 0
  then show ?case by (cases j) auto
next
  case (Suc k)
  then show ?case by (cases j) auto
qed

lemma padded_inj:
  assumes "padded c = padded d"
  shows "c = d"
proof -
  have r: "rev (padded x) = (if length x mod 56 = 55 then 0x81 # rev x else 0x80 # replicate (54 - length x mod 56) 0 @ 1 # rev x)" for x
    by (simp add: padded_def)
  have "rev (padded c) = rev (padded d)" using assms by simp
  then show ?thesis using zeros_one_inj [of "54 - length c mod 56" "rev c" "54 - length d mod 56" "rev d"] unfolding r
    by (cases "length c mod 56 = 55"; cases "length d mod 56 = 55") simp_all
qed

lemma code_blocks_56: "length c mod 56 = 0 \<Longrightarrow> list_all (\<lambda>b. length b = 56) (code_blocks c)"
proof -
  assume m: "length c mod 56 = 0"
  have "56 * j + 56 \<le> length c" if "j < length c div 56" for j
  proof -
    have "56 * Suc j \<le> 56 * (length c div 56)" using that by (intro mult_le_mono2) simp
    then show ?thesis using m by (simp add: mod_0_imp_dvd)
  qed
  then show ?thesis by (fastforce simp: code_blocks_def list_all_iff)
qed

text \<open>What is hashed for a code.\<close>

definition code_inputs :: "poseidon \<Rightarrow> bytes \<Rightarrow> (u64 list \<times> u64 list) set" where
  "code_inputs P code = chain_inputs P [0, 0, 0, 0] (code_blocks (padded code))"

text \<open>
  C19. Different codes have different hashes, also if they are of different lengths and end in zeros, unless Poseidon collides on two of the inputs that are hashed for
  them, or hashes one of these inputs to zero.
\<close>

theorem code_hashes_distinct:
  assumes "poseidon_4 P" "c \<noteq> d" "hashContractBytecode P c = Some (Inr h)"
    and "inj_on (\<lambda>(x, k). P x k) (code_inputs P c \<union> code_inputs P d)"
    and "\<forall>(x, k) \<in> code_inputs P c \<union> code_inputs P d. P x k \<noteq> Inr [0, 0, 0, 0]"
  shows "hashContractBytecode P d \<noteq> Some (Inr h)"
proof
  assume "hashContractBytecode P d = Some (Inr h)"
  with assms(3) have h: "code_chain P [0, 0, 0, 0] (code_blocks (padded c)) = Some (Inr h)"
    "code_chain P [0, 0, 0, 0] (code_blocks (padded d)) = Some (Inr h)" by (simp_all only: hash_code_chain [OF assms(1)])
  have "code_blocks (padded c) = code_blocks (padded d)"
    by (rule chain_inj [OF h code_blocks_56 [OF length_padded(1)] code_blocks_56 [OF length_padded(1)]])
      (use assms(4,5) in \<open>simp_all only: code_inputs_def\<close>)
  then have "padded c = padded d" by (rule code_blocks_inj [OF length_padded(1) length_padded(1)])
  then show False using padded_inj assms(2) by blast
qed

lemma example_blocks:
  "code_blocks (padded [3]) = [3 # 1 # replicate 53 0 @ [128]]" "code_blocks (padded [4]) = [4 # 1 # replicate 53 0 @ [128]]"
  "element (3 # 1 # replicate 53 0 @ [128]) 0 = 259" "element (4 # 1 # replicate 53 0 @ [128]) 0 = 260"
  by (simp_all add: padded_def code_blocks_def element_def big_SetBytes_def SetBytes_zeros)

theorem code_hashes_distinct_witness:
  "\<exists>h. hashContractBytecode example_poseidon [3] = Some (Inr h) \<and> hashContractBytecode example_poseidon [4] \<noteq> Some (Inr h)"
proof -
  let ?b = "\<lambda>x. block_elements (x # 1 # replicate 53 0 @ [128])"
  have e: "?b 3 ! 0 = 259" "?b 4 ! 0 = 260" using example_blocks(3,4) by (simp_all add: block_elements_def)
  have i: "code_inputs example_poseidon [3] = {(?b 3, [0, 0, 0, 0])}" "code_inputs example_poseidon [4] = {(?b 4, [0, 0, 0, 0])}"
    by (simp_all add: code_inputs_def example_blocks example_poseidon_def)
  have h: "hashContractBytecode example_poseidon [3] = Some (Inr [259, ?b 3 ! 6, 0, 1])"
    by (simp only: hash_code_chain [OF example_poseidon_4] example_blocks) (simp add: poseidon_Hash_def example_poseidon_def e)
  have "inj_on (\<lambda>(x, k). example_poseidon x k) (code_inputs example_poseidon [3] \<union> code_inputs example_poseidon [4])"
    unfolding i by (simp add: inj_on_def example_poseidon_def e)
  moreover have "\<forall>(x, k) \<in> code_inputs example_poseidon [3] \<union> code_inputs example_poseidon [4]. example_poseidon x k \<noteq> Inr [0, 0, 0, 0]"
    unfolding i by (simp add: example_poseidon_def)
  ultimately show ?thesis using code_hashes_distinct [OF example_poseidon_4 _ h, of "[4]"] h by simp
qed

end
