(* ===== verification/StateTree.thy ===== *)
theory StateTree
  imports CodeHash
begin

text \<open>
  The state tree: \<open>merkletree/tree.go\<close>. The hash
  database behind gRPC is a parameter, with its documented behaviour as a hypothesis: \<open>Get\<close> gets the value of a key under a root, \<open>Set\<close>
  sets the value of one key and gives the root for it, and the programs are stored under their key. The tree is shown to implement a map from the leaves
  of the accounts to numbers.
\<close>

section \<open>The hash database\<close>

type_synonym Fea = "u64 \<times> u64 \<times> u64 \<times> u64"

record SetResponse =
  sr_NewRoot :: "Fea option"
  sr_NewValue :: string

record 'd hashdb =
  hd_Get :: "'d \<Rightarrow> Fea \<Rightarrow> Fea \<Rightarrow> string + string"
  hd_GetProgram :: "'d \<Rightarrow> Fea \<Rightarrow> string + bytes"
  hd_Set :: "'d \<Rightarrow> Fea \<Rightarrow> Fea \<Rightarrow> string \<Rightarrow> string \<Rightarrow> (string + SetResponse) \<times> 'd"
  hd_SetProgram :: "'d \<Rightarrow> Fea \<Rightarrow> bytes \<Rightarrow> bool \<Rightarrow> string option \<times> 'd"
  hd_Flush :: "'d \<Rightarrow> string \<Rightarrow> string option \<times> 'd"

text \<open>A slice that is too short is an index out of range.\<close>

definition to_Fea :: "u64 list \<Rightarrow> Fea option" where
  "to_Fea v = (if length v < 4 then None else Some (v ! 0, v ! 1, v ! 2, v ! 3))"

section \<open>Requests\<close>

record mt_Proof =
  pr_Root :: "u64 list"
  pr_Key :: "u64 list"
  pr_Value :: "u64 list"

record UpdateProof =
  up_OldRoot :: "u64 list"
  up_NewRoot :: "u64 list"
  up_Key :: "u64 list"
  up_NewValue :: "u64 list"

definition tree_get :: "'d hashdb \<Rightarrow> 'd \<Rightarrow> u64 list \<Rightarrow> u64 list \<Rightarrow> (mt_error + mt_Proof) option" where
  "tree_get H d root key =
     (case (to_Fea root, to_Fea key) of
        (Some r, Some k) \<Rightarrow>
          (case hd_Get H d r k of
             Inl e \<Rightarrow> Some (Inl (GrpcErr e))
           | Inr result \<Rightarrow>
               (case string2fea result of
                  Inl e \<Rightarrow> Some (Inl e)
                | Inr value \<Rightarrow> Some (Inr \<lparr>pr_Root = take 4 root, pr_Key = key, pr_Value = value\<rparr>)))
      | _ \<Rightarrow> None)"

definition tree_getProgram :: "'d hashdb \<Rightarrow> 'd \<Rightarrow> u64 list \<Rightarrow> (mt_error + bytes) option" where
  "tree_getProgram H d key =
     (case to_Fea key of
        None \<Rightarrow> None
      | Some k \<Rightarrow> Some (case hd_GetProgram H d k of Inl e \<Rightarrow> Inl (GrpcErr e) | Inr dat \<Rightarrow> Inr dat))"

text \<open>No new value in the answer is a nil slice.\<close>

definition new_value :: "string \<Rightarrow> mt_error + u64 list" where
  "new_value s = (if s \<noteq> [] then string2fea s else Inr [])"

definition tree_set :: "'d hashdb \<Rightarrow> u64 list \<Rightarrow> u64 list \<Rightarrow> u64 list \<Rightarrow> string \<Rightarrow> 'd \<Rightarrow> (mt_error + UpdateProof) option \<times> 'd" where
  "tree_set H oldRoot key value uuid d =
     (case (fea2string value, to_Fea oldRoot, to_Fea key) of
        (Some feaValue, Some r, Some k) \<Rightarrow>
          (case hd_Set H d r k (if HasPrefix0x feaValue then drop 2 feaValue else feaValue) uuid of
             (Inl e, d) \<Rightarrow> (Some (Inl (GrpcErr e)), d)
           | (Inr result, d) \<Rightarrow>
               (case new_value (sr_NewValue result) of
                  Inl e \<Rightarrow> (Some (Inl e), d)
                | Inr newValue \<Rightarrow>
                    (case sr_NewRoot result of
                       None \<Rightarrow> (None, d)
                     | Some (f0, f1, f2, f3) \<Rightarrow>
                         (Some (Inr \<lparr>up_OldRoot = oldRoot, up_NewRoot = [f0, f1, f2, f3], up_Key = key, up_NewValue = newValue\<rparr>), d))))
      | _ \<Rightarrow> (None, d))"

definition tree_setProgram :: "'d hashdb \<Rightarrow> u64 list \<Rightarrow> bytes \<Rightarrow> bool \<Rightarrow> 'd \<Rightarrow> (mt_error + unit) option \<times> 'd" where
  "tree_setProgram H key dat persistent d =
     (case to_Fea key of
        None \<Rightarrow> (None, d)
      | Some k \<Rightarrow> (case hd_SetProgram H d k dat persistent of (Some e, d) \<Rightarrow> (Some (Inl (GrpcErr e)), d) | (None, d) \<Rightarrow> (Some (Inr ()), d)))"

definition tree_Flush :: "'d hashdb \<Rightarrow> string \<Rightarrow> 'd \<Rightarrow> (mt_error + unit) option \<times> 'd" where
  "tree_Flush H uuid d = (case hd_Flush H d uuid of (Some e, d) \<Rightarrow> (Some (Inl (GrpcErr e)), d) | (None, d) \<Rightarrow> (Some (Inr ()), d))"

section \<open>Reading\<close>

text \<open>Roots and keys are bytes.\<close>

definition bytes_h4 :: "bytes \<Rightarrow> (mt_error + u64 list) option" where
  "bytes_h4 bs = map_option Inr (scalarToh4 (int (big_SetBytes bs)))"

text \<open>The part that the readers share; the value of a proof is never nil.\<close>

definition get_value :: "'d hashdb \<Rightarrow> 'd \<Rightarrow> bytes \<Rightarrow> bytes \<Rightarrow> (mt_error + int) option" where
  "get_value H d root key =
     mt_then (bytes_h4 root) (\<lambda>r. mt_then (bytes_h4 key) (\<lambda>k. mt_then (tree_get H d r k) (\<lambda>proof. Some (Inr (fea2scalar (pr_Value proof))))))"

definition GetBalance :: "poseidon \<Rightarrow> 'd hashdb \<Rightarrow> 'd \<Rightarrow> address \<Rightarrow> bytes \<Rightarrow> (mt_error + int) option" where
  "GetBalance P H d addr root = mt_then (KeyEthAddrBalance P addr) (get_value H d root)"

definition GetNonce :: "poseidon \<Rightarrow> 'd hashdb \<Rightarrow> 'd \<Rightarrow> address \<Rightarrow> bytes \<Rightarrow> (mt_error + int) option" where
  "GetNonce P H d addr root = mt_then (KeyEthAddrNonce P addr) (get_value H d root)"

definition GetCodeHash :: "poseidon \<Rightarrow> 'd hashdb \<Rightarrow> 'd \<Rightarrow> address \<Rightarrow> bytes \<Rightarrow> (mt_error + bytes) option" where
  "GetCodeHash P H d addr root =
     mt_then (mt_then (KeyContractCode P addr) (get_value H d root)) (\<lambda>valueBi. map_option Inr (ScalarToFilledByteSlice valueBi))"

definition GetCode :: "poseidon \<Rightarrow> 'd hashdb \<Rightarrow> 'd \<Rightarrow> address \<Rightarrow> bytes \<Rightarrow> (mt_error + bytes) option" where
  "GetCode P H d addr root =
     mt_then (GetCodeHash P H d addr root) (\<lambda>scCodeHash. mt_then (bytes_h4 scCodeHash) (tree_getProgram H d))"

definition GetStorageAt :: "poseidon \<Rightarrow> 'd hashdb \<Rightarrow> 'd \<Rightarrow> address \<Rightarrow> int \<Rightarrow> bytes \<Rightarrow> (mt_error + int) option" where
  "GetStorageAt P H d addr position root = mt_then (KeyContractStorage P addr (be_bytes (nat \<bar>position\<bar>))) (get_value H d root)"

section \<open>Writing\<close>

definition mt_step :: "(mt_error + 'a) option \<times> 'd \<Rightarrow> ('a \<Rightarrow> 'd \<Rightarrow> (mt_error + 'b) option \<times> 'd) \<Rightarrow> (mt_error + 'b) option \<times> 'd" where
  "mt_step m f = (case m of (None, d) \<Rightarrow> (None, d) | (Some (Inl e), d) \<Rightarrow> (Some (Inl e), d) | (Some (Inr x), d) \<Rightarrow> f x d)"

definition new_root :: "UpdateProof \<Rightarrow> 'd \<Rightarrow> (mt_error + bytes \<times> UpdateProof) option \<times> 'd" where
  "new_root updateProof d = (map_option (\<lambda>root. Inr (root, updateProof)) (h4ToFilledByteSlice (up_NewRoot updateProof)), d)"

definition set_value :: "'d hashdb \<Rightarrow> bytes \<Rightarrow> int \<Rightarrow> string \<Rightarrow> bytes \<Rightarrow> 'd \<Rightarrow> (mt_error + bytes \<times> UpdateProof) option \<times> 'd" where
  "set_value H root v uuid key d =
     mt_step (bytes_h4 root, d) (\<lambda>r d. mt_step (bytes_h4 key, d) (\<lambda>k d. mt_step (tree_set H r k (scalar2fea v) uuid d) new_root))"

definition SetBalance :: "poseidon \<Rightarrow> 'd hashdb \<Rightarrow> address \<Rightarrow> int \<Rightarrow> bytes \<Rightarrow> string \<Rightarrow> 'd \<Rightarrow> (mt_error + bytes \<times> UpdateProof) option \<times> 'd" where
  "SetBalance P H addr balance root uuid d =
     (if balance < 0 then (Some (Inl InvalidBalance), d) else mt_step (KeyEthAddrBalance P addr, d) (set_value H root balance uuid))"

definition SetNonce :: "poseidon \<Rightarrow> 'd hashdb \<Rightarrow> address \<Rightarrow> int \<Rightarrow> bytes \<Rightarrow> string \<Rightarrow> 'd \<Rightarrow> (mt_error + bytes \<times> UpdateProof) option \<times> 'd" where
  "SetNonce P H addr nonce root uuid d =
     (if nonce < 0 then (Some (Inl InvalidNonce), d) else mt_step (KeyEthAddrNonce P addr, d) (set_value H root nonce uuid))"

definition SetStorageAt ::
  "poseidon \<Rightarrow> 'd hashdb \<Rightarrow> address \<Rightarrow> int \<Rightarrow> int \<Rightarrow> bytes \<Rightarrow> string \<Rightarrow> 'd \<Rightarrow> (mt_error + bytes \<times> UpdateProof) option \<times> 'd" where
  "SetStorageAt P H addr position v root uuid d =
     mt_step (KeyContractStorage P addr (be_bytes (nat \<bar>position\<bar>)), d) (set_value H root v uuid)"

definition hash_of_string :: "u64 list \<Rightarrow> (mt_error + bytes) option" where
  "hash_of_string scCodeHash4 =
     (case H4ToString scCodeHash4 of
        None \<Rightarrow> None
      | Some s \<Rightarrow> (case DecodeHex s of (bs, None) \<Rightarrow> Some (Inr bs) | (bs, Some e) \<Rightarrow> Some (Inl (DecodeErr e))))"

definition set_code_leaf ::
  "poseidon \<Rightarrow> 'd hashdb \<Rightarrow> address \<Rightarrow> u64 list \<Rightarrow> bytes \<Rightarrow> string \<Rightarrow> 'd \<Rightarrow> (mt_error + UpdateProof) option \<times> 'd" where
  "set_code_leaf P H addr scCodeHash4 root uuid d =
     mt_step (KeyContractCode P addr, d) (\<lambda>key d.
     mt_step (hash_of_string scCodeHash4, d) (\<lambda>scCodeHash d.
     mt_step (bytes_h4 root, d) (\<lambda>r d.
     mt_step (bytes_h4 key, d) (\<lambda>k.
     tree_set H r k (scalar2fea (int (big_SetBytes scCodeHash))) uuid))))"

definition set_length_leaf ::
  "poseidon \<Rightarrow> 'd hashdb \<Rightarrow> address \<Rightarrow> nat \<Rightarrow> u64 list \<Rightarrow> string \<Rightarrow> 'd \<Rightarrow> (mt_error + UpdateProof) option \<times> 'd" where
  "set_length_leaf P H addr n root uuid d =
     mt_step (KeyCodeLength P addr, d) (\<lambda>key d. mt_step (bytes_h4 key, d) (\<lambda>k. tree_set H root k (scalar2fea (int n)) uuid))"

definition SetCode :: "poseidon \<Rightarrow> 'd hashdb \<Rightarrow> address \<Rightarrow> bytes \<Rightarrow> bytes \<Rightarrow> string \<Rightarrow> 'd \<Rightarrow> (mt_error + bytes \<times> UpdateProof) option \<times> 'd" where
  "SetCode P H addr code root uuid d =
     mt_step (hashContractBytecode P code, d) (\<lambda>scCodeHash4 d.
     mt_step (tree_setProgram H scCodeHash4 code True d) (\<lambda>_ d.
     mt_step (set_code_leaf P H addr scCodeHash4 root uuid d) (\<lambda>updateProof d.
     mt_step (set_length_leaf P H addr (length code) (up_NewRoot updateProof) uuid d) new_root)))"

section \<open>What the database promises\<close>

definition tree_val :: "'d hashdb \<Rightarrow> 'd \<Rightarrow> Fea \<Rightarrow> Fea \<Rightarrow> int option" where
  "tree_val H d r k = (case hd_Get H d r k of Inl _ \<Rightarrow> None | Inr s \<Rightarrow> big_SetString s 16)"

definition set_ok :: "'d hashdb \<Rightarrow> bool" where
  "set_ok H \<longleftrightarrow> (\<forall>d r k v uuid res d' n. hd_Set H d r k v uuid = (Inr res, d') \<longrightarrow> big_SetString v 16 = Some n \<longrightarrow>
     (\<exists>r'. sr_NewRoot res = Some r' \<and> (\<forall>k'. tree_val H d' r' k' = (if k' = k then Some n else tree_val H d r k'))) \<and>
     (\<forall>k'. hd_GetProgram H d' k' = hd_GetProgram H d k'))"

definition set_program_ok :: "'d hashdb \<Rightarrow> bool" where
  "set_program_ok H \<longleftrightarrow> (\<forall>d k dat p d'. hd_SetProgram H d k dat p = (None, d') \<longrightarrow>
     hd_GetProgram H d' k = Inr dat \<and> (\<forall>r k'. tree_val H d' r k' = tree_val H d r k'))"

definition flush_ok :: "'d hashdb \<Rightarrow> bool" where
  "flush_ok H \<longleftrightarrow> (\<forall>d uuid d'. hd_Flush H d uuid = (None, d') \<longrightarrow> (\<forall>r k. tree_val H d' r k = tree_val H d r k))"

definition hashdb_ok :: "'d hashdb \<Rightarrow> bool" where
  "hashdb_ok H \<longleftrightarrow> set_ok H \<and> set_program_ok H \<and> flush_ok H"

section \<open>The leaves that are read\<close>

definition value_of :: "(mt_error + 'a) option \<Rightarrow> 'a option" where
  "value_of m = (case m of Some (Inr x) \<Rightarrow> Some x | _ \<Rightarrow> None)"

lemma value_of_simps [simp]: "value_of None = None" "value_of (Some (Inl e)) = None" "value_of (Some (Inr x)) = Some x"
  by (simp_all add: value_of_def)

lemma value_of_then: "value_of (mt_then m f) = Option.bind (value_of m) (\<lambda>x. value_of (f x))"
  by (simp add: mt_then_def value_of_def split: option.splits sum.splits)

text \<open>The code hash as a number. Nothing reads the leaf with the length of a code.\<close>

primrec read_leaf :: "poseidon \<Rightarrow> 'd hashdb \<Rightarrow> 'd \<Rightarrow> bytes \<Rightarrow> leaf \<Rightarrow> int option" where
  "read_leaf P H d root (BalanceLeaf a) = value_of (GetBalance P H d a root)"
| "read_leaf P H d root (NonceLeaf a) = value_of (GetNonce P H d a root)"
| "read_leaf P H d root (CodeLeaf a) = map_option (\<lambda>bs. int (big_SetBytes bs)) (value_of (GetCodeHash P H d a root))"
| "read_leaf P H d root (StorageLeaf a pos) = value_of (GetStorageAt P H d a (uint pos) root)"
| "read_leaf P H d root (LengthLeaf a) = value_of (mt_then (KeyCodeLength P a) (get_value H d root))"

definition root_Fea :: "bytes \<Rightarrow> Fea option" where
  "root_Fea root = Option.bind (scalarToh4 (int (big_SetBytes root))) to_Fea"

definition leaf_Fea :: "poseidon \<Rightarrow> leaf \<Rightarrow> Fea option" where
  "leaf_Fea P l = Option.bind (value_of (leaf_key P l)) root_Fea"

lemma value_of_get:
  "value_of (tree_get H d r k) = Option.bind (to_Fea r) (\<lambda>r'. Option.bind (to_Fea k) (\<lambda>k'.
     map_option (\<lambda>n. \<lparr>pr_Root = take 4 r, pr_Key = k, pr_Value = scalar2fea n\<rparr>) (tree_val H d r' k')))"
  by (simp add: tree_get_def tree_val_def string2fea_def split: option.splits sum.splits)

lemma value_of_get_value:
  "value_of (get_value H d root key) = Option.bind (root_Fea root) (\<lambda>r. Option.bind (root_Fea key) (\<lambda>k.
     map_option (\<lambda>n. n mod 2 ^ 256) (tree_val H d r k)))"
proof (cases "scalarToh4 (int (big_SetBytes root))")
  case (Some r)
  show ?thesis
  proof (cases "scalarToh4 (int (big_SetBytes key))")
    case (Some k)
    then show ?thesis using \<open>scalarToh4 (int (big_SetBytes root)) = Some r\<close>
      by (simp add: get_value_def bytes_h4_def root_Fea_def value_of_then value_of_get fea2scalar_scalar2fea Option.bind_map_option
          bind_map_option map_option_case split: option.splits Option.bind_splits)
  qed (use Some in \<open>cases "to_Fea r"; simp add: get_value_def bytes_h4_def root_Fea_def\<close>)
qed (simp add: get_value_def bytes_h4_def root_Fea_def)

text \<open>A reader reads the value under its key; a database that has numbers of 256 bits only loses nothing.\<close>

lemma value_of_key_get:
  "value_of (mt_then K (get_value H d root)) = Option.bind (root_Fea root) (\<lambda>r. Option.bind (Option.bind (value_of K) root_Fea) (\<lambda>k.
     map_option (\<lambda>n. n mod 2 ^ 256) (tree_val H d r k)))"
  unfolding value_of_then value_of_get_value by (cases "root_Fea root"; cases "value_of K"; simp)

lemma filled_number: "0 \<le> v \<Longrightarrow> v < 2 ^ 256 \<Longrightarrow> \<exists>bs. ScalarToFilledByteSlice v = Some bs \<and> int (big_SetBytes bs) = v"
  by (simp add: ScalarToFilledByteSlice_def maxBigIntLen_def SetBytes_be_fixed)

lemma value_of_key_range: "value_of (mt_then K (get_value H d root)) = Some x \<Longrightarrow> 0 \<le> x \<and> x < 2 ^ 256"
  unfolding value_of_key_get by (auto simp: bind_eq_Some_conv)

lemma value_of_CodeHash:
  "map_option (\<lambda>bs. int (big_SetBytes bs)) (value_of (GetCodeHash P H d a root)) = value_of (mt_then (KeyContractCode P a) (get_value H d root))"
proof (cases "value_of (mt_then (KeyContractCode P a) (get_value H d root))")
  case (Some x)
  then obtain bs where "ScalarToFilledByteSlice x = Some bs" "int (big_SetBytes bs) = x"
    using filled_number value_of_key_range [OF Some] by blast
  then show ?thesis by (simp add: GetCodeHash_def value_of_then [of "mt_then (KeyContractCode P a) (get_value H d root)"] Some)
qed (simp add: GetCodeHash_def value_of_then [of "mt_then (KeyContractCode P a) (get_value H d root)"])

lemma read_leaf_val:
  "read_leaf P H d root l = Option.bind (root_Fea root) (\<lambda>r. Option.bind (leaf_Fea P l) (\<lambda>k. map_option (\<lambda>n. n mod 2 ^ 256) (tree_val H d r k)))"
proof (cases l)
  case (CodeLeaf a)
  then show ?thesis by (simp add: value_of_CodeHash value_of_key_get leaf_Fea_def)
next
  case (StorageLeaf a pos)
  then show ?thesis by (simp add: GetStorageAt_def value_of_key_get leaf_Fea_def)
qed (simp_all add: GetBalance_def GetNonce_def value_of_key_get leaf_Fea_def)

section \<open>One write\<close>

lemma mt_stepE:
  assumes "mt_step (m, d) f = (Some (Inr y), d')"
  obtains x where "m = Some (Inr x)" "f x d = (Some (Inr y), d')"
  using assms by (auto simp: mt_step_def split: option.splits sum.splits)

lemma mt_step_pairE:
  assumes "mt_step p f = (Some (Inr y), d')"
  obtains x d1 where "p = (Some (Inr x), d1)" "f x d1 = (Some (Inr y), d')"
  using assms by (cases p) (auto elim: mt_stepE)

text \<open>What a write does: the root \<open>r'\<close> has the value under the key, and everything else as under the root \<open>r\<close>.\<close>

definition writes :: "'d hashdb \<Rightarrow> 'd \<Rightarrow> Fea \<Rightarrow> Fea \<Rightarrow> int \<Rightarrow> 'd \<Rightarrow> Fea \<Rightarrow> bool" where
  "writes H d r k n d' r' \<longleftrightarrow> (\<forall>k'. tree_val H d' r' k' = (if k' = k then Some n else tree_val H d r k')) \<and>
     (\<forall>k'. hd_GetProgram H d' k' = hd_GetProgram H d k')"

lemma fea_text:
  obtains s where "fea2string (scalar2fea v) = Some s" "big_SetString (if HasPrefix0x s then drop 2 s else s) 16 = Some (v mod 2 ^ 256)"
proof -
  have n: "nat (v mod 2 ^ 256) < 2 ^ 256" "int (nat (v mod 2 ^ 256)) = v mod 2 ^ 256"
    using pos_mod_bound [of "2 ^ 256" v] by simp_all
  show ?thesis
  proof (rule that [OF fea2string_scalar2fea])
    show "big_SetString (if HasPrefix0x (EncodeToHex (be_fixed 32 (nat (v mod 2 ^ 256)))) then drop 2 (EncodeToHex (be_fixed 32 (nat (v mod 2 ^ 256))))
        else EncodeToHex (be_fixed 32 (nat (v mod 2 ^ 256)))) 16 = Some (v mod 2 ^ 256)"
      using SetString_fixed [OF n(1)] unfolding n(2) by (simp add: EncodeToHex_def)
  qed
qed

lemma tree_set_writes:
  assumes "set_ok H" "tree_set H r k (scalar2fea v) uuid d = (Some (Inr up), d')"
  obtains r4 k4 r' where "to_Fea r = Some r4" "to_Fea k = Some k4" "to_Fea (up_NewRoot up) = Some r'" "length (up_NewRoot up) = 4"
    "writes H d r4 k4 (v mod 2 ^ 256) d' r'"
proof -
  obtain s where s: "fea2string (scalar2fea v) = Some s" "big_SetString (if HasPrefix0x s then drop 2 s else s) 16 = Some (v mod 2 ^ 256)"
    by (rule fea_text)
  obtain r4 k4 where f: "to_Fea r = Some r4" "to_Fea k = Some k4"
    using assms(2) s(1) by (auto simp: tree_set_def split: option.splits)
  obtain res where res: "hd_Set H d r4 k4 (if HasPrefix0x s then drop 2 s else s) uuid = (Inr res, d')"
    "\<exists>nv. new_value (sr_NewValue res) = Inr nv" "\<exists>r'. sr_NewRoot res = Some r' \<and> to_Fea (up_NewRoot up) = Some r' \<and> length (up_NewRoot up) = 4"
    using assms(2) s(1) f by (auto simp: tree_set_def to_Fea_def split: prod.splits sum.splits option.splits)
  then obtain r' where "to_Fea (up_NewRoot up) = Some r'" "length (up_NewRoot up) = 4" "sr_NewRoot res = Some r'" by blast
  moreover have "writes H d r4 k4 (v mod 2 ^ 256) d' r'" if "sr_NewRoot res = Some r'" for r'
    using assms(1) res(1) s(2) that unfolding set_ok_def writes_def by (metis option.inject)
  ultimately show ?thesis using that f by blast
qed

lemma new_root_bytes:
  assumes "length (up_NewRoot up) = 4" "to_Fea (up_NewRoot up) = Some r'" "new_root up d = (Some (Inr (root', up')), d')"
  shows "root_Fea root' = Some r'" "d' = d"
proof -
  obtain bs where bs: "h4ToFilledByteSlice (up_NewRoot up) = Some bs" "scalarToh4 (int (big_SetBytes bs)) = Some (up_NewRoot up)"
    using assms(1) by (rule h4_bytes)
  then show "root_Fea root' = Some r'" "d' = d" using assms(2,3) by (auto simp: new_root_def root_Fea_def)
qed

lemma set_value_writes:
  assumes "set_ok H" "set_value H root v uuid key d = (Some (Inr (root', up)), d')"
  obtains r4 k4 r' where "root_Fea root = Some r4" "root_Fea key = Some k4" "root_Fea root' = Some r'" "writes H d r4 k4 (v mod 2 ^ 256) d' r'"
proof -
  obtain r k up' d1 where h: "bytes_h4 root = Some (Inr r)" "bytes_h4 key = Some (Inr k)"
    "tree_set H r k (scalar2fea v) uuid d = (Some (Inr up'), d1)" "new_root up' d1 = (Some (Inr (root', up)), d')"
    using assms(2) unfolding set_value_def by (elim mt_stepE mt_step_pairE) auto
  obtain r4 k4 r' where w: "to_Fea r = Some r4" "to_Fea k = Some k4" "to_Fea (up_NewRoot up') = Some r'" "length (up_NewRoot up') = 4"
    "writes H d r4 k4 (v mod 2 ^ 256) d1 r'" by (rule tree_set_writes [OF assms(1) h(3)])
  have "root_Fea root = Some r4" "root_Fea key = Some k4" using h(1,2) w(1,2) by (auto simp: bytes_h4_def root_Fea_def)
  with that w(5) new_root_bytes [OF w(4,3) h(4)] show ?thesis by simp
qed

section \<open>The tree as a map\<close>

datatype tree_op = OpBalance address int | OpNonce address int | OpCode address bytes | OpStorage address int int

primrec run_op :: "poseidon \<Rightarrow> 'd hashdb \<Rightarrow> tree_op \<Rightarrow> bytes \<Rightarrow> string \<Rightarrow> 'd \<Rightarrow> (mt_error + bytes \<times> UpdateProof) option \<times> 'd" where
  "run_op P H (OpBalance a v) root uuid d = SetBalance P H a v root uuid d"
| "run_op P H (OpNonce a v) root uuid d = SetNonce P H a v root uuid d"
| "run_op P H (OpCode a code) root uuid d = SetCode P H a code root uuid d"
| "run_op P H (OpStorage a pos v) root uuid d = SetStorageAt P H a pos v root uuid d"

definition code_hash :: "poseidon \<Rightarrow> bytes \<Rightarrow> int" where
  "code_hash P code = (case hashContractBytecode P code of Some (Inr h) \<Rightarrow> the (h4ToScalar h) | _ \<Rightarrow> 0)"

text \<open>The leaves that an operation sets, with their values.\<close>

primrec op_updates :: "poseidon \<Rightarrow> tree_op \<Rightarrow> (leaf \<times> int) list" where
  "op_updates P (OpBalance a v) = [(BalanceLeaf a, v mod 2 ^ 256)]"
| "op_updates P (OpNonce a v) = [(NonceLeaf a, v mod 2 ^ 256)]"
| "op_updates P (OpCode a code) = [(CodeLeaf a, code_hash P code), (LengthLeaf a, int (length code) mod 2 ^ 256)]"
| "op_updates P (OpStorage a pos v) = [(StorageLeaf a (word_of_int \<bar>pos\<bar>), v mod 2 ^ 256)]"

definition set_leaves :: "(leaf \<times> int) list \<Rightarrow> (leaf \<Rightarrow> int option) \<Rightarrow> leaf \<Rightarrow> int option" where
  "set_leaves us m = foldl (\<lambda>m (l, v). m(l \<mapsto> v)) m us"

lemma set_leaves_simps [simp]:
  "set_leaves [] m = m" "set_leaves ((l, v) # us) m = set_leaves us (m(l \<mapsto> v))"
  "set_leaves (us @ vs) m = set_leaves vs (set_leaves us m)"
  by (simp_all add: set_leaves_def)

definition collision_free :: "poseidon \<Rightarrow> leaf set \<Rightarrow> bool" where
  "collision_free P L \<longleftrightarrow> inj_on (\<lambda>(x, c). P x c) (\<Union>l \<in> L. leaf_inputs P l)"

lemma to_Fea_inj: "length h = 4 \<Longrightarrow> length h' = 4 \<Longrightarrow> to_Fea h = to_Fea h' \<Longrightarrow> h = h'"
  by (elim list_4E) (simp add: to_Fea_def)

lemma leaf_Fea_hash:
  assumes "poseidon_4 P" "leaf_Fea P l = Some k"
  obtains cap h where "leaf_cap P l = Inr cap" "P (key_input (leaf_address l) (leaf_type l)) cap = Inr h"
    "(key_input (leaf_address l) (leaf_type l), cap) \<in> leaf_inputs P l" "to_Fea h = Some k" "length h = 4"
proof -
  obtain key where key: "leaf_key P l = Some (Inr key)" "root_Fea key = Some k"
    using assms(2) by (auto simp: leaf_Fea_def bind_eq_Some_conv value_of_def split: option.splits sum.splits)
  obtain cap h where h: "leaf_cap P l = Inr cap" "P (key_input (leaf_address l) (leaf_type l)) cap = Inr h"
    "scalarToh4 (int (big_SetBytes key)) = Some h" "(key_input (leaf_address l) (leaf_type l), cap) \<in> leaf_inputs P l"
    using leaf_key_hash [OF assms(1) key(1)] .
  moreover have "length h = 4" using h(2) assms(1) by (simp add: poseidon_4_def)
  moreover have "to_Fea h = Some k" using key(2) h(3) by (simp add: root_Fea_def)
  ultimately show ?thesis using that by blast
qed

lemma leaf_Fea_inj:
  assumes "poseidon_4 P" "collision_free P L" "l \<in> L" "m \<in> L" "leaf_Fea P l = Some k" "leaf_Fea P m = Some k"
  shows "l = m"
proof -
  obtain cl h where l: "leaf_cap P l = Inr cl" "P (key_input (leaf_address l) (leaf_type l)) cl = Inr h"
    "(key_input (leaf_address l) (leaf_type l), cl) \<in> leaf_inputs P l" "to_Fea h = Some k" "length h = 4"
    using leaf_Fea_hash [OF assms(1,5)] .
  obtain cm h' where m: "leaf_cap P m = Inr cm" "P (key_input (leaf_address m) (leaf_type m)) cm = Inr h'"
    "(key_input (leaf_address m) (leaf_type m), cm) \<in> leaf_inputs P m" "to_Fea h' = Some k" "length h' = 4"
    using leaf_Fea_hash [OF assms(1,6)] .
  have "h' = h" using to_Fea_inj l(4,5) m(4,5) by simp
  moreover have "inj_on (\<lambda>(x, c). P x c) (leaf_inputs P l \<union> leaf_inputs P m)"
    using assms(2-4) unfolding collision_free_def by (rule_tac inj_on_subset) auto
  ultimately show ?thesis using leaf_hash_inj [OF l(1-3) m(1) _ m(3)] m(2) by simp
qed

definition read_Fea :: "poseidon \<Rightarrow> 'd hashdb \<Rightarrow> 'd \<Rightarrow> Fea \<Rightarrow> leaf \<Rightarrow> int option" where
  "read_Fea P H d r l = Option.bind (leaf_Fea P l) (\<lambda>k. map_option (\<lambda>n. n mod 2 ^ 256) (tree_val H d r k))"

lemma read_leaf_Fea: "root_Fea root = Some r \<Longrightarrow> read_leaf P H d root = read_Fea P H d r"
  by (simp add: fun_eq_iff read_leaf_val read_Fea_def)

lemma read_after_write:
  assumes "poseidon_4 P" "collision_free P L" "writes H d r k n d' r'" "0 \<le> n" "n < 2 ^ 256" "leaf_Fea P m = Some k" "m \<in> L" "l \<in> L"
  shows "read_Fea P H d' r' l = ((read_Fea P H d r)(m \<mapsto> n)) l"
proof (cases "l = m")
  case True
  have "tree_val H d' r' k = Some n" using assms(3) unfolding writes_def by metis
  then show ?thesis using True assms(4-6) by (simp add: read_Fea_def)
next
  case False
  then have "leaf_Fea P l \<noteq> Some k" using leaf_Fea_inj [OF assms(1,2,8,7)] assms(6) by blast
  then show ?thesis using False assms(3) by (cases "leaf_Fea P l") (auto simp: read_Fea_def writes_def)
qed

lemma set_value_reads:
  assumes "poseidon_4 P" "collision_free P L" "set_ok H" "leaf_key P m = Some (Inr key)" "m \<in> L" "l \<in> L"
    and "set_value H root v uuid key d = (Some (Inr (root', up)), d')"
  shows "read_leaf P H d' root' l = ((read_leaf P H d root)(m \<mapsto> v mod 2 ^ 256)) l"
proof -
  obtain r4 k4 r' where w: "root_Fea root = Some r4" "root_Fea key = Some k4" "root_Fea root' = Some r'" "writes H d r4 k4 (v mod 2 ^ 256) d' r'"
    by (rule set_value_writes [OF assms(3,7)])
  have "leaf_Fea P m = Some k4" using assms(4) w(2) by (simp add: leaf_Fea_def)
  from read_after_write [OF assms(1,2) w(4) _ _ this assms(5,6)] show ?thesis by (simp add: read_leaf_Fea [OF w(1)] read_leaf_Fea [OF w(3)])
qed

text \<open>The position of a storage leaf counts modulo \<open>2 ^ 256\<close>.\<close>

lemma scalar2fea_mod: "scalar2fea (v mod 2 ^ 256) = scalar2fea v"
proof -
  have "drop_bit k (v mod 2 ^ 256) AND 0xFFFFFFFF = drop_bit k v AND 0xFFFFFFFF" if "k + 32 \<le> 256" for k
  proof -
    have m: "i AND 0xFFFFFFFF = take_bit 32 i" for i :: int using take_bit_eq_mask [of 32 i] by (simp add: mask_eq_exp_minus_1)
    have t: "v mod 2 ^ 256 = take_bit 256 v" by (simp only: take_bit_eq_mod)
    have "min 32 (256 - k) = 32" using that by linarith
    then show ?thesis unfolding m t by (simp add: drop_bit_take_bit)
  qed
  from this [of 0] this [of 32] this [of 64] this [of 96] this [of 128] this [of 160] this [of 192] this [of 224]
  show ?thesis by (simp only: scalar2fea_def drop_bit_0 id_apply)
qed

lemma storage_key: "KeyContractStorage P a (be_bytes (nat \<bar>pos\<bar>)) = leaf_key P (StorageLeaf a (word_of_int \<bar>pos\<bar>))"
proof -
  have "int (unat (word_of_int \<bar>pos\<bar> :: 256 word)) = \<bar>pos\<bar> mod 2 ^ 256" by (simp add: uint_word_of_int flip: uint_nat)
  then have "scalar2fea (int (unat (word_of_int \<bar>pos\<bar> :: 256 word))) = scalar2fea \<bar>pos\<bar>" by (simp only: scalar2fea_mod)
  then show ?thesis by (simp add: KeyContractStorage_def)
qed

lemma hash_of_string_4:
  assumes "length h = 4"
  shows "\<exists>bs. hash_of_string h = Some (Inr bs) \<and> h4ToScalar h = Some (int (big_SetBytes bs)) \<and> big_SetBytes bs < 2 ^ 256 \<and>
    scalarToh4 (int (big_SetBytes bs)) = Some h"
proof -
  obtain n where n: "h4ToScalar h = Some (int n)" "n < 2 ^ 256" "scalarToh4 (int n) = Some h" using assms by (rule h4_value)
  have "n < 256 ^ 32" using n(2) by simp
  then have b: "big_SetBytes (be_fixed 32 n) = n" by (rule SetBytes_be_fixed)
  have "hash_of_string h = Some (Inr (be_fixed 32 n))"
    using H4ToString_bytes [OF n(1,2)] by (simp add: hash_of_string_def DecodeHex_def EncodeToHex_def length_EncodeToString)
  then show ?thesis using n b by auto
qed

lemma hashContractBytecode_4:
  assumes "poseidon_4 P" "hashContractBytecode P code = Some (Inr h)"
  shows "length h = 4"
proof -
  have "code_chain P c bs = Some (Inr h) \<Longrightarrow> length c = 4 \<Longrightarrow> length h = 4" for c bs
  proof (induction bs arbitrary: c)
    case (Cons b bs)
    then show ?case using assms(1) by (cases "P (block_elements b) c") (simp_all add: poseidon_Hash_def poseidon_4_def)
  qed simp
  then show ?thesis using assms(2) unfolding hash_code_chain [OF assms(1)] by fastforce
qed

text \<open>The steps of \<open>SetCode\<close>: the program, the hash, the length.\<close>

lemma SetCode_steps:
  assumes "poseidon_4 P" "hashdb_ok H" "SetCode P H a code root uuid d = (Some (Inr (root', up)), d')"
  obtains h h4 d1 r r1 r' k k' d2 where "hashContractBytecode P code = Some (Inr h)" "length h = 4" "to_Fea h = Some h4"
    "hd_SetProgram H d h4 code True = (None, d1)" "root_Fea root = Some r" "leaf_Fea P (CodeLeaf a) = Some k" "leaf_Fea P (LengthLeaf a) = Some k'"
    "writes H d1 r k (code_hash P code) d2 r1" "writes H d2 r1 k' (int (length code) mod 2 ^ 256) d' r'" "root_Fea root' = Some r'"
    "0 \<le> code_hash P code" "code_hash P code < 2 ^ 256"
proof -
  have set: "set_ok H" using assms(2) by (simp add: hashdb_ok_def)
  obtain h d1 up1 d2 up2 d3 where s: "hashContractBytecode P code = Some (Inr h)" "tree_setProgram H h code True d = (Some (Inr ()), d1)"
    "set_code_leaf P H a h root uuid d1 = (Some (Inr up1), d2)" "set_length_leaf P H a (length code) (up_NewRoot up1) uuid d2 = (Some (Inr up2), d3)"
    "new_root up2 d3 = (Some (Inr (root', up)), d')"
    using assms(3) unfolding SetCode_def by (elim mt_stepE mt_step_pairE) auto
  have h4: "length h = 4" by (rule hashContractBytecode_4 [OF assms(1) s(1)])
  then obtain f where f: "to_Fea h = Some f" "hd_SetProgram H d f code True = (None, d1)"
    using s(2) by (auto simp: tree_setProgram_def to_Fea_def split: prod.splits option.splits)
  obtain bs where bs: "hash_of_string h = Some (Inr bs)" "h4ToScalar h = Some (int (big_SetBytes bs))" "big_SetBytes bs < 2 ^ 256"
    using hash_of_string_4 [OF h4] by blast
  have ch: "code_hash P code = int (big_SetBytes bs)" by (simp add: code_hash_def s(1) bs(2))
  then have c: "0 \<le> code_hash P code" "code_hash P code < 2 ^ 256" "int (big_SetBytes bs) mod 2 ^ 256 = code_hash P code" using bs(3) by simp_all
  obtain key r k where k: "KeyContractCode P a = Some (Inr key)" "bytes_h4 root = Some (Inr r)" "bytes_h4 key = Some (Inr k)"
    "tree_set H r k (scalar2fea (int (big_SetBytes bs))) uuid d1 = (Some (Inr up1), d2)"
    using s(3) unfolding set_code_leaf_def bs(1) by (elim mt_stepE mt_step_pairE) auto
  obtain r4 k4 r1 where w: "to_Fea r = Some r4" "to_Fea k = Some k4" "to_Fea (up_NewRoot up1) = Some r1"
    "writes H d1 r4 k4 (code_hash P code) d2 r1" using tree_set_writes [OF set k(4)] c(3) by metis
  obtain key' l where l: "KeyCodeLength P a = Some (Inr key')" "bytes_h4 key' = Some (Inr l)"
    "tree_set H (up_NewRoot up1) l (scalar2fea (int (length code))) uuid d2 = (Some (Inr up2), d3)"
    using s(4) unfolding set_length_leaf_def by (elim mt_stepE mt_step_pairE) auto
  obtain r1' l4 r' where w': "to_Fea (up_NewRoot up1) = Some r1'" "to_Fea l = Some l4" "to_Fea (up_NewRoot up2) = Some r'" "length (up_NewRoot up2) = 4"
    "writes H d2 r1' l4 (int (length code) mod 2 ^ 256) d3 r'" by (rule tree_set_writes [OF set l(3)])
  have "root_Fea root = Some r4" "leaf_Fea P (CodeLeaf a) = Some k4" "leaf_Fea P (LengthLeaf a) = Some l4"
    using k(1-3) l(1,2) w(1,2) w'(2) by (auto simp: bytes_h4_def root_Fea_def leaf_Fea_def)
  moreover have "r1' = r1" using w(3) w'(1) by simp
  ultimately show ?thesis using that [OF s(1) h4 f] w(4) w'(5) new_root_bytes [OF w'(4,3) s(5)] c(1,2) by simp
qed

lemma SetCode_reads:
  assumes "poseidon_4 P" "collision_free P L" "hashdb_ok H" "CodeLeaf a \<in> L" "LengthLeaf a \<in> L" "l \<in> L"
    and "SetCode P H a code root uuid d = (Some (Inr (root', up)), d')"
  shows "read_leaf P H d' root' l = set_leaves (op_updates P (OpCode a code)) (read_leaf P H d root) l"
proof -
  obtain h h4 d1 r r1 r' k k' d2 where s: "hd_SetProgram H d h4 code True = (None, d1)" "root_Fea root = Some r"
    "leaf_Fea P (CodeLeaf a) = Some k" "leaf_Fea P (LengthLeaf a) = Some k'"
    "writes H d1 r k (code_hash P code) d2 r1" "writes H d2 r1 k' (int (length code) mod 2 ^ 256) d' r'" "root_Fea root' = Some r'"
    "0 \<le> code_hash P code" "code_hash P code < 2 ^ 256"
    using SetCode_steps [OF assms(1,3,7)] by metis
  have "tree_val H d1 r k = tree_val H d r k" for k using s(1) assms(3) unfolding hashdb_ok_def set_program_ok_def by blast
  then have "read_Fea P H d1 r = read_Fea P H d r" by (simp add: read_Fea_def fun_eq_iff)
  moreover have "read_Fea P H d2 r1 m = ((read_Fea P H d1 r)(CodeLeaf a \<mapsto> code_hash P code)) m" if "m \<in> L" for m
    by (rule read_after_write [OF assms(1,2) s(5,8,9,3) assms(4) that])
  moreover have "read_Fea P H d' r' l = ((read_Fea P H d2 r1)(LengthLeaf a \<mapsto> int (length code) mod 2 ^ 256)) l"
    by (rule read_after_write [OF assms(1,2) s(6) _ _ s(4) assms(5,6)]) simp_all
  ultimately show ?thesis using assms(6) by (simp add: read_leaf_Fea [OF s(2)] read_leaf_Fea [OF s(7)])
qed

lemma set_leaf_reads:
  assumes "poseidon_4 P" "collision_free P L" "hashdb_ok H" "m \<in> L" "l \<in> L"
    and "mt_step (leaf_key P m, d) (set_value H root v uuid) = (Some (Inr (root', up)), d')"
  shows "read_leaf P H d' root' l = ((read_leaf P H d root)(m \<mapsto> v mod 2 ^ 256)) l"
proof -
  obtain key where k: "leaf_key P m = Some (Inr key)" "set_value H root v uuid key d = (Some (Inr (root', up)), d')"
    using assms(6) by (rule mt_stepE)
  have "set_ok H" using assms(3) by (simp add: hashdb_ok_def)
  then show ?thesis by (rule set_value_reads [OF assms(1,2) _ k(1) assms(4,5) k(2)])
qed

lemma run_op_reads:
  assumes "poseidon_4 P" "collision_free P L" "hashdb_ok H" "fst ` set (op_updates P op) \<subseteq> L" "l \<in> L"
    and "run_op P H op root uuid d = (Some (Inr (root', up)), d')"
  shows "read_leaf P H d' root' l = set_leaves (op_updates P op) (read_leaf P H d root) l"
proof (cases op)
  case (OpCode a code)
  then show ?thesis using SetCode_reads [OF assms(1-3)] assms(4-6) by simp
next
  case (OpBalance a v)
  then have "mt_step (leaf_key P (BalanceLeaf a), d) (set_value H root v uuid) = (Some (Inr (root', up)), d')"
    using assms(6) by (simp add: SetBalance_def split: if_splits)
  from set_leaf_reads [OF assms(1-3) _ assms(5) this] show ?thesis using assms(4) by (simp add: OpBalance del: read_leaf.simps)
next
  case (OpNonce a v)
  then have "mt_step (leaf_key P (NonceLeaf a), d) (set_value H root v uuid) = (Some (Inr (root', up)), d')"
    using assms(6) by (simp add: SetNonce_def split: if_splits)
  from set_leaf_reads [OF assms(1-3) _ assms(5) this] show ?thesis using assms(4) by (simp add: OpNonce del: read_leaf.simps)
next
  case (OpStorage a pos v)
  then have "mt_step (leaf_key P (StorageLeaf a (word_of_int \<bar>pos\<bar>)), d) (set_value H root v uuid) = (Some (Inr (root', up)), d')"
    using assms(6) by (simp add: SetStorageAt_def storage_key del: leaf_key.simps)
  from set_leaf_reads [OF assms(1-3) _ assms(5) this] show ?thesis using assms(4) by (simp add: OpStorage del: read_leaf.simps)
qed

lemma value_of_Some: "value_of m = Some x \<longleftrightarrow> m = Some (Inr x)"
  by (simp add: value_of_def split: option.splits sum.splits)

lemma GetCode_after_SetCode:
  assumes "poseidon_4 P" "hashdb_ok H" "collision_free P {CodeLeaf a, LengthLeaf a}" "SetCode P H a code root uuid d = (Some (Inr (root', up)), d')"
  shows "GetCode P H d' a root' = Some (Inr code)"
proof -
  obtain h h4 d1 r r1 r' k k' d2 where s: "hashContractBytecode P code = Some (Inr h)" "length h = 4" "to_Fea h = Some h4"
    "hd_SetProgram H d h4 code True = (None, d1)"
    "writes H d1 r k (code_hash P code) d2 r1" "writes H d2 r1 k' (int (length code) mod 2 ^ 256) d' r'"
    using SetCode_steps [OF assms(1,2,4)] by metis
  have "hd_GetProgram H d1 h4 = Inr code" using s(4) assms(2) unfolding hashdb_ok_def set_program_ok_def by blast
  then have p: "hd_GetProgram H d' h4 = Inr code" using s(5,6) unfolding writes_def by metis
  have "read_leaf P H d' root' (CodeLeaf a) = Some (code_hash P code)"
    using SetCode_reads [OF assms(1,3,2) _ _ _ assms(4), of "CodeLeaf a"] by simp
  then obtain bs where bs: "GetCodeHash P H d' a root' = Some (Inr bs)" "int (big_SetBytes bs) = code_hash P code"
    by (auto simp: value_of_Some)
  obtain n where n: "h4ToScalar h = Some (int n)" "scalarToh4 (int n) = Some h" using h4_value [OF s(2)] by metis
  have "bytes_h4 bs = Some (Inr h)" using n by (simp add: bytes_h4_def bs(2) code_hash_def s(1))
  then show ?thesis using p s(3) by (simp add: GetCode_def bs(1) tree_getProgram_def)
qed

end
