(* ===== verification/Genesis.thy ===== *)
theory Genesis
  imports StateTree
begin

text \<open>
  The tree part of \<open>state/genesis.go\<close>, and the theorems about the state tree: every write changes exactly its leaves, the code
  of a contract is read back, and the genesis actions leave exactly the leaves that they name. A database that keeps the maps of all its roots gives the instances.
\<close>

section \<open>The actions\<close>

record GenesisAction =
  ga_Address :: string
  ga_Type :: int
  ga_StoragePosition :: string
  ga_Bytecode :: string
  ga_Value :: string

datatype genesis_error = GenNumber go_error | GenBytecode address hex_error | GenTree mt_error | UnknownActionType int

text \<open>\<open>common.HexToAddress\<close> and \<open>common.Hex2Bytes\<close>.\<close>

record genesis_geth =
  gg_HexToAddress :: "string \<Rightarrow> address"
  gg_Hex2Bytes :: "string \<Rightarrow> bytes"

definition gg_number :: "genesis_geth \<Rightarrow> string \<Rightarrow> genesis_error + int" where
  "gg_number G s = (case DecodeBigIntHexOrDecimal (gg_Hex2Bytes G) s of Inl e \<Rightarrow> Inl (GenNumber e) | Inr v \<Rightarrow> Inr v)"

text \<open>The call of the tree that an action stands for; none for the length of a code, which goes with the code.\<close>

definition action_op :: "genesis_geth \<Rightarrow> GenesisAction \<Rightarrow> genesis_error + tree_op option" where
  "action_op G action =
     (let address = gg_HexToAddress G (ga_Address action) in
      if ga_Type action = uint LeafTypeBalance then
        (case gg_number G (ga_Value action) of Inl e \<Rightarrow> Inl e | Inr balance \<Rightarrow> Inr (Some (OpBalance address balance)))
      else if ga_Type action = uint LeafTypeNonce then
        (case gg_number G (ga_Value action) of Inl e \<Rightarrow> Inl e | Inr nonce \<Rightarrow> Inr (Some (OpNonce address nonce)))
      else if ga_Type action = uint LeafTypeCode then
        (case DecodeHex (ga_Bytecode action) of (code, Some e) \<Rightarrow> Inl (GenBytecode address e) | (code, None) \<Rightarrow> Inr (Some (OpCode address code)))
      else if ga_Type action = uint LeafTypeStorage then
        (case gg_number G (ga_StoragePosition action) of
           Inl e \<Rightarrow> Inl e
         | Inr positionBI \<Rightarrow> (case gg_number G (ga_Value action) of Inl e \<Rightarrow> Inl e | Inr valueBI \<Rightarrow> Inr (Some (OpStorage address positionBI valueBI))))
      else if ga_Type action = uint LeafTypeSCLength then Inr None
      else Inl (UnknownActionType (ga_Type action)))"

text \<open>The root that is returned with an error: a call of the tree that fails has overwritten it.\<close>

fun genesis_loop ::
  "poseidon \<Rightarrow> 'd hashdb \<Rightarrow> genesis_geth \<Rightarrow> string \<Rightarrow> GenesisAction list \<Rightarrow> bytes \<Rightarrow> 'd \<Rightarrow> (bytes \<times> genesis_error option) option \<times> 'd" where
  "genesis_loop P H G uuid [] newRoot d = (Some (newRoot, None), d)"
| "genesis_loop P H G uuid (action # actions) newRoot d =
     (case action_op G action of
        Inl e \<Rightarrow> (Some (newRoot, Some e), d)
      | Inr None \<Rightarrow> genesis_loop P H G uuid actions newRoot d
      | Inr (Some op) \<Rightarrow>
          (case run_op P H op newRoot uuid d of
             (None, d) \<Rightarrow> (None, d)
           | (Some (Inl e), d) \<Rightarrow> (Some ([], Some (GenTree e)), d)
           | (Some (Inr (root, _)), d) \<Rightarrow> genesis_loop P H G uuid actions root d))"

definition SetGenesis_tree ::
  "poseidon \<Rightarrow> 'd hashdb \<Rightarrow> genesis_geth \<Rightarrow> string \<Rightarrow> GenesisAction list \<Rightarrow> 'd \<Rightarrow> (bytes \<times> genesis_error option) option \<times> 'd" where
  "SetGenesis_tree P H G uuid actions d =
     (case genesis_loop P H G uuid actions [] d of
        (Some (newRoot, None), d) \<Rightarrow>
          (case tree_Flush H uuid d of
             (Some (Inr _), d) \<Rightarrow> (Some (newRoot, None), d)
           | (Some (Inl e), d) \<Rightarrow> (Some (newRoot, Some (GenTree e)), d)
           | (None, d) \<Rightarrow> (None, d))
      | r \<Rightarrow> r)"

definition genesis_ops :: "genesis_geth \<Rightarrow> GenesisAction list \<Rightarrow> tree_op list" where
  "genesis_ops G actions = concat (map (\<lambda>a. case action_op G a of Inr (Some op) \<Rightarrow> [op] | _ \<Rightarrow> []) actions)"

definition genesis_updates :: "poseidon \<Rightarrow> genesis_geth \<Rightarrow> GenesisAction list \<Rightarrow> (leaf \<times> int) list" where
  "genesis_updates P G actions = concat (map (op_updates P) (genesis_ops G actions))"

lemma set_leaves_cong: "(\<And>l. l \<in> L \<Longrightarrow> m l = m' l) \<Longrightarrow> l \<in> L \<Longrightarrow> set_leaves us m l = set_leaves us m' l"
proof (induction us arbitrary: m m')
  case (Cons u us)
  obtain l v where u: "u = (l, v)" by (cases u)
  show ?case unfolding u set_leaves_simps by (rule Cons.IH) (use Cons.prems in auto)
qed simp

lemma genesis_loop_reads:
  assumes "poseidon_4 P" "collision_free P L" "hashdb_ok H"
    and "genesis_loop P H G uuid actions root d = (Some (root', None), d')" "fst ` set (genesis_updates P G actions) \<subseteq> L" "l \<in> L"
  shows "list_all (\<lambda>a. \<exists>op. action_op G a = Inr op) actions \<and>
    read_leaf P H d' root' l = set_leaves (genesis_updates P G actions) (read_leaf P H d root) l"
  using assms(4-6)
proof (induction actions arbitrary: root d)
  case Nil
  then show ?case by (simp add: genesis_updates_def genesis_ops_def)
next
  case (Cons a actions)
  show ?case
  proof (cases "action_op G a")
    case (Inr oop)
    show ?thesis
    proof (cases oop)
      case None
      then show ?thesis using Cons Inr by (simp add: genesis_updates_def genesis_ops_def)
    next
      case (Some op)
      obtain root1 up d1 where r: "run_op P H op root uuid d = (Some (Inr (root1, up)), d1)"
        "genesis_loop P H G uuid actions root1 d1 = (Some (root', None), d')"
        using Cons.prems(1) by (auto simp: Inr Some split: prod.splits option.splits sum.splits)
      have u: "genesis_updates P G (a # actions) = op_updates P op @ genesis_updates P G actions"
        by (simp add: genesis_updates_def genesis_ops_def Inr Some)
      have sub: "fst ` set (op_updates P op) \<subseteq> L" "fst ` set (genesis_updates P G actions) \<subseteq> L" using Cons.prems(2) by (auto simp: u)
      have one: "read_leaf P H d1 root1 m = set_leaves (op_updates P op) (read_leaf P H d root) m" if "m \<in> L" for m
        by (rule run_op_reads [OF assms(1-3) sub(1) that r(1)])
      show ?thesis using Cons.IH [OF r(2) sub(2) Cons.prems(3)] set_leaves_cong [of L, OF one Cons.prems(3)]
        by (simp add: u Inr del: read_leaf.simps)
    qed
  qed (use Cons.prems(1) in simp)
qed

lemma flush_reads:
  assumes "hashdb_ok H" "hd_Flush H d uuid = (None, d')"
  shows "read_leaf P H d' root l = read_leaf P H d root l"
proof -
  have "tree_val H d' r k = tree_val H d r k" for r k using assms unfolding hashdb_ok_def flush_ok_def by blast
  then show ?thesis by (simp add: read_leaf_val)
qed

section \<open>A database\<close>

type_synonym example_db = "(Fea \<times> (Fea \<Rightarrow> int)) list \<times> (Fea \<times> bytes) list"

definition example_map :: "(Fea \<times> (Fea \<Rightarrow> int)) list \<Rightarrow> Fea \<Rightarrow> Fea \<Rightarrow> int" where
  "example_map trees r = (case map_of trees r of None \<Rightarrow> (\<lambda>_. 0) | Some f \<Rightarrow> f)"

definition example_hashdb :: "example_db hashdb" where
  "example_hashdb = \<lparr>
     hd_Get = (\<lambda>(trees, _) r k. Inr (big_Text 16 (example_map trees r k))),
     hd_GetProgram = (\<lambda>(_, progs) k. case map_of progs k of None \<Rightarrow> Inl ''not found'' | Some p \<Rightarrow> Inr p),
     hd_Set = (\<lambda>(trees, progs) r k v uuid. case big_SetString v 16 of
        None \<Rightarrow> (Inl ''value'', (trees, progs))
      | Some n \<Rightarrow> (Inr \<lparr>sr_NewRoot = Some (of_nat (Suc (length trees)), 0, 0, 0), sr_NewValue = []\<rparr>,
          (((of_nat (Suc (length trees)), 0, 0, 0), (example_map trees r)(k := n)) # trees, progs))),
     hd_SetProgram = (\<lambda>(trees, progs) k dat p. (None, (trees, (k, dat) # progs))),
     hd_Flush = (\<lambda>d uuid. (None, d))\<rparr>"

lemma example_tree_val: "tree_val example_hashdb (trees, progs) r k = Some (example_map trees r k)"
  by (simp add: tree_val_def example_hashdb_def big_SetString_big_Text)

lemma example_hashdb_ok: "hashdb_ok example_hashdb"
proof -
  have "set_ok example_hashdb"
    unfolding set_ok_def
  proof (intro allI impI)
    fix d :: example_db and r k k' v uuid res d' n
    assume a: "hd_Set example_hashdb d r k v uuid = (Inr res, d')" "big_SetString v 16 = Some n"
    obtain trees progs where d: "d = (trees, progs)" by (cases d)
    have e: "res = \<lparr>sr_NewRoot = Some (of_nat (Suc (length trees)), 0, 0, 0), sr_NewValue = []\<rparr>"
      "d' = (((of_nat (Suc (length trees)), 0, 0, 0), (example_map trees r)(k := n)) # trees, progs)"
      using a by (simp_all add: example_hashdb_def d)
    show "(\<exists>r'. sr_NewRoot res = Some r' \<and> (\<forall>k'. tree_val example_hashdb d' r' k' = (if k' = k then Some n else tree_val example_hashdb d r k'))) \<and>
        (\<forall>k'. hd_GetProgram example_hashdb d' k' = hd_GetProgram example_hashdb d k')"
      unfolding e d example_tree_val by (simp add: example_map_def) (simp add: example_hashdb_def)
  qed
  moreover have "set_program_ok example_hashdb"
    unfolding set_program_ok_def
  proof (intro allI impI)
    fix d d' :: example_db and k dat p
    assume "hd_SetProgram example_hashdb d k dat p = (None, d')"
    then have d': "d' = (fst d, (k, dat) # snd d)" by (simp add: example_hashdb_def split_def)
    obtain trees progs where d: "d = (trees, progs)" by (cases d)
    show "hd_GetProgram example_hashdb d' k = Inr dat \<and> (\<forall>r k'. tree_val example_hashdb d' r k' = tree_val example_hashdb d r k')"
      unfolding d' d fst_conv snd_conv example_tree_val by (simp add: example_hashdb_def)
  qed
  moreover have "flush_ok example_hashdb" by (simp add: flush_ok_def example_hashdb_def)
  ultimately show ?thesis by (simp add: hashdb_ok_def)
qed

lemma example_tree_set:
  assumes "to_Fea r = Some r4" "to_Fea k = Some k4"
  shows "\<exists>up d'. tree_set example_hashdb r k (scalar2fea v) uuid d = (Some (Inr up), d') \<and> length (up_NewRoot up) = 4"
proof -
  obtain s where s: "fea2string (scalar2fea v) = Some s" "big_SetString (if HasPrefix0x s then drop 2 s else s) 16 = Some (v mod 2 ^ 256)"
    by (rule fea_text)
  show ?thesis using assms s by (cases d) (simp add: tree_set_def example_hashdb_def new_value_def)
qed

lemma example_key:
  obtains key k where "mt_then defaultCapIn (keyEthAddr example_poseidon a t) = Some (Inr key)" "root_Fea key = Some k"
proof -
  obtain h where h: "example_poseidon (key_input a t) zero_cap = Inr h" "length h = 4" by (simp add: example_poseidon_def)
  then obtain bs where bs: "keyEthAddr example_poseidon a t zero_cap = Some (Inr bs)" "scalarToh4 (int (big_SetBytes bs)) = Some h"
    using keyEthAddr_result [OF example_poseidon_4, of a t zero_cap] by auto
  have "root_Fea bs = to_Fea h" by (simp add: root_Fea_def bs(2))
  then show ?thesis using that bs(1) h(2) by (simp add: defaultCapIn_value to_Fea_def)
qed

lemma example_new_root:
  assumes "length (up_NewRoot up) = 4"
  shows "\<exists>root. new_root up d = (Some (Inr (root, up)), d) \<and> root_Fea root \<noteq> None"
proof -
  obtain bs where "h4ToFilledByteSlice (up_NewRoot up) = Some bs" "scalarToh4 (int (big_SetBytes bs)) = Some (up_NewRoot up)"
    using assms by (rule h4_bytes)
  then show ?thesis using assms by (simp add: new_root_def root_Fea_def to_Fea_def)
qed

lemma root_Fea_bytes: "root_Fea root \<noteq> None \<Longrightarrow> \<exists>r f. bytes_h4 root = Some (Inr r) \<and> to_Fea r = Some f"
  by (auto simp: root_Fea_def bytes_h4_def bind_eq_Some_conv)

lemma example_set_value:
  assumes "root_Fea root \<noteq> None" "root_Fea key \<noteq> None"
  shows "\<exists>root' up d'. set_value example_hashdb root v uuid key d = (Some (Inr (root', up)), d') \<and> root_Fea root' \<noteq> None"
proof -
  obtain r f k g where h: "bytes_h4 root = Some (Inr r)" "to_Fea r = Some f" "bytes_h4 key = Some (Inr k)" "to_Fea k = Some g"
    using root_Fea_bytes [OF assms(1)] root_Fea_bytes [OF assms(2)] by (elim exE conjE)
  obtain up d1 where s: "tree_set example_hashdb r k (scalar2fea v) uuid d = (Some (Inr up), d1)" "length (up_NewRoot up) = 4"
    using example_tree_set [OF h(2,4)] by blast
  show ?thesis using example_new_root [OF s(2), of d1] s(1) by (auto simp: set_value_def h mt_step_def)
qed

lemma root_Fea_nil: "root_Fea [] = Some (0, 0, 0, 0)"
  using scalarToh4_nat [of 0] by (simp add: root_Fea_def to_Fea_def)

lemma example_run_op:
  assumes "root_Fea root \<noteq> None" "0 \<le> v" "op = OpBalance a v \<or> op = OpNonce a v"
  shows "\<exists>root' up d'. run_op example_poseidon example_hashdb op root uuid d = (Some (Inr (root', up)), d') \<and> root_Fea root' \<noteq> None"
proof -
  have *: "\<exists>root' up d'. mt_step (mt_then defaultCapIn (keyEthAddr example_poseidon a t), d) (set_value example_hashdb root v uuid) =
      (Some (Inr (root', up)), d') \<and> root_Fea root' \<noteq> None" for t
  proof -
    obtain key k where k: "mt_then defaultCapIn (keyEthAddr example_poseidon a t) = Some (Inr key)" "root_Fea key = Some k" by (rule example_key)
    show ?thesis using example_set_value [OF assms(1), of key] k(2) by (simp add: k(1) mt_step_def)
  qed
  show ?thesis using assms(2,3) * [of LeafTypeBalance] * [of LeafTypeNonce]
    by (elim disjE) (simp_all add: SetBalance_def SetNonce_def KeyEthAddrBalance_def KeyEthAddrNonce_def)
qed

lemma example_SetCode:
  "\<exists>root' up d'. SetCode example_poseidon example_hashdb a code [] uuid ([], []) = (Some (Inr (root', up)), d')"
proof -
  have "\<exists>h. code_chain example_poseidon c bs = Some (Inr h)" for c bs
    by (induction bs arbitrary: c) (simp_all add: poseidon_Hash_def example_poseidon_def)
  then obtain h where h: "hashContractBytecode example_poseidon code = Some (Inr h)" using hash_code_chain [OF example_poseidon_4] by metis
  have h4: "length h = 4" by (rule hashContractBytecode_4 [OF example_poseidon_4 h])
  obtain d1 where p: "tree_setProgram example_hashdb h code True ([], []) = (Some (Inr ()), d1)"
    using h4 by (simp add: tree_setProgram_def to_Fea_def example_hashdb_def)
  obtain bs where bs: "hash_of_string h = Some (Inr bs)" using hash_of_string_4 [OF h4] by blast
  obtain key k where k: "mt_then defaultCapIn (keyEthAddr example_poseidon a LeafTypeCode) = Some (Inr key)" "root_Fea key = Some k" by (rule example_key)
  obtain key' k' where k': "mt_then defaultCapIn (keyEthAddr example_poseidon a LeafTypeSCLength) = Some (Inr key')" "root_Fea key' = Some k'"
    by (rule example_key)
  obtain r f l g l' g' where t: "bytes_h4 [] = Some (Inr r)" "to_Fea r = Some f" "bytes_h4 key = Some (Inr l)" "to_Fea l = Some g"
    "bytes_h4 key' = Some (Inr l')" "to_Fea l' = Some g'"
    using root_Fea_bytes [of "[]"] root_Fea_bytes [of key] root_Fea_bytes [of key'] k(2) k'(2) root_Fea_nil by auto
  obtain up d2 where s: "tree_set example_hashdb r l (scalar2fea (int (big_SetBytes bs))) uuid d1 = (Some (Inr up), d2)" "length (up_NewRoot up) = 4"
    using example_tree_set [OF t(2,4)] by blast
  obtain f' where "to_Fea (up_NewRoot up) = Some f'" using s(2) by (simp add: to_Fea_def)
  from example_tree_set [OF this t(6)]
  obtain up' d3 where s': "tree_set example_hashdb (up_NewRoot up) l' (scalar2fea (int (length code))) uuid d2 = (Some (Inr up'), d3)"
    "length (up_NewRoot up') = 4" by blast
  show ?thesis using example_new_root [OF s'(2), of d3] s(1) s'(1)
    by (auto simp: SetCode_def set_code_leaf_def set_length_leaf_def KeyContractCode_def KeyCodeLength_def h p bs k(1) k'(1) t mt_step_def)
qed

lemma example_collision_free: "collision_free example_poseidon {BalanceLeaf 7, NonceLeaf 7}" "collision_free example_poseidon {CodeLeaf 7, LengthLeaf 7}"
proof -
  have k: "key_input 7 t = [7, 0, 0, 0, 0, 0, ucast t, 0]" for t by (simp add: key_input_eq example_fea)
  show "collision_free example_poseidon {BalanceLeaf 7, NonceLeaf 7}" "collision_free example_poseidon {CodeLeaf 7, LengthLeaf 7}"
    by (simp_all add: collision_free_def inj_on_def example_poseidon_def k leaf_types)
qed

lemma example_empty_read: "read_leaf example_poseidon example_hashdb ([], []) [] (NonceLeaf 7) = Some 0"
proof -
  obtain key k where k: "mt_then defaultCapIn (keyEthAddr example_poseidon 7 LeafTypeNonce) = Some (Inr key)" "root_Fea key = Some k"
    by (rule example_key)
  have "leaf_Fea example_poseidon (NonceLeaf 7) = Some k" by (simp add: leaf_Fea_def KeyEthAddrNonce_def k)
  then show ?thesis by (simp add: read_leaf_val root_Fea_nil example_tree_val example_map_def del: read_leaf.simps)
qed

section \<open>The theorems\<close>

text \<open>
  C9. The state tree implements a map from the leaves of the accounts to numbers: after \<open>SetBalance\<close>, \<open>SetNonce\<close>, \<open>SetStorageAt\<close> or \<open>SetCode\<close> the
  readers see, under the new root, exactly the new values, modulo \<open>2 ^ 256\<close>, of the leaves that the operation sets, and under all other leaves what was there under the
  old root. It holds for every set of leaves on whose keys Poseidon does not collide.
\<close>

theorem state_tree_is_a_map:
  assumes "poseidon_4 P" "hashdb_ok H" "collision_free P L" "fst ` set (op_updates P op) \<subseteq> L" "l \<in> L"
    and "run_op P H op root uuid d = (Some (Inr (root', up)), d')"
  shows "read_leaf P H d' root' l = set_leaves (op_updates P op) (read_leaf P H d root) l"
  by (rule run_op_reads [OF assms(1,3,2,4-6)])

theorem state_tree_is_a_map_witness:
  "\<exists>root' up d'. run_op example_poseidon example_hashdb (OpBalance 7 5) [] ''id'' ([], []) = (Some (Inr (root', up)), d') \<and>
     read_leaf example_poseidon example_hashdb d' root' (BalanceLeaf 7) = Some 5 \<and>
     read_leaf example_poseidon example_hashdb d' root' (NonceLeaf 7) = Some 0"
proof -
  have "\<exists>root' up d'. run_op example_poseidon example_hashdb (OpBalance 7 5) [] ''id'' ([], []) = (Some (Inr (root', up)), d') \<and> root_Fea root' \<noteq> None"
    by (rule example_run_op) (simp_all add: root_Fea_nil)
  then obtain root' up d' where r: "run_op example_poseidon example_hashdb (OpBalance 7 5) [] ''id'' ([], []) = (Some (Inr (root', up)), d')"
    by (elim exE conjE)
  have "read_leaf example_poseidon example_hashdb d' root' l =
      set_leaves (op_updates example_poseidon (OpBalance 7 5)) (read_leaf example_poseidon example_hashdb ([], []) []) l" if "l \<in> {BalanceLeaf 7, NonceLeaf 7}" for l
    by (rule state_tree_is_a_map [OF example_poseidon_4 example_hashdb_ok example_collision_free(1) _ that r]) simp
  from this [of "BalanceLeaf 7"] this [of "NonceLeaf 7"] r example_empty_read show ?thesis by (simp del: read_leaf.simps run_op.simps)
qed

text \<open>
  A contract's code is read back: after \<open>SetCode\<close> the code of the address under the new root is the one that was set, through the hash in the tree and the
  program stored under it.
\<close>

theorem code_is_read_back:
  assumes "poseidon_4 P" "hashdb_ok H" "collision_free P {CodeLeaf a, LengthLeaf a}" "SetCode P H a code root uuid d = (Some (Inr (root', up)), d')"
  shows "GetCode P H d' a root' = Some (Inr code)"
  using assms by (rule GetCode_after_SetCode)

theorem code_is_read_back_witness:
  "\<exists>root' up d'. SetCode example_poseidon example_hashdb 7 [3, 2] [] ''id'' ([], []) = (Some (Inr (root', up)), d') \<and>
     GetCode example_poseidon example_hashdb d' 7 root' = Some (Inr [3, 2])"
proof -
  obtain root' up d' where c: "SetCode example_poseidon example_hashdb 7 [3, 2] [] ''id'' ([], []) = (Some (Inr (root', up)), d')"
    using example_SetCode [of 7 "[3, 2]" "''id''"] by (elim exE)
  show ?thesis using code_is_read_back [OF example_poseidon_4 example_hashdb_ok example_collision_free(2) c] c by (intro exI conjI)
qed

text \<open>
  C17. The genesis actions populate the tree as they say: if \<open>SetGenesis\<close> gets through them, every action was of a known type with readable numbers and code, and under the root that it
  returns every leaf has the value that the last action on it gives, or the one of the empty tree.
\<close>

theorem genesis_sets_the_leaves:
  assumes "poseidon_4 P" "hashdb_ok H" "collision_free P L" "fst ` set (genesis_updates P G actions) \<subseteq> L" "l \<in> L"
    and "SetGenesis_tree P H G uuid actions d = (Some (root, None), d')"
  shows "list_all (\<lambda>a. \<exists>op. action_op G a = Inr op) actions \<and>
    read_leaf P H d' root l = set_leaves (genesis_updates P G actions) (read_leaf P H d []) l"
proof -
  obtain d1 where l: "genesis_loop P H G uuid actions [] d = (Some (root, None), d1)" "hd_Flush H d1 uuid = (None, d')"
    using assms(6) by (auto simp: SetGenesis_tree_def tree_Flush_def split: prod.splits option.splits sum.splits)
  show ?thesis using genesis_loop_reads [OF assms(1,3,2) l(1) assms(4,5)] flush_reads [OF assms(2) l(2), of P root l] by (simp del: read_leaf.simps)
qed

definition example_genesis :: "GenesisAction list" where
  "example_genesis = [\<lparr>ga_Address = ''0x07'', ga_Type = 0, ga_StoragePosition = [], ga_Bytecode = [], ga_Value = ''5''\<rparr>,
     \<lparr>ga_Address = ''0x07'', ga_Type = 0, ga_StoragePosition = [], ga_Bytecode = [], ga_Value = ''6''\<rparr>]"

definition example_geth :: genesis_geth where
  "example_geth = \<lparr>gg_HexToAddress = (\<lambda>_. 7), gg_Hex2Bytes = (\<lambda>_. [])\<rparr>"

lemma example_actions:
  "map (action_op example_geth) example_genesis = [Inr (Some (OpBalance 7 5)), Inr (Some (OpBalance 7 6))]"
  by (simp add: example_genesis_def action_op_def example_geth_def gg_number_def DecodeBigIntHexOrDecimal_def HasPrefix0x_def
      big_SetString_def parse_nat_def digit_val_def leaf_types)

theorem genesis_sets_the_leaves_witness:
  "\<exists>root d'. SetGenesis_tree example_poseidon example_hashdb example_geth ''id'' example_genesis ([], []) = (Some (root, None), d') \<and>
     read_leaf example_poseidon example_hashdb d' root (BalanceLeaf 7) = Some 6"
proof -
  obtain a b where ab: "example_genesis = [a, b]" by (simp add: example_genesis_def)
  have op: "action_op example_geth a = Inr (Some (OpBalance 7 5))" "action_op example_geth b = Inr (Some (OpBalance 7 6))"
    using example_actions unfolding ab by simp_all
  have "\<exists>root' up d'. run_op example_poseidon example_hashdb (OpBalance 7 5) [] ''id'' ([], []) = (Some (Inr (root', up)), d') \<and> root_Fea root' \<noteq> None"
    by (rule example_run_op) (simp_all add: root_Fea_nil)
  then obtain root1 up1 d1 where r1: "run_op example_poseidon example_hashdb (OpBalance 7 5) [] ''id'' ([], []) = (Some (Inr (root1, up1)), d1)"
    "root_Fea root1 \<noteq> None" by (elim exE conjE)
  have "\<exists>root' up d'. run_op example_poseidon example_hashdb (OpBalance 7 6) root1 ''id'' d1 = (Some (Inr (root', up)), d') \<and> root_Fea root' \<noteq> None"
    by (rule example_run_op [OF r1(2)]) simp_all
  then obtain root up d' where r2: "run_op example_poseidon example_hashdb (OpBalance 7 6) root1 ''id'' d1 = (Some (Inr (root, up)), d')"
    by (elim exE conjE)
  have g: "SetGenesis_tree example_poseidon example_hashdb example_geth ''id'' example_genesis ([], []) = (Some (root, None), d')"
    using r1(1) r2 by (simp add: SetGenesis_tree_def ab op tree_Flush_def del: run_op.simps) (simp add: example_hashdb_def)
  have u: "genesis_updates example_poseidon example_geth example_genesis = [(BalanceLeaf 7, 5), (BalanceLeaf 7, 6)]"
    by (simp add: genesis_updates_def genesis_ops_def ab op)
  have "read_leaf example_poseidon example_hashdb d' root (BalanceLeaf 7) =
      set_leaves (genesis_updates example_poseidon example_geth example_genesis) (read_leaf example_poseidon example_hashdb ([], []) []) (BalanceLeaf 7)"
    using genesis_sets_the_leaves [OF example_poseidon_4 example_hashdb_ok example_collision_free(1) _ _ g, of "BalanceLeaf 7"] by (simp add: u del: read_leaf.simps)
  then show ?thesis using g by (simp add: u del: read_leaf.simps)
qed

end
