(* ===== verification/Spec2Isabelle.thy ===== *)
theory Spec2Isabelle
  imports WorkerRuns BestFit L1Producer L1Consumer FinalizerRuns SequenceSender Pool ForkID DSQueries AggregatorCases GasPrice L1InfoTree Genesis
begin

text \<open>
  The zkEVM node of \<open>src/Astar-zkevm-node\<close>: a verification of the transaction pool, of the sequencer, of the L1
  synchronization, of the sender of sequences, the aggregator of proofs and the manager of Ethereum transactions, of the state
  tree, and of the codecs they share.

  \<^bold>\<open>The program.\<close> The node sequences transactions into batches. The \<^emph>\<open>pool\<close> validates the transactions of users, executes them
  once to know their resources, and stores them in a table the sequencer reads. The \<^emph>\<open>worker\<close> keeps the pool of a
  sequencer: one address queue per sender and a list of the ready transactions sorted by gas
  price. The \<^emph>\<open>finalizer\<close> takes the best transaction that fits the resources left in the current
  batch, lets the executor process it, stores the result and tells the worker; it closes the
  batch when it is full or a deadline has passed, processes the forced batches that wait, and
  opens the next batch. The \<^emph>\<open>synchronizer\<close> reads the blocks of L1 in parallel: a producer asks the
  sync status for ranges of blocks, hands them to workers, and a filter puts the answers in order
  for the consumer, which processes them one after the other. The \<^emph>\<open>transaction manager\<close> signs, sends and
  monitors the node's own transactions on L1, over a table in the database; the \<^emph>\<open>sequence sender\<close> gives it the closed batches. The \<^emph>\<open>aggregator\<close> lets
  provers prove the batches, aggregates their proofs pair by pair, and gives the manager the final proof of a run of batches. The \<^emph>\<open>state tree\<close> keeps the accounts
  in a hash database. A \<^emph>\<open>suggester\<close> sets the gas prices of the pool. A table of
  \<^emph>\<open>fork ids\<close> says which rules a batch follows. Batches travel as bytes, which
  the \<^emph>\<open>batch codec\<close> encodes and decodes.

  \<^bold>\<open>Theories and sources\<close> (paths under \<open>src/Astar-zkevm-node\<close>).

  \<^item> \<open>Prelude\<close>: Go's integers, strings, maps, errors and slices; the locale of finite maps and its
    interpretation on association lists; loops over maps.
  \<^item> \<open>Resources\<close>: \<open>ZKCounters\<close>, \<open>BatchResources\<close> and the constraints (\<open>state/types.go\<close>, \<open>state/config.go\<close>,
    \<open>state/errors.go\<close>); the locale of budgets, interpreted on both.
  \<^item> \<open>TxSortedList\<close>: \<open>sequencer/txsorted_list.go\<close>, \<open>txtracker.go\<close>. \<open>AddrQueue\<close>: \<open>sequencer/addrqueue.go\<close>.
    \<open>SeqWorker\<close>, \<open>WorkerRuns\<close>, \<open>BestFit\<close>: \<open>sequencer/worker.go\<close>, its operations, its runs as a step
    relation, and the goroutines of \<open>GetBestFittingTx\<close>. Trackers are shared by pointer in the
    code; here they live in a heap, \<open>txref\<close> being the pointer.
  \<^item> \<open>Finalizer\<close>, \<open>FinalizerTx\<close>: \<open>processTransaction\<close> of \<open>sequencer/finalizer.go\<close> and everything it
    calls, over the worker's model. \<open>FinalizerBatch\<close>, \<open>FinalizerRuns\<close>: the forced batches, closing
    and opening batches, the closing signals, the loops. The answers to its requests, the clock and the database
    manager are parameters, the records \<open>fin_env\<close> and \<open>batch_env\<close>. \<open>StateExecutor\<close>: \<open>ProcessBatch\<close> of \<open>state/batch.go\<close> and
    the conversions of \<open>state/converters.go\<close> that make these answers from those of the executor.
  \<^item> \<open>L1Ranges\<close>, \<open>L1SyncStatus\<close>, \<open>L1Worker\<close>, \<open>L1Workers\<close>, \<open>L1Cache\<close>, \<open>L1Filter\<close>, \<open>L1Producer\<close>, \<open>L1Consumer\<close>:
    \<open>synchronizer/block_range.go\<close>, \<open>l1_live_block_ranges.go\<close>, \<open>l1_syncstatus.go\<close>,
    \<open>l1_worker_etherman.go\<close>, \<open>l1_workers.go\<close>, \<open>generic_cache.go\<close> with the decorator of the workers,
    the ordering filter, the producer and the consumer.
  \<^item> \<open>HexCodec\<close>: \<open>hex/hex.go\<close>, \<open>encoding/encoding.go\<close>. \<open>BatchCodec\<close>: \<open>state/helper.go\<close> and the legacy
    transactions of \<open>state/transaction.go\<close>, over the contract of go-ethereum's RLP codec, the
    locale \<open>geth_laws\<close>, which a small RLP codec written here satisfies.
  \<^item> \<open>ExecutorErrors\<close>: \<open>state/runtime/executor/errors.go\<close>, \<open>state/runtime/runtime.go\<close>.
  \<^item> \<open>DataStream\<close>, \<open>DSQueries\<close>: \<open>state/datastream.go\<close>, over the contract of the stream server, the locale
    \<open>stream_server\<close>; the queries of \<open>state/pgstatestorage/datastream.go\<close> on the tables as lists of rows.
  \<^item> \<open>EthTxStorage\<close>, \<open>EthTxManager\<close>, \<open>EthTxRuns\<close>, \<open>EthTxResults\<close>: \<open>ethtxmanager/pgstorage.go\<close> and \<open>monitoredtx.go\<close>, a
    run of \<open>monitorTx\<close> as the list of its effects, the interleaving of the runs with the other writers
    of the table, and the loop of the owners. The table is the list of its rows, which the locale
    \<open>mtx_table\<close> presents as a map. \<open>GoFloat\<close>: Go's floating-point numbers.
  \<^item> \<open>SequenceSender\<close>: \<open>sequencesender/sequencesender.go\<close>, over the transaction manager.
  \<^item> \<open>PoolStorage\<close>, \<open>EffectiveGasPrice\<close>, \<open>Pool\<close>: \<open>pool/pgpoolstorage\<close>, its tables as lists of rows that the locale
    \<open>keyed_table\<close> presents by hash; \<open>pool/effectivegasprice.go\<close>; \<open>pool/pool.go\<close> with \<open>state/crypto.go\<close>. The chain state is the record
    \<open>pool_chain\<close>, go-ethereum the record \<open>pool_geth\<close>.
  \<^item> \<open>ForkID\<close>: \<open>state/forkid.go\<close>, its table and \<open>processForkID\<close> of the synchronizer. \<open>GasPrice\<close>: \<open>gasprice\<close>, over the pool's tables.
  \<^item> \<open>Threads\<close>: goroutines as programs of atomic steps over a shared state, each step with the answers of the world; their runs in any
    interleaving, and the locale \<open>shared_invariant\<close> of the invariants that all steps keep. A polling loop is a step that is tried again; a
    transaction takes effect at its commit.
  \<^item> \<open>ProofStorage\<close>, \<open>Prover\<close>, \<open>Aggregator\<close>, \<open>AggregatorRuns\<close>, \<open>AggregatorCases\<close>: \<open>state/pgstatestorage/proof.go\<close>, \<open>aggregator/prover/prover.go\<close>,
    \<open>aggregator/aggregator.go\<close> with \<open>profitabilitychecker.go\<close>; the invariant and its interpretation; the theorems with their instances.
  \<^item> \<open>L1InfoTree\<close>: \<open>l1infotree\<close>. \<open>MerkleKeys\<close>, \<open>CodeHash\<close>, \<open>StateTree\<close>: \<open>merkletree/split.go\<close>, \<open>key.go\<close> and \<open>leaf.go\<close>, and \<open>tree.go\<close>, over Poseidon and
    the hash database as parameters (\<open>poseidon\<close>, \<open>hashdb\<close>, \<open>hashdb_ok\<close>). \<open>Genesis\<close>: the actions of \<open>state/genesis.go\<close>.

  \<^bold>\<open>What is shown.\<close>

  \<^item> Worker: in every reachable state the sorted list holds exactly the ready transactions of the
    queues and no operation panics; each operation does what it
    says on every branch; the lock that \<open>AddTxTracker\<close> releases does no harm with one caller, and loses a transaction with two; for every interleaving of its goroutines \<open>GetBestFittingTx\<close> ends and
    returns the first transaction that fits.
  \<^item> Finalizer: processing a transaction stops exactly on the answers that make it panic or halt; otherwise it keeps the
    worker consistent and the batch within its
    resources, and stores and counts it at most once; closing and
    opening continues on the same root, or on that of the last forced batch in between, with all resources accounted for;
    forced batches are processed in order and without gaps; the loop over
    the effective gas price ends.
  \<^item> L1: no block is skipped for good: over every run of the status each block below a range that is offered has been
    retrieved or is in a range in flight; the blocks of a failed range to the latest block are asked for again only when
    L1 has a higher one; what the filter sends is in order and what the consumer
    gets it accepts.
  \<^item> Codecs: a batch decodes to what was encoded, decoding returns on every input.
  \<^item> Data stream: every entry is read back as written; from the tables to the stream, a round writes the items of
    exactly the closed batches of its range, each with its blocks and transactions, if the server delivers the batches in
    order, which the statement does not ask for; out of order the walk loses blocks.
  \<^item> Ethereum transactions: whatever the network, the database and other goroutines do, and if the
    process crashes at any point, a transaction is recorded before it is sent; it is confirmed
    only with a receipt in a synchronized block, and never sent again afterwards; when the network
    answers it is confirmed, and its owner gets the result once.
  \<^item> Sequences: what is sent is a run of closed batches after the last virtual one, never past a fork
    upgrade, and recorded under an id that names it; the loop that collects them ends at the open batch.
  \<^item> Pool: which transactions are accepted, as one formula; what is stored and read back; every reachable table
    is readable; blocked senders are refused; the break-even price; the price the follower of L1 sets. Fork ids: the intervals implement the list of
    upgrade events.
  \<^item> Aggregator: in every interleaving, and whatever fails, what is sent for a run of batches carries a final proof of exactly these batches; a proof
    that nobody works on attests its range; a turn of a prover that answers stores the proof of the next batch; what is verified is cleaned up.
  \<^item> State: the tree implements a map from leaves to numbers, code is read back, and genesis sets what its actions say; the L1 info root is that
    of the full tree; keys, roots and code hashes bind what they are made of.
  \<^item> Where the code does not do what it means to, the theorem says what it does: lost transactions,
    resources charged twice, a retry that panics, a numbering that restarts, blocks skipped after
    a reset, a truncated header that is no error, proofs that overlap after a lock was removed, a suggester that never
    sets a price.

  \<^bold>\<open>Bounds and termination.\<close> There is no fuel. Loops over lists are structural; those over positions
  and numbers have a measure; a loop that may not end (\<open>process_loop\<close>, \<open>finalizeBatch\<close>,
  \<open>ProcessPendingMonitoredTxs\<close>, \<open>sequence_loop\<close>, the retries for the last block of L1) is a partial function into \<open>option\<close>, and that it returns,
  or does not, is proved. Counters and block numbers are words of their width, so wrap-around is part of the model;
  where a theorem needs a number below the end of its width it says so. A Go panic is \<open>None\<close>, or \<open>Panicked\<close> in the
  finalizer; \<open>halt\<close> is \<open>Halted\<close>, \<open>log.Fatal\<close> is \<open>None\<close> or \<open>Exited\<close>.

  \<^bold>\<open>Not modelled.\<close> The databases (SQL over PostgreSQL, except the
  tables of the pool, of the transaction manager, of the fork ids and of the proofs, and the queries of the data stream), the main loop of the synchronizer with the processing of
  its events, the storing of batches and blocks in the state, the gRPC clients and generated code, the
  JSON-RPC server, the Ethereum client and contract
  bindings, configuration, commands, logs and metrics: they are calls of the database, of the network and of libraries, with little state of their own. Of what is modelled: mutexes make each
  locked section one step, and contexts are cancelled only in the aggregator; the finalizer takes the effective gas price as a parameter;
  goroutines are interleaved where a theorem is about them (\<open>GetBestFittingTx\<close>, \<open>AddTxTracker\<close>, \<open>monitorTxs\<close>, all of the aggregator).
  Hash functions are parameters; a theorem that needs two hashes to differ names the inputs on which the function must not collide.
\<close>

end
